(* ===== verification/Prelude.thy ===== *)
theory Prelude
  imports Main "HOL-Library.Word"
begin

text \<open>
  Shared vocabulary of the development: names for the machine integer types the kernel sources
  use, the collections of rewrite rules the component theories extend, and the facts on powers of
  two, bit masks, bounded searches and array updates that several components need.
\<close>

unbundle bit_operations_syntax

type_synonym u8 = "8 word"
type_synonym u16 = "16 word"
type_synonym u32 = "32 word"
type_synonym u64 = "64 word"

text \<open>Byte-addressed memory: an address (or an offset into a buffer) to the byte stored there.\<close>

type_synonym bytes = "nat \<Rightarrow> u8"

named_theorems frame_simps \<open>fields an operation leaves alone\<close>
named_theorems inv_intros \<open>operations preserve the component's invariant\<close>

section \<open>Powers of two and alignment masks\<close>

lemma and_mask_eq_mod: "(n::nat) AND (2 ^ k - 1) = n mod 2 ^ k"
  by (metis mask_eq_exp_minus_1 take_bit_eq_mask take_bit_eq_mod)

lemma div_with_rest: "r < d \<Longrightarrow> (d * h + r) div d = (h::nat)"
  by simp

lemma nat_power2_decomp: "n \<noteq> 0 \<Longrightarrow> \<exists>k m. n = 2 ^ k * m \<and> odd (m::nat)"
proof (induction n rule: less_induct)
  case (less n)
  show ?case
  proof (cases "odd n")
    case True
    then show ?thesis by (intro exI[of _ 0] exI[of _ n]) simp
  next
    case False
    then obtain h where h: "n = 2 * h" by (auto elim: evenE)
    with less.prems have "h < n" "h \<noteq> 0" by auto
    from less.IH[OF this] obtain k m where "h = 2 ^ k * m" "odd m" by blast
    with h show ?thesis by (intro exI[of _ "Suc k"] exI[of _ m]) simp
  qed
qed

lemma bit_double_nat: "bit ((2::nat) ^ k * m) i \<longleftrightarrow> k \<le> i \<and> bit m (i - k)"
  by (metis bit_push_bit_iff_nat push_bit_eq_mult mult.commute)

lemma and_pred_zero_power2:
  assumes "n \<noteq> 0"
  shows "(n::nat) AND (n - 1) = 0 \<longleftrightarrow> (\<exists>k. n = 2 ^ k)"
proof
  assume "\<exists>k. n = 2 ^ k"
  then obtain k where k: "n = 2 ^ k" by blast
  show "n AND (n - 1) = 0" unfolding k and_mask_eq_mod by simp
next
  assume zero: "n AND (n - 1) = 0"
  from nat_power2_decomp[OF assms] obtain k m where n: "n = 2 ^ k * m" and m: "odd m" by blast
  have "m = 1"
  proof (rule ccontr)
    assume "m \<noteq> 1"
    with m obtain h where h: "m = 2 * h + 1" "h \<noteq> 0" by (auto elim!: oddE)
    have "n - 1 = 2 ^ Suc k * h + (2 ^ k - 1)" unfolding n h by (simp add: algebra_simps)
    moreover have "(2 ^ k - 1 :: nat) < 2 ^ Suc k"
      unfolding power_Suc using zero_less_power[of "2::nat" k] by linarith
    ultimately have d1: "drop_bit (Suc k) (n - 1) = h"
      by (simp only: drop_bit_eq_div div_with_rest)
    have "n = 2 ^ Suc k * h + 2 ^ k" unfolding n h by (simp add: algebra_simps)
    then have d0: "drop_bit (Suc k) n = h" by (simp add: drop_bit_eq_div)
    have "drop_bit (Suc k) (n AND (n - 1)) = h" by (simp only: drop_bit_and d0 d1 and.idem)
    with zero h show False by simp
  qed
  with n show "\<exists>k. n = 2 ^ k" by auto
qed

section \<open>Bounded searches over an array\<close>

text \<open>Wrapping counters held as natural numbers.\<close>

definition add64 :: "nat \<Rightarrow> nat \<Rightarrow> nat" where
  "add64 a b = (a + b) mod 2 ^ 64"

definition sub64 :: "nat \<Rightarrow> nat \<Rightarrow> nat" where
  "sub64 a b = (a + (2 ^ 64 - b)) mod 2 ^ 64"

definition add32 :: "nat \<Rightarrow> nat \<Rightarrow> nat" where
  "add32 a b = (a + b) mod 2 ^ 32"

definition sub32 :: "nat \<Rightarrow> nat \<Rightarrow> nat" where
  "sub32 a b = (a + (2 ^ 32 - b)) mod 2 ^ 32"

text \<open>
  The kernel's tables are fixed arrays scanned from index 0 (or 1): the loop body runs for the
  first index that satisfies a condition. \<open>find_from\<close> is that scan.
\<close>

fun find_idx :: "(nat \<Rightarrow> bool) \<Rightarrow> nat list \<Rightarrow> nat option" where
  "find_idx P [] = None"
| "find_idx P (i # is) = (if P i then Some i else find_idx P is)"

definition find_from :: "nat \<Rightarrow> nat \<Rightarrow> (nat \<Rightarrow> bool) \<Rightarrow> nat option" where
  "find_from a b P = find_idx P [a..<b]"

lemma find_idx_Some: "find_idx P is = Some i \<Longrightarrow> i \<in> set is \<and> P i"
  by (induction "is") (auto split: if_splits)

lemma find_idx_None: "find_idx P is = None \<longleftrightarrow> (\<forall>i\<in>set is. \<not> P i)"
  by (induction "is") auto

lemma find_from_Some: "find_from a b P = Some i \<Longrightarrow> a \<le> i \<and> i < b \<and> P i"
  unfolding find_from_def by (drule find_idx_Some) simp

lemma find_from_None: "find_from a b P = None \<longleftrightarrow> (\<forall>i. a \<le> i \<longrightarrow> i < b \<longrightarrow> \<not> P i)"
  unfolding find_from_def find_idx_None by auto

lemma find_from_first: "find_from a b P = Some i \<Longrightarrow> a \<le> j \<Longrightarrow> j < i \<Longrightarrow> \<not> P j"
proof (induction "b - a" arbitrary: a)
  case 0
  then show ?case by (simp add: find_from_def)
next
  case (Suc n)
  then have u: "[a..<b] = a # [Suc a..<b]" by (simp add: upt_conv_Cons)
  show ?case
  proof (cases "P a")
    case True
    with Suc.prems show ?thesis by (simp add: find_from_def u)
  next
    case False
    with Suc.prems have "find_from (Suc a) b P = Some i" by (simp add: find_from_def u)
    moreover have "n = b - Suc a" using Suc.hyps(2) by simp
    ultimately show ?thesis using Suc.hyps(1)[of "Suc a"] Suc.prems False by (cases "j = a") auto
  qed
qed

end
