(* ===== verification/KLib.thy ===== *)
theory KLib
  imports Prelude
begin

text \<open>
  The freestanding run-time of \<open>kernel/kernel.c\<close>: error codes (\<open>include/kernel.h\<close>), the memory
  and string loops the compiler would otherwise take from a C library, the unaligned
  little-endian accessors and the range and power-of-two tests every other component calls.

  A buffer is a byte-addressed memory \<open>bytes\<close>. A C string is the list of its characters before the
  terminating NUL; reading at the end of the list reads the terminator (\<open>cur\<close>).
\<close>

section \<open>Error codes\<close>

abbreviation K_OK :: int where "K_OK \<equiv> 0"
abbreviation K_EINVAL :: int where "K_EINVAL \<equiv> - 1"
abbreviation K_ENOMEM :: int where "K_ENOMEM \<equiv> - 2"
abbreviation K_ENOENT :: int where "K_ENOENT \<equiv> - 3"
abbreviation K_EBUSY :: int where "K_EBUSY \<equiv> - 4"
abbreviation K_EFAULT :: int where "K_EFAULT \<equiv> - 5"
abbreviation K_ENOTSUP :: int where "K_ENOTSUP \<equiv> - 6"
abbreviation K_EIO :: int where "K_EIO \<equiv> - 7"
abbreviation K_ETIMEDOUT :: int where "K_ETIMEDOUT \<equiv> - 8"
abbreviation K_EROFS :: int where "K_EROFS \<equiv> - 9"
abbreviation K_EAGAIN :: int where "K_EAGAIN \<equiv> - 10"
abbreviation K_EPERM :: int where "K_EPERM \<equiv> - 11"
abbreviation K_E2BIG :: int where "K_E2BIG \<equiv> - 12"
abbreviation K_ENOEXEC :: int where "K_ENOEXEC \<equiv> - 13"
abbreviation K_EDEADLK :: int where "K_EDEADLK \<equiv> - 14"
abbreviation K_EEXIST :: int where "K_EEXIST \<equiv> - 15"
abbreviation K_ENOSPC :: int where "K_ENOSPC \<equiv> - 16"

definition strerror_names :: "string list" where
  "strerror_names =
    [''ok'', ''invalid argument'', ''out of memory'', ''not found'', ''busy'', ''invalid memory'',
     ''unsupported'', ''I/O error'', ''timeout'', ''read-only'', ''try again'',
     ''permission denied'', ''limit exceeded'', ''invalid RIEF'', ''deadlock'', ''already exists'',
     ''no space left on volume'', ''network down'', ''no route'', ''connection refused'',
     ''connection reset'', ''address in use'', ''message too large'', ''connection in progress'',
     ''canceled'']"

definition k_strerror :: "int \<Rightarrow> string" where
  "k_strerror e =
    (if e \<le> 0 \<and> nat (- e) < length strerror_names then strerror_names ! nat (- e)
     else ''unknown error'')"

section \<open>Memory loops\<close>

fun mem_zero :: "bytes \<Rightarrow> nat \<Rightarrow> nat \<Rightarrow> bytes" where
  "mem_zero m d 0 = m"
| "mem_zero m d (Suc n) = mem_zero (m(d := 0)) (Suc d) n"

fun mem_copy :: "bytes \<Rightarrow> nat \<Rightarrow> nat \<Rightarrow> nat \<Rightarrow> bytes" where
  "mem_copy m d s 0 = m"
| "mem_copy m d s (Suc n) = mem_copy (m(d := m s)) (Suc d) (Suc s) n"

fun memset :: "bytes \<Rightarrow> nat \<Rightarrow> int \<Rightarrow> nat \<Rightarrow> bytes" where
  "memset m d v 0 = m"
| "memset m d v (Suc n) = memset (m(d := word_of_int v)) (Suc d) v n"

text \<open>The descending loop of \<open>memmove\<close>.\<close>

fun memmove_down :: "bytes \<Rightarrow> nat \<Rightarrow> nat \<Rightarrow> nat \<Rightarrow> bytes" where
  "memmove_down m a b 0 = m"
| "memmove_down m a b (Suc n) = memmove_down (m(a + n := m (b + n))) a b n"

definition memmove :: "bytes \<Rightarrow> nat \<Rightarrow> nat \<Rightarrow> nat \<Rightarrow> bytes" where
  "memmove m d s n = (if d < s then mem_copy m d s n else memmove_down m d s n)"

fun memcmp :: "bytes \<Rightarrow> nat \<Rightarrow> bytes \<Rightarrow> nat \<Rightarrow> nat \<Rightarrow> int" where
  "memcmp a x b y 0 = 0"
| "memcmp a x b y (Suc n) =
     (if a x \<noteq> b y then int (unat (a x)) - int (unat (b y)) else memcmp a (Suc x) b (Suc y) n)"

text \<open>A copy between two buffers: \<open>n\<close> bytes of \<open>b\<close> from \<open>off\<close> on, to \<open>p\<close> of \<open>m\<close>.\<close>

definition put_bytes :: "bytes \<Rightarrow> nat \<Rightarrow> bytes \<Rightarrow> nat \<Rightarrow> nat \<Rightarrow> bytes" where
  "put_bytes m p b off n = fold (\<lambda>i m. m(p + i := b (off + i))) [0..<n] m"

section \<open>Strings\<close>

abbreviation NUL :: char where "NUL \<equiv> CHR 0x00"

fun cur :: "string \<Rightarrow> char" where
  "cur [] = NUL"
| "cur (c # s) = c"

definition cstr :: "string \<Rightarrow> bool" where
  "cstr s \<longleftrightarrow> NUL \<notin> set s"

fun str_len :: "string \<Rightarrow> nat" where
  "str_len [] = 0"
| "str_len (c # s) = (if c = NUL then 0 else Suc (str_len s))"

function str_eq :: "string \<Rightarrow> string \<Rightarrow> bool" where
  "str_eq a b =
     (if cur a \<noteq> NUL \<and> cur a = cur b then str_eq (tl a) (tl b) else cur a = cur b)"
  by pat_completeness auto
termination
proof (relation "measure (\<lambda>(a, b). length a)", goal_cases)
  case 1
  then show ?case by simp
next
  case (2 a b)
  then show ?case by (cases a) auto
qed

fun str_copy_loop :: "nat \<Rightarrow> string \<Rightarrow> string" where
  "str_copy_loop 0 s = []"
| "str_copy_loop (Suc k) s = (if cur s = NUL then [] else cur s # str_copy_loop k (tl s))"

text \<open>\<open>str_copy d s cap\<close>: the string the destination buffer holds afterwards.\<close>

definition str_copy :: "string \<Rightarrow> string \<Rightarrow> nat \<Rightarrow> string" where
  "str_copy d s cap = (if cap = 0 then d else str_copy_loop (cap - 1) s)"

section \<open>Range and alignment tests\<close>

definition span_ok :: "nat \<Rightarrow> nat \<Rightarrow> nat \<Rightarrow> bool" where
  "span_ok off n sz \<longleftrightarrow> off \<le> sz \<and> n \<le> sz - off"

definition power2 :: "nat \<Rightarrow> bool" where
  "power2 n \<longleftrightarrow> n \<noteq> 0 \<and> n AND (n - 1) = 0"

section \<open>Little-endian accessors\<close>

definition rd16 :: "bytes \<Rightarrow> nat \<Rightarrow> u16" where
  "rd16 b p = ucast (b p) OR push_bit 8 (ucast (b (p + 1)))"

definition rd32 :: "bytes \<Rightarrow> nat \<Rightarrow> u32" where
  "rd32 b p = ucast (rd16 b p) OR push_bit 16 (ucast (rd16 b (p + 2)))"

definition rd64 :: "bytes \<Rightarrow> nat \<Rightarrow> u64" where
  "rd64 b p = ucast (rd32 b p) OR push_bit 32 (ucast (rd32 b (p + 4)))"

definition wr16 :: "bytes \<Rightarrow> nat \<Rightarrow> u16 \<Rightarrow> bytes" where
  "wr16 b p v = b(p := ucast v, p + 1 := ucast (drop_bit 8 v))"

definition wr32 :: "bytes \<Rightarrow> nat \<Rightarrow> u32 \<Rightarrow> bytes" where
  "wr32 b p v = fold (\<lambda>i m. m(p + i := ucast (drop_bit (i * 8) v))) [0..<4] b"

definition wr64 :: "bytes \<Rightarrow> nat \<Rightarrow> u64 \<Rightarrow> bytes" where
  "wr64 b p v = fold (\<lambda>i m. m(p + i := ucast (drop_bit (i * 8) v))) [0..<8] b"

section \<open>What the loops compute\<close>

lemma mem_zero_apply: "mem_zero m d n a = (if d \<le> a \<and> a < d + n then 0 else m a)"
proof (induction n arbitrary: m d)
  case 0
  then show ?case by auto
next
  case (Suc n)
  show ?case unfolding mem_zero.simps Suc.IH by auto
qed

lemma put_bytes_apply:
  "put_bytes m p b off n a = (if p \<le> a \<and> a < p + n then b (off + (a - p)) else m a)"
  unfolding put_bytes_def by (induction n) auto

lemma memset_apply: "memset m d v n a = (if d \<le> a \<and> a < d + n then word_of_int v else m a)"
proof (induction n arbitrary: m d)
  case 0
  then show ?case by auto
next
  case (Suc n)
  show ?case unfolding memset.simps Suc.IH by auto
qed

text \<open>The ascending loop is right unless the destination starts inside the source range.\<close>

lemma mem_copy_apply:
  "d \<le> s \<or> s + n \<le> d \<Longrightarrow>
   mem_copy m d s n a = (if d \<le> a \<and> a < d + n then m (s + (a - d)) else m a)"
proof (induction n arbitrary: m d s)
  case 0
  then show ?case by auto
next
  case (Suc n)
  then have "Suc d \<le> Suc s \<or> Suc s + n \<le> Suc d" by auto
  note IH = Suc.IH[OF this, of "m(d := m s)"]
  have "Suc d \<le> a \<Longrightarrow> a < d + Suc n \<Longrightarrow> Suc s + (a - Suc d) \<noteq> d" using Suc.prems by auto
  moreover have "Suc d \<le> a \<Longrightarrow> Suc s + (a - Suc d) = s + (a - d)" by auto
  ultimately show ?case unfolding mem_copy.simps IH by auto
qed

lemma memmove_down_apply:
  "s \<le> d \<Longrightarrow>
   memmove_down m d s n a = (if d \<le> a \<and> a < d + n then m (s + (a - d)) else m a)"
proof (induction n arbitrary: m)
  case 0
  then show ?case by auto
next
  case (Suc n)
  note IH = Suc.IH[OF Suc.prems, of "m(d + n := m (s + n))"]
  show ?case unfolding memmove_down.simps IH using Suc.prems by (auto simp: less_Suc_eq)
qed

lemma memcmp_eq_0: "memcmp a x b y n = 0 \<longleftrightarrow> (\<forall>i<n. a (x + i) = b (y + i))"
proof (induction a x b y n rule: memcmp.induct)
  case (1 a x b y)
  then show ?case by simp
next
  case (2 a x b y n)
  show ?case
  proof (cases "a x = b y")
    case True
    with 2 show ?thesis by (auto simp: less_Suc_eq_0_disj)
  next
    case False
    then have "uint (a x) \<noteq> uint (b y)" by (simp add: word_uint_eq_iff)
    moreover have "\<not> (\<forall>i<Suc n. a (x + i) = b (y + i))" using False by force
    ultimately show ?thesis using False by simp
  qed
qed

lemma cstr_simps [simp]: "cstr []" "cstr (c # s) \<longleftrightarrow> c \<noteq> NUL \<and> cstr s"
  by (auto simp: cstr_def)

lemma cstr_append [simp]: "cstr (a @ b) \<longleftrightarrow> cstr a \<and> cstr b"
  by (auto simp: cstr_def)

lemma str_len_cstr [simp]: "cstr s \<Longrightarrow> str_len s = length s"
  by (induction s) auto

declare str_eq.simps [simp del]

lemma str_eq_iff [simp]: "cstr a \<Longrightarrow> cstr b \<Longrightarrow> str_eq a b \<longleftrightarrow> a = b"
proof (induction a arbitrary: b)
  case Nil
  then show ?case by (cases b) (auto simp: str_eq.simps)
next
  case (Cons c a)
  then show ?case by (cases b) (auto simp: str_eq.simps[of "c # a"])
qed

lemma str_copy_loop_take: "cstr s \<Longrightarrow> str_copy_loop k s = take k s"
proof (induction k arbitrary: s)
  case 0
  then show ?case by simp
next
  case (Suc k)
  then show ?case by (cases s) auto
qed

lemma str_copy_take: "cstr s \<Longrightarrow> 0 < cap \<Longrightarrow> str_copy d s cap = take (cap - 1) s"
  by (simp add: str_copy_def str_copy_loop_take)

lemma str_copy_fits: "cstr s \<Longrightarrow> length s < cap \<Longrightarrow> str_copy d s cap = s"
  by (simp add: str_copy_take)

lemma length_str_copy_loop: "length (str_copy_loop k s) \<le> k"
  by (induction k s rule: str_copy_loop.induct) auto

lemma length_str_copy: "0 < cap \<Longrightarrow> length (str_copy d s cap) < cap"
  using length_str_copy_loop[of "cap - 1" s] by (simp add: str_copy_def)

lemma cstr_str_copy_loop: "cstr (str_copy_loop k s)"
  by (induction k s rule: str_copy_loop.induct) auto

lemma cstr_str_copy: "0 < cap \<Longrightarrow> cstr (str_copy d s cap)"
  by (simp add: str_copy_def cstr_str_copy_loop)

lemma span_ok_iff: "span_ok off n sz \<longleftrightarrow> off + n \<le> sz"
  by (auto simp: span_ok_def)

lemma power2_iff: "power2 n \<longleftrightarrow> (\<exists>k. n = 2 ^ k)"
proof (cases "n = 0")
  case True
  then show ?thesis by (simp add: power2_def)
next
  case False
  with and_pred_zero_power2[OF False] show ?thesis by (simp add: power2_def)
qed

lemma power2_pos: "power2 n \<Longrightarrow> 0 < n"
  by (simp add: power2_def)

lemma power2_mask: "power2 a \<Longrightarrow> p AND (a - 1) = p mod a"
  unfolding power2_iff using and_mask_eq_mod by blast

section \<open>Accessors: round trips and frames\<close>

lemma fold_store_apply:
  "fold (\<lambda>i m. m(p + i := f i)) [0..<n] b a = (if p \<le> a \<and> a < p + n then f (a - p) else b a)"
  by (induction n) auto

lemma wr16_apply:
  "wr16 b p v a = (if p \<le> a \<and> a < p + 2 then ucast (drop_bit ((a - p) * 8) v) else b a)"
proof -
  have "p \<le> a \<and> a < p + 2 \<longleftrightarrow> a = p \<or> a = p + 1" by auto
  then show ?thesis by (auto simp: wr16_def)
qed

lemma wr32_apply:
  "wr32 b p v a = (if p \<le> a \<and> a < p + 4 then ucast (drop_bit ((a - p) * 8) v) else b a)"
  unfolding wr32_def fold_store_apply ..

lemma wr64_apply:
  "wr64 b p v a = (if p \<le> a \<and> a < p + 8 then ucast (drop_bit ((a - p) * 8) v) else b a)"
  unfolding wr64_def fold_store_apply ..

lemma bit_rd16: "bit (rd16 b p) n \<longleftrightarrow> n < 16 \<and> bit (b (p + n div 8)) (n mod 8)"
proof -
  consider "n < 8" | "8 \<le> n" "n < 16" | "16 \<le> n" by linarith
  then show ?thesis
  proof cases
    case 1
    then show ?thesis by (simp add: rd16_def bit_simps)
  next
    case 2
    then have "n div 8 = 1" "n mod 8 = n - 8" by (auto simp: le_mod_geq)
    moreover have "\<not> bit (b p) n" using 2(1) by (auto dest: bit_imp_le_length)
    moreover have "n - 8 < 16" using 2 by linarith
    ultimately show ?thesis using 2 by (simp add: rd16_def bit_simps)
  next
    case 3
    then show ?thesis by (simp add: rd16_def bit_simps)
  qed
qed

lemma bit_rd32: "bit (rd32 b p) n \<longleftrightarrow> n < 32 \<and> bit (b (p + n div 8)) (n mod 8)"
proof -
  consider "n < 16" | "16 \<le> n" "n < 32" | "32 \<le> n" by linarith
  then show ?thesis
  proof cases
    case 2
    then have eqs: "p + 2 + (n - 16) div 8 = p + n div 8" "(n - 16) mod 8 = n mod 8"
      "n - 16 < 16" "n - 16 < 32"
      by (auto simp: le_div_geq le_mod_geq)
    have "bit (rd32 b p) n \<longleftrightarrow> bit (rd16 b (p + 2)) (n - 16)"
      using 2 eqs(3,4) by (simp add: rd32_def bit_simps bit_rd16)
    also have "\<dots> \<longleftrightarrow> bit (b (p + n div 8)) (n mod 8)"
      unfolding bit_rd16 eqs(1,2) using eqs(3) by simp
    finally show ?thesis using 2 by simp
  qed (auto simp: rd32_def bit_simps bit_rd16)
qed

lemma bit_rd64: "bit (rd64 b p) n \<longleftrightarrow> n < 64 \<and> bit (b (p + n div 8)) (n mod 8)"
proof -
  consider "n < 32" | "32 \<le> n" "n < 64" | "64 \<le> n" by linarith
  then show ?thesis
  proof cases
    case 2
    then have "4 + (n - 32) div 8 = n div 8" "(n - 32) mod 8 = n mod 8"
      "n - 32 < 32" "n - 32 < 64"
      by (auto simp: le_div_geq le_mod_geq)
    with 2 show ?thesis by (simp add: rd64_def bit_simps bit_rd32 add.assoc)
  qed (auto simp: rd64_def bit_simps bit_rd32)
qed

lemmas bit_rd = bit_rd16 bit_rd32 bit_rd64
lemmas wr_apply = wr16_apply wr32_apply wr64_apply

lemma byte_index:
  fixes n :: nat
  shows "n < 16 \<Longrightarrow> n div 8 < 2" "n < 32 \<Longrightarrow> n div 8 < 4" "n < 64 \<Longrightarrow> n div 8 < 8"
  by linarith+

lemma rd16_wr16: "rd16 (wr16 b p v) p = v"
  by (rule bit_word_eqI) (simp add: bit_rd wr_apply bit_simps byte_index)

lemma rd32_wr32: "rd32 (wr32 b p v) p = v"
  by (rule bit_word_eqI) (simp add: bit_rd wr_apply bit_simps byte_index)

lemma rd64_wr64: "rd64 (wr64 b p v) p = v"
  by (rule bit_word_eqI) (simp add: bit_rd wr_apply bit_simps byte_index)

lemma rd64_cong: "(\<And>i. i < 8 \<Longrightarrow> b (p + i) = c (p + i)) \<Longrightarrow> rd64 b p = rd64 c p"
  by (rule bit_word_eqI) (simp add: bit_rd)

lemma rd32_cong: "(\<And>i. i < 4 \<Longrightarrow> b (p + i) = c (p + i)) \<Longrightarrow> rd32 b p = rd32 c p"
  by (rule bit_word_eqI) (simp add: bit_rd)

section \<open>Correctness of the run-time\<close>

text \<open>
  \<open>memmove\<close> copies like a copy through a temporary buffer, however source and destination
  overlap: every destination byte is the source byte of the memory before the call and every other
  byte keeps its value.
\<close>

theorem memmove_correct:
  "memmove m d s n a = (if d \<le> a \<and> a < d + n then m (s + (a - d)) else m a)"
  by (simp add: memmove_def mem_copy_apply memmove_down_apply)

end
