(* ===== verification/Pmm.thy ===== *)
theory Pmm
  imports KLib
begin

text \<open>
  The physical page allocator of \<open>kernel/mm/physical.c\<close>. Two bitmaps, one bit per 4 KiB page:
  \<open>eligible_bitmap\<close> marks the pages the firmware map gave to the kernel, \<open>page_bitmap\<close> those of them
  that are free. The spin lock of the source makes each operation atomic; an operation is one HOL
  function from the allocator state to its result and the next state.

  All quantities of this component stay far below their machine width (page numbers are below
  \<open>2^26\<close>, addresses below \<open>2^38\<close>), so they are natural numbers; the guards that keep them there are
  part of the definitions.
\<close>

section \<open>State\<close>

definition PMM_MAX_PAGES :: nat where
  "PMM_MAX_PAGES = 256 * 262144"

datatype efi_type = EfiReservedMemoryType | EfiLoaderCode | EfiLoaderData | EfiBootServicesCode
  | EfiBootServicesData | EfiRuntimeServicesCode | EfiRuntimeServicesData | EfiConventionalMemory
  | EfiUnusableMemory | EfiACPIReclaimMemory | EfiACPIMemoryNVS | EfiMemoryMappedIO
  | EfiMemoryMappedIOPortSpace | EfiOtherMemory nat

record efi_memory_descriptor =
  efi_Type :: efi_type
  PhysicalStart :: nat
  NumberOfPages :: nat

text \<open>\<open>ram\<close> is the machine's memory, which an allocation clears.\<close>

record pmm =
  page_bitmap :: bytes
  eligible_bitmap :: bytes
  pmm_free_pages :: nat
  pmm_total_pages_managed :: nat
  pmm_search_cursor :: nat
  pmm_high_page :: nat
  boot_map :: "efi_memory_descriptor list"
  boot_desc_size :: nat
  boot_entries :: nat
  ram :: bytes

section \<open>Bitmaps\<close>

definition bit_get :: "bytes \<Rightarrow> nat \<Rightarrow> bool" where
  "bit_get b n = bit (b (n div 8)) (n mod 8)"

definition bit_set :: "bytes \<Rightarrow> nat \<Rightarrow> bytes" where
  "bit_set b n = b(n div 8 := b (n div 8) OR push_bit (n mod 8) 1)"

definition bit_clear :: "bytes \<Rightarrow> nat \<Rightarrow> bytes" where
  "bit_clear b n = b(n div 8 := b (n div 8) AND NOT (push_bit (n mod 8) 1))"

section \<open>Seeding from the firmware map\<close>

definition seed_page :: "nat \<Rightarrow> pmm \<Rightarrow> pmm" where
  "seed_page p s =
    (if \<not> bit_get (eligible_bitmap s) p
     then s\<lparr>eligible_bitmap := bit_set (eligible_bitmap s) p,
            page_bitmap := bit_set (page_bitmap s) p,
            pmm_free_pages := pmm_free_pages s + 1,
            pmm_total_pages_managed := pmm_total_pages_managed s + 1\<rparr>
     else s)"

definition seed_descriptor :: "efi_memory_descriptor \<Rightarrow> pmm \<Rightarrow> pmm" where
  "seed_descriptor d s =
    (if efi_Type d \<noteq> EfiConventionalMemory \<or> PhysicalStart d AND 4095 \<noteq> 0 then s
     else
       let first = PhysicalStart d div 4096 in
       if first \<ge> PMM_MAX_PAGES then s
       else
         let last = first + min (NumberOfPages d) (PMM_MAX_PAGES - first);
             first' = (if first < 256 then 256 else first);
             s' = fold seed_page [first'..<last] s
         in if last > pmm_high_page s' then s'\<lparr>pmm_high_page := last\<rparr> else s')"

text \<open>
  The map is \<open>None\<close> for a null pointer and the descriptor list found at the given stride
  otherwise; \<open>desc_size\<close> is \<open>sizeof(EFI_MEMORY_DESCRIPTOR)\<close>. \<open>kernel_halt\<close> is \<open>None\<close>.
\<close>

definition pmm_seed_from_efi_map ::
  "bool \<Rightarrow> nat \<Rightarrow> efi_memory_descriptor list option \<Rightarrow> nat \<Rightarrow> pmm \<Rightarrow> pmm option" where
  "pmm_seed_from_efi_map scheduler_ready desc_size efi_map stride s =
    (case efi_map of None \<Rightarrow> None | Some ds \<Rightarrow>
      if scheduler_ready \<or> stride < desc_size then None
      else Some (fold seed_descriptor ds
        (s\<lparr>boot_map := ds, boot_desc_size := stride, boot_entries := length ds,
           page_bitmap := (\<lambda>_. 0), eligible_bitmap := (\<lambda>_. 0),
           pmm_free_pages := 0, pmm_total_pages_managed := 0, pmm_search_cursor := 0,
           pmm_high_page := 0\<rparr>)))"

section \<open>Allocation and release\<close>

text \<open>The inner loop of \<open>k_pmm_alloc_aligned\<close>: the first aligned run of \<open>count\<close> free pages.\<close>

function pmm_scan :: "bytes \<Rightarrow> nat \<Rightarrow> nat \<Rightarrow> nat \<Rightarrow> nat \<Rightarrow> nat \<Rightarrow> nat \<Rightarrow> nat option" where
  "pmm_scan bm count alignment p e run start =
    (if p < e then
       if bit_get bm p then
         if run = 0 \<and> p AND (alignment - 1) \<noteq> 0
         then pmm_scan bm count alignment (Suc p) e run start
         else
           let start' = (if run = 0 then p else start) in
           if Suc run = count then Some start'
           else pmm_scan bm count alignment (Suc p) e (Suc run) start'
       else pmm_scan bm count alignment (Suc p) e 0 start
     else None)"
  by pat_completeness auto
termination
  by (relation "measure (\<lambda>(bm, count, alignment, p, e, run, start). e - p)") auto

definition pmm_limit :: "nat \<Rightarrow> pmm \<Rightarrow> nat" where
  "pmm_limit maximum s =
    (if maximum \<noteq> 0 then min (maximum div 4096) (pmm_high_page s) else pmm_high_page s)"

text \<open>The two passes: from the cursor to the limit, then from page 256 to the cursor.\<close>

definition pmm_find :: "nat \<Rightarrow> nat \<Rightarrow> nat \<Rightarrow> pmm \<Rightarrow> nat option" where
  "pmm_find count alignment limit s =
    (let cursor = (if count = 1 \<and> pmm_search_cursor s < limit then pmm_search_cursor s else 256) in
     case pmm_scan (page_bitmap s) count alignment cursor limit 0 0 of
       Some start \<Rightarrow> Some start
     | None \<Rightarrow> pmm_scan (page_bitmap s) count alignment 256 cursor 0 0)"

definition pmm_take :: "nat \<Rightarrow> nat \<Rightarrow> pmm \<Rightarrow> pmm" where
  "pmm_take start count s =
    s\<lparr>page_bitmap := fold (\<lambda>j b. bit_clear b j) [start..<start + count] (page_bitmap s),
      pmm_free_pages := pmm_free_pages s - count,
      pmm_search_cursor := start + count,
      ram := mem_zero (ram s) (start * 4096) (count * 4096)\<rparr>"

definition k_pmm_alloc_aligned :: "nat \<Rightarrow> nat \<Rightarrow> nat \<Rightarrow> pmm \<Rightarrow> nat \<times> pmm" where
  "k_pmm_alloc_aligned count alignment maximum s =
    (if \<not> power2 alignment then (0, s)
     else if count = 0 then (0, s)
     else
       let limit = pmm_limit maximum s in
       if count > pmm_free_pages s \<or> count > limit then (0, s)
       else case pmm_find count alignment limit s of
              None \<Rightarrow> (0, s)
            | Some start \<Rightarrow> (start * 4096, pmm_take start count s))"

definition k_pmm_alloc_pages :: "nat \<Rightarrow> nat \<Rightarrow> pmm \<Rightarrow> nat \<times> pmm" where
  "k_pmm_alloc_pages n maximum s = k_pmm_alloc_aligned n 1 maximum s"

definition pmm_alloc_page :: "pmm \<Rightarrow> nat \<times> pmm" where
  "pmm_alloc_page s = k_pmm_alloc_pages 1 0 s"

definition k_pmm_free_pages :: "nat \<Rightarrow> nat \<Rightarrow> pmm \<Rightarrow> pmm" where
  "k_pmm_free_pages phys count s =
    (if count = 0 \<or> phys AND 4095 \<noteq> 0 \<or> phys div 4096 \<ge> PMM_MAX_PAGES \<or>
        count > PMM_MAX_PAGES - phys div 4096 then s
     else
       let start = phys div 4096 in
       if \<exists>p\<in>set [start..<start + count].
            \<not> bit_get (eligible_bitmap s) p \<or> bit_get (page_bitmap s) p then s
       else
         s\<lparr>page_bitmap := fold (\<lambda>p b. bit_set b p) [start..<start + count] (page_bitmap s),
           pmm_free_pages := pmm_free_pages s + count,
           pmm_search_cursor :=
             (if start < pmm_search_cursor s then start else pmm_search_cursor s)\<rparr>)"

definition pmm_free_page :: "nat \<Rightarrow> pmm \<Rightarrow> pmm" where
  "pmm_free_page phys s = k_pmm_free_pages phys 1 s"

definition k_pmm_free_count :: "pmm \<Rightarrow> nat" where
  "k_pmm_free_count s = pmm_free_pages s"

definition kernel_pmm_managed_mib :: "pmm \<Rightarrow> nat" where
  "kernel_pmm_managed_mib s = pmm_total_pages_managed s div 256"

definition kernel_pmm_free_mib :: "pmm \<Rightarrow> nat" where
  "kernel_pmm_free_mib s = k_pmm_free_count s div 256"

definition kernel_pmm_used_mib :: "pmm \<Rightarrow> nat" where
  "kernel_pmm_used_mib s = (pmm_total_pages_managed s - k_pmm_free_count s) div 256"

section \<open>Abstract view and invariant\<close>

definition free_set :: "pmm \<Rightarrow> nat set" where
  "free_set s = {p. bit_get (page_bitmap s) p}"

definition eligible_set :: "pmm \<Rightarrow> nat set" where
  "eligible_set s = {p. bit_get (eligible_bitmap s) p}"

text \<open>Pages handed out: the kernel's pages that are not free.\<close>

definition owned_set :: "pmm \<Rightarrow> nat set" where
  "owned_set s = eligible_set s - free_set s"

definition pmm_inv :: "pmm \<Rightarrow> bool" where
  "pmm_inv s \<longleftrightarrow>
     free_set s \<subseteq> eligible_set s \<and> eligible_set s \<subseteq> {256..<pmm_high_page s} \<and>
     pmm_high_page s \<le> PMM_MAX_PAGES \<and>
     pmm_free_pages s = card (free_set s) \<and>
     pmm_total_pages_managed s = card (eligible_set s)"

section \<open>Bitmap lemmas\<close>

lemma div_mod_eq_iff8: "(m::nat) div 8 = n div 8 \<and> m mod 8 = n mod 8 \<longleftrightarrow> m = n"
  by (metis div_mult_mod_eq)

lemma bit_get_set [simp]: "bit_get (bit_set b n) m \<longleftrightarrow> m = n \<or> bit_get b m"
  using div_mod_eq_iff8[of m n] by (auto simp: bit_get_def bit_set_def bit_simps)

lemma bit_get_clear [simp]: "bit_get (bit_clear b n) m \<longleftrightarrow> m \<noteq> n \<and> bit_get b m"
  using div_mod_eq_iff8[of m n] by (auto simp: bit_get_def bit_clear_def bit_simps)

lemma bit_get_zero [simp]: "\<not> bit_get (\<lambda>_. 0) n"
  by (simp add: bit_get_def)

lemma bit_get_fold_set [simp]: "bit_get (fold (\<lambda>p b. bit_set b p) ps b) m \<longleftrightarrow> m \<in> set ps \<or> bit_get b m"
  by (induction ps arbitrary: b) auto

lemma bit_get_fold_clear [simp]:
  "bit_get (fold (\<lambda>p b. bit_clear b p) ps b) m \<longleftrightarrow> m \<notin> set ps \<and> bit_get b m"
  by (induction ps arbitrary: b) auto

lemma free_set_simps [simp]:
  "free_set (s\<lparr>pmm_free_pages := n\<rparr>) = free_set s"
  "free_set (s\<lparr>pmm_total_pages_managed := n\<rparr>) = free_set s"
  "free_set (s\<lparr>pmm_search_cursor := n\<rparr>) = free_set s"
  "free_set (s\<lparr>pmm_high_page := n\<rparr>) = free_set s"
  "free_set (s\<lparr>ram := m\<rparr>) = free_set s"
  "free_set (s\<lparr>eligible_bitmap := b\<rparr>) = free_set s"
  "free_set (s\<lparr>page_bitmap := b\<rparr>) = {p. bit_get b p}"
  by (simp_all add: free_set_def)

lemma eligible_set_simps [simp]:
  "eligible_set (s\<lparr>pmm_free_pages := n\<rparr>) = eligible_set s"
  "eligible_set (s\<lparr>pmm_total_pages_managed := n\<rparr>) = eligible_set s"
  "eligible_set (s\<lparr>pmm_search_cursor := n\<rparr>) = eligible_set s"
  "eligible_set (s\<lparr>pmm_high_page := n\<rparr>) = eligible_set s"
  "eligible_set (s\<lparr>ram := m\<rparr>) = eligible_set s"
  "eligible_set (s\<lparr>page_bitmap := b\<rparr>) = eligible_set s"
  "eligible_set (s\<lparr>eligible_bitmap := b\<rparr>) = {p. bit_get b p}"
  by (simp_all add: eligible_set_def)

lemma pmm_invD:
  assumes "pmm_inv s"
  shows "free_set s \<subseteq> eligible_set s" "eligible_set s \<subseteq> {256..<pmm_high_page s}"
    "pmm_high_page s \<le> PMM_MAX_PAGES" "pmm_free_pages s = card (free_set s)"
    "finite (free_set s)" "finite (eligible_set s)"
  using assms by (auto simp: pmm_inv_def intro: finite_subset)

section \<open>Seeding\<close>

lemma seed_page_sets:
  "eligible_set (seed_page p s) = insert p (eligible_set s)"
  "free_set (seed_page p s) = (if p \<in> eligible_set s then free_set s else insert p (free_set s))"
  by (auto simp: seed_page_def eligible_set_def free_set_def)

text \<open>While a descriptor is being added its pages may lie above the recorded high page.\<close>

definition seeding :: "nat \<Rightarrow> pmm \<Rightarrow> bool" where
  "seeding h s \<longleftrightarrow> free_set s = eligible_set s \<and> eligible_set s \<subseteq> {256..<h} \<and>
     pmm_free_pages s = card (free_set s) \<and> pmm_total_pages_managed s = card (eligible_set s)"

lemma seeding_mono: "seeding h s \<Longrightarrow> h \<le> h' \<Longrightarrow> seeding h' s"
  by (auto simp: seeding_def dest!: subsetD[of "eligible_set s"])

lemma seed_page_seeding:
  assumes "seeding h s" "256 \<le> p" "p < h"
  shows "seeding h (seed_page p s)"
proof (cases "p \<in> eligible_set s")
  case True
  then have "seed_page p s = s" by (simp add: seed_page_def eligible_set_def)
  with assms show ?thesis by simp
next
  case False
  moreover have "finite (eligible_set s)" using assms(1) finite_subset by (auto simp: seeding_def)
  moreover have "pmm_free_pages (seed_page p s) = Suc (pmm_free_pages s)"
    "pmm_total_pages_managed (seed_page p s) = Suc (pmm_total_pages_managed s)"
    using False by (simp_all add: seed_page_def eligible_set_def)
  ultimately show ?thesis using assms by (auto simp: seeding_def seed_page_sets)
qed

lemma seed_page_high [simp]: "pmm_high_page (seed_page p s) = pmm_high_page s"
  by (simp add: seed_page_def)

lemma fold_seed_page:
  "seeding h s \<Longrightarrow> \<forall>p\<in>set ps. 256 \<le> p \<and> p < h \<Longrightarrow>
   seeding h (fold seed_page ps s) \<and> pmm_high_page (fold seed_page ps s) = pmm_high_page s"
  by (induction ps arbitrary: s) (auto simp: seed_page_seeding)

lemma seed_descriptor_seeding:
  assumes "seeding (pmm_high_page s) s" "pmm_high_page s \<le> PMM_MAX_PAGES"
  shows "seeding (pmm_high_page (seed_descriptor d s)) (seed_descriptor d s) \<and>
    pmm_high_page (seed_descriptor d s) \<le> PMM_MAX_PAGES"
proof -
  define first where "first = PhysicalStart d div 4096"
  define last where "last = first + min (NumberOfPages d) (PMM_MAX_PAGES - first)"
  define first' where "first' = (if first < 256 then 256 else first)"
  define s' where "s' = fold seed_page [first'..<last] s"
  have "seeding (max last (pmm_high_page s)) s" using assms(1) by (rule seeding_mono) simp
  moreover have "\<forall>p\<in>set [first'..<last]. 256 \<le> p \<and> p < max last (pmm_high_page s)"
    by (auto simp: first'_def)
  ultimately have s': "seeding (max last (pmm_high_page s)) s'" "pmm_high_page s' = pmm_high_page s"
    using fold_seed_page unfolding s'_def by blast+
  have "first < PMM_MAX_PAGES \<Longrightarrow> last \<le> PMM_MAX_PAGES" by (simp add: last_def)
  then show ?thesis
    using assms s' by (auto simp: seed_descriptor_def Let_def first_def[symmetric] last_def[symmetric]
        first'_def[symmetric] s'_def[symmetric] max_def seeding_def split: if_splits)
qed

lemma fold_seed_descriptor:
  "seeding (pmm_high_page s) s \<Longrightarrow> pmm_high_page s \<le> PMM_MAX_PAGES \<Longrightarrow>
   pmm_inv (fold seed_descriptor ds s)"
proof (induction ds arbitrary: s)
  case Nil
  then show ?case by (simp add: seeding_def pmm_inv_def)
next
  case (Cons d ds)
  then show ?case using seed_descriptor_seeding[of s d] by simp
qed

lemma pmm_seed_inv: "pmm_seed_from_efi_map r z m st s = Some s' \<Longrightarrow> pmm_inv s'"
  unfolding pmm_seed_from_efi_map_def
  by (auto simp: seeding_def free_set_def eligible_set_def split: option.splits if_splits
      intro!: fold_seed_descriptor)

section \<open>The search\<close>

definition free_run :: "bytes \<Rightarrow> nat \<Rightarrow> nat \<Rightarrow> bool" where
  "free_run bm start n \<longleftrightarrow> (\<forall>q. start \<le> q \<longrightarrow> q < start + n \<longrightarrow> bit_get bm q)"

definition fits :: "bytes \<Rightarrow> nat \<Rightarrow> nat \<Rightarrow> nat \<Rightarrow> nat \<Rightarrow> bool" where
  "fits bm count alignment e start \<longleftrightarrow>
     start AND (alignment - 1) = 0 \<and> start + count \<le> e \<and> free_run bm start count"

text \<open>Loop invariant: a run in progress is aligned, free, shorter than asked and ends at \<open>p\<close>.\<close>

definition scanning :: "bytes \<Rightarrow> nat \<Rightarrow> nat \<Rightarrow> nat \<Rightarrow> nat \<Rightarrow> nat \<Rightarrow> bool" where
  "scanning bm count alignment p run start \<longleftrightarrow> run < count \<and>
     (run = 0 \<or> start + run = p \<and> start AND (alignment - 1) = 0 \<and> free_run bm start run)"

declare pmm_scan.simps [simp del]

lemma free_run_Suc: "free_run bm start (Suc n) \<longleftrightarrow> free_run bm start n \<and> bit_get bm (start + n)"
  unfolding free_run_def by (metis add_Suc_right le_add1 less_Suc_eq)

lemma scanning_step:
  assumes "scanning bm count al p run start" "bit_get bm p" "run = 0 \<longrightarrow> p AND (al - 1) = 0"
    "Suc run \<noteq> count"
  shows "scanning bm count al (Suc p) (Suc run) (if run = 0 then p else start)"
  using assms by (auto simp: scanning_def free_run_Suc) (auto simp: free_run_def)

lemma scanning_reset: "scanning bm count al p run start \<Longrightarrow> scanning bm count al (Suc p) 0 start'"
  by (auto simp: scanning_def)

lemma pmm_scan_Some:
  "pmm_scan bm count al p e run start = Some x \<Longrightarrow> scanning bm count al p run start \<Longrightarrow>
   fits bm count al e x \<and> (if run = 0 then p else start) \<le> x"
proof (induction bm count al p e run start rule: pmm_scan.induct)
  case (1 bm count al p e run start)
  have lt: "p < e" using "1.prems"(1) by (simp add: pmm_scan.simps[of bm count al p] split: if_splits)
  note unf = pmm_scan.simps[of bm count al p e run start]
  let ?start = "if run = 0 then p else start"
  consider (skip) "bit_get bm p" "run = 0" "p AND (al - 1) \<noteq> 0"
    | (found) "bit_get bm p" "run = 0 \<longrightarrow> p AND (al - 1) = 0" "Suc run = count"
    | (go) "bit_get bm p" "run = 0 \<longrightarrow> p AND (al - 1) = 0" "Suc run \<noteq> count"
    | (reset) "\<not> bit_get bm p" by metis
  then show ?case
  proof cases
    case skip
    have "pmm_scan bm count al (Suc p) e run start = Some x"
      using skip "1.prems"(1) lt unf by simp
    moreover have "scanning bm count al (Suc p) run start"
      using skip(2) "1.prems"(2) by (auto dest: scanning_reset)
    ultimately show ?thesis using "1.IH"(1)[OF lt skip(1)] skip by auto
  next
    case found
    with "1.prems" lt have x: "x = ?start" by (auto simp: unf Let_def split: if_splits)
    have "free_run bm ?start count" "?start AND (al - 1) = 0" "?start + count \<le> e"
      using found "1.prems"(2) lt by (auto simp: scanning_def free_run_Suc[of bm _ run]
          simp flip: found(3)) (auto simp: free_run_def)
    with x show ?thesis by (auto simp: fits_def)
  next
    case go
    have rec: "pmm_scan bm count al (Suc p) e (Suc run) ?start = Some x"
      using go "1.prems"(1) lt by (auto simp: unf Let_def split: if_splits)
    have "scanning bm count al (Suc p) (Suc run) ?start"
      using scanning_step "1.prems"(2) go by blast
    with "1.IH"(2)[OF lt go(1) _ refl go(3) rec] go(2) show ?thesis by (auto split: if_splits)
  next
    case reset
    with "1.IH"(3)[OF lt reset] "1.prems" lt have "fits bm count al e x \<and> Suc p \<le> x"
      by (auto simp: unf dest: scanning_reset)
    with "1.prems"(2) show ?thesis by (auto simp: scanning_def)
  qed
qed

lemma pmm_scan_None:
  "pmm_scan bm count al p e run start = None \<Longrightarrow> scanning bm count al p run start \<Longrightarrow>
   (\<forall>x\<ge>p. \<not> fits bm count al e x) \<and> (run \<noteq> 0 \<longrightarrow> \<not> fits bm count al e start)"
proof (induction bm count al p e run start rule: pmm_scan.induct)
  case (1 bm count al p e run start)
  note unf = pmm_scan.simps[of bm count al p e run start]
  let ?start = "if run = 0 then p else start"
  have pos: "0 < count" using "1.prems"(2) by (auto simp: scanning_def)
  consider (stop) "\<not> p < e"
    | (skip) "p < e" "bit_get bm p" "run = 0" "p AND (al - 1) \<noteq> 0"
    | (found) "p < e" "bit_get bm p" "run = 0 \<longrightarrow> p AND (al - 1) = 0" "Suc run = count"
    | (go) "p < e" "bit_get bm p" "run = 0 \<longrightarrow> p AND (al - 1) = 0" "Suc run \<noteq> count"
    | (reset) "p < e" "\<not> bit_get bm p" by metis
  then show ?case
  proof cases
    case stop
    with pos "1.prems"(2) show ?thesis by (auto simp: fits_def scanning_def)
  next
    case skip
    have "pmm_scan bm count al (Suc p) e run start = None"
      using skip "1.prems"(1) unf by simp
    moreover have "scanning bm count al (Suc p) run start"
      using skip(3) "1.prems"(2) by (auto dest: scanning_reset)
    ultimately have "\<forall>x\<ge>Suc p. \<not> fits bm count al e x" using "1.IH"(1)[OF skip(1,2)] skip by auto
    moreover have "\<not> fits bm count al e p" using skip(4) by (simp add: fits_def)
    ultimately show ?thesis using skip(3) by (metis Suc_leI le_neq_implies_less)
  next
    case found
    then have "pmm_scan bm count al p e run start = Some ?start"
      unfolding unf by (auto simp: Let_def)
    with "1.prems"(1) show ?thesis by simp
  next
    case go
    have "pmm_scan bm count al (Suc p) e (Suc run) ?start = None"
      using go "1.prems"(1) unf by (auto simp: Let_def split: if_splits)
    moreover have "scanning bm count al (Suc p) (Suc run) ?start"
      using scanning_step "1.prems"(2) go by blast
    ultimately have IH: "\<forall>x\<ge>Suc p. \<not> fits bm count al e x" "\<not> fits bm count al e ?start"
      using "1.IH"(2)[OF go(1,2) _ refl go(4)] go(3) by auto
    have "\<not> fits bm count al e p"
    proof
      assume "fits bm count al e p"
      with "1.prems"(2) have "fits bm count al e ?start"
        by (auto simp: fits_def scanning_def free_run_def)
      with IH(2) show False ..
    qed
    with IH show ?thesis by (metis Suc_leI le_neq_implies_less)
  next
    case reset
    have "pmm_scan bm count al (Suc p) e 0 start = None"
      using reset "1.prems"(1) unf by simp
    then have "\<forall>x\<ge>Suc p. \<not> fits bm count al e x"
      using "1.IH"(3)[OF reset] "1.prems"(2) by (auto dest: scanning_reset)
    moreover have "\<not> fits bm count al e p" "run \<noteq> 0 \<Longrightarrow> \<not> fits bm count al e start"
      using reset(2) pos "1.prems"(2) by (force simp: fits_def free_run_def scanning_def)+
    ultimately show ?thesis by (metis Suc_leI le_neq_implies_less)
  qed
qed

lemma scanning_start [simp]: "scanning bm count al p 0 start \<longleftrightarrow> 0 < count"
  by (simp add: scanning_def)

lemma pmm_find_Some:
  assumes "pmm_find count al limit s = Some x" "0 < count"
  shows "fits (page_bitmap s) count al limit x"
proof -
  define c where "c = (if count = 1 \<and> pmm_search_cursor s < limit then pmm_search_cursor s else 256)"
  consider "pmm_scan (page_bitmap s) count al c limit 0 0 = Some x"
    | "pmm_scan (page_bitmap s) count al 256 c 0 0 = Some x"
    using assms(1) unfolding pmm_find_def c_def Let_def by (auto split: option.splits)
  then show ?thesis
  proof cases
    case 1
    then show ?thesis using pmm_scan_Some assms(2) by fastforce
  next
    case 2
    then have f: "fits (page_bitmap s) count al c x" "256 \<le> x"
      using pmm_scan_Some[OF 2] assms(2) by auto
    then have "c \<noteq> 256" using assms(2) by (auto simp: fits_def)
    then have "c \<le> limit" by (auto simp: c_def split: if_splits)
    with f show ?thesis by (auto simp: fits_def)
  qed
qed

lemma fits_free_set:
  "fits (page_bitmap s) count al e x \<longleftrightarrow>
     x AND (al - 1) = 0 \<and> x + count \<le> e \<and> {x..<x + count} \<subseteq> free_set s"
  by (auto simp: fits_def free_run_def free_set_def)

lemma fits_ge_256: "pmm_inv s \<Longrightarrow> 0 < count \<Longrightarrow> fits (page_bitmap s) count al e x \<Longrightarrow> 256 \<le> x"
  using pmm_invD(1,2)[of s] unfolding fits_free_set
  by (metis atLeastLessThan_iff less_add_same_cancel1 order_refl subsetD)

lemma pmm_find_None:
  assumes "pmm_find count al limit s = None" "0 < count" "pmm_inv s"
  shows "\<not> fits (page_bitmap s) count al limit x"
proof
  assume f: "fits (page_bitmap s) count al limit x"
  define c where "c = (if count = 1 \<and> pmm_search_cursor s < limit then pmm_search_cursor s else 256)"
  have n: "pmm_scan (page_bitmap s) count al c limit 0 0 = None"
    "pmm_scan (page_bitmap s) count al 256 c 0 0 = None"
    using assms(1) unfolding pmm_find_def c_def Let_def by (auto split: option.splits)
  from f have x: "256 \<le> x" using fits_ge_256 assms by blast
  have "\<not> c \<le> x" using pmm_scan_None[OF n(1)] f assms(2) by auto
  with x have "count = 1" "x < c" by (auto simp: c_def split: if_splits)
  with f have "fits (page_bitmap s) count al c x" by (simp add: fits_def)
  with pmm_scan_None[OF n(2)] x assms(2) show False by auto
qed

section \<open>Allocation\<close>

lemma pmm_take_sets:
  "free_set (pmm_take x n s) = free_set s - {x..<x + n}"
  "eligible_set (pmm_take x n s) = eligible_set s"
  by (auto simp: pmm_take_def free_set_def eligible_set_def)

lemma pmm_take_inv [inv_intros]:
  assumes "pmm_inv s" "{x..<x + n} \<subseteq> free_set s"
  shows "pmm_inv (pmm_take x n s)"
proof -
  have "card (free_set s - {x..<x + n}) = card (free_set s) - n"
    using assms(2) by (simp add: card_Diff_subset)
  with assms(1) show ?thesis
    by (auto simp: pmm_inv_def pmm_take_sets) (auto simp: pmm_take_def)
qed

lemma alloc_aligned_cases:
  assumes "k_pmm_alloc_aligned count al maximum s = (a, s')" "pmm_inv s"
  obtains (fail) "a = 0" "s' = s"
  | (ok) x where "a = x * 4096" "0 < a" "s' = pmm_take x count s" "0 < count" "power2 al"
      "x mod al = 0" "x + count \<le> pmm_limit maximum s" "{x..<x + count} \<subseteq> free_set s"
proof (cases "a = 0 \<and> s' = s")
  case True
  then show ?thesis using fail by blast
next
  case False
  then obtain x where x: "power2 al" "0 < count" "a = x * 4096" "s' = pmm_take x count s"
    "pmm_find count al (pmm_limit maximum s) s = Some x"
    using assms(1) by (auto simp: k_pmm_alloc_aligned_def Let_def split: if_splits option.splits)
  then have f: "fits (page_bitmap s) count al (pmm_limit maximum s) x" by (blast intro: pmm_find_Some)
  with x assms(2) have "256 \<le> x" by (blast intro: fits_ge_256)
  with x f show ?thesis
    by (intro ok[of x]) (auto simp: fits_free_set power2_mask[OF x(1), simplified])
qed

lemma alloc_aligned_inv [inv_intros]:
  "pmm_inv s \<Longrightarrow> k_pmm_alloc_aligned count al maximum s = (a, s') \<Longrightarrow> pmm_inv s'"
  by (erule alloc_aligned_cases) (auto intro: pmm_take_inv)

lemma pmm_limit_le: "pmm_limit maximum s \<le> pmm_high_page s"
  "maximum \<noteq> 0 \<Longrightarrow> pmm_limit maximum s * 4096 \<le> maximum"
  using div_times_less_eq_dividend[of maximum 4096] by (auto simp: pmm_limit_def min_def)

section \<open>Release\<close>

definition can_free :: "nat \<Rightarrow> nat \<Rightarrow> pmm \<Rightarrow> bool" where
  "can_free phys count s \<longleftrightarrow>
     0 < count \<and> phys mod 4096 = 0 \<and> {phys div 4096..<phys div 4096 + count} \<subseteq> owned_set s"

lemma owned_lt_max: "pmm_inv s \<Longrightarrow> p \<in> owned_set s \<Longrightarrow> p < PMM_MAX_PAGES"
  using pmm_invD(2,3)[of s] by (auto simp: owned_set_def)

lemma can_free_in_range:
  assumes "pmm_inv s" "can_free phys count s"
  shows "phys div 4096 + count \<le> PMM_MAX_PAGES"
proof -
  have "phys div 4096 + count - 1 \<in> owned_set s" using assms(2) by (auto simp: can_free_def)
  from owned_lt_max[OF assms(1) this] assms(2) show ?thesis by (auto simp: can_free_def)
qed

lemma mask4095: "(p::nat) AND 4095 = p mod 4096"
  using and_mask_eq_mod[of p 12] by simp

text \<open>The release test of the source is exactly: a non-empty run of pages that are all handed out.\<close>

lemma free_pages_cases:
  assumes "pmm_inv s"
  shows "k_pmm_free_pages phys count s =
    (if can_free phys count s
     then s\<lparr>page_bitmap := fold (\<lambda>p b. bit_set b p) [phys div 4096..<phys div 4096 + count] (page_bitmap s),
            pmm_free_pages := pmm_free_pages s + count,
            pmm_search_cursor := min (phys div 4096) (pmm_search_cursor s)\<rparr>
     else s)"
proof (cases "can_free phys count s")
  case True
  note r = can_free_in_range[OF assms True]
  have "\<not> (\<exists>p\<in>set [phys div 4096..<phys div 4096 + count].
      \<not> bit_get (eligible_bitmap s) p \<or> bit_get (page_bitmap s) p)"
    using True by (auto simp: can_free_def owned_set_def eligible_set_def free_set_def)
  then show ?thesis using True r
    by (simp add: k_pmm_free_pages_def can_free_def mask4095 Let_def min_def less_imp_le)
next
  case False
  then have "count = 0 \<or> phys mod 4096 \<noteq> 0 \<or> (\<exists>p\<in>set [phys div 4096..<phys div 4096 + count].
      \<not> bit_get (eligible_bitmap s) p \<or> bit_get (page_bitmap s) p)"
    by (auto simp: can_free_def owned_set_def eligible_set_def free_set_def)
  with False show ?thesis by (auto simp: k_pmm_free_pages_def mask4095 Let_def)
qed

lemma free_pages_sets:
  assumes "pmm_inv s"
  shows "eligible_set (k_pmm_free_pages phys count s) = eligible_set s"
    "free_set (k_pmm_free_pages phys count s) =
       (if can_free phys count s then free_set s \<union> {phys div 4096..<phys div 4096 + count}
        else free_set s)"
  by (auto simp: free_pages_cases[OF assms] free_set_def eligible_set_def)

lemma free_pages_inv [inv_intros]:
  assumes "pmm_inv s"
  shows "pmm_inv (k_pmm_free_pages phys count s)"
proof (cases "can_free phys count s")
  case True
  let ?r = "{phys div 4096..<phys div 4096 + count}"
  from True have r: "?r \<subseteq> eligible_set s" "?r \<inter> free_set s = {}"
    by (auto simp: can_free_def owned_set_def)
  then have "card (free_set s \<union> ?r) = card (free_set s) + count"
    using pmm_invD(5)[OF assms] by (subst card_Un_disjoint) auto
  then show ?thesis using True assms r
    by (auto simp: pmm_inv_def free_pages_sets[OF assms]) (auto simp: free_pages_cases[OF assms])
next
  case False
  with assms show ?thesis by (simp add: free_pages_cases[OF assms])
qed

lemma free_pages_ram [frame_simps]: "ram (k_pmm_free_pages phys count s) = ram s"
  by (simp add: k_pmm_free_pages_def Let_def)

lemma alloc_aligned_fails_iff:
  assumes "pmm_inv s" "power2 al" "0 < count"
  shows "fst (k_pmm_alloc_aligned count al maximum s) = 0 \<longleftrightarrow>
    (\<nexists>x. x mod al = 0 \<and> x + count \<le> pmm_limit maximum s \<and> {x..<x + count} \<subseteq> free_set s)"
proof
  assume zero: "fst (k_pmm_alloc_aligned count al maximum s) = 0"
  show "\<nexists>x. x mod al = 0 \<and> x + count \<le> pmm_limit maximum s \<and> {x..<x + count} \<subseteq> free_set s"
  proof
    assume "\<exists>x. x mod al = 0 \<and> x + count \<le> pmm_limit maximum s \<and> {x..<x + count} \<subseteq> free_set s"
    then obtain x where x: "x mod al = 0" "x + count \<le> pmm_limit maximum s"
      "{x..<x + count} \<subseteq> free_set s" by metis
    then have f: "fits (page_bitmap s) count al (pmm_limit maximum s) x"
      using power2_mask[OF assms(2), of x] by (simp add: fits_free_set)
    then obtain y where y: "pmm_find count al (pmm_limit maximum s) s = Some y"
      using pmm_find_None assms by (metis not_None_eq)
    then have "256 \<le> y" using pmm_find_Some fits_ge_256 assms by blast
    moreover have "count \<le> pmm_free_pages s"
      using card_mono[OF pmm_invD(5)[OF assms(1)] x(3)] pmm_invD(4)[OF assms(1)] by simp
    ultimately show False using zero y assms(2,3) x(2)
      by (auto simp: k_pmm_alloc_aligned_def Let_def)
  qed
next
  assume none: "\<nexists>x. x mod al = 0 \<and> x + count \<le> pmm_limit maximum s \<and> {x..<x + count} \<subseteq> free_set s"
  show "fst (k_pmm_alloc_aligned count al maximum s) = 0"
  proof (cases "k_pmm_alloc_aligned count al maximum s")
    case (Pair a s')
    with assms(1) none show ?thesis by (auto elim!: alloc_aligned_cases)
  qed
qed

lemma alloc_pages_available:
  assumes "pmm_inv s" "0 < n" "{x..<x + n} \<subseteq> free_set s" "x + n \<le> pmm_high_page s"
  shows "fst (k_pmm_alloc_pages n 0 s) \<noteq> 0"
  using alloc_aligned_fails_iff[OF assms(1) _ assms(2), of 1 0] assms(3,4)
  by (auto simp: k_pmm_alloc_pages_def pmm_limit_def power2_def)

section \<open>The interface the other components use\<close>

text \<open>
  What a client of the allocator relies on: an allocation takes pages nobody holds and clears them,
  a release gives back pages the client holds, and neither touches anything else.
\<close>

abbreviation page_span :: "nat \<Rightarrow> nat \<Rightarrow> nat set" where
  "page_span a n \<equiv> {a div 4096..<a div 4096 + n}"

abbreviation byte_span :: "nat \<Rightarrow> nat \<Rightarrow> nat set" where
  "byte_span a n \<equiv> {a..<a + n * 4096}"

locale page_allocator =
  fixes alloc :: "nat \<Rightarrow> 'p \<Rightarrow> nat \<times> 'p"
    and release :: "nat \<Rightarrow> nat \<Rightarrow> 'p \<Rightarrow> 'p"
    and invar :: "'p \<Rightarrow> bool"
    and owned :: "'p \<Rightarrow> nat set"
    and mem :: "'p \<Rightarrow> bytes"
  assumes alloc_invar: "invar s \<Longrightarrow> alloc n s = (a, s') \<Longrightarrow> invar s'"
    and alloc_none: "invar s \<Longrightarrow> alloc n s = (0, s') \<Longrightarrow> s' = s"
    and alloc_some: "invar s \<Longrightarrow> alloc n s = (a, s') \<Longrightarrow> a \<noteq> 0 \<Longrightarrow>
      a mod 4096 = 0 \<and> 0 < n \<and> page_span a n \<inter> owned s = {} \<and> owned s' = owned s \<union> page_span a n \<and>
      mem s' = (\<lambda>b. if b \<in> byte_span a n then 0 else mem s b)"
    and release_invar: "invar s \<Longrightarrow> invar (release a n s)"
    and release_owned: "invar s \<Longrightarrow> a mod 4096 = 0 \<Longrightarrow> 0 < n \<Longrightarrow> page_span a n \<subseteq> owned s \<Longrightarrow>
      owned (release a n s) = owned s - page_span a n"
    and release_mem: "mem (release a n s) = mem s"
    and owned_pages: "invar s \<Longrightarrow> p \<in> owned s \<Longrightarrow> 256 \<le> p \<and> p < PMM_MAX_PAGES"
begin

lemma alloc_keeps_blocks:
  assumes "invar s" "alloc n s = (a, s')" "page_span b m \<subseteq> owned s"
  shows "page_span b m \<subseteq> owned s'"
  using assms alloc_none alloc_some by (cases "a = 0") blast+

lemma alloc_disjoint:
  assumes "invar s" "alloc n s = (a, s')" "a \<noteq> 0" "page_span b m \<subseteq> owned s"
  shows "page_span a n \<inter> page_span b m = {}"
  using alloc_some[OF assms(1-3)] assms(4) by blast

lemma byte_span_disjoint:
  assumes "page_span a n \<inter> page_span b m = {}" "a mod 4096 = 0" "b mod 4096 = 0"
  shows "byte_span a n \<inter> byte_span b m = {}"
proof (rule ccontr)
  assume "byte_span a n \<inter> byte_span b m \<noteq> {}"
  then obtain x where "x \<in> byte_span a n" "x \<in> byte_span b m" by blast
  then have x: "a \<le> x" "x < a + n * 4096" "b \<le> x" "x < b + m * 4096" by simp_all
  have "a = (a div 4096) * 4096" "b = (b div 4096) * 4096" using assms(2,3) by auto
  with x have "x div 4096 \<in> page_span a n \<inter> page_span b m"
    by (auto simp: div_le_mono)
  with assms(1) show False by blast
qed

lemma release_keeps_blocks:
  assumes "invar s" "a mod 4096 = 0" "0 < n" "page_span a n \<subseteq> owned s"
    "page_span b m \<subseteq> owned s" "page_span a n \<inter> page_span b m = {}"
  shows "page_span b m \<subseteq> owned (release a n s)"
  using release_owned[OF assms(1-4)] assms(5,6) by blast

end

lemma alloc_pages_some:
  assumes "pmm_inv s" "k_pmm_alloc_pages n maximum s = (a, s')" "a \<noteq> 0"
  shows "a mod 4096 = 0" "0 < n" "page_span a n \<subseteq> free_set s"
    "owned_set s' = owned_set s \<union> page_span a n"
    "ram s' = (\<lambda>b. if b \<in> byte_span a n then 0 else ram s b)"
  using assms(2,3) pmm_invD(1)[OF assms(1)] unfolding k_pmm_alloc_pages_def
  by (auto elim!: alloc_aligned_cases[OF _ assms(1)] simp: owned_set_def pmm_take_sets)
    (auto simp: pmm_take_def mem_zero_apply fun_eq_iff)

interpretation pages: page_allocator "\<lambda>n. k_pmm_alloc_pages n 0" k_pmm_free_pages pmm_inv owned_set ram
proof (unfold_locales, goal_cases)
  case (1 s n a s')
  then show ?case by (auto simp: k_pmm_alloc_pages_def intro: alloc_aligned_inv)
next
  case (2 s n s')
  then show ?case by (auto simp: k_pmm_alloc_pages_def elim!: alloc_aligned_cases)
next
  case (3 s n a s')
  note some = alloc_pages_some[OF 3]
  moreover have "page_span a n \<inter> owned_set s = {}" using some(3) by (auto simp: owned_set_def)
  ultimately show ?case by blast
next
  case (4 s a n)
  then show ?case by (rule free_pages_inv)
next
  case (5 s a n)
  then have "can_free a n s" by (simp add: can_free_def)
  with 5(1) show ?case by (auto simp: owned_set_def free_pages_sets)
next
  case (6 a n s)
  show ?case by (rule free_pages_ram)
next
  case (7 s p)
  then show ?case using pmm_invD(2,3)[of s] by (auto simp: owned_set_def)
qed

section \<open>What seeding marks\<close>

definition usable :: "efi_memory_descriptor \<Rightarrow> nat set" where
  "usable d = (if efi_Type d = EfiConventionalMemory \<and> PhysicalStart d mod 4096 = 0
     then {p. 256 \<le> p \<and> p < PMM_MAX_PAGES \<and> PhysicalStart d div 4096 \<le> p \<and>
              p < PhysicalStart d div 4096 + NumberOfPages d} else {})"

lemma eligible_fold_seed_page: "eligible_set (fold seed_page ps s) = eligible_set s \<union> set ps"
  by (induction ps arbitrary: s) (auto simp: seed_page_sets)

lemma eligible_seed_descriptor: "eligible_set (seed_descriptor d s) = eligible_set s \<union> usable d"
proof (cases "efi_Type d = EfiConventionalMemory \<and> PhysicalStart d mod 4096 = 0 \<and>
    PhysicalStart d div 4096 < PMM_MAX_PAGES")
  case True
  define f where "f = PhysicalStart d div 4096"
  have "usable d = {if f < 256 then 256 else f..<f + min (NumberOfPages d) (PMM_MAX_PAGES - f)}"
    using True by (auto simp: usable_def f_def[symmetric])
  with True show ?thesis
    by (simp add: seed_descriptor_def mask4095 Let_def eligible_fold_seed_page f_def)
next
  case False
  show ?thesis
  proof (cases "efi_Type d = EfiConventionalMemory \<and> PhysicalStart d mod 4096 = 0")
    case True
    with False have "PMM_MAX_PAGES \<le> PhysicalStart d div 4096" by simp
    with True have "usable d = {}" "seed_descriptor d s = s"
      by (simp_all add: usable_def seed_descriptor_def mask4095)
    then show ?thesis by simp
  next
    case no: False
    then have "usable d = {}" by (auto simp: usable_def)
    moreover have "seed_descriptor d s = s" using no by (simp add: seed_descriptor_def mask4095)
    ultimately show ?thesis by simp
  qed
qed

lemma eligible_fold_seed_descriptor:
  "eligible_set (fold seed_descriptor ds s) = eligible_set s \<union> \<Union> (usable ` set ds)"
  by (induction ds arbitrary: s) (auto simp: eligible_seed_descriptor)

section \<open>Properties\<close>

definition ex_pmm :: pmm where
  "ex_pmm = \<lparr>page_bitmap = (\<lambda>_. 0)(32 := 15), eligible_bitmap = (\<lambda>_. 0)(32 := 15),
     pmm_free_pages = 4, pmm_total_pages_managed = 4, pmm_search_cursor = 0, pmm_high_page = 260,
     boot_map = [], boot_desc_size = 0, boot_entries = 0, ram = (\<lambda>_. 255)\<rparr>"

lemma bit_15: "bit (15::u8) k \<longleftrightarrow> k < 4"
proof -
  have e: "(15::u8) = mask 4" by (simp add: mask_eq_exp_minus_1)
  show ?thesis unfolding e by (simp only: bit_mask_iff) auto
qed

lemma ex_pmm_bit: "bit_get ((\<lambda>_. 0)(32 := 15)) p \<longleftrightarrow> 256 \<le> p \<and> p < 260"
proof -
  have "p div 8 = 32 \<and> p mod 8 < 4 \<longleftrightarrow> 256 \<le> p \<and> p < 260" by presburger
  with bit_15[of "p mod 8"] show ?thesis by (simp add: bit_get_def) blast
qed

lemma ex_pmm_sets: "free_set ex_pmm = {256..<260}" "eligible_set ex_pmm = {256..<260}"
  by (auto simp: ex_pmm_def free_set_def eligible_set_def ex_pmm_bit)

lemma ex_pmm_inv: "pmm_inv ex_pmm"
  unfolding pmm_inv_def ex_pmm_sets by (auto simp: ex_pmm_def PMM_MAX_PAGES_def)

lemma ex_pmm_alloc: "k_pmm_alloc_aligned 2 2 1064960 ex_pmm = (1048576, pmm_take 256 2 ex_pmm)"
  by (simp add: k_pmm_alloc_aligned_def power2_def pmm_limit_def pmm_find_def Let_def
      pmm_scan.simps[of _ _ _ 256] pmm_scan.simps[of _ _ _ 257]) (simp add: ex_pmm_def ex_pmm_bit)

text \<open>
  C28. A successful allocation returns a page-aligned address whose page number has the requested
  alignment, lies below the caller's limit, and names pages that were all free; exactly those pages
  leave the free set, they come back cleared, no other byte of memory changes, and the allocator's
  invariant (free pages are eligible, counters equal the bitmaps) is kept.
\<close>

theorem pmm_alloc_sound:
  assumes "pmm_inv s" "k_pmm_alloc_aligned count al maximum s = (a, s')" "a \<noteq> 0"
  shows "a mod 4096 = 0 \<and> (a div 4096) mod al = 0 \<and>
    (maximum \<noteq> 0 \<longrightarrow> a + count * 4096 \<le> maximum) \<and>
    page_span a count \<subseteq> free_set s \<and> free_set s' = free_set s - page_span a count \<and>
    eligible_set s' = eligible_set s \<and> pmm_inv s' \<and>
    ram s' = (\<lambda>b. if b \<in> byte_span a count then 0 else ram s b)"
proof -
  from assms obtain x where x: "a = x * 4096" "s' = pmm_take x count s" "x mod al = 0"
    "x + count \<le> pmm_limit maximum s" "{x..<x + count} \<subseteq> free_set s"
    by (auto elim!: alloc_aligned_cases)
  have "maximum \<noteq> 0 \<longrightarrow> a + count * 4096 \<le> maximum"
    using x(1,4) pmm_limit_le(2)[of maximum s] by auto
  moreover have "ram s' = (\<lambda>b. if b \<in> byte_span a count then 0 else ram s b)"
    using x(1,2) by (auto simp: pmm_take_def mem_zero_apply fun_eq_iff)
  moreover have "pmm_inv s'" using assms alloc_aligned_inv by blast
  ultimately show ?thesis using x by (auto simp: pmm_take_sets)
qed

theorem pmm_alloc_sound_witness:
  "pmm_inv ex_pmm \<and> k_pmm_alloc_aligned 2 2 1064960 ex_pmm = (1048576, pmm_take 256 2 ex_pmm) \<and>
   free_set (pmm_take 256 2 ex_pmm) = {256..<260} - {256..<258}"
  using pmm_alloc_sound[OF ex_pmm_inv ex_pmm_alloc] ex_pmm_inv ex_pmm_alloc ex_pmm_sets by simp

text \<open>
  The search is complete: for a power-of-two alignment and a positive count the allocator fails
  (returns 0) exactly when no aligned run of that many free pages lies below the limit.
\<close>

theorem pmm_alloc_complete:
  assumes "pmm_inv s" "power2 al" "0 < count"
  shows "fst (k_pmm_alloc_aligned count al maximum s) = 0 \<longleftrightarrow>
    (\<nexists>x. x mod al = 0 \<and> x + count \<le> pmm_limit maximum s \<and> {x..<x + count} \<subseteq> free_set s)"
  by (rule alloc_aligned_fails_iff[OF assms])

theorem pmm_alloc_complete_witness:
  "fst (k_pmm_alloc_aligned 8 1 0 ex_pmm) = 0 \<longleftrightarrow>
    (\<nexists>x. x mod 1 = 0 \<and> x + 8 \<le> pmm_limit 0 ex_pmm \<and> {x..<x + 8} \<subseteq> free_set ex_pmm)"
  using ex_pmm_inv by (rule pmm_alloc_complete) (simp_all add: power2_def)

text \<open>
  Releasing pages is exact: a non-empty, page-aligned run of pages that are all handed out
  becomes free; any other request (a page already free, a page the kernel never got, a misaligned
  or out-of-range address) leaves the allocator state unchanged.
\<close>

theorem pmm_free_exact:
  assumes "pmm_inv s"
  shows "(can_free phys count s \<longrightarrow>
      free_set (k_pmm_free_pages phys count s) = free_set s \<union> page_span phys count \<and>
      pmm_free_pages (k_pmm_free_pages phys count s) = pmm_free_pages s + count) \<and>
    (\<not> can_free phys count s \<longrightarrow> k_pmm_free_pages phys count s = s) \<and>
    pmm_inv (k_pmm_free_pages phys count s)"
  using free_pages_inv[OF assms] by (simp add: free_pages_sets(2)[OF assms]) (simp add: free_pages_cases[OF assms])

theorem pmm_free_exact_witness:
  "pmm_inv ex_pmm \<and> \<not> can_free 1048576 1 ex_pmm \<and> k_pmm_free_pages 1048576 1 ex_pmm = ex_pmm"
  using pmm_free_exact[OF ex_pmm_inv, of 1048576 1] ex_pmm_inv
  by (auto simp: can_free_def owned_set_def ex_pmm_sets)

text \<open>
  Releasing what was just allocated restores the free set and the free counter.
\<close>

theorem pmm_alloc_free_roundtrip:
  assumes "pmm_inv s" "k_pmm_alloc_aligned count al maximum s = (a, s')" "a \<noteq> 0"
  shows "free_set (k_pmm_free_pages a count s') = free_set s \<and>
    k_pmm_free_count (k_pmm_free_pages a count s') = k_pmm_free_count s \<and>
    pmm_inv (k_pmm_free_pages a count s')"
proof -
  from assms obtain x where x: "a = x * 4096" "s' = pmm_take x count s" "0 < count"
    "{x..<x + count} \<subseteq> free_set s" by (auto elim!: alloc_aligned_cases)
  have inv': "pmm_inv s'" using assms alloc_aligned_inv by blast
  have "can_free a count s'"
    using x pmm_invD(1)[OF assms(1)] by (auto simp: can_free_def owned_set_def pmm_take_sets)
  with inv' have sets: "free_set (k_pmm_free_pages a count s') = free_set s"
    using x by (auto simp: free_pages_sets pmm_take_sets)
  moreover have inv'': "pmm_inv (k_pmm_free_pages a count s')" by (rule free_pages_inv[OF inv'])
  ultimately show ?thesis
    using pmm_invD(4)[OF inv''] pmm_invD(4)[OF assms(1)] by (simp add: k_pmm_free_count_def)
qed

theorem pmm_alloc_free_roundtrip_witness:
  "k_pmm_alloc_aligned 2 2 1064960 ex_pmm = (1048576, pmm_take 256 2 ex_pmm) \<and>
   free_set (k_pmm_free_pages 1048576 2 (pmm_take 256 2 ex_pmm)) = {256..<260}"
  using pmm_alloc_free_roundtrip[OF ex_pmm_inv ex_pmm_alloc] ex_pmm_alloc ex_pmm_sets by simp

text \<open>
  Seeding manages exactly the pages of page-aligned conventional-memory descriptors that lie
  above the first megabyte and below the bitmap's capacity, all of them free, and establishes the
  invariant; overlapping descriptors are counted once.
\<close>

theorem pmm_seed_exact:
  assumes "pmm_seed_from_efi_map ready z (Some ds) stride s = Some s'"
  shows "pmm_inv s' \<and> eligible_set s' = \<Union> (usable ` set ds)"
proof -
  have "pmm_inv s'" using pmm_seed_inv[OF assms] .
  moreover have "eligible_set s' = \<Union> (usable ` set ds)"
    using assms by (auto simp: pmm_seed_from_efi_map_def eligible_fold_seed_descriptor
        eligible_set_def[of "_\<lparr>pmm_high_page := _\<rparr>"] split: if_splits)
  ultimately show ?thesis ..
qed

theorem pmm_seed_exact_witness:
  "\<exists>s'. pmm_seed_from_efi_map False 40
       (Some [\<lparr>efi_Type = EfiConventionalMemory, PhysicalStart = 1048576, NumberOfPages = 4\<rparr>])
       48 ex_pmm = Some s' \<and> eligible_set s' = {256..<260}"
proof -
  let ?ds = "[\<lparr>efi_Type = EfiConventionalMemory, PhysicalStart = 1048576, NumberOfPages = 4\<rparr>]"
  obtain s' where some: "pmm_seed_from_efi_map False 40 (Some ?ds) 48 ex_pmm = Some s'"
    by (simp add: pmm_seed_from_efi_map_def)
  have "\<Union> (usable ` set ?ds) = {256..<260}" by (auto simp: usable_def PMM_MAX_PAGES_def)
  with pmm_seed_exact[OF some] some show ?thesis by auto
qed

end
