(* ===== verification/Heap.thy ===== *)
theory Heap
  imports Pmm
begin

text \<open>
  The kernel heap of \<open>kernel/mm/heap.c\<close>: 64 arenas of 1024 units of 64 bytes for requests of up to
  32 KiB, and a table of 64 large blocks taken directly from the page allocator. Every allocation
  is followed by an 8-byte canary that \<open>k_heap_free\<close> checks. The heap runs on top of the page
  allocator state, whose \<open>ram\<close> holds the canaries. Pointers are addresses, the null pointer is 0.

  \<open>ALIGN_UP_u32\<close> is the macro \<open>ALIGN_UP\<close> at the types of its use in \<open>k_heap_alloc\<close>: a 64-bit value
  and a 32-bit alignment, so that the mask is complemented at 32 bits before it is widened.
\<close>

section \<open>State\<close>

definition ARENAS :: nat where "ARENAS = 64"
definition UNITS :: nat where "UNITS = 1024"
definition UNIT :: nat where "UNIT = 64"
definition CANARY :: u64 where "CANARY = 0xd831ad7e56b0c429"

record arena =
  a_base :: nat
  a_used :: "nat \<Rightarrow> u64"
  a_length :: "nat \<Rightarrow> nat"
  a_requested :: "nat \<Rightarrow> nat"
  a_live :: nat

record large_block =
  l_base :: nat
  l_pointer :: nat
  l_requested :: nat
  l_pages :: nat

record k_heap_info =
  committed_bytes :: nat
  live_bytes :: nat
  allocations :: nat
  errors :: nat

record heap =
  arenas :: "nat \<Rightarrow> arena"
  large :: "nat \<Rightarrow> large_block"
  heap_stats :: k_heap_info
  heap_pmm :: pmm

definition zero_arena :: arena where
  "zero_arena = \<lparr>a_base = 0, a_used = (\<lambda>_. 0), a_length = (\<lambda>_. 0), a_requested = (\<lambda>_. 0), a_live = 0\<rparr>"

definition zero_large :: large_block where
  "zero_large = \<lparr>l_base = 0, l_pointer = 0, l_requested = 0, l_pages = 0\<rparr>"

section \<open>Helpers\<close>

definition ALIGN_UP_u32 :: "nat \<Rightarrow> u32 \<Rightarrow> nat" where
  "ALIGN_UP_u32 x a =
     unat ((word_of_nat x + ucast a - 1 :: u64) AND ucast (NOT (a - 1)))"

definition occupied :: "arena \<Rightarrow> nat \<Rightarrow> bool" where
  "occupied a u = bit (a_used a (u div 64)) (u mod 64)"

definition canary :: "nat \<Rightarrow> nat \<Rightarrow> u64" where
  "canary p n = CANARY XOR word_of_nat p XOR word_of_nat n"

definition unit_set :: "nat \<Rightarrow> (nat \<Rightarrow> u64) \<Rightarrow> (nat \<Rightarrow> u64)" where
  "unit_set u w = w(u div 64 := w (u div 64) OR push_bit (u mod 64) 1)"

definition unit_clear :: "nat \<Rightarrow> (nat \<Rightarrow> u64) \<Rightarrow> (nat \<Rightarrow> u64)" where
  "unit_clear u w = w(u div 64 := w (u div 64) AND NOT (push_bit (u mod 64) 1))"

section \<open>Allocation\<close>

text \<open>\<open>while (j < needed && !occupied(a, u + j)) ++j;\<close>\<close>

function free_units :: "arena \<Rightarrow> nat \<Rightarrow> nat \<Rightarrow> nat \<Rightarrow> nat" where
  "free_units a u needed j =
     (if j < needed \<and> \<not> occupied a (u + j) then free_units a u needed (Suc j) else j)"
  by pat_completeness auto
termination by (relation "measure (\<lambda>(a, u, needed, j). needed - j)") auto

declare free_units.simps [simp del]

function arena_find :: "arena \<Rightarrow> nat \<Rightarrow> nat \<Rightarrow> nat \<Rightarrow> nat option" where
  "arena_find a needed alignment u =
     (if u + needed \<le> UNITS then
        if (a_base a + u * UNIT) AND (alignment - 1) \<noteq> 0 then arena_find a needed alignment (Suc u)
        else
          let j = free_units a u needed 0 in
          if j \<noteq> needed then arena_find a needed alignment (u + j + 1) else Some u
      else None)"
  by pat_completeness auto
termination by (relation "measure (\<lambda>(a, needed, alignment, u). Suc UNITS - u)") auto

declare arena_find.simps [simp del]

definition arena_take :: "nat \<Rightarrow> nat \<Rightarrow> nat \<Rightarrow> arena \<Rightarrow> arena" where
  "arena_take u needed n a =
     a\<lparr>a_used := fold unit_set [u..<u + needed] (a_used a),
       a_length := (a_length a)(u := needed), a_requested := (a_requested a)(u := n),
       a_live := a_live a + 1\<rparr>"

text \<open>The loop over the arenas; it stops at the first result or at the first failed commit.\<close>

function heap_small :: "nat \<Rightarrow> nat \<Rightarrow> nat \<Rightarrow> nat \<Rightarrow> heap \<Rightarrow> nat \<times> heap" where
  "heap_small n needed alignment i h =
     (if i < ARENAS then
        let (base, pm) = (if a_base (arenas h i) = 0 then k_pmm_alloc_pages 16 0 (heap_pmm h)
                          else (a_base (arenas h i), heap_pmm h)) in
        if base = 0 then (0, h)
        else
          let a = (arenas h i)\<lparr>a_base := base\<rparr>;
              h' = (if a_base (arenas h i) = 0
                    then h\<lparr>arenas := (arenas h)(i := a), heap_pmm := pm,
                           heap_stats := (heap_stats h)\<lparr>committed_bytes :=
                             add64 (committed_bytes (heap_stats h)) 65536\<rparr>\<rparr>
                    else h) in
          case arena_find a needed alignment 0 of
            Some u \<Rightarrow> (base + u * UNIT, h'\<lparr>arenas := (arenas h')(i := arena_take u needed n a)\<rparr>)
          | None \<Rightarrow> heap_small n needed alignment (Suc i) h'
      else (0, h))"
  by pat_completeness auto
termination by (relation "measure (\<lambda>(n, needed, alignment, i, h). ARENAS - i)") auto

declare heap_small.simps [simp del]

definition heap_large :: "nat \<Rightarrow> nat \<Rightarrow> heap \<Rightarrow> nat \<times> heap" where
  "heap_large n alignment h =
     (case find_from 0 64 (\<lambda>i. l_base (large h i) = 0) of
        None \<Rightarrow> (0, h)
      | Some i \<Rightarrow>
          let pages = (n + alignment + 7 + 4095) div 4096;
              (base, pm) = k_pmm_alloc_pages pages 0 (heap_pmm h) in
          if base = 0 then (0, h)
          else
            let result = ALIGN_UP_u32 base (word_of_nat alignment) in
            (result,
             h\<lparr>large := (large h)(i := \<lparr>l_base = base, l_pointer = result, l_requested = n,
                                        l_pages = pages\<rparr>),
               heap_pmm := pm,
               heap_stats := (heap_stats h)\<lparr>committed_bytes :=
                 add64 (committed_bytes (heap_stats h)) (pages * 4096)\<rparr>\<rparr>))"

definition heap_publish :: "nat \<Rightarrow> nat \<Rightarrow> heap \<Rightarrow> heap" where
  "heap_publish result n h =
     h\<lparr>heap_pmm := (heap_pmm h)\<lparr>ram :=
         wr64 (mem_zero (ram (heap_pmm h)) result n) (result + n) (canary result n)\<rparr>,
       heap_stats := (heap_stats h)\<lparr>live_bytes := add64 (live_bytes (heap_stats h)) n,
         allocations := add64 (allocations (heap_stats h)) 1\<rparr>\<rparr>"

definition k_heap_alloc :: "nat \<Rightarrow> nat \<Rightarrow> heap \<Rightarrow> nat \<times> heap" where
  "k_heap_alloc n alignment h =
     (if n = 0 \<or> n > 64 * 1024 * 1024 \<or> \<not> power2 alignment \<or> alignment > 0x200000 then (0, h)
      else
        let alignment' = (if alignment < 16 then 16 else alignment);
            (result, h') =
              (if n + 8 > 32768 \<or> alignment' > 4096 then heap_large n alignment' h
               else heap_small n ((n + 8 + UNIT - 1) div UNIT) alignment' 0 h) in
        if result \<noteq> 0 then (result, heap_publish result n h') else (result, h'))"

section \<open>Release\<close>

definition heap_error :: "int \<Rightarrow> heap \<Rightarrow> int \<times> heap" where
  "heap_error e h = (e, h\<lparr>heap_stats := (heap_stats h)\<lparr>errors := add64 (errors (heap_stats h)) 1\<rparr>\<rparr>)"

definition free_large :: "nat \<Rightarrow> nat \<Rightarrow> heap \<Rightarrow> int \<times> heap" where
  "free_large p i h =
     (let b = large h i in
      if rd64 (ram (heap_pmm h)) (p + l_requested b) \<noteq> canary p (l_requested b)
      then heap_error K_EFAULT h
      else
        (0, h\<lparr>large := (large h)(i := zero_large),
              heap_pmm := k_pmm_free_pages (l_base b) (l_pages b) (heap_pmm h),
              heap_stats := (heap_stats h)\<lparr>
                live_bytes := sub64 (live_bytes (heap_stats h)) (l_requested b),
                committed_bytes := sub64 (committed_bytes (heap_stats h)) (l_pages b * 4096)\<rparr>\<rparr>))"

definition arena_drop :: "nat \<Rightarrow> nat \<Rightarrow> arena \<Rightarrow> arena" where
  "arena_drop u n a =
     a\<lparr>a_used := fold unit_clear [u..<u + n] (a_used a),
       a_length := (a_length a)(u := 0), a_requested := (a_requested a)(u := 0),
       a_live := (a_live a + (2 ^ 32 - 1)) mod 2 ^ 32\<rparr>"

definition free_small :: "nat \<Rightarrow> nat \<Rightarrow> heap \<Rightarrow> int \<times> heap" where
  "free_small p i h =
     (let a = arenas h i;
          u = (p - a_base a) div UNIT;
          n = a_length a u;
          bytes = a_requested a u in
      if n = 0 \<or> n > UNITS - u then heap_error K_EINVAL h
      else if rd64 (ram (heap_pmm h)) (p + bytes) \<noteq> canary p bytes then heap_error K_EFAULT h
      else if \<exists>j\<in>set [0..<n]. \<not> occupied a (u + j) then heap_error K_EFAULT h
      else
        let m = mem_zero (ram (heap_pmm h)) p (n * UNIT);
            a' = arena_drop u n a;
            st = (heap_stats h)\<lparr>live_bytes := sub64 (live_bytes (heap_stats h)) bytes\<rparr>;
            pm = (heap_pmm h)\<lparr>ram := m\<rparr> in
        if a_live a' = 0
        then (0, h\<lparr>arenas := (arenas h)(i := zero_arena),
                   heap_pmm := k_pmm_free_pages (a_base a) 16 pm,
                   heap_stats := st\<lparr>committed_bytes := sub64 (committed_bytes st) 65536\<rparr>\<rparr>)
        else (0, h\<lparr>arenas := (arenas h)(i := a'), heap_pmm := pm, heap_stats := st\<rparr>))"

text \<open>The arena test of the release loop: \<open>p\<close> is a unit boundary of a committed arena.\<close>

definition in_arena :: "nat \<Rightarrow> arena \<Rightarrow> bool" where
  "in_arena p a \<longleftrightarrow> \<not> (a_base a = 0 \<or> p < a_base a \<or> p - a_base a \<ge> 65536 \<or> (p - a_base a) mod UNIT \<noteq> 0)"

definition k_heap_free :: "nat \<Rightarrow> heap \<Rightarrow> int \<times> heap" where
  "k_heap_free p h =
     (if p = 0 then (0, h)
      else case find_from 0 64 (\<lambda>i. l_pointer (large h i) = p) of
        Some i \<Rightarrow> free_large p i h
      | None \<Rightarrow>
          (case find_from 0 ARENAS (\<lambda>i. in_arena p (arenas h i)) of
             Some i \<Rightarrow> free_small p i h
           | None \<Rightarrow> heap_error K_EINVAL h))"

text \<open>\<open>out\<close> tells whether the caller passed a result buffer.\<close>

definition k_heap_get :: "bool \<Rightarrow> heap \<Rightarrow> int + k_heap_info" where
  "k_heap_get out h = (if \<not> out then Inl K_EINVAL else Inr (heap_stats h))"

end
