(* ===== verification/HeapInv.thy ===== *)
theory HeapInv
  imports Heap
begin

text \<open>
  Correctness of the kernel heap: the allocations the tables record are pairwise disjoint, lie in
  pages the heap owns, and every operation keeps the tables consistent. \<open>heap_live\<close> is the abstract
  view of a heap: the set of live allocations with their requested sizes.
\<close>

section \<open>Unit bitmaps and the arena search\<close>

lemma div_mod_eq_iff64: "(m::nat) div 64 = n div 64 \<and> m mod 64 = n mod 64 \<longleftrightarrow> m = n"
  by (metis div_mult_mod_eq)

lemma unit_set_bit: "bit (unit_set u w (k div 64)) (k mod 64) \<longleftrightarrow> k = u \<or> bit (w (k div 64)) (k mod 64)"
  using div_mod_eq_iff64[of k u] by (auto simp: unit_set_def bit_simps)

lemma unit_clear_bit: "bit (unit_clear u w (k div 64)) (k mod 64) \<longleftrightarrow> k \<noteq> u \<and> bit (w (k div 64)) (k mod 64)"
  using div_mod_eq_iff64[of k u] by (auto simp: unit_clear_def bit_simps)

lemma fold_unit_set_bit:
  "bit (fold unit_set us w (k div 64)) (k mod 64) \<longleftrightarrow> k \<in> set us \<or> bit (w (k div 64)) (k mod 64)"
  by (induction us arbitrary: w) (auto simp: unit_set_bit)

lemma fold_unit_clear_bit:
  "bit (fold unit_clear us w (k div 64)) (k mod 64) \<longleftrightarrow> k \<notin> set us \<and> bit (w (k div 64)) (k mod 64)"
  by (induction us arbitrary: w) (auto simp: unit_clear_bit)

lemma free_units_spec:
  "j \<le> needed \<Longrightarrow> free_units a u needed j \<le> needed \<and>
     (\<forall>k. j \<le> k \<and> k < free_units a u needed j \<longrightarrow> \<not> occupied a (u + k))"
proof (induction a u needed j rule: free_units.induct)
  case (1 a u needed j)
  show ?case
  proof (cases "j < needed \<and> \<not> occupied a (u + j)")
    case True
    with 1 show ?thesis
      by (auto simp: free_units.simps[of a u needed j]) (metis Suc_leI le_neq_implies_less)
  next
    case False
    with "1.prems" show ?thesis by (auto simp: free_units.simps[of a u needed j])
  qed
qed

lemma free_units_all:
  "(\<forall>k<needed. j \<le> k \<longrightarrow> \<not> occupied a (u + k)) \<Longrightarrow> j \<le> needed \<Longrightarrow> free_units a u needed j = needed"
proof (induction a u needed j rule: free_units.induct)
  case (1 a u needed j)
  then show ?case
    by (cases "j < needed") (auto simp: free_units.simps[of a u needed j] free_units.simps[of a u needed needed])
qed

lemma arena_find_Some:
  "arena_find a needed al v = Some u \<Longrightarrow>
   u + needed \<le> UNITS \<and> (a_base a + u * UNIT) AND (al - 1) = 0 \<and> (\<forall>k<needed. \<not> occupied a (u + k))"
proof (induction a needed al v rule: arena_find.induct)
  case (1 a needed al v)
  show ?case
  proof (cases "v + needed \<le> UNITS \<and> (a_base a + v * UNIT) AND (al - 1) = 0 \<and> free_units a v needed 0 = needed")
    case True
    with "1.prems" have "u = v" by (simp add: arena_find.simps[of a needed al v])
    with True free_units_spec[of 0 needed a v] show ?thesis by simp
  next
    case False
    with 1 show ?thesis by (auto simp: arena_find.simps[of a needed al v] Let_def split: if_splits)
  qed
qed

lemma arena_find_fresh:
  assumes "\<And>k. \<not> occupied a k" "a_base a AND (al - 1) = 0" "needed \<le> UNITS"
  shows "arena_find a needed al 0 = Some 0"
  using assms free_units_all[of needed 0 a 0] by (simp add: arena_find.simps[of a needed al 0])

section \<open>Arenas\<close>

definition heads :: "arena \<Rightarrow> nat set" where
  "heads a = {u. a_length a u \<noteq> 0}"

definition arena_ok :: "arena \<Rightarrow> bool" where
  "arena_ok a \<longleftrightarrow>
     (\<forall>u\<in>heads a. u + a_length a u \<le> UNITS \<and> a_requested a u + 8 \<le> a_length a u * UNIT) \<and>
     (\<forall>u\<in>heads a. \<forall>v\<in>heads a. u < v \<longrightarrow> u + a_length a u \<le> v) \<and>
     (\<forall>k. occupied a k \<longleftrightarrow> (\<exists>u\<in>heads a. u \<le> k \<and> k < u + a_length a u)) \<and>
     a_live a = card (heads a)"

lemma arena_okD:
  assumes "arena_ok a"
  shows "u \<in> heads a \<Longrightarrow> u + a_length a u \<le> UNITS"
    "u \<in> heads a \<Longrightarrow> a_requested a u + 8 \<le> a_length a u * UNIT"
    "u \<in> heads a \<Longrightarrow> v \<in> heads a \<Longrightarrow> u < v \<Longrightarrow> u + a_length a u \<le> v"
    "occupied a k \<longleftrightarrow> (\<exists>u\<in>heads a. u \<le> k \<and> k < u + a_length a u)"
    "a_live a = card (heads a)"
  using assms by (simp_all add: arena_ok_def)

lemma heads_less: "arena_ok a \<Longrightarrow> u \<in> heads a \<Longrightarrow> u < UNITS"
  using arena_okD(1)[of a u] by (auto simp: heads_def)

lemma finite_heads: "arena_ok a \<Longrightarrow> finite (heads a) \<and> card (heads a) \<le> UNITS"
  using heads_less[of a] by (metis bounded_nat_set_is_finite card_mono card_lessThan
      finite_lessThan lessThan_iff subsetI)

lemma arena_ok_base [simp]: "arena_ok (a\<lparr>a_base := b\<rparr>) \<longleftrightarrow> arena_ok a"
  by (simp add: arena_ok_def heads_def occupied_def)

lemma zero_arena_ok: "arena_ok zero_arena"
  by (simp add: arena_ok_def heads_def occupied_def zero_arena_def)

lemma arena_take_simps [simp]:
  "a_base (arena_take u needed n a) = a_base a"
  "a_length (arena_take u needed n a) = (a_length a)(u := needed)"
  "a_requested (arena_take u needed n a) = (a_requested a)(u := n)"
  "a_live (arena_take u needed n a) = a_live a + 1"
  "occupied (arena_take u needed n a) k \<longleftrightarrow> u \<le> k \<and> k < u + needed \<or> occupied a k"
  by (auto simp: arena_take_def occupied_def fold_unit_set_bit)

lemma heads_take: "0 < needed \<Longrightarrow> heads (arena_take u needed n a) = insert u (heads a)"
  by (auto simp: heads_def)

lemma arena_take_ok:
  assumes ok: "arena_ok a" and u: "u + needed \<le> UNITS" "0 < needed" "n + 8 \<le> needed * UNIT"
    and free: "\<forall>k<needed. \<not> occupied a (u + k)"
  shows "arena_ok (arena_take u needed n a)" "u \<notin> heads a"
proof -
  have occ: "v \<in> heads a \<Longrightarrow> v \<le> k \<Longrightarrow> k < v + a_length a v \<Longrightarrow> occupied a k" for v k
    using arena_okD(4)[OF ok] by blast
  have free': "u \<le> k \<Longrightarrow> k < u + needed \<Longrightarrow> \<not> occupied a k" for k
    using free by (metis le_add_diff_inverse nat_add_left_cancel_less)
  show nu: "u \<notin> heads a" using occ[of u u] free'[of u] u(2) by (auto simp: heads_def)
  have below: "v + a_length a v \<le> u" if "v \<in> heads a" "v < u" for v
    using occ[OF that(1), of u] free'[of u] that u(2) by (meson le_add1 leI less_imp_le less_add_same_cancel1)
  have above: "u + needed \<le> v" if "v \<in> heads a" "u < v" for v
    using occ[OF that(1), of v] free'[of v] that by (auto simp: heads_def) (meson leI less_imp_le)
  have "card (insert u (heads a)) = Suc (card (heads a))" using finite_heads[OF ok] nu by simp
  moreover have "(\<exists>w\<in>insert u (heads a). w \<le> k \<and> k < w + ((a_length a)(u := needed)) w) \<longleftrightarrow>
      u \<le> k \<and> k < u + needed \<or> occupied a k" for k
    using nu arena_okD(4)[OF ok, of k] by auto
  ultimately show "arena_ok (arena_take u needed n a)"
    using u nu below above arena_okD(1,2,3)[OF ok] arena_okD(5)[OF ok]
    by (auto simp: arena_ok_def heads_take)
qed

lemma arena_drop_simps [simp]:
  "a_base (arena_drop u n a) = a_base a"
  "a_length (arena_drop u n a) = (a_length a)(u := 0)"
  "a_requested (arena_drop u n a) = (a_requested a)(u := 0)"
  "occupied (arena_drop u n a) k \<longleftrightarrow> \<not> (u \<le> k \<and> k < u + n) \<and> occupied a k"
  by (auto simp: arena_drop_def occupied_def fold_unit_clear_bit)

lemma heads_drop: "heads (arena_drop u n a) = heads a - {u}"
  by (auto simp: heads_def)

lemma arena_drop_ok:
  assumes ok: "arena_ok a" and u: "u \<in> heads a"
  shows "arena_ok (arena_drop u (a_length a u) a)"
    "a_live (arena_drop u (a_length a u) a) = card (heads a - {u})"
proof -
  have pos: "0 < card (heads a)" using u finite_heads[OF ok] by (auto simp: card_gt_0_iff)
  moreover have "card (heads a) \<le> 1024" using finite_heads[OF ok] by (simp add: UNITS_def)
  ultimately have "(card (heads a) + (2 ^ 32 - 1)) mod 2 ^ 32 = card (heads a) - 1"
    by (simp add: mod_if)
  then show live: "a_live (arena_drop u (a_length a u) a) = card (heads a - {u})"
    using arena_okD(5)[OF ok] u finite_heads[OF ok] by (simp add: arena_drop_def)
  have "(\<exists>w\<in>heads a - {u}. w \<le> k \<and> k < w + ((a_length a)(u := 0)) w) \<longleftrightarrow>
      \<not> (u \<le> k \<and> k < u + a_length a u) \<and> occupied a k" for k
    using arena_okD(4)[OF ok, of k] arena_okD(3)[OF ok u] arena_okD(3)[OF ok _ u] u
    by auto (metis le_less_trans leD linorder_neqE_nat order_less_le_trans)+
  with live show "arena_ok (arena_drop u (a_length a u) a)"
    using arena_okD(1,2,3)[OF ok] by (auto simp: arena_ok_def heads_drop)
qed

section \<open>Heap invariant and abstract view\<close>

definition slots :: "(nat + nat) set" where
  "slots = Inl ` {..<ARENAS} \<union> Inr ` {..<64}"

lemma slots_iff [simp]: "Inl i \<in> slots \<longleftrightarrow> i < ARENAS" "Inr i \<in> slots \<longleftrightarrow> i < 64"
  by (auto simp: slots_def)

text \<open>The page run behind a slot: an arena (\<open>Inl\<close>) or a large block (\<open>Inr\<close>).\<close>

fun region :: "heap \<Rightarrow> nat + nat \<Rightarrow> nat \<times> nat" where
  "region h (Inl i) = (a_base (arenas h i), 16)"
| "region h (Inr i) = (l_base (large h i), l_pages (large h i))"

definition span :: "nat \<times> nat \<Rightarrow> nat set" where
  "span r = (if fst r = 0 then {} else page_span (fst r) (snd r))"

definition regions_ok :: "(nat + nat \<Rightarrow> nat \<times> nat) \<Rightarrow> pmm \<Rightarrow> bool" where
  "regions_ok R pm \<longleftrightarrow> pmm_inv pm \<and>
     (\<forall>x\<in>slots. fst (R x) mod 4096 = 0 \<and> span (R x) \<subseteq> owned_set pm) \<and>
     (\<forall>x\<in>slots. \<forall>y\<in>slots. x \<noteq> y \<longrightarrow> span (R x) \<inter> span (R y) = {})"

definition arena_slot_ok :: "arena \<Rightarrow> bool" where
  "arena_slot_ok a \<longleftrightarrow> arena_ok a \<and> (a_base a = 0 \<longrightarrow> a = zero_arena)"

definition large_ok :: "large_block \<Rightarrow> bool" where
  "large_ok b \<longleftrightarrow> (if l_base b = 0 then b = zero_large
     else 0 < l_pages b \<and> l_base b \<le> l_pointer b \<and>
       l_pointer b + l_requested b + 8 \<le> l_base b + l_pages b * 4096)"

definition heap_inv :: "heap \<Rightarrow> bool" where
  "heap_inv h \<longleftrightarrow> regions_ok (region h) (heap_pmm h) \<and>
     (\<forall>i<ARENAS. arena_slot_ok (arenas h i)) \<and> (\<forall>i<64. large_ok (large h i))"

definition small_live :: "arena \<Rightarrow> (nat \<times> nat) set" where
  "small_live a = (\<lambda>u. (a_base a + u * UNIT, a_requested a u)) ` heads a"

definition large_live :: "large_block \<Rightarrow> (nat \<times> nat) set" where
  "large_live b = (if l_base b = 0 then {} else {(l_pointer b, l_requested b)})"

fun slot_live :: "heap \<Rightarrow> nat + nat \<Rightarrow> (nat \<times> nat) set" where
  "slot_live h (Inl i) = small_live (arenas h i)"
| "slot_live h (Inr i) = large_live (large h i)"

definition heap_live :: "heap \<Rightarrow> (nat \<times> nat) set" where
  "heap_live h = (\<Union>x\<in>slots. slot_live h x)"

text \<open>The bytes of an allocation, canary included.\<close>

abbreviation extent :: "nat \<times> nat \<Rightarrow> nat set" where
  "extent b \<equiv> {fst b..<fst b + snd b + 8}"

lemma regions_okD:
  assumes "regions_ok R pm"
  shows "pmm_inv pm"
    "x \<in> slots \<Longrightarrow> fst (R x) mod 4096 = 0" "x \<in> slots \<Longrightarrow> span (R x) \<subseteq> owned_set pm"
    "x \<in> slots \<Longrightarrow> y \<in> slots \<Longrightarrow> x \<noteq> y \<Longrightarrow> span (R x) \<inter> span (R y) = {}"
  using assms by (simp_all add: regions_ok_def)

lemma heap_invD:
  assumes "heap_inv h"
  shows "regions_ok (region h) (heap_pmm h)" "i < ARENAS \<Longrightarrow> arena_slot_ok (arenas h i)"
    "j < 64 \<Longrightarrow> large_ok (large h j)"
  using assms by (simp_all add: heap_inv_def)

lemma regions_add:
  assumes R: "regions_ok R pm" and x: "x \<in> slots"
    and al: "k_pmm_alloc_pages n 0 pm = (b, pm')" "b \<noteq> 0"
  shows "regions_ok (R(x := (b, n))) pm'"
proof -
  note some = pages.alloc_some[OF regions_okD(1)[OF R] al]
  have "span (R y) \<inter> page_span b n = {}" if "y \<in> slots" for y
    using some regions_okD(3)[OF R that] by blast
  moreover have "span (R y) \<subseteq> owned_set pm'" if "y \<in> slots" for y
    using some regions_okD(3)[OF R that] by blast
  ultimately show ?thesis
    using some pages.alloc_invar[OF regions_okD(1)[OF R] al(1)] regions_okD(2,4)[OF R] al(2)
    by (simp add: regions_ok_def span_def[of "(b, n)"] Int_commute)
qed

lemma regions_drop:
  assumes R: "regions_ok R pm" and x: "x \<in> slots" and b: "R x = (b, n)" "b \<noteq> 0" "0 < n"
  shows "regions_ok (R(x := (0, m))) (k_pmm_free_pages b n pm)"
proof -
  have own: "page_span b n \<subseteq> owned_set pm" "b mod 4096 = 0"
    using regions_okD(2,3)[OF R x] b by (simp_all add: span_def)
  note rel = pages.release_owned[OF regions_okD(1)[OF R] own(2) b(3) own(1)]
  have sx: "span (R x) = page_span b n" using b by (simp add: span_def)
  have sub: "span (R y) \<subseteq> owned_set (k_pmm_free_pages b n pm)" if "y \<in> slots" "y \<noteq> x" for y
    unfolding rel using regions_okD(4)[OF R that(1) x that(2)] regions_okD(3)[OF R that(1)] sx by blast
  have emp: "span (0, m) = {}" by (simp add: span_def)
  show ?thesis
    unfolding regions_ok_def
    using pages.release_invar[OF regions_okD(1)[OF R]] regions_okD(2,4)[OF R] sub emp
    by simp
qed

lemma pmm_inv_ram [simp]: "pmm_inv (pm\<lparr>ram := m\<rparr>) \<longleftrightarrow> pmm_inv pm"
  by (simp add: pmm_inv_def free_set_def eligible_set_def)

lemma owned_set_ram [simp]: "owned_set (pm\<lparr>ram := m\<rparr>) = owned_set pm"
  by (simp add: owned_set_def free_set_def eligible_set_def)

lemma regions_ram [simp]: "regions_ok R (pm\<lparr>ram := m\<rparr>) \<longleftrightarrow> regions_ok R pm"
  by (simp add: regions_ok_def)

lemma region_simps [simp]:
  "region (h\<lparr>arenas := (arenas h)(i := a)\<rparr>) = (region h)(Inl i := (a_base a, 16))"
  "region (h\<lparr>large := (large h)(i := b)\<rparr>) = (region h)(Inr i := (l_base b, l_pages b))"
  "region (h\<lparr>heap_pmm := pm\<rparr>) = region h"
  "region (h\<lparr>heap_stats := st\<rparr>) = region h"
proof -
  have "region (h\<lparr>arenas := (arenas h)(i := a)\<rparr>) x = ((region h)(Inl i := (a_base a, 16))) x"
    "region (h\<lparr>large := (large h)(i := b)\<rparr>) x = ((region h)(Inr i := (l_base b, l_pages b))) x"
    "region (h\<lparr>heap_pmm := pm\<rparr>) x = region h x" "region (h\<lparr>heap_stats := st\<rparr>) x = region h x" for x
    by (cases x; simp)+
  then show "region (h\<lparr>arenas := (arenas h)(i := a)\<rparr>) = (region h)(Inl i := (a_base a, 16))"
    "region (h\<lparr>large := (large h)(i := b)\<rparr>) = (region h)(Inr i := (l_base b, l_pages b))"
    "region (h\<lparr>heap_pmm := pm\<rparr>) = region h" "region (h\<lparr>heap_stats := st\<rparr>) = region h"
    by blast+
qed

lemma zero_arena_live [simp]: "small_live zero_arena = {}" "heads zero_arena = {}"
  by (simp_all add: small_live_def heads_def zero_arena_def)

lemma zero_large_live [simp]: "large_live zero_large = {}" "l_base zero_large = 0"
  by (simp_all add: large_live_def zero_large_def)

lemma slot_extent:
  assumes "heap_inv h" "x \<in> slots" "b \<in> slot_live h x"
  shows "fst (region h x) \<noteq> 0" "extent b \<subseteq> byte_span (fst (region h x)) (snd (region h x))"
proof -
  have "fst (region h x) \<noteq> 0 \<and> extent b \<subseteq> byte_span (fst (region h x)) (snd (region h x))"
  proof (cases x)
    case (Inl i)
    then have i: "i < ARENAS" using assms(2) by simp
    from Inl assms(3) obtain u where u: "u \<in> heads (arenas h i)"
      "b = (a_base (arenas h i) + u * UNIT, a_requested (arenas h i) u)"
      by (auto simp: small_live_def)
    then have "a_base (arenas h i) \<noteq> 0"
      using heap_invD(2)[OF assms(1) i] by (metis arena_slot_ok_def empty_iff zero_arena_live(2))
    moreover have "u * UNIT + a_requested (arenas h i) u + 8 \<le> 65536"
      using arena_okD(1,2)[of "arenas h i", OF _ u(1)] heap_invD(2)[OF assms(1) i]
      by (simp add: arena_slot_ok_def UNIT_def UNITS_def)
    ultimately show ?thesis using Inl u(2) by auto
  next
    case (Inr i)
    with assms heap_invD(3)[OF assms(1), of i] show ?thesis
      by (auto simp: large_live_def large_ok_def split: if_splits)
  qed
  then show "fst (region h x) \<noteq> 0" "extent b \<subseteq> byte_span (fst (region h x)) (snd (region h x))"
    by blast+
qed

lemma slot_disjoint:
  assumes "heap_inv h" "x \<in> slots" "y \<in> slots" "x \<noteq> y" "b \<in> slot_live h x" "c \<in> slot_live h y"
  shows "extent b \<inter> extent c = {}"
proof -
  note bx = slot_extent[OF assms(1,2,5)] and cy = slot_extent[OF assms(1,3,6)]
  have "byte_span (fst (region h x)) (snd (region h x)) \<inter> byte_span (fst (region h y)) (snd (region h y)) = {}"
    using regions_okD(4)[OF heap_invD(1)[OF assms(1)] assms(2-4)] bx(1) cy(1)
    by (intro pages.byte_span_disjoint regions_okD(2)[OF heap_invD(1)[OF assms(1)]] assms(2,3))
      (simp add: span_def)
  with bx(2) cy(2) show ?thesis by blast
qed

text \<open>The extent of a small allocation lies in the units its head records.\<close>

lemma small_units:
  assumes "arena_ok a" "u \<in> heads a"
  shows "extent (a_base a + u * UNIT, a_requested a u) \<subseteq>
    {a_base a + u * UNIT..<a_base a + (u + a_length a u) * UNIT}"
  using arena_okD(2)[OF assms] by (auto simp: algebra_simps)

lemma units_disjoint:
  assumes "arena_ok a" "u \<in> heads a" "v \<in> heads a" "u \<noteq> v"
  shows "{a_base a + u * UNIT..<a_base a + (u + a_length a u) * UNIT} \<inter>
    {a_base a + v * UNIT..<a_base a + (v + a_length a v) * UNIT} = {}"
proof -
  have sep: "x < y \<Longrightarrow> x \<in> heads a \<Longrightarrow> y \<in> heads a \<Longrightarrow> (x + a_length a x) * UNIT \<le> y * UNIT" for x y
    using arena_okD(3)[OF assms(1)] by (simp add: mult_le_mono1)
  have ivl: "b \<le> c \<Longrightarrow> {x..<z + b} \<inter> {z + c..<y} = {} \<and> {z + c..<y} \<inter> {x..<z + b} = {}"
    for b c x y z :: nat by auto
  from assms(4) consider "u < v" | "v < u" by linarith
  then show ?thesis
  proof cases
    case 1
    from ivl[OF sep[OF 1 assms(2,3)]] show ?thesis by blast
  next
    case 2
    from ivl[OF sep[OF 2 assms(3,2)]] show ?thesis by blast
  qed
qed

lemma live_disjoint:
  assumes "heap_inv h" "b \<in> heap_live h" "c \<in> heap_live h" "b \<noteq> c"
  shows "extent b \<inter> extent c = {}"
proof -
  from assms(2,3) obtain x y where xy: "x \<in> slots" "b \<in> slot_live h x" "y \<in> slots" "c \<in> slot_live h y"
    unfolding heap_live_def by blast
  show ?thesis
  proof (cases "x = y")
    case False
    from slot_disjoint[OF assms(1) xy(1,3) False xy(2,4)] show ?thesis .
  next
    case True
    show ?thesis
    proof (cases x)
      case (Inl i)
      let ?a = "arenas h i"
      from Inl xy True have "b \<in> small_live ?a" "c \<in> small_live ?a" by auto
      then obtain u v where uv: "u \<in> heads ?a" "v \<in> heads ?a"
        "b = (a_base ?a + u * UNIT, a_requested ?a u)" "c = (a_base ?a + v * UNIT, a_requested ?a v)"
        unfolding small_live_def by blast
      have ok: "arena_ok ?a" using heap_invD(2)[OF assms(1), of i] Inl xy(1) by (simp add: arena_slot_ok_def)
      have "u \<noteq> v" using assms(4) uv by auto
      from units_disjoint[OF ok uv(1,2) this] small_units[OF ok uv(1)] small_units[OF ok uv(2)]
      show ?thesis unfolding uv(3,4) by blast
    next
      case (Inr i)
      with xy True assms(4) show ?thesis by (auto simp: large_live_def split: if_splits)
    qed
  qed
qed

lemma live_pointer_unique:
  assumes "heap_inv h" "(p, n) \<in> heap_live h" "(p, m) \<in> heap_live h"
  shows "n = m"
  using live_disjoint[OF assms] by (cases "n = m") auto

section \<open>Effect of the table updates\<close>

lemma heap_live_iff: "b \<in> heap_live h \<longleftrightarrow> (\<exists>x\<in>slots. b \<in> slot_live h x)"
  by (simp add: heap_live_def)

lemma heap_live_cases:
  assumes "b \<in> heap_live h"
  obtains (small) i u where "i < ARENAS" "u \<in> heads (arenas h i)"
      "b = (a_base (arenas h i) + u * UNIT, a_requested (arenas h i) u)"
    | (big) i where "i < 64" "l_base (large h i) \<noteq> 0" "b = (l_pointer (large h i), l_requested (large h i))"
proof -
  from assms obtain x where x: "x \<in> slots" "b \<in> slot_live h x" unfolding heap_live_iff by blast
  show ?thesis
  proof (cases x)
    case (Inl i)
    with x small[of i] show ?thesis by (auto simp: small_live_def)
  next
    case (Inr i)
    with x big[of i] show ?thesis by (auto simp: large_live_def split: if_splits)
  qed
qed

text \<open>Changing one slot changes its own contribution to the live set only.\<close>

lemma heap_live_slot:
  assumes "x \<in> slots" "\<And>y. y \<noteq> x \<Longrightarrow> slot_live h' y = slot_live h y"
  shows "heap_live h' = (heap_live h - slot_live h x) \<union> slot_live h' x \<union>
    (slot_live h x \<inter> (\<Union>y\<in>slots - {x}. slot_live h y))"
proof -
  have "heap_live g = slot_live g x \<union> (\<Union>y\<in>slots - {x}. slot_live g y)" for g
    using assms(1) unfolding heap_live_def by blast
  moreover have "(\<Union>y\<in>slots - {x}. slot_live h' y) = (\<Union>y\<in>slots - {x}. slot_live h y)"
    using assms(2) by simp
  ultimately show ?thesis by blast
qed

lemma slot_live_only:
  assumes "heap_inv h" "x \<in> slots"
  shows "slot_live h x \<inter> (\<Union>y\<in>slots - {x}. slot_live h y) = {}"
proof (rule ccontr)
  assume "\<not> ?thesis"
  then obtain b y where y: "b \<in> slot_live h x" "y \<in> slots" "y \<noteq> x" "b \<in> slot_live h y" by blast
  from slot_disjoint[OF assms(1,2) y(2) _ y(1,4)] y(3) show False by auto
qed

lemma heap_live_update:
  assumes "heap_inv h" "x \<in> slots" "\<And>y. y \<noteq> x \<Longrightarrow> slot_live h' y = slot_live h y"
  shows "heap_live h' = (heap_live h - slot_live h x) \<union> slot_live h' x"
  using heap_live_slot[OF assms(2,3)] slot_live_only[OF assms(1,2)] by simp

lemma slot_live_frame [simp]:
  "slot_live (h\<lparr>heap_pmm := pm\<rparr>) x = slot_live h x" "slot_live (h\<lparr>heap_stats := st\<rparr>) x = slot_live h x"
  "heap_live (h\<lparr>heap_pmm := pm\<rparr>) = heap_live h" "heap_live (h\<lparr>heap_stats := st\<rparr>) = heap_live h"
proof -
  show "slot_live (h\<lparr>heap_pmm := pm\<rparr>) x = slot_live h x" for x by (cases x) simp_all
  moreover show "slot_live (h\<lparr>heap_stats := st\<rparr>) x = slot_live h x" for x by (cases x) simp_all
  ultimately show "heap_live (h\<lparr>heap_pmm := pm\<rparr>) = heap_live h"
    "heap_live (h\<lparr>heap_stats := st\<rparr>) = heap_live h"
    by (simp_all add: heap_live_def)
qed

lemma heap_inv_stats [simp]: "heap_inv (h\<lparr>heap_stats := st\<rparr>) \<longleftrightarrow> heap_inv h"
  by (simp add: heap_inv_def)

text \<open>Installing an arena or a large block whose page run the region invariant already covers.\<close>

lemma set_arena_inv:
  assumes "heap_inv h" "i < ARENAS" "arena_slot_ok a"
    "regions_ok ((region h)(Inl i := (a_base a, 16))) pm"
  shows "heap_inv (h\<lparr>arenas := (arenas h)(i := a), heap_pmm := pm, heap_stats := st\<rparr>)"
    "heap_live (h\<lparr>arenas := (arenas h)(i := a), heap_pmm := pm, heap_stats := st\<rparr>) =
       (heap_live h - small_live (arenas h i)) \<union> small_live a"
proof -
  let ?h = "h\<lparr>arenas := (arenas h)(i := a)\<rparr>"
  show "heap_inv (?h\<lparr>heap_pmm := pm, heap_stats := st\<rparr>)"
    using assms heap_invD(2,3)[OF assms(1)] by (simp add: heap_inv_def)
  have "slot_live ?h y = slot_live h y" if "y \<noteq> Inl i" for y using that by (cases y) auto
  from heap_live_update[OF assms(1) _ this, of "Inl i"] assms(2)
  show "heap_live (?h\<lparr>heap_pmm := pm, heap_stats := st\<rparr>) =
       (heap_live h - small_live (arenas h i)) \<union> small_live a" by simp
qed

lemma set_large_inv:
  assumes "heap_inv h" "i < 64" "large_ok b"
    "regions_ok ((region h)(Inr i := (l_base b, l_pages b))) pm"
  shows "heap_inv (h\<lparr>large := (large h)(i := b), heap_pmm := pm, heap_stats := st\<rparr>)"
    "heap_live (h\<lparr>large := (large h)(i := b), heap_pmm := pm, heap_stats := st\<rparr>) =
       (heap_live h - large_live (large h i)) \<union> large_live b"
proof -
  let ?h = "h\<lparr>large := (large h)(i := b)\<rparr>"
  show "heap_inv (?h\<lparr>heap_pmm := pm, heap_stats := st\<rparr>)"
    using assms heap_invD(2,3)[OF assms(1)] by (simp add: heap_inv_def)
  have "slot_live ?h y = slot_live h y" if "y \<noteq> Inr i" for y using that by (cases y) auto
  from heap_live_update[OF assms(1) _ this, of "Inr i"] assms(2)
  show "heap_live (?h\<lparr>heap_pmm := pm, heap_stats := st\<rparr>) =
       (heap_live h - large_live (large h i)) \<union> large_live b" by simp
qed

text \<open>\<open>keeps h h'\<close>: the bytes of every live allocation of \<open>h\<close>, canary included, are the same in \<open>h'\<close>.\<close>

definition keeps :: "heap \<Rightarrow> heap \<Rightarrow> bool" where
  "keeps h h' \<longleftrightarrow> (\<forall>b\<in>heap_live h. \<forall>x\<in>extent b. ram (heap_pmm h') x = ram (heap_pmm h) x)"

lemma keeps_refl [simp]: "keeps h h" by (simp add: keeps_def)

lemma keeps_trans: "keeps h h' \<Longrightarrow> keeps h' h'' \<Longrightarrow> heap_live h \<subseteq> heap_live h' \<Longrightarrow> keeps h h''"
  unfolding keeps_def by fastforce

lemma live_in_owned:
  assumes "heap_inv h" "b \<in> heap_live h" "k_pmm_alloc_pages n 0 (heap_pmm h) = (a, pm)" "a \<noteq> 0"
  shows "extent b \<inter> byte_span a n = {}"
proof -
  from assms(2) obtain x where x: "x \<in> slots" "b \<in> slot_live h x" unfolding heap_live_iff by blast
  note R = heap_invD(1)[OF assms(1)] and ext = slot_extent[OF assms(1) x]
  note some = pages.alloc_some[OF regions_okD(1)[OF R] assms(3,4)]
  have "page_span a n \<inter> page_span (fst (region h x)) (snd (region h x)) = {}"
    using pages.alloc_disjoint[OF regions_okD(1)[OF R] assms(3,4)] regions_okD(3)[OF R x(1)] ext(1)
    by (simp add: span_def)
  from pages.byte_span_disjoint[OF this conjunct1[OF some] regions_okD(2)[OF R x(1)]]
  have "byte_span a n \<inter> byte_span (fst (region h x)) (snd (region h x)) = {}" .
  with ext(2) show ?thesis by blast
qed

lemma alloc_pages_keeps:
  assumes "heap_inv h" "k_pmm_alloc_pages n 0 (heap_pmm h) = (a, pm)" "a \<noteq> 0" "heap_pmm h' = pm"
  shows "keeps h h'"
proof -
  have "ram pm = (\<lambda>b. if b \<in> byte_span a n then 0 else ram (heap_pmm h) b)"
    using pages.alloc_some[OF regions_okD(1)[OF heap_invD(1)[OF assms(1)]] assms(2,3)] by blast
  then have "ram (heap_pmm h') x = ram (heap_pmm h) x" if "b \<in> heap_live h" "x \<in> extent b" for b x
    using disjoint_iff[THEN iffD1, OF live_in_owned[OF assms(1) that(1) assms(2,3)]] that(2) assms(4)
    by (metis (no_types, lifting))
  then show ?thesis unfolding keeps_def by blast
qed

lemma commit_arena:
  fixes st
  assumes inv: "heap_inv h" and i: "i < ARENAS" "a_base (arenas h i) = 0"
    and al: "k_pmm_alloc_pages 16 0 (heap_pmm h) = (b, pm)" "b \<noteq> 0"
  defines "h' \<equiv> h\<lparr>arenas := (arenas h)(i := (arenas h i)\<lparr>a_base := b\<rparr>), heap_pmm := pm, heap_stats := st\<rparr>"
  shows "heap_inv h'" "heap_live h' = heap_live h" "keeps h h'"
proof -
  have z: "arenas h i = zero_arena" using heap_invD(2)[OF inv i(1)] i(2) by (simp add: arena_slot_ok_def)
  have ok: "arena_slot_ok ((arenas h i)\<lparr>a_base := b\<rparr>)"
    using al(2) by (simp add: arena_slot_ok_def z zero_arena_ok)
  have "regions_ok ((region h)(Inl i := (a_base ((arenas h i)\<lparr>a_base := b\<rparr>), 16))) pm"
    using regions_add[OF heap_invD(1)[OF inv] _ al, of "Inl i"] i(1) by simp
  note set = set_arena_inv[OF inv i(1) ok this, of st, folded h'_def]
  show "heap_inv h'" by (rule set(1))
  have "heads (zero_arena\<lparr>a_base := b\<rparr>) = {}" by (simp add: heads_def zero_arena_def)
  then show "heap_live h' = heap_live h" using set(2) by (simp add: z small_live_def)
  show "keeps h h'" using alloc_pages_keeps[OF inv al] by (simp add: h'_def)
qed

lemma take_arena:
  assumes inv: "heap_inv h" and i: "i < ARENAS" "a_base (arenas h i) \<noteq> 0"
    and f: "arena_find (arenas h i) needed al 0 = Some u" and need: "0 < needed" "n + 8 \<le> needed * UNIT"
  defines "h' \<equiv> h\<lparr>arenas := (arenas h)(i := arena_take u needed n (arenas h i))\<rparr>"
    and "p \<equiv> a_base (arenas h i) + u * UNIT"
  shows "heap_inv h'" "heap_live h' = insert (p, n) (heap_live h)" "(p, n) \<notin> heap_live h"
    "keeps h h'" "p AND (al - 1) = 0"
proof -
  let ?a = "arenas h i" and ?t = "arena_take u needed n (arenas h i)"
  note find = arena_find_Some[OF f]
  have ok: "arena_ok ?a" using heap_invD(2)[OF inv i(1)] by (simp add: arena_slot_ok_def)
  have tk: "arena_ok ?t" "u \<notin> heads ?a" using arena_take_ok[OF ok _ need] find by blast+
  have live: "small_live ?t = insert (p, n) (small_live ?a)"
  proof -
    have "(\<lambda>v. (a_base ?t + v * UNIT, a_requested ?t v)) ` heads ?a =
        (\<lambda>v. (a_base ?a + v * UNIT, a_requested ?a v)) ` heads ?a"
      using tk(2) by (intro image_cong) auto
    then show ?thesis by (simp add: small_live_def heads_take[OF need(1)] p_def)
  qed
  have R: "regions_ok ((region h)(Inl i := (a_base ?t, 16))) (heap_pmm h)"
    using heap_invD(1)[OF inv] fun_upd_triv[of "region h" "Inl i"] by simp
  have tok: "arena_slot_ok ?t" using tk(1) i(2) by (simp add: arena_slot_ok_def)
  note set = set_arena_inv[OF inv i(1) tok R, of "heap_stats h"]
  have h'eq: "h\<lparr>arenas := (arenas h)(i := ?t), heap_pmm := heap_pmm h, heap_stats := heap_stats h\<rparr> = h'"
    by (simp add: h'_def)
  from set(1) show inv': "heap_inv h'" unfolding h'eq .
  have sub: "small_live ?a \<subseteq> heap_live h" unfolding heap_live_def using i(1) by (auto intro!: bexI[of _ "Inl i"])
  from set(2) sub show "heap_live h' = insert (p, n) (heap_live h)" unfolding h'eq live by blast
  show "(p, n) \<notin> heap_live h"
  proof
    assume "(p, n) \<in> heap_live h"
    then obtain x where x: "x \<in> slots" "(p, n) \<in> slot_live h x" unfolding heap_live_iff by blast
    have "x = Inl i"
    proof (rule ccontr)
      assume ne: "x \<noteq> Inl i"
      then have "slot_live h' x = slot_live h x" by (cases x) (auto simp: h'_def)
      moreover have "(p, n) \<in> slot_live h' (Inl i)" using live by (simp add: h'_def)
      ultimately show False using slot_live_only[OF inv', of "Inl i"] i(1) x ne by auto
    qed
    with x tk(2) show False by (auto simp: small_live_def p_def UNIT_def)
  qed
  show "keeps h h'" by (simp add: keeps_def h'_def)
  show "p AND (al - 1) = 0" using find by (simp add: p_def)
qed

section \<open>Allocation\<close>

text \<open>What an allocation step promises of its result \<open>p\<close> and its final heap.\<close>

definition alloc_post :: "nat \<Rightarrow> nat \<Rightarrow> heap \<Rightarrow> nat \<Rightarrow> heap \<Rightarrow> bool" where
  "alloc_post n al h p h' \<longleftrightarrow> heap_inv h' \<and> keeps h h' \<and>
     (if p = 0 then heap_live h' = heap_live h
      else heap_live h' = insert (p, n) (heap_live h) \<and> (p, n) \<notin> heap_live h \<and> p AND (al - 1) = 0)"

lemma alloc_post_trans:
  assumes "keeps h g" "heap_live g = heap_live h" "alloc_post n al g p h'"
  shows "alloc_post n al h p h'"
  using assms(3) keeps_trans[OF assms(1)] assms(2) unfolding alloc_post_def assms(2) by blast

lemma take_arena_post:
  assumes "heap_inv h" "i < ARENAS" "a_base (arenas h i) \<noteq> 0"
    "arena_find (arenas h i) needed al 0 = Some u" "0 < needed" "n + 8 \<le> needed * UNIT"
  shows "alloc_post n al h (a_base (arenas h i) + u * UNIT)
    (h\<lparr>arenas := (arenas h)(i := arena_take u needed n (arenas h i))\<rparr>)"
  using take_arena[OF assms] assms(3) by (simp add: alloc_post_def)

lemma heap_small_post:
  assumes "heap_inv h" "0 < needed" "n + 8 \<le> needed * UNIT" "heap_small n needed al i h = (p, h')"
  shows "alloc_post n al h p h'"
  using assms
proof (induction n needed al i h arbitrary: p h' rule: heap_small.induct)
  case (1 n needed al i h)
  note eq = heap_small.simps[of n needed al i h]
  note none = alloc_post_def[of n al h 0 h]
  show ?case
  proof (cases "i < ARENAS")
    case False
    with 1 none show ?thesis by (simp add: eq)
  next
    case i: True
    let ?a = "arenas h i"
    show ?thesis
    proof (cases "a_base ?a = 0")
      case True
      obtain b pm where al: "k_pmm_alloc_pages 16 0 (heap_pmm h) = (b, pm)" by fastforce
      show ?thesis
      proof (cases "b = 0")
        case True
        with 1 none al i \<open>a_base ?a = 0\<close> show ?thesis by (simp add: eq)
      next
        case b: False
        let ?g = "h\<lparr>arenas := (arenas h)(i := ?a\<lparr>a_base := b\<rparr>), heap_pmm := pm,
          heap_stats := (heap_stats h)\<lparr>committed_bytes := add64 (committed_bytes (heap_stats h)) 65536\<rparr>\<rparr>"
        note cm = commit_arena[OF "1.prems"(1) i True al b,
            of "(heap_stats h)\<lparr>committed_bytes := add64 (committed_bytes (heap_stats h)) 65536\<rparr>"]
        have g: "heap_inv ?g" "heap_live ?g = heap_live h" "keeps h ?g" by (rule cm)+
        have "alloc_post n al ?g p h'"
        proof (cases "arena_find (?a\<lparr>a_base := b\<rparr>) needed al 0")
          case None
          with "1.prems" i True al b have "heap_small n needed al (Suc i) ?g = (p, h')" by (simp add: eq Let_def)
          from "1.IH"[OF i, of "(b, pm)" b pm "?a\<lparr>a_base := b\<rparr>" ?g p h'] this g(1)
            "1.prems"(2,3) True al b None show ?thesis by simp
        next
          case (Some u)
          with "1.prems" i True al b have "p = b + u * UNIT"
            "h' = ?g\<lparr>arenas := (arenas ?g)(i := arena_take u needed n (arenas ?g i))\<rparr>"
            by (simp_all add: eq Let_def)
          with take_arena_post[OF g(1) i, of needed al u n] b Some "1.prems"(2,3) show ?thesis by simp
        qed
        from alloc_post_trans[OF g(3,2) this] show ?thesis .
      qed
    next
      case b: False
      then have a: "?a\<lparr>a_base := a_base ?a\<rparr> = ?a" by simp
      show ?thesis
      proof (cases "arena_find ?a needed al 0")
        case None
        with "1.prems" i b have "heap_small n needed al (Suc i) h = (p, h')" by (simp add: eq Let_def)
        from "1.IH"[OF i, of "(a_base ?a, heap_pmm h)" "a_base ?a" "heap_pmm h" ?a h p h'] this
          "1.prems"(1-3) b None show ?thesis by simp
      next
        case (Some u)
        with "1.prems" i b have "p = a_base ?a + u * UNIT"
          "h' = h\<lparr>arenas := (arenas h)(i := arena_take u needed n ?a)\<rparr>"
          by (simp_all add: eq Let_def)
        with take_arena_post[OF "1.prems"(1) i b Some "1.prems"(2,3)] show ?thesis by simp
      qed
    qed
  qed
qed

lemma ALIGN_UP_u32_low:
  assumes "x + 2 ^ k < 2 ^ 32" "k < 32"
  shows "ALIGN_UP_u32 x (word_of_nat (2 ^ k)) = (x + 2 ^ k - 1) div 2 ^ k * 2 ^ k"
proof -
  define y where "y = x + 2 ^ k - 1"
  have y: "y < 2 ^ 32" using assms(1) by (simp add: y_def)
  have a: "(word_of_nat (2 ^ k) :: u32) = push_bit k 1"
    by (simp add: push_bit_eq_mult of_nat_power)
  have mask: "(word_of_nat (2 ^ k) :: u32) - 1 = mask k" by (simp add: mask_eq_exp_minus_1 of_nat_power)
  have "(word_of_nat x + ucast (word_of_nat (2 ^ k) :: u32) - 1 :: u64) = word_of_nat y"
  proof -
    have "(ucast (word_of_nat (2 ^ k) :: u32) :: u64) = word_of_nat (2 ^ k)"
      unfolding a using assms(2) by (intro bit_word_eqI) (auto simp: bit_simps of_nat_power push_bit_eq_mult)
    moreover have "x + 2 ^ k = Suc y" by (simp add: y_def)
    then have "(word_of_nat x + word_of_nat (2 ^ k) :: u64) = word_of_nat y + 1"
      by (metis Suc_eq_plus1 of_nat_1 of_nat_add)
    ultimately show ?thesis by simp
  qed
  moreover have "(word_of_nat y :: u64) AND ucast (NOT (mask k :: u32)) = push_bit k (drop_bit k (word_of_nat y))"
  proof (rule bit_word_eqI)
    fix j assume j: "j < LENGTH(64)"
    have "bit y j \<Longrightarrow> j < 32"
      using take_bit_nat_eq_self[OF y] by (metis bit_take_bit_iff)
    then show "bit ((word_of_nat y :: u64) AND ucast (NOT (mask k :: u32))) j =
        bit (push_bit k (drop_bit k (word_of_nat y :: u64))) j"
      using j by (auto simp: bit_simps)
  qed
  moreover have "unat (push_bit k (drop_bit k (word_of_nat y :: u64))) = y div 2 ^ k * 2 ^ k"
  proof -
    have le: "y div 2 ^ k * 2 ^ k \<le> y" by (rule div_times_less_eq_dividend)
    have "(push_bit k (drop_bit k (word_of_nat y :: u64))) = word_of_nat (y div 2 ^ k * 2 ^ k)"
    proof (rule bit_word_eqI)
      fix j assume j: "j < LENGTH(64)"
      have "y div 2 ^ k * 2 ^ k = push_bit k (drop_bit k y)" by (simp add: push_bit_eq_mult drop_bit_eq_div)
      then show "bit (push_bit k (drop_bit k (word_of_nat y :: u64))) j = bit (word_of_nat (y div 2 ^ k * 2 ^ k) :: u64) j"
        using j by (auto simp: bit_simps)
    qed
    moreover have "y div 2 ^ k * 2 ^ k < 2 ^ LENGTH(64)" by (rule le_less_trans[OF le]) (use y in simp)
    ultimately show ?thesis by (simp only: unsigned_of_nat take_bit_nat_eq_self of_nat_id)
  qed
  ultimately show ?thesis unfolding ALIGN_UP_u32_def mask y_def by simp
qed

lemma span_below_high:
  assumes "pmm_inv s" "k_pmm_alloc_pages n 0 s = (b, s')" "b \<noteq> 0"
  shows "b + n * 4096 \<le> pmm_high_page s * 4096"
proof -
  note some = alloc_pages_some[OF assms]
  have "page_span b n \<subseteq> {..<pmm_high_page s}"
    using some(3) pmm_invD(1,2)[OF assms(1)] by (meson atLeastLessThan_iff lessThan_iff subset_eq)
  moreover have "b div 4096 + n - 1 \<in> page_span b n" using some(2) by simp
  ultimately have "b div 4096 + n \<le> pmm_high_page s" using some(2) by force
  moreover have "b = b div 4096 * 4096" using some(1) by auto
  ultimately show ?thesis by (metis add_mult_distrib mult_le_mono1)
qed

lemma ALIGN_UP_in_block:
  assumes b: "b + n * 4096 \<le> 2 ^ 32" and k: "k < 32" and room: "m + 2 ^ k + 7 \<le> n * 4096"
  defines "r \<equiv> ALIGN_UP_u32 b (word_of_nat (2 ^ k))"
  shows "b \<le> r" "r + m + 8 \<le> b + n * 4096" "r AND (2 ^ k - 1) = 0"
proof -
  have r: "r = (b + 2 ^ k - 1) div 2 ^ k * 2 ^ k"
    unfolding r_def using b k room by (intro ALIGN_UP_u32_low) simp_all
  have pos: "0 < (2::nat) ^ k" by simp
  have "(b + 2 ^ k - 1) div 2 ^ k * 2 ^ k + (b + 2 ^ k - 1) mod 2 ^ k = b + 2 ^ k - 1" by (rule div_mult_mod_eq)
  moreover have "(b + 2 ^ k - 1) mod 2 ^ k < 2 ^ k" by simp
  ultimately have "b \<le> r" "r \<le> b + 2 ^ k - 1" unfolding r by linarith+
  then show "b \<le> r" "r + m + 8 \<le> b + n * 4096" using room pos by linarith+
  have "r AND (2 ^ k - 1) = r mod 2 ^ k"
    by (metis mask_eq_exp_minus_1 take_bit_eq_mask take_bit_eq_mod)
  then show "r AND (2 ^ k - 1) = 0" by (simp add: r)
qed

lemma set_large_post:
  assumes inv: "heap_inv h" and low: "pmm_high_page (heap_pmm h) \<le> 2 ^ 20"
    and i: "i < 64" "l_base (large h i) = 0" and k: "k < 32" and room: "n + 2 ^ k + 7 \<le> pg * 4096"
    and al: "k_pmm_alloc_pages pg 0 (heap_pmm h) = (b, pm)" "b \<noteq> 0"
  defines "r \<equiv> ALIGN_UP_u32 b (word_of_nat (2 ^ k))"
  shows "alloc_post n (2 ^ k) h r (h\<lparr>large := (large h)(i :=
    \<lparr>l_base = b, l_pointer = r, l_requested = n, l_pages = pg\<rparr>), heap_pmm := pm, heap_stats := st\<rparr>)"
proof -
  let ?b = "\<lparr>l_base = b, l_pointer = r, l_requested = n, l_pages = pg\<rparr>"
  note R = heap_invD(1)[OF inv]
  have top: "b + pg * 4096 \<le> 2 ^ 32" using span_below_high[OF regions_okD(1)[OF R] al] low by simp
  note blk = ALIGN_UP_in_block[OF top k room, folded r_def]
  have z: "large h i = zero_large" using heap_invD(3)[OF inv i(1)] i(2) by (simp add: large_ok_def)
  have ok: "large_ok ?b" using blk(1,2) al(2) alloc_pages_some(2)[OF regions_okD(1)[OF R] al]
    by (simp add: large_ok_def)
  have R': "regions_ok ((region h)(Inr i := (l_base ?b, l_pages ?b))) pm"
    using regions_add[OF R _ al, of "Inr i"] i(1) by simp
  note set = set_large_inv[OF inv i(1) ok R', of st]
  have live: "large_live ?b = {(r, n)}" using al(2) by (simp add: large_live_def)
  have "(r, n) \<notin> heap_live h"
  proof
    assume "(r, n) \<in> heap_live h"
    from live_in_owned[OF inv this al] blk(1,2) show False by (auto simp: disjoint_iff)
  qed
  moreover have "keeps h (h\<lparr>large := (large h)(i := ?b), heap_pmm := pm, heap_stats := st\<rparr>)"
    by (rule alloc_pages_keeps[OF inv al]) simp
  moreover have "r \<noteq> 0" using blk(1) al(2) by simp
  ultimately show ?thesis using set blk(3) unfolding live z zero_large_live(1) alloc_post_def by auto
qed

lemma heap_large_post:
  assumes "heap_inv h" "pmm_high_page (heap_pmm h) \<le> 2 ^ 20" "k < 32"
    "heap_large n (2 ^ k) h = (p, h')"
  shows "alloc_post n (2 ^ k) h p h'"
proof -
  have same: "alloc_post n (2 ^ k) h 0 h" using assms(1) by (simp add: alloc_post_def)
  let ?pg = "(n + 2 ^ k + 7 + 4095) div 4096"
  show ?thesis
  proof (cases "find_from 0 64 (\<lambda>i. l_base (large h i) = 0)")
    case None
    with assms(4) same show ?thesis by (simp add: heap_large_def)
  next
    case (Some i)
    from find_from_Some[OF this] have i: "i < 64" "l_base (large h i) = 0" by simp_all
    obtain b pm where al: "k_pmm_alloc_pages ?pg 0 (heap_pmm h) = (b, pm)" by fastforce
    have room: "n + 2 ^ k + 7 \<le> ?pg * 4096" by simp
    show ?thesis
    proof (cases "b = 0")
      case True
      with assms(4) same Some al show ?thesis by (simp add: heap_large_def Let_def)
    next
      case False
      with assms(4) Some al have "p = ALIGN_UP_u32 b (word_of_nat (2 ^ k))"
        "h' = h\<lparr>large := (large h)(i := \<lparr>l_base = b, l_pointer = ALIGN_UP_u32 b (word_of_nat (2 ^ k)),
           l_requested = n, l_pages = ?pg\<rparr>), heap_pmm := pm, heap_stats := (heap_stats h)\<lparr>
             committed_bytes := add64 (committed_bytes (heap_stats h)) (?pg * 4096)\<rparr>\<rparr>"
        by (auto simp: heap_large_def Let_def)
      with set_large_post[OF assms(1,2) i assms(3) room al False] show ?thesis by simp
    qed
  qed
qed

end
