(* ===== verification/HeapCorrect.thy ===== *)
theory HeapCorrect
  imports HeapInv
begin

text \<open>
  The theorems on \<open>k_heap_alloc\<close> and \<open>k_heap_free\<close>, for heaps whose managed memory lies below
  4 GiB; the last one shows what \<open>k_heap_alloc\<close> does with a large block above that limit.
\<close>

section \<open>Canaries\<close>

definition intact :: "heap \<Rightarrow> nat \<times> nat \<Rightarrow> bool" where
  "intact h b \<longleftrightarrow> rd64 (ram (heap_pmm h)) (fst b + snd b) = canary (fst b) (snd b)"

definition heap_ok :: "heap \<Rightarrow> bool" where
  "heap_ok h \<longleftrightarrow> heap_inv h \<and> (\<forall>b\<in>heap_live h. intact h b)"

text \<open>The managed memory lies below 4 GiB.\<close>

abbreviation below_4g :: "heap \<Rightarrow> bool" where
  "below_4g h \<equiv> pmm_high_page (heap_pmm h) \<le> 2 ^ 20"

lemma heap_okD: "heap_ok h \<Longrightarrow> heap_inv h" "heap_ok h \<Longrightarrow> b \<in> heap_live h \<Longrightarrow> intact h b"
  by (simp_all add: heap_ok_def)

lemma intact_cong:
  assumes "\<And>x. x \<in> extent b \<Longrightarrow> ram (heap_pmm h') x = ram (heap_pmm h) x" "intact h b"
  shows "intact h' b"
  using assms rd64_cong[of "ram (heap_pmm h')" "fst b + snd b" "ram (heap_pmm h)"]
  by (simp add: intact_def)

lemma keeps_intact: "keeps h h' \<Longrightarrow> b \<in> heap_live h \<Longrightarrow> intact h b \<Longrightarrow> intact h' b"
  by (rule intact_cong) (simp_all add: keeps_def)

section \<open>Publishing a new block\<close>

lemma publish_ram:
  "ram (heap_pmm (heap_publish p n h)) x =
     (if x \<in> {p..<p + n} then 0
      else if x \<in> {p + n..<p + n + 8} then ucast (drop_bit ((x - (p + n)) * 8) (canary p n))
      else ram (heap_pmm h) x)"
  by (simp add: heap_publish_def wr64_apply mem_zero_apply)

lemma publish_frame:
  "heap_inv (heap_publish p n h) \<longleftrightarrow> heap_inv h" "heap_live (heap_publish p n h) = heap_live h"
  by (simp_all add: heap_publish_def heap_inv_def)

lemma publish_intact: "intact (heap_publish p n h) (p, n)"
  by (simp add: intact_def heap_publish_def rd64_wr64)

lemma publish_post:
  assumes post: "alloc_post n al h p h'" and p: "p \<noteq> 0"
  shows "alloc_post n al h p (heap_publish p n h')"
proof -
  have inv: "heap_inv h'" "heap_live h' = insert (p, n) (heap_live h)" "(p, n) \<notin> heap_live h" "keeps h h'"
    using post p by (simp_all add: alloc_post_def)
  have "ram (heap_pmm (heap_publish p n h')) x = ram (heap_pmm h) x"
    if b: "b \<in> heap_live h" "x \<in> extent b" for b x
  proof -
    have "b \<noteq> (p, n)" using b(1) inv(3) by blast
    from live_disjoint[OF inv(1) _ _ this] inv(2) b(1) have "extent b \<inter> extent (p, n) = {}" by blast
    with b(2) have "x \<notin> extent (p, n)" by blast
    then have "ram (heap_pmm (heap_publish p n h')) x = ram (heap_pmm h') x" by (auto simp: publish_ram)
    with inv(4) b show ?thesis by (simp add: keeps_def)
  qed
  then have "keeps h (heap_publish p n h')" unfolding keeps_def by blast
  with post show ?thesis unfolding alloc_post_def publish_frame by blast
qed

section \<open>The whole of \<open>k_heap_alloc\<close>\<close>

lemma heap_alloc_post:
  assumes inv: "heap_inv h" and low: "below_4g h" and call: "k_heap_alloc n al h = (p, h')"
  shows "alloc_post n (max 16 al) h p h'" "p \<noteq> 0 \<Longrightarrow> \<exists>g. h' = heap_publish p n g"
    "p \<noteq> 0 \<Longrightarrow> 0 < n \<and> power2 (max 16 al)"
proof -
  let ?al = "if al < 16 then 16 else al" and ?need = "(n + 8 + UNIT - 1) div UNIT"
  have mx: "max 16 al = ?al" by simp
  show "alloc_post n (max 16 al) h p h'" "p \<noteq> 0 \<Longrightarrow> \<exists>g. h' = heap_publish p n g"
    "p \<noteq> 0 \<Longrightarrow> 0 < n \<and> power2 (max 16 al)"
  proof (atomize (full), cases "n = 0 \<or> n > 64 * 1024 * 1024 \<or> \<not> power2 al \<or> al > 0x200000")
    case True
    with call have "p = 0" "h' = h" by (auto simp: k_heap_alloc_def)
    with inv show "alloc_post n (max 16 al) h p h' \<and> (p \<noteq> 0 \<longrightarrow> (\<exists>g. h' = heap_publish p n g)) \<and>
        (p \<noteq> 0 \<longrightarrow> 0 < n \<and> power2 (max 16 al))"
      by (simp add: alloc_post_def)
  next
    case ok: False
    have p2: "power2 ?al" using ok by (auto simp: power2_iff intro: exI[of _ 4])
    then obtain k where k: "?al = 2 ^ k" by (auto simp: power2_iff)
    have "(2::nat) ^ k < 2 ^ 32" unfolding k[symmetric] using ok by auto
    then have k32: "k < 32" by (simp only: power_strict_increasing_iff)
    define q where "q = (if n + 8 > 32768 \<or> ?al > 4096 then heap_large n ?al h else heap_small n ?need ?al 0 h)"
    obtain r g where q: "q = (r, g)" by fastforce
    have post: "alloc_post n ?al h r g"
    proof (cases "n + 8 > 32768 \<or> ?al > 4096")
      case True
      with q have "heap_large n (2 ^ k) h = (r, g)" unfolding q_def k by simp
      from heap_large_post[OF inv low k32 this] show ?thesis unfolding k .
    next
      case False
      with q have "heap_small n ?need ?al 0 h = (r, g)" unfolding q_def by simp
      with heap_small_post[OF inv _ _ this] show ?thesis by (simp add: UNIT_def)
    qed
    have "(p, h') = (if r \<noteq> 0 then (r, heap_publish r n g) else (r, g))"
      using call ok q unfolding k_heap_alloc_def q_def by (simp add: Let_def)
    then consider "p = 0" "r = 0" "h' = g" | "p \<noteq> 0" "r = p" "h' = heap_publish p n g"
      by (auto split: if_splits)
    then show "alloc_post n (max 16 al) h p h' \<and> (p \<noteq> 0 \<longrightarrow> (\<exists>g. h' = heap_publish p n g)) \<and>
        (p \<noteq> 0 \<longrightarrow> 0 < n \<and> power2 (max 16 al))"
      unfolding mx using post publish_post[of n ?al h p g] p2 ok by cases auto
  qed
qed

section \<open>The lookups of \<open>k_heap_free\<close>\<close>

lemma live_nonzero:
  assumes "heap_inv h" "(p, n) \<in> heap_live h" shows "p \<noteq> 0"
proof -
  from assms(2) obtain x where x: "x \<in> slots" "(p, n) \<in> slot_live h x" unfolding heap_live_iff by blast
  from slot_extent[OF assms(1) x] show ?thesis by auto
qed

lemma large_pointer_live:
  assumes "heap_inv h" "i < 64" "l_pointer (large h i) = p" "p \<noteq> 0"
  shows "l_base (large h i) \<noteq> 0" "(p, l_requested (large h i)) \<in> slot_live h (Inr i)"
  using assms heap_invD(3)[OF assms(1,2)] by (auto simp: large_ok_def zero_large_def large_live_def split: if_splits)

lemma live_slot_unique:
  assumes "heap_inv h" "x \<in> slots" "y \<in> slots" "(p, n) \<in> slot_live h x" "(p, m) \<in> slot_live h y"
  shows "x = y"
proof (rule ccontr)
  assume "x \<noteq> y"
  from slot_disjoint[OF assms(1-3) this assms(4,5)] show False by (auto simp: disjoint_iff)
qed

lemma find_large:
  assumes inv: "heap_inv h" and i: "i < 64" "l_base (large h i) \<noteq> 0" "p = l_pointer (large h i)" "p \<noteq> 0"
  shows "find_from 0 64 (\<lambda>i. l_pointer (large h i) = p) = Some i"
proof (cases "find_from 0 64 (\<lambda>i. l_pointer (large h i) = p)")
  case None
  with i show ?thesis by (auto simp: find_from_None)
next
  case (Some j)
  from find_from_Some[OF Some] have j: "j < 64" "l_pointer (large h j) = p" by auto
  from live_slot_unique[OF inv _ _ large_pointer_live(2)[OF inv j i(4)]
      large_pointer_live(2)[OF inv i(1) i(3)[symmetric] i(4)]] i(1) j(1) Some
  show ?thesis by simp
qed

lemma find_large_None:
  assumes inv: "heap_inv h" and x: "x \<in> slots" "(p, n) \<in> slot_live h x" "\<And>j. x \<noteq> Inr j"
  shows "find_from 0 64 (\<lambda>i. l_pointer (large h i) = p) = None"
proof (rule ccontr)
  assume "\<not> ?thesis"
  then obtain j where "find_from 0 64 (\<lambda>i. l_pointer (large h i) = p) = Some j" by blast
  from find_from_Some[OF this] have j: "j < 64" "l_pointer (large h j) = p" by auto
  have "p \<noteq> 0" using live_nonzero[OF inv, of p n] x(1,2) unfolding heap_live_iff by blast
  from live_slot_unique[OF inv x(1) _ x(2) large_pointer_live(2)[OF inv j this]] j(1) x(3)
  show False by auto
qed

lemma in_arena_unique:
  assumes inv: "heap_inv h" and i: "i < ARENAS" "in_arena p (arenas h i)" and j: "j < ARENAS" "in_arena p (arenas h j)"
  shows "i = j"
proof (rule ccontr)
  assume "i \<noteq> j"
  note R = heap_invD(1)[OF inv]
  have sp: "p \<in> byte_span (a_base (arenas h k)) 16" "a_base (arenas h k) \<noteq> 0"
    if "in_arena p (arenas h k)" for k using that by (auto simp: in_arena_def)
  have "page_span (a_base (arenas h i)) 16 \<inter> page_span (a_base (arenas h j)) 16 = {}"
    using regions_okD(4)[OF R, of "Inl i" "Inl j"] i j \<open>i \<noteq> j\<close> sp(2)[OF i(2)] sp(2)[OF j(2)]
    by (simp add: span_def)
  from pages.byte_span_disjoint[OF this] regions_okD(2)[OF R, of "Inl i"] regions_okD(2)[OF R, of "Inl j"]
    i(1) j(1) sp(1)[OF i(2)] sp(1)[OF j(2)] show False by (simp add: disjoint_iff)
qed

lemma find_arena:
  assumes inv: "heap_inv h" and i: "i < ARENAS" "in_arena p (arenas h i)"
  shows "find_from 0 ARENAS (\<lambda>i. in_arena p (arenas h i)) = Some i"
proof (cases "find_from 0 ARENAS (\<lambda>i. in_arena p (arenas h i))")
  case None
  with i show ?thesis by (auto simp: find_from_None)
next
  case (Some j)
  from find_from_Some[OF Some] in_arena_unique[OF inv i, of j] Some show ?thesis by simp
qed

lemma head_in_arena:
  assumes "heap_inv h" "i < ARENAS" "u \<in> heads (arenas h i)" "p = a_base (arenas h i) + u * UNIT"
  shows "in_arena p (arenas h i)" "(p - a_base (arenas h i)) div UNIT = u"
proof -
  have ok: "arena_ok (arenas h i)" "a_base (arenas h i) \<noteq> 0"
    using heap_invD(2)[OF assms(1,2)] assms(3) by (auto simp: arena_slot_ok_def)
  with heads_less[OF ok(1) assms(3)] assms(4)
  show "in_arena p (arenas h i)" "(p - a_base (arenas h i)) div UNIT = u"
    by (simp_all add: in_arena_def UNIT_def UNITS_def)
qed

section \<open>Releasing a live block\<close>

lemma heap_error_frame:
  "heap_error e h = (e', h') \<Longrightarrow> e' = e \<and> heap_inv h' = heap_inv h \<and> heap_live h' = heap_live h \<and>
     arenas h' = arenas h \<and> large h' = large h \<and> heap_pmm h' = heap_pmm h"
  by (auto simp: heap_error_def)

lemma k_heap_free_large:
  assumes "heap_inv h" "i < 64" "l_base (large h i) \<noteq> 0" "p = l_pointer (large h i)" "p \<noteq> 0"
  shows "k_heap_free p h = free_large p i h"
  using find_large[OF assms] assms(5) by (simp add: k_heap_free_def)

lemma k_heap_free_small:
  assumes inv: "heap_inv h" and i: "i < ARENAS" "u \<in> heads (arenas h i)" "p = a_base (arenas h i) + u * UNIT"
  shows "k_heap_free p h = free_small p i h"
proof -
  have live: "(p, a_requested (arenas h i) u) \<in> slot_live h (Inl i)" using i by (auto simp: small_live_def)
  then have "p \<noteq> 0" using live_nonzero[OF inv, of p] i(1) unfolding heap_live_iff by (metis slots_iff(1))
  with find_arena[OF inv i(1) head_in_arena(1)[OF inv i]] find_large_None[OF inv _ live] i(1) show ?thesis
    by (simp add: k_heap_free_def)
qed

definition released :: "nat \<times> nat \<Rightarrow> heap \<Rightarrow> heap \<Rightarrow> bool" where
  "released b h h' \<longleftrightarrow> heap_inv h' \<and> heap_live h' = heap_live h - {b} \<and>
     (\<forall>c\<in>heap_live h'. \<forall>x\<in>extent c. ram (heap_pmm h') x = ram (heap_pmm h) x)"

lemma free_large_released:
  assumes inv: "heap_inv h" and i: "i < 64" "l_base (large h i) \<noteq> 0"
    and n: "n = l_requested (large h i)" and p: "p = l_pointer (large h i)" and can: "intact h (p, n)"
  shows "\<exists>h'. free_large p i h = (0, h') \<and> released (p, n) h h'"
proof -
  let ?b = "large h i"
  have ok: "large_ok zero_large" by (simp add: large_ok_def zero_large_def)
  have pg: "0 < l_pages ?b" using heap_invD(3)[OF inv i(1)] i(2) by (simp add: large_ok_def)
  have R: "regions_ok ((region h)(Inr i := (l_base zero_large, l_pages zero_large)))
      (k_pmm_free_pages (l_base ?b) (l_pages ?b) (heap_pmm h))"
    using regions_drop[OF heap_invD(1)[OF inv] _ _ i(2) pg, of "Inr i"] i(1) by simp
  note set = set_large_inv[OF inv i(1) ok R]
  have "large_live ?b = {(p, n)}" using i(2) n p by (simp add: large_live_def)
  with set can show ?thesis
    by (simp add: free_large_def Let_def released_def intact_def n free_pages_ram del: region_simps)
qed

text \<open>Clearing the units of one live block leaves the bytes of the others alone.\<close>

lemma clear_units_frame:
  assumes inv: "heap_inv h" and i: "i < ARENAS" "u \<in> heads (arenas h i)"
    and p: "p = a_base (arenas h i) + u * UNIT"
    and c: "c \<in> heap_live h" "c \<noteq> (p, a_requested (arenas h i) u)" and x: "x \<in> extent c"
  shows "mem_zero m p (a_length (arenas h i) u * UNIT) x = m x"
proof -
  let ?a = "arenas h i"
  have ok: "arena_ok ?a" "a_base ?a \<noteq> 0"
    using heap_invD(2)[OF inv i(1)] i(2) by (auto simp: arena_slot_ok_def)
  let ?U = "{a_base ?a + u * UNIT..<a_base ?a + (u + a_length ?a u) * UNIT}"
  have inblk: "?U \<subseteq> byte_span (a_base ?a) 16"
    using mult_le_mono1[OF arena_okD(1)[OF ok(1) i(2)], of UNIT] by (auto simp: UNITS_def UNIT_def)
  from c(1) obtain y where y: "y \<in> slots" "c \<in> slot_live h y" unfolding heap_live_iff by blast
  have "extent c \<inter> ?U = {}"
  proof (cases "y = Inl i")
    case True
    with y obtain v where v: "v \<in> heads ?a" "c = (a_base ?a + v * UNIT, a_requested ?a v)"
      by (auto simp: small_live_def)
    with c(2) p have "u \<noteq> v" by auto
    from units_disjoint[OF ok(1) i(2) v(1) this] small_units[OF ok(1) v(1)] show ?thesis
      unfolding v(2) by blast
  next
    case False
    note R = heap_invD(1)[OF inv] and ext = slot_extent[OF inv y]
    have "page_span (a_base ?a) 16 \<inter> page_span (fst (region h y)) (snd (region h y)) = {}"
      using regions_okD(4)[OF R _ y(1), of "Inl i"] False i(1) ok(2) ext(1) by (simp add: span_def)
    from pages.byte_span_disjoint[OF this] regions_okD(2)[OF R, of "Inl i"] regions_okD(2)[OF R y(1)] i(1)
    have "byte_span (a_base ?a) 16 \<inter> byte_span (fst (region h y)) (snd (region h y)) = {}" by simp
    with ext(2) inblk show ?thesis by blast
  qed
  with x have "x \<notin> ?U" by blast
  then show ?thesis by (auto simp: mem_zero_apply p algebra_simps)
qed

lemma drop_live:
  assumes "arena_ok a" "u \<in> heads a"
  shows "small_live (arena_drop u (a_length a u) a) =
    small_live a - {(a_base a + u * UNIT, a_requested a u)}"
  unfolding small_live_def heads_drop by (auto simp: image_iff UNIT_def)

lemma free_small_released:
  assumes inv: "heap_inv h" and i: "i < ARENAS" "u \<in> heads (arenas h i)"
    and p: "p = a_base (arenas h i) + u * UNIT" and n: "n = a_requested (arenas h i) u"
    and can: "intact h (p, n)"
  shows "\<exists>h'. free_small p i h = (0, h') \<and> released (p, n) h h'"
proof -
  let ?a = "arenas h i"
  let ?L = "a_length ?a u"
  let ?m = "mem_zero (ram (heap_pmm h)) p (?L * UNIT)"
  let ?pm = "(heap_pmm h)\<lparr>ram := ?m\<rparr>" and ?d = "arena_drop u ?L ?a"
  have ok: "arena_ok ?a" "a_base ?a \<noteq> 0"
    using heap_invD(2)[OF inv i(1)] i(2) by (auto simp: arena_slot_ok_def)
  have u: "(p - a_base ?a) div UNIT = u" by (rule head_in_arena(2)[OF inv i p])
  have occ: "j < ?L \<Longrightarrow> occupied ?a (u + j)" for j
    unfolding arena_okD(4)[OF ok(1)] using i(2) by (intro bexI[of _ u]) simp_all
  have len: "?L \<noteq> 0" "\<not> ?L > UNITS - u" "\<not> (\<exists>j\<in>set [0..<?L]. \<not> occupied ?a (u + j))"
    using arena_okD(1)[OF ok(1) i(2)] i(2) occ by (auto simp: heads_def)
  have can': "rd64 (ram (heap_pmm h)) (p + a_requested ?a u) = canary p (a_requested ?a u)"
    using can by (simp add: intact_def n)
  have sub: "small_live ?a \<subseteq> heap_live h" unfolding heap_live_def using i(1) by (auto intro!: bexI[of _ "Inl i"])
  have frame: "\<forall>c\<in>heap_live h - {(p, n)}. \<forall>x\<in>extent c. ?m x = ram (heap_pmm h) x"
    unfolding n using clear_units_frame[OF inv i p] by blast
  have mem: "(p, n) \<in> small_live ?a" using i p n by (auto simp: small_live_def)
  show ?thesis
  proof (cases "a_live ?d = 0")
    case True
    then have "heads ?a - {u} = {}" using arena_drop_ok(2)[OF ok(1) i(2)] finite_heads[OF ok(1)] by simp
    then have one: "small_live ?a = {(p, n)}" using i(2) p n by (auto simp: small_live_def)
    have R: "regions_ok ((region h)(Inl i := (a_base zero_arena, 16))) (k_pmm_free_pages (a_base ?a) 16 ?pm)"
      using regions_drop[of "region h" ?pm "Inl i" "a_base ?a" 16 16] heap_invD(1)[OF inv] i(1) ok(2)
      by (simp add: zero_arena_def)
    have z: "arena_slot_ok zero_arena" by (simp add: arena_slot_ok_def zero_arena_ok)
    note set = set_arena_inv[OF inv i(1) z R]
    show ?thesis
      using set frame one len can' True unfolding free_small_def u Let_def
      by (simp add: released_def free_pages_ram del: region_simps set_upt)
  next
    case False
    have R: "regions_ok ((region h)(Inl i := (a_base ?d, 16))) ?pm"
      using heap_invD(1)[OF inv] fun_upd_triv[of "region h" "Inl i"] by simp
    have d: "arena_slot_ok ?d" using arena_drop_ok(1)[OF ok(1) i(2)] ok(2) by (simp add: arena_slot_ok_def)
    note set = set_arena_inv[OF inv i(1) d R]
    have "(heap_live h - small_live ?a) \<union> small_live ?d = heap_live h - {(p, n)}"
      using drop_live[OF ok(1) i(2)] sub mem unfolding p[symmetric] n[symmetric] by blast
    then show ?thesis
      using set frame len can' False unfolding free_small_def u Let_def
      by (simp add: released_def del: region_simps set_upt)
  qed
qed

lemma heap_free_live:
  assumes inv: "heap_inv h" and live: "(p, n) \<in> heap_live h"
  shows "intact h (p, n) \<Longrightarrow> \<exists>h'. k_heap_free p h = (0, h') \<and> released (p, n) h h'"
    "\<not> intact h (p, n) \<Longrightarrow> k_heap_free p h = heap_error K_EFAULT h"
proof -
  note nz = live_nonzero[OF inv live]
  have "(intact h (p, n) \<longrightarrow> (\<exists>h'. k_heap_free p h = (0, h') \<and> released (p, n) h h')) \<and>
      (\<not> intact h (p, n) \<longrightarrow> k_heap_free p h = heap_error K_EFAULT h)"
    using live
  proof (cases rule: heap_live_cases)
    case (small i u)
    then have p: "p = a_base (arenas h i) + u * UNIT" and n: "n = a_requested (arenas h i) u" by simp_all
    have L: "a_length (arenas h i) u \<noteq> 0" "\<not> a_length (arenas h i) u > UNITS - u"
      using arena_okD(1)[OF _ small(2)] heap_invD(2)[OF inv small(1)] small(2)
      by (auto simp: heads_def arena_slot_ok_def)
    have "\<not> intact h (p, n) \<Longrightarrow> free_small p i h = heap_error K_EFAULT h"
      using L unfolding free_small_def head_in_arena(2)[OF inv small(1,2) p] intact_def n Let_def by simp
    with free_small_released[OF inv small(1,2) p n] k_heap_free_small[OF inv small(1,2) p]
    show ?thesis by simp
  next
    case (big i)
    then have p: "p = l_pointer (large h i)" and n: "n = l_requested (large h i)" by simp_all
    have "\<not> intact h (p, n) \<Longrightarrow> free_large p i h = heap_error K_EFAULT h"
      by (simp add: free_large_def intact_def n)
    with free_large_released[OF inv big(1,2) n p] k_heap_free_large[OF inv big(1,2) p nz]
    show ?thesis by simp
  qed
  then show "intact h (p, n) \<Longrightarrow> \<exists>h'. k_heap_free p h = (0, h') \<and> released (p, n) h h'"
    "\<not> intact h (p, n) \<Longrightarrow> k_heap_free p h = heap_error K_EFAULT h" by blast+
qed

lemma heap_free_not_live:
  assumes inv: "heap_inv h" and p: "p \<noteq> 0" "\<And>n. (p, n) \<notin> heap_live h"
  shows "k_heap_free p h = heap_error K_EINVAL h"
proof -
  have "find_from 0 64 (\<lambda>i. l_pointer (large h i) = p) = None"
    unfolding find_from_None using large_pointer_live(2)[OF inv _ _ p(1)] p(2) unfolding heap_live_iff
    by (metis slots_iff(2))
  moreover have "free_small p i h = heap_error K_EINVAL h"
    if "find_from 0 ARENAS (\<lambda>i. in_arena p (arenas h i)) = Some i" for i
  proof -
    let ?u = "(p - a_base (arenas h i)) div UNIT"
    from find_from_Some[OF that] have i: "i < ARENAS" "in_arena p (arenas h i)" by auto
    have "p - a_base (arenas h i) = ?u * UNIT" using i(2) by (auto simp: in_arena_def)
    then have "p = a_base (arenas h i) + ?u * UNIT" using i(2) by (auto simp: in_arena_def)
    then have "a_length (arenas h i) ?u = 0"
      using p(2)[of "a_requested (arenas h i) ?u"] i(1) unfolding heap_live_iff
      by (metis (mono_tags, lifting) heads_def image_eqI mem_Collect_eq slot_live.simps(1) slots_iff(1) small_live_def)
    then show ?thesis by (simp add: free_small_def)
  qed
  ultimately show ?thesis using p(1) by (auto simp: k_heap_free_def split: option.split)
qed

section \<open>Correctness of the heap\<close>

text \<open>A heap with nothing allocated over 16 free pages at 1 MiB.\<close>

definition ex_heap_pmm :: pmm where
  "ex_heap_pmm = \<lparr>page_bitmap = (\<lambda>_. 0)(32 := 255, 33 := 255), eligible_bitmap = (\<lambda>_. 0)(32 := 255, 33 := 255),
     pmm_free_pages = 16, pmm_total_pages_managed = 16, pmm_search_cursor = 0, pmm_high_page = 272,
     boot_map = [], boot_desc_size = 0, boot_entries = 0, ram = (\<lambda>_. 255)\<rparr>"

definition ex_heap :: heap where
  "ex_heap = \<lparr>arenas = (\<lambda>_. zero_arena), large = (\<lambda>_. zero_large),
     heap_stats = \<lparr>committed_bytes = 0, live_bytes = 0, allocations = 0, errors = 0\<rparr>,
     heap_pmm = ex_heap_pmm\<rparr>"

lemma bit_255: "bit (255::u8) k \<longleftrightarrow> k < 8"
proof -
  have e: "(255::u8) = mask 8" by (simp add: mask_eq_exp_minus_1)
  show ?thesis unfolding e by (simp only: bit_mask_iff) auto
qed

lemma ex_heap_bit: "bit_get ((\<lambda>_. 0)(32 := 255, 33 := 255)) p \<longleftrightarrow> 256 \<le> p \<and> p < 272"
proof -
  have "(p div 8 = 32 \<or> p div 8 = 33) \<and> p mod 8 < 8 \<longleftrightarrow> 256 \<le> p \<and> p < 272" by presburger
  with bit_255[of "p mod 8"] show ?thesis by (auto simp: bit_get_def)
qed

lemma ex_heap_sets: "free_set ex_heap_pmm = {256..<272}" "eligible_set ex_heap_pmm = {256..<272}"
  by (auto simp: ex_heap_pmm_def free_set_def eligible_set_def ex_heap_bit)

lemma empty_heap_ok:
  assumes "pmm_inv (heap_pmm h)" "arenas h = (\<lambda>_. zero_arena)" "large h = (\<lambda>_. zero_large)"
  shows "heap_ok h" "heap_live h = {}"
proof -
  have span: "span (region h x) = {} \<and> fst (region h x) = 0" for x
    by (cases x) (simp_all add: span_def assms zero_arena_def zero_large_def)
  have "slot_live h x = {}" for x by (cases x) (simp_all add: assms)
  then show live: "heap_live h = {}" by (simp add: heap_live_def)
  have "heap_inv h"
    unfolding heap_inv_def regions_ok_def using span assms
    by (simp add: arena_slot_ok_def zero_arena_ok large_ok_def)
  with live show "heap_ok h" by (simp add: heap_ok_def)
qed

lemma ex_heap_ok: "heap_ok ex_heap" "heap_live ex_heap = {}" "below_4g ex_heap"
proof -
  have "pmm_inv ex_heap_pmm"
    unfolding pmm_inv_def ex_heap_sets by (auto simp: ex_heap_pmm_def PMM_MAX_PAGES_def)
  then show "heap_ok ex_heap" "heap_live ex_heap = {}" "below_4g ex_heap"
    using empty_heap_ok[of ex_heap] by (simp_all add: ex_heap_def ex_heap_pmm_def)
qed

lemma ex_heap_pages: "\<exists>pm. k_pmm_alloc_pages 16 0 ex_heap_pmm = (1048576, pm)"
proof -
  obtain b pm where al: "k_pmm_alloc_pages 16 0 ex_heap_pmm = (b, pm)" by fastforce
  have inv: "pmm_inv ex_heap_pmm"
    using regions_okD(1)[OF heap_invD(1)[OF heap_okD(1)[OF ex_heap_ok(1)]]] by (simp add: ex_heap_def)
  have "pmm_high_page ex_heap_pmm = 272" by (simp add: ex_heap_pmm_def)
  then have b: "b \<noteq> 0" using alloc_pages_available[OF inv, of 16 256] unfolding ex_heap_sets al by simp
  have "page_span b 16 \<subseteq> {256..<272}" "b mod 4096 = 0"
    using alloc_pages_some(1,3)[OF inv al b] unfolding ex_heap_sets by blast+
  moreover have "b div 4096 \<in> page_span b 16" "b div 4096 + 15 \<in> page_span b 16" by simp_all
  ultimately have "b div 4096 \<in> {256..<272}" "b div 4096 + 15 \<in> {256..<272}" by blast+
  then have "b div 4096 = 256" by simp
  with \<open>b mod 4096 = 0\<close> have "b = 1048576" using div_mult_mod_eq[of b 4096] by simp
  with al show ?thesis by blast
qed

lemma ex_heap_alloc: "fst (k_heap_alloc 100 16 ex_heap) = 1048576"
proof -
  obtain pm where al: "k_pmm_alloc_pages 16 0 ex_heap_pmm = (1048576, pm)" using ex_heap_pages by blast
  have f: "arena_find (zero_arena\<lparr>a_base := 1048576\<rparr>) 2 16 0 = Some 0"
  proof (rule arena_find_fresh)
    have "(1048576::nat) AND 15 = 1048576 mod 2 ^ 4" using and_mask_eq_mod[of 1048576 4] by simp
    then show "a_base (zero_arena\<lparr>a_base := 1048576\<rparr>) AND (16 - 1) = 0" by simp
  qed (simp_all add: occupied_def zero_arena_def UNITS_def)
  have "fst (heap_small 100 2 16 0 ex_heap) = 1048576"
    using al f by (simp add: heap_small.simps[of 100 2 16 0] ARENAS_def ex_heap_def zero_arena_def Let_def)
  moreover have "power2 16" by (auto simp: power2_iff intro: exI[of _ 4])
  ultimately show ?thesis
    by (cases "heap_small 100 2 16 0 ex_heap") (simp add: k_heap_alloc_def UNIT_def)
qed



text \<open>A heap with one live block, for the theorems on release.\<close>

definition ex_heap1 :: heap where
  "ex_heap1 = snd (k_heap_alloc 100 16 ex_heap)"

lemma ex_heap1_ok: "heap_inv ex_heap1" "heap_live ex_heap1 = {(1048576, 100)}" "intact ex_heap1 (1048576, 100)"
proof -
  let ?r = "k_heap_alloc 100 16 ex_heap"
  have call: "?r = (1048576, ex_heap1)" using ex_heap_alloc by (simp add: ex_heap1_def prod_eq_iff)
  note post = heap_alloc_post[OF heap_okD(1)[OF ex_heap_ok(1)] ex_heap_ok(3) call]
  show "heap_inv ex_heap1" "heap_live ex_heap1 = {(1048576, 100)}"
    using post(1) ex_heap_ok(2) by (simp_all add: alloc_post_def)
  show "intact ex_heap1 (1048576, 100)" using post(2) publish_intact by (metis zero_neq_numeral)
qed

lemma ex_heap1_heap_ok: "heap_ok ex_heap1"
  using ex_heap1_ok by (simp add: heap_ok_def)

text \<open>
  C29. Release is exact. On a consistent heap with intact canaries \<open>k_heap_free\<close> of a non-null
  pointer succeeds exactly when the pointer is the address of a live block; it then removes that
  block and no other, keeps the contents of the other blocks, and the heap stays consistent. For any
  other pointer it returns \<open>K_EINVAL\<close> and changes nothing but its error counter.
\<close>

theorem heap_free_exact:
  assumes ok: "heap_ok h" and p: "p \<noteq> 0"
  shows "if \<exists>n. (p, n) \<in> heap_live h
    then \<exists>n h'. k_heap_free p h = (0, h') \<and> (p, n) \<in> heap_live h \<and> heap_ok h' \<and>
           heap_live h' = heap_live h - {(p, n)} \<and>
           (\<forall>b\<in>heap_live h'. \<forall>x\<in>extent b. ram (heap_pmm h') x = ram (heap_pmm h) x)
    else k_heap_free p h = (K_EINVAL, h\<lparr>heap_stats := (heap_stats h)\<lparr>
           errors := add64 (errors (heap_stats h)) 1\<rparr>\<rparr>)"
proof (cases "\<exists>n. (p, n) \<in> heap_live h")
  case True
  then obtain n where n: "(p, n) \<in> heap_live h" by blast
  from heap_free_live(1)[OF heap_okD(1)[OF ok] n heap_okD(2)[OF ok n]] obtain h' where
    h': "k_heap_free p h = (0, h')" "released (p, n) h h'" by blast
  have live: "heap_live h' = heap_live h - {(p, n)}"
    and same: "\<forall>b\<in>heap_live h'. \<forall>x\<in>extent b. ram (heap_pmm h') x = ram (heap_pmm h) x"
    and inv: "heap_inv h'" using h'(2) unfolding released_def by blast+
  have "intact h' b" if b: "b \<in> heap_live h'" for b
  proof (rule intact_cong)
    show "x \<in> extent b \<Longrightarrow> ram (heap_pmm h') x = ram (heap_pmm h) x" for x using same b by blast
    show "intact h b" using heap_okD(2)[OF ok] b live by blast
  qed
  then have "heap_ok h'" using inv by (simp add: heap_ok_def)
  with True n h'(1) live same show ?thesis by auto
next
  case False
  with heap_free_not_live[OF heap_okD(1)[OF ok] p] show ?thesis by (simp add: heap_error_def)
qed

theorem heap_free_exact_witness:
  "heap_ok ex_heap1 \<and> (\<exists>h'. k_heap_free 1048576 ex_heap1 = (0, h') \<and> heap_ok h' \<and> heap_live h' = {})"
  using heap_free_exact[OF ex_heap1_heap_ok, of 1048576] ex_heap1_heap_ok
  unfolding ex_heap1_ok(2) by auto

text \<open>
  Overruns are detected. If any of the eight bytes after a live block no longer reads as its
  canary, \<open>k_heap_free\<close> of that block returns \<open>K_EFAULT\<close>, counts an error and changes nothing
  else: no page is released and the block stays live.
\<close>

theorem heap_overrun_detected:
  assumes "heap_inv h" "(p, n) \<in> heap_live h"
    "rd64 (ram (heap_pmm h)) (p + n) \<noteq> CANARY XOR word_of_nat p XOR word_of_nat n"
  shows "k_heap_free p h =
    (K_EFAULT, h\<lparr>heap_stats := (heap_stats h)\<lparr>errors := add64 (errors (heap_stats h)) 1\<rparr>\<rparr>)"
proof -
  have "\<not> intact h (p, n)" using assms(3) by (simp add: intact_def canary_def)
  from heap_free_live(2)[OF assms(1,2) this] show ?thesis by (simp add: heap_error_def)
qed

definition ex_heap2 :: heap where
  "ex_heap2 = ex_heap1\<lparr>heap_pmm := (heap_pmm ex_heap1)\<lparr>ram := wr64 (ram (heap_pmm ex_heap1)) 1048676 0\<rparr>\<rparr>"

theorem heap_overrun_detected_witness: "fst (k_heap_free 1048576 ex_heap2) = K_EFAULT"
proof -
  have "heap_inv ex_heap2" "heap_live ex_heap2 = {(1048576, 100)}"
    using ex_heap1_ok by (simp_all add: ex_heap2_def heap_inv_def)
  moreover have "rd64 (ram (heap_pmm ex_heap2)) 1048676 = 0" by (simp add: ex_heap2_def rd64_wr64)
  ultimately show ?thesis using heap_overrun_detected[of ex_heap2 1048576 100] by (simp add: CANARY_def)
qed

section \<open>Large blocks above 4 GiB\<close>

lemma ALIGN_UP_u32_bound: "ALIGN_UP_u32 x a < 2 ^ 32"
proof -
  let ?w = "(word_of_nat x + ucast a - 1 :: u64) AND ucast (NOT (a - 1))"
  have "?w = take_bit 32 ?w" by (rule bit_word_eqI) (auto simp: bit_simps)
  then have "unat ?w = unat (take_bit 32 ?w)" by (rule arg_cong)
  also have "\<dots> = take_bit 32 (unat ?w)" by (rule unsigned_take_bit_eq)
  finally have "unat ?w < 2 ^ 32" by (metis take_bit_nat_less_exp)
  then show ?thesis by (simp only: ALIGN_UP_u32_def)
qed

text \<open>Free pages only at 4 GiB and above.\<close>

definition ex_high_pmm :: pmm where
  "ex_high_pmm = ex_heap_pmm\<lparr>page_bitmap := (\<lambda>_. 0)(131072 := 255, 131073 := 255),
     eligible_bitmap := (\<lambda>_. 0)(131072 := 255, 131073 := 255), pmm_high_page := 1048592\<rparr>"

lemma ex_high_bit: "bit_get ((\<lambda>_. 0)(131072 := 255, 131073 := 255)) p \<longleftrightarrow> 1048576 \<le> p \<and> p < 1048592"
proof -
  have "p div 8 = 131072 \<or> p div 8 = 131073 \<longleftrightarrow> 1048576 \<le> p \<and> p < 1048592" by linarith
  with bit_255[of "p mod 8"] show ?thesis by (auto simp: bit_get_def)
qed

lemma ex_high_sets: "free_set ex_high_pmm = {1048576..<1048592}" "eligible_set ex_high_pmm = {1048576..<1048592}"
  by (auto simp: ex_high_pmm_def free_set_def eligible_set_def ex_high_bit)

lemma ex_high_inv: "pmm_inv ex_high_pmm"
  unfolding pmm_inv_def ex_high_sets by (auto simp: ex_high_pmm_def ex_heap_pmm_def PMM_MAX_PAGES_def)

lemma ex_high_pages: "\<exists>b pm. k_pmm_alloc_pages 10 0 ex_high_pmm = (b, pm) \<and> 2 ^ 32 \<le> b"
proof -
  obtain b pm where al: "k_pmm_alloc_pages 10 0 ex_high_pmm = (b, pm)" by fastforce
  have "pmm_high_page ex_high_pmm = 1048592" by (simp add: ex_high_pmm_def)
  then have b: "b \<noteq> 0" using alloc_pages_available[OF ex_high_inv, of 10 1048576] unfolding ex_high_sets al by simp
  have "page_span b 10 \<subseteq> {1048576..<1048592}" using alloc_pages_some(3)[OF ex_high_inv al b] unfolding ex_high_sets .
  moreover have "b div 4096 \<in> page_span b 10" by simp
  ultimately have "b div 4096 \<in> {1048576..<1048592}" by blast
  then have "1048576 * 4096 \<le> b div 4096 * 4096" by simp
  also have "\<dots> \<le> b" by (rule div_times_less_eq_dividend)
  finally show ?thesis using al by auto
qed

text \<open>
  C37. The restriction to memory below 4 GiB is needed: when the page allocator serves a large
  request at or above 4 GiB, \<open>k_heap_alloc\<close> returns an address below 4 GiB, outside the pages it
  just took, because \<open>ALIGN_UP\<close> complements the 32-bit alignment before widening it. (Finding: the
  mask drops the upper half of the address.)
\<close>

theorem heap_large_above_4g:
  assumes "power2 al" "al \<le> 0x200000" "n \<le> 64 * 1024 * 1024" "n + 8 > 32768"
    and slot: "find_from 0 64 (\<lambda>i. l_base (large h i) = 0) = Some i"
    and high: "k_pmm_alloc_pages ((n + max 16 al + 7 + 4095) div 4096) 0 (heap_pmm h) = (b, pm)" "2 ^ 32 \<le> b"
  shows "fst (k_heap_alloc n al h) < 2 ^ 32 \<and> fst (k_heap_alloc n al h) \<notin> byte_span b ((n + max 16 al + 7 + 4095) div 4096)"
proof -
  let ?al = "if al < 16 then 16 else al"
  have al: "max 16 al = ?al" by simp
  have "b \<noteq> 0" using high(2) by auto
  then have "fst (heap_large n ?al h) = ALIGN_UP_u32 b (word_of_nat ?al)"
    using slot high(1) unfolding al heap_large_def Let_def by simp
  moreover have "fst (k_heap_alloc n al h) = fst (heap_large n ?al h)"
    using assms(1-4) by (cases "heap_large n ?al h") (simp add: k_heap_alloc_def)
  ultimately show ?thesis using ALIGN_UP_u32_bound[of b "word_of_nat ?al"] high(2) by simp
qed

theorem heap_large_above_4g_witness:
  "fst (k_heap_alloc 40000 16 (ex_heap\<lparr>heap_pmm := ex_high_pmm\<rparr>)) < 2 ^ 32"
proof -
  obtain b pm where al: "k_pmm_alloc_pages 10 0 ex_high_pmm = (b, pm)" "2 ^ 32 \<le> b" using ex_high_pages by blast
  have "find_from 0 64 (\<lambda>i. l_base (large (ex_heap\<lparr>heap_pmm := ex_high_pmm\<rparr>) i) = 0) = Some 0"
    by (simp add: find_from_def ex_heap_def upt_rec)
  moreover have "power2 16" by (auto simp: power2_iff intro: exI[of _ 4])
  ultimately show ?thesis
    using heap_large_above_4g[of 16 40000 "ex_heap\<lparr>heap_pmm := ex_high_pmm\<rparr>" 0 b pm] al by simp
qed

end
