(* ===== verification/Mmu.thy ===== *)
theory Mmu
  imports Pmm
begin

unbundle bit_operations_syntax

text \<open>
  The x86-64 memory manager of \<open>arch/x86_64/mmu.c\<close> and \<open>arch/x86_64/vm_features.c\<close>. Page tables live
  in the physical memory \<open>ram\<close> of the page allocator, as the hardware sees them: \<open>ld s t i\<close> is the
  C expression \<open>t[i]\<close> for a table at physical address \<open>t\<close>. Tables and addresses are natural
  numbers, entries and flag sets are 64-bit words. A pointer to an address space is an index into
  \<open>spaces\<close> (\<open>None\<close> or an index out of range is a pointer the code rejects). The memory manager
  runs under \<open>vm_lock\<close>; invalidation of the translation buffer has no effect on this state.
\<close>

section \<open>State\<close>

definition PAGE_PRESENT :: u64 where "PAGE_PRESENT = 1"
definition PAGE_RW :: u64 where "PAGE_RW = 2"
definition PAGE_USER :: u64 where "PAGE_USER = 4"
definition PAGE_PWT :: u64 where "PAGE_PWT = 8"
definition PAGE_PCD :: u64 where "PAGE_PCD = 16"
definition PAGE_LARGE :: u64 where "PAGE_LARGE = push_bit 7 1"
definition X86_LAZY :: u64 where "X86_LAZY = push_bit 9 1"
definition PAGE_NX :: u64 where "PAGE_NX = push_bit 63 1"
definition PHYS_MASK :: u64 where "PHYS_MASK = 0x000ffffffffff000"

definition K_USER_BASE :: nat where "K_USER_BASE = 0x0000400000000000"
definition K_USER_LIMIT :: nat where "K_USER_LIMIT = 0x0000408000000000"
definition K_USER_CANON_LIMIT :: nat where "K_USER_CANON_LIMIT = 0x0000800000000000"
definition MAX_AS :: nat where "MAX_AS = 72"
definition MAX_USER_PAGES :: nat where "MAX_USER_PAGES = 16384"
definition USER_SLOT :: nat where "USER_SLOT = 128"
definition RIEF_REGION_R :: u32 where "RIEF_REGION_R = 1"
definition RIEF_REGION_W :: u32 where "RIEF_REGION_W = 2"
definition RIEF_REGION_X :: u32 where "RIEF_REGION_X = 4"
definition K_VM_LAZY :: nat where "K_VM_LAZY = 1"
definition K_VM_HUGE :: nat where "K_VM_HUGE = 2"

record k_address_space =
  as_used :: bool
  as_root :: nat
  as_owned_slots :: "nat \<Rightarrow> u64"
  as_next :: nat
  as_pages :: nat
  as_owner :: "nat option"

definition zero_space :: k_address_space where
  "zero_space = \<lparr>as_used = False, as_root = 0, as_owned_slots = (\<lambda>_. 0), as_next = 0, as_pages = 0,
     as_owner = None\<rparr>"

record vm =
  vm_pmm :: pmm
  vm_spaces :: "nat \<Rightarrow> k_address_space"
  vm_kernel_pml4 :: nat
  vm_smp_started :: bool
  vm_nx :: bool

section \<open>Table entries\<close>

definition ld :: "vm \<Rightarrow> nat \<Rightarrow> nat \<Rightarrow> u64" where
  "ld s t i = rd64 (ram (vm_pmm s)) (t + 8 * i)"

definition st :: "nat \<Rightarrow> nat \<Rightarrow> u64 \<Rightarrow> vm \<Rightarrow> vm" where
  "st t i e s = s\<lparr>vm_pmm := (vm_pmm s)\<lparr>ram := wr64 (ram (vm_pmm s)) (t + 8 * i) e\<rparr>\<rparr>"

text \<open>\<open>e & flag\<close> as a condition, and the table or page an entry points to.\<close>

definition has :: "u64 \<Rightarrow> u64 \<Rightarrow> bool" where
  "has e flag \<longleftrightarrow> e AND flag \<noteq> 0"

definition phys :: "u64 \<Rightarrow> nat" where
  "phys e = unat (e AND PHYS_MASK)"

text \<open>\<open>(v >> (12 + 9 * (level - 1))) & 511\<close>\<close>

definition pt_index :: "nat \<Rightarrow> nat \<Rightarrow> nat" where
  "pt_index level v = v div 2 ^ (12 + 9 * (level - 1)) mod 512"

definition ALIGN_UP :: "nat \<Rightarrow> nat \<Rightarrow> nat" where
  "ALIGN_UP x a = unat ((word_of_nat x + word_of_nat a - 1 :: u64) AND NOT (word_of_nat a - 1))"

definition vm_alloc :: "vm \<Rightarrow> nat \<times> vm" where
  "vm_alloc s = (let (p, pm) = pmm_alloc_page (vm_pmm s) in (p, s\<lparr>vm_pmm := pm\<rparr>))"

definition vm_free :: "nat \<Rightarrow> nat \<Rightarrow> vm \<Rightarrow> vm" where
  "vm_free p n s = s\<lparr>vm_pmm := k_pmm_free_pages p n (vm_pmm s)\<rparr>"

definition canonical :: "nat \<Rightarrow> bool" where
  "canonical a \<longleftrightarrow> a div 2 ^ 47 = 0 \<or> a div 2 ^ 47 = 0x1ffff"

section \<open>Page tables\<close>

text \<open>The large-page branch: the entry is replaced by a table of 512 smaller mappings.\<close>

definition split_flags :: "u64 \<Rightarrow> nat \<Rightarrow> u64" where
  "split_flags e level =
     (let flags = e AND NOT PHYS_MASK in
      if has e (push_bit 12 1) then flags OR (if level = 3 then push_bit 12 1 else PAGE_LARGE)
      else if level = 2 then flags AND NOT PAGE_LARGE else flags)"

definition split_large :: "nat \<Rightarrow> u64 \<Rightarrow> nat \<Rightarrow> vm \<Rightarrow> vm" where
  "split_large child e level s =
     (let stride = (if level = 3 then 0x200000 else 4096 :: nat);
          base = e AND PHYS_MASK AND NOT ((if level = 3 then 0x40000000 else 0x200000) - 1);
          flags = split_flags e level in
      fold (\<lambda>j s. st child j ((base + word_of_nat (j * stride)) OR flags) s) [0..<512] s)"

definition x86_64_pt_child :: "nat \<Rightarrow> nat \<Rightarrow> nat \<Rightarrow> bool \<Rightarrow> vm \<Rightarrow> (int + nat) \<times> vm" where
  "x86_64_pt_child table idx level user s =
     (let e = ld s table idx;
          found = (\<lambda>s. if user \<and> \<not> has (ld s table idx) PAGE_USER then (Inl K_EPERM, s)
                       else (Inr (phys (ld s table idx)), s)) in
      if \<not> has e PAGE_PRESENT then
        let (p, s) = vm_alloc s in
        if p = 0 then (Inl K_ENOMEM, s)
        else found (st table idx
               (word_of_nat p OR PAGE_PRESENT OR PAGE_RW OR (if user then PAGE_USER else 0)) s)
      else if has e PAGE_LARGE then
        if level \<noteq> 2 \<and> level \<noteq> 3 then (Inl K_EINVAL, s)
        else
          let (p, s) = vm_alloc s in
          if p = 0 then (Inl K_ENOMEM, s)
          else found (st table idx (word_of_nat p OR PAGE_PRESENT OR PAGE_RW OR (e AND PAGE_USER))
                 (split_large p e level s))
      else found s)"

text \<open>\<open>for (level = 4; level > l; --level) t = child(t)\<close>: descent with creation of missing tables.\<close>

fun pt_descend :: "nat list \<Rightarrow> nat \<Rightarrow> nat \<Rightarrow> bool \<Rightarrow> vm \<Rightarrow> (int + nat) \<times> vm" where
  "pt_descend [] t v user s = (Inr t, s)"
| "pt_descend (level # ls) t v user s =
     (case x86_64_pt_child t (pt_index level v) level user s of
        (Inl e, s) \<Rightarrow> (Inl e, s)
      | (Inr t, s) \<Rightarrow> pt_descend ls t v user s)"

definition x86_64_map_page_raw :: "nat \<Rightarrow> nat \<Rightarrow> nat \<Rightarrow> u64 \<Rightarrow> bool \<Rightarrow> vm \<Rightarrow> int \<times> vm" where
  "x86_64_map_page_raw root v p flags replace s =
     (if root = 0 \<or> \<not> canonical v \<or> v mod 4096 \<noteq> 0 \<or> p mod 4096 \<noteq> 0 \<or>
         word_of_nat p AND NOT PHYS_MASK \<noteq> 0 then (K_EINVAL, s)
      else
        let user = has flags PAGE_USER in
        if user \<and> (v < 0x10000 \<or> v \<ge> K_USER_CANON_LIMIT \<or>
             (vm_kernel_pml4 s \<noteq> 0 \<and> has (ld s (vm_kernel_pml4 s) (v div 2 ^ 39)) PAGE_PRESENT))
        then (K_EPERM, s)
        else
          case pt_descend [4, 3, 2] root v user s of
            (Inl e, s) \<Rightarrow> (e, s)
          | (Inr t, s) \<Rightarrow>
              if \<not> replace \<and> ld s t (pt_index 1 v) \<noteq> 0 then (K_EEXIST, s)
              else (0, st t (pt_index 1 v) (word_of_nat p OR flags OR PAGE_PRESENT) s))"

definition x86_64_vmm_map_page :: "nat \<Rightarrow> nat \<Rightarrow> nat \<Rightarrow> u64 \<Rightarrow> vm \<Rightarrow> int \<times> vm" where
  "x86_64_vmm_map_page root v p flags s =
     (if (vm_smp_started s \<and> root = vm_kernel_pml4 s) \<or> has flags PAGE_USER then (K_EPERM, s)
      else x86_64_map_page_raw root v p flags False s)"

fun unmap_descend :: "nat list \<Rightarrow> nat \<Rightarrow> nat \<Rightarrow> vm \<Rightarrow> (int + nat) \<times> vm" where
  "unmap_descend [] t v s = (Inr t, s)"
| "unmap_descend (level # ls) t v s =
     (if \<not> has (ld s t (pt_index level v)) PAGE_PRESENT then (Inl K_ENOENT, s)
      else case x86_64_pt_child t (pt_index level v) level False s of
        (Inl e, s) \<Rightarrow> (Inl e, s)
      | (Inr t, s) \<Rightarrow> unmap_descend ls t v s)"

definition x86_64_vmm_unmap_page :: "nat \<Rightarrow> nat \<Rightarrow> vm \<Rightarrow> int \<times> vm" where
  "x86_64_vmm_unmap_page root v s =
     (if root = 0 \<or> \<not> canonical v \<or> v mod 4096 \<noteq> 0 \<or> (vm_smp_started s \<and> root = vm_kernel_pml4 s)
      then (K_EINVAL, s)
      else case unmap_descend [4, 3, 2] root v s of
        (Inl e, s) \<Rightarrow> (e, s)
      | (Inr t, s) \<Rightarrow>
          if \<not> has (ld s t (pt_index 1 v)) PAGE_PRESENT then (K_ENOENT, s)
          else (0, st t (pt_index 1 v) 0 s))"

text \<open>The walk of \<open>x86_64_vmm_translate\<close> at a level, with the permissions collected so far.\<close>

fun translate_walk :: "nat \<Rightarrow> nat \<Rightarrow> nat \<Rightarrow> u64 \<Rightarrow> u64 \<Rightarrow> vm \<Rightarrow> int + nat \<times> u64" where
  "translate_walk 0 t v allow nx s = Inl K_EFAULT"
| "translate_walk (Suc l) t v allow nx s =
     (let e = ld s t (pt_index (Suc l) v) in
      if \<not> has e PAGE_PRESENT then Inl K_EFAULT
      else
        let allow = allow AND e; nx = nx OR (e AND PAGE_NX) in
        if l = 0 \<or> ((l = 1 \<or> l = 2) \<and> has e PAGE_LARGE) then
          let msk = mask (12 + 9 * l) :: u64 in
          Inr (unat ((e AND PHYS_MASK AND NOT msk) OR (word_of_nat v AND msk)),
               PAGE_PRESENT OR allow OR nx)
        else translate_walk l (phys e) v allow nx s)"

definition x86_64_vmm_translate :: "nat \<Rightarrow> nat \<Rightarrow> vm \<Rightarrow> int + nat \<times> u64" where
  "x86_64_vmm_translate root v s =
     (if root = 0 \<or> \<not> canonical v then Inl K_EFAULT
      else translate_walk 4 root v (PAGE_USER OR PAGE_RW) 0 s)"

section \<open>Kernel mappings\<close>

fun map_large_pages :: "nat list \<Rightarrow> nat \<Rightarrow> nat \<Rightarrow> u64 \<Rightarrow> vm \<Rightarrow> int \<times> vm" where
  "map_large_pages [] v p flags s = (0, s)"
| "map_large_pages (j # js) v p flags s =
     (case x86_64_map_page_raw (vm_kernel_pml4 s) (v + j * 4096) (p + j * 4096) flags True s of
        (e, s) \<Rightarrow> if e \<noteq> 0 then (e, s) else map_large_pages js v p flags s)"

definition map_large :: "nat \<Rightarrow> nat \<Rightarrow> u64 \<Rightarrow> vm \<Rightarrow> int \<times> vm" where
  "map_large v p flags s =
     (case pt_descend [4, 3] (vm_kernel_pml4 s) v False s of
        (Inl e, s) \<Rightarrow> (e, s)
      | (Inr t, s) \<Rightarrow>
          let e = ld s t (pt_index 2 v) in
          if has e PAGE_PRESENT \<and> \<not> has e PAGE_LARGE then map_large_pages [0..<512] v p flags s
          else (0, st t (pt_index 2 v) (word_of_nat p OR flags OR PAGE_PRESENT OR PAGE_LARGE) s))"

function map_identity_loop :: "nat \<Rightarrow> nat \<Rightarrow> u64 \<Rightarrow> vm \<Rightarrow> int \<times> vm" where
  "map_identity_loop start e flags s =
     (if start < e then
        if start mod 0x200000 = 0 \<and> e - start \<ge> 0x200000 then
          (case map_large start start flags s of
             (r, s) \<Rightarrow> if r \<noteq> 0 then (r, s) else map_identity_loop (start + 0x200000) e flags s)
        else
          (case x86_64_map_page_raw (vm_kernel_pml4 s) start start flags True s of
             (r, s) \<Rightarrow> if r \<noteq> 0 then (r, s) else map_identity_loop (start + 4096) e flags s)
      else (0, s))"
  by pat_completeness auto
termination by (relation "measure (\<lambda>(start, e, flags, s). e - start)") auto

declare map_identity_loop.simps [simp del]

definition x86_64_map_identity :: "nat \<Rightarrow> nat \<Rightarrow> u64 \<Rightarrow> vm \<Rightarrow> int \<times> vm" where
  "x86_64_map_identity start n flags s =
     (if n = 0 then (0, s)
      else if start \<ge> K_USER_BASE \<or> n > K_USER_BASE - start then (K_ENOTSUP, s)
      else map_identity_loop (start - start mod 4096) (ALIGN_UP (start + n) 4096) flags s)"

definition x86_64_mmio_map :: "nat \<Rightarrow> nat \<Rightarrow> vm \<Rightarrow> int \<times> vm" where
  "x86_64_mmio_map p n s =
     (if vm_smp_started s \<or> p = 0 \<or> n = 0 \<or> p \<ge> K_USER_BASE \<or> n > K_USER_BASE - p then (K_ENOTSUP, s)
      else x86_64_map_identity p n
             (PAGE_RW OR PAGE_PCD OR PAGE_PWT OR (if vm_nx s then PAGE_NX else 0)) s)"

section \<open>Address spaces\<close>

abbreviation space_upd :: "nat \<Rightarrow> (k_address_space \<Rightarrow> k_address_space) \<Rightarrow> vm \<Rightarrow> vm" where
  "space_upd i f s \<equiv> s\<lparr>vm_spaces := (vm_spaces s)(i := f (vm_spaces s i))\<rparr>"

definition x86_64_as_create :: "vm \<Rightarrow> nat option \<times> vm" where
  "x86_64_as_create s =
     (case find_from 0 MAX_AS (\<lambda>i. \<not> as_used (vm_spaces s i)) of
        None \<Rightarrow> (None, s)
      | Some i \<Rightarrow>
          let (p, s) = vm_alloc s in
          if p = 0 then (None, s)
          else
            let s = s\<lparr>vm_pmm := (vm_pmm s)\<lparr>ram := mem_copy (ram (vm_pmm s)) p (vm_kernel_pml4 s) 4096\<rparr>\<rparr>;
                s = st p USER_SLOT 0 s in
            (Some i, s\<lparr>vm_spaces := (vm_spaces s)(i :=
               \<lparr>as_used = True, as_root = p,
                as_owned_slots = (\<lambda>_. 0)(USER_SLOT div 64 := push_bit (USER_SLOT mod 64) 1),
                as_next = K_USER_BASE + 0x200000, as_pages = 0, as_owner = None\<rparr>)\<rparr>))"

definition x86_64_as_valid :: "nat \<Rightarrow> vm \<Rightarrow> bool" where
  "x86_64_as_valid i s \<longleftrightarrow> i < MAX_AS \<and> as_used (vm_spaces s i)"

fun free_user_tree :: "nat \<Rightarrow> nat \<Rightarrow> vm \<Rightarrow> vm" where
  "free_user_tree 0 table s = s"
| "free_user_tree (Suc l) table s =
     fold (\<lambda>i s.
       let e = ld s table i in
       if \<not> has e PAGE_PRESENT then s
       else if Suc l = 2 \<and> has e PAGE_LARGE then vm_free (phys e) 512 s
       else vm_free (phys e) 1 (if Suc l > 1 then free_user_tree l (phys e) s else s)) [0..<512] s"

definition free_slot :: "nat \<Rightarrow> nat \<Rightarrow> vm \<Rightarrow> vm" where
  "free_slot i slot s =
     (let sp = vm_spaces s i; e = ld s (as_root sp) slot in
      if bit (as_owned_slots sp (slot div 64)) (slot mod 64) \<and> has e PAGE_PRESENT
      then vm_free (phys e) 1 (free_user_tree 3 (phys e) s) else s)"

text \<open>\<open>in_use\<close> is the result of the task scan: a live task of a process runs in this space.\<close>

definition x86_64_as_destroy :: "bool \<Rightarrow> nat \<Rightarrow> vm \<Rightarrow> int \<times> vm" where
  "x86_64_as_destroy in_use i s =
     (if \<not> x86_64_as_valid i s then (K_EINVAL, s)
      else if as_owner (vm_spaces s i) \<noteq> None then (K_EBUSY, s)
      else if in_use then (K_EBUSY, s)
      else
        let s = fold (free_slot i) [0..<256] s;
            s = vm_free (as_root (vm_spaces s i)) 1 s in
        (0, s\<lparr>vm_spaces := (vm_spaces s)(i := zero_space)\<rparr>))"

text \<open>The mapping loop of \<open>x86_64_as_alloc\<close> and \<open>x86_64_as_map_at\<close>; it returns the number of pages mapped.\<close>

function as_map_loop :: "nat \<Rightarrow> nat \<Rightarrow> nat \<Rightarrow> u64 \<Rightarrow> nat \<Rightarrow> vm \<Rightarrow> int \<times> nat \<times> vm" where
  "as_map_loop root v n flags d s =
     (if d < n then
        let (p, s) = vm_alloc s in
        if p = 0 then (K_ENOMEM, d, s)
        else case x86_64_map_page_raw root (v + d * 4096) p flags False s of
          (e, s) \<Rightarrow> if e \<noteq> 0 then (e, d, vm_free p 1 s) else as_map_loop root v n flags (Suc d) s
      else (0, d, s))"
  by pat_completeness auto
termination by (relation "measure (\<lambda>(root, v, n, flags, d, s). n - d)") auto

declare as_map_loop.simps [simp del]

text \<open>\<open>t = t[...] & PHYS_MASK\<close> down to the last table of an address.\<close>

definition leaf_table :: "nat \<Rightarrow> nat \<Rightarrow> vm \<Rightarrow> nat" where
  "leaf_table root v s = fold (\<lambda>l t. phys (ld s t (pt_index l v))) [4, 3, 2] root"

definition as_unmap_page :: "nat \<Rightarrow> nat \<Rightarrow> vm \<Rightarrow> vm" where
  "as_unmap_page root a s =
     (let t = leaf_table root a s; p = phys (ld s t (pt_index 1 a)) in
      vm_free p 1 (st t (pt_index 1 a) 0 s))"

definition as_unmap_loop :: "nat \<Rightarrow> nat \<Rightarrow> nat \<Rightarrow> vm \<Rightarrow> vm" where
  "as_unmap_loop root v d s = fold (\<lambda>j. as_unmap_page root (v + j * 4096)) [0..<d] s"

text \<open>Page flags for a RIEF permission set.\<close>

definition user_flags :: "u32 \<Rightarrow> u64" where
  "user_flags rwx = PAGE_USER OR (if rwx AND RIEF_REGION_W \<noteq> 0 then PAGE_RW else 0) OR
     (if rwx AND RIEF_REGION_X \<noteq> 0 then 0 else PAGE_NX)"

definition rwx_ok :: "u32 \<Rightarrow> bool" where
  "rwx_ok rwx \<longleftrightarrow> rwx AND NOT 7 = 0 \<and> rwx AND RIEF_REGION_R \<noteq> 0 \<and>
     rwx AND (RIEF_REGION_W OR RIEF_REGION_X) \<noteq> RIEF_REGION_W OR RIEF_REGION_X"

definition x86_64_as_alloc :: "nat \<Rightarrow> nat \<Rightarrow> nat \<Rightarrow> u32 \<Rightarrow> vm \<Rightarrow> (int + nat) \<times> vm" where
  "x86_64_as_alloc i n_bytes align rwx s =
     (if \<not> x86_64_as_valid i s \<or> n_bytes = 0 \<or> \<not> power2 align \<or> align > 0x40000000 \<or> \<not> rwx_ok rwx
      then (Inl K_EINVAL, s)
      else if \<not> vm_nx s then (Inl K_ENOTSUP, s)
      else if n_bytes > MAX_USER_PAGES * 4096 then (Inl K_E2BIG, s)
      else
        let n = ALIGN_UP n_bytes 4096 div 4096;
            align = (if align < 4096 then 4096 else align);
            sp = vm_spaces s i;
            v = ALIGN_UP (as_next sp) align in
        if n > sub32 MAX_USER_PAGES (as_pages sp) \<or> v \<ge> K_USER_LIMIT \<or> n * 4096 + 4096 > K_USER_LIMIT - v
        then (Inl K_ENOMEM, s)
        else
          case as_map_loop (as_root sp) v n (user_flags rwx) 0 s of
            (e, d, s) \<Rightarrow>
              if e \<noteq> 0 then (Inl e, as_unmap_loop (as_root sp) v d s)
              else (Inr v, space_upd i (\<lambda>a. a\<lparr>as_next := v + n * 4096 + 4096, as_pages := add32 (as_pages a) n\<rparr>) s))"

section \<open>Demand mapping\<close>

fun leaf_descend :: "nat list \<Rightarrow> nat \<Rightarrow> nat \<Rightarrow> bool \<Rightarrow> vm \<Rightarrow> (int + nat) \<times> vm" where
  "leaf_descend [] t v create s = (Inr t, s)"
| "leaf_descend (l # ls) t v create s =
     (let e = ld s t (pt_index l v) in
      if \<not> create \<and> (\<not> has e PAGE_PRESENT \<or> has e PAGE_LARGE) then (Inl K_EFAULT, s)
      else case x86_64_pt_child t (pt_index l v) l True s of
        (Inl e, s) \<Rightarrow> (Inl e, s)
      | (Inr t, s) \<Rightarrow> leaf_descend ls t v create s)"

text \<open>The address of a leaf entry as its table; the index is \<open>pt_index level v\<close>.\<close>

definition leaf_for :: "nat \<Rightarrow> nat \<Rightarrow> nat \<Rightarrow> bool \<Rightarrow> vm \<Rightarrow> (int + nat) \<times> vm" where
  "leaf_for i v level create s =
     leaf_descend (if level = 2 then [4, 3] else [4, 3, 2]) (as_root (vm_spaces s i)) v create s"

definition x86_64_demand_fault :: "nat \<Rightarrow> nat \<Rightarrow> u64 \<Rightarrow> vm \<Rightarrow> int \<times> vm" where
  "x86_64_demand_fault i a err s =
     (if \<not> x86_64_as_valid i s \<or> a < K_USER_BASE \<or> a \<ge> K_USER_LIMIT \<or> err AND NOT 6 \<noteq> 0
      then (K_EFAULT, s)
      else case leaf_for i a 1 False s of
        (Inl e, s) \<Rightarrow> (e, s)
      | (Inr t, s) \<Rightarrow>
          let e = ld s t (pt_index 1 a) in
          if \<not> has e X86_LAZY \<or> has e PAGE_PRESENT \<or> \<not> has e PAGE_USER \<or> (has err 2 \<and> \<not> has e PAGE_RW)
          then (K_EFAULT, s)
          else
            let (p, s) = vm_alloc s in
            if p = 0 then (K_ENOMEM, s)
            else (0, st t (pt_index 1 a) (word_of_nat p OR (e AND NOT X86_LAZY) OR PAGE_PRESENT) s))"

section \<open>Access to user memory\<close>

definition page_allows :: "(int + nat \<times> u64) \<Rightarrow> bool \<Rightarrow> bool" where
  "page_allows r write =
     (case r of Inl _ \<Rightarrow> False | Inr (_, flags) \<Rightarrow> has flags PAGE_USER \<and> (write \<longrightarrow> has flags PAGE_RW))"

function as_check_loop :: "nat \<Rightarrow> nat \<Rightarrow> nat \<Rightarrow> bool \<Rightarrow> vm \<Rightarrow> int \<times> vm" where
  "as_check_loop i v e write s =
     (if v < e then
        let root = as_root (vm_spaces s i) in
        case (case x86_64_vmm_translate root v s of
                Inl _ \<Rightarrow> x86_64_demand_fault i v (if write then 2 else 0) s
              | Inr _ \<Rightarrow> (0, s)) of
          (r, s) \<Rightarrow>
            if r \<noteq> 0 then (K_EFAULT, s)
            else if \<not> page_allows (x86_64_vmm_translate root v s) write then (K_EFAULT, s)
            else as_check_loop i (v + 4096) e write s
      else (0, s))"
  by pat_completeness auto
termination by (relation "measure (\<lambda>(i, v, e, write, s). e - v)") auto

declare as_check_loop.simps [simp del]

definition x86_64_as_check :: "nat \<Rightarrow> nat \<Rightarrow> nat \<Rightarrow> bool \<Rightarrow> vm \<Rightarrow> int \<times> vm" where
  "x86_64_as_check i a n write s =
     (if \<not> x86_64_as_valid i s \<or> a < 0x10000 \<or> a \<ge> K_USER_CANON_LIMIT \<or> n > K_USER_CANON_LIMIT - a
      then (K_EFAULT, s)
      else if n = 0 then (0, s)
      else as_check_loop i (a - a mod 4096) (a + n) write s)"

text \<open>
  \<open>mem_copy\<close> between the physical memory and a kernel buffer. The buffer is a separate byte function:
  \<open>to_user\<close> reads it and \<open>from_user\<close> returns it filled.
\<close>

function as_copy_to :: "nat \<Rightarrow> nat \<Rightarrow> bytes \<Rightarrow> nat \<Rightarrow> nat \<Rightarrow> vm \<Rightarrow> int \<times> vm" where
  "as_copy_to root u b off n s =
     (if n = 0 then (0, s)
      else case x86_64_vmm_translate root u s of
        Inl e \<Rightarrow> (e, s)
      | Inr (p, _) \<Rightarrow>
          let chunk = min n (4096 - u mod 4096) in
          as_copy_to root (u + chunk) b (off + chunk) (n - chunk)
            (s\<lparr>vm_pmm := (vm_pmm s)\<lparr>ram := put_bytes (ram (vm_pmm s)) p b off chunk\<rparr>\<rparr>))"
  by pat_completeness auto
termination by (relation "measure (\<lambda>(root, u, b, off, n, s). n)") (auto simp: min_def)

declare as_copy_to.simps [simp del]

function as_copy_from :: "nat \<Rightarrow> nat \<Rightarrow> bytes \<Rightarrow> nat \<Rightarrow> nat \<Rightarrow> vm \<Rightarrow> int \<times> bytes" where
  "as_copy_from root u b off n s =
     (if n = 0 then (0, b)
      else case x86_64_vmm_translate root u s of
        Inl e \<Rightarrow> (e, b)
      | Inr (p, _) \<Rightarrow>
          let chunk = min n (4096 - u mod 4096) in
          as_copy_from root (u + chunk) (put_bytes b off (ram (vm_pmm s)) p chunk) (off + chunk) (n - chunk) s)"
  by pat_completeness auto
termination by (relation "measure (\<lambda>(root, u, b, off, n, s). n)") (auto simp: min_def)

declare as_copy_from.simps [simp del]

definition x86_64_as_copy_in :: "nat \<Rightarrow> nat \<Rightarrow> bytes \<Rightarrow> nat \<Rightarrow> bool \<Rightarrow> vm \<Rightarrow> int \<times> vm" where
  "x86_64_as_copy_in i u b n loader s =
     (case x86_64_as_check i u n (\<not> loader) s of
        (e, s) \<Rightarrow> if e \<noteq> 0 then (e, s) else as_copy_to (as_root (vm_spaces s i)) u b 0 n s)"

definition x86_64_copy_to_user :: "nat \<Rightarrow> nat \<Rightarrow> bytes \<Rightarrow> nat \<Rightarrow> vm \<Rightarrow> int \<times> vm" where
  "x86_64_copy_to_user i u b n s = x86_64_as_copy_in i u b n False s"

definition x86_64_copy_from_user :: "nat \<Rightarrow> bytes \<Rightarrow> nat \<Rightarrow> nat \<Rightarrow> vm \<Rightarrow> int \<times> bytes \<times> vm" where
  "x86_64_copy_from_user i b u n s =
     (case x86_64_as_check i u n False s of
        (e, s) \<Rightarrow>
          if e \<noteq> 0 then (e, b, s)
          else case as_copy_from (as_root (vm_spaces s i)) u b 0 n s of (e, b) \<Rightarrow> (e, b, s))"

section \<open>Rollback and fixed mappings\<close>

fun rollback_tree :: "nat \<Rightarrow> nat \<Rightarrow> nat \<Rightarrow> nat \<Rightarrow> vm \<Rightarrow> bool \<times> vm" where
  "rollback_tree 0 table base from s = (True, s)"
| "rollback_tree (Suc l) table base from s =
     fold (\<lambda>i (empty, s).
       let e = ld s table i; span = 2 ^ (12 + 9 * l); a = base + i * span in
       if \<not> has e PAGE_PRESENT then
         if has e X86_LAZY \<and> a \<ge> from then (empty, st table i 0 s)
         else (empty \<and> e = 0, s)
       else if a + span > from then
         if Suc l = 2 \<and> has e PAGE_LARGE \<and> a \<ge> from then (empty, st table i 0 (vm_free (phys e) 512 s))
         else if l = 0 then (empty, st table i 0 (vm_free (phys e) 1 s))
         else case rollback_tree l (phys e) a from s of
           (True, s) \<Rightarrow> (empty, st table i 0 (vm_free (phys e) 1 s))
         | (False, s) \<Rightarrow> (False, s)
       else (False, s)) [0..<512] (True, s)"

definition x86_64_as_rollback :: "nat \<Rightarrow> nat \<Rightarrow> nat \<Rightarrow> vm \<Rightarrow> vm" where
  "x86_64_as_rollback i old_next old_pages s =
     (let root = as_root (vm_spaces s i); e = ld s root USER_SLOT;
          s = (if has e PAGE_PRESENT then
                 case rollback_tree 3 (phys e) K_USER_BASE old_next s of
                   (True, s) \<Rightarrow> st root USER_SLOT 0 (vm_free (phys e) 1 s)
                 | (False, s) \<Rightarrow> s
               else s) in
      space_upd i (\<lambda>a. a\<lparr>as_next := old_next, as_pages := old_pages\<rparr>) s)"

definition x86_64_as_map_at :: "nat \<Rightarrow> nat \<Rightarrow> nat \<Rightarrow> u32 \<Rightarrow> vm \<Rightarrow> int \<times> vm" where
  "x86_64_as_map_at i a n_bytes rwx s =
     (if n_bytes = 0 \<or> n_bytes > MAX_USER_PAGES * 4096 \<or> a mod 4096 \<noteq> 0 \<or> a < 0x10000 \<or>
         a \<ge> K_USER_CANON_LIMIT \<or> n_bytes > K_USER_CANON_LIMIT - a \<or> \<not> rwx_ok rwx \<or> \<not> vm_nx s
      then (K_EINVAL, s)
      else
        let count = (n_bytes + 4095) div 4096; slot = a div 2 ^ 39; sp = vm_spaces s i in
        if (a + count * 4096 - 1) div 2 ^ 39 \<noteq> slot then (K_EINVAL, s)
        else if has (ld s (vm_kernel_pml4 s) slot) PAGE_PRESENT then (K_EPERM, s)
        else if count > sub32 MAX_USER_PAGES (as_pages sp) then (K_ENOMEM, s)
        else if \<exists>j\<in>set [0..<count]. case x86_64_vmm_translate (as_root sp) (a + j * 4096) s of
                  Inl _ \<Rightarrow> False | Inr _ \<Rightarrow> True then (K_EEXIST, s)
        else
          let s = space_upd i (\<lambda>sp. sp\<lparr>as_owned_slots := (as_owned_slots sp)
                    (slot div 64 := as_owned_slots sp (slot div 64) OR push_bit (slot mod 64) 1)\<rparr>) s in
          case as_map_loop (as_root sp) a count (user_flags rwx) 0 s of
            (e, d, s) \<Rightarrow>
              if e \<noteq> 0 then (e, as_unmap_loop (as_root sp) a d s)
              else (0, space_upd i (\<lambda>sp. sp\<lparr>as_pages := add32 (as_pages sp) count\<rparr>) s))"

section \<open>Lazy and huge mappings\<close>

function alloc_ex_loop :: "nat \<Rightarrow> nat \<Rightarrow> nat \<Rightarrow> bool \<Rightarrow> u64 \<Rightarrow> nat \<Rightarrow> vm \<Rightarrow> int \<times> nat \<times> vm" where
  "alloc_ex_loop i v n huge flags d s =
     (if d < n then
        let level = (if huge then 2 else 1); unit = (if huge then 0x200000 else 4096 :: nat) in
        case leaf_for i (v + d) level True s of
          (Inl e, s) \<Rightarrow> (e, d, s)
        | (Inr t, s) \<Rightarrow>
            let idx = pt_index level (v + d) in
            if ld s t idx \<noteq> 0 then (K_EEXIST, d, s)
            else if \<not> huge then alloc_ex_loop i v n huge flags (d + unit) (st t idx (flags OR X86_LAZY) s)
            else
              case k_pmm_alloc_aligned 512 512 0 (vm_pmm s) of
                (p, pm) \<Rightarrow>
                  if p = 0 then (K_ENOMEM, d, s\<lparr>vm_pmm := pm\<rparr>)
                  else alloc_ex_loop i v n huge flags (d + unit)
                    (st t idx (word_of_nat p OR flags OR PAGE_PRESENT OR PAGE_LARGE) (s\<lparr>vm_pmm := pm\<rparr>))
      else (0, d, s))"
  by pat_completeness auto
termination by (relation "measure (\<lambda>(i, v, n, huge, flags, d, s). n - d)") (auto split: if_splits)

declare alloc_ex_loop.simps [simp del]

definition alloc_ex_undo :: "nat \<Rightarrow> nat \<Rightarrow> bool \<Rightarrow> vm \<Rightarrow> vm" where
  "alloc_ex_undo i a huge s =
     (let level = (if huge then 2 else 1) in
      case leaf_for i a level False s of
        (Inl _, s) \<Rightarrow> s
      | (Inr t, s) \<Rightarrow>
          let e = ld s t (pt_index level a);
              s = (if has e PAGE_PRESENT then vm_free (phys e) 512 s else s) in
          st t (pt_index level a) 0 s)"

text \<open>\<open>while (done) { done -= unit; ... }\<close>: the units are undone from the last one down.\<close>

definition alloc_ex_undo_loop :: "nat \<Rightarrow> nat \<Rightarrow> bool \<Rightarrow> nat \<Rightarrow> vm \<Rightarrow> vm" where
  "alloc_ex_undo_loop i v huge d s =
     (let unit = (if huge then 0x200000 else 4096 :: nat) in
      fold (\<lambda>k. alloc_ex_undo i (v + k * unit) huge) (rev [0..<d div unit]) s)"

definition x86_64_as_alloc_ex :: "nat \<Rightarrow> nat \<Rightarrow> nat \<Rightarrow> u32 \<Rightarrow> nat \<Rightarrow> vm \<Rightarrow> (int + nat) \<times> vm" where
  "x86_64_as_alloc_ex i n_bytes align rwx options s =
     (if options = 0 then x86_64_as_alloc i n_bytes align rwx s
      else if \<not> x86_64_as_valid i s \<or> n_bytes = 0 \<or> n_bytes > MAX_USER_PAGES * 4096 \<or> \<not> power2 align \<or>
              align > 0x40000000 \<or> \<not> rwx_ok rwx \<or> (options \<noteq> K_VM_LAZY \<and> options \<noteq> K_VM_HUGE)
      then (Inl K_EINVAL, s)
      else if \<not> vm_nx s then (Inl K_ENOTSUP, s)
      else if options = K_VM_LAZY \<and> rwx AND RIEF_REGION_X \<noteq> 0 then (Inl K_EPERM, s)
      else
        let huge = (options = K_VM_HUGE); unit = (if huge then 0x200000 else 4096 :: nat) in
        if huge \<and> n_bytes mod unit \<noteq> 0 then (Inl K_EINVAL, s)
        else
          let align = (if align < unit then unit else align);
              n = ALIGN_UP n_bytes 4096;
              sp = vm_spaces s i;
              v = ALIGN_UP (as_next sp) align in
          if n div 4096 > sub32 MAX_USER_PAGES (as_pages sp) \<or> v \<ge> K_USER_LIMIT \<or> n + 4096 > K_USER_LIMIT - v
          then (Inl K_ENOMEM, s)
          else
            case alloc_ex_loop i v n huge (user_flags rwx) 0 s of
              (e, d, s) \<Rightarrow>
                if e \<noteq> 0 then (Inl e, alloc_ex_undo_loop i v huge d s)
                else (Inr v, space_upd i (\<lambda>a. a\<lparr>as_next := v + n + 4096,
                               as_pages := add32 (as_pages a) (n div 4096)\<rparr>) s))"

fun mapping_size_walk :: "nat \<Rightarrow> nat \<Rightarrow> nat \<Rightarrow> vm \<Rightarrow> int + nat" where
  "mapping_size_walk 0 t a s = Inl K_ENOENT"
| "mapping_size_walk (Suc l) t a s =
     (let e = ld s t (pt_index (Suc l) a) in
      if \<not> has e PAGE_USER then Inl K_ENOENT
      else if \<not> has e PAGE_PRESENT then (if l = 0 \<and> has e X86_LAZY then Inr 0 else Inl K_ENOENT)
      else if l = 0 \<or> (l = 1 \<and> has e PAGE_LARGE) then Inr (2 ^ (12 + 9 * l))
      else mapping_size_walk l (phys e) a s)"

definition x86_64_as_mapping_size :: "nat \<Rightarrow> nat \<Rightarrow> vm \<Rightarrow> int + nat" where
  "x86_64_as_mapping_size i a s =
     (if \<not> x86_64_as_valid i s \<or> a < 0x10000 \<or> a \<ge> K_USER_CANON_LIMIT then Inl K_EINVAL
      else mapping_size_walk 4 (as_root (vm_spaces s i)) a s)"

end
