(* ===== verification/MmuInv.thy ===== *)
theory MmuInv
  imports Mmu
begin

unbundle bit_operations_syntax

text \<open>
  Correctness of the page-table code. A typing \<open>T\<close> of the physical pages that hold tables gives each
  its level; \<open>wf\<close> says that a present entry of a table leads to a table of the next lower level.
  Under that invariant mapping a page makes it translate as asked and disturbs no mapping in place.
\<close>

section \<open>Frames\<close>

definition same_spaces :: "vm \<Rightarrow> vm \<Rightarrow> bool" where
  "same_spaces s s' \<longleftrightarrow> vm_spaces s' = vm_spaces s \<and> vm_kernel_pml4 s' = vm_kernel_pml4 s \<and>
     vm_nx s' = vm_nx s \<and> vm_smp_started s' = vm_smp_started s"

lemma same_spaces_refl [simp]: "same_spaces s s" by (simp add: same_spaces_def)

lemma same_spaces_trans: "same_spaces s t \<Longrightarrow> same_spaces t u \<Longrightarrow> same_spaces s u"
  by (simp add: same_spaces_def)

lemma st_spaces [simp]: "same_spaces s (st t i e s)" by (simp add: same_spaces_def st_def)

lemma vm_alloc_spaces: "vm_alloc s = (p, s') \<Longrightarrow> same_spaces s s'"
  by (auto simp: same_spaces_def vm_alloc_def split: prod.splits)

lemma vm_free_spaces [simp]: "same_spaces s (vm_free p n s)" by (simp add: same_spaces_def vm_free_def)

lemma fold_spaces: "(\<And>x s. same_spaces s (f x s)) \<Longrightarrow> same_spaces s (fold f xs s)"
  by (induction xs arbitrary: s) (auto intro: same_spaces_trans)

lemma split_large_spaces: "same_spaces s (split_large c e l s)"
  unfolding split_large_def Let_def by (rule fold_spaces) simp

definition found_child :: "nat \<Rightarrow> nat \<Rightarrow> bool \<Rightarrow> vm \<Rightarrow> int + nat" where
  "found_child t i u s = (if u \<and> \<not> has (ld s t i) PAGE_USER then Inl K_EPERM else Inr (phys (ld s t i)))"

lemma pt_child_cases:
  assumes "x86_64_pt_child t i l u s = (r, s')"
  obtains (nomem) "vm_alloc s = (0, s')" "r = Inl K_ENOMEM"
  | (bad) "s' = s" "r = Inl K_EINVAL"
  | (fresh) p s1 where "\<not> has (ld s t i) PAGE_PRESENT" "vm_alloc s = (p, s1)" "p \<noteq> 0" "r = found_child t i u s'"
      "s' = st t i (word_of_nat p OR PAGE_PRESENT OR PAGE_RW OR (if u then PAGE_USER else 0)) s1"
  | (split) p s1 where "has (ld s t i) PAGE_PRESENT" "has (ld s t i) PAGE_LARGE" "l = 2 \<or> l = 3"
      "vm_alloc s = (p, s1)" "p \<noteq> 0" "r = found_child t i u s'"
      "s' = st t i (word_of_nat p OR PAGE_PRESENT OR PAGE_RW OR (ld s t i AND PAGE_USER)) (split_large p (ld s t i) l s1)"
  | (old) "has (ld s t i) PAGE_PRESENT" "\<not> has (ld s t i) PAGE_LARGE" "s' = s" "r = found_child t i u s'"
proof -
  obtain p s1 where a: "vm_alloc s = (p, s1)" by fastforce
  have f: "(if u \<and> \<not> has (ld g t i) PAGE_USER then (Inl K_EPERM, g) else (Inr (phys (ld g t i)), g)) =
      (found_child t i u g, g)" for g by (simp add: found_child_def)
  note eq = assms[unfolded x86_64_pt_child_def Let_def a prod.case f]
  show thesis
  proof (cases "has (ld s t i) PAGE_PRESENT")
    case False
    with eq a show thesis by (cases "p = 0") (auto intro: nomem fresh)
  next
    case True
    show thesis
    proof (cases "has (ld s t i) PAGE_LARGE")
      case False
      with True eq show thesis by (auto intro: old)
    next
      case large: True
      show thesis
      proof (cases "l \<noteq> 2 \<and> l \<noteq> 3")
        case True
        with \<open>has (ld s t i) PAGE_PRESENT\<close> large eq show thesis by (auto intro: bad)
      next
        case False
        with True large eq a show thesis by (cases "p = 0") (auto intro: nomem split)
      qed
    qed
  qed
qed

lemma pt_child_spaces:
  assumes "x86_64_pt_child t i l u s = (r, s')"
  shows "same_spaces s s'"
  using assms
proof (cases rule: pt_child_cases)
  case (split p s1)
  from vm_alloc_spaces[OF split(4)] show ?thesis
    unfolding split(7) by (meson same_spaces_trans split_large_spaces st_spaces)
qed (auto dest!: vm_alloc_spaces intro: same_spaces_trans[OF _ st_spaces])

lemma pt_descend_spaces: "pt_descend ls t v u s = (r, s') \<Longrightarrow> same_spaces s s'"
proof (induction ls arbitrary: t s)
  case Nil
  then show ?case by simp
next
  case (Cons l ls)
  obtain x s1 where x: "x86_64_pt_child t (pt_index l v) l u s = (x, s1)" by fastforce
  note X = pt_child_spaces[OF x]
  show ?case
  proof (cases x)
    case (Inl e)
    with Cons.prems x X show ?thesis by simp
  next
    case (Inr t')
    with Cons x X show ?thesis by (auto intro: same_spaces_trans)
  qed
qed

lemma leaf_descend_spaces: "leaf_descend ls t v c s = (r, s') \<Longrightarrow> same_spaces s s'"
proof (induction ls arbitrary: t s)
  case Nil
  then show ?case by simp
next
  case (Cons l ls)
  obtain x s1 where x: "x86_64_pt_child t (pt_index l v) l True s = (x, s1)" by fastforce
  note X = pt_child_spaces[OF x]
  show ?case
  proof (cases x)
    case (Inl e)
    with Cons.prems x X show ?thesis by (auto simp: Let_def split: if_splits)
  next
    case (Inr t')
    with Cons x X show ?thesis by (auto simp: Let_def split: if_splits intro: same_spaces_trans)
  qed
qed

lemma map_raw_spaces: "x86_64_map_page_raw root v p f rep s = (e, s') \<Longrightarrow> same_spaces s s'"
proof -
  assume r: "x86_64_map_page_raw root v p f rep s = (e, s')"
  obtain x s1 where x: "pt_descend [4, 3, 2] root v (has f PAGE_USER) s = (x, s1)" by fastforce
  note X = pt_descend_spaces[OF x]
  have "same_spaces s (st t i w s1)" for t i w using X st_spaces same_spaces_trans by blast
  with r x X show ?thesis
    by (auto simp: x86_64_map_page_raw_def Let_def simp del: pt_descend.simps split: if_splits sum.splits)
qed

lemma demand_fault_spaces: "x86_64_demand_fault i a err s = (e, s') \<Longrightarrow> same_spaces s s'"
proof -
  assume r: "x86_64_demand_fault i a err s = (e, s')"
  obtain x s1 where x: "leaf_for i a 1 False s = (x, s1)" by fastforce
  obtain p s2 where p: "vm_alloc s1 = (p, s2)" by fastforce
  have X: "same_spaces s s1" using x unfolding leaf_for_def by (rule leaf_descend_spaces)
  note P = same_spaces_trans[OF X vm_alloc_spaces[OF p]]
  have "same_spaces s (st t j w s2)" for t j w using P st_spaces same_spaces_trans by blast
  with r x X p P show ?thesis
    by (auto simp: x86_64_demand_fault_def Let_def split: if_splits sum.splits)
qed

lemma as_map_loop_spaces: "as_map_loop root v n f d s = (r, d', s') \<Longrightarrow> same_spaces s s'"
proof (induction root v n f d s rule: as_map_loop.induct)
  case (1 root v n f d s)
  show ?case
  proof (cases "d < n")
    case False
    with "1.prems" show ?thesis by (simp add: as_map_loop.simps[of root v n f d s])
  next
    case True
    obtain p s1 where p: "vm_alloc s = (p, s1)" by fastforce
    obtain e s2 where m: "x86_64_map_page_raw root (v + d * 4096) p f False s1 = (e, s2)" by fastforce
    note eq = as_map_loop.simps[of root v n f d s, unfolded p m Let_def prod.case]
    have S: "same_spaces s s1" "same_spaces s s2" "same_spaces s (vm_free p 1 s2)"
      using vm_alloc_spaces[OF p] map_raw_spaces[OF m] vm_free_spaces[of s2 p 1] same_spaces_trans by blast+
    show ?thesis
    proof (cases "p = 0 \<or> e \<noteq> 0")
      case True
      with "1.prems" S \<open>d < n\<close> show ?thesis unfolding eq by (auto split: if_splits)
    next
      case False
      with "1.prems" \<open>d < n\<close> have "as_map_loop root v n f (Suc d) s2 = (r, d', s')" unfolding eq by auto
      with "1.IH"[OF \<open>d < n\<close> p[symmetric] refl _ m[symmetric]] False S(2) show ?thesis
        by (auto intro: same_spaces_trans)
    qed
  qed
qed

lemma check_loop_spaces: "as_check_loop i v e w s = (r, s') \<Longrightarrow> same_spaces s s'"
proof (induction i v e w s rule: as_check_loop.induct)
  case (1 i v e w s)
  show ?case
  proof (cases "v < e")
    case False
    with "1.prems" show ?thesis by (simp add: as_check_loop.simps[of i v e w s])
  next
    case True
    let ?root = "as_root (vm_spaces s i)"
    obtain d s1 where d: "(case x86_64_vmm_translate ?root v s of
        Inl _ \<Rightarrow> x86_64_demand_fault i v (if w then 2 else 0) s | Inr _ \<Rightarrow> (0, s)) = (d, s1)" by fastforce
    have D: "same_spaces s s1" using d demand_fault_spaces by (auto split: sum.splits)
    note eq = as_check_loop.simps[of i v e w s, unfolded if_P[OF True] Let_def d prod.case]
    show ?thesis
    proof (cases "d \<noteq> 0 \<or> \<not> page_allows (x86_64_vmm_translate ?root v s1) w")
      case True
      with "1.prems" D show ?thesis by (auto simp: eq split: if_splits)
    next
      case False
      with "1.prems" have "as_check_loop i (v + 4096) e w s1 = (r, s')" by (simp add: eq)
      with "1.IH"[OF True refl d[symmetric]] False D show ?thesis by (auto intro: same_spaces_trans)
    qed
  qed
qed

lemma as_check_spaces: "x86_64_as_check i a n w s = (r, s') \<Longrightarrow> same_spaces s s'"
  by (auto simp: x86_64_as_check_def split: if_splits dest: check_loop_spaces)


section \<open>Entries\<close>

lemma ld_st_same [simp]: "ld (st t i e s) t i = e"
  by (simp add: ld_def st_def rd64_wr64)

lemma ld_st_other:
  assumes "t mod 4096 = 0" "u mod 4096 = 0" "i < 512" "j < 512" "t \<noteq> u \<or> i \<noteq> j"
  shows "ld (st t i e s) u j = ld s u j"
proof -
  have ne: "t + 8 * i + 8 \<le> u + 8 * j \<or> u + 8 * j + 8 \<le> t + 8 * i"
  proof -
    obtain a b where ab: "t = 4096 * a" "u = 4096 * b" using assms(1,2) by (metis mult_div_mod_eq add.right_neutral)
    show ?thesis
    proof (cases "t = u")
      case True
      with assms(5) show ?thesis by linarith
    next
      case False
      with ab consider "a + 1 \<le> b" | "b + 1 \<le> a" by force
      then show ?thesis using assms(3,4) ab by cases linarith+
    qed
  qed
  have "wr64 m (t + 8 * i) e (u + 8 * j + k) = m (u + 8 * j + k)" if "k < 8" for k m
  proof -
    have "\<not> (t + 8 * i \<le> u + 8 * j + k \<and> u + 8 * j + k < t + 8 * i + 8)" using ne that by linarith
    then show ?thesis unfolding wr64_apply by (simp only: if_False)
  qed
  then show ?thesis unfolding ld_def st_def by (intro rd64_cong) simp
qed

lemma st_pmm [simp]: "pmm_inv (vm_pmm (st t i e s)) = pmm_inv (vm_pmm s)"
  "owned_set (vm_pmm (st t i e s)) = owned_set (vm_pmm s)"
  by (simp_all add: st_def pmm_inv_def owned_set_def free_set_def eligible_set_def)

lemma vm_allocD:
  assumes "vm_alloc s = (p, s')" "pmm_inv (vm_pmm s)"
  shows "pmm_inv (vm_pmm s')" "p = 0 \<Longrightarrow> s' = s"
    "p \<noteq> 0 \<Longrightarrow> p mod 4096 = 0" "p \<noteq> 0 \<Longrightarrow> p div 4096 \<notin> owned_set (vm_pmm s)"
    "p \<noteq> 0 \<Longrightarrow> owned_set (vm_pmm s') = insert (p div 4096) (owned_set (vm_pmm s))"
    "p \<noteq> 0 \<Longrightarrow> ram (vm_pmm s') = (\<lambda>b. if b \<in> byte_span p 1 then 0 else ram (vm_pmm s) b)"
    "p \<noteq> 0 \<Longrightarrow> p < 2 ^ 38"
proof -
  have al: "k_pmm_alloc_pages 1 0 (vm_pmm s) = (p, vm_pmm s')" and s': "s' = s\<lparr>vm_pmm := vm_pmm s'\<rparr>"
    using assms(1) by (auto simp: vm_alloc_def pmm_alloc_page_def split: prod.splits)
  show inv: "pmm_inv (vm_pmm s')" by (rule pages.alloc_invar[OF assms(2) al])
  show "s' = s" if "p = 0"
  proof -
    have "vm_pmm s' = vm_pmm s" using pages.alloc_none[OF assms(2) al[unfolded that]] .
    with s' show ?thesis by simp
  qed
  assume p: "p \<noteq> 0"
  note some = pages.alloc_some[OF assms(2) al p]
  show "p mod 4096 = 0" using some by blast
  show "p div 4096 \<notin> owned_set (vm_pmm s)" using some by simp
  show own: "owned_set (vm_pmm s') = insert (p div 4096) (owned_set (vm_pmm s))" using some by simp
  show "ram (vm_pmm s') = (\<lambda>b. if b \<in> byte_span p 1 then 0 else ram (vm_pmm s) b)" using some by blast
  have "p div 4096 < PMM_MAX_PAGES" using pages.owned_pages[OF inv] own by blast
  then show "p < 2 ^ 38" by (simp add: PMM_MAX_PAGES_def)
qed

lemma ld_alloc:
  assumes a: "vm_alloc s = (p, s')" "pmm_inv (vm_pmm s)" "p \<noteq> 0" and t: "t mod 4096 = 0" "i < 512"
  shows "t \<noteq> p \<Longrightarrow> ld s' t i = ld s t i" "t = p \<Longrightarrow> ld s' t i = 0"
proof -
  note D = vm_allocD[OF a(1,2)]
  note ram = D(6)[OF a(3)] and p = D(3)[OF a(3)]
  show "ld s' t i = ld s t i" if "t \<noteq> p"
  proof -
    obtain a b where "t = 4096 * a" "p = 4096 * b" using t(1) p by (metis mult_div_mod_eq add.right_neutral)
    with that have "t + 8 * i + k \<notin> byte_span p 1" if "k < 8" for k using t(2) that by auto
    then show ?thesis unfolding ld_def ram by (intro rd64_cong) (simp only: if_False)
  qed
  have z: "rd64 (\<lambda>_. 0) q = 0" for q by (rule bit_word_eqI) (simp add: bit_rd)
  show "ld s' t i = 0" if "t = p"
  proof -
    have "rd64 (ram (vm_pmm s')) (t + 8 * i) = rd64 (\<lambda>_. 0) (t + 8 * i)"
      unfolding ram by (rule rd64_cong) (use that t(2) in auto)
    then show ?thesis by (simp add: ld_def z)
  qed
qed

lemma phys_entry:
  assumes "p mod 4096 = 0" "p < 2 ^ 52" "f AND PHYS_MASK = 0"
  shows "phys (word_of_nat p OR f) = p"
proof -
  have m: "bit PHYS_MASK k \<longleftrightarrow> 12 \<le> k \<and> k < 52" for k
  proof -
    have e: "PHYS_MASK = push_bit 12 (mask 40)" by (simp add: PHYS_MASK_def mask_eq_exp_minus_1 push_bit_eq_mult)
    show ?thesis unfolding e by (auto simp: bit_simps)
  qed
  have pb: "bit p k \<Longrightarrow> 12 \<le> k \<and> k < 52" for k
  proof -
    assume k: "bit p k"
    have "take_bit 12 p = 0" using assms(1) by (simp add: take_bit_eq_mod)
    then have "12 \<le> k" using k by (metis bit_take_bit_iff bit_0_eq bot_apply bot_bool_def linorder_not_le)
    moreover have "k < 52" using k take_bit_nat_eq_self[OF assms(2)] by (metis bit_take_bit_iff)
    ultimately show ?thesis by simp
  qed
  have "(word_of_nat p OR f) AND PHYS_MASK = word_of_nat p AND PHYS_MASK"
    using assms(3) by (simp add: bit.conj_disj_distrib2)
  also have "\<dots> = word_of_nat p" by (rule bit_word_eqI) (auto simp: bit_simps m dest: pb)
  finally have "phys (word_of_nat p OR f) = unat (word_of_nat p :: u64)" by (simp add: phys_def)
  also have "\<dots> = p" using assms(2) by (simp add: unsigned_of_nat take_bit_nat_eq_self)
  finally show ?thesis .
qed

lemma flag_masks:
  "PAGE_PRESENT AND PHYS_MASK = 0" "PAGE_RW AND PHYS_MASK = 0" "PAGE_USER AND PHYS_MASK = 0"
  "PAGE_NX AND PHYS_MASK = 0" "PAGE_LARGE AND PHYS_MASK = 0"
  by (simp_all add: PAGE_PRESENT_def PAGE_RW_def PAGE_USER_def PAGE_NX_def PAGE_LARGE_def PHYS_MASK_def push_bit_eq_mult)


text \<open>Flags as bits.\<close>

lemma and_exp_bit: "(e::u64) AND push_bit k 1 \<noteq> 0 \<longleftrightarrow> bit e k"
proof
  assume "e AND push_bit k 1 \<noteq> 0"
  then obtain j where "bit (e AND push_bit k 1) j" using bit_eq_iff[of "e AND push_bit k 1" 0] by auto
  then show "bit e k" by (auto simp: bit_simps)
next
  assume b: "bit e k"
  then have "k < 64" using bit_imp_le_length by fastforce
  with b have "bit (e AND push_bit k 1) k" by (simp add: bit_simps)
  then show "e AND push_bit k 1 \<noteq> 0" by auto
qed

lemma has_bit:
  "has e PAGE_PRESENT \<longleftrightarrow> bit e 0" "has e PAGE_RW \<longleftrightarrow> bit e 1" "has e PAGE_USER \<longleftrightarrow> bit e 2"
  "has e PAGE_LARGE \<longleftrightarrow> bit e 7" "has e X86_LAZY \<longleftrightarrow> bit e 9" "has e PAGE_NX \<longleftrightarrow> bit e 63"
proof -
  have c: "PAGE_PRESENT = push_bit 0 1" "PAGE_RW = push_bit 1 1" "PAGE_USER = push_bit 2 1"
    by (simp_all add: PAGE_PRESENT_def PAGE_RW_def PAGE_USER_def push_bit_eq_mult)
  show "has e PAGE_PRESENT \<longleftrightarrow> bit e 0" "has e PAGE_RW \<longleftrightarrow> bit e 1" "has e PAGE_USER \<longleftrightarrow> bit e 2"
    "has e PAGE_LARGE \<longleftrightarrow> bit e 7" "has e X86_LAZY \<longleftrightarrow> bit e 9" "has e PAGE_NX \<longleftrightarrow> bit e 63"
    unfolding has_def c PAGE_LARGE_def X86_LAZY_def PAGE_NX_def by (rule and_exp_bit)+
qed

lemma bit_exp_iff': "n < 64 \<Longrightarrow> bit (push_bit n 1 :: u64) k \<longleftrightarrow> k = n"
  by (simp only: bit_push_bit_iff bit_1_iff) auto

lemma flag_bits:
  "bit PAGE_PRESENT k \<longleftrightarrow> k = 0" "bit PAGE_RW k \<longleftrightarrow> k = 1" "bit PAGE_USER k \<longleftrightarrow> k = 2"
  "bit PAGE_LARGE k \<longleftrightarrow> k = 7" "bit X86_LAZY k \<longleftrightarrow> k = 9" "bit PAGE_NX k \<longleftrightarrow> k = 63"
proof -
  have c: "PAGE_PRESENT = push_bit 0 1" "PAGE_RW = push_bit 1 1" "PAGE_USER = push_bit 2 1"
    by (simp_all add: PAGE_PRESENT_def PAGE_RW_def PAGE_USER_def push_bit_eq_mult)
  show "bit PAGE_PRESENT k \<longleftrightarrow> k = 0" "bit PAGE_RW k \<longleftrightarrow> k = 1" "bit PAGE_USER k \<longleftrightarrow> k = 2"
    "bit PAGE_LARGE k \<longleftrightarrow> k = 7" "bit X86_LAZY k \<longleftrightarrow> k = 9" "bit PAGE_NX k \<longleftrightarrow> k = 63"
    unfolding c PAGE_LARGE_def X86_LAZY_def PAGE_NX_def by (rule bit_exp_iff', simp)+
qed

lemma page_low_bits: "p mod 4096 = 0 \<Longrightarrow> k < 12 \<Longrightarrow> \<not> bit (word_of_nat p :: u64) k"
proof -
  assume "p mod 4096 = 0" "k < 12"
  then have "take_bit 12 p = 0" by (simp add: take_bit_eq_mod)
  then have "\<not> bit p k" using \<open>k < 12\<close> by (metis bit_take_bit_iff bit_0_eq bot_apply bot_bool_def)
  then show ?thesis by (simp add: bit_simps)
qed

text \<open>An entry that points to a page: its flags and its address.\<close>

lemma page_high_bits: "p < 2 ^ 52 \<Longrightarrow> 52 \<le> k \<Longrightarrow> \<not> bit (word_of_nat p :: u64) k"
proof -
  assume p: "p < 2 ^ 52" and k: "52 \<le> k"
  have "\<not> bit p k" using k take_bit_nat_eq_self[OF p] by (metis bit_take_bit_iff leD)
  then show ?thesis by (simp add: bit_simps)
qed

lemma page_entry:
  assumes "p mod 4096 = 0" "p < 2 ^ 52" "f AND PHYS_MASK = 0"
  shows "phys (word_of_nat p OR f) = p"
    "k < 12 \<or> 52 \<le> k \<Longrightarrow> bit (word_of_nat p OR f :: u64) k \<longleftrightarrow> bit f k"
  using phys_entry[OF assms] page_low_bits[OF assms(1)] page_high_bits[OF assms(2)] by (auto simp: bit_or_iff)

section \<open>Typed page tables\<close>

text \<open>
  \<open>link e\<close>: an entry that leads to a table. The code writes every such entry writable and executable,
  so that permissions are decided by the leaf alone.
\<close>

definition link :: "u64 \<Rightarrow> bool" where
  "link e \<longleftrightarrow> has e PAGE_PRESENT \<and> \<not> has e PAGE_LARGE"

definition wf :: "(nat \<rightharpoonup> nat) \<Rightarrow> vm \<Rightarrow> bool" where
  "wf T s \<longleftrightarrow> pmm_inv (vm_pmm s) \<and>
     (\<forall>t l. T t = Some l \<longrightarrow> t mod 4096 = 0 \<and> t div 4096 \<in> owned_set (vm_pmm s)) \<and>
     (\<forall>t l i. T t = Some (Suc l) \<longrightarrow> 1 \<le> l \<longrightarrow> i < 512 \<longrightarrow> link (ld s t i) \<longrightarrow>
        T (phys (ld s t i)) = Some l \<and> has (ld s t i) PAGE_RW \<and> \<not> has (ld s t i) PAGE_NX) \<and>
     (\<forall>t l i. T t = Some l \<longrightarrow> 4 \<le> l \<longrightarrow> i < 512 \<longrightarrow> has (ld s t i) PAGE_PRESENT \<longrightarrow> \<not> has (ld s t i) PAGE_LARGE)"

text \<open>
  What every step of the page-table code keeps: entries that lead to a table, and leaf entries in use.
  \<open>ext T s T' s'\<close> is one such step, which may have added tables.
\<close>

definition stable :: "(nat \<rightharpoonup> nat) \<Rightarrow> vm \<Rightarrow> vm \<Rightarrow> bool" where
  "stable T s s' \<longleftrightarrow> (\<forall>t l i. T t = Some l \<longrightarrow> i < 512 \<longrightarrow>
     (if l = 1 then ld s t i \<noteq> 0 else link (ld s t i)) \<longrightarrow> ld s' t i = ld s t i)"

definition ext :: "(nat \<rightharpoonup> nat) \<Rightarrow> vm \<Rightarrow> (nat \<rightharpoonup> nat) \<Rightarrow> vm \<Rightarrow> bool" where
  "ext T s T' s' \<longleftrightarrow> wf T' s' \<and> T \<subseteq>\<^sub>m T' \<and> stable T s s' \<and> owned_set (vm_pmm s) \<subseteq> owned_set (vm_pmm s')"

lemma wfD:
  assumes "wf T s"
  shows "pmm_inv (vm_pmm s)" "T t = Some l \<Longrightarrow> t mod 4096 = 0"
    "T t = Some l \<Longrightarrow> t div 4096 \<in> owned_set (vm_pmm s)"
    "T t = Some (Suc l) \<Longrightarrow> 1 \<le> l \<Longrightarrow> i < 512 \<Longrightarrow> link (ld s t i) \<Longrightarrow> T (phys (ld s t i)) = Some l"
    "T t = Some (Suc l) \<Longrightarrow> 1 \<le> l \<Longrightarrow> i < 512 \<Longrightarrow> link (ld s t i) \<Longrightarrow> has (ld s t i) PAGE_RW"
    "T t = Some (Suc l) \<Longrightarrow> 1 \<le> l \<Longrightarrow> i < 512 \<Longrightarrow> link (ld s t i) \<Longrightarrow> \<not> has (ld s t i) PAGE_NX"
    "T t = Some l \<Longrightarrow> 4 \<le> l \<Longrightarrow> i < 512 \<Longrightarrow> has (ld s t i) PAGE_PRESENT \<Longrightarrow> \<not> has (ld s t i) PAGE_LARGE"
  using assms unfolding wf_def by blast+

lemma stable_trans:
  assumes "stable T s s1" "stable T' s1 s2" "T \<subseteq>\<^sub>m T'"
  shows "stable T s s2"
proof -
  have sub: "T t = Some l \<Longrightarrow> T' t = Some l" for t l
    using assms(3) unfolding map_le_def by (metis domI)
  show ?thesis unfolding stable_def
  proof (intro allI impI)
    fix t l i
    assume h: "T t = Some l" "i < 512" "if l = 1 then ld s t i \<noteq> 0 else link (ld s t i)"
    have e: "ld s1 t i = ld s t i" using assms(1) h unfolding stable_def by blast
    show "ld s2 t i = ld s t i" using assms(2) sub[OF h(1)] h(2,3) unfolding stable_def e[symmetric] by blast
  qed
qed

lemma ext_refl: "wf T s \<Longrightarrow> ext T s T s"
  by (simp add: ext_def stable_def)

lemma ext_trans: "ext T s T1 s1 \<Longrightarrow> ext T1 s1 T2 s2 \<Longrightarrow> ext T s T2 s2"
  unfolding ext_def using stable_trans map_le_trans by blast

lemma ext_wf: "ext T s T' s' \<Longrightarrow> wf T' s'"
  by (simp add: ext_def)

lemma ext_mono: "ext T s T' s' \<Longrightarrow> T t = Some l \<Longrightarrow> T' t = Some l"
  unfolding ext_def map_le_def by (metis domI)

lemma ext_link: "ext T s T' s' \<Longrightarrow> T t = Some (Suc l) \<Longrightarrow> 1 \<le> l \<Longrightarrow> i < 512 \<Longrightarrow> link (ld s t i) \<Longrightarrow>
    ld s' t i = ld s t i"
  unfolding ext_def stable_def by (metis One_nat_def Suc_inject not_one_le_zero)

lemma ext_leaf: "ext T s T' s' \<Longrightarrow> T t = Some 1 \<Longrightarrow> i < 512 \<Longrightarrow> ld s t i \<noteq> 0 \<Longrightarrow> ld s' t i = ld s t i"
  unfolding ext_def stable_def by metis

text \<open>Hooking a new table \<open>p\<close> into entry \<open>i\<close> of table \<open>t\<close>.\<close>

lemma link_entry:
  assumes "p mod 4096 = 0" "p < 2 ^ 52" "f = 0 \<or> f = PAGE_USER"
  shows "phys (word_of_nat p OR PAGE_PRESENT OR PAGE_RW OR f) = p"
    "link (word_of_nat p OR PAGE_PRESENT OR PAGE_RW OR f)"
    "has (word_of_nat p OR PAGE_PRESENT OR PAGE_RW OR f) PAGE_RW"
    "\<not> has (word_of_nat p OR PAGE_PRESENT OR PAGE_RW OR f) PAGE_NX"
proof -
  have m: "(PAGE_PRESENT OR PAGE_RW OR f) AND PHYS_MASK = 0"
    using assms(3) flag_masks by (auto simp: bit.conj_disj_distrib2)
  note E = page_entry[OF assms(1,2) m]
  note A = or.assoc
  show "phys (word_of_nat p OR PAGE_PRESENT OR PAGE_RW OR f) = p" using E(1) by (simp only: A)
  show "link (word_of_nat p OR PAGE_PRESENT OR PAGE_RW OR f)"
    "has (word_of_nat p OR PAGE_PRESENT OR PAGE_RW OR f) PAGE_RW"
    "\<not> has (word_of_nat p OR PAGE_PRESENT OR PAGE_RW OR f) PAGE_NX"
    using assms(3) page_low_bits[OF assms(1), of 7] page_high_bits[OF assms(2), of 63]
    unfolding link_def has_bit A by (auto simp: bit_or_iff flag_bits)
qed

lemma hook_ext:
  assumes w: "wf T s" and t: "T t = Some (Suc l)" "1 \<le> l" "i < 512" "\<not> link (ld s t i)"
    and p: "p mod 4096 = 0" "p < 2 ^ 52" "p div 4096 \<notin> owned_set (vm_pmm s)"
    and s1: "pmm_inv (vm_pmm s1)" "owned_set (vm_pmm s1) = insert (p div 4096) (owned_set (vm_pmm s))"
      "\<And>u j. u mod 4096 = 0 \<Longrightarrow> u \<noteq> p \<Longrightarrow> j < 512 \<Longrightarrow> ld s1 u j = ld s u j"
      "\<And>j. j < 512 \<Longrightarrow> l \<ge> 2 \<Longrightarrow> \<not> link (ld s1 p j)"
      "\<And>j. j < 512 \<Longrightarrow> l \<ge> 4 \<Longrightarrow> \<not> has (ld s1 p j) PAGE_PRESENT"
    and e: "e = word_of_nat p OR PAGE_PRESENT OR PAGE_RW OR f" "f = 0 \<or> f = PAGE_USER"
  shows "ext T s (T(p \<mapsto> l)) (st t i e s1)"
proof -
  let ?s = "st t i e s1" and ?T = "T(p \<mapsto> l)"
  note E = link_entry[OF p(1,2) e(2), folded e(1)]
  have tp: "T u = Some k \<Longrightarrow> u \<noteq> p" for u k using wfD(3)[OF w] p(3) by blast
  have al: "T u = Some k \<Longrightarrow> u mod 4096 = 0" for u k by (rule wfD(2)[OF w])
  note t0 = al[OF t(1)]
  have other: "ld ?s u j = ld s u j" if "T u = Some k" "j < 512" "u \<noteq> t \<or> j \<noteq> i" for u j k
    using ld_st_other[OF t0 al[OF that(1)] t(3) that(2)] s1(3)[OF al[OF that(1)] tp[OF that(1)] that(2)] that(3) by auto
  have new: "ld ?s p j = ld s1 p j" if "j < 512" for j
    using ld_st_other[OF t0 p(1) t(3) that] tp[OF t(1)] by blast
  have "wf ?T ?s" unfolding wf_def
  proof (intro conjI allI impI)
    show "pmm_inv (vm_pmm ?s)" using s1(1) by simp
  next
    fix u k assume "?T u = Some k"
    then show "u mod 4096 = 0" "u div 4096 \<in> owned_set (vm_pmm ?s)"
      using p(1) s1(2) al wfD(3)[OF w] by (auto split: if_splits)
  next
    fix u k j assume u: "?T u = Some (Suc k)" "1 \<le> k" "j < 512" "link (ld ?s u j)"
    have "u \<noteq> p" using u s1(4)[OF u(3)] new[OF u(3)] by (auto split: if_splits)
    then have Tu: "T u = Some (Suc k)" using u(1) by simp
    have "?T (phys (ld ?s u j)) = Some k \<and> has (ld ?s u j) PAGE_RW \<and> \<not> has (ld ?s u j) PAGE_NX"
    proof (cases "u = t \<and> j = i")
      case True
      then have "ld ?s u j = e" "k = l" using Tu t(1) by auto
      then show ?thesis using E by simp
    next
      case False
      then have eq: "ld ?s u j = ld s u j" using other[OF Tu u(3)] by blast
      have ph: "T (phys (ld s u j)) = Some k" using wfD(4)[OF w Tu u(2,3)] u(4) unfolding eq by blast
      then have "phys (ld s u j) \<noteq> p" using tp by blast
      then show ?thesis using ph wfD(5,6)[OF w Tu u(2,3)] u(4) unfolding eq by simp
    qed
    then show "?T (phys (ld ?s u j)) = Some k" "has (ld ?s u j) PAGE_RW" "\<not> has (ld ?s u j) PAGE_NX" by blast+
  next
    fix u k j assume u: "?T u = Some k" "4 \<le> k" "j < 512" "has (ld ?s u j) PAGE_PRESENT"
    have "u \<noteq> p" using u s1(5)[OF u(3)] new[OF u(3)] by (auto split: if_splits)
    then have Tu: "T u = Some k" using u(1) by simp
    show "\<not> has (ld ?s u j) PAGE_LARGE"
    proof (cases "u = t \<and> j = i")
      case True
      then show ?thesis using E(2) by (auto simp: link_def)
    next
      case False
      then have "ld ?s u j = ld s u j" using other[OF Tu u(3)] by blast
      then show ?thesis using wfD(7)[OF w Tu u(2,3)] u(4) by simp
    qed
  qed
  moreover have "T \<subseteq>\<^sub>m ?T" using tp by (auto simp: map_le_def)
  moreover have "stable T s ?s" unfolding stable_def
  proof (intro allI impI)
    fix u k j assume u: "T u = Some k" "j < 512" "if k = 1 then ld s u j \<noteq> 0 else link (ld s u j)"
    have "u \<noteq> t \<or> j \<noteq> i" using u t by (auto split: if_splits)
    then show "ld ?s u j = ld s u j" using other[OF u(1,2)] by blast
  qed
  ultimately show ?thesis using s1(2) unfolding ext_def by auto
qed

text \<open>The table of smaller mappings a large page is split into.\<close>

lemma fold_st:
  assumes "p mod 4096 = 0" "n \<le> 512"
  shows "let s' = fold (\<lambda>j s. st p j (f j) s) [0..<n] s in
     pmm_inv (vm_pmm s') = pmm_inv (vm_pmm s) \<and> owned_set (vm_pmm s') = owned_set (vm_pmm s) \<and>
     (\<forall>u j. u mod 4096 = 0 \<longrightarrow> j < 512 \<longrightarrow> ld s' u j = (if u = p \<and> j < n then f j else ld s u j))"
  using assms(2)
proof (induction n)
  case 0
  then show ?case by simp
next
  case (Suc n)
  let ?s = "fold (\<lambda>j s. st p j (f j) s) [0..<n] s"
  have IH: "pmm_inv (vm_pmm ?s) = pmm_inv (vm_pmm s)" "owned_set (vm_pmm ?s) = owned_set (vm_pmm s)"
    "\<And>u j. u mod 4096 = 0 \<Longrightarrow> j < 512 \<Longrightarrow> ld ?s u j = (if u = p \<and> j < n then f j else ld s u j)"
    using Suc.IH Suc.prems by (simp_all add: Let_def)
  have e: "ld (st p n (f n) ?s) u j = (if u = p \<and> j < Suc n then f j else ld s u j)"
    if u: "u mod 4096 = 0" "j < 512" for u j
  proof (cases "u = p \<and> j = n")
    case True
    then show ?thesis by simp
  next
    case False
    have "ld (st p n (f n) ?s) u j = ld ?s u j"
      by (rule ld_st_other[OF assms(1) u(1) _ u(2)]) (use Suc.prems False in auto)
    with False show ?thesis using IH(3)[OF u] by auto
  qed
  show ?case using IH(1,2) e by (simp add: Let_def)
qed

lemma split_large_props:
  assumes "p mod 4096 = 0" and s'_def: "s' = split_large p e l s"
  shows "pmm_inv (vm_pmm s') = pmm_inv (vm_pmm s)" "owned_set (vm_pmm s') = owned_set (vm_pmm s)"
    "u mod 4096 = 0 \<Longrightarrow> u \<noteq> p \<Longrightarrow> j < 512 \<Longrightarrow> ld s' u j = ld s u j"
    "l = 3 \<Longrightarrow> has e PAGE_LARGE \<Longrightarrow> j < 512 \<Longrightarrow> \<not> link (ld s' p j)"
proof -
  define fl where "fl = split_flags e l"
  define g where "g j = (e AND PHYS_MASK AND NOT ((if l = 3 then 0x40000000 else 0x200000) - 1)) +
    word_of_nat (j * (if l = 3 then 0x200000 else 4096))" for j
  have s': "s' = fold (\<lambda>j s. st p j (g j OR fl) s) [0..<512] s"
    unfolding s'_def split_large_def Let_def fl_def g_def ..
  note F = fold_st[OF assms(1), of 512 "\<lambda>j. g j OR fl" s, folded s', unfolded Let_def]
  show "pmm_inv (vm_pmm s') = pmm_inv (vm_pmm s)" "owned_set (vm_pmm s') = owned_set (vm_pmm s)"
    "u mod 4096 = 0 \<Longrightarrow> u \<noteq> p \<Longrightarrow> j < 512 \<Longrightarrow> ld s' u j = ld s u j" using F by auto
  assume l: "l = 3" "has e PAGE_LARGE" "j < 512"
  have "\<not> bit PHYS_MASK 7" by (simp add: PHYS_MASK_def)
  then have "bit fl 7" using l(1,2) unfolding fl_def split_flags_def Let_def has_bit
    by (simp add: bit_or_iff bit_and_iff bit_not_iff_eq)
  moreover have "ld s' p j = g j OR fl" using F assms(1) l(3) by simp
  ultimately show "\<not> link (ld s' p j)" unfolding link_def has_bit by (simp add: bit_or_iff)
qed

lemma pt_child_ext:
  assumes w: "wf T s" and t: "T t = Some (Suc l)" "1 \<le> l" "i < 512"
    and c: "x86_64_pt_child t i (Suc l) u s = (r, s')"
  shows "\<exists>T'. ext T s T' s' \<and> (\<forall>t'. r = Inr t' \<longrightarrow> T' t' = Some l \<and> link (ld s' t i) \<and> phys (ld s' t i) = t' \<and>
     (u \<longrightarrow> has (ld s' t i) PAGE_USER))"
proof -
  note pi = wfD(1)[OF w]
  have found: "t' = phys (ld s' t i) \<and> (u \<longrightarrow> has (ld s' t i) PAGE_USER)"
    if "found_child t i u s' = Inr t'" for t' using that by (auto simp: found_child_def split: if_splits)
  have hooked: ?thesis
    if h: "ext T s (T(p \<mapsto> l)) s'" "r = found_child t i u s'" "phys (ld s' t i) = p" "link (ld s' t i)" for p
    using h found by (intro exI[of _ "T(p \<mapsto> l)"]) auto
  from c show ?thesis
  proof (cases rule: pt_child_cases)
    case nomem
    then show ?thesis using vm_allocD(2)[OF nomem(1) pi] ext_refl[OF w] by (intro exI[of _ T]) simp
  next
    case bad
    then show ?thesis using ext_refl[OF w] by (intro exI[of _ T]) simp
  next
    case old
    then have lk: "link (ld s' t i)" by (simp add: link_def)
    then show ?thesis using old(3,4) found ext_refl[OF w] wfD(4)[OF w t] by (intro exI[of _ T]) auto
  next
    case (fresh p s1)
    note D = vm_allocD[OF fresh(2) pi]
    note p = D(3)[OF fresh(3)] D(4)[OF fresh(3)]
    have p52: "p < 2 ^ 52" using D(7)[OF fresh(3)] by simp
    let ?f = "if u then PAGE_USER else 0"
    have f: "?f = 0 \<or> ?f = PAGE_USER" by simp
    have nl: "\<not> link 0" by (simp add: link_def has_def)
    have "ext T s (T(p \<mapsto> l)) s'" unfolding fresh(5)
    proof (rule hook_ext[OF w t _ p(1) p52 p(2) D(1) D(5)[OF fresh(3)] _ _ _ refl f])
      show "\<not> link (ld s t i)" using fresh(1) by (simp add: link_def)
      show "ld s1 v j = ld s v j" if "v mod 4096 = 0" "v \<noteq> p" "j < 512" for v j
        by (rule ld_alloc(1)[OF fresh(2) pi fresh(3) that(1,3,2)])
      show "\<not> link (ld s1 p j)" "\<not> has (ld s1 p j) PAGE_PRESENT" if "j < 512" for j
        using ld_alloc(2)[OF fresh(2) pi fresh(3) p(1) that refl] nl by (simp_all add: has_def)
    qed
    then show ?thesis using hooked[of p] fresh(4,5) link_entry[OF p(1) p52 f] by simp
  next
    case (split p s1)
    note D = vm_allocD[OF split(4) pi]
    note p = D(3)[OF split(5)] D(4)[OF split(5)]
    have p52: "p < 2 ^ 52" using D(7)[OF split(5)] by simp
    let ?f = "ld s t i AND PAGE_USER" and ?s = "split_large p (ld s t i) (Suc l) s1"
    have f: "?f = 0 \<or> ?f = PAGE_USER"
    proof (cases "bit (ld s t i) 2")
      case True
      then have "?f = PAGE_USER" by (intro bit_word_eqI) (auto simp: bit_and_iff flag_bits)
      then show ?thesis ..
    next
      case False
      then have "?f = 0" by (intro bit_word_eqI) (auto simp: bit_and_iff flag_bits)
      then show ?thesis ..
    qed
    note S = split_large_props[OF p(1) refl, where e = "ld s t i" and l = "Suc l" and s = s1]
    have "ext T s (T(p \<mapsto> l)) s'" unfolding split(7)
    proof (rule hook_ext[OF w t _ p(1) p52 p(2) _ _ _ _ _ refl f])
      show "\<not> link (ld s t i)" using split(2) by (simp add: link_def)
      show "pmm_inv (vm_pmm ?s)" using S(1) D(1) by simp
      show "owned_set (vm_pmm ?s) = insert (p div 4096) (owned_set (vm_pmm s))" using S(2) D(5)[OF split(5)] by simp
      show "ld ?s v j = ld s v j" if "v mod 4096 = 0" "v \<noteq> p" "j < 512" for v j
        using S(3)[OF that] ld_alloc(1)[OF split(4) pi split(5) that(1,3,2)] by simp
      show "\<not> link (ld ?s p j)" if "j < 512" "l \<ge> 2" for j
        using S(4)[OF _ split(2) that(1)] split(3) that(2) by auto
      show "\<not> has (ld ?s p j) PAGE_PRESENT" if "l \<ge> 4" for j using split(3) that by simp
    qed
    then show ?thesis using hooked[of p] split(6,7) link_entry[OF p(1) p52 f] by simp
  qed
qed

section \<open>Walks\<close>

text \<open>\<open>chain u s v l t t'\<close>: the entries of \<open>v\<close> lead from table \<open>t\<close> of level \<open>l\<close> to the last table \<open>t'\<close>.\<close>

fun chain :: "bool \<Rightarrow> vm \<Rightarrow> nat \<Rightarrow> nat \<Rightarrow> nat \<Rightarrow> nat \<Rightarrow> bool" where
  "chain u s v 0 t t' = False"
| "chain u s v (Suc 0) t t' = (t = t')"
| "chain u s v (Suc (Suc l)) t t' =
     (link (ld s t (pt_index (Suc (Suc l)) v)) \<and> (u \<longrightarrow> has (ld s t (pt_index (Suc (Suc l)) v)) PAGE_USER) \<and>
      chain u s v (Suc l) (phys (ld s t (pt_index (Suc (Suc l)) v))) t')"

lemma pt_index_less [simp]: "pt_index l v < 512"
  by (simp add: pt_index_def)

lemma chain_end:
  assumes "wf T s"
  shows "chain u s v (Suc l) t t' \<Longrightarrow> T t = Some (Suc l) \<Longrightarrow> T t' = Some 1"
proof (induction l arbitrary: t)
  case (Suc l)
  have "T (phys (ld s t (pt_index (Suc (Suc l)) v))) = Some (Suc l)"
    by (rule wfD(4)[OF assms Suc.prems(2)]) (use Suc.prems(1) in auto)
  then show ?case using Suc.IH Suc.prems(1) by auto
qed simp

lemma chain_ext:
  assumes "wf T s" "ext T s T' s'"
  shows "chain u s v (Suc l) t t' \<Longrightarrow> T t = Some (Suc l) \<Longrightarrow> chain u s' v (Suc l) t t'"
proof (induction l arbitrary: t)
  case (Suc l)
  have e: "ld s' t (pt_index (Suc (Suc l)) v) = ld s t (pt_index (Suc (Suc l)) v)"
    by (rule ext_link[OF assms(2) Suc.prems(2)]) (use Suc.prems(1) in auto)
  show ?case using Suc e wfD(4)[OF assms(1) Suc.prems(2)] by simp
qed simp

lemma pt_descend_ext:
  "wf T s \<Longrightarrow> T t = Some (Suc l) \<Longrightarrow> pt_descend (rev [2..<Suc (Suc l)]) t v u s = (r, s') \<Longrightarrow>
   \<exists>T'. ext T s T' s' \<and> (\<forall>t'. r = Inr t' \<longrightarrow> T' t' = Some 1 \<and> chain u s' v (Suc l) t t')"
proof (induction l arbitrary: t s T)
  case 0
  then show ?case using ext_refl by auto
next
  case (Suc l)
  let ?i = "pt_index (Suc (Suc l)) v"
  have ls: "rev [2..<Suc (Suc (Suc l))] = Suc (Suc l) # rev [2..<Suc (Suc l)]" by simp
  obtain x s1 where x: "x86_64_pt_child t ?i (Suc (Suc l)) u s = (x, s1)" by fastforce
  note run = Suc.prems(3)[unfolded ls pt_descend.simps x prod.case]
  obtain T1 where T1: "ext T s T1 s1" and c: "\<And>t'. x = Inr t' \<Longrightarrow> T1 t' = Some (Suc l) \<and> link (ld s1 t ?i) \<and>
      phys (ld s1 t ?i) = t' \<and> (u \<longrightarrow> has (ld s1 t ?i) PAGE_USER)"
    using pt_child_ext[OF Suc.prems(1,2) _ _ x] by auto
  show ?case
  proof (cases x)
    case (Inl e)
    with run T1 show ?thesis by auto
  next
    case (Inr t1)
    note c1 = c[OF Inr]
    have run1: "pt_descend (rev [2..<Suc (Suc l)]) t1 v u s1 = (r, s')" using run Inr by simp
    obtain T2 where T2: "ext T1 s1 T2 s'" and d: "\<And>t'. r = Inr t' \<Longrightarrow> T2 t' = Some 1 \<and> chain u s' v (Suc l) t1 t'"
      using Suc.IH[OF ext_wf[OF T1] _ run1] c1 by blast
    have e: "ld s' t ?i = ld s1 t ?i"
      by (rule ext_link[OF T2 ext_mono[OF T1 Suc.prems(2)]]) (use c1 in auto)
    show ?thesis using ext_trans[OF T1 T2] d c1 e by (intro exI[of _ T2]) auto
  qed
qed

lemma pt_descend_error: "pt_descend ls t v u s = (Inl e, s') \<Longrightarrow> e \<noteq> 0"
proof (induction ls arbitrary: t s)
  case (Cons l ls)
  obtain x s1 where x: "x86_64_pt_child t (pt_index l v) l u s = (x, s1)" by fastforce
  show ?case
  proof (cases x)
    case (Inl d)
    from x[unfolded Inl] have "d \<noteq> 0"
      by (cases rule: pt_child_cases) (auto simp: found_child_def split: if_splits)
    with Cons.prems x Inl show ?thesis by simp
  next
    case (Inr t1)
    with Cons x show ?thesis by simp
  qed
qed simp

text \<open>\<open>walks T s s'\<close>: present entries are kept, so every translation is.\<close>

definition walks :: "(nat \<rightharpoonup> nat) \<Rightarrow> vm \<Rightarrow> vm \<Rightarrow> bool" where
  "walks T s s' \<longleftrightarrow> (\<forall>t l i. T t = Some l \<longrightarrow> i < 512 \<longrightarrow> has (ld s t i) PAGE_PRESENT \<longrightarrow> ld s' t i = ld s t i)"

lemma walks_refl [simp]: "walks T s s" by (simp add: walks_def)

lemma walks_trans: "walks T s s1 \<Longrightarrow> walks T s1 s2 \<Longrightarrow> walks T s s2"
  unfolding walks_def by metis

lemma leaf_write:
  assumes w: "wf T s" and t: "T t = Some 1" "i < 512" "\<not> has (ld s t i) PAGE_PRESENT"
  shows "wf T (st t i e s)" "walks T s (st t i e s)"
proof -
  have other: "ld (st t i e s) u j = ld s u j" if "T u = Some k" "j < 512" "u \<noteq> t \<or> j \<noteq> i" for u j k
    using ld_st_other[OF wfD(2)[OF w t(1)] wfD(2)[OF w that(1)] t(2) that(2)] that(3) by auto
  have up: "ld (st t i e s) u j = ld s u j" if "T u = Some k" "k \<noteq> 1" "j < 512" for u j k
    by (rule other[OF that(1,3)]) (use that t(1) in auto)
  show "wf T (st t i e s)" unfolding wf_def
  proof (intro conjI allI impI)
    show "pmm_inv (vm_pmm (st t i e s))" using wfD(1)[OF w] by simp
  next
    fix u k assume "T u = Some k"
    then show "u mod 4096 = 0" "u div 4096 \<in> owned_set (vm_pmm (st t i e s))" using wfD(2,3)[OF w] by simp_all
  next
    fix u k j assume u: "T u = Some (Suc k)" "1 \<le> k" "j < 512" "link (ld (st t i e s) u j)"
    have eq: "ld (st t i e s) u j = ld s u j" by (rule up[OF u(1) _ u(3)]) (use u(2) in simp)
    show "T (phys (ld (st t i e s) u j)) = Some k" "has (ld (st t i e s) u j) PAGE_RW"
      "\<not> has (ld (st t i e s) u j) PAGE_NX"
      using wfD(4-6)[OF w u(1-3)] u(4) unfolding eq by blast+
  next
    fix u k j assume u: "T u = Some k" "4 \<le> k" "j < 512" "has (ld (st t i e s) u j) PAGE_PRESENT"
    have "ld (st t i e s) u j = ld s u j" by (rule up[OF u(1) _ u(3)]) (use u(2) in simp)
    then show "\<not> has (ld (st t i e s) u j) PAGE_LARGE" using wfD(7)[OF w u(1-3)] u(4) by simp
  qed
  show "walks T s (st t i e s)" unfolding walks_def
  proof (intro allI impI)
    fix u k j assume u: "T u = Some k" "j < 512" "has (ld s u j) PAGE_PRESENT"
    have "u \<noteq> t \<or> j \<noteq> i" using u t(3) by auto
    then show "ld (st t i e s) u j = ld s u j" using other[OF u(1,2)] by blast
  qed
qed

lemma leaf_ext:
  assumes w: "wf T s" and t: "T t = Some 1" "i < 512" "ld s t i = 0"
  shows "ext T s T (st t i e s)"
proof -
  have "wf T (st t i e s)" using leaf_write(1)[OF w t(1,2)] t(3) by (simp add: has_def)
  moreover have "stable T s (st t i e s)" unfolding stable_def
  proof (intro allI impI)
    fix u k j assume u: "T u = Some k" "j < 512" "if k = 1 then ld s u j \<noteq> 0 else link (ld s u j)"
    have "u \<noteq> t \<or> j \<noteq> i" using u t by (auto split: if_splits)
    then show "ld (st t i e s) u j = ld s u j"
      using ld_st_other[OF wfD(2)[OF w t(1)] wfD(2)[OF w u(1)] t(2) u(2)] by blast
  qed
  ultimately show ?thesis by (simp add: ext_def)
qed

lemma vm_alloc_ext:
  assumes w: "wf T s" and a: "vm_alloc s = (p, s')"
  shows "ext T s T s'"
proof (cases "p = 0")
  case True
  then show ?thesis using vm_allocD(2)[OF a wfD(1)[OF w]] ext_refl[OF w] by simp
next
  case False
  note D = vm_allocD[OF a wfD(1)[OF w]]
  have eq: "ld s' u j = ld s u j" if "T u = Some k" "j < 512" for u j k
    using ld_alloc(1)[OF a wfD(1)[OF w] False wfD(2)[OF w that(1)] that(2)] wfD(3)[OF w that(1)] D(4)[OF False] by auto
  have "wf T s'" using w D(1) D(5)[OF False] eq unfolding wf_def by (simp; metis)
  then show ?thesis using eq D(5)[OF False] by (auto simp: ext_def stable_def)
qed

text \<open>A page mapped by a leaf entry \<open>e\<close>, through entries open to user mode when \<open>u\<close>.\<close>

definition mapped :: "bool \<Rightarrow> vm \<Rightarrow> nat \<Rightarrow> nat \<Rightarrow> u64 \<Rightarrow> bool" where
  "mapped u s root v e \<longleftrightarrow> e \<noteq> 0 \<and> (\<exists>t. chain u s v 4 root t \<and> ld s t (pt_index 1 v) = e)"

lemma mapped_ext:
  assumes "mapped u s root v e" "wf T s" "T root = Some 4" "ext T s T' s'"
  shows "mapped u s' root v e"
proof -
  obtain t where t: "chain u s v (Suc 3) root t" "ld s t (pt_index 1 v) = e" "e \<noteq> 0"
    using assms(1) by (auto simp: mapped_def eval_nat_numeral)
  have r: "T root = Some (Suc 3)" using assms(3) by simp
  have "ld s' t (pt_index 1 v) = e" using ext_leaf[OF assms(4) chain_end[OF assms(2) t(1) r]] t(2,3) by simp
  moreover have "chain u s' v (Suc 3) root t" by (rule chain_ext[OF assms(2,4) t(1) r])
  ultimately show ?thesis using t(3) by (auto simp: mapped_def eval_nat_numeral)
qed

lemma map_raw_ext:
  assumes w: "wf T s" and r: "T root = Some 4" and m: "x86_64_map_page_raw root v p f False s = (e, s')"
  shows "\<exists>T'. ext T s T' s' \<and> (e = 0 \<longrightarrow> mapped (has f PAGE_USER) s' root v (word_of_nat p OR f OR PAGE_PRESENT))"
proof -
  let ?u = "has f PAGE_USER"
  obtain x s1 where x: "pt_descend [4, 3, 2] root v ?u s = (x, s1)" by fastforce
  have ls: "[4, 3, 2] = rev [2..<Suc (Suc 3)]" by (simp add: upt_rec)
  obtain T1 where T1: "ext T s T1 s1" and c: "\<And>t. x = Inr t \<Longrightarrow> T1 t = Some 1 \<and> chain ?u s1 v (Suc 3) root t"
    using pt_descend_ext[OF w _ x[unfolded ls]] r by auto
  show ?thesis
  proof (cases "s' = s1 \<and> e \<noteq> 0 \<or> s' = s \<and> e \<noteq> 0")
    case True
    then show ?thesis using T1 ext_refl[OF w] by auto
  next
    case False
    with m x obtain t where t: "x = Inr t" "ld s1 t (pt_index 1 v) = 0"
      "s' = st t (pt_index 1 v) (word_of_nat p OR f OR PAGE_PRESENT) s1"
      by (auto simp: x86_64_map_page_raw_def Let_def simp del: pt_descend.simps
          split: if_splits sum.splits dest: pt_descend_error)
    have ct: "T1 t = Some 1" "chain ?u s1 v (Suc 3) root t" using c[OF t(1)] by blast+
    have L: "ext T1 s1 T1 s'" unfolding t(3) by (rule leaf_ext[OF ext_wf[OF T1] ct(1) _ t(2)]) simp
    have "word_of_nat p OR f OR PAGE_PRESENT \<noteq> 0"
      using flag_bits(1)[of 0] by (metis bit_or_iff bit_0_eq bot_apply bot_bool_def)
    moreover have "chain ?u s' v (Suc 3) root t"
      by (rule chain_ext[OF ext_wf[OF T1] L ct(2)]) (use ext_mono[OF T1 r] in simp)
    ultimately have "mapped ?u s' root v (word_of_nat p OR f OR PAGE_PRESENT)"
      using t(3) by (auto simp: mapped_def eval_nat_numeral)
    then show ?thesis using ext_trans[OF T1 L] by blast
  qed
qed

text \<open>A mapped page translates to its frame, with the permissions of its leaf entry.\<close>

lemma translate_chain:
  assumes w: "wf T s" and v: "v mod 4096 = 0" and nx: "\<not> bit nx 1" "\<not> bit nx 2"
  shows "chain u s v (Suc l) t t' \<Longrightarrow> T t = Some (Suc l) \<Longrightarrow> has (ld s t' (pt_index 1 v)) PAGE_PRESENT \<Longrightarrow>
    \<not> bit allow 63 \<Longrightarrow> \<exists>fl. translate_walk (Suc l) t v allow nx s = Inr (phys (ld s t' (pt_index 1 v)), fl) \<and>
      (bit fl 1 \<longleftrightarrow> bit allow 1 \<and> bit (ld s t' (pt_index 1 v)) 1) \<and>
      (u \<longrightarrow> (bit fl 2 \<longleftrightarrow> bit allow 2 \<and> bit (ld s t' (pt_index 1 v)) 2)) \<and>
      (bit fl 63 \<longleftrightarrow> bit nx 63 \<or> bit (ld s t' (pt_index 1 v)) 63)"
  using nx
proof (induction l arbitrary: t allow nx)
  case 0
  let ?e = "ld s t (pt_index 1 v)"
  have "word_of_nat v AND mask 12 = (0 :: u64)"
    using page_low_bits[OF v] by (intro bit_word_eqI) (auto simp: bit_and_iff bit_mask_iff)
  moreover have "?e AND PHYS_MASK AND NOT (mask 12) = ?e AND PHYS_MASK"
  proof -
    have e: "PHYS_MASK = push_bit 12 (mask 40)" by (simp add: PHYS_MASK_def mask_eq_exp_minus_1 push_bit_eq_mult)
    have "bit PHYS_MASK k \<Longrightarrow> 12 \<le> k" for k unfolding e by (simp only: bit_push_bit_iff)
    then show ?thesis by (intro bit_word_eqI) (auto simp: bit_and_iff bit_not_iff_eq bit_mask_iff dest: leD)
  qed
  ultimately have "translate_walk (Suc 0) t v allow nx s =
      Inr (phys ?e, PAGE_PRESENT OR (allow AND ?e) OR nx OR (?e AND PAGE_NX))"
    using 0(1,3) by (simp add: Let_def phys_def)
  then show ?case using 0 by (auto simp: bit_or_iff bit_and_iff flag_bits)
next
  case (Suc l)
  let ?e = "ld s t (pt_index (Suc (Suc l)) v)" and ?f = "ld s t' (pt_index 1 v)"
  have lk: "link ?e" "u \<longrightarrow> bit ?e 2" and ch: "chain u s v (Suc l) (phys ?e) t'"
    using Suc.prems(1) by (simp_all add: has_bit)
  have T: "T (phys ?e) = Some (Suc l)" "bit ?e 1" "\<not> bit ?e 63"
    using wfD(4-6)[OF w Suc.prems(2) _ _ lk(1)] by (simp_all add: has_bit)
  have step: "translate_walk (Suc (Suc l)) t v allow nx s =
      translate_walk (Suc l) (phys ?e) v (allow AND ?e) (nx OR (?e AND PAGE_NX)) s"
    using lk(1) by (simp add: Let_def link_def del: translate_walk.simps(2)) (simp add: Let_def)
  have "\<exists>fl. translate_walk (Suc l) (phys ?e) v (allow AND ?e) (nx OR (?e AND PAGE_NX)) s = Inr (phys ?f, fl) \<and>
      (bit fl 1 \<longleftrightarrow> bit (allow AND ?e) 1 \<and> bit ?f 1) \<and> (u \<longrightarrow> (bit fl 2 \<longleftrightarrow> bit (allow AND ?e) 2 \<and> bit ?f 2)) \<and>
      (bit fl 63 \<longleftrightarrow> bit (nx OR (?e AND PAGE_NX)) 63 \<or> bit ?f 63)"
    by (rule Suc.IH[OF ch T(1) Suc.prems(3)]) (use Suc.prems in \<open>auto simp: bit_or_iff bit_and_iff flag_bits\<close>)
  then show ?case unfolding step using T lk(2) by (auto simp: bit_or_iff bit_and_iff flag_bits)
qed

section \<open>Rounding up\<close>

lemma and_not_mask: "unat ((y::u64) AND NOT (mask k)) = unat y div 2 ^ k * 2 ^ k"
proof -
  have "y AND NOT (mask k) = push_bit k (drop_bit k y)"
    by (intro bit_word_eqI) (auto simp: bit_simps)
  also have "\<dots> = word_of_nat (unat y div 2 ^ k * 2 ^ k)"
    by (intro bit_word_eqI) (auto simp: bit_simps push_bit_eq_mult[symmetric] drop_bit_eq_div[symmetric] bit_unsigned_iff)
  finally have "unat (y AND NOT (mask k)) = unat (word_of_nat (unat y div 2 ^ k * 2 ^ k) :: u64)" by simp
  also have "\<dots> = unat y div 2 ^ k * 2 ^ k"
  proof -
    have "unat y div 2 ^ k * 2 ^ k \<le> unat y" by (rule div_times_less_eq_dividend)
    also have "unat y < 2 ^ LENGTH(64)" by (rule unsigned_less)
    finally show ?thesis by (simp only: unsigned_of_nat take_bit_nat_eq_self of_nat_id)
  qed
  finally show ?thesis .
qed

lemma ALIGN_UP_mod: "2 ^ k dvd ALIGN_UP x (2 ^ k)"
proof -
  have m: "(word_of_nat (2 ^ k) :: u64) - 1 = mask k" by (simp add: mask_eq_exp_minus_1 of_nat_power)
  show ?thesis unfolding ALIGN_UP_def m and_not_mask by simp
qed

lemma ALIGN_UP_eq:
  assumes "x + 2 ^ k \<le> 2 ^ 64"
  shows "ALIGN_UP x (2 ^ k) = (x + 2 ^ k - 1) div 2 ^ k * 2 ^ k"
proof -
  have m: "(word_of_nat (2 ^ k) :: u64) - 1 = mask k" by (simp add: mask_eq_exp_minus_1 of_nat_power)
  have "(word_of_nat x + word_of_nat (2 ^ k) - 1 :: u64) = word_of_nat (x + 2 ^ k - 1)"
  proof -
    have "x + 2 ^ k = Suc (x + 2 ^ k - 1)" by simp
    then have "(word_of_nat x + word_of_nat (2 ^ k) :: u64) = word_of_nat (x + 2 ^ k - 1) + 1"
      by (metis Suc_eq_plus1 of_nat_1 of_nat_add)
    then show ?thesis by simp
  qed
  moreover have "unat (word_of_nat (x + 2 ^ k - 1) :: u64) = x + 2 ^ k - 1"
  proof -
    have "0 < (2::nat) ^ k" by simp
    then have "x + 2 ^ k - 1 < 2 ^ LENGTH(64)" using assms by simp
    then show ?thesis by (simp only: unsigned_of_nat take_bit_nat_eq_self of_nat_id)
  qed
  ultimately show ?thesis unfolding ALIGN_UP_def m and_not_mask by simp
qed

section \<open>Allocation\<close>

lemma mapped_translate:
  assumes w: "wf T s" "T root = Some 4" and m: "mapped u s root v e" and e: "has e PAGE_PRESENT"
    and v: "v mod 4096 = 0" "canonical v"
  shows "\<exists>fl. x86_64_vmm_translate root v s = Inr (phys e, fl) \<and> (has fl PAGE_RW \<longleftrightarrow> has e PAGE_RW) \<and>
    (u \<longrightarrow> (has fl PAGE_USER \<longleftrightarrow> has e PAGE_USER)) \<and> (has fl PAGE_NX \<longleftrightarrow> has e PAGE_NX)"
proof -
  obtain t where t: "chain u s v (Suc 3) root t" "ld s t (pt_index 1 v) = e"
    using m by (auto simp: mapped_def eval_nat_numeral)
  have "root div 4096 \<in> owned_set (vm_pmm s)" by (rule wfD(3)[OF w])
  then have "root \<noteq> 0" using pages.owned_pages[OF wfD(1)[OF w(1)]] by fastforce
  moreover have "T root = Some (Suc 3)" using w(2) by simp
  ultimately show ?thesis
    using translate_chain[OF w(1) v(1) _ _ t(1), of 0 "PAGE_USER OR PAGE_RW"] e v(2)
    unfolding has_bit t(2) x86_64_vmm_translate_def by (simp add: bit_or_iff flag_bits eval_nat_numeral)
qed

lemma as_map_loop_maps:
  assumes "wf T s" "T root = Some 4" "as_map_loop root v n f d s = (0, d', s')"
  shows "\<exists>T' F. ext T s T' s' \<and> inj_on F {d..<n} \<and> (\<forall>j. d \<le> j \<longrightarrow> j < n \<longrightarrow> F j mod 4096 = 0 \<and> F j < 2 ^ 52 \<and>
     F j div 4096 \<notin> owned_set (vm_pmm s) \<and> F j div 4096 \<in> owned_set (vm_pmm s') \<and>
     mapped (has f PAGE_USER) s' root (v + j * 4096) (word_of_nat (F j) OR f OR PAGE_PRESENT))"
  using assms
proof (induction root v n f d s arbitrary: T rule: as_map_loop.induct)
  case (1 root v n f d s)
  show ?case
  proof (cases "d < n")
    case False
    with "1.prems"(3) have "s' = s" by (simp add: as_map_loop.simps[of root v n f d s])
    with ext_refl[OF "1.prems"(1)] False show ?thesis by (intro exI[of _ T]) auto
  next
    case True
    obtain p s1 where p: "vm_alloc s = (p, s1)" by fastforce
    obtain e s2 where m: "x86_64_map_page_raw root (v + d * 4096) p f False s1 = (e, s2)" by fastforce
    note eq = as_map_loop.simps[of root v n f d s, unfolded p m Let_def prod.case]
    have p0: "p \<noteq> 0" and e0: "e = 0" and rest: "as_map_loop root v n f (Suc d) s2 = (0, d', s')"
      using "1.prems"(3) True unfolding eq by (auto split: if_splits)
    note D = vm_allocD[OF p wfD(1)[OF "1.prems"(1)]]
    have A: "ext T s T s1" by (rule vm_alloc_ext[OF "1.prems"(1) p])
    obtain T2 where M: "ext T s1 T2 s2" "mapped (has f PAGE_USER) s2 root (v + d * 4096) (word_of_nat p OR f OR PAGE_PRESENT)"
      using map_raw_ext[OF ext_wf[OF A] "1.prems"(2) m] e0 by blast
    have r2: "T2 root = Some 4" by (rule ext_mono[OF M(1) "1.prems"(2)])
    obtain T' F where F: "ext T2 s2 T' s'" "inj_on F {Suc d..<n}"
      "\<And>j. Suc d \<le> j \<Longrightarrow> j < n \<Longrightarrow> F j mod 4096 = 0 \<and> F j < 2 ^ 52 \<and> F j div 4096 \<notin> owned_set (vm_pmm s2) \<and>
         F j div 4096 \<in> owned_set (vm_pmm s') \<and>
         mapped (has f PAGE_USER) s' root (v + j * 4096) (word_of_nat (F j) OR f OR PAGE_PRESENT)"
      using "1.IH"[OF True p[symmetric] refl p0 m[symmetric] _ ext_wf[OF M(1)] r2 rest] e0 by blast
    have own: "owned_set (vm_pmm s) \<subseteq> owned_set (vm_pmm s2)" "p div 4096 \<in> owned_set (vm_pmm s2)"
      "owned_set (vm_pmm s2) \<subseteq> owned_set (vm_pmm s')"
      using M(1) A F(1) D(5)[OF p0] unfolding ext_def by auto
    have md: "mapped (has f PAGE_USER) s' root (v + d * 4096) (word_of_nat p OR f OR PAGE_PRESENT)"
      by (rule mapped_ext[OF M(2) ext_wf[OF M(1)] r2 F(1)])
    have P: "p mod 4096 = 0" "p < 2 ^ 52" "p div 4096 \<notin> owned_set (vm_pmm s)"
      using D(3,4,7)[OF p0] by auto
    have ne: "F j \<noteq> p" if "j \<in> {Suc d..<n}" for j using F(3)[of j] that own(2) by auto
    have "inj_on (F(d := p)) {d..<n}"
    proof -
      have "{d..<n} = insert d {Suc d..<n}" using True by auto
      moreover have "inj_on (F(d := p)) {Suc d..<n}" using F(2) by (auto simp: inj_on_def)
      moreover have "p \<notin> (F(d := p)) ` {Suc d..<n}" using ne by fastforce
      ultimately show ?thesis by (simp add: inj_on_insert)
    qed
    moreover have "ext T s T' s'" by (rule ext_trans[OF A ext_trans[OF M(1) F(1)]])
    moreover have "\<forall>j. d \<le> j \<longrightarrow> j < n \<longrightarrow> (F(d := p)) j mod 4096 = 0 \<and> (F(d := p)) j < 2 ^ 52 \<and>
       (F(d := p)) j div 4096 \<notin> owned_set (vm_pmm s) \<and> (F(d := p)) j div 4096 \<in> owned_set (vm_pmm s') \<and>
       mapped (has f PAGE_USER) s' root (v + j * 4096) (word_of_nat ((F(d := p)) j) OR f OR PAGE_PRESENT)"
    proof (intro allI impI)
      fix j assume j: "d \<le> j" "j < n"
      show "(F(d := p)) j mod 4096 = 0 \<and> (F(d := p)) j < 2 ^ 52 \<and>
       (F(d := p)) j div 4096 \<notin> owned_set (vm_pmm s) \<and> (F(d := p)) j div 4096 \<in> owned_set (vm_pmm s') \<and>
       mapped (has f PAGE_USER) s' root (v + j * 4096) (word_of_nat ((F(d := p)) j) OR f OR PAGE_PRESENT)"
      proof (cases "j = d")
        case True
        then show ?thesis using P md own by auto
      next
        case False
        then show ?thesis using F(3)[of j] j own(1) by auto
      qed
    qed
    ultimately show ?thesis by blast
  qed
qed

lemma user_flags_bits:
  "has (user_flags rwx) PAGE_USER" "has (user_flags rwx) PAGE_RW \<longleftrightarrow> rwx AND RIEF_REGION_W \<noteq> 0"
  "has (user_flags rwx) PAGE_NX \<longleftrightarrow> rwx AND RIEF_REGION_X = 0" "user_flags rwx AND PHYS_MASK = 0"
  using flag_masks unfolding has_bit user_flags_def
  by (auto simp: bit_or_iff flag_bits bit.conj_disj_distrib2)

lemma and_exp_bit32: "(e::u32) AND push_bit k 1 \<noteq> 0 \<longleftrightarrow> bit e k"
proof
  assume "e AND push_bit k 1 \<noteq> 0"
  then obtain j where "bit (e AND push_bit k 1) j" using bit_eq_iff[of "e AND push_bit k 1" 0] by auto
  then show "bit e k" by (auto simp: bit_simps)
next
  assume b: "bit e k"
  then have "k < 32" using bit_imp_le_length by fastforce
  with b have "bit (e AND push_bit k 1) k" by (simp add: bit_simps)
  then show "e AND push_bit k 1 \<noteq> 0" by auto
qed

lemma rwx_ok_exclusive: "rwx_ok rwx \<Longrightarrow> rwx AND RIEF_REGION_W \<noteq> 0 \<Longrightarrow> rwx AND RIEF_REGION_X = 0"
proof (rule ccontr)
  assume ok: "rwx_ok rwx" and w: "rwx AND RIEF_REGION_W \<noteq> 0" and x: "rwx AND RIEF_REGION_X \<noteq> 0"
  have c: "RIEF_REGION_W = push_bit 1 1" "RIEF_REGION_X = push_bit 2 1"
    by (simp_all add: RIEF_REGION_W_def RIEF_REGION_X_def push_bit_eq_mult)
  have b: "bit rwx 1" "bit rwx 2" using w x unfolding c and_exp_bit32 by auto
  have n: "bit (push_bit 1 1 :: u32) k \<longleftrightarrow> k = 1" "bit (push_bit 2 1 :: u32) k \<longleftrightarrow> k = 2" for k
    by (auto simp only: bit_push_bit_iff bit_1_iff possible_bit_word) simp_all
  have "rwx AND (push_bit 1 1 OR push_bit 2 1) = push_bit 1 1 OR push_bit 2 1"
    using b by (intro bit_word_eqI) (auto simp only: bit_and_iff bit_or_iff n)
  then show False using ok unfolding rwx_ok_def c by simp
qed

lemma user_leaf:
  assumes "p mod 4096 = 0" "p < 2 ^ 52"
  shows "phys (word_of_nat p OR user_flags rwx OR PAGE_PRESENT) = p"
    "has (word_of_nat p OR user_flags rwx OR PAGE_PRESENT) PAGE_PRESENT"
    "has (word_of_nat p OR user_flags rwx OR PAGE_PRESENT) PAGE_USER"
    "has (word_of_nat p OR user_flags rwx OR PAGE_PRESENT) PAGE_RW \<longleftrightarrow> rwx AND RIEF_REGION_W \<noteq> 0"
    "has (word_of_nat p OR user_flags rwx OR PAGE_PRESENT) PAGE_NX \<longleftrightarrow> rwx AND RIEF_REGION_X = 0"
proof -
  have m: "(user_flags rwx OR PAGE_PRESENT) AND PHYS_MASK = 0"
    using user_flags_bits(4) flag_masks(1) by (simp add: bit.conj_disj_distrib2)
  note U = user_flags_bits(1-3)[of rwx, unfolded has_bit]
  show "phys (word_of_nat p OR user_flags rwx OR PAGE_PRESENT) = p" by (rule page_entry(1)[OF assms m])
  show "has (word_of_nat p OR user_flags rwx OR PAGE_PRESENT) PAGE_PRESENT"
    "has (word_of_nat p OR user_flags rwx OR PAGE_PRESENT) PAGE_USER"
    "has (word_of_nat p OR user_flags rwx OR PAGE_PRESENT) PAGE_RW \<longleftrightarrow> rwx AND RIEF_REGION_W \<noteq> 0"
    "has (word_of_nat p OR user_flags rwx OR PAGE_PRESENT) PAGE_NX \<longleftrightarrow> rwx AND RIEF_REGION_X = 0"
    using U page_low_bits[OF assms(1), of 1] page_high_bits[OF assms(2), of 63]
    unfolding has_bit by (auto simp: bit_or_iff flag_bits)
qed

text \<open>A successful allocation, taken apart.\<close>

lemma as_alloc_SomeE:
  assumes "x86_64_as_alloc i n_bytes align rwx s = (Inr base, s')"
  obtains d s1 where "rwx_ok rwx" "0 < n_bytes" "n_bytes \<le> MAX_USER_PAGES * 4096"
    "base mod 4096 = 0" "base + (n_bytes + 4095) div 4096 * 4096 + 4096 \<le> K_USER_LIMIT"
    "as_map_loop (as_root (vm_spaces s i)) base ((n_bytes + 4095) div 4096) (user_flags rwx) 0 s = (0, d, s1)"
    "s' = space_upd i (\<lambda>a. a\<lparr>as_next := base + (n_bytes + 4095) div 4096 * 4096 + 4096,
       as_pages := add32 (as_pages a) ((n_bytes + 4095) div 4096)\<rparr>) s1"
proof -
  let ?n = "ALIGN_UP n_bytes 4096 div 4096" and ?al = "if align < 4096 then 4096 else align"
  let ?v = "ALIGN_UP (as_next (vm_spaces s i)) ?al"
  obtain e d s1 where l: "as_map_loop (as_root (vm_spaces s i)) ?v ?n (user_flags rwx) 0 s = (e, d, s1)"
    by (metis prod_cases3)
  note run = assms[unfolded x86_64_as_alloc_def Let_def l prod.case]
  have g: "rwx_ok rwx" "0 < n_bytes" "n_bytes \<le> MAX_USER_PAGES * 4096" "power2 align" "base = ?v" "e = 0"
    "?v < K_USER_LIMIT" "?n * 4096 + 4096 \<le> K_USER_LIMIT - ?v"
    "s' = space_upd i (\<lambda>a. a\<lparr>as_next := ?v + ?n * 4096 + 4096, as_pages := add32 (as_pages a) ?n\<rparr>) s1"
    using run by (auto split: if_splits)
  have n: "?n = (n_bytes + 4095) div 4096"
    using ALIGN_UP_eq[of n_bytes 12] g(3) by (simp add: MAX_USER_PAGES_def)
  have lim: "v < L \<Longrightarrow> m + 4096 \<le> L - v \<Longrightarrow> v + m + 4096 \<le> L" for v m L :: nat by linarith
  obtain k where k: "align = 2 ^ k" using g(4) power2_iff by blast
  have "4096 dvd ?v"
  proof (cases "align < 4096")
    case True
    then show ?thesis using ALIGN_UP_mod[of 12] by simp
  next
    case False
    then have "(2::nat) ^ 12 \<le> 2 ^ k" using k by simp
    then have "12 \<le> k" by (rule power_le_imp_le_exp[rotated]) simp
    then have "(2::nat) ^ 12 dvd ALIGN_UP (as_next (vm_spaces s i)) (2 ^ k)"
      by (rule dvd_trans[OF le_imp_power_dvd ALIGN_UP_mod])
    then show ?thesis using False k by simp
  qed
  then have b: "base mod 4096 = 0" unfolding g(5) by (rule dvd_imp_mod_0)
  have top: "base + ?n * 4096 + 4096 \<le> K_USER_LIMIT" using g(7,8) unfolding g(5) by (rule lim)
  show thesis
    by (rule that[OF g(1-3) b top[unfolded n] l[folded g(5), unfolded g(6) n] g(9)[folded g(5), unfolded n]])
qed

lemma ld_spaces [simp]: "ld (s\<lparr>vm_spaces := x\<rparr>) t j = ld s t j"
  by (simp add: ld_def)

lemma chain_spaces [simp]: "chain u (s\<lparr>vm_spaces := x\<rparr>) v l t t' = chain u s v l t t'"
  by (induction u s v l t t' rule: chain.induct) simp_all

lemma mapped_spaces [simp]: "mapped u (s\<lparr>vm_spaces := x\<rparr>) root v e = mapped u s root v e"
  by (simp add: mapped_def)

lemma wf_spaces [simp]: "wf T (s\<lparr>vm_spaces := x\<rparr>) = wf T s"
  by (simp add: wf_def)

lemma as_alloc_correct:
  assumes "wf T s" "T (as_root (vm_spaces s i)) = Some 4"
    and "x86_64_as_alloc i n_bytes align rwx s = (Inr base, s')"
  shows "\<exists>T' F. wf T' s' \<and> T \<subseteq>\<^sub>m T' \<and> inj_on F {..<(n_bytes + 4095) div 4096} \<and>
    (\<forall>j < (n_bytes + 4095) div 4096. F j div 4096 \<notin> owned_set (vm_pmm s) \<and>
       (\<exists>fl. x86_64_vmm_translate (as_root (vm_spaces s i)) (base + j * 4096) s' = Inr (F j, fl) \<and>
          has fl PAGE_USER \<and> (has fl PAGE_RW \<longleftrightarrow> rwx AND RIEF_REGION_W \<noteq> 0) \<and>
          (has fl PAGE_NX \<longleftrightarrow> rwx AND RIEF_REGION_X = 0) \<and> \<not> (has fl PAGE_RW \<and> \<not> has fl PAGE_NX))) \<and>
    (\<forall>r u v e. T r = Some 4 \<longrightarrow> mapped u s r v e \<longrightarrow> mapped u s' r v e)"
proof -
  let ?root = "as_root (vm_spaces s i)" and ?n = "(n_bytes + 4095) div 4096"
  obtain d s1 where g: "rwx_ok rwx" "base mod 4096 = 0" "base + ?n * 4096 + 4096 \<le> K_USER_LIMIT"
    and l: "as_map_loop ?root base ?n (user_flags rwx) 0 s = (0, d, s1)"
    and s': "s' = space_upd i (\<lambda>a. a\<lparr>as_next := base + ?n * 4096 + 4096, as_pages := add32 (as_pages a) ?n\<rparr>) s1"
    using assms(3) by (elim as_alloc_SomeE)
  obtain T' F where E: "ext T s T' s1" "inj_on F {0..<?n}"
    and F: "\<And>j. j < ?n \<Longrightarrow> F j mod 4096 = 0 \<and> F j < 2 ^ 52 \<and> F j div 4096 \<notin> owned_set (vm_pmm s) \<and>
      mapped True s1 ?root (base + j * 4096) (word_of_nat (F j) OR user_flags rwx OR PAGE_PRESENT)"
    using as_map_loop_maps[OF assms(1,2) l] user_flags_bits(1)[of rwx] by auto
  note w = ext_wf[OF E(1)] and r = ext_mono[OF E(1) assms(2)]
  have "F j div 4096 \<notin> owned_set (vm_pmm s) \<and>
       (\<exists>fl. x86_64_vmm_translate ?root (base + j * 4096) s' = Inr (F j, fl) \<and>
          has fl PAGE_USER \<and> (has fl PAGE_RW \<longleftrightarrow> rwx AND RIEF_REGION_W \<noteq> 0) \<and>
          (has fl PAGE_NX \<longleftrightarrow> rwx AND RIEF_REGION_X = 0) \<and> \<not> (has fl PAGE_RW \<and> \<not> has fl PAGE_NX))"
    if j: "j < ?n" for j
  proof -
    note Fj = F[OF j]
    note U = user_leaf[of "F j" rwx]
    have "base + j * 4096 < 2 ^ 47" using g(3) j by (simp add: K_USER_LIMIT_def)
    then have "canonical (base + j * 4096)" by (simp add: canonical_def)
    moreover have "(base + j * 4096) mod 4096 = 0" using g(2) by (simp add: mod_add_eq[symmetric])
    ultimately obtain fl where "x86_64_vmm_translate ?root (base + j * 4096) s' = Inr (F j, fl)"
      "has fl PAGE_USER" "has fl PAGE_RW \<longleftrightarrow> rwx AND RIEF_REGION_W \<noteq> 0" "has fl PAGE_NX \<longleftrightarrow> rwx AND RIEF_REGION_X = 0"
      using mapped_translate[of T' s' ?root True "base + j * 4096" "word_of_nat (F j) OR user_flags rwx OR PAGE_PRESENT"]
        w r Fj U unfolding s' by auto
    then show ?thesis using Fj rwx_ok_exclusive[OF g(1)] by blast
  qed
  moreover have "wf T' s'" "T \<subseteq>\<^sub>m T'" "inj_on F {..<?n}"
    using w E unfolding s' ext_def by (simp_all add: lessThan_atLeast0)
  moreover have "mapped u s' q v e" if "T q = Some 4" "mapped u s q v e" for q u v e
    using mapped_ext[OF that(2) assms(1) that(1) E(1)] unfolding s' by simp
  ultimately show ?thesis by blast
qed

section \<open>Checking user memory\<close>

lemma walk_kept:
  assumes w: "wf T s" and k: "walks T s s'"
  shows "T t = Some l \<Longrightarrow> l \<le> 4 \<Longrightarrow>
    translate_walk l t v allow nx s = Inr y \<Longrightarrow> translate_walk l t v allow nx s' = Inr y"
proof (induction l arbitrary: t allow nx)
  case (Suc l)
  let ?e = "ld s t (pt_index (Suc l) v)"
  have p: "has ?e PAGE_PRESENT" using Suc.prems(3) by (auto simp: Let_def split: if_splits)
  have e: "ld s' t (pt_index (Suc l) v) = ?e" using k p Suc.prems(1) unfolding walks_def by simp
  show ?case
  proof (cases "l = 0 \<or> ((l = 1 \<or> l = 2) \<and> has ?e PAGE_LARGE)")
    case True
    then show ?thesis using Suc.prems(3) p by (simp add: e Let_def)
  next
    case False
    then have "l = 1 \<or> l = 2 \<or> l = 3" using Suc.prems(2) by auto
    then have "link ?e" "1 \<le> l" using p False wfD(7)[OF w Suc.prems(1)] by (auto simp: link_def)
    then have T: "T (phys ?e) = Some l" using wfD(4)[OF w Suc.prems(1)] by simp
    have "translate_walk l (phys ?e) v (allow AND ?e) (nx OR (?e AND PAGE_NX)) s = Inr y"
      using Suc.prems(3) p False by (auto simp: Let_def split: if_splits)
    then have "translate_walk l (phys ?e) v (allow AND ?e) (nx OR (?e AND PAGE_NX)) s' = Inr y"
      using Suc.IH[OF T] Suc.prems(2) by simp
    then show ?thesis using p False by (auto simp: e Let_def)
  qed
qed simp

lemma translate_kept:
  assumes "wf T s" "walks T s s'" "T r = Some 4" "x86_64_vmm_translate r v s = Inr y"
  shows "x86_64_vmm_translate r v s' = Inr y"
  using assms(4) walk_kept[OF assms(1,2,3)] by (auto simp: x86_64_vmm_translate_def split: if_splits)

lemma leaf_descend_found:
  "wf T s \<Longrightarrow> T t = Some (Suc l) \<Longrightarrow> leaf_descend (rev [2..<Suc (Suc l)]) t v False s = (r, s') \<Longrightarrow>
   s' = s \<and> (\<forall>t'. r = Inr t' \<longrightarrow> T t' = Some 1) \<and> (\<forall>e. r = Inl e \<longrightarrow> e \<noteq> 0)"
proof (induction l arbitrary: t)
  case 0
  then show ?case by auto
next
  case (Suc l)
  let ?e = "ld s t (pt_index (Suc (Suc l)) v)"
  have ls: "rev [2..<Suc (Suc (Suc l))] = Suc (Suc l) # rev [2..<Suc (Suc l)]" by simp
  show ?case
  proof (cases "link ?e")
    case False
    then show ?thesis using Suc.prems(3) unfolding ls by (auto simp: link_def)
  next
    case True
    have "x86_64_pt_child t (pt_index (Suc (Suc l)) v) (Suc (Suc l)) True s =
        (if has ?e PAGE_USER then Inr (phys ?e) else Inl K_EPERM, s)"
      using True by (simp add: x86_64_pt_child_def link_def)
    moreover have "T (phys ?e) = Some (Suc l)" by (rule wfD(4)[OF Suc.prems(1,2) _ _ True]) simp_all
    ultimately show ?thesis using Suc.prems(3) Suc.IH[OF Suc.prems(1)] True unfolding ls
      by (auto simp: link_def split: if_splits)
  qed
qed

lemma demand_fault_keeps:
  assumes w: "wf T s" "T (as_root (vm_spaces s i)) = Some 4" and d: "x86_64_demand_fault i a err s = (r, s')"
  shows "wf T s' \<and> walks T s s'"
proof -
  obtain x s1 where x: "leaf_for i a 1 False s = (x, s1)" by fastforce
  have ls: "[4, 3, 2] = rev [2..<Suc (Suc 3)]" by (simp add: upt_rec)
  have L: "s1 = s" "\<And>t. x = Inr t \<Longrightarrow> T t = Some 1"
    using leaf_descend_found[OF w(1), of _ 3] w(2) x unfolding leaf_for_def ls by auto
  obtain p s2 where p: "vm_alloc s = (p, s2)" by fastforce
  have A: "wf T s2" "walks T s s2"
  proof -
    show "wf T s2" by (rule ext_wf[OF vm_alloc_ext[OF w(1) p]])
    show "walks T s s2"
    proof (cases "p = 0")
      case True
      then show ?thesis using vm_allocD(2)[OF p wfD(1)[OF w(1)]] by simp
    next
      case False
      note D = vm_allocD(4)[OF p wfD(1)[OF w(1)] False]
      show ?thesis unfolding walks_def
        using ld_alloc(1)[OF p wfD(1)[OF w(1)] False] wfD(2,3)[OF w(1)] D by metis
    qed
  qed
  note run = d[unfolded x86_64_demand_fault_def x L(1) prod.case Let_def p]
  show ?thesis
  proof (cases x)
    case (Inl e)
    with run w(1) show ?thesis by (auto split: if_splits)
  next
    case (Inr t)
    note t1 = L(2)[OF Inr]
    have same: "ld s2 t (pt_index 1 a) = ld s t (pt_index 1 a)" if "p \<noteq> 0"
    proof -
      have "t \<noteq> p" using wfD(3)[OF w(1) t1] vm_allocD(4)[OF p wfD(1)[OF w(1)] that] by blast
      then show ?thesis by (rule ld_alloc(1)[OF p wfD(1)[OF w(1)] that wfD(2)[OF w(1) t1] pt_index_less])
    qed
    have "wf T (st t (pt_index 1 a) e s2) \<and> walks T s (st t (pt_index 1 a) e s2)"
      if "p \<noteq> 0" "\<not> has (ld s t (pt_index 1 a)) PAGE_PRESENT" for e
      using leaf_write[OF A(1) t1, of "pt_index 1 a" e] same[OF that(1)] that(2) walks_trans[OF A(2)] by simp
    with run Inr w(1) A show ?thesis by (auto split: if_splits)
  qed
qed

lemma check_loop_sound:
  assumes "wf T s" "T (as_root (vm_spaces s i)) = Some 4" "as_check_loop i v e wr s = (0, s')"
  shows "wf T s' \<and> walks T s s' \<and>
    (\<forall>j. v + j * 4096 < e \<longrightarrow> page_allows (x86_64_vmm_translate (as_root (vm_spaces s i)) (v + j * 4096) s') wr)"
  using assms
proof (induction i v e wr s rule: as_check_loop.induct)
  case (1 i v e wr s)
  let ?r = "as_root (vm_spaces s i)"
  show ?case
  proof (cases "v < e")
    case False
    with "1.prems" show ?thesis by (simp add: as_check_loop.simps[of i v e wr s])
  next
    case True
    obtain d s1 where d: "(case x86_64_vmm_translate ?r v s of
        Inl _ \<Rightarrow> x86_64_demand_fault i v (if wr then 2 else 0) s | Inr _ \<Rightarrow> (0, s)) = (d, s1)" by fastforce
    have K: "wf T s1 \<and> walks T s s1" using d demand_fault_keeps[OF "1.prems"(1,2)] "1.prems"(1) by (auto split: sum.splits)
    have sp: "vm_spaces s1 = vm_spaces s"
      using d demand_fault_spaces by (auto simp: same_spaces_def split: sum.splits)
    note eq = as_check_loop.simps[of i v e wr s, unfolded if_P[OF True] Let_def d prod.case]
    have ok: "d = 0" "page_allows (x86_64_vmm_translate ?r v s1) wr"
      and rest: "as_check_loop i (v + 4096) e wr s1 = (0, s')"
      using "1.prems"(3) unfolding eq by (auto split: if_splits)
    have r1: "T (as_root (vm_spaces s1 i)) = Some 4" using sp "1.prems"(2) by simp
    have IH: "wf T s' \<and> walks T s1 s' \<and> (\<forall>j. v + 4096 + j * 4096 < e \<longrightarrow>
        page_allows (x86_64_vmm_translate ?r (v + 4096 + j * 4096) s') wr)"
      using "1.IH"[OF True refl d[symmetric]] ok K r1 rest sp by auto
    have here: "page_allows (x86_64_vmm_translate ?r v s') wr"
      using ok(2) translate_kept[of T s1 s' ?r v] K IH "1.prems"(2) by (auto simp: page_allows_def split: sum.splits)
    have "page_allows (x86_64_vmm_translate ?r (v + j * 4096) s') wr" if "v + j * 4096 < e" for j
      using here IH that by (cases j) (auto simp: algebra_simps)
    then show ?thesis using K IH walks_trans by blast
  qed
qed

lemma as_check_correct:
  assumes "wf T s" "T (as_root (vm_spaces s i)) = Some 4" "x86_64_as_check i a n wr s = (0, s')"
  shows "wf T s'" "walks T s s'"
    "a \<le> x \<Longrightarrow> x < a + n \<Longrightarrow> page_allows (x86_64_vmm_translate (as_root (vm_spaces s i)) (x - x mod 4096) s') wr"
    "0x10000 \<le> a" "a + n \<le> K_USER_CANON_LIMIT"
proof -
  have g: "0x10000 \<le> a" "a < K_USER_CANON_LIMIT" "n \<le> K_USER_CANON_LIMIT - a"
    using assms(3) by (auto simp: x86_64_as_check_def split: if_splits)
  then show "0x10000 \<le> a" "a + n \<le> K_USER_CANON_LIMIT" by linarith+
  have l: "n \<noteq> 0 \<Longrightarrow> as_check_loop i (a - a mod 4096) (a + n) wr s = (0, s')" "n = 0 \<Longrightarrow> s' = s"
    using assms(3) by (auto simp: x86_64_as_check_def split: if_splits)
  have "wf T s' \<and> walks T s s'"
  proof (cases "n = 0")
    case True
    then show ?thesis using l(2) assms(1) by simp
  next
    case False
    then show ?thesis using check_loop_sound[OF assms(1,2) l(1)] by blast
  qed
  then show "wf T s'" "walks T s s'" by simp_all
  assume x: "a \<le> x" "x < a + n"
  then have n: "n \<noteq> 0" by simp
  let ?v = "a - a mod 4096"
  have "x - x mod 4096 = ?v + (x div 4096 - a div 4096) * 4096"
  proof -
    have "a div 4096 \<le> x div 4096" using x(1) by (rule div_le_mono)
    then show ?thesis by (simp add: minus_mod_eq_div_mult diff_mult_distrib)
  qed
  moreover have "x - x mod 4096 < a + n" using x(2) by linarith
  ultimately show "page_allows (x86_64_vmm_translate (as_root (vm_spaces s i)) (x - x mod 4096) s') wr"
    using check_loop_sound[OF assms(1,2) l(1)[OF n]] by metis
qed

section \<open>Progress\<close>

text \<open>In an empty table, a page can be mapped as long as there are pages for the missing tables.\<close>

lemma st_free [simp]: "free_set (vm_pmm (st t i e s)) = free_set (vm_pmm s)"
  by (simp add: st_def free_set_def)

lemma vm_alloc_progress:
  assumes "vm_alloc s = (p, s')" "pmm_inv (vm_pmm s)" "card (free_set (vm_pmm s)) = Suc n"
  shows "p \<noteq> 0" "card (free_set (vm_pmm s')) = n"
proof -
  have al: "k_pmm_alloc_pages 1 0 (vm_pmm s) = (p, vm_pmm s')"
    using assms(1) by (auto simp: vm_alloc_def pmm_alloc_page_def split: prod.splits)
  obtain q where q: "q \<in> free_set (vm_pmm s)" using assms(3) by fastforce
  then have "q < pmm_high_page (vm_pmm s)" using assms(2) by (auto simp: pmm_inv_def)
  then show p: "p \<noteq> 0" using alloc_pages_available[OF assms(2), of 1 q] q al by simp
  note A = alloc_pages_some[OF assms(2) al p]
  have inv': "pmm_inv (vm_pmm s')" by (rule pages.alloc_invar[OF assms(2) al])
  have "free_set (vm_pmm s') = free_set (vm_pmm s) - {p div 4096}"
    using al p pmm_invD(1)[OF assms(2)] unfolding k_pmm_alloc_pages_def
    by (auto elim!: alloc_aligned_cases[OF _ assms(2)] simp: pmm_take_sets)
  then show "card (free_set (vm_pmm s')) = n" using A(3) assms(3) by simp
qed

lemma pt_child_progress:
  assumes w: "wf T s" and t: "T t = Some (Suc l)" "1 \<le> l" "i < 512" "ld s t i = 0"
    and n: "card (free_set (vm_pmm s)) = Suc n"
  obtains p T' s' where "x86_64_pt_child t i (Suc l) u s = (Inr p, s')" "wf T' s'" "T' p = Some l"
    "card (free_set (vm_pmm s')) = n" "\<And>j. j < 512 \<Longrightarrow> ld s' p j = 0"
proof -
  obtain p s1 where a: "vm_alloc s = (p, s1)" by fastforce
  note pi = wfD(1)[OF w]
  note P = vm_alloc_progress[OF a pi n] and D = vm_allocD[OF a pi]
  let ?f = "if u then PAGE_USER else 0"
  let ?e = "word_of_nat p OR PAGE_PRESENT OR PAGE_RW OR ?f"
  have p: "p mod 4096 = 0" "p < 2 ^ 52" "p \<noteq> t" using D(3,4,7)[OF P(1)] wfD(3)[OF w t(1)] by auto
  have f: "?f = 0 \<or> ?f = PAGE_USER" by simp
  have usr: "u \<Longrightarrow> has ?e PAGE_USER" unfolding has_bit by (simp add: bit_or_iff flag_bits)
  have "\<not> has 0 PAGE_PRESENT" by (simp add: has_def)
  then have c: "x86_64_pt_child t i (Suc l) u s = (Inr p, st t i ?e s1)"
    using P(1) usr link_entry(1)[OF p(1,2) f] unfolding x86_64_pt_child_def Let_def t(4) a by simp
  obtain T' where T': "ext T s T' (st t i ?e s1)" "T' p = Some l"
    using pt_child_ext[OF w t(1-3) c] by blast
  have "ld (st t i ?e s1) p j = 0" if j: "j < 512" for j
    using ld_st_other[OF wfD(2)[OF w t(1)] p(1) t(3) j, of ?e s1] p(3) ld_alloc(2)[OF a pi P(1) p(1) j refl] by simp
  then show thesis using that[OF c ext_wf[OF T'(1)] T'(2)] P(2) by simp
qed

lemma pt_descend_progress:
  "wf T s \<Longrightarrow> T t = Some (Suc l) \<Longrightarrow> (\<And>i. i < 512 \<Longrightarrow> ld s t i = 0) \<Longrightarrow> card (free_set (vm_pmm s)) = l + n \<Longrightarrow>
   \<exists>t' s'. pt_descend (rev [2..<Suc (Suc l)]) t v u s = (Inr t', s') \<and> (\<forall>i<512. ld s' t' i = 0)"
proof (induction l arbitrary: t s T)
  case 0
  then show ?case by simp
next
  case (Suc l)
  have ls: "rev [2..<Suc (Suc (Suc l))] = Suc (Suc l) # rev [2..<Suc (Suc l)]" by simp
  have n: "card (free_set (vm_pmm s)) = Suc (l + n)" using Suc.prems(4) by simp
  obtain p T' s' where c: "x86_64_pt_child t (pt_index (Suc (Suc l)) v) (Suc (Suc l)) u s = (Inr p, s')"
    "wf T' s'" "T' p = Some (Suc l)" "card (free_set (vm_pmm s')) = l + n" "\<And>j. j < 512 \<Longrightarrow> ld s' p j = 0"
    by (rule pt_child_progress[OF Suc.prems(1,2) _ _ Suc.prems(3) n, of "pt_index (Suc (Suc l)) v" u]) simp_all
  show ?case unfolding ls pt_descend.simps c(1) using Suc.IH[OF c(2,3,5,4)] by simp
qed

section \<open>Example\<close>

text \<open>Two page-table roots in cleared memory and six free pages; address space 0 has the second root.\<close>

definition ex_space_vm :: vm where
  "ex_space_vm = \<lparr>vm_pmm = ex_pmm\<lparr>page_bitmap := (\<lambda>_. 0)(32 := 0xfc), eligible_bitmap := (\<lambda>_. 0)(32 := 0xff),
       pmm_free_pages := 6, pmm_total_pages_managed := 8, pmm_high_page := 264, ram := (\<lambda>_. 0)\<rparr>,
     vm_spaces = (\<lambda>_. zero_space)(0 := zero_space\<lparr>as_used := True, as_root := 257 * 4096,
       as_next := K_USER_BASE + 0x200000\<rparr>),
     vm_kernel_pml4 = 256 * 4096, vm_smp_started = False, vm_nx = True\<rparr>"

definition ex_types :: "nat \<rightharpoonup> nat" where
  "ex_types = [256 * 4096 \<mapsto> 4, 257 * 4096 \<mapsto> 4]"

lemma ex_space_bits:
  "bit_get ((\<lambda>_. 0)(32 := 0xfc)) p \<longleftrightarrow> 258 \<le> p \<and> p < 264"
  "bit_get ((\<lambda>_. 0)(32 := 0xff)) p \<longleftrightarrow> 256 \<le> p \<and> p < 264"
proof -
  have b: "bit (0xfc::u8) k \<longleftrightarrow> 2 \<le> k \<and> k < 8" "bit (0xff::u8) k \<longleftrightarrow> k < 8" for k
  proof -
    have e: "(0xfc::u8) = push_bit 2 (mask 6)" "(0xff::u8) = mask 8"
      by (simp_all add: mask_eq_exp_minus_1 push_bit_eq_mult)
    show "bit (0xfc::u8) k \<longleftrightarrow> 2 \<le> k \<and> k < 8" "bit (0xff::u8) k \<longleftrightarrow> k < 8"
      unfolding e by (auto simp only: bit_push_bit_iff bit_mask_iff possible_bit_word) auto
  qed
  have "p div 8 = 32 \<and> 2 \<le> p mod 8 \<longleftrightarrow> 258 \<le> p \<and> p < 264" "p div 8 = 32 \<longleftrightarrow> 256 \<le> p \<and> p < 264" by presburger+
  with b[of "p mod 8"] show "bit_get ((\<lambda>_. 0)(32 := 0xfc)) p \<longleftrightarrow> 258 \<le> p \<and> p < 264"
    "bit_get ((\<lambda>_. 0)(32 := 0xff)) p \<longleftrightarrow> 256 \<le> p \<and> p < 264" by (auto simp: bit_get_def)
qed

lemma ex_space_sets:
  "free_set (vm_pmm ex_space_vm) = {258..<264}" "eligible_set (vm_pmm ex_space_vm) = {256..<264}"
  "owned_set (vm_pmm ex_space_vm) = {256..<258}"
  by (auto simp: ex_space_vm_def free_set_def eligible_set_def owned_set_def ex_space_bits)

lemma ex_space_ld [simp]: "ld ex_space_vm t i = 0"
proof -
  have "rd64 (\<lambda>_. 0) q = 0" for q by (rule bit_word_eqI) (simp add: bit_rd)
  then show ?thesis by (simp add: ld_def ex_space_vm_def)
qed

lemma ex_space_wf: "wf ex_types ex_space_vm"
proof -
  have "pmm_inv (vm_pmm ex_space_vm)"
    unfolding pmm_inv_def ex_space_sets by (auto simp: ex_space_vm_def ex_pmm_def PMM_MAX_PAGES_def)
  moreover have "\<not> link 0" by (simp add: link_def has_def)
  ultimately show ?thesis unfolding wf_def ex_space_sets by (auto simp: ex_types_def has_def split: if_splits)
qed

lemma ex_space_alloc:
  assumes rwx: "rwx_ok rwx"
  shows "\<exists>s'. x86_64_as_alloc 0 100 16 rwx ex_space_vm = (Inr (K_USER_BASE + 0x200000), s')"
proof -
  let ?s = ex_space_vm and ?f = "user_flags rwx" and ?v = "K_USER_BASE + 0x200000"
  have r: "as_root (vm_spaces ?s 0) = 257 * 4096" "vm_kernel_pml4 ?s = 256 * 4096" "vm_nx ?s"
    "as_next (vm_spaces ?s 0) = ?v" "as_pages (vm_spaces ?s 0) = 0" "as_used (vm_spaces ?s 0)"
    by (simp_all add: ex_space_vm_def zero_space_def)
  obtain p s1 where a: "vm_alloc ?s = (p, s1)" by fastforce
  note pi = wfD(1)[OF ex_space_wf]
  have p0: "p \<noteq> 0" and c1: "card (free_set (vm_pmm s1)) = 3 + 2"
    using vm_alloc_progress[OF a pi, of 5] ex_space_sets(1) by simp_all
  note D = vm_allocD[OF a pi]
  have ty: "ex_types (257 * 4096) = Some (Suc 3)" "ex_types (256 * 4096) = Some (Suc 3)" by (simp_all add: ex_types_def)
  have z: "ld s1 t i = 0" if "t = 257 * 4096 \<or> t = 256 * 4096" "i < 512" for t i
  proof -
    have "t \<noteq> p" using D(4)[OF p0] that(1) unfolding ex_space_sets by auto
    then show ?thesis using ld_alloc(1)[OF a pi p0, of t i] that by auto
  qed
  have w1: "wf ex_types s1" by (rule ext_wf[OF vm_alloc_ext[OF ex_space_wf a]])
  have ls: "[4, 3, 2] = rev [2..<Suc (Suc 3)]" by (simp add: upt_rec)
  obtain t s2 where d: "pt_descend [4, 3, 2] (257 * 4096) ?v True s1 = (Inr t, s2)" "\<forall>i<512. ld s2 t i = 0"
    using pt_descend_progress[OF w1 ty(1) _ c1, of ?v True, folded ls] z by blast
  have km: "vm_kernel_pml4 s1 = 256 * 4096" using vm_alloc_spaces[OF a] r(2) by (simp add: same_spaces_def)
  have pm: "word_of_nat p AND NOT PHYS_MASK = (0 :: u64)"
  proof -
    have e: "PHYS_MASK = push_bit 12 (mask 40)" by (simp add: PHYS_MASK_def mask_eq_exp_minus_1 push_bit_eq_mult)
    have "bit PHYS_MASK k \<longleftrightarrow> 12 \<le> k \<and> k < 52" for k
      unfolding e by (auto simp only: bit_push_bit_iff bit_mask_iff possible_bit_word) auto
    moreover have "12 \<le> k \<and> k < 52" if "bit (word_of_nat p :: u64) k" for k
      using page_low_bits[OF D(3)[OF p0], of k] page_high_bits[of p k] D(7)[OF p0] that by force
    ultimately show ?thesis by (intro bit_word_eqI) (simp add: bit_and_iff bit_not_iff_eq)
  qed
  have us: "has ?f PAGE_USER" by (rule user_flags_bits)
  have v: "canonical ?v" "?v mod 4096 = 0" "\<not> ?v < 0x10000" "\<not> K_USER_CANON_LIMIT \<le> ?v" "?v div 2 ^ 39 < 512"
    by (simp_all add: canonical_def K_USER_BASE_def K_USER_CANON_LIMIT_def)
  have kz: "\<not> has (ld s1 (256 * 4096) (?v div 2 ^ 39)) PAGE_PRESENT" using z[OF _ v(5)] by (simp add: has_def)
  have "x86_64_map_page_raw (257 * 4096) ?v p ?f False s1 =
      (0, st t (pt_index 1 ?v) (word_of_nat p OR ?f OR PAGE_PRESENT) s2)"
    unfolding x86_64_map_page_raw_def Let_def km
    using d pm D(3)[OF p0] us v kz by (simp del: pt_descend.simps)
  then obtain s3 where m: "x86_64_map_page_raw (257 * 4096) ?v p ?f False s1 = (0, s3)" by blast
  have l: "as_map_loop (257 * 4096) ?v 1 ?f 0 ?s = (0, 1, s3)"
    using p0 m unfolding as_map_loop.simps[of _ _ _ _ 0] a by (simp add: as_map_loop.simps[of _ _ _ _ "Suc 0"])
  have al: "ALIGN_UP 100 4096 = 4096" "ALIGN_UP ?v 4096 = ?v"
    using ALIGN_UP_eq[of 100 12] ALIGN_UP_eq[of ?v 12] by (simp_all add: K_USER_BASE_def)
  have ok: "rwx_ok rwx" "power2 16" "x86_64_as_valid 0 ?s"
    using r(6) rwx by (simp_all add: power2_def x86_64_as_valid_def MAX_AS_def)
  have lim: "\<not> 1 > sub32 MAX_USER_PAGES 0" "\<not> ?v \<ge> K_USER_LIMIT" "\<not> 1 * 4096 + 4096 > K_USER_LIMIT - ?v"
    "\<not> (100::nat) > MAX_USER_PAGES * 4096"
    by (simp_all add: MAX_USER_PAGES_def sub32_def K_USER_LIMIT_def K_USER_BASE_def)
  have "(4096::nat) div 4096 = 1" "(16::nat) < 4096" "\<not> (16::nat) > 0x40000000" by simp_all
  then show ?thesis
    unfolding x86_64_as_alloc_def Let_def using r al ok l lim by (simp only: if_False if_True prod.case) simp
qed

lemma ex_rw_ok: "rwx_ok (RIEF_REGION_R OR RIEF_REGION_W)" "rwx_ok (RIEF_REGION_R OR RIEF_REGION_X)"
  by (simp_all add: rwx_ok_def RIEF_REGION_R_def RIEF_REGION_W_def RIEF_REGION_X_def)

lemma ex_space_root: "as_root (vm_spaces ex_space_vm 0) = 257 * 4096" "ex_types (257 * 4096) = Some 4"
  by (simp_all add: ex_space_vm_def ex_types_def)

lemma ex_space_mapped:
  assumes "rwx_ok rwx"
  obtains s' T' frame fl where "x86_64_as_alloc 0 100 16 rwx ex_space_vm = (Inr (K_USER_BASE + 0x200000), s')"
    "wf T' s'" "T' (257 * 4096) = Some 4" "as_root (vm_spaces s' 0) = 257 * 4096" "as_used (vm_spaces s' 0)"
    "x86_64_vmm_translate (257 * 4096) (K_USER_BASE + 0x200000) s' = Inr (frame, fl)" "has fl PAGE_USER"
    "has fl PAGE_RW \<longleftrightarrow> rwx AND RIEF_REGION_W \<noteq> 0" "has fl PAGE_NX \<longleftrightarrow> rwx AND RIEF_REGION_X = 0"
proof -
  let ?v = "K_USER_BASE + 0x200000"
  obtain s' where a: "x86_64_as_alloc 0 100 16 rwx ex_space_vm = (Inr ?v, s')" using ex_space_alloc[OF assms] by blast
  have t: "ex_types (as_root (vm_spaces ex_space_vm 0)) = Some 4" by (simp add: ex_space_root ex_types_def)
  obtain T' F where T': "wf T' s'" "ex_types \<subseteq>\<^sub>m T'"
    "\<forall>j < (100 + 4095) div 4096. F j div 4096 \<notin> owned_set (vm_pmm ex_space_vm) \<and>
       (\<exists>fl. x86_64_vmm_translate (257 * 4096) (?v + j * 4096) s' = Inr (F j, fl) \<and>
          has fl PAGE_USER \<and> (has fl PAGE_RW \<longleftrightarrow> rwx AND RIEF_REGION_W \<noteq> 0) \<and>
          (has fl PAGE_NX \<longleftrightarrow> rwx AND RIEF_REGION_X = 0) \<and> \<not> (has fl PAGE_RW \<and> \<not> has fl PAGE_NX))"
    using as_alloc_correct[OF ex_space_wf t a] unfolding ex_space_root by blast
  obtain fl where fl: "x86_64_vmm_translate (257 * 4096) (?v + 0 * 4096) s' = Inr (F 0, fl)" "has fl PAGE_USER"
    "has fl PAGE_RW \<longleftrightarrow> rwx AND RIEF_REGION_W \<noteq> 0" "has fl PAGE_NX \<longleftrightarrow> rwx AND RIEF_REGION_X = 0"
    using T'(3)[rule_format, of 0] by auto
  have sp: "as_root (vm_spaces s' 0) = 257 * 4096" "as_used (vm_spaces s' 0)"
    using a by (auto elim!: as_alloc_SomeE dest!: as_map_loop_spaces simp: same_spaces_def ex_space_vm_def)
  have "T' (257 * 4096) = Some 4" using T'(2) ex_space_root(2) by (metis domI map_le_def)
  then show thesis using that[OF a T'(1) _ sp] fl by simp
qed

lemma as_check_page:
  assumes "x86_64_vmm_translate (as_root (vm_spaces s i)) v s = Inr (frame, fl)" "has fl PAGE_USER" "wr \<longrightarrow> has fl PAGE_RW"
    and "x86_64_as_valid i s" "v mod 4096 = 0" "0x10000 \<le> v" "v + 4096 \<le> K_USER_CANON_LIMIT" "0 < n" "n \<le> 4096"
  shows "x86_64_as_check i v n wr s = (0, s)"
proof -
  have e: "as_check_loop i (v + 4096) (v + n) wr s = (0, s)" using assms(9) by (simp add: as_check_loop.simps[of i "v + 4096"])
  have "page_allows (Inr (frame, fl)) wr" using assms(2,3) by (simp add: page_allows_def)
  then have "as_check_loop i v (v + n) wr s = (0, s)"
    unfolding as_check_loop.simps[of i v] Let_def using e assms(1,8) by simp
  then show ?thesis unfolding x86_64_as_check_def using assms(4-9) by simp
qed

text \<open>
  C30. User memory is mapped as asked. When \<open>x86_64_as_alloc\<close> succeeds, every page of the block
  translates to a frame of its own that nobody held before, is accessible to user mode, writable only
  if writing was requested and executable only if execution was requested, and never both; every page
  mapped before, in this or another address space, stays mapped by the same entry, and the page tables
  stay well formed.
\<close>

theorem as_alloc_maps:
  assumes "wf T s" "T (as_root (vm_spaces s i)) = Some 4"
    and "x86_64_as_alloc i n_bytes align rwx s = (Inr base, s')"
  shows "\<exists>T' F. wf T' s' \<and> T \<subseteq>\<^sub>m T' \<and> inj_on F {..<(n_bytes + 4095) div 4096} \<and>
    (\<forall>j < (n_bytes + 4095) div 4096. F j div 4096 \<notin> owned_set (vm_pmm s) \<and>
       (\<exists>fl. x86_64_vmm_translate (as_root (vm_spaces s i)) (base + j * 4096) s' = Inr (F j, fl) \<and>
          has fl PAGE_USER \<and> (has fl PAGE_RW \<longleftrightarrow> rwx AND RIEF_REGION_W \<noteq> 0) \<and>
          (has fl PAGE_NX \<longleftrightarrow> rwx AND RIEF_REGION_X = 0) \<and> \<not> (has fl PAGE_RW \<and> \<not> has fl PAGE_NX))) \<and>
    (\<forall>r u v e. T r = Some 4 \<longrightarrow> mapped u s r v e \<longrightarrow> mapped u s' r v e)"
  using assms by (rule as_alloc_correct)

theorem as_alloc_maps_witness:
  "\<exists>s' frame fl. x86_64_as_alloc 0 100 16 (RIEF_REGION_R OR RIEF_REGION_W) ex_space_vm = (Inr (K_USER_BASE + 0x200000), s') \<and>
     x86_64_vmm_translate (257 * 4096) (K_USER_BASE + 0x200000) s' = Inr (frame, fl) \<and>
     has fl PAGE_USER \<and> has fl PAGE_RW \<and> has fl PAGE_NX"
proof -
  obtain s' where a: "x86_64_as_alloc 0 100 16 (RIEF_REGION_R OR RIEF_REGION_W) ex_space_vm = (Inr (K_USER_BASE + 0x200000), s')"
    using ex_space_alloc[OF ex_rw_ok(1)] by blast
  have t: "ex_types (as_root (vm_spaces ex_space_vm 0)) = Some 4" by (simp add: ex_space_root ex_types_def)
  have w: "(RIEF_REGION_R OR RIEF_REGION_W) AND RIEF_REGION_W \<noteq> 0" by (simp add: RIEF_REGION_R_def RIEF_REGION_W_def)
  show ?thesis
    using as_alloc_maps[OF ex_space_wf t a] w a unfolding ex_space_root by (elim exE conjE) (force dest: spec[of _ 0])
qed

text \<open>
  C2. User memory is never touched unchecked. When \<open>x86_64_as_check\<close> accepts a range, the range lies in
  the user half above the null pages, and every byte of it is in a page that now translates with user
  access, and with write access if writing was asked for; lazily reserved pages were filled in on the
  way, every translation that existed before still holds, in every address space, and the page tables
  stay well formed.
\<close>

theorem as_check_sound:
  assumes "wf T s" "T (as_root (vm_spaces s i)) = Some 4" "x86_64_as_check i a n wr s = (0, s')"
  shows "wf T s' \<and> 0x10000 \<le> a \<and> a + n \<le> K_USER_CANON_LIMIT \<and>
    (\<forall>x. a \<le> x \<longrightarrow> x < a + n \<longrightarrow>
       (\<exists>frame fl. x86_64_vmm_translate (as_root (vm_spaces s i)) (x - x mod 4096) s' = Inr (frame, fl) \<and>
          has fl PAGE_USER \<and> (wr \<longrightarrow> has fl PAGE_RW))) \<and>
    (\<forall>r v y. T r = Some 4 \<longrightarrow> x86_64_vmm_translate r v s = Inr y \<longrightarrow> x86_64_vmm_translate r v s' = Inr y)"
proof -
  note C = as_check_correct[OF assms]
  have "\<exists>frame fl. x86_64_vmm_translate (as_root (vm_spaces s i)) (x - x mod 4096) s' = Inr (frame, fl) \<and>
      has fl PAGE_USER \<and> (wr \<longrightarrow> has fl PAGE_RW)" if "a \<le> x" "x < a + n" for x
    using C(3)[OF that] by (auto simp: page_allows_def split: sum.splits)
  then show ?thesis using C(1,4,5) translate_kept[OF assms(1) C(2)] by blast
qed

theorem as_check_sound_witness:
  "\<exists>s' s'' frame fl. x86_64_as_alloc 0 100 16 (RIEF_REGION_R OR RIEF_REGION_W) ex_space_vm = (Inr (K_USER_BASE + 0x200000), s') \<and>
     x86_64_as_check 0 (K_USER_BASE + 0x200000) 8 True s' = (0, s'') \<and>
     x86_64_vmm_translate (257 * 4096) (K_USER_BASE + 0x200000) s'' = Inr (frame, fl) \<and> has fl PAGE_USER \<and> has fl PAGE_RW"
proof -
  let ?v = "K_USER_BASE + 0x200000" and ?rw = "RIEF_REGION_R OR RIEF_REGION_W"
  have w: "?rw AND RIEF_REGION_W \<noteq> 0" by (simp add: RIEF_REGION_R_def RIEF_REGION_W_def)
  obtain s' T' frame fl where m: "x86_64_as_alloc 0 100 16 ?rw ex_space_vm = (Inr ?v, s')" "wf T' s'"
    "T' (257 * 4096) = Some 4" and sp: "as_root (vm_spaces s' 0) = 257 * 4096" "as_used (vm_spaces s' 0)"
    and t: "x86_64_vmm_translate (257 * 4096) ?v s' = Inr (frame, fl)" "has fl PAGE_USER" "has fl PAGE_RW"
    using w ex_space_mapped[OF ex_rw_ok(1)] by metis
  have c: "x86_64_as_check 0 ?v 8 True s' = (0, s')"
    using t sp by (intro as_check_page[of s' 0 ?v frame fl])
      (simp_all add: x86_64_as_valid_def MAX_AS_def K_USER_BASE_def K_USER_CANON_LIMIT_def)
  have "T' (as_root (vm_spaces s' 0)) = Some 4" using m(3) sp(1) by simp
  then show ?thesis using as_check_sound[OF m(2) _ c] m(1) c t unfolding sp by blast
qed

end
