(* ===== verification/Kern.thy ===== *)
theory Kern
  imports Mmu
begin

text \<open>
  The kernel state of \<open>include/kernel_internal.h\<close> shared by the scheduler, the synchronisation
  objects, IPC and the process manager. Pointers to tasks, processes and address spaces are indices
  into their tables; a null pointer is \<open>None\<close>. A wait object is an address (0 for none). The CPU a
  function runs on is its first argument. Functions that hold \<open>sched_lock\<close> throughout are one step
  of the state; the hardware effects of \<open>arch_wake_cpu\<close> and \<open>arch_timer_arm\<close> (an interrupt and the
  timer) are outside this state. 32- and 64-bit counters that can wrap use \<open>add32\<close> and \<open>add64\<close>.
\<close>

section \<open>Data\<close>

datatype k_task_state =
  K_TASK_UNUSED | K_TASK_READY | K_TASK_RUNNING | K_TASK_SLEEPING | K_TASK_BLOCKED | K_TASK_ZOMBIE
  | K_TASK_STOPPED

definition K_MAX_TASKS :: nat where "K_MAX_TASKS = 128"
definition MAX_PROCESSES :: nat where "MAX_PROCESSES = 64"
definition STACK_PAGES :: nat where "STACK_PAGES = 32"
definition MAIL_DEPTH :: nat where "MAIL_DEPTH = 16"
definition K_IPC_BYTES :: nat where "K_IPC_BYTES = 128"
definition MAX_SERVICES :: nat where "MAX_SERVICES = 32"

record k_message =
  msg_sender :: nat
  msg_size :: nat
  msg_bytes :: bytes

text \<open>The saved registers at a frame pointer; \<open>f_regs\<close> are the general registers.\<close>

record irq_frame =
  f_rip :: nat
  f_cs :: nat
  f_rflags :: nat
  f_rsp :: nat
  f_ss :: nat
  f_regs :: "nat \<Rightarrow> nat"

record task =
  t_id :: nat
  t_cpu :: nat
  t_state :: k_task_state
  t_weight :: nat
  t_name :: string
  t_frame :: nat
  t_stack :: nat
  t_stack_top :: nat
  t_vruntime :: nat
  t_runtime :: nat
  t_switches :: nat
  t_wake :: nat
  t_entry :: nat
  t_arg :: nat
  t_process :: "nat option"
  t_wait_object :: nat
  t_exit_code :: int
  t_preempt_depth :: nat
  t_mail_head :: nat
  t_mail_count :: nat
  t_idle :: bool
  t_tls_base :: nat
  t_control_request :: nat
  t_mail :: "nat \<Rightarrow> k_message"

record cpu_state =
  c_stack_owner :: "nat option"
  c_current :: "nat option"
  c_online :: bool
  c_switches :: nat
  c_fair_floor :: nat
  c_idle_ticks :: nat
  c_slice :: nat
  c_work_pending :: bool
  c_idle :: "nat option"
  c_kernel_stack :: nat
  c_fs_base :: nat
  c_cr3 :: nat

text \<open>An open file of the virtual file system (\<open>k_file\<close>).\<close>

record k_file =
  fl_kind :: nat
  fl_object :: nat
  fl_cluster :: nat
  fl_attributes :: u32
  fl_size :: nat
  fl_directory_offset :: nat

record k_process =
  p_used :: bool
  p_loaded :: bool
  p_parent :: nat
  p_execution_class :: nat
  p_uuid :: bytes
  p_tls :: nat
  p_arguments :: string
  p_id :: nat
  p_task_id :: nat
  p_state :: k_task_state
  p_fault_vector :: nat
  p_exit_code :: int
  p_fault_address :: nat
  p_fault_ip :: nat
  p_entry :: nat
  p_user_stack :: nat
  p_name :: string
  p_as :: "nat option"
  p_region_base :: "nat \<Rightarrow> nat"
  p_region_size :: "nat \<Rightarrow> nat"
  p_region_count :: nat
  p_export_count :: nat
  p_exports :: "nat \<Rightarrow> string \<times> nat"
  p_grants :: "nat \<Rightarrow> nat"
  p_grant_count :: nat
  p_files :: "nat \<Rightarrow> k_file"
  p_fd_used :: "nat \<Rightarrow> bool"
  p_fd_flags :: "nat \<Rightarrow> u32"
  p_fd_offset :: "nat \<Rightarrow> nat"

record service =
  sv_name :: string
  sv_pid :: nat
  sv_task :: nat

record k_partition_info =
  pt_id :: nat
  pt_disk :: nat
  pt_number :: nat
  pt_sector_size :: nat
  pt_start :: nat
  pt_sectors :: nat
  pt_read_only :: nat
  pt_mounted :: nat
  pt_owner_pid :: nat
  pt_failed :: nat

record kernel =
  k_cpus :: "nat \<Rightarrow> cpu_state"
  k_tasks :: "nat \<Rightarrow> task"
  k_scheduler_ready :: bool
  k_interrupts_ready :: bool
  k_next_task_id :: nat
  k_now :: nat
  k_timer_hz :: nat
  k_discovered_cpus :: nat
  k_processes :: "nat \<Rightarrow> k_process"
  k_next_process_id :: nat
  k_mutexes :: "nat \<Rightarrow> nat"
  k_semaphores :: "nat \<Rightarrow> nat"
  k_frames :: "nat \<Rightarrow> irq_frame"
  k_bootstrap_ip :: nat
  k_vm :: vm
  k_services :: "nat \<Rightarrow> service"
  k_partitions :: "nat \<Rightarrow> k_partition_info"
  k_partition_count :: nat
  k_input_owner :: nat


text \<open>Zeroed structures (\<open>mem_zero(t, sizeof(*t))\<close>).\<close>

definition zero_message :: k_message where
  "zero_message = \<lparr>msg_sender = 0, msg_size = 0, msg_bytes = (\<lambda>_. 0)\<rparr>"

definition zero_frame :: irq_frame where
  "zero_frame = \<lparr>f_rip = 0, f_cs = 0, f_rflags = 0, f_rsp = 0, f_ss = 0, f_regs = (\<lambda>_. 0)\<rparr>"

definition zero_task :: task where
  "zero_task = \<lparr>t_id = 0, t_cpu = 0, t_state = K_TASK_UNUSED, t_weight = 0, t_name = [], t_frame = 0,
     t_stack = 0, t_stack_top = 0, t_vruntime = 0, t_runtime = 0, t_switches = 0, t_wake = 0,
     t_entry = 0, t_arg = 0, t_process = None, t_wait_object = 0, t_exit_code = 0,
     t_preempt_depth = 0, t_mail_head = 0, t_mail_count = 0, t_idle = False, t_tls_base = 0,
     t_control_request = 0, t_mail = (\<lambda>_. zero_message)\<rparr>"

definition zero_file :: k_file where
  "zero_file = \<lparr>fl_kind = 0, fl_object = 0, fl_cluster = 0, fl_attributes = 0, fl_size = 0,
     fl_directory_offset = 0\<rparr>"

definition zero_process :: k_process where
  "zero_process = \<lparr>p_used = False, p_loaded = False, p_parent = 0, p_execution_class = 0,
     p_uuid = (\<lambda>_. 0), p_tls = 0, p_arguments = [], p_id = 0, p_task_id = 0, p_state = K_TASK_UNUSED,
     p_fault_vector = 0, p_exit_code = 0, p_fault_address = 0, p_fault_ip = 0, p_entry = 0,
     p_user_stack = 0, p_name = [], p_as = None, p_region_base = (\<lambda>_. 0), p_region_size = (\<lambda>_. 0),
     p_region_count = 0, p_export_count = 0, p_exports = (\<lambda>_. ([], 0)), p_grants = (\<lambda>_. 0),
     p_grant_count = 0, p_files = (\<lambda>_. zero_file), p_fd_used = (\<lambda>_. False), p_fd_flags = (\<lambda>_. 0),
     p_fd_offset = (\<lambda>_. 0)\<rparr>"

definition zero_service :: service where
  "zero_service = \<lparr>sv_name = [], sv_pid = 0, sv_task = 0\<rparr>"

text \<open>Updates of one table entry: \<open>t->field = v\<close>.\<close>

definition task_upd :: "nat \<Rightarrow> (task \<Rightarrow> task) \<Rightarrow> kernel \<Rightarrow> kernel" where
  "task_upd i f k = k\<lparr>k_tasks := (k_tasks k)(i := f (k_tasks k i))\<rparr>"

definition cpu_upd :: "nat \<Rightarrow> (cpu_state \<Rightarrow> cpu_state) \<Rightarrow> kernel \<Rightarrow> kernel" where
  "cpu_upd c f k = k\<lparr>k_cpus := (k_cpus k)(c := f (k_cpus k c))\<rparr>"

definition proc_upd :: "nat \<Rightarrow> (k_process \<Rightarrow> k_process) \<Rightarrow> kernel \<Rightarrow> kernel" where
  "proc_upd i f k = k\<lparr>k_processes := (k_processes k)(i := f (k_processes k i))\<rparr>"

definition vm_upd :: "(vm \<Rightarrow> vm) \<Rightarrow> kernel \<Rightarrow> kernel" where
  "vm_upd f k = k\<lparr>k_vm := f (k_vm k)\<rparr>"

text \<open>\<open>if (t->process) t->process->state = s\<close>\<close>

definition proc_state :: "nat option \<Rightarrow> k_task_state \<Rightarrow> kernel \<Rightarrow> kernel" where
  "proc_state po s k = (case po of None \<Rightarrow> k | Some p \<Rightarrow> proc_upd p (\<lambda>p. p\<lparr>p_state := s\<rparr>) k)"

lemma task_upd_frame [frame_simps, simp]:
  "k_cpus (task_upd i f k) = k_cpus k" "k_processes (task_upd i f k) = k_processes k"
  "k_vm (task_upd i f k) = k_vm k" "k_tasks (task_upd i f k) = (k_tasks k)(i := f (k_tasks k i))"
  "k_next_task_id (task_upd i f k) = k_next_task_id k" "k_now (task_upd i f k) = k_now k"
  "k_mutexes (task_upd i f k) = k_mutexes k" "k_semaphores (task_upd i f k) = k_semaphores k"
  "k_discovered_cpus (task_upd i f k) = k_discovered_cpus k" "k_services (task_upd i f k) = k_services k"
  "k_next_process_id (task_upd i f k) = k_next_process_id k"
  by (simp_all add: task_upd_def)

lemma cpu_upd_frame [frame_simps, simp]:
  "k_cpus (cpu_upd c g k) = (k_cpus k)(c := g (k_cpus k c))" "k_processes (cpu_upd c g k) = k_processes k"
  "k_vm (cpu_upd c g k) = k_vm k" "k_tasks (cpu_upd c g k) = k_tasks k"
  "k_next_task_id (cpu_upd c g k) = k_next_task_id k" "k_now (cpu_upd c g k) = k_now k"
  "k_mutexes (cpu_upd c g k) = k_mutexes k" "k_semaphores (cpu_upd c g k) = k_semaphores k"
  "k_discovered_cpus (cpu_upd c g k) = k_discovered_cpus k" "k_services (cpu_upd c g k) = k_services k"
  "k_next_process_id (cpu_upd c g k) = k_next_process_id k"
  by (simp_all add: cpu_upd_def)

lemma proc_upd_frame [frame_simps, simp]:
  "k_cpus (proc_upd i h k) = k_cpus k" "k_processes (proc_upd i h k) = (k_processes k)(i := h (k_processes k i))"
  "k_vm (proc_upd i h k) = k_vm k" "k_tasks (proc_upd i h k) = k_tasks k"
  "k_next_task_id (proc_upd i h k) = k_next_task_id k" "k_now (proc_upd i h k) = k_now k"
  "k_mutexes (proc_upd i h k) = k_mutexes k" "k_semaphores (proc_upd i h k) = k_semaphores k"
  "k_discovered_cpus (proc_upd i h k) = k_discovered_cpus k" "k_services (proc_upd i h k) = k_services k"
  "k_next_process_id (proc_upd i h k) = k_next_process_id k"
  by (simp_all add: proc_upd_def)

lemma proc_state_frame [frame_simps, simp]:
  "k_cpus (proc_state po s k) = k_cpus k" "k_tasks (proc_state po s k) = k_tasks k"
  "k_vm (proc_state po s k) = k_vm k" "k_next_task_id (proc_state po s k) = k_next_task_id k"
  "k_now (proc_state po s k) = k_now k" "k_mutexes (proc_state po s k) = k_mutexes k"
  "k_semaphores (proc_state po s k) = k_semaphores k"
  by (simp_all add: proc_state_def split: option.split)

end
