(* ===== verification/Sched.thy ===== *)
theory Sched
  imports Kern
begin

text \<open>
  Tasks and the fair scheduler of \<open>kernel/kernel.c\<close> with the context switch of \<open>arch/x86_64/cpu.c\<close>.
  The first argument of each operation is the CPU it runs on. \<open>k_ticks()\<close> is the clock reading
  \<open>k_now\<close> of the state. The FPU image of a task is not modelled.
\<close>

section \<open>Ready tasks and virtual time\<close>

definition current_task :: "nat \<Rightarrow> kernel \<Rightarrow> nat option" where
  "current_task c k = c_current (k_cpus k c)"

definition k_task_id :: "nat \<Rightarrow> kernel \<Rightarrow> nat" where
  "k_task_id c k = (case current_task c k of Some t \<Rightarrow> t_id (k_tasks k t) | None \<Rightarrow> 0)"

definition k_preempt_disable :: "nat \<Rightarrow> kernel \<Rightarrow> kernel" where
  "k_preempt_disable c k =
     (case current_task c k of None \<Rightarrow> k
      | Some t \<Rightarrow> task_upd t (\<lambda>t. t\<lparr>t_preempt_depth := add32 (t_preempt_depth t) 1\<rparr>) k)"

definition k_preempt_enable :: "nat \<Rightarrow> kernel \<Rightarrow> kernel" where
  "k_preempt_enable c k =
     (case current_task c k of None \<Rightarrow> k
      | Some t \<Rightarrow>
          if t_preempt_depth (k_tasks k t) \<noteq> 0
          then task_upd t (\<lambda>t. t\<lparr>t_preempt_depth := t_preempt_depth t - 1\<rparr>) k else k)"

definition NEVER :: nat where "NEVER = 2 ^ 64 - 1"

definition runnable :: "nat \<Rightarrow> task \<Rightarrow> bool" where
  "runnable c t \<longleftrightarrow> t_cpu t = c \<and> \<not> t_idle t \<and> (t_state t = K_TASK_READY \<or> t_state t = K_TASK_RUNNING)"

definition min_vruntime :: "nat \<Rightarrow> kernel \<Rightarrow> nat" where
  "min_vruntime c k =
     fold (\<lambda>i m. if runnable c (k_tasks k i) \<and> t_vruntime (k_tasks k i) < m
                 then t_vruntime (k_tasks k i) else m) [0..<K_MAX_TASKS] NEVER"

definition cpu_floor :: "nat \<Rightarrow> kernel \<Rightarrow> nat \<times> kernel" where
  "cpu_floor c k =
     (let m = min_vruntime c k;
          k = (if m \<noteq> NEVER \<and> m > c_fair_floor (k_cpus k c)
               then cpu_upd c (\<lambda>c. c\<lparr>c_fair_floor := m\<rparr>) k else k) in
      (c_fair_floor (k_cpus k c), k))"

definition task_ready :: "nat \<Rightarrow> kernel \<Rightarrow> kernel" where
  "task_ready i k =
     (let (floor, k) = cpu_floor (t_cpu (k_tasks k i)) k;
          k = task_upd i (\<lambda>t. t\<lparr>t_vruntime := (if t_vruntime t < floor then floor else t_vruntime t),
                t_state := K_TASK_READY, t_wait_object := 0\<rparr>) k in
      cpu_upd (t_cpu (k_tasks k i)) (\<lambda>c. c\<lparr>c_work_pending := True\<rparr>) k)"

section \<open>Creating tasks\<close>

text \<open>\<open>x86_64_task_context_init\<close>: the first frame of a task on its new stack.\<close>

definition x86_64_task_context_init :: "nat \<Rightarrow> kernel \<Rightarrow> kernel" where
  "x86_64_task_context_init i k =
     (let t = k_tasks k i; fp = (t_stack_top t - 64 - 176) div 16 * 16 in
      (task_upd i (\<lambda>t. t\<lparr>t_frame := fp\<rparr>) k)\<lparr>k_frames := (k_frames k)(fp :=
         \<lparr>f_rip = k_bootstrap_ip k, f_cs = 8, f_rflags = 0x202, f_rsp = t_stack_top t - 40, f_ss = 0x10,
          f_regs = (\<lambda>_. 0)\<rparr>)\<rparr>)"

definition x86_64_user_context_init :: "nat \<Rightarrow> nat \<Rightarrow> nat \<Rightarrow> kernel \<Rightarrow> kernel" where
  "x86_64_user_context_init i entry stack k =
     (let fp = t_frame (k_tasks k i) in
      k\<lparr>k_frames := (k_frames k)(fp := (k_frames k fp)\<lparr>f_rip := entry, f_cs := 0x23, f_rflags := 0x202,
         f_rsp := stack, f_ss := 0x1b\<rparr>)\<rparr>)"

definition x86_64_initial_user_stack :: "nat \<Rightarrow> nat" where
  "x86_64_initial_user_stack a = a - 40"

definition vm_alloc_pages :: "nat \<Rightarrow> vm \<Rightarrow> nat \<times> vm" where
  "vm_alloc_pages n s = (case k_pmm_alloc_pages n 0 (vm_pmm s) of (p, pm) \<Rightarrow> (p, s\<lparr>vm_pmm := pm\<rparr>))"

definition new_task :: "string \<Rightarrow> nat \<Rightarrow> nat \<Rightarrow> nat \<Rightarrow> nat \<Rightarrow> bool \<Rightarrow> kernel \<Rightarrow> nat option \<times> kernel" where
  "new_task name entry arg weight cpu idle k =
     (if k_next_task_id k = 0 then (None, k)
      else case find_from 0 K_MAX_TASKS (\<lambda>i. t_state (k_tasks k i) = K_TASK_UNUSED) of
        None \<Rightarrow> (None, k)
      | Some i \<Rightarrow>
          let k = task_upd i (\<lambda>_. zero_task) k; (stack, v) = vm_alloc_pages STACK_PAGES (k_vm k) in
          if stack = 0 then (None, k)
          else
            let k = k\<lparr>k_vm := v\<rparr>;
                k = task_upd i (\<lambda>t. t\<lparr>t_id := k_next_task_id k, t_cpu := cpu, t_weight := weight,
                      t_stack := stack, t_stack_top := stack + STACK_PAGES * 4096, t_entry := entry,
                      t_arg := arg, t_idle := idle\<rparr>) k;
                k = k\<lparr>k_next_task_id := add32 (k_next_task_id k) 1\<rparr>;
                k = x86_64_task_context_init i k;
                k = task_upd i (\<lambda>t. t\<lparr>t_name := str_copy (t_name t) name 32\<rparr>) k;
                (floor, k) = cpu_floor cpu k;
                k = task_upd i (\<lambda>t. t\<lparr>t_vruntime := floor, t_state := K_TASK_READY\<rparr>) k;
                k = (if idle then k else cpu_upd cpu (\<lambda>c. c\<lparr>c_work_pending := True\<rparr>) k) in
            (Some i, k))"

text \<open>\<open>idle_ip\<close> is the address of \<open>idle_entry\<close>.\<close>

definition k_scheduler_init :: "nat \<Rightarrow> kernel \<Rightarrow> int \<times> kernel" where
  "k_scheduler_init idle_ip k =
     (if \<not> k_interrupts_ready k \<or> k_scheduler_ready k then (K_EINVAL, k)
      else
        let k = task_upd 0 (\<lambda>t. t\<lparr>t_id := k_next_task_id k, t_cpu := 0, t_weight := 1024,
                  t_state := K_TASK_RUNNING, t_name := str_copy (t_name t) ''boot'' 32\<rparr>) k;
            k = k\<lparr>k_next_task_id := add32 (k_next_task_id k) 1\<rparr>;
            k = cpu_upd 0 (\<lambda>c. c\<lparr>c_current := Some 0, c_stack_owner := Some 0\<rparr>) k in
        case new_task ''idle'' idle_ip 0 1 0 True k of
          (None, k) \<Rightarrow> (K_ENOMEM, k)
        | (Some i, k) \<Rightarrow> (0, (cpu_upd 0 (\<lambda>c. c\<lparr>c_idle := Some i\<rparr>) k)\<lparr>k_scheduler_ready := True\<rparr>))"

text \<open>\<open>name\<close>, \<open>entry\<close> and the result pointer are non-null when they are given.\<close>

definition k_task_create ::
  "string option \<Rightarrow> nat \<Rightarrow> nat \<Rightarrow> nat \<Rightarrow> nat \<Rightarrow> bool \<Rightarrow> kernel \<Rightarrow> (int + nat) \<times> kernel" where
  "k_task_create name entry arg weight cpu out k =
     (if \<not> k_scheduler_ready k \<or> name = None \<or> entry = 0 \<or> \<not> out \<or> weight = 0 \<or> weight > 4096 \<or>
         cpu \<ge> k_discovered_cpus k \<or> \<not> c_online (k_cpus k cpu) then (Inl K_EINVAL, k)
      else case new_task (the name) entry arg weight cpu False k of
        (None, k) \<Rightarrow> (Inl K_ENOMEM, k)
      | (Some i, k) \<Rightarrow> (Inr (t_id (k_tasks k i)), k))"

section \<open>Scheduling\<close>

text \<open>One tick of virtual time: \<open>(1024 * 1024 + weight - 1) / weight\<close>.\<close>

definition charge :: "task \<Rightarrow> task" where
  "charge t = t\<lparr>t_vruntime := add64 (t_vruntime t) ((1024 * 1024 + t_weight t - 1) div t_weight t)\<rparr>"

definition account_old :: "nat \<Rightarrow> nat \<Rightarrow> nat \<Rightarrow> bool \<Rightarrow> kernel \<Rightarrow> kernel" where
  "account_old c old frame forced k =
     (let k = task_upd old (\<lambda>t. t\<lparr>t_frame := frame\<rparr>) k; t = k_tasks k old in
      if forced then
        if t_state t = K_TASK_RUNNING \<and> \<not> t_idle t \<and> t_preempt_depth t = 0 then task_upd old charge k else k
      else
        let k = task_upd old (\<lambda>t. t\<lparr>t_runtime := add64 (t_runtime t) 1\<rparr>) k;
            k = (if t_idle t then k else task_upd old charge k) in
        if c_slice (k_cpus k c) \<noteq> 0 then cpu_upd c (\<lambda>c. c\<lparr>c_slice := c_slice c - 1\<rparr>) k else k)"

text \<open>The scan for expired sleepers; the flag tells that some task of this CPU is still asleep.\<close>

definition wake_sleeper :: "nat \<Rightarrow> nat \<Rightarrow> bool \<times> kernel \<Rightarrow> bool \<times> kernel" where
  "wake_sleeper c i sk =
     (case sk of (sleepers, k) \<Rightarrow>
        let t = k_tasks k i in
        if t_cpu t = c \<and> t_state t = K_TASK_SLEEPING then
          if k_now k \<ge> t_wake t then (sleepers, task_ready i k) else (True, k)
        else (sleepers, k))"

definition wake_sleepers :: "nat \<Rightarrow> kernel \<Rightarrow> bool \<times> kernel" where
  "wake_sleepers c k = fold (wake_sleeper c) [0..<K_MAX_TASKS] (False, k)"

text \<open>The choice of the next task, with the weights of the ready tasks summed.\<close>

definition better :: "task \<Rightarrow> task \<Rightarrow> bool" where
  "better t b \<longleftrightarrow> t_vruntime t < t_vruntime b \<or> (t_vruntime t = t_vruntime b \<and> t_id t < t_id b)"

definition pick_step :: "nat \<Rightarrow> kernel \<Rightarrow> nat \<Rightarrow> nat option \<times> nat \<Rightarrow> nat option \<times> nat" where
  "pick_step c k i bw =
     (case bw of (best, weights) \<Rightarrow>
        let t = k_tasks k i in
        if t_cpu t \<noteq> c \<or> t_state t \<noteq> K_TASK_READY \<or> t_idle t then (best, weights)
        else
          ((case best of None \<Rightarrow> Some i
            | Some b \<Rightarrow> if better t (k_tasks k b) then Some i else Some b),
           weights + t_weight t))"

definition pick_next :: "nat \<Rightarrow> kernel \<Rightarrow> nat option \<times> nat" where
  "pick_next c k = fold (pick_step c k) [0..<K_MAX_TASKS] (None, 0)"

text \<open>The page-table root a task runs on; the process of a task always has an address space.\<close>

definition task_root :: "nat \<Rightarrow> kernel \<Rightarrow> nat" where
  "task_root i k =
     (case t_process (k_tasks k i) of
        None \<Rightarrow> vm_kernel_pml4 (k_vm k)
      | Some p \<Rightarrow> as_root (vm_spaces (k_vm k) (the (p_as (k_processes k p)))))"

definition x86_64_task_switch :: "nat \<Rightarrow> nat \<Rightarrow> nat \<Rightarrow> kernel \<Rightarrow> kernel" where
  "x86_64_task_switch c old next k =
     (let k = task_upd old (\<lambda>t. t\<lparr>t_tls_base := c_fs_base (k_cpus k c)\<rparr>) k;
          nt = k_tasks k next;
          k = cpu_upd c (\<lambda>cs. cs\<lparr>c_fs_base := t_tls_base nt, c_current := Some next,
                c_kernel_stack := t_stack_top nt\<rparr>) k in
      if task_root next k \<noteq> task_root old k
      then cpu_upd c (\<lambda>cs. cs\<lparr>c_cr3 := task_root next k\<rparr>) k else k)"

definition slice_of :: "nat \<Rightarrow> nat \<Rightarrow> nat" where
  "slice_of weight weights =
     (let slice = (if weights \<noteq> 0 then (8 * weight + weights - 1) div weights else 1); n = min slice 8 in
      if n = 0 then 1 else n)"

text \<open>The part of \<open>kernel_schedule\<close> after the current task gave up the CPU.\<close>

definition dispatch :: "nat \<Rightarrow> nat \<Rightarrow> bool \<Rightarrow> kernel \<Rightarrow> nat \<times> kernel" where
  "dispatch c old sleepers k =
     (let (pick, weights) = pick_next c k;
          best = (case pick of Some b \<Rightarrow> b | None \<Rightarrow> the (c_idle (k_cpus k c)));
          k = cpu_upd c (\<lambda>cs. cs\<lparr>c_work_pending := (\<not> t_idle (k_tasks k best) \<or> sleepers)\<rparr>) k;
          k = task_upd best (\<lambda>t. t\<lparr>t_state := K_TASK_RUNNING\<rparr>) k;
          k = proc_state (t_process (k_tasks k best)) K_TASK_RUNNING k;
          k = snd (cpu_floor c k);
          k = cpu_upd c (\<lambda>cs. cs\<lparr>c_slice := slice_of (t_weight (k_tasks k best)) weights\<rparr>) k;
          k = (if best \<noteq> old then
                 task_upd best (\<lambda>t. t\<lparr>t_switches := add64 (t_switches t) 1\<rparr>)
                   (cpu_upd c (\<lambda>cs. cs\<lparr>c_switches := add64 (c_switches cs) 1\<rparr>)
                     (x86_64_task_switch c old best k))
               else k) in
      (t_frame (k_tasks k best), k))"

definition kernel_schedule :: "nat \<Rightarrow> nat \<Rightarrow> bool \<Rightarrow> kernel \<Rightarrow> nat \<times> kernel" where
  "kernel_schedule c frame forced k =
     (case c_current (k_cpus k c) of
        None \<Rightarrow> (frame, k)
      | Some old \<Rightarrow>
          let idle_tick = \<not> forced \<and> t_idle (k_tasks k old);
              k = (if idle_tick then cpu_upd c (\<lambda>cs. cs\<lparr>c_idle_ticks := add64 (c_idle_ticks cs) 1\<rparr>) k else k) in
          if idle_tick \<and> \<not> c_work_pending (k_cpus k c)
          then (frame, task_upd old (\<lambda>t. t\<lparr>t_runtime := add64 (t_runtime t) 1\<rparr>) k)
          else
            let k = account_old c old frame forced k;
                (sleepers, k) = wake_sleepers c k;
                t = k_tasks k old in
            if t_state t = K_TASK_RUNNING \<and>
               (t_preempt_depth t \<noteq> 0 \<or> (\<not> forced \<and> c_slice (k_cpus k c) \<noteq> 0 \<and> \<not> t_idle t))
            then (frame, k)
            else
              let k = (if t_state t = K_TASK_RUNNING then
                         proc_state (t_process t) K_TASK_READY (task_upd old (\<lambda>t. t\<lparr>t_state := K_TASK_READY\<rparr>) k)
                       else k) in
              dispatch c old sleepers k)"

section \<open>Sleeping, exit and reaping\<close>

text \<open>The state change of \<open>k_sleep\<close>; the flag tells that the caller yields.\<close>

definition k_sleep :: "nat \<Rightarrow> nat \<Rightarrow> kernel \<Rightarrow> bool \<times> kernel" where
  "k_sleep c ms k =
     (if \<not> k_scheduler_ready k \<or> ms = 0 then (k_scheduler_ready k, k)
      else case current_task c k of
        None \<Rightarrow> (False, k)
      | Some t \<Rightarrow>
          if t_preempt_depth (k_tasks k t) \<noteq> 0 then (False, k)
          else
            let ms = min ms 86400000; ticks = (ms * k_timer_hz k + 999) div 1000 in
            (True, task_upd t (\<lambda>t. t\<lparr>t_wake := add64 (k_now k) ticks, t_state := K_TASK_SLEEPING\<rparr>) k))"

text \<open>\<open>None\<close> is the halt of the kernel.\<close>

definition k_task_exit :: "nat \<Rightarrow> int \<Rightarrow> kernel \<Rightarrow> kernel option" where
  "k_task_exit c code k =
     (case current_task c k of
        None \<Rightarrow> None
      | Some t \<Rightarrow>
          if t_idle (k_tasks k t) \<or> t_id (k_tasks k t) = 1 then None
          else
            let k = task_upd t (\<lambda>t. t\<lparr>t_exit_code := code, t_state := K_TASK_ZOMBIE, t_preempt_depth := 0\<rparr>) k in
            Some (case t_process (k_tasks k t) of
              None \<Rightarrow> k
            | Some p \<Rightarrow> proc_upd p (\<lambda>p. p\<lparr>p_exit_code := code, p_state := K_TASK_ZOMBIE\<rparr>) k))"

definition free_task :: "nat \<Rightarrow> kernel \<Rightarrow> kernel" where
  "free_task i k =
     (let k = (if t_stack (k_tasks k i) \<noteq> 0
               then vm_upd (vm_free (t_stack (k_tasks k i)) STACK_PAGES) k else k) in
      task_upd i (\<lambda>_. zero_task) k)"

text \<open>A CPU still runs on the task or on its stack.\<close>

definition on_cpu :: "nat \<Rightarrow> kernel \<Rightarrow> bool" where
  "on_cpu i k \<longleftrightarrow> (\<exists>c\<in>set [0..<k_discovered_cpus k].
     c_current (k_cpus k c) = Some i \<or> c_stack_owner (k_cpus k c) = Some i)"

definition k_task_reap :: "nat \<Rightarrow> kernel \<Rightarrow> (int + int) \<times> kernel" where
  "k_task_reap tid k =
     (case find_from 0 K_MAX_TASKS (\<lambda>i. t_state (k_tasks k i) \<noteq> K_TASK_UNUSED \<and> t_id (k_tasks k i) = tid) of
        None \<Rightarrow> (Inl K_ENOENT, k)
      | Some i \<Rightarrow>
          if t_state (k_tasks k i) \<noteq> K_TASK_ZOMBIE then (Inl K_EBUSY, k)
          else if on_cpu i k then (Inl K_EBUSY, k)
          else if t_process (k_tasks k i) \<noteq> None then (Inl K_EPERM, k)
          else (Inr (t_exit_code (k_tasks k i)), free_task i k))"

record k_task_info =
  ti_id :: nat
  ti_cpu :: nat
  ti_state :: k_task_state
  ti_weight :: nat
  ti_process_id :: nat
  ti_runtime_ticks :: nat
  ti_virtual_runtime :: nat
  ti_switches :: nat
  ti_exit_code :: int
  ti_name :: string

definition task_snapshot :: "nat \<Rightarrow> kernel \<Rightarrow> k_task_info" where
  "task_snapshot i k =
     (let t = k_tasks k i in
      \<lparr>ti_id = t_id t, ti_cpu = t_cpu t, ti_state = t_state t, ti_weight = t_weight t,
       ti_process_id = (case t_process t of None \<Rightarrow> 0 | Some p \<Rightarrow> p_id (k_processes k p)),
       ti_runtime_ticks = t_runtime t, ti_virtual_runtime = t_vruntime t, ti_switches = t_switches t,
       ti_exit_code = t_exit_code t, ti_name = str_copy [] (t_name t) 32\<rparr>)"

definition k_task_get :: "nat \<Rightarrow> bool \<Rightarrow> kernel \<Rightarrow> int + k_task_info" where
  "k_task_get i out k =
     (if i \<ge> K_MAX_TASKS \<or> \<not> out then Inl K_EINVAL
      else if t_state (k_tasks k i) = K_TASK_UNUSED then Inl K_ENOENT
      else Inr (task_snapshot i k))"

definition k_task_query :: "nat \<Rightarrow> bool \<Rightarrow> kernel \<Rightarrow> int + k_task_info" where
  "k_task_query tid out k =
     (if tid = 0 \<or> \<not> out then Inl K_EINVAL
      else case find_from 0 K_MAX_TASKS (\<lambda>i. t_id (k_tasks k i) = tid \<and> t_state (k_tasks k i) \<noteq> K_TASK_UNUSED) of
        None \<Rightarrow> Inl K_ENOENT
      | Some i \<Rightarrow> Inr (task_snapshot i k))"

end
