(* ===== verification/SchedInv.thy ===== *)
theory SchedInv
  imports Sched "HOL-Library.Product_Lexorder"
begin

text \<open>
  Correctness of the scheduler: a CPU runs one task at a time, it runs the ready task with the
  least virtual time, on that task's page tables, and no ready task is left behind by an idle CPU.
\<close>

section \<open>Frames\<close>

lemma cpu_floor_frame [simp]:
  "k_tasks (snd (cpu_floor c k)) = k_tasks k" "k_processes (snd (cpu_floor c k)) = k_processes k"
  "k_vm (snd (cpu_floor c k)) = k_vm k" "k_now (snd (cpu_floor c k)) = k_now k"
  "k_mutexes (snd (cpu_floor c k)) = k_mutexes k" "k_semaphores (snd (cpu_floor c k)) = k_semaphores k"
  "k_next_task_id (snd (cpu_floor c k)) = k_next_task_id k"
  "c_current (k_cpus (snd (cpu_floor c k)) d) = c_current (k_cpus k d)"
  "c_idle (k_cpus (snd (cpu_floor c k)) d) = c_idle (k_cpus k d)"
  "c_slice (k_cpus (snd (cpu_floor c k)) d) = c_slice (k_cpus k d)"
  "c_cr3 (k_cpus (snd (cpu_floor c k)) d) = c_cr3 (k_cpus k d)"
  "c_fs_base (k_cpus (snd (cpu_floor c k)) d) = c_fs_base (k_cpus k d)"
  "c_work_pending (k_cpus (snd (cpu_floor c k)) d) = c_work_pending (k_cpus k d)"
  "c_stack_owner (k_cpus (snd (cpu_floor c k)) d) = c_stack_owner (k_cpus k d)"
  "c_online (k_cpus (snd (cpu_floor c k)) d) = c_online (k_cpus k d)"
  by (auto simp: cpu_floor_def Let_def)

lemma cpu_floor_fst: "fst (cpu_floor c k) = c_fair_floor (k_cpus (snd (cpu_floor c k)) c)"
  by (simp add: cpu_floor_def Let_def)

lemma cpu_floor_mono: "c_fair_floor (k_cpus k d) \<le> c_fair_floor (k_cpus (snd (cpu_floor c k)) d)"
  by (simp add: cpu_floor_def Let_def)

lemma task_ready_tasks:
  "k_tasks (task_ready i k) = (k_tasks k)(i := (k_tasks k i)\<lparr>
     t_vruntime := max (t_vruntime (k_tasks k i)) (fst (cpu_floor (t_cpu (k_tasks k i)) k)),
     t_state := K_TASK_READY, t_wait_object := 0\<rparr>)"
  by (simp add: task_ready_def split_beta Let_def max_def)

lemma task_ready_frame [simp]:
  "k_processes (task_ready i k) = k_processes k" "k_vm (task_ready i k) = k_vm k"
  "k_now (task_ready i k) = k_now k" "k_mutexes (task_ready i k) = k_mutexes k"
  "k_semaphores (task_ready i k) = k_semaphores k" "k_next_task_id (task_ready i k) = k_next_task_id k"
  "c_current (k_cpus (task_ready i k) d) = c_current (k_cpus k d)"
  "c_idle (k_cpus (task_ready i k) d) = c_idle (k_cpus k d)"
  "c_slice (k_cpus (task_ready i k) d) = c_slice (k_cpus k d)"
  "c_cr3 (k_cpus (task_ready i k) d) = c_cr3 (k_cpus k d)"
  by (auto simp: task_ready_def split_beta Let_def)

text \<open>The parts of a task that no wake-up changes.\<close>

definition same_task :: "task \<Rightarrow> task \<Rightarrow> bool" where
  "same_task t u \<longleftrightarrow> t_id t = t_id u \<and> t_cpu t = t_cpu u \<and> t_idle t = t_idle u \<and>
     t_process t = t_process u \<and> t_frame t = t_frame u \<and> t_weight t = t_weight u \<and>
     t_preempt_depth t = t_preempt_depth u \<and> t_stack t = t_stack u \<and> t_wake t = t_wake u"

lemma same_task_refl [simp]: "same_task t t" by (simp add: same_task_def)

lemma same_task_trans: "same_task t u \<Longrightarrow> same_task u w \<Longrightarrow> same_task t w"
  by (simp add: same_task_def)

section \<open>The sleeper scan\<close>

text \<open>What a scan over some task indices does.\<close>

definition woken :: "nat \<Rightarrow> kernel \<Rightarrow> nat set \<Rightarrow> kernel \<Rightarrow> bool" where
  "woken c k I k' \<longleftrightarrow>
     k_now k' = k_now k \<and> k_processes k' = k_processes k \<and> k_vm k' = k_vm k \<and>
     (\<forall>d. c_current (k_cpus k' d) = c_current (k_cpus k d) \<and> c_idle (k_cpus k' d) = c_idle (k_cpus k d) \<and>
          c_cr3 (k_cpus k' d) = c_cr3 (k_cpus k d) \<and> c_slice (k_cpus k' d) = c_slice (k_cpus k d)) \<and>
     (\<forall>i. same_task (k_tasks k' i) (k_tasks k i)) \<and>
     (\<forall>i. (if i \<in> I \<and> t_cpu (k_tasks k i) = c \<and> t_state (k_tasks k i) = K_TASK_SLEEPING \<and>
              k_now k \<ge> t_wake (k_tasks k i)
           then t_state (k_tasks k' i) = K_TASK_READY
           else k_tasks k' i = k_tasks k i))"

lemma woken_refl: "woken c k {} k"
  by (simp add: woken_def)

lemma woken_step:
  assumes "woken c k I k'" "i \<notin> I"
  shows "woken c k (insert i I) (snd (wake_sleeper c i (b, k')))"
proof -
  have i: "k_tasks k' i = k_tasks k i" "k_now k' = k_now k" using assms by (simp_all add: woken_def)
  show ?thesis
  proof (cases "t_cpu (k_tasks k i) = c \<and> t_state (k_tasks k i) = K_TASK_SLEEPING \<and> k_now k \<ge> t_wake (k_tasks k i)")
    case True
    then have "snd (wake_sleeper c i (b, k')) = task_ready i k'" by (simp add: wake_sleeper_def i)
    with True assms show ?thesis
      by (auto simp: woken_def task_ready_tasks same_task_def)
  next
    case False
    then have "snd (wake_sleeper c i (b, k')) = k'" by (auto simp: wake_sleeper_def i Let_def)
    moreover have "woken c k (insert i I) k'"
      using assms(1) False i(1) unfolding woken_def by (auto split: if_splits)
    ultimately show ?thesis by simp
  qed
qed

lemma wake_sleepers_woken: "woken c k {..<K_MAX_TASKS} (snd (wake_sleepers c k))"
proof -
  have "woken c k (set is) (snd (fold (wake_sleeper c) is (b, k)))" if "distinct is" for "is" b
    using that
  proof (induction "is" rule: rev_induct)
    case Nil
    then show ?case by (simp add: woken_refl)
  next
    case (snoc i "is")
    then have "woken c k (set is) (snd (fold (wake_sleeper c) is (b, k)))" "i \<notin> set is" by simp_all
    from woken_step[OF this] show ?case by simp (metis prod.collapse)
  qed
  from this[of "[0..<K_MAX_TASKS]"] show ?thesis by (simp add: wake_sleepers_def atLeast0LessThan)
qed

section \<open>The choice of the next task\<close>

abbreviation candidate :: "nat \<Rightarrow> kernel \<Rightarrow> nat \<Rightarrow> bool" where
  "candidate c k i \<equiv> t_cpu (k_tasks k i) = c \<and> t_state (k_tasks k i) = K_TASK_READY \<and> \<not> t_idle (k_tasks k i)"

lemma better_trans_not: "\<not> better a b \<Longrightarrow> \<not> better b d \<Longrightarrow> \<not> better a d"
  by (auto simp: better_def)

lemma better_asym: "better a b \<Longrightarrow> \<not> better b a"
  by (auto simp: better_def)

lemma better_irrefl [simp]: "\<not> better a a"
  by (simp add: better_def)

lemma pick_fold:
  "case fold (pick_step c k) is (None, 0) of
     (None, w) \<Rightarrow> (\<forall>i\<in>set is. \<not> candidate c k i) \<and> w = 0
   | (Some b, w) \<Rightarrow> b \<in> set is \<and> candidate c k b \<and>
       (\<forall>i\<in>set is. candidate c k i \<longrightarrow> \<not> better (k_tasks k i) (k_tasks k b)) \<and>
       w = (\<Sum>i\<leftarrow>is. if candidate c k i then t_weight (k_tasks k i) else 0)"
proof (induction "is" rule: rev_induct)
  case Nil
  then show ?case by simp
next
  case (snoc i "is")
  let ?t = "k_tasks k"
  let ?f = "\<lambda>i. if candidate c k i then t_weight (?t i) else 0"
  obtain best w where f: "fold (pick_step c k) is (None, 0) = (best, w)" by fastforce
  have step: "fold (pick_step c k) (is @ [i]) (None, 0) = pick_step c k i (best, w)" by (simp add: f)
  note def = pick_step_def[of c k i "(best, w)"]
  show ?case
  proof (cases best)
    case None
    with snoc f have none: "\<forall>j\<in>set is. \<not> candidate c k j" "w = 0" by simp_all
    then have "map ?f is = map (\<lambda>_. 0) is" by auto
    then have "(\<Sum>i\<leftarrow>is. ?f i) = 0" by (simp only: sum_list_0)
    with None none show ?thesis unfolding step def by (auto simp: Let_def better_def)
  next
    case (Some b)
    with snoc f have b: "b \<in> set is" "candidate c k b"
      "\<forall>i\<in>set is. candidate c k i \<longrightarrow> \<not> better (?t i) (?t b)" "w = (\<Sum>i\<leftarrow>is. ?f i)" by simp_all
    show ?thesis
    proof (cases "candidate c k i")
      case False
      with b Some show ?thesis unfolding step def by (auto simp: Let_def)
    next
      case True
      show ?thesis
      proof (cases "better (?t i) (?t b)")
        case True
        have "\<not> better (?t j) (?t i)" if "j \<in> set is" "candidate c k j" for j
          using better_trans_not[of "?t j" "?t b" "?t i"] b(3) that better_asym[OF True] by blast
        with True b Some \<open>candidate c k i\<close> show ?thesis
          unfolding step def by (auto simp: Let_def)
      next
        case False
        with b Some \<open>candidate c k i\<close> show ?thesis unfolding step def by (auto simp: Let_def)
      qed
    qed
  qed
qed

lemma pick_next_None: "pick_next c k = (None, w) \<Longrightarrow> i < K_MAX_TASKS \<Longrightarrow> \<not> candidate c k i"
  using pick_fold[of "[0..<K_MAX_TASKS]" k c] by (simp add: pick_next_def)

lemma pick_next_Some:
  assumes "pick_next c k = (Some b, w)"
  shows "b < K_MAX_TASKS" "candidate c k b"
    "i < K_MAX_TASKS \<Longrightarrow> candidate c k i \<Longrightarrow> \<not> better (k_tasks k i) (k_tasks k b)"
    "w = (\<Sum>i\<leftarrow>[0..<K_MAX_TASKS]. if candidate c k i then t_weight (k_tasks k i) else 0)"
  using pick_fold[of "[0..<K_MAX_TASKS]" k c] assms by (simp_all add: pick_next_def)


section \<open>Invariant\<close>

text \<open>
  A running task is the current task of its CPU, so a CPU runs at most one; the current task
  belongs to its CPU; the idle task of a CPU is always runnable.
\<close>

definition sched_inv :: "kernel \<Rightarrow> bool" where
  "sched_inv k \<longleftrightarrow>
     (\<forall>i. t_state (k_tasks k i) = K_TASK_RUNNING \<longrightarrow> c_current (k_cpus k (t_cpu (k_tasks k i))) = Some i) \<and>
     (\<forall>c i. c_current (k_cpus k c) = Some i \<longrightarrow> t_cpu (k_tasks k i) = c \<and>
        (t_idle (k_tasks k i) \<longrightarrow> t_state (k_tasks k i) = K_TASK_RUNNING)) \<and>
     (\<forall>c i. c_idle (k_cpus k c) = Some i \<longrightarrow> t_cpu (k_tasks k i) = c \<and> t_idle (k_tasks k i) \<and>
        (t_state (k_tasks k i) = K_TASK_READY \<or> t_state (k_tasks k i) = K_TASK_RUNNING))"

text \<open>A CPU runs on the page tables of its current task.\<close>

definition on_own_root :: "nat \<Rightarrow> kernel \<Rightarrow> bool" where
  "on_own_root c k \<longleftrightarrow> (\<forall>i. c_current (k_cpus k c) = Some i \<longrightarrow> c_cr3 (k_cpus k c) = task_root i k)"

lemma sched_invD:
  assumes "sched_inv k"
  shows "t_state (k_tasks k i) = K_TASK_RUNNING \<Longrightarrow> c_current (k_cpus k (t_cpu (k_tasks k i))) = Some i"
    "c_current (k_cpus k c) = Some i \<Longrightarrow> t_cpu (k_tasks k i) = c"
    "c_current (k_cpus k c) = Some i \<Longrightarrow> t_idle (k_tasks k i) \<Longrightarrow> t_state (k_tasks k i) = K_TASK_RUNNING"
    "c_idle (k_cpus k c) = Some i \<Longrightarrow> t_cpu (k_tasks k i) = c \<and> t_idle (k_tasks k i)"
    "c_idle (k_cpus k c) = Some i \<Longrightarrow>
       t_state (k_tasks k i) = K_TASK_READY \<or> t_state (k_tasks k i) = K_TASK_RUNNING"
  using assms by (simp_all add: sched_inv_def)

text \<open>A step that keeps the shape of the CPUs and of the tasks, and starts no task.\<close>

definition same_shape :: "kernel \<Rightarrow> kernel \<Rightarrow> bool" where
  "same_shape k k' \<longleftrightarrow>
     (\<forall>d. c_current (k_cpus k' d) = c_current (k_cpus k d) \<and> c_idle (k_cpus k' d) = c_idle (k_cpus k d) \<and>
        c_cr3 (k_cpus k' d) = c_cr3 (k_cpus k d)) \<and>
     (\<forall>i. t_cpu (k_tasks k' i) = t_cpu (k_tasks k i) \<and> t_idle (k_tasks k' i) = t_idle (k_tasks k i) \<and>
        t_process (k_tasks k' i) = t_process (k_tasks k i)) \<and>
     (\<forall>i. t_state (k_tasks k' i) = K_TASK_RUNNING \<longrightarrow> t_state (k_tasks k i) = K_TASK_RUNNING) \<and>
     (\<forall>i. t_idle (k_tasks k i) \<longrightarrow> t_state (k_tasks k i) = K_TASK_READY \<or> t_state (k_tasks k i) = K_TASK_RUNNING
        \<longrightarrow> t_state (k_tasks k' i) = t_state (k_tasks k i)) \<and>
     k_vm k' = k_vm k \<and> (\<forall>p. p_as (k_processes k' p) = p_as (k_processes k p))"

lemma same_shapeD:
  assumes "same_shape k k'"
  shows "c_current (k_cpus k' d) = c_current (k_cpus k d)" "c_idle (k_cpus k' d) = c_idle (k_cpus k d)"
    "c_cr3 (k_cpus k' d) = c_cr3 (k_cpus k d)" "t_cpu (k_tasks k' i) = t_cpu (k_tasks k i)"
    "t_idle (k_tasks k' i) = t_idle (k_tasks k i)" "t_process (k_tasks k' i) = t_process (k_tasks k i)"
    "t_state (k_tasks k' i) = K_TASK_RUNNING \<Longrightarrow> t_state (k_tasks k i) = K_TASK_RUNNING"
    "t_idle (k_tasks k i) \<Longrightarrow> t_state (k_tasks k i) = K_TASK_READY \<or> t_state (k_tasks k i) = K_TASK_RUNNING
      \<Longrightarrow> t_state (k_tasks k' i) = t_state (k_tasks k i)"
    "k_vm k' = k_vm k" "p_as (k_processes k' p) = p_as (k_processes k p)"
  using assms unfolding same_shape_def by blast+

lemma same_shape_inv:
  assumes "sched_inv k" "same_shape k k'"
  shows "sched_inv k'"
proof -
  note D = same_shapeD[OF assms(2)] and I = sched_invD[OF assms(1)]
  have "t_state (k_tasks k' i) = K_TASK_RUNNING \<Longrightarrow> c_current (k_cpus k' (t_cpu (k_tasks k' i))) = Some i" for i
    using I(1)[OF D(7)] by (simp add: D(1,4))
  moreover have "c_current (k_cpus k' c) = Some i \<Longrightarrow> t_cpu (k_tasks k' i) = c \<and>
      (t_idle (k_tasks k' i) \<longrightarrow> t_state (k_tasks k' i) = K_TASK_RUNNING)" for c i
    using I(2,3)[of c i] D(8)[of i] by (simp add: D(1,4,5))
  moreover have "c_idle (k_cpus k' c) = Some i \<Longrightarrow> t_cpu (k_tasks k' i) = c \<and> t_idle (k_tasks k' i) \<and>
      (t_state (k_tasks k' i) = K_TASK_READY \<or> t_state (k_tasks k' i) = K_TASK_RUNNING)" for c i
    using I(4,5)[of c i] D(8)[of i] by (simp add: D(2,4,5))
  ultimately show ?thesis unfolding sched_inv_def by blast
qed

lemma same_shape_task_root: "same_shape k k' \<Longrightarrow> task_root i k' = task_root i k"
  using same_shapeD(6,9,10)[of k k'] by (simp add: task_root_def split: option.splits)

lemma same_shape_root: "same_shape k k' \<Longrightarrow> on_own_root c k \<Longrightarrow> on_own_root c k'"
  using same_shapeD(1,3)[of k k' c] same_shape_task_root[of k k'] by (simp add: on_own_root_def)

lemma same_shape_trans:
  assumes "same_shape k k'" "same_shape k' k''"
  shows "same_shape k k''"
proof -
  note A = same_shapeD[OF assms(1)] and B = same_shapeD[OF assms(2)]
  have "t_state (k_tasks k'' i) = K_TASK_RUNNING \<Longrightarrow> t_state (k_tasks k i) = K_TASK_RUNNING" for i
    using A(7) B(7) by blast
  moreover have "t_idle (k_tasks k i) \<Longrightarrow> t_state (k_tasks k i) = K_TASK_READY \<or> t_state (k_tasks k i) = K_TASK_RUNNING
      \<Longrightarrow> t_state (k_tasks k'' i) = t_state (k_tasks k i)" for i
    using A(8)[of i] B(8)[of i] A(5)[of i] by argo
  ultimately show ?thesis
    unfolding same_shape_def A(1-6,9,10) B(1-6,9,10) by blast
qed

lemma account_old_shape: "same_shape k (account_old c old frame forced k)"
  by (auto simp: same_shape_def account_old_def Let_def charge_def)

lemma account_old_state [simp]:
  "t_state (k_tasks (account_old c old frame forced k) i) = t_state (k_tasks k i)"
  by (auto simp: account_old_def Let_def charge_def)

lemma woken_task:
  assumes "woken c k I k'"
  shows "k_tasks k' i = k_tasks k i \<or> t_state (k_tasks k i) = K_TASK_SLEEPING \<and> t_state (k_tasks k' i) = K_TASK_READY"
    "same_task (k_tasks k' i) (k_tasks k i)"
  using assms unfolding woken_def by metis+

lemma woken_shape: "woken c k I k' \<Longrightarrow> same_shape k k'"
proof -
  assume w: "woken c k I k'"
  have "(t_state (k_tasks k' i) = K_TASK_RUNNING \<longrightarrow> t_state (k_tasks k i) = K_TASK_RUNNING) \<and>
      (t_state (k_tasks k i) = K_TASK_READY \<or> t_state (k_tasks k i) = K_TASK_RUNNING \<longrightarrow>
        t_state (k_tasks k' i) = t_state (k_tasks k i))" for i
    using woken_task(1)[OF w, of i] by auto
  moreover have "same_task (k_tasks k' i) (k_tasks k i)" for i by (rule woken_task(2)[OF w])
  moreover have "c_current (k_cpus k' d) = c_current (k_cpus k d) \<and> c_idle (k_cpus k' d) = c_idle (k_cpus k d) \<and>
      c_cr3 (k_cpus k' d) = c_cr3 (k_cpus k d)" for d using w unfolding woken_def by blast
  moreover have vm: "k_vm k' = k_vm k" "k_processes k' = k_processes k" using w unfolding woken_def by blast+
  ultimately show ?thesis unfolding same_shape_def same_task_def vm by blast
qed


section \<open>Dispatch\<close>

lemma proc_state_as [simp]: "p_as (k_processes (proc_state po s k) p) = p_as (k_processes k p)"
  by (simp add: proc_state_def split: option.split)

lemma task_root_cong:
  assumes "t_process (k_tasks k' i) = t_process (k_tasks k i)" "k_vm k' = k_vm k"
    "\<And>p. p_as (k_processes k' p) = p_as (k_processes k p)"
  shows "task_root i k' = task_root i k"
  using assms by (simp add: task_root_def split: option.split)

definition next_task :: "nat \<Rightarrow> kernel \<Rightarrow> nat" where
  "next_task c k = (case fst (pick_next c k) of Some b \<Rightarrow> b | None \<Rightarrow> the (c_idle (k_cpus k c)))"

text \<open>The context switch, and \<open>dispatch\<close> up to the switch.\<close>

lemma task_switch_tasks:
  "k_tasks (x86_64_task_switch c old n k) = (k_tasks k)(old := (k_tasks k old)\<lparr>t_tls_base := c_fs_base (k_cpus k c)\<rparr>)"
  "k_processes (x86_64_task_switch c old n k) = k_processes k" "k_vm (x86_64_task_switch c old n k) = k_vm k"
  "c_current (k_cpus (x86_64_task_switch c old n k) d) = (if d = c then Some n else c_current (k_cpus k d))"
  "c_idle (k_cpus (x86_64_task_switch c old n k) d) = c_idle (k_cpus k d)"
  "c_slice (k_cpus (x86_64_task_switch c old n k) d) = c_slice (k_cpus k d)"
  by (auto simp: x86_64_task_switch_def Let_def)

lemma task_switch_cr3:
  assumes "c_cr3 (k_cpus k c) = task_root old k"
  shows "c_cr3 (k_cpus (x86_64_task_switch c old n k) c) = task_root n k"
    "d \<noteq> c \<Longrightarrow> c_cr3 (k_cpus (x86_64_task_switch c old n k) d) = c_cr3 (k_cpus k d)"
proof -
  have root: "task_root i (cpu_upd c g (task_upd old (\<lambda>t. t\<lparr>t_tls_base := x\<rparr>) k)) = task_root i k" for i g x
    by (rule task_root_cong) simp_all
  show "c_cr3 (k_cpus (x86_64_task_switch c old n k) c) = task_root n k"
    "d \<noteq> c \<Longrightarrow> c_cr3 (k_cpus (x86_64_task_switch c old n k) d) = c_cr3 (k_cpus k d)"
    using assms by (simp_all add: x86_64_task_switch_def Let_def root)
qed

definition before_switch :: "nat \<Rightarrow> bool \<Rightarrow> kernel \<Rightarrow> kernel" where
  "before_switch c sleepers k =
     (let best = next_task c k; weights = snd (pick_next c k);
          k = cpu_upd c (\<lambda>cs. cs\<lparr>c_work_pending := (\<not> t_idle (k_tasks k best) \<or> sleepers)\<rparr>) k;
          k = task_upd best (\<lambda>t. t\<lparr>t_state := K_TASK_RUNNING\<rparr>) k;
          k = proc_state (t_process (k_tasks k best)) K_TASK_RUNNING k;
          k = snd (cpu_floor c k) in
      cpu_upd c (\<lambda>cs. cs\<lparr>c_slice := slice_of (t_weight (k_tasks k best)) weights\<rparr>) k)"

lemma before_switch_frame:
  "k_tasks (before_switch c sl k) = (k_tasks k)(next_task c k := (k_tasks k (next_task c k))\<lparr>t_state := K_TASK_RUNNING\<rparr>)"
  "c_current (k_cpus (before_switch c sl k) d) = c_current (k_cpus k d)"
  "c_idle (k_cpus (before_switch c sl k) d) = c_idle (k_cpus k d)"
  "c_cr3 (k_cpus (before_switch c sl k) d) = c_cr3 (k_cpus k d)"
  "k_vm (before_switch c sl k) = k_vm k"
  "p_as (k_processes (before_switch c sl k) p) = p_as (k_processes k p)"
  "c_slice (k_cpus (before_switch c sl k) c) =
     slice_of (t_weight (k_tasks k (next_task c k))) (snd (pick_next c k))"
  by (auto simp: before_switch_def Let_def)

lemma dispatch_eq:
  "dispatch c old sleepers k =
     (let best = next_task c k; k = before_switch c sleepers k;
          k = (if best \<noteq> old then
                 task_upd best (\<lambda>t. t\<lparr>t_switches := add64 (t_switches t) 1\<rparr>)
                   (cpu_upd c (\<lambda>cs. cs\<lparr>c_switches := add64 (c_switches cs) 1\<rparr>)
                     (x86_64_task_switch c old best k))
               else k) in
      (t_frame (k_tasks k best), k))"
  by (simp add: dispatch_def before_switch_def next_task_def split_beta Let_def)

text \<open>What a dispatch leaves: the chosen task runs, the others keep their state.\<close>

lemma dispatch_post:
  assumes "dispatch c old sl k = (f, k')" "c_current (k_cpus k c) = Some old"
  defines "n \<equiv> next_task c k"
  shows "t_state (k_tasks k' i) = (if i = n then K_TASK_RUNNING else t_state (k_tasks k i))"
    "t_cpu (k_tasks k' i) = t_cpu (k_tasks k i)" "t_idle (k_tasks k' i) = t_idle (k_tasks k i)"
    "t_vruntime (k_tasks k' i) = t_vruntime (k_tasks k i)" "t_id (k_tasks k' i) = t_id (k_tasks k i)"
    "t_process (k_tasks k' i) = t_process (k_tasks k i)" "f = t_frame (k_tasks k' n)"
    "t_frame (k_tasks k' i) = t_frame (k_tasks k i)"
    "c_current (k_cpus k' d) = (if d = c then Some n else c_current (k_cpus k d))"
    "c_idle (k_cpus k' d) = c_idle (k_cpus k d)"
    "c_slice (k_cpus k' c) = slice_of (t_weight (k_tasks k n)) (snd (pick_next c k))"
    "t_weight (k_tasks k' i) = t_weight (k_tasks k i)" "k_vm k' = k_vm k"
    "p_as (k_processes k' p) = p_as (k_processes k p)"
    "t_wake (k_tasks k' i) = t_wake (k_tasks k i)"
  using assms(1,2) unfolding n_def dispatch_eq Let_def
  by (auto simp: before_switch_frame task_switch_tasks split: if_splits)

lemma dispatch_root:
  assumes d: "dispatch c old sl k = (f, k')" "c_current (k_cpus k c) = Some old"
    and root: "\<And>e. on_own_root e k"
  shows "on_own_root e k'"
proof -
  note post = dispatch_post[OF d]
  have tr: "task_root i k' = task_root i k" for i by (rule task_root_cong) (simp_all add: post)
  have tb: "task_root i (before_switch c sl k) = task_root i k" for i
    by (rule task_root_cong) (simp_all add: before_switch_frame)
  have old: "c_cr3 (k_cpus (before_switch c sl k) c) = task_root old (before_switch c sl k)"
    using root[of c] d(2) by (simp add: before_switch_frame tb on_own_root_def)
  have "c_cr3 (k_cpus k' e) = (if e = c then task_root (next_task c k) k else c_cr3 (k_cpus k e))"
    using d(1) task_switch_cr3(1)[OF old, where n="next_task c k"]
      task_switch_cr3(2)[OF old, where d=e and n="next_task c k"] root[of c] d(2)
    unfolding dispatch_eq Let_def
    by (auto simp: before_switch_frame on_own_root_def tb split: if_splits)
  then show ?thesis using root[of e] by (simp add: on_own_root_def post tr)
qed


text \<open>
  The state in which \<open>dispatch\<close> is called: the current task of the CPU has given it up and no task
  of this CPU runs.
\<close>

definition handover :: "nat \<Rightarrow> nat \<Rightarrow> kernel \<Rightarrow> bool" where
  "handover c old k \<longleftrightarrow> c_current (k_cpus k c) = Some old \<and>
     (\<forall>i. t_state (k_tasks k i) = K_TASK_RUNNING \<longrightarrow>
        t_cpu (k_tasks k i) \<noteq> c \<and> c_current (k_cpus k (t_cpu (k_tasks k i))) = Some i) \<and>
     (\<forall>d i. d \<noteq> c \<longrightarrow> c_current (k_cpus k d) = Some i \<longrightarrow> t_cpu (k_tasks k i) = d \<and>
        (t_idle (k_tasks k i) \<longrightarrow> t_state (k_tasks k i) = K_TASK_RUNNING)) \<and>
     (\<forall>d i. c_idle (k_cpus k d) = Some i \<longrightarrow> t_cpu (k_tasks k i) = d \<and> t_idle (k_tasks k i) \<and>
        (t_state (k_tasks k i) = K_TASK_READY \<or> t_state (k_tasks k i) = K_TASK_RUNNING)) \<and>
     c_idle (k_cpus k c) \<noteq> None"

lemma handoverD:
  assumes "handover c old k"
  shows "c_current (k_cpus k c) = Some old"
    "t_state (k_tasks k i) = K_TASK_RUNNING \<Longrightarrow> t_cpu (k_tasks k i) \<noteq> c"
    "t_state (k_tasks k i) = K_TASK_RUNNING \<Longrightarrow> c_current (k_cpus k (t_cpu (k_tasks k i))) = Some i"
    "d \<noteq> c \<Longrightarrow> c_current (k_cpus k d) = Some i \<Longrightarrow> t_cpu (k_tasks k i) = d"
    "d \<noteq> c \<Longrightarrow> c_current (k_cpus k d) = Some i \<Longrightarrow> t_idle (k_tasks k i) \<Longrightarrow> t_state (k_tasks k i) = K_TASK_RUNNING"
    "c_idle (k_cpus k d) = Some i \<Longrightarrow> t_cpu (k_tasks k i) = d \<and> t_idle (k_tasks k i)"
    "c_idle (k_cpus k d) = Some i \<Longrightarrow>
       t_state (k_tasks k i) = K_TASK_READY \<or> t_state (k_tasks k i) = K_TASK_RUNNING"
    "c_idle (k_cpus k c) \<noteq> None"
  using assms unfolding handover_def by blast+

lemma next_task_cpu:
  assumes "handover c old k"
  shows "t_cpu (k_tasks k (next_task c k)) = c"
proof (cases "pick_next c k")
  case (Pair p w)
  then show ?thesis
    using pick_next_Some(2)[of c k _ w] handoverD(6)[OF assms, of c] handoverD(8)[OF assms]
    by (cases p) (auto simp: next_task_def)
qed

lemma dispatch_inv:
  assumes h: "handover c old k" and d: "dispatch c old sl k = (f, k')"
  shows "sched_inv k'"
proof -
  note post = dispatch_post[OF d handoverD(1)[OF h]] and H = handoverD[OF h]
  let ?n = "next_task c k"
  have n: "t_cpu (k_tasks k ?n) = c" by (rule next_task_cpu[OF h])
  have "c_current (k_cpus k' (t_cpu (k_tasks k' i))) = Some i" if "t_state (k_tasks k' i) = K_TASK_RUNNING" for i
    using that H(2,3)[of i] n by (auto simp: post split: if_splits)
  moreover have "t_cpu (k_tasks k' i) = e \<and> (t_idle (k_tasks k' i) \<longrightarrow> t_state (k_tasks k' i) = K_TASK_RUNNING)"
    if "c_current (k_cpus k' e) = Some i" for e i
    using that H(4,5)[of e i] n by (auto simp: post split: if_splits)
  moreover have "t_cpu (k_tasks k' i) = e \<and> t_idle (k_tasks k' i) \<and>
      (t_state (k_tasks k' i) = K_TASK_READY \<or> t_state (k_tasks k' i) = K_TASK_RUNNING)"
    if "c_idle (k_cpus k' e) = Some i" for e i
    using that H(6,7)[of e i] by (auto simp: post)
  ultimately show ?thesis unfolding sched_inv_def by blast
qed

lemma slice_of_bounds: "1 \<le> slice_of w ws \<and> slice_of w ws \<le> 8"
  by (auto simp: slice_of_def Let_def)

lemma dispatch_fair:
  assumes h: "handover c old k" and d: "dispatch c old sl k = (f, k')"
    and cur: "c_current (k_cpus k' c) = Some n" and i: "i < K_MAX_TASKS" "candidate c k' i"
  shows "\<not> t_idle (k_tasks k' n)" "\<not> better (k_tasks k' i) (k_tasks k' n)"
proof -
  note post = dispatch_post[OF d handoverD(1)[OF h]]
  have n: "n = next_task c k" using cur by (simp add: post)
  have ci: "candidate c k i" using i(2) by (simp add: post split: if_splits)
  obtain p w where pw: "pick_next c k = (p, w)" by fastforce
  from pick_next_None[of c k w i] ci i(1) pw obtain b where b: "p = Some b" by (cases p) auto
  with pw n have nb: "n = b" by (simp add: next_task_def)
  note S = pick_next_Some[OF pw[unfolded b]]
  show "\<not> t_idle (k_tasks k' n)" using S(2) by (simp add: post nb)
  show "\<not> better (k_tasks k' i) (k_tasks k' n)" using S(3)[OF i(1) ci] by (simp add: better_def post nb)
qed


section \<open>The whole of \<open>kernel_schedule\<close>\<close>

text \<open>The state after the accounting and the sleeper scan.\<close>

definition scanned :: "nat \<Rightarrow> nat \<Rightarrow> nat \<Rightarrow> bool \<Rightarrow> kernel \<Rightarrow> kernel" where
  "scanned c old frame forced k = snd (wake_sleepers c (account_old c old frame forced k))"

lemma scanned_shape: "same_shape k (scanned c old frame forced k)"
  unfolding scanned_def using account_old_shape wake_sleepers_woken[THEN woken_shape] same_shape_trans by metis

lemma scanned_awake:
  assumes "i < K_MAX_TASKS" "t_cpu (k_tasks (scanned c old frame forced k) i) = c"
    "t_state (k_tasks (scanned c old frame forced k) i) = K_TASK_SLEEPING"
  shows "k_now k < t_wake (k_tasks (scanned c old frame forced k) i)"
proof -
  let ?a = "account_old c old frame forced k"
  have w: "woken c ?a {..<K_MAX_TASKS} (scanned c old frame forced k)"
    unfolding scanned_def by (rule wake_sleepers_woken)
  have now: "k_now ?a = k_now k" by (auto simp: account_old_def Let_def)
  have "if i < K_MAX_TASKS \<and> t_cpu (k_tasks ?a i) = c \<and> t_state (k_tasks ?a i) = K_TASK_SLEEPING \<and>
        k_now ?a \<ge> t_wake (k_tasks ?a i)
      then t_state (k_tasks (scanned c old frame forced k) i) = K_TASK_READY
      else k_tasks (scanned c old frame forced k) i = k_tasks ?a i"
    using w unfolding woken_def by (metis lessThan_iff)
  with assms now show ?thesis by (auto split: if_splits)
qed

text \<open>No task of the CPU oversleeps.\<close>

definition awake :: "nat \<Rightarrow> nat \<Rightarrow> kernel \<Rightarrow> bool" where
  "awake now c k \<longleftrightarrow> (\<forall>i<K_MAX_TASKS. t_cpu (k_tasks k i) = c \<longrightarrow> t_state (k_tasks k i) = K_TASK_SLEEPING \<longrightarrow>
     now < t_wake (k_tasks k i))"

lemma give_up_handover:
  assumes inv: "sched_inv k" and cur: "c_current (k_cpus k c) = Some old" and idle: "c_idle (k_cpus k c) \<noteq> None"
  defines "g \<equiv> (if t_state (k_tasks k old) = K_TASK_RUNNING
     then proc_state (t_process (k_tasks k old)) K_TASK_READY (task_upd old (\<lambda>t. t\<lparr>t_state := K_TASK_READY\<rparr>) k)
     else k)"
  shows "handover c old g"
proof -
  note I = sched_invD[OF inv]
  have st: "t_state (k_tasks g i) = (if i = old \<and> t_state (k_tasks k old) = K_TASK_RUNNING then K_TASK_READY
      else t_state (k_tasks k i))" "t_cpu (k_tasks g i) = t_cpu (k_tasks k i)"
    "t_idle (k_tasks g i) = t_idle (k_tasks k i)" "k_cpus g = k_cpus k" for i
    by (auto simp: g_def)
  have r: "i \<noteq> old \<and> t_state (k_tasks k i) = K_TASK_RUNNING" if "t_state (k_tasks g i) = K_TASK_RUNNING" for i
    using that by (auto simp: st split: if_splits)
  have "t_cpu (k_tasks g i) \<noteq> c \<and> c_current (k_cpus g (t_cpu (k_tasks g i))) = Some i"
    if "t_state (k_tasks g i) = K_TASK_RUNNING" for i
    using r[OF that] I(1)[of i] cur by (auto simp: st)
  moreover have "t_cpu (k_tasks g i) = d \<and> (t_idle (k_tasks g i) \<longrightarrow> t_state (k_tasks g i) = K_TASK_RUNNING)"
    if "d \<noteq> c" "c_current (k_cpus g d) = Some i" for d i
    using I(2)[OF cur] I(2,3)[of d i] that by (auto simp: st)
  moreover have "t_cpu (k_tasks g i) = d \<and> t_idle (k_tasks g i) \<and>
      (t_state (k_tasks g i) = K_TASK_READY \<or> t_state (k_tasks g i) = K_TASK_RUNNING)"
    if "c_idle (k_cpus g d) = Some i" for d i
    using I(4,5)[of d i] that by (auto simp: st)
  moreover have "c_current (k_cpus g c) = Some old" "c_idle (k_cpus g c) \<noteq> None" using cur idle by (simp_all add: st)
  ultimately show ?thesis unfolding handover_def by blast
qed

text \<open>\<open>kernel_schedule\<close> with its intermediate states named.\<close>

lemma schedule_eq:
  assumes "c_current (k_cpus k c) = Some old" "it = (\<not> forced \<and> t_idle (k_tasks k old))"
    "k1 = (if it then cpu_upd c (\<lambda>cs. cs\<lparr>c_idle_ticks := add64 (c_idle_ticks cs) 1\<rparr>) k else k)"
  shows "kernel_schedule c frame forced k =
     (if it \<and> \<not> c_work_pending (k_cpus k1 c)
      then (frame, task_upd old (\<lambda>t. t\<lparr>t_runtime := add64 (t_runtime t) 1\<rparr>) k1)
      else
        let sm = wake_sleepers c (account_old c old frame forced k1); m = snd sm; t = k_tasks m old in
        if t_state t = K_TASK_RUNNING \<and>
           (t_preempt_depth t \<noteq> 0 \<or> (\<not> forced \<and> c_slice (k_cpus m c) \<noteq> 0 \<and> \<not> t_idle t))
        then (frame, m)
        else dispatch c old (fst sm) (if t_state t = K_TASK_RUNNING
          then proc_state (t_process t) K_TASK_READY (task_upd old (\<lambda>t. t\<lparr>t_state := K_TASK_READY\<rparr>) m) else m))"
  unfolding kernel_schedule_def assms option.case Let_def split_beta ..

lemma schedule_cases:
  assumes s: "kernel_schedule c frame forced k = (f, k')" and cur: "c_current (k_cpus k c) = Some old"
    and inv: "sched_inv k" and idle: "c_idle (k_cpus k c) \<noteq> None"
  obtains (tick) "\<not> forced" "f = frame" "same_shape k k'" "t_state (k_tasks k' old) = K_TASK_RUNNING"
  | (keep) "f = frame" "same_shape k k'" "t_state (k_tasks k' old) = K_TASK_RUNNING"
      "t_preempt_depth (k_tasks k old) \<noteq> 0 \<or> \<not> forced"
  | (switch) m g sl where "dispatch c old sl g = (f, k')" "handover c old g" "same_shape k m"
      "awake (k_now k) c g" "\<And>i. t_process (k_tasks g i) = t_process (k_tasks m i)" "k_vm g = k_vm m"
      "\<And>p. p_as (k_processes g p) = p_as (k_processes m p)" "k_cpus g = k_cpus m"
proof -
  define it where "it = (\<not> forced \<and> t_idle (k_tasks k old))"
  define k1 where "k1 = (if it then cpu_upd c (\<lambda>cs. cs\<lparr>c_idle_ticks := add64 (c_idle_ticks cs) 1\<rparr>) k else k)"
  have k1: "same_shape k k1" by (auto simp: same_shape_def k1_def)
  show thesis
  proof (cases "it \<and> \<not> c_work_pending (k_cpus k1 c)")
    case True
    with s cur have "(f, k') = (frame, task_upd old (\<lambda>t. t\<lparr>t_runtime := add64 (t_runtime t) 1\<rparr>) k1)"
      unfolding schedule_eq[OF cur it_def k1_def] by simp
    then have "f = frame" "k' = task_upd old (\<lambda>t. t\<lparr>t_runtime := add64 (t_runtime t) 1\<rparr>) k1" by simp_all
    moreover have "t_state (k_tasks k old) = K_TASK_RUNNING"
      using sched_invD(3)[OF inv cur] True by (simp add: it_def)
    ultimately show thesis using True by (intro tick) (auto simp: it_def k1_def same_shape_def)
  next
    case False
    define m where "m = scanned c old frame forced k1"
    obtain sl where sl: "wake_sleepers c (account_old c old frame forced k1) = (sl, m)"
      by (metis m_def prod.collapse scanned_def)
    have m: "same_shape k m" using same_shape_trans[OF k1 scanned_shape] by (simp add: m_def)
    have aw: "awake (k_now k) c m"
      using scanned_awake[of _ c old frame forced k1] unfolding awake_def m_def by (auto simp: k1_def split: if_splits)
    have depth: "t_preempt_depth (k_tasks m old) = t_preempt_depth (k_tasks k old)"
      using woken_task(2)[OF wake_sleepers_woken, of c "account_old c old frame forced k1" old] sl
      by (auto simp: same_task_def account_old_def Let_def k1_def charge_def)
    define g where "g = (if t_state (k_tasks m old) = K_TASK_RUNNING
      then proc_state (t_process (k_tasks m old)) K_TASK_READY (task_upd old (\<lambda>t. t\<lparr>t_state := K_TASK_READY\<rparr>) m) else m)"
    have res: "(f, k') = (if t_state (k_tasks m old) = K_TASK_RUNNING \<and>
        (t_preempt_depth (k_tasks m old) \<noteq> 0 \<or> (\<not> forced \<and> c_slice (k_cpus m c) \<noteq> 0 \<and> \<not> t_idle (k_tasks m old)))
        then (frame, m) else dispatch c old sl g)"
      unfolding s[symmetric] schedule_eq[OF cur it_def k1_def] if_not_P[OF False] sl Let_def fst_conv snd_conv g_def ..
    show thesis
    proof (cases "t_state (k_tasks m old) = K_TASK_RUNNING \<and>
        (t_preempt_depth (k_tasks m old) \<noteq> 0 \<or> (\<not> forced \<and> c_slice (k_cpus m c) \<noteq> 0 \<and> \<not> t_idle (k_tasks m old)))")
      case True
      with res m depth show thesis by (intro keep) auto
    next
      case False
      have d: "dispatch c old sl g = (f, k')" using res unfolding if_not_P[OF False] by (rule sym)
      have "handover c old g"
        unfolding g_def using same_shape_inv[OF inv m] same_shapeD(1,2)[OF m] cur idle
        by (intro give_up_handover) simp_all
      moreover have "awake (k_now k) c g" using aw by (auto simp: awake_def g_def)
      ultimately show thesis by (rule switch[OF d _ m]) (auto simp: g_def)
    qed
  qed
qed


text \<open>A kernel with a boot task and a ready task on CPU 0, for the examples.\<close>

definition ex_cpu :: cpu_state where
  "ex_cpu = \<lparr>c_stack_owner = None, c_current = None, c_online = False, c_switches = 0, c_fair_floor = 0,
     c_idle_ticks = 0, c_slice = 0, c_work_pending = False, c_idle = None, c_kernel_stack = 0,
     c_fs_base = 0, c_cr3 = 4096\<rparr>"

definition ex_vm :: vm where
  "ex_vm = \<lparr>vm_pmm = ex_pmm, vm_spaces = (\<lambda>_. zero_space), vm_kernel_pml4 = 4096, vm_smp_started = False,
     vm_nx = True\<rparr>"

definition ex_kernel :: kernel where
  "ex_kernel = \<lparr>k_cpus = (\<lambda>_. ex_cpu)(0 := ex_cpu\<lparr>c_current := Some 0, c_idle := Some 1, c_online := True\<rparr>),
     k_tasks = (\<lambda>_. zero_task)
       (0 := zero_task\<lparr>t_id := 1, t_state := K_TASK_RUNNING, t_weight := 1024, t_vruntime := 10\<rparr>,
        1 := zero_task\<lparr>t_id := 2, t_state := K_TASK_READY, t_weight := 1, t_idle := True\<rparr>,
        2 := zero_task\<lparr>t_id := 3, t_state := K_TASK_READY, t_weight := 512, t_vruntime := 5, t_frame := 77\<rparr>),
     k_scheduler_ready = True, k_interrupts_ready = True, k_next_task_id = 4, k_now = 0, k_timer_hz = 100,
     k_discovered_cpus = 1, k_processes = (\<lambda>_. zero_process), k_next_process_id = 1,
     k_mutexes = (\<lambda>_. 0), k_semaphores = (\<lambda>_. 0), k_frames = (\<lambda>_. zero_frame), k_bootstrap_ip = 0,
     k_vm = ex_vm, k_services = (\<lambda>_. zero_service), k_partitions = (\<lambda>_. undefined), k_partition_count = 0,
     k_input_owner = 0\<rparr>"

lemma ex_kernel_inv: "sched_inv ex_kernel" "on_own_root e ex_kernel"
  by (auto simp: sched_inv_def on_own_root_def task_root_def ex_kernel_def ex_cpu_def ex_vm_def zero_task_def)

lemma ex_kernel_current:
  "c_current (k_cpus ex_kernel 0) = Some 0" "c_idle (k_cpus ex_kernel 0) = Some 1"
  "t_preempt_depth (k_tasks ex_kernel 0) = 0"
  by (simp_all add: ex_kernel_def zero_task_def)

text \<open>
  C13. Scheduling keeps the invariant of the CPUs: afterwards the CPU has exactly one running task,
  its current one, which belongs to this CPU; every running task is the current task of its CPU; the
  idle task stays runnable; and every CPU runs on the page tables of its current task, also across a
  switch between address spaces. The returned frame is that of the task that runs.
\<close>

theorem schedule_sound:
  assumes inv: "sched_inv k" and root: "\<And>e. on_own_root e k"
    and cur: "c_current (k_cpus k c) = Some old" and idle: "c_idle (k_cpus k c) = Some d"
    and s: "kernel_schedule c frame forced k = (f, k')"
  shows "sched_inv k' \<and> (\<forall>e. on_own_root e k') \<and>
    (\<exists>n. c_current (k_cpus k' c) = Some n \<and> t_cpu (k_tasks k' n) = c \<and>
       t_state (k_tasks k' n) = K_TASK_RUNNING \<and>
       (\<forall>i. t_state (k_tasks k' i) = K_TASK_RUNNING \<and> t_cpu (k_tasks k' i) = c \<longrightarrow> i = n) \<and>
       (f = t_frame (k_tasks k' n) \<or> n = old \<and> f = frame))"
proof -
  have idle': "c_idle (k_cpus k c) \<noteq> None" using idle by simp
  have "sched_inv k' \<and> (\<forall>e. on_own_root e k') \<and>
      (\<exists>n. c_current (k_cpus k' c) = Some n \<and> t_state (k_tasks k' n) = K_TASK_RUNNING \<and>
         (f = t_frame (k_tasks k' n) \<or> n = old \<and> f = frame))"
    using s cur inv idle'
  proof (cases rule: schedule_cases)
    case tick
    with same_shape_inv[OF inv tick(3)] same_shape_root[OF tick(3) root] same_shapeD(1)[OF tick(3)] cur
    show ?thesis by auto
  next
    case keep
    with same_shape_inv[OF inv keep(2)] same_shape_root[OF keep(2) root] same_shapeD(1)[OF keep(2)] cur
    show ?thesis by auto
  next
    case (switch m g sl)
    have rg: "on_own_root e g" for e
      using same_shape_root[OF switch(3) root, of e] switch(5-8)
      by (simp add: on_own_root_def task_root_def split: option.splits)
    note post = dispatch_post[OF switch(1) handoverD(1)[OF switch(2)]]
    show ?thesis
      using dispatch_inv[OF switch(2,1)] dispatch_root[OF switch(1) handoverD(1)[OF switch(2)] rg]
        post(1)[of "next_task c g"] post(7) post(9)[of c] by auto
  qed
  then show ?thesis using sched_invD(1,2)[of k'] by (metis option.inject)
qed

theorem schedule_sound_witness:
  "sched_inv (snd (kernel_schedule 0 9 True ex_kernel)) \<and> on_own_root 0 (snd (kernel_schedule 0 9 True ex_kernel))"
  using schedule_sound[OF ex_kernel_inv ex_kernel_current(1,2), of 9 True
      "fst (kernel_schedule 0 9 True ex_kernel)" "snd (kernel_schedule 0 9 True ex_kernel)"] by simp

text \<open>
  Yielding is fair. After a forced schedule of a task that may be preempted, the task that runs
  has the least virtual time among the ready tasks of the CPU (ties broken by the smaller id); an
  idle CPU has no ready task left; no task of the CPU sleeps beyond its wake-up time; and the new
  time slice is between 1 and 8 ticks.
\<close>

theorem schedule_fair:
  assumes inv: "sched_inv k" and cur: "c_current (k_cpus k c) = Some old" and idle: "c_idle (k_cpus k c) = Some d"
    and pre: "t_preempt_depth (k_tasks k old) = 0" and s: "kernel_schedule c frame True k = (f, k')"
    and n: "c_current (k_cpus k' c) = Some n"
  shows "(\<forall>i<K_MAX_TASKS. candidate c k' i \<longrightarrow>
      \<not> t_idle (k_tasks k' n) \<and> (t_vruntime (k_tasks k' n), t_id (k_tasks k' n)) \<le>
        (t_vruntime (k_tasks k' i), t_id (k_tasks k' i))) \<and>
    (\<forall>i<K_MAX_TASKS. t_cpu (k_tasks k' i) = c \<longrightarrow> t_state (k_tasks k' i) = K_TASK_SLEEPING \<longrightarrow>
      k_now k < t_wake (k_tasks k' i)) \<and>
    1 \<le> c_slice (k_cpus k' c) \<and> c_slice (k_cpus k' c) \<le> 8"
proof -
  have "c_idle (k_cpus k c) \<noteq> None" using idle by simp
  with s cur inv show ?thesis
  proof (cases rule: schedule_cases)
    case (switch m g sl)
    note post = dispatch_post[OF switch(1) handoverD(1)[OF switch(2)]]
    have "\<not> t_idle (k_tasks k' n) \<and> (t_vruntime (k_tasks k' n), t_id (k_tasks k' n)) \<le>
        (t_vruntime (k_tasks k' i), t_id (k_tasks k' i))" if "i < K_MAX_TASKS" "candidate c k' i" for i
      using dispatch_fair[OF switch(2,1) n that] by (auto simp: better_def)
    moreover have "k_now k < t_wake (k_tasks k' i)"
      if "i < K_MAX_TASKS" "t_cpu (k_tasks k' i) = c" "t_state (k_tasks k' i) = K_TASK_SLEEPING" for i
      using switch(4) that unfolding awake_def by (auto simp: post split: if_splits)
    ultimately show ?thesis using slice_of_bounds by (simp add: post)
  qed (use pre in auto)
qed

theorem schedule_fair_witness:
  "c_current (k_cpus (snd (kernel_schedule 0 9 True ex_kernel)) 0) \<noteq> None \<and>
   1 \<le> c_slice (k_cpus (snd (kernel_schedule 0 9 True ex_kernel)) 0)"
proof -
  let ?r = "kernel_schedule 0 9 True ex_kernel"
  obtain f k' where r: "?r = (f, k')" by fastforce
  have "c_current (k_cpus k' 0) \<noteq> None"
    using r ex_kernel_current(1) ex_kernel_inv(1) ex_kernel_current(2)[THEN option.discI]
    by (cases rule: schedule_cases)
      (use ex_kernel_current in \<open>auto dest: same_shapeD(1)[where d=0] simp: dispatch_post(9) handoverD(1)\<close>)
  then obtain n where n: "c_current (k_cpus k' 0) = Some n" by blast
  from schedule_fair[OF ex_kernel_inv(1) ex_kernel_current r n] n r show ?thesis by simp
qed

end
