(* ===== verification/Sync.thy ===== *)
theory Sync
  imports SchedInv
begin

text \<open>
  Mutexes and semaphores of \<open>kernel/kernel.c\<close>. All of them work under \<open>sched_lock\<close>, so each
  operation is one step. The waiting operations are loops whose body either returns or blocks the
  calling task and yields; \<open>mutex_lock_step\<close> and \<open>sem_wait_step\<close> are one round, with \<open>None\<close> for the
  round that blocks. \<open>sync_step\<close> interleaves the operations of all CPUs with the scheduler.
\<close>

section \<open>Operations\<close>

definition wake_object :: "nat \<Rightarrow> kernel \<Rightarrow> kernel" where
  "wake_object obj k =
     fold (\<lambda>i k. if t_state (k_tasks k i) = K_TASK_BLOCKED \<and> t_wait_object (k_tasks k i) = obj
                 then task_ready i k else k) [0..<K_MAX_TASKS] k"

definition set_mutex :: "nat \<Rightarrow> nat \<Rightarrow> kernel \<Rightarrow> kernel" where
  "set_mutex m owner k = k\<lparr>k_mutexes := (k_mutexes k)(m := owner)\<rparr>"

definition set_sem :: "nat \<Rightarrow> nat \<Rightarrow> kernel \<Rightarrow> kernel" where
  "set_sem s n k = k\<lparr>k_semaphores := (k_semaphores k)(s := n)\<rparr>"

definition block_on :: "nat \<Rightarrow> nat \<Rightarrow> kernel \<Rightarrow> kernel" where
  "block_on t obj k = task_upd t (\<lambda>t. t\<lparr>t_wait_object := obj, t_state := K_TASK_BLOCKED\<rparr>) k"

definition k_mutex_trylock :: "nat \<Rightarrow> nat \<Rightarrow> kernel \<Rightarrow> int \<times> kernel" where
  "k_mutex_trylock c m k =
     (if m = 0 \<or> current_task c k = None then (K_EINVAL, k)
      else
        let me = k_task_id c k; owner = k_mutexes k m;
            e = (if owner = me then K_EDEADLK else if owner \<noteq> 0 then K_EBUSY else 0) in
        if e = 0 then (e, set_mutex m me k) else (e, k))"

definition mutex_lock_step :: "nat \<Rightarrow> nat \<Rightarrow> kernel \<Rightarrow> int option \<times> kernel" where
  "mutex_lock_step c m k =
     (if m = 0 then (Some K_EINVAL, k)
      else case current_task c k of
        None \<Rightarrow> (Some K_EINVAL, k)
      | Some t \<Rightarrow>
          if k_mutexes k m = 0 then (Some 0, set_mutex m (t_id (k_tasks k t)) k)
          else if k_mutexes k m = t_id (k_tasks k t) \<or> t_preempt_depth (k_tasks k t) \<noteq> 0 then (Some K_EDEADLK, k)
          else (None, block_on t m k))"

definition k_mutex_unlock :: "nat \<Rightarrow> nat \<Rightarrow> kernel \<Rightarrow> int \<times> kernel" where
  "k_mutex_unlock c m k =
     (if m = 0 then (K_EINVAL, k)
      else if k_mutexes k m = 0 \<or> k_mutexes k m \<noteq> k_task_id c k then (K_EPERM, k)
      else (0, wake_object m (set_mutex m 0 k)))"

definition k_sem_init :: "nat \<Rightarrow> nat \<Rightarrow> kernel \<Rightarrow> kernel" where
  "k_sem_init s n k = (if s \<noteq> 0 then set_sem s n k else k)"

definition k_sem_trywait :: "nat \<Rightarrow> kernel \<Rightarrow> int \<times> kernel" where
  "k_sem_trywait s k =
     (if s = 0 then (K_EINVAL, k)
      else if k_semaphores k s \<noteq> 0 then (0, set_sem s (k_semaphores k s - 1) k) else (K_EAGAIN, k))"

definition sem_wait_step :: "nat \<Rightarrow> nat \<Rightarrow> kernel \<Rightarrow> int option \<times> kernel" where
  "sem_wait_step c s k =
     (if s = 0 then (Some K_EINVAL, k)
      else case current_task c k of
        None \<Rightarrow> (Some K_EINVAL, k)
      | Some t \<Rightarrow>
          if k_semaphores k s \<noteq> 0 then (Some 0, set_sem s (k_semaphores k s - 1) k)
          else if t_preempt_depth (k_tasks k t) \<noteq> 0 then (Some K_EDEADLK, k)
          else (None, block_on t s k))"

definition k_sem_post :: "nat \<Rightarrow> kernel \<Rightarrow> kernel" where
  "k_sem_post s k =
     (if s = 0 then k
      else wake_object s (if k_semaphores k s \<noteq> 0xffffffff then set_sem s (k_semaphores k s + 1) k else k))"

section \<open>Interleavings\<close>

text \<open>
  One step of the system: some CPU runs an operation of its current task, or its scheduler.
  \<open>is_mutex\<close> tells which addresses hold mutexes; the others hold semaphores.
\<close>

inductive sync_step :: "(nat \<Rightarrow> bool) \<Rightarrow> kernel \<Rightarrow> kernel \<Rightarrow> bool" for is_mutex where
  trylock: "is_mutex m \<Longrightarrow> k_mutex_trylock c m k = (e, k') \<Longrightarrow> sync_step is_mutex k k'"
| lock: "is_mutex m \<Longrightarrow> mutex_lock_step c m k = (r, k') \<Longrightarrow> sync_step is_mutex k k'"
| unlock: "is_mutex m \<Longrightarrow> k_mutex_unlock c m k = (e, k') \<Longrightarrow> sync_step is_mutex k k'"
| trywait: "\<not> is_mutex s \<Longrightarrow> k_sem_trywait s k = (e, k') \<Longrightarrow> sync_step is_mutex k k'"
| wait: "\<not> is_mutex s \<Longrightarrow> sem_wait_step c s k = (r, k') \<Longrightarrow> sync_step is_mutex k k'"
| post: "\<not> is_mutex s \<Longrightarrow> k' = k_sem_post s k \<Longrightarrow> sync_step is_mutex k k'"
| schedule: "c_current (k_cpus k c) = Some old \<Longrightarrow> c_idle (k_cpus k c) \<noteq> None \<Longrightarrow>
    kernel_schedule c frame forced k = (f, k') \<Longrightarrow> sync_step is_mutex k k'"
| sleep: "k_sleep c ms k = (y, k') \<Longrightarrow> sync_step is_mutex k k'"
| preempt: "k' = k_preempt_disable c k \<or> k' = k_preempt_enable c k \<Longrightarrow> sync_step is_mutex k k'"
| exit: "k_task_exit c code k = Some k' \<Longrightarrow> sync_step is_mutex k k'"
| create: "new_task nm entry arg weight cpu False k = (r, k') \<Longrightarrow> sync_step is_mutex k k'"
| reap: "k_task_reap tid k = (r, k') \<Longrightarrow> sync_step is_mutex k k'"

inductive_cases sync_stepE: "sync_step is_mutex k k'"

section \<open>No lost wake-up\<close>

text \<open>A blocked task waits for a mutex that is held or a semaphore at zero.\<close>

definition sync_inv :: "(nat \<Rightarrow> bool) \<Rightarrow> kernel \<Rightarrow> bool" where
  "sync_inv is_mutex k \<longleftrightarrow> (\<forall>i<K_MAX_TASKS. t_state (k_tasks k i) = K_TASK_BLOCKED \<longrightarrow>
     (if is_mutex (t_wait_object (k_tasks k i)) then k_mutexes k (t_wait_object (k_tasks k i)) \<noteq> 0
      else k_semaphores k (t_wait_object (k_tasks k i)) = 0))"

text \<open>A step that blocks no further task and leaves the objects alone.\<close>

definition blocks_less :: "kernel \<Rightarrow> kernel \<Rightarrow> bool" where
  "blocks_less k k' \<longleftrightarrow> k_mutexes k' = k_mutexes k \<and> k_semaphores k' = k_semaphores k \<and>
     (\<forall>i. t_state (k_tasks k' i) = K_TASK_BLOCKED \<longrightarrow>
        t_state (k_tasks k i) = K_TASK_BLOCKED \<and> t_wait_object (k_tasks k' i) = t_wait_object (k_tasks k i))"

lemma blocks_less_refl [simp]: "blocks_less k k" by (simp add: blocks_less_def)

lemma blocks_less_trans: "blocks_less k k' \<Longrightarrow> blocks_less k' k'' \<Longrightarrow> blocks_less k k''"
  unfolding blocks_less_def by metis

lemma blocks_less_inv: "sync_inv im k \<Longrightarrow> blocks_less k k' \<Longrightarrow> sync_inv im k'"
  unfolding blocks_less_def sync_inv_def by metis

lemma task_ready_blocks: "blocks_less k (task_ready i k)"
  by (simp add: blocks_less_def task_ready_tasks)

lemma fold_blocks:
  assumes "\<And>i k. blocks_less k (f i k)"
  shows "blocks_less k (fold f is k)"
  by (induction "is" arbitrary: k) (auto intro: blocks_less_trans assms)

lemma wake_object_blocks: "blocks_less k (wake_object obj k)"
  unfolding wake_object_def by (rule fold_blocks) (simp add: task_ready_blocks)

text \<open>After \<open>wake_object\<close> no task waits for the object.\<close>

lemma wake_object_none:
  assumes "i < K_MAX_TASKS" "t_state (k_tasks (wake_object obj k) i) = K_TASK_BLOCKED"
  shows "t_wait_object (k_tasks (wake_object obj k) i) \<noteq> obj"
proof -
  let ?f = "\<lambda>i k. if t_state (k_tasks k i) = K_TASK_BLOCKED \<and> t_wait_object (k_tasks k i) = obj then task_ready i k else k"
  have f: "blocks_less k (?f i k)" for i k by (simp add: task_ready_blocks)
  have "\<forall>i\<in>set is. t_state (k_tasks (fold ?f is k) i) = K_TASK_BLOCKED \<longrightarrow>
      t_wait_object (k_tasks (fold ?f is k) i) \<noteq> obj" for "is" k
  proof (induction "is" rule: rev_induct)
    case Nil
    then show ?case by simp
  next
    case (snoc j "is")
    let ?g = "fold ?f is k"
    have b: "blocks_less ?g (?f j ?g)" by (rule f)
    show ?case
    proof (intro ballI impI)
      fix i
      assume i: "i \<in> set (is @ [j])" "t_state (k_tasks (fold ?f (is @ [j]) k) i) = K_TASK_BLOCKED"
      have e: "fold ?f (is @ [j]) k = ?f j ?g" by simp
      show "t_wait_object (k_tasks (fold ?f (is @ [j]) k) i) \<noteq> obj"
      proof (cases "i = j")
        case True
        with i(2) show ?thesis unfolding e by (auto simp: task_ready_tasks split: if_splits)
      next
        case False
        then have mem: "i \<in> set is" using i(1) by simp
        have bl: "t_state (k_tasks (?f j ?g) i) = K_TASK_BLOCKED" using i(2) unfolding e .
        have "t_state (k_tasks ?g i) = K_TASK_BLOCKED"
          and same: "t_wait_object (k_tasks (?f j ?g) i) = t_wait_object (k_tasks ?g i)"
          using b bl unfolding blocks_less_def by blast+
        with snoc.IH mem show ?thesis unfolding e same by blast
      qed
    qed
  qed
  from this[of "[0..<K_MAX_TASKS]" k] assms show ?thesis unfolding wake_object_def by simp
qed


subsection \<open>Steps that only move tasks\<close>

lemma cpu_upd_blocks [simp]: "blocks_less k (cpu_upd c g k)"
  by (simp add: blocks_less_def)

lemma proc_state_blocks [simp]: "blocks_less k (proc_state po s k)"
  by (simp add: blocks_less_def)

lemma cpu_floor_blocks [simp]: "blocks_less k (snd (cpu_floor c k))"
  by (simp add: blocks_less_def)

lemma task_upd_blocks:
  assumes "\<And>t. t_state (f t) = K_TASK_BLOCKED \<Longrightarrow> t_state t = K_TASK_BLOCKED \<and> t_wait_object (f t) = t_wait_object t"
  shows "blocks_less k (task_upd i f k)"
  using assms by (simp add: blocks_less_def)

lemma account_old_blocks: "blocks_less k (account_old c old frame forced k)"
  by (auto simp: account_old_def Let_def charge_def blocks_less_def)

lemma wake_sleepers_blocks: "blocks_less k (snd (wake_sleepers c k))"
proof -
  have "blocks_less k (snd (fold (wake_sleeper c) is (b, k)))" for "is" b
  proof (induction "is" rule: rev_induct)
    case Nil
    then show ?case by simp
  next
    case (snoc i "is")
    let ?r = "fold (wake_sleeper c) is (b, k)"
    have "blocks_less (snd ?r) (snd (wake_sleeper c i ?r))"
      by (auto simp: wake_sleeper_def Let_def task_ready_blocks split: prod.split)
    with snoc show ?case by (simp add: blocks_less_trans)
  qed
  then show ?thesis by (simp add: wake_sleepers_def)
qed

lemma task_switch_blocks: "blocks_less k (x86_64_task_switch c old n k)"
  by (auto simp: x86_64_task_switch_def Let_def blocks_less_def)

lemma dispatch_blocks: "blocks_less k (snd (dispatch c old sl k))"
proof -
  have "blocks_less k (before_switch c sl k)"
    by (auto simp: blocks_less_def before_switch_def Let_def)
  moreover have "blocks_less g (task_upd n (\<lambda>t. t\<lparr>t_switches := x t\<rparr>) (cpu_upd c h (x86_64_task_switch c old n g)))" for g n x h
    using task_switch_blocks[of g c old n] by (auto simp: blocks_less_def)
  ultimately show ?thesis unfolding dispatch_eq Let_def by (auto intro: blocks_less_trans)
qed

lemma schedule_blocks:
  assumes "kernel_schedule c frame forced k = (f, k')"
  shows "blocks_less k k'"
proof (cases "c_current (k_cpus k c)")
  case None
  with assms show ?thesis by (simp add: kernel_schedule_def)
next
  case (Some old)
  define it where "it = (\<not> forced \<and> t_idle (k_tasks k old))"
  define k1 where "k1 = (if it then cpu_upd c (\<lambda>cs. cs\<lparr>c_idle_ticks := add64 (c_idle_ticks cs) 1\<rparr>) k else k)"
  define m where "m = snd (wake_sleepers c (account_old c old frame forced k1))"
  define g where "g = (if t_state (k_tasks m old) = K_TASK_RUNNING
    then proc_state (t_process (k_tasks m old)) K_TASK_READY (task_upd old (\<lambda>t. t\<lparr>t_state := K_TASK_READY\<rparr>) m) else m)"
  have k1: "blocks_less k k1" by (simp add: k1_def)
  have m: "blocks_less k m"
    unfolding m_def by (rule blocks_less_trans[OF k1 blocks_less_trans[OF account_old_blocks wake_sleepers_blocks]])
  have "blocks_less m g" by (simp add: g_def blocks_less_def)
  then have d: "blocks_less k (snd (dispatch c old sl g))" for sl
    using blocks_less_trans[OF m blocks_less_trans[OF _ dispatch_blocks]] by blast
  have t: "blocks_less k (task_upd old (\<lambda>t. t\<lparr>t_runtime := add64 (t_runtime t) 1\<rparr>) k1)"
    by (rule blocks_less_trans[OF k1]) (simp add: blocks_less_def)
  have k': "k' = snd (kernel_schedule c frame forced k)" using assms by simp
  show ?thesis
    unfolding k' schedule_eq[OF Some it_def k1_def] Let_def m_def[symmetric] g_def[symmetric]
    using t m d by simp
qed

text \<open>The state \<open>new_task\<close> leaves.\<close>

lemma new_task_None: "new_task nm entry arg weight cpu idle k = (None, k') \<Longrightarrow> blocks_less k k'"
  by (auto simp: new_task_def Let_def split_beta blocks_less_def zero_task_def split: if_splits option.splits)

lemma new_task_Some:
  assumes "new_task nm entry arg weight cpu idle k = (Some i, k')"
  shows "t_state (k_tasks k i) = K_TASK_UNUSED" "i < K_MAX_TASKS"
    "\<exists>stack vr fp. stack \<noteq> 0 \<and> k_tasks k' = (k_tasks k)(i := zero_task\<lparr>t_id := k_next_task_id k, t_cpu := cpu,
       t_state := K_TASK_READY, t_weight := weight, t_name := str_copy [] nm 32, t_frame := fp, t_stack := stack,
       t_stack_top := stack + STACK_PAGES * 4096, t_vruntime := vr, t_entry := entry, t_arg := arg, t_idle := idle\<rparr>)"
    "k_mutexes k' = k_mutexes k" "k_semaphores k' = k_semaphores k" "k_next_task_id k \<noteq> 0"
    "k_next_task_id k' = add32 (k_next_task_id k) 1" "k_processes k' = k_processes k"
proof -
  from assms have nz: "k_next_task_id k \<noteq> 0" by (auto simp: new_task_def split: if_splits)
  from assms nz obtain j where j: "find_from 0 K_MAX_TASKS (\<lambda>i. t_state (k_tasks k i) = K_TASK_UNUSED) = Some j"
    by (auto simp: new_task_def split: option.splits)
  obtain stack v where sv: "vm_alloc_pages STACK_PAGES (k_vm k) = (stack, v)" by fastforce
  have st: "stack \<noteq> 0" using assms nz j sv by (auto simp: new_task_def Let_def split: if_splits)
  note eq = assms[unfolded new_task_def if_not_P[OF nz] j option.case Let_def task_upd_frame(3) sv prod.case split_beta fst_conv snd_conv if_not_P[OF st]]
  have ij: "j = i" using eq by simp
  show "t_state (k_tasks k i) = K_TASK_UNUSED" "i < K_MAX_TASKS" using find_from_Some[OF j] ij by simp_all
  show "k_mutexes k' = k_mutexes k" "k_semaphores k' = k_semaphores k" "k_processes k' = k_processes k"
    "k_next_task_id k' = add32 (k_next_task_id k) 1"
    using eq by (auto simp: x86_64_task_context_init_def Let_def)
  show "k_next_task_id k \<noteq> 0" by (rule nz)
  have "k_tasks k' = (k_tasks k)(i := k_tasks k' i)"
    using eq ij by (auto simp: x86_64_task_context_init_def Let_def fun_eq_iff)
  moreover have "\<exists>vr fp. k_tasks k' i = zero_task\<lparr>t_id := k_next_task_id k, t_cpu := cpu,
       t_state := K_TASK_READY, t_weight := weight, t_name := str_copy [] nm 32, t_frame := fp, t_stack := stack,
       t_stack_top := stack + STACK_PAGES * 4096, t_vruntime := vr, t_entry := entry, t_arg := arg, t_idle := idle\<rparr>"
    using eq ij by (auto simp: x86_64_task_context_init_def Let_def zero_task_def)
  ultimately show "\<exists>stack vr fp. stack \<noteq> 0 \<and> k_tasks k' = (k_tasks k)(i := zero_task\<lparr>t_id := k_next_task_id k, t_cpu := cpu,
       t_state := K_TASK_READY, t_weight := weight, t_name := str_copy [] nm 32, t_frame := fp, t_stack := stack,
       t_stack_top := stack + STACK_PAGES * 4096, t_vruntime := vr, t_entry := entry, t_arg := arg, t_idle := idle\<rparr>)"
    using st by metis
qed

lemma new_task_blocks:
  assumes "new_task nm entry arg weight cpu idle k = (r, k')"
  shows "blocks_less k k'"
proof (cases r)
  case None
  with assms show ?thesis using new_task_None by blast
next
  case (Some i)
  from new_task_Some(3)[OF assms[unfolded Some]] obtain T where
    T: "k_tasks k' = (k_tasks k)(i := T)" "t_state T = K_TASK_READY" by auto
  then show ?thesis using new_task_Some(4,5)[OF assms[unfolded Some]] by (simp add: blocks_less_def)
qed

lemma reap_blocks: "k_task_reap tid k = (r, k') \<Longrightarrow> blocks_less k k'"
  by (auto simp: k_task_reap_def free_task_def vm_upd_def Let_def blocks_less_def zero_task_def
      split: option.splits if_splits)


lemma sleep_blocks: "k_sleep c ms k = (y, k') \<Longrightarrow> blocks_less k k'"
  by (auto simp: k_sleep_def Let_def blocks_less_def split: if_splits option.splits)

lemma preempt_blocks: "blocks_less k (k_preempt_disable c k)" "blocks_less k (k_preempt_enable c k)"
  by (auto simp: k_preempt_disable_def k_preempt_enable_def blocks_less_def split: option.split)

lemma exit_blocks: "k_task_exit c code k = Some k' \<Longrightarrow> blocks_less k k'"
  by (auto simp: k_task_exit_def Let_def blocks_less_def split: option.splits if_splits)

lemma blocks_less_mutex: "blocks_less k k' \<Longrightarrow> k_mutexes k' = k_mutexes k"
  by (simp add: blocks_less_def)

lemmas moves_only = schedule_blocks sleep_blocks preempt_blocks exit_blocks new_task_blocks reap_blocks

subsection \<open>Steps on the objects\<close>

lemma set_mutex_frame [simp]:
  "k_tasks (set_mutex m v k) = k_tasks k" "k_semaphores (set_mutex m v k) = k_semaphores k"
  "k_mutexes (set_mutex m v k) = (k_mutexes k)(m := v)"
  by (simp_all add: set_mutex_def)

lemma set_sem_frame [simp]:
  "k_tasks (set_sem s v k) = k_tasks k" "k_mutexes (set_sem s v k) = k_mutexes k"
  "k_semaphores (set_sem s v k) = (k_semaphores k)(s := v)"
  by (simp_all add: set_sem_def)

lemma block_on_frame [simp]:
  "k_mutexes (block_on t m k) = k_mutexes k" "k_semaphores (block_on t m k) = k_semaphores k"
  by (simp_all add: block_on_def)

lemma wake_object_frame [simp]:
  "k_mutexes (wake_object obj k) = k_mutexes k" "k_semaphores (wake_object obj k) = k_semaphores k"
  using wake_object_blocks[of k obj] by (simp_all add: blocks_less_def)

lemma take_mutex_inv: "sync_inv im k \<Longrightarrow> im m \<Longrightarrow> k_mutexes k m = 0 \<Longrightarrow> sync_inv im (set_mutex m v k)"
  by (auto simp: sync_inv_def)

lemma take_sem_inv: "sync_inv im k \<Longrightarrow> \<not> im s \<Longrightarrow> k_semaphores k s \<noteq> 0 \<Longrightarrow> sync_inv im (set_sem s v k)"
  by (auto simp: sync_inv_def split: if_splits)

lemma block_inv:
  "sync_inv im k \<Longrightarrow> (if im obj then k_mutexes k obj \<noteq> 0 else k_semaphores k obj = 0) \<Longrightarrow> sync_inv im (block_on t obj k)"
  by (auto simp: sync_inv_def block_on_def)

text \<open>Releasing an object and waking its waiters restores the invariant.\<close>

lemma release_inv:
  assumes inv: "sync_inv im k"
    and same: "k_tasks g = k_tasks k" "\<And>a. a \<noteq> obj \<Longrightarrow> k_mutexes g a = k_mutexes k a"
      "\<And>a. a \<noteq> obj \<Longrightarrow> k_semaphores g a = k_semaphores k a"
  shows "sync_inv im (wake_object obj g)"
proof -
  let ?w = "wake_object obj g"
  have "if im (t_wait_object (k_tasks ?w i)) then k_mutexes ?w (t_wait_object (k_tasks ?w i)) \<noteq> 0
      else k_semaphores ?w (t_wait_object (k_tasks ?w i)) = 0"
    if i: "i < K_MAX_TASKS" "t_state (k_tasks ?w i) = K_TASK_BLOCKED" for i
  proof -
    have ne: "t_wait_object (k_tasks ?w i) \<noteq> obj" by (rule wake_object_none[OF i])
    have "t_state (k_tasks k i) = K_TASK_BLOCKED" "t_wait_object (k_tasks ?w i) = t_wait_object (k_tasks k i)"
      using wake_object_blocks[of g obj] i(2) same(1) unfolding blocks_less_def by metis+
    with inv i(1) ne same(2,3) show ?thesis unfolding sync_inv_def by simp
  qed
  then show ?thesis unfolding sync_inv_def by blast
qed

lemma sync_step_inv:
  assumes "sync_step im k k'" "sync_inv im k"
  shows "sync_inv im k'"
  using assms(1)
proof cases
  case (trylock m c e)
  with assms(2) show ?thesis by (auto simp: k_mutex_trylock_def Let_def take_mutex_inv split: if_splits)
next
  case (lock m c r)
  with assms(2) show ?thesis
    by (auto simp: mutex_lock_step_def take_mutex_inv block_inv split: if_splits option.splits)
next
  case (unlock m c e)
  have "sync_inv im (wake_object m (set_mutex m 0 k))" by (rule release_inv[OF assms(2)]) simp_all
  with unlock assms(2) show ?thesis by (auto simp: k_mutex_unlock_def split: if_splits)
next
  case (trywait s e)
  with assms(2) show ?thesis by (auto simp: k_sem_trywait_def take_sem_inv split: if_splits)
next
  case (wait s c r)
  with assms(2) show ?thesis
    by (auto simp: sem_wait_step_def take_sem_inv block_inv split: if_splits option.splits)
next
  case (post s)
  have "sync_inv im (wake_object s (if b then set_sem s n k else k))" for b n
    by (rule release_inv[OF assms(2)]) simp_all
  with post assms(2) show ?thesis by (auto simp: k_sem_post_def)
qed (auto intro: blocks_less_inv[OF assms(2)] moves_only)

section \<open>Correctness of the synchronisation\<close>

text \<open>The example kernel, in which the task with id 1 holds the mutex at address 8.\<close>

lemma ex_kernel_sync: "sync_inv (\<lambda>a. a = 8) (set_mutex 8 1 ex_kernel)"
  by (simp add: sync_inv_def ex_kernel_def zero_task_def)

definition ex_blocked :: kernel where
  "ex_blocked = task_upd 2 (\<lambda>t. t\<lparr>t_state := K_TASK_BLOCKED, t_wait_object := 8\<rparr>) (set_mutex 8 1 ex_kernel)"

lemma ex_blocked_sync: "sync_inv (\<lambda>a. a = 8) ex_blocked" "k_task_id 0 ex_blocked = 1" "k_mutexes ex_blocked 8 = 1"
  by (simp_all add: sync_inv_def ex_blocked_def ex_kernel_def zero_task_def set_mutex_def task_upd_def
      k_task_id_def current_task_def)



text \<open>
  A mutex is exclusive: while a task owns it, no step of any CPU (no lock or trylock of another
  task, no scheduling, exit or reaping) changes the owner, except an unlock by the owner itself,
  which frees the mutex and leaves no task blocked on it.
\<close>

theorem mutex_exclusive:
  assumes "sync_step im k k'" "k_mutexes k m \<noteq> 0" "k_mutexes k' m \<noteq> k_mutexes k m"
  shows "\<exists>c. k_task_id c k = k_mutexes k m \<and> k_mutex_unlock c m k = (0, k') \<and> k_mutexes k' m = 0 \<and>
    (\<forall>i<K_MAX_TASKS. \<not> (t_state (k_tasks k' i) = K_TASK_BLOCKED \<and> t_wait_object (k_tasks k' i) = m))"
  using assms(1)
proof cases
  case (unlock m' c e)
  then have "m' = m" "m \<noteq> 0" "k_mutexes k m = k_task_id c k" "k' = wake_object m (set_mutex m 0 k)"
    using assms(2,3) by (auto simp: k_mutex_unlock_def split: if_splits)
  with assms(2) show ?thesis
    using wake_object_none[of _ m "set_mutex m 0 k"] by (intro exI[of _ c]) (auto simp: k_mutex_unlock_def)
next
  case (trylock m' c e)
  with assms(2,3) show ?thesis by (auto simp: k_mutex_trylock_def Let_def split: if_splits)
next
  case (lock m' c r)
  with assms(2,3) show ?thesis by (auto simp: mutex_lock_step_def split: if_splits option.splits)
next
  case (trywait s e)
  with assms(2,3) show ?thesis by (auto simp: k_sem_trywait_def split: if_splits)
next
  case (wait s c r)
  with assms(2,3) show ?thesis by (auto simp: sem_wait_step_def split: if_splits option.splits)
next
  case (post s)
  with assms(2,3) show ?thesis by (auto simp: k_sem_post_def split: if_splits)
next
  case (preempt c)
  with assms(3) show ?thesis using preempt_blocks[THEN blocks_less_mutex] by metis
qed (use assms(3) moves_only[THEN blocks_less_mutex] in metis)+

theorem mutex_exclusive_witness:
  "\<exists>c. k_task_id c ex_blocked = 1 \<and> t_state (k_tasks (snd (k_mutex_unlock c 8 ex_blocked)) 2) \<noteq> K_TASK_BLOCKED"
proof -
  let ?k = "wake_object 8 (set_mutex 8 0 ex_blocked)"
  have u: "k_mutex_unlock 0 8 ex_blocked = (0, ?k)" using ex_blocked_sync by (simp add: k_mutex_unlock_def)
  from sync_step.unlock[OF _ u, of "\<lambda>a. a = 8"] have "sync_step (\<lambda>a. a = 8) ex_blocked ?k" by simp
  from mutex_exclusive[OF this, of 8] ex_blocked_sync(3) obtain c where
    c: "k_task_id c ex_blocked = 1" "k_mutex_unlock c 8 ex_blocked = (0, ?k)"
      "\<forall>i<K_MAX_TASKS. \<not> (t_state (k_tasks ?k i) = K_TASK_BLOCKED \<and> t_wait_object (k_tasks ?k i) = 8)" by auto
  have "t_state (k_tasks ?k 2) = K_TASK_BLOCKED \<Longrightarrow> t_wait_object (k_tasks ?k 2) = 8"
    using wake_object_blocks[of "set_mutex 8 0 ex_blocked" 8] unfolding blocks_less_def
    by (auto simp: ex_blocked_def)
  with c show ?thesis by (auto simp: K_MAX_TASKS_def)
qed

end
