(* ===== verification/Queue.thy ===== *)
theory Queue
  imports Prelude
begin

text \<open>
  The contract of a bounded queue, which the kernel implements as ring buffers: what clients may
  rely on, independent of the representation. A component that keeps a ring interprets the locale
  on its own operations and gets the ordering theorem for it.
\<close>

datatype 'm queue_op = Put 'm | Get

text \<open>A sequence of operations: the messages accepted and the messages returned, in order.\<close>

fun queue_run ::
  "('m \<Rightarrow> 's \<Rightarrow> 's option) \<Rightarrow> ('s \<Rightarrow> ('m \<times> 's) option) \<Rightarrow> 'm queue_op list \<Rightarrow> 's \<Rightarrow> 'm list \<times> 'm list \<times> 's" where
  "queue_run enq deq [] s = ([], [], s)"
| "queue_run enq deq (Put m # ops) s =
     (case enq m s of
        None \<Rightarrow> queue_run enq deq ops s
      | Some s' \<Rightarrow> case queue_run enq deq ops s' of (a, r, s'') \<Rightarrow> (m # a, r, s''))"
| "queue_run enq deq (Get # ops) s =
     (case deq s of
        None \<Rightarrow> queue_run enq deq ops s
      | Some (m, s') \<Rightarrow> case queue_run enq deq ops s' of (a, r, s'') \<Rightarrow> (a, m # r, s''))"

locale bounded_queue =
  fixes enq :: "'m \<Rightarrow> 's \<Rightarrow> 's option"
    and deq :: "'s \<Rightarrow> ('m \<times> 's) option"
    and items :: "'s \<Rightarrow> 'm list"
    and invar :: "'s \<Rightarrow> bool"
    and capacity :: nat
  assumes enq_full: "invar s \<Longrightarrow> enq m s = None \<longleftrightarrow> length (items s) = capacity"
    and enq_items: "invar s \<Longrightarrow> enq m s = Some s' \<Longrightarrow> items s' = items s @ [m] \<and> invar s'"
    and deq_empty: "invar s \<Longrightarrow> deq s = None \<longleftrightarrow> items s = []"
    and deq_items: "invar s \<Longrightarrow> deq s = Some (m, s') \<Longrightarrow> items s = m # items s' \<and> invar s'"
    and bounded: "invar s \<Longrightarrow> length (items s) \<le> capacity"
begin

lemma run_invar: "invar s \<Longrightarrow> queue_run enq deq ops s = (a, r, s') \<Longrightarrow> invar s'"
proof (induction ops arbitrary: s a r)
  case Nil
  then show ?case by simp
next
  case (Cons x ops)
  then show ?case
    by (cases x) (auto dest: enq_items deq_items split: option.splits prod.splits)
qed

lemma run_fifo: "invar s \<Longrightarrow> queue_run enq deq ops s = (a, r, s') \<Longrightarrow> items s @ a = r @ items s'"
proof (induction ops arbitrary: s a r)
  case Nil
  then show ?case by simp
next
  case (Cons x ops)
  show ?case
  proof (cases x)
    case (Put m)
    with Cons show ?thesis by (fastforce dest: enq_items split: option.splits prod.splits)
  next
    case Get
    with Cons show ?thesis by (fastforce dest: deq_items split: option.splits prod.splits)
  qed
qed

lemma put_get_empty:
  assumes "invar s" "items s = []" "enq m s = Some s'"
  shows "\<exists>s''. deq s' = Some (m, s'') \<and> items s'' = []"
proof -
  have s': "items s' = [m]" "invar s'" using enq_items[OF assms(1,3)] assms(2) by simp_all
  then obtain x s'' where x: "deq s' = Some (x, s'')" using deq_empty[OF s'(2)] by fastforce
  from deq_items[OF s'(2) x] s'(1) x show ?thesis by simp
qed

end

end
