(* ===== verification/Ipc.thy ===== *)
theory Ipc
  imports Sync Queue
begin

text \<open>
  Message passing of \<open>kernel/kernel.c\<close>: a mailbox of 16 messages per task, kept as a ring in the
  task, and grants that decide which tasks a process may send to.
\<close>

section \<open>Operations\<close>

definition mail_put :: "k_message \<Rightarrow> task \<Rightarrow> task option" where
  "mail_put msg t =
     (if t_mail_count t = MAIL_DEPTH then None
      else Some (t\<lparr>t_mail := (t_mail t)((t_mail_head t + t_mail_count t) mod MAIL_DEPTH := msg),
                  t_mail_count := t_mail_count t + 1\<rparr>))"

definition mail_get :: "task \<Rightarrow> (k_message \<times> task) option" where
  "mail_get t =
     (if t_mail_count t = 0 then None
      else Some (t_mail t (t_mail_head t),
                 t\<lparr>t_mail_head := (t_mail_head t + 1) mod MAIL_DEPTH, t_mail_count := t_mail_count t - 1\<rparr>))"

definition make_message :: "nat \<Rightarrow> bytes \<Rightarrow> nat \<Rightarrow> k_message" where
  "make_message sender data n =
     \<lparr>msg_sender = sender, msg_size = n, msg_bytes = put_bytes (msg_bytes zero_message) 0 data 0 n\<rparr>"

text \<open>A kernel task may send to any task, a process to itself and to the tasks it has a grant for.\<close>

definition may_send :: "nat \<Rightarrow> nat \<Rightarrow> kernel \<Rightarrow> bool" where
  "may_send s target k =
     (case t_process (k_tasks k s) of
        None \<Rightarrow> True
      | Some p \<Rightarrow> target = t_id (k_tasks k s) \<or>
          (\<exists>i\<in>set [0..<p_grant_count (k_processes k p)]. p_grants (k_processes k p) i = target))"

definition receives_mail :: "nat \<Rightarrow> task \<Rightarrow> bool" where
  "receives_mail target t \<longleftrightarrow>
     \<not> (t_id t \<noteq> target \<or> t_state t = K_TASK_UNUSED \<or> t_state t = K_TASK_ZOMBIE)"

text \<open>\<open>data\<close> is \<open>None\<close> for a null pointer.\<close>

definition k_ipc_send :: "nat \<Rightarrow> nat \<Rightarrow> bytes option \<Rightarrow> nat \<Rightarrow> kernel \<Rightarrow> int \<times> kernel" where
  "k_ipc_send c target data n k =
     (case (current_task c k, data) of
        (Some s, Some d) \<Rightarrow>
          if n > K_IPC_BYTES then (K_EINVAL, k)
          else if \<not> may_send s target k then (K_EPERM, k)
          else (case find_from 0 K_MAX_TASKS (\<lambda>i. receives_mail target (k_tasks k i)) of
            None \<Rightarrow> (K_ENOENT, k)
          | Some i \<Rightarrow>
              (case mail_put (make_message (t_id (k_tasks k s)) d n) (k_tasks k i) of
                 None \<Rightarrow> (K_EAGAIN, k)
               | Some t \<Rightarrow> (0, task_upd i (\<lambda>_. t) k)))
      | _ \<Rightarrow> (K_EINVAL, k))"

definition k_ipc_receive :: "nat \<Rightarrow> bool \<Rightarrow> kernel \<Rightarrow> (int + k_message) \<times> kernel" where
  "k_ipc_receive c out k =
     (case current_task c k of
        None \<Rightarrow> (Inl K_EINVAL, k)
      | Some t \<Rightarrow>
          if \<not> out then (Inl K_EINVAL, k)
          else case mail_get (k_tasks k t) of
            None \<Rightarrow> (Inl K_EAGAIN, k)
          | Some (msg, u) \<Rightarrow> (Inr msg, task_upd t (\<lambda>_. u) k))"

definition k_ipc_grant :: "nat \<Rightarrow> nat \<Rightarrow> nat \<Rightarrow> kernel \<Rightarrow> int \<times> kernel" where
  "k_ipc_grant c pid target k =
     (if case current_task c k of None \<Rightarrow> False | Some t \<Rightarrow> t_process (k_tasks k t) \<noteq> None then (K_EPERM, k)
      else case find_from 0 MAX_PROCESSES (\<lambda>i. p_used (k_processes k i) \<and> p_id (k_processes k i) = pid) of
        None \<Rightarrow> (K_ENOENT, k)
      | Some i \<Rightarrow>
          let p = k_processes k i in
          if \<exists>j\<in>set [0..<p_grant_count p]. p_grants p j = target then (0, k)
          else if p_grant_count p = 16 then (K_E2BIG, k)
          else (0, proc_upd i (\<lambda>p. p\<lparr>p_grants := (p_grants p)(p_grant_count p := target),
                                     p_grant_count := p_grant_count p + 1\<rparr>) k))"

section \<open>The mailbox is a bounded queue\<close>

definition mailbox :: "task \<Rightarrow> k_message list" where
  "mailbox t = map (\<lambda>j. t_mail t ((t_mail_head t + j) mod MAIL_DEPTH)) [0..<t_mail_count t]"

definition mail_ok :: "task \<Rightarrow> bool" where
  "mail_ok t \<longleftrightarrow> t_mail_head t < MAIL_DEPTH \<and> t_mail_count t \<le> MAIL_DEPTH"

lemma ring_distinct:
  assumes "h < n" "j < c" "c < (n::nat)"
  shows "(h + j) mod n \<noteq> (h + c) mod n"
proof
  assume "(h + j) mod n = (h + c) mod n"
  then have "n dvd (h + c) - (h + j)" using assms by (metis add_le_cancel_left less_imp_le mod_eq_dvd_iff_nat)
  then have "n dvd c - j" by simp
  with assms show False by (auto dest: dvd_imp_le)
qed

lemma mail_put_items:
  assumes "mail_ok t" "mail_put msg t = Some t'"
  shows "mailbox t' = mailbox t @ [msg]" "mail_ok t'"
proof -
  from assms have c: "t_mail_count t < MAIL_DEPTH" and h: "t_mail_head t < MAIL_DEPTH"
    and t': "t' = t\<lparr>t_mail := (t_mail t)((t_mail_head t + t_mail_count t) mod MAIL_DEPTH := msg),
                  t_mail_count := t_mail_count t + 1\<rparr>"
    by (auto simp: mail_put_def mail_ok_def split: if_splits)
  have "(t_mail_head t + j) mod MAIL_DEPTH \<noteq> (t_mail_head t + t_mail_count t) mod MAIL_DEPTH"
    if "j < t_mail_count t" for j by (rule ring_distinct[OF h that c])
  then show "mailbox t' = mailbox t @ [msg]" by (simp add: mailbox_def t')
  show "mail_ok t'" using c h by (simp add: mail_ok_def t')
qed

lemma mail_get_items:
  assumes "mail_ok t" "mail_get t = Some (msg, t')"
  shows "mailbox t = msg # mailbox t'" "mail_ok t'"
proof -
  from assms have c: "t_mail_count t \<noteq> 0" and h: "t_mail_head t < MAIL_DEPTH" "t_mail_count t \<le> MAIL_DEPTH"
    and t': "msg = t_mail t (t_mail_head t)" "t' = t\<lparr>t_mail_head := (t_mail_head t + 1) mod MAIL_DEPTH,
      t_mail_count := t_mail_count t - 1\<rparr>"
    by (auto simp: mail_get_def mail_ok_def split: if_splits)
  obtain n where n: "t_mail_count t = Suc n" using c by (cases "t_mail_count t") auto
  have "((t_mail_head t + 1) mod MAIL_DEPTH + j) mod MAIL_DEPTH = (t_mail_head t + Suc j) mod MAIL_DEPTH" for j
    by (simp add: mod_add_left_eq)
  then show "mailbox t = msg # mailbox t'"
    using h(1) by (simp add: mailbox_def t' n upt_conv_Cons map_Suc_upt[symmetric] comp_def del: upt_Suc map_Suc_upt)
  show "mail_ok t'" using h by (simp add: mail_ok_def t' MAIL_DEPTH_def)
qed

interpretation mq: bounded_queue mail_put mail_get mailbox mail_ok MAIL_DEPTH
proof (unfold_locales, goal_cases)
  case (1 s m)
  then show ?case by (auto simp: mail_put_def mailbox_def)
next
  case (2 s m s')
  then show ?case using mail_put_items by blast
next
  case (3 s)
  then show ?case by (auto simp: mail_get_def mailbox_def)
next
  case (4 s m s')
  then show ?case using mail_get_items by blast
next
  case (5 s)
  then show ?case by (simp add: mail_ok_def mailbox_def)
qed


section \<open>Correctness of message passing\<close>

lemma message_bytes: "msg_bytes (make_message s d n) i = (if i < n then d i else 0)"
  by (simp add: make_message_def zero_message_def put_bytes_apply)

definition ex_mail :: task where
  "ex_mail = zero_task\<lparr>t_mail_head := 15, t_mail_count := 2\<rparr>"

lemma ex_mail_ok: "mail_ok ex_mail"
  by (simp add: ex_mail_def mail_ok_def MAIL_DEPTH_def)

text \<open>
  C32. A mailbox is a first-in first-out queue of at most 16 messages, whatever the position of the
  ring's head: for every sequence of sends and receives, the messages received followed by those
  still waiting are the messages that were waiting at the start followed by those accepted, in
  order; nothing is lost, duplicated or reordered.
\<close>

theorem mailbox_fifo:
  assumes "mail_ok t" "queue_run mail_put mail_get ops t = (accepted, received, t')"
  shows "mailbox t @ accepted = received @ mailbox t' \<and> length (mailbox t') \<le> 16 \<and> mail_ok t'"
proof -
  have ok: "mail_ok t'" by (rule mq.run_invar[OF assms])
  then have "length (mailbox t') \<le> 16" using mq.bounded[OF ok] by (simp add: MAIL_DEPTH_def)
  with mq.run_fifo[OF assms] ok show ?thesis by blast
qed

theorem mailbox_fifo_witness:
  "mailbox ex_mail @ fst (queue_run mail_put mail_get [Get, Put (make_message 7 (\<lambda>_. 1) 3), Get, Get] ex_mail) =
   fst (snd (queue_run mail_put mail_get [Get, Put (make_message 7 (\<lambda>_. 1) 3), Get, Get] ex_mail)) @
   mailbox (snd (snd (queue_run mail_put mail_get [Get, Put (make_message 7 (\<lambda>_. 1) 3), Get, Get] ex_mail)))"
  using mailbox_fifo[OF ex_mail_ok, of "[Get, Put (make_message 7 (\<lambda>_. 1) 3), Get, Get]"] by (metis prod.collapse)

text \<open>
  Sending is exact and authorised. \<open>k_ipc_send\<close> either fails and changes nothing, or it
  appends one message with the sender's id, the size and the bytes of the caller to the mailbox of
  one live task with the target id and changes no other task. It succeeds only if the sender is a
  kernel task, sends to itself or holds a grant for the target, the message has at most 128 bytes
  and the mailbox had room.
\<close>

theorem ipc_send_exact:
  assumes ok: "\<forall>i<K_MAX_TASKS. mail_ok (k_tasks k i)" and send: "k_ipc_send c target data n k = (e, k')"
  shows "if e = 0
    then \<exists>s d i. current_task c k = Some s \<and> data = Some d \<and> n \<le> 128 \<and>
      (t_process (k_tasks k s) = None \<or> target = t_id (k_tasks k s) \<or>
        (\<exists>p j. t_process (k_tasks k s) = Some p \<and> j < p_grant_count (k_processes k p) \<and>
           p_grants (k_processes k p) j = target)) \<and>
      i < K_MAX_TASKS \<and> t_id (k_tasks k i) = target \<and> t_state (k_tasks k i) \<noteq> K_TASK_UNUSED \<and>
      t_state (k_tasks k i) \<noteq> K_TASK_ZOMBIE \<and> length (mailbox (k_tasks k i)) < 16 \<and>
      mailbox (k_tasks k' i) = mailbox (k_tasks k i) @ [make_message (t_id (k_tasks k s)) d n] \<and>
      (\<forall>j. j \<noteq> i \<longrightarrow> k_tasks k' j = k_tasks k j) \<and> k_processes k' = k_processes k
    else k' = k"
proof (cases "e = 0")
  case False
  with send show ?thesis by (auto simp: k_ipc_send_def split: option.splits if_splits)
next
  case True
  with send obtain s d i t where r: "current_task c k = Some s" "data = Some d" "n \<le> K_IPC_BYTES"
    "may_send s target k" "find_from 0 K_MAX_TASKS (\<lambda>i. receives_mail target (k_tasks k i)) = Some i"
    "mail_put (make_message (t_id (k_tasks k s)) d n) (k_tasks k i) = Some t" "k' = task_upd i (\<lambda>_. t) k"
    by (auto simp: k_ipc_send_def split: option.splits if_splits)
  from find_from_Some[OF r(5)] have i: "i < K_MAX_TASKS" "receives_mail target (k_tasks k i)" by simp_all
  have ti: "mail_ok (k_tasks k i)" using ok i(1) by blast
  have "length (mailbox (k_tasks k i)) < 16"
    using mq.enq_full[OF ti] mq.bounded[OF ti] r(6) by (metis MAIL_DEPTH_def le_neq_implies_less option.distinct(1))
  moreover have "mailbox (k_tasks k' i) = mailbox (k_tasks k i) @ [make_message (t_id (k_tasks k s)) d n]"
    using mail_put_items(1)[OF ti r(6)] by (simp add: r(7))
  moreover have "t_process (k_tasks k s) = None \<or> target = t_id (k_tasks k s) \<or>
        (\<exists>p j. t_process (k_tasks k s) = Some p \<and> j < p_grant_count (k_processes k p) \<and>
           p_grants (k_processes k p) j = target)"
    using r(4) by (auto simp: may_send_def split: option.splits)
  ultimately show ?thesis
    using True r(1-3) i by (simp add: receives_mail_def K_IPC_BYTES_def r(7))
qed

lemma ex_kernel_send: "fst (k_ipc_send 0 3 (Some (\<lambda>_. 65)) 4 ex_kernel) = 0"
  by (simp add: k_ipc_send_def current_task_def ex_kernel_def ex_cpu_def may_send_def zero_task_def receives_mail_def
      find_from_def upt_rec mail_put_def MAIL_DEPTH_def K_IPC_BYTES_def K_MAX_TASKS_def)

theorem ipc_send_exact_witness:
  "fst (k_ipc_send 0 3 (Some (\<lambda>_. 65)) 4 ex_kernel) = 0 \<and>
   (\<exists>s i. i < K_MAX_TASKS \<and> t_id (k_tasks ex_kernel i) = 3 \<and>
      mailbox (k_tasks (snd (k_ipc_send 0 3 (Some (\<lambda>_. 65)) 4 ex_kernel)) i) =
      mailbox (k_tasks ex_kernel i) @ [make_message (t_id (k_tasks ex_kernel s)) (\<lambda>_. 65) 4])"
proof -
  have ok: "\<forall>i<K_MAX_TASKS. mail_ok (k_tasks ex_kernel i)"
    by (simp add: ex_kernel_def mail_ok_def zero_task_def MAIL_DEPTH_def)
  from ipc_send_exact[OF ok, of 0 3 "Some (\<lambda>_. 65)" 4 0 "snd (k_ipc_send 0 3 (Some (\<lambda>_. 65)) 4 ex_kernel)"]
    ex_kernel_send show ?thesis by (metis (no_types, lifting) option.inject prod.collapse)
qed

text \<open>
  Processes cannot grant themselves anything: \<open>k_ipc_grant\<close> called from a task of a process
  returns \<open>K_EPERM\<close> and changes nothing; from the kernel it adds at most the one grant asked for to
  the one process named, and a process never holds more than 16.
\<close>

theorem ipc_grant_authority:
  assumes "k_ipc_grant c pid target k = (e, k')" "\<forall>i. p_grant_count (k_processes k i) \<le> 16"
  shows "((\<exists>t. current_task c k = Some t \<and> t_process (k_tasks k t) \<noteq> None) \<longrightarrow> e = K_EPERM \<and> k' = k) \<and>
    k_tasks k' = k_tasks k \<and> (\<forall>i. p_grant_count (k_processes k' i) \<le> 16 \<and>
      (k_processes k' i \<noteq> k_processes k i \<longrightarrow> p_id (k_processes k i) = pid \<and>
         (\<forall>j<p_grant_count (k_processes k' i). p_grants (k_processes k' i) j = target \<or>
            j < p_grant_count (k_processes k i) \<and> p_grants (k_processes k' i) j = p_grants (k_processes k i) j)))"
proof -
  have perm: "(\<exists>t. current_task c k = Some t \<and> t_process (k_tasks k t) \<noteq> None) \<longrightarrow> e = K_EPERM \<and> k' = k"
    using assms(1) by (auto simp: k_ipc_grant_def)
  have "k' = k \<or> (\<exists>i. p_id (k_processes k i) = pid \<and> p_grant_count (k_processes k i) \<noteq> 16 \<and>
      k' = proc_upd i (\<lambda>p. p\<lparr>p_grants := (p_grants p)(p_grant_count p := target),
             p_grant_count := p_grant_count p + 1\<rparr>) k)"
  proof (cases "find_from 0 MAX_PROCESSES (\<lambda>i. p_used (k_processes k i) \<and> p_id (k_processes k i) = pid)")
    case None
    with assms(1) show ?thesis by (simp add: k_ipc_grant_def split: if_splits)
  next
    case (Some i)
    with assms(1) have "k' = k \<or> (p_grant_count (k_processes k i) \<noteq> 16 \<and>
        k' = proc_upd i (\<lambda>p. p\<lparr>p_grants := (p_grants p)(p_grant_count p := target),
               p_grant_count := p_grant_count p + 1\<rparr>) k)"
      by (simp add: k_ipc_grant_def Let_def split: if_splits)
    with find_from_Some[OF Some] show ?thesis by blast
  qed
  then show ?thesis
  proof (elim disjE exE conjE)
    assume "k' = k"
    with assms(2) perm show ?thesis by simp
  next
    fix i
    assume i: "p_id (k_processes k i) = pid" "p_grant_count (k_processes k i) \<noteq> 16"
      "k' = proc_upd i (\<lambda>p. p\<lparr>p_grants := (p_grants p)(p_grant_count p := target),
             p_grant_count := p_grant_count p + 1\<rparr>) k"
    let ?new = "(k_processes k i)\<lparr>p_grants := (p_grants (k_processes k i))(p_grant_count (k_processes k i) := target),
      p_grant_count := p_grant_count (k_processes k i) + 1\<rparr>"
    have at: "k_processes k' x = (if x = i then ?new else k_processes k x)" for x by (simp add: i(3))
    have "p_grant_count ?new \<le> 16" using assms(2)[rule_format, of i] i(2) by simp
    moreover have "p_grants ?new j = target \<or> j < p_grant_count (k_processes k i) \<and> p_grants ?new j = p_grants (k_processes k i) j"
      if "j < p_grant_count ?new" for j using that by auto
    ultimately show ?thesis using perm i(1,3) assms(2) unfolding at by simp
  qed
qed

theorem ipc_grant_authority_witness:
  "k_tasks (snd (k_ipc_grant 0 5 3 ex_kernel)) = k_tasks ex_kernel"
proof -
  have "\<forall>i. p_grant_count (k_processes ex_kernel i) \<le> 16" by (simp add: ex_kernel_def zero_process_def)
  from ipc_grant_authority[OF _ this, of 0 5 3 "fst (k_ipc_grant 0 5 3 ex_kernel)" "snd (k_ipc_grant 0 5 3 ex_kernel)"]
  show ?thesis by simp
qed

end
