(* ===== verification/Rief.thy ===== *)
theory Rief
  imports Kern
begin

unbundle bit_operations_syntax

text \<open>
  The RIEF executable loader of \<open>kernel/process.c\<close> (\<open>rief_load_locked\<close>). The image is a byte function
  with a size; the packed records of \<open>include/kernel.h\<close> are decoded with the little-endian readers,
  as the C code does by copying them out. The checks run in the order of the code; the stages before
  the first mapping only read the image, except that \<open>k_as_check\<close> may map lazy pages and that export
  names are stored in the process as they are read.
\<close>

section \<open>Records\<close>

definition RIEF_MAGIC :: nat where "RIEF_MAGIC = 0x46454952"
definition RIEF_ARCH_X86_64 :: nat where "RIEF_ARCH_X86_64 = 1"
definition RIEF_RELOC_ABS64 :: nat where "RIEF_RELOC_ABS64 = 1"
definition RIEF_RELOC_REL32 :: nat where "RIEF_RELOC_REL32 = 2"
definition RIEF_RELOC_REL64 :: nat where "RIEF_RELOC_REL64 = 3"
definition RIEF_RELOC_IMPORT64 :: nat where "RIEF_RELOC_IMPORT64 = 4"
definition MAX_REGIONS :: nat where "MAX_REGIONS = 64"
definition MAX_EXPORTS :: nat where "MAX_EXPORTS = 64"

record rief_header_t =
  h_magic :: nat
  h_version_major :: nat
  h_version_minor :: nat
  h_architecture :: nat
  h_flags :: nat
  h_header_size :: nat
  h_region_count :: nat
  h_reloc_count :: nat
  h_import_count :: nat
  h_export_count :: nat
  h_region_table_offset :: nat
  h_reloc_table_offset :: nat
  h_import_table_offset :: nat
  h_export_table_offset :: nat
  h_string_table_offset :: nat
  h_string_table_size :: nat
  h_entry_region :: nat
  h_reserved :: nat
  h_entry_offset :: nat

definition read_header :: "bytes \<Rightarrow> rief_header_t" where
  "read_header b = \<lparr>h_magic = unat (rd32 b 0), h_version_major = unat (rd16 b 4),
     h_version_minor = unat (rd16 b 6), h_architecture = unat (rd16 b 8), h_flags = unat (rd16 b 10),
     h_header_size = unat (rd32 b 12), h_region_count = unat (rd32 b 16), h_reloc_count = unat (rd32 b 20),
     h_import_count = unat (rd32 b 24), h_export_count = unat (rd32 b 28),
     h_region_table_offset = unat (rd64 b 32), h_reloc_table_offset = unat (rd64 b 40),
     h_import_table_offset = unat (rd64 b 48), h_export_table_offset = unat (rd64 b 56),
     h_string_table_offset = unat (rd64 b 64), h_string_table_size = unat (rd64 b 72),
     h_entry_region = unat (rd32 b 80), h_reserved = unat (rd32 b 84), h_entry_offset = unat (rd64 b 88)\<rparr>"

record rief_region_t =
  r_flags :: u32
  r_alignment :: nat
  r_file_offset :: nat
  r_file_size :: nat
  r_memory_size :: nat

definition read_region :: "bytes \<Rightarrow> rief_header_t \<Rightarrow> nat \<Rightarrow> rief_region_t" where
  "read_region b h i = (let a = h_region_table_offset h + i * 32 in
     \<lparr>r_flags = rd32 b a, r_alignment = unat (rd32 b (a + 4)), r_file_offset = unat (rd64 b (a + 8)),
      r_file_size = unat (rd64 b (a + 16)), r_memory_size = unat (rd64 b (a + 24))\<rparr>)"

record rief_reloc_t =
  rl_patch_region :: nat
  rl_type :: nat
  rl_target_region :: nat
  rl_reserved :: nat
  rl_patch_offset :: nat
  rl_target_offset :: nat
  rl_addend :: int

definition read_reloc :: "bytes \<Rightarrow> rief_header_t \<Rightarrow> nat \<Rightarrow> rief_reloc_t" where
  "read_reloc b h i = (let a = h_reloc_table_offset h + i * 40 in
     \<lparr>rl_patch_region = unat (rd32 b a), rl_type = unat (rd32 b (a + 4)),
      rl_target_region = unat (rd32 b (a + 8)), rl_reserved = unat (rd32 b (a + 12)),
      rl_patch_offset = unat (rd64 b (a + 16)), rl_target_offset = unat (rd64 b (a + 24)),
      rl_addend = sint (rd64 b (a + 32))\<rparr>)"

text \<open>An import record as name offset and reserved word, an export as name offset, region and offset.\<close>

definition read_import :: "bytes \<Rightarrow> rief_header_t \<Rightarrow> nat \<Rightarrow> nat \<times> nat" where
  "read_import b h i = (let a = h_import_table_offset h + i * 8 in (unat (rd32 b a), unat (rd32 b (a + 4))))"

definition read_export :: "bytes \<Rightarrow> rief_header_t \<Rightarrow> nat \<Rightarrow> nat \<times> nat \<times> nat" where
  "read_export b h i = (let a = h_export_table_offset h + i * 16 in
     (unat (rd32 b a), unat (rd32 b (a + 4)), unat (rd64 b (a + 8))))"

section \<open>Checks\<close>

text \<open>The characters stored before the loop stopped, with its result.\<close>

function rief_string_loop :: "bytes \<Rightarrow> nat \<Rightarrow> nat \<Rightarrow> nat \<Rightarrow> nat \<Rightarrow> string \<Rightarrow> int \<times> string" where
  "rief_string_loop b s n off i out =
     (if i < 128 \<and> off + i < n then
        if b (s + i) = 0 then ((if i \<noteq> 0 then 0 else K_ENOEXEC), out)
        else if b (s + i) < 33 \<or> b (s + i) > 126 then (K_ENOEXEC, out)
        else rief_string_loop b s n off (Suc i) (out @ [char_of (unat (b (s + i)))])
      else (K_ENOEXEC, out))"
  by pat_completeness auto
termination by (relation "measure (\<lambda>(b, s, n, off, i, out). 128 - i)") auto

declare rief_string_loop.simps [simp del]

definition rief_string :: "bytes \<Rightarrow> rief_header_t \<Rightarrow> nat \<Rightarrow> int \<times> string" where
  "rief_string b h off =
     (if off \<ge> h_string_table_size h then (K_ENOEXEC, [])
      else rief_string_loop b (h_string_table_offset h + off) (h_string_table_size h) off 0 [])"

definition overlap :: "nat \<Rightarrow> nat \<Rightarrow> nat \<Rightarrow> nat \<Rightarrow> bool" where
  "overlap a n b m \<longleftrightarrow> n \<noteq> 0 \<and> m \<noteq> 0 \<and> a < add64 b m \<and> b < add64 a n"

definition header_ok :: "bytes \<Rightarrow> nat \<Rightarrow> rief_header_t \<Rightarrow> bool" where
  "header_ok b n h \<longleftrightarrow>
     \<not> (h_magic h \<noteq> RIEF_MAGIC \<or> h_version_major h \<noteq> 1 \<or> h_version_minor h \<noteq> 0 \<or>
        h_architecture h \<noteq> RIEF_ARCH_X86_64 \<or> h_flags h \<noteq> 0 \<or> h_reserved h \<noteq> 0 \<or> h_header_size h < 96 \<or>
        h_header_size h > 4096 \<or> h_header_size h > n \<or> h_region_count h = 0 \<or>
        h_region_count h > MAX_REGIONS \<or> h_reloc_count h > 4096 \<or> h_import_count h > 64 \<or>
        h_export_count h > MAX_EXPORTS \<or> h_entry_region h \<ge> h_region_count h) \<and>
     (\<forall>i\<in>set [96..<h_header_size h]. b i = 0)"

text \<open>The pairs \<open>meta_off\<close>, \<open>meta_len\<close>.\<close>

definition meta :: "rief_header_t \<Rightarrow> (nat \<times> nat) list" where
  "meta h = [(0, h_header_size h), (h_region_table_offset h, h_region_count h * 32),
     (h_reloc_table_offset h, h_reloc_count h * 40), (h_import_table_offset h, h_import_count h * 8),
     (h_export_table_offset h, h_export_count h * 16), (h_string_table_offset h, h_string_table_size h)]"

definition meta_ok :: "nat \<Rightarrow> rief_header_t \<Rightarrow> bool" where
  "meta_ok n h \<longleftrightarrow> (\<forall>i\<in>set [0..<6].
     let (off, len) = meta h ! i in
     span_ok off len n \<and> \<not> (len = 0 \<and> off \<noteq> 0) \<and> \<not> (i > 0 \<and> i < 5 \<and> off mod 8 \<noteq> 0) \<and>
     (\<forall>j\<in>set [0..<i]. \<not> overlap off len (fst (meta h ! j)) (snd (meta h ! j))))"

definition region_ok :: "nat \<Rightarrow> rief_region_t \<Rightarrow> bool" where
  "region_ok n r \<longleftrightarrow>
     \<not> (r_memory_size r = 0 \<or> r_memory_size r > 64 * 1024 * 1024 \<or> r_file_size r > r_memory_size r \<or>
        \<not> span_ok (r_file_offset r) (r_file_size r) n \<or> \<not> power2 (r_alignment r) \<or>
        r_alignment r > 0x40000000 \<or> r_flags r AND NOT 7 \<noteq> 0 \<or> r_flags r AND RIEF_REGION_R = 0 \<or>
        r_flags r AND 6 = 6)"

text \<open>The file bytes of region \<open>i\<close> overlap neither a table nor an earlier region.\<close>

definition region_disjoint :: "bytes \<Rightarrow> rief_header_t \<Rightarrow> nat \<Rightarrow> bool" where
  "region_disjoint b h i \<longleftrightarrow> (let r = read_region b h i in
     (\<forall>j\<in>set [0..<6]. \<not> overlap (r_file_offset r) (r_file_size r) (fst (meta h ! j)) (snd (meta h ! j))) \<and>
     (\<forall>j\<in>set [0..<i]. let q = read_region b h j in
        \<not> overlap (r_file_offset r) (r_file_size r) (r_file_offset q) (r_file_size q)))"

function check_regions :: "bytes \<Rightarrow> nat \<Rightarrow> rief_header_t \<Rightarrow> nat \<Rightarrow> nat \<Rightarrow> int" where
  "check_regions b n h i acc =
     (if i < h_region_count h then
        let r = read_region b h i in
        if \<not> region_ok n r then K_ENOEXEC
        else
          let acc = acc + ALIGN_UP (r_memory_size r) 4096 in
          if acc > 64 * 1024 * 1024 then K_E2BIG
          else if \<not> region_disjoint b h i then K_ENOEXEC
          else check_regions b n h (Suc i) acc
      else 0)"
  by pat_completeness auto
termination by (relation "measure (\<lambda>(b, n, h, i, acc). h_region_count h - i)") auto

declare check_regions.simps [simp del]

definition entry_ok :: "bytes \<Rightarrow> rief_header_t \<Rightarrow> bool" where
  "entry_ok b h \<longleftrightarrow> (let r = read_region b h (h_entry_region h) in
     \<not> (r_flags r AND RIEF_REGION_X = 0 \<or> h_entry_offset h \<ge> r_file_size r))"

text \<open>The bindings of one symbol: \<open>Some\<close> address once found; a second match or a bad address is a fault.\<close>

fun bind_import ::
  "nat \<Rightarrow> string \<Rightarrow> (string option \<times> nat) list \<Rightarrow> nat option \<Rightarrow> vm \<Rightarrow> (int + nat option) \<times> vm" where
  "bind_import as symbol [] found v = (Inr found, v)"
| "bind_import as symbol ((name, address) # bs) found v =
     (case name of
        Some nm \<Rightarrow>
          if str_eq symbol nm then
            if found \<noteq> None then (Inl K_EFAULT, v)
            else case x86_64_as_check as address 1 False v of
              (e, v) \<Rightarrow> if e \<noteq> 0 then (Inl K_EFAULT, v) else bind_import as symbol bs (Some address) v
          else bind_import as symbol bs found v
      | None \<Rightarrow> bind_import as symbol bs found v)"

text \<open>The import table; the result lists the addresses of \<open>imports\<close>.\<close>

fun check_imports ::
  "bytes \<Rightarrow> rief_header_t \<Rightarrow> nat \<Rightarrow> (string option \<times> nat) list \<Rightarrow> nat list \<Rightarrow> vm \<Rightarrow> (int + nat list) \<times> vm" where
  "check_imports b h as bindings [] v = (Inr [], v)"
| "check_imports b h as bindings (i # is) v =
     (let (name_offset, reserved) = read_import b h i; (e, symbol) = rief_string b h name_offset in
      if reserved \<noteq> 0 \<or> e \<noteq> 0 then (Inl K_ENOEXEC, v)
      else case bind_import as symbol bindings None v of
        (Inl e, v) \<Rightarrow> (Inl e, v)
      | (Inr None, v) \<Rightarrow> (Inl K_ENOENT, v)
      | (Inr (Some a), v) \<Rightarrow>
          (case check_imports b h as bindings is v of
             (Inl e, v) \<Rightarrow> (Inl e, v)
           | (Inr r, v) \<Rightarrow> (Inr (a # r), v)))"

definition reloc_width :: "rief_reloc_t \<Rightarrow> nat" where
  "reloc_width r = (if rl_type r = RIEF_RELOC_REL32 then 4 else 8)"

definition reloc_ok :: "bytes \<Rightarrow> rief_header_t \<Rightarrow> nat \<Rightarrow> nat \<Rightarrow> nat \<Rightarrow> bool" where
  "reloc_ok b h i last_region last_end \<longleftrightarrow> (let r = read_reloc b h i in
     \<not> (rl_reserved r \<noteq> 0 \<or> rl_type r < RIEF_RELOC_ABS64 \<or> rl_type r > RIEF_RELOC_IMPORT64 \<or>
        rl_patch_region r \<ge> h_region_count h \<or>
        \<not> span_ok (rl_patch_offset r) (reloc_width r) (r_memory_size (read_region b h (rl_patch_region r))) \<or>
        (i \<noteq> 0 \<and> (rl_patch_region r < last_region \<or>
          (rl_patch_region r = last_region \<and> rl_patch_offset r < last_end)))) \<and>
     (if rl_type r = RIEF_RELOC_IMPORT64
      then \<not> (rl_target_region r \<ge> h_import_count h \<or> rl_target_offset r \<noteq> 0)
      else \<not> (rl_target_region r \<ge> h_region_count h \<or>
              rl_target_offset r > r_memory_size (read_region b h (rl_target_region r)))))"

function check_relocs :: "bytes \<Rightarrow> rief_header_t \<Rightarrow> nat \<Rightarrow> nat \<Rightarrow> nat \<Rightarrow> bool" where
  "check_relocs b h i last_region last_end =
     (if i < h_reloc_count h then
        if \<not> reloc_ok b h i last_region last_end then False
        else let r = read_reloc b h i in
          check_relocs b h (Suc i) (rl_patch_region r) (rl_patch_offset r + reloc_width r)
      else True)"
  by pat_completeness auto
termination by (relation "measure (\<lambda>(b, h, i, last_region, last_end). h_reloc_count h - i)") auto

declare check_relocs.simps [simp del]

text \<open>The export names are stored as they are read, also when a later one is bad.\<close>

function check_exports :: "bytes \<Rightarrow> rief_header_t \<Rightarrow> nat \<Rightarrow> k_process \<Rightarrow> bool \<times> k_process" where
  "check_exports b h i p =
     (if i < h_export_count h then
        let (name_offset, region, off) = read_export b h i in
        if region \<ge> h_region_count h \<or> off \<ge> r_memory_size (read_region b h region) then (False, p)
        else
          let (e, nm) = rief_string b h name_offset;
              p = p\<lparr>p_exports := (p_exports p)(i := (nm, snd (p_exports p i)))\<rparr> in
          if e \<noteq> 0 then (False, p)
          else if \<exists>j\<in>set [0..<i]. str_eq (fst (p_exports p i)) (fst (p_exports p j)) then (False, p)
          else check_exports b h (Suc i) p
      else (True, p))"
  by pat_completeness auto
termination by (relation "measure (\<lambda>(b, h, i, p). h_export_count h - i)") auto

declare check_exports.simps [simp del]

section \<open>Mapping and relocation\<close>

text \<open>\<open>as\<close> is the address space of the process.\<close>

function map_regions :: "bytes \<Rightarrow> rief_header_t \<Rightarrow> nat \<Rightarrow> nat \<Rightarrow> k_process \<Rightarrow> vm \<Rightarrow> int \<times> k_process \<times> vm" where
  "map_regions b h as i p v =
     (if i < h_region_count h then
        let r = read_region b h i in
        case x86_64_as_alloc as (r_memory_size r) (r_alignment r) (r_flags r) v of
          (Inl e, v) \<Rightarrow> (e, p, v)
        | (Inr base, v) \<Rightarrow>
            let p = p\<lparr>p_region_base := (p_region_base p)(i := base),
                      p_region_size := (p_region_size p)(i := r_memory_size r)\<rparr> in
            case x86_64_as_copy_in as base (\<lambda>j. b (r_file_offset r + j)) (r_file_size r) True v of
              (e, v) \<Rightarrow> if e \<noteq> 0 then (e, p, v) else map_regions b h as (Suc i) p v
      else (0, p, v))"
  by pat_completeness auto
termination by (relation "measure (\<lambda>(b, h, as, i, p, v). h_region_count h - i)") auto

declare map_regions.simps [simp del]

text \<open>The address a relocation refers to, with its addend applied without overflow.\<close>

definition reloc_target :: "rief_reloc_t \<Rightarrow> nat list \<Rightarrow> k_process \<Rightarrow> nat option" where
  "reloc_target r imports p =
     (let target = (if rl_type r = RIEF_RELOC_IMPORT64 then imports ! rl_target_region r
                    else add64 (p_region_base p (rl_target_region r)) (rl_target_offset r)) in
      if rl_addend r \<ge> 0 then
        if nat (rl_addend r) > 2 ^ 64 - 1 - target then None else Some (target + nat (rl_addend r))
      else
        let sub = nat (- rl_addend r) in
        if sub > target then None else Some (target - sub))"

definition reloc_value :: "rief_reloc_t \<Rightarrow> nat \<Rightarrow> nat \<Rightarrow> u64 option" where
  "reloc_value r target patch =
     (if rl_type r = RIEF_RELOC_REL32 \<or> rl_type r = RIEF_RELOC_REL64 then
        let delta = int target - int (patch + reloc_width r) in
        if reloc_width r = 4 \<and> (delta < - 2147483648 \<or> delta > 2147483647) then None
        else Some (word_of_int delta)
      else Some (word_of_nat target))"

definition apply_reloc :: "nat \<Rightarrow> nat list \<Rightarrow> rief_reloc_t \<Rightarrow> k_process \<Rightarrow> vm \<Rightarrow> int \<times> vm" where
  "apply_reloc as imports r p v =
     (case reloc_target r imports p of
        None \<Rightarrow> (K_ENOEXEC, v)
      | Some target \<Rightarrow>
          if target < K_USER_BASE \<or> target \<ge> K_USER_LIMIT then (K_ENOEXEC, v)
          else if rl_type r \<noteq> RIEF_RELOC_IMPORT64 \<and>
                  (target < p_region_base p (rl_target_region r) \<or>
                   target - p_region_base p (rl_target_region r) > p_region_size p (rl_target_region r))
          then (K_ENOEXEC, v)
          else case (if rl_type r = RIEF_RELOC_IMPORT64 then x86_64_as_check as target 1 False v else (0, v)) of
            (e, v) \<Rightarrow>
              if e \<noteq> 0 then (K_EFAULT, v)
              else
                let patch = p_region_base p (rl_patch_region r) + rl_patch_offset r in
                case reloc_value r target patch of
                  None \<Rightarrow> (K_ENOEXEC, v)
                | Some value \<Rightarrow> x86_64_as_copy_in as patch (wr64 (\<lambda>_. 0) 0 value) (reloc_width r) True v)"

fun apply_relocs :: "bytes \<Rightarrow> rief_header_t \<Rightarrow> nat \<Rightarrow> nat list \<Rightarrow> nat list \<Rightarrow> k_process \<Rightarrow> vm \<Rightarrow> int \<times> vm" where
  "apply_relocs b h as imports [] p v = (0, v)"
| "apply_relocs b h as imports (i # is) p v =
     (case apply_reloc as imports (read_reloc b h i) p v of
        (e, v) \<Rightarrow> if e \<noteq> 0 then (e, v) else apply_relocs b h as imports is p v)"

definition set_exports :: "bytes \<Rightarrow> rief_header_t \<Rightarrow> k_process \<Rightarrow> k_process" where
  "set_exports b h p =
     fold (\<lambda>i p. case read_export b h i of (_, region, off) \<Rightarrow>
       p\<lparr>p_exports := (p_exports p)(i := (fst (p_exports p i), p_region_base p region + off))\<rparr>)
       [0..<h_export_count h] p"

definition rief_fail :: "nat \<Rightarrow> nat \<Rightarrow> nat \<Rightarrow> k_process \<Rightarrow> vm \<Rightarrow> k_process \<times> vm" where
  "rief_fail as old_next old_pages p v =
     (p\<lparr>p_region_base := (\<lambda>_. 0), p_region_size := (\<lambda>_. 0), p_exports := (\<lambda>_. ([], 0))\<rparr>,
      x86_64_as_rollback as old_next old_pages v)"

section \<open>The loader\<close>

text \<open>
  \<open>rief_load_locked\<close> on a valid process with address space \<open>as\<close>; \<open>img\<close> is \<open>None\<close> for a null
  pointer, \<open>bindings\<close> the array with its count.
\<close>

definition rief_load_locked ::
  "nat \<Rightarrow> bytes option \<Rightarrow> nat \<Rightarrow> (string option \<times> nat) list \<Rightarrow> k_process \<Rightarrow> vm \<Rightarrow> int \<times> k_process \<times> vm" where
  "rief_load_locked as img n bindings p v =
     (case img of
        None \<Rightarrow> (K_EINVAL, p, v)
      | Some b \<Rightarrow>
        if p_loaded p \<or> p_task_id p \<noteq> 0 \<or> length bindings > 64 then (K_EINVAL, p, v)
        else if n < 96 \<or> n > 64 * 1024 * 1024 then (K_ENOEXEC, p, v)
        else
          let h = read_header b in
          if \<not> header_ok b n h \<or> \<not> meta_ok n h then (K_ENOEXEC, p, v)
          else if check_regions b n h 0 0 \<noteq> 0 then (check_regions b n h 0 0, p, v)
          else if \<not> entry_ok b h then (K_ENOEXEC, p, v)
          else case check_imports b h as bindings [0..<h_import_count h] v of
            (Inl e, v) \<Rightarrow> (e, p, v)
          | (Inr imports, v) \<Rightarrow>
            if \<not> check_relocs b h 0 0 0 then (K_ENOEXEC, p, v)
            else case check_exports b h 0 p of
              (False, p) \<Rightarrow> (K_ENOEXEC, p, v)
            | (True, p) \<Rightarrow>
              let old_next = as_next (vm_spaces v as); old_pages = as_pages (vm_spaces v as) in
              case map_regions b h as 0 p v of
                (e, p, v) \<Rightarrow>
                  if e \<noteq> 0 then (e, rief_fail as old_next old_pages p v)
                  else case apply_relocs b h as imports [0..<h_reloc_count h] p v of
                    (e, v) \<Rightarrow>
                      if e \<noteq> 0 then (e, rief_fail as old_next old_pages p v)
                      else
                        let p = set_exports b h p in
                        (0, p\<lparr>p_region_count := h_region_count h, p_export_count := h_export_count h,
                              p_entry := p_region_base p (h_entry_region h) + h_entry_offset h,
                              p_loaded := True\<rparr>, v))"

definition k_rief_export :: "string \<Rightarrow> k_process \<Rightarrow> int + nat" where
  "k_rief_export symbol p =
     (if \<not> p_loaded p then Inl K_EINVAL
      else case find_from 0 (p_export_count p) (\<lambda>i. str_eq symbol (fst (p_exports p i))) of
        None \<Rightarrow> Inl K_ENOENT
      | Some i \<Rightarrow> Inr (snd (p_exports p i)))"

end
