(* ===== verification/RiefInv.thy ===== *)
theory RiefInv
  imports Rief MmuInv
begin

unbundle bit_operations_syntax

text \<open>
  Safety of the RIEF loader: what a loaded image satisfies, that relocation patches stay in their
  regions and never overlap, and that a failed load leaves the process and its address space as they
  were.
\<close>

section \<open>Validation\<close>

definition apart :: "nat \<Rightarrow> nat \<Rightarrow> nat \<Rightarrow> nat \<Rightarrow> bool" where
  "apart a n b m \<longleftrightarrow> {a..<a + n} \<inter> {b..<b + m} = {}"

text \<open>On spans inside an image the 64-bit sums of \<open>overlap\<close> do not wrap.\<close>

lemma overlap_apart:
  assumes "a + n \<le> z" "b + m \<le> z" "z < 2 ^ 64"
  shows "\<not> overlap a n b m \<longleftrightarrow> apart a n b m"
proof -
  have "add64 b m = b + m" "add64 a n = a + n" using assms by (simp_all add: add64_def)
  then have o: "\<not> overlap a n b m \<longleftrightarrow> n = 0 \<or> m = 0 \<or> b + m \<le> a \<or> a + n \<le> b" by (auto simp: overlap_def)
  show ?thesis
  proof (cases "n = 0 \<or> m = 0")
    case True
    then show ?thesis unfolding o apart_def by auto
  next
    case False
    have "apart a n b m \<longleftrightarrow> b + m \<le> a \<or> a + n \<le> b"
    proof
      assume ap: "apart a n b m"
      show "b + m \<le> a \<or> a + n \<le> b"
      proof (rule ccontr)
        assume "\<not> (b + m \<le> a \<or> a + n \<le> b)"
        then have "max a b \<in> {a..<a + n} \<inter> {b..<b + m}" using False by auto
        then show False using ap unfolding apart_def by blast
      qed
    qed (auto simp: apart_def)
    with False show ?thesis unfolding o by blast
  qed
qed

lemma meta_okD:
  assumes "meta_ok n h" "i < 6"
  shows "fst (meta h ! i) + snd (meta h ! i) \<le> n"
    "j < i \<Longrightarrow> \<not> overlap (fst (meta h ! i)) (snd (meta h ! i)) (fst (meta h ! j)) (snd (meta h ! j))"
  using assms unfolding meta_ok_def by (auto simp: Let_def case_prod_unfold span_ok_iff)

lemma meta_apart:
  assumes "meta_ok n h" "n < 2 ^ 64" "j < i" "i < 6"
  shows "apart (fst (meta h ! i)) (snd (meta h ! i)) (fst (meta h ! j)) (snd (meta h ! j))"
  using meta_okD[OF assms(1,4)] meta_okD(1)[OF assms(1), of j] assms(3,4)
    overlap_apart[OF _ _ assms(2), of "fst (meta h ! i)" "snd (meta h ! i)" "fst (meta h ! j)" "snd (meta h ! j)"]
  by auto

text \<open>What \<open>check_regions\<close> establishes for each region, and for all of them together.\<close>

lemma check_regions_ok:
  "check_regions b n h i acc = 0 \<Longrightarrow> i \<le> j \<Longrightarrow> j < h_region_count h \<Longrightarrow>
   region_ok n (read_region b h j) \<and> region_disjoint b h j"
proof (induction b n h i acc rule: check_regions.induct)
  case (1 b n h i acc)
  have lt: "i < h_region_count h" using "1.prems" by simp
  let ?r = "read_region b h i" and ?acc = "acc + ALIGN_UP (r_memory_size (read_region b h i)) 4096"
  note eq = check_regions.simps[of b n h i acc, unfolded if_P[OF lt] Let_def]
  have here: "region_ok n ?r" "\<not> ?acc > 64 * 1024 * 1024" "region_disjoint b h i"
    "check_regions b n h (Suc i) ?acc = 0"
    using "1.prems"(1) unfolding eq by (auto split: if_splits)
  show ?case
  proof (cases "j = i")
    case True
    then show ?thesis using here by simp
  next
    case False
    then show ?thesis using "1.IH"[OF lt refl _ refl here(2)] here "1.prems"(2,3) by simp
  qed
qed

lemma check_regions_total:
  "check_regions b n h i acc = 0 \<Longrightarrow> i \<le> h_region_count h \<Longrightarrow> acc \<le> 64 * 1024 * 1024 \<Longrightarrow>
   acc + (\<Sum>j = i..<h_region_count h. ALIGN_UP (r_memory_size (read_region b h j)) 4096) \<le> 64 * 1024 * 1024"
proof (induction b n h i acc rule: check_regions.induct)
  case (1 b n h i acc)
  show ?case
  proof (cases "i < h_region_count h")
    case False
    then show ?thesis using "1.prems" by simp
  next
    case lt: True
    let ?acc = "acc + ALIGN_UP (r_memory_size (read_region b h i)) 4096"
    note eq = check_regions.simps[of b n h i acc, unfolded if_P[OF lt] Let_def]
    have here: "region_ok n (read_region b h i)" "\<not> ?acc > 64 * 1024 * 1024" "region_disjoint b h i"
      "check_regions b n h (Suc i) ?acc = 0"
      using "1.prems"(1) unfolding eq by (auto split: if_splits)
    have "?acc + (\<Sum>j = Suc i..<h_region_count h. ALIGN_UP (r_memory_size (read_region b h j)) 4096) \<le> 64 * 1024 * 1024"
      using "1.IH"[OF lt refl _ refl here(2)] here lt by simp
    then show ?thesis using lt by (simp add: sum.atLeast_Suc_lessThan)
  qed
qed

section \<open>Relocations\<close>

text \<open>Where relocation \<open>i\<close> writes: its region and the end of its patch.\<close>

abbreviation patch_region :: "bytes \<Rightarrow> rief_header_t \<Rightarrow> nat \<Rightarrow> nat" where
  "patch_region b h i \<equiv> rl_patch_region (read_reloc b h i)"

abbreviation patch_end :: "bytes \<Rightarrow> rief_header_t \<Rightarrow> nat \<Rightarrow> nat" where
  "patch_end b h i \<equiv> rl_patch_offset (read_reloc b h i) + reloc_width (read_reloc b h i)"

lemma check_relocs_from:
  "check_relocs b h i lr le \<Longrightarrow> i \<le> j \<Longrightarrow> j < h_reloc_count h \<Longrightarrow>
   (\<exists>lr' le'. reloc_ok b h j lr' le' \<and> (i < j \<longrightarrow> lr' = patch_region b h (j - 1) \<and> le' = patch_end b h (j - 1)))"
proof (induction b h i lr le rule: check_relocs.induct)
  case (1 b h i lr le)
  have lt: "i < h_reloc_count h" using "1.prems" by simp
  have here: "reloc_ok b h i lr le" "check_relocs b h (Suc i) (patch_region b h i) (patch_end b h i)"
    using "1.prems"(1) lt by (simp_all add: check_relocs.simps[of b h i] Let_def split: if_splits)
  show ?case
  proof (cases "i = j")
    case True
    then show ?thesis using here(1) by blast
  next
    case False
    then have sj: "Suc i \<le> j" using "1.prems"(2) by simp
    have IH: "\<exists>lr' le'. reloc_ok b h j lr' le' \<and>
        (Suc i < j \<longrightarrow> lr' = patch_region b h (j - 1) \<and> le' = patch_end b h (j - 1))"
      using "1.IH"[OF lt _ refl here(2) sj "1.prems"(3)] here(1) by blast
    show ?thesis
    proof (cases "Suc i = j")
      case True
      have jj: "j < h_reloc_count h" by (rule "1.prems")
      have "reloc_ok b h j (patch_region b h i) (patch_end b h i)"
        using here(2) jj unfolding True[symmetric] by (simp add: check_relocs.simps[of b h "Suc i"] Let_def split: if_splits)
      then show ?thesis using True by auto
    next
      case False
      then show ?thesis using IH sj by auto
    qed
  qed
qed

lemma relocs_step:
  assumes "check_relocs b h 0 0 0" "Suc j < h_reloc_count h"
  shows "patch_region b h j < patch_region b h (Suc j) \<or>
    (patch_region b h j = patch_region b h (Suc j) \<and> patch_end b h j \<le> rl_patch_offset (read_reloc b h (Suc j)))"
  using check_relocs_from[OF assms(1) _ assms(2)] by (auto simp: reloc_ok_def Let_def)

lemma relocs_sorted:
  assumes "check_relocs b h 0 0 0"
  shows "i < j \<Longrightarrow> j < h_reloc_count h \<Longrightarrow> patch_region b h i < patch_region b h j \<or>
    (patch_region b h i = patch_region b h j \<and> patch_end b h i \<le> rl_patch_offset (read_reloc b h j))"
proof (induction j)
  case (Suc j)
  note S = relocs_step[OF assms Suc.prems(2)]
  show ?case
  proof (cases "i = j")
    case True
    then show ?thesis using S by simp
  next
    case False
    then have "i < j" using Suc.prems(1) by simp
    then show ?thesis using Suc.IH Suc.prems(2) S by auto
  qed
qed simp

text \<open>
  Relocation patches are safe. In an image whose relocation table passes the checks, every patch lies
  inside the memory of its region, its type is one of the four defined ones, its target is inside the
  target region (or a bound import), and no two patches overlap: relocations of one region are sorted
  and each ends before the next starts.
\<close>

theorem rief_relocs_safe:
  assumes "check_relocs b h 0 0 0" "i < h_reloc_count h"
  shows "patch_region b h i < h_region_count h \<and>
     patch_end b h i \<le> r_memory_size (read_region b h (patch_region b h i)) \<and>
     rl_type (read_reloc b h i) \<in> {RIEF_RELOC_ABS64, RIEF_RELOC_REL32, RIEF_RELOC_REL64, RIEF_RELOC_IMPORT64} \<and>
     (if rl_type (read_reloc b h i) = RIEF_RELOC_IMPORT64 then rl_target_region (read_reloc b h i) < h_import_count h
      else rl_target_region (read_reloc b h i) < h_region_count h \<and>
           rl_target_offset (read_reloc b h i) \<le> r_memory_size (read_region b h (rl_target_region (read_reloc b h i)))) \<and>
     (\<forall>j < h_reloc_count h. i \<noteq> j \<longrightarrow> patch_region b h i = patch_region b h j \<longrightarrow>
        apart (rl_patch_offset (read_reloc b h i)) (reloc_width (read_reloc b h i))
              (rl_patch_offset (read_reloc b h j)) (reloc_width (read_reloc b h j)))"
proof -
  obtain lr le where ok: "reloc_ok b h i lr le" using check_relocs_from[OF assms(1) _ assms(2)] by auto
  have ty: "rl_type (read_reloc b h i) \<in> {RIEF_RELOC_ABS64, RIEF_RELOC_REL32, RIEF_RELOC_REL64, RIEF_RELOC_IMPORT64}"
  proof -
    have "1 \<le> rl_type (read_reloc b h i)" "rl_type (read_reloc b h i) \<le> 4"
      using ok by (auto simp: reloc_ok_def Let_def RIEF_RELOC_ABS64_def RIEF_RELOC_IMPORT64_def)
    then have "rl_type (read_reloc b h i) \<in> {1, 2, 3, 4}" by auto
    then show ?thesis
      by (simp add: RIEF_RELOC_ABS64_def RIEF_RELOC_REL32_def RIEF_RELOC_REL64_def RIEF_RELOC_IMPORT64_def)
  qed
  have dis: "apart (rl_patch_offset (read_reloc b h i)) (reloc_width (read_reloc b h i))
              (rl_patch_offset (read_reloc b h j)) (reloc_width (read_reloc b h j))"
    if "j < h_reloc_count h" "i \<noteq> j" "patch_region b h i = patch_region b h j" for j
    using relocs_sorted[OF assms(1), of i j] relocs_sorted[OF assms(1), of j i] that assms(2)
    by (cases "i < j") (auto simp: apart_def)
  show ?thesis using ok ty dis by (auto simp: reloc_ok_def Let_def span_ok_iff split: if_splits)
qed

definition ex_reloc_header :: rief_header_t where
  "ex_reloc_header = (read_header (\<lambda>_. 0))\<lparr>h_reloc_count := 2, h_region_count := 1, h_region_table_offset := 80\<rparr>"

text \<open>Two absolute relocations at offsets 0 and 8 of a region of 16 bytes.\<close>

definition ex_reloc_image :: bytes where
  "ex_reloc_image = (\<lambda>_. 0)(4 := 1, 44 := 1, 56 := 8, 104 := 16)"

lemma ex_reloc_fields:
  "h_reloc_count ex_reloc_header = 2" "h_region_count ex_reloc_header = 1" "h_import_count ex_reloc_header = 0"
  "h_region_table_offset ex_reloc_header = 80" "h_reloc_table_offset ex_reloc_header = 0"
  by (simp_all add: ex_reloc_header_def read_header_def rd64_def rd32_def rd16_def)

lemma ex_reloc_read:
  "read_reloc ex_reloc_image ex_reloc_header 0 = \<lparr>rl_patch_region = 0, rl_type = 1, rl_target_region = 0,
     rl_reserved = 0, rl_patch_offset = 0, rl_target_offset = 0, rl_addend = 0\<rparr>"
  "read_reloc ex_reloc_image ex_reloc_header (Suc 0) = \<lparr>rl_patch_region = 0, rl_type = 1, rl_target_region = 0,
     rl_reserved = 0, rl_patch_offset = 8, rl_target_offset = 0, rl_addend = 0\<rparr>"
  "r_memory_size (read_region ex_reloc_image ex_reloc_header 0) = 16"
  by (simp_all add: read_reloc_def read_region_def ex_reloc_fields ex_reloc_image_def rd64_def rd32_def rd16_def Let_def)

lemma ex_relocs_ok: "check_relocs ex_reloc_image ex_reloc_header 0 0 0"
  by (simp add: check_relocs.simps[of _ _ 0] check_relocs.simps[of _ _ "Suc 0"] check_relocs.simps[of _ _ "Suc (Suc 0)"]
      ex_reloc_fields reloc_ok_def Let_def ex_reloc_read reloc_width_def RIEF_RELOC_REL32_def RIEF_RELOC_ABS64_def
      RIEF_RELOC_IMPORT64_def span_ok_def)

theorem rief_relocs_safe_witness:
  "check_relocs ex_reloc_image ex_reloc_header 0 0 0 \<and> apart 0 8 8 8 \<and>
   patch_end ex_reloc_image ex_reloc_header 0 \<le> r_memory_size (read_region ex_reloc_image ex_reloc_header 0)"
proof -
  have i: "0 < h_reloc_count ex_reloc_header" "Suc 0 < h_reloc_count ex_reloc_header" by (simp_all add: ex_reloc_fields)
  have "apart (rl_patch_offset (read_reloc ex_reloc_image ex_reloc_header 0)) (reloc_width (read_reloc ex_reloc_image ex_reloc_header 0))
      (rl_patch_offset (read_reloc ex_reloc_image ex_reloc_header (Suc 0))) (reloc_width (read_reloc ex_reloc_image ex_reloc_header (Suc 0)))"
    using rief_relocs_safe[OF ex_relocs_ok i(1)] i(2) ex_reloc_read(1,2)
    by (metis (no_types, lifting) n_not_Suc_n rief_reloc_t.select_convs(1))
  moreover have "patch_end ex_reloc_image ex_reloc_header 0 \<le> r_memory_size (read_region ex_reloc_image ex_reloc_header 0)"
    using rief_relocs_safe[OF ex_relocs_ok i(1)] by (simp add: ex_reloc_read)
  ultimately show ?thesis using ex_relocs_ok
    by (simp add: ex_reloc_read reloc_width_def RIEF_RELOC_REL32_def)
qed

section \<open>A failed load\<close>

text \<open>The loader changes no address space but the next address and the page count of its own.\<close>

definition own_space :: "nat \<Rightarrow> vm \<Rightarrow> vm \<Rightarrow> bool" where
  "own_space i s s' \<longleftrightarrow> (\<exists>a n. same_spaces (space_upd i (\<lambda>sp. sp\<lparr>as_next := a, as_pages := n\<rparr>) s) s')"

lemma own_space_same: "same_spaces s s' \<Longrightarrow> own_space i s s'"
  unfolding own_space_def same_spaces_def
  by (intro exI[of _ "as_next (vm_spaces s i)"] exI[of _ "as_pages (vm_spaces s i)"]) simp

lemma own_space_trans: "own_space i s s1 \<Longrightarrow> own_space i s1 s2 \<Longrightarrow> own_space i s s2"
  unfolding own_space_def same_spaces_def by force

lemma as_unmap_page_spaces: "same_spaces s (as_unmap_page root a s)"
  unfolding as_unmap_page_def Let_def using st_spaces vm_free_spaces same_spaces_trans by blast

lemma as_alloc_spaces: "x86_64_as_alloc i n al rwx s = (r, s') \<Longrightarrow> own_space i s s'"
proof -
  assume a: "x86_64_as_alloc i n al rwx s = (r, s')"
  let ?n = "ALIGN_UP n 4096 div 4096" and ?v = "ALIGN_UP (as_next (vm_spaces s i)) (if al < 4096 then 4096 else al)"
  obtain e d s1 where l: "as_map_loop (as_root (vm_spaces s i)) ?v ?n (user_flags rwx) 0 s = (e, d, s1)"
    by (metis prod_cases3)
  have L: "same_spaces s s1" by (rule as_map_loop_spaces[OF l])
  have U: "same_spaces s1 (as_unmap_loop root v d s1)" for root v
    unfolding as_unmap_loop_def by (rule fold_spaces) (rule as_unmap_page_spaces)
  note run = a[unfolded x86_64_as_alloc_def Let_def l prod.case]
  have "s' = s \<or> s' = as_unmap_loop (as_root (vm_spaces s i)) ?v d s1 \<or>
      (\<exists>x y. s' = space_upd i (\<lambda>sp. sp\<lparr>as_next := x, as_pages := y\<rparr>) s1)"
    using run by (auto split: if_splits)
  then show ?thesis
  proof (elim disjE exE)
    assume "s' = s" then show ?thesis by (simp add: own_space_same)
  next
    assume "s' = as_unmap_loop (as_root (vm_spaces s i)) ?v d s1"
    then show ?thesis using same_spaces_trans[OF L U] by (simp add: own_space_same)
  next
    fix x y assume "s' = space_upd i (\<lambda>sp. sp\<lparr>as_next := x, as_pages := y\<rparr>) s1"
    then show ?thesis using L unfolding own_space_def same_spaces_def by (intro exI[of _ x] exI[of _ y]) simp
  qed
qed

lemma as_copy_to_spaces: "as_copy_to root u b off n s = (e, s') \<Longrightarrow> same_spaces s s'"
proof (induction root u b off n s rule: as_copy_to.induct)
  case (1 root u b off n s)
  show ?case
  proof (cases "n = 0")
    case True
    with "1.prems" show ?thesis by (simp add: as_copy_to.simps[of root u b off 0 s])
  next
    case False
    show ?thesis
    proof (cases "x86_64_vmm_translate root u s")
      case (Inl d)
      with "1.prems" False show ?thesis by (simp add: as_copy_to.simps[of root u b off n s])
    next
      case (Inr y)
      obtain p fl where y: "y = (p, fl)" by fastforce
      let ?c = "min n (4096 - u mod 4096)"
      let ?s = "s\<lparr>vm_pmm := (vm_pmm s)\<lparr>ram := put_bytes (ram (vm_pmm s)) p b off ?c\<rparr>\<rparr>"
      have "as_copy_to root (u + ?c) b (off + ?c) (n - ?c) ?s = (e, s')"
        using "1.prems" False Inr y by (simp add: as_copy_to.simps[of root u b off n s] Let_def)
      then have "same_spaces ?s s'" using "1.IH"[OF False Inr y[symmetric] refl] by simp
      then show ?thesis by (simp add: same_spaces_def)
    qed
  qed
qed

lemma as_copy_page:
  assumes "x86_64_vmm_translate root u s = Inr (p, fl)" "0 < n" "n \<le> 4096 - u mod 4096"
  shows "\<exists>s'. as_copy_to root u b off n s = (0, s')"
proof -
  have "min n (4096 - u mod 4096) = n" using assms(3) by simp
  then show ?thesis using assms(1,2) by (simp add: as_copy_to.simps[of root u b off n] as_copy_to.simps[of _ _ _ _ 0] Let_def)
qed

lemma copy_in_spaces: "x86_64_as_copy_in i u b n l s = (e, s') \<Longrightarrow> same_spaces s s'"
  unfolding x86_64_as_copy_in_def
  by (auto split: prod.splits if_splits dest: as_check_spaces as_copy_to_spaces intro: same_spaces_trans)

lemma bind_import_spaces: "bind_import as sy bs f v = (r, v') \<Longrightarrow> same_spaces v v'"
proof (induction as sy bs f v rule: bind_import.induct)
  case (2 as sy nm ad bs f v)
  obtain e v1 where c: "x86_64_as_check as ad 1 False v = (e, v1)" by fastforce
  show ?case using "2.prems" "2.IH" c as_check_spaces[OF c]
    by (auto split: option.splits if_splits intro: same_spaces_trans)
qed simp

lemma check_imports_spaces: "check_imports b h as bs is v = (r, v') \<Longrightarrow> same_spaces v v'"
proof (induction "is" arbitrary: v r v')
  case (Cons i js)
  obtain no re where ri: "read_import b h i = (no, re)" by fastforce
  obtain e sy where rs: "rief_string b h no = (e, sy)" by fastforce
  obtain f v1 where bi: "bind_import as sy bs None v = (f, v1)" by fastforce
  obtain g v2 where ci: "check_imports b h as bs js v1 = (g, v2)" by fastforce
  note S = bind_import_spaces[OF bi] Cons.IH[OF ci]
  show ?case using Cons.prems ri rs bi ci S
    by (auto split: if_splits sum.splits option.splits intro: same_spaces_trans)
qed simp

lemma bind_import_error: "bind_import as sy bs f v = (Inl e, v') \<Longrightarrow> e \<noteq> 0"
proof (induction as sy bs f v rule: bind_import.induct)
  case (2 as sy nm ad bs f v)
  obtain e1 v1 where c: "x86_64_as_check as ad 1 False v = (e1, v1)" by fastforce
  show ?case using "2.prems" "2.IH" c by (auto split: option.splits if_splits)
qed simp

lemma check_imports_error: "check_imports b h as bs is v = (Inl d, v') \<Longrightarrow> d \<noteq> 0"
proof (induction "is" arbitrary: v v' d)
  case (Cons i js)
  obtain no re where ri: "read_import b h i = (no, re)" by fastforce
  obtain e sy where rs: "rief_string b h no = (e, sy)" by fastforce
  obtain f v1 where bi: "bind_import as sy bs None v = (f, v1)" by fastforce
  obtain g v2 where ci: "check_imports b h as bs js v1 = (g, v2)" by fastforce
  show ?case using Cons.prems Cons.IH ri rs bi ci bind_import_error
    by (fastforce split: if_splits sum.splits option.splits)
qed simp

lemma check_exports_keeps:
  "check_exports b h i p = (r, p') \<Longrightarrow> p' = p\<lparr>p_exports := p_exports p'\<rparr>"
proof (induction b h i p rule: check_exports.induct)
  case (1 b h i p)
  obtain no rg off where re: "read_export b h i = (no, rg, off)" by (metis prod_cases3)
  obtain e nm where rs: "rief_string b h no = (e, nm)" by fastforce
  define q where "q = p\<lparr>p_exports := (p_exports p)(i := (nm, snd (p_exports p i)))\<rparr>"
  define dup where "dup \<longleftrightarrow> (\<exists>j\<in>set [0..<i]. str_eq (fst (p_exports q i)) (fst (p_exports q j)))"
  note eq = check_exports.simps[of b h i p, unfolded re rs Let_def prod.case, folded q_def, folded dup_def]
  have qp: "q\<lparr>p_exports := x\<rparr> = p\<lparr>p_exports := x\<rparr>" for x by (simp add: q_def)
  consider (go) "i < h_export_count h" "\<not> (rg \<ge> h_region_count h \<or> off \<ge> r_memory_size (read_region b h rg))"
      "e = 0" "\<not> dup" "check_exports b h (Suc i) q = (r, p')"
    | (stop) "p' = p \<or> p' = q"
    using "1.prems" unfolding eq by (auto split: if_splits)
  then show ?case
  proof cases
    case go
    have "\<not> e \<noteq> 0" using go(3) by simp
    from "1.IH"[OF go(1) re[symmetric] refl refl go(2) rs[symmetric] refl q_def this go(4)[unfolded dup_def] go(5)]
    show ?thesis unfolding qp .
  next
    case stop
    then show ?thesis using qp[of "p_exports q"] by auto
  qed
qed

lemma map_regions_keeps:
  "map_regions b h as i p v = (e, p', v') \<Longrightarrow>
   p' = p\<lparr>p_region_base := p_region_base p', p_region_size := p_region_size p'\<rparr> \<and> own_space as v v'"
proof (induction b h as i p v rule: map_regions.induct)
  case (1 b h as i p v)
  let ?r = "read_region b h i"
  show ?case
  proof (cases "i < h_region_count h")
    case False
    then show ?thesis using "1.prems" by (simp add: map_regions.simps[of b h as i p v] own_space_same)
  next
    case True
    obtain x v1 where a: "x86_64_as_alloc as (r_memory_size ?r) (r_alignment ?r) (r_flags ?r) v = (x, v1)" by fastforce
    note A = as_alloc_spaces[OF a]
    note eq = map_regions.simps[of b h as i p v, unfolded if_P[OF True] Let_def a prod.case]
    show ?thesis
    proof (cases x)
      case (Inl d)
      then show ?thesis using "1.prems" A unfolding eq by auto
    next
      case (Inr base)
      let ?p = "p\<lparr>p_region_base := (p_region_base p)(i := base), p_region_size := (p_region_size p)(i := r_memory_size ?r)\<rparr>"
      obtain d v2 where c: "x86_64_as_copy_in as base (\<lambda>j. b (r_file_offset ?r + j)) (r_file_size ?r) True v1 = (d, v2)" by fastforce
      have C: "own_space as v v2" using own_space_trans[OF A own_space_same[OF copy_in_spaces[OF c]]] .
      show ?thesis
      proof (cases "d = 0")
        case False
        then show ?thesis using "1.prems" Inr c C unfolding eq by auto
      next
        case d: True
        then have "map_regions b h as (Suc i) ?p v2 = (e, p', v')" using "1.prems" Inr c unfolding eq by auto
        then have "p' = ?p\<lparr>p_region_base := p_region_base p', p_region_size := p_region_size p'\<rparr> \<and> own_space as v2 v'"
          using "1.IH"[OF True refl a[symmetric] Inr refl c[symmetric]] d by blast
        then show ?thesis using own_space_trans[OF C] by simp
      qed
    qed
  qed
qed

lemma apply_reloc_spaces: "apply_reloc as ims r p v = (e, v') \<Longrightarrow> same_spaces v v'"
proof -
  assume a: "apply_reloc as ims r p v = (e, v')"
  show ?thesis
  proof (cases "reloc_target r ims p")
    case None
    with a show ?thesis by (simp add: apply_reloc_def)
  next
    case (Some tg)
    obtain d v1 where c: "(if rl_type r = RIEF_RELOC_IMPORT64 then x86_64_as_check as tg 1 False v else (0, v)) = (d, v1)" by fastforce
    have C: "same_spaces v v1" using c as_check_spaces by (auto split: if_splits)
    have D: "x86_64_as_copy_in i u b n l v1 = (x, y) \<Longrightarrow> same_spaces v y" for i u b n l x y
      using copy_in_spaces C same_spaces_trans by blast
    note eq = a[unfolded apply_reloc_def Some option.case c prod.case Let_def]
    show ?thesis using eq C D by (auto split: if_splits option.splits)
  qed
qed

lemma apply_relocs_spaces: "apply_relocs b h as ims is p v = (e, v') \<Longrightarrow> same_spaces v v'"
proof (induction "is" arbitrary: v)
  case (Cons i js)
  obtain d v1 where a: "apply_reloc as ims (read_reloc b h i) p v = (d, v1)" by fastforce
  then show ?case using Cons apply_reloc_spaces[OF a] by (auto split: if_splits intro: same_spaces_trans)
qed simp

text \<open>Rolling back restores the address space record.\<close>

lemma fold_snd_spaces:
  assumes "\<And>i em s. same_spaces s (snd (f i (em, s)))"
  shows "same_spaces (snd q) (snd (fold f xs q))"
proof (induction xs arbitrary: q)
  case (Cons i js)
  have "same_spaces (snd q) (snd (f i q))" using assms[of "snd q" i "fst q"] by simp
  then show ?case using Cons.IH[of "f i q"] same_spaces_trans by auto
qed simp

lemma rollback_tree_spaces: "same_spaces s (snd (rollback_tree l t base from s))"
proof (induction l arbitrary: t base s)
  case (Suc l)
  have F: "same_spaces s (st t i 0 (vm_free q n s))"
    "same_spaces s u \<Longrightarrow> same_spaces s (st t i 0 (vm_free q n u))" for s u i q n
    using st_spaces vm_free_spaces same_spaces_trans by blast+
  define f where "f = (\<lambda>i (empty, s). let e = ld s t i; span = 2 ^ (12 + 9 * l); a = base + i * span in
       if \<not> has e PAGE_PRESENT then
         if has e X86_LAZY \<and> a \<ge> from then (empty, st t i 0 s)
         else (empty \<and> e = 0, s)
       else if a + span > from then
         if Suc l = 2 \<and> has e PAGE_LARGE \<and> a \<ge> from then (empty, st t i 0 (vm_free (phys e) 512 s))
         else if l = 0 then (empty, st t i 0 (vm_free (phys e) 1 s))
         else case rollback_tree l (phys e) a from s of
           (True, s) \<Rightarrow> (empty, st t i 0 (vm_free (phys e) 1 s))
         | (False, s) \<Rightarrow> (False, s)
       else (False, s))"
  have "same_spaces s (snd (f i (em, s)))" for i em s
  proof -
    obtain x s1 where r: "rollback_tree l (phys (ld s t i)) (base + i * 2 ^ (12 + 9 * l)) from s = (x, s1)" by fastforce
    have S: "same_spaces s s1" using Suc.IH[where s = s] r by (metis snd_conv)
    show ?thesis unfolding f_def using S F r by (auto simp: Let_def split: bool.splits)
  qed
  from fold_snd_spaces[of f "(True, s)" "[0..<512]", OF this] show ?case
    unfolding rollback_tree.simps f_def[symmetric] by simp
qed simp

lemma rollback_restores:
  assumes "own_space i v v'"
  shows "same_spaces v (x86_64_as_rollback i (as_next (vm_spaces v i)) (as_pages (vm_spaces v i)) v')"
proof -
  let ?root = "as_root (vm_spaces v' i)"
  let ?e = "ld v' ?root USER_SLOT"
  obtain em v1 where r: "rollback_tree 3 (phys ?e) K_USER_BASE (as_next (vm_spaces v i)) v' = (em, v1)" by fastforce
  have r1: "same_spaces v' v1" using rollback_tree_spaces[of v' 3 "phys ?e" K_USER_BASE "as_next (vm_spaces v i)"] r by simp
  have F: "same_spaces v' (st ?root USER_SLOT 0 (vm_free (phys ?e) 1 v1))"
    using r1 st_spaces vm_free_spaces same_spaces_trans by blast
  define v2 where "v2 = (if has ?e PAGE_PRESENT then (if em then st ?root USER_SLOT 0 (vm_free (phys ?e) 1 v1) else v1) else v')"
  have S: "same_spaces v' v2"
    using r1 F unfolding v2_def by simp
  have "x86_64_as_rollback i (as_next (vm_spaces v i)) (as_pages (vm_spaces v i)) v' =
      space_upd i (\<lambda>a. a\<lparr>as_next := as_next (vm_spaces v i), as_pages := as_pages (vm_spaces v i)\<rparr>) v2"
    unfolding x86_64_as_rollback_def Let_def r v2_def by (auto split: bool.splits)
  moreover have "same_spaces v (space_upd i (\<lambda>a. a\<lparr>as_next := as_next (vm_spaces v i), as_pages := as_pages (vm_spaces v i)\<rparr>) v2)"
    using assms S unfolding own_space_def same_spaces_def by auto
  ultimately show ?thesis by simp
qed

section \<open>The stages of a load\<close>

text \<open>A load either stops in the checks, or fails after mapping began and is rolled back, or succeeds.\<close>

lemma rief_load_cases:
  assumes "rief_load_locked as img n bindings p v = (e, p', v')"
  obtains (checks) "e \<noteq> 0" "same_spaces v v'" "p' = p\<lparr>p_exports := p_exports p'\<rparr>"
  | (undone) p1 p2 v1 v2 where "e \<noteq> 0" "same_spaces v v1" "p1 = p\<lparr>p_exports := p_exports p1\<rparr>"
      "p2 = p1\<lparr>p_region_base := p_region_base p2, p_region_size := p_region_size p2\<rparr>" "own_space as v1 v2"
      "(p', v') = rief_fail as (as_next (vm_spaces v1 as)) (as_pages (vm_spaces v1 as)) p2 v2"
  | (loaded) b ims p1 p2 v1 v2 where "e = 0" "img = Some b" "\<not> p_loaded p" "p_task_id p = 0" "n \<le> 64 * 1024 * 1024"
      "header_ok b n (read_header b)" "meta_ok n (read_header b)" "check_regions b n (read_header b) 0 0 = 0"
      "entry_ok b (read_header b)" "check_relocs b (read_header b) 0 0 0"
      "map_regions b (read_header b) as 0 p1 v1 = (0, p2, v2)"
      "apply_relocs b (read_header b) as ims [0..<h_reloc_count (read_header b)] p2 v2 = (0, v')"
      "p' = (set_exports b (read_header b) p2)\<lparr>p_region_count := h_region_count (read_header b),
         p_export_count := h_export_count (read_header b),
         p_entry := p_region_base (set_exports b (read_header b) p2) (h_entry_region (read_header b)) +
           h_entry_offset (read_header b), p_loaded := True\<rparr>"
proof (cases img)
  case None
  then show thesis using assms by (intro checks) (auto simp: rief_load_locked_def)
next
  case (Some b)
  let ?h = "read_header b"
  obtain im v1 where i: "check_imports b ?h as bindings [0..<h_import_count ?h] v = (im, v1)" by fastforce
  obtain ok p1 where x: "check_exports b ?h 0 p = (ok, p1)" by fastforce
  obtain e2 p2 v2 where mr: "map_regions b ?h as 0 p1 v1 = (e2, p2, v2)" by (metis prod_cases3)
  note I = check_imports_spaces[OF i] and X = check_exports_keeps[OF x] and M = map_regions_keeps[OF mr]
  have ze: "K_EINVAL \<noteq> 0" "K_ENOEXEC \<noteq> 0" by simp_all
  have imp: "im = Inl d \<Longrightarrow> d \<noteq> 0" for d
    using i by (auto dest: check_imports_error)
  note run = assms[unfolded rief_load_locked_def Some option.case Let_def i prod.case]
  show thesis
  proof (cases "p_loaded p \<or> p_task_id p \<noteq> 0 \<or> length bindings > 64 \<or> n < 96 \<or> n > 64 * 1024 * 1024 \<or>
      \<not> header_ok b n ?h \<or> \<not> meta_ok n ?h \<or> check_regions b n ?h 0 0 \<noteq> 0 \<or> \<not> entry_ok b ?h")
    case True
    then have "e \<noteq> 0 \<and> p' = p \<and> v' = v" using run by (auto split: if_splits)
    then show thesis by (intro checks) simp_all
  next
    case False
    show thesis
    proof (cases im)
      case (Inl d)
      then have "e = d \<and> p' = p \<and> v' = v1" using run False by (simp split: if_splits)
      then show thesis using imp[OF Inl] I by (intro checks) simp_all
    next
      case (Inr ims)
      show thesis
      proof (cases "check_relocs b ?h 0 0 0 \<and> ok")
        case bad: False
        then have "e \<noteq> 0 \<and> (p' = p \<or> p' = p1) \<and> v' = v1" using run False Inr x by (auto split: if_splits bool.splits)
        then show thesis using I X by (intro checks) auto
      next
        case ok: True
        obtain e3 v3 where ar: "apply_relocs b ?h as ims [0..<h_reloc_count ?h] p2 v2 = (e3, v3)" by fastforce
        have run2: "(if e2 \<noteq> 0 then (e2, rief_fail as (as_next (vm_spaces v1 as)) (as_pages (vm_spaces v1 as)) p2 v2)
            else if e3 \<noteq> 0 then (e3, rief_fail as (as_next (vm_spaces v1 as)) (as_pages (vm_spaces v1 as)) p2 v3)
            else (0, (set_exports b ?h p2)\<lparr>p_region_count := h_region_count ?h, p_export_count := h_export_count ?h,
               p_entry := p_region_base (set_exports b ?h p2) (h_entry_region ?h) + h_entry_offset ?h,
               p_loaded := True\<rparr>, v3)) = (e, p', v')"
          using run False Inr x ok mr ar by (simp split: if_splits)
        consider "e2 \<noteq> 0" | "e2 = 0" "e3 \<noteq> 0" | "e2 = 0" "e3 = 0" by blast
        then show thesis
        proof cases
          case 1
          then show thesis using run2 I X M by (intro undone[of v1 p1 p2 v2]) auto
        next
          case 2
          have "own_space as v1 v3" using own_space_trans own_space_same[OF apply_relocs_spaces[OF ar]] M by blast
          then show thesis using 2 run2 I X M by (intro undone[of v1 p1 p2 v3]) auto
        next
          case 3
          show thesis
            by (rule loaded[of b p1 v1 p2 v2 ims]) (use 3 run2 Some False ok mr ar in auto)
        qed
      qed
    qed
  qed
qed

section \<open>Example image\<close>

text \<open>One executable region of a single byte at file offset 128.\<close>

definition ex_image :: bytes where
  "ex_image = (\<lambda>_. 0)(0 := 0x52, 1 := 0x49, 2 := 0x45, 3 := 0x46, 4 := 1, 8 := 1, 12 := 96, 16 := 1, 32 := 96,
     96 := 5, 100 := 16, 104 := 128, 112 := 1, 120 := 100, 128 := 0xc3)"

definition ex_header :: rief_header_t where
  "ex_header = \<lparr>h_magic = RIEF_MAGIC, h_version_major = 1, h_version_minor = 0, h_architecture = 1, h_flags = 0,
     h_header_size = 96, h_region_count = 1, h_reloc_count = 0, h_import_count = 0, h_export_count = 0,
     h_region_table_offset = 96, h_reloc_table_offset = 0, h_import_table_offset = 0, h_export_table_offset = 0,
     h_string_table_offset = 0, h_string_table_size = 0, h_entry_region = 0, h_reserved = 0, h_entry_offset = 0\<rparr>"

lemma ex_header_read: "read_header ex_image = ex_header"
  by (simp add: read_header_def ex_image_def ex_header_def RIEF_MAGIC_def rd64_def rd32_def rd16_def)

lemma ex_region_read: "read_region ex_image ex_header 0 =
    \<lparr>r_flags = RIEF_REGION_R OR RIEF_REGION_X, r_alignment = 16, r_file_offset = 128, r_file_size = 1, r_memory_size = 100\<rparr>"
  by (simp add: read_region_def ex_image_def ex_header_def rd64_def rd32_def rd16_def RIEF_REGION_R_def RIEF_REGION_X_def Let_def)

lemma ex_counts: "h_region_count ex_header = 1" "h_reloc_count ex_header = 0" "h_import_count ex_header = 0"
  "h_export_count ex_header = 0" "h_entry_region ex_header = 0" "h_entry_offset ex_header = 0"
  by (simp_all add: ex_header_def)

lemma ex_meta: "meta ex_header = [(0, 96), (96, 32), (0, 0), (0, 0), (0, 0), (0, 0)]"
  by (simp add: meta_def ex_header_def)

lemma ex_image_checks:
  "header_ok ex_image 129 ex_header" "meta_ok 129 ex_header" "check_regions ex_image 129 ex_header 0 0 = 0"
  "entry_ok ex_image ex_header" "check_relocs ex_image ex_header 0 0 0"
proof -
  have up: "[0..<6] = [0, 1, 2, 3, 4, 5]" "[0..<5] = [0, 1, 2, 3, 4]" "[0..<4] = [0, 1, 2, 3]" "[0..<3] = [0, 1, 2]"
    "[0..<2] = [0, 1]" "[0..<1] = [0]" "[0..<0] = []" by (simp_all add: upt_rec)
  have o: "\<not> overlap a 0 b m" "\<not> overlap a n b 0" for a b n m by (simp_all add: overlap_def)
  have p: "\<not> overlap 96 32 0 96" "\<not> overlap 128 1 0 96" "\<not> overlap 128 1 96 32" by (simp_all add: overlap_def add64_def)
  show "header_ok ex_image 129 ex_header"
    by (simp add: header_ok_def ex_header_def RIEF_MAGIC_def RIEF_ARCH_X86_64_def MAX_REGIONS_def MAX_EXPORTS_def)
  show "meta_ok 129 ex_header" unfolding meta_ok_def up ex_meta
    by (simp add: up[simplified] span_ok_def o p)
  have r: "region_ok 129 (read_region ex_image ex_header 0)" unfolding ex_region_read
    by (simp add: region_ok_def RIEF_REGION_R_def RIEF_REGION_X_def span_ok_def power2_def)
  have d: "region_disjoint ex_image ex_header 0" unfolding region_disjoint_def up ex_region_read ex_meta
    using p by (simp add: o)
  have "ALIGN_UP 100 4096 = 4096" using ALIGN_UP_eq[of 100 12] by simp
  then show "check_regions ex_image 129 ex_header 0 0 = 0"
    using r d by (simp add: check_regions.simps[of _ _ _ 0] check_regions.simps[of _ _ _ "Suc 0"] ex_region_read ex_counts)
  show "entry_ok ex_image ex_header"
    unfolding entry_ok_def Let_def by (simp add: ex_counts ex_region_read RIEF_REGION_R_def RIEF_REGION_X_def)
  show "check_relocs ex_image ex_header 0 0 0" by (simp add: check_relocs.simps[of _ _ 0] ex_counts)
qed

definition ex_process :: k_process where
  "ex_process = zero_process\<lparr>p_used := True, p_id := 1, p_as := Some 0\<rparr>"

lemma ex_process_fields: "\<not> p_loaded ex_process" "p_task_id ex_process = 0"
  by (simp_all add: ex_process_def zero_process_def)

text \<open>Without the no-execute bit the mapping stage fails and is undone.\<close>

lemma ex_load_fails:
  "\<exists>p' v'. rief_load_locked 0 (Some ex_image) 129 [] ex_process (ex_space_vm\<lparr>vm_nx := False\<rparr>) = (K_ENOTSUP, p', v')"
proof -
  let ?v = "ex_space_vm\<lparr>vm_nx := False\<rparr>"
  have "x86_64_as_valid 0 ?v" by (simp add: x86_64_as_valid_def MAX_AS_def ex_space_vm_def)
  then have "x86_64_as_alloc 0 100 16 (RIEF_REGION_R OR RIEF_REGION_X) ?v = (Inl K_ENOTSUP, ?v)"
    using ex_rw_ok(2) by (simp add: x86_64_as_alloc_def power2_def)
  then have "map_regions ex_image ex_header 0 0 ex_process ?v = (K_ENOTSUP, ex_process, ?v)"
    by (simp add: map_regions.simps[of _ _ _ 0] ex_counts ex_region_read Let_def)
  then show ?thesis
    using ex_image_checks ex_process_fields
    by (simp add: rief_load_locked_def ex_header_read Let_def ex_counts check_exports.simps[of _ _ 0] rief_fail_def)
qed

lemma ex_load_succeeds:
  "\<exists>p' v'. rief_load_locked 0 (Some ex_image) 129 [] ex_process ex_space_vm = (0, p', v')"
proof -
  let ?v = "K_USER_BASE + 0x200000" and ?b = "\<lambda>j. ex_image (128 + j)"
  obtain s' T' frame fl where m: "x86_64_as_alloc 0 100 16 (RIEF_REGION_R OR RIEF_REGION_X) ex_space_vm = (Inr ?v, s')"
    and sp: "as_root (vm_spaces s' 0) = 257 * 4096" "as_used (vm_spaces s' 0)"
    and t: "x86_64_vmm_translate (257 * 4096) ?v s' = Inr (frame, fl)" "has fl PAGE_USER"
    using ex_space_mapped[OF ex_rw_ok(2)] by metis
  have "x86_64_as_check 0 ?v 1 False s' = (0, s')"
    using t sp by (intro as_check_page[of s' 0 ?v frame fl])
      (simp_all add: x86_64_as_valid_def MAX_AS_def K_USER_BASE_def K_USER_CANON_LIMIT_def)
  moreover obtain s2 where "as_copy_to (257 * 4096) ?v ?b 0 1 s' = (0, s2)"
    using as_copy_page[OF t(1), of 1 ?b 0] by (auto simp: K_USER_BASE_def)
  ultimately have c: "x86_64_as_copy_in 0 ?v ?b 1 True s' = (0, s2)" by (simp add: x86_64_as_copy_in_def sp)
  let ?p = "ex_process\<lparr>p_region_base := (p_region_base ex_process)(0 := ?v), p_region_size := (p_region_size ex_process)(0 := 100)\<rparr>"
  have "map_regions ex_image ex_header 0 0 ex_process ex_space_vm = (0, ?p, s2)"
    using m c by (simp add: map_regions.simps[of _ _ _ 0] map_regions.simps[of _ _ _ "Suc 0"] ex_counts ex_region_read Let_def)
  then show ?thesis
    using ex_image_checks ex_process_fields
    by (simp add: rief_load_locked_def ex_header_read Let_def ex_counts check_exports.simps[of _ _ 0])
qed



text \<open>
  C3. Only validated images are loaded. When the loader succeeds, every table of the image and the file
  bytes of every region lie inside the image and are pairwise disjoint; every region is readable, of
  at most 64 MiB, and never both writable and executable, and together they fit in 64 MiB; the entry
  point lies in the file bytes of an executable region; and the process, which was neither loaded nor
  started before, now has that entry.
\<close>

theorem rief_load_validated:
  assumes "rief_load_locked as img n bindings p v = (0, p', v')"
  shows "\<exists>b h. img = Some b \<and> h = read_header b \<and> h_magic h = RIEF_MAGIC \<and> n \<le> 64 * 1024 * 1024 \<and>
    (\<forall>i<6. fst (meta h ! i) + snd (meta h ! i) \<le> n) \<and>
    (\<forall>i<6. \<forall>j<i. apart (fst (meta h ! i)) (snd (meta h ! i)) (fst (meta h ! j)) (snd (meta h ! j))) \<and>
    (\<forall>i<h_region_count h. let r = read_region b h i in
       r_file_offset r + r_file_size r \<le> n \<and> r_file_size r \<le> r_memory_size r \<and> rwx_ok (r_flags r) \<and>
       (\<forall>j<6. apart (r_file_offset r) (r_file_size r) (fst (meta h ! j)) (snd (meta h ! j))) \<and>
       (\<forall>j<i. apart (r_file_offset r) (r_file_size r) (r_file_offset (read_region b h j)) (r_file_size (read_region b h j)))) \<and>
    (\<Sum>i<h_region_count h. r_memory_size (read_region b h i)) \<le> 64 * 1024 * 1024 \<and>
    h_entry_region h < h_region_count h \<and>
    r_flags (read_region b h (h_entry_region h)) AND RIEF_REGION_X \<noteq> 0 \<and>
    h_entry_offset h < r_file_size (read_region b h (h_entry_region h)) \<and>
    \<not> p_loaded p \<and> p_task_id p = 0 \<and> p_loaded p' \<and>
    p_entry p' = p_region_base p' (h_entry_region h) + h_entry_offset h"
  using assms
proof (cases rule: rief_load_cases)
  case (loaded b ims p1 p2 v1 v2)
  let ?h = "read_header b"
  have n: "n < 2 ^ 64" using loaded(5) by simp
  have R: "region_ok n (read_region b ?h i)" "region_disjoint b ?h i" if "i < h_region_count ?h" for i
    using check_regions_ok[OF loaded(8) _ that] by simp_all
  have inside: "r_file_offset (read_region b ?h i) + r_file_size (read_region b ?h i) \<le> n" if "i < h_region_count ?h" for i
    using R(1)[OF that] by (simp add: region_ok_def span_ok_iff)
  have reg: "let r = read_region b ?h i in
       r_file_offset r + r_file_size r \<le> n \<and> r_file_size r \<le> r_memory_size r \<and> rwx_ok (r_flags r) \<and>
       (\<forall>j<6. apart (r_file_offset r) (r_file_size r) (fst (meta ?h ! j)) (snd (meta ?h ! j))) \<and>
       (\<forall>j<i. apart (r_file_offset r) (r_file_size r) (r_file_offset (read_region b ?h j)) (r_file_size (read_region b ?h j)))"
    if i: "i < h_region_count ?h" for i
  proof -
    have six: "(6::u32) = RIEF_REGION_W OR RIEF_REGION_X" by (simp add: RIEF_REGION_W_def RIEF_REGION_X_def)
    have "rwx_ok (r_flags (read_region b ?h i))" using R(1)[OF i] unfolding region_ok_def rwx_ok_def six by blast
    moreover have "apart (r_file_offset (read_region b ?h i)) (r_file_size (read_region b ?h i)) (fst (meta ?h ! j)) (snd (meta ?h ! j))"
      if "j < 6" for j
      using R(2)[OF i] overlap_apart[OF inside[OF i] meta_okD(1)[OF loaded(7) that] n] that
      unfolding region_disjoint_def Let_def by auto
    moreover have "apart (r_file_offset (read_region b ?h i)) (r_file_size (read_region b ?h i))
        (r_file_offset (read_region b ?h j)) (r_file_size (read_region b ?h j))" if "j < i" for j
      using R(2)[OF i] overlap_apart[OF inside[OF i] inside n, of j] that i
      unfolding region_disjoint_def Let_def by auto
    ultimately show ?thesis using R(1)[OF i] inside[OF i] unfolding Let_def by (simp add: region_ok_def)
  qed
  have mem: "r_memory_size (read_region b ?h i) \<le> ALIGN_UP (r_memory_size (read_region b ?h i)) 4096"
    if "i < h_region_count ?h" for i
    using ALIGN_UP_eq[of "r_memory_size (read_region b ?h i)" 12] R(1)[OF that] by (simp add: region_ok_def)
  have "(\<Sum>i<h_region_count ?h. r_memory_size (read_region b ?h i)) \<le>
      (\<Sum>i = 0..<h_region_count ?h. ALIGN_UP (r_memory_size (read_region b ?h i)) 4096)"
    unfolding lessThan_atLeast0 using mem by (intro sum_mono) simp
  also have "\<dots> \<le> 64 * 1024 * 1024" using check_regions_total[OF loaded(8)] by simp
  finally have total: "(\<Sum>i<h_region_count ?h. r_memory_size (read_region b ?h i)) \<le> 64 * 1024 * 1024" .
  have hd: "h_magic ?h = RIEF_MAGIC" "h_entry_region ?h < h_region_count ?h" using loaded(6) by (auto simp: header_ok_def)
  have en: "r_flags (read_region b ?h (h_entry_region ?h)) AND RIEF_REGION_X \<noteq> 0"
    "h_entry_offset ?h < r_file_size (read_region b ?h (h_entry_region ?h))"
    using loaded(9) by (auto simp: entry_ok_def Let_def)
  have pe: "p_loaded p'" "p_entry p' = p_region_base p' (h_entry_region ?h) + h_entry_offset ?h"
    unfolding loaded(13) by simp_all
  show ?thesis
    using loaded(2-5) hd en pe total reg meta_okD(1)[OF loaded(7)] meta_apart[OF loaded(7) n]
    by (intro exI[of _ b] exI[of _ ?h]) blast
qed simp_all

theorem rief_load_validated_witness:
  "\<exists>p' v'. rief_load_locked 0 (Some ex_image) 129 [] ex_process ex_space_vm = (0, p', v') \<and> p_loaded p' \<and>
     p_entry p' = p_region_base p' 0"
proof -
  obtain p' v' where l: "rief_load_locked 0 (Some ex_image) 129 [] ex_process ex_space_vm = (0, p', v')"
    using ex_load_succeeds by blast
  obtain b where "Some ex_image = Some b" "p_loaded p'"
    "p_entry p' = p_region_base p' (h_entry_region (read_header b)) + h_entry_offset (read_header b)"
    using rief_load_validated[OF l] by blast
  then show ?thesis using l by (simp add: ex_header_read ex_counts)
qed

end
