(* ===== verification/Process.thy ===== *)
theory Process
  imports Rief Ipc
begin

unbundle bit_operations_syntax

text \<open>
  Processes of \<open>kernel/process.c\<close>: creation, start, destruction, queries, control requests and
  launching. A \<open>k_process *\<close> is an index into the process table, a \<open>task *\<close> an index into the task
  table. The operations run under \<open>process_mutex\<close> and, where the code takes it, \<open>sched_lock\<close>; each
  definition is one such critical section. The file system operations a launch calls are parameters
  over the state \<open>'d\<close> of the file systems; \<open>seed\<close> is the value of \<open>arch_identity_seed\<close>.
\<close>

definition K_EXEC_RING1 :: nat where "K_EXEC_RING1 = 1"
definition K_EXEC_RING3 :: nat where "K_EXEC_RING3 = 3"
definition K_CPU_AUTO :: nat where "K_CPU_AUTO = 0xffffffff"
definition K_PROCESS_ARGS_MAX :: nat where "K_PROCESS_ARGS_MAX = 1024"
definition K_TLS_BYTES :: nat where "K_TLS_BYTES = 65536"
definition K_CTL_KILL :: nat where "K_CTL_KILL = 1"
definition K_CTL_STOP :: nat where "K_CTL_STOP = 2"
definition K_CTL_CONTINUE :: nat where "K_CTL_CONTINUE = 3"

abbreviation set_vm :: "vm \<Rightarrow> kernel \<Rightarrow> kernel" where
  "set_vm v k \<equiv> k\<lparr>k_vm := v\<rparr>"

text \<open>The address space of a process; a null pointer is an index no space has.\<close>

definition p_space :: "nat \<Rightarrow> kernel \<Rightarrow> nat" where
  "p_space i k = (case p_as (k_processes k i) of None \<Rightarrow> MAX_AS | Some a \<Rightarrow> a)"

definition valid_process :: "nat \<Rightarrow> kernel \<Rightarrow> bool" where
  "valid_process i k \<longleftrightarrow> i < MAX_PROCESSES \<and> p_used (k_processes k i)"

section \<open>Creation and start\<close>

definition process_create_locked :: "u64 \<Rightarrow> string option \<Rightarrow> kernel \<Rightarrow> nat option \<times> kernel" where
  "process_create_locked seed name k =
     (case name of
        None \<Rightarrow> (None, k)
      | Some nm \<Rightarrow>
        if k_next_process_id k = 0 then (None, k)
        else case find_from 0 MAX_PROCESSES (\<lambda>i. \<not> p_used (k_processes k i)) of
          None \<Rightarrow> (None, k)
        | Some i \<Rightarrow>
            let pid = k_next_process_id k;
                k = proc_upd i (\<lambda>_. zero_process\<lparr>p_used := True, p_id := pid, p_execution_class := K_EXEC_RING3,
                      p_uuid := wr64 (wr64 (p_uuid zero_process) 0 seed) 8
                        (push_bit 32 (word_of_nat pid) OR word_of_nat pid),
                      p_name := str_copy [] nm 32\<rparr>) k;
                k = k\<lparr>k_next_process_id := add32 pid 1\<rparr> in
            case x86_64_as_create (k_vm k) of
              (None, v) \<Rightarrow> (None, proc_upd i (\<lambda>p. p\<lparr>p_used := False\<rparr>) (set_vm v k))
            | (Some a, v) \<Rightarrow>
                (Some i, proc_upd i (\<lambda>p. p\<lparr>p_as := Some a\<rparr>)
                   (set_vm (space_upd a (\<lambda>sp. sp\<lparr>as_owner := Some i\<rparr>) v) k)))"

definition k_process_space :: "nat \<Rightarrow> kernel \<Rightarrow> nat option" where
  "k_process_space i k = (if valid_process i k then p_as (k_processes k i) else None)"

definition k_process_id :: "nat \<Rightarrow> kernel \<Rightarrow> nat" where
  "k_process_id i k = (if valid_process i k then p_id (k_processes k i) else 0)"

text \<open>The load of a CPU and the first online CPU with the least load.\<close>

definition cpu_load :: "nat \<Rightarrow> kernel \<Rightarrow> nat" where
  "cpu_load c k = (\<Sum>i\<leftarrow>[0..<K_MAX_TASKS].
     if t_cpu (k_tasks k i) = c \<and> \<not> t_idle (k_tasks k i) \<and> t_state (k_tasks k i) \<noteq> K_TASK_UNUSED \<and>
        t_state (k_tasks k i) \<noteq> K_TASK_ZOMBIE
     then t_weight (k_tasks k i) else 0)"

definition auto_cpu :: "kernel \<Rightarrow> nat" where
  "auto_cpu k = snd (fold (\<lambda>c (least, cpu).
     if c_online (k_cpus k c) \<and> cpu_load c k < least then (cpu_load c k, c) else (least, cpu))
     [0..<k_discovered_cpus k] (NEVER, 0))"

definition start_stack :: "nat \<Rightarrow> kernel \<Rightarrow> int \<times> kernel" where
  "start_stack i k =
     (if p_user_stack (k_processes k i) \<noteq> 0 then (0, k)
      else case x86_64_as_alloc (p_space i k) (8 * 4096) 4096 (RIEF_REGION_R OR RIEF_REGION_W) (k_vm k) of
        (Inl e, v) \<Rightarrow> (e, set_vm v k)
      | (Inr stack, v) \<Rightarrow>
          (0, proc_upd i (\<lambda>p. p\<lparr>p_user_stack := x86_64_initial_user_stack (stack + 8 * 4096)\<rparr>) (set_vm v k)))"

text \<open>The thread control block: its own address, the process and the task identifier.\<close>

definition start_tls :: "nat \<Rightarrow> kernel \<Rightarrow> int \<times> kernel" where
  "start_tls i k =
     (if p_tls (k_processes k i) \<noteq> 0 then (0, k)
      else case x86_64_as_alloc (p_space i k) K_TLS_BYTES 4096 (RIEF_REGION_R OR RIEF_REGION_W) (k_vm k) of
        (Inl e, v) \<Rightarrow> (e, set_vm v k)
      | (Inr base, v) \<Rightarrow>
          let k = proc_upd i (\<lambda>p. p\<lparr>p_tls := base\<rparr>) (set_vm v k);
              tcb = wr64 (wr64 (\<lambda>_. 0) 0 (word_of_nat base)) 8 (word_of_nat (p_id (k_processes k i))) in
          case x86_64_copy_to_user (p_space i k) base tcb 24 (k_vm k) of (e, v) \<Rightarrow> (e, set_vm v k))"

definition process_start_locked :: "nat \<Rightarrow> nat \<Rightarrow> kernel \<Rightarrow> (int + nat) \<times> kernel" where
  "process_start_locked i cpu k =
     (if \<not> valid_process i k \<or> \<not> p_loaded (k_processes k i) \<or> p_task_id (k_processes k i) \<noteq> 0
      then (Inl K_EINVAL, k)
      else case start_stack i k of
        (e, k) \<Rightarrow>
          if e \<noteq> 0 then (Inl e, k)
          else case start_tls i k of
            (e, k) \<Rightarrow>
              if e \<noteq> 0 then (Inl e, k)
              else
                let cpu = (if cpu = K_CPU_AUTO then auto_cpu k else cpu) in
                if cpu \<ge> k_discovered_cpus k \<or> \<not> c_online (k_cpus k cpu) then (Inl K_EINVAL, k)
                else case new_task (p_name (k_processes k i)) 0 0 1024 cpu False k of
                  (None, k) \<Rightarrow> (Inl K_ENOMEM, k)
                | (Some t, k) \<Rightarrow>
                    let k = task_upd t (\<lambda>u. u\<lparr>t_process := Some i, t_tls_base := p_tls (k_processes k i)\<rparr>) k;
                        tid = t_id (k_tasks k t);
                        v = snd (x86_64_copy_to_user (p_space i k) (p_tls (k_processes k i) + 16)
                              (wr64 (\<lambda>_. 0) 0 (word_of_nat tid)) 8 (k_vm k));
                        k = x86_64_user_context_init t (p_entry (k_processes k i)) (p_user_stack (k_processes k i)) (set_vm v k) in
                    (Inr tid, proc_upd i (\<lambda>p. p\<lparr>p_task_id := tid, p_state := K_TASK_READY\<rparr>) k))"

section \<open>Destruction\<close>

definition process_resources_release :: "nat \<Rightarrow> kernel \<Rightarrow> kernel" where
  "process_resources_release i k =
     (let pid = p_id (k_processes k i) in
      k\<lparr>k_services := (\<lambda>s. if s < MAX_SERVICES \<and> sv_pid (k_services k s) = pid then zero_service else k_services k s),
        k_partitions := (\<lambda>n. if n < k_partition_count k \<and> pt_owner_pid (k_partitions k n) = pid
           then (k_partitions k n)\<lparr>pt_owner_pid := 0\<rparr> else k_partitions k n),
        k_input_owner := (if k_input_owner k = pid then 0 else k_input_owner k)\<rparr>)"

text \<open>The tasks of a process are freed one after the other; one that a CPU still uses stops the loop.\<close>

fun destroy_tasks :: "nat \<Rightarrow> nat list \<Rightarrow> kernel \<Rightarrow> bool \<times> kernel" where
  "destroy_tasks p [] k = (True, k)"
| "destroy_tasks p (i # is) k =
     (if t_process (k_tasks k i) = Some p then
        if on_cpu i k then (False, k) else destroy_tasks p is (free_task i k)
      else destroy_tasks p is k)"

definition space_in_use :: "nat \<Rightarrow> kernel \<Rightarrow> bool" where
  "space_in_use a k \<longleftrightarrow> (\<exists>i\<in>set [0..<K_MAX_TASKS].
     t_state (k_tasks k i) \<noteq> K_TASK_UNUSED \<and> t_state (k_tasks k i) \<noteq> K_TASK_ZOMBIE \<and>
     (case t_process (k_tasks k i) of None \<Rightarrow> False | Some p \<Rightarrow> p_as (k_processes k p) = Some a))"

definition set_owner :: "nat \<Rightarrow> nat option \<Rightarrow> kernel \<Rightarrow> kernel" where
  "set_owner a p k = vm_upd (space_upd a (\<lambda>sp. sp\<lparr>as_owner := p\<rparr>)) k"

definition process_destroy_locked :: "nat \<Rightarrow> kernel \<Rightarrow> int \<times> kernel" where
  "process_destroy_locked i k =
     (if \<not> valid_process i k then (K_EINVAL, k)
      else if p_task_id (k_processes k i) \<noteq> 0 \<and> p_state (k_processes k i) \<noteq> K_TASK_ZOMBIE then (K_EBUSY, k)
      else case (if p_task_id (k_processes k i) \<noteq> 0 then destroy_tasks i [0..<K_MAX_TASKS] k else (True, k)) of
        (False, k) \<Rightarrow> (K_EBUSY, k)
      | (True, k) \<Rightarrow>
          let a = p_space i k;
              k = set_owner a None (process_resources_release i k) in
          case x86_64_as_destroy (space_in_use a k) a (k_vm k) of
            (e, v) \<Rightarrow>
              if e \<noteq> 0 then (e, set_owner a (Some i) (set_vm v k))
              else (0, proc_upd i (\<lambda>_. zero_process) (set_vm v k)))"

section \<open>Queries\<close>

definition process_by_pid :: "nat \<Rightarrow> kernel \<Rightarrow> nat option" where
  "process_by_pid pid k = find_from 0 MAX_PROCESSES (\<lambda>i. p_used (k_processes k i) \<and> p_id (k_processes k i) = pid)"

definition process_task :: "nat \<Rightarrow> kernel \<Rightarrow> nat option" where
  "process_task i k =
     find_from 0 K_MAX_TASKS (\<lambda>t. t_state (k_tasks k t) \<noteq> K_TASK_UNUSED \<and> t_process (k_tasks k t) = Some i)"

record k_process_info =
  pi_id :: nat
  pi_task_id :: nat
  pi_state :: k_task_state
  pi_fault_vector :: nat
  pi_exit_code :: int
  pi_fault_address :: nat
  pi_fault_ip :: nat
  pi_name :: string
  pi_parent :: nat
  pi_execution_class :: nat
  pi_cpu :: nat
  pi_uuid :: bytes

definition k_process_get :: "nat \<Rightarrow> kernel \<Rightarrow> int + k_process_info" where
  "k_process_get i k =
     (if i \<ge> MAX_PROCESSES then Inl K_EINVAL
      else
        let p = k_processes k i in
        if \<not> p_used p then Inl K_ENOENT
        else Inr \<lparr>pi_id = p_id p, pi_task_id = p_task_id p, pi_state = p_state p, pi_fault_vector = p_fault_vector p,
                  pi_exit_code = p_exit_code p, pi_fault_address = p_fault_address p, pi_fault_ip = p_fault_ip p,
                  pi_name = str_copy [] (p_name p) 32, pi_parent = p_parent p,
                  pi_execution_class = p_execution_class p,
                  pi_cpu = (case find_from 0 K_MAX_TASKS (\<lambda>t. t_process (k_tasks k t) = Some i) of
                              None \<Rightarrow> 0 | Some t \<Rightarrow> t_cpu (k_tasks k t)),
                  pi_uuid = put_bytes (\<lambda>_. 0) 0 (p_uuid p) 0 16\<rparr>)"

fun process_query_loop :: "nat \<Rightarrow> nat list \<Rightarrow> kernel \<Rightarrow> int + k_process_info" where
  "process_query_loop pid [] k = Inl K_ENOENT"
| "process_query_loop pid (i # is) k =
     (case k_process_get i k of
        Inr info \<Rightarrow> if pi_id info = pid then Inr info else process_query_loop pid is k
      | Inl _ \<Rightarrow> process_query_loop pid is k)"

definition k_process_query :: "nat \<Rightarrow> kernel \<Rightarrow> int + k_process_info" where
  "k_process_query pid k = process_query_loop pid [0..<MAX_PROCESSES] k"

record k_identity =
  ki_uuid :: bytes
  ki_pid :: nat
  ki_parent :: nat
  ki_execution_class :: nat
  ki_cpu :: nat
  ki_tls :: nat

definition k_process_identity :: "nat \<Rightarrow> kernel \<Rightarrow> int + k_identity" where
  "k_process_identity pid k =
     (case process_by_pid pid k of
        None \<Rightarrow> Inl K_ENOENT
      | Some i \<Rightarrow>
          let p = k_processes k i in
          Inr \<lparr>ki_uuid = put_bytes (\<lambda>_. 0) 0 (p_uuid p) 0 16, ki_pid = p_id p, ki_parent = p_parent p,
               ki_execution_class = p_execution_class p,
               ki_cpu = (case process_task i k of None \<Rightarrow> K_CPU_AUTO | Some t \<Rightarrow> t_cpu (k_tasks k t)),
               ki_tls = p_tls p\<rparr>)"

section \<open>Control requests\<close>

text \<open>The return of a task to user mode; the flag tells that the task must reschedule.\<close>

definition process_return_control :: "nat \<Rightarrow> kernel \<Rightarrow> bool \<times> kernel" where
  "process_return_control t k =
     (let request = t_control_request (k_tasks k t); po = t_process (k_tasks k t) in
      if request = 0 then (False, k)
      else
        let k = task_upd t (\<lambda>u. u\<lparr>t_control_request := 0\<rparr>) k;
            k = (if request = K_CTL_KILL then
                   let k = task_upd t (\<lambda>u. u\<lparr>t_exit_code := -143, t_state := K_TASK_ZOMBIE\<rparr>) k in
                   (case po of
                      None \<Rightarrow> k
                    | Some i \<Rightarrow> process_resources_release i
                        (proc_upd i (\<lambda>p. p\<lparr>p_exit_code := -143, p_state := K_TASK_ZOMBIE\<rparr>) k))
                 else if request = K_CTL_STOP then
                   proc_state po K_TASK_STOPPED (task_upd t (\<lambda>u. u\<lparr>t_state := K_TASK_STOPPED\<rparr>) k)
                 else k) in
        (True, task_upd t (\<lambda>u. u\<lparr>t_preempt_depth := 0\<rparr>) k))"

definition process_control_locked :: "nat \<Rightarrow> nat \<Rightarrow> kernel \<Rightarrow> int \<times> kernel" where
  "process_control_locked pid op k =
     (if op < K_CTL_KILL \<or> op > K_CTL_CONTINUE then (K_EINVAL, k)
      else case process_by_pid pid k of
        None \<Rightarrow> (K_ENOENT, k)
      | Some i \<Rightarrow>
        (case process_task i k of
           None \<Rightarrow> (K_ENOENT, k)
         | Some t \<Rightarrow>
             if t_state (k_tasks k t) = K_TASK_ZOMBIE then (K_ENOENT, k)
             else
               let resume = (\<lambda>k. let k = task_ready t k in proc_upd i (\<lambda>p. p\<lparr>p_state := t_state (k_tasks k t)\<rparr>) k);
                   request = t_control_request (k_tasks k t);
                   state = t_state (k_tasks k t);
                   k = (if op = K_CTL_CONTINUE then
                          let k = (if request \<noteq> K_CTL_KILL then task_upd t (\<lambda>u. u\<lparr>t_control_request := 0\<rparr>) k else k) in
                          if state = K_TASK_STOPPED then resume k else k
                        else
                          let k = (if op = K_CTL_KILL \<or> request \<noteq> K_CTL_KILL
                                   then task_upd t (\<lambda>u. u\<lparr>t_control_request := op\<rparr>) k else k) in
                          if state = K_TASK_STOPPED \<or> state = K_TASK_SLEEPING then resume k else k) in
               (0, cpu_upd (t_cpu (k_tasks k t)) (\<lambda>c. c\<lparr>c_work_pending := True\<rparr>) k)))"

text \<open>The body of \<open>k_process_reap_pid\<close>; \<open>out\<close> tells that the caller wants the information.\<close>

definition process_reap_locked :: "nat \<Rightarrow> bool \<Rightarrow> kernel \<Rightarrow> int \<times> kernel" where
  "process_reap_locked pid out k =
     (case process_by_pid pid k of
        None \<Rightarrow> (K_ENOENT, k)
      | Some i \<Rightarrow>
          let e = (if out then (case k_process_query pid k of Inl e \<Rightarrow> e | Inr _ \<Rightarrow> 0) else 0) in
          if e \<noteq> 0 then (e, k) else process_destroy_locked i k)"

section \<open>Launching\<close>

definition rief_load :: "nat \<Rightarrow> bytes option \<Rightarrow> nat \<Rightarrow> (string option \<times> nat) list \<Rightarrow> kernel \<Rightarrow> int \<times> kernel" where
  "rief_load i img n bindings k =
     (if \<not> valid_process i k then (K_EINVAL, k)
      else case rief_load_locked (p_space i k) img n bindings (k_processes k i) (k_vm k) of
        (e, p, v) \<Rightarrow> (e, proc_upd i (\<lambda>_. p) (set_vm v k)))"

text \<open>The check of the caller: a process launches children of its own, and Ring 1 only from Ring 1.\<close>

definition may_launch :: "nat \<Rightarrow> nat \<Rightarrow> nat \<Rightarrow> kernel \<Rightarrow> bool" where
  "may_launch c cls parent k =
     (case current_task c k of
        None \<Rightarrow> True
      | Some t \<Rightarrow> (case t_process (k_tasks k t) of
          None \<Rightarrow> True
        | Some a \<Rightarrow> \<not> (parent \<noteq> p_id (k_processes k a) \<or>
            (cls = K_EXEC_RING1 \<and> p_execution_class (k_processes k a) \<noteq> K_EXEC_RING1))))"

text \<open>Everything after the image was read: create, load, release the image, start, undo on failure.\<close>

definition launch_image ::
  "u64 \<Rightarrow> string \<Rightarrow> string \<Rightarrow> nat \<Rightarrow> nat \<Rightarrow> nat \<Rightarrow> nat \<Rightarrow> nat \<Rightarrow> int \<Rightarrow> kernel \<Rightarrow> (int + nat) \<times> kernel" where
  "launch_image seed path arguments cls cpu parent img sz e k =
     (let pages = (sz + 4095) div 4096;
          (e, i, k) = (if e \<noteq> 0 then (e, None, k)
                       else case process_create_locked seed (Some path) k of
                         (None, k) \<Rightarrow> (K_ENOMEM, None, k)
                       | (Some i, k) \<Rightarrow> (0, Some i, k));
          (e, k) = (case i of
                      None \<Rightarrow> (e, k)
                    | Some i \<Rightarrow>
                        rief_load i (Some (\<lambda>j. ram (vm_pmm (k_vm k)) (img + j))) sz []
                          (proc_upd i (\<lambda>p. p\<lparr>p_parent := parent, p_execution_class := cls,
                             p_arguments := str_copy (p_arguments p) arguments K_PROCESS_ARGS_MAX\<rparr>) k));
          k = vm_upd (vm_free img pages) k in
      case i of
        None \<Rightarrow> (Inl e, k)
      | Some i \<Rightarrow>
          (case (if e \<noteq> 0 then (Inl e, k) else process_start_locked i cpu k) of
             (Inl e, k) \<Rightarrow> (Inl e, snd (process_destroy_locked i k))
           | (Inr tid, k) \<Rightarrow> (Inr (p_id (k_processes k i)), k)))"

definition k_process_launch ::
  "(string \<Rightarrow> 'd \<Rightarrow> (int + k_file) \<times> 'd) \<Rightarrow> (k_file \<Rightarrow> nat \<Rightarrow> nat \<Rightarrow> 'd \<Rightarrow> (int \<times> bytes \<times> nat) \<times> 'd) \<Rightarrow>
   u64 \<Rightarrow> nat \<Rightarrow> string \<Rightarrow> string \<Rightarrow> nat \<Rightarrow> nat \<Rightarrow> nat \<Rightarrow> kernel \<Rightarrow> 'd \<Rightarrow> ((int + nat) \<times> kernel) \<times> 'd" where
  "k_process_launch vfs_open vfs_read seed c path arguments cls cpu parent k d =
     (if (cls \<noteq> K_EXEC_RING1 \<and> cls \<noteq> K_EXEC_RING3) \<or> str_len arguments \<ge> K_PROCESS_ARGS_MAX
      then ((Inl K_EINVAL, k), d)
      else if \<not> may_launch c cls parent k then ((Inl K_EPERM, k), d)
      else case vfs_open path d of
        (Inl e, d) \<Rightarrow> ((Inl e, k), d)
      | (Inr f, d) \<Rightarrow>
          if fl_kind f = 3 \<or> fl_attributes f AND 0x10 \<noteq> 0 \<or> fl_size f < 96 \<or> fl_size f > 4 * 1024 * 1024
          then ((Inl K_ENOEXEC, k), d)
          else case vm_alloc_pages ((fl_size f + 4095) div 4096) (k_vm k) of
            (img, v) \<Rightarrow>
              let k = set_vm v k in
              if img = 0 then ((Inl K_ENOMEM, k), d)
              else case vfs_read f 0 (fl_size f) d of
                ((e, bytes, got), d) \<Rightarrow>
                  let e = (if e = 0 \<and> got \<noteq> fl_size f then K_EIO else e);
                      k = vm_upd (\<lambda>v. v\<lparr>vm_pmm := (vm_pmm v)\<lparr>ram := put_bytes (ram (vm_pmm v)) img bytes 0 got\<rparr>\<rparr>) k in
                  (launch_image seed path arguments cls cpu parent img (fl_size f) e k, d))"

end
