(* ===== verification/Service.thy ===== *)
theory Service
  imports Process
begin

unbundle bit_operations_syntax

text \<open>
  Named services, message grants and the leases of \<open>kernel/process.c\<close>. A Ring 1 process registers a
  name; whoever looks the name up gets the task of the service, and both sides get a grant to send to
  the other. Grants live in a table of 16 entries per process whose dead entries are pruned on demand.
\<close>

section \<open>Grants\<close>

text \<open>The task identifier belongs to a task that still runs.\<close>

definition live_task :: "nat \<Rightarrow> kernel \<Rightarrow> bool" where
  "live_task tid k \<longleftrightarrow> (\<exists>j\<in>set [0..<K_MAX_TASKS].
     t_id (k_tasks k j) = tid \<and> t_state (k_tasks k j) \<noteq> K_TASK_UNUSED \<and> t_state (k_tasks k j) \<noteq> K_TASK_ZOMBIE)"

text \<open>The pruning loop: a dead entry is replaced by the last one.\<close>

function prune_grants :: "(nat \<Rightarrow> bool) \<Rightarrow> (nat \<Rightarrow> nat) \<Rightarrow> nat \<Rightarrow> nat \<Rightarrow> (nat \<Rightarrow> nat) \<times> nat" where
  "prune_grants live g n i =
     (if i < n then
        if live (g i) then prune_grants live g n (Suc i)
        else prune_grants live (g(i := g (n - 1))) (n - 1) i
      else (g, n))"
  by pat_completeness auto
termination by (relation "measure (\<lambda>(live, g, n, i). n - i)") auto

declare prune_grants.simps [simp del]

definition grant_locked :: "nat \<Rightarrow> nat \<Rightarrow> kernel \<Rightarrow> int \<times> kernel" where
  "grant_locked i tid k =
     (let p = k_processes k i in
      if \<exists>j\<in>set [0..<p_grant_count p]. p_grants p j = tid then (0, k)
      else
        let (g, n) = prune_grants (\<lambda>t. live_task t k) (p_grants p) (p_grant_count p) 0 in
        if n = 16 then (K_E2BIG, proc_upd i (\<lambda>p. p\<lparr>p_grants := g, p_grant_count := n\<rparr>) k)
        else (0, proc_upd i (\<lambda>p. p\<lparr>p_grants := g(n := tid), p_grant_count := n + 1\<rparr>) k))"

section \<open>Services\<close>

definition name_char :: "char \<Rightarrow> bool" where
  "name_char c \<longleftrightarrow> (let x = of_char c :: nat in
     (97 \<le> x \<and> x \<le> 122) \<or> (65 \<le> x \<and> x \<le> 90) \<or> (48 \<le> x \<and> x \<le> 57) \<or> c = CHR ''_'' \<or> c = CHR ''-'' \<or> c = CHR ''.'')"

definition service_name :: "string \<Rightarrow> int" where
  "service_name name =
     (let n = str_len name in
      if n = 0 \<or> n \<ge> 64 then K_EINVAL
      else if \<exists>i\<in>set [0..<n]. \<not> name_char (name ! i) then K_EINVAL
      else 0)"

definition service_dead :: "nat \<Rightarrow> kernel \<Rightarrow> bool" where
  "service_dead i k =
     (case process_by_pid (sv_pid (k_services k i)) k of
        None \<Rightarrow> True | Some p \<Rightarrow> p_state (k_processes k p) = K_TASK_ZOMBIE)"

text \<open>The scan of \<open>service_register\<close>: \<open>Inl\<close> the result when the name is taken, \<open>Inr\<close> the free slot.\<close>

fun service_scan :: "nat \<Rightarrow> string \<Rightarrow> nat list \<Rightarrow> nat option \<Rightarrow> kernel \<Rightarrow> (int + nat option) \<times> kernel" where
  "service_scan pid name [] slot k = (Inr slot, k)"
| "service_scan pid name (i # is) slot k =
     (let k = (if service_dead i k then k\<lparr>k_services := (k_services k)(i := zero_service)\<rparr> else k);
          s = k_services k i in
      if sv_pid s \<noteq> 0 \<and> str_eq (sv_name s) name then (Inl (if sv_pid s = pid then 0 else K_EEXIST), k)
      else service_scan pid name is (if sv_pid s = 0 \<and> slot = None then Some i else slot) k)"

definition service_register :: "nat \<Rightarrow> string \<Rightarrow> kernel \<Rightarrow> int \<times> kernel" where
  "service_register i name k =
     (let p = k_processes k i in
      if p_execution_class p \<noteq> K_EXEC_RING1 then (K_EPERM, k)
      else if service_name name \<noteq> 0 then (service_name name, k)
      else case service_scan (p_id p) name [0..<MAX_SERVICES] None k of
        (Inl e, k) \<Rightarrow> (e, k)
      | (Inr None, k) \<Rightarrow> (K_E2BIG, k)
      | (Inr (Some s), k) \<Rightarrow>
          (0, k\<lparr>k_services := (k_services k)(s :=
             \<lparr>sv_name = str_copy (sv_name (k_services k s)) name 64, sv_pid = p_id p, sv_task = p_task_id p\<rparr>)\<rparr>))"

text \<open>Taking back the grant a failed lookup installed: the first entry of the caller is overwritten by the last.\<close>

definition revoke_grant :: "nat \<Rightarrow> nat \<Rightarrow> kernel \<Rightarrow> kernel" where
  "revoke_grant i tid k =
     (let p = k_processes k i in
      case find_from 0 (p_grant_count p) (\<lambda>j. p_grants p j = tid) of
        None \<Rightarrow> k
      | Some j \<Rightarrow> proc_upd i (\<lambda>p. p\<lparr>p_grants := (p_grants p)(j := p_grants p (p_grant_count p - 1)),
                                     p_grant_count := p_grant_count p - 1\<rparr>) k)"

definition k_service_lookup :: "nat \<Rightarrow> string \<Rightarrow> kernel \<Rightarrow> (int + nat) \<times> kernel" where
  "k_service_lookup c name k =
     (if service_name name \<noteq> 0 then (Inl (service_name name), k)
      else case current_task c k of
        None \<Rightarrow> (Inl K_EPERM, k)
      | Some t \<Rightarrow>
        (case find_from 0 MAX_SERVICES (\<lambda>i. sv_pid (k_services k i) \<noteq> 0 \<and> str_eq (sv_name (k_services k i)) name) of
           None \<Rightarrow> (Inl K_ENOENT, k)
         | Some s \<Rightarrow>
           (case process_by_pid (sv_pid (k_services k s)) k of
              None \<Rightarrow> (Inl K_ENOENT, k)
            | Some p \<Rightarrow>
              if p_state (k_processes k p) = K_TASK_ZOMBIE then (Inl K_ENOENT, k)
              else
                let me = t_id (k_tasks k t); svc = sv_task (k_services k s);
                    already = (\<exists>j\<in>set [0..<p_grant_count (k_processes k p)]. p_grants (k_processes k p) j = me);
                    (e, k) = grant_locked p me k;
                    (e, k) = (if e \<noteq> 0 then (e, k)
                              else case t_process (k_tasks k t) of None \<Rightarrow> (0, k) | Some q \<Rightarrow> grant_locked q svc k) in
                if e \<noteq> 0 then (Inl e, if already then k else revoke_grant p me k)
                else (Inr svc, k))))"

section \<open>Leases\<close>

definition k_input_claimed :: "kernel \<Rightarrow> bool \<times> kernel" where
  "k_input_claimed k =
     (let claimed = (case process_by_pid (k_input_owner k) k of
                       None \<Rightarrow> False | Some p \<Rightarrow> p_state (k_processes k p) \<noteq> K_TASK_ZOMBIE) in
      (claimed, if claimed then k else k\<lparr>k_input_owner := 0\<rparr>))"

definition k_partition_get :: "nat \<Rightarrow> kernel \<Rightarrow> int + k_partition_info" where
  "k_partition_get index k = (if index \<ge> k_partition_count k then Inl K_ENOENT else Inr (k_partitions k index))"

end
