(* ===== verification/Syscall.thy ===== *)
theory Syscall
  imports Service
begin

unbundle bit_operations_syntax

text \<open>
  The environment of the system calls of \<open>kernel/process.c\<close>, the access to user memory and
  \<open>admin_operation\<close>; the dispatcher itself is in \<open>Dispatch\<close>. The file system, disk, input, console and network operations they call are the
  fields of an \<open>env\<close>, over the state \<open>'d\<close> of those subsystems; an operation with an output parameter
  gets its old contents and returns the new ones. A call ends in an \<open>outcome\<close>: it
  returns, it yields the CPU and then returns, the task is gone, the kernel halts, or the call sleeps
  and is tried again.
\<close>

section \<open>Environment\<close>

record 'd env =
  e_identity_seed :: "'d \<Rightarrow> u64 \<times> 'd"
  e_vfs_open :: "string \<Rightarrow> k_file \<Rightarrow> 'd \<Rightarrow> (int \<times> k_file) \<times> 'd"
  e_vfs_create :: "string \<Rightarrow> k_file \<Rightarrow> 'd \<Rightarrow> (int \<times> k_file) \<times> 'd"
  e_vfs_put :: "string \<Rightarrow> 'd \<Rightarrow> int \<times> 'd"
  e_vfs_read :: "k_file \<Rightarrow> nat \<Rightarrow> nat \<Rightarrow> 'd \<Rightarrow> (int \<times> bytes \<times> nat) \<times> 'd"
  e_vfs_write :: "k_file \<Rightarrow> nat \<Rightarrow> bytes \<Rightarrow> nat \<Rightarrow> 'd \<Rightarrow> (int \<times> k_file \<times> nat) \<times> 'd"
  e_vfs_stat :: "k_file \<Rightarrow> 'd \<Rightarrow> (int \<times> k_file) \<times> 'd"
  e_vfs_mkdir :: "string \<Rightarrow> 'd \<Rightarrow> int \<times> 'd"
  e_vfs_sync :: "'d \<Rightarrow> int \<times> 'd"
  e_disk_count :: "'d \<Rightarrow> nat"
  e_disk_sectors :: "nat \<Rightarrow> 'd \<Rightarrow> nat"
  e_disk_sector_size :: "nat \<Rightarrow> 'd \<Rightarrow> nat"
  e_disk_get :: "nat \<Rightarrow> 'd \<Rightarrow> int + bytes"
  e_disk_read :: "nat \<Rightarrow> nat \<Rightarrow> nat \<Rightarrow> 'd \<Rightarrow> (int \<times> bytes) \<times> 'd"
  e_disk_write_fs :: "nat \<Rightarrow> nat \<Rightarrow> nat \<Rightarrow> bytes \<Rightarrow> 'd \<Rightarrow> int \<times> 'd"
  e_disk_flush :: "nat \<Rightarrow> 'd \<Rightarrow> int \<times> 'd"
  e_input_read :: "'d \<Rightarrow> (int \<times> bytes) \<times> 'd"
  e_con_putc :: "u8 \<Rightarrow> 'd \<Rightarrow> 'd"
  e_net_syscall :: "nat \<Rightarrow> nat \<Rightarrow> (nat \<Rightarrow> nat) \<Rightarrow> kernel \<Rightarrow> 'd \<Rightarrow> int \<times> kernel \<times> 'd"

datatype outcome = Return int | Yield int | Exit | Halt | Wait

definition K_PATH_MAX :: nat where "K_PATH_MAX = 256"
definition K_OPEN_WRITE :: u64 where "K_OPEN_WRITE = 1"
definition K_OPEN_CREATE :: u64 where "K_OPEN_CREATE = 2"
definition K_OPEN_TRUNC :: u64 where "K_OPEN_TRUNC = 4"
definition K_OPEN_APPEND :: u64 where "K_OPEN_APPEND = 8"
definition K_OPEN_EXCL :: u64 where "K_OPEN_EXCL = 16"

text \<open>\<open>(INT64)n\<close> and \<open>(INT32)n\<close>\<close>

definition int64 :: "nat \<Rightarrow> int" where "int64 n = sint (word_of_nat n :: u64)"
definition int32 :: "nat \<Rightarrow> int" where "int32 n = sint (word_of_nat n :: u32)"

section \<open>User memory\<close>

definition user_check :: "nat \<Rightarrow> nat \<Rightarrow> nat \<Rightarrow> bool \<Rightarrow> kernel \<Rightarrow> int \<times> kernel" where
  "user_check i u n wr k = (case x86_64_as_check (p_space i k) u n wr (k_vm k) of (e, v) \<Rightarrow> (e, set_vm v k))"

definition user_read :: "nat \<Rightarrow> nat \<Rightarrow> nat \<Rightarrow> kernel \<Rightarrow> int \<times> bytes \<times> kernel" where
  "user_read i u n k =
     (case x86_64_copy_from_user (p_space i k) (\<lambda>_. 0) u n (k_vm k) of (e, b, v) \<Rightarrow> (e, b, set_vm v k))"

definition user_write :: "nat \<Rightarrow> nat \<Rightarrow> bytes \<Rightarrow> nat \<Rightarrow> kernel \<Rightarrow> int \<times> kernel" where
  "user_write i u b n k = (case x86_64_copy_to_user (p_space i k) u b n (k_vm k) of (e, v) \<Rightarrow> (e, set_vm v k))"

text \<open>
  The loop of \<open>user_string\<close> and \<open>user_args\<close> from index \<open>n\<close> on, with the characters read so far; the
  two differ in the size of the buffer and in the result for an empty string.
\<close>

function user_chars :: "nat \<Rightarrow> nat \<Rightarrow> nat \<Rightarrow> int \<Rightarrow> nat \<Rightarrow> string \<Rightarrow> kernel \<Rightarrow> int \<times> string \<times> kernel" where
  "user_chars cap i address none n s k =
     (if n < cap then
        if address > K_USER_CANON_LIMIT - 1 - n then (K_EFAULT, s, k)
        else case user_read i (address + n) 1 k of
          (e, b, k) \<Rightarrow>
            if e \<noteq> 0 then (K_EFAULT, s, k)
            else if b 0 = 0 then ((if n \<noteq> 0 then 0 else none), s, k)
            else user_chars cap i address none (Suc n) (s @ [char_of (unat (b 0))]) k
      else (K_E2BIG, s, k))"
  by pat_completeness auto
termination by (relation "measure (\<lambda>(cap, i, address, none, n, s, k). cap - n)") auto

declare user_chars.simps [simp del]

definition user_string :: "nat \<Rightarrow> nat \<Rightarrow> kernel \<Rightarrow> int \<times> string \<times> kernel" where
  "user_string i address k = user_chars K_PATH_MAX i address K_EINVAL 0 [] k"

definition user_args :: "nat \<Rightarrow> nat \<Rightarrow> kernel \<Rightarrow> int \<times> string \<times> kernel" where
  "user_args i address k =
     (if address = 0 then (0, [], k) else user_chars K_PROCESS_ARGS_MAX i address 0 0 [] k)"

section \<open>Structures copied to user memory\<close>

definition state_code :: "k_task_state \<Rightarrow> nat" where
  "state_code s = (case s of K_TASK_UNUSED \<Rightarrow> 0 | K_TASK_READY \<Rightarrow> 1 | K_TASK_RUNNING \<Rightarrow> 2 | K_TASK_SLEEPING \<Rightarrow> 3
     | K_TASK_BLOCKED \<Rightarrow> 4 | K_TASK_ZOMBIE \<Rightarrow> 5 | K_TASK_STOPPED \<Rightarrow> 6)"

text \<open>A string at offset \<open>p\<close> of a cleared buffer.\<close>

definition put_string :: "bytes \<Rightarrow> nat \<Rightarrow> string \<Rightarrow> bytes" where
  "put_string b p s = put_bytes b p (\<lambda>j. of_char (s ! j)) 0 (length s)"

definition put32 :: "nat \<Rightarrow> nat \<Rightarrow> bytes \<Rightarrow> bytes" where "put32 p n b = wr32 b p (word_of_nat n)"
definition put64 :: "nat \<Rightarrow> nat \<Rightarrow> bytes \<Rightarrow> bytes" where "put64 p n b = wr64 b p (word_of_nat n)"

definition message_bytes :: "k_message \<Rightarrow> bytes" where
  "message_bytes m = put_bytes (put32 4 (msg_size m) (put32 0 (msg_sender m) (\<lambda>_. 0))) 8 (msg_bytes m) 0 128"

definition info_bytes :: "k_process_info \<Rightarrow> bytes" where
  "info_bytes p =
     (let b = put32 12 (pi_fault_vector p) (put32 8 (state_code (pi_state p)) (put32 4 (pi_task_id p) (put32 0 (pi_id p) (\<lambda>_. 0))));
          b = put64 32 (pi_fault_ip p) (put64 24 (pi_fault_address p) (wr32 b 16 (word_of_int (pi_exit_code p))));
          b = put_string b 40 (pi_name p);
          b = put32 80 (pi_cpu p) (put32 76 (pi_execution_class p) (put32 72 (pi_parent p) b)) in
      put_bytes b 88 (pi_uuid p) 0 16)"

definition identity_bytes :: "k_identity \<Rightarrow> bytes" where
  "identity_bytes q =
     put64 32 (ki_tls q) (put32 28 (ki_cpu q) (put32 24 (ki_execution_class q) (put32 20 (ki_parent q)
       (put32 16 (ki_pid q) (put_bytes (\<lambda>_. 0) 0 (ki_uuid q) 0 16)))))"

definition partition_bytes :: "k_partition_info \<Rightarrow> bytes" where
  "partition_bytes q =
     put32 44 (pt_failed q) (put32 40 (pt_owner_pid q) (put32 36 (pt_mounted q) (put32 32 (pt_read_only q)
       (put64 24 (pt_sectors q) (put64 16 (pt_start q)
         (put32 12 (pt_sector_size q) (put32 8 (pt_number q) (put32 4 (pt_disk q) (put32 0 (pt_id q) (\<lambda>_. 0))))))))))"

section \<open>Administration\<close>

definition K_ADMIN_MEM_READ :: nat where "K_ADMIN_MEM_READ = 1"
definition K_ADMIN_MEM_WRITE :: nat where "K_ADMIN_MEM_WRITE = 2"
definition K_ADMIN_MAP_AT :: nat where "K_ADMIN_MAP_AT = 3"
definition K_ADMIN_DISK_READ :: nat where "K_ADMIN_DISK_READ = 4"
definition K_ADMIN_PART_CLAIM :: nat where "K_ADMIN_PART_CLAIM = 5"
definition K_ADMIN_PART_READ :: nat where "K_ADMIN_PART_READ = 6"
definition K_ADMIN_PART_WRITE :: nat where "K_ADMIN_PART_WRITE = 7"
definition K_ADMIN_PART_RELEASE :: nat where "K_ADMIN_PART_RELEASE = 8"
definition K_ADMIN_INPUT_CLAIM :: nat where "K_ADMIN_INPUT_CLAIM = 9"
definition K_ADMIN_INPUT_READ :: nat where "K_ADMIN_INPUT_READ = 10"
definition K_ADMIN_INPUT_RELEASE :: nat where "K_ADMIN_INPUT_RELEASE = 11"

record k_admin_request =
  ar_version :: nat
  ar_size :: nat
  ar_operation :: nat
  ar_flags :: nat
  ar_caller_uuid :: bytes
  ar_target_uuid :: bytes
  ar_target_pid :: nat
  ar_resource :: nat
  ar_address :: nat
  ar_length :: nat
  ar_value :: nat
  ar_buffer :: nat

definition read_request :: "bytes \<Rightarrow> k_admin_request" where
  "read_request b = \<lparr>ar_version = unat (rd32 b 0), ar_size = unat (rd32 b 4), ar_operation = unat (rd32 b 8),
     ar_flags = unat (rd32 b 12), ar_caller_uuid = (\<lambda>j. b (16 + j)), ar_target_uuid = (\<lambda>j. b (32 + j)),
     ar_target_pid = unat (rd32 b 48), ar_resource = unat (rd32 b 52), ar_address = unat (rd64 b 56),
     ar_length = unat (rd64 b 64), ar_value = unat (rd64 b 72), ar_buffer = unat (rd64 b 80)\<rparr>"

definition same_uuid :: "bytes \<Rightarrow> bytes \<Rightarrow> bool" where
  "same_uuid a b \<longleftrightarrow> (\<forall>i\<in>set [0..<16]. a i = b i)"

text \<open>Access to the memory of another process needs it stopped and off every CPU.\<close>

definition target_safe :: "nat \<Rightarrow> nat \<Rightarrow> kernel \<Rightarrow> bool" where
  "target_safe i target k =
     (case process_task target k of
        None \<Rightarrow> True
      | Some t \<Rightarrow> target = i \<or> (t_state (k_tasks k t) = K_TASK_STOPPED \<and> \<not> on_cpu t k))"

definition admin_copy :: "nat \<Rightarrow> nat \<Rightarrow> k_admin_request \<Rightarrow> kernel \<Rightarrow> int \<times> kernel" where
  "admin_copy i target r k =
     (let wr = (ar_operation r = K_ADMIN_MEM_WRITE) in
      if ar_length r = 0 \<or> ar_length r > 4096 then (K_EINVAL, k)
      else case user_check i (ar_buffer r) (ar_length r) (\<not> wr) k of
        (e, k) \<Rightarrow>
          if e \<noteq> 0 then (e, k)
          else case user_check target (ar_address r) (ar_length r) wr k of
            (e, k) \<Rightarrow>
              if e \<noteq> 0 then (e, k)
              else if wr then
                (case user_read i (ar_buffer r) (ar_length r) k of
                   (e, b, k) \<Rightarrow> if e \<noteq> 0 then (e, k) else user_write target (ar_address r) b (ar_length r) k)
              else
                (case user_read target (ar_address r) (ar_length r) k of
                   (e, b, k) \<Rightarrow> if e \<noteq> 0 then (e, k) else user_write i (ar_buffer r) b (ar_length r) k))"

definition admin_memory :: "nat \<Rightarrow> k_admin_request \<Rightarrow> kernel \<Rightarrow> int \<times> kernel" where
  "admin_memory i r k =
     (case process_by_pid (ar_target_pid r) k of
        None \<Rightarrow> (K_ENOENT, k)
      | Some target \<Rightarrow>
          if \<not> same_uuid (p_uuid (k_processes k target)) (ar_target_uuid r) then (K_ENOENT, k)
          else if \<not> target_safe i target k then (K_EBUSY, k)
          else if ar_operation r = K_ADMIN_MAP_AT then
            if ar_value r > 7 then (K_EINVAL, k)
            else (case x86_64_as_map_at (p_space target k) (ar_address r) (ar_length r) (word_of_nat (ar_value r)) (k_vm k) of
                    (e, v) \<Rightarrow> (e, set_vm v k))
          else admin_copy i target r k)"

definition admin_input :: "'d env \<Rightarrow> nat \<Rightarrow> nat \<Rightarrow> k_admin_request \<Rightarrow> kernel \<Rightarrow> 'd \<Rightarrow> int \<times> kernel \<times> 'd" where
  "admin_input env c i r k d =
     (let me = p_id (k_processes k i) in
      if c \<noteq> 0 then (K_EPERM, k, d)
      else if ar_operation r = K_ADMIN_INPUT_CLAIM then
        if k_input_owner k \<noteq> 0 \<and> k_input_owner k \<noteq> me then (K_EBUSY, k, d)
        else (0, k\<lparr>k_input_owner := me\<rparr>, d)
      else if k_input_owner k \<noteq> me then (K_EPERM, k, d)
      else if ar_operation r = K_ADMIN_INPUT_RELEASE then (0, k\<lparr>k_input_owner := 0\<rparr>, d)
      else if ar_length r \<noteq> 1048 then (K_EINVAL, k, d)
      else case user_check i (ar_buffer r) 1048 True k of
        (e, k) \<Rightarrow>
          if e \<noteq> 0 then (e, k, d)
          else case e_input_read env d of
            ((e, b), d) \<Rightarrow>
              if e \<noteq> 0 then (e, k, d)
              else (case user_write i (ar_buffer r) b 1048 k of (e, k) \<Rightarrow> (e, k, d)))"

definition part_upd :: "nat \<Rightarrow> (k_partition_info \<Rightarrow> k_partition_info) \<Rightarrow> kernel \<Rightarrow> kernel" where
  "part_upd n f k = k\<lparr>k_partitions := (k_partitions k)(n := f (k_partitions k n))\<rparr>"

text \<open>The transfer at the end of the disk operations: \<open>part\<close> is the partition written, if any.\<close>

definition admin_transfer ::
  "'d env \<Rightarrow> nat \<Rightarrow> k_admin_request \<Rightarrow> nat \<Rightarrow> nat \<Rightarrow> nat \<Rightarrow> kernel \<Rightarrow> 'd \<Rightarrow> int \<times> kernel \<times> 'd" where
  "admin_transfer env i r disk start limit k d =
     (let sector = e_disk_sector_size env disk d; n = ar_length r;
          wr = (ar_operation r = K_ADMIN_PART_WRITE) in
      if n = 0 \<or> n > 4096 \<or> n mod sector \<noteq> 0 \<or> ar_address r \<ge> limit \<or> n div sector > limit - ar_address r
      then (K_EINVAL, k, d)
      else case user_check i (ar_buffer r) n (\<not> wr) k of
        (e, k) \<Rightarrow>
          if e \<noteq> 0 then (e, k, d)
          else if wr then
            (case user_read i (ar_buffer r) n k of
               (e, b, k) \<Rightarrow>
                 if e \<noteq> 0 then (e, k, d)
                 else
                   let (e, d) = e_disk_write_fs env disk (add64 start (ar_address r)) (n div sector) b d;
                       (e, d) = (if e = 0 then e_disk_flush env disk d else (e, d)) in
                   (e, if e \<noteq> 0 then part_upd (ar_resource r) (\<lambda>p. p\<lparr>pt_failed := 1\<rparr>) k else k, d))
          else
            (case e_disk_read env disk (add64 start (ar_address r)) (n div sector) d of
               ((e, b), d) \<Rightarrow>
                 if e \<noteq> 0 then (e, k, d)
                 else (case user_write i (ar_buffer r) b n k of (e, k) \<Rightarrow> (e, k, d))))"

definition admin_disk :: "'d env \<Rightarrow> nat \<Rightarrow> k_admin_request \<Rightarrow> kernel \<Rightarrow> 'd \<Rightarrow> int \<times> kernel \<times> 'd" where
  "admin_disk env i r k d =
     (let me = p_id (k_processes k i); op = ar_operation r; res = ar_resource r in
      if op = K_ADMIN_DISK_READ then
        if res \<ge> e_disk_count env d then (K_ENOENT, k, d)
        else admin_transfer env i r res 0 (e_disk_sectors env res d) k d
      else if res \<ge> k_partition_count k then (K_ENOENT, k, d)
      else
        let part = k_partitions k res in
        if op = K_ADMIN_PART_CLAIM then
          if pt_read_only part \<noteq> 0 \<or> pt_mounted part \<noteq> 0 \<or> pt_failed part \<noteq> 0 then (K_EROFS, k, d)
          else if pt_owner_pid part \<noteq> 0 \<and> pt_owner_pid part \<noteq> me then (K_EBUSY, k, d)
          else (0, part_upd res (\<lambda>p. p\<lparr>pt_owner_pid := me\<rparr>) k, d)
        else if pt_owner_pid part \<noteq> me then (K_EPERM, k, d)
        else if op = K_ADMIN_PART_RELEASE then (0, part_upd res (\<lambda>p. p\<lparr>pt_owner_pid := 0\<rparr>) k, d)
        else if pt_failed part \<noteq> 0 then (K_EROFS, k, d)
        else admin_transfer env i r (pt_disk part) (pt_start part) (pt_sectors part) k d)"

definition admin_operation :: "'d env \<Rightarrow> nat \<Rightarrow> nat \<Rightarrow> k_admin_request \<Rightarrow> kernel \<Rightarrow> 'd \<Rightarrow> int \<times> kernel \<times> 'd" where
  "admin_operation env c i r k d =
     (let p = k_processes k i; op = ar_operation r in
      if p_execution_class p \<noteq> K_EXEC_RING1 \<or> \<not> same_uuid (ar_caller_uuid r) (p_uuid p) then (K_EPERM, k, d)
      else if ar_version r \<noteq> 1 \<or> ar_size r \<noteq> 88 \<or> ar_flags r \<noteq> 0 then (K_EINVAL, k, d)
      else if op \<ge> K_ADMIN_MEM_READ \<and> op \<le> K_ADMIN_MAP_AT then
        (case admin_memory i r k of (e, k) \<Rightarrow> (e, k, d))
      else if op = K_ADMIN_INPUT_CLAIM \<or> op = K_ADMIN_INPUT_RELEASE \<or> op = K_ADMIN_INPUT_READ then
        admin_input env c i r k d
      else if op < K_ADMIN_DISK_READ \<or> op > K_ADMIN_PART_RELEASE then (K_ENOTSUP, k, d)
      else admin_disk env i r k d)"

end
