(* ===== verification/Dispatch.thy ===== *)
theory Dispatch
  imports Syscall
begin

unbundle bit_operations_syntax

text \<open>
  \<open>syscall_dispatch\<close> and \<open>syscall_extended\<close> of \<open>kernel/process.c\<close>: one definition per group of cases.
  \<open>c\<close> is the CPU, \<open>i\<close> the process of the calling task \<open>t\<close>, \<open>a\<close> the arguments of the request.
\<close>

section \<open>Requests\<close>

record k_syscall_request =
  rq_number :: nat
  rq_args :: "nat \<Rightarrow> nat"

definition K_SYS_EXIT :: nat where "K_SYS_EXIT = 0"
definition K_SYS_WRITE :: nat where "K_SYS_WRITE = 1"
definition K_SYS_YIELD :: nat where "K_SYS_YIELD = 2"
definition K_SYS_SLEEP :: nat where "K_SYS_SLEEP = 3"
definition K_SYS_GETPID :: nat where "K_SYS_GETPID = 4"
definition K_SYS_TICKS :: nat where "K_SYS_TICKS = 5"
definition K_SYS_SEND :: nat where "K_SYS_SEND = 6"
definition K_SYS_RECV :: nat where "K_SYS_RECV = 7"
definition K_SYS_OPEN :: nat where "K_SYS_OPEN = 8"
definition K_SYS_READ :: nat where "K_SYS_READ = 9"
definition K_SYS_CLOSE :: nat where "K_SYS_CLOSE = 10"
definition K_SYS_MKDIR :: nat where "K_SYS_MKDIR = 11"
definition K_SYS_SYNC :: nat where "K_SYS_SYNC = 12"
definition K_SYS_SPAWN :: nat where "K_SYS_SPAWN = 13"
definition K_SYS_PROCINFO :: nat where "K_SYS_PROCINFO = 14"
definition K_SYS_WAITPID :: nat where "K_SYS_WAITPID = 15"
definition K_SYS_CONTROL :: nat where "K_SYS_CONTROL = 16"
definition K_SYS_ADMIN :: nat where "K_SYS_ADMIN = 17"
definition K_SYS_IDENTITY :: nat where "K_SYS_IDENTITY = 18"
definition K_SYS_SERVICE_REGISTER :: nat where "K_SYS_SERVICE_REGISTER = 19"
definition K_SYS_SERVICE_LOOKUP :: nat where "K_SYS_SERVICE_LOOKUP = 20"
definition K_SYS_GETCPU :: nat where "K_SYS_GETCPU = 21"
definition K_SYS_TLSBASE :: nat where "K_SYS_TLSBASE = 22"
definition K_SYS_GETARGS :: nat where "K_SYS_GETARGS = 23"
definition K_SYS_SEEK :: nat where "K_SYS_SEEK = 24"
definition K_SYS_MAP :: nat where "K_SYS_MAP = 25"
definition K_SYS_SERVICE_REPLY :: nat where "K_SYS_SERVICE_REPLY = 26"
definition K_SYS_DISKINFO :: nat where "K_SYS_DISKINFO = 27"
definition K_SYS_PARTITIONINFO :: nat where "K_SYS_PARTITIONINFO = 28"
definition K_SYS_NETINFO :: nat where "K_SYS_NETINFO = 29"
definition K_SYS_WIFISCAN :: nat where "K_SYS_WIFISCAN = 45"
definition K_SYS_MAPEX :: nat where "K_SYS_MAPEX = 46"
definition K_WAIT_REAP :: u64 where "K_WAIT_REAP = 1"
definition K_WAIT_NOHANG :: u64 where "K_WAIT_NOHANG = 2"

text \<open>The result of a case that always returns.\<close>

definition ret :: "int \<times> kernel \<Rightarrow> 'd \<Rightarrow> outcome \<times> kernel \<times> 'd" where
  "ret r d = (case r of (e, k) \<Rightarrow> (Return e, k, d))"

text \<open>A system call that copies \<open>n\<close> bytes out when the query succeeded.\<close>

definition copy_out :: "nat \<Rightarrow> nat \<Rightarrow> int + bytes \<Rightarrow> nat \<Rightarrow> kernel \<Rightarrow> int \<times> kernel" where
  "copy_out i u r n k = (case r of Inl e \<Rightarrow> (e, k) | Inr b \<Rightarrow> user_write i u b n k)"

section \<open>Files and the console\<close>

definition fd_has :: "nat \<Rightarrow> nat \<Rightarrow> u64 \<Rightarrow> kernel \<Rightarrow> bool" where
  "fd_has i fd b k \<longleftrightarrow> ucast (p_fd_flags (k_processes k i) fd) AND b \<noteq> 0"

definition set_file :: "nat \<Rightarrow> nat \<Rightarrow> k_file \<Rightarrow> kernel \<Rightarrow> kernel" where
  "set_file i fd file k = proc_upd i (\<lambda>p. p\<lparr>p_files := (p_files p)(fd := file)\<rparr>) k"

definition set_offset :: "nat \<Rightarrow> nat \<Rightarrow> nat \<Rightarrow> kernel \<Rightarrow> kernel" where
  "set_offset i fd off k = proc_upd i (\<lambda>p. p\<lparr>p_fd_offset := (p_fd_offset p)(fd := off)\<rparr>) k"

definition open_fd :: "nat \<Rightarrow> nat \<Rightarrow> kernel \<Rightarrow> bool" where
  "open_fd i fd k \<longleftrightarrow> 3 \<le> fd \<and> fd < 16 \<and> p_fd_used (k_processes k i) fd"

definition sys_write_file :: "'d env \<Rightarrow> nat \<Rightarrow> (nat \<Rightarrow> nat) \<Rightarrow> kernel \<Rightarrow> 'd \<Rightarrow> int \<times> kernel \<times> 'd" where
  "sys_write_file env i a k d =
     (let fd = a 0 in
      if \<not> p_fd_used (k_processes k i) fd \<or> \<not> fd_has i fd K_OPEN_WRITE k then (K_EPERM, k, d)
      else if a 2 > 4096 then (K_E2BIG, k, d)
      else if a 2 = 0 then (0, k, d)
      else case user_read i (a 1) (a 2) k of
        (e, data, k) \<Rightarrow>
          if e \<noteq> 0 then (e, k, d)
          else
            let append = fd_has i fd K_OPEN_APPEND k;
                off = (if append then 2 ^ 64 - 1 else p_fd_offset (k_processes k i) fd) in
            (case e_vfs_write env (p_files (k_processes k i) fd) off data (a 2) d of
               ((e, file, written), d) \<Rightarrow>
                 let k = set_file i fd file k in
                 if e \<noteq> 0 then (e, k, d)
                 else (int64 written, set_offset i fd (if append then fl_size file else add64 off written) k, d)))"

definition printable :: "u8 \<Rightarrow> u8" where
  "printable c = (if c = 10 \<or> (32 \<le> c \<and> c < 127) then c else 63)"

function console_loop ::
  "'d env \<Rightarrow> nat \<Rightarrow> nat \<Rightarrow> nat \<Rightarrow> nat \<Rightarrow> kernel \<Rightarrow> 'd \<Rightarrow> int \<times> kernel \<times> 'd" where
  "console_loop env i u all_n don k d =
     (if don < all_n then
        let n = min (all_n - don) 128 in
        (case user_read i (add64 u don) n k of
           (e, buf, k) \<Rightarrow>
             if e \<noteq> 0 then (e, k, d)
             else console_loop env i u all_n (don + n) k (fold (\<lambda>j. e_con_putc env (printable (buf j))) [0..<n] d))
      else (int64 don, k, d))"
  by pat_completeness auto
termination by (relation "measure (\<lambda>(env, i, u, all_n, don, k, d). all_n - don)") auto

declare console_loop.simps [simp del]

definition sys_write :: "'d env \<Rightarrow> nat \<Rightarrow> (nat \<Rightarrow> nat) \<Rightarrow> kernel \<Rightarrow> 'd \<Rightarrow> int \<times> kernel \<times> 'd" where
  "sys_write env i a k d =
     (if a 0 \<ge> 3 \<and> a 0 < 16 then sys_write_file env i a k d
      else if a 0 \<noteq> 1 \<and> a 0 \<noteq> 2 then (K_EINVAL, k, d)
      else if a 2 > 4096 then (K_E2BIG, k, d)
      else if a 2 = 0 then (0, k, d)
      else case user_check i (a 1) (a 2) False k of
        (e, k) \<Rightarrow> if e \<noteq> 0 then (e, k, d) else console_loop env i (a 1) (a 2) 0 k d)"

definition open_flags_ok :: "u64 \<Rightarrow> bool" where
  "open_flags_ok flags \<longleftrightarrow> \<not> (flags AND NOT 31 \<noteq> 0 \<or> (flags AND 30 \<noteq> 0 \<and> flags AND K_OPEN_WRITE = 0) \<or>
     (flags AND K_OPEN_EXCL \<noteq> 0 \<and> flags AND K_OPEN_CREATE = 0))"

text \<open>Opening or creating the file behind descriptor \<open>fd\<close>, before the descriptor is marked used.\<close>

definition open_file ::
  "'d env \<Rightarrow> nat \<Rightarrow> nat \<Rightarrow> string \<Rightarrow> u64 \<Rightarrow> kernel \<Rightarrow> 'd \<Rightarrow> int \<times> kernel \<times> 'd" where
  "open_file env i fd path flags k d =
     (case e_vfs_open env path (p_files (k_processes k i) fd) d of
        ((e, file), d) \<Rightarrow>
          let k = set_file i fd file k in
          if e = 0 \<and> flags AND K_OPEN_EXCL \<noteq> 0 then (K_EEXIST, k, d)
          else if e = K_ENOENT \<and> flags AND K_OPEN_CREATE \<noteq> 0 then
            (case e_vfs_create env path file d of ((e, file), d) \<Rightarrow> (e, set_file i fd file k, d))
          else (e, k, d))"

definition truncate_file :: "'d env \<Rightarrow> nat \<Rightarrow> nat \<Rightarrow> string \<Rightarrow> kernel \<Rightarrow> 'd \<Rightarrow> int \<times> kernel \<times> 'd" where
  "truncate_file env i fd path k d =
     (case e_vfs_put env path d of
        (e, d) \<Rightarrow>
          if e \<noteq> 0 then (e, k, d)
          else case e_vfs_open env path (p_files (k_processes k i) fd) d of
            ((e, file), d) \<Rightarrow> (e, set_file i fd file k, d))"

definition sys_open :: "'d env \<Rightarrow> nat \<Rightarrow> (nat \<Rightarrow> nat) \<Rightarrow> kernel \<Rightarrow> 'd \<Rightarrow> int \<times> kernel \<times> 'd" where
  "sys_open env i a k d =
     (let flags = word_of_nat (a 1) in
      if \<not> open_flags_ok flags then (K_EINVAL, k, d)
      else case user_string i (a 0) k of
        (e, path, k) \<Rightarrow>
          if e \<noteq> 0 then (e, k, d)
          else case find_from 3 16 (\<lambda>fd. \<not> p_fd_used (k_processes k i) fd) of
            None \<Rightarrow> (K_E2BIG, k, d)
          | Some fd \<Rightarrow>
            (case open_file env i fd path flags k d of
               (e, k, d) \<Rightarrow>
                 if e \<noteq> 0 then (e, k, d)
                 else if fl_attributes (p_files (k_processes k i) fd) AND 0x10 \<noteq> 0 then (K_EINVAL, k, d)
                 else if fl_kind (p_files (k_processes k i) fd) = 3 \<and> p_execution_class (k_processes k i) \<noteq> K_EXEC_RING1
                 then (K_EPERM, k, d)
                 else case (if flags AND K_OPEN_TRUNC \<noteq> 0 then truncate_file env i fd path k d else (0, k, d)) of
                   (e, k, d) \<Rightarrow>
                     if e \<noteq> 0 then (e, k, d)
                     else (int fd, proc_upd i (\<lambda>p. p\<lparr>p_fd_flags := (p_fd_flags p)(fd := ucast flags),
                             p_fd_used := (p_fd_used p)(fd := True), p_fd_offset := (p_fd_offset p)(fd := 0)\<rparr>) k, d)))"

definition sys_read :: "'d env \<Rightarrow> nat \<Rightarrow> (nat \<Rightarrow> nat) \<Rightarrow> kernel \<Rightarrow> 'd \<Rightarrow> int \<times> kernel \<times> 'd" where
  "sys_read env i a k d =
     (let fd = a 0 in
      if \<not> open_fd i fd k then (K_EINVAL, k, d)
      else if a 2 > 4096 then (K_E2BIG, k, d)
      else if a 2 = 0 then (0, k, d)
      else case user_check i (a 1) (a 2) True k of
        (e, k) \<Rightarrow>
          if e \<noteq> 0 then (e, k, d)
          else case e_vfs_read env (p_files (k_processes k i) fd) (p_fd_offset (k_processes k i) fd) (a 2) d of
            ((e, buf, got), d) \<Rightarrow>
              if e \<noteq> 0 then (e, k, d)
              else case user_write i (a 1) buf got k of
                (e, k) \<Rightarrow>
                  if e \<noteq> 0 then (e, k, d)
                  else (int64 got, set_offset i fd (add64 (p_fd_offset (k_processes k i) fd) got) k, d))"

definition sys_mkdir :: "'d env \<Rightarrow> nat \<Rightarrow> (nat \<Rightarrow> nat) \<Rightarrow> kernel \<Rightarrow> 'd \<Rightarrow> int \<times> kernel \<times> 'd" where
  "sys_mkdir env i a k d =
     (case user_string i (a 0) k of
        (e, path, k) \<Rightarrow> if e \<noteq> 0 then (e, k, d) else (case e_vfs_mkdir env path d of (e, d) \<Rightarrow> (e, k, d)))"

definition sys_close :: "nat \<Rightarrow> (nat \<Rightarrow> nat) \<Rightarrow> kernel \<Rightarrow> int \<times> kernel" where
  "sys_close i a k =
     (if \<not> open_fd i (a 0) k then (K_EINVAL, k)
      else (0, proc_upd i (\<lambda>p. p\<lparr>p_fd_used := (p_fd_used p)(a 0 := False)\<rparr>) k))"

definition sys_seek :: "'d env \<Rightarrow> nat \<Rightarrow> (nat \<Rightarrow> nat) \<Rightarrow> kernel \<Rightarrow> 'd \<Rightarrow> int \<times> kernel \<times> 'd" where
  "sys_seek env i a k d =
     (let fd = a 0 in
      if \<not> open_fd i fd k \<or> a 2 > 2 then (K_EINVAL, k, d)
      else case (if a 2 = 2
                 then (case e_vfs_stat env (p_files (k_processes k i) fd) d of ((e, file), d) \<Rightarrow> (e, set_file i fd file k, d))
                 else (0, k, d)) of
        (e, k, d) \<Rightarrow>
          if e \<noteq> 0 then (e, k, d)
          else
            let base = (if a 2 = 0 then 0 else if a 2 = 1 then p_fd_offset (k_processes k i) fd
                        else fl_size (p_files (k_processes k i) fd));
                off = int64 (a 1) in
            if base > 0x7fffffffffffffff then (K_EINVAL, k, d)
            else if (off < 0 \<and> sub64 0 (a 1) > base) \<or> (off \<ge> 0 \<and> a 1 > 0x7fffffffffffffff - base)
            then (K_EINVAL, k, d)
            else (int64 (add64 base (a 1)), set_offset i fd (add64 base (a 1)) k, d))"

section \<open>Messages\<close>

definition sys_send :: "nat \<Rightarrow> nat \<Rightarrow> (nat \<Rightarrow> nat) \<Rightarrow> kernel \<Rightarrow> int \<times> kernel" where
  "sys_send c i a k =
     (if a 2 > K_IPC_BYTES \<or> a 0 > 0xffffffff then (K_EINVAL, k)
      else case user_read i (a 1) (a 2) k of
        (e, bytes, k) \<Rightarrow> if e \<noteq> 0 then (e, k) else k_ipc_send c (a 0) (Some bytes) (a 2) k)"

definition sys_recv :: "nat \<Rightarrow> nat \<Rightarrow> (nat \<Rightarrow> nat) \<Rightarrow> kernel \<Rightarrow> int \<times> kernel" where
  "sys_recv c i a k =
     (if a 1 < 136 then (K_EINVAL, k)
      else case user_check i (a 0) 136 True k of
        (e, k) \<Rightarrow>
          if e \<noteq> 0 then (e, k)
          else case k_ipc_receive c True k of
            (Inl e, k) \<Rightarrow> (e, k)
          | (Inr msg, k) \<Rightarrow> user_write i (a 0) (message_bytes msg) 136 k)"

definition sys_reply :: "nat \<Rightarrow> nat \<Rightarrow> (nat \<Rightarrow> nat) \<Rightarrow> kernel \<Rightarrow> int \<times> kernel" where
  "sys_reply c i a k =
     (if a 2 > K_IPC_BYTES \<or> a 0 > 0xffffffff then (K_EINVAL, k)
      else if p_execution_class (k_processes k i) \<noteq> K_EXEC_RING1 then (K_EPERM, k)
      else case user_read i (a 1) (a 2) k of
        (e, bytes, k) \<Rightarrow> if e \<noteq> 0 then (e, k) else k_ipc_send c (a 0) (Some bytes) (a 2) k)"

definition sys_service :: "nat \<Rightarrow> nat \<Rightarrow> bool \<Rightarrow> (nat \<Rightarrow> nat) \<Rightarrow> kernel \<Rightarrow> int \<times> kernel" where
  "sys_service c i register a k =
     (case user_string i (a 0) k of
        (e, name, k) \<Rightarrow>
          if e \<noteq> 0 then (e, k)
          else if register then service_register i name k
          else case k_service_lookup c name k of (Inl e, k) \<Rightarrow> (e, k) | (Inr tid, k) \<Rightarrow> (int tid, k))"

section \<open>Processes\<close>

definition sys_spawn :: "'d env \<Rightarrow> nat \<Rightarrow> nat \<Rightarrow> (nat \<Rightarrow> nat) \<Rightarrow> kernel \<Rightarrow> 'd \<Rightarrow> int \<times> kernel \<times> 'd" where
  "sys_spawn env c i a k d =
     (case user_string i (a 0) k of
        (e, path, k) \<Rightarrow>
          if e \<noteq> 0 then (e, k, d)
          else case user_args i (a 1) k of
            (e, args, k) \<Rightarrow>
              if e \<noteq> 0 then (e, k, d)
              else if a 2 \<noteq> K_EXEC_RING1 \<and> a 2 \<noteq> K_EXEC_RING3 then (K_EINVAL, k, d)
              else if a 3 \<noteq> 2 ^ 64 - 1 \<and> a 3 > K_CPU_AUTO then (K_EINVAL, k, d)
              else case e_identity_seed env d of
                (seed, d) \<Rightarrow>
                  (case k_process_launch
                          (\<lambda>path d. case e_vfs_open env path zero_file d of
                             ((e, file), d) \<Rightarrow> (if e = 0 then Inr file else Inl e, d))
                          (e_vfs_read env) seed c path args (a 2) (a 3 mod 2 ^ 32) (p_id (k_processes k i)) k d of
                     ((Inl e, k), d) \<Rightarrow> (e, k, d)
                   | ((Inr pid, k), d) \<Rightarrow> (int pid, k, d)))"

definition sys_procinfo :: "nat \<Rightarrow> (nat \<Rightarrow> nat) \<Rightarrow> kernel \<Rightarrow> int \<times> kernel" where
  "sys_procinfo i a k =
     (if a 0 \<ge> MAX_PROCESSES then (K_EINVAL, k)
      else case user_check i (a 1) 104 True k of
        (e, k) \<Rightarrow> if e \<noteq> 0 then (e, k) else copy_out i (a 1) (map_sum id info_bytes (k_process_get (a 0) k)) 104 k)"

text \<open>
  One round of the loop of \<open>K_SYS_WAITPID\<close>: the critical section under \<open>process_mutex\<close>, then the
  return, or a sleep of one millisecond after which the round is repeated.
\<close>

definition waitpid_locked :: "nat \<Rightarrow> (nat \<Rightarrow> nat) \<Rightarrow> kernel \<Rightarrow> int \<times> kernel" where
  "waitpid_locked i a k =
     (case process_by_pid (a 0) k of
        None \<Rightarrow> (K_ENOENT, k)
      | Some target \<Rightarrow>
          if target = i then (K_ENOENT, k)
          else if p_parent (k_processes k target) \<noteq> p_id (k_processes k i) \<and> p_execution_class (k_processes k i) \<noteq> K_EXEC_RING1
          then (K_EPERM, k)
          else if p_state (k_processes k target) \<noteq> K_TASK_ZOMBIE then (K_EAGAIN, k)
          else
            let (e, k) = (case k_process_query (p_id (k_processes k target)) k of
                            Inl e \<Rightarrow> (e, k)
                          | Inr info \<Rightarrow> if a 1 \<noteq> 0 then user_write i (a 1) (info_bytes info) 104 k else (0, k));
                (e, k) = (if e = 0 \<and> word_of_nat (a 2) AND K_WAIT_REAP \<noteq> 0 then process_destroy_locked target k else (e, k)) in
            (if e = K_EBUSY then K_EAGAIN else e, k))"

definition waitpid_round :: "nat \<Rightarrow> nat \<Rightarrow> nat \<Rightarrow> (nat \<Rightarrow> nat) \<Rightarrow> kernel \<Rightarrow> outcome \<times> kernel" where
  "waitpid_round c i t a k =
     (case waitpid_locked i a k of
        (e, k) \<Rightarrow>
          if e \<noteq> K_EAGAIN \<or> word_of_nat (a 2) AND K_WAIT_NOHANG \<noteq> 0 \<or> t_control_request (k_tasks k t) \<noteq> 0
          then (Return e, k)
          else (Wait, snd (k_sleep c 1 k)))"

definition sys_waitpid :: "nat \<Rightarrow> nat \<Rightarrow> nat \<Rightarrow> (nat \<Rightarrow> nat) \<Rightarrow> kernel \<Rightarrow> outcome \<times> kernel" where
  "sys_waitpid c i t a k =
     (if a 0 = 0 \<or> a 0 > 0xffffffff \<or> word_of_nat (a 2) AND NOT 3 \<noteq> (0::u64) then (Return K_EINVAL, k)
      else case (if a 1 \<noteq> 0 then user_check i (a 1) 104 True k else (0, k)) of
        (e, k) \<Rightarrow> if e \<noteq> 0 then (Return K_EFAULT, k) else waitpid_round c i t a k)"

definition sys_control :: "nat \<Rightarrow> (nat \<Rightarrow> nat) \<Rightarrow> kernel \<Rightarrow> int \<times> kernel" where
  "sys_control i a k =
     (if a 0 > 0xffffffff \<or> a 1 > 0xffffffff then (K_EINVAL, k)
      else case process_by_pid (a 0) k of
        None \<Rightarrow> (K_ENOENT, k)
      | Some target \<Rightarrow>
          if target \<noteq> i \<and> p_parent (k_processes k target) \<noteq> p_id (k_processes k i) \<and>
             p_execution_class (k_processes k i) \<noteq> K_EXEC_RING1
          then (K_EPERM, k)
          else process_control_locked (p_id (k_processes k target)) (a 1) k)"

definition sys_admin :: "'d env \<Rightarrow> nat \<Rightarrow> nat \<Rightarrow> (nat \<Rightarrow> nat) \<Rightarrow> kernel \<Rightarrow> 'd \<Rightarrow> int \<times> kernel \<times> 'd" where
  "sys_admin env c i a k d =
     (case user_read i (a 0) 88 k of
        (e, b, k) \<Rightarrow> if e \<noteq> 0 then (e, k, d) else admin_operation env c i (read_request b) k d)"

definition sys_getargs :: "nat \<Rightarrow> (nat \<Rightarrow> nat) \<Rightarrow> kernel \<Rightarrow> int \<times> kernel" where
  "sys_getargs i a k =
     (let s = p_arguments (k_processes k i); n = str_len s + 1 in
      if a 1 < n then (K_E2BIG, k)
      else case user_write i (a 0) (put_string (\<lambda>_. 0) 0 s) n k of
        (e, k) \<Rightarrow> if e \<noteq> 0 then (e, k) else (int (n - 1), k))"

definition sys_map :: "nat \<Rightarrow> bool \<Rightarrow> (nat \<Rightarrow> nat) \<Rightarrow> kernel \<Rightarrow> int \<times> kernel" where
  "sys_map i ex a k =
     (if a 2 > 7 \<or> (ex \<and> a 3 > 3) then (K_EINVAL, k)
      else case (if ex then x86_64_as_alloc_ex (p_space i k) (a 0) (a 1) (word_of_nat (a 2)) (a 3) (k_vm k)
                 else x86_64_as_alloc (p_space i k) (a 0) (a 1) (word_of_nat (a 2)) (k_vm k)) of
        (Inl e, v) \<Rightarrow> (e, set_vm v k)
      | (Inr base, v) \<Rightarrow> (int64 base, set_vm v k))"

definition sys_diskinfo :: "'d env \<Rightarrow> nat \<Rightarrow> (nat \<Rightarrow> nat) \<Rightarrow> kernel \<Rightarrow> 'd \<Rightarrow> int \<times> kernel" where
  "sys_diskinfo env i a k d =
     (if p_execution_class (k_processes k i) \<noteq> K_EXEC_RING1 then (K_EPERM, k)
      else if a 0 > 0xffffffff then (K_EINVAL, k)
      else copy_out i (a 1) (e_disk_get env (a 0) d) 104 k)"

definition sys_partitioninfo :: "nat \<Rightarrow> (nat \<Rightarrow> nat) \<Rightarrow> kernel \<Rightarrow> int \<times> kernel" where
  "sys_partitioninfo i a k =
     (if p_execution_class (k_processes k i) \<noteq> K_EXEC_RING1 then (K_EPERM, k)
      else if a 0 > 0xffffffff then (K_EINVAL, k)
      else copy_out i (a 1) (map_sum id partition_bytes (k_partition_get (a 0) k)) 48 k)"

section \<open>The dispatcher\<close>

definition ret3 :: "int \<times> kernel \<times> 'd \<Rightarrow> outcome \<times> kernel \<times> 'd" where
  "ret3 r = (case r of (e, k, d) \<Rightarrow> (Return e, k, d))"

definition syscall_extended ::
  "'d env \<Rightarrow> nat \<Rightarrow> nat \<Rightarrow> nat \<Rightarrow> k_syscall_request \<Rightarrow> kernel \<Rightarrow> 'd \<Rightarrow> outcome \<times> kernel \<times> 'd" where
  "syscall_extended env c i t f k d =
     (let n = rq_number f; a = rq_args f in
      if K_SYS_NETINFO \<le> n \<and> n \<le> K_SYS_WIFISCAN then ret3 (e_net_syscall env i n a k d)
      else if n = K_SYS_SPAWN then ret3 (sys_spawn env c i a k d)
      else if n = K_SYS_PROCINFO then ret (sys_procinfo i a k) d
      else if n = K_SYS_WAITPID then (case sys_waitpid c i t a k of (r, k) \<Rightarrow> (r, k, d))
      else if n = K_SYS_CONTROL then ret (sys_control i a k) d
      else if n = K_SYS_ADMIN then ret3 (sys_admin env c i a k d)
      else if n = K_SYS_IDENTITY then
        ret (copy_out i (a 0) (map_sum id identity_bytes (k_process_identity (p_id (k_processes k i)) k)) 64 k) d
      else if n = K_SYS_SERVICE_REGISTER then ret (sys_service c i True a k) d
      else if n = K_SYS_SERVICE_LOOKUP then ret (sys_service c i False a k) d
      else if n = K_SYS_SERVICE_REPLY then ret (sys_reply c i a k) d
      else if n = K_SYS_GETCPU then (Return (int c), k, d)
      else if n = K_SYS_TLSBASE then (Return (int64 (p_tls (k_processes k i))), k, d)
      else if n = K_SYS_GETARGS then ret (sys_getargs i a k) d
      else if n = K_SYS_SEEK then ret3 (sys_seek env i a k d)
      else if n = K_SYS_MAPEX then ret (sys_map i True a k) d
      else if n = K_SYS_MAP then ret (sys_map i False a k) d
      else if n = K_SYS_DISKINFO then ret (sys_diskinfo env i a k d) d
      else if n = K_SYS_PARTITIONINFO then ret (sys_partitioninfo i a k) d
      else (Return K_ENOTSUP, k, d))"

definition syscall_dispatch ::
  "'d env \<Rightarrow> nat \<Rightarrow> k_syscall_request \<Rightarrow> kernel \<Rightarrow> 'd \<Rightarrow> outcome \<times> kernel \<times> 'd" where
  "syscall_dispatch env c f k d =
     (case current_task c k of
        None \<Rightarrow> (Return K_EPERM, k, d)
      | Some t \<Rightarrow>
        (case t_process (k_tasks k t) of
           None \<Rightarrow> (Return K_EPERM, k, d)
         | Some i \<Rightarrow>
             let n = rq_number f; a = rq_args f in
             if n = K_SYS_EXIT then
               (case k_task_exit c (int32 (a 0)) k of None \<Rightarrow> (Halt, k, d) | Some k \<Rightarrow> (Exit, k, d))
             else if n = K_SYS_WRITE then ret3 (sys_write env i a k d)
             else if n = K_SYS_YIELD then (Yield 0, k, d)
             else if n = K_SYS_SLEEP then
               if a 0 > 86400000 then (Return K_EINVAL, k, d)
               else (case k_sleep c (a 0) k of (y, k) \<Rightarrow> (if y then Yield 0 else Return 0, k, d))
             else if n = K_SYS_GETPID then (Return (int (p_id (k_processes k i))), k, d)
             else if n = K_SYS_TICKS then (Return (int64 (k_now k)), k, d)
             else if n = K_SYS_SEND then ret (sys_send c i a k) d
             else if n = K_SYS_RECV then ret (sys_recv c i a k) d
             else if n = K_SYS_OPEN then ret3 (sys_open env i a k d)
             else if n = K_SYS_READ then ret3 (sys_read env i a k d)
             else if n = K_SYS_MKDIR then ret3 (sys_mkdir env i a k d)
             else if n = K_SYS_SYNC then (case e_vfs_sync env d of (e, d) \<Rightarrow> (Return e, k, d))
             else if n = K_SYS_CLOSE then ret (sys_close i a k) d
             else syscall_extended env c i t f k d))"

end
