(* ===== verification/Authority.thy ===== *)
theory Authority
  imports Dispatch RiefInv SchedInv
begin

text \<open>
  Who owns what. \<open>auth\<close> projects the kernel state to what authority rests on: identity, class and
  parent of every process, the next process identifier, the named services, the partition leases and
  the input lease. Most operations leave it alone; the lemmas \<open>auth_simps\<close> say so one by one, and
  the properties say what the others may do to it.
\<close>

text \<open>Identifier, class and parent of a process in use.\<close>

type_synonym identity = "(nat \<times> nat \<times> nat) option"

definition who :: "k_process \<Rightarrow> identity" where
  "who p = (if p_used p then Some (p_id p, p_execution_class p, p_parent p) else None)"

definition auth :: "kernel \<Rightarrow> (nat \<Rightarrow> identity) \<times> nat \<times> (nat \<Rightarrow> service) \<times> (nat \<Rightarrow> k_partition_info) \<times> nat \<times> nat" where
  "auth k = (\<lambda>j. who (k_processes k j), k_next_process_id k, k_services k, k_partitions k, k_partition_count k, k_input_owner k)"

named_theorems auth_simps \<open>operations that leave identities, services and leases alone\<close>

section \<open>Operations that keep authority\<close>

lemma auth_fields [auth_simps]:
  "auth (task_upd i f k) = auth k" "auth (cpu_upd c g k) = auth k" "auth (vm_upd w k) = auth k"
  "auth (k\<lparr>k_vm := v\<rparr>) = auth k" "auth (k\<lparr>k_frames := fr\<rparr>) = auth k" "auth (k\<lparr>k_next_task_id := n\<rparr>) = auth k"
  by (simp_all add: auth_def task_upd_def cpu_upd_def vm_upd_def)

lemma auth_proc_upd: "who (f (k_processes k i)) = who (k_processes k i) \<Longrightarrow> auth (proc_upd i f k) = auth k"
  by (simp add: auth_def proc_upd_def fun_eq_iff)

lemma auth_proc_fields [auth_simps]:
  "auth (proc_upd i (\<lambda>p. p\<lparr>p_state := s\<rparr>) k) = auth k"
  "auth (proc_upd i (\<lambda>p. p\<lparr>p_exit_code := x, p_state := s\<rparr>) k) = auth k"
  "auth (proc_upd i (\<lambda>p. p\<lparr>p_task_id := t, p_state := s\<rparr>) k) = auth k"
  "auth (proc_upd i (\<lambda>p. p\<lparr>p_user_stack := a\<rparr>) k) = auth k" "auth (proc_upd i (\<lambda>p. p\<lparr>p_tls := a\<rparr>) k) = auth k"
  "auth (proc_upd i (\<lambda>p. p\<lparr>p_grants := g, p_grant_count := n\<rparr>) k) = auth k"
  "auth (set_file i fd file k) = auth k" "auth (set_offset i fd off k) = auth k"
  "auth (set_owner a q k) = auth k" "auth (proc_state po s k) = auth k"
  by (simp_all add: auth_proc_upd who_def set_file_def set_offset_def set_owner_def auth_simps proc_state_def
      split: option.split)

lemma cpu_floor_auth [auth_simps]: "auth (snd (cpu_floor c k)) = auth k"
  by (simp add: cpu_floor_def Let_def auth_simps)

lemma task_ready_auth [auth_simps]: "auth (task_ready i k) = auth k"
  by (simp add: task_ready_def Let_def auth_simps split: prod.split) (metis auth_simps(1) cpu_floor_auth snd_conv)

text \<open>Access to user memory changes the memory manager only.\<close>

definition only_vm :: "kernel \<Rightarrow> kernel \<Rightarrow> bool" where
  "only_vm k k' \<longleftrightarrow> (\<exists>v. k' = k\<lparr>k_vm := v\<rparr>)"

lemma only_vm_refl [simp]: "only_vm k k"
  unfolding only_vm_def by (rule exI[of _ "k_vm k"]) simp

lemma only_vm_set [simp]: "only_vm k (k\<lparr>k_vm := v\<rparr>)"
  unfolding only_vm_def by blast

lemma only_vm_trans: "only_vm k k1 \<Longrightarrow> only_vm k1 k2 \<Longrightarrow> only_vm k k2"
  by (auto simp: only_vm_def)

lemma only_vmD: "only_vm k k' \<Longrightarrow> k_processes k' = k_processes k \<and> k_tasks k' = k_tasks k \<and> k_cpus k' = k_cpus k \<and> auth k' = auth k"
  by (auto simp: only_vm_def auth_simps)

lemma user_check_vm: "user_check i u n w k = (e, k') \<Longrightarrow> only_vm k k'"
  by (auto simp: user_check_def split: prod.splits)

lemma user_read_vm: "user_read i u n k = (e, b, k') \<Longrightarrow> only_vm k k'"
  by (auto simp: user_read_def split: prod.splits)

lemma user_write_vm: "user_write i u b n k = (e, k') \<Longrightarrow> only_vm k k'"
  by (auto simp: user_write_def split: prod.splits)

lemma copy_out_vm: "copy_out i u r n k = (e, k') \<Longrightarrow> only_vm k k'"
  by (auto simp: copy_out_def user_write_vm split: sum.splits)

lemma user_chars_vm: "user_chars cap i u z n s k = (e, s', k') \<Longrightarrow> only_vm k k'"
proof (induction cap i u z n s k rule: user_chars.induct)
  case (1 cap i u z n s k)
  obtain d b k1 where r: "user_read i (u + n) 1 k = (d, b, k1)" by (metis prod_cases3)
  show ?case using "1.prems" "1.IH"[OF _ _ r[symmetric] refl] only_vm_trans[OF user_read_vm[OF r]] user_read_vm[OF r] r
    by (auto simp: user_chars.simps[of cap i u z n s k] split: if_splits)
qed

lemma user_string_vm: "user_string i u k = (e, s, k') \<Longrightarrow> only_vm k k'"
  by (auto simp: user_string_def user_chars_vm)

lemma user_args_vm: "user_args i u k = (e, s, k') \<Longrightarrow> only_vm k k'"
  by (auto simp: user_args_def user_chars_vm split: if_splits)

lemmas user_check_auth = user_check_vm[THEN only_vmD, THEN conjunct2, THEN conjunct2, THEN conjunct2]
lemmas user_read_auth = user_read_vm[THEN only_vmD, THEN conjunct2, THEN conjunct2, THEN conjunct2]
lemmas user_write_auth = user_write_vm[THEN only_vmD, THEN conjunct2, THEN conjunct2, THEN conjunct2]
lemmas copy_out_auth = copy_out_vm[THEN only_vmD, THEN conjunct2, THEN conjunct2, THEN conjunct2]
lemmas user_string_auth = user_string_vm[THEN only_vmD, THEN conjunct2, THEN conjunct2, THEN conjunct2]
lemmas user_args_auth = user_args_vm[THEN only_vmD, THEN conjunct2, THEN conjunct2, THEN conjunct2]

lemma k_ipc_send_auth: "k_ipc_send c t b n k = (e, k') \<Longrightarrow> auth k' = auth k"
  by (auto simp: k_ipc_send_def auth_simps split: option.splits if_splits)

lemma k_ipc_receive_auth: "k_ipc_receive c out k = (r, k') \<Longrightarrow> auth k' = auth k"
  by (auto simp: k_ipc_receive_def auth_simps split: option.splits if_splits)

lemma grant_locked_auth: "grant_locked i tid k = (e, k') \<Longrightarrow> auth k' = auth k"
  by (auto simp: grant_locked_def Let_def auth_simps auth_proc_upd who_def split: prod.splits if_splits)

lemma revoke_grant_auth [auth_simps]: "auth (revoke_grant i tid k) = auth k"
  by (auto simp: revoke_grant_def Let_def auth_proc_upd who_def split: option.splits)

lemma k_sleep_auth: "k_sleep c ms k = (y, k') \<Longrightarrow> auth k' = auth k"
  by (auto simp: k_sleep_def Let_def auth_simps split: option.splits if_splits)

lemma k_task_exit_auth: "k_task_exit c code k = Some k' \<Longrightarrow> auth k' = auth k"
  by (auto simp: k_task_exit_def Let_def auth_simps split: option.splits if_splits)

lemma free_task_auth [auth_simps]: "auth (free_task i k) = auth k"
  by (simp add: free_task_def Let_def auth_simps)

lemma task_context_auth [auth_simps]: "auth (x86_64_task_context_init i k) = auth k"
  "auth (x86_64_user_context_init i e s k) = auth k"
  by (simp_all add: x86_64_task_context_init_def x86_64_user_context_init_def Let_def auth_simps)

lemma new_task_auth: "new_task nm en ar w c idle k = (r, k') \<Longrightarrow> auth k' = auth k"
  by (auto simp: new_task_def Let_def auth_simps split: option.splits if_splits prod.splits
      dest!: arg_cong[of "cpu_floor _ _" _ "\<lambda>x. auth (snd x)"])

lemma start_stack_auth: "start_stack i k = (e, k') \<Longrightarrow> auth k' = auth k"
  by (auto simp: start_stack_def auth_simps split: if_splits prod.splits sum.splits)

lemma start_tls_auth: "start_tls i k = (e, k') \<Longrightarrow> auth k' = auth k"
  by (auto simp: start_tls_def Let_def auth_simps split: if_splits prod.splits sum.splits)

lemma process_start_auth: "process_start_locked i c k = (r, k') \<Longrightarrow> auth k' = auth k"
  by (auto simp: process_start_locked_def Let_def auth_simps split: if_splits prod.splits sum.splits option.splits
      dest!: start_stack_auth start_tls_auth new_task_auth)

lemma process_control_auth: "process_control_locked pid op k = (e, k') \<Longrightarrow> auth k' = auth k"
  by (auto simp: process_control_locked_def Let_def auth_simps split: if_splits option.splits)

lemma check_exports_who: "check_exports b h i p = (r, p') \<Longrightarrow> who p' = who p"
  by (drule check_exports_keeps, erule ssubst) (simp add: who_def)

lemma map_regions_who: "map_regions b h a i p v = (e, p', v') \<Longrightarrow> who p' = who p"
  by (drule map_regions_keeps, elim conjE, erule ssubst) (simp add: who_def)

lemma fold_who: "(\<And>i p. who (f i p) = who p) \<Longrightarrow> who (fold f xs p) = who p"
  by (induction xs arbitrary: p) simp_all

lemma set_exports_who: "who (set_exports b h p) = who p"
  unfolding set_exports_def by (rule fold_who) (simp add: who_def split: prod.split)

lemma rief_fail_who: "rief_fail a n m p v = (p', v') \<Longrightarrow> who p' = who p"
  by (auto simp: rief_fail_def who_def)

lemma who_loaded: "who (p\<lparr>p_region_count := a, p_export_count := b, p_entry := c, p_loaded := l\<rparr>) = who p"
  by (simp add: who_def)

lemma rief_load_locked_who: "rief_load_locked a img n bs p v = (e, p', v') \<Longrightarrow> who p' = who p"
  by (auto simp: rief_load_locked_def Let_def who_loaded set_exports_who split: option.splits if_splits prod.splits sum.splits bool.splits
      dest!: check_exports_who map_regions_who rief_fail_who)

lemma rief_load_auth: "rief_load i img n bs k = (e, k') \<Longrightarrow> auth k' = auth k"
  by (auto simp: rief_load_def auth_proc_upd auth_simps split: if_splits prod.splits dest: rief_load_locked_who)

section \<open>Operations that change it\<close>

definition procs :: "kernel \<Rightarrow> nat \<Rightarrow> identity" where
  "procs k j = who (k_processes k j)"

text \<open>Services and leases are given up, never taken.\<close>

definition leases_drop :: "kernel \<Rightarrow> kernel \<Rightarrow> bool" where
  "leases_drop k k' \<longleftrightarrow> k_partition_count k' = k_partition_count k \<and>
     (\<forall>s. k_services k' s = k_services k s \<or> k_services k' s = zero_service) \<and>
     (\<forall>n. k_partitions k' n = k_partitions k n \<or> k_partitions k' n = (k_partitions k n)\<lparr>pt_owner_pid := 0\<rparr>) \<and>
     (k_input_owner k' = k_input_owner k \<or> k_input_owner k' = 0)"

lemma auth_eqD: "auth k' = auth k \<Longrightarrow> procs k' = procs k \<and> k_next_process_id k' = k_next_process_id k \<and> leases_drop k k'"
  by (simp add: auth_def procs_def leases_drop_def fun_eq_iff)

lemma auth_procs: "auth k' = auth k \<Longrightarrow> procs k' = procs k"
  and auth_next: "auth k' = auth k \<Longrightarrow> k_next_process_id k' = k_next_process_id k"
  and auth_leases: "auth k' = auth k \<Longrightarrow> leases_drop k k'"
  using auth_eqD by blast+

lemma leases_drop_refl [simp]: "leases_drop k k"
  by (simp add: leases_drop_def)

lemma leases_drop_trans: "leases_drop k k1 \<Longrightarrow> leases_drop k1 k2 \<Longrightarrow> leases_drop k k2"
  unfolding leases_drop_def by (smt (verit) k_partition_info.surjective k_partition_info.update_convs(9))

lemma leases_drop_cong:
  "k_services k1 = k_services k' \<Longrightarrow> k_partitions k1 = k_partitions k' \<Longrightarrow> k_partition_count k1 = k_partition_count k' \<Longrightarrow>
   k_input_owner k1 = k_input_owner k' \<Longrightarrow> leases_drop k k1 = leases_drop k k'"
  by (simp add: leases_drop_def)

lemma procs_proc_upd: "procs (proc_upd i f k) = (procs k)(i := who (f (k_processes k i)))"
  by (simp add: procs_def fun_eq_iff)

lemma resources_release_procs [simp]: "k_processes (process_resources_release i k) = k_processes k"
  "k_next_process_id (process_resources_release i k) = k_next_process_id k"
  "k_tasks (process_resources_release i k) = k_tasks k" "k_vm (process_resources_release i k) = k_vm k"
  "k_cpus (process_resources_release i k) = k_cpus k"
  by (simp_all add: process_resources_release_def Let_def)

lemma resources_release_drop: "leases_drop k (process_resources_release i k)"
  by (simp add: leases_drop_def process_resources_release_def Let_def)

lemma destroy_tasks_auth: "destroy_tasks p is k = (ok, k') \<Longrightarrow> auth k' = auth k"
  by (induction p "is" k rule: destroy_tasks.induct) (auto simp: auth_simps split: if_splits)

text \<open>The ways \<open>process_destroy_locked\<close> ends: refused, a task still on a CPU, the space not destroyed, done.\<close>

lemma process_destroy_cases:
  assumes "process_destroy_locked i k = (e, k')"
  obtains (refused) "e \<noteq> 0" "k' = k"
  | (busy) "e = K_EBUSY" "destroy_tasks i [0..<K_MAX_TASKS] k = (False, k')"
  | (kept) k1 k2 v where "e \<noteq> 0" "auth k1 = auth k" "k2 = set_owner (p_space i k1) None (process_resources_release i k1)"
      "k' = set_owner (p_space i k1) (Some i) (set_vm v k2)"
  | (gone) k1 k2 v where "e = 0" "valid_process i k"
      "(if p_task_id (k_processes k i) \<noteq> 0 then destroy_tasks i [0..<K_MAX_TASKS] k else (True, k)) = (True, k1)"
      "auth k1 = auth k" "k2 = set_owner (p_space i k1) None (process_resources_release i k1)"
      "k' = proc_upd i (\<lambda>_. zero_process) (set_vm v k2)"
proof (cases "\<not> valid_process i k \<or> p_task_id (k_processes k i) \<noteq> 0 \<and> p_state (k_processes k i) \<noteq> K_TASK_ZOMBIE")
  case True
  then have "process_destroy_locked i k = (if valid_process i k then K_EBUSY else K_EINVAL, k)"
    unfolding process_destroy_locked_def by (simp split: if_splits)
  then show thesis using assms by (intro refused) simp_all
next
  case False
  obtain ok k1 where d: "(if p_task_id (k_processes k i) \<noteq> 0 then destroy_tasks i [0..<K_MAX_TASKS] k else (True, k)) = (ok, k1)"
    by fastforce
  have a1: "auth k1 = auth k" using d by (auto split: if_splits dest: destroy_tasks_auth)
  define k2 where "k2 = set_owner (p_space i k1) None (process_resources_release i k1)"
  obtain d2 v where x: "x86_64_as_destroy (space_in_use (p_space i k1) k2) (p_space i k1) (k_vm k2) = (d2, v)" by fastforce
  have c: "(\<not> valid_process i k) = False" "(p_task_id (k_processes k i) \<noteq> 0 \<and> p_state (k_processes k i) \<noteq> K_TASK_ZOMBIE) = False"
    using False by auto
  note eq = assms[unfolded process_destroy_locked_def d c Let_def prod.case if_False, folded k2_def, unfolded x prod.case]
  show thesis
  proof (cases ok)
    case False
    then show thesis using eq d by (intro busy) (auto split: if_splits)
  next
    case True
    note d1 = d[unfolded True, simplified]
    show thesis
    proof (cases "d2 = 0")
      case True
      then show thesis using eq \<open>ok\<close> d a1 False by (intro gone[OF _ _ _ _ k2_def]) auto
    next
      case False
      then show thesis using eq \<open>ok\<close> a1 by (intro kept[OF _ _ k2_def]) auto
    qed
  qed
qed

lemma process_destroy_locked_auth:
  assumes "process_destroy_locked i k = (e, k')"
  shows "leases_drop k k' \<and> k_next_process_id k' = k_next_process_id k \<and>
    procs k' = (if e = 0 then (procs k)(i := None) else procs k)"
  using assms
proof (cases rule: process_destroy_cases)
  case refused
  then show ?thesis by simp
next
  case busy
  then show ?thesis using auth_eqD[OF destroy_tasks_auth[OF busy(2)]] by simp
next
  case (kept k1 k2 v)
  have "auth k2 = auth (process_resources_release i k1)" unfolding kept(3) by (simp only: auth_simps)
  note a = auth_eqD[OF kept(2)] auth_eqD[OF this]
  have "auth k' = auth k2" unfolding kept(4) by (simp only: auth_simps)
  note a3 = auth_eqD[OF this]
  have "leases_drop k k'" using a a3 resources_release_drop leases_drop_trans by blast
  with a a3 kept(1) show ?thesis by (simp add: procs_def fun_eq_iff)
next
  case (gone k1 k2 v)
  have "auth k2 = auth (process_resources_release i k1)" unfolding gone(5) by (simp only: auth_simps)
  note a = auth_eqD[OF gone(4)] auth_eqD[OF this]
  have l: "leases_drop k k2" using a resources_release_drop leases_drop_trans by blast
  have "procs k2 = procs k" using a by (simp add: procs_def fun_eq_iff)
  moreover have "procs (set_vm v k2) = procs k2" by (simp add: procs_def fun_eq_iff)
  moreover have "leases_drop k k' = leases_drop k k2" by (rule leases_drop_cong) (simp_all add: gone(6) proc_upd_def)
  ultimately show ?thesis using l a gone(1) by (simp add: gone(6) procs_proc_upd who_def zero_process_def)
qed

lemma process_create_locked_auth:
  assumes "process_create_locked seed name k = (r, k')"
  shows "leases_drop k k' \<and>
    (case r of
       None \<Rightarrow> procs k' = procs k \<and> (k_next_process_id k' = k_next_process_id k \<or>
         k_next_process_id k \<noteq> 0 \<and> k_next_process_id k' = add32 (k_next_process_id k) 1)
     | Some i \<Rightarrow> procs k i = None \<and> k_next_process_id k \<noteq> 0 \<and> k_next_process_id k' = add32 (k_next_process_id k) 1 \<and>
         procs k' = (procs k)(i := Some (k_next_process_id k, K_EXEC_RING3, 0)))"
  using assms find_from_Some[of 0 MAX_PROCESSES "\<lambda>i. \<not> p_used (k_processes k i)"]
  by (auto simp: process_create_locked_def Let_def procs_def who_def fun_eq_iff proc_upd_def leases_drop_def zero_process_def
      split: option.splits if_splits prod.splits)

text \<open>A launch adds at most one process, of the class and parent asked for.\<close>

definition born :: "nat \<Rightarrow> nat \<Rightarrow> kernel \<Rightarrow> kernel \<Rightarrow> bool" where
  "born cls parent k k' \<longleftrightarrow> (\<exists>i. procs k i = None \<and> k_next_process_id k \<noteq> 0 \<and>
     k_next_process_id k' = add32 (k_next_process_id k) 1 \<and>
     procs k' = (procs k)(i := Some (k_next_process_id k, cls, parent)))"

definition unborn :: "kernel \<Rightarrow> kernel \<Rightarrow> bool" where
  "unborn k k' \<longleftrightarrow> procs k' = procs k \<and> (k_next_process_id k' = k_next_process_id k \<or>
     k_next_process_id k \<noteq> 0 \<and> k_next_process_id k' = add32 (k_next_process_id k) 1)"

lemma unborn_auth: "auth k' = auth k \<Longrightarrow> unborn k k'"
  by (auto simp: unborn_def dest: auth_eqD)

lemma launch_created:
  assumes created: "process_create_locked seed (Some path) k = (Some i, k1)"
    and load: "rief_load i img sz [] (proc_upd i (\<lambda>p. p\<lparr>p_parent := parent, p_execution_class := cls,
                 p_arguments := args\<rparr>) k1) = (e, k2)"
    and run: "(case (if e \<noteq> 0 then (Inl e, vm_upd w k2) else process_start_locked i cpu (vm_upd w k2)) of
         (Inl e, k) \<Rightarrow> (Inl e, snd (process_destroy_locked i k))
       | (Inr tid, k) \<Rightarrow> (Inr (p_id (k_processes k i)), k)) = (r, k')"
  shows "leases_drop k k' \<and> (case r of Inr pid \<Rightarrow> pid = k_next_process_id k \<and> born cls parent k k'
    | Inl _ \<Rightarrow> unborn k k' \<or> born cls parent k k')"
proof -
  let ?pid = "k_next_process_id k" and ?next = "add32 (k_next_process_id k) 1"
  note c = process_create_locked_auth[OF created, simplified]
  define k1' where "k1' = proc_upd i (\<lambda>p. p\<lparr>p_parent := parent, p_execution_class := cls, p_arguments := args\<rparr>) k1"
  have u: "p_used (k_processes k1 i)" "p_id (k_processes k1 i) = ?pid"
    using c by (auto simp: procs_def who_def fun_eq_iff split: if_splits)
  have p1: "procs k1' = (procs k)(i := Some (?pid, cls, parent))" "k_next_process_id k1' = ?next"
    using c u by (simp_all add: k1'_def procs_proc_upd who_def)
  have l1: "leases_drop k k1'" using c leases_drop_cong[of k1' k1 k] by (simp add: k1'_def proc_upd_def)
  obtain x k3 where s: "(if e \<noteq> 0 then (Inl e, vm_upd w k2) else process_start_locked i cpu (vm_upd w k2)) = (x, k3)" by fastforce
  have "auth k3 = auth (vm_upd w k2)" using s by (auto split: if_splits dest: process_start_auth)
  then have a3: "auth k3 = auth k1'" using rief_load_auth[OF load] by (simp add: auth_simps k1'_def)
  note A = auth_eqD[OF a3]
  have p3: "procs k3 = (procs k)(i := Some (?pid, cls, parent))" "k_next_process_id k3 = ?next" "leases_drop k k3"
    using A p1 leases_drop_trans[OF l1] by auto
  have b3: "born cls parent k k3" using c p3 by (auto simp: born_def)
  show ?thesis
  proof (cases x)
    case (Inr tid)
    then have "r = Inr (p_id (k_processes k3 i))" "k' = k3" using run by (auto simp: s)
    moreover have "p_id (k_processes k3 i) = ?pid"
      using p3(1) by (auto simp: procs_def who_def fun_eq_iff split: if_splits)
    ultimately show ?thesis using b3 p3(3) by simp
  next
    case (Inl d)
    obtain e4 k4 where d: "process_destroy_locked i k3 = (e4, k4)" by fastforce
    note D = process_destroy_locked_auth[OF d]
    have r: "r = Inl d" "k' = k4" using run Inl d by (auto simp: s)
    have "procs k i = None" using c by simp
    then have "(procs k3)(i := None) = procs k" by (auto simp: p3(1) fun_eq_iff)
    then have "unborn k k4 \<or> born cls parent k k4"
      using D p3(2) b3 by (auto simp: unborn_def born_def)
    then show ?thesis using r leases_drop_trans[OF p3(3)] D by simp
  qed
qed

lemma launch_image_auth:
  assumes "launch_image seed path args cls cpu parent img sz e k = (r, k')"
  shows "leases_drop k k' \<and> (case r of Inr pid \<Rightarrow> pid = k_next_process_id k \<and> born cls parent k k'
    | Inl _ \<Rightarrow> unborn k k' \<or> born cls parent k k')"
proof (cases "e = 0")
  case False
  then have "r = Inl e" "k' = vm_upd (vm_free img ((sz + 4095) div 4096)) k" using assms by (auto simp: launch_image_def)
  moreover have "auth (vm_upd (vm_free img ((sz + 4095) div 4096)) k) = auth k" by (rule auth_simps)
  ultimately show ?thesis using unborn_auth auth_leases by auto
next
  case True
  obtain ro k1 where c: "process_create_locked seed (Some path) k = (ro, k1)" by fastforce
  show ?thesis
  proof (cases ro)
    case None
    then have "r = Inl K_ENOMEM" "k' = vm_upd (vm_free img ((sz + 4095) div 4096)) k1"
      using assms True c by (auto simp: launch_image_def)
    moreover have "auth (vm_upd (vm_free img ((sz + 4095) div 4096)) k1) = auth k1" by (rule auth_simps)
    ultimately show ?thesis using process_create_locked_auth[OF c] None auth_eqD[of k' k1] leases_drop_trans[of k k1 k']
      by (auto simp: unborn_def)
  next
    case (Some i)
    define k1' where "k1' = proc_upd i (\<lambda>p. p\<lparr>p_parent := parent, p_execution_class := cls,
      p_arguments := str_copy (p_arguments p) args K_PROCESS_ARGS_MAX\<rparr>) k1"
    have eq: "k1' = proc_upd i (\<lambda>p. p\<lparr>p_parent := parent, p_execution_class := cls,
      p_arguments := str_copy (p_arguments (k_processes k1 i)) args K_PROCESS_ARGS_MAX\<rparr>) k1"
      by (simp add: k1'_def proc_upd_def)
    obtain d k2 where l: "rief_load i (Some (\<lambda>j. ram (vm_pmm (k_vm k1)) (img + j))) sz [] k1' = (d, k2)" by fastforce
    show ?thesis
      using assms[unfolded launch_image_def c Some Let_def] True l[unfolded k1'_def]
      by (intro launch_created[OF c[unfolded Some] l[unfolded eq]]) simp
  qed
qed

lemma k_process_launch_auth:
  assumes "k_process_launch vo vr seed c path args cls cpu parent k d = ((r, k'), d')"
  shows "leases_drop k k' \<and> (case r of Inr pid \<Rightarrow> pid = k_next_process_id k \<and> born cls parent k k'
      | Inl _ \<Rightarrow> unborn k k' \<or> born cls parent k k') \<and>
    (k_next_process_id k' \<noteq> k_next_process_id k \<longrightarrow> may_launch c cls parent k \<and> (cls = K_EXEC_RING1 \<or> cls = K_EXEC_RING3))"
proof -
  have "(\<exists>x. r = Inl x \<and> auth k' = auth k) \<or> (may_launch c cls parent k \<and> (cls = K_EXEC_RING1 \<or> cls = K_EXEC_RING3) \<and>
      (\<exists>k1 img sz e. auth k1 = auth k \<and> launch_image seed path args cls cpu parent img sz e k1 = (r, k')))"
    (is "?stop \<or> ?go")
  proof (cases "((cls \<noteq> K_EXEC_RING1 \<and> cls \<noteq> K_EXEC_RING3) \<or> str_len args \<ge> K_PROCESS_ARGS_MAX) \<or> \<not> may_launch c cls parent k")
    case True
    then have "k' = k \<and> (\<exists>x. r = Inl x)" using assms by (auto simp: k_process_launch_def split: if_splits)
    then show ?thesis by auto
  next
    case ok: False
    obtain x d1 where vx: "vo path d = (x, d1)" by fastforce
    show ?thesis
    proof (cases "\<exists>f. x = Inr f \<and> \<not> (fl_kind f = 3 \<or> fl_attributes f AND 0x10 \<noteq> 0 \<or> fl_size f < 96 \<or> fl_size f > 4 * 1024 * 1024)")
      case False
      then have "k' = k \<and> (\<exists>x. r = Inl x)" using assms ok vx
        by (cases x) (auto simp: k_process_launch_def split: if_splits)
      then show ?thesis by auto
    next
      case True
      then obtain f where f: "x = Inr f" "\<not> (fl_kind f = 3 \<or> fl_attributes f AND 0x10 \<noteq> 0 \<or> fl_size f < 96 \<or> fl_size f > 4 * 1024 * 1024)"
        by blast
      obtain img v where va: "vm_alloc_pages ((fl_size f + 4095) div 4096) (k_vm k) = (img, v)" by fastforce
      obtain e b got d2 where vd: "vr f 0 (fl_size f) d1 = ((e, b, got), d2)" by (metis prod_cases4 prod_cases3 surj_pair)
      define k1 where "k1 = vm_upd (\<lambda>v. v\<lparr>vm_pmm := (vm_pmm v)\<lparr>ram := put_bytes (ram (vm_pmm v)) img b 0 got\<rparr>\<rparr>) (set_vm v k)"
      have a: "auth k1 = auth k" "auth (set_vm v k) = auth k" unfolding k1_def by (simp_all only: auth_simps)
      have "(if img = 0 then ((Inl K_ENOMEM, set_vm v k), d1)
          else (launch_image seed path args cls cpu parent img (fl_size f) (if e = 0 \<and> got \<noteq> fl_size f then K_EIO else e) k1, d2)) =
        ((r, k'), d')"
        using assms ok vx f va vd by (auto simp: k_process_launch_def Let_def k1_def)
      then show ?thesis using a ok by (auto split: if_splits)
    qed
  qed
  then consider (stop) x where "r = Inl x" "auth k' = auth k"
    | (go) k1 img sz e where "auth k1 = auth k" "launch_image seed path args cls cpu parent img sz e k1 = (r, k')"
        "may_launch c cls parent k" "cls = K_EXEC_RING1 \<or> cls = K_EXEC_RING3" by blast
  then show ?thesis
  proof cases
    case stop
    then show ?thesis using auth_eqD[OF stop(2)] unborn_auth[OF stop(2)] by simp
  next
    case go
    have "leases_drop k k'" using auth_leases[OF go(1)] launch_image_auth[OF go(2)] leases_drop_trans by blast
    then show ?thesis using launch_image_auth[OF go(2)] auth_eqD[OF go(1)] go(3,4)
      by (auto simp: born_def unborn_def split: sum.splits)
  qed
qed

section \<open>System calls\<close>

lemma console_loop_auth: "console_loop env i u n m k d = (e, k', d') \<Longrightarrow> auth k' = auth k"
proof (induction env i u n m k d rule: console_loop.induct)
  case (1 env i u n m k d)
  obtain x b k1 where r: "user_read i (add64 u m) (min (n - m) 128) k = (x, b, k1)" by (metis prod_cases3)
  show ?case using "1.prems" "1.IH"[OF _ refl r[symmetric] refl] user_read_auth[OF r] r
    by (auto simp: console_loop.simps[of env i u n m k d] Let_def split: if_splits)
qed

lemma sys_write_file_auth: "sys_write_file env i a k d = (e, k', d') \<Longrightarrow> auth k' = auth k"
  by (auto simp: sys_write_file_def Let_def auth_simps split: if_splits prod.splits dest!: user_read_auth)

lemma sys_write_auth: "sys_write env i a k d = (e, k', d') \<Longrightarrow> auth k' = auth k"
  by (auto simp: sys_write_def split: if_splits prod.splits
      dest!: sys_write_file_auth user_check_auth console_loop_auth)

lemma open_file_auth: "open_file env i fd path fl k d = (e, k', d') \<Longrightarrow> auth k' = auth k"
  by (auto simp: open_file_def Let_def auth_simps split: if_splits prod.splits)

lemma truncate_file_auth: "truncate_file env i fd path k d = (e, k', d') \<Longrightarrow> auth k' = auth k"
  by (auto simp: truncate_file_def auth_simps split: if_splits prod.splits)

lemma who_open: "who (p\<lparr>p_fd_flags := a, p_fd_used := b, p_fd_offset := c\<rparr>) = who p" "who (p\<lparr>p_fd_used := b\<rparr>) = who p"
  by (simp_all add: who_def)

lemma sys_open_auth: "sys_open env i a k d = (e, k', d') \<Longrightarrow> auth k' = auth k"
  by (auto simp: sys_open_def Let_def auth_proc_upd who_open split: if_splits prod.splits option.splits
      dest!: user_string_auth open_file_auth truncate_file_auth)

lemma sys_read_auth: "sys_read env i a k d = (e, k', d') \<Longrightarrow> auth k' = auth k"
  by (auto simp: sys_read_def Let_def auth_simps split: if_splits prod.splits dest!: user_check_auth user_write_auth)

lemma sys_mkdir_auth: "sys_mkdir env i a k d = (e, k', d') \<Longrightarrow> auth k' = auth k"
  by (auto simp: sys_mkdir_def split: if_splits prod.splits dest!: user_string_auth)

lemma sys_close_auth: "sys_close i a k = (e, k') \<Longrightarrow> auth k' = auth k"
  by (auto simp: sys_close_def auth_proc_upd who_open split: if_splits)

lemma sys_seek_auth: "sys_seek env i a k d = (e, k', d') \<Longrightarrow> auth k' = auth k"
  by (auto simp: sys_seek_def Let_def auth_simps split: if_splits prod.splits)

lemma sys_send_auth: "sys_send c i a k = (e, k') \<Longrightarrow> auth k' = auth k"
  by (auto simp: sys_send_def split: if_splits prod.splits dest!: user_read_auth k_ipc_send_auth)

lemma sys_reply_auth: "sys_reply c i a k = (e, k') \<Longrightarrow> auth k' = auth k"
  by (auto simp: sys_reply_def split: if_splits prod.splits dest!: user_read_auth k_ipc_send_auth)

lemma sys_recv_auth: "sys_recv c i a k = (e, k') \<Longrightarrow> auth k' = auth k"
  by (auto simp: sys_recv_def split: if_splits prod.splits sum.splits
      dest!: user_check_auth user_write_auth k_ipc_receive_auth)

lemma sys_procinfo_auth: "sys_procinfo i a k = (e, k') \<Longrightarrow> auth k' = auth k"
  by (auto simp: sys_procinfo_def split: if_splits prod.splits dest!: user_check_auth copy_out_auth)

lemma sys_control_auth: "sys_control i a k = (e, k') \<Longrightarrow> auth k' = auth k"
  by (auto simp: sys_control_def split: if_splits option.splits dest!: process_control_auth)

lemma sys_getargs_auth: "sys_getargs i a k = (e, k') \<Longrightarrow> auth k' = auth k"
  by (auto simp: sys_getargs_def Let_def split: if_splits prod.splits dest!: user_write_auth)

lemma sys_map_auth: "sys_map i ex a k = (e, k') \<Longrightarrow> auth k' = auth k"
  by (auto simp: sys_map_def auth_simps split: if_splits prod.splits sum.splits)

lemma sys_diskinfo_auth: "sys_diskinfo env i a k d = (e, k') \<Longrightarrow> auth k' = auth k"
  by (auto simp: sys_diskinfo_def split: if_splits dest!: copy_out_auth)

lemma sys_partitioninfo_auth: "sys_partitioninfo i a k = (e, k') \<Longrightarrow> auth k' = auth k"
  by (auto simp: sys_partitioninfo_def split: if_splits dest!: copy_out_auth)

lemma k_service_lookup_auth: "k_service_lookup c name k = (r, k') \<Longrightarrow> auth k' = auth k"
  by (auto simp: k_service_lookup_def Let_def auth_simps split: if_splits prod.splits option.splits
      dest!: grant_locked_auth)

lemma service_scan_procs: "service_scan pid name is slot k = (r, k') \<Longrightarrow> k' = k\<lparr>k_services := k_services k'\<rparr>"
proof (induction pid name "is" slot k rule: service_scan.induct)
  case (2 pid name i "is" slot k)
  then show ?case by (fastforce simp: Let_def split: if_splits)
qed simp

lemma service_register_procs: "service_register i name k = (e, k') \<Longrightarrow> k' = k\<lparr>k_services := k_services k'\<rparr>"
proof -
  assume g: "service_register i name k = (e, k')"
  obtain r k1 where sc: "service_scan (p_id (k_processes k i)) name [0..<MAX_SERVICES] None k = (r, k1)" by fastforce
  obtain sv where k1: "k1 = k\<lparr>k_services := sv\<rparr>" using service_scan_procs[OF sc] by blast
  show ?thesis using g sc unfolding k1
    by (auto simp: service_register_def Let_def split: if_splits sum.splits option.splits)
qed

lemma services_procs: "k' = k\<lparr>k_services := s\<rparr> \<Longrightarrow> procs k' = procs k \<and> k_next_process_id k' = k_next_process_id k"
  by (simp add: procs_def fun_eq_iff)

lemma sys_service_auth:
  assumes "sys_service c i reg a k = (e, k')"
  shows "procs k' = procs k \<and> k_next_process_id k' = k_next_process_id k"
    and "\<not> reg \<or> p_execution_class (k_processes k i) \<noteq> K_EXEC_RING1 \<Longrightarrow> auth k' = auth k"
proof -
  obtain x nm k1 where u: "user_string i (a 0) k = (x, nm, k1)" by (metis prod_cases3)
  note V = only_vmD[OF user_string_vm[OF u]]
  obtain rl k2 where l: "k_service_lookup c nm k1 = (rl, k2)" by fastforce
  obtain er k3 where g: "service_register i nm k1 = (er, k3)" by fastforce
  have cases: "k' = k1 \<or> (\<not> reg \<and> k' = k2) \<or> (reg \<and> k' = k3)"
    using assms by (auto simp: sys_service_def u l g split: if_splits sum.splits)
  have "auth k2 = auth k" using k_service_lookup_auth[OF l] V by simp
  moreover have "procs k3 = procs k \<and> k_next_process_id k3 = k_next_process_id k"
    using services_procs[OF service_register_procs[OF g]] V auth_eqD[of k1 k] by simp
  ultimately show "procs k' = procs k \<and> k_next_process_id k' = k_next_process_id k"
    using cases V auth_eqD by blast
  have "p_execution_class (k_processes k i) \<noteq> K_EXEC_RING1 \<Longrightarrow> k3 = k1"
    using g V by (auto simp: service_register_def Let_def)
  then show "\<not> reg \<or> p_execution_class (k_processes k i) \<noteq> K_EXEC_RING1 \<Longrightarrow> auth k' = auth k"
    using cases V \<open>auth k2 = auth k\<close> by auto
qed

definition same_ids :: "kernel \<Rightarrow> kernel \<Rightarrow> bool" where
  "same_ids k k' \<longleftrightarrow> procs k' = procs k \<and> k_next_process_id k' = k_next_process_id k"

lemma auth_same_ids: "auth k' = auth k \<Longrightarrow> same_ids k k'"
  by (auto simp: same_ids_def dest: auth_eqD)

lemma same_ids_refl [simp]: "same_ids k k" by (simp add: same_ids_def)

lemma same_ids_trans: "same_ids k k1 \<Longrightarrow> same_ids k1 k2 \<Longrightarrow> same_ids k k2" by (simp add: same_ids_def)

lemma only_vm_ids: "only_vm k k' \<Longrightarrow> same_ids k k'" by (simp add: auth_same_ids only_vmD)

lemma same_ids_leases [simp]: "same_ids k (k1\<lparr>k_input_owner := n\<rparr>) = same_ids k k1" "same_ids k (part_upd r f k1) = same_ids k k1"
  by (simp_all add: same_ids_def procs_def fun_eq_iff part_upd_def)

lemma admin_copy_vm: "admin_copy i target r k = (e, k') \<Longrightarrow> only_vm k k'"
  by (auto simp: admin_copy_def Let_def split: if_splits prod.splits
      dest!: user_check_vm user_read_vm user_write_vm intro: only_vm_trans)

lemma admin_memory_vm: "admin_memory i r k = (e, k') \<Longrightarrow> only_vm k k'"
  by (auto simp: admin_memory_def split: if_splits prod.splits option.splits dest!: admin_copy_vm)

lemma admin_input_ids: "admin_input env c i r k d = (e, k', d') \<Longrightarrow> same_ids k k'"
  by (auto simp: admin_input_def Let_def split: if_splits prod.splits
      dest!: user_check_vm user_write_vm only_vm_ids intro: same_ids_trans)

lemma admin_transfer_ids: "admin_transfer env i r disk start limit k d = (e, k', d') \<Longrightarrow> same_ids k k'"
  by (auto simp: admin_transfer_def Let_def split: if_splits prod.splits
      dest!: user_check_vm user_read_vm user_write_vm only_vm_ids intro: same_ids_trans)

lemma admin_disk_ids: "admin_disk env i r k d = (e, k', d') \<Longrightarrow> same_ids k k'"
  by (auto simp: admin_disk_def Let_def split: if_splits dest!: admin_transfer_ids)

lemma admin_operation_ids: "admin_operation env c i r k d = (e, k', d') \<Longrightarrow> same_ids k k'"
  by (auto simp: admin_operation_def Let_def split: if_splits prod.splits
      dest!: admin_input_ids admin_disk_ids admin_memory_vm only_vm_ids)

lemma sys_admin_auth:
  assumes "sys_admin env c i a k d = (e, k', d')"
  shows "same_ids k k'"
    and "p_execution_class (k_processes k i) \<noteq> K_EXEC_RING1 \<Longrightarrow> auth k' = auth k"
proof -
  obtain x b k1 where u: "user_read i (a 0) 88 k = (x, b, k1)" by (metis prod_cases3)
  note V = user_read_vm[OF u]
  show "same_ids k k'" using assms only_vm_ids[OF V] same_ids_trans[OF only_vm_ids[OF V]]
    by (auto simp: sys_admin_def u split: if_splits dest: admin_operation_ids)
  show "p_execution_class (k_processes k i) \<noteq> K_EXEC_RING1 \<Longrightarrow> auth k' = auth k"
    using assms only_vmD[OF V] by (auto simp: sys_admin_def u admin_operation_def Let_def split: if_splits)
qed

text \<open>Waiting reaps at most one process: a zombie child of the caller, or any zombie for Ring 1.\<close>

definition reaped :: "nat \<Rightarrow> kernel \<Rightarrow> kernel \<Rightarrow> bool" where
  "reaped i k k' \<longleftrightarrow> (\<exists>j. j \<noteq> i \<and> p_used (k_processes k j) \<and> p_state (k_processes k j) = K_TASK_ZOMBIE \<and>
     (p_parent (k_processes k j) = p_id (k_processes k i) \<or> p_execution_class (k_processes k i) = K_EXEC_RING1) \<and>
     procs k' = (procs k)(j := None))"

lemma process_by_pidD: "process_by_pid pid k = Some j \<Longrightarrow> j < MAX_PROCESSES \<and> p_used (k_processes k j) \<and> p_id (k_processes k j) = pid"
  unfolding process_by_pid_def by (drule find_from_Some) simp

lemma waitpid_locked_auth:
  assumes "waitpid_locked i a k = (e, k')"
  shows "leases_drop k k' \<and> k_next_process_id k' = k_next_process_id k \<and> (procs k' = procs k \<or> reaped i k k')"
proof (cases "process_by_pid (a 0) k")
  case None
  then show ?thesis using assms by (simp add: waitpid_locked_def)
next
  case (Some j)
  note J = process_by_pidD[OF Some]
  show ?thesis
  proof (cases "j = i \<or> (p_parent (k_processes k j) \<noteq> p_id (k_processes k i) \<and> p_execution_class (k_processes k i) \<noteq> K_EXEC_RING1) \<or>
      p_state (k_processes k j) \<noteq> K_TASK_ZOMBIE")
    case True
    then show ?thesis using assms Some by (auto simp: waitpid_locked_def split: if_splits)
  next
    case False
    obtain x k1 where q: "(case k_process_query (p_id (k_processes k j)) k of
                            Inl e \<Rightarrow> (e, k)
                          | Inr info \<Rightarrow> if a 1 \<noteq> 0 then user_write i (a 1) (info_bytes info) 104 k else (0, k)) = (x, k1)"
      by fastforce
    have "only_vm k k1" using q by (auto split: sum.splits if_splits dest: user_write_vm)
    note V = auth_eqD[OF only_vmD[OF this, THEN conjunct2, THEN conjunct2, THEN conjunct2]]
    obtain y k2 where r: "(if x = 0 \<and> word_of_nat (a 2) AND K_WAIT_REAP \<noteq> 0 then process_destroy_locked j k1 else (x, k1)) = (y, k2)"
      by fastforce
    have c: "(j = i) = False" "(p_parent (k_processes k j) \<noteq> p_id (k_processes k i) \<and> p_execution_class (k_processes k i) \<noteq> K_EXEC_RING1) = False"
      "(p_state (k_processes k j) \<noteq> K_TASK_ZOMBIE) = False" using False by auto
    have k': "k' = k2" using assms[unfolded waitpid_locked_def Some option.case c if_False Let_def q r prod.case] by simp
    have "k2 = k1 \<or> process_destroy_locked j k1 = (y, k2)" using r by (auto split: if_splits)
    then have "leases_drop k1 k2 \<and> k_next_process_id k2 = k_next_process_id k1 \<and> (procs k2 = procs k1 \<or> procs k2 = (procs k1)(j := None))"
      using process_destroy_locked_auth[of j k1 y k2] by (auto split: if_splits)
    then show ?thesis using V False J leases_drop_trans[of k k1 k2] by (auto simp: k' reaped_def)
  qed
qed

lemma reaped_cong: "only_vm k k1 \<Longrightarrow> procs k2 = procs k1 \<or> reaped i k1 k2 \<Longrightarrow> procs k2 = procs k \<or> reaped i k k2"
  using only_vmD[of k k1] auth_procs[of k1 k] by (auto simp: reaped_def)

lemma sys_waitpid_auth:
  assumes "sys_waitpid c i t a k = (r, k')"
  shows "leases_drop k k' \<and> k_next_process_id k' = k_next_process_id k \<and> (procs k' = procs k \<or> reaped i k k')"
proof (cases "a 0 = 0 \<or> a 0 > 0xffffffff \<or> word_of_nat (a 2) AND NOT 3 \<noteq> (0::u64)")
  case True
  then show ?thesis using assms by (auto simp: sys_waitpid_def)
next
  case False
  obtain x k1 where q: "(if a 1 \<noteq> 0 then user_check i (a 1) 104 True k else (0, k)) = (x, k1)" by fastforce
  have v: "only_vm k k1" using q by (auto split: if_splits dest: user_check_vm)
  note V = auth_eqD[OF only_vmD[OF v, THEN conjunct2, THEN conjunct2, THEN conjunct2]]
  obtain y k2 where w: "waitpid_locked i a k1 = (y, k2)" by fastforce
  note W = waitpid_locked_auth[OF w]
  obtain z k3 where sl: "k_sleep c 1 k2 = (z, k3)" by fastforce
  note S = auth_eqD[OF k_sleep_auth[OF sl]]
  have "(r, k') = (if x \<noteq> 0 then (Return K_EFAULT, k1)
      else if y \<noteq> K_EAGAIN \<or> word_of_nat (a 2) AND K_WAIT_NOHANG \<noteq> 0 \<or> t_control_request (k_tasks k2 t) \<noteq> 0
      then (Return y, k2) else (Wait, k3))"
    unfolding assms[symmetric] sys_waitpid_def if_not_P[OF False] q by (simp add: waitpid_round_def w sl[unfolded One_nat_def])
  then have "k' = k1 \<or> k' = k2 \<or> k' = k3" by (auto split: if_splits)
  moreover have "leases_drop k k2" using leases_drop_trans[of k k1 k2] V W by simp
  moreover have "leases_drop k k3" using leases_drop_trans[of k k2 k3] \<open>leases_drop k k2\<close> S by simp
  moreover have "procs k3 = procs k2" "k_next_process_id k3 = k_next_process_id k" using S W V by simp_all
  moreover have "procs k2 = procs k \<or> reaped i k k2" using reaped_cong[OF v] W by blast
  ultimately show ?thesis using V W by (auto simp: reaped_def)
qed

lemma add32_neq: "add32 m 1 \<noteq> m"
proof
  assume m: "add32 m 1 = m"
  then have "m < 2 ^ 32" unfolding add32_def by (metis mod_less_divisor zero_less_numeral zero_less_power)
  then have "m + 1 < 2 ^ 32 \<or> m + 1 = 2 ^ 32" by arith
  then show False using m by (auto simp: add32_def)
qed

lemma sys_spawn_auth:
  assumes cur: "current_task c k = Some t" "t_process (k_tasks k t) = Some i" and run: "sys_spawn env c i a k d = (e, k', d')"
  shows "leases_drop k k' \<and> (unborn k k' \<or> (\<exists>cls. born cls (p_id (k_processes k i)) k k' \<and>
    (cls = K_EXEC_RING3 \<or> cls = K_EXEC_RING1 \<and> p_execution_class (k_processes k i) = K_EXEC_RING1)))"
proof -
  obtain x path k1 where u: "user_string i (a 0) k = (x, path, k1)" by (metis prod_cases3)
  obtain y args k2 where v: "user_args i (a 1) k1 = (y, args, k2)" by (metis prod_cases3)
  have v1: "only_vm k k1" by (rule user_string_vm[OF u])
  have v2: "only_vm k k2" by (rule only_vm_trans[OF v1 user_args_vm[OF v]])
  have stop: ?thesis if "k' = k1 \<or> k' = k2"
  proof -
    have "auth k' = auth k" using that only_vmD[OF v1] only_vmD[OF v2] by auto
    then show ?thesis using auth_leases[of k' k] unborn_auth[of k' k] by simp
  qed
  obtain seed d1 where sd: "e_identity_seed env d = (seed, d1)" by fastforce
  let ?vo = "\<lambda>path d. case e_vfs_open env path zero_file d of ((e, file), d) \<Rightarrow> (if e = 0 then Inr file else Inl e, d)"
  define X where "X = k_process_launch ?vo (e_vfs_read env) seed c path args (a 2) (a 3 mod 2 ^ 32)
      (p_id (k_processes k2 i)) k2 d1"
  obtain r k3 d2 where "X = ((r, k3), d2)" by (metis surj_pair)
  note l = this[unfolded X_def]
  have "k' = k1 \<or> k' = k2 \<or> k' = k3"
  proof -
    define q1 where "q1 \<longleftrightarrow> a 2 \<noteq> K_EXEC_RING1 \<and> a 2 \<noteq> K_EXEC_RING3"
    define q2 where "q2 \<longleftrightarrow> a 3 \<noteq> 2 ^ 64 - 1 \<and> a 3 > K_CPU_AUTO"
    have "(e, k', d') = (if x \<noteq> 0 then (x, k1, d) else if y \<noteq> 0 then (y, k2, d) else if q1 then (K_EINVAL, k2, d)
      else if q2 then (K_EINVAL, k2, d) else (case r of Inl e \<Rightarrow> (e, k3, d2) | Inr pid \<Rightarrow> (int pid, k3, d2)))"
      unfolding run[symmetric] sys_spawn_def u v prod.case sd l q1_def q2_def by (rule refl)
    then show ?thesis by (auto split: if_splits sum.splits)
  qed
  moreover have ?thesis if k': "k' = k3"
  proof -
    note V = only_vmD[OF v2] and L = k_process_launch_auth[OF l]
    have A: "procs k2 = procs k" "k_next_process_id k2 = k_next_process_id k" "leases_drop k k2"
      using auth_eqD[of k2 k] V by auto
    have "leases_drop k k3" using leases_drop_trans[OF A(3)] L by blast
    have c2: "current_task c k2 = Some t" using cur V by (simp add: current_task_def)
    from L have "unborn k2 k3 \<or> born (a 2) (p_id (k_processes k i)) k2 k3" using V by (auto split: sum.splits)
    moreover have "unborn k k3" if "unborn k2 k3" using that A by (simp add: unborn_def)
    moreover have "born (a 2) (p_id (k_processes k i)) k k3 \<and>
        (a 2 = K_EXEC_RING3 \<or> a 2 = K_EXEC_RING1 \<and> p_execution_class (k_processes k i) = K_EXEC_RING1)"
      if b: "born (a 2) (p_id (k_processes k i)) k2 k3"
    proof
      have "k_next_process_id k3 \<noteq> k_next_process_id k2" using b add32_neq[of "k_next_process_id k2"] by (auto simp: born_def)
      then have m: "may_launch c (a 2) (p_id (k_processes k2 i)) k2" "a 2 = K_EXEC_RING1 \<or> a 2 = K_EXEC_RING3" using L by auto
      have "a 2 = K_EXEC_RING1 \<Longrightarrow> p_execution_class (k_processes k i) = K_EXEC_RING1"
        using m(1) c2 cur(2) V by (auto simp: may_launch_def)
      then show "a 2 = K_EXEC_RING3 \<or> a 2 = K_EXEC_RING1 \<and> p_execution_class (k_processes k i) = K_EXEC_RING1" using m(2) by blast
      show "born (a 2) (p_id (k_processes k i)) k k3" using b A by (simp add: born_def)
    qed
    ultimately show ?thesis using \<open>leases_drop k k3\<close> k' by blast
  qed
  ultimately show ?thesis using stop by blast
qed

section \<open>The dispatcher\<close>

lemma ret_eq: "ret r d = (x, k', d') \<Longrightarrow> \<exists>e. r = (e, k') \<and> x = Return e"
  by (auto simp: ret_def split: prod.splits)

lemma ret3_eq: "ret3 r = (x, k', d') \<Longrightarrow> \<exists>e. r = (e, k', d') \<and> x = Return e"
  by (auto simp: ret3_def split: prod.splits)

text \<open>Calls other than launching, waiting, registering and administration.\<close>

definition plain_call :: "nat \<Rightarrow> bool" where
  "plain_call n \<longleftrightarrow> n \<notin> {K_SYS_SPAWN, K_SYS_WAITPID, K_SYS_ADMIN, K_SYS_SERVICE_REGISTER} \<and>
     \<not> (K_SYS_NETINFO \<le> n \<and> n \<le> K_SYS_WIFISCAN)"

lemma syscall_plain:
  assumes "syscall_dispatch env c f k d = (r, k', d')" "plain_call (rq_number f)"
  shows "auth k' = auth k"
proof (cases "\<exists>t i. current_task c k = Some t \<and> t_process (k_tasks k t) = Some i")
  case False
  then show ?thesis using assms(1) by (auto simp: syscall_dispatch_def split: option.splits)
next
  case True
  then obtain t i where c: "current_task c k = Some t" "t_process (k_tasks k t) = Some i" by blast
  have ext: "auth k' = auth k" if "syscall_extended env c i t f k d = (r, k', d')"
    using that assms(2) unfolding syscall_extended_def Let_def plain_call_def
    by (auto split: if_splits dest!: ret_eq ret3_eq dest: sys_procinfo_auth sys_control_auth copy_out_auth sys_reply_auth
        sys_getargs_auth sys_seek_auth sys_map_auth sys_diskinfo_auth sys_partitioninfo_auth sys_service_auth(2))
  show ?thesis
    using assms(1) unfolding syscall_dispatch_def c option.case Let_def
    by (auto split: if_splits option.splits prod.splits dest!: ret_eq ret3_eq ext dest: k_task_exit_auth sys_write_auth k_sleep_auth
        sys_send_auth sys_recv_auth sys_open_auth sys_read_auth sys_mkdir_auth sys_close_auth)
qed

end
