(* ===== verification/Privilege.thy ===== *)
theory Privilege
  imports Authority
begin

text \<open>
  What user programs can and cannot do to authority: the properties of the system call interface
  over the projections of \<open>Authority\<close>.
\<close>

section \<open>A process without Ring 1\<close>

lemma who_used: "who p = Some x \<longleftrightarrow> p_used p \<and> x = (p_id p, p_execution_class p, p_parent p)"
  by (auto simp: who_def)

lemma who_unused: "who p = None \<longleftrightarrow> \<not> p_used p"
  by (simp add: who_def)

text \<open>The caller, its call and the effect of one system call on processes and leases.\<close>

definition call_effect :: "nat \<Rightarrow> kernel \<Rightarrow> kernel \<Rightarrow> bool" where
  "call_effect i k k' \<longleftrightarrow> same_ids k k' \<or> unborn k k' \<or>
     (k_next_process_id k' = k_next_process_id k \<and> reaped i k k') \<or>
     (\<exists>cls. born cls (p_id (k_processes k i)) k k' \<and>
        (cls = K_EXEC_RING3 \<or> cls = K_EXEC_RING1 \<and> p_execution_class (k_processes k i) = K_EXEC_RING1))"

lemma syscall_effect:
  assumes cur: "current_task c k = Some t" "t_process (k_tasks k t) = Some i"
    and net: "\<not> (K_SYS_NETINFO \<le> rq_number f \<and> rq_number f \<le> K_SYS_WIFISCAN)"
    and call: "syscall_dispatch env c f k d = (r, k', d')"
  shows "call_effect i k k'"
    and "p_execution_class (k_processes k i) \<noteq> K_EXEC_RING1 \<Longrightarrow> leases_drop k k'"
proof -
  have "call_effect i k k' \<and> (p_execution_class (k_processes k i) \<noteq> K_EXEC_RING1 \<longrightarrow> leases_drop k k')"
  proof (cases "plain_call (rq_number f)")
    case True
    from syscall_plain[OF call this] have a: "auth k' = auth k" .
    show ?thesis using auth_same_ids[OF a] auth_leases[OF a] by (simp add: call_effect_def)
  next
    case False
    have e: "syscall_extended env c i t f k d = (r, k', d')"
      using call False net unfolding syscall_dispatch_def cur option.case Let_def
      by (auto simp: plain_call_def K_SYS_EXIT_def K_SYS_WRITE_def K_SYS_YIELD_def K_SYS_SLEEP_def K_SYS_GETPID_def
          K_SYS_TICKS_def K_SYS_SEND_def K_SYS_RECV_def K_SYS_OPEN_def K_SYS_READ_def K_SYS_MKDIR_def K_SYS_SYNC_def
          K_SYS_CLOSE_def K_SYS_SPAWN_def K_SYS_WAITPID_def K_SYS_ADMIN_def K_SYS_SERVICE_REGISTER_def)
    from False net consider "rq_number f = K_SYS_SPAWN" | "rq_number f = K_SYS_WAITPID" | "rq_number f = K_SYS_ADMIN"
      | "rq_number f = K_SYS_SERVICE_REGISTER" by (auto simp: plain_call_def)
    then show ?thesis
    proof cases
      case 1
      have "ret3 (sys_spawn env c i (rq_args f) k d) = (r, k', d')"
        using e 1 unfolding syscall_extended_def by (simp add: K_SYS_SPAWN_def K_SYS_NETINFO_def)
      then obtain x where "sys_spawn env c i (rq_args f) k d = (x, k', d')" by (blast dest: ret3_eq)
      from sys_spawn_auth[OF cur this] show ?thesis by (auto simp: call_effect_def)
    next
      case 2
      have "sys_waitpid c i t (rq_args f) k = (r, k')"
        using e 2 unfolding syscall_extended_def
        by (simp add: K_SYS_SPAWN_def K_SYS_NETINFO_def K_SYS_PROCINFO_def K_SYS_WAITPID_def split: prod.splits)
      from sys_waitpid_auth[OF this] show ?thesis by (auto simp: call_effect_def same_ids_def)
    next
      case 3
      have "ret3 (sys_admin env c i (rq_args f) k d) = (r, k', d')"
        using e 3 unfolding syscall_extended_def
        by (simp add: K_SYS_SPAWN_def K_SYS_NETINFO_def K_SYS_PROCINFO_def K_SYS_WAITPID_def K_SYS_CONTROL_def K_SYS_ADMIN_def)
      then obtain x where x: "sys_admin env c i (rq_args f) k d = (x, k', d')" by (blast dest: ret3_eq)
      show ?thesis using sys_admin_auth[OF x] auth_leases[of k' k] by (auto simp: call_effect_def)
    next
      case 4
      have "ret (sys_service c i True (rq_args f) k) d = (r, k', d')"
        using e 4 unfolding syscall_extended_def
        by (simp add: K_SYS_SPAWN_def K_SYS_NETINFO_def K_SYS_PROCINFO_def K_SYS_WAITPID_def K_SYS_CONTROL_def K_SYS_ADMIN_def
            K_SYS_IDENTITY_def K_SYS_SERVICE_REGISTER_def)
      then obtain x where x: "sys_service c i True (rq_args f) k = (x, k')" by (blast dest: ret_eq)
      show ?thesis using sys_service_auth[OF x] auth_leases[of k' k] by (auto simp: call_effect_def same_ids_def)
    qed
  qed
  then show "call_effect i k k'" "p_execution_class (k_processes k i) \<noteq> K_EXEC_RING1 \<Longrightarrow> leases_drop k k'" by blast+
qed

lemma procsD: "procs k' = procs k \<Longrightarrow> who (k_processes k' j) = who (k_processes k j)"
  by (metis procs_def)

lemma call_effect_slot:
  assumes "call_effect i k k'"
  shows "who (k_processes k' j) = who (k_processes k j) \<or>
    (who (k_processes k' j) = None \<and> p_used (k_processes k j) \<and> p_state (k_processes k j) = K_TASK_ZOMBIE \<and>
       (p_parent (k_processes k j) = p_id (k_processes k i) \<or> p_execution_class (k_processes k i) = K_EXEC_RING1)) \<or>
    (\<not> p_used (k_processes k j) \<and> (\<exists>cls. who (k_processes k' j) = Some (k_next_process_id k, cls, p_id (k_processes k i)) \<and>
       (cls = K_EXEC_RING3 \<or> cls = K_EXEC_RING1 \<and> p_execution_class (k_processes k i) = K_EXEC_RING1)))"
  using assms unfolding call_effect_def
proof (elim disjE exE conjE)
  assume "reaped i k k'"
  then obtain l where l: "p_used (k_processes k l)" "p_state (k_processes k l) = K_TASK_ZOMBIE"
     "p_parent (k_processes k l) = p_id (k_processes k i) \<or> p_execution_class (k_processes k i) = K_EXEC_RING1"
     "procs k' = (procs k)(l := None)" by (auto simp: reaped_def)
  have "who (k_processes k' j) = (if j = l then None else who (k_processes k j))"
    using fun_cong[OF l(4), of j] by (simp add: procs_def)
  then show ?thesis using l by auto
next
  fix cls
  assume "born cls (p_id (k_processes k i)) k k'" and cls: "cls = K_EXEC_RING3"
  then obtain l where l: "who (k_processes k l) = None"
      "procs k' = (procs k)(l := Some (k_next_process_id k, cls, p_id (k_processes k i)))" by (auto simp: born_def procs_def)
  have "who (k_processes k' j) = (if j = l then Some (k_next_process_id k, cls, p_id (k_processes k i)) else who (k_processes k j))"
    using fun_cong[OF l(2), of j] by (simp add: procs_def)
  then show ?thesis using l(1) cls by (auto simp: who_unused)
next
  fix cls
  assume "born cls (p_id (k_processes k i)) k k'" and cls: "cls = K_EXEC_RING1" "p_execution_class (k_processes k i) = K_EXEC_RING1"
  then obtain l where l: "who (k_processes k l) = None"
      "procs k' = (procs k)(l := Some (k_next_process_id k, cls, p_id (k_processes k i)))" by (auto simp: born_def procs_def)
  have "who (k_processes k' j) = (if j = l then Some (k_next_process_id k, cls, p_id (k_processes k i)) else who (k_processes k j))"
    using fun_cong[OF l(2), of j] by (simp add: procs_def)
  then show ?thesis using l(1) cls by (auto simp: who_unused)
qed (auto simp: same_ids_def unborn_def dest: procsD)

text \<open>A concrete user process on CPU 0, and an environment in which every file and device call fails.\<close>

definition ex_env :: "unit env" where
  "ex_env = \<lparr>e_identity_seed = (\<lambda>d. (1, d)), e_vfs_open = (\<lambda>_ f d. ((K_ENOENT, f), d)), e_vfs_create = (\<lambda>_ f d. ((K_EROFS, f), d)),
     e_vfs_put = (\<lambda>_ d. (K_EROFS, d)), e_vfs_read = (\<lambda>_ _ _ d. ((K_EIO, \<lambda>_. 0, 0), d)),
     e_vfs_write = (\<lambda>f _ _ _ d. ((K_EROFS, f, 0), d)), e_vfs_stat = (\<lambda>f d. ((0, f), d)), e_vfs_mkdir = (\<lambda>_ d. (K_EROFS, d)),
     e_vfs_sync = (\<lambda>d. (0, d)), e_disk_count = (\<lambda>_. 0), e_disk_sectors = (\<lambda>_ _. 0), e_disk_sector_size = (\<lambda>_ _. 512),
     e_disk_get = (\<lambda>_ _. Inl K_ENOENT), e_disk_read = (\<lambda>_ _ _ d. ((K_EIO, \<lambda>_. 0), d)),
     e_disk_write_fs = (\<lambda>_ _ _ _ d. (K_EIO, d)), e_disk_flush = (\<lambda>_ d. (0, d)), e_input_read = (\<lambda>d. ((K_EAGAIN, \<lambda>_. 0), d)),
     e_con_putc = (\<lambda>_ d. d), e_net_syscall = (\<lambda>_ _ _ k d. (K_ENOTSUP, k, d))\<rparr>"

definition ex_user :: kernel where
  "ex_user = ex_kernel\<lparr>k_tasks := (k_tasks ex_kernel)(0 := (k_tasks ex_kernel 0)\<lparr>t_process := Some 0\<rparr>),
     k_processes := (\<lambda>_. zero_process)(0 := zero_process\<lparr>p_used := True, p_id := 1, p_execution_class := K_EXEC_RING3\<rparr>),
     k_next_process_id := 2\<rparr>"

definition ex_request :: k_syscall_request where
  "ex_request = \<lparr>rq_number = K_SYS_DISKINFO, rq_args = (\<lambda>_. 0)\<rparr>"

lemma ex_user_task: "current_task 0 ex_user = Some 0" "t_process (k_tasks ex_user 0) = Some 0"
  "p_execution_class (k_processes ex_user 0) \<noteq> K_EXEC_RING1"
  by (simp_all add: current_task_def ex_user_def ex_kernel_def ex_cpu_def K_EXEC_RING3_def K_EXEC_RING1_def)

lemma ex_request_net: "\<not> (K_SYS_NETINFO \<le> rq_number ex_request \<and> rq_number ex_request \<le> K_SYS_WIFISCAN)"
  by (simp add: ex_request_def K_SYS_DISKINFO_def K_SYS_NETINFO_def)

lemma ex_request_call: "syscall_dispatch ex_env 0 ex_request ex_user () = (Return K_EPERM, ex_user, ())"
proof -
  have "syscall_extended ex_env 0 0 0 ex_request ex_user () = (Return K_EPERM, ex_user, ())"
    using ex_user_task(3)
    by (simp add: syscall_extended_def ex_request_def ret_def sys_diskinfo_def K_SYS_DISKINFO_def K_SYS_NETINFO_def K_SYS_SPAWN_def
        K_SYS_PROCINFO_def K_SYS_WAITPID_def K_SYS_CONTROL_def K_SYS_ADMIN_def K_SYS_IDENTITY_def K_SYS_SERVICE_REGISTER_def
        K_SYS_SERVICE_LOOKUP_def K_SYS_SERVICE_REPLY_def K_SYS_GETCPU_def K_SYS_TLSBASE_def K_SYS_GETARGS_def K_SYS_SEEK_def
        K_SYS_MAPEX_def K_SYS_MAP_def)
  then show ?thesis
    using ex_user_task
    by (simp add: syscall_dispatch_def ex_request_def K_SYS_DISKINFO_def K_SYS_EXIT_def K_SYS_WRITE_def K_SYS_YIELD_def
        K_SYS_SLEEP_def K_SYS_GETPID_def K_SYS_TICKS_def K_SYS_SEND_def K_SYS_RECV_def K_SYS_OPEN_def K_SYS_READ_def
        K_SYS_MKDIR_def K_SYS_SYNC_def K_SYS_CLOSE_def)
qed



section \<open>Process identifiers\<close>

text \<open>
  The steps of the running kernel that can touch the process table: system calls, the scheduler and
  the control requests served on return to user mode.
\<close>

inductive kernel_step :: "'d env \<Rightarrow> kernel \<times> 'd \<Rightarrow> kernel \<times> 'd \<Rightarrow> bool" for env where
  call: "syscall_dispatch env c f k d = (r, k', d') \<Longrightarrow> \<not> (K_SYS_NETINFO \<le> rq_number f \<and> rq_number f \<le> K_SYS_WIFISCAN) \<Longrightarrow>
    kernel_step env (k, d) (k', d')"
| sched: "kernel_schedule c frame forced k = (fr, k') \<Longrightarrow> kernel_step env (k, d) (k', d)"
| control: "process_return_control t k = (b, k') \<Longrightarrow> kernel_step env (k, d) (k', d)"

definition pid_inv :: "kernel \<Rightarrow> bool" where
  "pid_inv k \<longleftrightarrow> k_next_process_id k < 2 ^ 32 \<and>
     (\<forall>j. p_used (k_processes k j) \<longrightarrow> 0 < p_id (k_processes k j) \<and>
        (k_next_process_id k = 0 \<or> p_id (k_processes k j) < k_next_process_id k)) \<and>
     (\<forall>i j. p_used (k_processes k i) \<and> p_used (k_processes k j) \<and> p_id (k_processes k i) = p_id (k_processes k j) \<longrightarrow> i = j)"

lemma account_old_auth [auth_simps]: "auth (account_old c old frame forced k) = auth k"
  by (simp add: account_old_def Let_def auth_simps)

lemma wake_sleepers_auth: "auth (snd (wake_sleepers c k)) = auth k"
proof -
  have "auth (snd (fold (wake_sleeper c) xs sk)) = auth (snd sk)" for xs sk
    by (induction xs arbitrary: sk) (auto simp: wake_sleeper_def Let_def auth_simps split: prod.splits)
  then show ?thesis by (simp add: wake_sleepers_def)
qed

lemma task_switch_auth [auth_simps]: "auth (x86_64_task_switch c old nxt k) = auth k"
  by (simp add: x86_64_task_switch_def Let_def auth_simps)

lemma dispatch_auth: "auth (snd (dispatch c old sl k)) = auth k"
  by (simp add: dispatch_def Let_def auth_simps split: prod.split)

lemma schedule_auth: "kernel_schedule c frame forced k = (fr, k') \<Longrightarrow> auth k' = auth k"
proof -
  assume s: "kernel_schedule c frame forced k = (fr, k')"
  show ?thesis
  proof (cases "c_current (k_cpus k c)")
    case None
    then show ?thesis using s by (simp add: kernel_schedule_def)
  next
    case (Some old)
    define k0 where "k0 = (if \<not> forced \<and> t_idle (k_tasks k old)
      then cpu_upd c (\<lambda>cs. cs\<lparr>c_idle_ticks := add64 (c_idle_ticks cs) 1\<rparr>) k else k)"
    obtain sl k2 where w: "wake_sleepers c (account_old c old frame forced k0) = (sl, k2)" by fastforce
    define k3 where "k3 = (if t_state (k_tasks k2 old) = K_TASK_RUNNING
      then proc_state (t_process (k_tasks k2 old)) K_TASK_READY (task_upd old (\<lambda>t. t\<lparr>t_state := K_TASK_READY\<rparr>) k2) else k2)"
    have a: "auth k0 = auth k" "auth k2 = auth k" "auth k3 = auth k2"
      using wake_sleepers_auth[of c "account_old c old frame forced k0", unfolded w snd_conv]
      by (auto simp: k0_def k3_def auth_simps split: if_splits)
    have "k' = task_upd old (\<lambda>t. t\<lparr>t_runtime := add64 (t_runtime t) 1\<rparr>) k0 \<or> k' = k2 \<or> k' = snd (dispatch c old sl k3)"
      using s unfolding kernel_schedule_def Some option.case Let_def k0_def[symmetric] w prod.case k3_def[symmetric]
      by (auto split: if_splits)
    then show ?thesis using a dispatch_auth[of c old sl k3] by (auto simp: auth_simps)
  qed
qed

lemma return_control_ids: "process_return_control t k = (b, k') \<Longrightarrow> same_ids k k'"
  by (auto simp: process_return_control_def Let_def same_ids_def procs_def who_def fun_eq_iff proc_state_def
      split: if_splits option.splits)

text \<open>What a step does to the identifiers in use.\<close>

definition pid_change :: "kernel \<Rightarrow> kernel \<Rightarrow> bool" where
  "pid_change k k' \<longleftrightarrow> unborn k k' \<or> (k_next_process_id k' = k_next_process_id k \<and> (\<exists>j. procs k' = (procs k)(j := None))) \<or>
     (\<exists>cls parent. born cls parent k k')"

lemma same_ids_change: "same_ids k k' \<Longrightarrow> pid_change k k'"
  by (auto simp: same_ids_def pid_change_def unborn_def)

lemma syscall_change:
  assumes s: "syscall_dispatch env c f k d = (r, k', d')" and n: "\<not> (K_SYS_NETINFO \<le> rq_number f \<and> rq_number f \<le> K_SYS_WIFISCAN)"
  shows "pid_change k k'"
proof (cases "\<exists>t i. current_task c k = Some t \<and> t_process (k_tasks k t) = Some i")
  case False
  then have "k' = k" using s by (auto simp: syscall_dispatch_def split: option.splits)
  then show ?thesis by (simp add: same_ids_change)
next
  case True
  then obtain t i where c: "current_task c k = Some t" "t_process (k_tasks k t) = Some i" by blast
  show ?thesis using syscall_effect(1)[OF c n s] same_ids_change
    by (auto simp: call_effect_def pid_change_def reaped_def)
qed

lemma kernel_step_change: "kernel_step env (k, d) (k', d') \<Longrightarrow> pid_change k k'"
  by (cases rule: kernel_step.cases)
    (auto dest: syscall_change schedule_auth[THEN auth_same_ids] return_control_ids intro: same_ids_change)

lemma pid_inv_procs: "pid_inv k \<longleftrightarrow> k_next_process_id k < 2 ^ 32 \<and>
    (\<forall>j p c q. procs k j = Some (p, c, q) \<longrightarrow> 0 < p \<and> (k_next_process_id k = 0 \<or> p < k_next_process_id k)) \<and>
    (\<forall>i j p c q c' q'. procs k i = Some (p, c, q) \<and> procs k j = Some (p, c', q') \<longrightarrow> i = j)"
  by (auto simp: pid_inv_def procs_def who_used)

lemma add32_next:
  assumes "n < 2 ^ 32"
  shows "add32 n 1 < 2 ^ 32" "add32 n 1 = 0 \<or> add32 n 1 = n + 1"
proof -
  show "add32 n 1 < 2 ^ 32" by (simp add: add32_def)
  have "n + 1 < 2 ^ 32 \<or> n + 1 = 2 ^ 32" using assms by arith
  then show "add32 n 1 = 0 \<or> add32 n 1 = n + 1" by (auto simp: add32_def)
qed

text \<open>The identifiers in use are old ones or not below the counter of the old state.\<close>

definition pids_from :: "kernel \<Rightarrow> kernel \<Rightarrow> bool" where
  "pids_from k k' \<longleftrightarrow> (\<forall>j p c q. procs k' j = Some (p, c, q) \<longrightarrow>
     (\<exists>l c q. procs k l = Some (p, c, q)) \<or> (k_next_process_id k \<noteq> 0 \<and> k_next_process_id k \<le> p)) \<and>
     (k_next_process_id k = 0 \<longrightarrow> k_next_process_id k' = 0) \<and>
     (k_next_process_id k' = 0 \<or> k_next_process_id k \<le> k_next_process_id k')"

lemma pid_change_inv:
  assumes inv: "pid_inv k" and ch: "pid_change k k'"
  shows "pid_inv k'" "pids_from k k'"
proof -
  let ?n = "k_next_process_id k"
  have n: "?n < 2 ^ 32" using inv by (simp add: pid_inv_def)
  note N = add32_next[OF n]
  have P: "procs k j = Some (p, c, q) \<Longrightarrow> 0 < p \<and> (?n = 0 \<or> p < ?n)" for j p c q
    using inv unfolding pid_inv_procs by blast
  have U: "procs k i = Some (p, c, q) \<Longrightarrow> procs k j = Some (p, c', q') \<Longrightarrow> i = j" for i j p c q c' q'
    using inv unfolding pid_inv_procs by blast
  have "pid_inv k' \<and> pids_from k k'"
    using ch unfolding pid_change_def
  proof (elim disjE exE conjE)
    assume u: "unborn k k'"
    then have "k_next_process_id k' = ?n \<or> (?n \<noteq> 0 \<and> (k_next_process_id k' = 0 \<or> k_next_process_id k' = ?n + 1))"
      using N by (auto simp: unborn_def)
    then show ?thesis using u P U n N by (fastforce simp: unborn_def pid_inv_procs pids_from_def)
  next
    fix j
    assume "k_next_process_id k' = ?n" "procs k' = (procs k)(j := None)"
    then show ?thesis using P U n by (fastforce simp: pid_inv_procs pids_from_def split: if_splits)
  next
    fix cls parent
    assume "born cls parent k k'"
    then obtain i where b: "procs k i = None" "?n \<noteq> 0" "k_next_process_id k' = add32 ?n 1"
      "procs k' = (procs k)(i := Some (?n, cls, parent))" by (auto simp: born_def)
    have old: "procs k j = Some (p, c, q) \<Longrightarrow> 0 < p \<and> p < ?n" for j p c q using P[of j p c q] b(2) by auto
    have next': "k_next_process_id k' = 0 \<or> k_next_process_id k' = ?n + 1" using N b(3) by simp
    have p1: "0 < p \<and> (k_next_process_id k' = 0 \<or> p < k_next_process_id k')" if "procs k' j = Some (p, c, q)" for j p c q
      using that b(2,4) next' old[of j p c q] by (auto split: if_splits)
    have p2: "l = j" if "procs k' l = Some (p, c, q)" "procs k' j = Some (p, c', q')" for l j p c q c' q'
      using that b(4) U[of l p c q j c' q'] old[of l p c q] old[of j p c' q'] by (auto split: if_splits)
    have p3: "(\<exists>l c q. procs k l = Some (p, c, q)) \<or> (?n \<noteq> 0 \<and> ?n \<le> p)" if "procs k' j = Some (p, c, q)" for j p c q
      using that b(2,4) by (auto split: if_splits)
    have "k_next_process_id k' < 2 ^ 32" using N b(3) by simp
    then have "pid_inv k'" unfolding pid_inv_procs using p1 p2 by blast
    moreover have "pids_from k k'" unfolding pids_from_def using p3 b(2) next' by auto
    ultimately show ?thesis by blast
  qed
  then show "pid_inv k'" "pids_from k k'" by blast+
qed

lemma pids_fromD:
  "pids_from k k' \<Longrightarrow> procs k' j = Some (p, c, q) \<Longrightarrow>
   (\<exists>l c q. procs k l = Some (p, c, q)) \<or> (k_next_process_id k \<noteq> 0 \<and> k_next_process_id k \<le> p)"
  unfolding pids_from_def by blast

lemma pids_from_trans:
  assumes "pids_from k k1" "pids_from k1 k2"
  shows "pids_from k k2"
proof -
  have n: "k_next_process_id k = 0 \<longrightarrow> k_next_process_id k1 = 0" "k_next_process_id k1 = 0 \<or> k_next_process_id k \<le> k_next_process_id k1"
    "k_next_process_id k1 = 0 \<longrightarrow> k_next_process_id k2 = 0" "k_next_process_id k2 = 0 \<or> k_next_process_id k1 \<le> k_next_process_id k2"
    using assms by (simp_all add: pids_from_def)
  have "(\<exists>l c q. procs k l = Some (p, c, q)) \<or> (k_next_process_id k \<noteq> 0 \<and> k_next_process_id k \<le> p)"
    if "procs k2 j = Some (p, c, q)" for j p c q
    using pids_fromD[OF assms(2) that]
  proof
    assume "\<exists>l c q. procs k1 l = Some (p, c, q)"
    then show ?thesis using pids_fromD[OF assms(1)] by blast
  next
    assume "k_next_process_id k1 \<noteq> 0 \<and> k_next_process_id k1 \<le> p"
    then show ?thesis using n by auto
  qed
  moreover have "k_next_process_id k2 = 0 \<or> k_next_process_id k \<le> k_next_process_id k2" using n by auto
  ultimately show ?thesis using n unfolding pids_from_def by blast
qed

lemma kernel_run_pids: "(kernel_step env)\<^sup>*\<^sup>* s s' \<Longrightarrow> pid_inv (fst s) \<Longrightarrow> pid_inv (fst s') \<and> pids_from (fst s) (fst s')"
proof (induction rule: rtranclp_induct)
  case base
  then show ?case by (auto simp: pids_from_def)
next
  case (step s1 s2)
  then have "pid_change (fst s1) (fst s2)" using kernel_step_change by (metis prod.collapse)
  then show ?case using step pid_change_inv pids_from_trans by blast
qed


lemma ex_user_pids: "pid_inv ex_user"
  by (simp add: pid_inv_def ex_user_def zero_process_def)


end
