(* ===== verification/ProcessInv.thy ===== *)
theory ProcessInv
  imports Privilege "HOL-Library.Multiset"
begin

unbundle bit_operations_syntax

text \<open>
  Properties of single operations of the process manager: destruction, grants and service lookup,
  control requests, file positions and partition leases.
\<close>

section \<open>Destruction\<close>

lemma vm_upd_tasks [simp]: "k_tasks (vm_upd w k) = k_tasks k" "k_processes (vm_upd w k) = k_processes k"
  by (simp_all add: vm_upd_def)

lemma free_task_tasks [simp]: "k_tasks (free_task i k) = (k_tasks k)(i := zero_task)" "k_processes (free_task i k) = k_processes k"
  by (simp_all add: free_task_def Let_def)

lemma zero_task_process [simp]: "t_process zero_task = None" by (simp add: zero_task_def)

lemma destroy_tasks_tasks:
  "destroy_tasks p is k = (True, k') \<Longrightarrow>
   k_processes k' = k_processes k \<and>
   (\<forall>t. k_tasks k' t = (if t \<in> set is \<and> t_process (k_tasks k t) = Some p then zero_task else k_tasks k t))"
proof (induction p "is" k rule: destroy_tasks.induct)
  case (2 p i "is" k)
  then show ?case by (auto split: if_splits)
qed simp

lemma set_owner_frame [simp]: "k_tasks (set_owner a q k) = k_tasks k" "k_processes (set_owner a q k) = k_processes k"
  "k_services (set_owner a q k) = k_services k" "k_partitions (set_owner a q k) = k_partitions k"
  "k_partition_count (set_owner a q k) = k_partition_count k" "k_input_owner (set_owner a q k) = k_input_owner k"
  by (simp_all add: set_owner_def vm_upd_def)

lemma proc_upd_leases [simp]: "k_services (proc_upd i f k) = k_services k" "k_partitions (proc_upd i f k) = k_partitions k"
  "k_partition_count (proc_upd i f k) = k_partition_count k" "k_input_owner (proc_upd i f k) = k_input_owner k"
  by (simp_all add: proc_upd_def)

lemma resources_release_none:
  assumes "p_id (k_processes k i) \<noteq> 0"
  shows "s < MAX_SERVICES \<Longrightarrow> sv_pid (k_services (process_resources_release i k) s) \<noteq> p_id (k_processes k i)"
    "n < k_partition_count k \<Longrightarrow> pt_owner_pid (k_partitions (process_resources_release i k) n) \<noteq> p_id (k_processes k i)"
    "k_input_owner (process_resources_release i k) \<noteq> p_id (k_processes k i)"
  using assms by (auto simp: process_resources_release_def Let_def zero_service_def)

text \<open>
  C36. A destroyed process leaves nothing behind. When \<open>process_destroy_locked\<close> succeeds, its slot is
  free, no task belongs to it any more (if it was started), no named service, no partition lease and
  no input lease carries its identifier, and every other process and every task of another process is
  exactly as before.
\<close>

theorem process_destroy_complete:
  assumes "process_destroy_locked i k = (0, k')" and id: "p_id (k_processes k i) \<noteq> 0"
  shows "\<not> p_used (k_processes k' i) \<and>
    (p_task_id (k_processes k i) \<noteq> 0 \<longrightarrow> (\<forall>t<K_MAX_TASKS. t_process (k_tasks k' t) \<noteq> Some i)) \<and>
    (\<forall>s<MAX_SERVICES. sv_pid (k_services k' s) \<noteq> p_id (k_processes k i)) \<and>
    (\<forall>n<k_partition_count k'. pt_owner_pid (k_partitions k' n) \<noteq> p_id (k_processes k i)) \<and>
    k_input_owner k' \<noteq> p_id (k_processes k i) \<and>
    (\<forall>j. j \<noteq> i \<longrightarrow> k_processes k' j = k_processes k j) \<and>
    (\<forall>t. t_process (k_tasks k t) \<noteq> Some i \<longrightarrow> k_tasks k' t = k_tasks k t)"
  using assms(1)
proof (cases rule: process_destroy_cases)
  case (gone k1 k2 v)
  have k1: "k_processes k1 = k_processes k"
    "\<And>t. k_tasks k1 t = (if p_task_id (k_processes k i) \<noteq> 0 \<and> t < K_MAX_TASKS \<and> t_process (k_tasks k t) = Some i
       then zero_task else k_tasks k t)"
    using gone(3) by (auto split: if_splits dest: destroy_tasks_tasks)
  have id1: "p_id (k_processes k1 i) \<noteq> 0" using id k1 by simp
  note none = resources_release_none[OF id1]
  have c: "k_partition_count k' = k_partition_count k1"
    by (simp add: gone(5,6) process_resources_release_def Let_def)
  show ?thesis
    using none k1 unfolding c by (auto simp: gone(5,6) zero_process_def)
qed simp_all

lemma free_task_cpus [simp]: "k_cpus (free_task i k) = k_cpus k" "k_discovered_cpus (free_task i k) = k_discovered_cpus k"
  by (simp_all add: free_task_def Let_def vm_upd_def)

lemma destroy_tasks_spaces: "destroy_tasks p is k = (ok, k') \<Longrightarrow> vm_spaces (k_vm k') = vm_spaces (k_vm k)"
  by (induction p "is" k rule: destroy_tasks.induct)
    (auto simp: free_task_def Let_def vm_upd_def vm_free_def split: if_splits)

lemma destroy_tasks_ok:
  "(\<And>t. t_process (k_tasks k t) = Some p \<Longrightarrow> \<not> on_cpu t k) \<Longrightarrow> \<exists>k'. destroy_tasks p is k = (True, k')"
proof (induction p "is" k rule: destroy_tasks.induct)
  case (2 p i "is" k)
  have "on_cpu t (free_task i k) = on_cpu t k" for t by (simp add: on_cpu_def)
  moreover have "t_process (k_tasks (free_task i k) t) = Some p \<Longrightarrow> t_process (k_tasks k t) = Some p" for t
    by (simp split: if_splits)
  ultimately have "\<exists>k'. destroy_tasks p is (free_task i k) = (True, k')"
    if "t_process (k_tasks k i) = Some p" "\<not> on_cpu i k" using 2 that by blast
  then show ?case using 2 by auto
qed simp

definition ex_dead :: kernel where
  "ex_dead = ex_user\<lparr>k_processes := (\<lambda>_. zero_process)(1 := zero_process\<lparr>p_used := True, p_id := 5, p_task_id := 3,
       p_state := K_TASK_ZOMBIE, p_as := Some 0\<rparr>),
     k_tasks := (\<lambda>_. zero_task)(2 := zero_task\<lparr>t_process := Some 1, t_state := K_TASK_ZOMBIE\<rparr>),
     k_vm := ex_vm\<lparr>vm_spaces := (\<lambda>_. zero_space)(0 := zero_space\<lparr>as_used := True\<rparr>)\<rparr>,
     k_services := (\<lambda>_. zero_service)(3 := \<lparr>sv_name = ''disk'', sv_pid = 5, sv_task = 3\<rparr>)\<rparr>"

lemma ex_dead_destroyed: "fst (process_destroy_locked 1 ex_dead) = 0"
proof -
  have v: "valid_process 1 ex_dead" "p_task_id (k_processes ex_dead 1) = 3" "p_state (k_processes ex_dead 1) = K_TASK_ZOMBIE"
    by (simp_all add: valid_process_def ex_dead_def MAX_PROCESSES_def)
  have "\<not> on_cpu t ex_dead" if "t_process (k_tasks ex_dead t) = Some 1" for t
    using that by (auto simp: ex_dead_def ex_user_def ex_kernel_def ex_cpu_def zero_task_def on_cpu_def split: if_splits)
  from destroy_tasks_ok[of ex_dead 1 "[0..<K_MAX_TASKS]", OF this] obtain k1 where d: "destroy_tasks 1 [0..<K_MAX_TASKS] ex_dead = (True, k1)"
    by blast
  note D = destroy_tasks_tasks[OF d]
  have sp: "p_space 1 k1 = 0" using D by (simp add: p_space_def ex_dead_def)
  have t: "t_process (k_tasks k1 t) = None" for t
    using D by (auto simp: ex_dead_def K_MAX_TASKS_def zero_task_def)
  define k2 where "k2 = set_owner 0 None (process_resources_release 1 k1)"
  have u: "\<not> space_in_use 0 k2" by (simp add: space_in_use_def k2_def t)
  have "vm_spaces (k_vm k1) 0 = zero_space\<lparr>as_used := True\<rparr>"
    using destroy_tasks_spaces[OF d] by (simp add: ex_dead_def)
  then have a: "x86_64_as_valid 0 (k_vm k2)" "as_owner (vm_spaces (k_vm k2) 0) = None"
    by (simp_all add: k2_def set_owner_def vm_upd_def x86_64_as_valid_def MAX_AS_def)
  then have "fst (x86_64_as_destroy False 0 (k_vm k2)) = 0" by (simp add: x86_64_as_destroy_def Let_def)
  then show ?thesis
    using v u by (auto simp: process_destroy_locked_def d[unfolded One_nat_def] sp[unfolded One_nat_def] Let_def
        k2_def[unfolded One_nat_def, symmetric] split: prod.split)
qed

theorem process_destroy_complete_witness:
  "fst (process_destroy_locked 1 ex_dead) = 0 \<and> \<not> p_used (k_processes (snd (process_destroy_locked 1 ex_dead)) 1) \<and>
   sv_pid (k_services (snd (process_destroy_locked 1 ex_dead)) 3) \<noteq> 5 \<and>
   t_process (k_tasks (snd (process_destroy_locked 1 ex_dead)) 2) \<noteq> Some 1"
proof -
  have r: "process_destroy_locked 1 ex_dead = (0, snd (process_destroy_locked 1 ex_dead))"
    using ex_dead_destroyed by (metis prod.collapse)
  have p: "p_id (k_processes ex_dead 1) = 5" "p_task_id (k_processes ex_dead 1) \<noteq> 0" by (simp_all add: ex_dead_def)
  have m: "(3::nat) < MAX_SERVICES" "(2::nat) < K_MAX_TASKS" by (simp_all add: MAX_SERVICES_def K_MAX_TASKS_def)
  from process_destroy_complete[OF r] p m show ?thesis using ex_dead_destroyed by simp
qed

section \<open>Grants\<close>

text \<open>The grants of a process, with multiplicity.\<close>

definition grants :: "k_process \<Rightarrow> nat multiset" where
  "grants p = mset (map (p_grants p) [0..<p_grant_count p])"

lemma mset_drop_last:
  assumes "i < n"
  shows "add_mset (g i) (mset (map (g(i := g (n - 1))) [0..<n - 1])) = mset (map g [0..<n])"
proof -
  from assms obtain m where n: "n = Suc m" by (cases n) auto
  show ?thesis
  proof (cases "i = m")
    case True
    then show ?thesis by (simp add: n)
  next
    case False
    with assms n have i: "i < m" by simp
    have "map (g(i := g m)) [0..<m] = (map g [0..<m])[i := g m]"
      by (rule nth_equalityI) (auto simp: nth_list_update)
    then show ?thesis using i by (simp add: n mset_update add_mset_commute insert_DiffM nth_mem_mset)
  qed
qed

lemma prune_grants_mset:
  "prune_grants live g n i = (g', n') \<Longrightarrow> i \<le> n \<Longrightarrow> (\<And>j. j < i \<Longrightarrow> live (g j)) \<Longrightarrow>
   mset (map g' [0..<n']) = filter_mset live (mset (map g [0..<n]))"
proof (induction live g n i rule: prune_grants.induct)
  case (1 live g n i)
  note eq = prune_grants.simps[of live g n i]
  consider (stop) "\<not> i < n" | (keep) "i < n" "live (g i)" | (dead) "i < n" "\<not> live (g i)" by blast
  then show ?case
  proof cases
    case stop
    then have "filter_mset live (mset (map g [0..<n])) = mset (map g [0..<n])"
      using "1.prems"(2,3) by (simp add: filter_mset_eq_conv)
    then show ?thesis using stop "1.prems"(1) by (simp add: eq)
  next
    case keep
    have "prune_grants live g n (Suc i) = (g', n')" using keep "1.prems"(1) by (simp add: eq)
    moreover have "live (g j)" if "j < Suc i" for j using that keep "1.prems"(3) less_Suc_eq by blast
    ultimately show ?thesis using "1.IH"(1)[OF keep] keep by simp
  next
    case dead
    have "prune_grants live (g(i := g (n - 1))) (n - 1) i = (g', n')" using dead "1.prems"(1) by (simp add: eq)
    moreover have "i \<le> n - 1" using dead by simp
    moreover have "live ((g(i := g (n - 1))) j)" if "j < i" for j using that "1.prems"(3) by simp
    ultimately have "mset (map g' [0..<n']) = filter_mset live (mset (map (g(i := g (n - 1))) [0..<n - 1]))"
      using "1.IH"(2)[OF dead] by blast
    then show ?thesis using mset_drop_last[OF dead(1), of g, symmetric] dead(2) by simp
  qed
qed

lemma grants_size: "size (grants p) = p_grant_count p"
  by (simp add: grants_def)

lemma grants_mem: "x \<in># grants p \<longleftrightarrow> (\<exists>j<p_grant_count p. p_grants p j = x)"
  by (auto simp: grants_def)

lemma grants_upd [simp]: "grants (p\<lparr>p_grants := g, p_grant_count := n\<rparr>) = mset (map g [0..<n])"
  by (simp add: grants_def)

lemma grant_locked_cases:
  assumes "grant_locked i tid k = (e, k')"
  obtains (held) "e = 0" "k' = k" "tid \<in># grants (k_processes k i)"
  | (full) q where "e = K_E2BIG" "tid \<notin># grants (k_processes k i)" "k' = proc_upd i (\<lambda>_. q) k" "p_grant_count q = 16"
      "grants q = filter_mset (\<lambda>t. live_task t k) (grants (k_processes k i))"
  | (added) q where "e = 0" "tid \<notin># grants (k_processes k i)" "k' = proc_upd i (\<lambda>_. q) k"
      "grants q = add_mset tid (filter_mset (\<lambda>t. live_task t k) (grants (k_processes k i)))"
      "size (filter_mset (\<lambda>t. live_task t k) (grants (k_processes k i))) \<noteq> 16"
proof (cases "tid \<in># grants (k_processes k i)")
  case True
  then have "\<exists>j\<in>set [0..<p_grant_count (k_processes k i)]. p_grants (k_processes k i) j = tid" by (auto simp: grants_mem)
  then show thesis using True assms by (intro held) (auto simp: grant_locked_def)
next
  case False
  then have no: "\<not> (\<exists>j\<in>set [0..<p_grant_count (k_processes k i)]. p_grants (k_processes k i) j = tid)" by (auto simp: grants_mem)
  obtain g n where pr: "prune_grants (\<lambda>t. live_task t k) (p_grants (k_processes k i)) (p_grant_count (k_processes k i)) 0 = (g, n)"
    by fastforce
  have m: "mset (map g [0..<n]) = filter_mset (\<lambda>t. live_task t k) (grants (k_processes k i))"
    using prune_grants_mset[OF pr] by (simp add: grants_def)
  have sz: "size (filter_mset (\<lambda>t. live_task t k) (grants (k_processes k i))) = n" unfolding m[symmetric] by simp
  note eq = assms[unfolded grant_locked_def Let_def if_not_P[OF no] pr prod.case]
  have upd: "proc_upd i (\<lambda>p. p\<lparr>p_grants := a, p_grant_count := b\<rparr>) k =
      proc_upd i (\<lambda>_. (k_processes k i)\<lparr>p_grants := a, p_grant_count := b\<rparr>) k" for a b by (simp add: proc_upd_def)
  show thesis
  proof (cases "n = 16")
    case True
    then show thesis using eq m False
      by (intro full[of "(k_processes k i)\<lparr>p_grants := g, p_grant_count := n\<rparr>"]) (auto simp: upd)
  next
    case f: False
    have "map (g(n := tid)) [0..<n + 1] = map g [0..<n] @ [tid]" by simp
    then have "mset (map (g(n := tid)) [0..<n + 1]) = add_mset tid (mset (map g [0..<n]))"
      by (simp only: mset_append) simp
    then show thesis using eq m False f sz
      by (intro added[of "(k_processes k i)\<lparr>p_grants := g(n := tid), p_grant_count := n + 1\<rparr>"]) (auto simp: upd)
  qed
qed

text \<open>
  Granting is exact. If the grant is already held nothing changes; otherwise the grants of dead
  tasks are dropped, every grant of a live task is kept with its multiplicity, and the new one is
  added, unless 16 live grants remain, which is the only way the call fails. The table never holds
  more than 16 grants and no other process is touched.
\<close>

theorem grant_locked_exact:
  assumes "grant_locked i tid k = (e, k')" "p_grant_count (k_processes k i) \<le> 16"
  shows "(if tid \<in># grants (k_processes k i) then e = 0 \<and> k' = k
     else if size (filter_mset (\<lambda>t. live_task t k) (grants (k_processes k i))) = 16
     then e = K_E2BIG \<and> grants (k_processes k' i) = filter_mset (\<lambda>t. live_task t k) (grants (k_processes k i))
     else e = 0 \<and> grants (k_processes k' i) = add_mset tid (filter_mset (\<lambda>t. live_task t k) (grants (k_processes k i)))) \<and>
    p_grant_count (k_processes k' i) \<le> 16 \<and> (\<forall>j. j \<noteq> i \<longrightarrow> k_processes k' j = k_processes k j) \<and> k_tasks k' = k_tasks k"
  using assms(1)
proof (cases rule: grant_locked_cases)
  case held
  then show ?thesis using assms(2) by simp
next
  case (full q)
  then show ?thesis using grants_size[of q] by simp
next
  case (added q)
  have "size (filter_mset (\<lambda>t. live_task t k) (grants (k_processes k i))) \<le> 16"
    using assms(2) size_filter_mset_lesseq[of "\<lambda>t. live_task t k" "grants (k_processes k i)"] by (simp add: grants_size)
  then have "p_grant_count q \<le> 16" using added(4,5) grants_size[of q] by simp
  then show ?thesis using added by simp
qed

theorem grant_locked_exact_witness:
  "fst (grant_locked 0 3 ex_user) = 0 \<and> grants (k_processes (snd (grant_locked 0 3 ex_user)) 0) = {#3#}"
proof -
  have g: "grants (k_processes ex_user 0) = {#}" "p_grant_count (k_processes ex_user 0) \<le> 16"
    by (simp_all add: ex_user_def grants_def zero_process_def)
  show ?thesis
    using grant_locked_exact[of 0 3 ex_user "fst (grant_locked 0 3 ex_user)" "snd (grant_locked 0 3 ex_user)"] g by simp
qed

section \<open>Services\<close>

lemma live_task_proc_upd [simp]: "live_task t (proc_upd i f k) = live_task t k"
  by (simp add: live_task_def)

lemma grant_locked_mem: "grant_locked i tid k = (0, k') \<Longrightarrow> tid \<in># grants (k_processes k' i)"
  by (erule grant_locked_cases) simp_all

lemma grant_locked_keeps:
  assumes "grant_locked i tid k = (e, k')" "live_task x k" "x \<in># grants (k_processes k j)"
  shows "x \<in># grants (k_processes k' j)"
  using assms(1) by (rule grant_locked_cases) (use assms(2,3) in auto)

lemma grant_locked_frame: "grant_locked i tid k = (e, k') \<Longrightarrow> k_tasks k' = k_tasks k \<and> k_cpus k' = k_cpus k \<and> k_services k' = k_services k"
  by (erule grant_locked_cases) simp_all

lemma grant_locked_subset:
  "grant_locked i tid k = (e, k') \<Longrightarrow> grants (k_processes k' j) \<subseteq># grants (k_processes k j) + (if j = i then {#tid#} else {#})"
  by (erule grant_locked_cases) (auto simp: multiset_filter_subset intro: subset_mset.order_trans[OF multiset_filter_subset])

lemma grant_locked_fail: "grant_locked i tid k = (e, k') \<Longrightarrow> e \<noteq> 0 \<Longrightarrow> grants (k_processes k' j) \<subseteq># grants (k_processes k j)"
  by (erule grant_locked_cases) (auto simp: multiset_filter_subset)

lemma grant_locked_room:
  assumes "grant_locked i tid k = (e, k')" "p_grant_count (k_processes k i) < 16"
  shows "e = 0 \<and> p_grant_count (k_processes k' i) \<le> p_grant_count (k_processes k i) + 1"
  using assms(1)
proof (cases rule: grant_locked_cases)
  case (full q)
  have "size (grants q) \<le> size (grants (k_processes k i))" unfolding full(5) by (rule size_filter_mset_lesseq)
  then show ?thesis using full(4) assms(2) by (simp add: grants_size)
next
  case (added q)
  have "size (filter_mset (\<lambda>t. live_task t k) (grants (k_processes k i))) \<le> size (grants (k_processes k i))"
    by (rule size_filter_mset_lesseq)
  moreover have "size (grants q) = Suc (size (filter_mset (\<lambda>t. live_task t k) (grants (k_processes k i))))"
    unfolding added(4) by simp
  ultimately show ?thesis using added(1,3) by (simp add: grants_size)
qed simp

lemma grant_locked_held: "grant_locked i tid k = (e, k') \<Longrightarrow> tid \<in># grants (k_processes k i) \<Longrightarrow> k' = k"
  by (erule grant_locked_cases) simp_all

lemma revoke_grant_mset: "grants (k_processes (revoke_grant i x k) j) = grants (k_processes k j) - (if j = i then {#x#} else {#})"
proof (cases "find_from 0 (p_grant_count (k_processes k i)) (\<lambda>j. p_grants (k_processes k i) j = x)")
  case None
  then have "x \<notin># grants (k_processes k i)" by (simp add: find_from_None grants_mem)
  then show ?thesis using None by (simp add: revoke_grant_def Let_def)
next
  case (Some l)
  from find_from_Some[OF Some] have l: "l < p_grant_count (k_processes k i)" "p_grants (k_processes k i) l = x" by auto
  show ?thesis using Some mset_drop_last[OF l(1), of "p_grants (k_processes k i)", symmetric] l(2)
    by (simp add: revoke_grant_def Let_def grants_def)
qed

text \<open>
  A service lookup connects exactly two parties. When it succeeds, the name is registered to a
  process that is not a zombie, the result is that service's task, the service holds a grant to send
  to the caller and the caller's process, if it has one, a grant to send to the service. When it
  fails, no process holds a grant it did not hold before.
\<close>

theorem service_lookup_connects:
  assumes look: "k_service_lookup c name k = (r, k')" and cur: "current_task c k = Some t"
    and live: "live_task (t_id (k_tasks k t)) k"
  shows "case r of
      Inr tid \<Rightarrow> \<exists>s p. s < MAX_SERVICES \<and> str_eq (sv_name (k_services k s)) name \<and> sv_task (k_services k s) = tid \<and>
        process_by_pid (sv_pid (k_services k s)) k = Some p \<and> p_state (k_processes k p) \<noteq> K_TASK_ZOMBIE \<and>
        t_id (k_tasks k t) \<in># grants (k_processes k' p) \<and>
        (\<forall>q. t_process (k_tasks k t) = Some q \<longrightarrow> tid \<in># grants (k_processes k' q))
    | Inl e \<Rightarrow> \<forall>j. grants (k_processes k' j) \<subseteq># grants (k_processes k j)"
proof (cases "service_name name = 0 \<and> (\<exists>s p. find_from 0 MAX_SERVICES
    (\<lambda>i. sv_pid (k_services k i) \<noteq> 0 \<and> str_eq (sv_name (k_services k i)) name) = Some s \<and>
    process_by_pid (sv_pid (k_services k s)) k = Some p \<and> p_state (k_processes k p) \<noteq> K_TASK_ZOMBIE)")
  case False
  then have "k' = k \<and> (\<exists>e. r = Inl e)"
    using look cur unfolding k_service_lookup_def by (auto split: if_splits option.splits)
  then show ?thesis by auto
next
  case True
  then obtain s p where nm: "service_name name = 0"
    and s: "find_from 0 MAX_SERVICES (\<lambda>i. sv_pid (k_services k i) \<noteq> 0 \<and> str_eq (sv_name (k_services k i)) name) = Some s"
    and p: "process_by_pid (sv_pid (k_services k s)) k = Some p" "p_state (k_processes k p) \<noteq> K_TASK_ZOMBIE" by blast
  let ?me = "t_id (k_tasks k t)" and ?svc = "sv_task (k_services k s)"
  define already where "already \<longleftrightarrow> (\<exists>j\<in>set [0..<p_grant_count (k_processes k p)]. p_grants (k_processes k p) j = ?me)"
  have al: "already \<longleftrightarrow> ?me \<in># grants (k_processes k p)" by (auto simp: already_def grants_mem)
  obtain e1 k1 where g1: "grant_locked p ?me k = (e1, k1)" by fastforce
  obtain e2 k2 where g2: "(if e1 \<noteq> 0 then (e1, k1)
      else case t_process (k_tasks k1 t) of None \<Rightarrow> (0, k1) | Some q \<Rightarrow> grant_locked q ?svc k1) = (e2, k2)" by fastforce
  note F = grant_locked_frame[OF g1]
  have live1: "live_task ?me k1" using live F by (simp add: live_task_def)
  have "k_service_lookup c name k = (if e2 \<noteq> 0 then (Inl e2, if already then k2 else revoke_grant p ?me k2) else (Inr ?svc, k2))"
    using nm cur s p by (simp add: k_service_lookup_def Let_def g1 g2 already_def)
  then have eq: "(r, k') = (if e2 \<noteq> 0 then (Inl e2, if already then k2 else revoke_grant p ?me k2) else (Inr ?svc, k2))"
    using look by simp
  show ?thesis
  proof (cases "e2 = 0")
    case True
    then have e1: "e1 = 0" using g2 by (auto split: if_splits)
    have me1: "?me \<in># grants (k_processes k1 p)" using grant_locked_mem g1 e1 by blast
    have me2: "?me \<in># grants (k_processes k2 p)"
      using g2 e1 me1 live1 grant_locked_keeps by (auto split: option.splits)
    have "?svc \<in># grants (k_processes k2 q)" if "t_process (k_tasks k t) = Some q" for q
      using g2 e1 True F that grant_locked_mem by auto
    with me2 s p True eq find_from_Some[OF s] show ?thesis by auto
  next
    case False
    have sub1: "grants (k_processes k1 j) \<subseteq># grants (k_processes k j) + (if j = p then {#?me#} else {#})" for j
      by (rule grant_locked_subset[OF g1])
    have sub2: "grants (k_processes k2 j) \<subseteq># grants (k_processes k1 j)" for j
      using g2 False grant_locked_fail[of _ ?svc k1 e2 k2 j] by (auto split: if_splits option.splits)
    have r: "r = Inl e2" "k' = (if already then k2 else revoke_grant p ?me k2)" using eq False by auto
    have "grants (k_processes k' j) \<subseteq># grants (k_processes k j)" for j
    proof (cases already)
      case True
      then have "k1 = k" using grant_locked_held[OF g1] al by blast
      then show ?thesis using sub2 r(2) True by simp
    next
      case False
      have "grants (k_processes k2 j) \<subseteq># grants (k_processes k j) + (if j = p then {#?me#} else {#})"
        using sub2[of j] sub1[of j] by (rule subset_mset.order_trans)
      then show ?thesis using r(2) False by (auto simp: revoke_grant_mset subset_eq_diff_conv split: if_splits)
    qed
    then show ?thesis using r(1) by simp
  qed
qed

definition ex_serving :: kernel where
  "ex_serving = ex_user\<lparr>k_services := (\<lambda>_. zero_service)(3 := \<lparr>sv_name = ''disk'', sv_pid = 1, sv_task = 9\<rparr>)\<rparr>"

lemma ex_serving_live: "current_task 0 ex_serving = Some 0" "live_task (t_id (k_tasks ex_serving 0)) ex_serving"
proof -
  show "current_task 0 ex_serving = Some 0" using ex_user_task(1) by (simp add: ex_serving_def current_task_def)
  have "0 \<in> set [0..<K_MAX_TASKS]" by (simp add: K_MAX_TASKS_def)
  then show "live_task (t_id (k_tasks ex_serving 0)) ex_serving"
    unfolding live_task_def by (rule rev_bexI) (simp add: ex_serving_def ex_user_def ex_kernel_def)
qed

lemma ex_serving_found: "fst (k_service_lookup 0 ''disk'' ex_serving) = Inr 9"
proof -
  have nm: "service_name ''disk'' = 0" by code_simp
  have fs: "find_from 0 MAX_SERVICES (\<lambda>i. sv_pid (k_services ex_serving i) \<noteq> 0 \<and> str_eq (sv_name (k_services ex_serving i)) ''disk'') = Some 3"
    by (simp add: find_from_def upt_rec ex_serving_def zero_service_def MAX_SERVICES_def)
  have pb: "process_by_pid 1 ex_serving = Some 0" "p_state (k_processes ex_serving 0) \<noteq> K_TASK_ZOMBIE"
    "p_grant_count (k_processes ex_serving 0) = 0" "t_process (k_tasks ex_serving 0) = Some 0"
    by (simp_all add: process_by_pid_def find_from_def upt_rec ex_serving_def ex_user_def zero_process_def MAX_PROCESSES_def)
  obtain e1 k1 where g1: "grant_locked 0 (t_id (k_tasks ex_serving 0)) ex_serving = (e1, k1)" by fastforce
  have R1: "e1 = 0" "p_grant_count (k_processes k1 0) \<le> 1" "k_tasks k1 = k_tasks ex_serving"
    using grant_locked_room[OF g1] grant_locked_frame[OF g1] pb(3) by auto
  obtain e2 k2 where g2: "grant_locked 0 9 k1 = (e2, k2)" by fastforce
  have R2: "e2 = 0" using grant_locked_room[OF g2] R1(2) by simp
  have sv: "sv_pid (k_services ex_serving 3) = 1" "sv_task (k_services ex_serving 3) = 9" by (simp_all add: ex_serving_def)
  show ?thesis
    using nm fs pb ex_serving_live(1) R1 R2 g2
    by (simp add: k_service_lookup_def Let_def sv[simplified] g1)
qed

theorem service_lookup_connects_witness:
  "fst (k_service_lookup 0 ''disk'' ex_serving) = Inr 9 \<and>
   (\<exists>p. 1 \<in># grants (k_processes (snd (k_service_lookup 0 ''disk'' ex_serving)) p))"
proof -
  have r: "k_service_lookup 0 ''disk'' ex_serving = (Inr 9, snd (k_service_lookup 0 ''disk'' ex_serving))"
    using ex_serving_found by (metis prod.collapse)
  have "t_id (k_tasks ex_serving 0) = 1" by (simp add: ex_serving_def ex_user_def ex_kernel_def)
  with service_lookup_connects[OF r ex_serving_live] show ?thesis using ex_serving_found by auto
qed

end
