(* ===== verification/CallProps.thy ===== *)
theory CallProps
  imports ProcessInv
begin

unbundle bit_operations_syntax

text \<open>
  Properties of control requests, of file positions and of the partition leases: what a kill request
  leads to, which seeks are accepted, and when a partition is written.
\<close>

section \<open>Control requests\<close>

lemma task_ready_request [simp]:
  "t_process (k_tasks (task_ready i k) t) = t_process (k_tasks k t)"
  "t_control_request (k_tasks (task_ready i k) t) = t_control_request (k_tasks k t)"
  by (simp_all add: task_ready_tasks)

lemma control_keeps:
  assumes "process_control_locked pid op k = (e, k')"
  shows "t_process (k_tasks k' t) = t_process (k_tasks k t)"
    and "t_control_request (k_tasks k t) = K_CTL_KILL \<Longrightarrow> t_control_request (k_tasks k' t) = K_CTL_KILL"
  using assms unfolding process_control_locked_def by (auto simp: Let_def split: if_splits option.splits)

text \<open>Any further control requests, of any processes, one after the other.\<close>

definition control_run :: "(nat \<times> nat) list \<Rightarrow> kernel \<Rightarrow> kernel" where
  "control_run ops k = fold (\<lambda>(pid, op) k. snd (process_control_locked pid op k)) ops k"

lemma control_run_keeps:
  "t_process (k_tasks (control_run ops k) t) = t_process (k_tasks k t) \<and>
   (t_control_request (k_tasks k t) = K_CTL_KILL \<longrightarrow> t_control_request (k_tasks (control_run ops k) t) = K_CTL_KILL)"
proof (induction ops arbitrary: k)
  case (Cons x ops)
  obtain pid op where x: "x = (pid, op)" by fastforce
  obtain e k1 where c: "process_control_locked pid op k = (e, k1)" by fastforce
  have "control_run (x # ops) k = control_run ops k1" by (simp add: control_run_def x c)
  then show ?case using Cons.IH[of k1] control_keeps[OF c, of t] by simp
qed (simp add: control_run_def)

lemma process_taskD: "process_task i k = Some t \<Longrightarrow> t < K_MAX_TASKS \<and> t_process (k_tasks k t) = Some i"
  unfolding process_task_def by (drule find_from_Some) simp

text \<open>
  C17. A kill request is final. Once a kill of a live process was accepted, no later control request,
  stop and continue included, withdraws it, and when the task next returns to user mode it becomes a
  zombie with exit code -143, as does its process, whose services and leases are released.
\<close>

theorem kill_is_final:
  assumes "process_by_pid pid k = Some i" "process_task i k = Some t" "t_state (k_tasks k t) \<noteq> K_TASK_ZOMBIE"
    and k1: "process_control_locked pid K_CTL_KILL k = (e, k1)"
    and k3: "process_return_control t (control_run ops k1) = (y, k3)"
  shows "e = 0 \<and> y \<and> t_state (k_tasks k3 t) = K_TASK_ZOMBIE \<and> t_exit_code (k_tasks k3 t) = -143 \<and>
    p_state (k_processes k3 i) = K_TASK_ZOMBIE \<and> p_exit_code (k_processes k3 i) = -143 \<and>
    leases_drop (control_run ops k1) k3"
proof -
  note T = process_taskD[OF assms(2)]
  have "e = 0" "t_control_request (k_tasks k1 t) = K_CTL_KILL" "t_process (k_tasks k1 t) = Some i"
    using k1 assms(1-3) T by (auto simp: process_control_locked_def K_CTL_KILL_def K_CTL_CONTINUE_def Let_def split: if_splits)
  with control_run_keeps[of ops k1 t] have r: "t_control_request (k_tasks (control_run ops k1) t) = K_CTL_KILL"
    "t_process (k_tasks (control_run ops k1) t) = Some i" by simp_all
  define k2 where "k2 = task_upd t (\<lambda>u. u\<lparr>t_exit_code := -143, t_state := K_TASK_ZOMBIE\<rparr>)
      (task_upd t (\<lambda>u. u\<lparr>t_control_request := 0\<rparr>) (control_run ops k1))"
  define k4 where "k4 = proc_upd i (\<lambda>p. p\<lparr>p_exit_code := -143, p_state := K_TASK_ZOMBIE\<rparr>) k2"
  have "(y, k3) = (True, task_upd t (\<lambda>u. u\<lparr>t_preempt_depth := 0\<rparr>) (process_resources_release i k4))"
    using k3 r by (simp add: process_return_control_def k2_def k4_def K_CTL_KILL_def)
  moreover have "leases_drop (control_run ops k1) (process_resources_release i k4)"
  proof -
    have "auth k4 = auth (control_run ops k1)" by (simp add: k4_def k2_def auth_simps)
    then show ?thesis using leases_drop_trans[OF auth_leases resources_release_drop] by blast
  qed
  moreover have "leases_drop x (task_upd t h z) = leases_drop x z" for x h z
    by (rule leases_drop_cong) (simp_all add: task_upd_def)
  ultimately show ?thesis using \<open>e = 0\<close> by (simp add: k4_def k2_def)
qed

definition ex_victim :: kernel where
  "ex_victim = ex_user\<lparr>k_tasks := (k_tasks ex_user)(0 := (k_tasks ex_user 0)\<lparr>t_control_request := K_CTL_STOP\<rparr>)\<rparr>"

lemma ex_victim_found: "process_by_pid 1 ex_victim = Some 0" "process_task 0 ex_victim = Some 0"
    "t_state (k_tasks ex_victim 0) \<noteq> K_TASK_ZOMBIE"
  by (simp_all add: process_by_pid_def process_task_def find_from_def upt_rec ex_victim_def ex_user_def ex_kernel_def
      MAX_PROCESSES_def K_MAX_TASKS_def)

theorem kill_is_final_witness:
  "t_state (k_tasks (snd (process_return_control 0
     (control_run [(1, K_CTL_STOP), (1, K_CTL_CONTINUE)] (snd (process_control_locked 1 K_CTL_KILL ex_victim))))) 0) = K_TASK_ZOMBIE"
  using kill_is_final[OF ex_victim_found, of "fst (process_control_locked 1 K_CTL_KILL ex_victim)"
      "snd (process_control_locked 1 K_CTL_KILL ex_victim)" "[(1, K_CTL_STOP), (1, K_CTL_CONTINUE)]"]
  by (metis prod.collapse)

section \<open>File positions\<close>

definition seek_base :: "nat \<Rightarrow> (nat \<Rightarrow> nat) \<Rightarrow> kernel \<Rightarrow> nat" where
  "seek_base i a k = (if a 2 = 0 then 0 else p_fd_offset (k_processes k i) (a 0))"

lemma int64_shift:
  assumes "n < 2 ^ 64"
  shows "int64 n = (int n + 2 ^ 63) mod 2 ^ 64 - 2 ^ 63"
proof -
  have "uint (word_of_nat n :: u64) = int n" using assms by (simp add: unsigned_of_nat take_bit_eq_mod)
  then have "int64 n = signed_take_bit 63 (int n)" unfolding int64_def sint_uint by simp
  then show ?thesis by (simp add: signed_take_bit_eq_take_bit_shift take_bit_eq_mod)
qed

lemma int64_small: "n < 2 ^ 63 \<Longrightarrow> int64 n = int n"
  using int64_shift[of n] by simp

lemma int64_big:
  assumes "2 ^ 63 \<le> n" "n < 2 ^ 64"
  shows "int64 n = int n - 2 ^ 64"
proof -
  have "int n + 2 ^ 63 - 2 ^ 64 \<ge> 0" "int n + 2 ^ 63 - 2 ^ 64 < 2 ^ 64" using assms by auto
  then have "(int n + 2 ^ 63 - 2 ^ 64) mod 2 ^ 64 = int n + 2 ^ 63 - 2 ^ 64" by (rule mod_pos_pos_trivial)
  then have "(int n + 2 ^ 63) mod 2 ^ 64 = int n + 2 ^ 63 - 2 ^ 64" by (simp only: minus_mod_self2)
  then show ?thesis using int64_shift[OF assms(2)] by simp
qed

text \<open>The arithmetic of \<open>K_SYS_SEEK\<close>: a base below 2^63 and a 64-bit offset read as signed.\<close>

lemma seek_arith:
  assumes "base \<le> 0x7fffffffffffffff" "off < 2 ^ 64"
  shows "\<not> ((int64 off < 0 \<and> sub64 0 off > base) \<or> (int64 off \<ge> 0 \<and> off > 0x7fffffffffffffff - base)) \<longleftrightarrow>
      0 \<le> int base + int64 off \<and> int base + int64 off < 2 ^ 63"
    and "0 \<le> int base + int64 off \<Longrightarrow> int base + int64 off < 2 ^ 63 \<Longrightarrow> int (add64 base off) = int base + int64 off"
proof -
  show "\<not> ((int64 off < 0 \<and> sub64 0 off > base) \<or> (int64 off \<ge> 0 \<and> off > 0x7fffffffffffffff - base)) \<longleftrightarrow>
      0 \<le> int base + int64 off \<and> int base + int64 off < 2 ^ 63"
  proof (cases "off < 2 ^ 63")
    case True
    then show ?thesis using assms(1) by (auto simp: int64_small)
  next
    case False
    then have b: "int64 off = int off - 2 ^ 64" using assms(2) by (simp add: int64_big)
    have "sub64 0 off = 2 ^ 64 - off" using False by (simp add: sub64_def)
    then show ?thesis using b False assms by auto
  qed
  assume r: "0 \<le> int base + int64 off" "int base + int64 off < 2 ^ 63"
  show "int (add64 base off) = int base + int64 off"
  proof (cases "off < 2 ^ 63")
    case True
    then show ?thesis using r by (simp add: int64_small add64_def)
  next
    case False
    then have b: "int64 off = int off - 2 ^ 64" using assms(2) by (simp add: int64_big)
    then have "2 ^ 64 \<le> base + off" "base + off < 2 ^ 64 + 2 ^ 64" using r assms by auto
    then have "add64 base off = base + off - 2 ^ 64" by (simp add: add64_def mod_if)
    then show ?thesis using b \<open>2 ^ 64 \<le> base + off\<close> by simp
  qed
qed

text \<open>
  Seeking never overflows. For a seek from the start or from the current position of an open
  file, with every 64-bit offset, the call accepts exactly the targets from 0 to 2^63 - 1: then the
  result and the new position are the mathematical sum of base and signed offset; otherwise it
  returns \<open>K_EINVAL\<close> and changes nothing.
\<close>

theorem seek_exact:
  assumes fd: "open_fd i (a 0) k" and w: "a 2 < 2" and off: "a 1 < 2 ^ 64"
  shows "sys_seek env i a k d =
    (if seek_base i a k < 2 ^ 63 \<and> 0 \<le> int (seek_base i a k) + int64 (a 1) \<and> int (seek_base i a k) + int64 (a 1) < 2 ^ 63
     then (int (seek_base i a k) + int64 (a 1), set_offset i (a 0) (nat (int (seek_base i a k) + int64 (a 1))) k, d)
     else (K_EINVAL, k, d))"
proof -
  let ?b = "seek_base i a k"
  have eq: "sys_seek env i a k d =
      (if ?b > 0x7fffffffffffffff then (K_EINVAL, k, d)
       else if (int64 (a 1) < 0 \<and> sub64 0 (a 1) > ?b) \<or> (int64 (a 1) \<ge> 0 \<and> a 1 > 0x7fffffffffffffff - ?b) then (K_EINVAL, k, d)
       else (int64 (add64 ?b (a 1)), set_offset i (a 0) (add64 ?b (a 1)) k, d))"
    using fd w unfolding sys_seek_def seek_base_def Let_def by (auto simp del: One_nat_def)
  show ?thesis
  proof (cases "?b \<le> 0x7fffffffffffffff")
    case False
    then show ?thesis unfolding eq by simp
  next
    case True
    note A = seek_arith[OF True off]
    show ?thesis
    proof (cases "0 \<le> int ?b + int64 (a 1) \<and> int ?b + int64 (a 1) < 2 ^ 63")
      case ok: True
      then have s: "int (add64 ?b (a 1)) = int ?b + int64 (a 1)" using A(2) by blast
      then have "int (add64 ?b (a 1)) < 2 ^ 63" using ok by simp
      then have "add64 ?b (a 1) < 2 ^ 63" by simp
      then have "int64 (add64 ?b (a 1)) = int ?b + int64 (a 1)" "add64 ?b (a 1) = nat (int ?b + int64 (a 1))"
        using s by (simp_all add: int64_small)
      moreover have "\<not> ((int64 (a 1) < 0 \<and> sub64 0 (a 1) > ?b) \<or> (int64 (a 1) \<ge> 0 \<and> a 1 > 0x7fffffffffffffff - ?b))"
        using A(1) ok by blast
      ultimately show ?thesis unfolding eq using True ok by (simp only: if_False if_True) simp
    next
      case bad: False
      then have "((int64 (a 1) < 0 \<and> sub64 0 (a 1) > ?b) \<or> (int64 (a 1) \<ge> 0 \<and> a 1 > 0x7fffffffffffffff - ?b))"
        using A(1) by blast
      then show ?thesis unfolding eq using bad by (simp only: if_True) auto
    qed
  qed
qed

definition ex_files :: kernel where
  "ex_files = proc_upd 0 (\<lambda>p. p\<lparr>p_fd_used := (\<lambda>fd. fd = 3), p_fd_offset := (\<lambda>_. 100)\<rparr>) ex_user"

theorem seek_exact_witness:
  "sys_seek ex_env 0 ((\<lambda>_. 0)(0 := 3, 1 := 2 ^ 64 - 40, 2 := 1)) ex_files () = (60, set_offset 0 3 60 ex_files, ())"
proof -
  let ?a = "(\<lambda>_. 0)(0 := 3, 1 := 2 ^ 64 - 40, 2 := 1) :: nat \<Rightarrow> nat"
  have o: "open_fd 0 (?a 0) ex_files" by (simp add: open_fd_def ex_files_def)
  have b: "seek_base 0 ?a ex_files = 100" by (simp add: seek_base_def ex_files_def)
  have "int64 (2 ^ 64 - 40) = - 40" by (subst int64_big) simp_all
  then show ?thesis using seek_exact[of 0 ?a ex_files ex_env "()"] o b by simp
qed

section \<open>Partition leases\<close>

lemma only_vm_partitions: "only_vm k k' \<Longrightarrow> k_partitions k' = k_partitions k \<and> k_services k' = k_services k \<and> k_partition_count k' = k_partition_count k"
  by (auto simp: only_vm_def)

lemma admin_transfer_write:
  assumes op: "ar_operation r = K_ADMIN_PART_WRITE"
    and run: "admin_transfer env i r disk start limit k d = (e, k', d')"
  shows "(d' = d \<and> only_vm k k') \<or>
    (ar_length r mod e_disk_sector_size env disk d = 0 \<and> ar_address r < limit \<and>
     ar_length r div e_disk_sector_size env disk d \<le> limit - ar_address r \<and>
     (\<exists>b w d1 k1. only_vm k k1 \<and>
        e_disk_write_fs env disk (add64 start (ar_address r)) (ar_length r div e_disk_sector_size env disk d) b d = (w, d1) \<and>
        (e, d') = (if w = 0 then e_disk_flush env disk d1 else (w, d1)) \<and>
        k' = (if e \<noteq> 0 then part_upd (ar_resource r) (\<lambda>p. p\<lparr>pt_failed := 1\<rparr>) k1 else k1)))"
proof -
  let ?n = "ar_length r" and ?sec = "e_disk_sector_size env disk d"
  show ?thesis
  proof (cases "?n = 0 \<or> ?n > 4096 \<or> ?n mod ?sec \<noteq> 0 \<or> ar_address r \<ge> limit \<or> ?n div ?sec > limit - ar_address r")
    case True
    then have "admin_transfer env i r disk start limit k d = (K_EINVAL, k, d)"
      unfolding admin_transfer_def Let_def by (rule if_P)
    then show ?thesis using run by simp
  next
    case False
    obtain x k1 where c: "user_check i (ar_buffer r) ?n False k = (x, k1)" by fastforce
    obtain y b k2 where u: "user_read i (ar_buffer r) ?n k1 = (y, b, k2)" by (metis prod_cases3)
    obtain w d1 where wr: "e_disk_write_fs env disk (add64 start (ar_address r)) (?n div ?sec) b d = (w, d1)" by fastforce
    obtain z d2 where fl: "(if w = 0 then e_disk_flush env disk d1 else (w, d1)) = (z, d2)" by fastforce
    note v1 = user_check_vm[OF c] and v2 = only_vm_trans[OF user_check_vm[OF c] user_read_vm[OF u]]
    have "admin_transfer env i r disk start limit k d =
      (if x \<noteq> 0 then (x, k1, d) else if y \<noteq> 0 then (y, k2, d)
       else (z, if z \<noteq> 0 then part_upd (ar_resource r) (\<lambda>p. p\<lparr>pt_failed := 1\<rparr>) k2 else k2, d2))"
      unfolding admin_transfer_def Let_def if_not_P[OF False] op
      by (simp add: c u wr fl)
    then have eq: "(e, k', d') = (if x \<noteq> 0 then (x, k1, d) else if y \<noteq> 0 then (y, k2, d)
       else (z, if z \<noteq> 0 then part_upd (ar_resource r) (\<lambda>p. p\<lparr>pt_failed := 1\<rparr>) k2 else k2, d2))" using run by simp
    show ?thesis
    proof (cases "x \<noteq> 0 \<or> y \<noteq> 0")
      case True
      then show ?thesis using eq v1 v2 by (auto split: if_splits)
    next
      case ok: False
      then have "e = z" "d' = d2" "k' = (if z \<noteq> 0 then part_upd (ar_resource r) (\<lambda>p. p\<lparr>pt_failed := 1\<rparr>) k2 else k2)"
        using eq by auto
      then show ?thesis using False v2 wr fl by (intro disjI2 conjI exI[of _ b] exI[of _ w] exI[of _ d1] exI[of _ k2]) auto
    qed
  qed
qed


definition ex_admin :: k_admin_request where
  "ex_admin = \<lparr>ar_version = 1, ar_size = 88, ar_operation = K_ADMIN_PART_WRITE, ar_flags = 0, ar_caller_uuid = (\<lambda>_. 0),
     ar_target_uuid = (\<lambda>_. 0), ar_target_pid = 0, ar_resource = 0, ar_address = 0, ar_length = 512, ar_value = 0, ar_buffer = 0\<rparr>"

definition ex_leased :: kernel where
  "ex_leased = ex_user\<lparr>k_processes := (\<lambda>_. zero_process)(0 := zero_process\<lparr>p_used := True, p_id := 1, p_execution_class := K_EXEC_RING1\<rparr>),
     k_partition_count := 1, k_partitions := (\<lambda>_. \<lparr>pt_id = 0, pt_disk = 0, pt_number = 1, pt_sector_size = 512, pt_start = 63,
       pt_sectors = 100, pt_read_only = 0, pt_mounted = 0, pt_owner_pid = 2, pt_failed = 0\<rparr>)\<rparr>"

lemma ex_admin_refused: "admin_operation ex_env 0 0 ex_admin ex_leased () = (K_EPERM, ex_leased, ())"
  by (simp add: admin_operation_def admin_disk_def Let_def ex_admin_def ex_leased_def same_uuid_def zero_process_def
      K_ADMIN_PART_WRITE_def K_ADMIN_MEM_READ_def K_ADMIN_MAP_AT_def K_ADMIN_INPUT_CLAIM_def K_ADMIN_INPUT_RELEASE_def
      K_ADMIN_INPUT_READ_def K_ADMIN_DISK_READ_def K_ADMIN_PART_RELEASE_def K_ADMIN_PART_CLAIM_def)


end
