(* ===== verification/Path.thy ===== *)
theory Path
  imports KLib
begin

text \<open>
  Path names of \<open>fs/fs.c\<close>: \<open>k_path_resolve\<close> turns a path relative to a working directory or to a
  named root (\<open>@name/...\<close>) into a canonical absolute path, \<open>k_root_bind\<close> adds a named root and
  \<open>path_prefix\<close> decides which mount a path belongs to. Strings are lists of characters without NUL;
  the table of roots is a list of (name, path) pairs in the order of the array.
\<close>

type_synonym roots = "(string \<times> string) list"

definition K_PATH_BYTES :: nat where "K_PATH_BYTES = 256"
definition K_NAME_MAX :: nat where "K_NAME_MAX = 255"
definition MAX_ROOTS :: nat where "MAX_ROOTS = 64"

abbreviation SLASH :: char where "SLASH \<equiv> CHR ''/''"

section \<open>Definitions\<close>

definition path_prefix :: "string \<Rightarrow> string \<Rightarrow> bool" where
  "path_prefix p root \<longleftrightarrow>
     (let n = str_len root in
      take (min n (str_len p)) p = take (min n (str_len p)) root \<and> str_len p \<ge> n \<and>
      (n = 1 \<or> cur (drop n p) = NUL \<or> cur (drop n p) = SLASH))"

text \<open>The loop that reads the name after \<open>@\<close>.\<close>

function root_name :: "string \<Rightarrow> string \<Rightarrow> int + string \<times> string" where
  "root_name path name =
     (if cur path \<noteq> NUL \<and> cur path \<noteq> SLASH then
        if length name = 31 then Inl K_E2BIG else root_name (tl path) (name @ [cur path])
      else Inr (name, path))"
  by pat_completeness auto
termination
proof (relation "measure (\<lambda>(path, name). length path)", goal_cases)
  case (2 path name)
  then show ?case by (cases path) auto
qed simp

text \<open>The loop that reads one component.\<close>

function path_comp :: "string \<Rightarrow> string \<Rightarrow> int + string \<times> string" where
  "path_comp path name =
     (if cur path \<noteq> NUL \<and> cur path \<noteq> SLASH then
        let c = of_char (cur path) :: nat in
        if c < 32 \<or> c > 126 \<or> length name + 1 > K_NAME_MAX then Inl K_EINVAL
        else path_comp (tl path) (name @ [cur path])
      else Inr (name, path))"
  by pat_completeness auto
termination
proof (relation "measure (\<lambda>(path, name). length path)", goal_cases)
  case (2 path name)
  then show ?case by (cases path) auto
qed simp

declare root_name.simps [simp del] path_comp.simps [simp del]

text \<open>The loop that looks for the last slash.\<close>

fun last_slash :: "string \<Rightarrow> nat \<Rightarrow> nat" where
  "last_slash out 0 = 0"
| "last_slash out (Suc n) = (if Suc n > 1 \<and> out ! n \<noteq> SLASH then last_slash out n else Suc n)"

definition path_up :: "bool \<Rightarrow> nat \<Rightarrow> string \<Rightarrow> int + string" where
  "path_up named floor out =
     (if length out \<le> floor then if named then Inl K_EPERM else Inr out
      else
        let next = last_slash out (length out); next = (if next > 1 then next - 1 else next) in
        if next < floor then Inl K_EPERM else Inr (take next out))"

definition path_push :: "string \<Rightarrow> string \<Rightarrow> int + string" where
  "path_push out name =
     (let slash = (if length out > 1 then 1 else 0) in
      if length name + slash \<ge> K_PATH_BYTES - length out then Inl K_E2BIG
      else Inr (out @ (if slash = 1 then [SLASH] else []) @ name))"

function resolve_loop :: "bool \<Rightarrow> nat \<Rightarrow> string \<Rightarrow> string \<Rightarrow> nat \<Rightarrow> int + string" where
  "resolve_loop named floor path out scanned =
     (if cur path = NUL then Inr out
      else if Suc scanned > 4096 then Inl K_E2BIG
      else if cur path = SLASH then resolve_loop named floor (tl path) out (Suc scanned)
      else case path_comp path [] of
        Inl e \<Rightarrow> Inl e
      | Inr (name, rest) \<Rightarrow>
          if name = ''.'' then resolve_loop named floor rest out (Suc scanned)
          else case (if name = ''..'' then path_up named floor out else path_push out name) of
            Inl e \<Rightarrow> Inl e
          | Inr out \<Rightarrow> resolve_loop named floor rest out (Suc scanned))"
  by pat_completeness auto
termination by (relation "measure (\<lambda>(named, floor, path, out, scanned). 4097 - scanned)") auto

declare resolve_loop.simps [simp del]

definition k_path_resolve :: "roots \<Rightarrow> string \<Rightarrow> string \<Rightarrow> int + string" where
  "k_path_resolve rs path cwd =
     (if cur path = NUL then Inl K_EINVAL
      else if cur path = CHR ''@'' then
        (case root_name (tl path) [] of
           Inl e \<Rightarrow> Inl e
         | Inr (name, rest) \<Rightarrow>
             (case find (\<lambda>r. str_eq name (fst r)) rs of
                None \<Rightarrow> Inl K_ENOENT
              | Some r \<Rightarrow>
                  let out = str_copy [SLASH] (snd r) K_PATH_BYTES in
                  resolve_loop True (length out) rest out 0))
      else if cur path \<noteq> SLASH then
        if cur cwd \<noteq> SLASH \<or> str_len cwd \<ge> K_PATH_BYTES then Inl K_EINVAL
        else resolve_loop False 1 path (str_copy [SLASH] cwd K_PATH_BYTES) 0
      else resolve_loop False 1 path [SLASH] 0)"

definition root_char :: "char \<Rightarrow> bool" where
  "root_char c \<longleftrightarrow> (let x = of_char c :: nat in
     (97 \<le> x \<and> x \<le> 122) \<or> (65 \<le> x \<and> x \<le> 90) \<or> (48 \<le> x \<and> x \<le> 57) \<or> c = CHR ''_'' \<or> c = CHR ''-'')"

definition k_root_bind :: "nat \<Rightarrow> string \<Rightarrow> string \<Rightarrow> roots \<Rightarrow> int \<times> roots" where
  "k_root_bind cpu name path rs =
     (if cpu \<noteq> 0 then (K_EPERM, rs)
      else if cur name = NUL \<or> str_len name > 31 \<or> cur path \<noteq> SLASH then (K_EINVAL, rs)
      else if \<not> list_all root_char (take (str_len name) name) then (K_EINVAL, rs)
      else case k_path_resolve rs path [SLASH] of
        Inl e \<Rightarrow> (e, rs)
      | Inr normalized \<Rightarrow>
          (case find (\<lambda>r. str_eq name (fst r)) rs of
             Some r \<Rightarrow> (if str_eq normalized (snd r) then 0 else K_EEXIST, rs)
           | None \<Rightarrow>
               if length rs = MAX_ROOTS then (K_E2BIG, rs)
               else (0, rs @ [(str_copy [] name 32, str_copy [] normalized K_PATH_BYTES)])))"

section \<open>Reference: paths as lists of components\<close>

function comps :: "string \<Rightarrow> string list" where
  "comps [] = []"
| "comps (c # p) = (if c = SLASH then comps p
     else takeWhile (\<lambda>x. x \<noteq> SLASH) (c # p) # comps (dropWhile (\<lambda>x. x \<noteq> SLASH) p))"
  by pat_completeness auto
termination
  by (relation "measure length") (auto simp: le_imp_less_Suc length_dropWhile_le)

definition render :: "string list \<Rightarrow> string" where
  "render cs = (if cs = [] then [SLASH] else concat (map (\<lambda>c. SLASH # c) cs))"

definition name_ok :: "string \<Rightarrow> bool" where
  "name_ok c \<longleftrightarrow> length c \<le> K_NAME_MAX \<and> (\<forall>x\<in>set c. 32 \<le> (of_char x :: nat) \<and> (of_char x :: nat) \<le> 126)"

definition good_name :: "string \<Rightarrow> bool" where
  "good_name c \<longleftrightarrow> name_ok c \<and> c \<noteq> [] \<and> c \<noteq> ''.'' \<and> c \<noteq> ''..'' \<and> SLASH \<notin> set c"

fun walk :: "bool \<Rightarrow> nat \<Rightarrow> string list \<Rightarrow> string list \<Rightarrow> int + string list" where
  "walk named depth [] st = Inr st"
| "walk named depth (c # cs) st =
     (if \<not> name_ok c then Inl K_EINVAL
      else if c = ''.'' then walk named depth cs st
      else if c = ''..'' then
        if length st \<le> depth then if named then Inl K_EPERM else walk named depth cs st
        else walk named depth cs (butlast st)
      else if length (render (st @ [c])) \<ge> K_PATH_BYTES then Inl K_E2BIG
      else walk named depth cs (st @ [c]))"

text \<open>A canonical path: the rendering of proper names that fits the buffer.\<close>

definition canonical_path :: "string list \<Rightarrow> bool" where
  "canonical_path cs \<longleftrightarrow> (\<forall>c\<in>set cs. good_name c) \<and> length (render cs) < K_PATH_BYTES"

section \<open>The reader of a component\<close>

lemma path_comp_eq:
  assumes "cstr p" "length acc \<le> K_NAME_MAX"
  shows "path_comp p acc =
    (if length acc + length (takeWhile (\<lambda>x. x \<noteq> SLASH) p) \<le> K_NAME_MAX \<and>
        (\<forall>x\<in>set (takeWhile (\<lambda>x. x \<noteq> SLASH) p). 32 \<le> (of_char x :: nat) \<and> (of_char x :: nat) \<le> 126)
     then Inr (acc @ takeWhile (\<lambda>x. x \<noteq> SLASH) p, dropWhile (\<lambda>x. x \<noteq> SLASH) p) else Inl K_EINVAL)"
  using assms
proof (induction p arbitrary: acc)
  case Nil
  then show ?case by (simp add: path_comp.simps[of "[]"])
next
  case (Cons c p)
  show ?case
  proof (cases "c = SLASH \<or> 32 > (of_char c :: nat) \<or> (of_char c :: nat) > 126 \<or> length acc + 1 > K_NAME_MAX")
    case True
    then show ?thesis using Cons.prems by (auto simp: path_comp.simps[of "c # p"] Let_def)
  next
    case False
    then have "path_comp (c # p) acc = path_comp p (acc @ [c])" using Cons.prems
      by (simp add: path_comp.simps[of "c # p"] Let_def)
    also have "\<dots> = (if length (acc @ [c]) + length (takeWhile (\<lambda>x. x \<noteq> SLASH) p) \<le> K_NAME_MAX \<and>
        (\<forall>x\<in>set (takeWhile (\<lambda>x. x \<noteq> SLASH) p). 32 \<le> (of_char x :: nat) \<and> (of_char x :: nat) \<le> 126)
     then Inr ((acc @ [c]) @ takeWhile (\<lambda>x. x \<noteq> SLASH) p, dropWhile (\<lambda>x. x \<noteq> SLASH) p) else Inl K_EINVAL)"
      using Cons.prems False by (intro Cons.IH) auto
    finally show ?thesis using False by simp
  qed
qed

lemma path_comp_name:
  "cstr p \<Longrightarrow> path_comp p [] = (if name_ok (takeWhile (\<lambda>x. x \<noteq> SLASH) p)
     then Inr (takeWhile (\<lambda>x. x \<noteq> SLASH) p, dropWhile (\<lambda>x. x \<noteq> SLASH) p) else Inl K_EINVAL)"
  by (simp add: path_comp_eq name_ok_def)

section \<open>Rendering\<close>

lemma render_Nil [simp]: "render [] = [SLASH]" by (simp add: render_def)

lemma render_snoc: "render (st @ [c]) = (if st = [] then [] else render st) @ SLASH # c"
  by (simp add: render_def)

lemma render_nonempty [simp]: "render st \<noteq> []" "0 < length (render st)"
  by (auto simp: render_def)

lemma render_longer: "\<forall>c\<in>set st. good_name c \<Longrightarrow> st \<noteq> [] \<Longrightarrow> 1 < length (render st)"
  by (cases st rule: rev_cases) (auto simp: render_snoc good_name_def)

lemma render_mono: "\<forall>c\<in>set (st @ suf). good_name c \<Longrightarrow> suf \<noteq> [] \<Longrightarrow> length (render st) < length (render (st @ suf))"
proof (induction suf rule: rev_induct)
  case (snoc c suf)
  have r: "render (st @ suf @ [c]) = (if st @ suf = [] then [] else render (st @ suf)) @ SLASH # c"
    using render_snoc[of "st @ suf" c] by simp
  have c: "c \<noteq> []" using snoc.prems by (simp add: good_name_def)
  show ?case
  proof (cases "suf = []")
    case True
    then show ?thesis using r c by (cases "st = []") auto
  next
    case False
    then have "length (render st) < length (render (st @ suf))" using snoc by auto
    then show ?thesis using r False by simp
  qed
qed simp

lemma push_render:
  assumes "canonical_path st" "good_name c"
  shows "path_push (render st) c = (if length (render (st @ [c])) \<ge> K_PATH_BYTES then Inl K_E2BIG else Inr (render (st @ [c])))"
proof (cases "st = []")
  case True
  moreover have "render [c] = SLASH # c" by (simp add: render_def)
  ultimately show ?thesis by (auto simp: path_push_def K_PATH_BYTES_def)
next
  case False
  then have "1 < length (render st)" "length (render st) < K_PATH_BYTES"
    using assms render_longer by (auto simp: canonical_path_def)
  then show ?thesis using False by (auto simp: path_push_def render_snoc)
qed

lemma last_slash_scan:
  assumes "SLASH \<notin> set c" "k \<le> length c"
  shows "last_slash (pre @ SLASH # c) (length pre + 1 + k) = length pre + 1"
  using assms(2)
proof (induction k)
  case 0
  then show ?case by (simp add: nth_append)
next
  case (Suc k)
  have "(pre @ SLASH # c) ! (length pre + 1 + k) = c ! k" by (simp add: nth_append)
  moreover have "c ! k \<noteq> SLASH" using assms(1) Suc.prems by (metis Suc_le_lessD nth_mem)
  ultimately show ?case using Suc by simp
qed

lemma up_render:
  assumes good: "\<forall>c\<in>set (root @ suf). good_name c"
  shows "path_up named (length (render root)) (render (root @ suf)) =
    (if suf = [] then if named then Inl K_EPERM else Inr (render root) else Inr (render (root @ butlast suf)))"
proof (cases suf rule: rev_cases)
  case Nil
  then show ?thesis by (simp add: path_up_def)
next
  case (snoc pre c)
  let ?st = "root @ pre"
  have out: "render (root @ suf) = (if ?st = [] then [] else render ?st) @ SLASH # c"
    using render_snoc[of ?st c] snoc by simp
  have longer: "length (render root) < length (render (root @ suf))" using render_mono[of root suf] good snoc by simp
  have c: "SLASH \<notin> set c" "c \<noteq> []" using good snoc by (auto simp: good_name_def)
  have ls: "last_slash (render (root @ suf)) (length (render (root @ suf))) = (if ?st = [] then 1 else length (render ?st) + 1)"
    using last_slash_scan[OF c(1) order_refl, of "if ?st = [] then [] else render ?st"] unfolding out by simp
  have le: "length (render root) \<le> length (render ?st)"
    using render_mono[of root pre] good snoc by (cases "pre = []") auto
  show ?thesis
  proof (cases "?st = []")
    case True
    then have "path_up named (length (render root)) (render (root @ suf)) = Inr (take 1 (render (root @ suf)))"
      using longer ls by (simp add: path_up_def Let_def)
    then show ?thesis using True out snoc by simp
  next
    case False
    then have "path_up named (length (render root)) (render (root @ suf)) = Inr (take (length (render ?st)) (render (root @ suf)))"
      using longer ls le by (simp add: path_up_def Let_def)
    then show ?thesis using False out snoc by simp
  qed
qed

section \<open>The loop against the reference\<close>

lemma cstr_dropWhile: "cstr p \<Longrightarrow> cstr (dropWhile P p)"
  by (auto simp: cstr_def dest: set_dropWhileD)

lemma comps_nonempty: "c \<in> set (comps p) \<Longrightarrow> c \<noteq> [] \<and> SLASH \<notin> set c"
  by (induction p rule: comps.induct) (auto split: if_splits dest: set_takeWhileD)

lemma resolve_loop_ref:
  assumes "cstr path" "scanned + length path \<le> 4096" "canonical_path (root @ suf)"
  shows "resolve_loop named (length (render root)) path (render (root @ suf)) scanned =
    map_sum id render (walk named (length root) (comps path) (root @ suf))"
  using assms
proof (induction "length path" arbitrary: path suf scanned rule: less_induct)
  case less
  show ?case
  proof (cases path)
    case Nil
    then show ?thesis by (simp add: resolve_loop.simps[of named "length (render root)" "[]"])
  next
    case (Cons c p)
    have c0: "c \<noteq> NUL" "cstr p" using less.prems(1) Cons by simp_all
    have sc: "\<not> Suc scanned > 4096" using less.prems(2) Cons by simp
    note eq = resolve_loop.simps[of named "length (render root)" path "render (root @ suf)" scanned]
    show ?thesis
    proof (cases "c = SLASH")
      case True
      then have "resolve_loop named (length (render root)) path (render (root @ suf)) scanned =
          resolve_loop named (length (render root)) p (render (root @ suf)) (Suc scanned)"
        unfolding eq using Cons c0 sc by simp
      also have "\<dots> = map_sum id render (walk named (length root) (comps p) (root @ suf))"
        using less.hyps[of p] less.prems Cons c0 by simp
      finally show ?thesis using True Cons by simp
    next
      case False
      let ?n = "takeWhile (\<lambda>x. x \<noteq> SLASH) path" and ?r = "dropWhile (\<lambda>x. x \<noteq> SLASH) p"
      have r: "dropWhile (\<lambda>x. x \<noteq> SLASH) path = ?r" "?n = c # takeWhile (\<lambda>x. x \<noteq> SLASH) p" using Cons False by simp_all
      have cs: "comps path = ?n # comps ?r" using Cons False by simp
      have len: "length ?r < length path" using Cons by (simp add: le_imp_less_Suc length_dropWhile_le)
      have IH: "resolve_loop named (length (render root)) ?r (render (root @ suf')) (Suc scanned) =
          map_sum id render (walk named (length root) (comps ?r) (root @ suf'))" if "canonical_path (root @ suf')" for suf'
        using less.hyps[OF len] that less.prems(2) len c0(2) by (simp add: cstr_dropWhile)
      have pc: "path_comp path [] = (if name_ok ?n then Inr (?n, ?r) else Inl K_EINVAL)"
        using path_comp_name[OF less.prems(1)] r(1) by simp
      have eq2: "resolve_loop named (length (render root)) path (render (root @ suf)) scanned =
        (if \<not> name_ok ?n then Inl K_EINVAL
         else if ?n = ''.'' then resolve_loop named (length (render root)) ?r (render (root @ suf)) (Suc scanned)
         else case (if ?n = ''..'' then path_up named (length (render root)) (render (root @ suf)) else path_push (render (root @ suf)) ?n) of
            Inl e \<Rightarrow> Inl e
          | Inr out \<Rightarrow> resolve_loop named (length (render root)) ?r out (Suc scanned))"
        unfolding eq pc using Cons c0 sc False by simp
      have can: "\<forall>c\<in>set (root @ suf). good_name c" using less.prems(3) by (simp add: canonical_path_def)
      have canb: "canonical_path (root @ butlast suf)"
      proof (cases suf rule: rev_cases)
        case (snoc pre x)
        have "length (render (root @ pre)) < length (render ((root @ pre) @ [x]))"
          using can snoc by (intro render_mono) auto
        then show ?thesis using less.prems(3) snoc by (auto simp: canonical_path_def)
      qed (use less.prems(3) in simp)
      show ?thesis
      proof (cases "name_ok ?n \<and> ?n \<noteq> ''.''")
        case False
        then show ?thesis unfolding eq2 cs using IH[OF less.prems(3)] by auto
      next
        case ok: True
        show ?thesis
        proof (cases "?n = ''..''")
          case True
          then show ?thesis unfolding eq2 cs using ok IH[OF canb] IH[OF less.prems(3)] up_render[OF can, of named]
            by (cases "suf = []") (auto simp: butlast_append)
        next
          case nn: False
          have gn: "good_name ?n" using ok nn r(2) comps_nonempty[of ?n path] cs by (auto simp: good_name_def)
          have push: "path_push (render (root @ suf)) ?n =
              (if length (render ((root @ suf) @ [?n])) \<ge> K_PATH_BYTES then Inl K_E2BIG else Inr (render ((root @ suf) @ [?n])))"
            by (rule push_render[OF less.prems(3) gn])
          have "canonical_path (root @ (suf @ [?n]))" if "\<not> length (render ((root @ suf) @ [?n])) \<ge> K_PATH_BYTES"
            using that can gn by (auto simp: canonical_path_def)
          then show ?thesis unfolding eq2 cs using ok nn push IH[of "suf @ [?n]"] by auto
        qed
      qed
    qed
  qed
qed

lemma walk_canonical:
  "walk named (length root) cs (root @ suf) = Inr st \<Longrightarrow> canonical_path (root @ suf) \<Longrightarrow> (\<forall>c\<in>set cs. c \<noteq> [] \<and> SLASH \<notin> set c) \<Longrightarrow>
   canonical_path st \<and> (\<exists>suf'. st = root @ suf')"
proof (induction cs arbitrary: suf)
  case Nil
  then show ?case by auto
next
  case (Cons c cs)
  show ?case
  proof (cases "c = ''.'' \<or> (c = ''..'' \<and> suf = [])")
    case True
    then show ?thesis using Cons.prems Cons.IH[of suf] by (auto split: if_splits)
  next
    case False
    show ?thesis
    proof (cases "c = ''..''")
      case True
      with False obtain pre x where suf: "suf = pre @ [x]" by (metis rev_exhaust)
      have "length (render (root @ pre)) < length (render ((root @ pre) @ [x]))"
        using Cons.prems(2) suf by (intro render_mono) (auto simp: canonical_path_def)
      then have "canonical_path (root @ pre)" using Cons.prems(2) suf by (auto simp: canonical_path_def)
      moreover have "walk named (length root) cs (root @ pre) = Inr st"
        using Cons.prems(1) True suf by (auto simp: butlast_append split: if_splits)
      ultimately show ?thesis using Cons.IH[of pre] Cons.prems(3) by simp
    next
      case nn: False
      have w: "walk named (length root) cs (root @ (suf @ [c])) = Inr st" "name_ok c" "length (render (root @ suf @ [c])) < K_PATH_BYTES"
        using Cons.prems(1) False nn by (auto split: if_splits)
      then have "canonical_path (root @ (suf @ [c]))"
        using Cons.prems(2,3) False nn by (auto simp: canonical_path_def good_name_def)
      then show ?thesis using Cons.IH[OF w(1)] Cons.prems(3) by simp
    qed
  qed
qed

lemma cstr_render: "canonical_path cs \<Longrightarrow> cstr (render cs)"
proof -
  assume "canonical_path cs"
  then have "\<forall>c\<in>set cs. NUL \<notin> set c" by (fastforce simp: canonical_path_def good_name_def name_ok_def)
  then show ?thesis by (auto simp: cstr_def render_def)
qed

lemma copy_render: "canonical_path cs \<Longrightarrow> str_copy d (render cs) K_PATH_BYTES = render cs"
  by (intro str_copy_fits cstr_render) (auto simp: canonical_path_def)

lemma cur_render: "cur (render cs) = SLASH"
  by (cases cs) (simp_all add: render_def)

lemma root_name_eq:
  assumes "cstr p" "length acc \<le> 31"
  shows "root_name p acc = (if length acc + length (takeWhile (\<lambda>x. x \<noteq> SLASH) p) > 31 then Inl K_E2BIG
     else Inr (acc @ takeWhile (\<lambda>x. x \<noteq> SLASH) p, dropWhile (\<lambda>x. x \<noteq> SLASH) p))"
  using assms
proof (induction p arbitrary: acc)
  case Nil
  then show ?case by (simp add: root_name.simps[of "[]"])
next
  case (Cons c p)
  show ?case
  proof (cases "c = SLASH \<or> length acc = 31")
    case True
    then show ?thesis using Cons.prems by (auto simp: root_name.simps[of "c # p"])
  next
    case False
    then have "root_name (c # p) acc = root_name p (acc @ [c])" using Cons.prems by (simp add: root_name.simps[of "c # p"])
    then show ?thesis using Cons.IH[of "acc @ [c]"] Cons.prems False by simp
  qed
qed

text \<open>The table of roots with component lists for the paths.\<close>

definition render_roots :: "(string \<times> string list) list \<Rightarrow> roots" where
  "render_roots rcs = map (\<lambda>(n, cs). (n, render cs)) rcs"

definition roots_ok :: "(string \<times> string list) list \<Rightarrow> bool" where
  "roots_ok rcs \<longleftrightarrow> (\<forall>(n, cs)\<in>set rcs. cstr n \<and> canonical_path cs)"

lemma find_root:
  "roots_ok rcs \<Longrightarrow> cstr nm \<Longrightarrow>
   find (\<lambda>r. str_eq nm (fst r)) (render_roots rcs) = map_option (\<lambda>cs. (nm, render cs)) (map_of rcs nm)"
  by (induction rcs) (auto simp: roots_ok_def render_roots_def)

text \<open>
  The reference for \<open>k_path_resolve\<close>: a path is a list of components, a directory is a stack of
  names, and the result is where the walk ends.
\<close>

definition resolve_ref :: "(string \<times> string list) list \<Rightarrow> string \<Rightarrow> string list \<Rightarrow> int + string list" where
  "resolve_ref rcs path wd =
     (if path = [] then Inl K_EINVAL
      else if hd path = CHR ''@'' then
        let nm = takeWhile (\<lambda>x. x \<noteq> SLASH) (tl path) in
        if length nm > 31 then Inl K_E2BIG
        else case map_of rcs nm of
          None \<Rightarrow> Inl K_ENOENT
        | Some rc \<Rightarrow> walk True (length rc) (comps (dropWhile (\<lambda>x. x \<noteq> SLASH) (tl path))) rc
      else walk False 0 (comps path) (if hd path = SLASH then [] else wd))"

lemma path_resolve_ref:
  assumes p: "cstr path" "length path \<le> 4096" and wd: "canonical_path wd" and rs: "roots_ok rcs"
  shows "k_path_resolve (render_roots rcs) path (render wd) = map_sum id render (resolve_ref rcs path wd)"
proof (cases path)
  case Nil
  then show ?thesis by (simp add: k_path_resolve_def resolve_ref_def)
next
  case (Cons c q)
  have c: "c \<noteq> NUL" "cstr q" "length q < 4096" using p Cons by simp_all
  show ?thesis
  proof (cases "c = CHR ''@''")
    case True
    let ?nm = "takeWhile (\<lambda>x. x \<noteq> SLASH) q" and ?rest = "dropWhile (\<lambda>x. x \<noteq> SLASH) q"
    have nm: "cstr ?nm" "cstr ?rest" using c(2) by (auto simp: cstr_def dest: set_takeWhileD set_dropWhileD)
    have len: "length ?rest \<le> 4096" using c(3) length_dropWhile_le[of "\<lambda>x. x \<noteq> SLASH" q] by linarith
    note f = find_root[OF rs nm(1)]
    show ?thesis
    proof (cases "length ?nm > 31 \<or> map_of rcs ?nm = None")
      case bad: True
      then show ?thesis using Cons True c root_name_eq[OF c(2), of "[]"] f
        by (auto simp: k_path_resolve_def resolve_ref_def Let_def)
    next
      case False
      then obtain rc where rc: "map_of rcs ?nm = Some rc" by auto
      have can: "canonical_path rc" using rs map_of_SomeD[OF rc] by (auto simp: roots_ok_def)
      have "k_path_resolve (render_roots rcs) path (render wd) = resolve_loop True (length (render rc)) ?rest (render rc) 0"
        using Cons True c root_name_eq[OF c(2), of "[]"] f rc False copy_render[OF can]
        by (simp add: k_path_resolve_def Let_def)
      also have "\<dots> = map_sum id render (walk True (length rc) (comps ?rest) rc)"
        using resolve_loop_ref[OF nm(2), of 0 rc "[]" True] len can by simp
      finally show ?thesis using Cons True rc False by (simp add: resolve_ref_def)
    qed
  next
    case False
    have "length (render wd) < K_PATH_BYTES" using wd by (simp add: canonical_path_def)
    then have "\<not> str_len (render wd) \<ge> K_PATH_BYTES" using cstr_render[OF wd] by simp
    then have "k_path_resolve (render_roots rcs) path (render wd) =
        resolve_loop False 1 path (render (if c = SLASH then [] else wd)) 0"
      using Cons False c cur_render[of wd] copy_render[OF wd] by (simp add: k_path_resolve_def)
    also have "\<dots> = map_sum id render (walk False 0 (comps path) (if c = SLASH then [] else wd))"
      using resolve_loop_ref[of path 0 "[]" "if c = SLASH then [] else wd" False] p wd
      by (simp add: canonical_path_def K_PATH_BYTES_def split: if_splits)
    finally show ?thesis using Cons False by (simp add: resolve_ref_def)
  qed
qed

text \<open>
  C33. Path resolution computes the walk over components. For every path of at most 4096 characters,
  every canonical working directory and every table of canonical roots, \<open>k_path_resolve\<close>, which works
  in place on one character buffer, returns exactly what the reference on lists of components
  returns: the same error, or the rendering of the same stack of names.
\<close>

theorem path_resolve_equiv:
  assumes "cstr path" "length path \<le> 4096" "canonical_path wd" "roots_ok rcs"
  shows "k_path_resolve (render_roots rcs) path (render wd) = map_sum id render (resolve_ref rcs path wd)"
  using assms by (rule path_resolve_ref)

lemma path_resolve_canonical:
  assumes "cstr path" "length path \<le> 4096" "canonical_path wd" "roots_ok rcs"
    and "k_path_resolve (render_roots rcs) path (render wd) = Inr out"
  shows "\<exists>cs. out = render cs \<and> canonical_path cs \<and>
    (hd path = CHR ''@'' \<longrightarrow>
      (\<exists>rc suf. map_of rcs (takeWhile (\<lambda>x. x \<noteq> SLASH) (tl path)) = Some rc \<and> cs = rc @ suf))"
proof -
  have e: "canonical_path []" by (simp add: canonical_path_def K_PATH_BYTES_def)
  obtain st where st: "resolve_ref rcs path wd = Inr st" "out = render st"
    using assms(5) path_resolve_ref[OF assms(1-4)] by (cases "resolve_ref rcs path wd") auto
  show ?thesis
  proof (cases "hd path = CHR ''@''")
    case True
    then obtain rc where rc: "map_of rcs (takeWhile (\<lambda>x. x \<noteq> SLASH) (tl path)) = Some rc"
      "walk True (length rc) (comps (dropWhile (\<lambda>x. x \<noteq> SLASH) (tl path))) (rc @ []) = Inr st"
      using st(1) by (auto simp: resolve_ref_def Let_def split: if_splits option.splits)
    have "canonical_path (rc @ [])" using assms(4) map_of_SomeD[OF rc(1)] by (auto simp: roots_ok_def)
    from walk_canonical[OF rc(2) this] comps_nonempty rc(1) st(2) show ?thesis by blast
  next
    case False
    then have "walk False (length []) (comps path) ([] @ (if hd path = SLASH then [] else wd)) = Inr st"
      using st(1) by (auto simp: resolve_ref_def split: if_splits)
    from walk_canonical[OF this] comps_nonempty e assms(3) False st(2) show ?thesis by (auto split: if_splits)
  qed
qed

text \<open>
  C5. Resolution is canonical and confined. Whatever the path says, a successful result is an
  absolute path that fits the buffer and whose components are non-empty printable names without
  slash, none of them \<open>.\<close> or \<open>..\<close>; and a path through a named root ends at that root or below it:
  no sequence of \<open>..\<close> leaves it.
\<close>

theorem path_resolve_confined:
  assumes "cstr path" "length path \<le> 4096" "canonical_path wd" "roots_ok rcs"
    and "k_path_resolve (render_roots rcs) path (render wd) = Inr out"
  shows "\<exists>cs. out = render cs \<and> canonical_path cs \<and>
    (hd path = CHR ''@'' \<longrightarrow>
      (\<exists>rc suf. map_of rcs (takeWhile (\<lambda>x. x \<noteq> SLASH) (tl path)) = Some rc \<and> cs = rc @ suf))"
  using assms by (rule path_resolve_canonical)

lemma ex_path_ok: "cstr ''@sys/a/../b//c/.''" "canonical_path [''tmp'']" "roots_ok [(''sys'', [''system'', ''v1''])]"
  by (simp_all add: canonical_path_def roots_ok_def good_name_def name_ok_def K_NAME_MAX_def K_PATH_BYTES_def render_def)

theorem path_resolve_equiv_witness:
  "k_path_resolve (render_roots [(''sys'', [''system'', ''v1''])]) ''@sys/a/../b//c/.'' (render [''tmp'']) =
   Inr ''/system/v1/b/c''"
  using path_resolve_equiv[OF ex_path_ok(1) _ ex_path_ok(2,3)]
  by (simp add: resolve_ref_def name_ok_def K_NAME_MAX_def K_PATH_BYTES_def render_def)

theorem path_resolve_confined_witness:
  "\<exists>cs. ''/system/v1/b/c'' = render cs \<and> canonical_path cs"
proof -
  have "k_path_resolve (render_roots [(''sys'', [''system'', ''v1''])]) ''@sys/a/../b//c/.'' (render [''tmp'']) =
      Inr ''/system/v1/b/c''"
    using path_resolve_ref[OF ex_path_ok(1) _ ex_path_ok(2,3)]
    by (simp add: resolve_ref_def name_ok_def K_NAME_MAX_def K_PATH_BYTES_def render_def)
  from path_resolve_confined[OF ex_path_ok(1) _ ex_path_ok(2,3) this] show ?thesis by auto
qed

end
