(* ===== verification/Storage.thy ===== *)
theory Storage
  imports Pmm
begin

text \<open>
  The disk table of \<open>drivers/storage/storage.c\<close>: registration, range checks, and reads, writes and
  flushes. RAM disks are modelled down to the bytes of memory behind them. The transfers of the
  hardware drivers (NVMe, AHCI, ATA, USB) are the fields of a \<open>hw\<close> record over a device state \<open>'h\<close>;
  \<open>h_dead\<close> stands for the quarantine of a device after a failed write.
\<close>

definition DISK_NVME :: nat where "DISK_NVME = 1"
definition DISK_AHCI :: nat where "DISK_AHCI = 2"
definition DISK_ATA :: nat where "DISK_ATA = 3"
definition DISK_RAM :: nat where "DISK_RAM = 4"
definition DISK_USB :: nat where "DISK_USB = 5"
definition K_MAX_DISKS :: nat where "K_MAX_DISKS = 24"

record disk =
  d_kind :: nat
  d_controller :: nat
  d_id :: nat
  d_sector_size :: nat
  d_sectors :: nat
  d_read_only :: bool
  d_online :: bool
  d_driver :: string
  d_model :: string
  d_name :: string
  d_ram :: nat
  d_flush_command :: nat

record 'h store =
  s_disks :: "nat \<Rightarrow> disk"
  s_disk_count :: nat
  s_initialized :: bool
  s_pmm :: pmm
  s_hw :: 'h

record 'h hw =
  h_read :: "disk \<Rightarrow> nat \<Rightarrow> nat \<Rightarrow> 'h \<Rightarrow> (int \<times> bytes) \<times> 'h"
  h_write :: "disk \<Rightarrow> nat \<Rightarrow> nat \<Rightarrow> bytes \<Rightarrow> 'h \<Rightarrow> int \<times> 'h"
  h_flush :: "disk \<Rightarrow> 'h \<Rightarrow> int \<times> 'h"
  h_dead :: "disk \<Rightarrow> 'h \<Rightarrow> 'h"

section \<open>Registration\<close>

text \<open>The decimal digits of a number, least significant first, as the loop of \<open>decimal_name\<close> collects them.\<close>

fun decimal_digits :: "nat \<Rightarrow> string" where
  "decimal_digits n = char_of (48 + n mod 10) # (if n div 10 = 0 then [] else decimal_digits (n div 10))"

declare decimal_digits.simps [simp del]

definition decimal_name :: "string \<Rightarrow> nat \<Rightarrow> string" where
  "decimal_name prefix n = take (str_len prefix) prefix @ rev (decimal_digits n)"

definition disk_add :: "nat \<Rightarrow> nat \<Rightarrow> nat \<Rightarrow> string \<Rightarrow> string \<Rightarrow> 'h store \<Rightarrow> nat option \<times> 'h store" where
  "disk_add kind sector_size sectors model driver s =
     (if s_disk_count s = K_MAX_DISKS \<or> sectors = 0 \<or> \<not> power2 sector_size \<or> sector_size < 512 \<or>
         sector_size > 4096 \<or> sectors > (2 ^ 64 - 1) div sector_size
      then (None, s)
      else
        let n = s_disk_count s in
        (Some n, s\<lparr>s_disks := (s_disks s)(n :=
           \<lparr>d_kind = kind, d_controller = 0, d_id = n, d_sector_size = sector_size, d_sectors = sectors,
            d_read_only = (kind \<noteq> DISK_RAM), d_online = True, d_driver = str_copy [] driver 12,
            d_model = str_copy [] model 48, d_name = decimal_name ''disk'' n, d_ram = 0, d_flush_command = 0\<rparr>)\<rparr>))"

definition disk_set :: "nat \<Rightarrow> (disk \<Rightarrow> disk) \<Rightarrow> 'h store \<Rightarrow> 'h store" where
  "disk_set i f s = s\<lparr>s_disks := (s_disks s)(i := f (s_disks s i))\<rparr>"

definition k_ramdisk_create :: "nat \<Rightarrow> nat \<Rightarrow> 'h store \<Rightarrow> (int + nat) \<times> 'h store" where
  "k_ramdisk_create cpu sectors s =
     (if sectors = 0 \<or> sectors > 8192 \<or> s_disk_count s = K_MAX_DISKS \<or> cpu \<noteq> 0 then (Inl K_EINVAL, s)
      else
        let pages = (sectors + 7) div 8 in
        case k_pmm_alloc_pages pages 0 (s_pmm s) of
          (p, pm) \<Rightarrow>
            let s = s\<lparr>s_pmm := pm\<rparr> in
            if p = 0 then (Inl K_ENOMEM, s)
            else case disk_add DISK_RAM 512 sectors ''volatile test disk'' ''ram'' s of
              (None, s) \<Rightarrow> (Inl K_ENOMEM, s\<lparr>s_pmm := k_pmm_free_pages p pages (s_pmm s)\<rparr>)
            | (Some i, s) \<Rightarrow>
                (Inr (d_id (s_disks s i)), (disk_set i (\<lambda>d. d\<lparr>d_ram := p\<rparr>) s)\<lparr>s_disk_count := s_disk_count s + 1\<rparr>))"

definition storage_attach_usb ::
  "nat \<Rightarrow> nat \<Rightarrow> nat \<Rightarrow> nat \<Rightarrow> string \<Rightarrow> bool \<Rightarrow> bool \<Rightarrow> 'h store \<Rightarrow> int \<times> 'h store" where
  "storage_attach_usb cpu instance_no sector sectors model flush uas s =
     (if \<not> s_initialized s \<or> cpu \<noteq> 0 then (K_EBUSY, s)
      else case disk_add DISK_USB sector sectors model (if uas then ''usb-uas'' else ''usb-bot'') s of
        (None, s) \<Rightarrow> (K_ENOSPC, s)
      | (Some i, s) \<Rightarrow>
          (0, (disk_set i (\<lambda>d. d\<lparr>d_controller := instance_no, d_flush_command := (if flush then 1 else 0)\<rparr>) s)
                \<lparr>s_disk_count := s_disk_count s + 1\<rparr>))"

definition storage_detach_usb :: "nat \<Rightarrow> 'h store \<Rightarrow> 'h store" where
  "storage_detach_usb instance_no s =
     s\<lparr>s_disks := (\<lambda>i. if i < s_disk_count s \<and> d_kind (s_disks s i) = DISK_USB \<and> d_controller (s_disks s i) = instance_no
        then (s_disks s i)\<lparr>d_online := False, d_read_only := True\<rparr> else s_disks s i)\<rparr>"

section \<open>Transfers\<close>

definition k_disk_get :: "nat \<Rightarrow> 'h store \<Rightarrow> int + disk" where
  "k_disk_get i s = (if i \<ge> s_disk_count s then Inl K_ENOENT else Inr (s_disks s i))"

definition disk_range :: "nat \<Rightarrow> nat \<Rightarrow> nat \<Rightarrow> nat \<Rightarrow> 'h store \<Rightarrow> int" where
  "disk_range i lba count n_bytes s =
     (if i \<ge> s_disk_count s \<or> count = 0 then K_EINVAL
      else
        let d = s_disks s i in
        if \<not> d_online d then K_EIO
        else if lba \<ge> d_sectors d \<or> count > d_sectors d - lba \<or> count * d_sector_size d > n_bytes then K_EINVAL
        else 0)"

text \<open>The bytes of a RAM disk from sector \<open>lba\<close> on.\<close>

definition ram_sectors :: "disk \<Rightarrow> nat \<Rightarrow> 'h store \<Rightarrow> bytes" where
  "ram_sectors d lba s = (\<lambda>j. ram (s_pmm s) (d_ram d + lba * d_sector_size d + j))"

definition ram_store :: "nat \<Rightarrow> bytes \<Rightarrow> nat \<Rightarrow> nat \<Rightarrow> 'h store \<Rightarrow> 'h store" where
  "ram_store a b off n s = s\<lparr>s_pmm := (s_pmm s)\<lparr>ram := put_bytes (ram (s_pmm s)) a b off n\<rparr>\<rparr>"

definition k_disk_read :: "'h hw \<Rightarrow> nat \<Rightarrow> nat \<Rightarrow> nat \<Rightarrow> nat \<Rightarrow> 'h store \<Rightarrow> (int \<times> bytes) \<times> 'h store" where
  "k_disk_read h i lba count n_bytes s =
     (let e = disk_range i lba count n_bytes s; d = s_disks s i in
      if e \<noteq> 0 then ((e, \<lambda>_. 0), s)
      else if d_kind d = DISK_NVME \<or> d_kind d = DISK_AHCI \<or> d_kind d = DISK_ATA \<or> d_kind d = DISK_USB then
        (case h_read h d lba count (s_hw s) of (r, hs) \<Rightarrow> (r, s\<lparr>s_hw := hs\<rparr>))
      else if d_kind d = DISK_RAM then ((0, ram_sectors d lba s), s)
      else ((K_ENOTSUP, \<lambda>_. 0), s))"

definition k_disk_write :: "nat \<Rightarrow> nat \<Rightarrow> nat \<Rightarrow> bytes option \<Rightarrow> nat \<Rightarrow> 'h store \<Rightarrow> int \<times> 'h store" where
  "k_disk_write i lba count data n_bytes s =
     (if i \<ge> s_disk_count s then (K_EINVAL, s)
      else if d_kind (s_disks s i) \<noteq> DISK_RAM then (K_EROFS, s)
      else case data of
        None \<Rightarrow> (K_EINVAL, s)
      | Some b \<Rightarrow>
          let e = disk_range i lba count n_bytes s in
          if e \<noteq> 0 then (e, s)
          else (0, ram_store (d_ram (s_disks s i) + lba * 512) b 0 (count * 512) s))"

definition disk_flush :: "'h hw \<Rightarrow> nat \<Rightarrow> 'h store \<Rightarrow> int \<times> 'h store" where
  "disk_flush h i s =
     (let d = s_disks s i in
      if i \<ge> s_disk_count s then (K_EINVAL, s)
      else if \<not> d_online d then (K_EIO, s)
      else if d_kind d = DISK_RAM then (0, s)
      else if d_flush_command d = 0 then (K_EROFS, s)
      else if d_kind d = DISK_USB \<or> d_kind d = DISK_NVME \<or> d_kind d = DISK_AHCI \<or> d_kind d = DISK_ATA then
        (case h_flush h d (s_hw s) of (e, hs) \<Rightarrow> (e, s\<lparr>s_hw := hs\<rparr>))
      else (K_ENOTSUP, s))"

text \<open>
  The loop of \<open>disk_write_fs\<close>: chunks of at most 4096 bytes, one sector at a time for ATA. A sector
  size of zero or above 4096 would make the chunk empty; \<open>disk_add\<close> never registers one, and the
  loop then runs for ever in the source, so that the model returns \<open>None\<close>.
\<close>

definition write_chunk :: "'h hw \<Rightarrow> disk \<Rightarrow> nat \<Rightarrow> nat \<Rightarrow> bytes \<Rightarrow> nat \<Rightarrow> 'h store \<Rightarrow> int \<times> 'h store" where
  "write_chunk h d lba sectors b off s =
     (if d_kind d = DISK_RAM then
        (0, ram_store (d_ram d + lba * d_sector_size d) b off (sectors * d_sector_size d) s)
      else if d_kind d = DISK_NVME \<or> d_kind d = DISK_AHCI \<or> d_kind d = DISK_ATA \<or> d_kind d = DISK_USB then
        (case h_write h d lba sectors (\<lambda>j. b (off + j)) (s_hw s) of (e, hs) \<Rightarrow> (e, s\<lparr>s_hw := hs\<rparr>))
      else (K_ENOTSUP, s))"

definition chunk_sectors :: "disk \<Rightarrow> nat \<Rightarrow> nat" where
  "chunk_sectors d count = (if d_kind d = DISK_ATA then 1 else min count (4096 div d_sector_size d))"

function write_loop :: "'h hw \<Rightarrow> disk \<Rightarrow> nat \<Rightarrow> nat \<Rightarrow> bytes \<Rightarrow> nat \<Rightarrow> 'h store \<Rightarrow> (int \<times> 'h store) option" where
  "write_loop h d lba count b off s =
     (if count = 0 then Some (0, s)
      else
        let n = chunk_sectors d count in
        if n = 0 then None
        else case write_chunk h d lba n b off s of
          (e, s) \<Rightarrow> if e \<noteq> 0 then Some (e, s)
                    else write_loop h d (lba + n) (count - n) b (off + n * d_sector_size d) s)"
  by pat_completeness auto
termination by (relation "measure (\<lambda>(h, d, lba, count, b, off, s). count)") auto

declare write_loop.simps [simp del]

definition disk_write_fs :: "'h hw \<Rightarrow> nat \<Rightarrow> nat \<Rightarrow> nat \<Rightarrow> bytes option \<Rightarrow> nat \<Rightarrow> 'h store \<Rightarrow> (int \<times> 'h store) option" where
  "disk_write_fs h i lba count data n_bytes s =
     (case data of
        None \<Rightarrow> Some (K_EINVAL, s)
      | Some b \<Rightarrow>
          let e = disk_range i lba count n_bytes s; d = s_disks s i in
          if e \<noteq> 0 then Some (e, s)
          else if d_kind d \<noteq> DISK_RAM \<and> d_flush_command d = 0 then Some (K_EROFS, s)
          else case write_loop h d lba count b 0 s of
            None \<Rightarrow> None
          | Some (e, s) \<Rightarrow>
              Some (e, if e \<noteq> 0 \<and> (d_kind d = DISK_NVME \<or> d_kind d = DISK_AHCI \<or> d_kind d = DISK_ATA)
                       then s\<lparr>s_hw := h_dead h d (s_hw s)\<rparr> else s))"

section \<open>The table of disks\<close>

definition disk_ok :: "disk \<Rightarrow> bool" where
  "disk_ok d \<longleftrightarrow> power2 (d_sector_size d) \<and> 512 \<le> d_sector_size d \<and> d_sector_size d \<le> 4096 \<and>
     0 < d_sectors d \<and> d_sectors d * d_sector_size d < 2 ^ 64"

definition store_inv :: "'h store \<Rightarrow> bool" where
  "store_inv s \<longleftrightarrow> s_disk_count s \<le> K_MAX_DISKS \<and> (\<forall>i < s_disk_count s. disk_ok (s_disks s i) \<and> d_id (s_disks s i) = i)"

lemma store_invD: "store_inv s \<Longrightarrow> i < s_disk_count s \<Longrightarrow> disk_ok (s_disks s i)"
  by (simp add: store_inv_def)

lemma disk_add_cases:
  assumes "disk_add kind ss n model driver s = (r, s')"
  obtains (refused) "r = None" "s' = s"
  | (added) d where "r = Some (s_disk_count s)" "s' = s\<lparr>s_disks := (s_disks s)(s_disk_count s := d)\<rparr>" "disk_ok d"
      "d_id d = s_disk_count s" "s_disk_count s \<noteq> K_MAX_DISKS" "d_kind d = kind" "d_sectors d = n" "d_sector_size d = ss"
proof (cases "s_disk_count s = K_MAX_DISKS \<or> n = 0 \<or> \<not> power2 ss \<or> ss < 512 \<or> ss > 4096 \<or> n > (2 ^ 64 - 1) div ss")
  case True
  then show thesis using assms by (intro refused) (auto simp: disk_add_def)
next
  case False
  have "n * ss \<le> ((2 ^ 64 - 1) div ss) * ss" using False by (intro mult_le_mono1) simp
  also have "\<dots> \<le> 2 ^ 64 - 1" by (rule div_times_less_eq_dividend)
  also have "\<dots> < 2 ^ 64" by simp
  finally have "n * ss < 2 ^ 64" .
  then show thesis using False assms by (intro added) (auto simp: disk_add_def Let_def disk_ok_def)
qed

lemma disk_add_inv:
  assumes "store_inv s" "disk_add kind ss n model driver s = (Some i, s')"
    and "\<And>d. disk_ok d \<Longrightarrow> disk_ok (f d)" "\<And>d. d_id (f d) = d_id d"
  shows "store_inv ((disk_set i f s')\<lparr>s_disk_count := s_disk_count s' + 1\<rparr>)"
  using assms(2)
proof (cases rule: disk_add_cases)
  case (added d)
  have "s_disk_count s < K_MAX_DISKS" using assms(1) added(5) by (simp add: store_inv_def)
  then show ?thesis using assms(1,3,4) added(1-4) by (auto simp: store_inv_def disk_set_def less_Suc_eq)
qed simp

lemma ramdisk_create_inv:
  assumes "store_inv s" "k_ramdisk_create cpu n s = (r, s')"
  shows "store_inv s'"
proof -
  obtain p pm where a: "k_pmm_alloc_pages ((n + 7) div 8) 0 (s_pmm s) = (p, pm)" by fastforce
  obtain ri s1 where d: "disk_add DISK_RAM 512 n ''volatile test disk'' ''ram'' (s\<lparr>s_pmm := pm\<rparr>) = (ri, s1)" by fastforce
  have i: "store_inv (s\<lparr>s_pmm := pm\<rparr>)" using assms(1) by (simp add: store_inv_def)
  have n: "ri = None \<Longrightarrow> s1 = s\<lparr>s_pmm := pm\<rparr>" using d by (auto elim: disk_add_cases)
  show ?thesis using assms n i a d disk_add_inv[OF i d[THEN trans], of _ s1 "\<lambda>d. d\<lparr>d_ram := p\<rparr>"]
    by (auto simp: k_ramdisk_create_def Let_def store_inv_def disk_ok_def split: if_splits option.splits)
qed

lemma storage_attach_inv: "store_inv s \<Longrightarrow> storage_attach_usb cpu u ss n model fl uas s = (e, s') \<Longrightarrow> store_inv s'"
proof -
  assume i: "store_inv s" and a: "storage_attach_usb cpu u ss n model fl uas s = (e, s')"
  obtain ri s1 where d: "disk_add DISK_USB ss n model (if uas then ''usb-uas'' else ''usb-bot'') s = (ri, s1)" by fastforce
  have n: "ri = None \<Longrightarrow> s1 = s" using d by (auto elim: disk_add_cases)
  show ?thesis
  proof (cases ri)
    case None
    then show ?thesis using a i d n by (auto simp: storage_attach_usb_def split: if_splits)
  next
    case (Some j)
    from disk_add_inv[OF i d[unfolded Some], of "\<lambda>d. d\<lparr>d_controller := u, d_flush_command := (if fl then 1 else 0)\<rparr>"]
    show ?thesis using a i d Some by (auto simp: storage_attach_usb_def disk_ok_def split: if_splits)
  qed
qed

section \<open>Writes\<close>

lemma put_bytes_append: "put_bytes (put_bytes m a b off n) (a + n) b (off + n) k = put_bytes m a b off (n + k)"
  by (rule ext) (auto simp: put_bytes_apply)

lemma ram_store_append: "ram_store (a + n) b (off + n) k (ram_store a b off n s) = ram_store a b off (n + k) s"
  by (simp add: ram_store_def put_bytes_append)

lemma chunk_pos: "disk_ok d \<Longrightarrow> 0 < count \<Longrightarrow> 0 < chunk_sectors d count \<and> chunk_sectors d count \<le> count"
  by (auto simp: chunk_sectors_def disk_ok_def div_greater_zero_iff)

lemma write_loop_total: "disk_ok d \<Longrightarrow> \<exists>r. write_loop h d lba count b off s = Some r"
proof (induction h d lba count b off s rule: write_loop.induct)
  case (1 h d lba count b off s)
  obtain e s1 where w: "write_chunk h d lba (chunk_sectors d count) b off s = (e, s1)" by fastforce
  show ?case
  proof (cases "count = 0")
    case False
    then have "chunk_sectors d count \<noteq> 0" using chunk_pos[of d count] "1.prems" by simp
    then show ?thesis using "1.IH"[OF False refl _ w[symmetric]] "1.prems" False w
      by (auto simp: write_loop.simps[of h d lba count b off s] Let_def)
  qed (simp add: write_loop.simps)
qed

lemma write_loop_ram:
  assumes "d_kind d = DISK_RAM" "disk_ok d"
  shows "write_loop h d lba count b off s =
    Some (0, ram_store (d_ram d + lba * d_sector_size d) b off (count * d_sector_size d) s)"
proof (induction count arbitrary: lba off s rule: less_induct)
  case (less count)
  let ?ss = "d_sector_size d"
  show ?case
  proof (cases "count = 0")
    case True
    have "ram_store a b off 0 s = s" for a by (simp add: ram_store_def put_bytes_def)
    then show ?thesis using True by (simp add: write_loop.simps[of h d lba 0 b off s])
  next
    case False
    define n where "n = chunk_sectors d count"
    have n: "0 < n" "n \<le> count" using chunk_pos[OF assms(2)] False by (simp_all add: n_def)
    let ?s1 = "ram_store (d_ram d + lba * ?ss) b off (n * ?ss) s"
    have "write_loop h d lba count b off s = write_loop h d (lba + n) (count - n) b (off + n * ?ss) ?s1"
      using False n assms(1) by (simp add: write_loop.simps[of h d lba count b off s] Let_def n_def[symmetric] write_chunk_def)
    also have "\<dots> = Some (0, ram_store (d_ram d + (lba + n) * ?ss) b (off + n * ?ss) ((count - n) * ?ss) ?s1)"
      using n False by (intro less.IH) simp
    also have "ram_store (d_ram d + (lba + n) * ?ss) b (off + n * ?ss) ((count - n) * ?ss) ?s1 =
        ram_store (d_ram d + lba * ?ss) b off (n * ?ss + (count - n) * ?ss) s"
      using ram_store_append[of "d_ram d + lba * ?ss" "n * ?ss" b off "(count - n) * ?ss" s]
      by (simp add: add_mult_distrib add.assoc)
    also have "n * ?ss + (count - n) * ?ss = count * ?ss" using n(2) by (simp flip: add_mult_distrib)
    finally show ?thesis .
  qed
qed

text \<open>
  C38. Writing always ends. With the disk table the registration code builds (every sector size a
  power of two from 512 to 4096) the chunked loop of \<open>disk_write_fs\<close> never makes an empty step: for
  every disk kind, range, buffer and behaviour of the hardware the call returns.
\<close>

theorem disk_write_terminates:
  assumes "store_inv s"
  shows "\<exists>e s'. disk_write_fs h i lba count data n_bytes s = Some (e, s')"
proof (cases "data = None \<or> disk_range i lba count n_bytes s \<noteq> 0 \<or> (d_kind (s_disks s i) \<noteq> DISK_RAM \<and> d_flush_command (s_disks s i) = 0)")
  case True
  then show ?thesis by (cases data) (auto simp: disk_write_fs_def Let_def)
next
  case False
  then obtain b where b: "data = Some b" by auto
  have "i < s_disk_count s" using False by (auto simp: disk_range_def split: if_splits)
  then have "disk_ok (s_disks s i)" by (rule store_invD[OF assms])
  then obtain r where "write_loop h (s_disks s i) lba count b 0 s = Some r" using write_loop_total by blast
  then show ?thesis using False b by (cases r) (auto simp: disk_write_fs_def Let_def)
qed

text \<open>
  A RAM disk keeps what is written. A file-system write of a range inside a RAM disk succeeds;
  reading the range back returns exactly the bytes written, and every byte of memory outside the
  range, hence every other sector, is unchanged.
\<close>

theorem ramdisk_roundtrip:
  assumes inv: "store_inv s" and i: "i < s_disk_count s" and d: "d = s_disks s i" "d_kind d = DISK_RAM" "d_online d"
    and r: "0 < count" "lba + count \<le> d_sectors d"
  shows "\<exists>s'. disk_write_fs h i lba count (Some b) (count * d_sector_size d) s = Some (0, s') \<and>
    (\<exists>b'. k_disk_read h i lba count (count * d_sector_size d) s' = ((0, b'), s') \<and> (\<forall>j < count * d_sector_size d. b' j = b j)) \<and>
    (\<forall>a. a < d_ram d + lba * d_sector_size d \<or> d_ram d + (lba + count) * d_sector_size d \<le> a \<longrightarrow>
       ram (s_pmm s') a = ram (s_pmm s) a)"
proof -
  let ?ss = "d_sector_size d" and ?a = "d_ram d + lba * d_sector_size d"
  let ?s = "ram_store ?a b 0 (count * ?ss) s"
  have "disk_range i lba count (count * ?ss) s = 0" using i d r by (simp add: disk_range_def Let_def)
  moreover have "disk_ok d" using store_invD[OF inv i] d(1) by simp
  ultimately have w: "disk_write_fs h i lba count (Some b) (count * ?ss) s = Some (0, ?s)"
    using d write_loop_ram[OF d(2), of h lba count b 0 s] by (simp add: disk_write_fs_def Let_def)
  have same: "s_disks ?s = s_disks s" "s_disk_count ?s = s_disk_count s" by (simp_all add: ram_store_def)
  have ram': "ram (s_pmm ?s) = put_bytes (ram (s_pmm s)) ?a b 0 (count * ?ss)" by (simp add: ram_store_def)
  have "k_disk_read h i lba count (count * ?ss) ?s = ((0, ram_sectors d lba ?s), ?s)"
    using i d r same by (simp add: k_disk_read_def disk_range_def Let_def DISK_RAM_def DISK_NVME_def DISK_AHCI_def DISK_ATA_def DISK_USB_def)
  moreover have "ram_sectors d lba ?s j = b j" if "j < count * ?ss" for j
    using that by (simp add: ram_sectors_def ram' put_bytes_apply)
  moreover have "ram (s_pmm ?s) a = ram (s_pmm s) a" if "a < ?a \<or> d_ram d + (lba + count) * ?ss \<le> a" for a
    using that by (auto simp: ram' put_bytes_apply add_mult_distrib)
  ultimately show ?thesis using w by blast
qed

definition ex_store :: "unit store" where
  "ex_store = \<lparr>s_disks = (\<lambda>i. \<lparr>d_kind = DISK_RAM, d_controller = 0, d_id = i, d_sector_size = 512, d_sectors = 64,
     d_read_only = False, d_online = True, d_driver = ''ram'', d_model = [], d_name = ''disk0'', d_ram = 1048576,
     d_flush_command = 0\<rparr>), s_disk_count = 1, s_initialized = True, s_pmm = ex_pmm, s_hw = ()\<rparr>"

definition ex_hw :: "unit hw" where
  "ex_hw = \<lparr>h_read = (\<lambda>_ _ _ h. ((K_EIO, \<lambda>_. 0), h)), h_write = (\<lambda>_ _ _ _ h. (K_EIO, h)), h_flush = (\<lambda>_ h. (0, h)),
     h_dead = (\<lambda>_ h. h)\<rparr>"

lemma ex_store_inv: "store_inv ex_store"
proof -
  have "power2 512" by (simp add: power2_iff) (rule exI[of _ 9], simp)
  then show ?thesis by (simp add: store_inv_def ex_store_def K_MAX_DISKS_def disk_ok_def)
qed

theorem disk_write_terminates_witness:
  "\<exists>e s'. disk_write_fs ex_hw 0 3 9 (Some (\<lambda>_. 7)) 8192 ex_store = Some (e, s')"
  by (rule disk_write_terminates[OF ex_store_inv])

theorem ramdisk_roundtrip_witness:
  "\<exists>s' b'. disk_write_fs ex_hw 0 3 9 (Some (\<lambda>_. 7)) 4608 ex_store = Some (0, s') \<and>
     k_disk_read ex_hw 0 3 9 4608 s' = ((0, b'), s') \<and> b' 4607 = 7"
proof -
  let ?d = "s_disks ex_store 0"
  have d: "d_sector_size ?d = 512" by (simp add: ex_store_def)
  have "\<exists>s'. disk_write_fs ex_hw 0 3 9 (Some (\<lambda>_. 7)) (9 * d_sector_size ?d) ex_store = Some (0, s') \<and>
    (\<exists>b'. k_disk_read ex_hw 0 3 9 (9 * d_sector_size ?d) s' = ((0, b'), s') \<and> (\<forall>j < 9 * d_sector_size ?d. b' j = 7)) \<and>
    (\<forall>a. a < d_ram ?d + 3 * d_sector_size ?d \<or> d_ram ?d + (3 + 9) * d_sector_size ?d \<le> a \<longrightarrow>
       ram (s_pmm s') a = ram (s_pmm ex_store) a)"
    by (rule ramdisk_roundtrip[OF ex_store_inv]) (simp_all add: ex_store_def)
  then show ?thesis unfolding d by auto
qed

end
