(* ===== verification/Partition.thy ===== *)
theory Partition
  imports Storage RiefInv
begin

unbundle bit_operations_syntax

text \<open>
  Reading bytes of a disk and parsing partition tables (\<open>fs/fs.c\<close>: \<open>disk_bytes\<close>, \<open>crc_step\<close>,
  \<open>partition_add\<close>, \<open>gpt_parse\<close>, \<open>mbr_parse\<close>). A parse threads the state of the disks through its
  reads; its result is an error or the list of entries. \<open>None\<close> is the division fault a sector size
  of zero would cause.
\<close>

section \<open>Bytes of a disk\<close>

function disk_bytes_loop ::
  "(nat \<Rightarrow> nat \<Rightarrow> nat \<Rightarrow> 's \<Rightarrow> (int \<times> bytes) \<times> 's) \<Rightarrow> nat \<Rightarrow> nat \<Rightarrow> nat \<Rightarrow> bytes \<Rightarrow> nat \<Rightarrow> 's \<Rightarrow> ((int \<times> bytes) \<times> 's) option" where
  "disk_bytes_loop rd sz offset n out p s =
     (if n = 0 then Some ((0, out), s)
      else if sz = 0 then None
      else if offset mod sz = 0 \<and> n \<ge> sz then
        let sectors = min (n div sz) 128; m = sectors * sz in
        (case rd (offset div sz) sectors n s of
           ((e, b), s) \<Rightarrow>
             if e \<noteq> 0 then Some ((e, out), s)
             else disk_bytes_loop rd sz (offset + m) (n - m) (put_bytes out p b 0 m) (p + m) s)
      else
        let at = offset mod sz; part = min n (sz - at) in
        (case rd (offset div sz) 1 4096 s of
           ((e, b), s) \<Rightarrow>
             if e \<noteq> 0 then Some ((e, out), s)
             else disk_bytes_loop rd sz (offset + part) (n - part) (put_bytes out p b at part) (p + part) s))"
  by pat_completeness auto
termination
  by (relation "measure (\<lambda>(rd, sz, offset, n, out, p, s). n)") (auto simp: div_greater_zero_iff)

declare disk_bytes_loop.simps [simp del]

definition disk_bytes :: "'h hw \<Rightarrow> nat \<Rightarrow> nat \<Rightarrow> bytes \<Rightarrow> nat \<Rightarrow> 'h store \<Rightarrow> ((int \<times> bytes) \<times> 'h store) option" where
  "disk_bytes h i offset out n s =
     (let sz = d_sector_size (s_disks s i); bound = d_sectors (s_disks s i) * sz mod 2 ^ 64 in
      if i \<ge> s_disk_count s \<or> offset > bound \<or> n > bound - offset then Some ((K_EINVAL, out), s)
      else disk_bytes_loop (k_disk_read h i) sz offset n out 0 s)"

section \<open>Partition entries\<close>

record partition_entry =
  pe_start :: nat
  pe_length :: nat
  pe_number :: nat
  pe_read_only :: bool

definition partition_add :: "partition_entry list \<Rightarrow> nat \<Rightarrow> nat \<Rightarrow> nat \<Rightarrow> nat \<Rightarrow> int + partition_entry list" where
  "partition_add parts start len number disk_size =
     (if len = 0 \<or> start = 0 \<or> start \<ge> disk_size \<or> len > disk_size - start \<or> length parts \<ge> 128 then Inl K_EINVAL
      else if \<exists>q\<in>set parts. overlap start len (pe_start q) (pe_length q) then Inl K_EINVAL
      else Inr (parts @ [\<lparr>pe_start = start, pe_length = len, pe_number = number, pe_read_only = False\<rparr>]))"

section \<open>GUID partition tables\<close>

definition crc_bit :: "u32 \<Rightarrow> u32" where
  "crc_bit crc = drop_bit 1 crc XOR (0xedb88320 AND (0 - (crc AND 1)))"

definition crc_step :: "u32 \<Rightarrow> bytes \<Rightarrow> nat \<Rightarrow> u32" where
  "crc_step crc p n = fold (\<lambda>j crc. (crc_bit ^^ 8) (crc XOR ucast (p j))) [0..<n] crc"

definition gpt_magic :: bytes where
  "gpt_magic = (\<lambda>j. [0x45, 0x46, 0x49, 0x20, 0x50, 0x41, 0x52, 0x54] ! j)"

record gpt_header =
  g_backup :: nat
  g_first :: nat
  g_last :: nat
  g_table :: nat
  g_entries :: nat
  g_entry_size :: nat
  g_wanted :: u32

definition read_gpt :: "bytes \<Rightarrow> gpt_header" where
  "read_gpt b = \<lparr>g_backup = unat (rd64 b 32), g_first = unat (rd64 b 40), g_last = unat (rd64 b 48),
     g_table = unat (rd64 b 72), g_entries = unat (rd32 b 80), g_entry_size = unat (rd32 b 84), g_wanted = rd32 b 88\<rparr>"

definition gpt_signed :: "bytes \<Rightarrow> nat \<Rightarrow> nat \<Rightarrow> bool" where
  "gpt_signed b bps header_lba \<longleftrightarrow>
     (let len = unat (rd32 b 12); saved = rd32 b 16 in
      \<not> (memcmp b 0 gpt_magic 0 8 \<noteq> 0 \<or> rd32 b 8 \<noteq> 0x10000 \<or> len < 92 \<or> len > bps \<or> rd32 b 20 \<noteq> 0 \<or>
         unat (rd64 b 24) \<noteq> header_lba) \<and>
      crc_step 0xffffffff (wr32 b 16 0) len XOR 0xffffffff = saved)"

definition table_bytes :: "gpt_header \<Rightarrow> nat" where
  "table_bytes g = g_entries g * g_entry_size g"

definition table_sectors :: "gpt_header \<Rightarrow> nat \<Rightarrow> nat" where
  "table_sectors g bps = (table_bytes g + bps - 1) div bps"

definition gpt_layout_ok :: "gpt_header \<Rightarrow> nat \<Rightarrow> nat \<Rightarrow> nat \<Rightarrow> bool" where
  "gpt_layout_ok g sectors bps header_lba \<longleftrightarrow>
     \<not> (g_backup g \<ge> sectors \<or> g_backup g = header_lba \<or> g_first g > g_last g \<or> g_first g < 2 \<or>
        g_last g \<ge> sub64 sectors 1 \<or> g_entries g = 0 \<or> g_entries g > 4096 \<or> g_entry_size g < 128 \<or>
        g_entry_size g > 1024 \<or> g_entry_size g AND 127 \<noteq> 0 \<or> g_table g = 0 \<or> g_table g \<ge> sectors \<or>
        table_sectors g bps > sectors - g_table g \<or>
        overlap (g_table g) (table_sectors g bps) (g_first g) (g_last g - g_first g + 1) \<or>
        overlap (g_table g) (table_sectors g bps) header_lba 1 \<or>
        overlap (g_table g) (table_sectors g bps) (g_backup g) 1)"

fun gpt_table_crc ::
  "'h hw \<Rightarrow> nat \<Rightarrow> nat \<Rightarrow> nat \<Rightarrow> nat list \<Rightarrow> u32 \<Rightarrow> nat \<Rightarrow> 'h store \<Rightarrow> (int + u32) \<times> 'h store" where
  "gpt_table_crc h i tab bps [] crc remaining s = (Inr crc, s)"
| "gpt_table_crc h i tab bps (k # ks) crc remaining s =
     (case k_disk_read h i (tab + k) 1 4096 s of
        ((e, b), s) \<Rightarrow>
          if e \<noteq> 0 then (Inl e, s)
          else let n = min remaining bps in gpt_table_crc h i tab bps ks (crc_step crc b n) (remaining - n) s)"

text \<open>One entry of 128 bytes: unused when its type is zero.\<close>

definition gpt_entry :: "gpt_header \<Rightarrow> nat \<Rightarrow> nat \<Rightarrow> bytes \<Rightarrow> partition_entry list \<Rightarrow> int + partition_entry list" where
  "gpt_entry g sectors k b parts =
     (if \<forall>j\<in>set [0..<16]. b j = 0 then Inr parts
      else
        let a = unat (rd64 b 32); z = unat (rd64 b 40) in
        if a < g_first g \<or> a > z \<or> z > g_last g then Inl K_EINVAL
        else case partition_add parts a (z - a + 1) (k + 1) sectors of
          Inl e \<Rightarrow> Inl e
        | Inr ps \<Rightarrow> Inr (butlast ps @ [(last ps)\<lparr>pe_read_only := rd64 b 48 AND push_bit 60 1 \<noteq> 0\<rparr>]))"

fun gpt_entries ::
  "'h hw \<Rightarrow> nat \<Rightarrow> gpt_header \<Rightarrow> nat \<Rightarrow> nat \<Rightarrow> nat list \<Rightarrow> partition_entry list \<Rightarrow> 'h store \<Rightarrow>
   ((int + partition_entry list) \<times> 'h store) option" where
  "gpt_entries h i g bps sectors [] parts s = Some (Inr parts, s)"
| "gpt_entries h i g bps sectors (k # ks) parts s =
     (case disk_bytes h i ((g_table g * bps + k * g_entry_size g) mod 2 ^ 64) (\<lambda>_. 0) 128 s of
        None \<Rightarrow> None
      | Some ((e, b), s) \<Rightarrow>
          if e \<noteq> 0 then Some (Inl e, s)
          else case gpt_entry g sectors k b parts of
            Inl e \<Rightarrow> Some (Inl e, s)
          | Inr parts \<Rightarrow> gpt_entries h i g bps sectors ks parts s)"

definition gpt_parse ::
  "'h hw \<Rightarrow> nat \<Rightarrow> nat \<Rightarrow> 'h store \<Rightarrow> ((int + partition_entry list) \<times> 'h store) option" where
  "gpt_parse h i header_lba s =
     (let bps = d_sector_size (s_disks s i); sectors = d_sectors (s_disks s i) in
      case k_disk_read h i header_lba 1 4096 s of
        ((e, b), s) \<Rightarrow>
          if e \<noteq> 0 then Some (Inl e, s)
          else if \<not> gpt_signed b bps header_lba then Some (Inl K_EINVAL, s)
          else
            let g = read_gpt (wr32 b 16 0) in
            if \<not> gpt_layout_ok g sectors bps header_lba then Some (Inl K_EINVAL, s)
            else case gpt_table_crc h i (g_table g) bps [0..<table_sectors g bps] 0xffffffff (table_bytes g) s of
              (Inl e, s) \<Rightarrow> Some (Inl e, s)
            | (Inr crc, s) \<Rightarrow>
                if crc XOR 0xffffffff \<noteq> g_wanted g then Some (Inl K_EINVAL, s)
                else gpt_entries h i g bps sectors [0..<g_entries g] [] s)"

section \<open>Master boot records\<close>

definition extended_type :: "u8 \<Rightarrow> bool" where
  "extended_type t \<longleftrightarrow> t = 5 \<or> t = 0x0f \<or> t = 0x85"

text \<open>The four primary entries; the extended partition is (base, length), length 0 for none.\<close>

fun mbr_primary ::
  "bytes \<Rightarrow> nat \<Rightarrow> nat list \<Rightarrow> nat \<times> nat \<Rightarrow> partition_entry list \<Rightarrow> int + (nat \<times> nat) \<times> partition_entry list" where
  "mbr_primary mbr disk_size [] extd parts = Inr (extd, parts)"
| "mbr_primary mbr disk_size (i # is) extd parts =
     (let p = 446 + 16 * i; ty = mbr (p + 4); start = unat (rd32 mbr (p + 8)); len = unat (rd32 mbr (p + 12)) in
      if ty = 0 \<or> len = 0 then mbr_primary mbr disk_size is extd parts
      else if ty = 0xee then Inl K_EINVAL
      else if start = 0 \<or> start \<ge> disk_size \<or> len > disk_size - start then Inl K_EINVAL
      else if extended_type ty then
        if snd extd \<noteq> 0 then Inl K_ENOTSUP else mbr_primary mbr disk_size is (start, len) parts
      else case partition_add parts start len (i + 1) disk_size of
        Inl e \<Rightarrow> Inl e
      | Inr parts \<Rightarrow> mbr_primary mbr disk_size is extd parts)"

text \<open>The logical partition of one extended boot record at \<open>ebr\<close>, the \<open>visits\<close>-th of the chain.\<close>

definition ebr_entry ::
  "bytes \<Rightarrow> nat \<Rightarrow> nat \<Rightarrow> nat \<Rightarrow> nat \<Rightarrow> nat \<Rightarrow> partition_entry list \<Rightarrow> int + partition_entry list" where
  "ebr_entry b disk_size ext_base ext_len ebr visits parts =
     (let ty = b (446 + 4); relative = unat (rd32 b (446 + 8)); len = unat (rd32 b (446 + 12)) in
      if ty \<noteq> 0 \<and> len \<noteq> 0 then
        if extended_type ty \<or> relative = 0 \<or> relative \<ge> ext_base + ext_len - ebr \<or>
           len > ext_base + ext_len - ebr - relative
        then Inl K_EINVAL
        else partition_add parts (ebr + relative) len (4 + visits) disk_size
      else Inr parts)"

text \<open>
  The chain of extended boot records with the sectors visited so far; \<open>visits\<close> is their number, which
  counts up from 0, so that the source's test for 124 is the bound.
\<close>

function ebr_loop ::
  "'h hw \<Rightarrow> nat \<Rightarrow> nat \<Rightarrow> nat \<Rightarrow> nat \<Rightarrow> nat \<Rightarrow> nat list \<Rightarrow> partition_entry list \<Rightarrow> 'h store \<Rightarrow>
   (int + nat list \<times> partition_entry list) \<times> 'h store" where
  "ebr_loop h i disk_size ext_base ext_len ebr seen parts s =
     (if ebr < ext_base \<or> ebr - ext_base \<ge> ext_len \<or> length seen \<ge> 124 then (Inl K_EINVAL, s)
      else if ebr \<in> set seen then (Inl K_EINVAL, s)
      else
        let seen = seen @ [ebr] in
        (case k_disk_read h i ebr 1 4096 s of
           ((e, b), s) \<Rightarrow>
             if e \<noteq> 0 then (Inl e, s)
             else if b 510 \<noteq> 0x55 \<or> b 511 \<noteq> 0xaa then (Inl K_EINVAL, s)
             else case ebr_entry b disk_size ext_base ext_len ebr (length seen) parts of
               Inl e \<Rightarrow> (Inl e, s)
             | Inr parts \<Rightarrow>
                 let ty = b (462 + 4); nxt = unat (rd32 b (462 + 8)); len = unat (rd32 b (462 + 12)) in
                 if ty = 0 then (Inr (seen, parts), s)
                 else if \<not> extended_type ty then (Inl K_EINVAL, s)
                 else if nxt = 0 \<or> nxt \<ge> ext_len \<or> len = 0 \<or> len > ext_len - nxt then (Inl K_EINVAL, s)
                 else ebr_loop h i disk_size ext_base ext_len (ext_base + nxt) seen parts s))"
  by pat_completeness auto
termination by (relation "measure (\<lambda>(h, i, disk_size, ext_base, ext_len, ebr, seen, parts, s). 124 - length seen)") auto

declare ebr_loop.simps [simp del]

definition mbr_parse :: "'h hw \<Rightarrow> nat \<Rightarrow> bytes \<Rightarrow> 'h store \<Rightarrow> (int + partition_entry list) \<times> 'h store" where
  "mbr_parse h i mbr s =
     (let disk_size = d_sectors (s_disks s i) in
      case mbr_primary mbr disk_size [0..<4] (0, 0) [] of
        Inl e \<Rightarrow> (Inl e, s)
      | Inr ((ext_base, ext_len), parts) \<Rightarrow>
          if ext_len \<noteq> 0 \<and> (\<exists>q\<in>set parts. overlap ext_base ext_len (pe_start q) (pe_length q)) then (Inl K_EINVAL, s)
          else case (if ext_len \<noteq> 0 then ebr_loop h i disk_size ext_base ext_len ext_base [] parts s
                     else (Inr ([], parts), s)) of
            (Inl e, s) \<Rightarrow> (Inl e, s)
          | (Inr (seen, parts), s) \<Rightarrow>
              if \<exists>r\<in>set seen. \<exists>q\<in>set parts. overlap r 1 (pe_start q) (pe_length q) then (Inl K_EINVAL, s)
              else (Inr parts, s))"

section \<open>Reading bytes\<close>

text \<open>
  What the byte reader needs of a disk: reads of sectors in range succeed, return the contents and
  do not change them. The contents, the size and the state's good shape are the provider's.
\<close>

locale sector_reader =
  fixes rd :: "nat \<Rightarrow> nat \<Rightarrow> nat \<Rightarrow> nat \<Rightarrow> 's \<Rightarrow> (int \<times> bytes) \<times> 's"
    and good :: "nat \<Rightarrow> 's \<Rightarrow> bool"
    and sz :: "nat \<Rightarrow> 's \<Rightarrow> nat"
    and sectors :: "nat \<Rightarrow> 's \<Rightarrow> nat"
    and content :: "nat \<Rightarrow> 's \<Rightarrow> bytes"
  assumes sz_bounds: "good i s \<Longrightarrow> 0 < sz i s \<and> sz i s \<le> 4096"
    and rd_sectors: "good i s \<Longrightarrow> 0 < n \<Longrightarrow> lba + n \<le> sectors i s \<Longrightarrow> n * sz i s \<le> cap \<Longrightarrow>
      \<exists>b s'. rd i lba n cap s = ((0, b), s') \<and> good i s' \<and> sz i s' = sz i s \<and> sectors i s' = sectors i s \<and>
        content i s' = content i s \<and> (\<forall>j < n * sz i s. b j = content i s (lba * sz i s + j))"
begin

lemma sector_count:
  assumes "offset + n \<le> sec * z" "0 < (z::nat)" "0 < n"
  shows "offset div z + 1 \<le> sec" "offset mod z = 0 \<Longrightarrow> m \<le> n div z \<Longrightarrow> offset div z + m \<le> sec"
proof -
  have "offset div z * z + offset mod z = offset" by simp
  moreover have "offset < sec * z" using assms by linarith
  ultimately have "offset div z < sec" by (metis less_mult_imp_div_less)
  then show "offset div z + 1 \<le> sec" by simp
  assume z: "offset mod z = 0" and m: "m \<le> n div z"
  have "m * z \<le> n" using m by (metis div_times_less_eq_dividend mult_le_mono1 order_trans)
  moreover have "offset div z * z = offset" using z \<open>offset div z * z + offset mod z = offset\<close> by simp
  ultimately have "(offset div z + m) * z \<le> sec * z" using assms(1) by (simp add: add_mult_distrib)
  then show "offset div z + m \<le> sec" using assms(2) by simp
qed

lemma loop_exact:
  "good i s \<Longrightarrow> offset + n \<le> sectors i s * sz i s \<Longrightarrow>
   \<exists>out' s'. disk_bytes_loop (rd i) (sz i s) offset n out p s = Some ((0, out'), s') \<and> good i s' \<and> content i s' = content i s \<and>
     (\<forall>a. out' a = (if p \<le> a \<and> a < p + n then content i s (offset + (a - p)) else out a))"
proof (induction n arbitrary: offset out p s rule: less_induct)
  case (less n)
  let ?z = "sz i s"
  have z: "0 < ?z" "?z \<le> 4096" using sz_bounds less.prems(1) by auto
  note eq = disk_bytes_loop.simps[of "rd i" ?z offset n out p s]
  show ?case
  proof (cases "n = 0")
    case True
    then show ?thesis unfolding eq using less.prems(1) by auto
  next
    case n: False
    define whole where "whole \<longleftrightarrow> offset mod ?z = 0 \<and> n \<ge> ?z"
    define k where "k = (if whole then min (n div ?z) 128 else 1)"
    define at where "at = (if whole then 0 else offset mod ?z)"
    define m where "m = (if whole then k * ?z else min n (?z - at))"
    define cap where "cap = (if whole then n else 4096)"
    have k0: "0 < k" using z by (auto simp: k_def whole_def div_greater_zero_iff)
    have kn: "k * ?z \<le> n" if whole
    proof -
      have "k * ?z \<le> n div ?z * ?z" using that by (intro mult_le_mono1) (simp add: k_def)
      then show ?thesis using div_times_less_eq_dividend order_trans by blast
    qed
    have m: "0 < m" "m \<le> n" using kn k0 z n by (auto simp: m_def at_def)
    have "offset mod ?z < ?z" using z(1) by simp
    then have mk: "at + m \<le> k * ?z" by (auto simp: m_def at_def k_def)
    have at: "offset = offset div ?z * ?z + at" by (auto simp: at_def whole_def)
    have inr: "offset div ?z + k \<le> sectors i s"
      using sector_count[OF less.prems(2) z(1)] n by (auto simp: k_def whole_def)
    have cap: "k * ?z \<le> cap" using kn z by (auto simp: cap_def k_def)
    obtain b s1 where r: "rd i (offset div ?z) k cap s = ((0, b), s1)" and s1: "good i s1" "sz i s1 = ?z" "sectors i s1 = sectors i s"
      "content i s1 = content i s" and b: "\<forall>j < k * ?z. b j = content i s (offset div ?z * ?z + j)"
      using rd_sectors[OF less.prems(1) k0 inr cap] by blast
    have step: "disk_bytes_loop (rd i) ?z offset n out p s =
        disk_bytes_loop (rd i) (sz i s1) (offset + m) (n - m) (put_bytes out p b at m) (p + m) s1"
      unfolding eq using n z r s1(2)
      by (cases whole) (auto simp: whole_def[symmetric] Let_def k_def m_def at_def cap_def)
    have "offset + m + (n - m) \<le> sectors i s1 * sz i s1" using less.prems(2) m s1 by simp
    then obtain out' s' where o: "disk_bytes_loop (rd i) (sz i s1) (offset + m) (n - m) (put_bytes out p b at m) (p + m) s1 = Some ((0, out'), s')"
      "good i s'" "content i s' = content i s1"
      "\<forall>a. out' a = (if p + m \<le> a \<and> a < p + m + (n - m) then content i s1 (offset + m + (a - (p + m))) else put_bytes out p b at m a)"
      using less.IH[of "n - m" s1 "offset + m" "put_bytes out p b at m" "p + m"] m s1(1) n by auto
    have pb: "put_bytes out p b at m a = (if p \<le> a \<and> a < p + m then content i s (offset + (a - p)) else out a)" for a
    proof -
      have "b (at + (a - p)) = content i s (offset + (a - p))" if "p \<le> a" "a < p + m"
      proof -
        have "at + (a - p) < k * ?z" using that mk by linarith
        then have "b (at + (a - p)) = content i s (offset div ?z * ?z + (at + (a - p)))" using b by blast
        also have "offset div ?z * ?z + (at + (a - p)) = offset + (a - p)" using at by linarith
        finally show ?thesis .
      qed
      then show ?thesis by (simp add: put_bytes_apply)
    qed
    show ?thesis
      using step o s1(4) m(2) by (auto simp: pb)
  qed
qed

end

text \<open>RAM disks provide this interface.\<close>

definition ram_good :: "nat \<Rightarrow> 'h store \<Rightarrow> bool" where
  "ram_good i s \<longleftrightarrow> store_inv s \<and> i < s_disk_count s \<and> d_kind (s_disks s i) = DISK_RAM \<and> d_online (s_disks s i)"

interpretation ramdisk: sector_reader "k_disk_read h" ram_good "\<lambda>i s. d_sector_size (s_disks s i)"
  "\<lambda>i s. d_sectors (s_disks s i)" "\<lambda>i s. ram_sectors (s_disks s i) 0 s" for h :: "'h hw"
proof (unfold_locales, goal_cases)
  case (1 i s)
  then show ?case using store_invD[of s i] by (simp add: ram_good_def disk_ok_def)
next
  case (2 i s n lba cap)
  then have "k_disk_read h i lba n cap s = ((0, ram_sectors (s_disks s i) lba s), s)"
    by (simp add: ram_good_def k_disk_read_def disk_range_def Let_def DISK_RAM_def DISK_NVME_def DISK_AHCI_def DISK_ATA_def DISK_USB_def)
  then show ?case using 2(1) by (simp add: ram_sectors_def add.assoc)
qed

lemma disk_bytes_loop_frame:
  "(\<And>lba k cap. snd (rd lba k cap s) = s) \<Longrightarrow> disk_bytes_loop rd sz offset n out p s = Some (r, s') \<Longrightarrow> s' = s"
proof (induction n arbitrary: offset out p rule: less_induct)
  case (less n)
  note eq = disk_bytes_loop.simps[of rd sz offset n out p s]
  have rd: "rd lba k cap s = (x, s1) \<Longrightarrow> s1 = s" for lba k cap x s1 using less.prems(1)[of lba k cap] by simp
  obtain e b where r1: "rd (offset div sz) (min (n div sz) 128) n s = ((e, b), s)"
    using rd by (metis prod.exhaust)
  obtain e2 b2 where r2: "rd (offset div sz) 1 4096 s = ((e2, b2), s)"
    using rd by (metis prod.exhaust)
  show ?case
  proof (cases "n = 0 \<or> sz = 0")
    case True
    then show ?thesis using less.prems(2) unfolding eq by (auto split: if_splits)
  next
    case False
    note nz = this
    show ?thesis
    proof (cases "offset mod sz = 0 \<and> n \<ge> sz")
      case True
      then have "n - min (n div sz) 128 * sz < n" using nz by (auto simp: div_greater_zero_iff)
      from less.IH[OF this less.prems(1)] show ?thesis using less.prems(2) True nz r1 unfolding eq
        by (auto simp: Let_def split: if_splits)
    next
      case False
      have "n - min n (sz - offset mod sz) < n" using nz by simp
      from less.IH[OF this less.prems(1)] show ?thesis using less.prems(2) False nz r2 unfolding eq if_not_P[OF False]
        by (auto simp: Let_def split: if_splits)
    qed
  qed
qed

lemma ram_read_frame: "ram_good i s \<Longrightarrow> snd (k_disk_read h i lba n cap s) = s"
  by (simp add: ram_good_def k_disk_read_def Let_def DISK_RAM_def DISK_NVME_def DISK_AHCI_def DISK_ATA_def DISK_USB_def)

lemma disk_bytes_ram:
  assumes "ram_good i s" "offset + n \<le> d_sectors (s_disks s i) * d_sector_size (s_disks s i)"
  shows "disk_bytes h i offset out n s =
    Some ((0, \<lambda>a. if a < n then ram (s_pmm s) (d_ram (s_disks s i) + offset + a) else out a), s)"
proof -
  have inv: "i < s_disk_count s" "disk_ok (s_disks s i)" using assms(1) store_invD by (auto simp: ram_good_def)
  then have "d_sectors (s_disks s i) * d_sector_size (s_disks s i) mod 2 ^ 64 = d_sectors (s_disks s i) * d_sector_size (s_disks s i)"
    by (simp add: disk_ok_def)
  then have "disk_bytes h i offset out n s = disk_bytes_loop (k_disk_read h i) (d_sector_size (s_disks s i)) offset n out 0 s"
    using assms(2) inv(1) unfolding disk_bytes_def Let_def by (intro if_not_P) auto
  moreover obtain out' s' where l: "disk_bytes_loop (k_disk_read h i) (d_sector_size (s_disks s i)) offset n out 0 s = Some ((0, out'), s')"
    and o: "\<forall>a. out' a = (if 0 \<le> a \<and> a < 0 + n then ram_sectors (s_disks s i) 0 s (offset + (a - 0)) else out a)"
    using ramdisk.loop_exact[OF assms, of h out 0] by blast
  moreover have "s' = s" by (rule disk_bytes_loop_frame[OF ram_read_frame[OF assms(1)] l])
  moreover have "out' = (\<lambda>a. if a < n then ram (s_pmm s) (d_ram (s_disks s i) + offset + a) else out a)"
    using o by (auto simp: ram_sectors_def add.assoc)
  ultimately show ?thesis by simp
qed

text \<open>
  Byte reads are exact for every alignment. On a RAM disk, \<open>disk_bytes\<close> of any range inside the
  disk, at any offset and of any length, returns without error, fills the buffer with exactly those
  bytes of the disk and leaves the disks as they are, although it reads whole sectors, up to 128 at a
  time, and single sectors at the ragged ends.
\<close>

theorem disk_bytes_exact:
  assumes "ram_good i s" "offset + n \<le> d_sectors (s_disks s i) * d_sector_size (s_disks s i)"
  shows "\<exists>out'. disk_bytes h i offset out n s = Some ((0, out'), s) \<and>
    (\<forall>a<n. out' a = ram (s_pmm s) (d_ram (s_disks s i) + offset + a)) \<and> (\<forall>a\<ge>n. out' a = out a)"
  unfolding disk_bytes_ram[OF assms] by simp

lemma ex_store_good: "ram_good 0 ex_store"
  using ex_store_inv by (simp add: ram_good_def) (simp add: ex_store_def)

theorem disk_bytes_exact_witness:
  "\<exists>out'. disk_bytes ex_hw 0 700 (\<lambda>_. 1) 900 ex_store = Some ((0, out'), ex_store) \<and> out' 900 = 1"
  using disk_bytes_exact[OF ex_store_good, of 700 900 ex_hw "\<lambda>_. 1"] by (auto simp: ex_store_def)

section \<open>Partition tables\<close>

definition parts_ok :: "nat \<Rightarrow> partition_entry list \<Rightarrow> bool" where
  "parts_ok n ps \<longleftrightarrow> length ps \<le> 128 \<and> (\<forall>p\<in>set ps. 0 < pe_start p \<and> 0 < pe_length p \<and> pe_start p + pe_length p \<le> n) \<and>
     (\<forall>i j. i < j \<and> j < length ps \<longrightarrow>
        apart (pe_start (ps ! i)) (pe_length (ps ! i)) (pe_start (ps ! j)) (pe_length (ps ! j)))"

lemma apart_sym: "apart a n b m \<Longrightarrow> apart b m a n"
  by (auto simp: apart_def)

lemma parts_ok_Nil [simp]: "parts_ok n []" by (simp add: parts_ok_def)

lemma parts_ok_snoc:
  "parts_ok n (ps @ [e]) \<longleftrightarrow> parts_ok n ps \<and> length ps < 128 \<and> 0 < pe_start e \<and> 0 < pe_length e \<and> pe_start e + pe_length e \<le> n \<and>
     (\<forall>q\<in>set ps. apart (pe_start q) (pe_length q) (pe_start e) (pe_length e))"
proof -
  have "(\<forall>i j. i < j \<and> j < length (ps @ [e]) \<longrightarrow> apart (pe_start ((ps @ [e]) ! i)) (pe_length ((ps @ [e]) ! i)) (pe_start ((ps @ [e]) ! j)) (pe_length ((ps @ [e]) ! j))) \<longleftrightarrow>
    (\<forall>i j. i < j \<and> j < length ps \<longrightarrow> apart (pe_start (ps ! i)) (pe_length (ps ! i)) (pe_start (ps ! j)) (pe_length (ps ! j))) \<and>
    (\<forall>i<length ps. apart (pe_start (ps ! i)) (pe_length (ps ! i)) (pe_start e) (pe_length e))"
    (is "?l \<longleftrightarrow> ?r")
  proof
    assume l: ?l
    have "apart (pe_start (ps ! i)) (pe_length (ps ! i)) (pe_start (ps ! j)) (pe_length (ps ! j))" if "i < j" "j < length ps" for i j
      using l[rule_format, of i j] that by (simp add: nth_append)
    moreover have "apart (pe_start (ps ! i)) (pe_length (ps ! i)) (pe_start e) (pe_length e)" if "i < length ps" for i
      using l[rule_format, of i "length ps"] that by (simp add: nth_append)
    ultimately show ?r by blast
  qed (auto simp: nth_append less_Suc_eq)
  then show ?thesis unfolding parts_ok_def by (auto simp: all_set_conv_all_nth)
qed

lemma partition_add_ok:
  assumes "parts_ok n ps" "n < 2 ^ 64" "partition_add ps start len num n = Inr ps'"
  shows "parts_ok n ps'" "ps' = ps @ [\<lparr>pe_start = start, pe_length = len, pe_number = num, pe_read_only = False\<rparr>]"
    "0 < start" "start + len \<le> n"
proof -
  let ?e = "\<lparr>pe_start = start, pe_length = len, pe_number = num, pe_read_only = False\<rparr>"
  have c: "len \<noteq> 0" "start \<noteq> 0" "start < n" "len \<le> n - start" "length ps < 128"
    "\<forall>q\<in>set ps. \<not> overlap start len (pe_start q) (pe_length q)" "ps' = ps @ [?e]"
    using assms(3) by (auto simp: partition_add_def split: if_splits)
  then show "ps' = ps @ [?e]" "0 < start" "start + len \<le> n" by auto
  have "apart (pe_start q) (pe_length q) start len" if "q \<in> set ps" for q
    using overlap_apart[of start len n "pe_start q" "pe_length q"] c that assms(1,2) apart_sym
    by (auto simp: parts_ok_def)
  then show "parts_ok n ps'" using assms(1) c by (auto simp: parts_ok_snoc)
qed

lemma gpt_entry_ok:
  assumes "parts_ok n ps" "n < 2 ^ 64" "gpt_entry g n k b ps = Inr ps'"
    and r: "\<forall>p\<in>set ps. g_first g \<le> pe_start p \<and> pe_start p + pe_length p \<le> g_last g + 1"
  shows "parts_ok n ps' \<and> (\<forall>p\<in>set ps'. g_first g \<le> pe_start p \<and> pe_start p + pe_length p \<le> g_last g + 1)"
proof (cases "\<forall>j\<in>set [0..<16]. b j = 0")
  case True
  then show ?thesis using assms by (simp add: gpt_entry_def)
next
  case False
  let ?a = "unat (rd64 b 32)" and ?z = "unat (rd64 b 40)"
  obtain q where q: "partition_add ps ?a (?z - ?a + 1) (k + 1) n = Inr q" "\<not> (?a < g_first g \<or> ?a > ?z \<or> ?z > g_last g)"
    and ps': "ps' = butlast q @ [(last q)\<lparr>pe_read_only := rd64 b 48 AND push_bit 60 1 \<noteq> 0\<rparr>]"
    using assms(3) False by (auto simp: gpt_entry_def Let_def split: if_splits sum.splits)
  note A = partition_add_ok[OF assms(1,2) q(1)]
  let ?e = "\<lparr>pe_start = ?a, pe_length = ?z - ?a + 1, pe_number = k + 1, pe_read_only = rd64 b 48 AND push_bit 60 1 \<noteq> 0\<rparr>"
  have p: "ps' = ps @ [?e]" using ps' A(2) by simp
  have "parts_ok n (ps @ [?e])"
    using A(1) unfolding A(2) by (simp add: parts_ok_snoc)
  then show ?thesis using p q(2) r by auto
qed

lemma gpt_entries_ok:
  "gpt_entries h i g bps n ks ps s = Some (Inr ps', s') \<Longrightarrow> parts_ok n ps \<Longrightarrow> n < 2 ^ 64 \<Longrightarrow>
   (\<forall>p\<in>set ps. g_first g \<le> pe_start p \<and> pe_start p + pe_length p \<le> g_last g + 1) \<Longrightarrow>
   parts_ok n ps' \<and> (\<forall>p\<in>set ps'. g_first g \<le> pe_start p \<and> pe_start p + pe_length p \<le> g_last g + 1)"
proof (induction h i g bps n ks ps s rule: gpt_entries.induct)
  case (2 h i g bps n k ks ps s)
  obtain e b s1 where d: "disk_bytes h i ((g_table g * bps + k * g_entry_size g) mod 2 ^ 64) (\<lambda>_. 0) 128 s = Some ((e, b), s1)"
    using "2.prems"(1) by (auto split: option.splits)
  obtain q where q: "e = 0" "gpt_entry g n k b ps = Inr q" "gpt_entries h i g bps n ks q s1 = Some (Inr ps', s')"
    using "2.prems"(1) d by (auto split: if_splits sum.splits)
  from gpt_entry_ok[OF "2.prems"(2,3) q(2) "2.prems"(4)] show ?case
    using "2.IH"[OF d refl refl _ q(2)] q "2.prems"(3) by blast
qed simp

lemma mbr_primary_ok:
  "mbr_primary mbr n is extd ps = Inr (extd', ps') \<Longrightarrow> parts_ok n ps \<Longrightarrow> n < 2 ^ 64 \<Longrightarrow>
   snd extd \<noteq> 0 \<longrightarrow> fst extd + snd extd \<le> n \<and> 0 < fst extd \<Longrightarrow>
   parts_ok n ps' \<and> (snd extd' \<noteq> 0 \<longrightarrow> fst extd' + snd extd' \<le> n \<and> 0 < fst extd')"
proof (induction mbr n "is" extd ps rule: mbr_primary.induct)
  case (2 mbr n i "is" extd ps)
  let ?p = "446 + 16 * i"
  let ?ty = "mbr (?p + 4)" and ?st = "unat (rd32 mbr (?p + 8))" and ?len = "unat (rd32 mbr (?p + 12))"
  consider (skip) "?ty = 0 \<or> ?len = 0" | (ext) "\<not> (?ty = 0 \<or> ?len = 0)" "?ty \<noteq> 0xee" "?st \<noteq> 0" "?st < n" "?len \<le> n - ?st" "extended_type ?ty" "snd extd = 0"
    | (add) q where "\<not> (?ty = 0 \<or> ?len = 0)" "?ty \<noteq> 0xee" "\<not> (?st = 0 \<or> ?st \<ge> n \<or> ?len > n - ?st)" "\<not> extended_type ?ty"
        "partition_add ps ?st ?len (i + 1) n = Inr q"
    using "2.prems"(1) by (force simp: Let_def split: if_splits sum.splits)
  then show ?case
  proof cases
    case skip
    then show ?thesis using "2.prems" "2.IH"(1)[OF refl refl refl refl] by (simp add: Let_def)
  next
    case ext
    then have "mbr_primary mbr n is (?st, ?len) ps = Inr (extd', ps')" using "2.prems"(1) by (simp add: Let_def)
    then show ?thesis using "2.prems" "2.IH"(2)[OF refl refl refl refl] ext by simp
  next
    case add
    then have "mbr_primary mbr n is extd q = Inr (extd', ps')" using "2.prems"(1) by (auto simp: Let_def)
    then show ?thesis
      using "2.prems" "2.IH"(3)[OF refl refl refl refl add(1,2,3,4,5)] partition_add_ok(1)[OF "2.prems"(2,3) add(5)] by simp
  qed
qed simp

lemma ebr_entry_ok:
  assumes "ebr_entry b n base len ebr v ps = Inr ps'" "parts_ok n ps" "n < 2 ^ 64" "base \<le> ebr"
  shows "parts_ok n ps' \<and> (\<forall>p\<in>set ps'. p \<in> set ps \<or> base < pe_start p \<and> pe_start p + pe_length p \<le> base + len)"
proof (cases "b (446 + 4) \<noteq> 0 \<and> unat (rd32 b (446 + 12)) \<noteq> 0")
  case False
  then show ?thesis using assms by (auto simp: ebr_entry_def Let_def)
next
  case True
  let ?r = "unat (rd32 b (446 + 8))" and ?l = "unat (rd32 b (446 + 12))"
  have c: "\<not> (extended_type (b (446 + 4)) \<or> ?r = 0 \<or> ?r \<ge> base + len - ebr \<or> ?l > base + len - ebr - ?r)"
    "partition_add ps (ebr + ?r) ?l (4 + v) n = Inr ps'"
    using assms(1) True by (auto simp: ebr_entry_def Let_def split: if_splits)
  note A = partition_add_ok[OF assms(2,3) c(2)]
  have "base < ebr + ?r" "ebr + ?r + ?l \<le> base + len" using c(1) assms(4) by auto
  then show ?thesis using A(1) unfolding A(2) by auto
qed

lemma ebr_loop_ok:
  "ebr_loop h i n base len ebr seen ps s = (Inr (seen', ps'), s') \<Longrightarrow> parts_ok n ps \<Longrightarrow> n < 2 ^ 64 \<Longrightarrow>
   parts_ok n ps' \<and> length seen' \<le> 124 \<and> (\<forall>p\<in>set ps'. p \<in> set ps \<or> base < pe_start p \<and> pe_start p + pe_length p \<le> base + len)"
proof (induction h i n base len ebr seen ps s rule: ebr_loop.induct)
  case (1 h i n base len ebr seen ps s)
  note eq = ebr_loop.simps[of h i n base len ebr seen ps s]
  have c: "\<not> (ebr < base \<or> ebr - base \<ge> len \<or> length seen \<ge> 124)" "ebr \<notin> set seen"
    using "1.prems"(1) unfolding eq by (auto split: if_splits)
  obtain e b s1 where r: "k_disk_read h i ebr 1 4096 s = ((e, b), s1)" by (metis surj_pair)
  have e: "e = 0" "\<not> (b 510 \<noteq> 0x55 \<or> b 511 \<noteq> 0xaa)"
    using "1.prems"(1)[unfolded eq if_not_P[OF c(1)] if_not_P[OF c(2)] Let_def r prod.case]
    by (auto split: if_splits)
  obtain q where q: "ebr_entry b n base len ebr (length (seen @ [ebr])) ps = Inr q"
    using "1.prems"(1)[unfolded eq if_not_P[OF c(1)] if_not_P[OF c(2)] Let_def r prod.case] e
    by (auto split: if_splits sum.splits)
  let ?ty = "b (462 + 4)" and ?nxt = "unat (rd32 b (462 + 8))" and ?l = "unat (rd32 b (462 + 12))"
  have eq2: "(if ?ty = 0 then (Inr (seen @ [ebr], q), s1)
       else if \<not> extended_type ?ty then (Inl K_EINVAL, s1)
       else if ?nxt = 0 \<or> ?nxt \<ge> len \<or> ?l = 0 \<or> ?l > len - ?nxt then (Inl K_EINVAL, s1)
       else ebr_loop h i n base len (base + ?nxt) (seen @ [ebr]) q s1) = (Inr (seen', ps'), s')"
    using "1.prems"(1)[unfolded eq if_not_P[OF c(1)] if_not_P[OF c(2)] Let_def r prod.case q sum.case] e by simp
  note E = ebr_entry_ok[OF q "1.prems"(2,3)]
  have be: "base \<le> ebr" using c by simp
  show ?case
  proof (cases "?ty = 0")
    case True
    then show ?thesis using eq2 E[OF be] c by auto
  next
    case False
    then have cc: "\<not> \<not> extended_type ?ty" "\<not> (?nxt = 0 \<or> ?nxt \<ge> len \<or> ?l = 0 \<or> ?l > len - ?nxt)"
      and l: "ebr_loop h i n base len (base + ?nxt) (seen @ [ebr]) q s1 = (Inr (seen', ps'), s')"
      using eq2 by (auto split: if_splits)
    have "\<not> e \<noteq> 0" using e by simp
    from "1.IH"[OF c refl r[symmetric] refl this e(2) q refl refl refl False cc l] E[OF be] "1.prems"(3)
    show ?thesis by blast
  qed
qed

text \<open>
  C16. Partitions from a master boot record do not overlap. Whatever the boot sector and the chain of
  extended boot records contain, a successful parse yields at most 128 partitions, each non-empty,
  away from sector 0 and inside the disk, and no two of them share a sector. A chain of records is
  followed at most 124 times, so even a cyclic one ends.
\<close>

theorem mbr_partitions_disjoint:
  assumes "mbr_parse h i mbr s = (Inr ps, s')" "d_sectors (s_disks s i) < 2 ^ 64"
  shows "parts_ok (d_sectors (s_disks s i)) ps"
proof -
  let ?n = "d_sectors (s_disks s i)"
  obtain base len q where p: "mbr_primary mbr ?n [0..<4] (0, 0) [] = Inr ((base, len), q)"
    using assms(1) by (auto simp: mbr_parse_def Let_def split: sum.splits)
  have q: "parts_ok ?n q" using mbr_primary_ok[OF p _ assms(2)] by simp
  obtain x s1 where l: "(if len \<noteq> 0 then ebr_loop h i ?n base len base [] q s else (Inr ([], q), s)) = (x, s1)" by fastforce
  obtain seen ps1 where x: "x = Inr (seen, ps1)" "ps = ps1"
    using assms(1) unfolding mbr_parse_def Let_def p sum.case prod.case l by (auto split: if_splits sum.splits)
  show ?thesis using l x q ebr_loop_ok[of h i ?n base len base "[]" q s seen ps1 s1] assms(2) by (auto split: if_splits)
qed


subsection \<open>Concrete disks\<close>

text \<open>
  A boot sector with two primary partitions, and a disk of 64 sectors with a GUID partition table of
  one entry (sectors 4 to 7) whose checksums are computed by \<^const>\<open>crc_step\<close> itself.
\<close>

definition ex_mbr :: bytes where
  "ex_mbr = (\<lambda>_. 0)(450 := 0x83, 454 := 1, 458 := 4, 466 := 0x83, 470 := 8, 474 := 4)"

definition ex_img :: "u32 \<Rightarrow> u32 \<Rightarrow> bytes" where
  "ex_img tc hc = wr32 (wr32 ((\<lambda>_. 0)(512 := 0x45, 513 := 0x46, 514 := 0x49, 515 := 0x20, 516 := 0x50, 517 := 0x41,
     518 := 0x52, 519 := 0x54, 522 := 1, 524 := 92, 536 := 1, 544 := 63, 552 := 4, 560 := 62, 584 := 2, 592 := 1,
     596 := 128, 1024 := 1, 1056 := 4, 1064 := 7)) 600 tc) 528 hc"

definition ex_tc :: u32 where
  "ex_tc = crc_step 0xffffffff (\<lambda>j. ex_img 0 0 (1024 + j)) 128 XOR 0xffffffff"

definition ex_hc :: u32 where
  "ex_hc = crc_step 0xffffffff (\<lambda>j. ex_img ex_tc 0 (512 + j)) 92 XOR 0xffffffff"

definition ex_gpt_store :: "unit store" where
  "ex_gpt_store = ex_store\<lparr>s_pmm := ex_pmm\<lparr>ram := \<lambda>a. ex_img ex_tc ex_hc (a - 1048576)\<rparr>\<rparr>"

lemma ex_mbr_parse:
  "\<exists>ps. mbr_parse ex_hw 0 ex_mbr ex_store = (Inr ps, ex_store) \<and> map pe_start ps = [1, 8] \<and> map pe_length ps = [4, 4]"
  by (simp add: mbr_parse_def ex_store_def ex_mbr_def upt_rec partition_add_def overlap_def rd32_def rd16_def extended_type_def add64_def)

theorem mbr_partitions_disjoint_witness:
  "\<exists>ps. mbr_parse ex_hw 0 ex_mbr ex_store = (Inr ps, ex_store) \<and> map pe_start ps = [1, 8] \<and> parts_ok 64 ps"
proof -
  obtain ps where p: "mbr_parse ex_hw 0 ex_mbr ex_store = (Inr ps, ex_store)" "map pe_start ps = [1, 8]"
    using ex_mbr_parse by (elim exE conjE)
  have "d_sectors (s_disks ex_store 0) = 64" by (simp add: ex_store_def)
  then show ?thesis using mbr_partitions_disjoint[OF p(1)] p by auto
qed

lemma ex_gpt_read: "lba < 64 \<Longrightarrow> k_disk_read ex_hw 0 lba 1 4096 ex_gpt_store =
  ((0, \<lambda>j. ex_img ex_tc ex_hc (lba * 512 + j)), ex_gpt_store)"
proof -
  assume l: "lba < 64"
  have d: "d_kind (s_disks ex_gpt_store 0) = DISK_RAM" "d_online (s_disks ex_gpt_store 0)" "d_sectors (s_disks ex_gpt_store 0) = 64"
    "d_sector_size (s_disks ex_gpt_store 0) = 512" "d_ram (s_disks ex_gpt_store 0) = 1048576" "s_disk_count ex_gpt_store = 1"
    "ram (s_pmm ex_gpt_store) = (\<lambda>a. ex_img ex_tc ex_hc (a - 1048576))"
    by (simp_all add: ex_gpt_store_def ex_store_def)
  have "disk_range 0 lba 1 4096 ex_gpt_store = 0" using l by (simp add: disk_range_def d)
  moreover have "ram_sectors (s_disks ex_gpt_store 0) lba ex_gpt_store = (\<lambda>j. ex_img ex_tc ex_hc (lba * 512 + j))"
    unfolding ram_sectors_def d by (simp only: add.assoc diff_add_inverse)
  ultimately show ?thesis
    by (simp add: k_disk_read_def Let_def d(1) DISK_RAM_def DISK_NVME_def DISK_AHCI_def DISK_ATA_def DISK_USB_def)
qed

lemmas ex_img_eval = ex_img_def wr32_apply rd16_def rd32_def rd64_def

lemma ex_gpt_header: "wr32 (\<lambda>j. ex_img tc hc (512 + j)) 16 0 = (\<lambda>j. ex_img tc 0 (512 + j))"
  by (rule ext) (auto simp: ex_img_def wr32_apply)

lemma ex_gpt_table: "(\<lambda>j. ex_img tc hc (1024 + j)) = (\<lambda>j. ex_img 0 0 (1024 + j))"
  by (rule ext) (simp add: ex_img_def wr32_apply)

lemma ex_img_saved: "rd32 (\<lambda>j. ex_img tc hc (512 + j)) 16 = hc"
  using rd32_wr32[of "ex_img tc 0" 528 hc] by (simp add: rd32_def rd16_def ex_img_def wr32_apply)

lemma ex_img_wanted: "rd32 (\<lambda>j. ex_img tc hc (512 + j)) 88 = tc"
  using rd32_wr32[of "ex_img 0 hc" 600 tc] by (simp add: rd32_def rd16_def ex_img_def wr32_apply)

lemma ex_gpt_signed: "gpt_signed (\<lambda>j. ex_img ex_tc ex_hc (512 + j)) 512 1"
proof -
  have e: "(8::nat) = Suc (Suc (Suc (Suc (Suc (Suc (Suc (Suc 0)))))))" by simp
  have "ex_img ex_tc ex_hc (512 + j) = gpt_magic j" if "j \<in> {0, 1, 2, 3, 4, 5, 6, 7}" for j
    using that by (auto simp: ex_img_def wr32_apply gpt_magic_def)
  then have "memcmp (\<lambda>j. ex_img ex_tc ex_hc (512 + j)) 0 gpt_magic 0 8 = 0"
    unfolding e memcmp.simps by (simp add: numeral_eq_Suc)
  moreover have "rd32 (\<lambda>j. ex_img ex_tc ex_hc (512 + j)) 8 = 0x10000" "rd32 (\<lambda>j. ex_img ex_tc ex_hc (512 + j)) 12 = 92"
    "rd32 (\<lambda>j. ex_img ex_tc ex_hc (512 + j)) 20 = 0" "rd64 (\<lambda>j. ex_img ex_tc ex_hc (512 + j)) 24 = 1"
    by (simp_all add: ex_img_eval)
  ultimately show ?thesis by (simp add: gpt_signed_def Let_def ex_gpt_header ex_img_saved ex_hc_def)
qed

definition ex_gpt :: gpt_header where
  "ex_gpt = \<lparr>g_backup = 63, g_first = 4, g_last = 62, g_table = 2, g_entries = 1, g_entry_size = 128, g_wanted = ex_tc\<rparr>"

lemma ex_read_gpt: "read_gpt (\<lambda>j. ex_img ex_tc 0 (512 + j)) = ex_gpt"
proof -
  have "rd64 (\<lambda>j. ex_img ex_tc 0 (512 + j)) 32 = 63" "rd64 (\<lambda>j. ex_img ex_tc 0 (512 + j)) 40 = 4"
    "rd64 (\<lambda>j. ex_img ex_tc 0 (512 + j)) 48 = 62" "rd64 (\<lambda>j. ex_img ex_tc 0 (512 + j)) 72 = 2"
    "rd32 (\<lambda>j. ex_img ex_tc 0 (512 + j)) 80 = 1" "rd32 (\<lambda>j. ex_img ex_tc 0 (512 + j)) 84 = 128"
    by (simp_all add: ex_img_eval)
  then show ?thesis by (simp add: read_gpt_def ex_gpt_def ex_img_wanted)
qed

lemma ex_gpt_layout: "gpt_layout_ok ex_gpt 64 512 1" "table_sectors ex_gpt 512 = 1" "table_bytes ex_gpt = 128"
  by (simp_all add: gpt_layout_ok_def ex_gpt_def table_sectors_def table_bytes_def overlap_def add64_def sub64_def)

lemma ex_gpt_entry:
  "gpt_entries ex_hw 0 ex_gpt 512 64 [0] [] ex_gpt_store =
   Some (Inr [\<lparr>pe_start = 4, pe_length = 4, pe_number = 1, pe_read_only = False\<rparr>], ex_gpt_store)"
proof -
  have sz: "d_sector_size (s_disks ex_gpt_store 0) = 512" "d_sectors (s_disks ex_gpt_store 0) = 64" "s_disk_count ex_gpt_store = 1"
    by (simp_all add: ex_gpt_store_def ex_store_def)
  let ?b = "put_bytes (\<lambda>_. 0) 0 (\<lambda>j. ex_img ex_tc ex_hc (1024 + j)) 0 128"
  have d: "disk_bytes ex_hw 0 1024 (\<lambda>_. 0) 128 ex_gpt_store = Some ((0, ?b), ex_gpt_store)"
    using ex_gpt_read[of 2] by (simp add: disk_bytes_def sz disk_bytes_loop.simps)
  have "?b 0 \<noteq> 0" "rd64 ?b 32 = 4" "rd64 ?b 40 = 7" "rd64 ?b 48 = 0"
    by (simp_all add: put_bytes_apply ex_img_eval)
  then have "gpt_entry ex_gpt 64 0 ?b [] = Inr [\<lparr>pe_start = 4, pe_length = 4, pe_number = 1, pe_read_only = False\<rparr>]"
    by (auto simp: gpt_entry_def ex_gpt_def partition_add_def)
  then show ?thesis by (simp add: ex_gpt_def d)
qed

lemma ex_gpt_parse:
  "gpt_parse ex_hw 0 1 ex_gpt_store =
   Some (Inr [\<lparr>pe_start = 4, pe_length = 4, pe_number = 1, pe_read_only = False\<rparr>], ex_gpt_store)"
proof -
  have sz: "d_sector_size (s_disks ex_gpt_store 0) = 512" "d_sectors (s_disks ex_gpt_store 0) = 64"
    by (simp_all add: ex_gpt_store_def ex_store_def)
  have r: "k_disk_read ex_hw 0 1 1 4096 ex_gpt_store = ((0, \<lambda>j. ex_img ex_tc ex_hc (512 + j)), ex_gpt_store)"
    "k_disk_read ex_hw 0 2 1 4096 ex_gpt_store = ((0, \<lambda>j. ex_img 0 0 (1024 + j)), ex_gpt_store)"
    using ex_gpt_read[of 1] ex_gpt_read[of 2] ex_gpt_table[of ex_tc ex_hc] by simp_all
  have g: "g_table ex_gpt = 2" "g_entries ex_gpt = 1" "g_wanted ex_gpt = ex_tc" by (simp_all add: ex_gpt_def)
  have t: "gpt_table_crc ex_hw 0 2 512 [0..<1] 0xffffffff 128 ex_gpt_store = (Inr (ex_tc XOR 0xffffffff), ex_gpt_store)"
    using r(2) by (simp add: ex_tc_def xor.assoc)
  show ?thesis unfolding gpt_parse_def Let_def sz r prod.case ex_gpt_header ex_read_gpt g ex_gpt_layout(2,3) t sum.case
    using ex_gpt_signed ex_gpt_layout(1) ex_gpt_entry by (simp add: xor.assoc)
qed


end
