(* ===== verification/Vfs.thy ===== *)
theory Vfs
  imports Path Partition Kern
begin

unbundle bit_operations_syntax

text \<open>
  The virtual file system of \<open>fs/fs.c\<close>: the RAM name space (a fixed table of nodes whose contents
  are page runs of the physical allocator), the table of mounts, and the calls \<open>k_vfs_init\<close>,
  \<open>k_vfs_mkdir\<close>, \<open>k_vfs_put\<close>, \<open>k_vfs_open\<close>, \<open>k_vfs_create\<close>, \<open>k_vfs_read\<close>, \<open>k_vfs_write\<close>, \<open>k_vfs_stat\<close>
  and \<open>k_vfs_list\<close>. The mutex of the source makes each call one step. The operations of the FAT and
  of the native (ext, NTFS) volumes behind a mount are the fields of a \<open>volume_ops\<close> record over their
  own state \<open>'v\<close> and the disks.
\<close>

definition MAX_NODES :: nat where "MAX_NODES = 192"
definition FAT_WRITE_MAX :: nat where "FAT_WRITE_MAX = 4 * 1024 * 1024"

record ram_node =
  n_used :: bool
  n_directory :: bool
  n_parent :: nat
  n_block_id :: nat
  n_kind :: nat
  n_pages :: nat
  n_name :: string
  n_data :: nat
  n_size :: nat

record mount_entry =
  mt_path :: string
  mt_volume :: nat
  mt_kind :: nat

record k_dirent =
  de_name :: string
  de_size :: nat
  de_directory :: bool

record ('h, 'v) vfs =
  vf_nodes :: "nat \<Rightarrow> ram_node"
  vf_mounts :: "mount_entry list"
  vf_ready :: bool
  vf_roots :: roots
  vf_store :: "'h store"
  vf_vol :: 'v

text \<open>
  The operations of mounted volumes. A read returns the error, what the buffer then holds and the
  number of bytes read; an operation with an out parameter returns its new value.
\<close>

type_synonym ('h, 'v, 'r) vol_op = "'v \<times> 'h store \<Rightarrow> 'r \<times> ('v \<times> 'h store)"

record ('h, 'v) volume_ops =
  native_open :: "nat \<Rightarrow> string \<Rightarrow> k_file \<Rightarrow> ('h, 'v, int \<times> k_file) vol_op"
  fat_open :: "nat \<Rightarrow> string \<Rightarrow> k_file \<Rightarrow> ('h, 'v, int \<times> k_file) vol_op"
  native_create :: "nat \<Rightarrow> string \<Rightarrow> bool \<Rightarrow> k_file \<Rightarrow> ('h, 'v, int \<times> k_file) vol_op"
  fat_create_locked :: "nat \<Rightarrow> string \<Rightarrow> bool \<Rightarrow> k_file \<Rightarrow> ('h, 'v, int \<times> k_file) vol_op"
  native_store :: "nat \<Rightarrow> string \<Rightarrow> bytes option \<Rightarrow> nat \<Rightarrow> ('h, 'v, int) vol_op"
  fat_store_locked :: "nat \<Rightarrow> string \<Rightarrow> bytes option \<Rightarrow> nat \<Rightarrow> ('h, 'v, int) vol_op"
  native_read :: "k_file \<Rightarrow> nat \<Rightarrow> bytes \<Rightarrow> nat \<Rightarrow> ('h, 'v, int \<times> bytes \<times> nat) vol_op"
  fat_read :: "k_file \<Rightarrow> nat \<Rightarrow> bytes \<Rightarrow> nat \<Rightarrow> ('h, 'v, int \<times> bytes \<times> nat) vol_op"
  native_write :: "k_file \<Rightarrow> nat \<Rightarrow> bytes option \<Rightarrow> nat \<Rightarrow> ('h, 'v, int \<times> k_file \<times> nat) vol_op"
  fat_replace_locked :: "k_file \<Rightarrow> bytes \<Rightarrow> nat \<Rightarrow> ('h, 'v, int \<times> k_file) vol_op"
  native_refresh :: "k_file \<Rightarrow> ('h, 'v, int \<times> k_file) vol_op"
  fat_refresh :: "k_file \<Rightarrow> ('h, 'v, int \<times> k_file) vol_op"
  native_list :: "k_file \<Rightarrow> ('h, 'v, int \<times> k_dirent list) vol_op"
  fat_list :: "k_file \<Rightarrow> ('h, 'v, int \<times> k_dirent list) vol_op"

definition on_volume :: "('h, 'v, 'r) vol_op \<Rightarrow> ('h, 'v) vfs \<Rightarrow> 'r \<times> ('h, 'v) vfs" where
  "on_volume f s = (case f (vf_vol s, vf_store s) of (r, v, ds) \<Rightarrow> (r, s\<lparr>vf_vol := v, vf_store := ds\<rparr>))"

definition vf_pmm :: "('h, 'v) vfs \<Rightarrow> pmm" where
  "vf_pmm s = s_pmm (vf_store s)"

definition set_pmm :: "pmm \<Rightarrow> ('h, 'v) vfs \<Rightarrow> ('h, 'v) vfs" where
  "set_pmm pm s = s\<lparr>vf_store := (vf_store s)\<lparr>s_pmm := pm\<rparr>\<rparr>"

definition set_node :: "nat \<Rightarrow> ram_node \<Rightarrow> ('h, 'v) vfs \<Rightarrow> ('h, 'v) vfs" where
  "set_node i r s = s\<lparr>vf_nodes := (vf_nodes s)(i := r)\<rparr>"

definition zero_node :: ram_node where
  "zero_node = \<lparr>n_used = False, n_directory = False, n_parent = 0, n_block_id = 0, n_kind = 0, n_pages = 0,
     n_name = [], n_data = 0, n_size = 0\<rparr>"

section \<open>The RAM name space\<close>

definition ram_child :: "(nat \<Rightarrow> ram_node) \<Rightarrow> nat \<Rightarrow> string \<Rightarrow> int + nat" where
  "ram_child nodes parent name =
     (case find_from 1 MAX_NODES (\<lambda>i. n_used (nodes i) \<and> n_parent (nodes i) = parent \<and> str_eq (n_name (nodes i)) name) of
        Some i \<Rightarrow> Inr i
      | None \<Rightarrow> Inl K_ENOENT)"

text \<open>
  The walk reads a component into a buffer of \<open>K_NAME_MAX + 1\<close> characters; every caller passes a
  resolved path, which is shorter than the buffer.
\<close>

definition name_part :: "char \<Rightarrow> bool" where
  "name_part c \<longleftrightarrow> c \<noteq> NUL \<and> c \<noteq> SLASH"

function ram_walk_loop :: "(nat \<Rightarrow> ram_node) \<Rightarrow> string \<Rightarrow> nat \<Rightarrow> int + nat" where
  "ram_walk_loop nodes path at =
     (if cur path = NUL then Inr at
      else if cur path = SLASH then ram_walk_loop nodes (tl path) at
      else if \<not> n_directory (nodes at) then Inl K_ENOENT
      else case ram_child nodes at (takeWhile name_part path) of
        Inl e \<Rightarrow> Inl e
      | Inr k \<Rightarrow> ram_walk_loop nodes (dropWhile name_part path) k)"
  by pat_completeness auto
termination
proof (relation "measure (\<lambda>(nodes, path, at). length path)", goal_cases)
  case (2 nodes path at)
  then show ?case by (cases path) auto
next
  case (3 nodes path at k)
  then show ?case by (cases path) (auto simp: name_part_def le_imp_less_Suc length_dropWhile_le)
qed simp

declare ram_walk_loop.simps [simp del]

definition ram_walk :: "(nat \<Rightarrow> ram_node) \<Rightarrow> string \<Rightarrow> int + nat" where
  "ram_walk nodes path = ram_walk_loop nodes path 0"

text \<open>Where the last component starts: the loop of \<open>ram_new\<close> from the end to the last slash.\<close>

fun name_split :: "string \<Rightarrow> nat \<Rightarrow> nat" where
  "name_split p 0 = 0"
| "name_split p (Suc n) = (if p ! n \<noteq> SLASH then name_split p n else Suc n)"

definition ram_new :: "string \<Rightarrow> bool \<Rightarrow> (nat \<Rightarrow> ram_node) \<Rightarrow> (int + nat) \<times> (nat \<Rightarrow> ram_node)" where
  "ram_new path directory nodes =
     (let parent = str_copy [] path K_PATH_BYTES; n = str_len parent in
      if n \<le> 1 then (Inl K_EEXIST, nodes)
      else
        let split = name_split parent n; name = str_copy [] (drop split parent) (K_NAME_MAX + 1);
            parent = take (if split > 1 then split - 1 else 1) parent in
        case ram_walk nodes parent of
          Inl _ \<Rightarrow> (Inl K_ENOENT, nodes)
        | Inr p \<Rightarrow>
            if \<not> n_directory (nodes p) then (Inl K_ENOENT, nodes)
            else case ram_child nodes p name of
              Inr _ \<Rightarrow> (Inl K_EEXIST, nodes)
            | Inl _ \<Rightarrow>
                (case find_from 1 MAX_NODES (\<lambda>i. \<not> n_used (nodes i)) of
                   None \<Rightarrow> (Inl K_ENOMEM, nodes)
                 | Some i \<Rightarrow>
                     (Inr i, nodes(i := zero_node\<lparr>n_used := True, n_parent := p, n_directory := directory, n_kind := 1,
                        n_name := str_copy [] name (K_NAME_MAX + 1)\<rparr>))))"

definition new_node :: "string \<Rightarrow> bool \<Rightarrow> ('h, 'v) vfs \<Rightarrow> (int + nat) \<times> ('h, 'v) vfs" where
  "new_node path directory s = (case ram_new path directory (vf_nodes s) of (r, nodes) \<Rightarrow> (r, s\<lparr>vf_nodes := nodes\<rparr>))"

section \<open>Mounts\<close>

fun choose_mount_loop :: "string \<Rightarrow> mount_entry list \<Rightarrow> nat \<Rightarrow> nat option \<Rightarrow> nat \<Rightarrow> nat option" where
  "choose_mount_loop path [] i best longest = best"
| "choose_mount_loop path (m # ms) i best longest =
     (if path_prefix path (mt_path m) \<and> str_len (mt_path m) > longest
      then choose_mount_loop path ms (Suc i) (Some i) (str_len (mt_path m))
      else choose_mount_loop path ms (Suc i) best longest)"

definition choose_mount :: "string \<Rightarrow> mount_entry list \<Rightarrow> nat option" where
  "choose_mount path ms = choose_mount_loop path ms 0 None 0"

text \<open>The rest of a path below a mount.\<close>

definition below :: "mount_entry \<Rightarrow> string \<Rightarrow> string" where
  "below m path = drop (str_len (mt_path m)) path"

section \<open>Calls\<close>

definition k_vfs_init :: "('h, 'v) vfs \<Rightarrow> int \<times> ('h, 'v) vfs" where
  "k_vfs_init s =
     (if vf_ready s then (K_EBUSY, s)
      else (0, (set_node 0 ((vf_nodes s 0)\<lparr>n_used := True, n_directory := True, n_kind := 1\<rparr>) s)\<lparr>vf_ready := True\<rparr>))"

definition vfs_open_locked ::
  "('h, 'v) volume_ops \<Rightarrow> string \<Rightarrow> k_file \<Rightarrow> ('h, 'v) vfs \<Rightarrow> (int \<times> k_file) \<times> ('h, 'v) vfs" where
  "vfs_open_locked ops path out s =
     (case choose_mount path (vf_mounts s) of
        Some i \<Rightarrow>
          let m = vf_mounts s ! i in
          on_volume ((if mt_kind m \<ge> 4 then native_open else fat_open) ops (mt_volume m) (below m path) out) s
      | None \<Rightarrow>
          (case ram_walk (vf_nodes s) path of
             Inl e \<Rightarrow> ((e, out), s)
           | Inr n \<Rightarrow>
               let r = vf_nodes s n in
               ((0, \<lparr>fl_kind = n_kind r, fl_object = (if n_kind r = 3 then n_block_id r else n), fl_cluster = 0,
                     fl_attributes = (if n_directory r then 0x10 else 0), fl_size = n_size r,
                     fl_directory_offset = 0\<rparr>), s)))"

definition k_vfs_open ::
  "('h, 'v) volume_ops \<Rightarrow> string \<Rightarrow> k_file \<Rightarrow> ('h, 'v) vfs \<Rightarrow> (int \<times> k_file) \<times> ('h, 'v) vfs" where
  "k_vfs_open ops path out s =
     (if \<not> vf_ready s then ((K_EINVAL, out), s)
      else case k_path_resolve (vf_roots s) path [SLASH] of
        Inl e \<Rightarrow> ((e, out), s)
      | Inr p \<Rightarrow> vfs_open_locked ops p out s)"

definition k_vfs_mkdir :: "('h, 'v) volume_ops \<Rightarrow> string \<Rightarrow> ('h, 'v) vfs \<Rightarrow> int \<times> ('h, 'v) vfs" where
  "k_vfs_mkdir ops path s =
     (if \<not> vf_ready s then (K_EINVAL, s)
      else case k_path_resolve (vf_roots s) path [SLASH] of
        Inl e \<Rightarrow> (e, s)
      | Inr p \<Rightarrow>
          (case choose_mount p (vf_mounts s) of
             Some i \<Rightarrow>
               let m = vf_mounts s ! i in
               (case on_volume ((if mt_kind m \<ge> 4 then native_create else fat_create_locked) ops (mt_volume m) (below m p)
                       True zero_file) s of ((e, _), s) \<Rightarrow> (e, s))
           | None \<Rightarrow> (case new_node p True s of (Inl e, s) \<Rightarrow> (e, s) | (Inr _, s) \<Rightarrow> (0, s))))"

text \<open>The last step of a store to a RAM file: release the old pages, install the new ones.\<close>

definition install :: "nat \<Rightarrow> nat \<Rightarrow> nat \<Rightarrow> nat \<Rightarrow> ('h, 'v) vfs \<Rightarrow> ('h, 'v) vfs" where
  "install i data sz pages s =
     (let r = vf_nodes s i;
          s = (if n_data r \<noteq> 0 then set_pmm (k_pmm_free_pages (n_data r) (n_pages r) (vf_pmm s)) s else s) in
      set_node i (r\<lparr>n_data := data, n_size := sz, n_pages := pages\<rparr>) s)"

definition write_ram :: "nat \<Rightarrow> bytes \<Rightarrow> nat \<Rightarrow> ('h, 'v) vfs \<Rightarrow> ('h, 'v) vfs" where
  "write_ram a b n s = set_pmm ((vf_pmm s)\<lparr>ram := put_bytes (ram (vf_pmm s)) a b 0 n\<rparr>) s"

text \<open>The pages for a new image; \<open>pages\<close> = 0 needs none. A zero address for a positive count is out of memory.\<close>

definition image_pages :: "nat \<Rightarrow> ('h, 'v) vfs \<Rightarrow> nat \<times> ('h, 'v) vfs" where
  "image_pages pages s =
     (if pages = 0 then (0, s)
      else case k_pmm_alloc_pages pages 0 (vf_pmm s) of (a, pm) \<Rightarrow> (a, set_pmm pm s))"

definition ram_put :: "string \<Rightarrow> bytes option \<Rightarrow> nat \<Rightarrow> ('h, 'v) vfs \<Rightarrow> int \<times> ('h, 'v) vfs" where
  "ram_put p data sz s =
     (let index = ram_walk (vf_nodes s) p in
      if (case index of Inr i \<Rightarrow> n_directory (vf_nodes s i) \<or> n_kind (vf_nodes s i) \<noteq> 1 | Inl _ \<Rightarrow> False)
      then (K_EINVAL, s)
      else
        let pages = (sz + 4095) div 4096 in
        case image_pages pages s of
          (a, s) \<Rightarrow>
            if pages \<noteq> 0 \<and> a = 0 then (K_ENOMEM, s)
            else case (case index of Inr i \<Rightarrow> (Inr i, s) | Inl _ \<Rightarrow> new_node p False s) of
              (Inl e, s) \<Rightarrow> (e, if a \<noteq> 0 then set_pmm (k_pmm_free_pages a pages (vf_pmm s)) s else s)
            | (Inr i, s) \<Rightarrow>
                (0, install i a sz pages (if sz \<noteq> 0 then write_ram a (the data) sz s else s)))"

definition k_vfs_put :: "('h, 'v) volume_ops \<Rightarrow> string \<Rightarrow> bytes option \<Rightarrow> nat \<Rightarrow> ('h, 'v) vfs \<Rightarrow> int \<times> ('h, 'v) vfs" where
  "k_vfs_put ops path data sz s =
     (if \<not> vf_ready s \<or> data = None \<and> sz \<noteq> 0 \<or> sz > 4 * 1024 * 1024 then (K_EINVAL, s)
      else case k_path_resolve (vf_roots s) path [SLASH] of
        Inl e \<Rightarrow> (e, s)
      | Inr p \<Rightarrow>
          (case choose_mount p (vf_mounts s) of
             Some i \<Rightarrow>
               let m = vf_mounts s ! i in
               on_volume ((if mt_kind m \<ge> 4 then native_store else fat_store_locked) ops (mt_volume m) (below m p) data sz) s
           | None \<Rightarrow> ram_put p data sz s))"

definition k_vfs_create ::
  "('h, 'v) volume_ops \<Rightarrow> string \<Rightarrow> k_file \<Rightarrow> ('h, 'v) vfs \<Rightarrow> (int \<times> k_file) \<times> ('h, 'v) vfs" where
  "k_vfs_create ops path out s =
     (if \<not> vf_ready s then ((K_EINVAL, out), s)
      else case k_path_resolve (vf_roots s) path [SLASH] of
        Inl e \<Rightarrow> ((e, out), s)
      | Inr p \<Rightarrow>
          (case vfs_open_locked ops p zero_file s of
             ((e, _), s) \<Rightarrow>
               if e = 0 then ((K_EEXIST, out), s)
               else if e \<noteq> K_ENOENT then ((e, out), s)
               else case choose_mount p (vf_mounts s) of
                 Some i \<Rightarrow>
                   let m = vf_mounts s ! i in
                   on_volume ((if mt_kind m \<ge> 4 then native_create else fat_create_locked) ops (mt_volume m) (below m p)
                     False out) s
               | None \<Rightarrow>
                   (case new_node p False s of
                      (Inl e, s) \<Rightarrow> ((e, out), s)
                    | (Inr _, s) \<Rightarrow> vfs_open_locked ops p out s)))"

section \<open>Reading, writing and listing\<close>

text \<open>The result is \<open>None\<close> only for the division fault of \<^const>\<open>disk_bytes\<close>.\<close>

definition k_vfs_read ::
  "('h, 'v) volume_ops \<Rightarrow> 'h hw \<Rightarrow> k_file \<Rightarrow> nat \<Rightarrow> bytes option \<Rightarrow> nat \<Rightarrow> ('h, 'v) vfs \<Rightarrow>
   ((int \<times> bytes option \<times> nat) \<times> ('h, 'v) vfs) option" where
  "k_vfs_read ops h file offset out n s =
     (if out = None \<and> n \<noteq> 0 then Some ((K_EINVAL, out, 0), s)
      else if fl_attributes file AND 0x10 \<noteq> 0 then Some ((K_EINVAL, out, 0), s)
      else let buf = (case out of Some b \<Rightarrow> b | None \<Rightarrow> (\<lambda>_. 0)); back = (\<lambda>b. map_option (\<lambda>_. b) out) in
      if fl_kind file = 1 then
        if fl_object file \<ge> MAX_NODES \<or> \<not> n_used (vf_nodes s (fl_object file)) then Some ((K_ENOENT, out, 0), s)
        else
          let r = vf_nodes s (fl_object file) in
          if offset < n_size r then
            let n = min n (n_size r - offset) in
            Some ((0, back (put_bytes buf 0 (ram (vf_pmm s)) (n_data r + offset) n), n), s)
          else Some ((0, out, 0), s)
      else if fl_kind file = 4 \<or> fl_kind file = 5 then
        (case on_volume (native_read ops file offset buf n) s of ((e, b, got), s) \<Rightarrow> Some ((e, back b, got), s))
      else if fl_kind file = 2 then
        (case on_volume (fat_read ops file offset buf n) s of ((e, b, got), s) \<Rightarrow> Some ((e, back b, got), s))
      else if fl_kind file = 3 then
        if fl_object file \<ge> s_disk_count (vf_store s) then Some ((K_ENOENT, out, 0), s)
        else
          let d = s_disks (vf_store s) (fl_object file); sz = d_sectors d * d_sector_size d mod 2 ^ 64 in
          if offset < sz then
            let n = min n (sz - offset) in
            (case disk_bytes h (fl_object file) offset buf n (vf_store s) of
               None \<Rightarrow> None
             | Some ((e, b), ds) \<Rightarrow> Some ((e, back b, if e = 0 then n else 0), s\<lparr>vf_store := ds\<rparr>))
          else Some ((0, out, 0), s)
      else Some ((K_ENOTSUP, out, 0), s))"

text \<open>The first half of \<open>k_vfs_write\<close>: bring the caller's file up to date.\<close>

definition write_target :: "('h, 'v) volume_ops \<Rightarrow> k_file \<Rightarrow> ('h, 'v) vfs \<Rightarrow> (int \<times> k_file) \<times> ('h, 'v) vfs" where
  "write_target ops file s =
     (if fl_kind file = 2 then on_volume (fat_refresh ops file) s
      else if fl_kind file = 1 \<and> fl_object file < MAX_NODES \<and> n_used (vf_nodes s (fl_object file)) then
        let r = vf_nodes s (fl_object file) in
        ((if n_kind r \<noteq> 1 \<or> n_directory r then K_EINVAL else 0, file\<lparr>fl_size := n_size r\<rparr>), s)
      else ((K_EINVAL, file), s))"

text \<open>The old contents at \<open>img\<close>: the error of the read of a FAT file.\<close>

definition load_image :: "('h, 'v) volume_ops \<Rightarrow> k_file \<Rightarrow> nat \<Rightarrow> ('h, 'v) vfs \<Rightarrow> int \<times> ('h, 'v) vfs" where
  "load_image ops file img s =
     (if fl_kind file = 2 then
        case on_volume (fat_read ops file 0 (\<lambda>_. 0) (fl_size file)) s of
          ((e, b, got), s) \<Rightarrow>
            (if e = 0 \<and> got \<noteq> fl_size file then K_EIO else e, write_ram img b (fl_size file) s)
      else if fl_size file \<noteq> 0 then
        (0, set_pmm ((vf_pmm s)\<lparr>ram := mem_copy (ram (vf_pmm s)) img (n_data (vf_nodes s (fl_object file))) (fl_size file)\<rparr>) s)
      else (0, s))"

definition store_image ::
  "('h, 'v) volume_ops \<Rightarrow> k_file \<Rightarrow> nat \<Rightarrow> nat \<Rightarrow> nat \<Rightarrow> ('h, 'v) vfs \<Rightarrow> (int \<times> k_file) \<times> ('h, 'v) vfs" where
  "store_image ops file img sz pages s =
     (if fl_kind file = 2 then
        case on_volume (fat_replace_locked ops file (\<lambda>j. ram (vf_pmm s) (img + j)) sz) s of
          (r, s) \<Rightarrow> (r, set_pmm (k_pmm_free_pages img pages (vf_pmm s)) s)
      else ((0, file\<lparr>fl_size := sz\<rparr>), install (fl_object file) img sz pages s))"

text \<open>The second half: a new image of the whole file, with the bytes at \<open>offset\<close> replaced, takes the place of the old.\<close>

definition write_image ::
  "('h, 'v) volume_ops \<Rightarrow> k_file \<Rightarrow> nat \<Rightarrow> bytes \<Rightarrow> nat \<Rightarrow> ('h, 'v) vfs \<Rightarrow> (int \<times> k_file \<times> nat) \<times> ('h, 'v) vfs" where
  "write_image ops file offset b n s =
     (let sz = (if fl_size file > offset + n then fl_size file else offset + n);
          pages = (sz + 4095) div 4096 in
      case image_pages pages s of
        (img, s) \<Rightarrow>
          if img = 0 then ((K_ENOMEM, file, 0), s)
          else case load_image ops file img s of
            (e, s) \<Rightarrow>
              if e \<noteq> 0 then ((e, file, 0), set_pmm (k_pmm_free_pages img pages (vf_pmm s)) s)
              else case store_image ops file img sz pages (write_ram (img + offset) b n s) of
                ((e, file), s) \<Rightarrow> ((e, file, if e = 0 then n else 0), s))"

definition k_vfs_write ::
  "('h, 'v) volume_ops \<Rightarrow> k_file \<Rightarrow> nat \<Rightarrow> bytes option \<Rightarrow> nat \<Rightarrow> ('h, 'v) vfs \<Rightarrow> (int \<times> k_file \<times> nat) \<times> ('h, 'v) vfs" where
  "k_vfs_write ops file offset data n s =
     (if data = None \<and> n \<noteq> 0 then ((K_EINVAL, file, 0), s)
      else if fl_kind file = 3 then ((K_EROFS, file, 0), s)
      else if n > FAT_WRITE_MAX then ((K_E2BIG, file, 0), s)
      else if fl_kind file = 4 \<or> fl_kind file = 5 then on_volume (native_write ops file offset data n) s
      else case write_target ops file s of
        ((e, file), s) \<Rightarrow>
          if e \<noteq> 0 then ((e, file, 0), s)
          else if fl_attributes file AND 0x11 \<noteq> 0 then ((K_EROFS, file, 0), s)
          else
            let offset = (if offset = 2 ^ 64 - 1 then fl_size file else offset) in
            if fl_size file > FAT_WRITE_MAX \<or> offset > FAT_WRITE_MAX \<or> n > FAT_WRITE_MAX - offset
            then ((K_E2BIG, file, 0), s)
            else if n = 0 then ((0, file, 0), s)
            else write_image ops file offset (the data) n s)"

definition k_vfs_stat :: "('h, 'v) volume_ops \<Rightarrow> k_file \<Rightarrow> ('h, 'v) vfs \<Rightarrow> (int \<times> k_file) \<times> ('h, 'v) vfs" where
  "k_vfs_stat ops file s =
     (if fl_kind file = 1 then
        if fl_object file \<ge> MAX_NODES \<or> \<not> n_used (vf_nodes s (fl_object file)) then ((K_ENOENT, file), s)
        else ((0, file\<lparr>fl_size := n_size (vf_nodes s (fl_object file))\<rparr>), s)
      else if fl_kind file = 2 then on_volume (fat_refresh ops file) s
      else if fl_kind file = 4 \<or> fl_kind file = 5 then on_volume (native_refresh ops file) s
      else if fl_kind file \<noteq> 3 \<or> fl_object file \<ge> s_disk_count (vf_store s) then ((K_EINVAL, file), s)
      else ((0, file), s))"

definition node_dirent :: "ram_node \<Rightarrow> k_dirent" where
  "node_dirent r = \<lparr>de_name = str_copy [] (n_name r) (K_NAME_MAX + 1), de_size = n_size r, de_directory = n_directory r\<rparr>"

text \<open>The entries the callback receives, in order.\<close>

definition k_vfs_list :: "('h, 'v) volume_ops \<Rightarrow> string \<Rightarrow> ('h, 'v) vfs \<Rightarrow> (int \<times> k_dirent list) \<times> ('h, 'v) vfs" where
  "k_vfs_list ops path s =
     (case k_path_resolve (vf_roots s) path [SLASH] of
        Inl e \<Rightarrow> ((e, []), s)
      | Inr p \<Rightarrow>
          (case vfs_open_locked ops p zero_file s of
             ((e, f), s) \<Rightarrow>
               if e \<noteq> 0 then ((e, []), s)
               else if fl_attributes f AND 0x10 = 0 then ((K_EINVAL, []), s)
               else if fl_kind f = 4 \<or> fl_kind f = 5 then on_volume (native_list ops f) s
               else if fl_kind f = 2 then on_volume (fat_list ops f) s
               else if fl_kind f = 1 then
                 ((0, map (\<lambda>i. node_dirent (vf_nodes s i))
                    (filter (\<lambda>i. n_used (vf_nodes s i) \<and> n_parent (vf_nodes s i) = fl_object f) [1..<MAX_NODES])), s)
               else ((0, []), s)))"

end
