(* ===== verification/VfsInv.thy ===== *)
theory VfsInv
  imports Vfs
begin

text \<open>
  Correctness of the RAM name space and of the mount table: walks over path strings are walks over
  component lists, a store or a write to a file gives it exactly the new contents and leaves every
  other file alone, failed calls change no file, and the mount chosen for a path is the longest one
  that contains it.
\<close>

section \<open>Walking components\<close>

fun node_walk :: "(nat \<Rightarrow> ram_node) \<Rightarrow> string list \<Rightarrow> nat \<Rightarrow> int + nat" where
  "node_walk nodes [] at = Inr at"
| "node_walk nodes (c # cs) at =
     (if \<not> n_directory (nodes at) then Inl K_ENOENT
      else case ram_child nodes at c of Inl e \<Rightarrow> Inl e | Inr k \<Rightarrow> node_walk nodes cs k)"

lemma good_name_part: "good_name c \<Longrightarrow> x \<in> set c \<Longrightarrow> name_part x"
  by (fastforce simp: good_name_def name_ok_def name_part_def)

lemma good_nameD: "good_name c \<Longrightarrow> c \<noteq> [] \<and> cstr c \<and> length c \<le> K_NAME_MAX"
  by (fastforce simp: good_name_def name_ok_def cstr_def)

lemma name_part_stops:
  assumes "good_name c" "rest = [] \<or> hd rest = SLASH"
  shows "takeWhile name_part (c @ rest) = c" "dropWhile name_part (c @ rest) = rest"
proof -
  have all: "\<forall>x\<in>set c. name_part x" using assms(1) good_name_part by blast
  have "takeWhile name_part rest = []" "dropWhile name_part rest = rest"
    using assms(2) by (cases rest; auto simp: name_part_def)+
  then show "takeWhile name_part (c @ rest) = c" "dropWhile name_part (c @ rest) = rest"
    using all by (simp_all add: takeWhile_append2 dropWhile_append2)
qed

lemma ram_walk_loop_concat:
  "\<forall>c\<in>set cs. good_name c \<Longrightarrow> ram_walk_loop nodes (concat (map (\<lambda>c. SLASH # c) cs)) at = node_walk nodes cs at"
proof (induction cs arbitrary: at)
  case Nil
  then show ?case by (simp add: ram_walk_loop.simps[of _ "[]"])
next
  case (Cons c cs)
  let ?rest = "concat (map (\<lambda>c. SLASH # c) cs)"
  have c: "good_name c" using Cons.prems by simp
  have stop: "?rest = [] \<or> hd ?rest = SLASH" by (cases cs) auto
  obtain x c' where x: "c = x # c'" "name_part x" using c good_nameD[OF c] good_name_part[OF c] by (cases c) auto
  have "ram_walk_loop nodes (SLASH # c @ ?rest) at = ram_walk_loop nodes (c @ ?rest) at"
    by (simp add: ram_walk_loop.simps[of _ "SLASH # _"])
  also have "\<dots> = (if \<not> n_directory (nodes at) then Inl K_ENOENT
      else case ram_child nodes at (takeWhile name_part (c @ ?rest)) of Inl e \<Rightarrow> Inl e
        | Inr k \<Rightarrow> ram_walk_loop nodes (dropWhile name_part (c @ ?rest)) k)"
    using x unfolding ram_walk_loop.simps[of nodes "c @ ?rest" at] by (simp add: name_part_def)
  also have "\<dots> = node_walk nodes (c # cs) at"
    unfolding name_part_stops[OF c stop] using Cons by (simp split: sum.splits)
  finally show ?case by simp
qed

lemma ram_walk_render: "canonical_path cs \<Longrightarrow> ram_walk nodes (render cs) = node_walk nodes cs 0"
  using ram_walk_loop_concat[of cs nodes 0]
  by (cases cs) (auto simp: ram_walk_def render_def canonical_path_def ram_walk_loop.simps[of _ "[SLASH]"]
      ram_walk_loop.simps[of _ "[]"])

lemma name_split_scan:
  assumes "SLASH \<notin> set c" "k \<le> length c"
  shows "name_split (pre @ SLASH # c) (Suc (length pre) + k) = Suc (length pre)"
  using assms(2)
proof (induction k)
  case 0
  then show ?case by (simp add: nth_append)
next
  case (Suc k)
  have "(pre @ SLASH # c) ! (Suc (length pre) + k) = c ! k" by (simp add: nth_append)
  moreover have "c ! k \<noteq> SLASH" using assms(1) Suc.prems by (metis Suc_le_lessD nth_mem)
  ultimately show ?case using Suc by simp
qed

lemma canonical_snoc: "canonical_path (cs @ [c]) \<Longrightarrow> canonical_path cs \<and> good_name c"
  using render_mono[of cs "[c]"] by (auto simp: canonical_path_def)

text \<open>What \<open>ram_new\<close> does, on components.\<close>

definition added :: "nat \<Rightarrow> string \<Rightarrow> bool \<Rightarrow> ram_node" where
  "added p c directory = zero_node\<lparr>n_used := True, n_parent := p, n_directory := directory, n_kind := 1, n_name := c\<rparr>"

lemma ram_new_render:
  assumes "canonical_path (cs @ [c])"
  shows "ram_new (render (cs @ [c])) directory nodes =
    (case node_walk nodes cs 0 of
       Inl _ \<Rightarrow> (Inl K_ENOENT, nodes)
     | Inr p \<Rightarrow>
         if \<not> n_directory (nodes p) then (Inl K_ENOENT, nodes)
         else case ram_child nodes p c of
           Inr _ \<Rightarrow> (Inl K_EEXIST, nodes)
         | Inl _ \<Rightarrow>
             (case find_from 1 MAX_NODES (\<lambda>i. \<not> n_used (nodes i)) of
                None \<Rightarrow> (Inl K_ENOMEM, nodes)
              | Some i \<Rightarrow> (Inr i, nodes(i := added p c directory))))"
proof -
  define pre where "pre = (if cs = [] then [] else render cs)"
  have r: "render (cs @ [c]) = pre @ SLASH # c" by (simp add: render_snoc pre_def)
  have cs: "canonical_path cs" "good_name c" using canonical_snoc[OF assms] by auto
  have copy: "str_copy [] (pre @ SLASH # c) K_PATH_BYTES = pre @ SLASH # c" using copy_render[OF assms] r by simp
  have len: "str_len (pre @ SLASH # c) = Suc (length pre) + length c" "c \<noteq> []"
    using cstr_render[OF assms] r good_nameD[OF cs(2)] by auto
  have split: "name_split (pre @ SLASH # c) (Suc (length pre) + length c) = Suc (length pre)"
    using cs(2) by (intro name_split_scan) (auto simp: good_name_def)
  have name: "str_copy [] c (K_NAME_MAX + 1) = c" using good_nameD[OF cs(2)] by (intro str_copy_fits) auto
  have parent: "take (if Suc (length pre) > 1 then Suc (length pre) - 1 else 1) (pre @ SLASH # c) = render cs"
    by (auto simp: pre_def)
  show ?thesis
    unfolding ram_new_def Let_def r copy len(1) split parent ram_walk_render[OF cs(1)]
    using len(2) name by (auto simp: added_def split: sum.splits option.splits)
qed

lemma ram_new_root: "fst (ram_new (render []) directory nodes) = Inl K_EEXIST" "snd (ram_new (render []) directory nodes) = nodes"
  using copy_render[of "[]"] by (simp_all add: ram_new_def canonical_path_def K_PATH_BYTES_def)

section \<open>The invariant\<close>

text \<open>
  The nodes form a tree: every used node but the root has a used directory as its parent, a proper
  name, and no sibling of the same name. A file's contents are a run of pages the allocator has
  handed out, and no two files share a page.
\<close>

definition tree_ok :: "(nat \<Rightarrow> ram_node) \<Rightarrow> bool" where
  "tree_ok nodes \<longleftrightarrow> n_used (nodes 0) \<and> n_directory (nodes 0) \<and> n_kind (nodes 0) = 1 \<and>
     (\<forall>i. 1 \<le> i \<longrightarrow> i < MAX_NODES \<longrightarrow> n_used (nodes i) \<longrightarrow>
        n_parent (nodes i) < MAX_NODES \<and> n_used (nodes (n_parent (nodes i))) \<and> n_directory (nodes (n_parent (nodes i))) \<and>
        good_name (n_name (nodes i))) \<and>
     (\<forall>i j. 1 \<le> i \<longrightarrow> i < MAX_NODES \<longrightarrow> 1 \<le> j \<longrightarrow> j < MAX_NODES \<longrightarrow> n_used (nodes i) \<longrightarrow> n_used (nodes j) \<longrightarrow>
        n_parent (nodes i) = n_parent (nodes j) \<longrightarrow> n_name (nodes i) = n_name (nodes j) \<longrightarrow> i = j)"

definition block_ok :: "pmm \<Rightarrow> ram_node \<Rightarrow> bool" where
  "block_ok pm r \<longleftrightarrow>
     (if n_data r = 0 then n_pages r = 0 \<and> (n_kind r = 1 \<longrightarrow> n_size r = 0)
      else n_kind r = 1 \<and> \<not> n_directory r \<and> n_data r mod 4096 = 0 \<and> 0 < n_pages r \<and> n_size r \<le> n_pages r * 4096 \<and>
        page_span (n_data r) (n_pages r) \<subseteq> owned_set pm)"

definition blocks_ok :: "(nat \<Rightarrow> ram_node) \<Rightarrow> pmm \<Rightarrow> bool" where
  "blocks_ok nodes pm \<longleftrightarrow>
     (\<forall>i. i < MAX_NODES \<longrightarrow> n_used (nodes i) \<longrightarrow> block_ok pm (nodes i)) \<and>
     (\<forall>i j. i < MAX_NODES \<longrightarrow> j < MAX_NODES \<longrightarrow> n_used (nodes i) \<longrightarrow> n_used (nodes j) \<longrightarrow> i \<noteq> j \<longrightarrow>
        n_data (nodes i) \<noteq> 0 \<longrightarrow> n_data (nodes j) \<noteq> 0 \<longrightarrow>
        page_span (n_data (nodes i)) (n_pages (nodes i)) \<inter> page_span (n_data (nodes j)) (n_pages (nodes j)) = {})"

definition vfs_inv :: "('h, 'v) vfs \<Rightarrow> bool" where
  "vfs_inv s \<longleftrightarrow> vf_ready s \<and> pmm_inv (vf_pmm s) \<and> tree_ok (vf_nodes s) \<and> blocks_ok (vf_nodes s) (vf_pmm s) \<and>
     (\<exists>rcs. roots_ok rcs \<and> vf_roots s = render_roots rcs)"

text \<open>The contents of a file.\<close>

definition content :: "('h, 'v) vfs \<Rightarrow> nat \<Rightarrow> u8 list" where
  "content s i = map (\<lambda>j. ram (vf_pmm s) (n_data (vf_nodes s i) + j)) [0..<n_size (vf_nodes s i)]"

text \<open>A run of pages that is handed out and belongs to no file yet.\<close>

definition image_ok :: "nat \<Rightarrow> nat \<Rightarrow> ('h, 'v) vfs \<Rightarrow> bool" where
  "image_ok a pages s \<longleftrightarrow>
     (if a = 0 then pages = 0
      else a mod 4096 = 0 \<and> 0 < pages \<and> page_span a pages \<subseteq> owned_set (vf_pmm s) \<and>
        (\<forall>i < MAX_NODES. n_used (vf_nodes s i) \<longrightarrow> n_data (vf_nodes s i) \<noteq> 0 \<longrightarrow>
           page_span a pages \<inter> page_span (n_data (vf_nodes s i)) (n_pages (vf_nodes s i)) = {}))"

lemma vf_upd [simp]:
  "vf_pmm (set_pmm pm s) = pm" "vf_nodes (set_pmm pm s) = vf_nodes s" "vf_ready (set_pmm pm s) = vf_ready s"
  "vf_roots (set_pmm pm s) = vf_roots s" "vf_mounts (set_pmm pm s) = vf_mounts s"
  "vf_pmm (set_node i r s) = vf_pmm s" "vf_nodes (set_node i r s) = (vf_nodes s)(i := r)"
  "vf_ready (set_node i r s) = vf_ready s" "vf_roots (set_node i r s) = vf_roots s" "vf_mounts (set_node i r s) = vf_mounts s"
  "vf_pmm (s\<lparr>vf_nodes := nodes\<rparr>) = vf_pmm s"
  by (simp_all add: set_pmm_def vf_pmm_def set_node_def)

lemma vfs_invD:
  assumes "vfs_inv s"
  shows "vf_ready s" "pmm_inv (vf_pmm s)" "tree_ok (vf_nodes s)" "blocks_ok (vf_nodes s) (vf_pmm s)"
  using assms by (auto simp: vfs_inv_def)

lemma blocks_okD:
  assumes "blocks_ok nodes pm" "i < MAX_NODES" "n_used (nodes i)"
  shows "block_ok pm (nodes i)"
    "\<And>j. j < MAX_NODES \<Longrightarrow> n_used (nodes j) \<Longrightarrow> i \<noteq> j \<Longrightarrow> n_data (nodes i) \<noteq> 0 \<Longrightarrow> n_data (nodes j) \<noteq> 0 \<Longrightarrow>
       page_span (n_data (nodes i)) (n_pages (nodes i)) \<inter> page_span (n_data (nodes j)) (n_pages (nodes j)) = {}"
  using assms unfolding blocks_ok_def by blast+

lemma block_owned: "block_ok pm r \<Longrightarrow> n_data r \<noteq> 0 \<Longrightarrow> page_span (n_data r) (n_pages r) \<subseteq> owned_set pm"
  by (simp add: block_ok_def)

text \<open>Only ownership of pages matters for the blocks.\<close>

lemma block_ok_mono: "block_ok pm r \<Longrightarrow> owned_set pm \<subseteq> owned_set pm' \<Longrightarrow> block_ok pm' r"
  by (auto simp: block_ok_def split: if_splits)

lemma blocks_ok_mono: "blocks_ok nodes pm \<Longrightarrow> owned_set pm \<subseteq> owned_set pm' \<Longrightarrow> blocks_ok nodes pm'"
  unfolding blocks_ok_def using block_ok_mono by blast

lemma owned_ram [simp]: "owned_set (pm\<lparr>ram := m\<rparr>) = owned_set pm" "pmm_inv (pm\<lparr>ram := m\<rparr>) = pmm_inv pm"
  by (simp_all add: owned_set_def free_set_def eligible_set_def pmm_inv_def)

text \<open>The bytes of a file lie in its pages.\<close>

lemma content_outside:
  assumes "block_ok pm r" "n_kind r = 1" "j < n_size r" "a mod 4096 = 0"
    "page_span a pages \<inter> page_span (n_data r) (n_pages r) = {} \<or> n_data r = 0"
  shows "n_data r + j \<notin> byte_span a pages"
proof -
  have r: "n_data r \<noteq> 0" "n_data r mod 4096 = 0" "n_size r \<le> n_pages r * 4096"
    using assms(1-3) by (auto simp: block_ok_def split: if_splits)
  then have "n_data r + j \<in> byte_span (n_data r) (n_pages r)" using assms(3) by auto
  then show ?thesis using pages.byte_span_disjoint[of a pages "n_data r" "n_pages r"] assms(4,5) r by blast
qed

section \<open>Steps that keep the files\<close>

definition same_files :: "('h, 'v) vfs \<Rightarrow> ('h, 'v) vfs \<Rightarrow> bool" where
  "same_files s s' \<longleftrightarrow> vf_nodes s' = vf_nodes s \<and>
     (\<forall>i < MAX_NODES. n_used (vf_nodes s i) \<longrightarrow> n_kind (vf_nodes s i) = 1 \<longrightarrow> content s' i = content s i)"

lemma same_files_refl [simp]: "same_files s s"
  by (simp add: same_files_def)

lemma same_files_trans: "same_files s s' \<Longrightarrow> same_files s' s'' \<Longrightarrow> same_files s s''"
  by (simp add: same_files_def)

lemma set_pmm_inv: "vfs_inv s \<Longrightarrow> pmm_inv pm \<Longrightarrow> owned_set (vf_pmm s) \<subseteq> owned_set pm \<Longrightarrow> vfs_inv (set_pmm pm s)"
  by (auto simp: vfs_inv_def intro: blocks_ok_mono)

lemma same_files_ram:
  assumes "\<And>x. x \<notin> byte_span a pages \<Longrightarrow> ram pm x = ram (vf_pmm s) x" "blocks_ok (vf_nodes s) (vf_pmm s)" "a mod 4096 = 0"
    "\<And>i. i < MAX_NODES \<Longrightarrow> n_used (vf_nodes s i) \<Longrightarrow> n_data (vf_nodes s i) \<noteq> 0 \<Longrightarrow>
      page_span a pages \<inter> page_span (n_data (vf_nodes s i)) (n_pages (vf_nodes s i)) = {}"
  shows "same_files s (set_pmm pm s)"
proof -
  have "ram pm (n_data (vf_nodes s i) + j) = ram (vf_pmm s) (n_data (vf_nodes s i) + j)"
    if "i < MAX_NODES" "n_used (vf_nodes s i)" "n_kind (vf_nodes s i) = 1" "j < n_size (vf_nodes s i)" for i j
    using content_outside[OF blocks_okD(1)[OF assms(2) that(1,2)] that(3,4) assms(3)] assms(1,4) that by blast
  then show ?thesis by (simp add: same_files_def content_def)
qed

lemma image_okD:
  assumes "image_ok a pages s" "a \<noteq> 0"
  shows "a mod 4096 = 0" "0 < pages" "page_span a pages \<subseteq> owned_set (vf_pmm s)"
    "\<And>i. i < MAX_NODES \<Longrightarrow> n_used (vf_nodes s i) \<Longrightarrow> n_data (vf_nodes s i) \<noteq> 0 \<Longrightarrow>
      page_span a pages \<inter> page_span (n_data (vf_nodes s i)) (n_pages (vf_nodes s i)) = {}"
  using assms by (auto simp: image_ok_def)

lemma image_pages_ok:
  assumes "vfs_inv s" "image_pages pages s = (a, s')"
  shows "\<exists>pm. s' = set_pmm pm s" "vfs_inv s'" "same_files s s'" "pages = 0 \<or> a \<noteq> 0 \<Longrightarrow> image_ok a pages s'"
    "a \<noteq> 0 \<Longrightarrow> x \<in> byte_span a pages \<Longrightarrow> ram (vf_pmm s') x = 0"
proof -
  note I = vfs_invD[OF assms(1)]
  have self: "s = set_pmm (vf_pmm s) s" by (simp add: set_pmm_def vf_pmm_def)
  consider "pages = 0" "a = 0" "s' = s" | "pages \<noteq> 0" "a = 0" "s' = s"
    | pm where "pages \<noteq> 0" "a \<noteq> 0" "k_pmm_alloc_pages pages 0 (vf_pmm s) = (a, pm)" "s' = set_pmm pm s"
  proof (cases "pages = 0 \<or> a = 0")
    case True
    show ?thesis
    proof (cases "pages = 0")
      case False
      obtain b pm where al: "k_pmm_alloc_pages pages 0 (vf_pmm s) = (b, pm)" by fastforce
      then have "b = 0" "s' = set_pmm pm s" using assms(2) False True by (auto simp: image_pages_def)
      moreover have "pm = vf_pmm s" using pages.alloc_none[OF I(2)] al \<open>b = 0\<close> by simp
      ultimately show ?thesis using that(2) False True self by simp
    qed (use assms(2) that(1) in \<open>simp add: image_pages_def\<close>)
  next
    case False
    obtain b pm where "k_pmm_alloc_pages pages 0 (vf_pmm s) = (b, pm)" by fastforce
    then show ?thesis using that(3)[of pm] assms(2) False by (auto simp: image_pages_def)
  qed
  then have "(\<exists>pm. s' = set_pmm pm s) \<and> vfs_inv s' \<and> same_files s s' \<and> (pages = 0 \<or> a \<noteq> 0 \<longrightarrow> image_ok a pages s') \<and>
      (a \<noteq> 0 \<longrightarrow> x \<in> byte_span a pages \<longrightarrow> ram (vf_pmm s') x = 0)"
  proof cases
    case 1
    then show ?thesis using assms(1) self by (auto simp: image_ok_def)
  next
    case 2
    then show ?thesis using assms(1) self by auto
  next
    case 3
    note A = pages.alloc_some[OF I(2) 3(3,2)]
    have d: "page_span a pages \<inter> page_span (n_data (vf_nodes s i)) (n_pages (vf_nodes s i)) = {}"
      if "i < MAX_NODES" "n_used (vf_nodes s i)" "n_data (vf_nodes s i) \<noteq> 0" for i
      using A block_owned[OF blocks_okD(1)[OF I(4) that(1,2)] that(3)] by blast
    have "vfs_inv s'" using set_pmm_inv[OF assms(1) pages.alloc_invar[OF I(2) 3(3)]] A 3(4) by auto
    moreover have "same_files s s'" unfolding 3(4)
    proof (rule same_files_ram[OF _ I(4)])
      show "a mod 4096 = 0" using A by simp
      show "ram pm y = ram (vf_pmm s) y" if "y \<notin> byte_span a pages" for y using A that by auto
    qed (rule d)
    moreover have "image_ok a pages s'" using A 3(2,4) d by (auto simp: image_ok_def)
    ultimately show ?thesis using 3 A by auto
  qed
  then show "\<exists>pm. s' = set_pmm pm s" "vfs_inv s'" "same_files s s'" "pages = 0 \<or> a \<noteq> 0 \<Longrightarrow> image_ok a pages s'"
    "a \<noteq> 0 \<Longrightarrow> x \<in> byte_span a pages \<Longrightarrow> ram (vf_pmm s') x = 0" by blast+
qed

text \<open>Writing inside the image, and giving it back.\<close>

lemma image_write_ok:
  assumes "vfs_inv s" "image_ok a pages s" "a \<noteq> 0" "\<And>x. x \<notin> byte_span a pages \<Longrightarrow> m x = ram (vf_pmm s) x"
  shows "vfs_inv (set_pmm ((vf_pmm s)\<lparr>ram := m\<rparr>) s)" "image_ok a pages (set_pmm ((vf_pmm s)\<lparr>ram := m\<rparr>) s)"
    "same_files s (set_pmm ((vf_pmm s)\<lparr>ram := m\<rparr>) s)"
proof -
  show "vfs_inv (set_pmm ((vf_pmm s)\<lparr>ram := m\<rparr>) s)"
    using vfs_invD(2)[OF assms(1)] by (intro set_pmm_inv[OF assms(1)]) simp_all
  show "image_ok a pages (set_pmm ((vf_pmm s)\<lparr>ram := m\<rparr>) s)" using assms(2) unfolding image_ok_def vf_upd owned_ram .
  show "same_files s (set_pmm ((vf_pmm s)\<lparr>ram := m\<rparr>) s)"
  proof (rule same_files_ram[OF _ vfs_invD(4)[OF assms(1)] image_okD(1)[OF assms(2,3)] image_okD(4)[OF assms(2,3)]])
    show "ram ((vf_pmm s)\<lparr>ram := m\<rparr>) x = ram (vf_pmm s) x" if "x \<notin> byte_span a pages" for x
      using assms(4)[OF that] by simp
  qed
qed

lemma write_ram_ok:
  assumes "vfs_inv s" "image_ok a pages s" "a \<noteq> 0" "off + n \<le> pages * 4096"
  shows "vfs_inv (write_ram (a + off) b n s)" "image_ok a pages (write_ram (a + off) b n s)"
    "same_files s (write_ram (a + off) b n s)"
proof -
  have "put_bytes (ram (vf_pmm s)) (a + off) b 0 n x = ram (vf_pmm s) x" if "x \<notin> byte_span a pages" for x
    using that assms(4) by (auto simp: put_bytes_apply)
  from image_write_ok[OF assms(1-3) this] show "vfs_inv (write_ram (a + off) b n s)"
    "image_ok a pages (write_ram (a + off) b n s)" "same_files s (write_ram (a + off) b n s)"
    unfolding write_ram_def by blast+
qed

lemma image_release_ok:
  assumes "vfs_inv s" "image_ok a pages s" "a \<noteq> 0"
  shows "vfs_inv (set_pmm (k_pmm_free_pages a pages (vf_pmm s)) s)" "same_files s (set_pmm (k_pmm_free_pages a pages (vf_pmm s)) s)"
proof -
  note I = vfs_invD[OF assms(1)] and A = image_okD[OF assms(2,3)]
  note R = pages.release_owned[OF I(2) A(1-3)]
  have "block_ok (k_pmm_free_pages a pages (vf_pmm s)) (vf_nodes s i)" if "i < MAX_NODES" "n_used (vf_nodes s i)" for i
    using blocks_okD(1)[OF I(4) that] A(4)[OF that] R by (auto simp: block_ok_def split: if_splits)
  then have "blocks_ok (vf_nodes s) (k_pmm_free_pages a pages (vf_pmm s))"
    using I(4) unfolding blocks_ok_def by blast
  then show "vfs_inv (set_pmm (k_pmm_free_pages a pages (vf_pmm s)) s)"
    using assms(1) pages.release_invar[OF I(2)] by (simp add: vfs_inv_def)
  show "same_files s (set_pmm (k_pmm_free_pages a pages (vf_pmm s)) s)"
    by (simp add: same_files_def content_def pages.release_mem)
qed

section \<open>Installing new contents\<close>

lemma tree_ok_cong:
  assumes "\<And>k. n_used (nodes' k) = n_used (nodes k)" "\<And>k. n_directory (nodes' k) = n_directory (nodes k)"
    "\<And>k. n_parent (nodes' k) = n_parent (nodes k)" "\<And>k. n_kind (nodes' k) = n_kind (nodes k)"
    "\<And>k. n_name (nodes' k) = n_name (nodes k)"
  shows "tree_ok nodes' \<longleftrightarrow> tree_ok nodes"
  unfolding tree_ok_def assms ..

lemma tree_ok_data:
  "tree_ok nodes \<Longrightarrow> tree_ok (nodes(i := (nodes i)\<lparr>n_data := d, n_size := z, n_pages := p\<rparr>))"
  by (subst tree_ok_cong[of _ nodes]) auto

lemma install_ok:
  assumes inv: "vfs_inv s" and im: "image_ok a pages s" and i: "i < MAX_NODES" "n_used (vf_nodes s i)"
    "n_kind (vf_nodes s i) = 1" "\<not> n_directory (vf_nodes s i)" and z: "z \<le> pages * 4096"
  shows "vfs_inv (install i a z pages s)"
    "content (install i a z pages s) i = map (\<lambda>j. ram (vf_pmm s) (a + j)) [0..<z]"
    "vf_nodes (install i a z pages s) = (vf_nodes s)(i := (vf_nodes s i)\<lparr>n_data := a, n_size := z, n_pages := pages\<rparr>)"
    "\<And>k. k \<noteq> i \<Longrightarrow> content (install i a z pages s) k = content s k"
    "vf_mounts (install i a z pages s) = vf_mounts s" "vf_roots (install i a z pages s) = vf_roots s"
proof -
  note I = vfs_invD[OF inv]
  let ?r = "vf_nodes s i" and ?s = "install i a z pages s"
  let ?r' = "?r\<lparr>n_data := a, n_size := z, n_pages := pages\<rparr>"
  define pm where "pm = (if n_data ?r \<noteq> 0 then k_pmm_free_pages (n_data ?r) (n_pages ?r) (vf_pmm s) else vf_pmm s)"
  have s': "?s = set_node i ?r' (set_pmm pm s)"
    by (simp add: install_def Let_def pm_def) (simp add: set_pmm_def vf_pmm_def)
  have ram: "ram pm = ram (vf_pmm s)" by (simp add: pm_def pages.release_mem)
  have pmi: "pmm_inv pm" using I(2) pages.release_invar by (simp add: pm_def)
  note old = blocks_okD[OF I(4) i(1,2)]
  have own: "owned_set pm = owned_set (vf_pmm s) - (if n_data ?r \<noteq> 0 then page_span (n_data ?r) (n_pages ?r) else {})"
    using old(1) pages.release_owned[OF I(2)] by (simp add: pm_def block_ok_def)
  have "block_ok pm (vf_nodes s k)" if k: "k < MAX_NODES" "n_used (vf_nodes s k)" "k \<noteq> i" for k
  proof (cases "n_data (vf_nodes s k) = 0")
    case True
    then show ?thesis using blocks_okD(1)[OF I(4) k(1,2)] by (simp add: block_ok_def)
  next
    case False
    have "page_span (n_data (vf_nodes s k)) (n_pages (vf_nodes s k)) \<subseteq> owned_set pm"
      using block_owned[OF blocks_okD(1)[OF I(4) k(1,2)] False] old(2)[OF k(1,2)] k(3) False unfolding own by (auto split: if_splits)
    then show ?thesis using blocks_okD(1)[OF I(4) k(1,2)] False by (simp add: block_ok_def)
  qed
  moreover have "block_ok pm ?r'"
  proof (cases "a = 0")
    case True
    then show ?thesis using im z by (simp add: block_ok_def image_ok_def)
  next
    case False
    note A = image_okD[OF im False]
    have "page_span a pages \<subseteq> owned_set pm" using A(3) A(4)[OF i(1,2)] unfolding own by (auto split: if_splits)
    then show ?thesis using A z False i by (simp add: block_ok_def)
  qed
  moreover have "page_span a pages \<inter> page_span (n_data (vf_nodes s k)) (n_pages (vf_nodes s k)) = {}"
    if "k < MAX_NODES" "n_used (vf_nodes s k)" "n_data (vf_nodes s k) \<noteq> 0" "a \<noteq> 0" for k
    using image_okD(4)[OF im that(4,1-3)] .
  ultimately have "blocks_ok (vf_nodes ?s) pm"
    using I(4) unfolding blocks_ok_def s' by (simp add: Int_commute del: Int_atLeastLessThan)
  then show "vfs_inv ?s"
    using inv pmi tree_ok_data[OF I(3)] by (simp add: vfs_inv_def s')
  show "content ?s i = map (\<lambda>j. ram (vf_pmm s) (a + j)) [0..<z]" by (simp add: content_def s' ram)
  show "vf_nodes ?s = (vf_nodes s)(i := ?r')" by (simp add: s')
  show "content ?s k = content s k" if "k \<noteq> i" for k using that by (simp add: content_def s' ram)
  show "vf_mounts ?s = vf_mounts s" "vf_roots ?s = vf_roots s" by (simp_all add: s')
qed

section \<open>Adding a node\<close>

lemma find_from_unique:
  assumes "a \<le> i" "i < b" "P i" "\<And>j. a \<le> j \<Longrightarrow> j < b \<Longrightarrow> P j \<Longrightarrow> j = i"
  shows "find_from a b P = Some i"
  using assms find_from_None[of a b P] find_from_Some[of a b P] by (cases "find_from a b P") blast+

lemma tree_okD:
  assumes "tree_ok nodes"
  shows "n_used (nodes 0)" "n_directory (nodes 0)" "n_kind (nodes 0) = 1"
    "\<And>i. 1 \<le> i \<Longrightarrow> i < MAX_NODES \<Longrightarrow> n_used (nodes i) \<Longrightarrow> n_parent (nodes i) < MAX_NODES \<and>
       n_used (nodes (n_parent (nodes i))) \<and> n_directory (nodes (n_parent (nodes i))) \<and> good_name (n_name (nodes i))"
    "\<And>i j. 1 \<le> i \<Longrightarrow> i < MAX_NODES \<Longrightarrow> 1 \<le> j \<Longrightarrow> j < MAX_NODES \<Longrightarrow> n_used (nodes i) \<Longrightarrow> n_used (nodes j) \<Longrightarrow>
       n_parent (nodes i) = n_parent (nodes j) \<Longrightarrow> n_name (nodes i) = n_name (nodes j) \<Longrightarrow> i = j"
  using assms unfolding tree_ok_def by blast+

lemma ram_child_Inr: "ram_child nodes p c = Inr k \<Longrightarrow> 1 \<le> k \<and> k < MAX_NODES \<and> n_used (nodes k) \<and> n_parent (nodes k) = p"
  by (auto simp: ram_child_def split: option.splits dest!: find_from_Some)

lemma ram_child_Inl:
  assumes "tree_ok nodes" "cstr c" "ram_child nodes p c = Inl e" "1 \<le> k" "k < MAX_NODES" "n_used (nodes k)" "n_parent (nodes k) = p"
  shows "n_name (nodes k) \<noteq> c"
proof -
  have "cstr (n_name (nodes k))" using tree_okD(4)[OF assms(1,4-6)] good_nameD by blast
  moreover have "\<not> str_eq (n_name (nodes k)) c"
    using assms(3-7) by (auto simp: ram_child_def find_from_None split: option.splits)
  ultimately show ?thesis using assms(2) by auto
qed

lemma node_walk_append:
  "node_walk nodes (cs @ ds) at = (case node_walk nodes cs at of Inl e \<Rightarrow> Inl e | Inr k \<Rightarrow> node_walk nodes ds k)"
  by (induction cs arbitrary: at) (auto split: sum.splits)

lemma node_walk_used:
  "node_walk nodes cs at = Inr k \<Longrightarrow> at < MAX_NODES \<Longrightarrow> n_used (nodes at) \<Longrightarrow> k < MAX_NODES \<and> n_used (nodes k)"
  by (induction cs arbitrary: at) (auto split: if_splits sum.splits dest: ram_child_Inr)

text \<open>A new node is found under its parent and hides nothing.\<close>

lemma ram_child_added:
  assumes "tree_ok nodes" "\<not> n_used (nodes i)" "1 \<le> i" "i < MAX_NODES" "ram_child nodes p c = Inl e" "cstr c" "cstr c'"
  shows "ram_child (nodes(i := added p c d)) at c' = (if at = p \<and> c' = c then Inr i else ram_child nodes at c')"
proof (cases "at = p \<and> c' = c")
  case True
  let ?n = "nodes(i := added p c d)"
  have "find_from 1 MAX_NODES (\<lambda>k. n_used (?n k) \<and> n_parent (?n k) = p \<and> str_eq (n_name (?n k)) c) = Some i"
  proof (rule find_from_unique[OF assms(3,4)])
    show "n_used (?n i) \<and> n_parent (?n i) = p \<and> str_eq (n_name (?n i)) c" using assms(6) by (simp add: added_def)
    show "k = i" if "1 \<le> k" "k < MAX_NODES" "n_used (?n k) \<and> n_parent (?n k) = p \<and> str_eq (n_name (?n k)) c" for k
    proof (rule ccontr)
      assume "k \<noteq> i"
      then have k: "n_used (nodes k)" "n_parent (nodes k) = p" "str_eq (n_name (nodes k)) c" using that(3) by auto
      moreover have "cstr (n_name (nodes k))" using tree_okD(4)[OF assms(1) that(1,2) k(1)] good_nameD by blast
      ultimately show False using ram_child_Inl[OF assms(1,6,5) that(1,2)] assms(6) by auto
    qed
  qed
  then show ?thesis using True by (simp add: ram_child_def)
next
  case False
  then have "(\<lambda>k. n_used ((nodes(i := added p c d)) k) \<and> n_parent ((nodes(i := added p c d)) k) = at \<and>
      str_eq (n_name ((nodes(i := added p c d)) k)) c') =
    (\<lambda>k. n_used (nodes k) \<and> n_parent (nodes k) = at \<and> str_eq (n_name (nodes k)) c')"
    using assms(2,6,7) by (auto simp: fun_eq_iff added_def)
  then show ?thesis unfolding if_not_P[OF False] by (simp only: ram_child_def)
qed

lemma node_walk_added:
  assumes "tree_ok nodes" "\<not> n_used (nodes i)" "1 \<le> i" "i < MAX_NODES" "ram_child nodes p c = Inl e" "cstr c"
  shows "node_walk nodes cs at = Inr k \<Longrightarrow> at < MAX_NODES \<Longrightarrow> n_used (nodes at) \<Longrightarrow> \<forall>c\<in>set cs. good_name c \<Longrightarrow>
    node_walk (nodes(i := added p c d)) cs at = Inr k"
proof (induction cs arbitrary: at)
  case (Cons c' cs)
  from Cons.prems(1) obtain q where q: "n_directory (nodes at)" "ram_child nodes at c' = Inr q" "node_walk nodes cs q = Inr k"
    by (auto split: if_splits sum.splits)
  have "(nodes(i := added p c d)) at = nodes at" using Cons.prems(3) assms(2) by auto
  moreover have "ram_child (nodes(i := added p c d)) at c' = Inr q"
    using ram_child_added[OF assms, of c' d at] good_nameD Cons.prems(4) q(2) assms(5) by auto
  moreover have "node_walk (nodes(i := added p c d)) cs q = Inr k"
    using ram_child_Inr[OF q(2)] Cons.prems(4) by (intro Cons.IH[OF q(3)]) simp_all
  ultimately show ?case using q(1)
    by (simp only: node_walk.simps sum.case not_True_eq_False if_False)
qed simp

lemma tree_ok_added:
  assumes "tree_ok nodes" "\<not> n_used (nodes i)" "1 \<le> i" "i < MAX_NODES" "ram_child nodes p c = Inl e" "good_name c"
    "p < MAX_NODES" "n_used (nodes p)" "n_directory (nodes p)"
  shows "tree_ok (nodes(i := added p c d))"
proof -
  let ?n = "nodes(i := added p c d)"
  note T = tree_okD[OF assms(1)]
  have pi: "p \<noteq> i" using assms(2,8) by auto
  have "0 \<noteq> i" using assms(3) by simp
  have other: "?n k = nodes k" if "k \<noteq> i" for k using that by simp
  have new: "n_used (?n i)" "n_parent (?n i) = p" "n_name (?n i) = c" "n_directory (?n i) = d" by (simp_all add: added_def)
  have a: "n_parent (?n k) < MAX_NODES \<and> n_used (?n (n_parent (?n k))) \<and> n_directory (?n (n_parent (?n k))) \<and> good_name (n_name (?n k))"
    if k: "1 \<le> k" "k < MAX_NODES" "n_used (?n k)" for k
  proof (cases "k = i")
    case True
    then show ?thesis using new assms(6-9) other[OF pi] by simp
  next
    case False
    then have "n_used (nodes k)" using k(3) by simp
    note N = T(4)[OF k(1,2) this]
    then have "n_parent (nodes k) \<noteq> i" using assms(2) by auto
    then show ?thesis using N other[OF False] other by simp
  qed
  have fresh: "n_name (nodes k) \<noteq> c" if "1 \<le> k" "k < MAX_NODES" "n_used (nodes k)" "n_parent (nodes k) = p" for k
    using ram_child_Inl[OF assms(1) _ assms(5) that] good_nameD[OF assms(6)] by blast
  have b: "k = l" if k: "1 \<le> k" "k < MAX_NODES" "1 \<le> l" "l < MAX_NODES" "n_used (?n k)" "n_used (?n l)"
    "n_parent (?n k) = n_parent (?n l)" "n_name (?n k) = n_name (?n l)" for k l
  proof (cases "k = i \<or> l = i")
    case True
    show ?thesis
    proof (rule ccontr)
      assume "k \<noteq> l"
      then show False using True k new fresh[of k] fresh[of l] other by (cases "k = i") auto
    qed
  next
    case False
    then show ?thesis using T(5)[of k l] k by simp
  qed
  show ?thesis unfolding tree_ok_def using T(1-3) \<open>0 \<noteq> i\<close> a b by (simp only: other[OF \<open>0 \<noteq> i\<close>]) blast
qed

lemma ram_new_cases:
  assumes "canonical_path cs" "ram_new (render cs) d nodes = (r, nodes')"
  obtains e where "r = Inl e" "e \<noteq> 0" "nodes' = nodes"
  | cs' c p i e where "r = Inr i" "cs = cs' @ [c]" "node_walk nodes cs' 0 = Inr p" "n_directory (nodes p)"
      "ram_child nodes p c = Inl e" "1 \<le> i" "i < MAX_NODES" "\<not> n_used (nodes i)" "nodes' = nodes(i := added p c d)"
proof (cases cs rule: rev_cases)
  case Nil
  then have "r = Inl K_EEXIST" "nodes' = nodes" using ram_new_root[of d nodes] assms(2) by auto
  then show ?thesis using that(1) by simp
next
  case (snoc cs' c)
  note R = assms(2)[unfolded snoc ram_new_render[OF assms(1)[unfolded snoc]]]
  show ?thesis
  proof (cases r)
    case (Inl e)
    then have "e \<noteq> 0 \<and> nodes' = nodes"
      using R by (auto split: sum.splits if_splits option.splits)
    then show ?thesis using that(1) Inl by blast
  next
    case (Inr i)
    with R obtain p e where "node_walk nodes cs' 0 = Inr p" "n_directory (nodes p)" "ram_child nodes p c = Inl e"
      "find_from 1 MAX_NODES (\<lambda>i. \<not> n_used (nodes i)) = Some i" "nodes' = nodes(i := added p c d)"
      by (auto split: sum.splits if_splits option.splits)
    then show ?thesis using that(2)[OF Inr snoc] find_from_Some[of 1 MAX_NODES _ i] by blast
  qed
qed

lemma new_node_ok:
  assumes inv: "vfs_inv s" and cs: "canonical_path cs" and r: "new_node (render cs) d s = (r, s')"
  shows "case r of
      Inl e \<Rightarrow> e \<noteq> 0 \<and> s' = s
    | Inr i \<Rightarrow> vfs_inv s' \<and> 1 \<le> i \<and> i < MAX_NODES \<and> \<not> n_used (vf_nodes s i) \<and>
        (\<exists>p c. vf_nodes s' = (vf_nodes s)(i := added p c d)) \<and> s' = s\<lparr>vf_nodes := vf_nodes s'\<rparr> \<and>
        ram_walk (vf_nodes s') (render cs) = Inr i \<and> (\<forall>a pages. image_ok a pages s \<longrightarrow> image_ok a pages s')"
proof -
  note I = vfs_invD[OF inv]
  obtain nodes where n: "ram_new (render cs) d (vf_nodes s) = (r, nodes)" "s' = s\<lparr>vf_nodes := nodes\<rparr>"
    using r by (auto simp: new_node_def split: prod.splits)
  from cs n(1) show ?thesis
  proof (cases rule: ram_new_cases)
    case (1 e)
    then show ?thesis using n(2) by simp
  next
    case (2 cs' c p i e)
    have good: "canonical_path cs'" "good_name c" "\<forall>c\<in>set cs'. good_name c"
      using canonical_snoc[of cs' c] cs 2(2) by (auto simp: canonical_path_def)
    have zero: "0 < MAX_NODES" by (simp add: MAX_NODES_def)
    note p = node_walk_used[OF 2(3) zero tree_okD(1)[OF I(3)]]
    have c: "cstr c" using good_nameD[OF good(2)] by blast
    have tree: "tree_ok nodes" unfolding 2(9)
      using tree_ok_added[OF I(3) 2(8,6,7,5) good(2) _ _ 2(4)] p by blast
    have "block_ok (vf_pmm s) (nodes k)" if "k < MAX_NODES" "n_used (nodes k)" for k
      using that blocks_okD(1)[OF I(4), of k] unfolding 2(9) by (cases "k = i") (simp_all add: added_def block_ok_def zero_node_def)
    moreover have data: "n_data (nodes i) = 0" by (simp add: 2(9) added_def zero_node_def)
    moreover have other: "nodes k = vf_nodes s k" if "k \<noteq> i" for k using that by (simp add: 2(9))
    ultimately have "blocks_ok nodes (vf_pmm s)" using I(4) unfolding blocks_ok_def by metis
    then have "vfs_inv s'" using inv tree n(2) by (simp add: vfs_inv_def)
    moreover have "ram_walk nodes (render cs) = Inr i"
    proof -
      have "node_walk nodes cs' 0 = Inr p"
        unfolding 2(9) using node_walk_added[OF I(3) 2(8,6,7,5) c 2(3) zero tree_okD(1)[OF I(3)] good(3)] .
      moreover have "nodes p = vf_nodes s p" using other[of p] p 2(8) by blast
      moreover have "ram_child nodes p c = Inr i"
        unfolding 2(9) using ram_child_added[OF I(3) 2(8,6,7,5) c c, of d p] by simp
      ultimately show ?thesis using ram_walk_render[OF cs] 2(4) unfolding 2(2) node_walk_append by simp
    qed
    moreover have "image_ok a pages s'" if "image_ok a pages s" for a pages
    proof (cases "a = 0")
      case True
      then show ?thesis using that by (simp add: image_ok_def)
    next
      case False
      have same: "vf_nodes s' = nodes" "vf_pmm s' = vf_pmm s" using n(2) by simp_all
      have "page_span a pages \<inter> page_span (n_data (nodes k)) (n_pages (nodes k)) = {}"
        if k: "k < MAX_NODES" "n_used (nodes k)" "n_data (nodes k) \<noteq> 0" for k
      proof -
        have "nodes k = vf_nodes s k" using other data k(3) by (cases "k = i") auto
        then show ?thesis using image_okD(4)[OF \<open>image_ok a pages s\<close> False k(1)] k by simp
      qed
      then show ?thesis
        unfolding image_ok_def same if_not_P[OF False] using image_okD(1-3)[OF that False] by blast
    qed
    moreover have v: "vf_nodes s' = nodes" using n(2) by simp
    ultimately show ?thesis unfolding 2(1) sum.case v using 2(6-9) n(2) by blast
  qed
qed

section \<open>Storing a file\<close>

lemma node_walk_cong:
  assumes "\<And>k. n_used (nodes' k) = n_used (nodes k)" "\<And>k. n_directory (nodes' k) = n_directory (nodes k)"
    "\<And>k. n_parent (nodes' k) = n_parent (nodes k)" "\<And>k. n_name (nodes' k) = n_name (nodes k)"
  shows "node_walk nodes' cs at = node_walk nodes cs at"
proof -
  have "ram_child nodes' = ram_child nodes" unfolding ram_child_def assms ..
  then show ?thesis by (induction cs arbitrary: at) (auto simp: assms split: sum.splits)
qed

lemma node_walk_data: "node_walk (nodes(i := (nodes i)\<lparr>n_data := d, n_size := z, n_pages := p\<rparr>)) cs at = node_walk nodes cs at"
  by (rule node_walk_cong) auto

text \<open>What a successful store leaves: the file under the path has the contents, every other node is as before.\<close>

definition stored :: "string list \<Rightarrow> u8 list \<Rightarrow> ('h, 'v) vfs \<Rightarrow> ('h, 'v) vfs \<Rightarrow> nat \<Rightarrow> bool" where
  "stored cs xs s s' i \<longleftrightarrow> i < MAX_NODES \<and> ram_walk (vf_nodes s') (render cs) = Inr i \<and> n_used (vf_nodes s' i) \<and>
     n_kind (vf_nodes s' i) = 1 \<and> \<not> n_directory (vf_nodes s' i) \<and> content s' i = xs \<and> n_size (vf_nodes s' i) = length xs \<and>
     (\<forall>k < MAX_NODES. k \<noteq> i \<longrightarrow> vf_nodes s' k = vf_nodes s k \<and>
        (n_used (vf_nodes s k) \<longrightarrow> n_kind (vf_nodes s k) = 1 \<longrightarrow> content s' k = content s k)) \<and>
     vf_mounts s' = vf_mounts s \<and> vf_roots s' = vf_roots s"

lemma write_ram_simps [simp]:
  "vf_nodes (write_ram a b n s) = vf_nodes s" "vf_mounts (write_ram a b n s) = vf_mounts s" "vf_roots (write_ram a b n s) = vf_roots s"
  by (simp_all add: write_ram_def)

lemma pages_for: "z \<le> (z + 4095) div 4096 * (4096::nat)" "(z + 4095) div 4096 = 0 \<longleftrightarrow> z = 0"
  by auto

lemma store_step:
  assumes inv: "vfs_inv s" and im: "image_ok a ((z + 4095) div 4096) s" and i: "i < MAX_NODES" "n_used (vf_nodes s i)"
    "n_kind (vf_nodes s i) = 1" "\<not> n_directory (vf_nodes s i)" and cs: "canonical_path cs" "ram_walk (vf_nodes s) (render cs) = Inr i"
    and s'_def: "s' = install i a z ((z + 4095) div 4096) (if z \<noteq> 0 then write_ram a b z s else s)"
  shows "vfs_inv s'" "stored cs (map b [0..<z]) s s' i"
proof -
  let ?p = "(z + 4095) div 4096"
  define s1 where "s1 = (if z \<noteq> 0 then write_ram a b z s else s)"
  have a: "a \<noteq> 0 \<longleftrightarrow> z \<noteq> 0" using im pages_for(2)[of z] by (auto simp: image_ok_def split: if_splits)
  have s1: "vfs_inv s1" "image_ok a ?p s1" "same_files s s1"
    using write_ram_ok[OF inv im, of 0 z b] pages_for(1)[of z] a inv im by (auto simp: s1_def simp del: div_mult_self_is_m)
  have f: "vf_nodes s1 = vf_nodes s" "vf_mounts s1 = vf_mounts s" "vf_roots s1 = vf_roots s" by (simp_all add: s1_def)
  have bytes: "ram (vf_pmm s1) (a + j) = b j" if "j < z" for j
    using that by (simp add: s1_def write_ram_def put_bytes_apply)
  note N = install_ok[OF s1(1,2) i[folded f(1)] pages_for(1)]
  have s': "s' = install i a z ?p s1" by (simp add: s'_def s1_def)
  show "vfs_inv s'" unfolding s' by (rule N(1))
  have "content s' i = map b [0..<z]" unfolding s' N(2) using bytes by simp
  moreover have "ram_walk (vf_nodes s') (render cs) = Inr i"
    using cs(2) unfolding s' N(3) f(1) ram_walk_render[OF cs(1)] node_walk_data .
  moreover have "content s' k = content s k" if "k < MAX_NODES" "k \<noteq> i" "n_used (vf_nodes s k)" "n_kind (vf_nodes s k) = 1" for k
    using N(4)[OF that(2)] s1(3) that unfolding s' by (simp add: same_files_def)
  moreover have "vf_nodes s' = (vf_nodes s)(i := (vf_nodes s i)\<lparr>n_data := a, n_size := z, n_pages := ?p\<rparr>)"
    unfolding s' N(3) f(1) ..
  moreover have "vf_mounts s' = vf_mounts s" "vf_roots s' = vf_roots s" unfolding s' N(5,6) f by simp_all
  ultimately show "stored cs (map b [0..<z]) s s' i" using i unfolding stored_def by simp
qed

lemma stored_after:
  assumes "same_files s s0" "stored cs xs s0 s' i" "vf_mounts s0 = vf_mounts s" "vf_roots s0 = vf_roots s"
  shows "stored cs xs s s' i"
  using assms unfolding stored_def same_files_def by metis

lemma stored_new:
  assumes "stored cs xs s0 s' i" "\<not> n_used (vf_nodes s i)" "vf_nodes s0 = (vf_nodes s)(i := r)" "s0 = s\<lparr>vf_nodes := vf_nodes s0\<rparr>"
  shows "stored cs xs s s' i"
proof -
  have "vf_pmm s0 = vf_pmm s" "vf_mounts s0 = vf_mounts s" "vf_roots s0 = vf_roots s"
    by (subst assms(4), simp)+
  moreover have other: "vf_nodes s0 k = vf_nodes s k" if "k \<noteq> i" for k using that by (simp add: assms(3))
  moreover have "content s0 k = content s k" if "k \<noteq> i" for k
    using other[OF that] \<open>vf_pmm s0 = vf_pmm s\<close> by (simp add: content_def)
  ultimately show ?thesis using assms(1) unfolding stored_def by metis
qed

lemma ram_put_ok:
  assumes inv: "vfs_inv s" and cs: "canonical_path cs" and put: "ram_put (render cs) data z s = (e, s')"
  shows "vfs_inv s' \<and> (if e = 0 then \<exists>i. stored cs (map (the data) [0..<z]) s s' i else same_files s s')"
proof -
  let ?p = "(z + 4095) div 4096" and ?w = "ram_walk (vf_nodes s) (render cs)"
  obtain a s1 where im: "image_pages ?p s = (a, s1)" by fastforce
  note IM = image_pages_ok[OF inv im]
  obtain pm where s1: "s1 = set_pmm pm s" using IM(1) by blast
  have meta: "vf_mounts s1 = vf_mounts s" "vf_roots s1 = vf_roots s" "vf_nodes s1 = vf_nodes s" by (simp_all add: s1)
  have zero: "0 < MAX_NODES" by (simp add: MAX_NODES_def)
  note P = put[unfolded ram_put_def Let_def im prod.case]
  consider (bad) "case ?w of Inr i \<Rightarrow> n_directory (vf_nodes s i) \<or> n_kind (vf_nodes s i) \<noteq> 1 | Inl _ \<Rightarrow> False"
    | (full) "\<not> (case ?w of Inr i \<Rightarrow> n_directory (vf_nodes s i) \<or> n_kind (vf_nodes s i) \<noteq> 1 | Inl _ \<Rightarrow> False)" "?p \<noteq> 0 \<and> a = 0"
    | (old) i where "?w = Inr i" "\<not> n_directory (vf_nodes s i)" "n_kind (vf_nodes s i) = 1" "\<not> (?p \<noteq> 0 \<and> a = 0)"
    | (new) e' where "?w = Inl e'" "\<not> (?p \<noteq> 0 \<and> a = 0)"
  proof (cases "?p \<noteq> 0 \<and> a = 0")
    case True
    then show ?thesis using bad full by blast
  next
    case False
    then show ?thesis using bad old new by (cases ?w) auto
  qed
  then show ?thesis
  proof cases
    case bad
    then show ?thesis using P inv by simp
  next
    case full
    then show ?thesis using P[unfolded if_not_P[OF full(1)] if_P[OF full(2)]] IM(2,3) by auto
  next
    case (old i)
    have i: "i < MAX_NODES" "n_used (vf_nodes s i)"
      using node_walk_used[of "vf_nodes s" cs 0 i] zero tree_okD(1)[OF vfs_invD(3)[OF inv]] old(1) ram_walk_render[OF cs] by auto
    have "e = 0" "s' = install i a z ?p (if z \<noteq> 0 then write_ram a (the data) z s1 else s1)"
      using P old by (auto split: if_splits)
    from store_step[OF IM(2) IM(4) _ _ _ _ cs _ this(2)] this(1) old i meta
    have "vfs_inv s'" "stored cs (map (the data) [0..<z]) s1 s' i" by (auto simp: pages_for)
    moreover have "stored cs (map (the data) [0..<z]) s s' i" by (rule stored_after[OF IM(3) calculation(2) meta(1,2)])
    ultimately show ?thesis using \<open>e = 0\<close> by auto
  next
    case (new e')
    have "?p = 0 \<or> a \<noteq> 0" using new(2) by argo
    then have image: "image_ok a ?p s1" by (rule IM(4))
    obtain r s2 where n: "new_node (render cs) False s1 = (r, s2)" by fastforce
    note N = new_node_ok[OF IM(2) cs n]
    show ?thesis
    proof (cases r)
      case (Inl e2)
      then have "e = e2" "e2 \<noteq> 0" "s' = (if a \<noteq> 0 then set_pmm (k_pmm_free_pages a ?p (vf_pmm s1)) s1 else s1)"
        using P new N n by (auto split: if_splits)
      then show ?thesis using image_release_ok[OF IM(2) image] IM(2,3) same_files_trans[OF IM(3)] by auto
    next
      case (Inr i)
      then have e: "e = 0" "s' = install i a z ?p (if z \<noteq> 0 then write_ram a (the data) z s2 else s2)"
        using P new n by (auto split: if_splits)
      from N Inr obtain p c where M: "vfs_inv s2" "i < MAX_NODES" "\<not> n_used (vf_nodes s1 i)"
        "vf_nodes s2 = (vf_nodes s1)(i := added p c False)" "s2 = s1\<lparr>vf_nodes := vf_nodes s2\<rparr>"
        "ram_walk (vf_nodes s2) (render cs) = Inr i" "image_ok a ?p s2" using image by auto
      have "n_used (vf_nodes s2 i)" "n_kind (vf_nodes s2 i) = 1" "\<not> n_directory (vf_nodes s2 i)"
        by (simp_all add: M(4) added_def)
      from store_step[OF M(1,7,2) this cs M(6) e(2)]
      have "vfs_inv s'" "stored cs (map (the data) [0..<z]) s2 s' i" by auto
      moreover have "stored cs (map (the data) [0..<z]) s s' i"
        by (rule stored_after[OF IM(3) stored_new[OF calculation(2) M(3-5)] meta(1,2)])
      ultimately show ?thesis using e(1) by auto
    qed
  qed
qed

section \<open>Reading a file\<close>

lemma resolve_canonical:
  assumes "vfs_inv s" "cstr path" "length path \<le> 4096" "k_path_resolve (vf_roots s) path [SLASH] = Inr p"
  obtains cs where "p = render cs" "canonical_path cs"
proof -
  obtain rcs where r: "roots_ok rcs" "vf_roots s = render_roots rcs" using assms(1) by (auto simp: vfs_inv_def)
  have "canonical_path []" by (simp add: canonical_path_def K_PATH_BYTES_def)
  from path_resolve_canonical[OF assms(2,3) this r(1), of p] assms(4) r(2) show ?thesis using that by auto
qed

lemma read_ram_file:
  assumes "fl_kind f = 1" "fl_attributes f AND 0x10 = 0" "fl_object f < MAX_NODES" "n_used (vf_nodes s (fl_object f))"
    "content s (fl_object f) = xs"
  shows "k_vfs_read ops h f offset (Some out) n s =
    Some ((0, Some (\<lambda>j. if j < min n (length xs - offset) then xs ! (offset + j) else out j), min n (length xs - offset)), s)"
proof -
  let ?r = "vf_nodes s (fl_object f)"
  have len: "length xs = n_size ?r" using assms(5) by (auto simp: content_def)
  have nth: "xs ! j = ram (vf_pmm s) (n_data ?r + j)" if "j < n_size ?r" for j using that assms(5) by (auto simp: content_def)
  have g: "\<not> (fl_object f \<ge> MAX_NODES \<or> \<not> n_used ?r)" using assms(3,4) by simp
  show ?thesis
  proof (cases "offset < n_size ?r")
    case True
    have "put_bytes out 0 (ram (vf_pmm s)) (n_data ?r + offset) (min n (n_size ?r - offset)) =
        (\<lambda>j. if j < min n (n_size ?r - offset) then xs ! (offset + j) else out j)"
      using nth by (auto simp: fun_eq_iff put_bytes_apply add.assoc)
    then show ?thesis using assms(1,2) g True by (simp add: k_vfs_read_def len Let_def)
  next
    case False
    then show ?thesis using assms(1,2) g by (simp add: k_vfs_read_def len Let_def)
  qed
qed

text \<open>
  C6. What is stored is read back. A successful \<open>k_vfs_put\<close> to a path outside every mount makes the
  path name a file of exactly the given size; opening it and reading at any offset yields exactly the
  bytes stored, up to the end of the file. The tree and the ownership of pages stay consistent, and
  every other node, with the contents of every other file, is as it was.
\<close>

theorem vfs_put_read:
  assumes "vfs_inv s" "cstr path" "length path \<le> 4096" "k_path_resolve (vf_roots s) path [SLASH] = Inr p"
    "choose_mount p (vf_mounts s) = None" "k_vfs_put ops path (Some b) z s = (0, s')"
  shows "vfs_inv s' \<and> (\<exists>f. k_vfs_open ops path f0 s' = ((0, f), s') \<and> fl_size f = z \<and>
    (\<forall>offset out n. k_vfs_read ops h f offset (Some out) n s' =
       Some ((0, Some (\<lambda>j. if j < min n (z - offset) then b (offset + j) else out j), min n (z - offset)), s')) \<and>
    (\<forall>k < MAX_NODES. k \<noteq> fl_object f \<longrightarrow> vf_nodes s' k = vf_nodes s k \<and>
       (n_used (vf_nodes s k) \<longrightarrow> n_kind (vf_nodes s k) = 1 \<longrightarrow> content s' k = content s k)))"
proof -
  from resolve_canonical[OF assms(1-4)] obtain cs where cs: "p = render cs" "canonical_path cs" by blast
  have "ram_put (render cs) (Some b) z s = (0, s')"
    using assms(4-6) cs(1) by (auto simp: k_vfs_put_def split: if_splits)
  from ram_put_ok[OF assms(1) cs(2) this] obtain i where inv: "vfs_inv s'" and i: "stored cs (map b [0..<z]) s s' i" by auto
  note S = i[unfolded stored_def]
  let ?f = "\<lparr>fl_kind = 1, fl_object = i, fl_cluster = 0, fl_attributes = 0, fl_size = z, fl_directory_offset = 0\<rparr>"
  have "k_vfs_open ops path f0 s' = ((0, ?f), s')"
    using S vfs_invD(1)[OF inv] assms(4,5) cs(1) by (simp add: k_vfs_open_def vfs_open_locked_def Let_def)
  moreover have "k_vfs_read ops h ?f offset (Some out) n s' =
      Some ((0, Some (\<lambda>j. if j < min n (z - offset) then b (offset + j) else out j), min n (z - offset)), s')" for offset out n
    using read_ram_file[of ?f s' "map b [0..<z]" ops h offset out n] S
    by (simp add: less_diff_conv add.commute cong: if_cong)
  ultimately show ?thesis using inv S by (intro conjI exI[of _ ?f]) auto
qed

section \<open>Writing to a file\<close>

text \<open>The contents after a write: a gap beyond the old end is zero.\<close>

definition overwrite :: "u8 list \<Rightarrow> nat \<Rightarrow> u8 list \<Rightarrow> u8 list" where
  "overwrite xs p ys = take p xs @ replicate (p - length xs) 0 @ ys @ drop (p + length ys) xs"

lemma length_overwrite: "length (overwrite xs p ys) = max (length xs) (p + length ys)"
  by (auto simp: overwrite_def)

lemma nth_overwrite:
  "j < length (overwrite xs p ys) \<Longrightarrow> overwrite xs p ys ! j =
   (if p \<le> j \<and> j < p + length ys then ys ! (j - p) else if j < length xs then xs ! j else 0)"
  by (cases "p \<le> length xs") (auto simp: overwrite_def nth_append min_def)

lemma overwrite_map:
  "map (\<lambda>j. if p \<le> j \<and> j < p + n then b (j - p) else if j < length xs then xs ! j else 0) [0..<max (length xs) (p + n)] =
   overwrite xs p (map b [0..<n])"
  by (rule nth_equalityI) (auto simp: length_overwrite nth_overwrite)

text \<open>The image of a RAM file: its old contents, then zeroes.\<close>

lemma load_image_ok:
  assumes inv: "vfs_inv s" and im: "image_ok a pages s" "a \<noteq> 0" and zero: "\<forall>x\<in>byte_span a pages. ram (vf_pmm s) x = 0"
    and f: "fl_kind file = 1" "fl_object file < MAX_NODES" "n_used (vf_nodes s (fl_object file))"
      "n_kind (vf_nodes s (fl_object file)) = 1" "fl_size file = n_size (vf_nodes s (fl_object file))"
    and z: "fl_size file \<le> pages * 4096"
    and l: "load_image ops file a s = (e, s')"
  shows "e = 0" "vfs_inv s'" "image_ok a pages s'" "same_files s s'" "\<exists>pm. s' = set_pmm pm s"
    "\<And>j. j < pages * 4096 \<Longrightarrow> ram (vf_pmm s') (a + j) =
       (if j < fl_size file then content s (fl_object file) ! j else 0)"
proof -
  let ?r = "vf_nodes s (fl_object file)"
  define m where "m = (if fl_size file \<noteq> 0 then mem_copy (ram (vf_pmm s)) a (n_data ?r) (fl_size file) else ram (vf_pmm s))"
  have self: "set_pmm (vf_pmm s) s = s" by (simp add: set_pmm_def vf_pmm_def)
  have e: "e = 0" and s': "s' = set_pmm ((vf_pmm s)\<lparr>ram := m\<rparr>) s"
    using l f(1) self by (auto simp: load_image_def m_def split: if_splits)
  note B = blocks_okD(1)[OF vfs_invD(4)[OF inv] f(2,3)]
  have m: "m x = (if a \<le> x \<and> x < a + fl_size file then ram (vf_pmm s) (n_data ?r + (x - a)) else ram (vf_pmm s) x)" for x
  proof (cases "fl_size file = 0")
    case False
    then have r: "n_data ?r \<noteq> 0" "n_data ?r mod 4096 = 0" "n_size ?r \<le> n_pages ?r * 4096"
      using B f(4,5) by (auto simp: block_ok_def split: if_splits)
    have "byte_span a pages \<inter> byte_span (n_data ?r) (n_pages ?r) = {}"
      using pages.byte_span_disjoint[OF image_okD(4)[OF im f(2,3) r(1)] image_okD(1)[OF im] r(2)] .
    moreover have "n_data ?r \<in> byte_span (n_data ?r) (n_pages ?r)" using False f(5) r(3) by auto
    moreover have "a \<in> byte_span a pages" using image_okD(2)[OF im] by simp
    ultimately have "a \<le> n_data ?r \<or> n_data ?r + fl_size file \<le> a" using f(5) r(3) z by auto
    then show ?thesis using False by (simp add: m_def mem_copy_apply)
  qed (auto simp: m_def)
  show "e = 0" by (rule e)
  have out: "m x = ram (vf_pmm s) x" if "x \<notin> byte_span a pages" for x using that z by (auto simp: m)
  from image_write_ok[OF inv im out]
  show "vfs_inv s'" "image_ok a pages s'" "same_files s s'" unfolding s' by blast+
  show "\<exists>pm. s' = set_pmm pm s" using s' by blast
  show "ram (vf_pmm s') (a + j) = (if j < fl_size file then content s (fl_object file) ! j else 0)"
    if "j < pages * 4096" for j
    using that bspec[OF zero, of "a + j"] f(5) by (simp add: s' m content_def)
qed

lemma write_image_ok:
  assumes inv: "vfs_inv s" and f: "fl_kind file = 1" "fl_object file < MAX_NODES" "n_used (vf_nodes s (fl_object file))"
      "n_kind (vf_nodes s (fl_object file)) = 1" "\<not> n_directory (vf_nodes s (fl_object file))"
      "fl_size file = n_size (vf_nodes s (fl_object file))"
    and w: "write_image ops file at b n s = ((e, file', written), s')"
  shows "vfs_inv s' \<and>
    (if e \<noteq> 0 then written = 0 \<and> same_files s s'
     else written = n \<and> fl_size file' = length (content s' (fl_object file)) \<and>
       content s' (fl_object file) = overwrite (content s (fl_object file)) at (map b [0..<n]) \<and>
       (\<forall>k < MAX_NODES. k \<noteq> fl_object file \<longrightarrow> vf_nodes s' k = vf_nodes s k \<and>
          (n_used (vf_nodes s k) \<longrightarrow> n_kind (vf_nodes s k) = 1 \<longrightarrow> content s' k = content s k)))"
proof -
  let ?i = "fl_object file"
  define sz where "sz = max (n_size (vf_nodes s ?i)) (at + n)"
  let ?p = "(sz + 4095) div 4096"
  have sz: "(if fl_size file > at + n then fl_size file else at + n) = sz" by (simp add: sz_def f(6))
  have fits: "fl_size file \<le> ?p * 4096" "at + n \<le> ?p * 4096" "sz \<le> ?p * 4096"
    using pages_for(1)[of sz] by (auto simp: sz_def f(6))
  obtain a s1 where im: "image_pages ?p s = (a, s1)" by fastforce
  note IM = image_pages_ok[OF inv im] and W = w[unfolded write_image_def Let_def sz im prod.case]
  have nodes: "vf_nodes s1 = vf_nodes s" using IM(1) by auto
  show ?thesis
  proof (cases "a = 0")
    case True
    then show ?thesis using W IM(2,3) by auto
  next
    case a: False
    obtain e1 s2 where l: "load_image ops file a s1 = (e1, s2)" by fastforce
    have zero: "\<forall>x\<in>byte_span a ?p. ram (vf_pmm s1) x = 0"
      using image_pages_ok(5)[OF inv im a] by blast
    note L = load_image_ok[OF IM(2) IM(4)[OF disjI2[OF a]] a zero f(1) f(2) f(3)[folded nodes] f(4)[folded nodes]
        f(6)[folded nodes] fits(1) l]
    have same: "same_files s s2" using same_files_trans[OF IM(3) L(4)] .
    define s3 where "s3 = write_ram (a + at) b n s2"
    note X = write_ram_ok[OF L(2,3) a fits(2), of b, folded s3_def]
    have n3: "vf_nodes s3 = vf_nodes s" using same by (simp add: s3_def same_files_def)
    note N = install_ok[OF X(1,2), of ?i sz, unfolded n3, OF f(2-5) fits(3)]
    have r: "e = 0" "file' = file\<lparr>fl_size := sz\<rparr>" "written = n" "s' = install ?i a sz ?p s3"
      using W a l L(1) f(1) by (auto simp: store_image_def s3_def)
    have c1: "content s1 ?i = content s ?i" using IM(3) f(2-4) by (simp add: same_files_def)
    have bytes: "ram (vf_pmm s3) (a + j) = (if at \<le> j \<and> j < at + n then b (j - at)
        else if j < length (content s ?i) then content s ?i ! j else 0)" if "j < sz" for j
      using L(6)[of j] that fits(3) f(6) unfolding c1
      by (auto simp: s3_def write_ram_def put_bytes_apply content_def)
    have "content s' ?i = overwrite (content s ?i) at (map b [0..<n])"
    proof -
      have m: "max (length (content s ?i)) (at + n) = sz" by (simp add: content_def sz_def)
      show ?thesis unfolding r(4) N(2) overwrite_map[of at n b "content s ?i", unfolded m, symmetric] using bytes by simp
    qed
    moreover have "content s' k = content s k" if "k < MAX_NODES" "k \<noteq> ?i" "n_used (vf_nodes s k)" "n_kind (vf_nodes s k) = 1" for k
    proof -
      have "same_files s s3" using same_files_trans[OF same X(3)] .
      then show ?thesis using N(4)[OF that(2)] that unfolding r(4) by (simp add: same_files_def)
    qed
    moreover have "length (content s' ?i) = sz" unfolding r(4) N(2) by simp
    ultimately show ?thesis using N(1,3) r by simp
  qed
qed

text \<open>
  C7. A write to a RAM file is exact or has no effect. If \<open>k_vfs_write\<close> reports success, all \<open>n\<close> bytes
  were written: the contents are the old ones with the bytes at the offset replaced (the offset
  \<open>2^64 - 1\<close> appends), a gap beyond the old end reads as zero, and every other node and file is
  unchanged. If it fails, nothing was written and every file has its old contents.
\<close>

theorem vfs_write_exact:
  assumes inv: "vfs_inv s" and k: "fl_kind file = 1"
    and w: "k_vfs_write ops file offset (Some b) n s = ((e, file', written), s')"
  defines "i \<equiv> fl_object file"
  defines "at \<equiv> (if offset = 2 ^ 64 - 1 then length (content s i) else offset)"
  shows "vfs_inv s' \<and>
    (if e \<noteq> 0 then written = 0 \<and> same_files s s'
     else written = n \<and> fl_size file' = length (content s' i) \<and>
       content s' i = (if n = 0 then content s i else overwrite (content s i) at (map b [0..<n])) \<and>
       (\<forall>k < MAX_NODES. k \<noteq> i \<longrightarrow> vf_nodes s' k = vf_nodes s k \<and>
          (n_used (vf_nodes s k) \<longrightarrow> n_kind (vf_nodes s k) = 1 \<longrightarrow> content s' k = content s k)))"
proof -
  let ?r = "vf_nodes s i" and ?f = "file\<lparr>fl_size := n_size (vf_nodes s i)\<rparr>"
  have len: "length (content s i) = n_size ?r" by (simp add: content_def)
  note W = w[unfolded k_vfs_write_def write_target_def i_def[symmetric]]
  show ?thesis
  proof (cases "i < MAX_NODES \<and> n_used ?r \<and> n_kind ?r = 1 \<and> \<not> n_directory ?r \<and> n \<noteq> 0 \<and> n \<le> FAT_WRITE_MAX \<and>
      fl_attributes file AND 0x11 = 0 \<and> n_size ?r \<le> FAT_WRITE_MAX \<and> at \<le> FAT_WRITE_MAX \<and> n \<le> FAT_WRITE_MAX - at")
    case False
    then show ?thesis using W k inv len by (auto simp: Let_def at_def split: if_splits)
  next
    case True
    then have wi: "write_image ops ?f at b n s = ((e, file', written), s')"
      using W k len by (auto simp: Let_def at_def split: if_splits)
    have o: "fl_object ?f = i" "fl_kind ?f = 1" "fl_size ?f = n_size ?r" using k by (simp_all add: i_def)
    from True have T: "i < MAX_NODES" "n_used ?r" "n_kind ?r = 1" "\<not> n_directory ?r" "n \<noteq> 0" by blast+
    from write_image_ok[OF inv, of ?f, unfolded o, OF refl T(1-4) refl wi] T(5) show ?thesis by simp
  qed
qed

section \<open>The other calls keep the invariant\<close>

lemma vfs_init_inv:
  assumes "\<not> vf_ready s" "vf_nodes s = (\<lambda>_. zero_node)" "vf_roots s = []" "pmm_inv (vf_pmm s)"
  shows "fst (k_vfs_init s) = 0 \<and> vfs_inv (snd (k_vfs_init s))"
proof -
  let ?s = "snd (k_vfs_init s)"
  have n: "vf_nodes ?s = (\<lambda>_. zero_node)(0 := zero_node\<lparr>n_used := True, n_directory := True, n_kind := 1\<rparr>)"
    "vf_pmm ?s = vf_pmm s" "vf_ready ?s" "vf_roots ?s = []" "fst (k_vfs_init s) = 0"
    using assms by (simp_all add: k_vfs_init_def set_node_def vf_pmm_def)
  have "tree_ok (vf_nodes ?s)" "blocks_ok (vf_nodes ?s) (vf_pmm s)"
    unfolding n(1) by (auto simp: tree_ok_def blocks_ok_def block_ok_def zero_node_def)
  then show ?thesis using assms(4) n by (auto simp: vfs_inv_def render_roots_def roots_ok_def)
qed

lemma vfs_mkdir_inv:
  assumes "vfs_inv s" "cstr path" "length path \<le> 4096" "k_path_resolve (vf_roots s) path [SLASH] = Inr p"
    "choose_mount p (vf_mounts s) = None" "k_vfs_mkdir ops path s = (e, s')"
  shows "vfs_inv s' \<and> (if e = 0 then \<exists>i. ram_walk (vf_nodes s') p = Inr i \<and> n_directory (vf_nodes s' i) else s' = s)"
proof -
  from resolve_canonical[OF assms(1-4)] obtain cs where cs: "p = render cs" "canonical_path cs" by blast
  obtain r s1 where n: "new_node (render cs) True s = (r, s1)" by fastforce
  have m: "(e, s') = (case r of Inl e \<Rightarrow> (e, s1) | Inr _ \<Rightarrow> (0, s1))"
    using assms(4-6) vfs_invD(1)[OF assms(1)] n cs(1) by (simp add: k_vfs_mkdir_def split: sum.splits)
  show ?thesis
  proof (cases r)
    case (Inl e1)
    then show ?thesis using new_node_ok[OF assms(1) cs(2) n] m assms(1) by auto
  next
    case (Inr i)
    with new_node_ok[OF assms(1) cs(2) n] obtain q x where
      "vfs_inv s1" "vf_nodes s1 = (vf_nodes s)(i := added q x True)" "ram_walk (vf_nodes s1) (render cs) = Inr i" by auto
    moreover have "e = 0" "s' = s1" using m Inr by auto
    ultimately show ?thesis using cs(1) by (auto simp: added_def)
  qed
qed

lemma vfs_create_inv:
  assumes "vfs_inv s" "cstr path" "length path \<le> 4096" "k_path_resolve (vf_roots s) path [SLASH] = Inr p"
    "choose_mount p (vf_mounts s) = None" "k_vfs_create ops path out s = ((e, f), s')"
  shows "vfs_inv s'"
proof -
  from resolve_canonical[OF assms(1-4)] obtain cs where cs: "p = render cs" "canonical_path cs" by blast
  obtain r s1 where n: "new_node (render cs) False s = (r, s1)" by fastforce
  have "s' = s \<or> (\<exists>i. r = Inr i) \<and> s' = s1 \<or> (\<exists>e. r = Inl e) \<and> s' = s1"
  proof (cases r)
    case (Inl e1)
    then show ?thesis using assms(4-6) vfs_invD(1)[OF assms(1)] n cs(1)
      by (auto simp: k_vfs_create_def vfs_open_locked_def Let_def split: sum.splits if_splits)
  next
    case (Inr i)
    then have "vf_mounts s1 = vf_mounts s" using n by (auto simp: new_node_def split: prod.splits)
    then show ?thesis using assms(4-6) vfs_invD(1)[OF assms(1)] n cs(1) Inr
      by (auto simp: k_vfs_create_def vfs_open_locked_def Let_def split: sum.splits if_splits)
  qed
  then show ?thesis using new_node_ok[OF assms(1) cs(2) n] assms(1) by auto
qed

section \<open>The mount of a path\<close>

abbreviation flat :: "string list \<Rightarrow> string" where
  "flat cs \<equiv> concat (map (\<lambda>c. SLASH # c) cs)"

lemma comps_flat:
  "\<forall>c\<in>set cs. good_name c \<Longrightarrow> rest = [] \<or> hd rest = SLASH \<Longrightarrow> comps (flat cs @ rest) = cs @ comps rest"
proof (induction cs)
  case (Cons c cs)
  let ?t = "flat cs @ rest"
  have t: "?t = [] \<or> hd ?t = SLASH" using Cons.prems(2) by (cases cs) auto
  obtain x y where x: "c = x # y" "x \<noteq> SLASH" "SLASH \<notin> set y" using Cons.prems(1) by (cases c) (auto simp: good_name_def)
  have stop: "takeWhile (\<lambda>x. x \<noteq> SLASH) ?t = []" "dropWhile (\<lambda>x. x \<noteq> SLASH) ?t = ?t" using t by (cases ?t; auto)+
  have all: "\<And>z. z \<in> set y \<Longrightarrow> z \<noteq> SLASH" using x(3) by metis
  have "takeWhile (\<lambda>x. x \<noteq> SLASH) (y @ ?t) = y" "dropWhile (\<lambda>x. x \<noteq> SLASH) (y @ ?t) = ?t"
    using takeWhile_append2[of y "\<lambda>x. x \<noteq> SLASH" ?t] dropWhile_append2[of y "\<lambda>x. x \<noteq> SLASH" ?t] all stop by simp_all
  then have "comps (x # y @ ?t) = (x # y) # comps ?t" using x(2) by simp
  then show ?case using Cons x(1) by simp
qed simp

lemma render_flat: "cs \<noteq> [] \<Longrightarrow> render cs = flat cs" "comps (render cs) = comps (flat cs)"
  by (auto simp: render_def)

lemma path_prefix_render:
  assumes cs: "canonical_path cs" and ms: "canonical_path ms" "ms \<noteq> []"
  shows "path_prefix (render cs) (render ms) \<longleftrightarrow> (\<exists>ds. cs = ms @ ds)"
proof
  let ?n = "length (render ms)" and ?p = "render cs"
  have good: "\<forall>c\<in>set cs. good_name c" "\<forall>c\<in>set ms. good_name c" using cs ms by (auto simp: canonical_path_def)
  note len = str_len_cstr[OF cstr_render[OF cs]] str_len_cstr[OF cstr_render[OF ms(1)]]
  have n1: "?n > 1" using render_longer[OF good(2) ms(2)] .
  show "\<exists>ds. cs = ms @ ds" if pre: "path_prefix ?p (render ms)"
  proof -
    have c: "take ?n ?p = render ms" "cur (drop ?n ?p) = NUL \<or> cur (drop ?n ?p) = SLASH" "?n \<le> length ?p"
      using pre n1 by (auto simp: path_prefix_def len Let_def min_def split: if_splits)
    let ?rest = "drop ?n ?p"
    have "NUL \<notin> set ?rest" using cstr_render[OF cs] by (auto simp: cstr_def dest: in_set_dropD)
    then have rest: "?rest = [] \<or> hd ?rest = SLASH" using c(2) by (cases ?rest) auto
    have "?p = flat ms @ ?rest" using c(1) render_flat(1)[OF ms(2)] by (metis append_take_drop_id)
    then have "comps ?p = ms @ comps ?rest" using comps_flat[OF good(2) rest] by simp
    moreover have "comps ?p = cs" using comps_flat[OF good(1), of "[]"] render_flat(2)[of cs] by simp
    ultimately show ?thesis by (intro exI[of _ "comps ?rest"]) simp
  qed
  show "path_prefix ?p (render ms)" if "\<exists>ds. cs = ms @ ds"
  proof -
    from that obtain ds where ds: "cs = ms @ ds" by blast
    then have p: "?p = render ms @ flat ds" using ms(2) by (simp add: render_def)
    have "cur (flat ds) = NUL \<or> cur (flat ds) = SLASH" by (cases ds) auto
    then show ?thesis by (simp add: path_prefix_def len Let_def) (simp add: p)
  qed
qed

lemma choose_mount_loop_cases:
  "choose_mount_loop p ms i best longest = best \<and> (\<forall>m\<in>set ms. path_prefix p (mt_path m) \<longrightarrow> str_len (mt_path m) \<le> longest) \<or>
   (\<exists>j < length ms. choose_mount_loop p ms i best longest = Some (i + j) \<and> path_prefix p (mt_path (ms ! j)) \<and>
      longest < str_len (mt_path (ms ! j)) \<and>
      (\<forall>m\<in>set ms. path_prefix p (mt_path m) \<longrightarrow> str_len (mt_path m) \<le> str_len (mt_path (ms ! j))))"
proof (induction ms arbitrary: i best longest)
  case (Cons m ms)
  define here where "here \<longleftrightarrow> path_prefix p (mt_path m) \<and> str_len (mt_path m) > longest"
  define b l where "b = (if here then Some i else best)" and "l = (if here then str_len (mt_path m) else longest)"
  let ?r = "choose_mount_loop p ms (Suc i) b l"
  have e: "choose_mount_loop p (m # ms) i best longest = ?r" by (simp add: here_def b_def l_def)
  have le: "longest \<le> l" "path_prefix p (mt_path m) \<Longrightarrow> str_len (mt_path m) \<le> l" by (auto simp: here_def l_def)
  consider (stay) "?r = b" "\<forall>m\<in>set ms. path_prefix p (mt_path m) \<longrightarrow> str_len (mt_path m) \<le> l"
    | (later) j where "j < length ms" "?r = Some (Suc i + j)" "path_prefix p (mt_path (ms ! j))" "l < str_len (mt_path (ms ! j))"
      "\<forall>m\<in>set ms. path_prefix p (mt_path m) \<longrightarrow> str_len (mt_path m) \<le> str_len (mt_path (ms ! j))"
    using Cons.IH[of "Suc i" b l] by blast
  then show ?case
  proof cases
    case stay
    show ?thesis
    proof (cases here)
      case True
      then show ?thesis unfolding e stay(1) using stay(2) by (intro disjI2 exI[of _ 0]) (auto simp: here_def b_def l_def)
    next
      case False
      then show ?thesis unfolding e stay(1) using stay(2) le(2) by (intro disjI1) (auto simp: b_def l_def)
    qed
  next
    case (later j)
    then show ?thesis unfolding e using le by (intro disjI2 exI[of _ "Suc j"]) auto
  qed
qed simp

text \<open>
  The mount of a path is the innermost one. With mounts on directories other than the root, a
  path is handled by the RAM name space exactly when no mount point is an ancestor of it (component
  by component, so that \<open>/ab\<close> is not below \<open>/a\<close>); otherwise by a mount whose point is an ancestor and
  at least as deep as every other such mount point, with the rest of the path handed to the volume.
\<close>

theorem mount_longest:
  assumes "canonical_path cs" "\<forall>m\<in>set ms. \<exists>c. canonical_path c \<and> c \<noteq> [] \<and> mt_path m = render c"
  shows "case choose_mount (render cs) ms of
      None \<Rightarrow> \<forall>m\<in>set ms. \<forall>ds. mt_path m = render ds \<longrightarrow> (\<nexists>rest. cs = ds @ rest)
    | Some i \<Rightarrow> i < length ms \<and> (\<exists>c rest. mt_path (ms ! i) = render c \<and> cs = c @ rest \<and>
        below (ms ! i) (render cs) = concat (map (\<lambda>d. SLASH # d) rest) \<and>
        (\<forall>m\<in>set ms. \<forall>ds. mt_path m = render ds \<longrightarrow> (\<exists>r. cs = ds @ r) \<longrightarrow> length ds \<le> length c))"
proof -
  have good: "\<forall>c\<in>set cs. good_name c" using assms(1) by (simp add: canonical_path_def)
  have mount: "canonical_path ds \<and> ds \<noteq> [] \<and> (path_prefix (render cs) (mt_path m))"
    if m: "m \<in> set ms" "mt_path m = render ds" "cs = ds @ r" for m ds r
  proof -
    obtain c where c: "canonical_path c" "c \<noteq> []" "mt_path m = render c" using assms(2) m(1) by blast
    have "\<forall>c\<in>set ds. good_name c" "\<forall>x\<in>set c. good_name x" using good m(3) c(1) by (auto simp: canonical_path_def)
    then have "comps (render ds) = ds" "comps (render c) = c" using comps_flat[of _ "[]"] render_flat(2) by simp_all
    then have "ds = c" using m(2) c(3) by simp
    then show ?thesis using c path_prefix_render[OF assms(1) c(1,2)] m(3) by auto
  qed
  have len: "str_len (mt_path m) = length (render ds)" "0 < length (render ds)" if "canonical_path ds" "mt_path m = render ds" for m ds
    using that str_len_cstr[OF cstr_render[OF that(1)]] by simp_all
  consider (none) "choose_mount (render cs) ms = None" "\<forall>m\<in>set ms. path_prefix (render cs) (mt_path m) \<longrightarrow> str_len (mt_path m) \<le> 0"
    | (some) i where "i < length ms" "choose_mount (render cs) ms = Some i" "path_prefix (render cs) (mt_path (ms ! i))"
      "\<forall>m\<in>set ms. path_prefix (render cs) (mt_path m) \<longrightarrow> str_len (mt_path m) \<le> str_len (mt_path (ms ! i))"
    using choose_mount_loop_cases[of "render cs" ms 0 None 0] by (auto simp: choose_mount_def)
  then show ?thesis
  proof cases
    case none
    have False if "m \<in> set ms" "mt_path m = render ds" "cs = ds @ rest" for m ds rest
      using mount[OF that] none(2) that(1) len[of ds m] that(2) by auto
    then show ?thesis using none(1) by auto
  next
    case (some i)
    obtain c where c: "canonical_path c" "c \<noteq> []" "mt_path (ms ! i) = render c" using assms(2) some(1) by (meson nth_mem)
    then obtain rest where rest: "cs = c @ rest" using path_prefix_render[OF assms(1) c(1,2)] some(3) by auto
    have "below (ms ! i) (render cs) = flat rest"
      using len(1)[OF c(1,3)] c(2) by (simp add: below_def c(3) rest render_def)
    moreover have "length ds \<le> length c" if d: "m \<in> set ms" "mt_path m = render ds" "cs = ds @ r" for m ds r
    proof (rule ccontr)
      assume "\<not> length ds \<le> length c"
      then obtain x where x: "ds = c @ x" "x \<noteq> []" using d(3) rest by (metis append_Nil2 append_eq_append_conv_if append_take_drop_id le_refl nle_le)
      then have "length (render c) < length (render ds)" using render_mono[of c x] good d(3) by auto
      moreover have "length (render ds) \<le> length (render c)"
        using some(4) d(1) mount[OF d] len(1)[OF c(1,3)] len(1)[of ds m] d(2) by auto
      ultimately show False by simp
    qed
    ultimately have "i < length ms \<and> (\<exists>c rest. mt_path (ms ! i) = render c \<and> cs = c @ rest \<and>
        below (ms ! i) (render cs) = flat rest \<and>
        (\<forall>m\<in>set ms. \<forall>ds. mt_path m = render ds \<longrightarrow> (\<exists>r. cs = ds @ r) \<longrightarrow> length ds \<le> length c))"
      using some(1) c(3) rest by (intro conjI exI[of _ c] exI[of _ rest]) blast+
    then show ?thesis using some(2) by simp
  qed
qed

section \<open>A concrete file system\<close>

text \<open>The root, an empty file \<open>/f\<close>, and a FAT volume mounted on \<open>/volumes/p1\<close>.\<close>

definition ex_vfs :: "(unit, unit) vfs" where
  "ex_vfs = \<lparr>vf_nodes = (\<lambda>_. zero_node)(0 := zero_node\<lparr>n_used := True, n_directory := True, n_kind := 1\<rparr>,
       1 := added 0 ''f'' False),
     vf_mounts = [\<lparr>mt_path = ''/volumes/p1'', mt_volume = 0, mt_kind = 2\<rparr>], vf_ready = True, vf_roots = [],
     vf_store = ex_store, vf_vol = ()\<rparr>"

definition ex_ops :: "(unit, unit) volume_ops" where
  "ex_ops = \<lparr>native_open = (\<lambda>_ _ f s. ((K_EIO, f), s)), fat_open = (\<lambda>_ _ f s. ((K_EIO, f), s)),
     native_create = (\<lambda>_ _ _ f s. ((K_EIO, f), s)), fat_create_locked = (\<lambda>_ _ _ f s. ((K_EIO, f), s)),
     native_store = (\<lambda>_ _ _ _ s. (K_EIO, s)), fat_store_locked = (\<lambda>_ _ _ _ s. (K_EIO, s)),
     native_read = (\<lambda>_ _ b _ s. ((K_EIO, b, 0), s)), fat_read = (\<lambda>_ _ b _ s. ((K_EIO, b, 0), s)),
     native_write = (\<lambda>f _ _ _ s. ((K_EIO, f, 0), s)), fat_replace_locked = (\<lambda>f _ _ s. ((K_EIO, f), s)),
     native_refresh = (\<lambda>f s. ((K_EIO, f), s)), fat_refresh = (\<lambda>f s. ((K_EIO, f), s)),
     native_list = (\<lambda>_ s. ((K_EIO, []), s)), fat_list = (\<lambda>_ s. ((K_EIO, []), s))\<rparr>"

lemma ex_vfs_simps:
  "vf_pmm ex_vfs = ex_pmm" "vf_ready ex_vfs" "vf_roots ex_vfs = []"
  "n_used (vf_nodes ex_vfs k) \<longleftrightarrow> k = 0 \<or> k = 1" "n_data (vf_nodes ex_vfs k) = 0" "n_size (vf_nodes ex_vfs k) = 0"
  "vf_nodes ex_vfs 0 = zero_node\<lparr>n_used := True, n_directory := True, n_kind := 1\<rparr>" "vf_nodes ex_vfs 1 = added 0 ''f'' False"
  by (simp_all add: ex_vfs_def vf_pmm_def ex_store_def zero_node_def added_def)

lemma good_f: "good_name ''f''" "canonical_path [''a'']" "canonical_path [''volumes'', ''p1'', ''x'']" "canonical_path [''volumes'', ''p1'']"
  by (simp_all add: canonical_path_def good_name_def name_ok_def K_NAME_MAX_def K_PATH_BYTES_def render_def)

lemma ex_vfs_inv: "vfs_inv ex_vfs"
proof -
  have "tree_ok (vf_nodes ex_vfs)"
    unfolding tree_ok_def ex_vfs_simps using good_f(1) by (auto simp: ex_vfs_simps(4,7) ex_vfs_simps(8)[unfolded One_nat_def] added_def zero_node_def MAX_NODES_def)
  moreover have "blocks_ok (vf_nodes ex_vfs) ex_pmm"
    by (auto simp: blocks_ok_def block_ok_def ex_vfs_simps) (auto simp: ex_vfs_def zero_node_def added_def)
  ultimately show ?thesis using ex_pmm_inv by (auto simp: vfs_inv_def ex_vfs_simps render_roots_def roots_ok_def)
qed

lemma ex_image: "image_pages 1 ex_vfs = (a, s1) \<Longrightarrow> a \<noteq> 0"
proof -
  assume a: "image_pages 1 ex_vfs = (a, s1)"
  have "fst (k_pmm_alloc_pages 1 0 ex_pmm) \<noteq> 0"
  proof (rule alloc_pages_available[OF ex_pmm_inv, of 1 256])
    show "{256..<256 + 1} \<subseteq> free_set ex_pmm" by (simp add: ex_pmm_sets)
  qed (simp_all add: ex_pmm_def)
  then show "a \<noteq> 0" using a by (auto simp: image_pages_def ex_vfs_simps split: prod.splits)
qed

theorem vfs_write_exact_witness:
  "\<exists>f s'. k_vfs_write ex_ops (zero_file\<lparr>fl_kind := 1, fl_object := 1\<rparr>) 2 (Some (\<lambda>_. 7)) 3 ex_vfs = ((0, f, 3), s') \<and>
     content s' 1 = [0, 0, 7, 7, 7]"
proof -
  let ?f = "zero_file\<lparr>fl_kind := 1, fl_object := 1\<rparr>"
  obtain a s1 where im: "image_pages 1 ex_vfs = (a, s1)" by fastforce
  have a: "a \<noteq> 0" using ex_image[OF im] .
  have "k_vfs_write ex_ops ?f 2 (Some (\<lambda>_. 7)) 3 ex_vfs = write_image ex_ops (?f\<lparr>fl_size := 0\<rparr>) 2 (\<lambda>_. 7) 3 ex_vfs"
    by (simp add: k_vfs_write_def write_target_def ex_vfs_simps(4,6,7) ex_vfs_simps(8)[unfolded One_nat_def] zero_file_def
        FAT_WRITE_MAX_def MAX_NODES_def added_def zero_node_def)
  also have "\<exists>f s'. \<dots> = ((0, f, 3), s')"
    using im a by (simp add: write_image_def Let_def load_image_def store_image_def zero_file_def)
  finally obtain f s' where w: "k_vfs_write ex_ops ?f 2 (Some (\<lambda>_. 7)) 3 ex_vfs = ((0, f, 3), s')" by blast
  have "content ex_vfs 1 = []" by (simp add: content_def ex_vfs_simps)
  moreover have "content s' 1 = overwrite (content ex_vfs 1) 2 [7, 7, 7]"
    using vfs_write_exact[OF ex_vfs_inv _ w] by (simp add: upt_rec zero_file_def)
  ultimately show ?thesis using w by (auto simp: overwrite_def numeral_eq_Suc)
qed

theorem mount_longest_witness:
  "\<exists>i c. choose_mount ''/volumes/p1/x'' (vf_mounts ex_vfs) = Some i \<and> i < 1 \<and> ''/volumes/p1'' = render c"
proof -
  have m: "\<forall>m\<in>set (vf_mounts ex_vfs). \<exists>c. canonical_path c \<and> c \<noteq> [] \<and> mt_path m = render c"
  proof
    fix m assume "m \<in> set (vf_mounts ex_vfs)"
    then have "mt_path m = render [''volumes'', ''p1'']" by (simp add: ex_vfs_def render_def)
    then show "\<exists>c. canonical_path c \<and> c \<noteq> [] \<and> mt_path m = render c" using good_f(4) by blast
  qed
  have r: "render [''volumes'', ''p1'', ''x''] = ''/volumes/p1/x''" "vf_mounts ex_vfs = [\<lparr>mt_path = ''/volumes/p1'', mt_volume = 0, mt_kind = 2\<rparr>]"
    by (simp_all add: render_def ex_vfs_def)
  have "choose_mount ''/volumes/p1/x'' (vf_mounts ex_vfs) = Some 0"
    by (simp add: r(2) choose_mount_def path_prefix_def)
  then show ?thesis using mount_longest[OF good_f(3) m, unfolded r(1)] r(2) by auto
qed

lemma ex_put: "\<exists>s'. k_vfs_put ex_ops ''/a'' (Some b) 5 ex_vfs = (0, s')"
  "k_path_resolve (vf_roots ex_vfs) ''/a'' [SLASH] = Inr ''/a''" "choose_mount ''/a'' (vf_mounts ex_vfs) = None"
proof -
  have p: "render [''a''] = ''/a''" "canonical_path ([] @ [''a''])" using good_f(2) by (simp_all add: render_def)
  show r: "k_path_resolve (vf_roots ex_vfs) ''/a'' [SLASH] = Inr ''/a''"
    using path_resolve_ref[of "''/a''" "[]" "[]"]
    by (simp add: ex_vfs_simps render_roots_def roots_ok_def canonical_path_def resolve_ref_def name_ok_def K_NAME_MAX_def K_PATH_BYTES_def)
      (simp add: render_def)
  show c: "choose_mount ''/a'' (vf_mounts ex_vfs) = None" by (simp add: ex_vfs_def choose_mount_def path_prefix_def)
  obtain a s1 where im: "image_pages 1 ex_vfs = (a, s1)" by fastforce
  have a: "a \<noteq> 0" using ex_image[OF im] .
  have n: "vf_nodes s1 = vf_nodes ex_vfs" using image_pages_ok(1)[OF ex_vfs_inv im] by auto
  have ch: "ram_child (vf_nodes ex_vfs) 0 ''a'' = Inl K_ENOENT"
  proof -
    have "find_from 1 MAX_NODES (\<lambda>i. n_used (vf_nodes ex_vfs i) \<and> n_parent (vf_nodes ex_vfs i) = 0 \<and>
        str_eq (n_name (vf_nodes ex_vfs i)) ''a'') = None"
      unfolding find_from_None by (auto simp: ex_vfs_simps(4) ex_vfs_simps(8)[unfolded One_nat_def] added_def)
    then show ?thesis by (simp add: ram_child_def)
  qed
  have dir: "n_directory (vf_nodes ex_vfs 0)" by (simp add: ex_vfs_simps)
  have walk: "ram_walk (vf_nodes ex_vfs) ''/a'' = Inl K_ENOENT"
    using ram_walk_render[of "[''a'']" "vf_nodes ex_vfs"] p ch dir by simp
  have "\<exists>i. find_from 1 MAX_NODES (\<lambda>i. \<not> n_used (vf_nodes ex_vfs i)) = Some i"
  proof (rule ccontr)
    assume "\<nexists>i. find_from 1 MAX_NODES (\<lambda>i. \<not> n_used (vf_nodes ex_vfs i)) = Some i"
    then have "\<forall>i. 1 \<le> i \<longrightarrow> i < MAX_NODES \<longrightarrow> n_used (vf_nodes ex_vfs i)"
      using find_from_None[of 1 MAX_NODES "\<lambda>i. \<not> n_used (vf_nodes ex_vfs i)"] by fastforce
    from spec[OF this, of 2] show False by (simp add: ex_vfs_simps MAX_NODES_def)
  qed
  then obtain i s2 where new: "new_node ''/a'' False s1 = (Inr i, s2)"
    using ram_new_render[OF p(2), of False "vf_nodes ex_vfs"] ch dir by (auto simp: new_node_def n p(1))
  have "\<exists>s'. ram_put ''/a'' (Some b) 5 ex_vfs = (0, s')"
    using im a new by (simp add: ram_put_def walk Let_def)
  then show "\<exists>s'. k_vfs_put ex_ops ''/a'' (Some b) 5 ex_vfs = (0, s')"
    using r c by (simp add: k_vfs_put_def ex_vfs_simps)
qed

theorem vfs_put_read_witness:
  "\<exists>f s'. k_vfs_put ex_ops ''/a'' (Some (\<lambda>_. 9)) 5 ex_vfs = (0, s') \<and> k_vfs_open ex_ops ''/a'' zero_file s' = ((0, f), s') \<and>
     fl_size f = 5 \<and> (\<exists>b. k_vfs_read ex_ops ex_hw f 3 (Some (\<lambda>_. 0)) 100 s' = Some ((0, Some b, 2), s') \<and> b 0 = 9 \<and> b 2 = 0)"
proof -
  obtain s' where w: "k_vfs_put ex_ops ''/a'' (Some (\<lambda>_. 9)) 5 ex_vfs = (0, s')" using ex_put(1) by blast
  have "cstr ''/a''" "length ''/a'' \<le> 4096" by simp_all
  from vfs_put_read[OF ex_vfs_inv this ex_put(2,3) w, of zero_file ex_hw] obtain f where
    f: "k_vfs_open ex_ops ''/a'' zero_file s' = ((0, f), s')" "fl_size f = 5"
    and r: "\<forall>offset out n. k_vfs_read ex_ops ex_hw f offset (Some out) n s' =
       Some ((0, Some (\<lambda>j. if j < min n (5 - offset) then 9 else out j), min n (5 - offset)), s')" by blast
  show ?thesis using w f spec[OF spec[OF spec[OF r, of 3], of "\<lambda>_. 0"], of 100] by auto
qed

end
