(* ===== verification/Fat.thy ===== *)
theory Fat
  imports Vfs
begin

unbundle bit_operations_syntax

text \<open>
  Reading FAT volumes (\<open>fs/fs.c\<close>, \<open>volume_bytes\<close> to \<open>fat_list\<close> and \<open>fat_refresh\<close>). A volume is a range
  of sectors of a disk with the geometry \<open>fat_mount\<close> took from its boot sector. Cluster and sector
  numbers are natural numbers: the geometry keeps all products below \<open>2^64\<close>. The loops over cluster
  chains carry the bounds and the second, slower walk of the source, which make them end on every
  table, cyclic or not.

  The pages of the table cache and of the two bitmaps are private to the volume, so their contents
  are fields of the volume; the addresses are kept for the release.
\<close>

record fat_volume =
  fv_disk :: nat
  fv_sector :: nat
  fv_spc :: nat
  fv_fat_bits :: nat
  fv_root_entries :: nat
  fv_root_cluster :: nat
  fv_cluster_count :: nat
  fv_start :: nat
  fv_length :: nat
  fv_fat_start :: nat
  fv_fat_sectors :: nat
  fv_root_start :: nat
  fv_data_start :: nat
  fv_source :: string
  fv_first_fat :: nat
  fv_fat_count :: nat
  fv_fsinfo :: nat
  fv_backup_boot :: nat
  fv_media :: u8
  fv_mirrored :: bool
  fv_write_ready :: bool
  fv_write_failed :: bool
  fv_partition_ro :: bool
  fv_cache :: nat
  fv_used :: nat
  fv_dirty :: nat
  fv_cache_bytes :: bytes
  fv_used_bits :: bytes
  fv_dirty_bits :: bytes
  fv_cache_pages :: nat
  fv_used_pages :: nat
  fv_dirty_pages :: nat
  fv_free_clusters :: nat
  fv_alloc_hint :: nat

record fat_fs =
  ff_volumes :: "nat \<Rightarrow> fat_volume"
  ff_volume_count :: nat

record fat_dirent = k_dirent +
  de_attributes :: u8
  de_directory_offset :: nat

section \<open>Bytes of a volume and links of the table\<close>

text \<open>
  The division fault of \<^const>\<open>disk_bytes\<close> needs a sector size of zero, which no registered disk has;
  it is reported as an error here.
\<close>

definition volume_bytes :: "'h hw \<Rightarrow> fat_volume \<Rightarrow> nat \<Rightarrow> bytes \<Rightarrow> nat \<Rightarrow> 'h store \<Rightarrow> (int \<times> bytes) \<times> 'h store" where
  "volume_bytes h v offset out n s =
     (if \<not> span_ok offset n (fv_length v * fv_sector v) then ((K_EIO, out), s)
      else case disk_bytes h (fv_disk v) (fv_start v * fv_sector v + offset) out n s of
        None \<Rightarrow> ((K_EIO, out), s)
      | Some r \<Rightarrow> r)"

definition NO_CLUSTER :: nat where "NO_CLUSTER = 0xffffffff"

definition in_volume :: "fat_volume \<Rightarrow> nat \<Rightarrow> bool" where
  "in_volume v c \<longleftrightarrow> \<not> (c < 2 \<or> c - 2 \<ge> fv_cluster_count v)"

definition fat_end :: "fat_volume \<Rightarrow> nat" where
  "fat_end v = (if fv_fat_bits v = 12 then 0xff8 else if fv_fat_bits v = 16 then 0xfff8 else 0x0ffffff8)"

definition fat_entry_offset :: "fat_volume \<Rightarrow> nat \<Rightarrow> nat" where
  "fat_entry_offset v c = (if fv_fat_bits v = 12 then c + c div 2 else c * (fv_fat_bits v div 8))"

definition fat_entry_bytes :: "fat_volume \<Rightarrow> nat" where
  "fat_entry_bytes v = (if fv_fat_bits v = 32 then 4 else 2)"

text \<open>The link an entry of the table holds.\<close>

definition fat_link :: "fat_volume \<Rightarrow> nat \<Rightarrow> bytes \<Rightarrow> int + nat" where
  "fat_link v c raw =
     (let n = (if fv_fat_bits v = 32 then unat (rd32 raw 0 AND 0x0fffffff) else unat (rd16 raw 0));
          n = (if fv_fat_bits v = 12 then if odd c then drop_bit 4 n else n AND 0xfff else n) in
      if n \<ge> fat_end v then Inr NO_CLUSTER
      else if \<not> in_volume v n \<or> n = fat_end v - 1 then Inl K_EIO
      else Inr n)"

definition fat_next :: "'h hw \<Rightarrow> fat_volume \<Rightarrow> nat \<Rightarrow> 'h store \<Rightarrow> (int + nat) \<times> 'h store" where
  "fat_next h v c s =
     (if \<not> in_volume v c then (Inl K_EIO, s)
      else if \<not> span_ok (fat_entry_offset v c) (fat_entry_bytes v) (fv_fat_sectors v * fv_sector v) then (Inl K_EIO, s)
      else case volume_bytes h v (fv_fat_start v * fv_sector v + fat_entry_offset v c) (\<lambda>_. 0) (fat_entry_bytes v) s of
        ((e, raw), s) \<Rightarrow> (if e \<noteq> 0 then Inl e else fat_link v c raw, s))"

section \<open>Directory entries\<close>

definition upcase :: "char \<Rightarrow> char" where
  "upcase c = (let x = of_char c :: nat in if 97 \<le> x \<and> x \<le> 122 then char_of (x - 32) else c)"

function name_equal :: "string \<Rightarrow> string \<Rightarrow> bool" where
  "name_equal a b =
     (if cur a \<noteq> NUL \<and> cur b \<noteq> NUL then
        if upcase (cur a) \<noteq> upcase (cur b) then False else name_equal (tl a) (tl b)
      else cur a = cur b)"
  by pat_completeness auto
termination
proof (relation "measure (\<lambda>(a, b). length a)", goal_cases)
  case (2 a b)
  then show ?case by (cases a) auto
qed simp

declare name_equal.simps [simp del]

definition sfn_checksum :: "bytes \<Rightarrow> u8" where
  "sfn_checksum name = fold (\<lambda>i sum. (if sum AND 1 \<noteq> 0 then 128 else 0) + drop_bit 1 sum + name i) [0..<11] 0"

text \<open>The long name collected from the entries before a short one.\<close>

record lfn_state =
  lf_on :: bool
  lf_expected :: nat
  lf_sum :: u8
  lf_name :: "nat \<Rightarrow> char"

definition no_lfn :: lfn_state where
  "no_lfn = \<lparr>lf_on = False, lf_expected = 0, lf_sum = 0, lf_name = (\<lambda>_. NUL)\<rparr>"

definition lfn_offsets :: "nat list" where
  "lfn_offsets = [1, 3, 5, 7, 9, 14, 16, 18, 20, 22, 24, 28, 30]"

definition lfn_at :: "nat \<Rightarrow> nat \<Rightarrow> nat" where
  "lfn_at seq i = add32 (sub32 seq 1 * 13 mod 2 ^ 32) i"

definition lfn_put :: "bytes \<Rightarrow> nat \<Rightarrow> nat \<Rightarrow> bool \<times> (nat \<Rightarrow> char) \<Rightarrow> bool \<times> (nat \<Rightarrow> char)" where
  "lfn_put d seq i r =
     (let on = fst r; name = snd r; at = lfn_at seq i; ch = rd16 d (lfn_offsets ! i) in
      if at \<ge> K_NAME_MAX then (if ch \<noteq> 0 \<and> ch \<noteq> 0xffff then False else on, name)
      else if ch = 0xffff \<or> ch = 0 then (on, name(at := NUL))
      else if ch < 32 \<or> ch > 126 \<or> ch = 0x2f \<or> ch = 0x5c then (False, name)
      else (on, name(at := char_of (unat ch))))"

definition lfn_entry :: "bytes \<Rightarrow> lfn_state \<Rightarrow> lfn_state" where
  "lfn_entry d l =
     (let seq = unat (d 0 AND 31);
          l = (if d 0 AND 0x40 \<noteq> 0
               then \<lparr>lf_on = (seq \<ge> 1 \<and> seq \<le> 20), lf_expected = seq, lf_sum = d 13, lf_name = (\<lambda>_. NUL)\<rparr> else l) in
      if \<not> lf_on l \<or> seq \<noteq> lf_expected l \<or> d 13 \<noteq> lf_sum l \<or> d 12 \<noteq> 0 \<or> rd16 d 26 \<noteq> 0 \<or> d 0 AND 0xa0 \<noteq> 0
      then l\<lparr>lf_on := False\<rparr>
      else case fold (lfn_put d seq) [0..<13] (True, lf_name l) of
        (on, name) \<Rightarrow> l\<lparr>lf_on := on, lf_name := name, lf_expected := sub32 (lf_expected l) 1\<rparr>)"

definition byte_char :: "u8 \<Rightarrow> char" where
  "byte_char b = char_of (unat b)"

definition short_name :: "bytes \<Rightarrow> string" where
  "short_name d =
     map byte_char (takeWhile (\<lambda>b. b \<noteq> 32) (map d [0..<8])) @
     (if d 8 \<noteq> 32 then CHR ''.'' # map byte_char (takeWhile (\<lambda>b. b \<noteq> 32) (map d [8..<11])) else [])"

definition entry_name :: "bytes \<Rightarrow> lfn_state \<Rightarrow> string" where
  "entry_name d l =
     (if lf_on l \<and> lf_expected l = 0 \<and> lf_sum l = sfn_checksum d \<and> lf_name l 0 \<noteq> NUL
      then str_copy [] (map (lf_name l) [0..<K_NAME_MAX + 1]) (K_NAME_MAX + 1)
      else short_name d)"

definition first_cluster :: "fat_volume \<Rightarrow> bytes \<Rightarrow> nat" where
  "first_cluster v d =
     unat (ucast (rd16 d 26) OR (if fv_fat_bits v = 32 then push_bit 16 (ucast (rd16 d 20)) else 0) :: u32)"

text \<open>What one entry of 32 bytes at \<open>pos\<close> means for the scan of a directory.\<close>

datatype dir_step = Stop | Bad | Skip lfn_state | Entry fat_dirent nat lfn_state

definition dir_entry :: "fat_volume \<Rightarrow> bytes \<Rightarrow> nat \<Rightarrow> lfn_state \<Rightarrow> dir_step" where
  "dir_entry v d pos l =
     (if d 0 = 0 then Stop
      else if d 0 = 0xe5 then Skip (l\<lparr>lf_on := False\<rparr>)
      else if d 11 = 0x0f then Skip (lfn_entry d l)
      else if d 11 AND 8 \<noteq> 0 then Skip (l\<lparr>lf_on := False\<rparr>)
      else
        let name = entry_name d l; l = l\<lparr>lf_on := False\<rparr> in
        if str_eq name ''.'' \<or> str_eq name ''..'' then Skip l
        else
          let en = \<lparr>de_name = name, de_size = unat (rd32 d 28), de_directory = (d 11 AND 0x10 \<noteq> 0),
                    de_attributes = d 11, de_directory_offset = pos\<rparr>;
              child = first_cluster v d in
          if fv_fat_bits v = 32 \<and> (word_of_nat child :: u32) AND 0xf0000000 \<noteq> 0 then Bad
          else if (de_directory en \<or> de_size en \<noteq> 0) \<and> \<not> in_volume v child then Bad
          else Entry en child l)"

section \<open>Scanning a directory\<close>

text \<open>
  The callback of the source and its argument are a function \<open>cb\<close> from the argument, the entry and
  the entry's first cluster to the result and the new argument. A scan of some entries either
  finishes with the result of \<open>fat_directory\<close> or goes on with its counters.
\<close>

type_synonym 'a fat_callback = "'a \<Rightarrow> fat_dirent \<Rightarrow> nat \<Rightarrow> int \<times> 'a"

datatype 'a scan = Finish int 'a | Go nat lfn_state 'a

fun dir_sector ::
  "fat_volume \<Rightarrow> 'a fat_callback \<Rightarrow> bool \<Rightarrow> nat \<Rightarrow> bytes \<Rightarrow> nat list \<Rightarrow> nat \<Rightarrow> lfn_state \<Rightarrow> 'a \<Rightarrow> 'a scan" where
  "dir_sector v cb root base buf [] scanned l acc = Go scanned l acc"
| "dir_sector v cb root base buf (p # ps) scanned l acc =
     (if root \<and> scanned \<ge> fv_root_entries v then Finish 0 acc
      else if Suc scanned > 65536 then Finish K_E2BIG acc
      else case dir_entry v (\<lambda>j. buf (p + j)) (base + p) l of
        Stop \<Rightarrow> Finish 0 acc
      | Bad \<Rightarrow> Finish K_EIO acc
      | Skip l \<Rightarrow> dir_sector v cb root base buf ps (Suc scanned) l acc
      | Entry en child l \<Rightarrow>
          (case cb acc en child of
             (r, acc) \<Rightarrow>
               if r \<noteq> 0 then Finish (if r > 0 then 0 else r) acc
               else dir_sector v cb root base buf ps (Suc scanned) l acc))"

definition entry_positions :: "fat_volume \<Rightarrow> nat list" where
  "entry_positions v = map (\<lambda>i. 32 * i) [0..<(fv_sector v + 31) div 32]"

fun dir_sectors ::
  "'h hw \<Rightarrow> fat_volume \<Rightarrow> 'a fat_callback \<Rightarrow> bool \<Rightarrow> nat list \<Rightarrow> nat \<Rightarrow> lfn_state \<Rightarrow> 'a \<Rightarrow> 'h store \<Rightarrow> 'a scan \<times> 'h store" where
  "dir_sectors h v cb root [] scanned l acc s = (Go scanned l acc, s)"
| "dir_sectors h v cb root (k # ks) scanned l acc s =
     (case volume_bytes h v (k * fv_sector v) (\<lambda>_. 0) (fv_sector v) s of
        ((e, buf), s) \<Rightarrow>
          if e \<noteq> 0 then (Finish e acc, s)
          else case dir_sector v cb root (k * fv_sector v) buf (entry_positions v) scanned l acc of
            Finish e acc \<Rightarrow> (Finish e acc, s)
          | Go scanned l acc \<Rightarrow> dir_sectors h v cb root ks scanned l acc s)"

text \<open>The sectors of a cluster, or of the fixed root directory for cluster 0.\<close>

definition cluster_start :: "fat_volume \<Rightarrow> nat \<Rightarrow> nat" where
  "cluster_start v c = fv_data_start v + (c - 2) * fv_spc v"

definition dir_span :: "fat_volume \<Rightarrow> nat \<Rightarrow> nat list" where
  "dir_span v c =
     (if c = 0 then [fv_root_start v..<fv_root_start v + (fv_root_entries v * 32 + fv_sector v - 1) div fv_sector v]
      else [cluster_start v c..<cluster_start v c + fv_spc v])"

function dir_chain ::
  "'h hw \<Rightarrow> fat_volume \<Rightarrow> 'a fat_callback \<Rightarrow> nat \<Rightarrow> nat \<Rightarrow> nat \<Rightarrow> nat \<Rightarrow> lfn_state \<Rightarrow> 'a \<Rightarrow> 'h store \<Rightarrow> (int \<times> 'a) \<times> 'h store" where
  "dir_chain h v cb c visited tortoise scanned l acc s =
     (if c \<noteq> 0 \<and> (\<not> in_volume v c \<or> Suc visited > 65536 \<or> Suc visited > fv_cluster_count v) then ((K_EIO, acc), s)
      else case dir_sectors h v cb (c = 0) (dir_span v c) scanned l acc s of
        (Finish e acc, s) \<Rightarrow> ((e, acc), s)
      | (Go scanned l acc, s) \<Rightarrow>
          if c = 0 then ((0, acc), s)
          else case fat_next h v c s of
            (Inl e, s) \<Rightarrow> ((e, acc), s)
          | (Inr nx, s) \<Rightarrow>
              if nx = NO_CLUSTER then ((0, acc), s)
              else case (if even (Suc visited) then fat_next h v tortoise s else (Inr tortoise, s)) of
                (Inl e, s) \<Rightarrow> ((e, acc), s)
              | (Inr t, s) \<Rightarrow>
                  if even (Suc visited) \<and> t = NO_CLUSTER \<or> nx = t then ((K_EIO, acc), s)
                  else dir_chain h v cb nx (Suc visited) t scanned l acc s)"
  by pat_completeness auto
termination
  by (relation "measure (\<lambda>(h, v, cb, c, visited, tortoise, scanned, l, acc, s). 65537 - visited)") auto

declare dir_chain.simps [simp del]

definition fat_directory ::
  "'h hw \<Rightarrow> fat_volume \<Rightarrow> nat \<Rightarrow> 'a fat_callback \<Rightarrow> 'a \<Rightarrow> 'h store \<Rightarrow> (int \<times> 'a) \<times> 'h store" where
  "fat_directory h v c cb acc s =
     (if c = 0 \<and> fv_fat_bits v = 32 then ((K_EIO, acc), s)
      else dir_chain h v cb c 0 c 0 no_lfn acc s)"

section \<open>Opening, reading and listing\<close>

definition fat_find_cb :: "string \<Rightarrow> (fat_dirent \<times> nat) option fat_callback" where
  "fat_find_cb name acc en child = (if \<not> name_equal name (de_name en) then (0, acc) else (1, Some (en, child)))"

definition fat_file :: "nat \<Rightarrow> nat \<Rightarrow> u32 \<Rightarrow> nat \<Rightarrow> nat \<Rightarrow> k_file" where
  "fat_file index cluster attributes sz offset =
     \<lparr>fl_kind = 2, fl_object = index, fl_cluster = cluster, fl_attributes = attributes, fl_size = sz,
      fl_directory_offset = offset\<rparr>"

function fat_open_loop ::
  "'h hw \<Rightarrow> fat_volume \<Rightarrow> nat \<Rightarrow> string \<Rightarrow> nat \<Rightarrow> k_file \<Rightarrow> 'h store \<Rightarrow> (int \<times> k_file) \<times> 'h store" where
  "fat_open_loop h v index path cluster out s =
     (if cur path = NUL then ((0, out), s)
      else if cur path = SLASH then fat_open_loop h v index (tl path) cluster out s
      else if fl_attributes out AND 0x10 = 0 then ((K_ENOENT, out), s)
      else case fat_directory h v cluster (fat_find_cb (takeWhile name_part path)) None s of
        ((e, found), s) \<Rightarrow>
          if e \<noteq> 0 then ((e, out), s)
          else case found of
            None \<Rightarrow> ((K_ENOENT, out), s)
          | Some (en, c) \<Rightarrow>
              fat_open_loop h v index (dropWhile name_part path) c
                (fat_file index c (ucast (de_attributes en)) (de_size en) (de_directory_offset en)) s)"
  by pat_completeness auto
termination
proof (relation "measure (\<lambda>(h, v, index, path, cluster, out, s). length path)", goal_cases)
  case (2 h v index path cluster out s)
  then show ?case by (cases path) auto
next
  case (3 h v index path cluster out s)
  then show ?case by (cases path) (auto simp: name_part_def le_imp_less_Suc length_dropWhile_le)
qed simp

declare fat_open_loop.simps [simp del]

definition root_dir :: "fat_volume \<Rightarrow> nat" where
  "root_dir v = (if fv_fat_bits v = 32 then fv_root_cluster v else 0)"

definition fat_open :: "'h hw \<Rightarrow> fat_fs \<Rightarrow> nat \<Rightarrow> string \<Rightarrow> k_file \<Rightarrow> 'h store \<Rightarrow> (int \<times> k_file) \<times> 'h store" where
  "fat_open h fs index path out s =
     (if index \<ge> ff_volume_count fs then ((K_ENOENT, out), s)
      else
        let v = ff_volumes fs index in
        fat_open_loop h v index path (root_dir v) (fat_file index (root_dir v) 0x10 0 0) s)"

definition fat_refresh :: "'h hw \<Rightarrow> fat_fs \<Rightarrow> k_file \<Rightarrow> 'h store \<Rightarrow> (int \<times> k_file) \<times> 'h store" where
  "fat_refresh h fs f s =
     (if fl_kind f \<noteq> 2 \<or> fl_object f \<ge> ff_volume_count fs then ((K_EINVAL, f), s)
      else if fl_directory_offset f = 0 then ((0, f), s)
      else
        let v = ff_volumes fs (fl_object f) in
        case volume_bytes h v (fl_directory_offset f) (\<lambda>_. 0) 32 s of
          ((e, d), s) \<Rightarrow>
            if e \<noteq> 0 then ((e, f), s)
            else if d 0 = 0 \<or> d 0 = 0xe5 \<or> d 11 AND 8 \<noteq> 0 then ((K_ENOENT, f), s)
            else
              let f = f\<lparr>fl_attributes := ucast (d 11), fl_size := unat (rd32 d 28), fl_cluster := first_cluster v d\<rparr> in
              ((if (fl_size f \<noteq> 0 \<or> fl_attributes f AND 0x10 \<noteq> 0 \<or> fl_cluster f \<noteq> 0) \<and> \<not> in_volume v (fl_cluster f)
                then K_EIO else 0, f), s))"


text \<open>
  The step of the read loop to the next cluster: every second step moves the slower walk too, and
  meeting it means a cycle.
\<close>

definition read_next :: "'h hw \<Rightarrow> fat_volume \<Rightarrow> nat \<Rightarrow> nat \<Rightarrow> nat \<Rightarrow> 'h store \<Rightarrow> (int + nat \<times> nat) \<times> 'h store" where
  "read_next h v cluster steps tortoise s =
     (case fat_next h v cluster s of
        (Inl e, s) \<Rightarrow> (Inl e, s)
      | (Inr nx, s) \<Rightarrow>
          if nx = NO_CLUSTER then (Inl K_EIO, s)
          else case (if even (Suc steps) then fat_next h v tortoise s else (Inr tortoise, s)) of
            (Inl e, s) \<Rightarrow> (Inl e, s)
          | (Inr t, s) \<Rightarrow> (if nx = t then Inl K_EIO else Inr (nx, t), s))"

text \<open>One transfer into the caller's buffer at \<open>p\<close>.\<close>

definition read_part ::
  "'h hw \<Rightarrow> fat_volume \<Rightarrow> nat \<Rightarrow> nat \<Rightarrow> nat \<Rightarrow> bytes \<Rightarrow> nat \<Rightarrow> 'h store \<Rightarrow> (int \<times> bytes) \<times> 'h store" where
  "read_part h v cluster at k out p s =
     (case volume_bytes h v (cluster_start v cluster * fv_sector v + at) (\<lambda>j. out (p + j)) k s of
        ((e, b), s) \<Rightarrow> ((e, put_bytes out p b 0 k), s))"

function fat_read_loop ::
  "'h hw \<Rightarrow> fat_volume \<Rightarrow> nat \<Rightarrow> nat \<Rightarrow> nat \<Rightarrow> nat \<Rightarrow> nat \<Rightarrow> nat \<Rightarrow> bytes \<Rightarrow> nat \<Rightarrow> 'h store \<Rightarrow> (int \<times> bytes \<times> nat) \<times> 'h store" where
  "fat_read_loop h v skip at n cluster steps tortoise out got s =
     (if skip = 0 \<and> n = 0 then ((0, out, got), s)
      else if \<not> in_volume v cluster \<or> steps \<ge> fv_cluster_count v \<or> steps > 65536 then ((K_EIO, out, got), s)
      else
        let k = (if skip = 0 then min n (fv_spc v * fv_sector v - at) else 0) in
        case (if skip = 0 then read_part h v cluster at k out got s else ((0, out), s)) of
          ((e, out), s) \<Rightarrow>
            if e \<noteq> 0 then ((e, out, got), s)
            else if skip = 0 \<and> n - k = 0 then ((0, out, got + k), s)
            else case read_next h v cluster steps tortoise s of
              (Inl e, s) \<Rightarrow> ((e, out, got + k), s)
            | (Inr (nx, t), s) \<Rightarrow>
                fat_read_loop h v (skip - 1) (if skip = 0 then 0 else at) (n - k) nx (Suc steps) t out (got + k) s)"
  by pat_completeness auto
termination
  by (relation "measure (\<lambda>(h, v, skip, at, n, cluster, steps, tortoise, out, got, s). 65537 - steps)") auto

declare fat_read_loop.simps [simp del]

text \<open>The pointer into the buffer and the count \<open>got\<close> of the source advance together from 0.\<close>

definition fat_read :: "'h hw \<Rightarrow> fat_fs \<Rightarrow> k_file \<Rightarrow> nat \<Rightarrow> bytes \<Rightarrow> nat \<Rightarrow> 'h store \<Rightarrow> (int \<times> bytes \<times> nat) \<times> 'h store" where
  "fat_read h fs file offset out n s =
     (case fat_refresh h fs file s of
        ((e, file), s) \<Rightarrow>
          if e \<noteq> 0 then ((e, out, 0), s)
          else if fl_object file \<ge> ff_volume_count fs then ((K_ENOENT, out, 0), s)
          else if offset \<ge> fl_size file \<or> n = 0 then ((0, out, 0), s)
          else
            let v = ff_volumes fs (fl_object file); n = min n (fl_size file - offset);
                cluster_bytes = fv_spc v * fv_sector v; skip = offset div cluster_bytes in
            if skip > 65536 then ((K_E2BIG, out, 0), s)
            else fat_read_loop h v skip (offset mod cluster_bytes) n (fl_cluster file) 0 (fl_cluster file) out 0 s)"

definition fat_list_cb :: "k_dirent list fat_callback" where
  "fat_list_cb acc en child = (0, acc @ [k_dirent.truncate en])"

definition fat_list :: "'h hw \<Rightarrow> fat_fs \<Rightarrow> k_file \<Rightarrow> 'h store \<Rightarrow> (int \<times> k_dirent list) \<times> 'h store" where
  "fat_list h fs file s =
     (if fl_object file \<ge> ff_volume_count fs then ((K_ENOENT, []), s)
      else fat_directory h (ff_volumes fs (fl_object file)) (fl_cluster file) fat_list_cb [] s)"

end
