(* ===== verification/FatWrite.thy ===== *)
theory FatWrite
  imports Fat
begin

unbundle bit_operations_syntax

text \<open>
  Replacing the contents of a FAT file (\<open>fs/fs.c\<close>, \<open>fat_cached\<close> to \<open>fat_replace_locked\<close>): the cached
  table with its dirty sectors, the audit before the first write, cluster allocation, and the ordered
  sequence of writes and flushes. An operation on a volume and the disks is a function on their pair
  and returns the error code; \<open>and_then\<close> is the source's \<open>if (!e) e = ...\<close>.
\<close>

type_synonym 'h vs = "fat_volume \<times> 'h store"

definition FAT_CACHE_MAX :: nat where "FAT_CACHE_MAX = 64 * 1024 * 1024"
definition FAT_DIR_LIMIT :: nat where "FAT_DIR_LIMIT = 4096"

definition and_then :: "int \<times> 'a \<Rightarrow> ('a \<Rightarrow> int \<times> 'a) \<Rightarrow> int \<times> 'a" where
  "and_then r f = (if fst r \<noteq> 0 then r else f (snd r))"

section \<open>The cached table\<close>

definition fat_cached :: "fat_volume \<Rightarrow> nat \<Rightarrow> nat" where
  "fat_cached v c =
     (if fv_fat_bits v = 16 then unat (rd16 (fv_cache_bytes v) (2 * c))
      else unat (rd32 (fv_cache_bytes v) (4 * c) AND 0x0fffffff))"

definition fat_eoc :: "fat_volume \<Rightarrow> nat" where
  "fat_eoc v = (if fv_fat_bits v = 16 then 0xffff else 0x0fffffff)"

definition fat_is_end :: "fat_volume \<Rightarrow> nat \<Rightarrow> bool" where
  "fat_is_end v n \<longleftrightarrow> n \<ge> (if fv_fat_bits v = 16 then 0xfff8 else 0x0ffffff8)"

definition table_set :: "fat_volume \<Rightarrow> nat \<Rightarrow> nat \<Rightarrow> bytes" where
  "table_set v off x =
     (let b = fv_cache_bytes v in
      if fv_fat_bits v = 16 then b(off := word_of_nat x, off + 1 := word_of_nat (drop_bit 8 x))
      else wr32 b off ((rd32 b off AND 0xf0000000) OR (word_of_nat x AND 0x0fffffff)))"

definition fat_cache_set :: "fat_volume \<Rightarrow> nat \<Rightarrow> nat \<Rightarrow> fat_volume" where
  "fat_cache_set v c x =
     (let off = c * (fv_fat_bits v div 8) in
      v\<lparr>fv_cache_bytes := table_set v off x, fv_dirty_bits := bit_set (fv_dirty_bits v) (off div fv_sector v)\<rparr>)"

text \<open>
  A write that never returns needs a sector size \<open>disk_add\<close> does not register
  (\<open>disk_write_terminates\<close>); it is an error here.
\<close>

definition volume_write :: "'h hw \<Rightarrow> nat \<Rightarrow> nat \<Rightarrow> bytes \<Rightarrow> 'h vs \<Rightarrow> int \<times> 'h vs" where
  "volume_write h sector count data x =
     (let v = fst x; s = snd x in
      if fv_write_failed v \<or> sector \<ge> fv_length v \<or> count = 0 \<or> count > fv_length v - sector then (K_EROFS, x)
      else case disk_write_fs h (fv_disk v) (fv_start v + sector) count (Some data) (count * fv_sector v) s of
        None \<Rightarrow> (K_EIO, v\<lparr>fv_write_failed := True\<rparr>, s)
      | Some (e, s) \<Rightarrow> (e, if e \<noteq> 0 then v\<lparr>fv_write_failed := True\<rparr> else v, s))"

definition volume_flush :: "'h hw \<Rightarrow> 'h vs \<Rightarrow> int \<times> 'h vs" where
  "volume_flush h x =
     (case disk_flush h (fv_disk (fst x)) (snd x) of
        (e, s) \<Rightarrow> (e, if e \<noteq> 0 then (fst x)\<lparr>fv_write_failed := True\<rparr> else fst x, s))"

text \<open>The sector of copy \<open>f\<close> of the table that holds its sector \<open>k\<close>.\<close>

definition fat_copies :: "fat_volume \<Rightarrow> nat" where
  "fat_copies v = (if fv_mirrored v then fv_fat_count v else 1)"

definition copy_sector :: "fat_volume \<Rightarrow> nat \<Rightarrow> nat \<Rightarrow> nat" where
  "copy_sector v f k = (if fv_mirrored v then fv_first_fat v + f * fv_fat_sectors v else fv_fat_start v) + k"

fun flush_copies :: "'h hw \<Rightarrow> nat \<Rightarrow> nat list \<Rightarrow> 'h vs \<Rightarrow> int \<times> 'h vs" where
  "flush_copies h k [] x = (0, x)"
| "flush_copies h k (f # fs) x =
     and_then (volume_write h (copy_sector (fst x) f k) 1 (\<lambda>j. fv_cache_bytes (fst x) (k * fv_sector (fst x) + j)) x)
       (flush_copies h k fs)"

fun flush_sectors :: "'h hw \<Rightarrow> nat list \<Rightarrow> 'h vs \<Rightarrow> int \<times> 'h vs" where
  "flush_sectors h [] x = (0, x)"
| "flush_sectors h (k # ks) x =
     (if bit_get (fv_dirty_bits (fst x)) k then
        and_then (flush_copies h k [0..<fat_copies (fst x)] x)
          (\<lambda>(v, s). flush_sectors h ks (v\<lparr>fv_dirty_bits := bit_clear (fv_dirty_bits v) k\<rparr>, s))
      else flush_sectors h ks x)"

definition fat_flush_cache :: "'h hw \<Rightarrow> 'h vs \<Rightarrow> int \<times> 'h vs" where
  "fat_flush_cache h x = and_then (flush_sectors h [0..<fv_fat_sectors (fst x)] x) (volume_flush h)"

section \<open>The audit before the first write\<close>

text \<open>The walk along a chain that marks its clusters; \<open>Inr\<close> of their number, or an error.\<close>

function mark_loop :: "fat_volume \<Rightarrow> nat \<Rightarrow> nat \<Rightarrow> (int + nat) \<times> fat_volume" where
  "mark_loop v c count =
     (if \<not> in_volume v c \<or> Suc count > 65536 \<or> bit_get (fv_used_bits v) c then (Inl K_EIO, v)
      else
        let v = v\<lparr>fv_used_bits := bit_set (fv_used_bits v) c\<rparr>; nx = fat_cached v c in
        if fat_is_end v nx then (Inr (Suc count), v) else mark_loop v nx (Suc count))"
  by pat_completeness auto
termination by (relation "measure (\<lambda>(v, c, count). 65537 - count)") auto

declare mark_loop.simps [simp del]

definition fat_mark_chain :: "fat_volume \<Rightarrow> nat \<Rightarrow> nat \<Rightarrow> int \<times> fat_volume" where
  "fat_mark_chain v c sz =
     (if c = 0 then (if sz \<noteq> 0 then K_EIO else 0, v)
      else case mark_loop v c 0 of
        (Inl e, v) \<Rightarrow> (e, v)
      | (Inr count, v) \<Rightarrow> (if sz > count * fv_spc v * fv_sector v then K_EIO else 0, v))"

text \<open>
  The audit's argument: the volume whose bitmap it marks, and the queue of directories. The scan of
  a directory reads only the geometry of the volume, which the marks leave alone.
\<close>

definition fat_audit_entry :: "(fat_volume \<times> nat list) fat_callback" where
  "fat_audit_entry a en c =
     (case fat_mark_chain (fst a) c (de_size en) of
        (e, v) \<Rightarrow>
          if e \<noteq> 0 then (e, v, snd a)
          else if de_directory en then
            if length (snd a) = FAT_DIR_LIMIT then (K_E2BIG, v, snd a) else (0, v, snd a @ [c])
          else (0, v, snd a))"

fun audit_loop ::
  "'h hw \<Rightarrow> nat list \<Rightarrow> fat_volume \<times> nat list \<Rightarrow> 'h store \<Rightarrow> (int \<times> fat_volume \<times> nat list) \<times> 'h store" where
  "audit_loop h [] a s = ((0, a), s)"
| "audit_loop h (i # is) a s =
     (if i \<ge> length (snd a) then ((0, a), s)
      else case fat_directory h (fst a) (snd a ! i) fat_audit_entry a s of
        ((e, a), s) \<Rightarrow> if e \<noteq> 0 then ((e, a), s) else audit_loop h is a s)"

fun mirror_check :: "'h hw \<Rightarrow> fat_volume \<Rightarrow> nat list \<Rightarrow> 'h store \<Rightarrow> int \<times> 'h store" where
  "mirror_check h v [] s = (0, s)"
| "mirror_check h v (k # ks) s =
     (case volume_bytes h v ((fv_first_fat v + fv_fat_sectors v + k) * fv_sector v) (\<lambda>_. 0) (fv_sector v) s of
        ((e, b), s) \<Rightarrow>
          if e \<noteq> 0 then (e, s)
          else if memcmp (fv_cache_bytes v) (k * fv_sector v) b 0 (fv_sector v) \<noteq> 0 then (K_EIO, s)
          else mirror_check h v ks s)"

definition bad_cluster :: "fat_volume \<Rightarrow> nat" where
  "bad_cluster v = (if fv_fat_bits v = 16 then 0xfff7 else 0x0ffffff7)"

fun count_free :: "fat_volume \<Rightarrow> nat list \<Rightarrow> nat \<Rightarrow> int \<times> nat" where
  "count_free v [] n = (0, n)"
| "count_free v (c # cs) n =
     (if fat_cached v c = 0 then count_free v cs (Suc n)
      else if \<not> bit_get (fv_used_bits v) c \<and> fat_cached v c \<noteq> bad_cluster v then (K_EIO, n)
      else count_free v cs n)"

definition free_at :: "nat \<Rightarrow> nat \<Rightarrow> 'h store \<Rightarrow> 'h store" where
  "free_at a pages s = (if a \<noteq> 0 then s\<lparr>s_pmm := k_pmm_free_pages a pages (s_pmm s)\<rparr> else s)"

definition fat_drop_cache :: "'h vs \<Rightarrow> 'h vs" where
  "fat_drop_cache x =
     (let v = fst x in
      (v\<lparr>fv_cache := 0, fv_used := 0, fv_dirty := 0, fv_write_ready := False\<rparr>,
       free_at (fv_dirty v) (fv_dirty_pages v) (free_at (fv_used v) (fv_used_pages v)
         (free_at (fv_cache v) (fv_cache_pages v) (snd x)))))"

definition alloc_at :: "nat \<Rightarrow> 'h store \<Rightarrow> nat \<times> 'h store" where
  "alloc_at pages s = (case k_pmm_alloc_pages pages 0 (s_pmm s) of (a, pm) \<Rightarrow> (a, s\<lparr>s_pmm := pm\<rparr>))"

text \<open>The pages of the cache, the bitmaps and the queue; the allocator zeroes them.\<close>

definition prepare_pages :: "'h vs \<Rightarrow> nat \<times> 'h vs" where
  "prepare_pages x =
     (let v = fst x; cp = (fv_fat_sectors v * fv_sector v + 4095) div 4096; up = (fv_cluster_count v + 2 + 32767) div 32768;
          dp = (fv_fat_sectors v + 32767) div 32768 in
      case alloc_at cp (snd x) of
        (ca, s) \<Rightarrow>
          (case alloc_at up s of
             (us, s) \<Rightarrow>
               (case alloc_at dp s of
                  (di, s) \<Rightarrow>
                    (case alloc_at (FAT_DIR_LIMIT div 1024) s of
                       (dirs, s) \<Rightarrow>
                         (dirs, v\<lparr>fv_cache := ca, fv_used := us, fv_dirty := di, fv_cache_bytes := (\<lambda>_. 0),
                                  fv_used_bits := (\<lambda>_. 0), fv_dirty_bits := (\<lambda>_. 0), fv_cache_pages := cp,
                                  fv_used_pages := up, fv_dirty_pages := dp\<rparr>, s)))))"

definition prepare_load :: "'h hw \<Rightarrow> 'h vs \<Rightarrow> int \<times> 'h vs" where
  "prepare_load h x =
     (let v = fst x; mask = (if fv_fat_bits v = 16 then 0xc000 else 0x0c000000) :: nat;
          header = (if fv_fat_bits v = 16 then 0xff00 else 0x0fffff00) OR unat (fv_media v) in
      case volume_bytes h v (fv_fat_start v * fv_sector v) (fv_cache_bytes v) (fv_fat_sectors v * fv_sector v) (snd x) of
        ((e, b), s) \<Rightarrow>
          let v = v\<lparr>fv_cache_bytes := b\<rparr> in
          if e \<noteq> 0 then (e, v, s)
          else if fat_cached v 0 \<noteq> header then (K_EIO, v, s)
          else if fat_cached v 1 AND mask \<noteq> mask then (K_EROFS, v, s)
          else if fv_mirrored v \<and> fv_fat_count v > 1 then
            (case mirror_check h v [0..<fv_fat_sectors v] s of (e, s) \<Rightarrow> (e, v, s))
          else (0, v, s))"

definition prepare_audit :: "'h hw \<Rightarrow> 'h vs \<Rightarrow> int \<times> 'h vs" where
  "prepare_audit h x =
     (case (if fv_fat_bits (fst x) = 32 then fat_mark_chain (fst x) (fv_root_cluster (fst x)) 0 else (0, fst x)) of
        (e, v) \<Rightarrow>
          if e \<noteq> 0 then (e, v, snd x)
          else case audit_loop h [0..<FAT_DIR_LIMIT] (v, [fv_root_cluster v]) (snd x) of
            ((e, v, _), s) \<Rightarrow>
              if e \<noteq> 0 then (e, v, s)
              else case count_free v [2..<fv_cluster_count v + 2] 0 of
                (e, n) \<Rightarrow> (e, v\<lparr>fv_free_clusters := n\<rparr>, s))"

definition prepare_ready :: "fat_volume \<Rightarrow> fat_volume" where
  "prepare_ready v = v\<lparr>fv_alloc_hint := 2, fv_write_ready := True\<rparr>"

definition fat_prepare_write :: "'h hw \<Rightarrow> 'h vs \<Rightarrow> int \<times> 'h vs" where
  "fat_prepare_write h x =
     (let v = fst x; d = s_disks (snd x) (fv_disk v) in
      if fv_write_failed v \<or> fv_partition_ro v then (K_EROFS, x)
      else if fv_write_ready v then (0, x)
      else if fv_fat_bits v = 16 \<and> fv_cluster_count v > 0xffee then (K_ENOTSUP, x)
      else if fv_fat_bits v = 12 \<or> (d_kind d \<noteq> DISK_RAM \<and> d_flush_command d = 0) then (K_EROFS, x)
      else if fv_fat_sectors v * fv_sector v > FAT_CACHE_MAX then (K_E2BIG, x)
      else case prepare_pages x of
        (dirs, x) \<Rightarrow>
          (case (if fv_cache (fst x) = 0 \<or> fv_used (fst x) = 0 \<or> fv_dirty (fst x) = 0 \<or> dirs = 0 then (K_ENOMEM, x)
                 else and_then (prepare_load h x) (prepare_audit h)) of
             (e, x) \<Rightarrow>
               let x = (fst x, free_at dirs (FAT_DIR_LIMIT div 1024) (snd x)) in
               if e \<noteq> 0 then (e, fat_drop_cache x) else (0, prepare_ready (fst x), snd x)))"

section \<open>The dirty mark and the free-space hints\<close>

definition clean_bit :: "fat_volume \<Rightarrow> nat" where
  "clean_bit v = (if fv_fat_bits v = 16 then 0x8000 else 0x08000000)"

definition set_dirty :: "fat_volume \<Rightarrow> fat_volume" where
  "set_dirty v = fat_cache_set v 1 (unat (word_of_nat (fat_cached v 1) AND NOT (word_of_nat (clean_bit v)) :: u32))"

definition set_clean :: "fat_volume \<Rightarrow> fat_volume" where
  "set_clean v = fat_cache_set v 1 (fat_cached v 1 OR clean_bit v)"

definition fsinfo_ok :: "bytes \<Rightarrow> bool" where
  "fsinfo_ok b \<longleftrightarrow> \<not> (rd32 b 0 \<noteq> 0x41615252 \<or> rd32 b 484 \<noteq> 0x61417272 \<or> rd32 b 508 \<noteq> 0xaa550000)"

fun fsinfo_loop :: "'h hw \<Rightarrow> nat list \<Rightarrow> 'h vs \<Rightarrow> int \<times> 'h vs" where
  "fsinfo_loop h [] x = (0, x)"
| "fsinfo_loop h (k # ks) x =
     (if k \<ge> fv_first_fat (fst x) then fsinfo_loop h ks x
      else case volume_bytes h (fst x) (k * fv_sector (fst x)) (\<lambda>_. 0) (fv_sector (fst x)) (snd x) of
        ((e, b), s) \<Rightarrow>
          if e \<noteq> 0 then (e, fst x, s)
          else if \<not> fsinfo_ok b then fsinfo_loop h ks (fst x, s)
          else and_then (volume_write h k 1 (wr32 (wr32 b 488 0xffffffff) 492 0xffffffff) (fst x, s)) (fsinfo_loop h ks))"

definition fsinfo_sectors :: "fat_volume \<Rightarrow> nat list" where
  "fsinfo_sectors v =
     (if fv_fat_bits v = 32 \<and> fv_fsinfo v \<noteq> 0 \<and> fv_fsinfo v < fv_first_fat v
      then if fv_backup_boot v \<noteq> 0 then [fv_fsinfo v, fv_backup_boot v + fv_fsinfo v] else [fv_fsinfo v] else [])"

definition fat_begin_write :: "'h hw \<Rightarrow> 'h vs \<Rightarrow> int \<times> 'h vs" where
  "fat_begin_write h x =
     and_then (fat_flush_cache h (set_dirty (fst x), snd x)) (\<lambda>x.
     and_then (fsinfo_loop h (fsinfo_sectors (fst x)) x) (volume_flush h))"

definition fat_finish_write :: "'h hw \<Rightarrow> int \<Rightarrow> 'h vs \<Rightarrow> int \<times> 'h vs" where
  "fat_finish_write h e x =
     (if e \<noteq> 0 then (e, (fst x)\<lparr>fv_write_failed := True\<rparr>, snd x)
      else case fat_flush_cache h (set_clean (fst x), snd x) of
        (e, v, s) \<Rightarrow> (e, if e \<noteq> 0 then v\<lparr>fv_write_failed := True\<rparr> else v, s))"

section \<open>Allocation and data\<close>

definition take_cluster :: "fat_volume \<Rightarrow> nat \<Rightarrow> fat_volume" where
  "take_cluster v c =
     (let v = fat_cache_set v c (fat_eoc v) in
      v\<lparr>fv_used_bits := bit_set (fv_used_bits v) c, fv_free_clusters := sub32 (fv_free_clusters v) 1\<rparr>)"

fun allocate_loop :: "nat \<Rightarrow> fat_volume \<Rightarrow> nat \<times> fat_volume" where
  "allocate_loop 0 v = (0, v)"
| "allocate_loop (Suc n) v =
     (let c = fv_alloc_hint v; nx = add32 c 1;
          v = v\<lparr>fv_alloc_hint := (if nx = fv_cluster_count v + 2 then 2 else nx)\<rparr> in
      if fat_cached v c = 0 then (c, take_cluster v c) else allocate_loop n v)"

definition fat_allocate :: "fat_volume \<Rightarrow> nat \<times> fat_volume" where
  "fat_allocate v = allocate_loop (fv_cluster_count v) v"

fun write_data_loop :: "'h hw \<Rightarrow> nat list \<Rightarrow> bytes \<Rightarrow> nat \<Rightarrow> nat \<Rightarrow> 'h vs \<Rightarrow> int \<times> 'h vs" where
  "write_data_loop h [] data off sz x = (0, x)"
| "write_data_loop h (k # ks) data off sz x =
     (let n = min sz (fv_sector (fst x)) in
      and_then (volume_write h k 1 (put_bytes (\<lambda>_. 0) 0 data off n) x)
        (write_data_loop h ks data (off + n) (sz - n)))"

definition fat_write_data :: "'h hw \<Rightarrow> nat \<Rightarrow> bytes \<Rightarrow> nat \<Rightarrow> 'h vs \<Rightarrow> int \<times> 'h vs" where
  "fat_write_data h c data sz x =
     write_data_loop h [cluster_start (fst x) c..<cluster_start (fst x) c + fv_spc (fst x)] data 0 sz x"

definition fat_entry_write :: "'h hw \<Rightarrow> nat \<Rightarrow> bytes \<Rightarrow> 'h vs \<Rightarrow> int \<times> 'h vs" where
  "fat_entry_write h off d x =
     (let v = fst x; lba = off div fv_sector v in
      if off AND 31 \<noteq> 0 \<or> \<not> span_ok off 32 (fv_length v * fv_sector v) then (K_EINVAL, x)
      else if lba < fv_root_start v \<or> (fv_fat_bits v = 32 \<and> lba < fv_data_start v) then (K_EPERM, x)
      else case volume_bytes h v (lba * fv_sector v) (\<lambda>_. 0) (fv_sector v) (snd x) of
        ((e, b), s) \<Rightarrow>
          if e \<noteq> 0 then (e, v, s)
          else volume_write h lba 1 (put_bytes b (off mod fv_sector v) d 0 32) (v, s))"

definition fat_set_first :: "bytes \<Rightarrow> nat \<Rightarrow> nat \<Rightarrow> bytes" where
  "fat_set_first d c sz =
     wr32 (d(26 := word_of_nat c, 27 := word_of_nat (drop_bit 8 c), 20 := word_of_nat (drop_bit 16 c),
             21 := word_of_nat (drop_bit 24 c))) 28 (word_of_nat sz)"

section \<open>Replacing a file\<close>

text \<open>The new chain: \<open>n\<close> clusters are allocated, linked and filled in turn. The result has the first.\<close>

fun replace_clusters ::
  "'h hw \<Rightarrow> nat \<Rightarrow> nat \<Rightarrow> nat \<Rightarrow> nat \<Rightarrow> bytes \<Rightarrow> nat \<Rightarrow> 'h vs \<Rightarrow> nat \<times> int \<times> 'h vs" where
  "replace_clusters h 0 first prev offset data sz x = (first, 0, x)"
| "replace_clusters h (Suc n) first prev offset data sz x =
     (case fat_allocate (fst x) of
        (c, v) \<Rightarrow>
          if c = 0 then (first, K_ENOMEM, v, snd x)
          else
            let first = (if prev \<noteq> 0 then first else c); v = (if prev \<noteq> 0 then fat_cache_set v prev c else v);
                m = min (fv_spc v * fv_sector v) (sz - offset) in
            case fat_write_data h c (\<lambda>j. data (offset + j)) m (v, snd x) of
              (e, x) \<Rightarrow> if e \<noteq> 0 then (first, e, x) else replace_clusters h n first c (offset + m) data sz x)"

text \<open>
  The release of the old chain. Every round zeroes an entry and a zero entry ends the loop, so that
  one round per cluster and one more are enough.
\<close>

fun release_chain :: "nat \<Rightarrow> nat \<Rightarrow> fat_volume \<Rightarrow> fat_volume" where
  "release_chain 0 old v = v"
| "release_chain (Suc n) old v =
     (if old = 0 then v
      else
        let nx = fat_cached v old; v = fat_cache_set v old 0;
            v = v\<lparr>fv_used_bits := bit_clear (fv_used_bits v) old, fv_free_clusters := add32 (fv_free_clusters v) 1\<rparr> in
        if fat_is_end v nx then v else release_chain n nx v)"

text \<open>
  The ordered writes after the audit: the dirty mark, the data and the table with the new chain; then
  the directory entry; then the release of the old chain. Every failure ends in \<open>fat_finish_write\<close>.
\<close>

definition replace_chain :: "'h hw \<Rightarrow> bytes \<Rightarrow> nat \<Rightarrow> nat \<Rightarrow> 'h vs \<Rightarrow> nat \<times> int \<times> 'h vs" where
  "replace_chain h data sz count x =
     (case fat_begin_write h x of
        (e, x) \<Rightarrow>
          if e \<noteq> 0 then (0, e, x)
          else case replace_clusters h count 0 0 0 data sz x of
            (first, r) \<Rightarrow> (first, and_then (and_then r (volume_flush h)) (fat_flush_cache h)))"

definition publish_entry :: "'h hw \<Rightarrow> nat \<Rightarrow> bytes \<Rightarrow> nat \<Rightarrow> nat \<Rightarrow> 'h vs \<Rightarrow> int \<times> 'h vs" where
  "publish_entry h off d first sz x =
     (let d = fat_set_first d first sz; d = d(11 := d 11 OR 0x20) in
      and_then (fat_entry_write h off d x) (volume_flush h))"

definition replace_body :: "'h hw \<Rightarrow> k_file \<Rightarrow> bytes \<Rightarrow> bytes \<Rightarrow> nat \<Rightarrow> nat \<Rightarrow> 'h vs \<Rightarrow> (int \<times> k_file) \<times> 'h vs" where
  "replace_body h f d data sz count x =
     (case replace_chain h data sz count x of
        (first, r) \<Rightarrow>
          (case and_then r (publish_entry h (fl_directory_offset f) d first sz) of
             (e, x) \<Rightarrow>
               if e \<noteq> 0 then (case fat_finish_write h e x of (e, x) \<Rightarrow> ((e, f), x))
               else
                 case fat_flush_cache h (release_chain (fv_cluster_count (fst x) + 2) (fl_cluster f) (fst x), snd x) of
                   (e, x) \<Rightarrow>
                     (case fat_finish_write h e x of
                        (e, x) \<Rightarrow> ((e, f\<lparr>fl_cluster := first, fl_size := sz\<rparr>), x))))"

text \<open>Running an operation of one volume inside the table of volumes.\<close>

definition with_volume :: "nat \<Rightarrow> ('h vs \<Rightarrow> 'r \<times> 'h vs) \<Rightarrow> fat_fs \<times> 'h store \<Rightarrow> 'r \<times> fat_fs \<times> 'h store" where
  "with_volume i op y =
     (case op (ff_volumes (fst y) i, snd y) of
        (r, v, s) \<Rightarrow> (r, (fst y)\<lparr>ff_volumes := (ff_volumes (fst y))(i := v)\<rparr>, s))"

definition replace_prepared :: "'h hw \<Rightarrow> k_file \<Rightarrow> bytes \<Rightarrow> nat \<Rightarrow> 'h vs \<Rightarrow> (int \<times> k_file) \<times> 'h vs" where
  "replace_prepared h f data sz x =
     (case fat_prepare_write h x of
        (e, v, s) \<Rightarrow>
          if e \<noteq> 0 then ((e, f), v, s)
          else
            let per = fv_spc v * fv_sector v; count = (sz + per - 1) div per in
            if count > fv_free_clusters v then ((K_ENOSPC, f), v, s)
            else case volume_bytes h v (fl_directory_offset f) (\<lambda>_. 0) 32 s of
              ((e, d), s) \<Rightarrow> if e \<noteq> 0 then ((e, f), v, s) else replace_body h f d data sz count (v, s))"

definition fat_replace_locked ::
  "'h hw \<Rightarrow> k_file \<Rightarrow> bytes \<Rightarrow> nat \<Rightarrow> fat_fs \<times> 'h store \<Rightarrow> (int \<times> k_file) \<times> fat_fs \<times> 'h store" where
  "fat_replace_locked h f data sz y =
     (if sz > FAT_WRITE_MAX then ((K_E2BIG, f), y)
      else case fat_refresh h (fst y) f (snd y) of
        ((e, f), s) \<Rightarrow>
          if e \<noteq> 0 then ((e, f), fst y, s)
          else if fl_directory_offset f = 0 \<or> fl_attributes f AND 0x11 \<noteq> 0 then ((K_EROFS, f), fst y, s)
          else with_volume (fl_object f) (replace_prepared h f data sz) (fst y, s))"

end
