(* ===== verification/FatCreate.thy ===== *)
theory FatCreate
  imports FatWrite
begin

unbundle bit_operations_syntax

text \<open>
  Creating files and directories on a FAT volume (\<open>fs/fs.c\<close>, \<open>fat_slots\<close> to \<open>fat_store_locked\<close>): the
  search for free directory slots (with growth of the directory), the choice of a short name, the
  long-name entries, and the store that creates and then replaces.
\<close>

section \<open>Free slots of a directory\<close>

text \<open>The first sector and the number of sectors of a cluster, or of the fixed root for cluster 0; \<open>c - 2\<close> wraps.\<close>

definition slot_sectors :: "fat_volume \<Rightarrow> nat \<Rightarrow> nat list" where
  "slot_sectors v c =
     (if c \<noteq> 0 then [fv_data_start v + sub32 c 2 * fv_spc v..<fv_data_start v + sub32 c 2 * fv_spc v + fv_spc v]
      else [fv_root_start v..<fv_root_start v + (fv_root_entries v * 32 + fv_sector v - 1) div fv_sector v])"

text \<open>
  The state of the search: the length of the current run of free slots, the entries seen, whether
  the end of the directory was passed, and the array of offsets.
\<close>

record slot_state =
  ss_run :: nat
  ss_scanned :: nat
  ss_ended :: bool
  ss_slots :: "nat \<Rightarrow> nat"

datatype slot_scan = Found int slot_state | Search slot_state

fun slot_sector :: "fat_volume \<Rightarrow> bool \<Rightarrow> nat \<Rightarrow> nat \<Rightarrow> bytes \<Rightarrow> nat list \<Rightarrow> slot_state \<Rightarrow> slot_scan" where
  "slot_sector v root need base buf [] t = Search t"
| "slot_sector v root need base buf (p # ps) t =
     (if (root \<and> ss_scanned t \<ge> fv_root_entries v) \<or> Suc (ss_scanned t) > 65536 then Found K_E2BIG t
      else
        let ended = (ss_ended t \<or> buf p = 0); t = t\<lparr>ss_scanned := Suc (ss_scanned t), ss_ended := ended\<rparr> in
        if ended \<or> buf p = 0xe5 then
          let t = t\<lparr>ss_slots := (ss_slots t)(ss_run t := base + p), ss_run := Suc (ss_run t)\<rparr> in
          if ss_run t \<ge> need + (if ended then 1 else 0) then Found 0 t
          else slot_sector v root need base buf ps t
        else slot_sector v root need base buf ps (t\<lparr>ss_run := 0\<rparr>))"

fun slot_cluster ::
  "'h hw \<Rightarrow> fat_volume \<Rightarrow> bool \<Rightarrow> nat \<Rightarrow> nat list \<Rightarrow> slot_state \<Rightarrow> 'h store \<Rightarrow> slot_scan \<times> 'h store" where
  "slot_cluster h v root need [] t s = (Search t, s)"
| "slot_cluster h v root need (k # ks) t s =
     (case volume_bytes h v (k * fv_sector v) (\<lambda>_. 0) (fv_sector v) s of
        ((e, buf), s) \<Rightarrow>
          if e \<noteq> 0 then (Found e t, s)
          else case slot_sector v root need (k * fv_sector v) buf (entry_positions v) t of
            Found e t \<Rightarrow> (Found e t, s)
          | Search t \<Rightarrow> slot_cluster h v root need ks t s)"

text \<open>The growth of a directory by a zeroed cluster, flushed before it is linked.\<close>

definition slot_grow :: "'h hw \<Rightarrow> nat \<Rightarrow> 'h vs \<Rightarrow> nat \<times> int \<times> 'h vs" where
  "slot_grow h cluster x =
     (case fat_allocate (fst x) of
        (nx, v) \<Rightarrow>
          (nx, if nx = 0 then (K_ENOSPC, v, snd x)
               else
                 and_then (and_then (and_then (fat_write_data h nx (\<lambda>_. 0) 0 (v, snd x)) (volume_flush h)) (fat_flush_cache h))
                   (\<lambda>x. fat_flush_cache h (fat_cache_set (fst x) cluster nx, snd x))))"

function slots_loop ::
  "'h hw \<Rightarrow> nat \<Rightarrow> bool \<Rightarrow> nat \<Rightarrow> nat \<Rightarrow> slot_state \<Rightarrow> 'h vs \<Rightarrow> (int \<times> slot_state) \<times> 'h vs" where
  "slots_loop h need grow cluster visited t x =
     (if visited \<ge> 65536 then ((K_E2BIG, t), x)
      else case slot_cluster h (fst x) (cluster = 0) need (slot_sectors (fst x) cluster) t (snd x) of
        (Found e t, s) \<Rightarrow> ((e, t), fst x, s)
      | (Search t, s) \<Rightarrow>
          if cluster = 0 then ((K_ENOSPC, t), fst x, s)
          else
            let nx = fat_cached (fst x) cluster in
            if fat_is_end (fst x) nx \<and> \<not> grow then ((K_EAGAIN, t), fst x, s)
            else case (if fat_is_end (fst x) nx then slot_grow h cluster (fst x, s) else (nx, 0, fst x, s)) of
              (nx, e, x) \<Rightarrow>
                if e \<noteq> 0 then ((e, t), x)
                else if \<not> in_volume (fst x) nx then ((K_EIO, t), x)
                else slots_loop h need grow nx (Suc visited) t x)"
  by pat_completeness auto
termination by (relation "measure (\<lambda>(h, need, grow, cluster, visited, t, x). 65536 - visited)") auto

declare slots_loop.simps [simp del]

text \<open>The offsets, whether they pass the end of the directory, and the error.\<close>

definition fat_slots ::
  "'h hw \<Rightarrow> nat \<Rightarrow> nat \<Rightarrow> bool \<Rightarrow> (nat \<Rightarrow> nat) \<Rightarrow> 'h vs \<Rightarrow> (int \<times> (nat \<Rightarrow> nat) \<times> bool) \<times> 'h vs" where
  "fat_slots h dir need grow slots x =
     (case slots_loop h need grow dir 0 \<lparr>ss_run = 0, ss_scanned = 0, ss_ended = False, ss_slots = slots\<rparr> x of
        ((e, t), x) \<Rightarrow> ((e, ss_slots t, e = 0 \<and> ss_ended t), x))"

section \<open>Short names\<close>

fun sfn_sector :: "fat_volume \<Rightarrow> bool \<Rightarrow> nat \<Rightarrow> bytes \<Rightarrow> bytes \<Rightarrow> nat list \<Rightarrow> int option" where
  "sfn_sector v root n buf name [] = None"
| "sfn_sector v root n buf name (p # ps) =
     (if root \<and> (n * fv_sector v + p) div 32 \<ge> fv_root_entries v then Some 0
      else if buf p = 0 then Some 0
      else if buf p \<noteq> 0xe5 \<and> buf (p + 11) \<noteq> 0x0f \<and> memcmp buf p name 0 11 = 0 then Some 1
      else sfn_sector v root n buf name ps)"

fun sfn_cluster ::
  "'h hw \<Rightarrow> fat_volume \<Rightarrow> bool \<Rightarrow> bytes \<Rightarrow> nat \<Rightarrow> nat list \<Rightarrow> 'h store \<Rightarrow> int option \<times> 'h store" where
  "sfn_cluster h v root name n [] s = (None, s)"
| "sfn_cluster h v root name n (k # ks) s =
     (case volume_bytes h v (k * fv_sector v) (\<lambda>_. 0) (fv_sector v) s of
        ((e, buf), s) \<Rightarrow>
          if e \<noteq> 0 then (Some e, s)
          else case sfn_sector v root n buf name (entry_positions v) of
            Some r \<Rightarrow> (Some r, s)
          | None \<Rightarrow> sfn_cluster h v root name (Suc n) ks s)"

function sfn_loop :: "'h hw \<Rightarrow> fat_volume \<Rightarrow> bytes \<Rightarrow> nat \<Rightarrow> nat \<Rightarrow> 'h store \<Rightarrow> int \<times> 'h store" where
  "sfn_loop h v name c visited s =
     (if visited \<ge> 65536 then (K_E2BIG, s)
      else case sfn_cluster h v (c = 0) name 0 (slot_sectors v c) s of
        (Some r, s) \<Rightarrow> (r, s)
      | (None, s) \<Rightarrow>
          if c = 0 \<or> fat_is_end v (fat_cached v c) then (0, s)
          else sfn_loop h v name (fat_cached v c) (Suc visited) s)"
  by pat_completeness auto
termination by (relation "measure (\<lambda>(h, v, name, c, visited, s). 65536 - visited)") auto

declare sfn_loop.simps [simp del]

definition fat_sfn_exists :: "'h hw \<Rightarrow> fat_volume \<Rightarrow> nat \<Rightarrow> bytes \<Rightarrow> 'h store \<Rightarrow> int \<times> 'h store" where
  "fat_sfn_exists h v dir name s = sfn_loop h v name dir 0 s"

definition text_bytes :: "string \<Rightarrow> bytes" where
  "text_bytes t = (\<lambda>i. if i < length t then of_char (t ! i) else 0)"

text \<open>The short name of a serial number: \<open>K\<close>, seven hexadecimal digits, \<open>FIL\<close>.\<close>

definition hex_digit :: "nat \<Rightarrow> u8" where
  "hex_digit d = of_char (''0123456789ABCDEF'' ! d)"

definition serial_name :: "nat \<Rightarrow> bytes" where
  "serial_name serial =
     fold (\<lambda>i b. b(7 - i := hex_digit (drop_bit (i * 4) serial AND 15))) [0..<7] (text_bytes ''K0000000FIL'')"

function find_serial :: "'h hw \<Rightarrow> fat_volume \<Rightarrow> nat \<Rightarrow> nat \<Rightarrow> 'h store \<Rightarrow> (int + bytes) \<times> 'h store" where
  "find_serial h v dir serial s =
     (if serial \<ge> 65536 then (Inl K_E2BIG, s)
      else case fat_sfn_exists h v dir (serial_name serial) s of
        (e, s) \<Rightarrow>
          if e < 0 then (Inl e, s)
          else if e = 0 then (Inr (serial_name serial), s)
          else find_serial h v dir (Suc serial) s)"
  by pat_completeness auto
termination by (relation "measure (\<lambda>(h, v, dir, serial, s). 65536 - serial)") auto

declare find_serial.simps [simp del]

section \<open>Directory entries of a new file\<close>

text \<open>Entry \<open>seq\<close> of the long name (1 is the first 13 characters); the last one has the mark 0x40.\<close>

definition lfn_char :: "string \<Rightarrow> nat \<Rightarrow> u16" where
  "lfn_char name at =
     (if at < str_len name then of_char (name ! at) else if at = str_len name then 0 else 0xffff)"

definition lfn_make :: "string \<Rightarrow> u8 \<Rightarrow> nat \<Rightarrow> bool \<Rightarrow> bytes" where
  "lfn_make name cks seq final =
     fold (\<lambda>j d. d(lfn_offsets ! j := ucast (lfn_char name ((seq - 1) * 13 + j)),
                   lfn_offsets ! j + 1 := ucast (drop_bit 8 (lfn_char name ((seq - 1) * 13 + j))))) [0..<13]
       ((\<lambda>i. if i < 32 then 0xff else 0)(0 := word_of_nat (seq OR (if final then 0x40 else 0)), 11 := 0x0f, 12 := 0, 13 := cks,
          26 := 0, 27 := 0))"

definition short_entry :: "bytes \<Rightarrow> bool \<Rightarrow> nat \<Rightarrow> bytes" where
  "short_entry sfn directory first =
     fat_set_first ((put_bytes (\<lambda>_. 0) 0 sfn 0 11)(11 := (if directory then 0x10 else 0x20), 16 := 0x21, 18 := 0x21,
       24 := 0x21)) first 0"

definition dot_entry :: "bytes \<Rightarrow> string \<Rightarrow> nat \<Rightarrow> bytes" where
  "dot_entry d name c = fat_set_first ((put_bytes d 0 (text_bytes name) 0 11)(11 := 0x10)) c 0"

fun write_entries :: "'h hw \<Rightarrow> (nat \<times> bytes) list \<Rightarrow> 'h vs \<Rightarrow> int \<times> 'h vs" where
  "write_entries h [] x = (0, x)"
| "write_entries h ((off, d) # es) x = and_then (fat_entry_write h off d x) (write_entries h es)"

section \<open>Creation\<close>

fun strip_slashes :: "string \<Rightarrow> nat \<Rightarrow> nat" where
  "strip_slashes p 0 = 0"
| "strip_slashes p (Suc n) = (if n > 0 \<and> p ! n = SLASH then strip_slashes p n else Suc n)"

definition name_char_ok :: "char \<Rightarrow> bool" where
  "name_char_ok c \<longleftrightarrow> (let ch = of_char c :: nat in
     \<not> (ch < 32 \<or> ch > 126 \<or> c = CHR 0x22 \<or> c = CHR ''*'' \<or> c = CHR '':'' \<or> c = CHR ''<'' \<or> c = CHR ''>'' \<or>
        c = CHR ''?'' \<or> c = CHR 0x5c \<or> c = CHR ''|''))"

text \<open>The parent's path and the new name, or an error.\<close>

definition create_split :: "string \<Rightarrow> int + string \<times> string" where
  "create_split path =
     (let p = str_copy [] (if cur path \<noteq> NUL then path else [SLASH]) K_PATH_BYTES;
          p = take (strip_slashes p (str_len p)) p; split = name_split p (length p);
          name = str_copy [] (drop split p) (K_NAME_MAX + 1) in
      if cur name = NUL \<or> str_eq name ''.'' \<or> str_eq name ''..'' then Inl K_EINVAL
      else if \<not> list_all name_char_ok name then Inl K_EINVAL
      else if name ! (str_len name - 1) = CHR '' '' \<or> name ! (str_len name - 1) = CHR ''.'' then Inl K_EINVAL
      else Inr (take (if split \<noteq> 0 then split - 1 else 0) p, name))"

text \<open>The first cluster of a new directory, with its two dot entries.\<close>

definition create_dots :: "'h hw \<Rightarrow> nat \<Rightarrow> 'h vs \<Rightarrow> nat \<times> int \<times> 'h vs" where
  "create_dots h parent x =
     (case fat_allocate (fst x) of
        (first, v) \<Rightarrow>
          (first, if first = 0 then (K_ENOMEM, v, snd x)
             else
               let off = cluster_start v first * fv_sector v; dot = dot_entry (\<lambda>_. 0) ''.          '' first;
                   up = (if parent = fv_root_cluster v then 0 else parent) in
               and_then (and_then (fat_write_data h first (\<lambda>_. 0) 0 (v, snd x)) (fat_entry_write h off dot))
                 (fat_entry_write h (off + 32) (dot_entry dot ''..         '' up))))"

text \<open>
  The writes: a terminator after the new slots, deleted placeholders, the cluster of a directory, the
  long name, and last the short entry that makes the file visible. The result has the first cluster.
\<close>

definition create_body ::
  "'h hw \<Rightarrow> nat \<Rightarrow> string \<Rightarrow> bool \<Rightarrow> bytes \<Rightarrow> (nat \<Rightarrow> nat) \<Rightarrow> bool \<Rightarrow> 'h vs \<Rightarrow> nat \<times> int \<times> 'h vs" where
  "create_body h parent name directory sfn slots end_seen x =
     (let lfns = (str_len name + 12) div 13; needed = lfns + 1; gone = (\<lambda>_. 0 :: u8)(0 := 0xe5);
          r = (if end_seen then and_then (fat_entry_write h (slots needed) (\<lambda>_. 0) x) (volume_flush h) else (0, x));
          r = and_then (and_then r (write_entries h (map (\<lambda>i. (slots i, gone)) [0..<needed]))) (volume_flush h) in
      case (if fst r = 0 \<and> directory then create_dots h parent (snd r) else (0, r)) of
        (first, r) \<Rightarrow>
          (first,
           let long = map (\<lambda>i. (slots i, lfn_make name (sfn_checksum sfn) (lfns - i) (i = 0))) [0..<lfns] in
           and_then (and_then (and_then (and_then (and_then (and_then r (volume_flush h)) (fat_flush_cache h))
             (write_entries h long)) (volume_flush h)) (fat_entry_write h (slots lfns) (short_entry sfn directory first)))
             (volume_flush h)))"

definition create_prepared ::
  "'h hw \<Rightarrow> nat \<Rightarrow> k_file \<Rightarrow> string \<Rightarrow> bool \<Rightarrow> k_file \<Rightarrow> 'h vs \<Rightarrow> (int \<times> k_file) \<times> 'h vs" where
  "create_prepared h index p name directory out x =
     (case find_serial h (fst x) (fl_cluster p) 1 (snd x) of
        (Inl e, s) \<Rightarrow> ((e, out), fst x, s)
      | (Inr sfn, s) \<Rightarrow>
          let needed = (str_len name + 12) div 13 + 1 in
          (case fat_slots h (fl_cluster p) needed False (\<lambda>_. 0) (fst x, s) of
             ((e, slots, end_seen), x) \<Rightarrow>
               if e \<noteq> 0 \<and> e \<noteq> K_EAGAIN then ((e, out), x)
               else
                 let grow = (e = K_EAGAIN) in
                 (case fat_begin_write h x of
                    (e, x) \<Rightarrow>
                      if e \<noteq> 0 then (case fat_finish_write h e x of (e, x) \<Rightarrow> ((e, out), x))
                      else case (if grow then fat_slots h (fl_cluster p) needed True slots x else ((0, slots, end_seen), x)) of
                        ((e, slots, end_seen), x) \<Rightarrow>
                          if e \<noteq> 0 then (case fat_finish_write h e x of (e, x) \<Rightarrow> ((e, out), x))
                          else case create_body h (fl_cluster p) name directory sfn slots end_seen x of
                            (first, e, x) \<Rightarrow>
                              (case fat_finish_write h e x of
                                 (e, x) \<Rightarrow>
                                   ((e, if e = 0 then fat_file index first (if directory then 0x10 else 0x20) 0
                                                        (slots (needed - 1)) else out), x)))))"

definition create_checked ::
  "'h hw \<Rightarrow> nat \<Rightarrow> k_file \<Rightarrow> string \<Rightarrow> bool \<Rightarrow> k_file \<Rightarrow> 'h vs \<Rightarrow> (int \<times> k_file) \<times> 'h vs" where
  "create_checked h index p name directory out x =
     (case fat_prepare_write h x of
        (e, x) \<Rightarrow>
          if e \<noteq> 0 then ((e, out), x)
          else if fv_free_clusters (fst x) < 4 then ((K_ENOSPC, out), x)
          else create_prepared h index p name directory out x)"

definition fat_create_locked ::
  "'h hw \<Rightarrow> nat \<Rightarrow> string \<Rightarrow> bool \<Rightarrow> k_file \<Rightarrow> fat_fs \<times> 'h store \<Rightarrow> (int \<times> k_file) \<times> fat_fs \<times> 'h store" where
  "fat_create_locked h index path directory out y =
     (case create_split path of
        Inl e \<Rightarrow> ((e, out), y)
      | Inr (parent, name) \<Rightarrow>
          (case fat_open h (fst y) index parent zero_file (snd y) of
             ((e, p), s) \<Rightarrow>
               if e \<noteq> 0 then ((e, out), fst y, s)
               else if fl_attributes p AND 0x10 = 0 then ((K_ENOENT, out), fst y, s)
               else case fat_open h (fst y) index path zero_file s of
                 ((e, _), s) \<Rightarrow>
                   if e = 0 then ((K_EEXIST, out), fst y, s)
                   else if e \<noteq> K_ENOENT then ((e, out), fst y, s)
                   else with_volume index (create_checked h index p name directory out) (fst y, s)))"

definition fat_store_locked ::
  "'h hw \<Rightarrow> nat \<Rightarrow> string \<Rightarrow> bytes \<Rightarrow> nat \<Rightarrow> fat_fs \<times> 'h store \<Rightarrow> int \<times> fat_fs \<times> 'h store" where
  "fat_store_locked h index path data sz y =
     (case fat_open h (fst y) index path zero_file (snd y) of
        ((e, f), s) \<Rightarrow>
          (case (if e = K_ENOENT then fat_create_locked h index path False f (fst y, s) else ((e, f), fst y, s)) of
             ((e, f), y) \<Rightarrow>
               if e \<noteq> 0 then (e, y)
               else case fat_replace_locked h f data sz y of ((e, _), y) \<Rightarrow> (e, y)))"

end
