(* ===== verification/FatMount.thy ===== *)
theory FatMount
  imports FatCreate
begin

unbundle bit_operations_syntax

text \<open>
  Mounting (\<open>fs/fs.c\<close>, \<open>fat_mount\<close>, \<open>k_vfs_sync\<close>, \<open>k_vfs_mount_ramfat\<close>, \<open>k_vfs_mount_disks\<close>) and the FAT
  half of the operations behind a mount. The state of the volumes is the table of FAT volumes and a
  state \<open>'n\<close> of the native (ext, NTFS) volumes, whose operations stay parameters.
\<close>

definition MAX_VOLUMES :: nat where "MAX_VOLUMES = 48"
definition MAX_PARTITIONS :: nat where "MAX_PARTITIONS = 128"

type_synonym ('h, 'n) fvfs = "('h, fat_fs \<times> 'n) vfs"

definition zero_volume :: fat_volume where
  "zero_volume = \<lparr>fv_disk = 0, fv_sector = 0, fv_spc = 0, fv_fat_bits = 0, fv_root_entries = 0, fv_root_cluster = 0,
     fv_cluster_count = 0, fv_start = 0, fv_length = 0, fv_fat_start = 0, fv_fat_sectors = 0, fv_root_start = 0,
     fv_data_start = 0, fv_source = [], fv_first_fat = 0, fv_fat_count = 0, fv_fsinfo = 0, fv_backup_boot = 0,
     fv_media = 0, fv_mirrored = False, fv_write_ready = False, fv_write_failed = False, fv_partition_ro = False,
     fv_cache = 0, fv_used = 0, fv_dirty = 0, fv_cache_bytes = (\<lambda>_. 0), fv_used_bits = (\<lambda>_. 0), fv_dirty_bits = (\<lambda>_. 0),
     fv_cache_pages = 0, fv_used_pages = 0, fv_dirty_pages = 0, fv_free_clusters = 0, fv_alloc_hint = 0\<rparr>"

section \<open>The boot sector\<close>

record bpb =
  b_bps :: nat
  b_spc :: nat
  b_reserved :: nat
  b_fats :: nat
  b_root_entries :: nat
  b_total :: nat
  b_fat_size :: nat

definition read_bpb :: "bytes \<Rightarrow> bpb" where
  "read_bpb boot =
     (let total = unat (rd16 boot 19); fat_size = unat (rd16 boot 22) in
      \<lparr>b_bps = unat (rd16 boot 11), b_spc = unat (boot 13), b_reserved = unat (rd16 boot 14), b_fats = unat (boot 16),
       b_root_entries = unat (rd16 boot 17), b_total = (if total = 0 then unat (rd32 boot 32) else total),
       b_fat_size = (if fat_size = 0 then unat (rd32 boot 36) else fat_size)\<rparr>)"

definition bpb_ok :: "bytes \<Rightarrow> bpb \<Rightarrow> nat \<Rightarrow> nat \<Rightarrow> bool" where
  "bpb_ok boot b sector_size len \<longleftrightarrow>
     \<not> (boot 510 \<noteq> 0x55 \<or> boot 511 \<noteq> 0xaa \<or> (boot 0 \<noteq> 0xeb \<and> boot 0 \<noteq> 0xe9) \<or> b_bps b \<noteq> sector_size \<or>
        \<not> power2 (b_spc b) \<or> b_spc b > 128 \<or> b_reserved b = 0 \<or> b_fats b = 0 \<or> b_fats b > 2 \<or> b_fat_size b = 0 \<or>
        b_total b = 0 \<or> b_total b > len)"

definition bpb_data :: "bpb \<Rightarrow> nat" where
  "bpb_data b = b_reserved b + b_fats b * b_fat_size b + (b_root_entries b * 32 + b_bps b - 1) div b_bps b"

definition bpb_clusters :: "bpb \<Rightarrow> nat" where
  "bpb_clusters b = (b_total b - bpb_data b) div b_spc b"

definition bpb_bits :: "bpb \<Rightarrow> nat" where
  "bpb_bits b = (if bpb_clusters b < 4085 then 12 else if bpb_clusters b < 65525 then 16 else 32)"

definition bpb_needed :: "bpb \<Rightarrow> nat" where
  "bpb_needed b =
     (if bpb_bits b = 12 then ((bpb_clusters b + 2) * 3 + 1) div 2 else (bpb_clusters b + 2) * (bpb_bits b div 8))"

text \<open>The active copy of the table of a FAT32 volume.\<close>

definition bpb_active :: "bytes \<Rightarrow> bpb \<Rightarrow> nat" where
  "bpb_active boot b = (if bpb_bits b = 32 \<and> rd16 boot 40 AND 0x80 \<noteq> 0 then unat (rd16 boot 40 AND 15) else 0)"

definition bpb_root_ok :: "bytes \<Rightarrow> bpb \<Rightarrow> bool" where
  "bpb_root_ok boot b \<longleftrightarrow>
     (if bpb_bits b = 32 then
        \<not> (b_root_entries b \<noteq> 0 \<or> rd16 boot 22 \<noteq> 0 \<or> rd16 boot 42 \<noteq> 0) \<and>
        \<not> (unat (rd32 boot 44) < 2 \<or> unat (rd32 boot 44) - 2 \<ge> bpb_clusters b) \<and> \<not> bpb_active boot b \<ge> b_fats b
      else \<not> (b_root_entries b = 0 \<or> rd16 boot 22 = 0))"

text \<open>The volume a boot sector describes, or \<open>None\<close> for a boot sector that is not accepted.\<close>

definition fat_geometry :: "bytes \<Rightarrow> nat \<Rightarrow> nat \<Rightarrow> fat_volume option" where
  "fat_geometry boot sector_size len =
     (let b = read_bpb boot; bits = bpb_bits b in
      if \<not> bpb_ok boot b sector_size len then None
      else if bpb_data b \<ge> b_total b then None
      else if bpb_clusters b = 0 \<or> bpb_clusters b > 0x0fffffee then None
      else if bpb_needed b > b_fat_size b * b_bps b then None
      else if \<not> bpb_root_ok boot b then None
      else Some (zero_volume\<lparr>fv_sector := b_bps b, fv_spc := b_spc b, fv_fat_bits := bits,
             fv_root_entries := b_root_entries b, fv_root_cluster := (if bits = 32 then unat (rd32 boot 44) else 0),
             fv_cluster_count := bpb_clusters b, fv_length := b_total b,
             fv_fat_start := b_reserved b + bpb_active boot b * b_fat_size b, fv_fat_sectors := b_fat_size b,
             fv_root_start := b_reserved b + b_fats b * b_fat_size b, fv_data_start := bpb_data b,
             fv_first_fat := b_reserved b, fv_fat_count := b_fats b, fv_media := boot 21,
             fv_mirrored := (bits \<noteq> 32 \<or> rd16 boot 40 AND 0x80 = 0),
             fv_fsinfo := (if bits = 32 then unat (rd16 boot 48) else 0),
             fv_backup_boot := (if bits = 32 then unat (rd16 boot 50) else 0)\<rparr>))"

section \<open>Mounting a volume\<close>

definition mount_source :: "nat \<Rightarrow> nat \<Rightarrow> string" where
  "mount_source disk_id part =
     (let src = decimal_name ''disk'' disk_id @ ''p'' in src @ str_copy [] (decimal_name [] part) (24 - length src))"

definition mount_path :: "nat \<Rightarrow> nat \<Rightarrow> string" where
  "mount_path disk_id part = ''/volumes/'' @ str_copy [] (mount_source disk_id part) (K_PATH_BYTES - 9)"

definition set_fat :: "fat_fs \<Rightarrow> ('h, 'n) fvfs \<Rightarrow> ('h, 'n) fvfs" where
  "set_fat fs s = s\<lparr>vf_vol := (fs, snd (vf_vol s))\<rparr>"

definition bind_root :: "nat \<Rightarrow> string \<Rightarrow> string \<Rightarrow> ('h, 'v) vfs \<Rightarrow> ('h, 'v) vfs" where
  "bind_root cpu name path s = s\<lparr>vf_roots := snd (k_root_bind cpu name path (vf_roots s))\<rparr>"

definition add_volume :: "nat \<Rightarrow> fat_volume \<Rightarrow> nat \<Rightarrow> nat \<Rightarrow> ('h, 'n) fvfs \<Rightarrow> ('h, 'n) fvfs" where
  "add_volume cpu v disk_id part s =
     (let fs = fst (vf_vol s); n = ff_volume_count fs; source = mount_source disk_id part;
          path = mount_path disk_id part in
      bind_root cpu (decimal_name ''disk'' disk_id) path (bind_root cpu source path
        ((set_fat (fs\<lparr>ff_volumes := (ff_volumes fs)(n := v\<lparr>fv_source := str_copy [] source 24\<rparr>), ff_volume_count := n + 1\<rparr>) s)
          \<lparr>vf_mounts := vf_mounts s @ [\<lparr>mt_path = str_copy [] path K_PATH_BYTES, mt_volume = n, mt_kind = 2\<rparr>]\<rparr>)))"

definition fat_mount :: "nat \<Rightarrow> 'h hw \<Rightarrow> nat \<Rightarrow> nat \<Rightarrow> nat \<Rightarrow> nat \<Rightarrow> ('h, 'n) fvfs \<Rightarrow> int \<times> ('h, 'n) fvfs" where
  "fat_mount cpu h disk_id start len part s =
     (let d = s_disks (vf_store s) disk_id in
      if ff_volume_count (fst (vf_vol s)) = MAX_VOLUMES \<or> length (vf_mounts s) = MAX_VOLUMES \<or>
         disk_id \<ge> s_disk_count (vf_store s) \<or> len = 0 \<or> start \<ge> d_sectors d \<or> len > d_sectors d - start
      then (K_EINVAL, s)
      else case k_disk_read h disk_id start 1 4096 (vf_store s) of
        ((e, boot), ds) \<Rightarrow>
          let s = s\<lparr>vf_store := ds\<rparr> in
          if e \<noteq> 0 then (e, s)
          else case fat_geometry boot (d_sector_size d) len of
            None \<Rightarrow> (K_ENOTSUP, s)
          | Some v \<Rightarrow>
              (case new_node (mount_path disk_id part) True s of
                 (r, s) \<Rightarrow>
                   let e = (case r of Inl e \<Rightarrow> e | Inr _ \<Rightarrow> 0) in
                   if e \<noteq> 0 \<and> e \<noteq> K_EEXIST then (e, s)
                   else (0, add_volume cpu (v\<lparr>fv_disk := disk_id, fv_start := start\<rparr>) disk_id part s)))"

section \<open>Operations behind a mount\<close>

definition lift_fat :: "(fat_fs \<times> 'h store \<Rightarrow> 'r \<times> fat_fs \<times> 'h store) \<Rightarrow> ('h, fat_fs \<times> 'n, 'r) vol_op" where
  "lift_fat op y = (case op (fst (fst y), snd y) of (r, fs, s) \<Rightarrow> (r, (fs, snd (fst y)), s))"

definition lift_read :: "(fat_fs \<Rightarrow> 'h store \<Rightarrow> 'r \<times> 'h store) \<Rightarrow> ('h, fat_fs \<times> 'n, 'r) vol_op" where
  "lift_read op y = (case op (fst (fst y)) (snd y) of (r, s) \<Rightarrow> (r, fst y, s))"

text \<open>The FAT operations in the place of the parameters of \<open>volume_ops\<close>; the native ones stay.\<close>

definition fat_ops :: "'h hw \<Rightarrow> ('h, fat_fs \<times> 'n) volume_ops \<Rightarrow> ('h, fat_fs \<times> 'n) volume_ops" where
  "fat_ops h ops = ops\<lparr>
     fat_open := (\<lambda>i path out. lift_read (\<lambda>fs. Fat.fat_open h fs i path out)),
     fat_create_locked := (\<lambda>i path dir out. lift_fat (FatCreate.fat_create_locked h i path dir out)),
     fat_store_locked := (\<lambda>i path data sz. lift_fat (FatCreate.fat_store_locked h i path (case data of Some b \<Rightarrow> b | None \<Rightarrow> (\<lambda>_. 0)) sz)),
     fat_read := (\<lambda>f off out n. lift_read (\<lambda>fs. Fat.fat_read h fs f off out n)),
     fat_replace_locked := (\<lambda>f data sz. lift_fat (FatWrite.fat_replace_locked h f data sz)),
     fat_refresh := (\<lambda>f. lift_read (\<lambda>fs. Fat.fat_refresh h fs f)),
     fat_list := (\<lambda>f. lift_read (\<lambda>fs. Fat.fat_list h fs f))\<rparr>"

text \<open>Flushing the prepared volumes in order, keeping the first error.\<close>

fun sync_loop :: "'h hw \<Rightarrow> nat list \<Rightarrow> int \<Rightarrow> fat_fs \<times> 'h store \<Rightarrow> int \<times> fat_fs \<times> 'h store" where
  "sync_loop h [] e y = (e, y)"
| "sync_loop h (i # is) e y =
     (let v = ff_volumes (fst y) i in
      case (if fv_write_failed v then (K_EIO, y)
            else if fv_write_ready v then with_volume i (volume_flush h) y else (0, y)) of
        (r, y) \<Rightarrow> sync_loop h is (if r \<noteq> 0 \<and> e = 0 then r else e) y)"

definition k_vfs_sync :: "'h hw \<Rightarrow> ('h, fat_fs \<times> 'n, int) vol_op \<Rightarrow> ('h, 'n) fvfs \<Rightarrow> int \<times> ('h, 'n) fvfs" where
  "k_vfs_sync h native_sync_all s =
     (case on_volume (lift_fat (sync_loop h [0..<ff_volume_count (fst (vf_vol s))] 0)) s of
        (e, s) \<Rightarrow> (case on_volume native_sync_all s of (ne, s) \<Rightarrow> (if e = 0 then ne else e, s)))"

definition k_vfs_mount_ramfat :: "nat \<Rightarrow> 'h hw \<Rightarrow> nat \<Rightarrow> ('h, 'n) fvfs \<Rightarrow> int \<times> ('h, 'n) fvfs" where
  "k_vfs_mount_ramfat cpu h i s =
     (let d = s_disks (vf_store s) i; fs = fst (vf_vol s) in
      if cpu \<noteq> 0 \<or> i \<ge> s_disk_count (vf_store s) \<or> d_kind d \<noteq> DISK_RAM then (K_EPERM, s)
      else if \<exists>k\<in>set [0..<ff_volume_count fs]. fv_disk (ff_volumes fs k) = i then (K_EEXIST, s)
      else fat_mount cpu h i 0 (d_sectors d) 0 s)"

section \<open>Mounting all disks\<close>

record ('h, 'n) mounter =
  mo_vfs :: "('h, 'n) fvfs"
  mo_scanned :: "nat \<Rightarrow> bool"
  mo_partitions :: "nat \<Rightarrow> k_partition_info"
  mo_partition_count :: nat

type_synonym ('h, 'n) probe = "nat \<Rightarrow> nat \<Rightarrow> nat \<Rightarrow> nat \<Rightarrow> bool \<Rightarrow> ('h, 'n) fvfs \<Rightarrow> ('h, 'n) fvfs"

definition device_node :: "nat \<Rightarrow> ('h, 'v) vfs \<Rightarrow> ('h, 'v) vfs" where
  "device_node i s =
     (let d = s_disks (vf_store s) i in
      case new_node (''/devices/'' @ str_copy [] (d_name d) (K_PATH_BYTES - 9)) False s of
        (Inl _, s) \<Rightarrow> s
      | (Inr n, s) \<Rightarrow>
          set_node n ((vf_nodes s n)\<lparr>n_kind := 3, n_block_id := i, n_size := d_sectors d * d_sector_size d mod 2 ^ 64\<rparr>) s)"

text \<open>\<open>fat_mount\<close>, with the partition's read-only flag for the new volume.\<close>

definition mount_fat_ro :: "'h hw \<Rightarrow> nat \<Rightarrow> nat \<Rightarrow> nat \<Rightarrow> nat \<Rightarrow> bool \<Rightarrow> ('h, 'n) fvfs \<Rightarrow> ('h, 'n) fvfs" where
  "mount_fat_ro h i start len number ro s =
     (let before = ff_volume_count (fst (vf_vol s)) in
      case fat_mount 0 h i start len number s of
        (e, s) \<Rightarrow>
          let fs = fst (vf_vol s) in
          if e = 0 \<and> before < ff_volume_count fs
          then set_fat (fs\<lparr>ff_volumes := (ff_volumes fs)(before := (ff_volumes fs before)\<lparr>fv_partition_ro := ro\<rparr>)\<rparr>) s
          else s)"

definition mount_part ::
  "'h hw \<Rightarrow> ('h, 'n) probe \<Rightarrow> nat \<Rightarrow> bool \<Rightarrow> partition_entry \<Rightarrow> ('h, 'n) mounter \<Rightarrow> ('h, 'n) mounter" where
  "mount_part h native_probe i recovered p m =
     (let index = mo_partition_count m; ro = (recovered \<or> pe_read_only p); prior = length (vf_mounts (mo_vfs m));
          info = \<lparr>pt_id = index, pt_disk = i, pt_number = pe_number p,
                  pt_sector_size = d_sector_size (s_disks (vf_store (mo_vfs m)) i), pt_start = pe_start p,
                  pt_sectors = pe_length p, pt_read_only = of_bool ro, pt_mounted = 0, pt_owner_pid = 0, pt_failed = 0\<rparr>;
          m = (if index < MAX_PARTITIONS
               then m\<lparr>mo_partitions := (mo_partitions m)(index := info), mo_partition_count := index + 1\<rparr> else m);
          s = mount_fat_ro h i (pe_start p) (pe_length p) (pe_number p) ro (mo_vfs m);
          s = (if prior = length (vf_mounts s) then native_probe i (pe_start p) (pe_length p) (pe_number p) ro s else s);
          m = m\<lparr>mo_vfs := s\<rparr> in
      if index < mo_partition_count m
      then m\<lparr>mo_partitions := (mo_partitions m)(index :=
             (mo_partitions m index)\<lparr>pt_mounted := of_bool (prior < length (vf_mounts s))\<rparr>)\<rparr>
      else m)"

text \<open>
  The partitions of a disk with first sector \<open>b\<close>: whether the backup table was used, and the entries
  or an error. The division fault of \<open>gpt_parse\<close> needs a sector size of zero and is an error here.
\<close>

definition gpt_try :: "'h hw \<Rightarrow> nat \<Rightarrow> nat \<Rightarrow> 'h store \<Rightarrow> (int + partition_entry list) \<times> 'h store" where
  "gpt_try h i lba s = (case gpt_parse h i lba s of None \<Rightarrow> (Inl K_EIO, s) | Some r \<Rightarrow> r)"

definition protective :: "bytes \<Rightarrow> bool" where
  "protective b \<longleftrightarrow> (\<exists>j\<in>set [0..<4]. b (446 + 16 * j + 4) = 0xee)"

definition read_table :: "'h hw \<Rightarrow> nat \<Rightarrow> bytes \<Rightarrow> 'h store \<Rightarrow> (bool \<times> (int + partition_entry list)) \<times> 'h store" where
  "read_table h i b s =
     (if protective b then
        case gpt_try h i 1 s of
          (Inr ps, s) \<Rightarrow> ((False, Inr ps), s)
        | (Inl e, s) \<Rightarrow>
            if d_sectors (s_disks s i) > 2 then
              case gpt_try h i (d_sectors (s_disks s i) - 1) s of
                (Inr ps, s) \<Rightarrow> ((True, Inr ps), s)
              | (Inl e, s) \<Rightarrow> ((False, Inl e), s)
            else ((False, Inl e), s)
      else case mbr_parse h i b s of (r, s) \<Rightarrow> ((False, r), s))"

definition mount_table ::
  "'h hw \<Rightarrow> ('h, 'n) probe \<Rightarrow> nat \<Rightarrow> bytes \<Rightarrow> bool \<Rightarrow> int + partition_entry list \<Rightarrow> ('h, 'n) mounter \<Rightarrow> ('h, 'n) mounter" where
  "mount_table h native_probe i b recovered r m =
     (case r of
        Inr (p # ps) \<Rightarrow> fold (mount_part h native_probe i recovered) (p # ps) m
      | _ \<Rightarrow>
          if protective b then m
          else m\<lparr>mo_vfs := mount_fat_ro h i 0 (d_sectors (s_disks (vf_store (mo_vfs m)) i)) 0 (r \<noteq> Inr []) (mo_vfs m)\<rparr>)"

definition mount_disk :: "'h hw \<Rightarrow> ('h, 'n) probe \<Rightarrow> nat \<Rightarrow> ('h, 'n) mounter \<Rightarrow> ('h, 'n) mounter" where
  "mount_disk h native_probe i m =
     (let d = s_disks (vf_store (mo_vfs m)) i in
      if mo_scanned m i \<or> \<not> d_online d then m
      else
        let s = device_node i (mo_vfs m); m = m\<lparr>mo_scanned := (mo_scanned m)(i := True), mo_vfs := s\<rparr> in
        if d_kind d = DISK_RAM then m
        else case k_disk_read h i 0 1 4096 (vf_store s) of
          ((e, b), ds) \<Rightarrow>
            let m = m\<lparr>mo_vfs := s\<lparr>vf_store := ds\<rparr>\<rparr> in
            if e \<noteq> 0 \<or> b 510 \<noteq> 0x55 \<or> b 511 \<noteq> 0xaa then m
            else case read_table h i b ds of
              ((recovered, r), ds) \<Rightarrow> mount_table h native_probe i b recovered r (m\<lparr>mo_vfs := s\<lparr>vf_store := ds\<rparr>\<rparr>))"

definition k_vfs_mount_disks :: "nat \<Rightarrow> 'h hw \<Rightarrow> ('h, 'n) probe \<Rightarrow> ('h, 'n) mounter \<Rightarrow> int \<times> ('h, 'n) mounter" where
  "k_vfs_mount_disks cpu h native_probe m =
     (if \<not> vf_ready (mo_vfs m) \<or> cpu \<noteq> 0 then (K_EBUSY, m)
      else (0, fold (mount_disk h native_probe) [0..<s_disk_count (vf_store (mo_vfs m))] m))"

end
