(* ===== verification/FatRead.thy ===== *)
theory FatRead
  imports Fat
begin

text \<open>
  Reading a FAT volume: what the volume's bytes are, that reads inside the volume are exact, that a
  terminated chain of the table has no repetition, and that \<open>fat_read\<close> returns exactly the bytes the
  chain of a file selects.
\<close>

section \<open>Volumes on RAM disks\<close>

text \<open>The bytes of a volume, from its first sector on.\<close>

definition vol_view :: "fat_volume \<Rightarrow> 'h store \<Rightarrow> bytes" where
  "vol_view v s = (\<lambda>a. ram (s_pmm s) (d_ram (s_disks s (fv_disk v)) + fv_start v * fv_sector v + a))"

definition vol_good :: "fat_volume \<Rightarrow> 'h store \<Rightarrow> bool" where
  "vol_good v s \<longleftrightarrow> ram_good (fv_disk v) s \<and> fv_sector v = d_sector_size (s_disks s (fv_disk v)) \<and>
     fv_start v + fv_length v \<le> d_sectors (s_disks s (fv_disk v))"

text \<open>The geometry of a mounted volume: the table and the clusters lie inside the volume.\<close>

definition vol_geom :: "fat_volume \<Rightarrow> bool" where
  "vol_geom v \<longleftrightarrow> 0 < fv_spc v \<and> 0 < fv_sector v \<and> 0 < fv_cluster_count v \<and> fv_cluster_count v \<le> 0x0fffffee \<and>
     fv_fat_bits v \<in> {12, 16, 32} \<and>
     (fv_fat_bits v = 12 \<longrightarrow> fv_cluster_count v < 4085) \<and>
     (fv_fat_bits v = 16 \<longrightarrow> 4085 \<le> fv_cluster_count v \<and> fv_cluster_count v < 65525) \<and>
     (fv_fat_bits v = 32 \<longrightarrow> 65525 \<le> fv_cluster_count v \<and> in_volume v (fv_root_cluster v)) \<and>
     (if fv_fat_bits v = 12 then ((fv_cluster_count v + 2) * 3 + 1) div 2
      else (fv_cluster_count v + 2) * (fv_fat_bits v div 8)) \<le> fv_fat_sectors v * fv_sector v \<and>
     0 < fv_first_fat v \<and> fv_first_fat v \<le> fv_fat_start v \<and> 0 < fv_fat_count v \<and>
     (fv_mirrored v \<longrightarrow> fv_fat_start v = fv_first_fat v) \<and>
     fv_fat_start v + fv_fat_sectors v \<le> fv_root_start v \<and>
     fv_root_start v = fv_first_fat v + fv_fat_count v * fv_fat_sectors v \<and>
     fv_root_start v + (fv_root_entries v * 32 + fv_sector v - 1) div fv_sector v = fv_data_start v \<and>
     fv_data_start v + fv_cluster_count v * fv_spc v \<le> fv_length v"

lemma span_ok_add: "span_ok off n sz \<longleftrightarrow> off + n \<le> sz"
  by (auto simp: span_ok_def)

lemma volume_bytes_ram:
  assumes "vol_good v s" "offset + n \<le> fv_length v * fv_sector v"
  shows "volume_bytes h v offset out n s = ((0, \<lambda>a. if a < n then vol_view v s (offset + a) else out a), s)"
proof -
  let ?d = "s_disks s (fv_disk v)"
  have g: "ram_good (fv_disk v) s" "fv_sector v = d_sector_size ?d" "fv_start v + fv_length v \<le> d_sectors ?d"
    using assms(1) by (auto simp: vol_good_def)
  have "(fv_start v + fv_length v) * fv_sector v \<le> d_sectors ?d * d_sector_size ?d"
    unfolding g(2) using g(3) by (rule mult_le_mono1)
  then have "fv_start v * fv_sector v + offset + n \<le> d_sectors ?d * d_sector_size ?d"
    using assms(2) by (simp add: add_mult_distrib)
  from disk_bytes_ram[OF g(1) this, of h out] show ?thesis
    using assms(2) by (auto simp: volume_bytes_def span_ok_add vol_view_def add.assoc)
qed

lemma in_volume_iff: "in_volume v c \<longleftrightarrow> 2 \<le> c \<and> c < fv_cluster_count v + 2"
  by (auto simp: in_volume_def)

lemma cluster_inside:
  assumes "vol_geom v" "in_volume v c"
  shows "cluster_start v c + fv_spc v \<le> fv_length v" "fv_data_start v \<le> cluster_start v c"
proof -
  have "(c - 2) * fv_spc v + fv_spc v = (c - 2 + 1) * fv_spc v" by simp
  also have "\<dots> \<le> fv_cluster_count v * fv_spc v" using assms(2) by (intro mult_le_mono1) (simp add: in_volume_iff, linarith)
  finally show "cluster_start v c + fv_spc v \<le> fv_length v"
    using assms(1) by (simp add: vol_geom_def cluster_start_def)
  show "fv_data_start v \<le> cluster_start v c" by (simp add: cluster_start_def)
qed

lemma cluster_bytes_inside:
  assumes "vol_geom v" "in_volume v c" "at + k \<le> fv_spc v * fv_sector v"
  shows "cluster_start v c * fv_sector v + at + k \<le> fv_length v * fv_sector v"
proof -
  have "cluster_start v c * fv_sector v + fv_spc v * fv_sector v \<le> fv_length v * fv_sector v"
    using cluster_inside(1)[OF assms(1,2)] by (metis add_mult_distrib mult_le_mono1)
  then show ?thesis using assms(3) by linarith
qed

lemma entry_inside:
  assumes "vol_geom v" "in_volume v c"
  shows "fat_entry_offset v c + fat_entry_bytes v \<le> fv_fat_sectors v * fv_sector v"
proof -
  have c: "c + 1 \<le> fv_cluster_count v + 2" using assms(2) by (simp add: in_volume_iff)
  consider "fv_fat_bits v = 12" | "fv_fat_bits v = 16" | "fv_fat_bits v = 32" using assms(1) by (auto simp: vol_geom_def)
  then show ?thesis
  proof cases
    case 1
    have "c + c div 2 + 2 \<le> ((c + 1) * 3 + 1) div 2" by simp
    also have "\<dots> \<le> ((fv_cluster_count v + 2) * 3 + 1) div 2" using c by (intro div_le_mono) simp
    finally show ?thesis using assms(1) 1 by (simp add: vol_geom_def fat_entry_offset_def fat_entry_bytes_def)
  next
    case 2
    then have "(fv_cluster_count v + 2) * 2 \<le> fv_fat_sectors v * fv_sector v" using assms(1) by (simp add: vol_geom_def)
    then show ?thesis using 2 c by (simp add: fat_entry_offset_def fat_entry_bytes_def)
  next
    case 3
    then have "(fv_cluster_count v + 2) * 4 \<le> fv_fat_sectors v * fv_sector v" using assms(1) by (simp add: vol_geom_def)
    then show ?thesis using 3 c by (simp add: fat_entry_offset_def fat_entry_bytes_def)
  qed
qed

lemma fat_inside:
  assumes "vol_geom v" "x \<le> fv_fat_sectors v * fv_sector v"
  shows "fv_fat_start v * fv_sector v + x \<le> fv_length v * fv_sector v"
proof -
  have "fv_fat_start v + fv_fat_sectors v \<le> fv_length v" using assms(1) by (auto simp: vol_geom_def)
  then have "fv_fat_start v * fv_sector v + fv_fat_sectors v * fv_sector v \<le> fv_length v * fv_sector v"
    by (metis add_mult_distrib mult_le_mono1)
  then show ?thesis using assms(2) by linarith
qed

section \<open>Chains\<close>

text \<open>The link of a cluster in the table of a volume with bytes \<open>b\<close>.\<close>

definition vol_next :: "fat_volume \<Rightarrow> bytes \<Rightarrow> nat \<Rightarrow> int + nat" where
  "vol_next v b c =
     (if in_volume v c then fat_link v c (\<lambda>j. b (fv_fat_start v * fv_sector v + fat_entry_offset v c + j)) else Inl K_EIO)"

lemma rd_cong:
  "(\<And>j. j < 2 \<Longrightarrow> a (p + j) = b (q + j)) \<Longrightarrow> rd16 a p = rd16 b q"
  "(\<And>j. j < 4 \<Longrightarrow> a (p + j) = b (q + j)) \<Longrightarrow> rd32 a p = rd32 b q"
proof -
  assume x: "\<And>j. j < 2 \<Longrightarrow> a (p + j) = b (q + j)"
  show "rd16 a p = rd16 b q" using x[of 0] x[of 1] by (simp add: rd16_def)
next
  assume x: "\<And>j. j < 4 \<Longrightarrow> a (p + j) = b (q + j)"
  show "rd32 a p = rd32 b q" using x[of 0] x[of 1] x[of 2] x[of 3]
    by (simp add: rd32_def rd16_def eval_nat_numeral)
qed

lemma fat_link_cong:
  assumes "\<And>j. j < fat_entry_bytes v \<Longrightarrow> a j = b j"
  shows "fat_link v c a = fat_link v c b"
proof (cases "fv_fat_bits v = 32")
  case True
  then have "rd32 a 0 = rd32 b 0" using assms by (intro rd_cong) (simp add: fat_entry_bytes_def)
  then show ?thesis using True by (simp add: fat_link_def)
next
  case False
  then have "rd16 a 0 = rd16 b 0" using assms by (intro rd_cong) (simp add: fat_entry_bytes_def)
  then show ?thesis using False by (simp add: fat_link_def)
qed

lemma fat_next_ram:
  assumes "vol_good v s" "vol_geom v"
  shows "fat_next h v c s = (vol_next v (vol_view v s) c, s)"
proof (cases "in_volume v c")
  case True
  note e = entry_inside[OF assms(2) True]
  have "fv_fat_start v * fv_sector v + fat_entry_offset v c + fat_entry_bytes v \<le> fv_length v * fv_sector v"
    using fat_inside[OF assms(2) e] by simp
  note r = volume_bytes_ram[OF assms(1) this, of h "\<lambda>_. 0"]
  have "fat_link v c (\<lambda>a. if a < fat_entry_bytes v then vol_view v s (fv_fat_start v * fv_sector v + fat_entry_offset v c + a) else 0) =
      fat_link v c (\<lambda>j. vol_view v s (fv_fat_start v * fv_sector v + fat_entry_offset v c + j))"
    by (rule fat_link_cong) simp
  then show ?thesis using True e r by (simp add: fat_next_def vol_next_def span_ok_add)
qed (simp add: fat_next_def vol_next_def)

text \<open>A list of clusters that the links of the table join, up to an end-of-chain mark.\<close>

fun fat_chain :: "fat_volume \<Rightarrow> bytes \<Rightarrow> nat list \<Rightarrow> bool" where
  "fat_chain v b [] \<longleftrightarrow> False"
| "fat_chain v b [c] \<longleftrightarrow> in_volume v c \<and> vol_next v b c = Inr NO_CLUSTER"
| "fat_chain v b (c # d # cs) \<longleftrightarrow> vol_next v b c = Inr d \<and> fat_chain v b (d # cs)"

lemma vol_next_in:
  "vol_next v b c = Inr d \<Longrightarrow> in_volume v c \<and> (d = NO_CLUSTER \<or> in_volume v d)"
  by (auto simp: vol_next_def fat_link_def Let_def split: if_splits)

lemma chain_nth:
  "fat_chain v b cs \<Longrightarrow> i < length cs \<Longrightarrow>
   in_volume v (cs ! i) \<and> vol_next v b (cs ! i) = Inr (if Suc i < length cs then cs ! Suc i else NO_CLUSTER)"
proof (induction v b cs arbitrary: i rule: fat_chain.induct)
  case (3 v b c d cs)
  then show ?case using vol_next_in[of v b c d] by (cases i) auto
qed auto

lemma not_in_volume: "vol_geom v \<Longrightarrow> \<not> in_volume v NO_CLUSTER"
  by (auto simp: vol_geom_def in_volume_def NO_CLUSTER_def)

text \<open>The links are a function, so that a repeated cluster would be followed by the same rest for ever.\<close>

lemma chain_suffix_eq:
  assumes "vol_geom v" "fat_chain v b cs" "i < length cs" "j < length cs" "cs ! i = cs ! j"
  shows "length cs - i = length cs - j"
  using assms(3-5)
proof (induction "length cs - i" arbitrary: i j rule: less_induct)
  case less
  note i = chain_nth[OF assms(2) less.prems(1)] and j = chain_nth[OF assms(2) less.prems(2)]
  note out = not_in_volume[OF assms(1)]
  show ?case
  proof (cases "Suc i < length cs")
    case True
    then have n: "vol_next v b (cs ! j) = Inr (cs ! Suc i)" "in_volume v (cs ! Suc i)"
      using i less.prems(3) chain_nth[OF assms(2) True] by auto
    then have "Suc j < length cs" "cs ! Suc i = cs ! Suc j" using j out by (auto split: if_splits)
    then show ?thesis using less.hyps[of "Suc i" "Suc j"] True less.prems by fastforce
  next
    case False
    then have "vol_next v b (cs ! j) = Inr NO_CLUSTER" using i less.prems(3) by simp
    then have "\<not> Suc j < length cs" using j out chain_nth[OF assms(2), of "Suc j"] by auto
    then show ?thesis using False less.prems by simp
  qed
qed

lemma chain_distinct:
  assumes "vol_geom v" "fat_chain v b cs"
  shows "distinct cs" "length cs \<le> fv_cluster_count v"
proof -
  show d: "distinct cs" unfolding distinct_conv_nth
    using chain_suffix_eq[OF assms] by (metis diff_diff_cancel less_imp_le)
  have "set cs \<subseteq> {2..<fv_cluster_count v + 2}"
    using chain_nth[OF assms(2)] by (auto simp: in_set_conv_nth in_volume_iff)
  then have "card (set cs) \<le> card {2..<fv_cluster_count v + 2}" by (intro card_mono) auto
  then show "length cs \<le> fv_cluster_count v" using distinct_card[OF d] by simp
qed

section \<open>Reading a file\<close>

abbreviation cluster_size :: "fat_volume \<Rightarrow> nat" where
  "cluster_size v \<equiv> fv_spc v * fv_sector v"

text \<open>Byte \<open>q\<close> of the file whose clusters are \<open>cs\<close>.\<close>

definition file_byte :: "fat_volume \<Rightarrow> bytes \<Rightarrow> nat list \<Rightarrow> nat \<Rightarrow> u8" where
  "file_byte v b cs q = b (cluster_start v (cs ! (q div cluster_size v)) * fv_sector v + q mod cluster_size v)"

lemma read_next_chain:
  assumes "vol_good v s" "vol_geom v" "fat_chain v (vol_view v s) cs" "Suc i < length cs"
  shows "read_next h v (cs ! i) i (cs ! (i div 2)) s = (Inr (cs ! Suc i, cs ! (Suc i div 2)), s)"
proof -
  note nx = fat_next_ram[OF assms(1,2), of h]
  have n1: "vol_next v (vol_view v s) (cs ! i) = Inr (cs ! Suc i)"
    using chain_nth[OF assms(3), of i] assms(4) by simp
  have h1: "i div 2 < length cs" "Suc (i div 2) < length cs" using assms(4) by linarith+
  then have n2: "vol_next v (vol_view v s) (cs ! (i div 2)) = Inr (cs ! Suc (i div 2))"
    using chain_nth[OF assms(3), of "i div 2"] by simp
  have t: "(if even (Suc i) then fat_next h v (cs ! (i div 2)) s else (Inr (cs ! (i div 2)), s)) = (Inr (cs ! (Suc i div 2)), s)"
    unfolding nx n2 by (auto elim!: oddE)
  have "cs ! Suc i \<noteq> NO_CLUSTER" using chain_nth[OF assms(3,4)] not_in_volume[OF assms(2)] by metis
  moreover have "cs ! Suc i \<noteq> cs ! (Suc i div 2)"
    using chain_distinct(1)[OF assms(2,3)] assms(4) by (simp add: nth_eq_iff_index_eq)
  ultimately show ?thesis unfolding read_next_def nx n1 using t by (simp add: nx)
qed

lemma read_part_ram:
  assumes "vol_good v s" "vol_geom v" "in_volume v c" "at + k \<le> cluster_size v"
  shows "read_part h v c at k out p s =
    ((0, \<lambda>a. if p \<le> a \<and> a < p + k then vol_view v s (cluster_start v c * fv_sector v + at + (a - p)) else out a), s)"
proof -
  note r = volume_bytes_ram[OF assms(1) cluster_bytes_inside[OF assms(2-4)], of h "\<lambda>j. out (p + j)"]
  show ?thesis unfolding read_part_def r by (auto simp: put_bytes_apply fun_eq_iff)
qed

lemma chunk_byte:
  assumes "at + j < (cb::nat)"
  shows "(i * cb + at + j) div cb = i" "(i * cb + at + j) mod cb = at + j"
  using assms by (simp_all add: add.assoc)

lemma fat_read_loop_chain:
  assumes "vol_good v s" "vol_geom v" "fat_chain v (vol_view v s) cs"
  shows "0 < n \<Longrightarrow> at < cluster_size v \<Longrightarrow> (i + skip) * cluster_size v + at + n \<le> min (length cs) 65537 * cluster_size v \<Longrightarrow>
    fat_read_loop h v skip at n (cs ! i) i (cs ! (i div 2)) out got s =
      ((0, \<lambda>a. if got \<le> a \<and> a < got + n
               then file_byte v (vol_view v s) cs ((i + skip) * cluster_size v + at + (a - got)) else out a, got + n), s)"
proof (induction "length cs - i" arbitrary: i skip at n out got rule: less_induct)
  case less
  let ?cb = "cluster_size v" and ?b = "vol_view v s"
  define j where "j = i + skip"
  have "j * ?cb < min (length cs) 65537 * ?cb" using less.prems unfolding j_def by linarith
  then have j: "j < min (length cs) 65537" by simp
  then have i: "i < length cs" "i < 65537" by (simp_all add: j_def)
  have ok: "\<not> (\<not> in_volume v (cs ! i) \<or> i \<ge> fv_cluster_count v \<or> i > 65536)"
    using i chain_nth[OF assms(3) i(1)] chain_distinct(2)[OF assms(2,3)] by auto
  note eq = fat_read_loop.simps[of h v skip at n "cs ! i" i "cs ! (i div 2)" out got s] if_not_P[OF ok]
  show ?case
  proof (cases "skip = 0")
    case False
    have l: "Suc i < length cs" using j False by (simp add: j_def)
    have e: "Suc i + (skip - 1) = i + skip" using False by simp
    have "length cs - Suc i < length cs - i" using l by simp
    from less.hyps[OF this less.prems(1,2), of "skip - 1" out got] less.prems(3)
    show ?thesis unfolding eq e using False read_next_chain[OF assms l, of h] by (simp add: Let_def)
  next
    case True
    define k where "k = min n (?cb - at)"
    define out1 where "out1 = (\<lambda>a. if got \<le> a \<and> a < got + k then ?b (cluster_start v (cs ! i) * fv_sector v + at + (a - got)) else out a)"
    have k: "0 < k" "k \<le> n" "at + k \<le> ?cb" using less.prems by (auto simp: k_def)
    have rp: "read_part h v (cs ! i) at k out got s = ((0, out1), s)"
      unfolding out1_def using chain_nth[OF assms(3) i(1)] by (intro read_part_ram[OF assms(1,2)] k(3)) simp
    have o1: "out1 a = file_byte v ?b cs (i * ?cb + at + (a - got))" if "got \<le> a" "a < got + k" for a
      using that k chunk_byte[of at "a - got" ?cb i] by (simp add: out1_def file_byte_def add.assoc)
    have o2: "out1 a = out a" if "\<not> (got \<le> a \<and> a < got + k)" for a using that by (auto simp: out1_def)
    show ?thesis
    proof (cases "n - k = 0")
      case fin: True
      then have "k = n" using k by simp
      then have "out1 = (\<lambda>a. if got \<le> a \<and> a < got + n then file_byte v ?b cs (i * ?cb + at + (a - got)) else out a)"
        using o1 o2 by auto
      then show ?thesis unfolding eq unfolding True add_0_right using True rp[unfolded \<open>k = n\<close>] \<open>k = n\<close> less.prems(1)
        by (simp add: Let_def k_def[symmetric])
    next
      case more: False
      then have kk: "k = ?cb - at" "at + k = ?cb" using k by (auto simp: k_def)
      have e: "i * ?cb + at + n = Suc i * ?cb + (n - k)" using kk k by simp
      then have "Suc i * ?cb < min (length cs) 65537 * ?cb" using less.prems(3) True more by simp
      then have l: "Suc i < length cs" using mult_less_cancel2[of "Suc i" ?cb "min (length cs) 65537"] by linarith
      have IH: "fat_read_loop h v 0 0 (n - k) (cs ! Suc i) (Suc i) (cs ! (Suc i div 2)) out1 (got + k) s =
        ((0, \<lambda>a. if got + k \<le> a \<and> a < got + k + (n - k) then file_byte v ?b cs ((Suc i + 0) * ?cb + 0 + (a - (got + k))) else out1 a,
          got + k + (n - k)), s)"
      proof (rule less.hyps)
        show "length cs - Suc i < length cs - i" using l by simp
        show "0 < n - k" using more by simp
        show "0 < ?cb" using less.prems(2) by linarith
        show "(Suc i + 0) * ?cb + 0 + (n - k) \<le> min (length cs) 65537 * ?cb"
          using less.prems(3) e True by simp
      qed
      have "(\<lambda>a. if got + k \<le> a \<and> a < got + k + (n - k) then file_byte v ?b cs ((Suc i + 0) * ?cb + 0 + (a - (got + k))) else out1 a) =
        (\<lambda>a. if got \<le> a \<and> a < got + n then file_byte v ?b cs (i * ?cb + at + (a - got)) else out a)"
      proof (rule ext)
        fix a
        have "Suc i * ?cb + (a - (got + k)) = i * ?cb + at + (a - got)" if "got + k \<le> a" using that kk by simp
        then show "(if got + k \<le> a \<and> a < got + k + (n - k) then file_byte v ?b cs ((Suc i + 0) * ?cb + 0 + (a - (got + k))) else out1 a) =
          (if got \<le> a \<and> a < got + n then file_byte v ?b cs (i * ?cb + at + (a - got)) else out a)"
          using o1[of a] o2[of a] k(2) by auto
      qed
      with IH show ?thesis unfolding eq unfolding True add_0_right using True rp read_next_chain[OF assms l, of h] more k less.prems(1)
        by (simp add: Let_def k_def[symmetric])
    qed
  qed
qed

lemma fat_read_ram:
  assumes "fat_refresh h fs file s = ((0, f), s)" "fl_object f < ff_volume_count fs" "v = ff_volumes fs (fl_object f)"
    and "vol_good v s" "vol_geom v" "0 < fl_size f \<Longrightarrow> fat_chain v (vol_view v s) cs \<and> cs ! 0 = fl_cluster f"
    and "fl_size f \<le> length cs * cluster_size v" "fl_size f \<le> 65537 * cluster_size v"
  shows "\<exists>out'. fat_read h fs file offset out n s = ((0, out', min n (fl_size f - offset)), s) \<and>
    (\<forall>a < min n (fl_size f - offset). out' a = file_byte v (vol_view v s) cs (offset + a)) \<and>
    (\<forall>a \<ge> min n (fl_size f - offset). out' a = out a)"
proof (cases "offset \<ge> fl_size f \<or> n = 0")
  case True
  then show ?thesis using assms(1,2) by (auto simp: fat_read_def)
next
  case False
  let ?cb = "cluster_size v" and ?n = "min n (fl_size f - offset)"
  have cb: "0 < ?cb" using assms(5) by (simp add: vol_geom_def)
  have c: "fat_chain v (vol_view v s) cs" "cs ! 0 = fl_cluster f" using assms(6) False by auto
  have q: "offset div ?cb * ?cb + offset mod ?cb = offset" by (rule div_mult_mod_eq)
  have "offset div ?cb * ?cb \<le> offset" by (rule div_times_less_eq_dividend)
  then have "offset div ?cb * ?cb < 65537 * ?cb" using False assms(8) by linarith
  then have sk: "\<not> offset div ?cb > 65536" using cb by simp
  have b: "fl_size f \<le> min (length cs) 65537 * ?cb" using assms(7,8) by (simp add: min_def)
  have "(0 + offset div ?cb) * ?cb + offset mod ?cb + ?n \<le> min (length cs) 65537 * ?cb"
    unfolding add_0 q using b False by linarith
  from fat_read_loop_chain[OF assms(4,5) c(1) _ _ this, of h out 0] cb False q
  have "fat_read_loop h v (offset div ?cb) (offset mod ?cb) ?n (cs ! 0) 0 (cs ! 0) out 0 s =
      ((0, \<lambda>a. if a < ?n then file_byte v (vol_view v s) cs (offset + a) else out a, ?n), s)"
    by (simp cong: if_cong)
  then have "fat_read h fs file offset out n s =
      ((0, \<lambda>a. if a < ?n then file_byte v (vol_view v s) cs (offset + a) else out a, ?n), s)"
    using False sk c(2) assms(1-3) by (simp add: fat_read_def Let_def)
  then show ?thesis by auto
qed


text \<open>A FAT12 volume of ten clusters with one file of 600 bytes in clusters 2 and 3.\<close>

definition ex_fat_image :: bytes where
  "ex_fat_image = (\<lambda>_. 0)(515 := 3, 516 := 0xf0, 517 := 0xff, 1024 := 0x41, 1035 := 0x20, 1050 := 2, 1052 := 0x58,
     1053 := 2, 1536 := 7, 2135 := 9)"

definition ex_fat_store :: "unit store" where
  "ex_fat_store = ex_store\<lparr>s_pmm := ex_pmm\<lparr>ram := (\<lambda>a. ex_fat_image (a - 1048576))\<rparr>\<rparr>"

definition ex_volume :: fat_volume where
  "ex_volume = \<lparr>fv_disk = 0, fv_sector = 512, fv_spc = 1, fv_fat_bits = 12, fv_root_entries = 16, fv_root_cluster = 0,
     fv_cluster_count = 10, fv_start = 0, fv_length = 64, fv_fat_start = 1, fv_fat_sectors = 1, fv_root_start = 2,
     fv_data_start = 3, fv_source = ''disk0p0'', fv_first_fat = 1, fv_fat_count = 1, fv_fsinfo = 0, fv_backup_boot = 0,
     fv_media = 0xf8, fv_mirrored = True, fv_write_ready = False, fv_write_failed = False, fv_partition_ro = False,
     fv_cache = 0, fv_used = 0, fv_dirty = 0, fv_cache_bytes = (\<lambda>_. 0), fv_used_bits = (\<lambda>_. 0), fv_dirty_bits = (\<lambda>_. 0),
     fv_cache_pages = 0, fv_used_pages = 0, fv_dirty_pages = 0, fv_free_clusters = 0, fv_alloc_hint = 0\<rparr>"

definition ex_fat_fs :: fat_fs where
  "ex_fat_fs = \<lparr>ff_volumes = (\<lambda>_. ex_volume), ff_volume_count = 1\<rparr>"

lemma ex_fat_geom: "vol_geom ex_volume"
  by (simp add: vol_geom_def ex_volume_def)

lemma ex_fat_good: "vol_good ex_volume ex_fat_store"
  using ex_store_good by (simp add: vol_good_def ram_good_def store_inv_def ex_fat_store_def) (simp add: ex_volume_def ex_store_def)

lemma ex_fat_view: "vol_view ex_volume ex_fat_store = ex_fat_image"
  by (simp add: vol_view_def ex_volume_def) (simp add: ex_fat_store_def ex_store_def)

lemma ex_fat_chain: "fat_chain ex_volume (vol_view ex_volume ex_fat_store) [2, 3]"
proof -
  have 2: "rd16 (\<lambda>j. vol_view ex_volume ex_fat_store (512 + 3 + j)) 0 = 0xf003"
    by (simp add: rd16_def ex_fat_view ex_fat_image_def)
  have 3: "rd16 (\<lambda>j. vol_view ex_volume ex_fat_store (512 + 4 + j)) 0 = 0xfff0"
    by (simp add: rd16_def ex_fat_view ex_fat_image_def)
  have v: "fv_fat_bits ex_volume = 12" "fv_fat_start ex_volume * fv_sector ex_volume = 512" "fv_cluster_count ex_volume = 10"
    by (simp_all add: ex_volume_def)
  have o: "fat_entry_offset ex_volume 2 = 3" "fat_entry_offset ex_volume 3 = 4" "fat_end ex_volume = 4088"
    by (simp_all add: fat_entry_offset_def fat_end_def v)
  show ?thesis
    by (simp add: vol_next_def in_volume_def v o fat_link_def Let_def 2[simplified] 3[simplified] NO_CLUSTER_def drop_bit_eq_div)
qed

lemma ex_fat_refresh:
  "fat_refresh ex_hw ex_fat_fs (fat_file 0 0 0 0 1024) ex_fat_store = ((0, fat_file 0 2 0x20 600 1024), ex_fat_store)"
proof -
  have "1024 + 32 \<le> fv_length ex_volume * fv_sector ex_volume" by (simp add: ex_volume_def)
  note r = volume_bytes_ram[OF ex_fat_good this, of ex_hw "\<lambda>_. 0"]
  define d where "d = (\<lambda>a. if a < 32 then vol_view ex_volume ex_fat_store (1024 + a) else 0)"
  have d: "d 0 = 0x41" "d 11 = 0x20" "rd32 d 28 = 600" "rd16 d 26 = 2"
    by (simp_all add: d_def ex_fat_view ex_fat_image_def rd32_def rd16_def)
  have c: "first_cluster ex_volume d = 2" by (simp add: first_cluster_def d ex_volume_def)
  have "in_volume ex_volume 2" by (simp add: in_volume_def ex_volume_def)
  then show ?thesis by (simp add: Fat.fat_refresh_def fat_file_def ex_fat_fs_def r d_def[symmetric] d c Let_def)
qed


end
