(* ===== verification/DiskFrame.thy ===== *)
theory DiskFrame
  imports FatWrite
begin

text \<open>
  What disk accesses keep. The locale \<open>disk_frame\<close> takes a property \<open>J\<close> of the disks that survives reads,
  flushes, page allocation and the writing of the sectors \<open>W\<close> from \<open>start\<close> on of one disk. Properties of
  the device state and of the disk table are instances.
\<close>

section \<open>The frame\<close>

locale disk_frame =
  fixes h :: "'h hw" and disk start :: nat and W :: "nat set" and J :: "'h store \<Rightarrow> bool"
  assumes rd: "J s \<Longrightarrow> J (snd (k_disk_read h disk lba n cap s))"
    and fl: "J s \<Longrightarrow> J (snd (disk_flush h disk s))"
    and wr: "J s \<Longrightarrow> k \<in> W \<Longrightarrow> disk_write_fs h disk (start + k) 1 (Some b) n s = Some (e, s') \<Longrightarrow> J s'"
    and pm: "J s \<Longrightarrow> J (s\<lparr>s_pmm := q\<rparr>)"
begin

lemma al: "J s \<Longrightarrow> J (snd (alloc_at n s))"
  by (simp add: alloc_at_def pm split: prod.split)

lemma fr: "J s \<Longrightarrow> J (free_at a n s)"
  by (simp add: free_at_def pm)

lemma bytes_loop: "J s \<Longrightarrow> disk_bytes_loop (k_disk_read h (disk)) sz off n out p s = Some (r, s') \<Longrightarrow> J s'"
proof (induction "k_disk_read h disk" sz off n out p s arbitrary: r s' rule: disk_bytes_loop.induct)
  case (1 sz offset n out p s)
  note eq = disk_bytes_loop.simps[of "k_disk_read h disk" sz offset n out p s]
  obtain e1 b1 s1 where r1: "k_disk_read h disk (offset div sz) (min (n div sz) 128) n s = ((e1, b1), s1)" by (metis prod.exhaust)
  obtain e2 b2 s2 where r2: "k_disk_read h disk (offset div sz) 1 4096 s = ((e2, b2), s2)" by (metis prod.exhaust)
  have J: "J s1" "J s2" using rd[OF "1.prems"(1)] r1 r2 by (metis snd_conv)+
  show ?case
  proof (cases "offset mod sz = 0 \<and> n \<ge> sz")
    case True
    then show ?thesis using "1.prems" J(1) r1 "1.hyps"(1)[OF _ _ True refl refl r1[symmetric] refl]
      unfolding eq by (auto simp: Let_def split: if_splits)
  next
    case False
    then show ?thesis using "1.prems" J(2) r2 "1.hyps"(2)[OF _ _ False refl refl r2[symmetric] refl]
      unfolding eq if_not_P[OF False] by (auto simp: Let_def split: if_splits)
  qed
qed

lemma disk_bytes_J: "J s \<Longrightarrow> disk_bytes h disk off out n s = Some (r, s') \<Longrightarrow> J s'"
  using bytes_loop by (fastforce simp: disk_bytes_def Let_def split: if_splits)

end

section \<open>The disk table\<close>

lemma disk_flush_table: "disk_flush h i s = (e, s') \<Longrightarrow> s_disks s' = s_disks s \<and> s_disk_count s' = s_disk_count s"
  by (auto simp: disk_flush_def Let_def split: if_splits prod.splits)

lemma write_loop_table:
  "write_loop h d lba count b off s = Some (e, s') \<Longrightarrow> s_disks s' = s_disks s \<and> s_disk_count s' = s_disk_count s"
proof (induction h d lba count b off s rule: write_loop.induct)
  case (1 h d lba count b off s)
  obtain e1 s1 where w: "write_chunk h d lba (chunk_sectors d count) b off s = (e1, s1)" by fastforce
  have "s_disks s1 = s_disks s \<and> s_disk_count s1 = s_disk_count s"
    using w by (auto simp: write_chunk_def ram_store_def split: if_splits prod.splits)
  then show ?case using "1.prems" "1.IH"[OF _ refl _ w[symmetric]] w
    by (subst (asm) write_loop.simps) (auto simp: Let_def split: if_splits)
qed

lemma disk_write_table: "disk_write_fs h i lba n b k s = Some (e, s') \<Longrightarrow> s_disks s' = s_disks s \<and> s_disk_count s' = s_disk_count s"
  by (auto simp: disk_write_fs_def Let_def split: option.splits if_splits prod.splits dest!: write_loop_table)

lemma disk_read_table: "s_disks (snd (k_disk_read h i lba n cap s)) = s_disks s \<and> s_disk_count (snd (k_disk_read h i lba n cap s)) = s_disk_count s"
  by (auto simp: k_disk_read_def Let_def split: prod.split)

lemma table_frame: "disk_frame h disk start UNIV (\<lambda>s. s_disks s = D \<and> s_disk_count s = N)"
proof (unfold_locales, goal_cases)
  case (1 s lba n cap)
  then show ?case by (simp add: disk_read_table)
next
  case (2 s)
  then show ?case using disk_flush_table by (metis prod.exhaust snd_conv)
next
  case (3 s k b n e s')
  then show ?case using disk_write_table by metis
qed simp

interpretation tables: disk_frame h disk start UNIV "\<lambda>s. s_disks s = D \<and> s_disk_count s = N"
  for h :: "'h hw" and disk start :: nat and D :: "nat \<Rightarrow> disk" and N :: nat
  by (rule table_frame)

section \<open>The device\<close>

text \<open>
  A property \<open>I\<close> of the device state that reading, flushing and quarantine of disk \<open>d\<close> keep, and that
  writing one of the sectors \<open>S\<close> keeps. "The sectors outside \<open>S\<close> hold what they held" is one.
\<close>

definition device_keeps :: "'h hw \<Rightarrow> disk \<Rightarrow> nat set \<Rightarrow> ('h \<Rightarrow> bool) \<Rightarrow> bool" where
  "device_keeps h d S I \<longleftrightarrow> (\<forall>lba n x. I x \<longrightarrow> I (snd (h_read h d lba n x))) \<and> (\<forall>x. I x \<longrightarrow> I (snd (h_flush h d x))) \<and>
     (\<forall>x. I x \<longrightarrow> I (h_dead h d x)) \<and> (\<forall>lba b x. lba \<in> S \<longrightarrow> I x \<longrightarrow> I (snd (h_write h d lba 1 b x)))"

lemma device_keepsD:
  assumes "device_keeps h d S I" "I x"
  shows "h_read h d lba n x = (r, y) \<Longrightarrow> I y" "h_flush h d x = (e, y) \<Longrightarrow> I y" "I (h_dead h d x)"
    "lba \<in> S \<Longrightarrow> h_write h d lba 1 b x = (e, y) \<Longrightarrow> I y"
  using assms unfolding device_keeps_def by (metis snd_conv)+

lemma chunk_one: "chunk_sectors d 1 = 0 \<or> chunk_sectors d 1 = 1"
  by (auto simp: chunk_sectors_def)

lemma write_one_keeps:
  assumes "device_keeps h (s_disks s i) S I" "lba \<in> S" "I (s_hw s)" "disk_write_fs h i lba 1 (Some b) n s = Some (e, s')"
  shows "I (s_hw s')"
proof -
  let ?d = "s_disks s i"
  obtain e1 s1 where c: "write_chunk h ?d lba 1 b 0 s = (e1, s1)" by fastforce
  have s1: "I (s_hw s1)" using c assms(3) device_keepsD(4)[OF assms(1,3,2), unfolded One_nat_def]
    by (auto simp: write_chunk_def ram_store_def split: if_splits prod.splits)
  have "I (s_hw s2)" if "write_loop h ?d lba 1 b 0 s = Some (e2, s2)" for e2 s2
    using that s1 c chunk_one[of ?d] by (subst (asm) write_loop.simps) (auto simp: Let_def write_loop.simps[of _ _ _ 0] split: if_splits)
  then show ?thesis using assms(1,3,4)
    by (auto simp: disk_write_fs_def Let_def device_keeps_def split: if_splits option.splits prod.splits)
qed

lemma device_disk_frame:
  assumes "device_keeps h (D i) ((\<lambda>k. start + k) ` W) I"
  shows "disk_frame h i start W (\<lambda>s. s_disks s = D \<and> s_disk_count s = N \<and> I (s_hw s))"
proof (unfold_locales, goal_cases)
  case (1 s lba n cap)
  then have "I (s_hw (snd (k_disk_read h i lba n cap s)))"
    using device_keepsD(1)[OF assms] by (auto simp: k_disk_read_def Let_def split: prod.split)
  then show ?case using 1 disk_read_table[of h i lba n cap s] by simp
next
  case (2 s)
  then have "I (s_hw (snd (disk_flush h i s)))"
    using device_keepsD(2)[OF assms] by (auto simp: disk_flush_def Let_def split: prod.split)
  then show ?case using 2 disk_flush_table[of h i s] by (metis prod.exhaust snd_conv)
next
  case (3 s k b n e s')
  have "device_keeps h (s_disks s i) ((\<lambda>k. start + k) ` W) I" "start + k \<in> (\<lambda>k. start + k) ` W" "I (s_hw s)"
    using 3(1,2) assms by auto
  then have "I (s_hw s')" using write_one_keeps 3(3) by blast
  then show ?case using 3(1) disk_write_table[OF 3(3)] by simp
qed simp

end
