(* ===== verification/FatFrame.thy ===== *)
theory FatFrame
  imports FatMount FatRead DiskFrame
begin

text \<open>
  Where FAT operations write. The locale \<open>volume_frame\<close> is \<open>disk_frame\<close> for the sectors of a FAT volume; its
  lemmas show that a property \<open>J\<close> of the disks survives each operation whose writes fall into \<open>W\<close>.
\<close>

section \<open>The geometry of a volume\<close>

text \<open>A volume without the fields that change after mounting.\<close>

definition geo :: "fat_volume \<Rightarrow> fat_volume" where
  "geo v = v\<lparr>fv_write_ready := False, fv_write_failed := False, fv_cache := 0, fv_used := 0, fv_dirty := 0,
     fv_cache_bytes := (\<lambda>_. 0), fv_used_bits := (\<lambda>_. 0), fv_dirty_bits := (\<lambda>_. 0), fv_cache_pages := 0, fv_used_pages := 0,
     fv_dirty_pages := 0, fv_free_clusters := 0, fv_alloc_hint := 0\<rparr>"

lemma geo_updates [simp]:
  "geo (v\<lparr>fv_write_ready := b\<rparr>) = geo v" "geo (v\<lparr>fv_write_failed := b\<rparr>) = geo v"
  "geo (v\<lparr>fv_cache := n\<rparr>) = geo v" "geo (v\<lparr>fv_used := n\<rparr>) = geo v" "geo (v\<lparr>fv_dirty := n\<rparr>) = geo v"
  "geo (v\<lparr>fv_cache_bytes := t\<rparr>) = geo v" "geo (v\<lparr>fv_used_bits := t\<rparr>) = geo v" "geo (v\<lparr>fv_dirty_bits := t\<rparr>) = geo v"
  "geo (v\<lparr>fv_cache_pages := n\<rparr>) = geo v" "geo (v\<lparr>fv_used_pages := n\<rparr>) = geo v" "geo (v\<lparr>fv_dirty_pages := n\<rparr>) = geo v"
  "geo (v\<lparr>fv_free_clusters := n\<rparr>) = geo v" "geo (v\<lparr>fv_alloc_hint := n\<rparr>) = geo v"
  by (simp_all add: geo_def)

lemma geo_fields:
  assumes "geo v = geo w"
  shows "fv_disk v = fv_disk w" "fv_sector v = fv_sector w" "fv_spc v = fv_spc w" "fv_fat_bits v = fv_fat_bits w"
    "fv_root_entries v = fv_root_entries w" "fv_root_cluster v = fv_root_cluster w" "fv_cluster_count v = fv_cluster_count w"
    "fv_start v = fv_start w" "fv_length v = fv_length w" "fv_fat_start v = fv_fat_start w" "fv_fat_sectors v = fv_fat_sectors w"
    "fv_root_start v = fv_root_start w" "fv_data_start v = fv_data_start w" "fv_first_fat v = fv_first_fat w"
    "fv_fat_count v = fv_fat_count w" "fv_fsinfo v = fv_fsinfo w" "fv_backup_boot v = fv_backup_boot w"
    "fv_mirrored v = fv_mirrored w" "fv_partition_ro v = fv_partition_ro w"
  using assms by (cases v; cases w; simp add: geo_def)+

lemma cache_set_geo [simp]: "geo (fat_cache_set v c n) = geo v"
  by (simp add: fat_cache_set_def Let_def)

lemma take_cluster_geo [simp]: "geo (take_cluster v c) = geo v"
  by (simp add: take_cluster_def Let_def)

lemma set_dirty_geo [simp]: "geo (set_dirty v) = geo v" "geo (set_clean v) = geo v"
  by (simp_all add: set_dirty_def set_clean_def)

lemma allocate_loop_geo: "allocate_loop n v = (c, v') \<Longrightarrow> geo v' = geo v"
proof (induction n arbitrary: v)
  case (Suc n)
  then show ?case by (fastforce simp: Let_def split: if_splits)
qed simp

lemma allocate_geo: "fat_allocate v = (c, v') \<Longrightarrow> geo v' = geo v"
  by (auto simp: fat_allocate_def intro: allocate_loop_geo)

lemma mark_loop_geo: "mark_loop v c count = (r, v') \<Longrightarrow> geo v' = geo v"
proof (induction v c count arbitrary: r v' rule: mark_loop.induct)
  case (1 v c count)
  from "1.prems" show ?case
    by (subst (asm) mark_loop.simps) (use "1.IH"[OF _ refl refl] in \<open>fastforce simp: Let_def split: if_splits\<close>)
qed

lemma mark_chain_geo: "fat_mark_chain v c sz = (e, v') \<Longrightarrow> geo v' = geo v"
  by (auto simp: fat_mark_chain_def split: if_splits prod.splits sum.splits dest: mark_loop_geo)

lemma release_chain_geo [simp]: "geo (release_chain n c v) = geo v"
  by (induction n arbitrary: c v) (auto simp: Let_def)

section \<open>What a scan does to the callback's argument\<close>

definition scan_acc :: "'a scan \<Rightarrow> 'a" where
  "scan_acc r = (case r of Finish e a \<Rightarrow> a | Go n l a \<Rightarrow> a)"

lemma scan_acc_simps [simp]: "scan_acc (Finish e a) = a" "scan_acc (Go n l a) = a"
  by (simp_all add: scan_acc_def)

lemma dir_sector_acc:
  assumes "\<And>a en c. Q a \<Longrightarrow> Q (snd (cb a en c))"
  shows "Q acc \<Longrightarrow> Q (scan_acc (dir_sector v cb root base buf ps scanned l acc))"
proof (induction ps arbitrary: scanned l acc)
  case (Cons p ps)
  then show ?case using assms[OF Cons.prems]
    by (auto split: dir_step.split prod.split) (metis snd_conv)+
qed simp

lemma dir_sectors_acc:
  assumes "\<And>a en c. Q a \<Longrightarrow> Q (snd (cb a en c))"
  shows "Q acc \<Longrightarrow> Q (scan_acc (fst (dir_sectors h v cb root ks scanned l acc s)))"
proof (induction ks arbitrary: scanned l acc s)
  case (Cons k ks)
  obtain e b s1 where r: "volume_bytes h v (k * fv_sector v) (\<lambda>_. 0) (fv_sector v) s = ((e, b), s1)" by (metis prod.exhaust)
  have "Q (scan_acc (dir_sector v cb root (k * fv_sector v) b (entry_positions v) scanned l acc))"
    by (rule dir_sector_acc[OF assms Cons.prems])
  then show ?case using Cons r by (auto split: scan.split)
qed simp

lemma dir_chain_acc:
  assumes "\<And>a en c. Q a \<Longrightarrow> Q (snd (cb a en c))"
  shows "Q acc \<Longrightarrow> Q (snd (fst (dir_chain h v cb c visited t scanned l acc s)))"
proof (induction "65537 - visited" arbitrary: c visited t scanned l acc s rule: less_induct)
  case less
  note eq = dir_chain.simps[of h v cb c visited t scanned l acc s]
  obtain r1 s1 where d: "dir_sectors h v cb (c = 0) (dir_span v c) scanned l acc s = (r1, s1)" by fastforce
  have "Q (scan_acc (fst (dir_sectors h v cb (c = 0) (dir_span v c) scanned l acc s)))"
    by (rule dir_sectors_acc[OF assms less.prems])
  then have Q: "Q (scan_acc r1)" using d by simp
  show ?case
  proof (cases "c \<noteq> 0 \<and> (\<not> in_volume v c \<or> Suc visited > 65536 \<or> Suc visited > fv_cluster_count v)")
    case False
    then have "c \<noteq> 0 \<Longrightarrow> 65537 - Suc visited < 65537 - visited" by auto
    from less.hyps[OF this] show ?thesis using Q
      unfolding eq if_not_P[OF False] d by (auto split: scan.split sum.split prod.split)
  qed (use less.prems in \<open>simp add: eq\<close>)
qed

lemma directory_acc:
  "(\<And>a en c. Q a \<Longrightarrow> Q (snd (cb a en c))) \<Longrightarrow> Q acc \<Longrightarrow> Q (snd (fst (fat_directory h v c cb acc s)))"
  by (simp add: fat_directory_def dir_chain_acc)

section \<open>The file of an open or refresh\<close>

lemma open_loop_object:
  "fl_object out = i \<Longrightarrow> fl_object (snd (fst (fat_open_loop h v i path c out s))) = i"
proof (induction h v i path c out s rule: fat_open_loop.induct)
  case (1 h v i path c out s)
  obtain e found s1 where d: "fat_directory h v c (fat_find_cb (takeWhile name_part path)) None s = ((e, found), s1)"
    by (metis prod.exhaust)
  show ?case
  proof (cases "cur path = NUL \<or> cur path = SLASH \<or> fl_attributes out AND 0x10 = 0 \<or> e \<noteq> 0 \<or> found = None")
    case True
    then show ?thesis using "1.prems" "1.IH"(1) d by (subst fat_open_loop.simps) auto
  next
    case False
    then obtain en k where f: "found = Some (en, k)" by auto
    show ?thesis using False f d "1.IH"(2)[OF _ _ _ d[symmetric] refl _ f refl]
      by (subst fat_open_loop.simps) (auto simp: fat_file_def)
  qed
qed

lemma open_object: "fat_open h fs i path out s = ((0, f), s') \<Longrightarrow> fl_object f = i"
  using open_loop_object[of "fat_file i (root_dir (ff_volumes fs i)) 0x10 0 0" i h "ff_volumes fs i" path "root_dir (ff_volumes fs i)" s]
  by (auto simp: Fat.fat_open_def Let_def fat_file_def split: if_splits)

lemma refresh_object: "fat_refresh h fs f s = ((e, f'), s') \<Longrightarrow> fl_object f' = fl_object f"
  by (auto simp: Fat.fat_refresh_def Let_def split: if_splits prod.splits)

lemma create_locked_object:
  assumes "fl_object out = i" "fat_create_locked h i path directory out y = ((e, f), y')"
  shows "fl_object f = i"
  using assms by (auto simp: FatCreate.fat_create_locked_def with_volume_def create_checked_def create_prepared_def Let_def fat_file_def
      split: if_splits sum.splits prod.splits)

lemma create_split_error: "create_split path = Inl e \<Longrightarrow> e \<noteq> 0"
  by (auto simp: create_split_def Let_def split: if_splits)

lemma store_file_object:
  assumes "fat_open h fs i path zero_file s = ((e, f), s1)"
    and "(if e = K_ENOENT then fat_create_locked h i path False f (fs, s1) else ((e, f), fs, s1)) = ((0, f2), y2)"
  shows "fl_object f2 = i"
proof (cases "i < ff_volume_count fs")
  case True
  then have "fl_object f = i"
    using assms(1) open_loop_object[of "fat_file i (root_dir (ff_volumes fs i)) 0x10 0 0" i h "ff_volumes fs i" path "root_dir (ff_volumes fs i)" s]
    by (auto simp: Fat.fat_open_def Let_def fat_file_def)
  then show ?thesis using assms(2) create_locked_object[of f i h path False "(fs, s1)" 0 f2 y2] by (cases "e = K_ENOENT") auto
next
  case False
  then have "fat_open h fs i q zero_file t = ((K_ENOENT, zero_file), t)" for q t by (simp add: Fat.fat_open_def)
  then show ?thesis using assms create_split_error by (auto simp: FatCreate.fat_create_locked_def split: sum.splits)
qed

section \<open>The frame\<close>

locale volume_frame = disk_frame h "fv_disk v0" "fv_start v0" W J
  for h :: "'h hw" and v0 :: fat_volume and W :: "nat set" and J :: "'h store \<Rightarrow> bool"
begin

definition P :: "'h vs \<Rightarrow> bool" where
  "P x \<longleftrightarrow> geo (fst x) = geo v0 \<and> J (snd x)"

lemma P_pair [simp]: "P (v, s) \<longleftrightarrow> geo v = geo v0 \<and> J s"
  by (simp add: P_def)

lemma P_D: "P x \<Longrightarrow> geo (fst x) = geo v0" "P x \<Longrightarrow> J (snd x)"
  by (simp_all add: P_def)

lemma case_snd: "snd (case r of (e, x) \<Rightarrow> (g e x, x)) = snd r"
  by (cases r) simp

lemma seq: "P (snd r) \<Longrightarrow> (\<And>x. P x \<Longrightarrow> P (snd (f x))) \<Longrightarrow> P (snd (and_then r f))"
  by (simp add: and_then_def)

lemma seq_pair: "P (snd r) \<Longrightarrow> (\<And>v s. P (v, s) \<Longrightarrow> P (snd (f (v, s)))) \<Longrightarrow> P (snd (and_then r f))"
  by (metis seq surj_pair)

lemma volume_bytes_J:
  assumes "geo v = geo v0" "J s" "volume_bytes h v off out n s = (r, s')"
  shows "J s'"
proof -
  have "J t'" if "disk_bytes h (fv_disk v0) o' out n s = Some (r', t')" for o' r' t'
    using disk_bytes_J[OF assms(2) that] .
  then show ?thesis using assms(3,2) geo_fields(1)[OF assms(1)]
    by (auto simp: volume_bytes_def split: if_splits option.splits)
qed

lemma volume_write_P:
  assumes "P x" "k \<in> W \<or> fv_length v0 \<le> k"
  shows "P (snd (volume_write h k 1 data x))"
proof (cases "fv_write_failed (fst x) \<or> k \<ge> fv_length (fst x)")
  case True
  then show ?thesis using assms(1) by (auto simp: volume_write_def Let_def)
next
  case False
  note g = geo_fields[OF P_D(1)[OF assms(1)]]
  have "k \<in> W" using assms(2) False g by auto
  then show ?thesis using assms(1) wr[OF P_D(2)[OF assms(1)]] g
    by (auto simp: volume_write_def Let_def P_def split: option.splits)
qed

lemma volume_flush_P: "P x \<Longrightarrow> P (snd (volume_flush h x))"
  using fl[of "snd x"] geo_fields[of "fst x" v0] by (auto simp: volume_flush_def P_def split: prod.splits)

text \<open>Sectors of the table.\<close>

definition table_in_W :: bool where
  "table_in_W \<longleftrightarrow> (\<forall>f < fat_copies v0. \<forall>k < fv_fat_sectors v0. copy_sector v0 f k \<in> W \<or> fv_length v0 \<le> copy_sector v0 f k)"

lemma copy_geo: "geo v = geo v0 \<Longrightarrow> copy_sector v f k = copy_sector v0 f k \<and> fat_copies v = fat_copies v0"
  by (frule geo_fields(18), frule geo_fields(14), frule geo_fields(11), frule geo_fields(10), frule geo_fields(15))
    (simp add: copy_sector_def fat_copies_def)

lemma flush_copies_P:
  assumes "\<forall>f\<in>set fs. copy_sector v0 f k \<in> W \<or> fv_length v0 \<le> copy_sector v0 f k"
  shows "P x \<Longrightarrow> P (snd (flush_copies h k fs x))"
  using assms
proof (induction fs arbitrary: x)
  case (Cons f fs)
  have "P (snd (volume_write h (copy_sector (fst x) f k) 1 d x))" for d
    using Cons.prems copy_geo[OF P_D(1)[OF Cons.prems(1)], of f k] by (intro volume_write_P) auto
  then show ?case using Cons by (auto intro: seq)
qed simp

lemma flush_sectors_P:
  assumes "table_in_W" "\<forall>k\<in>set ks. k < fv_fat_sectors v0"
  shows "P x \<Longrightarrow> P (snd (flush_sectors h ks x))"
  using assms(2)
proof (induction ks arbitrary: x)
  case (Cons k ks)
  have "P (snd (flush_copies h k [0..<fat_copies (fst x)] x))"
    using Cons.prems assms(1) copy_geo[OF P_D(1)[OF Cons.prems(1)]] by (intro flush_copies_P) (auto simp: table_in_W_def)
  then show ?case using Cons by (auto intro!: seq_pair)
qed simp

lemma flush_cache_P: "table_in_W \<Longrightarrow> P x \<Longrightarrow> P (snd (fat_flush_cache h x))"
  unfolding fat_flush_cache_def using geo_fields(11)[OF P_D(1)]
  by (intro seq flush_sectors_P volume_flush_P) auto

lemma write_data_loop_P:
  assumes "\<forall>k\<in>set ks. k \<in> W \<or> fv_length v0 \<le> k"
  shows "P x \<Longrightarrow> P (snd (write_data_loop h ks data off sz x))"
  using assms
proof (induction ks arbitrary: off sz x)
  case (Cons k ks)
  then show ?case by (auto simp: Let_def intro!: seq volume_write_P[unfolded One_nat_def])
qed simp

lemma write_data_P:
  assumes "P x" "\<forall>k. cluster_start v0 c \<le> k \<and> k < cluster_start v0 c + fv_spc v0 \<longrightarrow> k \<in> W \<or> fv_length v0 \<le> k"
  shows "P (snd (fat_write_data h c data sz x))"
  unfolding fat_write_data_def using assms geo_fields[OF P_D(1)[OF assms(1)]]
  by (intro write_data_loop_P) (auto simp: cluster_start_def)

lemma fsinfo_loop_P:
  assumes "\<forall>k\<in>set ks. k < fv_first_fat v0 \<longrightarrow> k \<in> W \<or> fv_length v0 \<le> k"
  shows "P x \<Longrightarrow> P (snd (fsinfo_loop h ks x))"
  using assms
proof (induction ks arbitrary: x)
  case (Cons k ks)
  obtain e b s where r: "volume_bytes h (fst x) (k * fv_sector (fst x)) (\<lambda>_. 0) (fv_sector (fst x)) (snd x) = ((e, b), s)"
    by (metis prod.exhaust)
  have s: "P (fst x, s)" using volume_bytes_J[OF P_D[OF Cons.prems(1)] r] P_D[OF Cons.prems(1)] by simp
  have "P (snd (volume_write h k 1 d (fst x, s)))" if "\<not> fv_first_fat (fst x) \<le> k" for d
    using that Cons.prems s geo_fields[OF P_D(1)[OF Cons.prems(1)]] by (intro volume_write_P) auto
  then show ?case using Cons s r by (auto intro!: seq)
qed simp

lemma begin_write_P:
  assumes "table_in_W" "\<forall>k < fv_first_fat v0. k \<in> W \<or> fv_length v0 \<le> k" "P x"
  shows "P (snd (fat_begin_write h x))"
proof -
  have "P (set_dirty (fst x), snd x)" using assms(3) by (simp add: P_def)
  then show ?thesis unfolding fat_begin_write_def using assms(1,2)
    by (intro seq flush_cache_P fsinfo_loop_P volume_flush_P) auto
qed

lemma finish_write_P:
  assumes "table_in_W" "P x"
  shows "P (snd (fat_finish_write h e x))"
proof -
  have "P (set_clean (fst x), snd x)" using assms(2) by (simp add: P_def)
  from flush_cache_P[OF assms(1) this] show ?thesis using assms(2)
    by (auto simp: fat_finish_write_def P_def split: prod.splits)
qed

lemma entry_write_P:
  assumes "P x" "off div fv_sector v0 \<in> W \<or> fv_length v0 \<le> off div fv_sector v0"
  shows "P (snd (fat_entry_write h off d x))"
proof -
  let ?k = "off div fv_sector (fst x)"
  note g = geo_fields[OF P_D(1)[OF assms(1)]]
  obtain e b s where r: "volume_bytes h (fst x) (?k * fv_sector (fst x)) (\<lambda>_. 0) (fv_sector (fst x)) (snd x) = ((e, b), s)"
    by (metis prod.exhaust)
  have s: "P (fst x, s)" using volume_bytes_J[OF P_D[OF assms(1)] r] P_D[OF assms(1)] by simp
  have "P (snd (volume_write h ?k 1 t (fst x, s)))" for t using assms(2) s g by (intro volume_write_P) auto
  then show ?thesis using assms(1) s r by (auto simp: fat_entry_write_def Let_def)
qed

text \<open>Scans only read.\<close>

lemma fat_next_J: "geo v = geo v0 \<Longrightarrow> J s \<Longrightarrow> fat_next h v c s = (r, s') \<Longrightarrow> J s'"
  by (auto simp: fat_next_def split: if_splits prod.splits dest: volume_bytes_J)

lemma dir_sectors_J: "geo v = geo v0 \<Longrightarrow> J s \<Longrightarrow> dir_sectors h v cb root ks scanned l acc s = (r, s') \<Longrightarrow> J s'"
proof (induction ks arbitrary: scanned l acc s)
  case (Cons k ks)
  obtain e b s1 where r: "volume_bytes h v (k * fv_sector v) (\<lambda>_. 0) (fv_sector v) s = ((e, b), s1)" by (metis prod.exhaust)
  have "J s1" using volume_bytes_J[OF Cons.prems(1,2) r] .
  then show ?case using Cons r by (auto split: if_splits scan.splits)
qed simp

lemma dir_chain_J: "geo v = geo v0 \<Longrightarrow> J s \<Longrightarrow> J (snd (dir_chain h v cb c visited t scanned l acc s))"
proof (induction "65537 - visited" arbitrary: c visited t scanned l acc s rule: less_induct)
  case less
  note eq = dir_chain.simps[of h v cb c visited t scanned l acc s]
  obtain r1 s1 where d: "dir_sectors h v cb (c = 0) (dir_span v c) scanned l acc s = (r1, s1)" by fastforce
  obtain r2 s2 where n: "fat_next h v c s1 = (r2, s2)" by fastforce
  obtain r3 s3 where n2: "(if even (Suc visited) then fat_next h v t s2 else (Inr t, s2)) = (r3, s3)" by fastforce
  have J: "J s1" "J s2" using dir_sectors_J[OF less.prems d] fat_next_J[OF less.prems(1) _ n] by auto
  then have J3: "J s3" using n2 fat_next_J[OF less.prems(1) J(2)] by (auto split: if_splits)
  show ?case
  proof (cases "c \<noteq> 0 \<and> (\<not> in_volume v c \<or> Suc visited > 65536 \<or> Suc visited > fv_cluster_count v)")
    case False
    show ?thesis
    proof (cases "c = 0")
      case True
      then show ?thesis unfolding eq if_not_P[OF False] d using J by (auto split: scan.split)
    next
      case c: False
      then have "65537 - Suc visited < 65537 - visited" using False by auto
      from less.hyps[OF this less.prems(1) J3] show ?thesis
        unfolding eq if_not_P[OF False] d prod.case n n2 using c J J3 n2
        by (auto split: scan.split sum.split simp: n)
    qed
  qed (use less.prems in \<open>simp add: eq\<close>)
qed

lemma directory_J: "geo v = geo v0 \<Longrightarrow> J s \<Longrightarrow> J (snd (fat_directory h v c cb acc s))"
  by (simp add: fat_directory_def dir_chain_J)

lemma open_loop_J: "geo v = geo v0 \<Longrightarrow> J s \<Longrightarrow> J (snd (fat_open_loop h v i path c out s))"
proof (induction "length path" arbitrary: path c out s rule: less_induct)
  case less
  obtain e found s1 where d: "fat_directory h v c (fat_find_cb (takeWhile name_part path)) None s = ((e, found), s1)"
    by (metis prod.exhaust)
  have J: "J s1" using directory_J[OF less.prems, of c "fat_find_cb (takeWhile name_part path)" None] d by simp
  have tl: "cur path \<noteq> NUL \<Longrightarrow> length (tl path) < length path" by (cases path) auto
  have dw: "cur path \<noteq> NUL \<Longrightarrow> cur path \<noteq> SLASH \<Longrightarrow> length (dropWhile name_part path) < length path"
    by (cases path) (auto simp: name_part_def le_imp_less_Suc length_dropWhile_le)
  show ?case
    using less.hyps[OF tl less.prems] less.hyps[OF dw less.prems(1) J] less.prems J d
    by (subst fat_open_loop.simps) (auto split: option.split)
qed

text \<open>Preparing a volume for writing.\<close>

lemma audit_entry_geo: "geo (fst (snd (fat_audit_entry a en c))) = geo (fst a)"
  by (auto simp: fat_audit_entry_def split: prod.split dest: mark_chain_geo)

lemma audit_loop_P: "geo (fst a) = geo v0 \<Longrightarrow> J s \<Longrightarrow>
  audit_loop h is a s = ((e, a'), s') \<Longrightarrow> geo (fst a') = geo v0 \<and> J s'"
proof (induction "is" arbitrary: a s)
  case (Cons i "is")
  obtain e1 a1 s1 where d: "fat_directory h (fst a) (snd a ! i) fat_audit_entry a s = ((e1, a1), s1)" by (metis prod.exhaust)
  have "J s1" using directory_J[OF Cons.prems(1,2), of "snd a ! i" fat_audit_entry a] d by simp
  moreover have "geo (fst a1) = geo v0"
    using directory_acc[of "\<lambda>a. geo (fst a) = geo v0" fat_audit_entry a h "fst a" "snd a ! i" s] Cons.prems(1) audit_entry_geo d by simp
  ultimately show ?case using Cons d by (auto split: if_splits)
qed auto

lemma mirror_check_J: "geo v = geo v0 \<Longrightarrow> J s \<Longrightarrow> J (snd (mirror_check h v ks s))"
proof (induction ks arbitrary: s)
  case (Cons k ks)
  obtain e b s1 where r: "volume_bytes h v ((fv_first_fat v + fv_fat_sectors v + k) * fv_sector v) (\<lambda>_. 0) (fv_sector v) s = ((e, b), s1)"
    by (metis prod.exhaust)
  show ?case using Cons.IH[OF Cons.prems(1) volume_bytes_J[OF Cons.prems r]] volume_bytes_J[OF Cons.prems r] r by simp
qed simp

lemma prepare_load_P:
  assumes "P x"
  shows "P (snd (prepare_load h x))"
proof -
  obtain e b s where r: "volume_bytes h (fst x) (fv_fat_start (fst x) * fv_sector (fst x)) (fv_cache_bytes (fst x))
      (fv_fat_sectors (fst x) * fv_sector (fst x)) (snd x) = ((e, b), s)"
    by (metis prod.exhaust)
  have J: "J s" "geo ((fst x)\<lparr>fv_cache_bytes := b\<rparr>) = geo v0" using volume_bytes_J[OF P_D[OF assms] r] P_D[OF assms] by auto
  obtain e2 s2 where m: "mirror_check h ((fst x)\<lparr>fv_cache_bytes := b\<rparr>) [0..<fv_fat_sectors (fst x)] s = (e2, s2)"
    by (metis prod.exhaust)
  then have "J s2" using mirror_check_J[OF J(2,1)] by (metis snd_conv)
  then show ?thesis using J m r by (auto simp: prepare_load_def Let_def)
qed

lemma prepare_audit_P:
  assumes "P x"
  shows "P (snd (prepare_audit h x))"
proof -
  obtain e v where m: "(if fv_fat_bits (fst x) = 32 then fat_mark_chain (fst x) (fv_root_cluster (fst x)) 0 else (0, fst x)) = (e, v)"
    by fastforce
  have v: "geo v = geo v0" using m assms mark_chain_geo by (auto simp: P_def split: if_splits)
  obtain e1 v1 ds s1 where a: "audit_loop h [0..<FAT_DIR_LIMIT] (v, [fv_root_cluster v]) (snd x) = ((e1, v1, ds), s1)"
    by (metis prod.exhaust)
  have "geo v1 = geo v0 \<and> J s1" using audit_loop_P[OF _ P_D(2)[OF assms] a] v by simp
  then show ?thesis using m v a P_D[OF assms] by (auto simp: prepare_audit_def split: prod.split)
qed

lemma prepare_pages_P: "P x \<Longrightarrow> P (snd (prepare_pages x))"
  using al by (auto simp: prepare_pages_def Let_def P_def split: prod.split) (metis snd_conv)

lemma drop_cache_P: "P x \<Longrightarrow> P (fat_drop_cache x)"
  by (simp add: fat_drop_cache_def Let_def P_def fr)

lemma prepare_write_P:
  assumes "P x"
  shows "P (snd (fat_prepare_write h x))"
proof -
  obtain dirs y where p: "prepare_pages x = (dirs, y)" by (cases "prepare_pages x")
  have y: "P y" using prepare_pages_P[OF assms] p by simp
  have z: "P (snd (and_then (prepare_load h y) (prepare_audit h)))" using y by (intro seq prepare_load_P prepare_audit_P)
  obtain e w where r: "(if fv_cache (fst y) = 0 \<or> fv_used (fst y) = 0 \<or> fv_dirty (fst y) = 0 \<or> dirs = 0 then (K_ENOMEM, y)
      else and_then (prepare_load h y) (prepare_audit h)) = (e, w)" by (metis prod.exhaust)
  have w: "P w" using r y z by (auto split: if_splits)
  then have "P (fst w, free_at dirs (FAT_DIR_LIMIT div 1024) (snd w))" by (simp add: P_def fr)
  then show ?thesis unfolding fat_prepare_write_def Let_def p prod.case r using assms drop_cache_P
    by (auto simp: prepare_ready_def)
qed

text \<open>Directory searches, and the operations with the whole volume open for writing.\<close>

lemma slot_cluster_J: "geo v = geo v0 \<Longrightarrow> J s \<Longrightarrow> J (snd (slot_cluster h v root need ks t s))"
proof (induction ks arbitrary: t s)
  case (Cons k ks)
  obtain e b s1 where r: "volume_bytes h v (k * fv_sector v) (\<lambda>_. 0) (fv_sector v) s = ((e, b), s1)" by (metis prod.exhaust)
  show ?case using Cons.IH[OF Cons.prems(1) volume_bytes_J[OF Cons.prems r]] volume_bytes_J[OF Cons.prems r] r
    by (auto split: slot_scan.split)
qed simp

lemma sfn_cluster_J: "geo v = geo v0 \<Longrightarrow> J s \<Longrightarrow> J (snd (sfn_cluster h v root name n ks s))"
proof (induction ks arbitrary: n s)
  case (Cons k ks)
  obtain e b s1 where r: "volume_bytes h v (k * fv_sector v) (\<lambda>_. 0) (fv_sector v) s = ((e, b), s1)" by (metis prod.exhaust)
  show ?case using Cons.IH[OF Cons.prems(1) volume_bytes_J[OF Cons.prems r]] volume_bytes_J[OF Cons.prems r] r
    by (auto split: option.split)
qed simp

lemma sfn_loop_J: "geo v = geo v0 \<Longrightarrow> J s \<Longrightarrow> J (snd (sfn_loop h v name c visited s))"
proof (induction "65536 - visited" arbitrary: c visited s rule: less_induct)
  case less
  obtain r s1 where d: "sfn_cluster h v (c = 0) name 0 (slot_sectors v c) s = (r, s1)" by fastforce
  have J: "J s1" using sfn_cluster_J[OF less.prems] d by (metis snd_conv)
  show ?case
  proof (cases "visited \<ge> 65536")
    case False
    then have "65536 - Suc visited < 65536 - visited" by simp
    from less.hyps[OF this less.prems(1) J] show ?thesis
      using J d by (subst sfn_loop.simps) (auto split: option.split simp: less.prems)
  qed (use less.prems in \<open>simp add: sfn_loop.simps\<close>)
qed

lemma find_serial_J: "geo v = geo v0 \<Longrightarrow> J s \<Longrightarrow> J (snd (find_serial h v dir serial s))"
proof (induction "65536 - serial" arbitrary: serial s rule: less_induct)
  case less
  obtain e s1 where d: "fat_sfn_exists h v dir (serial_name serial) s = (e, s1)" by fastforce
  have J: "J s1" using sfn_loop_J[OF less.prems] d unfolding fat_sfn_exists_def by (metis snd_conv)
  show ?case
  proof (cases "serial \<ge> 65536")
    case False
    then have "65536 - Suc serial < 65536 - serial" by simp
    from less.hyps[OF this less.prems(1) J] show ?thesis
      using J d by (subst find_serial.simps) (auto simp: less.prems)
  qed (use less.prems in \<open>simp add: find_serial.simps\<close>)
qed

definition full :: bool where
  "full \<longleftrightarrow> {..<fv_length v0} \<subseteq> W"

lemma fullD: "full \<Longrightarrow> k \<in> W \<or> fv_length v0 \<le> k" "full \<Longrightarrow> table_in_W"
  unfolding full_def table_in_W_def by (meson lessThan_iff not_le subsetD)+

lemma slot_grow_P:
  assumes full "P x"
  shows "P (snd (snd (slot_grow h c x)))"
proof -
  obtain nx v where a: "fat_allocate (fst x) = (nx, v)" by fastforce
  have v: "P (v, snd x)" using allocate_geo[OF a] assms(2) by (simp add: P_def)
  have "P (snd (fat_flush_cache h (fat_cache_set (fst y) c nx, snd y)))" if "P y" for y
    using that fullD[OF assms(1)] by (intro flush_cache_P) (auto simp: P_def)
  then show ?thesis using v fullD[OF assms(1)] unfolding slot_grow_def a prod.case
    by (auto intro!: seq write_data_P volume_flush_P flush_cache_P)
qed

lemma slots_loop_P:
  assumes full
  shows "P x \<Longrightarrow> P (snd (slots_loop h need grow c visited t x))"
proof (induction "65536 - visited" arbitrary: c visited t x rule: less_induct)
  case less
  obtain r s1 where d: "slot_cluster h (fst x) (c = 0) need (slot_sectors (fst x) c) t (snd x) = (r, s1)" by fastforce
  have x1: "P (fst x, s1)" using slot_cluster_J[OF P_D[OF less.prems]] d P_D(1)[OF less.prems] by (metis P_pair snd_conv)
  obtain nx e y where g: "(if fat_is_end (fst x) (fat_cached (fst x) c) then slot_grow h c (fst x, s1)
      else (fat_cached (fst x) c, 0, fst x, s1)) = (nx, e, y)" by (metis prod.exhaust)
  have y: "P y" using g x1 slot_grow_P[OF assms x1, of c] by (auto split: if_splits)
  show ?case
  proof (cases "visited \<ge> 65536")
    case False
    then have "65536 - Suc visited < 65536 - visited" by simp
    from less.hyps[OF this y] show ?thesis
      using x1 y less.prems g
      by (subst slots_loop.simps) (auto simp: d Let_def split: slot_scan.split if_splits)
  qed (use less.prems in \<open>simp add: slots_loop.simps\<close>)
qed

lemma slots_P: "full \<Longrightarrow> P x \<Longrightarrow> P (snd (fat_slots h dir need grow slots x))"
  using slots_loop_P[of x need grow dir 0 "\<lparr>ss_run = 0, ss_scanned = 0, ss_ended = False, ss_slots = slots\<rparr>"]
  by (cases "slots_loop h need grow dir 0 \<lparr>ss_run = 0, ss_scanned = 0, ss_ended = False, ss_slots = slots\<rparr> x")
    (auto simp: fat_slots_def)

lemma write_entries_P: "full \<Longrightarrow> P x \<Longrightarrow> P (snd (write_entries h es x))"
proof (induction es arbitrary: x)
  case (Cons a es)
  then show ?case by (cases a) (auto intro!: seq entry_write_P fullD)
qed simp

lemma create_dots_P:
  assumes full "P x"
  shows "P (snd (snd (create_dots h parent x)))"
proof -
  obtain nx v where a: "fat_allocate (fst x) = (nx, v)" by fastforce
  have "P (v, snd x)" using allocate_geo[OF a] assms(2) by (simp add: P_def)
  then show ?thesis using fullD[OF assms(1)] unfolding create_dots_def a prod.case Let_def
    by (auto intro!: seq write_data_P entry_write_P)
qed

lemma create_body_P:
  assumes full "P x"
  shows "P (snd (snd (create_body h parent name directory sfn slots en x)))"
proof -
  let ?lf = "(str_len name + 12) div 13"
  let ?r = "and_then (and_then (if en then and_then (fat_entry_write h (slots (?lf + 1)) (\<lambda>_. 0) x) (volume_flush h) else (0, x))
    (write_entries h (map (\<lambda>i. (slots i, (\<lambda>_. 0)(0 := 0xe5))) [0..<?lf + 1]))) (volume_flush h)"
  have r: "P (snd ?r)" using assms fullD by (auto intro!: seq entry_write_P volume_flush_P write_entries_P)
  obtain first q where f: "(if fst ?r = 0 \<and> directory then create_dots h parent (snd ?r) else (0, ?r)) = (first, q)"
    by (metis prod.exhaust)
  have "P (snd q)" using f r create_dots_P[OF assms(1) r, of parent] by (auto split: if_splits)
  then show ?thesis unfolding create_body_def Let_def f prod.case using assms fullD
    by (auto intro!: seq entry_write_P volume_flush_P write_entries_P flush_cache_P)
qed

lemma create_prepared_P:
  assumes full "P x"
  shows "P (snd (create_prepared h i p name directory out x))"
proof -
  obtain r s where fs: "find_serial h (fst x) (fl_cluster p) 1 (snd x) = (r, s)" by fastforce
  have x1: "P (fst x, s)" using find_serial_J[OF P_D[OF assms(2)]] fs P_D(1)[OF assms(2)] by (metis P_pair snd_conv)
  let ?n = "(str_len name + 12) div 13 + 1"
  obtain e1 slots en x2 where s1: "fat_slots h (fl_cluster p) ?n False (\<lambda>_. 0) (fst x, s) = ((e1, slots, en), x2)" by (metis prod.exhaust)
  have x2: "P x2" using slots_P[OF assms(1) x1] s1 by (metis snd_conv)
  obtain e2 x3 where b: "fat_begin_write h x2 = (e2, x3)" by (metis prod.exhaust)
  have x3: "P x3" using begin_write_P[OF fullD(2)[OF assms(1)] _ x2] fullD(1)[OF assms(1)] b by (metis snd_conv)
  obtain e3 slots3 en3 x4 where s2: "(if e1 = K_EAGAIN then fat_slots h (fl_cluster p) ?n True slots x3 else ((0, slots, en), x3)) = ((e3, slots3, en3), x4)"
    by (metis prod.exhaust)
  have x4: "P x4" using s2 x3 slots_P[OF assms(1) x3] by (cases "e1 = K_EAGAIN") (auto, metis snd_conv)
  obtain first e4 x5 where c: "create_body h (fl_cluster p) name directory (projr r) slots3 en3 x4 = (first, e4, x5)" by (metis prod.exhaust)
  have x5: "P x5" using create_body_P[OF assms(1) x4] c by (metis snd_conv)
  note fin = finish_write_P[OF fullD(2)[OF assms(1)]]
  show ?thesis unfolding create_prepared_def fs prod.case Let_def s1 b s2
    using x1 x2 fin[OF x3] fin[OF x4] fin[OF x5] c
    by (cases r) (auto simp: s2 case_snd)
qed

lemma create_checked_P:
  assumes full "P x"
  shows "P (snd (create_checked h i p name directory out x))"
  using prepare_write_P[OF assms(2)] create_prepared_P[OF assms(1), of "snd (fat_prepare_write h x)"]
  by (auto simp: create_checked_def split: prod.split)

lemma replace_clusters_P:
  assumes full
  shows "P x \<Longrightarrow> P (snd (snd (replace_clusters h n first prev off data sz x)))"
proof (induction n arbitrary: first prev off x)
  case (Suc n)
  obtain c v where a: "fat_allocate (fst x) = (c, v)" by fastforce
  have v: "P (v, snd x)" using allocate_geo[OF a] Suc.prems by (simp add: P_def)
  let ?v = "if prev \<noteq> 0 then fat_cache_set v prev c else v"
  have v2: "P (?v, snd x)" using v by simp
  have w: "P (snd (fat_write_data h c d m (?v, snd x)))" for d m using v2 fullD[OF assms] by (intro write_data_P) auto
  show ?case using v w[of "\<lambda>j. data (off + j)" "min (fv_spc ?v * fv_sector ?v) (sz - off)"] Suc.IH
    by (auto simp: a Let_def split: prod.split)
qed simp

lemma publish_P:
  "P x \<Longrightarrow> off div fv_sector v0 \<in> W \<or> fv_length v0 \<le> off div fv_sector v0 \<Longrightarrow> P (snd (publish_entry h off d first sz x))"
  unfolding publish_entry_def Let_def by (auto intro!: seq entry_write_P volume_flush_P)

lemma replace_chain_P:
  assumes full "P x"
  shows "P (snd (snd (replace_chain h data sz count x)))"
proof -
  note W = fullD[OF assms(1)]
  obtain e1 x1 where b: "fat_begin_write h x = (e1, x1)" by (metis prod.exhaust)
  have x1: "P x1" using begin_write_P[OF W(2) _ assms(2)] W(1) b by (metis snd_conv)
  obtain first r where c: "replace_clusters h count 0 0 0 data sz x1 = (first, r)" by (metis prod.exhaust)
  have "P (snd r)" using replace_clusters_P[OF assms(1) x1] c by (metis snd_conv)
  then show ?thesis unfolding replace_chain_def b prod.case c using x1 W
    by (auto intro!: seq volume_flush_P flush_cache_P)
qed

lemma replace_body_P:
  assumes full "P x"
  shows "P (snd (replace_body h f d data sz count x))"
proof -
  note W = fullD[OF assms(1)] and fin = finish_write_P[OF fullD(2)[OF assms(1)]]
  obtain first r where c: "replace_chain h data sz count x = (first, r)" by (metis prod.exhaust)
  have r: "P (snd r)" using replace_chain_P[OF assms] c by (metis snd_conv)
  obtain e2 x2 where p: "and_then r (publish_entry h (fl_directory_offset f) d first sz) = (e2, x2)" by (metis prod.exhaust)
  have "P (snd (and_then r (publish_entry h (fl_directory_offset f) d first sz)))" using r W by (intro seq publish_P)
  then have x2: "P x2" using p by simp
  let ?y = "(release_chain (fv_cluster_count (fst x2) + 2) (fl_cluster f) (fst x2), snd x2)"
  have y: "P ?y" using x2 by (simp only: P_def fst_conv snd_conv release_chain_geo)
  obtain e3 x3 where l: "fat_flush_cache h ?y = (e3, x3)" by (metis prod.exhaust)
  have x3: "P x3" using flush_cache_P[OF W(2) y] l by simp
  show ?thesis unfolding replace_body_def c prod.case p l using fin[OF x2] fin[OF x3]
    by (auto simp: case_snd)
qed

lemma replace_prepared_P:
  assumes full "P x"
  shows "P (snd (replace_prepared h f data sz x))"
proof -
  obtain e v s where p: "fat_prepare_write h x = (e, v, s)" by (metis prod.exhaust)
  have y: "P (v, s)" using prepare_write_P[OF assms(2)] p by simp
  obtain e1 d s1 where r: "volume_bytes h v (fl_directory_offset f) (\<lambda>_. 0) 32 s = ((e1, d), s1)" by (metis prod.exhaust)
  have z: "P (v, s1)" using y volume_bytes_J[OF _ _ r] by simp
  show ?thesis unfolding replace_prepared_def p prod.case Let_def r using y z replace_body_P[OF assms(1) z] by simp
qed

text \<open>Operations on the table of volumes.\<close>

definition Q :: "fat_fs \<Rightarrow> nat \<Rightarrow> fat_fs \<times> 'h store \<Rightarrow> bool" where
  "Q fs i y \<longleftrightarrow> geo (ff_volumes (fst y) i) = geo v0 \<and> J (snd y) \<and> (\<forall>j. j \<noteq> i \<longrightarrow> ff_volumes (fst y) j = ff_volumes fs j) \<and>
     ff_volume_count (fst y) = ff_volume_count fs"

lemma with_volume_Q:
  assumes "Q fs i y" "\<And>x. P x \<Longrightarrow> P (snd (op x))"
  shows "Q fs i (snd (with_volume i op y))"
proof -
  obtain r v s where o: "op (ff_volumes (fst y) i, snd y) = (r, v, s)" by (metis prod.exhaust)
  have "P (v, s)" using assms(2)[of "(ff_volumes (fst y) i, snd y)"] assms(1) o by (simp add: Q_def)
  then show ?thesis using assms(1) o by (simp add: Q_def with_volume_def)
qed

lemma Q_step: "Q fs i y \<Longrightarrow> J s \<Longrightarrow> Q fs i (fst y, s)"
  by (simp add: Q_def)

lemma open_Q: "Q fs i y \<Longrightarrow> fat_open h (fst y) i path out (snd y) = (r, s) \<Longrightarrow> Q fs i (fst y, s)"
  using open_loop_J[of "ff_volumes (fst y) i" "snd y" i path] unfolding Fat.fat_open_def Let_def
  by (auto simp: Q_def split: if_splits) (metis snd_conv)

lemma refresh_Q:
  assumes "Q fs i y" "fat_refresh h (fst y) f (snd y) = (r, s)" "fl_object f = i"
  shows "Q fs i (fst y, s)"
proof -
  obtain e d s1 where r: "volume_bytes h (ff_volumes (fst y) (fl_object f)) (fl_directory_offset f) (\<lambda>_. 0) 32 (snd y) = ((e, d), s1)"
    by (metis prod.exhaust)
  have "J s1" using volume_bytes_J[OF _ _ r] assms(1,3) by (simp add: Q_def)
  then show ?thesis using assms r by (auto simp: Fat.fat_refresh_def Let_def Q_def split: if_splits)
qed

lemma replace_locked_Q:
  assumes full "Q fs i y" "fl_object f = i"
  shows "Q fs i (snd (fat_replace_locked h f data sz y))"
proof -
  obtain e f' s where r: "fat_refresh h (fst y) f (snd y) = ((e, f'), s)" by (metis prod.exhaust)
  have y: "Q fs i (fst y, s)" using refresh_Q[OF assms(2) r assms(3)] .
  have o: "fl_object f' = i" using refresh_object[OF r] assms(3) by simp
  show ?thesis unfolding FatWrite.fat_replace_locked_def r prod.case
    using y assms(2) with_volume_Q[OF y replace_prepared_P[OF assms(1)]] o by simp
qed

lemma create_locked_Q:
  assumes full "Q fs i y"
  shows "Q fs i (snd (fat_create_locked h i path directory out y))"
proof (cases "create_split path")
  case (Inr r)
  obtain parent name where pn: "r = (parent, name)" by fastforce
  obtain e p s where o: "fat_open h (fst y) i parent zero_file (snd y) = ((e, p), s)" by (metis prod.exhaust)
  have y1: "Q fs i (fst y, s)" using open_Q[OF assms(2) o] .
  obtain e2 q s2 where o2: "fat_open h (fst y) i path zero_file s = ((e2, q), s2)" by (metis prod.exhaust)
  have y2: "Q fs i (fst y, s2)" using open_Q[OF y1] o2 by (metis fst_conv snd_conv)
  show ?thesis unfolding FatCreate.fat_create_locked_def Inr pn sum.case prod.case o o2
    using y1 y2 with_volume_Q[OF y2 create_checked_P[OF assms(1)]] by simp
qed (use assms(2) in \<open>simp add: FatCreate.fat_create_locked_def\<close>)

lemma store_locked_Q:
  assumes full "Q fs i y"
  shows "Q fs i (snd (fat_store_locked h i path data sz y))"
proof -
  obtain e f s where o: "fat_open h (fst y) i path zero_file (snd y) = ((e, f), s)" by (metis prod.exhaust)
  have y1: "Q fs i (fst y, s)" using open_Q[OF assms(2) o] .
  obtain e2 f2 y2 where c: "(if e = K_ENOENT then fat_create_locked h i path False f (fst y, s) else ((e, f), fst y, s)) = ((e2, f2), y2)"
    by (metis prod.exhaust)
  have y2: "Q fs i y2" using c y1 create_locked_Q[OF assms(1) y1] by (auto split: if_splits) (metis snd_conv)
  have "fl_object f2 = i" if "e2 = 0" using store_file_object[OF o c[unfolded that]] .
  then have "e2 = 0 \<Longrightarrow> Q fs i (snd (fat_replace_locked h f2 data sz y2))" by (rule replace_locked_Q[OF assms(1) y2])
  then show ?thesis unfolding FatCreate.fat_store_locked_def o prod.case c using y2 by (auto simp: case_snd split: prod.split)
qed

end

text \<open>The disk table is such a property, whatever is written.\<close>

interpretation disk_table: volume_frame h v0 UNIV "\<lambda>s. s_disks s = D \<and> s_disk_count s = N"
  for h :: "'h hw" and v0 :: fat_volume and D :: "nat \<Rightarrow> disk" and N :: nat
  unfolding volume_frame_def by (rule table_frame)

end
