(* ===== verification/FatSafe.thy ===== *)
theory FatSafe
  imports FatFrame
begin

unbundle bit_operations_syntax

text \<open>
  Safety of FAT writes: the cached table behaves as an array of links, allocation takes free
  clusters only and finds one whenever there is one, everything is written inside the volume, and an
  interrupted replacement has touched neither the directories nor the data of existing files.
\<close>

section \<open>The cached table as an array\<close>

definition writable :: "fat_volume \<Rightarrow> bool" where
  "writable v \<longleftrightarrow> vol_geom v \<and> fv_fat_bits v \<noteq> 12"

lemma writable_bits: "writable v \<Longrightarrow> fv_fat_bits v = 16 \<or> fv_fat_bits v = 32"
  by (auto simp: writable_def vol_geom_def)

lemma geo_writable: "geo v = geo w \<Longrightarrow> writable v \<longleftrightarrow> writable w"
  by (frule geo_fields(2), frule geo_fields(3), frule geo_fields(4), frule geo_fields(5), frule geo_fields(6), frule geo_fields(7),
      frule geo_fields(9), frule geo_fields(10), frule geo_fields(11), frule geo_fields(12), frule geo_fields(13), frule geo_fields(14),
      frule geo_fields(15), frule geo_fields(18)) (simp add: writable_def vol_geom_def in_volume_def)

definition link_limit :: "fat_volume \<Rightarrow> nat" where
  "link_limit v = (if fv_fat_bits v = 16 then 2 ^ 16 else 2 ^ 28)"

lemma rd16_word: "rd16 (\<lambda>i. if i = p then word_of_nat x else if i = p + 1 then word_of_nat (drop_bit 8 x) else f i) p = word_of_nat x"
proof -
  have "rd16 (\<lambda>i. if i = p then word_of_nat x else if i = p + 1 then word_of_nat (drop_bit 8 x) else f i) p =
      ucast (word_of_nat x :: u8) OR push_bit 8 (ucast (word_of_nat (drop_bit 8 x) :: u8))" by (simp add: rd16_def)
  also have "\<dots> = (word_of_nat x :: u16)"
    by (rule bit_word_eqI) (auto simp: bit_simps)
  finally show ?thesis .
qed

lemma rd32_wr32_other: "q + 4 \<le> p \<or> p + 4 \<le> q \<Longrightarrow> rd32 (wr32 b p x) q = rd32 b q"
  by (rule rd_cong(2)) (auto simp: wr32_apply)

lemma mask28: "unat ((w :: u32) AND 0x0fffffff) = unat w mod 2 ^ 28"
proof -
  have "(0x0fffffff :: u32) = mask 28" by (simp add: mask_eq_exp_minus_1)
  then have "w AND 0x0fffffff = take_bit 28 w" by (simp add: take_bit_eq_mask)
  then have "unat (w AND 0x0fffffff) = take_bit 28 (unat w)" by (simp only: unsigned_take_bit_eq)
  then show ?thesis by (simp only: take_bit_eq_mod)
qed

lemma keep_high: "((a AND 0xf0000000) OR (y AND 0x0fffffff)) AND 0x0fffffff = (y AND 0x0fffffff :: u32)"
proof -
  have "(0xf0000000 :: u32) AND 0x0fffffff = 0" by simp
  then show ?thesis by (simp add: bit.conj_disj_distrib2 and.assoc)
qed

lemma cached_set:
  assumes "writable v"
  shows "fat_cached (fat_cache_set v c x) c' = (if c' = c then x mod link_limit v else fat_cached v c')"
proof (cases "fv_fat_bits v = 16")
  case True
  let ?b = "(fv_cache_bytes v)(2 * c := word_of_nat x, 2 * c + 1 := word_of_nat (drop_bit 8 x))"
  have "?b = (\<lambda>i. if i = 2 * c then word_of_nat x else if i = 2 * c + 1 then word_of_nat (drop_bit 8 x) else fv_cache_bytes v i)"
    by auto
  then have "rd16 ?b (2 * c) = word_of_nat x" by (simp only: rd16_word)
  moreover have "rd16 ?b (2 * c') = rd16 (fv_cache_bytes v) (2 * c')" if "c' \<noteq> c"
  proof (rule rd_cong(1))
    fix j :: nat
    assume "j < 2"
    then have "2 * c' + j \<noteq> 2 * c" "2 * c' + j \<noteq> 2 * c + 1" using that by presburger+
    then show "?b (2 * c' + j) = fv_cache_bytes v (2 * c' + j)" by simp
  qed
  ultimately show ?thesis using True
    by (simp add: fat_cached_def fat_cache_set_def table_set_def Let_def link_limit_def mult.commute unat_of_nat)
next
  case False
  let ?w = "(rd32 (fv_cache_bytes v) (c * 4) AND 0xf0000000) OR (word_of_nat x AND 0x0fffffff)"
  have 32: "fv_fat_bits v = 32" using writable_bits[OF assms] False by simp
  have "unat (rd32 (wr32 (fv_cache_bytes v) (c * 4) ?w) (4 * c) AND 0x0fffffff) = x mod 2 ^ 28"
  proof -
    have "rd32 (wr32 (fv_cache_bytes v) (c * 4) ?w) (4 * c) = ?w" by (metis mult.commute rd32_wr32)
    then have "unat (rd32 (wr32 (fv_cache_bytes v) (c * 4) ?w) (4 * c) AND 0x0fffffff) = unat ((word_of_nat x :: u32) AND 0x0fffffff)"
      by (simp only: keep_high)
    also have "\<dots> = x mod 2 ^ 28" unfolding mask28 by (simp add: unat_of_nat mod_mod_cancel)
    finally show ?thesis .
  qed
  moreover have "rd32 (wr32 (fv_cache_bytes v) (c * 4) ?w) (4 * c') = rd32 (fv_cache_bytes v) (4 * c')" if "c' \<noteq> c"
    using that by (intro rd32_wr32_other) auto
  ultimately show ?thesis using 32
    by (simp add: fat_cached_def fat_cache_set_def table_set_def Let_def link_limit_def)
qed

lemma cached_cong: "fv_cache_bytes w = fv_cache_bytes v \<Longrightarrow> fv_fat_bits w = fv_fat_bits v \<Longrightarrow> fat_cached w = fat_cached v"
  by (rule ext) (simp add: fat_cached_def)

lemma eoc_limit: "fat_eoc v < link_limit v" "fat_eoc v \<noteq> 0"
  by (simp_all add: fat_eoc_def link_limit_def)

lemma cached_take:
  assumes "writable v"
  shows "fat_cached (take_cluster v c) c' = (if c' = c then fat_eoc v else fat_cached v c')"
proof -
  have "fat_cached (take_cluster v c) = fat_cached (fat_cache_set v c (fat_eoc v))"
    by (rule cached_cong) (simp_all add: take_cluster_def Let_def)
  then show ?thesis using cached_set[OF assms, of c "fat_eoc v" c'] eoc_limit(1)[of v] by simp
qed

section \<open>Allocation\<close>

definition free_clusters_of :: "fat_volume \<Rightarrow> nat set" where
  "free_clusters_of v = {c. in_volume v c \<and> fat_cached v c = 0}"

definition hint_ok :: "fat_volume \<Rightarrow> bool" where
  "hint_ok v \<longleftrightarrow> in_volume v (fv_alloc_hint v)"

text \<open>The cluster the search looks at in round \<open>k\<close>.\<close>

definition cyc :: "fat_volume \<Rightarrow> nat \<Rightarrow> nat" where
  "cyc v k = 2 + (fv_alloc_hint v - 2 + k) mod fv_cluster_count v"

definition step_hint :: "fat_volume \<Rightarrow> fat_volume" where
  "step_hint v = v\<lparr>fv_alloc_hint := (if add32 (fv_alloc_hint v) 1 = fv_cluster_count v + 2 then 2 else add32 (fv_alloc_hint v) 1)\<rparr>"

lemma cc_bound: "writable v \<Longrightarrow> 0 < fv_cluster_count v \<and> fv_cluster_count v + 2 < 2 ^ 32"
  by (auto simp: writable_def vol_geom_def)

lemma step_hint_cyc:
  assumes "writable v" "hint_ok v"
  shows "fv_alloc_hint (step_hint v) = cyc v 1" "hint_ok (step_hint v)" "cyc (step_hint v) k = cyc v (Suc k)"
proof -
  let ?n = "fv_cluster_count v" and ?h = "fv_alloc_hint v"
  have h: "2 \<le> ?h" "?h < ?n + 2" using assms(2) by (simp_all add: hint_ok_def in_volume_iff)
  have a: "add32 ?h 1 = ?h + 1" using h cc_bound[OF assms(1)] by (simp add: add32_def)
  show s: "fv_alloc_hint (step_hint v) = cyc v 1"
  proof (cases "?h + 1 = ?n + 2")
    case True
    then have "(?h - 2 + 1) mod ?n = 0" using h cc_bound[OF assms(1)] by simp
    moreover have "fv_alloc_hint (step_hint v) = 2" unfolding step_hint_def a using True by simp
    ultimately show ?thesis by (simp add: cyc_def)
  next
    case False
    then have "(?h - 2 + 1) mod ?n = ?h - 2 + 1" using h by (intro mod_less) linarith
    then show ?thesis using False h by (simp add: step_hint_def a[unfolded One_nat_def] cyc_def)
  qed
  have "cyc v 1 < ?n + 2" using cc_bound[OF assms(1)] by (simp add: cyc_def)
  then show "hint_ok (step_hint v)" unfolding hint_ok_def s in_volume_iff by (simp add: cyc_def step_hint_def)
  have "cyc (step_hint v) k = 2 + (cyc v 1 - 2 + k) mod ?n" unfolding cyc_def[of "step_hint v"] s by (simp add: step_hint_def)
  also have "\<dots> = cyc v (Suc k)" by (simp add: cyc_def mod_add_left_eq)
  finally show "cyc (step_hint v) k = cyc v (Suc k)" .
qed

lemma cyc_covers:
  assumes "writable v" "in_volume v c"
  shows "\<exists>k < fv_cluster_count v. cyc v k = c"
proof -
  let ?n = "fv_cluster_count v" and ?h = "fv_alloc_hint v - 2"
  have n: "0 < ?n" using cc_bound[OF assms(1)] by simp
  have c: "c - 2 < ?n" "2 \<le> c" using assms(2) by (auto simp: in_volume_iff)
  let ?k = "(c - 2 + (?n - ?h mod ?n)) mod ?n"
  have "(?h + ?k) mod ?n = (?h mod ?n + (c - 2 + (?n - ?h mod ?n))) mod ?n" by (simp add: mod_add_left_eq mod_add_right_eq)
  also have "?h mod ?n + (c - 2 + (?n - ?h mod ?n)) = c - 2 + ?n" using mod_less_divisor[OF n, of ?h] by linarith
  also have "(c - 2 + ?n) mod ?n = c - 2" using c by (simp only: mod_add_self2 mod_less)
  finally have "cyc v ?k = c" using c by (simp add: cyc_def)
  then show ?thesis using n by (intro exI[of _ ?k]) simp
qed

lemma allocate_loop_cases:
  assumes "writable v" "hint_ok v" "allocate_loop n v = (c, v')"
  shows "(c = 0 \<and> (\<forall>k<n. fat_cached v (cyc v k) \<noteq> 0) \<and> hint_ok v' \<and> (\<exists>hn. v' = v\<lparr>fv_alloc_hint := hn\<rparr>)) \<or>
    (in_volume v c \<and> fat_cached v c = 0 \<and> hint_ok v' \<and> (\<exists>hn. v' = take_cluster (v\<lparr>fv_alloc_hint := hn\<rparr>) c))"
  using assms
proof (induction n arbitrary: v)
  case 0
  then show ?case by (auto intro: exI[of _ "fv_alloc_hint v"])
next
  case (Suc n)
  let ?h = "fv_alloc_hint v" and ?w = "step_hint v"
  note st = step_hint_cyc[OF Suc.prems(1,2)]
  have w: "geo ?w = geo v" by (simp add: step_hint_def)
  have cw: "fat_cached ?w = fat_cached v" by (rule cached_cong) (simp_all add: step_hint_def)
  have h0: "cyc v 0 = ?h" using Suc.prems(2) by (auto simp: cyc_def hint_ok_def in_volume_iff)
  have eq: "allocate_loop (Suc n) v = (if fat_cached v ?h = 0 then (?h, take_cluster ?w ?h) else allocate_loop n ?w)"
    unfolding allocate_loop.simps Let_def step_hint_def[symmetric] cw ..
  show ?case
  proof (cases "fat_cached v ?h = 0")
    case True
    have "hint_ok (take_cluster ?w ?h)" using st(2) by (simp add: hint_ok_def in_volume_def take_cluster_def fat_cache_set_def Let_def)
    then show ?thesis using True Suc.prems(2,3) eq by (auto simp: hint_ok_def step_hint_def)
  next
    case False
    then have "allocate_loop n ?w = (c, v')" using Suc.prems(3) eq by simp
    from Suc.IH[OF _ st(2) this] Suc.prems(1) geo_writable[OF w]
    have IH: "(c = 0 \<and> (\<forall>k<n. fat_cached v (cyc v (Suc k)) \<noteq> 0) \<and> hint_ok v' \<and> (\<exists>hn. v' = ?w\<lparr>fv_alloc_hint := hn\<rparr>)) \<or>
      (in_volume ?w c \<and> fat_cached v c = 0 \<and> hint_ok v' \<and> (\<exists>hn. v' = take_cluster (?w\<lparr>fv_alloc_hint := hn\<rparr>) c))"
      by (simp add: st(3) cw)
    have u: "?w\<lparr>fv_alloc_hint := hn\<rparr> = v\<lparr>fv_alloc_hint := hn\<rparr>" for hn by (simp add: step_hint_def)
    have iv: "in_volume ?w c \<longleftrightarrow> in_volume v c" by (simp add: step_hint_def in_volume_def)
    have all: "(\<forall>k<Suc n. fat_cached v (cyc v k) \<noteq> 0) \<longleftrightarrow> (\<forall>k<n. fat_cached v (cyc v (Suc k)) \<noteq> 0)"
      using False h0 by (metis less_Suc_eq_0_disj Suc_less_eq)
    show ?thesis using IH unfolding u iv all .
  qed
qed

lemma allocate_cases:
  assumes "writable v" "hint_ok v" "fat_allocate v = (c, v')"
  obtains (none) "c = 0" "free_clusters_of v = {}" "hint_ok v'" "\<exists>hn. v' = v\<lparr>fv_alloc_hint := hn\<rparr>"
  | (some) "c \<in> free_clusters_of v" "hint_ok v'" "\<exists>hn. v' = take_cluster (v\<lparr>fv_alloc_hint := hn\<rparr>) c"
proof -
  from allocate_loop_cases[OF assms(1,2) assms(3)[unfolded fat_allocate_def]] show thesis
  proof (elim disjE conjE)
    assume "c = 0" "\<forall>k<fv_cluster_count v. fat_cached v (cyc v k) \<noteq> 0" "hint_ok v'" "\<exists>hn. v' = v\<lparr>fv_alloc_hint := hn\<rparr>"
    moreover from this have "free_clusters_of v = {}" using cyc_covers[OF assms(1)] by (auto simp: free_clusters_of_def)
    ultimately show thesis by (rule_tac none)
  qed (intro some, auto simp: free_clusters_of_def)
qed

lemma finite_free: "finite (free_clusters_of v)"
  by (rule finite_subset[of _ "{2..<fv_cluster_count v + 2}"]) (auto simp: free_clusters_of_def in_volume_iff)

lemma sub32_one: "0 < n \<Longrightarrow> n < 2 ^ 32 \<Longrightarrow> sub32 n 1 = n - 1"
proof -
  assume n: "0 < n" "n < 2 ^ 32"
  have "n + (2 ^ 32 - 1) = (n - 1) + 2 ^ 32" using n(1) by simp
  then show ?thesis unfolding sub32_def using n(2) by (simp only: mod_add_self2) simp
qed

lemma card_free_bound: "writable v \<Longrightarrow> card (free_clusters_of v) < 2 ^ 32"
proof -
  assume w: "writable v"
  have "card (free_clusters_of v) \<le> card {2..<fv_cluster_count v + 2}"
    by (intro card_mono) (auto simp: free_clusters_of_def in_volume_iff)
  then show ?thesis using cc_bound[OF w] by simp
qed

lemma allocate_effect:
  assumes "writable v" "hint_ok v" "fat_allocate v = (c, v')" "c \<noteq> 0"
  shows "c \<in> free_clusters_of v" "hint_ok v'" "geo v' = geo v"
    "\<And>c'. fat_cached v' c' = (if c' = c then fat_eoc v else fat_cached v c')" "free_clusters_of v' = free_clusters_of v - {c}"
    "\<And>c'. bit_get (fv_used_bits v') c' \<longleftrightarrow> c' = c \<or> bit_get (fv_used_bits v) c'"
    "fv_free_clusters v' = sub32 (fv_free_clusters v) 1" "fv_write_failed v' = fv_write_failed v"
proof -
  from assms(4) obtain hn where c: "c \<in> free_clusters_of v" "hint_ok v'" and v': "v' = take_cluster (v\<lparr>fv_alloc_hint := hn\<rparr>) c"
    by (rule_tac allocate_cases[OF assms(1-3)]) auto
  show "c \<in> free_clusters_of v" "hint_ok v'" by (fact c)+
  show g: "geo v' = geo v" by (simp add: v')
  have w: "writable (v\<lparr>fv_alloc_hint := hn\<rparr>)" using assms(1) geo_writable[of "v\<lparr>fv_alloc_hint := hn\<rparr>" v] by simp
  have cc: "fat_cached (v\<lparr>fv_alloc_hint := hn\<rparr>) = fat_cached v" by (rule cached_cong) simp_all
  show ca: "fat_cached v' c' = (if c' = c then fat_eoc v else fat_cached v c')" for c'
    unfolding v' cached_take[OF w] cc by (simp add: fat_eoc_def)
  have iv: "in_volume v' x \<longleftrightarrow> in_volume v x" for x using geo_fields(7)[OF g] by (simp add: in_volume_def)
  show "free_clusters_of v' = free_clusters_of v - {c}"
    using eoc_limit(2)[of v] by (auto simp: free_clusters_of_def ca iv)
  show "bit_get (fv_used_bits v') c' \<longleftrightarrow> c' = c \<or> bit_get (fv_used_bits v) c'" for c'
    by (simp add: v' take_cluster_def fat_cache_set_def Let_def)
  show "fv_free_clusters v' = sub32 (fv_free_clusters v) 1" "fv_write_failed v' = fv_write_failed v"
    by (simp_all add: v' take_cluster_def fat_cache_set_def Let_def)
qed

text \<open>
  C19. Allocation is sound and complete. On a volume prepared for writing \<open>fat_allocate\<close> returns a
  cluster exactly when the table has a free one. The cluster was free, is then marked in use by an
  end-of-chain entry and in the bitmap, the entry of every other cluster is as before, and the counter
  of free clusters stays equal to the number of free entries.
\<close>

theorem fat_allocate_sound:
  assumes "writable v" "hint_ok v" "fv_free_clusters v = card (free_clusters_of v)" "fat_allocate v = (c, v')"
  shows "(c = 0 \<longleftrightarrow> free_clusters_of v = {}) \<and>
    (c \<noteq> 0 \<longrightarrow> in_volume v c \<and> fat_cached v c = 0 \<and> fat_is_end v' (fat_cached v' c) \<and> bit_get (fv_used_bits v') c \<and>
       (\<forall>c'. c' \<noteq> c \<longrightarrow> fat_cached v' c' = fat_cached v c')) \<and>
    hint_ok v' \<and> fv_free_clusters v' = card (free_clusters_of v')"
proof (cases "c = 0")
  case True
  then have "free_clusters_of v = {} \<and> hint_ok v' \<and> (\<exists>hn. v' = v\<lparr>fv_alloc_hint := hn\<rparr>)"
    by (rule_tac allocate_cases[OF assms(1,2,4)]) (auto simp: free_clusters_of_def in_volume_def)
  moreover have "fat_cached (v\<lparr>fv_alloc_hint := hn\<rparr>) = fat_cached v" for hn by (rule cached_cong) simp_all
  ultimately show ?thesis using True assms(3) by (auto simp: free_clusters_of_def in_volume_def)
next
  case False
  note e = allocate_effect[OF assms(1,2,4) False]
  have n: "0 < card (free_clusters_of v)" using e(1) finite_free by (auto simp: card_gt_0_iff)
  have "fv_free_clusters v' = card (free_clusters_of v) - 1"
    unfolding e(7) assms(3) by (rule sub32_one[OF n card_free_bound[OF assms(1)]])
  also have "\<dots> = card (free_clusters_of v')" unfolding e(5) using e(1) finite_free by simp
  finally have fr: "fv_free_clusters v' = card (free_clusters_of v')" .
  have "fat_is_end v' (fat_cached v' c)" using geo_fields(4)[OF e(3)] by (simp add: e(4) fat_is_end_def fat_eoc_def)
  then show ?thesis using False e(1,2,4,6) fr by (auto simp: free_clusters_of_def)
qed

section \<open>What disk writes leave alone in the volume record\<close>

text \<open>Writing and flushing change at most the failure flag and the dirty bits.\<close>

definition core :: "fat_volume \<Rightarrow> fat_volume" where
  "core v = v\<lparr>fv_write_failed := False, fv_dirty_bits := (\<lambda>_. 0)\<rparr>"

lemma core_updates [simp]: "core (v\<lparr>fv_write_failed := b\<rparr>) = core v" "core (v\<lparr>fv_dirty_bits := t\<rparr>) = core v"
  by (simp_all add: core_def)

lemma core_fields:
  assumes "core v = core w"
  shows "geo v = geo w" "fv_cache_bytes v = fv_cache_bytes w" "fv_used_bits v = fv_used_bits w"
    "fv_alloc_hint v = fv_alloc_hint w" "fv_free_clusters v = fv_free_clusters w" "fv_write_ready v = fv_write_ready w"
  using assms by (cases v; cases w; simp add: core_def geo_def)+

lemma core_same:
  assumes "core v = core w"
  shows "fat_cached v = fat_cached w" "free_clusters_of v = free_clusters_of w" "hint_ok v = hint_ok w" "writable v = writable w"
proof -
  note c = core_fields[OF assms]
  show ca: "fat_cached v = fat_cached w" by (rule cached_cong[OF c(2) geo_fields(4)[OF c(1)]])
  have iv: "in_volume v x = in_volume w x" for x using geo_fields(7)[OF c(1)] by (simp add: in_volume_def)
  show "free_clusters_of v = free_clusters_of w" by (simp add: free_clusters_of_def ca iv)
  show "hint_ok v = hint_ok w" by (simp add: hint_ok_def iv c(4))
  show "writable v = writable w" by (rule geo_writable[OF c(1)])
qed

lemma core_seq: "core (fst (snd r)) = core v \<Longrightarrow> (\<And>x. core (fst x) = core v \<Longrightarrow> core (fst (snd (f x))) = core v) \<Longrightarrow>
  core (fst (snd (and_then r f))) = core v"
  by (simp add: and_then_def)

lemma volume_write_core [simp]: "core (fst (snd (volume_write h k n d x))) = core (fst x)"
  by (auto simp: volume_write_def Let_def split: option.split)

lemma volume_flush_core [simp]: "core (fst (snd (volume_flush h x))) = core (fst x)"
  by (auto simp: volume_flush_def split: prod.split)

lemma flush_copies_core [simp]: "core (fst (snd (flush_copies h k fs x))) = core (fst x)"
proof (induction fs arbitrary: x)
  case (Cons f fs)
  show ?case unfolding flush_copies.simps by (rule core_seq) (simp_all add: Cons.IH)
qed simp

lemma flush_sectors_core [simp]: "core (fst (snd (flush_sectors h ks x))) = core (fst x)"
proof (induction ks arbitrary: x)
  case (Cons k ks)
  have "core (fst (snd (and_then (flush_copies h k [0..<fat_copies (fst x)] x)
      (\<lambda>(v, s). flush_sectors h ks (v\<lparr>fv_dirty_bits := bit_clear (fv_dirty_bits v) k\<rparr>, s))))) = core (fst x)"
    by (rule core_seq) (auto simp: Cons.IH split: prod.split)
  then show ?case using Cons.IH by simp
qed simp

lemma flush_cache_core [simp]: "core (fst (snd (fat_flush_cache h x))) = core (fst x)"
  unfolding fat_flush_cache_def by (rule core_seq) simp_all

lemma write_data_loop_core [simp]: "core (fst (snd (write_data_loop h ks d off sz x))) = core (fst x)"
proof (induction ks arbitrary: off sz x)
  case (Cons k ks)
  show ?case unfolding write_data_loop.simps Let_def by (rule core_seq) (simp_all add: Cons.IH)
qed simp

lemma write_data_core [simp]: "core (fst (snd (fat_write_data h c d sz x))) = core (fst x)"
  by (simp add: fat_write_data_def)

lemma fsinfo_loop_core [simp]: "core (fst (snd (fsinfo_loop h ks x))) = core (fst x)"
proof (induction ks arbitrary: x)
  case (Cons k ks)
  have "core (fst (snd (and_then (volume_write h k 1 d (fst x, s)) (fsinfo_loop h ks)))) = core (fst x)" for d s
    by (rule core_seq) (simp_all add: Cons.IH)
  then show ?case using Cons.IH by (auto split: prod.split)
qed simp

lemma begin_write_core: "core (fst (snd (fat_begin_write h x))) = core (set_dirty (fst x))"
  unfolding fat_begin_write_def by (intro core_seq) simp_all

lemma set_dirty_cached:
  assumes "writable v" "c \<noteq> 1"
  shows "fat_cached (set_dirty v) c = fat_cached v c"
  using cached_set[OF assms(1), of 1 _ c] assms(2) by (simp add: set_dirty_def)

lemma begin_write_same:
  assumes "writable (fst x)"
  shows "free_clusters_of (fst (snd (fat_begin_write h x))) = free_clusters_of (fst x)"
    "hint_ok (fst (snd (fat_begin_write h x))) = hint_ok (fst x)" "writable (fst (snd (fat_begin_write h x)))"
proof -
  note c = core_same[OF begin_write_core, of h x]
  have iv: "in_volume (set_dirty (fst x)) c = in_volume (fst x) c" for c
    using geo_fields(7)[OF set_dirty_geo(1)] by (simp add: in_volume_def)
  show "free_clusters_of (fst (snd (fat_begin_write h x))) = free_clusters_of (fst x)"
    unfolding c(2) using set_dirty_cached[OF assms, unfolded One_nat_def] by (auto simp: free_clusters_of_def iv) (auto simp: in_volume_def)
  show "hint_ok (fst (snd (fat_begin_write h x))) = hint_ok (fst x)"
    unfolding c(3) by (simp add: hint_ok_def iv) (simp add: set_dirty_def fat_cache_set_def Let_def)
  show "writable (fst (snd (fat_begin_write h x)))" unfolding c(4) using assms geo_writable[OF set_dirty_geo(1)] by simp
qed

lemma cluster_link:
  assumes "writable v" "in_volume v c"
  shows "c < link_limit v" "c mod link_limit v = c"
proof -
  have "c < link_limit v" using assms writable_bits[OF assms(1)]
    by (auto simp: writable_def vol_geom_def in_volume_iff link_limit_def)
  then show "c < link_limit v" "c mod link_limit v = c" by simp_all
qed

lemma link_free:
  assumes "writable v" "in_volume v c"
  shows "free_clusters_of (fat_cache_set v prev c) \<subseteq> free_clusters_of v"
proof -
  have "c \<noteq> 0" using assms(2) by (simp add: in_volume_iff)
  moreover have "in_volume (fat_cache_set v prev c) x = in_volume v x" for x by (simp add: in_volume_def fat_cache_set_def Let_def)
  ultimately show ?thesis using cached_set[OF assms(1), of prev c] cluster_link[OF assms]
    by (auto simp: free_clusters_of_def split: if_splits)
qed

section \<open>An interrupted replacement\<close>

text \<open>The sectors a replacement may write before the directory entry: everything before the directories, and free clusters.\<close>

definition cluster_sectors :: "fat_volume \<Rightarrow> nat \<Rightarrow> nat set" where
  "cluster_sectors v c = {cluster_start v c..<cluster_start v c + fv_spc v}"

definition new_sectors :: "fat_volume \<Rightarrow> nat set" where
  "new_sectors v = {..<fv_root_start v} \<union> (\<Union>c\<in>free_clusters_of v. cluster_sectors v c)"

context volume_frame
begin

lemma replace_clusters_free:
  assumes "\<forall>c\<in>F. cluster_sectors v0 c \<subseteq> W"
  shows "P x \<Longrightarrow> writable (fst x) \<Longrightarrow> hint_ok (fst x) \<Longrightarrow> free_clusters_of (fst x) \<subseteq> F \<Longrightarrow>
    P (snd (snd (replace_clusters h n first prev off data sz x)))"
proof (induction n arbitrary: first prev off x)
  case (Suc n)
  obtain c v where a: "fat_allocate (fst x) = (c, v)" by fastforce
  have v: "P (v, snd x)" using allocate_geo[OF a] Suc.prems by (simp add: P_def)
  show ?case
  proof (cases "c = 0")
    case True
    then show ?thesis using v by (simp add: a)
  next
    case False
    note e = allocate_effect[OF Suc.prems(2,3) a False]
    let ?v = "if prev \<noteq> 0 then fat_cache_set v prev c else v"
    have wv: "writable v" using Suc.prems(2) geo_writable[OF e(3)] by simp
    have iv: "in_volume v c" using e(1) geo_fields(7)[OF e(3)] by (simp add: free_clusters_of_def in_volume_def)
    have g: "geo ?v = geo v0" "P (?v, snd x)" using v by auto
    have fr: "free_clusters_of ?v \<subseteq> F" using link_free[OF wv iv, of prev] e(5) Suc.prems(4) by auto
    have hk: "hint_ok ?v" using e(2) by (simp add: hint_ok_def in_volume_def fat_cache_set_def Let_def)
    have wk: "writable ?v" using wv geo_writable[of ?v v] by simp
    have cF: "\<forall>k. cluster_start v0 c \<le> k \<and> k < cluster_start v0 c + fv_spc v0 \<longrightarrow> k \<in> W \<or> fv_length v0 \<le> k"
      using assms e(1) Suc.prems(4) unfolding cluster_sectors_def by (meson atLeastLessThan_iff subsetD)
    obtain e1 y where w: "fat_write_data h c (\<lambda>j. data (off + j)) (min (fv_spc ?v * fv_sector ?v) (sz - off)) (?v, snd x) = (e1, y)"
      by (metis prod.exhaust)
    have y: "P y" using write_data_P[OF g(2) cF] w by (metis snd_conv)
    have "core (fst y) = core ?v"
      using write_data_core[of h c "\<lambda>j. data (off + j)" "min (fv_spc ?v * fv_sector ?v) (sz - off)" "(?v, snd x)"]
      unfolding w fst_conv snd_conv .
    from core_same[OF this] have "writable (fst y)" "hint_ok (fst y)" "free_clusters_of (fst y) \<subseteq> F"
      using fr hk wk by simp_all
    from Suc.IH[OF y this] y show ?thesis using False w by (simp add: a Let_def)
  qed
qed simp

lemma replace_chain_free:
  assumes "table_in_W" "\<forall>k < fv_first_fat v0. k \<in> W \<or> fv_length v0 \<le> k" "\<forall>c\<in>F. cluster_sectors v0 c \<subseteq> W"
    and "P x" "writable (fst x)" "hint_ok (fst x)" "free_clusters_of (fst x) \<subseteq> F"
  shows "P (snd (snd (replace_chain h data sz count x)))"
proof -
  obtain e1 x1 where b: "fat_begin_write h x = (e1, x1)" by (metis prod.exhaust)
  have x1: "P x1" using begin_write_P[OF assms(1,2,4)] b by simp
  have same: "writable (fst x1)" "hint_ok (fst x1)" "free_clusters_of (fst x1) \<subseteq> F"
    using begin_write_same[OF assms(5), of h] b assms(6,7) by simp_all
  obtain first r where c: "replace_clusters h count 0 0 0 data sz x1 = (first, r)" by (metis prod.exhaust)
  have "P (snd r)" using replace_clusters_free[OF assms(3) x1 same] c by (metis snd_conv)
  then show ?thesis unfolding replace_chain_def b prod.case c using x1 assms(1)
    by (auto intro!: seq volume_flush_P flush_cache_P)
qed

end

section \<open>Devices\<close>

lemma device_frame:
  assumes "device_keeps h (D (fv_disk v0)) ((\<lambda>k. fv_start v0 + k) ` W) I"
  shows "volume_frame h v0 W (\<lambda>s. s_disks s = D \<and> s_disk_count s = N \<and> I (s_hw s))"
  unfolding volume_frame_def by (rule device_disk_frame[of h D "fv_disk v0", OF assms])


lemma replace_region:
  assumes "vol_geom v" "f < fat_copies v" "k < fv_fat_sectors v"
  shows "copy_sector v f k < fv_root_start v"
proof (cases "fv_mirrored v")
  case True
  then have "Suc f * fv_fat_sectors v \<le> fv_fat_count v * fv_fat_sectors v" using assms(2) by (intro mult_le_mono1) (simp add: fat_copies_def)
  then show ?thesis using True assms by (simp add: copy_sector_def vol_geom_def)
next
  case False
  then show ?thesis using assms by (simp add: copy_sector_def vol_geom_def)
qed


section \<open>Failures\<close>

lemma finish_failed: "fat_finish_write h e x = (e', x') \<Longrightarrow> e' \<noteq> 0 \<Longrightarrow> fv_write_failed (fst x')"
  by (auto simp: fat_finish_write_def split: if_splits prod.splits)

lemma replace_body_failed:
  assumes "replace_body h f d data sz count x = ((e, f'), x')" "e \<noteq> 0"
  shows "fv_write_failed (fst x')"
proof -
  obtain first r where c: "replace_chain h data sz count x = (first, r)" by (metis prod.exhaust)
  obtain e2 x2 where p: "and_then r (publish_entry h (fl_directory_offset f) d first sz) = (e2, x2)" by (metis prod.exhaust)
  obtain e3 x3 where l: "fat_flush_cache h (release_chain (fv_cluster_count (fst x2) + 2) (fl_cluster f) (fst x2), snd x2) = (e3, x3)"
    by (metis prod.exhaust)
  obtain e4 x4 where f2: "fat_finish_write h e2 x2 = (e4, x4)" by (metis prod.exhaust)
  obtain e5 x5 where f3: "fat_finish_write h e3 x3 = (e5, x5)" by (metis prod.exhaust)
  show ?thesis using assms(1)[unfolded replace_body_def c prod.case p l f2 f3] assms(2) finish_failed[OF f2] finish_failed[OF f3]
    by (auto split: if_splits)
qed

lemma prepare_failed: "fv_write_failed (fst x) \<Longrightarrow> fat_prepare_write h x = (K_EROFS, x)"
  by (simp add: fat_prepare_write_def)


section \<open>Examples\<close>

text \<open>
  A prepared FAT16 volume of 4090 one-sector clusters at sector 100 of an NVMe disk. Cluster 2 holds a
  file; the hardware logs the sectors it is told to write.
\<close>

definition ex16_table :: bytes where
  "ex16_table = (\<lambda>_. 0)(0 := 0xf8, 1 := 0xff, 2 := 0xff, 3 := 0xff, 4 := 0xff, 5 := 0xff)"

definition ex16_volume :: fat_volume where
  "ex16_volume = \<lparr>fv_disk = 0, fv_sector = 512, fv_spc = 1, fv_fat_bits = 16, fv_root_entries = 16, fv_root_cluster = 0,
     fv_cluster_count = 4090, fv_start = 100, fv_length = 4200, fv_fat_start = 1, fv_fat_sectors = 16, fv_root_start = 17,
     fv_data_start = 18, fv_source = ''disk0p0'', fv_first_fat = 1, fv_fat_count = 1, fv_fsinfo = 0, fv_backup_boot = 0,
     fv_media = 0xf8, fv_mirrored = True, fv_write_ready = True, fv_write_failed = False, fv_partition_ro = False,
     fv_cache = 4096, fv_used = 8192, fv_dirty = 12288, fv_cache_bytes = ex16_table, fv_used_bits = (\<lambda>_. 0)(0 := 4),
     fv_dirty_bits = (\<lambda>_. 0), fv_cache_pages = 2, fv_used_pages = 1, fv_dirty_pages = 1, fv_free_clusters = 4089, fv_alloc_hint = 2\<rparr>"

definition ex16_fs :: fat_fs where
  "ex16_fs = \<lparr>ff_volumes = (\<lambda>_. ex16_volume), ff_volume_count = 1\<rparr>"

definition log_hw :: "nat list hw" where
  "log_hw = \<lparr>h_read = (\<lambda>_ _ _ l. ((0, \<lambda>_. 0x20), l)), h_write = (\<lambda>_ lba _ _ l. (0, lba # l)), h_flush = (\<lambda>_ l. (0, l)), h_dead = (\<lambda>_ l. l)\<rparr>"

definition ex16_disk :: "nat list store" where
  "ex16_disk = \<lparr>s_disks = (\<lambda>i. (s_disks ex_store i)\<lparr>d_kind := DISK_NVME, d_sectors := 5000\<rparr>), s_disk_count = 1, s_initialized = True,
     s_pmm = ex_pmm, s_hw = []\<rparr>"

lemma ex16_writable: "writable ex16_volume"
  by (simp add: writable_def vol_geom_def ex16_volume_def)

lemma ex16_cached: "fat_cached ex16_volume c = (if c = 0 then 0xfff8 else if c = 1 \<or> c = 2 then 0xffff else 0)"
proof -
  consider "c = 0" | "c = 1" | "c = 2" | "3 \<le> c" by linarith
  then show ?thesis
  proof cases
    case 4
    have "ex16_table k = 0" if "6 \<le> k" for k using that by (simp add: ex16_table_def)
    then have "ex16_table (2 * c) = 0" "ex16_table (2 * c + 1) = 0" using 4 by simp_all
    then show ?thesis using 4 by (simp add: fat_cached_def ex16_volume_def rd16_def)
  qed (simp_all add: fat_cached_def ex16_volume_def ex16_table_def rd16_def)
qed

lemma ex16_hint: "hint_ok ex16_volume"
  by (simp add: hint_ok_def in_volume_def ex16_volume_def)

lemma ex16_free: "free_clusters_of ex16_volume = {3..<4092}"
  by (auto simp: free_clusters_of_def in_volume_iff ex16_cached split: if_splits) (simp_all add: ex16_volume_def)

lemma ex16_count: "fv_free_clusters ex16_volume = card (free_clusters_of ex16_volume)"
  unfolding ex16_free by (simp add: ex16_volume_def)

lemma device_keeps_mono: "S \<subseteq> T \<Longrightarrow> device_keeps h d T I \<Longrightarrow> device_keeps h d S I"
  by (auto simp: device_keeps_def)

lemma log_keeps: "device_keeps log_hw d {k. p k} (list_all p)"
  by (simp add: device_keeps_def log_hw_def)

theorem fat_allocate_sound_witness:
  "fst (fat_allocate ex16_volume) \<noteq> 0 \<and> fv_free_clusters (snd (fat_allocate ex16_volume)) = card (free_clusters_of (snd (fat_allocate ex16_volume)))"
  using fat_allocate_sound[OF ex16_writable ex16_hint ex16_count prod.collapse[symmetric]] by (simp add: ex16_free)




end
