(* ===== verification/FatMountInv.thy ===== *)
theory FatMountInv
  imports FatSafe
begin

text \<open>
  The table of FAT volumes is well formed: every volume a mount adds has a consistent geometry inside
  its partition, and all operations keep that.
\<close>

definition volume_placed :: "'h store \<Rightarrow> fat_volume \<Rightarrow> bool" where
  "volume_placed s v \<longleftrightarrow> vol_geom v \<and> fv_disk v < s_disk_count s \<and> fv_sector v = d_sector_size (s_disks s (fv_disk v)) \<and>
     fv_start v + fv_length v \<le> d_sectors (s_disks s (fv_disk v))"

definition fat_table_ok :: "'h store \<Rightarrow> fat_fs \<Rightarrow> bool" where
  "fat_table_ok s fs \<longleftrightarrow> ff_volume_count fs \<le> MAX_VOLUMES \<and> (\<forall>j < ff_volume_count fs. volume_placed s (ff_volumes fs j))"

lemma geo_geom: "geo v = geo w \<Longrightarrow> vol_geom v \<longleftrightarrow> vol_geom w"
  by (frule geo_fields(2), frule geo_fields(3), frule geo_fields(4), frule geo_fields(5), frule geo_fields(6), frule geo_fields(7),
      frule geo_fields(9), frule geo_fields(10), frule geo_fields(11), frule geo_fields(12), frule geo_fields(13), frule geo_fields(14),
      frule geo_fields(15), frule geo_fields(18)) (simp add: vol_geom_def in_volume_def)

lemma placed_cong:
  assumes "geo v = geo w" "s_disks s' = s_disks s" "s_disk_count s' = s_disk_count s"
  shows "volume_placed s' v \<longleftrightarrow> volume_placed s w"
  using geo_geom[OF assms(1)] geo_fields(1,2,8,9)[OF assms(1)] assms(2,3) by (simp add: volume_placed_def)

lemma bpb_layout:
  assumes "fat_geometry boot sec len = Some v" "0 < sec"
  shows "vol_geom v" "fv_length v \<le> len" "fv_sector v = sec" "fv_length v \<noteq> 0"
proof -
  define b where "b = read_bpb boot"
  have ok: "bpb_ok boot b sec len" "bpb_data b < b_total b" "0 < bpb_clusters b" "bpb_clusters b \<le> 0x0fffffee"
    "bpb_needed b \<le> b_fat_size b * b_bps b" "bpb_root_ok boot b"
    using assms(1) by (auto simp: fat_geometry_def Let_def b_def split: if_splits)
  have v: "v = zero_volume\<lparr>fv_sector := b_bps b, fv_spc := b_spc b, fv_fat_bits := bpb_bits b,
             fv_root_entries := b_root_entries b, fv_root_cluster := (if bpb_bits b = 32 then unat (rd32 boot 44) else 0),
             fv_cluster_count := bpb_clusters b, fv_length := b_total b,
             fv_fat_start := b_reserved b + bpb_active boot b * b_fat_size b, fv_fat_sectors := b_fat_size b,
             fv_root_start := b_reserved b + b_fats b * b_fat_size b, fv_data_start := bpb_data b,
             fv_first_fat := b_reserved b, fv_fat_count := b_fats b, fv_media := boot 21,
             fv_mirrored := (bpb_bits b \<noteq> 32 \<or> rd16 boot 40 AND 0x80 = 0),
             fv_fsinfo := (if bpb_bits b = 32 then unat (rd16 boot 48) else 0),
             fv_backup_boot := (if bpb_bits b = 32 then unat (rd16 boot 50) else 0)\<rparr>"
    using assms(1) by (auto simp: fat_geometry_def Let_def b_def split: if_splits)
  have k: "b_bps b = sec" "0 < b_spc b" "0 < b_reserved b" "0 < b_fats b" "0 < b_fat_size b" "b_total b \<le> len"
    using ok(1) by (auto simp: bpb_ok_def power2_def)
  show "fv_length v \<le> len" "fv_sector v = sec" "fv_length v \<noteq> 0" using v k ok(2) by auto
  have act: "bpb_active boot b < b_fats b"
  proof (cases "bpb_bits b = 32")
    case True
    then show ?thesis using ok(6) by (simp add: bpb_root_ok_def)
  qed (use k in \<open>simp add: bpb_active_def\<close>)
  then have "Suc (bpb_active boot b) * b_fat_size b \<le> b_fats b * b_fat_size b" by (intro mult_le_mono1) simp
  then have f: "b_reserved b + bpb_active boot b * b_fat_size b + b_fat_size b \<le> b_reserved b + b_fats b * b_fat_size b" by simp
  have "bpb_clusters b * b_spc b \<le> b_total b - bpb_data b" by (simp add: bpb_clusters_def div_times_less_eq_dividend)
  then have c: "bpb_data b + bpb_clusters b * b_spc b \<le> b_total b" using ok(2) by linarith
  have bits: "bpb_bits b \<in> {12, 16, 32}" "bpb_bits b = 12 \<longrightarrow> bpb_clusters b < 4085"
    "bpb_bits b = 16 \<longrightarrow> 4085 \<le> bpb_clusters b \<and> bpb_clusters b < 65525" "bpb_bits b = 32 \<longrightarrow> 65525 \<le> bpb_clusters b"
    by (auto simp: bpb_bits_def)
  have root: "bpb_bits b = 32 \<longrightarrow> \<not> (unat (rd32 boot 44) < 2 \<or> unat (rd32 boot 44) - 2 \<ge> bpb_clusters b)"
    using ok(6) by (auto simp: bpb_root_ok_def split: if_splits)
  have d: "b_reserved b + b_fats b * b_fat_size b + (b_root_entries b * 32 + b_bps b - 1) div b_bps b = bpb_data b"
    by (simp add: bpb_data_def)
  have m: "bpb_bits b \<noteq> 32 \<or> rd16 boot 40 AND 0x80 = 0 \<longrightarrow> bpb_active boot b = 0" by (simp add: bpb_active_def)
  have n: "(if bpb_bits b = 12 then ((bpb_clusters b + 2) * 3 + 1) div 2 else (bpb_clusters b + 2) * (bpb_bits b div 8)) \<le> b_fat_size b * b_bps b"
    using ok(5) by (simp only: bpb_needed_def)
  show "vol_geom v" unfolding vol_geom_def in_volume_def v using k assms(2) ok(3,4) bits root f c d m n
    by (cases "bpb_bits b = 12") simp_all
qed

lemma bind_root_frame [simp]: "vf_vol (bind_root cpu n p s) = vf_vol s" "vf_store (bind_root cpu n p s) = vf_store s"
  by (simp_all add: bind_root_def)

lemma add_volume_fs:
  "fst (vf_vol (add_volume cpu v i part s)) = (fst (vf_vol s))\<lparr>ff_volumes := (ff_volumes (fst (vf_vol s)))
     (ff_volume_count (fst (vf_vol s)) := v\<lparr>fv_source := str_copy [] (mount_source i part) 24\<rparr>), ff_volume_count := ff_volume_count (fst (vf_vol s)) + 1\<rparr>"
  "vf_store (add_volume cpu v i part s) = vf_store s"
  by (simp_all add: add_volume_def Let_def set_fat_def)

lemma new_node_frame: "new_node p d s = (r, s') \<Longrightarrow> vf_vol s' = vf_vol s \<and> vf_store s' = vf_store s"
  by (auto simp: new_node_def split: prod.splits)

lemma mount_cases:
  assumes "fat_mount cpu h i start len part s = (e, s')"
  obtains (same) "fst (vf_vol s') = fst (vf_vol s)" "s_disks (vf_store s') = s_disks (vf_store s)"
      "s_disk_count (vf_store s') = s_disk_count (vf_store s)" "e \<noteq> 0"
  | (added) boot v where "e = 0" "fat_geometry boot (d_sector_size (s_disks (vf_store s) i)) len = Some v"
      "ff_volume_count (fst (vf_vol s)) \<noteq> MAX_VOLUMES" "i < s_disk_count (vf_store s)"
      "start + len \<le> d_sectors (s_disks (vf_store s) i)"
      "fst (vf_vol s') = (fst (vf_vol s))\<lparr>ff_volumes := (ff_volumes (fst (vf_vol s)))(ff_volume_count (fst (vf_vol s)) :=
         v\<lparr>fv_disk := i, fv_start := start, fv_source := str_copy [] (mount_source i part) 24\<rparr>),
         ff_volume_count := ff_volume_count (fst (vf_vol s)) + 1\<rparr>"
      "s_disks (vf_store s') = s_disks (vf_store s)" "s_disk_count (vf_store s') = s_disk_count (vf_store s)"
proof -
  let ?d = "s_disks (vf_store s) i" and ?fs = "fst (vf_vol s)"
  obtain e1 boot ds where rd: "k_disk_read h i start 1 4096 (vf_store s) = ((e1, boot), ds)" by (metis prod.exhaust)
  have t: "s_disks ds = s_disks (vf_store s)" "s_disk_count ds = s_disk_count (vf_store s)"
    using disk_read_table[of h i start 1 4096 "vf_store s"] rd by simp_all
  obtain r s1 where nn: "new_node (mount_path i part) True (s\<lparr>vf_store := ds\<rparr>) = (r, s1)" by fastforce
  note n1 = new_node_frame[OF nn]
  define e2 where "e2 = (case r of Inl e \<Rightarrow> e | Inr _ \<Rightarrow> 0)"
  define bad where "bad \<longleftrightarrow> ff_volume_count ?fs = MAX_VOLUMES \<or> length (vf_mounts s) = MAX_VOLUMES \<or>
    i \<ge> s_disk_count (vf_store s) \<or> len = 0 \<or> start \<ge> d_sectors ?d \<or> len > d_sectors ?d - start"
  have m: "fat_mount cpu h i start len part s = (if bad then (K_EINVAL, s) else if e1 \<noteq> 0 then (e1, s\<lparr>vf_store := ds\<rparr>)
      else case fat_geometry boot (d_sector_size ?d) len of None \<Rightarrow> (K_ENOTSUP, s\<lparr>vf_store := ds\<rparr>)
      | Some v \<Rightarrow> if e2 \<noteq> 0 \<and> e2 \<noteq> K_EEXIST then (e2, s1) else (0, add_volume cpu (v\<lparr>fv_disk := i, fv_start := start\<rparr>) i part s1))"
    unfolding fat_mount_def Let_def rd prod.case bad_def[symmetric] nn e2_def ..
  show thesis
  proof (cases "bad \<or> e1 \<noteq> 0 \<or> fat_geometry boot (d_sector_size ?d) len = None \<or> e2 \<noteq> 0 \<and> e2 \<noteq> K_EEXIST")
    case True
    then show thesis using assms m t n1 by (intro same) (auto split: if_splits option.splits)
  next
    case False
    then obtain v where v: "fat_geometry boot (d_sector_size ?d) len = Some v" by auto
    have s': "e = 0" "s' = add_volume cpu (v\<lparr>fv_disk := i, fv_start := start\<rparr>) i part s1"
      using assms m False v by auto
    show thesis
    proof (rule added[OF s'(1) v])
      show "ff_volume_count ?fs \<noteq> MAX_VOLUMES" "i < s_disk_count (vf_store s)" "start + len \<le> d_sectors ?d"
        using False by (auto simp: bad_def)
      show "s_disks (vf_store s') = s_disks (vf_store s)" "s_disk_count (vf_store s') = s_disk_count (vf_store s)"
        using n1 t by (simp_all add: s'(2) add_volume_fs)
      show "fst (vf_vol s') = ?fs\<lparr>ff_volumes := (ff_volumes ?fs)(ff_volume_count ?fs :=
         v\<lparr>fv_disk := i, fv_start := start, fv_source := str_copy [] (mount_source i part) 24\<rparr>),
         ff_volume_count := ff_volume_count ?fs + 1\<rparr>"
        using n1 by (simp add: s'(2) add_volume_fs)
    qed
  qed
qed

lemma geom_updates: "vol_geom (v\<lparr>fv_disk := i, fv_start := k, fv_source := src\<rparr>) = vol_geom v"
  by (simp add: vol_geom_def in_volume_def)

text \<open>
  C20. The table of FAT volumes is always well formed. Whatever the boot sector says, a mount either
  fails and adds nothing or adds a volume whose tables, root directory and clusters lie one after the
  other inside the volume, whose table has an entry for every cluster, whose FAT width fits the number
  of clusters, and which lies inside its disk; storing files and creating directories keep all of this
  for all volumes.
\<close>

theorem fat_table_invariant:
  assumes inv: "store_inv (vf_store s)" and ok: "fat_table_ok (vf_store s) (fst (vf_vol s))"
  shows "(case fat_mount cpu h i start len part s of (e, s') \<Rightarrow> fat_table_ok (vf_store s') (fst (vf_vol s'))) \<and>
    (case fat_store_locked h i path data sz (fst (vf_vol s), vf_store s) of (e, fs', ds) \<Rightarrow> fat_table_ok ds fs') \<and>
    (case fat_create_locked h i path directory out (fst (vf_vol s), vf_store s) of (r, fs', ds) \<Rightarrow> fat_table_ok ds fs')"
proof -
  let ?fs = "fst (vf_vol s)" and ?s = "vf_store s"
  have op: "fat_table_ok (snd y) (fst y)" if q: "disk_table.Q (ff_volumes ?fs i) (s_disks ?s) (s_disk_count ?s) ?fs i y" for y :: "fat_fs \<times> 'a store"
  proof -
    have "volume_placed (snd y) (ff_volumes (fst y) j)" if "j < ff_volume_count ?fs" for j
    proof -
      have "geo (ff_volumes (fst y) j) = geo (ff_volumes ?fs j)" using q by (cases "j = i") (auto simp: disk_table.Q_def)
      from placed_cong[OF this, of "snd y" ?s] show ?thesis using q ok that by (simp add: disk_table.Q_def fat_table_ok_def)
    qed
    then show ?thesis using q ok by (simp add: fat_table_ok_def disk_table.Q_def)
  qed
  have full: "disk_table.full (ff_volumes ?fs i)" by (simp add: disk_table.full_def)
  have q: "disk_table.Q (ff_volumes ?fs i) (s_disks ?s) (s_disk_count ?s) ?fs i (?fs, ?s)" by (simp add: disk_table.Q_def)
  have "fat_table_ok (vf_store s') (fst (vf_vol s'))" if m: "fat_mount cpu h i start len part s = (e, s')" for e s'
    using m
  proof (cases rule: mount_cases)
    case same
    then show ?thesis using ok by (simp add: fat_table_ok_def volume_placed_def)
  next
    case (added boot v)
    have "0 < d_sector_size (s_disks ?s i)" using store_invD[OF inv added(4)] by (simp add: disk_ok_def)
    note b = bpb_layout[OF added(2) this]
    have "ff_volume_count ?fs < MAX_VOLUMES" using ok added(3) by (simp add: fat_table_ok_def)
    moreover have "volume_placed ?s (v\<lparr>fv_disk := i, fv_start := start, fv_source := str_copy [] (mount_source i part) 24\<rparr>)"
      using b added(4,5) by (simp add: volume_placed_def geom_updates)
    ultimately show ?thesis using ok added(6-8) by (auto simp: fat_table_ok_def volume_placed_def less_Suc_eq)
  qed
  then have "fat_table_ok (vf_store (snd (fat_mount cpu h i start len part s))) (fst (vf_vol (snd (fat_mount cpu h i start len part s))))"
    by (metis prod.exhaust snd_conv)
  then show ?thesis
    using op[OF disk_table.store_locked_Q[OF full q, of h path data sz]] op[OF disk_table.create_locked_Q[OF full q, of h path directory out]]
    by (simp add: case_prod_beta)
qed

text \<open>A file system whose only volume is the FAT12 volume of the reading example.\<close>

definition ex_fvfs :: "(unit, unit) fvfs" where
  "ex_fvfs = \<lparr>vf_nodes = (\<lambda>_. zero_node)(0 := zero_node\<lparr>n_used := True, n_directory := True, n_kind := 1\<rparr>), vf_mounts = [], vf_ready = True, vf_roots = [], vf_store = ex_fat_store, vf_vol = (ex_fat_fs, ())\<rparr>"

theorem fat_table_invariant_witness:
  "fat_table_ok (vf_store (snd (fat_mount 0 ex_hw 0 8 20 1 ex_fvfs))) (fst (vf_vol (snd (fat_mount 0 ex_hw 0 8 20 1 ex_fvfs)))) \<and>
   (case fat_store_locked ex_hw 0 ''/a'' (\<lambda>_. 7) 3 (ex_fat_fs, ex_fat_store) of (e, fs', ds) \<Rightarrow> fat_table_ok ds fs')"
proof -
  have f: "vf_store ex_fvfs = ex_fat_store" "vf_vol ex_fvfs = (ex_fat_fs, ())" by (simp_all add: ex_fvfs_def)
  have i: "store_inv (vf_store ex_fvfs)" using ex_fat_good by (simp add: f vol_good_def ram_good_def)
  have "volume_placed ex_fat_store ex_volume" using ex_fat_geom ex_fat_good by (simp add: volume_placed_def vol_good_def ram_good_def)
  then have "fat_table_ok (vf_store ex_fvfs) (fst (vf_vol ex_fvfs))" by (simp add: f fat_table_ok_def ex_fat_fs_def MAX_VOLUMES_def)
  note t = fat_table_invariant[OF i this]
  show ?thesis using t[of 0 ex_hw 0 8 20 1 "''/a''" "\<lambda>_. 7" 3] by (simp add: f case_prod_beta)
qed

end
