(* ===== verification/FatRound.thy ===== *)
theory FatRound
  imports FatSafe
begin

unbundle bit_operations_syntax

text \<open>
  Writing and reading back. On a RAM disk the operations of a prepared FAT volume are followed
  exactly: what each write makes of the bytes of the volume, that flushing brings the table on the
  disk to the cached one, and that a replaced file reads back as the data written.
\<close>

section \<open>Sectors on a RAM disk\<close>

definition sector_put :: "fat_volume \<Rightarrow> nat \<Rightarrow> bytes \<Rightarrow> bytes \<Rightarrow> bytes" where
  "sector_put v k d b = put_bytes b (k * fv_sector v) d 0 (fv_sector v)"

lemma sector_put_apply:
  "sector_put v k d b a = (if k * fv_sector v \<le> a \<and> a < k * fv_sector v + fv_sector v then d (a - k * fv_sector v) else b a)"
  by (simp add: sector_put_def put_bytes_apply)

lemma geo_view: "geo v = geo w \<Longrightarrow> vol_view v s = vol_view w s"
  by (frule geo_fields(1), frule geo_fields(2), frule geo_fields(8)) (simp add: vol_view_def fun_eq_iff)

lemma geo_good: "geo v = geo w \<Longrightarrow> vol_good v s = vol_good w s"
  by (frule geo_fields(1), frule geo_fields(2), frule geo_fields(8), frule geo_fields(9)) (simp add: vol_good_def)

text \<open>A live volume: on a RAM disk, with a table that can be written, and not failed.\<close>

definition live :: "'h vs \<Rightarrow> bool" where
  "live x \<longleftrightarrow> vol_good (fst x) (snd x) \<and> writable (fst x) \<and> \<not> fv_write_failed (fst x)"

definition view :: "'h vs \<Rightarrow> bytes" where
  "view x = vol_view (fst x) (snd x)"

lemma live_D: "live x \<Longrightarrow> vol_good (fst x) (snd x)" "live x \<Longrightarrow> writable (fst x)" "live x \<Longrightarrow> vol_geom (fst x)"
  "live x \<Longrightarrow> \<not> fv_write_failed (fst x)"
  by (simp_all add: live_def writable_def)

lemma live_geo: "live (v, s) \<Longrightarrow> geo w = geo v \<Longrightarrow> fv_write_failed w = fv_write_failed v \<Longrightarrow> live (w, s) \<and> view (w, s) = view (v, s)"
  using geo_good[of w v s] geo_writable[of w v] geo_view[of w v s] by (simp add: live_def view_def)

lemma ram_write_sector:
  assumes "vol_good v s" "k < fv_length v"
  shows "\<exists>s'. disk_write_fs h (fv_disk v) (fv_start v + k) 1 (Some d) (1 * fv_sector v) s = Some (0, s') \<and>
    vol_good v s' \<and> vol_view v s' = sector_put v k d (vol_view v s)"
proof -
  let ?i = "fv_disk v" and ?d = "s_disks s (fv_disk v)" and ?z = "fv_sector v"
  have g: "ram_good ?i s" "?z = d_sector_size ?d" "fv_start v + fv_length v \<le> d_sectors ?d" using assms(1) by (auto simp: vol_good_def)
  have i: "?i < s_disk_count s" "d_kind ?d = DISK_RAM" "d_online ?d" "disk_ok ?d" using g(1) store_invD by (auto simp: ram_good_def)
  have r: "disk_range ?i (fv_start v + k) 1 (1 * ?z) s = 0" using i g assms(2) by (simp add: disk_range_def Let_def)
  let ?s = "ram_store (d_ram ?d + (fv_start v + k) * ?z) d 0 (1 * ?z) s"
  have "disk_write_fs h ?i (fv_start v + k) 1 (Some d) (1 * ?z) s = Some (0, ?s)"
    using r i write_loop_ram[OF i(2,4), of h "fv_start v + k" 1 d 0 s] g(2) by (simp add: disk_write_fs_def Let_def)
  moreover have "vol_good v ?s" using assms(1) by (simp add: vol_good_def ram_good_def store_inv_def ram_store_def)
  moreover have "vol_view v ?s = sector_put v k d (vol_view v s)"
    by (rule ext) (auto simp: vol_view_def ram_store_def sector_put_apply put_bytes_apply add_mult_distrib)
  ultimately show ?thesis by blast
qed

lemma live_write:
  assumes "live (v, s)" "k < fv_length v"
  shows "\<exists>s'. volume_write h k 1 d (v, s) = (0, v, s') \<and> live (v, s') \<and> view (v, s') = sector_put v k d (view (v, s))"
proof -
  obtain s' where w: "disk_write_fs h (fv_disk v) (fv_start v + k) 1 (Some d) (1 * fv_sector v) s = Some (0, s')"
    and g: "vol_good v s'" "vol_view v s' = sector_put v k d (vol_view v s)"
    using ram_write_sector[of v s k h d] assms by (auto simp: live_def)
  have "volume_write h k 1 d (v, s) = (0, v, s')" using assms w by (simp add: volume_write_def live_def)
  then show ?thesis using g assms(1) by (auto simp: live_def view_def)
qed

lemma live_flush: "live x \<Longrightarrow> volume_flush h x = (0, x)"
proof -
  assume "live x"
  then have "ram_good (fv_disk (fst x)) (snd x)" by (simp add: live_def vol_good_def)
  then have "disk_flush h (fv_disk (fst x)) (snd x) = (0, snd x)" by (simp add: disk_flush_def ram_good_def)
  then show ?thesis by (simp add: volume_flush_def)
qed

lemma live_bytes:
  assumes "live (v, s)" "off + n \<le> fv_length v * fv_sector v"
  shows "volume_bytes h v off out n s = ((0, \<lambda>a. if a < n then view (v, s) (off + a) else out a), s)"
  using volume_bytes_ram[of v s off n h out] assms by (simp add: live_def view_def cong: if_cong)

section \<open>Flushing the table\<close>

text \<open>Copy \<open>f\<close> of sector \<open>k\<close> of the table agrees with the cache.\<close>

definition agrees :: "fat_volume \<Rightarrow> bytes \<Rightarrow> nat \<Rightarrow> nat \<Rightarrow> bool" where
  "agrees v b f k \<longleftrightarrow> (\<forall>j < fv_sector v. b (copy_sector v f k * fv_sector v + j) = fv_cache_bytes v (k * fv_sector v + j))"

definition synced :: "fat_volume \<Rightarrow> bytes \<Rightarrow> bool" where
  "synced v b \<longleftrightarrow> (\<forall>k < fv_fat_sectors v. \<not> bit_get (fv_dirty_bits v) k \<longrightarrow> (\<forall>f < fat_copies v. agrees v b f k))"

definition all_clean :: "fat_volume \<Rightarrow> bool" where
  "all_clean v \<longleftrightarrow> (\<forall>k < fv_fat_sectors v. \<not> bit_get (fv_dirty_bits v) k)"

text \<open>The bytes from the root directory on.\<close>

definition upper_same :: "fat_volume \<Rightarrow> bytes \<Rightarrow> bytes \<Rightarrow> bool" where
  "upper_same v b b' \<longleftrightarrow> (\<forall>a \<ge> fv_root_start v * fv_sector v. b' a = b a)"

lemma upper_trans: "upper_same v a b \<Longrightarrow> upper_same v b c \<Longrightarrow> upper_same v a c"
  by (simp add: upper_same_def)

lemma copy_inj:
  assumes "k < fv_fat_sectors v" "k' < fv_fat_sectors v" "f < fat_copies v" "f' < fat_copies v" "copy_sector v f k = copy_sector v f' k'"
  shows "f = f' \<and> k = k'"
proof (cases "fv_mirrored v")
  case True
  have "f * fv_fat_sectors v + k = f' * fv_fat_sectors v + k'" using assms(5) True by (simp add: copy_sector_def)
  then have "(f * fv_fat_sectors v + k) div fv_fat_sectors v = (f' * fv_fat_sectors v + k') div fv_fat_sectors v" by simp
  then have "f = f'" using assms(1,2) by simp
  then show ?thesis using assms(5) True by (simp add: copy_sector_def)
next
  case False
  then show ?thesis using assms by (simp add: copy_sector_def fat_copies_def)
qed

lemma sector_disjoint:
  assumes "k \<noteq> (k'::nat)" "j < z"
  shows "\<not> (k' * z \<le> k * z + j \<and> k * z + j < k' * z + z)"
proof
  assume "k' * z \<le> k * z + j \<and> k * z + j < k' * z + z"
  then have "(k * z + j) div z = k'" using assms(2) by (metis div_nat_eqI mult.commute mult_Suc_right add.commute)
  then show False using assms by simp
qed

lemma agrees_write:
  assumes "k < fv_fat_sectors v" "k' < fv_fat_sectors v" "f < fat_copies v" "f' < fat_copies v" "agrees v b f' k' \<or> (f = f' \<and> k = k')"
  shows "agrees v (sector_put v (copy_sector v f k) (\<lambda>j. fv_cache_bytes v (k * fv_sector v + j)) b) f' k'"
proof (cases "f = f' \<and> k = k'")
  case True
  then show ?thesis by (simp add: agrees_def sector_put_apply)
next
  case False
  then have "copy_sector v f' k' \<noteq> copy_sector v f k" using copy_inj[OF assms(1-4)] by metis
  then show ?thesis using assms(5) False sector_disjoint[of "copy_sector v f' k'" "copy_sector v f k"]
    by (auto simp: agrees_def sector_put_apply)
qed

lemma upper_write:
  assumes "vol_geom v" "f < fat_copies v" "k < fv_fat_sectors v"
  shows "upper_same v b (sector_put v (copy_sector v f k) d b)" "copy_sector v f k < fv_length v"
proof -
  have c: "Suc (copy_sector v f k) \<le> fv_root_start v" using replace_region[OF assms] by simp
  have "Suc (copy_sector v f k) * fv_sector v \<le> fv_root_start v * fv_sector v" using c by (rule mult_le_mono1)
  then show "upper_same v b (sector_put v (copy_sector v f k) d b)" by (auto simp: upper_same_def sector_put_apply)
  show "copy_sector v f k < fv_length v" using c assms(1) by (auto simp: vol_geom_def)
qed

lemma flush_copies_live:
  assumes "live (v, s)" "k < fv_fat_sectors v" "set fs \<subseteq> {..<fat_copies v}"
  shows "\<exists>s'. flush_copies h k fs (v, s) = (0, v, s') \<and> live (v, s') \<and> upper_same v (view (v, s)) (view (v, s')) \<and>
    (\<forall>f\<in>set fs. agrees v (view (v, s')) f k) \<and>
    (\<forall>f < fat_copies v. \<forall>k' < fv_fat_sectors v. agrees v (view (v, s)) f k' \<longrightarrow> agrees v (view (v, s')) f k')"
  using assms(1,3)
proof (induction fs arbitrary: s)
  case Nil
  then show ?case by (auto simp: upper_same_def)
next
  case (Cons f fs)
  let ?d = "\<lambda>j. fv_cache_bytes v (k * fv_sector v + j)"
  have f: "f < fat_copies v" using Cons.prems(2) by simp
  note g = live_D(3)[OF Cons.prems(1), simplified]
  obtain s1 where w: "volume_write h (copy_sector v f k) 1 ?d (v, s) = (0, v, s1)" "live (v, s1)"
    "view (v, s1) = sector_put v (copy_sector v f k) ?d (view (v, s))"
    using live_write[OF Cons.prems(1) upper_write(2)[OF g f assms(2)]] by blast
  obtain s2 where r: "flush_copies h k fs (v, s1) = (0, v, s2)" "live (v, s2)" "upper_same v (view (v, s1)) (view (v, s2))"
    "\<forall>f\<in>set fs. agrees v (view (v, s2)) f k"
    "\<forall>f < fat_copies v. \<forall>k' < fv_fat_sectors v. agrees v (view (v, s1)) f k' \<longrightarrow> agrees v (view (v, s2)) f k'"
    using Cons.IH[OF w(2)] Cons.prems(2) by auto
  have a1: "agrees v (view (v, s1)) f k" unfolding w(3) using agrees_write[OF assms(2,2) f f] by simp
  have a2: "agrees v (view (v, s1)) f' k'" if "f' < fat_copies v" "k' < fv_fat_sectors v" "agrees v (view (v, s)) f' k'" for f' k'
    unfolding w(3) using agrees_write[OF assms(2) that(2) f that(1)] that(3) by simp
  have "upper_same v (view (v, s)) (view (v, s2))"
    using upper_write(1)[OF g f assms(2), of "view (v, s)" ?d] r(3) by (simp add: w(3) upper_same_def)
  then show ?case using w(1) r a1 a2 f assms(2) by (auto simp: and_then_def)
qed

lemma dirty_update [simp]:
  "live (v\<lparr>fv_dirty_bits := t\<rparr>, s) = live (v, s)" "view (v\<lparr>fv_dirty_bits := t\<rparr>, s) = view (v, s)"
  "agrees (v\<lparr>fv_dirty_bits := t\<rparr>) b f k = agrees v b f k" "fat_copies (v\<lparr>fv_dirty_bits := t\<rparr>) = fat_copies v"
  "upper_same (v\<lparr>fv_dirty_bits := t\<rparr>) b b' = upper_same v b b'"
  using geo_good[of "v\<lparr>fv_dirty_bits := t\<rparr>" v s] geo_writable[of "v\<lparr>fv_dirty_bits := t\<rparr>" v] geo_view[of "v\<lparr>fv_dirty_bits := t\<rparr>" v s]
  by (simp_all add: live_def view_def agrees_def copy_sector_def fat_copies_def upper_same_def)

lemma set_upto: "set [0..<n] \<subseteq> {..<n}"
  by auto

lemma flush_sectors_live:
  assumes "live (v, s)" "set ks \<subseteq> {..<fv_fat_sectors v}" "synced v (view (v, s))"
  shows "\<exists>t s'. flush_sectors h ks (v, s) = (0, v\<lparr>fv_dirty_bits := t\<rparr>, s') \<and> live (v, s') \<and>
    upper_same v (view (v, s)) (view (v, s')) \<and> synced (v\<lparr>fv_dirty_bits := t\<rparr>) (view (v, s')) \<and>
    (\<forall>k. bit_get t k \<longleftrightarrow> bit_get (fv_dirty_bits v) k \<and> k \<notin> set ks)"
  using assms
proof (induction ks arbitrary: v s)
  case Nil
  then show ?case by (intro exI[of _ "fv_dirty_bits v"] exI[of _ s]) (simp add: upper_same_def)
next
  case (Cons k ks)
  show ?case
  proof (cases "bit_get (fv_dirty_bits v) k")
    case False
    then show ?thesis using Cons.IH[of v s] Cons.prems by auto
  next
    case True
    have k: "k < fv_fat_sectors v" using Cons.prems(2) by simp
    let ?w = "v\<lparr>fv_dirty_bits := bit_clear (fv_dirty_bits v) k\<rparr>"
    obtain s1 where c: "flush_copies h k [0..<fat_copies v] (v, s) = (0, v, s1)" "live (v, s1)" "upper_same v (view (v, s)) (view (v, s1))"
      "\<forall>f\<in>set [0..<fat_copies v]. agrees v (view (v, s1)) f k"
      "\<forall>f < fat_copies v. \<forall>k' < fv_fat_sectors v. agrees v (view (v, s)) f k' \<longrightarrow> agrees v (view (v, s1)) f k'"
      using flush_copies_live[OF Cons.prems(1) k set_upto, of h] by blast
    have "synced ?w (view (?w, s1))" using Cons.prems(3) c(4,5) by (auto simp: synced_def)
    then obtain t s2 where r: "flush_sectors h ks (?w, s1) = (0, ?w\<lparr>fv_dirty_bits := t\<rparr>, s2)" "live (?w, s2)"
      "upper_same ?w (view (?w, s1)) (view (?w, s2))" "synced (?w\<lparr>fv_dirty_bits := t\<rparr>) (view (?w, s2))"
      "\<forall>j. bit_get t j \<longleftrightarrow> bit_get (fv_dirty_bits ?w) j \<and> j \<notin> set ks"
      using Cons.IH[of ?w s1] Cons.prems(2) c(2) by auto
    have "upper_same v (view (v, s)) (view (v, s2))" using c(3) r(3) by (simp add: upper_same_def)
    then show ?thesis using True c(1) r by (intro exI[of _ t] exI[of _ s2]) (auto simp: and_then_def)
  qed
qed

text \<open>Flushing: nothing is dirty, all copies of the table agree with the cache, the rest of the volume is as it was.\<close>

lemma flush_cache_live:
  assumes "live (v, s)" "synced v (view (v, s))"
  shows "\<exists>t s'. fat_flush_cache h (v, s) = (0, v\<lparr>fv_dirty_bits := t\<rparr>, s') \<and> live (v\<lparr>fv_dirty_bits := t\<rparr>, s') \<and>
    upper_same v (view (v, s)) (view (v, s')) \<and> synced (v\<lparr>fv_dirty_bits := t\<rparr>) (view (v, s')) \<and> all_clean (v\<lparr>fv_dirty_bits := t\<rparr>)"
proof -
  obtain t s' where r: "flush_sectors h [0..<fv_fat_sectors v] (v, s) = (0, v\<lparr>fv_dirty_bits := t\<rparr>, s')" "live (v, s')"
    "upper_same v (view (v, s)) (view (v, s'))" "synced (v\<lparr>fv_dirty_bits := t\<rparr>) (view (v, s'))"
    "\<forall>k. bit_get t k \<longleftrightarrow> bit_get (fv_dirty_bits v) k \<and> k \<notin> set [0..<fv_fat_sectors v]"
    using flush_sectors_live[OF assms(1) set_upto assms(2), of h] by blast
  have "live (v\<lparr>fv_dirty_bits := t\<rparr>, s')" using r(2) by simp
  from live_flush[OF this] show ?thesis
    using r by (intro exI[of _ t] exI[of _ s']) (simp add: fat_flush_cache_def and_then_def all_clean_def)
qed

text \<open>Changing an entry marks its sector dirty, so that the table stays in step.\<close>

lemma good_sector: "vol_good v s \<Longrightarrow> 32 dvd fv_sector v"
proof -
  assume g: "vol_good v s"
  let ?z = "d_sector_size (s_disks s (fv_disk v))"
  have "disk_ok (s_disks s (fv_disk v))" using g store_invD by (auto simp: vol_good_def ram_good_def)
  then obtain k where k: "?z = 2 ^ k" "512 \<le> ?z" by (auto simp: disk_ok_def power2_iff)
  have "5 \<le> k"
  proof (rule ccontr)
    assume "\<not> 5 \<le> k"
    then have "(2::nat) ^ k \<le> 2 ^ 5" by (intro power_increasing) auto
    then show False using k by simp
  qed
  then have "(2::nat) ^ 5 dvd 2 ^ k" by (rule le_imp_power_dvd)
  then show ?thesis using g k by (simp add: vol_good_def)
qed

lemma block_sector:
  assumes "w dvd off" "w dvd z" "0 < w" "off \<le> a" "a < off + (w::nat)"
  shows "a div z = off div z"
proof -
  obtain q where q: "off = w * q" using assms(1) by (auto elim: dvdE)
  obtain m where m: "z = w * m" using assms(2) by (auto elim: dvdE)
  have "a div w = q" using assms(3-5) q by (intro div_nat_eqI) (simp_all add: mult.commute add.commute)
  then show ?thesis using q assms(3) by (simp add: m div_mult2_eq)
qed

lemma table_set_other:
  assumes "writable v" "32 dvd fv_sector v" "k \<noteq> c * (fv_fat_bits v div 8) div fv_sector v" "j < fv_sector v"
  shows "table_set v (c * (fv_fat_bits v div 8)) x (k * fv_sector v + j) = fv_cache_bytes v (k * fv_sector v + j)"
proof -
  let ?a = "k * fv_sector v + j" and ?w = "fv_fat_bits v div 8"
  have a: "?a div fv_sector v = k" using assms(4) by simp
  have "(4::nat) dvd 32" "(2::nat) dvd 32" by simp_all
  then have z: "4 dvd fv_sector v" "2 dvd fv_sector v" using assms(2) dvd_trans by blast+
  from writable_bits[OF assms(1)] show ?thesis
  proof
    assume b: "fv_fat_bits v = 16"
    have "\<not> (c * 2 \<le> ?a \<and> ?a < c * 2 + 2)" using block_sector[of 2 "c * 2" "fv_sector v" ?a] z a assms(3) b by auto
    then show ?thesis using b by (auto simp: table_set_def Let_def)
  next
    assume b: "fv_fat_bits v = 32"
    have "\<not> (c * 4 \<le> ?a \<and> ?a < c * 4 + 4)" using block_sector[of 4 "c * 4" "fv_sector v" ?a] z a assms(3) b by auto
    then show ?thesis using b by (auto simp: table_set_def Let_def wr32_apply)
  qed
qed

lemma cache_set_synced:
  assumes "writable v" "32 dvd fv_sector v" "synced v b"
  shows "synced (fat_cache_set v c x) b"
proof -
  let ?w = "fat_cache_set v c x" and ?s = "c * (fv_fat_bits v div 8) div fv_sector v"
  have f: "fv_fat_sectors ?w = fv_fat_sectors v" "fat_copies ?w = fat_copies v" "fv_sector ?w = fv_sector v"
    "copy_sector ?w = copy_sector v" "fv_cache_bytes ?w = table_set v (c * (fv_fat_bits v div 8)) x"
    "fv_dirty_bits ?w = bit_set (fv_dirty_bits v) ?s"
    by (auto simp: fat_cache_set_def Let_def fat_copies_def copy_sector_def fun_eq_iff)
  have "agrees ?w b g k" if "k < fv_fat_sectors v" "\<not> bit_get (fv_dirty_bits ?w) k" "g < fat_copies v" for g k
  proof -
    have "k \<noteq> ?s" "agrees v b g k" using that assms(3) by (auto simp: synced_def f)
    then show ?thesis using table_set_other[OF assms(1,2), of k c] by (simp add: agrees_def f)
  qed
  then show ?thesis by (simp add: synced_def f)
qed

lemma cache_set_live: "live (v, s) \<Longrightarrow> live (fat_cache_set v c x, s) \<and> view (fat_cache_set v c x, s) = view (v, s)"
  by (rule live_geo) (simp_all add: fat_cache_set_def Let_def)

section \<open>The table on the disk\<close>

definition link_of :: "fat_volume \<Rightarrow> nat \<Rightarrow> int + nat" where
  "link_of v n = (if n \<ge> fat_end v then Inr NO_CLUSTER else if \<not> in_volume v n \<or> n = fat_end v - 1 then Inl K_EIO else Inr n)"

lemma synced_byte:
  assumes "vol_geom v" "synced v b" "all_clean v" "a < fv_fat_sectors v * fv_sector v"
  shows "b (fv_fat_start v * fv_sector v + a) = fv_cache_bytes v a"
proof -
  let ?z = "fv_sector v" and ?k = "a div fv_sector v"
  have k: "?k < fv_fat_sectors v" "a mod ?z < ?z" using assms(1,4) by (auto simp: less_mult_imp_div_less vol_geom_def)
  have c: "copy_sector v 0 ?k = fv_fat_start v + ?k" "0 < fat_copies v"
    using assms(1) by (auto simp: copy_sector_def fat_copies_def vol_geom_def)
  then have "agrees v b 0 ?k" using assms(2,3) k(1) by (auto simp: synced_def all_clean_def)
  then have "b ((fv_fat_start v + ?k) * ?z + a mod ?z) = fv_cache_bytes v (?k * ?z + a mod ?z)"
    using k(2) unfolding agrees_def c(1) by blast
  moreover have "(fv_fat_start v + ?k) * ?z + a mod ?z = fv_fat_start v * ?z + a" "?k * ?z + a mod ?z = a"
    by (simp_all add: add_mult_distrib)
  ultimately show ?thesis by simp
qed

lemma vol_next_cached:
  assumes "writable v" "synced v b" "all_clean v" "in_volume v c"
  shows "vol_next v b c = link_of v (fat_cached v c)"
proof -
  have g: "vol_geom v" using assms(1) by (simp add: writable_def)
  have e: "fat_entry_offset v c + fat_entry_bytes v \<le> fv_fat_sectors v * fv_sector v" using entry_inside[OF g assms(4)] .
  have raw: "b (fv_fat_start v * fv_sector v + fat_entry_offset v c + j) = fv_cache_bytes v (fat_entry_offset v c + j)"
    if "j < fat_entry_bytes v" for j
    using synced_byte[OF g assms(2,3), of "fat_entry_offset v c + j"] that e by (simp add: add.assoc)
  have l: "fat_link v c (\<lambda>j. b (fv_fat_start v * fv_sector v + fat_entry_offset v c + j)) =
      fat_link v c (\<lambda>j. fv_cache_bytes v (fat_entry_offset v c + j))"
    by (rule fat_link_cong) (rule raw)
  from writable_bits[OF assms(1)] have "fat_link v c (\<lambda>j. fv_cache_bytes v (fat_entry_offset v c + j)) = link_of v (fat_cached v c)"
  proof
    assume bt: "fv_fat_bits v = 16"
    have "rd16 (\<lambda>j. fv_cache_bytes v (fat_entry_offset v c + j)) 0 = rd16 (fv_cache_bytes v) (2 * c)"
      by (rule rd_cong) (simp add: fat_entry_offset_def bt mult.commute)
    then show ?thesis using bt by (simp add: fat_link_def link_of_def fat_cached_def)
  next
    assume bt: "fv_fat_bits v = 32"
    have "rd32 (\<lambda>j. fv_cache_bytes v (fat_entry_offset v c + j)) 0 = rd32 (fv_cache_bytes v) (4 * c)"
      by (rule rd_cong) (simp add: fat_entry_offset_def bt mult.commute)
    then show ?thesis using bt by (simp add: fat_link_def link_of_def fat_cached_def)
  qed
  then show ?thesis using assms(4) l by (simp add: vol_next_def)
qed

section \<open>Writes outside the table\<close>

definition ready :: "'h vs \<Rightarrow> bool" where
  "ready x \<longleftrightarrow> live x \<and> synced (fst x) (view x)"

lemma ready_D: "ready x \<Longrightarrow> live x" "ready x \<Longrightarrow> synced (fst x) (view x)"
  by (simp_all add: ready_def)

lemma synced_put:
  assumes "vol_geom v" "k < fv_first_fat v \<or> fv_root_start v \<le> k" "synced v b"
  shows "synced v (sector_put v k d b)"
proof -
  have "copy_sector v f j \<noteq> k" if "f < fat_copies v" "j < fv_fat_sectors v" for f j
  proof -
    have "fv_first_fat v \<le> copy_sector v f j" using assms(1) by (auto simp: copy_sector_def vol_geom_def)
    then show ?thesis using replace_region[OF assms(1) that] assms(2) by auto
  qed
  then show ?thesis using assms(3) sector_disjoint[of _ k]
    by (auto simp: synced_def agrees_def sector_put_apply)
qed

lemma synced_cong:
  assumes "geo w = geo v" "fv_cache_bytes w = fv_cache_bytes v" "fv_dirty_bits w = fv_dirty_bits v"
  shows "synced w b = synced v b"
  using geo_fields(2,10,11,14,15,18)[OF assms(1)] assms(2,3) by (simp add: synced_def agrees_def copy_sector_def fat_copies_def)

lemma ready_write:
  assumes "ready (v, s)" "k < fv_length v" "k < fv_first_fat v \<or> fv_root_start v \<le> k"
  shows "\<exists>s'. volume_write h k 1 d (v, s) = (0, v, s') \<and> ready (v, s') \<and> view (v, s') = sector_put v k d (view (v, s))"
proof -
  have l: "live (v, s)" "synced v (view (v, s))" using assms(1) by (simp_all add: ready_def)
  have g: "vol_geom v" using live_D(3)[OF l(1)] by simp
  from live_write[OF l(1) assms(2), of h d] show ?thesis
    using synced_put[OF g assms(3) l(2), of d] by (auto simp: ready_def)
qed

lemma ready_cache_set: "ready (v, s) \<Longrightarrow> ready (fat_cache_set v c x, s) \<and> view (fat_cache_set v c x, s) = view (v, s)"
  using cache_set_live[of v s c x] cache_set_synced[of v "view (v, s)" c x] good_sector[of v s]
  by (auto simp: ready_def live_def)

lemma ready_flush_cache:
  assumes "ready (v, s)"
  shows "\<exists>t s'. fat_flush_cache h (v, s) = (0, v\<lparr>fv_dirty_bits := t\<rparr>, s') \<and> ready (v\<lparr>fv_dirty_bits := t\<rparr>, s') \<and>
    upper_same v (view (v, s)) (view (v\<lparr>fv_dirty_bits := t\<rparr>, s')) \<and> all_clean (v\<lparr>fv_dirty_bits := t\<rparr>)"
  using flush_cache_live[of v s h] assms by (simp add: ready_def) blast

lemma fsinfo_ready:
  "ready (v, s) \<Longrightarrow> \<exists>s'. fsinfo_loop h ks (v, s) = (0, v, s') \<and> ready (v, s') \<and> upper_same v (view (v, s)) (view (v, s'))"
proof (induction ks arbitrary: s)
  case Nil
  then show ?case by (auto simp: upper_same_def)
next
  case (Cons k ks)
  have l: "live (v, s)" and g: "vol_geom v" using Cons.prems live_D(3) by (auto simp: ready_def)
  show ?case
  proof (cases "k \<ge> fv_first_fat v")
    case True
    then show ?thesis using Cons by simp
  next
    case False
    then have k: "k < fv_length v" "k < fv_root_start v" using g by (auto simp: vol_geom_def)
    have "Suc k * fv_sector v \<le> fv_length v * fv_sector v" using k by (intro mult_le_mono1) simp
    then have i: "k * fv_sector v + fv_sector v \<le> fv_length v * fv_sector v" by simp
    define b where "b = (\<lambda>a. if a < fv_sector v then view (v, s) (k * fv_sector v + a) else 0)"
    have r: "volume_bytes h v (k * fv_sector v) (\<lambda>_. 0) (fv_sector v) s = ((0, b), s)"
      unfolding b_def by (rule live_bytes[OF l i])
    obtain s1 where w: "volume_write h k 1 (wr32 (wr32 b 488 0xffffffff) 492 0xffffffff) (v, s) = (0, v, s1)" "ready (v, s1)"
      "view (v, s1) = sector_put v k (wr32 (wr32 b 488 0xffffffff) 492 0xffffffff) (view (v, s))"
      using ready_write[OF Cons.prems k(1)] False by fastforce
    have "Suc k * fv_sector v \<le> fv_root_start v * fv_sector v" using k by (intro mult_le_mono1) simp
    then have u: "upper_same v (view (v, s)) (view (v, s1))" by (auto simp: w(3) upper_same_def sector_put_apply)
    show ?thesis using Cons.IH[OF Cons.prems] Cons.IH[OF w(2)] False r w(1) u by (auto simp: and_then_def upper_same_def)
  qed
qed

lemma set_dirty_failed [simp]: "fv_write_failed (set_dirty v) = fv_write_failed v" "fv_write_failed (set_clean v) = fv_write_failed v"
  by (simp_all add: set_dirty_def set_clean_def fat_cache_set_def Let_def)

lemma begin_write_ready:
  assumes "ready (v, s)"
  shows "\<exists>t s'. fat_begin_write h (v, s) = (0, (set_dirty v)\<lparr>fv_dirty_bits := t\<rparr>, s') \<and> ready ((set_dirty v)\<lparr>fv_dirty_bits := t\<rparr>, s') \<and>
    upper_same v (view (v, s)) (view ((set_dirty v)\<lparr>fv_dirty_bits := t\<rparr>, s'))"
proof -
  have d: "ready (set_dirty v, s)" "view (set_dirty v, s) = view (v, s)" using ready_cache_set[OF assms] by (simp_all add: set_dirty_def)
  have up: "upper_same (set_dirty v) = upper_same v" by (simp add: upper_same_def set_dirty_def fat_cache_set_def Let_def fun_eq_iff)
  obtain t s1 where f: "fat_flush_cache h (set_dirty v, s) = (0, (set_dirty v)\<lparr>fv_dirty_bits := t\<rparr>, s1)"
    "ready ((set_dirty v)\<lparr>fv_dirty_bits := t\<rparr>, s1)" "upper_same v (view (v, s)) (view ((set_dirty v)\<lparr>fv_dirty_bits := t\<rparr>, s1))"
    using ready_flush_cache[OF d(1), of h] unfolding up d(2) by blast
  let ?w = "(set_dirty v)\<lparr>fv_dirty_bits := t\<rparr>"
  obtain s2 where i: "fsinfo_loop h (fsinfo_sectors ?w) (?w, s1) = (0, ?w, s2)" "ready (?w, s2)" "upper_same ?w (view (?w, s1)) (view (?w, s2))"
    using fsinfo_ready[OF f(2)] by blast
  have "upper_same v (view (?w, s1)) (view (?w, s2))" using i(3) up by simp
  with f(3) have u: "upper_same v (view (v, s)) (view (?w, s2))" by (rule upper_trans)
  have "fat_begin_write h (v, s) = (0, ?w, s2)"
    using f(1) i(1) live_flush[OF ready_D(1)[OF i(2)]] by (simp add: fat_begin_write_def and_then_def)
  then show ?thesis using i(2) u by blast
qed

lemma write_data_loop_ready:
  assumes "ready (v, s)" "fv_root_start v \<le> k" "k + n \<le> fv_length v"
  shows "\<exists>s'. write_data_loop h [k..<k + n] data off sz (v, s) = (0, v, s') \<and> ready (v, s') \<and>
    view (v, s') = (\<lambda>a. if k * fv_sector v \<le> a \<and> a < (k + n) * fv_sector v
      then if a - k * fv_sector v < sz then data (off + (a - k * fv_sector v)) else 0 else view (v, s) a)"
  using assms
proof (induction n arbitrary: k off sz s)
  case 0
  have "(\<lambda>a. if k * fv_sector v \<le> a \<and> a < (k + 0) * fv_sector v
      then if a - k * fv_sector v < sz then data (off + (a - k * fv_sector v)) else 0 else view (v, s) a) = view (v, s)" by (auto simp: fun_eq_iff)
  then show ?case using 0 by (intro exI[of _ s]) simp
next
  case (Suc n)
  let ?z = "fv_sector v" and ?m = "min sz (fv_sector v)"
  obtain s1 where w: "volume_write h k 1 (put_bytes (\<lambda>_. 0) 0 data off ?m) (v, s) = (0, v, s1)" "ready (v, s1)"
    "view (v, s1) = sector_put v k (put_bytes (\<lambda>_. 0) 0 data off ?m) (view (v, s))"
    using ready_write[OF Suc.prems(1), of k h "put_bytes (\<lambda>_. 0) 0 data off ?m"] Suc.prems(2,3) by auto
  obtain s2 where r: "write_data_loop h [Suc k..<Suc k + n] data (off + ?m) (sz - ?m) (v, s1) = (0, v, s2)" "ready (v, s2)"
    "view (v, s2) = (\<lambda>a. if Suc k * ?z \<le> a \<and> a < (Suc k + n) * ?z
      then if a - Suc k * ?z < sz - ?m then data (off + ?m + (a - Suc k * ?z)) else 0 else view (v, s1) a)"
    using Suc.IH[OF w(2), of "Suc k" "off + ?m" "sz - ?m"] Suc.prems(2,3) by auto
  have "view (v, s2) a = (if k * ?z \<le> a \<and> a < (k + Suc n) * ?z
      then if a - k * ?z < sz then data (off + (a - k * ?z)) else 0 else view (v, s) a)" for a
    unfolding r(3) w(3) sector_put_apply put_bytes_apply by (auto simp: min_def add.assoc add_mult_distrib)
  moreover have "[k..<k + Suc n] = k # [Suc k..<Suc k + n]" by (simp add: upt_conv_Cons)
  ultimately show ?case using w(1) r(1,2) by (intro exI[of _ s2]) (simp add: Let_def and_then_def fun_eq_iff)
qed

lemma write_data_ready:
  assumes "ready (v, s)" "in_volume v c"
  shows "\<exists>s'. fat_write_data h c data sz (v, s) = (0, v, s') \<and> ready (v, s') \<and>
    view (v, s') = (\<lambda>a. if cluster_start v c * fv_sector v \<le> a \<and> a < (cluster_start v c + fv_spc v) * fv_sector v
      then if a - cluster_start v c * fv_sector v < sz then data (a - cluster_start v c * fv_sector v) else 0 else view (v, s) a)"
proof -
  have g: "vol_geom v" using assms(1) live_D(3) by (auto simp: ready_def)
  have "fv_root_start v \<le> cluster_start v c" "cluster_start v c + fv_spc v \<le> fv_length v"
    using cluster_inside[OF g assms(2)] g by (auto simp: vol_geom_def)
  from write_data_loop_ready[OF assms(1) this, of h data 0 sz] show ?thesis unfolding add_0 by (simp only: fat_write_data_def fst_conv)
qed

section \<open>The new chain\<close>

definition in_cluster :: "fat_volume \<Rightarrow> nat \<Rightarrow> nat \<Rightarrow> bool" where
  "in_cluster v c a \<longleftrightarrow> cluster_start v c * fv_sector v \<le> a \<and> a < (cluster_start v c + fv_spc v) * fv_sector v"

lemma in_cluster_pos: "j < cluster_size v \<Longrightarrow> in_cluster v c (cluster_start v c * fv_sector v + j)"
  by (simp add: in_cluster_def add_mult_distrib)

lemma cluster_distinct:
  assumes "in_volume v c" "in_volume v c'" "in_cluster v c a" "in_cluster v c' a"
  shows "c = c'"
proof -
  let ?w = "cluster_size v"
  have "(a - fv_data_start v * fv_sector v) div ?w = x - 2 \<and> fv_data_start v * fv_sector v \<le> a" if "in_cluster v x a" for x
  proof -
    have b: "fv_data_start v * fv_sector v + (x - 2) * ?w \<le> a" "a < fv_data_start v * fv_sector v + (x - 2) * ?w + ?w"
      using that by (auto simp: in_cluster_def cluster_start_def add_mult_distrib mult.assoc)
    then have "(x - 2) * ?w \<le> a - fv_data_start v * fv_sector v" "a - fv_data_start v * fv_sector v < Suc (x - 2) * ?w" by auto
    then show ?thesis using b(1) div_nat_eqI[of ?w "x - 2" "a - fv_data_start v * fv_sector v"] by (simp add: mult.commute)
  qed
  from this[OF assms(3)] this[OF assms(4)] have "c - 2 = c' - 2" by simp
  then show ?thesis using assms(1,2) by (auto simp: in_volume_iff)
qed

text \<open>
  From table and bytes \<open>v, b\<close> to \<open>v', b'\<close> the free clusters \<open>cs\<close> have become a chain behind \<open>prev\<close> that
  holds the bytes of \<open>data\<close> from \<open>off\<close> to \<open>sz\<close>; nothing else has changed.
\<close>

definition filled :: "fat_volume \<Rightarrow> bytes \<Rightarrow> fat_volume \<Rightarrow> bytes \<Rightarrow> nat \<Rightarrow> nat list \<Rightarrow> nat \<Rightarrow> bytes \<Rightarrow> nat \<Rightarrow> bool" where
  "filled v b v' b' prev cs off data sz \<longleftrightarrow>
     distinct cs \<and> set cs \<subseteq> free_clusters_of v \<and> free_clusters_of v' = free_clusters_of v - set cs \<and>
     (\<forall>c. c \<notin> set cs \<longrightarrow> fat_cached v' c = (if c = prev \<and> prev \<noteq> 0 \<and> cs \<noteq> [] then hd cs else fat_cached v c)) \<and>
     (\<forall>i < length cs. fat_cached v' (cs ! i) = (if Suc i < length cs then cs ! Suc i else fat_eoc v)) \<and>
     (\<forall>i < length cs. \<forall>j < cluster_size v. b' (cluster_start v (cs ! i) * fv_sector v + j) =
        (if off + i * cluster_size v + j < sz then data (off + i * cluster_size v + j) else 0)) \<and>
     (\<forall>a. (\<forall>c\<in>set cs. \<not> in_cluster v c a) \<longrightarrow> b' a = b a)"

lemma filled_Nil: "filled v b v b prev [] off data sz"
  by (simp add: filled_def)

lemma filled_Cons:
  assumes c: "c \<in> free_clusters_of v" and g: "geo v2 = geo v" and prev: "prev \<notin> free_clusters_of v"
    and fr: "free_clusters_of v2 = free_clusters_of v - {c}"
    and ca: "\<And>x. fat_cached v2 x = (if x = c then fat_eoc v else if x = prev \<and> prev \<noteq> 0 then c else fat_cached v x)"
    and b2: "b2 = (\<lambda>a. if in_cluster v c a then if off + (a - cluster_start v c * fv_sector v) < sz
        then data (off + (a - cluster_start v c * fv_sector v)) else 0 else b a)"
    and rest: "filled v2 b2 v' b' c cs off' data sz" and off: "cs \<noteq> [] \<Longrightarrow> off' = off + cluster_size v"
  shows "filled v b v' b' prev (c # cs) off data sz"
proof -
  note gf = geo_fields[OF g]
  have cl: "cluster_start v2 = cluster_start v" "in_cluster v2 = in_cluster v" "fat_eoc v2 = fat_eoc v"
    by (simp_all add: cluster_start_def in_cluster_def fat_eoc_def gf fun_eq_iff)
  have r: "distinct cs" "set cs \<subseteq> free_clusters_of v - {c}" "free_clusters_of v' = free_clusters_of v - {c} - set cs"
    "\<And>x. x \<notin> set cs \<Longrightarrow> fat_cached v' x = (if x = c \<and> c \<noteq> 0 \<and> cs \<noteq> [] then hd cs else fat_cached v2 x)"
    "\<And>i. i < length cs \<Longrightarrow> fat_cached v' (cs ! i) = (if Suc i < length cs then cs ! Suc i else fat_eoc v)"
    "\<And>i j. i < length cs \<Longrightarrow> j < cluster_size v \<Longrightarrow> b' (cluster_start v (cs ! i) * fv_sector v + j) =
        (if off' + i * cluster_size v + j < sz then data (off' + i * cluster_size v + j) else 0)"
    "\<And>a. (\<forall>c\<in>set cs. \<not> in_cluster v c a) \<Longrightarrow> b' a = b2 a"
    using rest unfolding filled_def fr cl gf by auto
  have c0: "c \<noteq> 0" "c \<notin> set cs" using c r(2) by (auto simp: free_clusters_of_def in_volume_iff)
  have iv: "\<And>x. x \<in> set cs \<Longrightarrow> in_volume v x" "in_volume v c" using r(2) c by (auto simp: free_clusters_of_def)
  have 4: "fat_cached v' x = (if x = prev \<and> prev \<noteq> 0 \<and> c # cs \<noteq> [] then hd (c # cs) else fat_cached v x)" if "x \<notin> set (c # cs)" for x
    using that r(4)[of x] by (simp add: ca)
  have 5: "fat_cached v' ((c # cs) ! i) = (if Suc i < length (c # cs) then (c # cs) ! Suc i else fat_eoc v)" if "i < length (c # cs)" for i
  proof (cases i)
    case 0
    then show ?thesis using r(4)[OF c0(2)] c0 by (cases cs) (simp_all add: ca)
  next
    case (Suc k)
    then show ?thesis using r(5)[of k] that by simp
  qed
  have 6: "b' (cluster_start v ((c # cs) ! i) * fv_sector v + j) =
      (if off + i * cluster_size v + j < sz then data (off + i * cluster_size v + j) else 0)" if i: "i < length (c # cs)" and j: "j < cluster_size v" for i j
  proof (cases i)
    case 0
    have "in_cluster v c (cluster_start v c * fv_sector v + j)" by (rule in_cluster_pos[OF j])
    moreover from this have "\<forall>x\<in>set cs. \<not> in_cluster v x (cluster_start v c * fv_sector v + j)"
      using cluster_distinct[OF _ iv(2)] iv(1) c0(2) by blast
    ultimately show ?thesis using 0 r(7) by (simp add: b2)
  next
    case (Suc k)
    then have "off' = off + cluster_size v" using off i by (cases cs) auto
    then show ?thesis using Suc r(6)[of k j] i j by (simp add: add.assoc)
  qed
  have 7: "b' a = b a" if "\<forall>x\<in>set (c # cs). \<not> in_cluster v x a" for a using that r(7)[of a] by (simp add: b2)
  show ?thesis unfolding filled_def using r(1-3) c c0 4 5 6 7 by auto
qed

lemma allocate_ready:
  assumes "ready (v, s)" "hint_ok v" "fat_allocate v = (c, v')" "c \<noteq> 0"
  shows "ready (v', s)" "view (v', s) = view (v, s)"
proof -
  have w: "writable v" using assms(1) by (simp add: ready_def live_def)
  from assms(4) obtain hn where v': "v' = take_cluster (v\<lparr>fv_alloc_hint := hn\<rparr>) c"
    by (rule_tac allocate_cases[OF w assms(2,3)]) auto
  let ?u = "v\<lparr>fv_alloc_hint := hn\<rparr>"
  have u: "live (?u, s) \<and> view (?u, s) = view (v, s)" using assms(1) by (intro live_geo) (simp_all add: ready_def)
  have "synced ?u (view (v, s))" using assms(1) synced_cong[of ?u v] by (simp add: ready_def)
  then have "ready (?u, s)" using u by (simp add: ready_def)
  from ready_cache_set[OF this, of c "fat_eoc ?u"]
  have t: "ready (fat_cache_set ?u c (fat_eoc ?u), s)" "view (fat_cache_set ?u c (fat_eoc ?u), s) = view (v, s)" using u by simp_all
  define y where "y = fat_cache_set ?u c (fat_eoc ?u)"
  have v2: "v' = y\<lparr>fv_used_bits := bit_set (fv_used_bits y) c, fv_free_clusters := sub32 (fv_free_clusters y) 1\<rparr>"
    by (simp add: v' take_cluster_def Let_def y_def)
  have l: "live (v', s) \<and> view (v', s) = view (y, s)" unfolding v2 using t(1) by (intro live_geo) (simp_all add: ready_def y_def)
  moreover have "synced v' (view (y, s))" using t(1) synced_cong[of v' y] unfolding y_def[symmetric] by (simp add: ready_def v2)
  ultimately show "ready (v', s)" "view (v', s) = view (v, s)" using t(2) by (simp_all add: ready_def y_def[symmetric])
qed

definition counted :: "fat_volume \<Rightarrow> bool" where
  "counted v \<longleftrightarrow> hint_ok v \<and> fv_write_ready v \<and> fv_free_clusters v = card (free_clusters_of v)"

lemma allocate_counted:
  assumes "writable v" "counted v" "fat_allocate v = (c, v')" "c \<noteq> 0"
  shows "counted v'"
proof -
  have h: "hint_ok v" using assms(2) by (simp add: counted_def)
  note e = allocate_effect[OF assms(1) h assms(3,4)]
  have n: "0 < card (free_clusters_of v)" using e(1) finite_free by (auto simp: card_gt_0_iff)
  have "fv_free_clusters v' = card (free_clusters_of v) - 1"
    unfolding e(7) using assms(2) sub32_one[OF n card_free_bound[OF assms(1)]] by (simp add: counted_def)
  also have "\<dots> = card (free_clusters_of v')" unfolding e(5) using e(1) finite_free by simp
  finally have f: "fv_free_clusters v' = card (free_clusters_of v')" .
  from assms(4) have "\<exists>hn. v' = take_cluster (v\<lparr>fv_alloc_hint := hn\<rparr>) c"
    by (rule_tac allocate_cases[OF assms(1) h assms(3)]) auto
  then have "fv_write_ready v' = fv_write_ready v" by (auto simp: take_cluster_def fat_cache_set_def Let_def)
  then show ?thesis using e(2) f assms(2) by (simp add: counted_def)
qed

text \<open>The number of clusters for the bytes from \<open>off\<close> on.\<close>

definition clusters_for :: "fat_volume \<Rightarrow> nat \<Rightarrow> nat" where
  "clusters_for v n = (n + cluster_size v - 1) div cluster_size v"

lemma clusters_step:
  assumes "0 < cluster_size v" "clusters_for v n = Suc k"
  shows "0 < n" "clusters_for v (n - min (cluster_size v) n) = k" "k \<noteq> 0 \<Longrightarrow> min (cluster_size v) n = cluster_size v"
proof -
  let ?c = "cluster_size v"
  show n: "0 < n" using assms by (cases n) (auto simp: clusters_for_def)
  have "clusters_for v (n - min ?c n) = k \<and> (k \<noteq> 0 \<longrightarrow> min ?c n = ?c)"
  proof (cases "n \<le> ?c")
    case True
    have "n + ?c - 1 = (n - 1) + ?c" using n by simp
    moreover have "((n - 1) + ?c) div ?c = (n - 1) div ?c + 1" using assms(1) by (intro div_add_self2) simp
    ultimately have "clusters_for v n = Suc ((n - 1) div ?c)" by (simp only: clusters_for_def Suc_eq_plus1)
    moreover have "(n - 1) div ?c = 0" using True n by (intro div_less) simp
    ultimately have "k = 0" using assms(2) by simp
    then show ?thesis using True assms(1) by (simp add: clusters_for_def)
  next
    case False
    then have "n + ?c - 1 = (n - ?c + ?c - 1) + ?c" by simp
    moreover have "((n - ?c + ?c - 1) + ?c) div ?c = (n - ?c + ?c - 1) div ?c + 1" using assms(1) by (intro div_add_self2) simp
    ultimately have "clusters_for v n = Suc (clusters_for v (n - ?c))" by (simp only: clusters_for_def Suc_eq_plus1)
    then show ?thesis using assms(2) False by (simp add: min_def)
  qed
  then show "clusters_for v (n - min ?c n) = k" "k \<noteq> 0 \<Longrightarrow> min ?c n = ?c" by auto
qed

lemma replace_clusters_ready:
  assumes "ready (v, s)" "counted v" "off \<le> sz" "n = clusters_for v (sz - off)" "n \<le> card (free_clusters_of v)" "prev \<notin> free_clusters_of v"
  shows "\<exists>cs v' s'. replace_clusters h n first prev off data sz (v, s) = (if prev \<noteq> 0 \<or> cs = [] then first else hd cs, 0, v', s') \<and>
    ready (v', s') \<and> counted v' \<and> geo v' = geo v \<and> length cs = n \<and> filled v (view (v, s)) v' (view (v', s')) prev cs off data sz"
  using assms
proof (induction n arbitrary: v s first prev off)
  case 0
  then show ?case by (intro exI[of _ "[]"] exI[of _ v] exI[of _ s]) (simp add: filled_Nil)
next
  case (Suc n)
  have w: "writable v" and hv: "hint_ok v" using Suc.prems(1,2) by (simp_all add: ready_def live_def counted_def)
  have cb: "0 < cluster_size v" using w by (simp add: writable_def vol_geom_def)
  note st = clusters_step[OF cb Suc.prems(4)[symmetric]]
  obtain c v1 where a: "fat_allocate v = (c, v1)" by fastforce
  have "free_clusters_of v \<noteq> {}" using Suc.prems(5) by auto
  then have c0: "c \<noteq> 0" by (rule_tac allocate_cases[OF w hv a]) (auto simp: free_clusters_of_def in_volume_iff)
  note al = allocate_effect[OF w hv a c0]
  have w1: "writable v1" using geo_writable[OF al(3)] w by simp
  have ivc: "in_volume v c" using al(1) by (simp add: free_clusters_of_def)
  have iv1: "in_volume v1 c" using ivc geo_fields(7)[OF al(3)] by (simp add: in_volume_def)
  define v2 where "v2 = (if prev \<noteq> 0 then fat_cache_set v1 prev c else v1)"
  have g: "geo v2 = geo v" using al(3) by (simp add: v2_def)
  have r2: "ready (v2, s)" "view (v2, s) = view (v, s)"
    using allocate_ready[OF Suc.prems(1) hv a c0] ready_cache_set[of v1 s prev c] by (auto simp: v2_def)
  have pc: "prev \<noteq> c" using al(1) Suc.prems(6) by auto
  have lim: "c mod link_limit v1 = c" using cluster_link(2)[OF w1 iv1] .
  have ca: "fat_cached v2 x = (if x = c then fat_eoc v else if x = prev \<and> prev \<noteq> 0 then c else fat_cached v x)" for x
    using cached_set[OF w1, of prev c x] al(4)[of x] pc lim by (auto simp: v2_def)
  have iv: "in_volume v2 x = in_volume v x" for x using geo_fields(7)[OF g] by (simp add: in_volume_def)
  have fr: "free_clusters_of v2 = free_clusters_of v - {c}"
    using eoc_limit(2)[of v] c0 Suc.prems(6) by (auto simp: free_clusters_of_def ca iv)
  have "fv_alloc_hint v2 = fv_alloc_hint v1" "fv_write_ready v2 = fv_write_ready v1" "fv_free_clusters v2 = fv_free_clusters v1"
    "fv_cluster_count v2 = fv_cluster_count v1"
    by (simp_all add: v2_def fat_cache_set_def Let_def)
  then have hk: "counted v2" using allocate_counted[OF w Suc.prems(2) a c0] fr al(5) by (simp add: counted_def hint_ok_def in_volume_def)
  let ?m = "min (cluster_size v2) (sz - off)"
  have m: "?m = min (cluster_size v) (sz - off)" using geo_fields(2,3)[OF g] by simp
  have cs2: "cluster_start v2 c = cluster_start v c" using geo_fields(3,13)[OF g] by (simp add: cluster_start_def)
  obtain s1 where wd: "fat_write_data h c (\<lambda>j. data (off + j)) ?m (v2, s) = (0, v2, s1)" "ready (v2, s1)"
    "view (v2, s1) = (\<lambda>a. if cluster_start v2 c * fv_sector v2 \<le> a \<and> a < (cluster_start v2 c + fv_spc v2) * fv_sector v2
      then if a - cluster_start v2 c * fv_sector v2 < ?m then data (off + (a - cluster_start v2 c * fv_sector v2)) else 0 else view (v2, s) a)"
    using write_data_ready[OF r2(1), of c h "\<lambda>j. data (off + j)" ?m] ivc iv by auto
  have b2: "view (v2, s1) = (\<lambda>a. if in_cluster v c a then if off + (a - cluster_start v c * fv_sector v) < sz
      then data (off + (a - cluster_start v c * fv_sector v)) else 0 else view (v, s) a)"
  proof (rule ext)
    fix a
    have "a - cluster_start v c * fv_sector v < ?m \<longleftrightarrow> off + (a - cluster_start v c * fv_sector v) < sz" if "in_cluster v c a"
      using that Suc.prems(3) unfolding m by (auto simp: in_cluster_def add_mult_distrib)
    then show "view (v2, s1) a = (if in_cluster v c a then if off + (a - cluster_start v c * fv_sector v) < sz
      then data (off + (a - cluster_start v c * fv_sector v)) else 0 else view (v, s) a)"
      unfolding wd(3) cs2 r2(2) geo_fields(2,3)[OF g] in_cluster_def[symmetric] by auto
  qed
  have n2: "n = clusters_for v2 (sz - (off + ?m))" using st(2) geo_fields(2,3)[OF g] by (simp add: clusters_for_def)
  have "card (free_clusters_of v2) = card (free_clusters_of v) - 1" unfolding fr using al(1) finite_free by simp
  then have card2: "n \<le> card (free_clusters_of v2)" using Suc.prems(5) by simp
  have c2: "c \<notin> free_clusters_of v2" by (simp add: fr)
  have o2: "off + ?m \<le> sz" using Suc.prems(3) by simp
  let ?f = "if prev \<noteq> 0 then first else c"
  obtain cs v' s' where IH: "replace_clusters h n ?f c (off + ?m) data sz (v2, s1) = (if c \<noteq> 0 \<or> cs = [] then ?f else hd cs, 0, v', s')"
    "ready (v', s')" "counted v'" "geo v' = geo v2" "length cs = n" "filled v2 (view (v2, s1)) v' (view (v', s')) c cs (off + ?m) data sz"
    using Suc.IH[OF wd(2) hk o2 n2 card2 c2, of ?f] by blast
  have "cs \<noteq> [] \<Longrightarrow> off + ?m = off + cluster_size v" using st(3) IH(5) m by auto
  from filled_Cons[OF al(1) g Suc.prems(6) fr ca b2 IH(6) this]
  have "filled v (view (v, s)) v' (view (v', s')) prev (c # cs) off data sz" .
  moreover have "replace_clusters h (Suc n) first prev off data sz (v, s) = (?f, 0, v', s')"
    unfolding replace_clusters.simps fst_conv snd_conv a prod.case if_not_P[OF c0] Let_def v2_def[symmetric] wd(1)
    using IH(1) c0 by simp
  ultimately show ?case using IH(2-5) g by (intro exI[of _ "c # cs"] exI[of _ v'] exI[of _ s']) simp
qed

section \<open>The directory entry\<close>

lemma aligned_entry:
  assumes "off AND 31 = 0" "32 dvd z" "0 < (z::nat)"
  shows "off mod z + 32 \<le> z"
proof -
  have "off mod 2 ^ 5 = 0" using assms(1) and_mask_eq_mod[of off 5] by simp
  then have "32 dvd off" by (simp add: mod_0_imp_dvd)
  then have d: "32 dvd off mod z" using assms(2) by (simp add: dvd_mod)
  obtain q where q: "z = 32 * q" using assms(2) by (auto elim: dvdE)
  obtain r where r: "off mod z = 32 * r" using d by (auto elim: dvdE)
  have "off mod z < z" using assms(3) by simp
  then show ?thesis using q r by simp
qed

lemma entry_write_ready:
  assumes "ready (v, s)" "off AND 31 = 0" "off + 32 \<le> fv_length v * fv_sector v" "fv_root_start v \<le> off div fv_sector v"
    and "fv_fat_bits v = 32 \<Longrightarrow> fv_data_start v \<le> off div fv_sector v"
  shows "\<exists>s'. fat_entry_write h off d (v, s) = (0, v, s') \<and> ready (v, s') \<and>
    view (v, s') = (\<lambda>a. if off \<le> a \<and> a < off + 32 then d (a - off) else view (v, s) a)"
proof -
  let ?z = "fv_sector v" and ?k = "off div fv_sector v" and ?m = "off mod fv_sector v"
  have l: "live (v, s)" using assms(1) by (simp add: ready_def)
  have g: "vol_geom v" using live_D(3)[OF l] by simp
  have z: "0 < ?z" "32 dvd ?z" using g good_sector live_D(1)[OF l] by (auto simp: vol_geom_def)
  have m: "?m + 32 \<le> ?z" by (rule aligned_entry[OF assms(2) z(2,1)])
  have o: "off = ?k * ?z + ?m" by simp
  have "?k * ?z < fv_length v * ?z" using assms(3) o by linarith
  then have k: "?k < fv_length v" by simp
  then have "Suc ?k * ?z \<le> fv_length v * ?z" by (intro mult_le_mono1) simp
  then have i: "?k * ?z + ?z \<le> fv_length v * ?z" by simp
  define b where "b = (\<lambda>a. if a < ?z then view (v, s) (?k * ?z + a) else 0)"
  have r: "volume_bytes h v (?k * ?z) (\<lambda>_. 0) ?z s = ((0, b), s)" unfolding b_def by (rule live_bytes[OF l i])
  obtain s1 where w: "volume_write h ?k 1 (put_bytes b ?m d 0 32) (v, s) = (0, v, s1)" "ready (v, s1)"
    "view (v, s1) = sector_put v ?k (put_bytes b ?m d 0 32) (view (v, s))"
    using ready_write[OF assms(1) k] assms(4) by blast
  have "view (v, s1) a = (if off \<le> a \<and> a < off + 32 then d (a - off) else view (v, s) a)" for a
  proof (cases "?k * ?z \<le> a \<and> a < ?k * ?z + ?z")
    case True
    have "(?m \<le> a - ?k * ?z \<and> a - ?k * ?z < ?m + 32) \<longleftrightarrow> off \<le> a \<and> a < off + 32" "a - ?k * ?z - ?m = a - off"
      using True o by linarith+
    moreover have "a - ?k * ?z < ?z" "?k * ?z + (a - ?k * ?z) = a" using True by linarith+
    then have "b (a - ?k * ?z) = view (v, s) a" by (simp add: b_def)
    ultimately show ?thesis unfolding w(3) sector_put_apply put_bytes_apply using True by simp
  next
    case False
    then have "\<not> (off \<le> a \<and> a < off + 32)" using o m by linarith
    then show ?thesis unfolding w(3) sector_put_apply if_not_P[OF False] by auto
  qed
  moreover have "fat_entry_write h off d (v, s) = (0, v, s1)"
    using assms(2-5) r w(1) by (auto simp: fat_entry_write_def Let_def span_ok_add)
  ultimately show ?thesis using w(2) by auto
qed

lemma publish_ready:
  assumes "ready (v, s)" "off AND 31 = 0" "off + 32 \<le> fv_length v * fv_sector v" "fv_root_start v \<le> off div fv_sector v"
    and "fv_fat_bits v = 32 \<Longrightarrow> fv_data_start v \<le> off div fv_sector v"
    and "d' = (fat_set_first d first sz)(11 := fat_set_first d first sz 11 OR 0x20)"
  shows "\<exists>s'. publish_entry h off d first sz (v, s) = (0, v, s') \<and> ready (v, s') \<and>
    view (v, s') = (\<lambda>a. if off \<le> a \<and> a < off + 32 then d' (a - off) else view (v, s) a)"
proof -
  obtain s1 where e: "fat_entry_write h off d' (v, s) = (0, v, s1)" "ready (v, s1)"
    "view (v, s1) = (\<lambda>a. if off \<le> a \<and> a < off + 32 then d' (a - off) else view (v, s) a)"
    using entry_write_ready[OF assms(1-5)] by blast
  have "publish_entry h off d first sz (v, s) = (0, v, s1)"
    unfolding publish_entry_def Let_def assms(6)[symmetric] and_then_def e(1) using live_flush[OF ready_D(1)[OF e(2)]] by simp
  then show ?thesis using e(2,3) by blast
qed

lemma finish_ready:
  assumes "ready (v, s)"
  shows "\<exists>t s'. fat_finish_write h 0 (v, s) = (0, (set_clean v)\<lparr>fv_dirty_bits := t\<rparr>, s') \<and> ready ((set_clean v)\<lparr>fv_dirty_bits := t\<rparr>, s') \<and>
    upper_same v (view (v, s)) (view ((set_clean v)\<lparr>fv_dirty_bits := t\<rparr>, s')) \<and> all_clean ((set_clean v)\<lparr>fv_dirty_bits := t\<rparr>)"
proof -
  have d: "ready (set_clean v, s)" "view (set_clean v, s) = view (v, s)" using ready_cache_set[OF assms] by (simp_all add: set_clean_def)
  have up: "upper_same (set_clean v) = upper_same v" by (simp add: upper_same_def set_clean_def fat_cache_set_def Let_def fun_eq_iff)
  show ?thesis using ready_flush_cache[OF d(1), of h] unfolding up d(2) by (auto simp: fat_finish_write_def)
qed

section \<open>Releasing a chain\<close>

fun cached_chain :: "fat_volume \<Rightarrow> nat list \<Rightarrow> bool" where
  "cached_chain v [] \<longleftrightarrow> False"
| "cached_chain v [c] \<longleftrightarrow> in_volume v c \<and> fat_is_end v (fat_cached v c)"
| "cached_chain v (c # d # cs) \<longleftrightarrow> in_volume v c \<and> fat_cached v c = d \<and> \<not> fat_is_end v d \<and> cached_chain v (d # cs)"

lemma cached_chain_in: "cached_chain v cs \<Longrightarrow> c \<in> set cs \<Longrightarrow> in_volume v c \<and> fat_cached v c \<noteq> 0"
proof (induction v cs rule: cached_chain.induct)
  case (2 v c)
  then show ?case by (auto simp: fat_is_end_def split: if_splits)
next
  case (3 v c d cs)
  then have "in_volume v d" by (cases cs) auto
  then show ?case using 3 by (auto simp: in_volume_def)
qed simp

lemma cached_chain_cong:
  "(\<And>c. c \<in> set cs \<Longrightarrow> fat_cached w c = fat_cached v c) \<Longrightarrow> geo w = geo v \<Longrightarrow> cached_chain w cs = cached_chain v cs"
proof (induction v cs rule: cached_chain.induct)
  case (2 v c)
  then show ?case using geo_fields(4,7)[OF 2(2)] by (simp add: in_volume_def fat_is_end_def)
next
  case (3 v c d cs)
  then show ?case using geo_fields(4,7)[OF 3(3)] by (simp add: in_volume_def fat_is_end_def)
qed simp

lemma ready_cong:
  assumes "ready (v, s)" "geo w = geo v" "fv_write_failed w = fv_write_failed v" "fv_cache_bytes w = fv_cache_bytes v"
    "fv_dirty_bits w = fv_dirty_bits v"
  shows "ready (w, s)" "view (w, s) = view (v, s)"
  using live_geo[of v s w] synced_cong[of w v] assms by (auto simp: ready_def)

lemma add32_one: "n < 2 ^ 32 - 1 \<Longrightarrow> add32 n 1 = n + 1"
  by (simp add: add32_def)

text \<open>One round of the release.\<close>

definition release_one :: "nat \<Rightarrow> fat_volume \<Rightarrow> fat_volume" where
  "release_one c v = (let v = fat_cache_set v c 0 in
     v\<lparr>fv_used_bits := bit_clear (fv_used_bits v) c, fv_free_clusters := add32 (fv_free_clusters v) 1\<rparr>)"

lemma release_Suc:
  "release_chain (Suc n) c v = (if c = 0 then v else if fat_is_end v (fat_cached v c) then release_one c v
     else release_chain n (fat_cached v c) (release_one c v))"
proof -
  have "fat_is_end (release_one c v) m = fat_is_end v m" for m by (simp add: release_one_def fat_is_end_def fat_cache_set_def Let_def)
  then show ?thesis by (simp add: release_one_def Let_def)
qed

lemma release_one_effect:
  assumes "ready (v, s)" "counted v" "in_volume v c" "fat_cached v c \<noteq> 0"
  shows "ready (release_one c v, s)" "view (release_one c v, s) = view (v, s)" "geo (release_one c v) = geo v" "counted (release_one c v)"
    "\<And>x. fat_cached (release_one c v) x = (if x = c then 0 else fat_cached v x)"
    "free_clusters_of (release_one c v) = insert c (free_clusters_of v)"
proof -
  let ?w = "release_one c v"
  have w: "writable v" using assms(1) by (simp add: ready_def live_def)
  show g: "geo ?w = geo v" by (simp add: release_one_def Let_def)
  show "ready (?w, s)" "view (?w, s) = view (v, s)"
    using ready_cache_set[OF assms(1), of c 0] ready_cong[of "fat_cache_set v c 0" s ?w] by (auto simp: release_one_def Let_def)
  have "fat_cached ?w = fat_cached (fat_cache_set v c 0)" by (rule cached_cong) (simp_all add: release_one_def Let_def)
  then show ca: "fat_cached ?w x = (if x = c then 0 else fat_cached v x)" for x using cached_set[OF w, of c 0 x] by simp
  have iv: "in_volume ?w x = in_volume v x" for x using geo_fields(7)[OF g] by (simp add: in_volume_def)
  show fr: "free_clusters_of ?w = insert c (free_clusters_of v)" using assms(3) by (auto simp: free_clusters_of_def ca iv)
  have c: "c \<notin> free_clusters_of v" using assms(4) by (simp add: free_clusters_of_def)
  have "insert c (free_clusters_of v) \<subseteq> {2..<fv_cluster_count v + 2}" using assms(3) by (auto simp: free_clusters_of_def in_volume_iff)
  then have "card (insert c (free_clusters_of v)) \<le> card {2..<fv_cluster_count v + 2}" by (intro card_mono) auto
  then have b: "card (free_clusters_of v) < 2 ^ 32 - 1" using c cc_bound[OF w] finite_free by simp
  have "fv_free_clusters ?w = add32 (fv_free_clusters v) 1" "fv_alloc_hint ?w = fv_alloc_hint v" "fv_write_ready ?w = fv_write_ready v"
    by (simp_all add: release_one_def fat_cache_set_def Let_def)
  then show "counted ?w" using assms(2) add32_one[OF b] c finite_free by (simp add: counted_def hint_ok_def iv fr)
qed

lemma release_chain_ready:
  assumes "ready (v, s)" "counted v" "cached_chain v os" "distinct os" "length os \<le> n"
  shows "ready (release_chain n (hd os) v, s) \<and> view (release_chain n (hd os) v, s) = view (v, s) \<and> geo (release_chain n (hd os) v) = geo v \<and>
    counted (release_chain n (hd os) v) \<and>
    (\<forall>x. fat_cached (release_chain n (hd os) v) x = (if x \<in> set os then 0 else fat_cached v x))"
  using assms
proof (induction os arbitrary: n v)
  case (Cons c os)
  obtain k where k: "n = Suc k" "length os \<le> k" using Cons.prems(5) by (cases n) auto
  have c: "in_volume v c" "fat_cached v c \<noteq> 0" using cached_chain_in[OF Cons.prems(3)] by simp_all
  note e = release_one_effect[OF Cons.prems(1,2) c]
  have c0: "c \<noteq> 0" using c by (simp add: in_volume_iff)
  show ?case
  proof (cases os)
    case Nil
    then have "release_chain n c v = release_one c v" using Cons.prems(3) c0 by (simp add: k release_Suc del: release_chain.simps)
    then show ?thesis using Nil e by simp
  next
    case (Cons d ds)
    have ch: "fat_cached v c = d" "\<not> fat_is_end v d" "cached_chain v os" using Cons.prems(3) Cons by simp_all
    have r: "release_chain n c v = release_chain k (hd os) (release_one c v)"
      using ch c0 Cons by (simp add: k release_Suc del: release_chain.simps)
    have "fat_cached (release_one c v) x = fat_cached v x" if "x \<in> set os" for x using that e(5)[of x] Cons.prems(4) by auto
    then have "cached_chain (release_one c v) os" using ch(3) cached_chain_cong[OF _ e(3), of os] by blast
    from Cons.IH[OF e(1,4) this _ k(2)] Cons.prems(4)
    show ?thesis using e(2,3,5) unfolding r list.sel by auto
  qed
qed simp

section \<open>Replacing a file\<close>

text \<open>A volume between two operations.\<close>

definition vol_ready :: "'h vs \<Rightarrow> bool" where
  "vol_ready x \<longleftrightarrow> ready x \<and> counted (fst x) \<and> all_clean (fst x) \<and> \<not> fv_partition_ro (fst x)"

text \<open>The slot of a directory entry: aligned, in a directory area and not in a free cluster.\<close>

definition slot_ok :: "fat_volume \<Rightarrow> nat \<Rightarrow> bool" where
  "slot_ok v off \<longleftrightarrow> off AND 31 = 0 \<and> off + 32 \<le> fv_length v * fv_sector v \<and> fv_root_start v \<le> off div fv_sector v \<and>
     (fv_fat_bits v = 32 \<longrightarrow> fv_data_start v \<le> off div fv_sector v) \<and>
     (\<forall>c\<in>free_clusters_of v. \<forall>a. off \<le> a \<and> a < off + 32 \<longrightarrow> \<not> in_cluster v c a)"

text \<open>The old chain of a file: none for cluster 0.\<close>

definition old_chain :: "fat_volume \<Rightarrow> nat \<Rightarrow> nat list \<Rightarrow> bool" where
  "old_chain v c os \<longleftrightarrow> (if c = 0 then os = [] else cached_chain v os \<and> distinct os \<and> hd os = c)"

lemma release_old:
  assumes "ready (v, s)" "counted v" "old_chain v c os"
  shows "ready (release_chain (fv_cluster_count v + 2) c v, s)" "view (release_chain (fv_cluster_count v + 2) c v, s) = view (v, s)"
    "geo (release_chain (fv_cluster_count v + 2) c v) = geo v" "counted (release_chain (fv_cluster_count v + 2) c v)"
    "\<And>x. fat_cached (release_chain (fv_cluster_count v + 2) c v) x = (if x \<in> set os then 0 else fat_cached v x)"
proof -
  have r: "release_chain (fv_cluster_count v + 2) 0 v = v" by simp
  have n: "length os \<le> fv_cluster_count v + 2" if "cached_chain v os" "distinct os"
  proof -
    have "set os \<subseteq> {2..<fv_cluster_count v + 2}" using cached_chain_in[OF that(1)] by (auto simp: in_volume_iff)
    then have "card (set os) \<le> card {2..<fv_cluster_count v + 2}" by (intro card_mono) auto
    then show ?thesis using distinct_card[OF that(2)] by simp
  qed
  have "ready (release_chain (fv_cluster_count v + 2) c v, s) \<and> view (release_chain (fv_cluster_count v + 2) c v, s) = view (v, s) \<and>
    geo (release_chain (fv_cluster_count v + 2) c v) = geo v \<and> counted (release_chain (fv_cluster_count v + 2) c v) \<and>
    (\<forall>x. fat_cached (release_chain (fv_cluster_count v + 2) c v) x = (if x \<in> set os then 0 else fat_cached v x))"
  proof (cases "c = 0")
    case True
    then have "os = []" using assms(3) by (simp add: old_chain_def)
    then show ?thesis unfolding True r using assms(1,2) by simp
  next
    case False
    then show ?thesis using assms(3) release_chain_ready[OF assms(1,2) _ _ n] by (auto simp: old_chain_def simp del: release_chain.simps)
  qed
  then show "ready (release_chain (fv_cluster_count v + 2) c v, s)" "view (release_chain (fv_cluster_count v + 2) c v, s) = view (v, s)"
    "geo (release_chain (fv_cluster_count v + 2) c v) = geo v" "counted (release_chain (fv_cluster_count v + 2) c v)"
    "\<And>x. fat_cached (release_chain (fv_cluster_count v + 2) c v) x = (if x \<in> set os then 0 else fat_cached v x)"
    by blast+
qed

lemma counted_cong:
  assumes "geo w = geo v" "fv_alloc_hint w = fv_alloc_hint v" "fv_write_ready w = fv_write_ready v" "fv_free_clusters w = fv_free_clusters v"
    and "\<And>c. 2 \<le> c \<Longrightarrow> fat_cached w c = fat_cached v c"
  shows "counted w = counted v" "free_clusters_of w = free_clusters_of v"
proof -
  have iv: "in_volume w x = in_volume v x" for x using geo_fields(7)[OF assms(1)] by (simp add: in_volume_def)
  have "in_volume v x \<Longrightarrow> 2 \<le> x" for x by (simp add: in_volume_iff)
  then show f: "free_clusters_of w = free_clusters_of v" using assms(5) by (auto simp: free_clusters_of_def iv)
  show "counted w = counted v" using assms(2-4) by (simp add: counted_def f hint_ok_def iv)
qed

lemma entry1_counted:
  assumes "writable v"
  shows "counted ((fat_cache_set v 1 x)\<lparr>fv_dirty_bits := t\<rparr>) = counted v"
    "free_clusters_of ((fat_cache_set v 1 x)\<lparr>fv_dirty_bits := t\<rparr>) = free_clusters_of v"
    "\<And>c. 2 \<le> c \<Longrightarrow> fat_cached ((fat_cache_set v 1 x)\<lparr>fv_dirty_bits := t\<rparr>) c = fat_cached v c"
proof -
  let ?w = "(fat_cache_set v 1 x)\<lparr>fv_dirty_bits := t\<rparr>"
  have "fat_cached ?w = fat_cached (fat_cache_set v 1 x)" by (rule cached_cong) simp_all
  then show c: "\<And>c. 2 \<le> c \<Longrightarrow> fat_cached ?w c = fat_cached v c" using cached_set[OF assms, of 1 x] by auto
  show "counted ?w = counted v" "free_clusters_of ?w = free_clusters_of v"
    by (rule counted_cong; use c in \<open>auto simp: fat_cache_set_def Let_def\<close>)+
qed

lemma dirty_counted [simp]: "counted (v\<lparr>fv_dirty_bits := t\<rparr>) = counted v" "free_clusters_of (v\<lparr>fv_dirty_bits := t\<rparr>) = free_clusters_of v"
  "fat_cached (v\<lparr>fv_dirty_bits := t\<rparr>) = fat_cached v"
proof -
  show c: "fat_cached (v\<lparr>fv_dirty_bits := t\<rparr>) = fat_cached v" by (rule cached_cong) simp_all
  show "counted (v\<lparr>fv_dirty_bits := t\<rparr>) = counted v" "free_clusters_of (v\<lparr>fv_dirty_bits := t\<rparr>) = free_clusters_of v"
    by (rule counted_cong; simp add: c)+
qed

lemma geo_upper: "geo w = geo v \<Longrightarrow> upper_same w = upper_same v"
  by (frule geo_fields(2), drule geo_fields(12)) (simp add: upper_same_def fun_eq_iff)

text \<open>The new data and their chain are written; entries from 2 on and the bytes from the root directory on.\<close>

definition written :: "'h vs \<Rightarrow> 'h vs \<Rightarrow> nat list \<Rightarrow> bytes \<Rightarrow> nat \<Rightarrow> bool" where
  "written x y cs data sz \<longleftrightarrow>
     length cs = clusters_for (fst x) sz \<and> distinct cs \<and> set cs \<subseteq> free_clusters_of (fst x) \<and>
     (\<forall>i < length cs. fat_cached (fst y) (cs ! i) = (if Suc i < length cs then cs ! Suc i else fat_eoc (fst x))) \<and>
     (\<forall>c \<ge> 2. c \<notin> set cs \<longrightarrow> fat_cached (fst y) c = fat_cached (fst x) c) \<and>
     (\<forall>i < length cs. \<forall>j < cluster_size (fst x). view y (cluster_start (fst x) (cs ! i) * fv_sector (fst x) + j) =
        (if i * cluster_size (fst x) + j < sz then data (i * cluster_size (fst x) + j) else 0)) \<and>
     (\<forall>a \<ge> fv_root_start (fst x) * fv_sector (fst x). (\<forall>c\<in>set cs. \<not> in_cluster (fst x) c a) \<longrightarrow> view y a = view x a)"

lemma cluster_upper:
  assumes "writable v" "in_volume v c"
  shows "fv_root_start v * fv_sector v \<le> cluster_start v c * fv_sector v + j"
  using cluster_inside(2)[of v c] assms by (auto simp: writable_def vol_geom_def intro!: trans_le_add1 mult_le_mono1)

lemma replace_chain_ready:
  assumes rv: "ready (v, s)" "counted v" and cnt: "clusters_for v sz \<le> card (free_clusters_of v)"
  shows "\<exists>cs v' s'. replace_chain h data sz (clusters_for v sz) (v, s) = (if cs = [] then 0 else hd cs, 0, v', s') \<and>
    ready (v', s') \<and> counted v' \<and> geo v' = geo v \<and> written (v, s) (v', s') cs data sz"
proof -
  have w: "writable v" using rv by (simp add: ready_def live_def)
  obtain t1 s1 where b: "fat_begin_write h (v, s) = (0, (set_dirty v)\<lparr>fv_dirty_bits := t1\<rparr>, s1)"
    "ready ((set_dirty v)\<lparr>fv_dirty_bits := t1\<rparr>, s1)" "upper_same v (view (v, s)) (view ((set_dirty v)\<lparr>fv_dirty_bits := t1\<rparr>, s1))"
    using begin_write_ready[OF rv(1)] by blast
  define v1 where "v1 = (set_dirty v)\<lparr>fv_dirty_bits := t1\<rparr>"
  note b = b[folded v1_def]
  have e1: "counted v1 = counted v" "free_clusters_of v1 = free_clusters_of v" "\<And>c. 2 \<le> c \<Longrightarrow> fat_cached v1 c = fat_cached v c" "geo v1 = geo v"
    using entry1_counted[OF w] by (auto simp: v1_def set_dirty_def)
  have gf: "cluster_start v1 = cluster_start v" "in_cluster v1 = in_cluster v" "fv_spc v1 = fv_spc v" "fv_sector v1 = fv_sector v"
    "fat_eoc v1 = fat_eoc v" "clusters_for v1 = clusters_for v"
    using geo_fields[OF e1(4)] by (simp_all add: cluster_start_def in_cluster_def fat_eoc_def clusters_for_def fun_eq_iff)
  obtain cs v2 s2 where c: "replace_clusters h (clusters_for v sz) 0 0 0 data sz (v1, s1) = (if cs = [] then 0 else hd cs, 0, v2, s2)"
    "ready (v2, s2)" "counted v2" "geo v2 = geo v1" "length cs = clusters_for v sz" "filled v1 (view (v1, s1)) v2 (view (v2, s2)) 0 cs 0 data sz"
    using replace_clusters_ready[OF b(2), of 0 sz "clusters_for v sz" 0 h 0 data] e1 rv cnt gf(6)
    by (auto simp: free_clusters_of_def in_volume_iff)
  obtain t3 s3 where f: "fat_flush_cache h (v2, s2) = (0, v2\<lparr>fv_dirty_bits := t3\<rparr>, s3)" "ready (v2\<lparr>fv_dirty_bits := t3\<rparr>, s3)"
    "upper_same v2 (view (v2, s2)) (view (v2\<lparr>fv_dirty_bits := t3\<rparr>, s3))"
    using ready_flush_cache[OF c(2)] by blast
  let ?y = "(v2\<lparr>fv_dirty_bits := t3\<rparr>, s3)"
  have chain: "replace_chain h data sz (clusters_for v sz) (v, s) = (if cs = [] then 0 else hd cs, 0, ?y)"
    using b(1) c(1) f(1) live_flush[OF ready_D(1)[OF c(2)]] by (simp add: replace_chain_def and_then_def)
  have u: "view ?y a = view (v2, s2) a" if "fv_root_start v * fv_sector v \<le> a" for a
    using f(3) that geo_upper[of v2 v] c(4) e1(4) by (simp add: upper_same_def)
  note fl = c(6)[unfolded filled_def gf e1(2) add_0]
  have cin: "in_volume v x" if "x \<in> set cs" for x using that fl by (auto simp: free_clusters_of_def)
  have "view ?y (cluster_start v (cs ! i) * fv_sector v + j) = view (v2, s2) (cluster_start v (cs ! i) * fv_sector v + j)" if "i < length cs" for i j
    using u cluster_upper[OF w cin[OF nth_mem[OF that]]] by simp
  moreover have "view ?y a = view (v, s) a" if "fv_root_start v * fv_sector v \<le> a" "\<forall>c\<in>set cs. \<not> in_cluster v c a" for a
    using u[OF that(1)] fl that b(3) by (simp add: upper_same_def)
  moreover have "fat_cached (v2\<lparr>fv_dirty_bits := t3\<rparr>) = fat_cached v2" by simp
  ultimately have "written (v, s) ?y cs data sz"
    using fl c(5) e1(3) unfolding written_def fst_conv add_0 by (auto simp del: dirty_update)
  then show ?thesis using chain f(2) c(3,4) e1(4) by (intro exI[of _ cs] exI[of _ "fst ?y"] exI[of _ "snd ?y"]) simp
qed

text \<open>The steps after the new chain is on the disk.\<close>

definition published :: "'h vs \<Rightarrow> 'h vs \<Rightarrow> nat list \<Rightarrow> nat \<Rightarrow> bytes \<Rightarrow> bool" where
  "published x y os off d \<longleftrightarrow>
     (\<forall>a \<ge> fv_root_start (fst x) * fv_sector (fst x). view y a = (if off \<le> a \<and> a < off + 32 then d (a - off) else view x a)) \<and>
     (\<forall>c \<ge> 2. fat_cached (fst y) c = (if c \<in> set os then 0 else fat_cached (fst x) c))"

definition slot_area :: "fat_volume \<Rightarrow> nat \<Rightarrow> bool" where
  "slot_area v off \<longleftrightarrow> off AND 31 = 0 \<and> off + 32 \<le> fv_length v * fv_sector v \<and> fv_root_start v \<le> off div fv_sector v \<and>
     (fv_fat_bits v = 32 \<longrightarrow> fv_data_start v \<le> off div fv_sector v)"

lemma replace_tail_ready:
  assumes rv: "ready (v, s)" "counted v" and slot: "slot_area v (fl_directory_offset f)" and old: "old_chain v (fl_cluster f) os"
    and d': "d' = (fat_set_first d first sz)(11 := fat_set_first d first sz 11 OR 0x20)"
    and chain: "replace_chain h data sz count x = (first, 0, v, s)"
  shows "\<exists>y. replace_body h f d data sz count x = ((0, f\<lparr>fl_cluster := first, fl_size := sz\<rparr>), y) \<and>
    ready y \<and> counted (fst y) \<and> all_clean (fst y) \<and> geo (fst y) = geo v \<and> published (v, s) y os (fl_directory_offset f) d'"
proof -
  let ?off = "fl_directory_offset f"
  obtain s4 where p: "publish_entry h ?off d first sz (v, s) = (0, v, s4)" "ready (v, s4)"
    "view (v, s4) = (\<lambda>a. if ?off \<le> a \<and> a < ?off + 32 then d' (a - ?off) else view (v, s) a)"
    using publish_ready[OF rv(1), of ?off d' d first sz h] slot d' by (auto simp: slot_area_def)
  note rl = release_old[OF p(2) rv(2) old]
  define v5 where "v5 = release_chain (fv_cluster_count v + 2) (fl_cluster f) v"
  note rl = rl[folded v5_def]
  obtain t6 s6 where f6: "fat_flush_cache h (v5, s4) = (0, v5\<lparr>fv_dirty_bits := t6\<rparr>, s6)" "ready (v5\<lparr>fv_dirty_bits := t6\<rparr>, s6)"
    "upper_same v5 (view (v5, s4)) (view (v5\<lparr>fv_dirty_bits := t6\<rparr>, s6))"
    using ready_flush_cache[OF rl(1)] by blast
  define v6 where "v6 = v5\<lparr>fv_dirty_bits := t6\<rparr>"
  note f6 = f6[folded v6_def]
  obtain t7 s7 where f7: "fat_finish_write h 0 (v6, s6) = (0, (set_clean v6)\<lparr>fv_dirty_bits := t7\<rparr>, s7)"
    "ready ((set_clean v6)\<lparr>fv_dirty_bits := t7\<rparr>, s7)" "upper_same v6 (view (v6, s6)) (view ((set_clean v6)\<lparr>fv_dirty_bits := t7\<rparr>, s7))"
    "all_clean ((set_clean v6)\<lparr>fv_dirty_bits := t7\<rparr>)"
    using finish_ready[OF f6(2)] by blast
  define v7 where "v7 = (set_clean v6)\<lparr>fv_dirty_bits := t7\<rparr>"
  note f7 = f7[folded v7_def]
  have body: "replace_body h f d data sz count x = ((0, f\<lparr>fl_cluster := first, fl_size := sz\<rparr>), v7, s7)"
    unfolding replace_body_def chain prod.case and_then_def fst_conv snd_conv p(1) using f6(1) f7(1) p(1)
    by (simp add: v5_def[symmetric] del: release_chain.simps add_2_eq_Suc')
  have g: "geo v5 = geo v" "geo v6 = geo v" using rl(3) by (simp_all add: v6_def)
  have w6: "writable v6" using geo_writable[OF g(2)] rv by (simp add: ready_def live_def)
  have e7: "counted v7 = counted v6" "\<And>c. 2 \<le> c \<Longrightarrow> fat_cached v7 c = fat_cached v6 c" "geo v7 = geo v6"
    using entry1_counted[OF w6] by (auto simp: v7_def set_clean_def)
  have "view (v7, s7) a = view (v, s4) a" if "fv_root_start v * fv_sector v \<le> a" for a
    using f6(3) f7(3) rl(2) that unfolding geo_upper[OF g(1)] geo_upper[OF g(2)] by (simp add: upper_same_def)
  then have "published (v, s) (v7, s7) os ?off d'" using p(3) e7(2) rl(5) by (simp add: published_def v6_def)
  then show ?thesis using body f7(2,4) e7(1,3) rl(4) g by (intro exI[of _ "(v7, s7)"]) (simp add: v6_def)
qed


section \<open>Reading the replaced file back\<close>

lemma in_volume_link:
  assumes "writable v" "in_volume v c"
  shows "link_of v c = Inr c"
proof -
  have "c < fat_end v - 1" using assms writable_bits[OF assms(1)] by (auto simp: writable_def vol_geom_def in_volume_iff fat_end_def)
  then have "\<not> fat_end v \<le> c" "c \<noteq> fat_end v - 1" by linarith+
  then show ?thesis using assms(2) by (simp add: link_of_def)
qed

lemma eoc_link: "writable v \<Longrightarrow> link_of v (fat_eoc v) = Inr NO_CLUSTER"
  using writable_bits[of v] by (auto simp: link_of_def fat_eoc_def fat_end_def)

text \<open>A list of clusters linked in the cached table is a chain on the disk.\<close>

lemma linked_chain:
  assumes "writable v" "synced v b" "all_clean v" "cs \<noteq> []" "\<And>c. c \<in> set cs \<Longrightarrow> in_volume v c"
    and "\<forall>i < length cs. fat_cached v (cs ! i) = (if Suc i < length cs then cs ! Suc i else fat_eoc v)"
  shows "fat_chain v b cs"
  using assms(4-6)
proof (induction cs)
  case (Cons c cs)
  have n: "vol_next v b c = link_of v (fat_cached v c)" using vol_next_cached[OF assms(1-3)] Cons.prems(2) by simp
  show ?case
  proof (cases cs)
    case Nil
    then show ?thesis using n Cons.prems eoc_link[OF assms(1)] by simp
  next
    case (Cons d ds)
    have "fat_cached v c = d" using Cons.prems(3)[rule_format, of 0] Cons by simp
    then have "vol_next v b c = Inr d" using n in_volume_link[OF assms(1), of d] Cons.prems(2) Cons by simp
    moreover have "fat_cached v (cs ! i) = (if Suc i < length cs then cs ! Suc i else fat_eoc v)" if "i < length cs" for i
      using Cons.prems(3)[rule_format, of "Suc i"] that by simp
    then have "fat_chain v b cs" using Cons.IH Cons.prems(2) Cons by simp
    ultimately show ?thesis using Cons by simp
  qed
qed simp

lemma rd16_pair: "d p = word_of_nat x \<Longrightarrow> d (p + 1) = word_of_nat (drop_bit 8 x) \<Longrightarrow> rd16 d p = word_of_nat x"
  using rd16_word[of p x d] by (simp add: rd16_def)

lemma halves: "ucast (word_of_nat x :: u16) OR push_bit 16 (ucast (word_of_nat (drop_bit 16 x) :: u16)) = (word_of_nat x :: u32)"
  by (rule bit_word_eqI) (auto simp: bit_simps)

lemma low_half: "x < 2 ^ 16 \<Longrightarrow> ucast (word_of_nat x :: u16) = (word_of_nat x :: u32)"
  by (rule unsigned_word_eqI[where 'a = nat]) (simp add: unat_of_nat unsigned_ucast_eq take_bit_nat_eq_self)

lemma set_first_entry:
  assumes "writable v" "first = 0 \<or> in_volume v first" "sz < 2 ^ 32" "d' = (fat_set_first d first sz)(11 := fat_set_first d first sz 11 OR 0x20)"
  shows "first_cluster v d' = first" "unat (rd32 d' 28) = sz" "d' 0 = d 0" "d' 11 = d 11 OR 0x20"
proof -
  show "d' 0 = d 0" "d' 11 = d 11 OR 0x20" by (simp_all add: assms(4) fat_set_first_def wr32_apply)
  have "rd32 d' 28 = rd32 (fat_set_first d first sz) 28" by (rule rd_cong(2)) (simp add: assms(4))
  also have "\<dots> = word_of_nat sz" unfolding fat_set_first_def by (rule rd32_wr32)
  finally show "unat (rd32 d' 28) = sz" using assms(3) by (simp add: unat_of_nat)
  have lo: "rd16 d' 26 = word_of_nat first" by (rule rd16_pair) (simp_all add: assms(4) fat_set_first_def wr32_apply)
  have hi: "rd16 d' 20 = word_of_nat (drop_bit 16 first)"
    by (rule rd16_pair) (simp_all add: assms(4) fat_set_first_def wr32_apply)
  have b: "first < 2 ^ 32" using assms(1,2) cc_bound[OF assms(1)] by (auto simp: in_volume_iff)
  show "first_cluster v d' = first"
  proof (cases "fv_fat_bits v = 32")
    case True
    then show ?thesis using b halves[of first] by (simp add: first_cluster_def lo hi unat_of_nat)
  next
    case False
    then have "first < 2 ^ 16" using assms(1,2) writable_bits[OF assms(1)] by (auto simp: writable_def vol_geom_def in_volume_iff)
    then show ?thesis using False b low_half[of first] by (simp add: first_cluster_def lo unat_of_nat)
  qed
qed


text \<open>What a replacement leaves behind: a volume between operations, the new chain, and every other cluster as it was.\<close>

definition replaced :: "'h vs \<Rightarrow> 'h vs \<Rightarrow> k_file \<Rightarrow> nat list \<Rightarrow> nat list \<Rightarrow> bytes \<Rightarrow> bytes \<Rightarrow> nat \<Rightarrow> bool" where
  "replaced x y f cs os d' data sz \<longleftrightarrow>
     vol_ready y \<and> geo (fst y) = geo (fst x) \<and> length cs = clusters_for (fst x) sz \<and> set cs \<subseteq> free_clusters_of (fst x) \<and>
     (cs \<noteq> [] \<longrightarrow> fat_chain (fst y) (view y) cs) \<and>
     (\<forall>q < sz. file_byte (fst x) (view y) cs q = data q) \<and>
     (\<forall>a < 32. view y (fl_directory_offset f + a) = d' a) \<and>
     (\<forall>c. in_volume (fst x) c \<and> c \<notin> free_clusters_of (fst x) \<and> c \<notin> set os \<longrightarrow>
        vol_next (fst y) (view y) c = vol_next (fst x) (view x) c) \<and>
     (\<forall>a \<ge> fv_root_start (fst x) * fv_sector (fst x). (\<forall>c\<in>free_clusters_of (fst x). \<not> in_cluster (fst x) c a) \<longrightarrow>
        \<not> (fl_directory_offset f \<le> a \<and> a < fl_directory_offset f + 32) \<longrightarrow> view y a = view x a)"

lemma clusters_cover:
  assumes "0 < cluster_size v" "q < sz"
  shows "q div cluster_size v < clusters_for v sz"
proof -
  have "sz \<le> clusters_for v sz * cluster_size v"
    using dividend_less_div_times[OF assms(1), of "sz + cluster_size v - 1"] assms(1) by (simp add: clusters_for_def)
  then show ?thesis using assms(2) by (simp add: less_mult_imp_div_less)
qed

lemma old_not_free: "old_chain v c os \<Longrightarrow> x \<in> set os \<Longrightarrow> in_volume v x \<and> x \<notin> free_clusters_of v"
  using cached_chain_in[of v os x] by (auto simp: old_chain_def free_clusters_of_def split: if_splits)

lemma slot_upper:
  assumes "slot_ok v off"
  shows "fv_root_start v * fv_sector v \<le> off"
proof -
  have "fv_root_start v * fv_sector v \<le> (off div fv_sector v) * fv_sector v"
    using assms by (intro mult_le_mono1) (simp add: slot_ok_def)
  then show ?thesis using div_times_less_eq_dividend[of off "fv_sector v"] by linarith
qed

lemma replaced_links:
  assumes "vol_ready (v, s)" "old_chain v c os" "written (v, s) (v1, s1) cs data sz"
    and y: "ready y" "all_clean (fst y)" "geo (fst y) = geo v" "published (v1, s1) y os off d'"
  shows "cs \<noteq> [] \<longrightarrow> fat_chain (fst y) (view y) cs"
    "\<And>x. in_volume v x \<Longrightarrow> x \<notin> free_clusters_of v \<Longrightarrow> x \<notin> set os \<Longrightarrow> vol_next (fst y) (view y) x = vol_next v (view (v, s)) x"
proof -
  have w: "writable v" and sy: "synced v (view (v, s))" and cl: "all_clean v" using assms(1) by (auto simp: vol_ready_def ready_def live_def)
  note gf = geo_fields[OF y(3)]
  note wr = assms(3)[unfolded written_def fst_conv]
  have w': "writable (fst y)" using geo_writable[OF y(3)] w by simp
  have sy': "synced (fst y) (view y)" using y(1) by (simp add: ready_def)
  have iv: "in_volume (fst y) x = in_volume v x" for x using gf by (simp add: in_volume_def)
  have lk: "link_of (fst y) = link_of v" "fat_eoc (fst y) = fat_eoc v" using gf by (simp_all add: link_of_def fat_end_def fat_eoc_def in_volume_def fun_eq_iff)
  have cached: "fat_cached (fst y) x = (if x \<in> set os then 0 else fat_cached v1 x)" if "in_volume v x" for x
    using y(4) that by (simp add: in_volume_iff published_def)
  have ci: "in_volume v x \<and> x \<notin> set os" if "x \<in> set cs" for x
    using that wr old_not_free[OF assms(2), of x] by (auto simp: free_clusters_of_def)
  have "fat_cached (fst y) (cs ! i) = (if Suc i < length cs then cs ! Suc i else fat_eoc (fst y))" if "i < length cs" for i
    using wr cached[of "cs ! i"] ci[OF nth_mem[OF that]] that lk(2) by simp
  then show "cs \<noteq> [] \<longrightarrow> fat_chain (fst y) (view y) cs"
    using linked_chain[OF w' sy' y(2), of cs] ci iv by blast
  fix x
  assume x: "in_volume v x" "x \<notin> free_clusters_of v" "x \<notin> set os"
  then have "x \<notin> set cs" using wr by auto
  then have "fat_cached (fst y) x = fat_cached v x" using cached[OF x(1)] x wr by (simp add: in_volume_iff)
  then show "vol_next (fst y) (view y) x = vol_next v (view (v, s)) x"
    using vol_next_cached[OF w' sy' y(2), of x] vol_next_cached[OF w sy cl x(1)] x(1) iv lk(1) by simp
qed

lemma replaced_bytes:
  assumes "writable v" "slot_ok v off" "geo v1 = geo v" "written (v, s) (v1, s1) cs data sz" "published (v1, s1) y os off d'"
  shows "q < sz \<Longrightarrow> file_byte v (view y) cs q = data q" "j < 32 \<Longrightarrow> view y (off + j) = d' j"
    "fv_root_start v * fv_sector v \<le> a \<Longrightarrow> \<forall>c\<in>free_clusters_of v. \<not> in_cluster v c a \<Longrightarrow> \<not> (off \<le> a \<and> a < off + 32) \<Longrightarrow>
       view y a = view (v, s) a"
proof -
  note gf = geo_fields[OF assms(3)]
  note wr = assms(4)[unfolded written_def fst_conv]
  have pu: "view y a = (if off \<le> a \<and> a < off + 32 then d' (a - off) else view (v1, s1) a)" if "fv_root_start v * fv_sector v \<le> a" for a
    using assms(5) that gf unfolding published_def fst_conv by simp
  have keep: "view (v1, s1) a = view (v, s) a" if "fv_root_start v * fv_sector v \<le> a" "\<forall>c\<in>free_clusters_of v. \<not> in_cluster v c a" for a
    using wr that by blast
  show "j < 32 \<Longrightarrow> view y (off + j) = d' j" using pu[of "off + j"] slot_upper[OF assms(2)] by simp
  show "fv_root_start v * fv_sector v \<le> a \<Longrightarrow> \<forall>c\<in>free_clusters_of v. \<not> in_cluster v c a \<Longrightarrow> \<not> (off \<le> a \<and> a < off + 32) \<Longrightarrow>
       view y a = view (v, s) a"
    using pu[of a] keep[of a] by auto
  assume q: "q < sz"
  let ?n = "cluster_size v" and ?i = "q div cluster_size v" and ?j = "q mod cluster_size v"
  have n: "0 < ?n" using assms(1) by (simp add: writable_def vol_geom_def)
  have i: "?i < length cs" using clusters_cover[OF n q] wr by simp
  have j: "?j < ?n" using n by simp
  have c: "cs ! ?i \<in> free_clusters_of v" using wr nth_mem[OF i] by blast
  let ?a = "cluster_start v (cs ! ?i) * fv_sector v + ?j"
  have up: "fv_root_start v * fv_sector v \<le> ?a" using cluster_upper[OF assms(1)] c by (simp add: free_clusters_of_def)
  have "\<not> (off \<le> ?a \<and> ?a < off + 32)" using assms(2) c in_cluster_pos[OF j, of "cs ! ?i"] unfolding slot_ok_def by blast
  then have "file_byte v (view y) cs q = view (v1, s1) ?a" unfolding file_byte_def using pu[OF up] by auto
  also have "\<dots> = (if ?i * ?n + ?j < sz then data (?i * ?n + ?j) else 0)" using wr i j by blast
  also have "\<dots> = data q" unfolding div_mult_mod_eq using q by simp
  finally show "file_byte v (view y) cs q = data q" .
qed

lemma replace_body_ready:
  assumes vr: "vol_ready (v, s)" and slot: "slot_ok v (fl_directory_offset f)" and old: "old_chain v (fl_cluster f) os"
    and cnt: "clusters_for v sz \<le> card (free_clusters_of v)"
  shows "\<exists>cs y. let first = (if cs = [] then 0 else hd cs); d' = (fat_set_first d first sz)(11 := fat_set_first d first sz 11 OR 0x20) in
    replace_body h f d data sz (clusters_for v sz) (v, s) = ((0, f\<lparr>fl_cluster := first, fl_size := sz\<rparr>), y) \<and>
    replaced (v, s) y f cs os d' data sz"
proof -
  let ?off = "fl_directory_offset f"
  have rv: "ready (v, s)" "counted v" "writable v" using vr by (auto simp: vol_ready_def ready_def live_def)
  obtain cs v1 s1 where c: "replace_chain h data sz (clusters_for v sz) (v, s) = (if cs = [] then 0 else hd cs, 0, v1, s1)"
    "ready (v1, s1)" "counted v1" "geo v1 = geo v" "written (v, s) (v1, s1) cs data sz"
    using replace_chain_ready[OF rv(1,2) cnt] by blast
  note wr = c(5)[unfolded written_def fst_conv]
  define first where "first = (if cs = [] then 0 else hd cs)"
  define d' where "d' = (fat_set_first d first sz)(11 := fat_set_first d first sz 11 OR 0x20)"
  have sl: "slot_area v1 ?off" using slot geo_fields[OF c(4)] by (simp add: slot_area_def slot_ok_def)
  have "fat_cached v1 x = fat_cached v x" if "x \<in> set os" for x using old_not_free[OF old that] wr by (auto simp: in_volume_iff)
  then have old1: "old_chain v1 (fl_cluster f) os" using old cached_chain_cong[OF _ c(4), of os] by (auto simp: old_chain_def)
  obtain y where y: "replace_body h f d data sz (clusters_for v sz) (v, s) = ((0, f\<lparr>fl_cluster := first, fl_size := sz\<rparr>), y)"
    "ready y" "counted (fst y)" "all_clean (fst y)" "geo (fst y) = geo v1" "published (v1, s1) y os ?off d'"
    using replace_tail_ready[OF c(2,3) sl old1 d'_def c(1)[folded first_def]] by blast
  have gy: "geo (fst y) = geo v" using y(5) c(4) by simp
  have "\<not> fv_partition_ro (fst y)" using vr geo_fields(19)[OF gy] by (simp add: vol_ready_def)
  then have "vol_ready y" using y(2-4) by (simp add: vol_ready_def)
  then have "replaced (v, s) y f cs os d' data sz" unfolding replaced_def fst_conv
    using wr gy replaced_links[OF vr old c(5) y(2,4) gy y(6)] replaced_bytes[OF rv(3) slot c(4,5) y(6)] by blast
  then show ?thesis using y(1) unfolding Let_def d'_def first_def by blast
qed


lemma refresh_entry:
  assumes "live (v, s)" "v = ff_volumes fs (fl_object f)" "fl_kind f = 2" "fl_object f < ff_volume_count fs" "fl_directory_offset f \<noteq> 0"
    and "fl_directory_offset f + 32 \<le> fv_length v * fv_sector v"
  shows "fat_refresh h fs f s =
    (let d = (\<lambda>a. if a < 32 then view (v, s) (fl_directory_offset f + a) else 0);
         f' = f\<lparr>fl_attributes := ucast (d 11), fl_size := unat (rd32 d 28), fl_cluster := first_cluster v d\<rparr> in
     if d 0 = 0 \<or> d 0 = 0xe5 \<or> d 11 AND 8 \<noteq> 0 then ((K_ENOENT, f), s)
     else ((if (fl_size f' \<noteq> 0 \<or> fl_attributes f' AND 0x10 \<noteq> 0 \<or> fl_cluster f' \<noteq> 0) \<and> \<not> in_volume v (fl_cluster f')
            then K_EIO else 0, f'), s))"
  using live_bytes[OF assms(1,6), of h "\<lambda>_. 0"] assms(2-5) by (simp add: Fat.fat_refresh_def Let_def cong: if_cong)

lemma refresh_fields:
  assumes "fat_refresh h fs f s = ((0, f1), s)"
  shows "fl_kind f1 = 2" "fl_object f1 = fl_object f" "fl_directory_offset f1 = fl_directory_offset f" "fl_object f < ff_volume_count fs"
    "fl_kind f = 2"
  using assms by (auto simp: Fat.fat_refresh_def Let_def split: if_splits prod.splits)

lemma attribute_bits:
  fixes x :: u8
  assumes "x AND 8 = 0" "(ucast x :: u32) AND 0x11 = 0"
  shows "(x OR 0x20) AND 8 = 0" "(ucast (x OR 0x20) :: u32) AND 0x10 = 0"
proof -
  show "(x OR 0x20) AND 8 = 0" using assms(1) by (simp add: bit.conj_disj_distrib2)
  have "(ucast x :: u32) AND 0x10 = (ucast x AND 0x11) AND 0x10" by (simp add: and.assoc)
  then show "(ucast (x OR 0x20) :: u32) AND 0x10 = 0" using assms(2) by (simp add: unsigned_or_eq bit.conj_disj_distrib2)
qed

text \<open>The handle of a replaced file is fresh: reading its entry again gives the same cluster and size.\<close>

lemma refresh_replaced:
  assumes rp: "replaced (v, s) (v', s') f1 cs os d' data sz" and wv: "writable v"
    and first: "first = (if cs = [] then 0 else hd cs)" and d': "d' = (fat_set_first d first sz)(11 := fat_set_first d first sz 11 OR 0x20)"
    and sz: "sz < 2 ^ 32" and slot: "slot_ok v (fl_directory_offset f1)"
    and old: "d 0 \<noteq> 0" "d 0 \<noteq> 0xe5" "d 11 AND 8 = 0" "(ucast (d 11) :: u32) AND 0x11 = 0"
    and f2: "f2 = f1\<lparr>fl_cluster := first, fl_size := sz\<rparr>"
    and fs': "v' = ff_volumes fs' (fl_object f1)" "fl_object f1 < ff_volume_count fs'" "fl_kind f1 = 2" "fl_directory_offset f1 \<noteq> 0"
  shows "\<exists>f3. fat_refresh h fs' f2 s' = ((0, f3), s') \<and> fl_object f3 = fl_object f1 \<and> fl_cluster f3 = first \<and> fl_size f3 = sz"
proof -
  let ?off = "fl_directory_offset f1"
  define b where "b = (\<lambda>a. if a < 32 then view (v', s') (?off + a) else 0)"
  have g: "geo v' = geo v" "live (v', s')" "length cs = clusters_for v sz" "set cs \<subseteq> free_clusters_of v" "\<forall>a < 32. view (v', s') (?off + a) = d' a"
    using rp by (auto simp: replaced_def vol_ready_def ready_def)
  note gf = geo_fields[OF g(1)]
  have in1: "first = 0 \<and> sz = 0 \<or> in_volume v first"
  proof (cases cs)
    case Nil
    then have "clusters_for v sz = 0" using g(3) by simp
    then have "sz = 0" using clusters_cover[of v 0 sz] wv by (cases sz) (auto simp: writable_def vol_geom_def)
    then show ?thesis using Nil first by simp
  next
    case (Cons c ds)
    then show ?thesis using first g(4) by (auto simp: free_clusters_of_def)
  qed
  have "first = 0 \<or> in_volume v first" using in1 by blast
  note e = set_first_entry[OF wv this sz d']
  have bd: "b a = d' a" if "a < 32" for a using g(5) that by (simp add: b_def)
  have "rd16 b 26 = rd16 d' 26" "rd16 b 20 = rd16 d' 20" "rd32 b 28 = rd32 d' 28" by (intro rd_cong; simp add: bd)+
  then have fc: "first_cluster v' b = first" "unat (rd32 b 28) = sz" using gf(4) e(1,2) by (auto simp: first_cluster_def)
  have bits: "b 0 \<noteq> 0" "b 0 \<noteq> 0xe5" "b 11 AND 8 = 0" "(ucast (b 11) :: u32) AND 0x10 = 0"
    using bd[of 0] bd[of 11] e(3,4) old(1,2) attribute_bits[OF old(3,4)] by simp_all
  have iv: "in_volume v' first = in_volume v first" using gf by (simp add: in_volume_def)
  have o2: "fl_kind f2 = 2" "fl_object f2 = fl_object f1" "fl_directory_offset f2 = ?off" using f2 fs' by simp_all
  have sl: "?off + 32 \<le> fv_length v' * fv_sector v'" using slot gf by (simp add: slot_ok_def)
  have "fat_refresh h fs' f2 s' = ((0, f2\<lparr>fl_attributes := ucast (b 11), fl_size := sz, fl_cluster := first\<rparr>), s')"
    unfolding refresh_entry[OF g(2), of fs' f2 h, unfolded o2, folded b_def, OF fs'(1) refl fs'(2,4) sl] Let_def
    using bits fc iv in1 by auto
  then show ?thesis using o2 by simp
qed

lemma ready_again: "vol_ready x \<Longrightarrow> fat_prepare_write h x = (0, x)"
  by (cases x) (simp add: vol_ready_def counted_def ready_def live_def fat_prepare_write_def Let_def)

text \<open>The replacement inside the table of volumes.\<close>

lemma replace_locked_ready:
  assumes v: "v = ff_volumes fs (fl_object f)" "vol_ready (v, s)" and r: "fat_refresh h fs f s = ((0, f1), s)"
    and off: "fl_directory_offset f \<noteq> 0" "fl_attributes f1 AND 0x11 = 0" "slot_ok v (fl_directory_offset f)"
    and old: "old_chain v (fl_cluster f1) os" and sz: "sz \<le> FAT_WRITE_MAX" "clusters_for v sz \<le> fv_free_clusters v"
  shows "\<exists>cs d f2 v' s'. fat_replace_locked h f data sz (fs, s) = ((0, f2), fs\<lparr>ff_volumes := (ff_volumes fs)(fl_object f := v')\<rparr>, s') \<and>
    f2 = f1\<lparr>fl_cluster := if cs = [] then 0 else hd cs, fl_size := sz\<rparr> \<and>
    d 0 \<noteq> 0 \<and> d 0 \<noteq> 0xe5 \<and> d 11 AND 8 = 0 \<and> (ucast (d 11) :: u32) AND 0x11 = 0 \<and>
    replaced (v, s) (v', s') f1 cs os ((fat_set_first d (fl_cluster f2) sz)(11 := fat_set_first d (fl_cluster f2) sz 11 OR 0x20)) data sz"
proof -
  note rf = refresh_fields[OF r]
  have l: "live (v, s)" "counted v" using v(2) by (auto simp: vol_ready_def ready_def)
  have cnt: "clusters_for v sz \<le> card (free_clusters_of v)" using sz(2) l(2) by (simp add: counted_def)
  have i: "fl_directory_offset f + 32 \<le> fv_length v * fv_sector v" using off(3) by (simp add: slot_ok_def)
  define d where "d = (\<lambda>a. if a < 32 then view (v, s) (fl_directory_offset f + a) else 0)"
  have re: "d 0 \<noteq> 0 \<and> d 0 \<noteq> 0xe5 \<and> d 11 AND 8 = 0 \<and> fl_attributes f1 = ucast (d 11)"
    using r refresh_entry[OF l(1) v(1) rf(5,4) off(1) i, of h, folded d_def] by (auto simp: Let_def split: if_splits)
  obtain cs v' s' where b: "replace_body h f1 d data sz (clusters_for v sz) (v, s) =
      ((0, f1\<lparr>fl_cluster := if cs = [] then 0 else hd cs, fl_size := sz\<rparr>), v', s')"
    "replaced (v, s) (v', s') f1 cs os ((fat_set_first d (if cs = [] then 0 else hd cs) sz)
       (11 := fat_set_first d (if cs = [] then 0 else hd cs) sz 11 OR 0x20)) data sz"
    using replace_body_ready[OF v(2), of f1 os sz d h data] off(3) old cnt rf(3) unfolding Let_def by (metis prod.exhaust)
  have "replace_prepared h f1 data sz (v, s) = ((0, f1\<lparr>fl_cluster := if cs = [] then 0 else hd cs, fl_size := sz\<rparr>), v', s')"
    using ready_again[OF v(2), of h] sz(2) live_bytes[OF l(1) i, of h "\<lambda>_. 0", folded d_def] b(1) rf(3)
    by (simp add: replace_prepared_def Let_def clusters_for_def)
  then have "fat_replace_locked h f data sz (fs, s) =
      ((0, f1\<lparr>fl_cluster := if cs = [] then 0 else hd cs, fl_size := sz\<rparr>), fs\<lparr>ff_volumes := (ff_volumes fs)(fl_object f := v')\<rparr>, s')"
    using r rf off sz(1) v(1) by (simp add: FatWrite.fat_replace_locked_def with_volume_def)
  then show ?thesis using b(2) re off(2)
    by (intro exI[of _ cs] exI[of _ d] exI[of _ "f1\<lparr>fl_cluster := if cs = [] then 0 else hd cs, fl_size := sz\<rparr>"] exI[of _ v'] exI[of _ s']) simp
qed

lemma write_max_clusters:
  assumes "live (v, s)" "sz \<le> FAT_WRITE_MAX"
  shows "sz \<le> 65537 * cluster_size v"
proof -
  have "disk_ok (s_disks s (fv_disk v))" "fv_sector v = d_sector_size (s_disks s (fv_disk v))"
    using assms(1) store_invD by (auto simp: live_def vol_good_def ram_good_def)
  moreover have "0 < fv_spc v" using live_D(3)[OF assms(1)] by (simp add: vol_geom_def)
  ultimately have "1 * 512 \<le> cluster_size v" by (intro mult_le_mono) (auto simp: disk_ok_def)
  then show ?thesis using assms(2) by (simp add: FAT_WRITE_MAX_def)
qed

text \<open>
  C8. A file that was replaced reads back as the data written. Take a prepared FAT16 or FAT32 volume on
  a RAM disk between two operations, an existing writable file whose entry lies in a directory and whose
  clusters form a chain, and data that fit the write limit and the free space. Then the replacement
  succeeds, the volume is again between two operations, and every read of the file, at any offset and of
  any length, returns exactly the new data, cut at their end. Every cluster that was in use and is not
  one of the old file keeps its link, and outside the free clusters and the entry no byte of the
  directories and data has changed.
\<close>

theorem fat_replace_read:
  assumes "v = ff_volumes fs (fl_object f)" "vol_ready (v, s)" "fat_refresh h fs f s = ((0, f1), s)"
    and "fl_directory_offset f \<noteq> 0" "fl_attributes f1 AND 0x11 = 0" "slot_ok v (fl_directory_offset f)"
    and "old_chain v (fl_cluster f1) os" "sz \<le> FAT_WRITE_MAX" "clusters_for v sz \<le> fv_free_clusters v"
  shows "\<exists>f2 fs' s' v'. fat_replace_locked h f data sz (fs, s) = ((0, f2), fs', s') \<and> v' = ff_volumes fs' (fl_object f) \<and>
    vol_ready (v', s') \<and>
    (\<forall>offset n out. \<exists>out'. fat_read h fs' f2 offset out n s' = ((0, out', min n (sz - offset)), s') \<and>
       (\<forall>a < min n (sz - offset). out' a = data (offset + a)) \<and> (\<forall>a \<ge> min n (sz - offset). out' a = out a)) \<and>
    (\<forall>c. in_volume v c \<and> c \<notin> free_clusters_of v \<and> c \<notin> set os \<longrightarrow> vol_next v' (view (v', s')) c = vol_next v (view (v, s)) c) \<and>
    (\<forall>a \<ge> fv_root_start v * fv_sector v. (\<forall>c\<in>free_clusters_of v. \<not> in_cluster v c a) \<longrightarrow>
       \<not> (fl_directory_offset f \<le> a \<and> a < fl_directory_offset f + 32) \<longrightarrow> view (v', s') a = view (v, s) a)"
proof -
  note rf = refresh_fields[OF assms(3)]
  have w: "writable v" "live (v, s)" using assms(2) by (auto simp: vol_ready_def ready_def live_def)
  obtain cs d f2 v' s' where r: "fat_replace_locked h f data sz (fs, s) = ((0, f2), fs\<lparr>ff_volumes := (ff_volumes fs)(fl_object f := v')\<rparr>, s')"
    "f2 = f1\<lparr>fl_cluster := if cs = [] then 0 else hd cs, fl_size := sz\<rparr>" "d 0 \<noteq> 0" "d 0 \<noteq> 0xe5" "d 11 AND 8 = 0" "(ucast (d 11) :: u32) AND 0x11 = 0"
    and rp: "replaced (v, s) (v', s') f1 cs os ((fat_set_first d (fl_cluster f2) sz)(11 := fat_set_first d (fl_cluster f2) sz 11 OR 0x20)) data sz"
    using replace_locked_ready[OF assms, of data] by blast
  let ?fs = "fs\<lparr>ff_volumes := (ff_volumes fs)(fl_object f := v')\<rparr>"
  note rp' = rp[unfolded replaced_def fst_conv]
  have g: "geo v' = geo v" "live (v', s')" using rp' by (auto simp: vol_ready_def ready_def)
  have sz: "sz < 2 ^ 32" using assms(8) by (simp add: FAT_WRITE_MAX_def)
  have "\<exists>f3. fat_refresh h ?fs f2 s' = ((0, f3), s') \<and> fl_object f3 = fl_object f1 \<and> fl_cluster f3 = fl_cluster f2 \<and> fl_size f3 = sz"
    using assms(4,6) rf r by (intro refresh_replaced[OF rp w(1) _ refl sz]) simp_all
  then obtain f3 where f3: "fat_refresh h ?fs f2 s' = ((0, f3), s')" "fl_object f3 = fl_object f" "fl_cluster f3 = fl_cluster f2" "fl_size f3 = sz"
    using rf(2) by auto
  have cs: "cs \<noteq> []" "sz \<le> length cs * cluster_size v" if "0 < sz"
  proof -
    have n: "0 < cluster_size v" using w by (simp add: writable_def vol_geom_def)
    have "(sz - 1) div cluster_size v < length cs" using clusters_cover[OF n, of "sz - 1" sz] that rp' by simp
    then have "sz - 1 < length cs * cluster_size v" using n by (simp add: div_less_iff_less_mult)
    then show "cs \<noteq> []" "sz \<le> length cs * cluster_size v" by auto
  qed
  note gf = geo_fields[OF g(1)]
  have fb: "file_byte v' = file_byte v" using gf by (simp add: file_byte_def cluster_start_def fun_eq_iff)
  have "fl_size f3 \<le> length cs * cluster_size v'" "fl_size f3 \<le> 65537 * cluster_size v'"
    using cs(2) write_max_clusters[OF w(2) assms(8)] f3(4) gf by (cases "sz = 0"; simp)+
  moreover have "fat_chain v' (vol_view v' s') cs \<and> cs ! 0 = fl_cluster f3" if "0 < fl_size f3"
    using rp' cs(1) that f3(3,4) r(2) by (auto simp: view_def hd_conv_nth)
  ultimately have rd: "\<exists>out'. fat_read h ?fs f2 offset out n s' = ((0, out', min n (sz - offset)), s') \<and>
       (\<forall>a < min n (sz - offset). out' a = file_byte v (view (v', s')) cs (offset + a)) \<and> (\<forall>a \<ge> min n (sz - offset). out' a = out a)" for offset n out
    using fat_read_ram[OF f3(1), of v' cs offset out n] f3 rf(4) live_D(1,3)[OF g(2)] fb by (simp add: view_def)
  have "file_byte v (view (v', s')) cs (offset + a) = data (offset + a)" if "a < min n (sz - offset)" for a n offset
    using rp' that by auto
  then have "\<exists>out'. fat_read h ?fs f2 offset out n s' = ((0, out', min n (sz - offset)), s') \<and>
       (\<forall>a < min n (sz - offset). out' a = data (offset + a)) \<and> (\<forall>a \<ge> min n (sz - offset). out' a = out a)" for offset n out
    using rd[of offset out n] by (metis (no_types, lifting))
  then show ?thesis using r(1) rp' rf(3) by (intro exI[of _ f2] exI[of _ ?fs] exI[of _ s'] exI[of _ v']) auto
qed

text \<open>The volume of the examples on a RAM disk: the file's entry is the first of the root directory.\<close>

definition ex16_image :: bytes where
  "ex16_image = (\<lambda>a. if 512 \<le> a \<and> a < 8704 then ex16_table (a - 512)
     else ((\<lambda>_. 0)(8704 := 0x41, 8715 := 0x20, 8730 := 2, 8732 := 5)) a)"

definition ex16_ram :: "unit store" where
  "ex16_ram = ex_store\<lparr>s_disks := (\<lambda>i. (s_disks ex_store i)\<lparr>d_sectors := 5000\<rparr>),
     s_pmm := ex_pmm\<lparr>ram := (\<lambda>a. ex16_image (a - 1099776))\<rparr>\<rparr>"

lemma ex16_good: "vol_good ex16_volume ex16_ram"
proof -
  have "power2 512" by (simp add: power2_iff) (rule exI[of _ 9], simp)
  then show ?thesis by (simp add: vol_good_def ram_good_def store_inv_def ex16_ram_def ex16_volume_def ex_store_def disk_ok_def K_MAX_DISKS_def)
qed

lemma ex16_view: "view (ex16_volume, ex16_ram) = ex16_image"
  by (simp add: view_def vol_view_def ex16_volume_def) (simp add: ex16_ram_def ex_store_def)

lemma ex16_ready: "vol_ready (ex16_volume, ex16_ram)"
proof -
  have c: "\<not> bit_get (fv_dirty_bits ex16_volume) k" for k by (simp add: ex16_volume_def bit_get_def)
  have "agrees ex16_volume ex16_image f k" if "k < 16" "f < 1" for f k
  proof -
    have "ex16_image (512 + k * 512 + j) = ex16_table (k * 512 + j)" if "j < 512" for j
    proof -
      have "k * 512 \<le> 15 * 512" using \<open>k < 16\<close> by (intro mult_le_mono1) simp
      then have "512 + k * 512 + j < 8704" using that by simp
      then show ?thesis by (simp add: ex16_image_def)
    qed
    then show ?thesis using that by (simp add: agrees_def copy_sector_def ex16_volume_def)
  qed
  then have "synced ex16_volume ex16_image" by (simp add: synced_def fat_copies_def) (simp add: ex16_volume_def)
  then show ?thesis using c ex16_writable ex16_good ex16_hint ex16_count
    by (simp add: vol_ready_def ready_def live_def counted_def all_clean_def ex16_view) (simp add: ex16_volume_def)
qed

lemma ex16_slot: "slot_ok ex16_volume 8704"
proof -
  have "\<not> in_cluster ex16_volume c a" if "3 \<le> c" "a < 8736" for c a
    using that by (auto simp: in_cluster_def ex16_volume_def cluster_start_def)
  then show ?thesis unfolding slot_ok_def ex16_free by (auto simp: ex16_volume_def)
qed

lemma ex16_refresh: "fat_refresh ex_hw ex16_fs (fat_file 0 0 0 0 8704) ex16_ram = ((0, fat_file 0 2 0x20 5 8704), ex16_ram)"
proof -
  have l: "live (ex16_volume, ex16_ram)" using ex16_ready by (simp add: vol_ready_def ready_def)
  define d where "d = (\<lambda>a. if a < 32 then ex16_image (8704 + a) else 0)"
  have d: "d 0 = 0x41" "d 11 = 0x20" "rd32 d 28 = 5" "rd16 d 26 = 2" by (simp_all add: d_def ex16_image_def rd32_def rd16_def)
  have c: "first_cluster ex16_volume d = 2" "in_volume ex16_volume 2" by (simp_all add: first_cluster_def d ex16_volume_def in_volume_def)
  let ?f = "fat_file 0 0 0 0 8704"
  have f: "fl_kind ?f = 2" "fl_object ?f = 0" "fl_directory_offset ?f = 8704" by (simp_all add: fat_file_def)
  have p: "ex16_volume = ff_volumes ex16_fs 0" "0 < ff_volume_count ex16_fs" "(8704::nat) \<noteq> 0" "8704 + 32 \<le> fv_length ex16_volume * fv_sector ex16_volume"
    by (simp_all add: ex16_fs_def) (simp add: ex16_volume_def)
  show ?thesis
    unfolding refresh_entry[OF l, of ex16_fs ?f ex_hw, unfolded f, unfolded ex16_view, folded d_def, OF p(1) refl p(2-4)] Let_def d c(1)
    by (simp add: fat_file_def c(2))
qed

theorem fat_replace_read_witness:
  "\<exists>f2 fs' s' out'. fat_replace_locked ex_hw (fat_file 0 0 0 0 8704) (\<lambda>a. word_of_nat a) 1000 (ex16_fs, ex16_ram) = ((0, f2), fs', s') \<and>
     fat_read ex_hw fs' f2 600 (\<lambda>_. 0) 2000 s' = ((0, out', 400), s') \<and> out' 100 = 188 \<and> out' 400 = 0"
proof -
  have f: "ex16_volume = ff_volumes ex16_fs (fl_object (fat_file 0 0 0 0 8704))" "fl_directory_offset (fat_file 0 0 0 0 8704) \<noteq> 0"
    "fl_attributes (fat_file 0 2 0x20 5 8704) AND 0x11 = 0" "slot_ok ex16_volume (fl_directory_offset (fat_file 0 0 0 0 8704))"
    using ex16_slot by (simp_all add: ex16_fs_def fat_file_def)
  have o: "old_chain ex16_volume (fl_cluster (fat_file 0 2 0x20 5 8704)) [2]"
    by (simp add: old_chain_def fat_file_def ex16_cached fat_is_end_def in_volume_def) (simp add: ex16_volume_def)
  have z: "1000 \<le> FAT_WRITE_MAX" "clusters_for ex16_volume 1000 \<le> fv_free_clusters ex16_volume"
    by (simp_all add: FAT_WRITE_MAX_def clusters_for_def ex16_volume_def)
  obtain f2 fs' s' where r: "fat_replace_locked ex_hw (fat_file 0 0 0 0 8704) (\<lambda>a. word_of_nat a) 1000 (ex16_fs, ex16_ram) = ((0, f2), fs', s')"
    and rd: "\<forall>offset n out. \<exists>out'. fat_read ex_hw fs' f2 offset out n s' = ((0, out', min n (1000 - offset)), s') \<and>
       (\<forall>a < min n (1000 - offset). out' a = word_of_nat (offset + a)) \<and> (\<forall>a \<ge> min n (1000 - offset). out' a = out a)"
    using fat_replace_read[OF f(1) ex16_ready ex16_refresh f(2-4) o z, of "\<lambda>a. word_of_nat a"] by blast
  obtain out' where o': "fat_read ex_hw fs' f2 600 (\<lambda>_. 0) 2000 s' = ((0, out', min 2000 (1000 - 600)), s')"
    "\<forall>a < min 2000 (1000 - 600). out' a = word_of_nat (600 + a)" "\<forall>a \<ge> min 2000 (1000 - 600). out' a = 0"
    using rd[rule_format, of 600 "\<lambda>_. 0" 2000] by blast
  have "out' 100 = 188" "out' 400 = 0" using o'(2)[rule_format, of 100] o'(3) by simp_all
  then show ?thesis using r o'(1) by (intro exI[of _ f2] exI[of _ fs'] exI[of _ s'] exI[of _ out']) simp
qed

end
