(* ===== verification/Io.thy ===== *)
theory Io
  imports Prelude
begin

text \<open>
  Computations that may fail: an operation on a state returns an error code or a value, and the new
  state. Volume code that returns early on every error is written with these combinators.
\<close>

type_synonym ('s, 'a) io = "'s \<Rightarrow> (int + 'a) \<times> 's"

definition io_ok :: "'a \<Rightarrow> ('s, 'a) io" where "io_ok x s = (Inr x, s)"

definition io_err :: "int \<Rightarrow> ('s, 'a) io" where "io_err e s = (Inl e, s)"

definition io_bind :: "('s, 'a) io \<Rightarrow> ('a \<Rightarrow> ('s, 'b) io) \<Rightarrow> ('s, 'b) io" where
  "io_bind m f s = (case m s of (Inl e, s) \<Rightarrow> (Inl e, s) | (Inr x, s) \<Rightarrow> f x s)"

definition io_guard :: "bool \<Rightarrow> int \<Rightarrow> ('s, 'b) io \<Rightarrow> ('s, 'b) io" where
  "io_guard bad e m = (if bad then io_err e else m)"

definition io_sum :: "int + 'a \<Rightarrow> ('s, 'a) io" where "io_sum r s = (r, s)"

fun io_each :: "(nat \<Rightarrow> 'a \<Rightarrow> ('s, 'a) io) \<Rightarrow> nat list \<Rightarrow> 'a \<Rightarrow> ('s, 'a) io" where
  "io_each f [] a = io_ok a"
| "io_each f (k # ks) a = io_bind (f k a) (io_each f ks)"

section \<open>What computations keep\<close>

lemma io_simps [simp]:
  "io_ok x s = (Inr x, s)" "io_err e s = (Inl e, s)" "io_sum r s = (r, s)" "io_guard False e m = m" "io_guard True e m = io_err e"
  by (simp_all add: io_ok_def io_err_def io_sum_def io_guard_def)

lemma io_guard_Inr [simp]: "io_guard b e m s = (Inr r, s') \<longleftrightarrow> \<not> b \<and> m s = (Inr r, s')"
  by (auto simp: io_guard_def)

lemma io_bind_Inr: "io_bind m f s = (Inr r, s') \<longleftrightarrow> (\<exists>x t. m s = (Inr x, t) \<and> f x t = (Inr r, s'))"
  by (auto simp: io_bind_def split: prod.splits sum.splits)

lemma io_each_inv:
  assumes "\<And>k a s r s'. k \<in> set ks \<Longrightarrow> P a \<Longrightarrow> f k a s = (Inr r, s') \<Longrightarrow> P r" "P a" "io_each f ks a s = (Inr r, s')"
  shows "P r"
  using assms
proof (induction ks arbitrary: a s)
  case (Cons k ks)
  from Cons.prems(3) obtain x t where x: "f k a s = (Inr x, t)" "io_each f ks x t = (Inr r, s')" by (auto simp: io_bind_Inr)
  have "P x" using Cons.prems(1)[OF _ Cons.prems(2) x(1)] by simp
  then show ?case using Cons.IH[OF _ _ x(2)] Cons.prems(1) by (metis list.set_intros(2))
qed simp

text \<open>A property of the state that a computation keeps, whatever its result.\<close>

definition io_keeps :: "('s \<Rightarrow> bool) \<Rightarrow> ('s \<Rightarrow> 'r \<times> 's) \<Rightarrow> bool" where
  "io_keeps J m \<longleftrightarrow> (\<forall>s. J s \<longrightarrow> J (snd (m s)))"

lemma io_keepsD: "io_keeps J m \<Longrightarrow> J s \<Longrightarrow> m s = (r, s') \<Longrightarrow> J s'"
  by (metis io_keeps_def snd_conv)

lemma io_keepsI: "(\<And>s r s'. J s \<Longrightarrow> m s = (r, s') \<Longrightarrow> J s') \<Longrightarrow> io_keeps J m"
  by (metis io_keeps_def prod.collapse)

lemma io_keeps_simps [simp]: "io_keeps J (io_ok x)" "io_keeps J (io_err e)" "io_keeps J (io_sum r)"
  by (simp_all add: io_keeps_def)

lemma io_keeps_guard [intro]: "(\<not> b \<Longrightarrow> io_keeps J m) \<Longrightarrow> io_keeps J (io_guard b e m)"
  by (simp add: io_guard_def)

lemma io_keeps_bind [intro]: "io_keeps J m \<Longrightarrow> (\<And>x. io_keeps J (f x)) \<Longrightarrow> io_keeps J (io_bind m f)"
  by (simp add: io_keeps_def io_bind_def split: prod.splits sum.splits) (metis snd_conv)

lemma io_keeps_each: "(\<And>k a. k \<in> set ks \<Longrightarrow> io_keeps J (f k a)) \<Longrightarrow> io_keeps J (io_each f ks a)"
proof (induction ks arbitrary: a)
  case (Cons k ks)
  then show ?case unfolding io_each.simps by (intro io_keeps_bind) simp_all
qed simp

end
