(* ===== verification/Native.thy ===== *)
theory Native
  imports FatMount Io
begin

unbundle bit_operations_syntax

text \<open>
  The native volumes (\<open>fs/fs.c\<close>): what ext4 and NTFS volumes share, and reading ext4
  (\<open>crc32c_step\<close> to \<open>ext_directory\<close>). A volume counts in blocks of \<open>nv_block\<close> bytes; a file is a list of
  runs from file blocks to volume blocks. Offsets and block numbers are natural numbers; the places
  where the source guards against wrapping keep their guards.
\<close>

section \<open>Volumes and runs\<close>

definition NATIVE_RUNS :: nat where "NATIVE_RUNS = 256"

definition NATIVE_SCAN_MAX :: nat where "NATIVE_SCAN_MAX = 32 * 1024 * 1024"

record native_run =
  nr_logical :: nat
  nr_physical :: nat
  nr_length :: nat
  nr_hole :: bool

record native_volume =
  nv_kind :: nat
  nv_disk :: nat
  nv_sector :: nat
  nv_block :: nat
  nv_start :: nat
  nv_length :: nat
  nv_blocks :: nat
  nv_read_only :: bool
  nv_failed :: bool
  nv_wrote :: bool
  nv_source :: string
  nv_super :: bytes
  nv_inode_size :: nat
  nv_inodes :: nat
  nv_inodes_per_group :: nat
  nv_blocks_per_group :: nat
  nv_groups :: nat
  nv_desc_size :: nat
  nv_csum_seed :: u32
  nv_csum :: bool
  nv_gdt_csum :: bool
  nv_record_size :: nat
  nv_index_size :: nat
  nv_mft_count :: nat
  nv_mft_size :: nat
  nv_mft :: "native_run list"

record native_fs =
  na_volumes :: "nat \<Rightarrow> native_volume"
  na_count :: nat

type_synonym 'h nvs = "native_volume \<times> 'h store"

definition crc32c_bit :: "u32 \<Rightarrow> u32" where
  "crc32c_bit crc = drop_bit 1 crc XOR (0x82f63b78 AND (0 - (crc AND 1)))"

definition crc32c_step :: "u32 \<Rightarrow> bytes \<Rightarrow> nat \<Rightarrow> u32" where
  "crc32c_step crc p n = fold (\<lambda>j crc. (crc32c_bit ^^ 8) (crc XOR ucast (p j))) [0..<n] crc"

definition crc16_bit :: "u16 \<Rightarrow> u16" where
  "crc16_bit crc = drop_bit 1 crc XOR (0xa001 AND (0 - (crc AND 1)))"

definition crc16_step :: "u16 \<Rightarrow> bytes \<Rightarrow> nat \<Rightarrow> u16" where
  "crc16_step crc p n = fold (\<lambda>j crc. (crc16_bit ^^ 8) (crc XOR ucast (p j))) [0..<n] crc"

text \<open>The division fault of \<^const>\<open>disk_bytes\<close> is an error here, as for FAT volumes.\<close>

definition native_bytes :: "'h hw \<Rightarrow> native_volume \<Rightarrow> nat \<Rightarrow> bytes \<Rightarrow> nat \<Rightarrow> 'h store \<Rightarrow> (int \<times> bytes) \<times> 'h store" where
  "native_bytes h v offset out n s =
     (if \<not> span_ok offset n (nv_length v * nv_sector v) then ((K_EIO, out), s)
      else case disk_bytes h (nv_disk v) (nv_start v * nv_sector v + offset) out n s of
        None \<Rightarrow> ((K_EIO, out), s)
      | Some r \<Rightarrow> r)"

text \<open>A read into a fresh buffer.\<close>

definition native_get :: "'h hw \<Rightarrow> native_volume \<Rightarrow> nat \<Rightarrow> nat \<Rightarrow> ('h store, bytes) io" where
  "native_get h v offset n s =
     (case native_bytes h v offset (\<lambda>_. 0) n s of ((e, b), s) \<Rightarrow> (if e \<noteq> 0 then Inl e else Inr b, s))"

text \<open>Every sector is read first unless it is written in full.\<close>

function native_write_loop :: "'h hw \<Rightarrow> native_volume \<Rightarrow> nat \<Rightarrow> bytes \<Rightarrow> nat \<Rightarrow> 'h store \<Rightarrow> int \<times> 'h store" where
  "native_write_loop h v offset data n s =
     (if n = 0 then (0, s)
      else if nv_sector v = 0 then (K_EIO, s)
      else
        let lba = offset div nv_sector v; at = offset mod nv_sector v; m = min n (nv_sector v - at) in
        case (if at \<noteq> 0 \<or> m < nv_sector v then native_bytes h v (lba * nv_sector v) (\<lambda>_. 0) (nv_sector v) s
              else ((0, \<lambda>_. 0), s)) of
          ((e, b), s) \<Rightarrow>
            if e \<noteq> 0 then (e, s)
            else case disk_write_fs h (nv_disk v) (nv_start v + lba) 1 (Some (put_bytes b at data 0 m)) (nv_sector v) s of
              None \<Rightarrow> (K_EIO, s)
            | Some (e, s) \<Rightarrow>
                if e \<noteq> 0 then (e, s) else native_write_loop h v (offset + m) (\<lambda>j. data (m + j)) (n - m) s)"
  by pat_completeness auto
termination
  by (relation "measure (\<lambda>(h, v, offset, data, n, s). n)") (auto simp: Let_def)

declare native_write_loop.simps [simp del]

definition native_write_bytes :: "'h hw \<Rightarrow> nat \<Rightarrow> bytes \<Rightarrow> nat \<Rightarrow> 'h nvs \<Rightarrow> int \<times> 'h nvs" where
  "native_write_bytes h offset data n x =
     (let v = fst x in
      if nv_read_only v \<or> nv_failed v then (K_EROFS, x)
      else if \<not> span_ok offset n (nv_length v * nv_sector v) then (K_EIO, x)
      else case native_write_loop h v offset data n (snd x) of
        (e, s) \<Rightarrow>
          (case (if e \<noteq> 0 then (e, s) else disk_flush h (nv_disk v) s) of
             (e, s) \<Rightarrow> (e, if e \<noteq> 0 then v\<lparr>nv_failed := True\<rparr> else v\<lparr>nv_wrote := True\<rparr>, s)))"

definition run_add :: "native_volume \<Rightarrow> nat \<Rightarrow> nat \<Rightarrow> nat \<Rightarrow> bool \<Rightarrow> native_run list \<Rightarrow> int + native_run list" where
  "run_add v logical physical len hole runs =
     (if len = 0 \<or> length runs = NATIVE_RUNS \<or> logical > 2 ^ 64 - 1 - len \<or>
         (\<not> hole \<and> (physical \<ge> nv_blocks v \<or> len > nv_blocks v - physical)) then Inl K_EIO
      else if runs \<noteq> [] \<and> logical < nr_logical (last runs) + nr_length (last runs) then Inl K_EIO
      else if \<not> hole \<and> (\<exists>r\<in>set runs. \<not> nr_hole r \<and> overlap physical len (nr_physical r) (nr_length r)) then Inl K_EIO
      else Inr (runs @ [\<lparr>nr_logical = logical, nr_physical = physical, nr_length = len, nr_hole = hole\<rparr>]))"

definition run_holds :: "nat \<Rightarrow> native_run \<Rightarrow> bool" where
  "run_holds l r \<longleftrightarrow> l \<ge> nr_logical r \<and> l - nr_logical r < nr_length r"

definition run_find :: "native_run list \<Rightarrow> nat \<Rightarrow> native_run option" where
  "run_find runs l = find (run_holds l) runs"

text \<open>Both directions of \<open>run_io\<close>; a volume without a block size would fault and is refused at the mount.\<close>

function run_read :: "'h hw \<Rightarrow> native_volume \<Rightarrow> native_run list \<Rightarrow> nat \<Rightarrow> bytes \<Rightarrow> nat \<Rightarrow> nat \<Rightarrow> 'h store \<Rightarrow> (int \<times> bytes) \<times> 'h store" where
  "run_read h v runs offset out p n s =
     (if n = 0 then ((0, out), s)
      else if nv_block v = 0 then ((K_EIO, out), s)
      else
        let l = offset div nv_block v; at = offset mod nv_block v; m = min n (nv_block v - at) in
        case run_find runs l of
          Some r \<Rightarrow>
            if nr_hole r then run_read h v runs (offset + m) (put_bytes out p (\<lambda>_. 0) 0 m) (p + m) (n - m) s
            else (case native_bytes h v ((nr_physical r + l - nr_logical r) * nv_block v + at) (\<lambda>j. out (p + j)) m s of
                    ((e, b), s) \<Rightarrow>
                      let out = put_bytes out p b 0 m in
                      if e \<noteq> 0 then ((e, out), s) else run_read h v runs (offset + m) out (p + m) (n - m) s)
        | None \<Rightarrow> run_read h v runs (offset + m) (put_bytes out p (\<lambda>_. 0) 0 m) (p + m) (n - m) s)"
  by pat_completeness auto
termination
  by (relation "measure (\<lambda>(h, v, runs, offset, out, p, n, s). n)") (auto simp: Let_def)

declare run_read.simps [simp del]

function run_write :: "'h hw \<Rightarrow> native_run list \<Rightarrow> nat \<Rightarrow> bytes \<Rightarrow> nat \<Rightarrow> 'h nvs \<Rightarrow> int \<times> 'h nvs" where
  "run_write h runs offset data n x =
     (if n = 0 then (0, x)
      else if nv_block (fst x) = 0 then (K_EIO, x)
      else
        let b = nv_block (fst x); l = offset div b; at = offset mod b; m = min n (b - at) in
        case run_find runs l of
          Some r \<Rightarrow>
            if nr_hole r then (K_ENOTSUP, x)
            else (case native_write_bytes h ((nr_physical r + l - nr_logical r) * b + at) data m x of
                    (e, x) \<Rightarrow> if e \<noteq> 0 then (e, x) else run_write h runs (offset + m) (\<lambda>j. data (m + j)) (n - m) x)
        | None \<Rightarrow> (K_ENOTSUP, x))"
  by pat_completeness auto
termination
  by (relation "measure (\<lambda>(h, runs, offset, data, n, x). n)") (auto simp: Let_def)

declare run_write.simps [simp del]

definition run_get :: "'h hw \<Rightarrow> native_volume \<Rightarrow> native_run list \<Rightarrow> nat \<Rightarrow> nat \<Rightarrow> ('h store, bytes) io" where
  "run_get h v runs offset n s =
     (case run_read h v runs offset (\<lambda>_. 0) 0 n s of ((e, b), s) \<Rightarrow> (if e \<noteq> 0 then Inl e else Inr b, s))"

section \<open>ext4: groups and inodes\<close>

definition le4 :: "nat \<Rightarrow> bytes" where
  "le4 n = wr32 (\<lambda>_. 0) 0 (word_of_nat n)"

definition ext_desc_block :: "native_volume \<Rightarrow> bytes \<Rightarrow> nat \<Rightarrow> nat" where
  "ext_desc_block v d off =
     unat (rd32 d off) + (if nv_desc_size v = 64 then unat (rd32 d (off + 32)) * 2 ^ 32 else 0)"

definition group_sum_ok :: "native_volume \<Rightarrow> nat \<Rightarrow> bytes \<Rightarrow> u16 \<Rightarrow> bool" where
  "group_sum_ok v g d wanted \<longleftrightarrow>
     (if nv_csum v then ucast (crc32c_step (crc32c_step (nv_csum_seed v) (le4 g) 4) d (nv_desc_size v)) = wanted
      else if nv_gdt_csum v then
        let crc = crc16_step 0xffff (\<lambda>j. nv_super v (104 + j)) 16; crc = crc16_step crc (le4 g) 4; crc = crc16_step crc d 30 in
        (if nv_desc_size v > 32 then crc16_step crc (\<lambda>j. d (32 + j)) (nv_desc_size v - 32) else crc) = wanted
      else True)"

definition inode_blocks :: "native_volume \<Rightarrow> nat" where
  "inode_blocks v = (nv_inodes_per_group v * nv_inode_size v + nv_block v - 1) div nv_block v"

definition group_layout_ok :: "native_volume \<Rightarrow> bytes \<Rightarrow> bool" where
  "group_layout_ok v d \<longleftrightarrow>
     (let table = ext_desc_block v d 8; bitmap = ext_desc_block v d 0; inodemap = ext_desc_block v d 4; n = inode_blocks v in
      \<not> (table = 0 \<or> table \<ge> nv_blocks v \<or> n > nv_blocks v - table \<or> bitmap = 0 \<or> bitmap \<ge> nv_blocks v \<or>
         inodemap = 0 \<or> inodemap \<ge> nv_blocks v \<or> bitmap = inodemap \<or> overlap bitmap 1 table n \<or> overlap inodemap 1 table n))"

definition ext_group :: "'h hw \<Rightarrow> native_volume \<Rightarrow> nat \<Rightarrow> ('h store, bytes) io" where
  "ext_group h v g =
     io_guard (g \<ge> nv_groups v) K_EIO
       (io_bind (native_get h v ((if nv_block v = 1024 then 2 else 1) * nv_block v + g * nv_desc_size v) (nv_desc_size v)) (\<lambda>d.
          let wanted = rd16 d 30; z = d(30 := 0, 31 := 0) in
          io_guard (\<not> group_sum_ok v g z wanted \<or> \<not> group_layout_ok v z) K_EIO (io_ok (wr16 z 30 wanted))))"

definition ext_inode_seed :: "native_volume \<Rightarrow> nat \<Rightarrow> bytes \<Rightarrow> u32" where
  "ext_inode_seed v ino raw = crc32c_step (crc32c_step (nv_csum_seed v) (le4 ino) 4) (\<lambda>j. raw (100 + j)) 4"

text \<open>The checksum fields count as zero; the upper half exists from a certain inode size on.\<close>

definition inode_high :: "native_volume \<Rightarrow> bytes \<Rightarrow> bool" where
  "inode_high v raw \<longleftrightarrow> nv_inode_size v \<ge> 132 \<and> unat (rd16 raw 128) \<ge> 4"

definition inode_sum :: "native_volume \<Rightarrow> nat \<Rightarrow> bytes \<Rightarrow> u32" where
  "inode_sum v ino raw =
     (let z = wr16 raw 124 0; z = (if inode_high v raw then wr16 z 130 0 else z) in
      crc32c_step (ext_inode_seed v ino z) z (nv_inode_size v))"

definition inode_sum_ok :: "native_volume \<Rightarrow> nat \<Rightarrow> bytes \<Rightarrow> bool" where
  "inode_sum_ok v ino raw \<longleftrightarrow>
     (if inode_high v raw then inode_sum v ino raw = ucast (rd16 raw 124) OR push_bit 16 (ucast (rd16 raw 130))
      else (ucast (inode_sum v ino raw) :: u16) = rd16 raw 124)"

definition ext_inode :: "'h hw \<Rightarrow> native_volume \<Rightarrow> nat \<Rightarrow> ('h store, bytes) io" where
  "ext_inode h v ino =
     io_guard (ino = 0 \<or> ino > nv_inodes v) K_EIO
       (io_bind (ext_group h v ((ino - 1) div nv_inodes_per_group v)) (\<lambda>d.
          let table = ext_desc_block v d 8; offset = (ino - 1) mod nv_inodes_per_group v * nv_inode_size v in
          io_guard (table = 0 \<or> table \<ge> nv_blocks v \<or> offset + nv_inode_size v > (nv_blocks v - table) * nv_block v) K_EIO
            (io_bind (native_get h v (table * nv_block v + offset) (nv_inode_size v)) (\<lambda>raw.
               io_guard (nv_csum v \<and> \<not> inode_sum_ok v ino raw) K_EIO
                 (io_guard (rd16 raw 26 = 0 \<or> rd32 raw 20 \<noteq> 0) K_ENOENT
                    (io_guard (rd32 raw 32 AND 0x10000804 \<noteq> 0) K_ENOTSUP (io_ok raw)))))))"

definition ext_size :: "bytes \<Rightarrow> nat" where
  "ext_size raw = unat (rd32 raw 4) + unat (rd32 raw 108) * 2 ^ 32"

section \<open>ext4: the blocks of a file\<close>

definition extent_logical :: "bytes \<Rightarrow> nat \<Rightarrow> nat" where
  "extent_logical b i = unat (rd32 b (12 + i * 12))"

text \<open>A node of the tree: its header, then \<open>f\<close> for every entry, in increasing order of file blocks.\<close>

definition extent_node ::
  "nat \<Rightarrow> bytes \<Rightarrow> nat \<Rightarrow> (nat \<Rightarrow> native_run list \<times> nat \<Rightarrow> ('h store, native_run list \<times> nat) io) \<Rightarrow>
   native_run list \<times> nat \<Rightarrow> ('h store, native_run list \<times> nat) io" where
  "extent_node depth b n f acc =
     (let entries = unat (rd16 b 2); most = unat (rd16 b 4) in
      io_guard (snd acc = 0 \<or> n < 12 \<or> rd16 b 0 \<noteq> 0xf30a \<or> unat (rd16 b 6) \<noteq> depth \<or> depth > 5) K_EIO
        (io_guard (entries > most \<or> most > (n - 12) div 12 \<or> most = 0) K_EIO
           (io_each (\<lambda>i acc. io_guard (i \<noteq> 0 \<and> extent_logical b i \<le> extent_logical b (i - 1)) K_EIO (f i acc))
              [0..<entries] (fst acc, snd acc - 1))))"

definition extent_leaf :: "native_volume \<Rightarrow> bytes \<Rightarrow> nat \<Rightarrow> native_run list \<times> nat \<Rightarrow> ('h store, native_run list \<times> nat) io" where
  "extent_leaf v b i acc =
     (let x = 12 + i * 12; len = unat (rd16 b (x + 4)); hole = len > 32768;
          physical = unat (rd32 b (x + 8)) + unat (rd16 b (x + 6)) * 2 ^ 32 in
      io_sum (map_sum id (\<lambda>runs. (runs, snd acc))
        (run_add v (extent_logical b i) physical (if hole then len - 32768 else len) hole (fst acc))))"

text \<open>A page that holds a node while it is read, and is returned on every path.\<close>

definition with_page :: "('h store, 'a) io \<Rightarrow> ('h store, 'a) io" where
  "with_page m s =
     (case pmm_alloc_page (s_pmm s) of
        (page, pm) \<Rightarrow>
          if page = 0 then (Inl K_ENOMEM, s\<lparr>s_pmm := pm\<rparr>)
          else case m (s\<lparr>s_pmm := pm\<rparr>) of (r, s) \<Rightarrow> (r, s\<lparr>s_pmm := pmm_free_page page (s_pmm s)\<rparr>))"

definition extent_sum_ok :: "native_volume \<Rightarrow> u32 \<Rightarrow> bytes \<Rightarrow> bool" where
  "extent_sum_ok v seed b \<longleftrightarrow>
     (let tail = 12 + 12 * unat (rd16 b 4) in \<not> (tail > nv_block v - 4 \<or> crc32c_step seed b tail \<noteq> rd32 b tail))"

definition extent_child :: "bytes \<Rightarrow> nat \<Rightarrow> nat" where
  "extent_child b i = unat (rd32 b (12 + i * 12 + 4)) + unat (rd16 b (12 + i * 12 + 8)) * 2 ^ 32"

primrec ext_extents ::
  "nat \<Rightarrow> 'h hw \<Rightarrow> native_volume \<Rightarrow> u32 \<Rightarrow> bytes \<Rightarrow> nat \<Rightarrow> native_run list \<times> nat \<Rightarrow> ('h store, native_run list \<times> nat) io" where
  "ext_extents 0 h v seed b n = extent_node 0 b n (extent_leaf v b)"
| "ext_extents (Suc d) h v seed b n = extent_node (Suc d) b n (\<lambda>i acc.
     let physical = extent_child b i in
     io_guard (physical = 0 \<or> physical \<ge> nv_blocks v) K_EIO
       (with_page (io_bind (native_get h v (physical * nv_block v) (nv_block v)) (\<lambda>c.
          io_guard (nv_csum v \<and> \<not> extent_sum_ok v seed c) K_EIO (ext_extents d h v seed c (nv_block v) acc)))))"

text \<open>The block lists of inodes without extents: block numbers at \<open>at\<close>, zero for a hole.\<close>

definition add_direct :: "native_volume \<Rightarrow> bytes \<Rightarrow> nat \<Rightarrow> nat \<Rightarrow> nat \<Rightarrow> native_run list \<Rightarrow> ('h store, native_run list) io" where
  "add_direct v b at base i runs =
     (let p = unat (rd32 b (at + 4 * i)) in if p = 0 then io_ok runs else io_sum (run_add v (base + i) p 1 False runs))"

definition ext_map :: "'h hw \<Rightarrow> native_volume \<Rightarrow> nat \<Rightarrow> bytes \<Rightarrow> ('h store, native_run list) io" where
  "ext_map h v ino raw =
     (if rd32 raw 32 AND 0x80000 \<noteq> 0 then
        io_bind (ext_extents (unat (rd16 raw 46)) h v (ext_inode_seed v ino raw) (\<lambda>j. raw (40 + j)) 60 ([], 1024)) (\<lambda>acc. io_ok (fst acc))
      else if rd32 raw 92 \<noteq> 0 \<or> rd32 raw 96 \<noteq> 0 then io_err K_ENOTSUP
      else io_bind (io_each (add_direct v raw 40 0) [0..<12] []) (\<lambda>runs.
        let indirect = unat (rd32 raw 88) in
        if indirect = 0 then io_ok runs
        else io_guard (indirect \<ge> nv_blocks v) K_EIO
          (io_bind (native_get h v (indirect * nv_block v) (nv_block v)) (\<lambda>b.
             io_each (add_direct v b 0 12) [0..<nv_block v div 4] runs))))"

section \<open>ext4: directories\<close>

text \<open>
  A scan either looks for a name (\<open>Some\<close>) or lists the directory (\<open>None\<close>, which stands for the callback
  of the source). It ends with a result, the file found and the entries listed, or goes on.
\<close>

datatype dir_result = Halt int k_file "k_dirent list" | More "k_dirent list"

definition native_file :: "nat \<Rightarrow> nat \<Rightarrow> nat \<Rightarrow> bool \<Rightarrow> nat \<Rightarrow> nat \<Rightarrow> k_file" where
  "native_file kind index ino directory sz generation =
     \<lparr>fl_kind = kind, fl_object = index, fl_cluster = ino, fl_attributes = (if directory then 0x10 else 0), fl_size = sz,
      fl_directory_offset = generation\<rparr>"

definition name_at :: "bytes \<Rightarrow> nat \<Rightarrow> nat \<Rightarrow> string" where
  "name_at b at n = map (\<lambda>j. byte_char (b (at + j))) [0..<n]"

definition native_dirent :: "string \<Rightarrow> nat \<Rightarrow> bool \<Rightarrow> k_dirent" where
  "native_dirent name sz directory = \<lparr>de_name = str_copy [] name (K_NAME_MAX + 1), de_size = sz, de_directory = directory\<rparr>"

definition ext_mode :: "bytes \<Rightarrow> u16" where "ext_mode raw = rd16 raw 0 AND 0xf000"

text \<open>One directory entry with a name: the inode is read when the name is wanted or listed.\<close>

definition ext_entry ::
  "'h hw \<Rightarrow> native_volume \<Rightarrow> nat \<Rightarrow> nat \<Rightarrow> string \<Rightarrow> string option \<Rightarrow> k_file \<Rightarrow> k_dirent list \<Rightarrow> 'h store \<Rightarrow> dir_result \<times> 'h store" where
  "ext_entry h v index ino name wanted found acc s =
     (case wanted of
        Some w \<Rightarrow>
          if \<not> str_eq name w then (More acc, s)
          else (case ext_inode h v ino s of
                  (Inl e, s) \<Rightarrow> (Halt e found acc, s)
                | (Inr t, s) \<Rightarrow>
                    (if ext_mode t \<noteq> 0x4000 \<and> ext_mode t \<noteq> 0x8000 then Halt K_ENOTSUP found acc
                     else Halt 0 (native_file 4 index ino (ext_mode t = 0x4000) (ext_size t) (unat (rd32 t 100))) acc, s))
      | None \<Rightarrow>
          (case ext_inode h v ino s of
             (Inl e, s) \<Rightarrow> (Halt e found acc, s)
           | (Inr t, s) \<Rightarrow> (More (acc @ [native_dirent name (ext_size t) (ext_mode t = 0x4000)]), s)))"

function ext_entries ::
  "'h hw \<Rightarrow> native_volume \<Rightarrow> nat \<Rightarrow> bytes \<Rightarrow> nat \<Rightarrow> nat \<Rightarrow> string option \<Rightarrow> k_file \<Rightarrow> k_dirent list \<Rightarrow> 'h store \<Rightarrow> dir_result \<times> 'h store" where
  "ext_entries h v index b limit at wanted found acc s =
     (if at \<ge> limit then (More acc, s)
      else if limit - at < 8 then (Halt K_EIO found acc, s)
      else
        let ino = unat (rd32 b at); rec = unat (rd16 b (at + 4)); len = unat (b (at + 6)); name = name_at b (at + 8) len in
        if rec < 8 \<or> rec mod 4 \<noteq> 0 \<or> rec > limit - at \<or> len > rec - 8 then (Halt K_EIO found acc, s)
        else if ino \<noteq> 0 \<and> len \<noteq> 0 then
          if NUL \<in> set name then (Halt K_EIO found acc, s)
          else (case ext_entry h v index ino name wanted found acc s of
                  (More acc, s) \<Rightarrow> ext_entries h v index b limit (at + rec) wanted found acc s
                | r \<Rightarrow> r)
        else ext_entries h v index b limit (at + rec) wanted found acc s)"
  by pat_completeness auto
termination
  by (relation "measure (\<lambda>(h, v, index, b, limit, at, wanted, found, acc, s). limit - at)") (auto simp: Let_def)

declare ext_entries.simps [simp del]

text \<open>Where the entries of a block end: the checksum of the block is a last, unnamed entry.\<close>

definition ext_block_limit :: "native_volume \<Rightarrow> u32 \<Rightarrow> bytes \<Rightarrow> bytes \<Rightarrow> nat option" where
  "ext_block_limit v seed raw b =
     (let z = nv_block v in
      if \<not> nv_csum v then Some z
      else if rd32 b (z - 12) = 0 \<and> rd16 b (z - 8) = 12 \<and> b (z - 5) = 0xde
      then (if crc32c_step seed b (z - 12) \<noteq> rd32 b (z - 4) then None else Some (z - 12))
      else if rd32 raw 32 AND 0x1000 = 0 then None else Some z)"

fun ext_blocks ::
  "'h hw \<Rightarrow> native_volume \<Rightarrow> nat \<Rightarrow> nat \<Rightarrow> bytes \<Rightarrow> native_run list \<Rightarrow> nat list \<Rightarrow> string option \<Rightarrow> k_file \<Rightarrow> k_dirent list \<Rightarrow>
   'h store \<Rightarrow> (int \<times> k_file \<times> k_dirent list) \<times> 'h store" where
  "ext_blocks h v index ino raw runs [] wanted found acc s = ((if wanted = None then 0 else K_ENOENT, found, acc), s)"
| "ext_blocks h v index ino raw runs (k # ks) wanted found acc s =
     (case run_get h v runs (k * nv_block v) (nv_block v) s of
        (Inl e, s) \<Rightarrow> ((e, found, acc), s)
      | (Inr b, s) \<Rightarrow>
          (case ext_block_limit v (ext_inode_seed v ino raw) raw b of
             None \<Rightarrow> ((K_EIO, found, acc), s)
           | Some limit \<Rightarrow>
               (case ext_entries h v index b limit 0 wanted found acc s of
                  (Halt e f acc, s) \<Rightarrow> ((e, f, acc), s)
                | (More acc, s) \<Rightarrow> ext_blocks h v index ino raw runs ks wanted found acc s)))"

definition ext_directory ::
  "'h hw \<Rightarrow> native_volume \<Rightarrow> nat \<Rightarrow> nat \<Rightarrow> string option \<Rightarrow> k_file \<Rightarrow> 'h store \<Rightarrow> (int \<times> k_file \<times> k_dirent list) \<times> 'h store" where
  "ext_directory h v index ino wanted found s =
     (case ext_inode h v ino s of
        (Inl e, s) \<Rightarrow> ((e, found, []), s)
      | (Inr raw, s) \<Rightarrow>
          if ext_mode raw \<noteq> 0x4000 then ((K_EINVAL, found, []), s)
          else if ext_size raw > NATIVE_SCAN_MAX \<or> ext_size raw mod nv_block v \<noteq> 0 then ((K_ENOTSUP, found, []), s)
          else (case ext_map h v ino raw s of
                  (Inl e, s) \<Rightarrow> ((e, found, []), s)
                | (Inr runs, s) \<Rightarrow> ext_blocks h v index ino raw runs [0..<ext_size raw div nv_block v] wanted found [] s))"

end
