(* ===== verification/Ntfs.thy ===== *)
theory Ntfs
  imports Native
begin

unbundle bit_operations_syntax

text \<open>
  NTFS volumes (\<open>fs/fs.c\<close>, \<open>ntfs_fixup\<close> to \<open>ntfs_directory\<close>): records of the master file table with their
  update sequences, attributes, run lists, file data (read, and written in place) and directory
  indexes. Pointers into a record are offsets.
\<close>

abbreviation sub_bytes :: "bytes \<Rightarrow> nat \<Rightarrow> bytes" where
  "sub_bytes b at \<equiv> (\<lambda>j. b (at + j))"

section \<open>Update sequences\<close>

text \<open>Every 512-byte unit of a record ends in the sequence number; the bytes it replaces are in the array at \<open>off\<close>.\<close>

fun fixup_loop :: "nat \<Rightarrow> u16 \<Rightarrow> nat list \<Rightarrow> bytes \<Rightarrow> int + bytes" where
  "fixup_loop off sequence [] r = Inr r"
| "fixup_loop off sequence (i # is) r =
     (if rd16 r (i * 512 - 2) \<noteq> sequence then Inl K_EIO
      else fixup_loop off sequence is (wr16 r (i * 512 - 2) (rd16 r (off + i * 2))))"

definition ntfs_fixup :: "bytes \<Rightarrow> nat \<Rightarrow> string \<Rightarrow> int + bytes" where
  "ntfs_fixup r sz magic =
     (let off = unat (rd16 r 4); count = unat (rd16 r 6) in
      if sz < 48 \<or> memcmp r 0 (text_bytes magic) 0 4 \<noteq> 0 then Inl K_EIO
      else if sz mod 512 \<noteq> 0 \<or> count \<noteq> sz div 512 + 1 \<or> off < 8 \<or> off > sz \<or> count * 2 > sz - off then Inl K_EIO
      else fixup_loop off (rd16 r off) [1..<count] r)"

definition next_sequence :: "u16 \<Rightarrow> u16" where
  "next_sequence q = (if q + 1 = 0 \<or> q + 1 = 0xffff then 1 else q + 1)"

definition pack_unit :: "nat \<Rightarrow> u16 \<Rightarrow> nat \<Rightarrow> bytes \<Rightarrow> bytes" where
  "pack_unit usa sequence i r = wr16 (wr16 r (usa + i * 2) (rd16 r (i * 512 - 2))) (i * 512 - 2) sequence"

definition ntfs_pack :: "nat \<Rightarrow> bytes \<Rightarrow> int + bytes" where
  "ntfs_pack sz r =
     (let usa = unat (rd16 r 4); count = unat (rd16 r 6); sequence = next_sequence (rd16 r usa) in
      if count \<noteq> sz div 512 + 1 \<or> usa < 8 \<or> usa + count * 2 > sz then Inl K_EIO
      else Inr (fold (pack_unit usa sequence) [1..<count] (wr16 r usa sequence)))"

section \<open>Run lists\<close>

definition le_num :: "bytes \<Rightarrow> nat \<Rightarrow> nat \<Rightarrow> nat" where
  "le_num a at n = fold (\<lambda>i x. x + unat (a (at + i)) * 2 ^ (8 * i)) [0..<n] 0"

text \<open>The distance to the next run as a 64-bit number, sign extended from \<open>n\<close> bytes.\<close>

definition run_delta :: "nat \<Rightarrow> nat \<Rightarrow> nat" where
  "run_delta n delta = (if n < 8 \<and> delta \<ge> 2 ^ (8 * n - 1) then delta + 2 ^ 64 - 2 ^ (8 * n) else delta)"

definition run_lcn :: "nat \<Rightarrow> nat \<Rightarrow> nat \<Rightarrow> nat option" where
  "run_lcn n delta lcn =
     (if n = 0 then Some lcn
      else let d = run_delta n delta in
        if d \<ge> 2 ^ 63 then if 2 ^ 64 - d > lcn then None else Some (lcn - (2 ^ 64 - d))
        else if d > 2 ^ 63 - 1 - lcn then None else Some (lcn + d))"

function ntfs_run_loop :: "native_volume \<Rightarrow> bytes \<Rightarrow> nat \<Rightarrow> nat \<Rightarrow> nat \<Rightarrow> nat \<Rightarrow> native_run list \<Rightarrow> int + nat \<times> nat \<times> native_run list" where
  "ntfs_run_loop v a sz at vcn lcn runs =
     (if \<not> (at < sz \<and> a at \<noteq> 0) then Inr (at, vcn, runs)
      else
        let ln = unat (a at) mod 16; on = unat (a at) div 16 in
        if ln = 0 \<or> ln > 8 \<or> on > 8 \<or> ln + on > sz - Suc at then Inl K_EIO
        else
          let len = le_num a (Suc at) ln in
          case run_lcn on (le_num a (Suc at + ln) on) lcn of
            None \<Rightarrow> Inl K_EIO
          | Some lcn \<Rightarrow>
              (case run_add v vcn lcn len (on = 0) runs of
                 Inl e \<Rightarrow> Inl e
               | Inr runs \<Rightarrow> ntfs_run_loop v a sz (Suc at + ln + on) (vcn + len) lcn runs))"
  by pat_completeness auto
termination
  by (relation "measure (\<lambda>(v, a, sz, at, vcn, lcn, runs). sz - at)") (auto simp: Let_def intro!: diff_less_mono2)

declare ntfs_run_loop.simps [simp del]

definition ntfs_runs :: "native_volume \<Rightarrow> bytes \<Rightarrow> nat \<Rightarrow> int + native_run list" where
  "ntfs_runs v a sz =
     (if sz < 64 \<or> a 8 \<noteq> 1 \<or> rd64 a 16 \<noteq> 0 \<or> rd16 a 12 AND 0xc001 \<noteq> 0 \<or> rd16 a 34 \<noteq> 0 then Inl K_ENOTSUP
      else
        let at = unat (rd16 a 32) in
        if at < 64 \<or> at \<ge> sz then Inl K_EIO
        else case ntfs_run_loop v a sz at 0 0 [] of
          Inl e \<Rightarrow> Inl e
        | Inr (at, vcn, runs) \<Rightarrow>
            if at \<ge> sz \<or> vcn = 0 \<or> vcn > (2 ^ 64 - 1) div nv_block v \<or> unat (rd64 a 24) \<noteq> vcn - 1 \<or>
               unat (rd64 a 56) > unat (rd64 a 48) \<or> unat (rd64 a 48) > vcn * nv_block v then Inl K_EIO
            else Inr runs)"

section \<open>Records and attributes\<close>

definition record_ok :: "native_volume \<Rightarrow> bytes \<Rightarrow> bool" where
  "record_ok v r \<longleftrightarrow>
     (let used = unat (rd32 r 24); attrs = unat (rd16 r 20) in
      \<not> (rd16 r 22 AND 1 = 0 \<or> used > nv_record_size v \<or> unat (rd32 r 28) \<noteq> nv_record_size v \<or> attrs < 48 \<or> attrs > used \<or>
         rd64 r 32 \<noteq> 0))"

definition raw_record :: "'h hw \<Rightarrow> native_volume \<Rightarrow> nat \<Rightarrow> ('h store, bytes) io" where
  "raw_record h v number = run_get h v (nv_mft v) (number * nv_record_size v) (nv_record_size v)"

definition ntfs_record :: "'h hw \<Rightarrow> native_volume \<Rightarrow> nat \<Rightarrow> ('h store, bytes) io" where
  "ntfs_record h v number =
     io_guard (\<not> span_ok (number * nv_record_size v) (nv_record_size v) (nv_mft_size v)) K_EIO
       (io_bind (raw_record h v number) (\<lambda>b.
          io_bind (io_sum (ntfs_fixup b (nv_record_size v) ''FILE'')) (\<lambda>r.
            io_guard (\<not> record_ok v r) K_EIO (io_ok r))))"

text \<open>The attribute at \<open>at\<close> has type \<open>kind\<close> and the given name.\<close>

definition attr_match :: "bytes \<Rightarrow> u32 \<Rightarrow> string \<Rightarrow> bool" where
  "attr_match a kind name \<longleftrightarrow>
     (let chars = unat (a 9); noff = unat (rd16 a 10) in
      rd32 a 0 = kind \<and> chars = str_len name \<and>
      list_all (\<lambda>i. rd16 a (noff + i * 2) = word_of_nat (of_char (name ! i))) [0..<chars])"

function ntfs_attr_loop :: "bytes \<Rightarrow> u32 \<Rightarrow> string \<Rightarrow> nat \<Rightarrow> nat \<Rightarrow> (nat \<times> nat) option \<Rightarrow> int + nat \<times> nat" where
  "ntfs_attr_loop r kind name used at seen =
     (if at + 4 > used then Inl K_EIO
      else if rd32 r at = 0xffffffff then (case seen of None \<Rightarrow> Inl K_ENOENT | Some p \<Rightarrow> Inr p)
      else if at + 16 > used then Inl K_EIO
      else
        let a = sub_bytes r at; n = unat (rd32 a 4); chars = unat (a 9); noff = unat (rd16 a 10) in
        if n < 24 \<or> n mod 8 \<noteq> 0 \<or> n > used - at \<or> a 8 > 1 then Inl K_EIO
        else if rd32 a 0 = 0x20 then Inl K_ENOTSUP
        else if chars \<noteq> 0 \<and> (\<not> span_ok noff (chars * 2) n \<or> noff < 16) then Inl K_EIO
        else if attr_match a kind name then
          if seen \<noteq> None then Inl K_ENOTSUP else ntfs_attr_loop r kind name used (at + n) (Some (at, n))
        else ntfs_attr_loop r kind name used (at + n) seen)"
  by pat_completeness auto
termination
  by (relation "measure (\<lambda>(r, kind, name, used, at, seen). used - at)") (auto simp: Let_def)

declare ntfs_attr_loop.simps [simp del]

definition ntfs_attr :: "bytes \<Rightarrow> u32 \<Rightarrow> string \<Rightarrow> int + nat \<times> nat" where
  "ntfs_attr r kind name = ntfs_attr_loop r kind name (unat (rd32 r 24)) (unat (rd16 r 20)) None"

definition ntfs_value :: "bytes \<Rightarrow> nat \<Rightarrow> int + nat \<times> nat" where
  "ntfs_value a n =
     (let at = unat (rd16 a 20); len = unat (rd32 a 16) in
      if a 8 \<noteq> 0 then Inl K_ENOTSUP
      else if at < 24 \<or> \<not> span_ok at len n \<or> rd16 a 12 \<noteq> 0 then Inl K_EIO
      else Inr (at, len))"

text \<open>The resident value of an attribute of a record: its offset in the record and its length.\<close>

definition record_value :: "bytes \<Rightarrow> u32 \<Rightarrow> string \<Rightarrow> int + nat \<times> nat" where
  "record_value r kind name =
     (case ntfs_attr r kind name of
        Inl e \<Rightarrow> Inl e
      | Inr (a, n) \<Rightarrow> (case ntfs_value (sub_bytes r a) n of Inl e \<Rightarrow> Inl e | Inr (at, len) \<Rightarrow> Inr (a + at, len)))"

section \<open>File data\<close>

text \<open>Reading: the error, the buffer and the size of the file.\<close>

definition resident_read :: "bytes \<Rightarrow> nat \<Rightarrow> nat \<Rightarrow> nat \<Rightarrow> bytes \<Rightarrow> nat \<Rightarrow> int \<times> bytes \<times> nat" where
  "resident_read r at sz offset out n =
     (0, if offset \<ge> sz then out else put_bytes out 0 r (at + offset) (min n (sz - offset)), sz)"

definition runs_read ::
  "'h hw \<Rightarrow> native_volume \<Rightarrow> native_run list \<Rightarrow> nat \<Rightarrow> nat \<Rightarrow> nat \<Rightarrow> bytes \<Rightarrow> nat \<Rightarrow> 'h store \<Rightarrow> (int \<times> bytes \<times> nat) \<times> 'h store" where
  "runs_read h v runs sz initialized offset out n s =
     (if offset \<ge> sz then ((0, out, sz), s)
      else
        let n = min n (sz - offset); backed = (if offset < initialized then min n (initialized - offset) else 0) in
        case (if backed \<noteq> 0 then run_read h v runs offset out 0 backed s else ((0, out), s)) of
          ((e, out), s) \<Rightarrow> ((e, if e = 0 \<and> n > backed then put_bytes out backed (\<lambda>_. 0) 0 (n - backed) else out, sz), s))"

definition ntfs_data_read :: "'h hw \<Rightarrow> native_volume \<Rightarrow> nat \<Rightarrow> nat \<Rightarrow> bytes \<Rightarrow> nat \<Rightarrow> 'h store \<Rightarrow> (int \<times> bytes \<times> nat) \<times> 'h store" where
  "ntfs_data_read h v ino offset out n s =
     (case ntfs_record h v ino s of
        (Inl e, s) \<Rightarrow> ((e, out, 0), s)
      | (Inr r, s) \<Rightarrow>
          if rd16 r 22 AND 2 \<noteq> 0 then ((K_EINVAL, out, 0), s)
          else case ntfs_attr r 0x80 [] of
            Inl e \<Rightarrow> ((e, out, 0), s)
          | Inr (a, len) \<Rightarrow>
              if r (a + 8) = 0 then
                (case ntfs_value (sub_bytes r a) len of
                   Inl e \<Rightarrow> ((e, out, 0), s)
                 | Inr (at, sz) \<Rightarrow> (resident_read r (a + at) sz offset out n, s))
              else
                (case ntfs_runs v (sub_bytes r a) len of
                   Inl e \<Rightarrow> ((e, out, 0), s)
                 | Inr runs \<Rightarrow> runs_read h v runs (unat (rd64 r (a + 48))) (unat (rd64 r (a + 56))) offset out n s))"

definition ntfs_store_record :: "'h hw \<Rightarrow> nat \<Rightarrow> bytes \<Rightarrow> 'h nvs \<Rightarrow> int \<times> 'h nvs" where
  "ntfs_store_record h ino r x =
     (let v = fst x; sz = nv_record_size v; mirror = unat (rd64 (nv_super v) 56) in
      case ntfs_pack sz r of
        Inl e \<Rightarrow> (e, x)
      | Inr raw \<Rightarrow>
          (case run_write h (nv_mft v) (ino * sz) raw sz x of
             (e, x) \<Rightarrow>
               if e \<noteq> 0 \<or> ino \<ge> 4 then (e, x)
               else if mirror = 0 \<or> mirror \<ge> nv_blocks v then (K_EIO, x)
               else native_write_bytes h (mirror * nv_block v + ino * sz) raw sz x))"

text \<open>The dirty mark of the volume is in the information record, number 3.\<close>

definition ntfs_dirty :: "'h hw \<Rightarrow> bool \<Rightarrow> 'h nvs \<Rightarrow> int \<times> 'h nvs" where
  "ntfs_dirty h dirty x =
     (case ntfs_record h (fst x) 3 (snd x) of
        (Inl e, s) \<Rightarrow> (e, fst x, s)
      | (Inr r, s) \<Rightarrow>
          (case record_value r 0x70 [] of
             Inl e \<Rightarrow> (e, fst x, s)
           | Inr (at, n) \<Rightarrow>
               let flags = rd16 r (at + 10) in
               if n < 12 then (K_EIO, fst x, s)
               else if flags AND 0xfffe \<noteq> 0 then (K_EROFS, fst x, s)
               else ntfs_store_record h 3 (wr16 r (at + 10) (if dirty then flags OR 1 else flags AND 0xfffe)) (fst x, s)))"

definition ntfs_regular_writable :: "nat \<Rightarrow> bytes \<Rightarrow> int" where
  "ntfs_regular_writable ino r =
     (if ino < 24 \<or> rd16 r 18 \<noteq> 1 \<or> rd16 r 22 AND 2 \<noteq> 0 then K_ENOTSUP
      else case record_value r 0x10 [] of
        Inl e \<Rightarrow> e
      | Inr (at, n) \<Rightarrow> if n < 36 \<or> rd32 r (at + 32) AND 0x5e05 \<noteq> 0 then K_EROFS else 0)"

definition runs_clash :: "native_run list \<Rightarrow> native_run list \<Rightarrow> bool" where
  "runs_clash xs ys \<longleftrightarrow>
     (\<exists>x\<in>set xs. \<exists>y\<in>set ys. \<not> nr_hole x \<and> \<not> nr_hole y \<and> overlap (nr_physical x) (nr_length x) (nr_physical y) (nr_length y))"

text \<open>No run of the list overlaps a run of an attribute of a record.\<close>

function boundary_attrs :: "native_volume \<Rightarrow> native_run list \<Rightarrow> bytes \<Rightarrow> nat \<Rightarrow> nat \<Rightarrow> int" where
  "boundary_attrs v runs r used at =
     (if \<not> (at + 4 \<le> used \<and> rd32 r at \<noteq> 0xffffffff) then 0
      else
        let a = sub_bytes r at; len = unat (rd32 a 4) in
        if len < 24 \<or> len > used - at \<or> len mod 8 \<noteq> 0 then K_EIO
        else if rd32 a 0 = 0x20 then K_ENOTSUP
        else if a 8 \<noteq> 0 then
          (case ntfs_runs v (wr16 a 12 (rd16 a 12 AND 0x7fff)) len of
             Inl e \<Rightarrow> e
           | Inr p \<Rightarrow> if runs_clash runs p then K_EIO else boundary_attrs v runs r used (at + len))
        else boundary_attrs v runs r used (at + len))"
  by pat_completeness auto
termination
  by (relation "measure (\<lambda>(v, runs, r, used, at). used - at)") (auto simp: Let_def intro!: diff_less_mono2)

declare boundary_attrs.simps [simp del]

fun ntfs_metadata_boundaries :: "'h hw \<Rightarrow> native_volume \<Rightarrow> native_run list \<Rightarrow> nat list \<Rightarrow> 'h store \<Rightarrow> int \<times> 'h store" where
  "ntfs_metadata_boundaries h v runs [] s = (0, s)"
| "ntfs_metadata_boundaries h v runs (ino # is) s =
     (case ntfs_record h v ino s of
        (Inl _, s) \<Rightarrow>
          (case raw_record h v ino s of
             (Inl e, s) \<Rightarrow> (e, s)
           | (Inr b, s) \<Rightarrow>
               (case ntfs_fixup b (nv_record_size v) ''FILE'' of
                  Inl _ \<Rightarrow> (K_EIO, s)
                | Inr r \<Rightarrow> if rd16 r 22 AND 1 = 0 then ntfs_metadata_boundaries h v runs is s else (K_ENOTSUP, s)))
      | (Inr r, s) \<Rightarrow>
          let e = boundary_attrs v runs r (unat (rd32 r 24)) (unat (rd16 r 20)) in
          if e \<noteq> 0 then (e, s) else ntfs_metadata_boundaries h v runs is s)"

text \<open>Every cluster of the list is marked in the volume bitmap, record 6.\<close>

fun bitmap_marked :: "'h hw \<Rightarrow> native_volume \<Rightarrow> nat list \<Rightarrow> 'h store \<Rightarrow> int \<times> 'h store" where
  "bitmap_marked h v [] s = (0, s)"
| "bitmap_marked h v (c # cs) s =
     (case ntfs_data_read h v 6 (c div 8) (\<lambda>_. 0) 1 s of
        ((e, b, sz), s) \<Rightarrow>
          if e \<noteq> 0 then (e, s)
          else if c div 8 \<ge> sz \<or> \<not> bit (b 0) (c mod 8) then (K_EIO, s)
          else bitmap_marked h v cs s)"

fun data_marked :: "'h hw \<Rightarrow> native_volume \<Rightarrow> native_run list \<Rightarrow> 'h store \<Rightarrow> int \<times> 'h store" where
  "data_marked h v [] s = (0, s)"
| "data_marked h v (r # rs) s =
     (if nr_hole r then (K_ENOTSUP, s)
      else if nr_physical r + nr_length r \<ge> nv_blocks v then (K_EIO, s)
      else case bitmap_marked h v [nr_physical r..<nr_physical r + nr_length r] s of
        (e, s) \<Rightarrow> if e \<noteq> 0 then (e, s) else data_marked h v rs s)"

definition ntfs_data_boundaries :: "'h hw \<Rightarrow> native_volume \<Rightarrow> native_run list \<Rightarrow> 'h store \<Rightarrow> int \<times> 'h store" where
  "ntfs_data_boundaries h v runs s =
     (case ntfs_metadata_boundaries h v runs [0..<min 24 (nv_mft_count v)] s of
        (e, s) \<Rightarrow> if e \<noteq> 0 then (e, s) else data_marked h v runs s)"

text \<open>Writing in place: into the record itself, or into initialized data runs clear of all metadata.\<close>

definition resident_write :: "'h hw \<Rightarrow> nat \<Rightarrow> bytes \<Rightarrow> nat \<Rightarrow> nat \<Rightarrow> nat \<Rightarrow> bytes \<Rightarrow> nat \<Rightarrow> 'h nvs \<Rightarrow> int \<times> 'h nvs" where
  "resident_write h ino r at sz offset data n x =
     (if offset \<ge> sz then (if n \<noteq> 0 then K_ENOTSUP else 0, x)
      else
        let r = put_bytes r (at + offset) data 0 (min n (sz - offset)) in
        case ntfs_dirty h True x of
          (e, x) \<Rightarrow>
            (case (if e \<noteq> 0 then (e, x) else ntfs_store_record h ino r x) of
               (e, x) \<Rightarrow>
                 (case (if e \<noteq> 0 then (e, x) else ntfs_dirty h False x) of
                    (e, x) \<Rightarrow> (e, if e \<noteq> 0 then (fst x)\<lparr>nv_failed := True\<rparr> else fst x, snd x))))"

definition runs_write ::
  "'h hw \<Rightarrow> nat \<Rightarrow> bytes \<Rightarrow> native_run list \<Rightarrow> nat \<Rightarrow> nat \<Rightarrow> nat \<Rightarrow> bytes \<Rightarrow> nat \<Rightarrow> 'h nvs \<Rightarrow> int \<times> 'h nvs" where
  "runs_write h ino r runs sz initialized offset data n x =
     (if offset \<ge> sz then (if n \<noteq> 0 then K_ENOTSUP else 0, x)
      else
        let v = fst x; n = min n (sz - offset) in
        if ino < 24 \<or> rd16 r 18 \<noteq> 1 \<or> offset > initialized \<or> n > initialized - offset then (K_ENOTSUP, x)
        else if runs_clash runs (nv_mft v) then (K_EIO, x)
        else if \<exists>q\<in>set runs. nr_hole q then (K_ENOTSUP, x)
        else case ntfs_data_boundaries h v runs (snd x) of
          (e, s) \<Rightarrow>
            if e \<noteq> 0 then (e, v, s)
            else
              let backed = (if offset < initialized then min n (initialized - offset) else 0) in
              if backed \<noteq> 0 then run_write h runs offset data backed (v, s) else (0, v, s))"

definition ntfs_data_write :: "'h hw \<Rightarrow> nat \<Rightarrow> nat \<Rightarrow> bytes \<Rightarrow> nat \<Rightarrow> 'h nvs \<Rightarrow> int \<times> 'h nvs" where
  "ntfs_data_write h ino offset data n x =
     (let v = fst x in
      case ntfs_record h v ino (snd x) of
        (Inl e, s) \<Rightarrow> (e, v, s)
      | (Inr r, s) \<Rightarrow>
          if ntfs_regular_writable ino r \<noteq> 0 then (ntfs_regular_writable ino r, v, s)
          else if rd16 r 22 AND 2 \<noteq> 0 then (K_EINVAL, v, s)
          else case ntfs_attr r 0x80 [] of
            Inl e \<Rightarrow> (e, v, s)
          | Inr (a, len) \<Rightarrow>
              if r (a + 8) = 0 then
                (case ntfs_value (sub_bytes r a) len of
                   Inl e \<Rightarrow> (e, v, s)
                 | Inr (at, sz) \<Rightarrow> resident_write h ino r (a + at) sz offset data n (v, s))
              else
                (case ntfs_runs v (sub_bytes r a) len of
                   Inl e \<Rightarrow> (e, v, s)
                 | Inr runs \<Rightarrow> runs_write h ino r runs (unat (rd64 r (a + 48))) (unat (rd64 r (a + 56))) offset data n (v, s)))"

section \<open>Directories\<close>

definition name_code_ok :: "u16 \<Rightarrow> bool" where
  "name_code_ok c \<longleftrightarrow> \<not> (c < 32 \<or> c > 126 \<or> c = 47)"

definition ntfs_name :: "bytes \<Rightarrow> nat \<Rightarrow> int + string" where
  "ntfs_name key n =
     (let len = unat (key 64); cs = map (\<lambda>i. rd16 key (66 + i * 2)) [0..<len] in
      if n < 66 \<or> 66 + 2 * len > n then Inl K_EIO
      else if \<not> list_all name_code_ok cs then Inl K_ENOTSUP
      else if len = 0 then Inl K_EIO
      else Inr (map (\<lambda>c. char_of (unat c)) cs))"

fun ntfs_name_equal :: "string \<Rightarrow> string \<Rightarrow> bool" where
  "ntfs_name_equal (a # as) (b # bs) =
     (if a = NUL \<or> b = NUL then a = NUL \<and> b = NUL else upcase a = upcase b \<and> ntfs_name_equal as bs)"
| "ntfs_name_equal as bs \<longleftrightarrow> cur as = NUL \<and> cur bs = NUL"

text \<open>A directory entry whose name is wanted: the code 1 reports it found.\<close>

definition ntfs_found :: "'h hw \<Rightarrow> native_volume \<Rightarrow> nat \<Rightarrow> bytes \<Rightarrow> k_file \<Rightarrow> 'h store \<Rightarrow> (int \<times> k_file) \<times> 'h store" where
  "ntfs_found h v index entry found s =
     (let reference = unat (rd64 entry 0); ino = reference mod 2 ^ 48 in
      case ntfs_record h v ino s of
        (Inl e, s) \<Rightarrow> ((e, found), s)
      | (Inr r, s) \<Rightarrow>
          if unat (rd16 r 16) \<noteq> reference div 2 ^ 48 then ((K_EIO, found), s)
          else if rd32 entry 72 AND 0x400 \<noteq> 0 then ((K_ENOTSUP, found), s)
          else
            let directory = (rd16 r 22 AND 2 \<noteq> 0);
                f = native_file 5 index ino directory (unat (rd64 entry 64)) (reference div 2 ^ 48) in
            if directory then ((1, f), s)
            else (case ntfs_data_read h v ino 0 (\<lambda>_. 0) 0 s of
                    ((e, _, actual), s) \<Rightarrow> ((if e \<noteq> 0 then (e, f) else (1, f\<lparr>fl_size := actual\<rparr>)), s)))"

definition index_tail :: "u16 \<Rightarrow> nat" where
  "index_tail flags = (if flags AND 1 \<noteq> 0 then 8 else 0)"

definition index_dirent :: "bytes \<Rightarrow> string \<Rightarrow> k_dirent list" where
  "index_dirent entry name =
     (if entry 81 \<noteq> 2 then [native_dirent name (unat (rd64 entry 64)) (rd32 entry 72 AND 0x10000000 \<noteq> 0)] else [])"

function ntfs_index_loop ::
  "'h hw \<Rightarrow> native_volume \<Rightarrow> nat \<Rightarrow> bytes \<Rightarrow> nat \<Rightarrow> nat \<Rightarrow> string option \<Rightarrow> k_file \<Rightarrow> k_dirent list \<Rightarrow> 'h store \<Rightarrow>
   (int \<times> k_file \<times> k_dirent list) \<times> 'h store" where
  "ntfs_index_loop h v index header sz at wanted found acc s =
     (if at + 16 > sz then ((K_EIO, found, acc), s)
      else
        let entry = sub_bytes header at; len = unat (rd16 entry 8); keylen = unat (rd16 entry 10); flags = rd16 entry 12 in
        if len < 16 + index_tail flags \<or> len mod 8 \<noteq> 0 \<or> len > sz - at \<or> flags AND 0xfffc \<noteq> 0 \<or>
           keylen > len - 16 - index_tail flags then ((K_EIO, found, acc), s)
        else if flags AND 2 \<noteq> 0 then ((0, found, acc), s)
        else case ntfs_name (sub_bytes entry 16) keylen of
          Inl e \<Rightarrow> if e \<noteq> K_ENOTSUP then ((e, found, acc), s) else ntfs_index_loop h v index header sz (at + len) wanted found acc s
        | Inr name \<Rightarrow>
            if unat (rd64 entry 0) mod 2 ^ 48 > 0xffffffff then ((K_ENOTSUP, found, acc), s)
            else (case wanted of
                    Some w \<Rightarrow>
                      if ntfs_name_equal name w
                      then (case ntfs_found h v index entry found s of ((e, f), s) \<Rightarrow> ((e, f, acc), s))
                      else ntfs_index_loop h v index header sz (at + len) wanted found acc s
                  | None \<Rightarrow> ntfs_index_loop h v index header sz (at + len) wanted found (acc @ index_dirent entry name) s))"
  by pat_completeness auto
termination
  by (relation "measure (\<lambda>(h, v, index, header, sz, at, wanted, found, acc, s). sz - at)") (auto simp: Let_def intro!: diff_less_mono2)

declare ntfs_index_loop.simps [simp del]

definition ntfs_index_entries ::
  "'h hw \<Rightarrow> native_volume \<Rightarrow> nat \<Rightarrow> bytes \<Rightarrow> nat \<Rightarrow> string option \<Rightarrow> k_file \<Rightarrow> k_dirent list \<Rightarrow> 'h store \<Rightarrow>
   (int \<times> k_file \<times> k_dirent list) \<times> 'h store" where
  "ntfs_index_entries h v index header capacity wanted found acc s =
     (let off = unat (rd32 header 0); sz = unat (rd32 header 4); alloc = unat (rd32 header 8) in
      if capacity < 16 \<or> off < 16 \<or> sz < off \<or> sz > alloc \<or> alloc > capacity then ((K_EIO, found, acc), s)
      else ntfs_index_loop h v index header sz off wanted found acc s)"

text \<open>The index blocks that the bitmap of the index marks as used.\<close>

fun ntfs_index_blocks ::
  "'h hw \<Rightarrow> native_volume \<Rightarrow> nat \<Rightarrow> native_run list \<Rightarrow> bytes \<Rightarrow> nat list \<Rightarrow> string option \<Rightarrow> k_file \<Rightarrow> k_dirent list \<Rightarrow> 'h store \<Rightarrow>
   (int \<times> k_file \<times> k_dirent list) \<times> 'h store" where
  "ntfs_index_blocks h v index runs bitmap [] wanted found acc s = ((if wanted = None then 0 else K_ENOENT, found, acc), s)"
| "ntfs_index_blocks h v index runs bitmap (k # ks) wanted found acc s =
     (if \<not> bit (bitmap (k div 8)) (k mod 8) then ntfs_index_blocks h v index runs bitmap ks wanted found acc s
      else case io_bind (run_get h v runs (k * nv_index_size v) (nv_index_size v))
                  (\<lambda>b. io_sum (ntfs_fixup b (nv_index_size v) ''INDX'')) s of
        (Inl e, s) \<Rightarrow> ((e, found, acc), s)
      | (Inr b, s) \<Rightarrow>
          (case ntfs_index_entries h v index (sub_bytes b 24) (nv_index_size v - 24) wanted found acc s of
             ((e, found, acc), s) \<Rightarrow>
               if e \<noteq> 0 then ((if e = 1 then 0 else e, found, acc), s)
               else ntfs_index_blocks h v index runs bitmap ks wanted found acc s))"

definition index_bitmap :: "'h hw \<Rightarrow> native_volume \<Rightarrow> bytes \<Rightarrow> ('h store, bytes \<times> nat) io" where
  "index_bitmap h v r =
     io_bind (io_sum (ntfs_attr r 0xb0 ''$I30'')) (\<lambda>p. let a = fst p; len = snd p in
       if r (a + 8) = 0 then
         io_bind (io_sum (ntfs_value (sub_bytes r a) len)) (\<lambda>q.
           io_guard (snd q > 4096) K_ENOTSUP (io_ok (sub_bytes r (a + fst q), snd q)))
       else
         io_bind (io_sum (ntfs_runs v (sub_bytes r a) len)) (\<lambda>runs. let n = unat (rd64 r (a + 48)) in
           io_guard (n > 4096) K_ENOTSUP (io_bind (run_get h v runs 0 n) (\<lambda>b. io_ok (b, n)))))"

text \<open>The index allocation: \<open>None\<close> when the directory has none.\<close>

definition index_runs :: "native_volume \<Rightarrow> bytes \<Rightarrow> int + (native_run list \<times> nat) option" where
  "index_runs v r =
     (case ntfs_attr r 0xa0 ''$I30'' of
        Inl e \<Rightarrow> if e = K_ENOENT then Inr None else Inl e
      | Inr (a, len) \<Rightarrow>
          (case ntfs_runs v (sub_bytes r a) len of
             Inl e \<Rightarrow> Inl e
           | Inr runs \<Rightarrow>
               let sz = unat (rd64 r (a + 48)) in
               if sz > NATIVE_SCAN_MAX \<or> sz mod nv_index_size v \<noteq> 0 then Inl K_ENOTSUP else Inr (Some (runs, sz))))"

definition index_allocation ::
  "'h hw \<Rightarrow> native_volume \<Rightarrow> nat \<Rightarrow> bytes \<Rightarrow> string option \<Rightarrow> k_file \<Rightarrow> k_dirent list \<Rightarrow> 'h store \<Rightarrow>
   (int \<times> k_file \<times> k_dirent list) \<times> 'h store" where
  "index_allocation h v index r wanted found acc s =
     (case index_runs v r of
        Inl e \<Rightarrow> ((e, found, acc), s)
      | Inr None \<Rightarrow> ((if wanted = None then 0 else K_ENOENT, found, acc), s)
      | Inr (Some (runs, sz)) \<Rightarrow>
          (case index_bitmap h v r s of
             (Inl e, s) \<Rightarrow> ((e, found, acc), s)
           | (Inr (bitmap, n), s) \<Rightarrow>
               if sz div nv_index_size v > n * 8 then ((K_EIO, found, acc), s)
               else ntfs_index_blocks h v index runs bitmap [0..<sz div nv_index_size v] wanted found acc s))"

definition ntfs_directory ::
  "'h hw \<Rightarrow> native_volume \<Rightarrow> nat \<Rightarrow> nat \<Rightarrow> string option \<Rightarrow> k_file \<Rightarrow> 'h store \<Rightarrow> (int \<times> k_file \<times> k_dirent list) \<times> 'h store" where
  "ntfs_directory h v index ino wanted found s =
     (case ntfs_record h v ino s of
        (Inl e, s) \<Rightarrow> ((e, found, []), s)
      | (Inr r, s) \<Rightarrow>
          if rd16 r 22 AND 2 = 0 then ((K_EINVAL, found, []), s)
          else case record_value r 0x90 ''$I30'' of
            Inl e \<Rightarrow> ((e, found, []), s)
          | Inr (at, n) \<Rightarrow>
              if n < 32 \<or> rd32 r at \<noteq> 0x30 \<or> rd32 r (at + 4) \<noteq> 1 \<or> unat (rd32 r (at + 8)) \<noteq> nv_index_size v
              then ((K_ENOTSUP, found, []), s)
              else (case ntfs_index_entries h v index (sub_bytes r (at + 16)) (n - 16) wanted found [] s of
                      ((e, found, acc), s) \<Rightarrow>
                        if e \<noteq> 0 then ((if e = 1 then 0 else e, found, acc), s)
                        else index_allocation h v index r wanted found acc s))"

end
