(* ===== verification/NativeOps.thy ===== *)
theory NativeOps
  imports Ntfs
begin

unbundle bit_operations_syntax

text \<open>
  The operations of native volumes behind a mount (\<open>fs/fs.c\<close>, \<open>native_open\<close> to \<open>native_probe\<close> and
  \<open>native_sync_all\<close>), as far as they do not rewrite or create files, and the part of \<open>native_write\<close> that
  writes in place.
\<close>

section \<open>Opening and reading\<close>

definition native_dir ::
  "'h hw \<Rightarrow> native_volume \<Rightarrow> nat \<Rightarrow> nat \<Rightarrow> string option \<Rightarrow> k_file \<Rightarrow> 'h store \<Rightarrow> (int \<times> k_file \<times> k_dirent list) \<times> 'h store" where
  "native_dir h v = (if nv_kind v = 4 then ext_directory h v else ntfs_directory h v)"

function native_open_loop :: "'h hw \<Rightarrow> native_volume \<Rightarrow> nat \<Rightarrow> string \<Rightarrow> k_file \<Rightarrow> 'h store \<Rightarrow> (int \<times> k_file) \<times> 'h store" where
  "native_open_loop h v index path f s =
     (let path = dropWhile (\<lambda>c. c = SLASH) path in
      if cur path = NUL then ((0, f), s)
      else
        let name = takeWhile name_part path in
        if length name > 255 then ((K_E2BIG, f), s)
        else case native_dir h v index (fl_cluster f) (Some name) f s of
          ((e, f, _), s) \<Rightarrow> if e \<noteq> 0 then ((e, f), s) else native_open_loop h v index (dropWhile name_part path) f s)"
  by pat_completeness auto
termination
proof (relation "measure (\<lambda>(h, v, index, path, f, s). length path)", goal_cases)
  case (2 h v index path f s p)
  show ?case
  proof (cases p)
    case Nil
    then show ?thesis using 2(2) by simp
  next
    case (Cons c q)
    have d: "dropWhile (\<lambda>c. c = SLASH) path = c # q" using 2(1) Cons by simp
    then have "c \<noteq> SLASH" using hd_dropWhile[of "\<lambda>c. c = SLASH" path] by simp
    then have "length (dropWhile name_part p) \<le> length q"
      using 2(2) Cons length_dropWhile_le[of name_part q] by (simp add: name_part_def)
    moreover have "length q < length path" using length_dropWhile_le[of "\<lambda>c. c = SLASH" path] unfolding d by simp
    ultimately show ?thesis by simp
  qed
qed simp

declare native_open_loop.simps [simp del]

definition native_open :: "'h hw \<Rightarrow> native_fs \<Rightarrow> nat \<Rightarrow> string \<Rightarrow> k_file \<Rightarrow> 'h store \<Rightarrow> (int \<times> k_file) \<times> 'h store" where
  "native_open h fs index path out s =
     (if index \<ge> na_count fs then ((K_ENOENT, out), s)
      else
        let v = na_volumes fs index in
        case native_open_loop h v index path (native_file (nv_kind v) index (if nv_kind v = 4 then 2 else 5) True 0 0) s of
          ((e, f), s) \<Rightarrow> ((e, if e = 0 then f else out), s))"

definition native_refresh :: "'h hw \<Rightarrow> native_fs \<Rightarrow> k_file \<Rightarrow> 'h store \<Rightarrow> (int \<times> k_file) \<times> 'h store" where
  "native_refresh h fs f s =
     (let v = na_volumes fs (fl_object f) in
      if fl_object f \<ge> na_count fs then ((K_EINVAL, f), s)
      else if nv_kind v = 4 then
        (case ext_inode h v (fl_cluster f) s of
           (Inl e, s) \<Rightarrow> ((e, f), s)
         | (Inr raw, s) \<Rightarrow>
             (if unat (rd32 raw 100) \<noteq> fl_directory_offset f then (K_ENOENT, f) else (0, f\<lparr>fl_size := ext_size raw\<rparr>), s))
      else
        (case ntfs_record h v (fl_cluster f) s of
           (Inl e, s) \<Rightarrow> ((e, f), s)
         | (Inr r, s) \<Rightarrow>
             if unat (rd16 r 16) \<noteq> fl_directory_offset f then ((K_ENOENT, f), s)
             else (case ntfs_data_read h v (fl_cluster f) 0 (\<lambda>_. 0) 0 s of
                     ((e, _, sz), s) \<Rightarrow> ((e, if e = 0 then f\<lparr>fl_size := sz\<rparr> else f), s))))"

definition ext_read :: "'h hw \<Rightarrow> native_volume \<Rightarrow> k_file \<Rightarrow> nat \<Rightarrow> bytes \<Rightarrow> nat \<Rightarrow> 'h store \<Rightarrow> (int \<times> bytes \<times> nat) \<times> 'h store" where
  "ext_read h v f offset out n s =
     (case ext_inode h v (fl_cluster f) s of
        (Inl e, s) \<Rightarrow> ((e, out, 0), s)
      | (Inr raw, s) \<Rightarrow>
          if unat (rd32 raw 100) \<noteq> fl_directory_offset f then ((K_ENOENT, out, 0), s)
          else if offset \<ge> ext_size raw then ((0, out, 0), s)
          else
            let n = min n (ext_size raw - offset) in
            case ext_map h v (fl_cluster f) raw s of
              (Inl e, s) \<Rightarrow> ((e, out, 0), s)
            | (Inr runs, s) \<Rightarrow>
                (case run_read h v runs offset out 0 n s of ((e, out), s) \<Rightarrow> ((e, out, if e = 0 then n else 0), s)))"

definition native_read :: "'h hw \<Rightarrow> native_fs \<Rightarrow> k_file \<Rightarrow> nat \<Rightarrow> bytes \<Rightarrow> nat \<Rightarrow> 'h store \<Rightarrow> (int \<times> bytes \<times> nat) \<times> 'h store" where
  "native_read h fs f offset out n s =
     (let v = na_volumes fs (fl_object f) in
      if fl_object f \<ge> na_count fs \<or> fl_attributes f AND 0x10 \<noteq> 0 then ((K_EINVAL, out, 0), s)
      else if nv_kind v = 4 then ext_read h v f offset out n s
      else case native_refresh h fs f s of
        ((e, _), s) \<Rightarrow>
          if e \<noteq> 0 then ((e, out, 0), s)
          else (case ntfs_data_read h v (fl_cluster f) offset out n s of
                  ((e, out, sz), s) \<Rightarrow> ((e, out, if e = 0 \<and> offset < sz then min n (sz - offset) else 0), s)))"

definition native_list :: "'h hw \<Rightarrow> native_fs \<Rightarrow> k_file \<Rightarrow> 'h store \<Rightarrow> (int \<times> k_dirent list) \<times> 'h store" where
  "native_list h fs f s =
     (if fl_object f \<ge> na_count fs then ((K_EINVAL, []), s)
      else case native_dir h (na_volumes fs (fl_object f)) (fl_object f) (fl_cluster f) None f s of
        ((e, _, acc), s) \<Rightarrow> ((e, acc), s))"

section \<open>Writing in place\<close>

definition ext_clean :: "'h hw \<Rightarrow> native_volume \<Rightarrow> 'h store \<Rightarrow> int \<times> 'h store" where
  "ext_clean h v s =
     (case native_get h v 1024 1024 s of
        (Inl e, s) \<Rightarrow> (e, s)
      | (Inr b, s) \<Rightarrow>
          (if rd16 b 56 \<noteq> 0xef53 \<or> rd16 b 58 \<noteq> 1 \<or> rd32 b 96 AND 4 \<noteq> 0 \<or> rd32 b 232 \<noteq> 0 \<or>
              memcmp b 104 (nv_super v) 104 16 \<noteq> 0 then K_EROFS
           else if nv_csum v \<and> crc32c_step 0xffffffff b 1020 \<noteq> rd32 b 1020 then K_EIO else 0, s))"

text \<open>A hibernation file with anything but zeroes in its header stops all writes.\<close>

definition ntfs_clean :: "'h hw \<Rightarrow> native_fs \<Rightarrow> nat \<Rightarrow> 'h store \<Rightarrow> int \<times> 'h store" where
  "ntfs_clean h fs index s =
     (let v = na_volumes fs index in
      case ntfs_record h v 3 s of
        (Inl e, s) \<Rightarrow> (e, s)
      | (Inr r, s) \<Rightarrow>
          (case record_value r 0x70 [] of
             Inl e \<Rightarrow> (e, s)
           | Inr (at, n) \<Rightarrow>
               if n < 12 \<or> rd16 r (at + 10) \<noteq> 0 then (K_EROFS, s)
               else case ntfs_directory h v index 5 (Some ''hiberfil.sys'') (native_file 5 index 0 False 0 0) s of
                 ((e, f, _), s) \<Rightarrow>
                   if e = 0 then
                     (case native_read h fs f 0 (\<lambda>_. 0) 4096 s of
                        ((e, b, got), s) \<Rightarrow> (if e \<noteq> 0 \<or> \<not> list_all (\<lambda>i. b i = 0) [0..<got] then K_EROFS else 0, s))
                   else (if e \<noteq> K_ENOENT then K_EROFS else 0, s)))"

definition native_clean :: "'h hw \<Rightarrow> native_fs \<Rightarrow> nat \<Rightarrow> 'h store \<Rightarrow> int \<times> 'h store" where
  "native_clean h fs index s =
     (let v = na_volumes fs index in
      if nv_read_only v \<or> nv_failed v then (K_EROFS, s)
      else case (if nv_kind v = 4 then ext_clean h v s else ntfs_clean h fs index s) of
        (e, s) \<Rightarrow> if e \<noteq> 0 then (e, s) else disk_flush h (nv_disk v) s)"

text \<open>The static metadata of a group: its two bitmaps and its inode table.\<close>

definition group_clash :: "native_volume \<Rightarrow> bytes \<Rightarrow> native_run list \<Rightarrow> bool" where
  "group_clash v d runs \<longleftrightarrow>
     (\<exists>r\<in>set runs. \<not> nr_hole r \<and>
        (overlap (nr_physical r) (nr_length r) (ext_desc_block v d 0) 1 \<or> overlap (nr_physical r) (nr_length r) (ext_desc_block v d 4) 1 \<or>
         overlap (nr_physical r) (nr_length r) (ext_desc_block v d 8) (inode_blocks v)))"

definition groups_clear :: "'h hw \<Rightarrow> native_volume \<Rightarrow> native_run list \<Rightarrow> ('h store, unit) io" where
  "groups_clear h v runs =
     io_each (\<lambda>g _. io_bind (ext_group h v g) (\<lambda>d. io_guard (group_clash v d runs) K_EIO (io_ok ()))) [0..<nv_groups v] ()"

definition bitmap_sum_ok :: "native_volume \<Rightarrow> bytes \<Rightarrow> bytes \<Rightarrow> bool" where
  "bitmap_sum_ok v d bm \<longleftrightarrow>
     (let crc = crc32c_step (nv_csum_seed v) bm (nv_blocks_per_group v div 8) in
      if nv_desc_size v = 64 then crc = ucast (rd16 d 24) OR push_bit 16 (ucast (rd16 d 56))
      else (ucast crc :: u16) = rd16 d 24)"

definition block_bitmap :: "'h hw \<Rightarrow> native_volume \<Rightarrow> nat \<Rightarrow> ('h store, bytes) io" where
  "block_bitmap h v g =
     io_bind (ext_group h v g) (\<lambda>d.
       io_guard (rd16 d 18 AND 2 \<noteq> 0) K_EIO
         (io_bind (native_get h v (ext_desc_block v d 0 * nv_block v) (nv_block v)) (\<lambda>bm.
            io_guard (nv_csum v \<and> \<not> bitmap_sum_ok v d bm) K_EIO (io_ok bm))))"

text \<open>Every block is marked as allocated; the bitmap of the last group is kept.\<close>

definition block_marked :: "'h hw \<Rightarrow> native_volume \<Rightarrow> nat \<Rightarrow> (nat \<times> bytes) option \<Rightarrow> ('h store, (nat \<times> bytes) option) io" where
  "block_marked h v p old =
     (let first = unat (rd32 (nv_super v) 20); g = (p - first) div nv_blocks_per_group v; k = (p - first) mod nv_blocks_per_group v in
      io_guard (p < first) K_EIO
        (io_bind (case old of
                    Some (g', bm) \<Rightarrow> if g' = g then io_ok bm else block_bitmap h v g
                  | None \<Rightarrow> block_bitmap h v g) (\<lambda>bm.
           io_guard (\<not> bit (bm (k div 8)) (k mod 8)) K_EIO (io_ok (Some (g, bm))))))"

fun runs_marked :: "'h hw \<Rightarrow> native_volume \<Rightarrow> native_run list \<Rightarrow> (nat \<times> bytes) option \<Rightarrow> ('h store, unit) io" where
  "runs_marked h v [] old = io_ok ()"
| "runs_marked h v (r # rs) old =
     io_guard (nr_hole r) K_ENOTSUP
       (io_bind (io_each (block_marked h v) [nr_physical r..<nr_physical r + nr_length r] old) (runs_marked h v rs))"

definition ext_writable :: "native_volume \<Rightarrow> k_file \<Rightarrow> bytes \<Rightarrow> bool" where
  "ext_writable v f raw \<longleftrightarrow>
     \<not> (ext_mode raw \<noteq> 0x8000 \<or> fl_cluster f < unat (rd32 (nv_super v) 84) \<or> rd16 raw 26 \<noteq> 1 \<or> rd32 raw 32 AND 0x2104030 \<noteq> 0)"

definition range_mapped :: "native_volume \<Rightarrow> native_run list \<Rightarrow> nat \<Rightarrow> nat \<Rightarrow> bool" where
  "range_mapped v runs offset n \<longleftrightarrow>
     list_all (\<lambda>l. \<exists>r\<in>set runs. run_holds l r \<and> \<not> nr_hole r) [offset div nv_block v..<Suc ((offset + n - 1) div nv_block v)]"

text \<open>The runs of a file whose range may be overwritten.\<close>

definition ext_target :: "'h hw \<Rightarrow> native_volume \<Rightarrow> k_file \<Rightarrow> nat \<Rightarrow> nat \<Rightarrow> ('h store, native_run list) io" where
  "ext_target h v f offset n =
     io_bind (ext_inode h v (fl_cluster f)) (\<lambda>raw.
       io_guard (\<not> ext_writable v f raw) K_ENOTSUP
         (io_guard (unat (rd32 raw 100) \<noteq> fl_directory_offset f \<or> ext_size raw \<noteq> fl_size f) K_ENOENT
            (io_bind (ext_map h v (fl_cluster f) raw) (\<lambda>runs.
               io_guard (\<not> range_mapped v runs offset n) K_ENOTSUP
                 (io_bind (groups_clear h v runs) (\<lambda>_. io_bind (runs_marked h v runs None) (\<lambda>_. io_ok runs)))))))"

definition with_native :: "nat \<Rightarrow> ('h nvs \<Rightarrow> int \<times> 'h nvs) \<Rightarrow> native_fs \<times> 'h store \<Rightarrow> int \<times> native_fs \<times> 'h store" where
  "with_native i op y =
     (case op (na_volumes (fst y) i, snd y) of
        (e, v, s) \<Rightarrow> (e, (fst y)\<lparr>na_volumes := (na_volumes (fst y))(i := v)\<rparr>, s))"

definition in_place :: "'h hw \<Rightarrow> k_file \<Rightarrow> nat \<Rightarrow> bytes \<Rightarrow> nat \<Rightarrow> 'h nvs \<Rightarrow> int \<times> 'h nvs" where
  "in_place h f offset data n x =
     (if nv_kind (fst x) = 5 then ntfs_data_write h (fl_cluster f) offset data n x
      else case ext_target h (fst x) f offset n (snd x) of
        (Inl e, s) \<Rightarrow> (e, fst x, s)
      | (Inr runs, s) \<Rightarrow> run_write h runs offset data n (fst x, s))"


definition NATIVE_REPLACE_MAX :: nat where "NATIVE_REPLACE_MAX = 4 * 1024 * 1024"

section \<open>Mounting\<close>

definition zero_native :: native_volume where
  "zero_native = \<lparr>nv_kind = 0, nv_disk = 0, nv_sector = 0, nv_block = 0, nv_start = 0, nv_length = 0, nv_blocks = 0,
     nv_read_only = False, nv_failed = False, nv_wrote = False, nv_source = [], nv_super = (\<lambda>_. 0), nv_inode_size = 0, nv_inodes = 0,
     nv_inodes_per_group = 0, nv_blocks_per_group = 0, nv_groups = 0, nv_desc_size = 0, nv_csum_seed = 0, nv_csum = False,
     nv_gdt_csum = False, nv_record_size = 0, nv_index_size = 0, nv_mft_count = 0, nv_mft_size = 0, nv_mft = []\<rparr>"

text \<open>A size field of an NTFS boot sector: clusters, or for negative values a power of two.\<close>

definition size_field :: "u8 \<Rightarrow> nat \<Rightarrow> nat" where
  "size_field b block = (let z = sint (ucast b :: 8 word) in if z < 0 then 2 ^ nat (- z) else nat z * block)"

definition ntfs_boot_ok :: "native_volume \<Rightarrow> bytes \<Rightarrow> bool" where
  "ntfs_boot_ok v b \<longleftrightarrow>
     \<not> (unat (rd16 b 11) \<noteq> nv_sector v \<or> \<not> power2 (unat (b 13)) \<or> unat (b 13) > 128 \<or> rd64 b 40 = 0 \<or> unat (rd64 b 40) > nv_length v \<or>
        b 510 \<noteq> 0x55 \<or> b 511 \<noteq> 0xaa) \<and>
     \<not> (b 64 = 0 \<or> b 68 = 0 \<or> sint (b 64) < -12 \<or> sint (b 68) < -12)"

definition ntfs_geometry :: "native_volume \<Rightarrow> bytes \<Rightarrow> native_volume option" where
  "ntfs_geometry v b =
     (let block = unat (rd16 b 11) * unat (b 13); blocks = unat (rd64 b 40) div unat (b 13); mft = unat (rd64 b 48);
          rs = size_field (b 64) block; is = size_field (b 68) block in
      if \<not> ntfs_boot_ok v b \<or> \<not> power2 rs \<or> rs < 512 \<or> rs > 4096 \<or> \<not> power2 is \<or> is < 512 \<or> is > 4096 \<or> mft = 0 \<or> mft \<ge> blocks
      then None
      else Some (v\<lparr>nv_kind := 5, nv_super := put_bytes (\<lambda>_. 0) 0 b 0 512, nv_block := block, nv_blocks := blocks,
                   nv_record_size := rs, nv_index_size := is\<rparr>))"

text \<open>The runs of the master file table come from its own first record.\<close>

definition ntfs_table :: "'h hw \<Rightarrow> native_volume \<Rightarrow> nat \<Rightarrow> ('h store, native_volume) io" where
  "ntfs_table h v mft =
     io_bind (native_get h v (mft * nv_block v) (nv_record_size v)) (\<lambda>b.
     io_bind (io_sum (ntfs_fixup b (nv_record_size v) ''FILE'')) (\<lambda>r.
       io_guard (unat (rd32 r 24) > nv_record_size v \<or> unat (rd16 r 20) < 48 \<or> unat (rd16 r 20) > unat (rd32 r 24)) K_EIO
         (io_bind (io_sum (ntfs_attr r 0x80 [])) (\<lambda>p.
          io_bind (io_sum (ntfs_runs v (sub_bytes r (fst p)) (snd p))) (\<lambda>runs.
            let sz = unat (rd64 r (fst p + 56)) in
            io_guard (sz < nv_record_size v * 24 \<or> sz div nv_record_size v > 0xffffffff) K_ENOTSUP
              (io_ok (v\<lparr>nv_mft := runs, nv_mft_size := sz, nv_mft_count := sz div nv_record_size v\<rparr>)))))))"

definition probe_ntfs :: "'h hw \<Rightarrow> native_volume \<Rightarrow> bytes \<Rightarrow> ('h store, native_volume) io" where
  "probe_ntfs h v b =
     (case ntfs_geometry v b of None \<Rightarrow> io_err K_ENOTSUP | Some v \<Rightarrow> ntfs_table h v (unat (rd64 b 48)))"

definition ext_fields :: "native_volume \<Rightarrow> bytes \<Rightarrow> native_volume" where
  "ext_fields v b =
     (let incompat = rd32 b 96; wide = (incompat AND 0x80 \<noteq> 0) in
      v\<lparr>nv_kind := 4, nv_super := b, nv_block := 1024 * 2 ^ unat (rd32 b 24),
        nv_blocks := unat (rd32 b 4) + (if wide then unat (rd32 b 336) * 2 ^ 32 else 0),
        nv_inode_size := (if rd32 b 76 \<noteq> 0 then unat (rd16 b 88) else 128), nv_inodes := unat (rd32 b 0),
        nv_blocks_per_group := unat (rd32 b 32), nv_inodes_per_group := unat (rd32 b 40),
        nv_desc_size := (if wide then unat (rd16 b 254) else 32), nv_csum := (rd32 b 100 AND 0x400 \<noteq> 0),
        nv_gdt_csum := (rd32 b 100 AND 0x10 \<noteq> 0)\<rparr>)"

definition ext_fields_ok :: "native_volume \<Rightarrow> bool" where
  "ext_fields_ok v \<longleftrightarrow>
     \<not> (nv_blocks v = 0 \<or> nv_blocks v > nv_length v * nv_sector v div nv_block v \<or> nv_inodes v = 0 \<or>
        nv_blocks_per_group v = 0 \<or> nv_blocks_per_group v > 8 * nv_block v \<or> nv_blocks_per_group v mod 8 \<noteq> 0 \<or>
        nv_inodes_per_group v = 0 \<or> nv_inodes_per_group v > 8 * nv_block v \<or> nv_inode_size v < 128 \<or>
        nv_inode_size v > 512 \<or> \<not> power2 (nv_inode_size v) \<or> (nv_desc_size v \<noteq> 32 \<and> nv_desc_size v \<noteq> 64) \<or>
        unat (rd32 (nv_super v) 20) \<noteq> (if nv_block v = 1024 then 1 else 0))"

definition ext_group_count :: "native_volume \<Rightarrow> nat" where
  "ext_group_count v =
     (nv_blocks v - unat (rd32 (nv_super v) 20) + nv_blocks_per_group v - 1) div nv_blocks_per_group v"

text \<open>Unknown read-only features, an unclean state and a pending journal only make the volume read-only.\<close>

definition ext_frozen :: "bytes \<Rightarrow> bool" where
  "ext_frozen b \<longleftrightarrow> rd32 b 100 AND NOT 0x47b \<noteq> 0 \<or> rd16 b 58 \<noteq> 1 \<or> rd32 b 96 AND 4 \<noteq> 0 \<or> rd32 b 232 \<noteq> 0"

definition ext_geometry :: "native_volume \<Rightarrow> bytes \<Rightarrow> int + native_volume" where
  "ext_geometry v b =
     (let incompat = rd32 b 96; w = ext_fields v b; groups = ext_group_count w;
          seed = (if incompat AND 0x2000 \<noteq> 0 then rd32 b 624 else crc32c_step 0xffffffff (\<lambda>j. b (104 + j)) 16) in
      if rd16 b 56 \<noteq> 0xef53 then Inl K_ENOTSUP
      else if unat (rd32 b 24) > 2 \<or> unat (rd32 b 76) > 1 \<or> incompat AND NOT 0x22c6 \<noteq> 0 \<or> rd32 b 28 \<noteq> rd32 b 24 then Inl K_ENOTSUP
      else if \<not> ext_fields_ok w then Inl K_ENOTSUP
      else if groups = 0 \<or> groups > 65536 \<or> nv_inodes w > groups * nv_inodes_per_group w then Inl K_ENOTSUP
      else if nv_csum w \<and> (b 373 \<noteq> 1 \<or> crc32c_step 0xffffffff b 1020 \<noteq> rd32 b 1020) then Inl K_EIO
      else Inr (w\<lparr>nv_groups := groups, nv_csum_seed := seed, nv_read_only := nv_read_only w \<or> ext_frozen b\<rparr>))"

definition probe_volume :: "'h hw \<Rightarrow> native_volume \<Rightarrow> ('h store, native_volume) io" where
  "probe_volume h v =
     io_bind (native_get h v 0 512) (\<lambda>b.
       if memcmp b 3 (text_bytes ''NTFS    '') 0 8 = 0 then probe_ntfs h v b
       else io_bind (native_get h v 1024 1024) (\<lambda>b. io_sum (ext_geometry v b)))"

definition add_native :: "nat \<Rightarrow> native_volume \<Rightarrow> nat \<Rightarrow> nat \<Rightarrow> ('h, native_fs) fvfs \<Rightarrow> ('h, native_fs) fvfs" where
  "add_native cpu v disk_id part s =
     (let fs = snd (vf_vol s); n = na_count fs; source = mount_source disk_id part; path = mount_path disk_id part in
      bind_root cpu (decimal_name ''disk'' disk_id) path (bind_root cpu source path
        (s\<lparr>vf_vol := (fst (vf_vol s), fs\<lparr>na_volumes := (na_volumes fs)(n := v\<lparr>nv_source := str_copy [] source 24\<rparr>), na_count := n + 1\<rparr>),
           vf_mounts := vf_mounts s @ [\<lparr>mt_path = str_copy [] path K_PATH_BYTES, mt_volume = n, mt_kind = nv_kind v\<rparr>]\<rparr>)))"

definition native_probe :: "nat \<Rightarrow> 'h hw \<Rightarrow> nat \<Rightarrow> nat \<Rightarrow> nat \<Rightarrow> nat \<Rightarrow> bool \<Rightarrow> ('h, native_fs) fvfs \<Rightarrow> int \<times> ('h, native_fs) fvfs" where
  "native_probe cpu h disk_id start len part ro s =
     (let d = s_disks (vf_store s) disk_id;
          v = zero_native\<lparr>nv_disk := disk_id, nv_sector := d_sector_size d, nv_start := start, nv_length := len, nv_read_only := ro\<rparr> in
      if na_count (snd (vf_vol s)) = MAX_VOLUMES \<or> length (vf_mounts s) = MAX_VOLUMES then (K_E2BIG, s)
      else if len = 0 \<or> start \<ge> d_sectors d \<or> len > d_sectors d - start then (K_EINVAL, s)
      else case probe_volume h v (vf_store s) of
        (Inl e, ds) \<Rightarrow> (e, s\<lparr>vf_store := ds\<rparr>)
      | (Inr v, ds) \<Rightarrow>
          (case new_node (mount_path disk_id part) True (s\<lparr>vf_store := ds\<rparr>) of
             (r, s) \<Rightarrow>
               let e = (case r of Inl e \<Rightarrow> e | Inr _ \<Rightarrow> 0) in
               if e \<noteq> 0 \<and> e \<noteq> K_EEXIST then (e, s) else (0, add_native cpu v disk_id part s)))"

fun native_sync_loop :: "'h hw \<Rightarrow> nat list \<Rightarrow> int \<Rightarrow> native_fs \<times> 'h store \<Rightarrow> int \<times> native_fs \<times> 'h store" where
  "native_sync_loop h [] e y = (e, y)"
| "native_sync_loop h (i # is) e y =
     (let v = na_volumes (fst y) i in
      case (if nv_failed v then (K_EIO, snd y) else if nv_wrote v then disk_flush h (nv_disk v) (snd y) else (0, snd y)) of
        (n, s) \<Rightarrow> native_sync_loop h is (if n \<noteq> 0 \<and> e = 0 then n else e) (fst y, s))"

definition native_sync_all :: "'h hw \<Rightarrow> native_fs \<times> 'h store \<Rightarrow> int \<times> native_fs \<times> 'h store" where
  "native_sync_all h y = native_sync_loop h [0..<na_count (fst y)] 0 y"

definition native_description :: "native_fs \<Rightarrow> nat \<Rightarrow> string" where
  "native_description fs i =
     (let v = na_volumes fs i in
      if i \<ge> na_count fs then ''invalid volume''
      else if nv_kind v = 4
      then if nv_read_only v \<or> nv_failed v then ''ext4 read-only'' else ''ext4 read/write (bounded inline extents, non-indexed creation)''
      else if nv_read_only v \<or> nv_failed v then ''NTFS read-only'' else ''NTFS read/write (existing MFT capacity, no index splits)'')"

end
