(* ===== verification/ExtWrite.thy ===== *)
theory ExtWrite
  imports NativeOps
begin

unbundle bit_operations_syntax

text \<open>
  Rewriting and creating files on ext4 volumes (\<open>fs/fs.c\<close>, \<open>ext_tx_get\<close> to \<open>ext_create\<close>). All metadata is
  changed in memory first, in copies of the blocks it lives in; \<open>ext_commit\<close> then writes data and
  metadata in order. The table of copies \<open>ext_tx_blocks\<close> is emptied whenever a change is prepared and is not read before,
  so it starts empty here. A pointer into a copy is a block number and an offset: two
  pointers into one block see each other's changes.
\<close>

section \<open>The staged blocks\<close>

definition EXT_TX_BLOCKS :: nat where "EXT_TX_BLOCKS = 128"

type_synonym ext_tx = "(nat \<times> bytes) list"

type_synonym 'h txs = "ext_tx \<times> 'h store"

type_synonym tx_ptr = "nat \<times> nat"

definition tx_block :: "ext_tx \<Rightarrow> nat \<Rightarrow> bytes" where
  "tx_block tx n = (case map_of tx n of Some b \<Rightarrow> b | None \<Rightarrow> (\<lambda>_. 0))"

definition tx_at :: "ext_tx \<Rightarrow> tx_ptr \<Rightarrow> bytes" where
  "tx_at tx p = sub_bytes (tx_block tx (fst p)) (snd p)"

text \<open>A change of the bytes a pointer sees.\<close>

definition from_offset :: "nat \<Rightarrow> (bytes \<Rightarrow> bytes) \<Rightarrow> bytes \<Rightarrow> bytes" where
  "from_offset off f b = (\<lambda>a. if a < off then b a else f (sub_bytes b off) (a - off))"

definition tx_edit :: "tx_ptr \<Rightarrow> (bytes \<Rightarrow> bytes) \<Rightarrow> ext_tx \<Rightarrow> ext_tx" where
  "tx_edit p f tx = map (\<lambda>(n, b). (n, if n = fst p then from_offset (snd p) f b else b)) tx"

definition tx_io :: "('h store, 'a) io \<Rightarrow> ('h txs, 'a) io" where
  "tx_io m y = (case m (snd y) of (r, s) \<Rightarrow> (r, fst y, s))"

definition tx_view :: "(ext_tx \<Rightarrow> ('h txs, 'a) io) \<Rightarrow> ('h txs, 'a) io" where
  "tx_view f y = f (fst y) y"

definition tx_change :: "(ext_tx \<Rightarrow> ext_tx) \<Rightarrow> ('h txs, unit) io" where
  "tx_change f y = (Inr (), f (fst y), snd y)"

definition ext_tx_get :: "'h hw \<Rightarrow> native_volume \<Rightarrow> nat \<Rightarrow> ('h txs, tx_ptr) io" where
  "ext_tx_get h v block =
     io_guard (block \<ge> nv_blocks v) K_EIO
       (tx_view (\<lambda>tx.
          if block \<in> fst ` set tx then io_ok (block, 0)
          else io_guard (length tx = EXT_TX_BLOCKS) K_E2BIG
            (io_bind (tx_io (native_get h v (block * nv_block v) (nv_block v))) (\<lambda>b.
             io_bind (tx_change (\<lambda>tx. tx @ [(block, b)])) (\<lambda>_. io_ok (block, 0))))))"

definition ext_tx_desc :: "'h hw \<Rightarrow> native_volume \<Rightarrow> nat \<Rightarrow> ('h txs, tx_ptr) io" where
  "ext_tx_desc h v g =
     io_bind (tx_io (ext_group h v g)) (\<lambda>_.
       let at = (if nv_block v = 1024 then 2 else 1) * nv_block v + g * nv_desc_size v in
       io_bind (ext_tx_get h v (at div nv_block v)) (\<lambda>p. io_ok (fst p, at mod nv_block v)))"

definition ext_tx_super :: "'h hw \<Rightarrow> native_volume \<Rightarrow> ('h txs, tx_ptr) io" where
  "ext_tx_super h v = io_bind (ext_tx_get h v (1024 div nv_block v)) (\<lambda>p. io_ok (fst p, 1024 mod nv_block v))"

definition desc_sum :: "native_volume \<Rightarrow> nat \<Rightarrow> bytes \<Rightarrow> u16" where
  "desc_sum v g d =
     (if nv_csum v then ucast (crc32c_step (crc32c_step (nv_csum_seed v) (le4 g) 4) d (nv_desc_size v))
      else
        let c = crc16_step 0xffff (\<lambda>j. nv_super v (104 + j)) 16; c = crc16_step c (le4 g) 4; c = crc16_step c d 30 in
        if nv_desc_size v > 32 then crc16_step c (\<lambda>j. d (32 + j)) (nv_desc_size v - 32) else c)"

definition ext_desc_checksum :: "native_volume \<Rightarrow> nat \<Rightarrow> bytes \<Rightarrow> bytes" where
  "ext_desc_checksum v g d =
     (let z = wr16 d 30 0 in if nv_csum v \<or> nv_gdt_csum v then wr16 z 30 (desc_sum v g z) else z)"

text \<open>The bitmaps of a group: \<open>True\<close> for inodes, \<open>False\<close> for blocks. A 32-bit field is in two halves, the upper one in wide descriptors only.\<close>

definition wide_get :: "native_volume \<Rightarrow> bytes \<Rightarrow> nat \<Rightarrow> nat \<Rightarrow> nat" where
  "wide_get v d low high = unat (rd16 d low) + (if nv_desc_size v = 64 then unat (rd16 d high) * 2 ^ 16 else 0)"

definition wide_put :: "native_volume \<Rightarrow> nat \<Rightarrow> nat \<Rightarrow> nat \<Rightarrow> bytes \<Rightarrow> bytes" where
  "wide_put v low high n d =
     (let d = wr16 d low (word_of_nat n) in if nv_desc_size v = 64 then wr16 d high (word_of_nat (n div 2 ^ 16)) else d)"

definition per_group :: "native_volume \<Rightarrow> bool \<Rightarrow> nat" where
  "per_group v inode = (if inode then nv_inodes_per_group v else nv_blocks_per_group v)"

definition first_number :: "native_volume \<Rightarrow> bool \<Rightarrow> nat" where
  "first_number v inode = (if inode then 1 else unat (rd32 (nv_super v) 20))"

definition map_sum_ok :: "native_volume \<Rightarrow> bool \<Rightarrow> bytes \<Rightarrow> bytes \<Rightarrow> bool" where
  "map_sum_ok v inode d b \<longleftrightarrow>
     (let crc = crc32c_step (nv_csum_seed v) b (per_group v inode div 8) in
      unat (if nv_desc_size v = 64 then crc else crc AND 0xffff) =
      wide_get v d (if inode then 26 else 24) (if inode then 58 else 56))"

definition uninit_flag :: "bool \<Rightarrow> u16" where
  "uninit_flag inode = (if inode then 1 else 2)"

definition ext_tx_bitmap :: "'h hw \<Rightarrow> native_volume \<Rightarrow> nat \<Rightarrow> bool \<Rightarrow> ('h txs, tx_ptr \<times> tx_ptr) io" where
  "ext_tx_bitmap h v g inode =
     io_bind (ext_tx_desc h v g) (\<lambda>d. tx_view (\<lambda>tx.
       io_guard (rd16 (tx_at tx d) 18 AND uninit_flag inode \<noteq> 0) K_ENOTSUP
         (io_bind (ext_tx_get h v (ext_desc_block v (tx_at tx d) (if inode then 4 else 0))) (\<lambda>b. tx_view (\<lambda>tx.
            io_guard (nv_csum v \<and> \<not> map_sum_ok v inode (tx_at tx d) (tx_at tx b)) K_EIO (io_ok (d, b)))))))"

text \<open>One bit of a bitmap changes: the bit, the free count of the group, the checksums.\<close>

definition put_bit :: "bool \<Rightarrow> nat \<Rightarrow> bytes \<Rightarrow> bytes" where
  "put_bit value k b = (if value then bit_set b k else bit_clear b k)"

definition unused_put :: "native_volume \<Rightarrow> nat \<Rightarrow> bytes \<Rightarrow> bytes" where
  "unused_put v now d = (if wide_get v d 28 50 > now then wide_put v 28 50 now d else d)"

definition free_put :: "native_volume \<Rightarrow> bool \<Rightarrow> nat \<Rightarrow> bytes \<Rightarrow> bytes" where
  "free_put v inode = wide_put v (if inode then 14 else 12) (if inode then 46 else 44)"

definition desc_sums :: "native_volume \<Rightarrow> nat \<Rightarrow> bool \<Rightarrow> bool \<Rightarrow> nat \<Rightarrow> u32 \<Rightarrow> bytes \<Rightarrow> bytes" where
  "desc_sums v g inode allocate k crc d =
     (let d = (if nv_csum v then wide_put v (if inode then 26 else 24) (if inode then 58 else 56) (unat crc) d else d);
          d = (if inode \<and> allocate then unused_put v (per_group v inode - k - 1) d else d) in
      ext_desc_checksum v g d)"

definition super_free :: "bool \<Rightarrow> bytes \<Rightarrow> nat" where
  "super_free inode b =
     (if inode then unat (rd32 b 16)
      else unat (rd32 b 12) + (if rd32 b 96 AND 0x80 \<noteq> 0 then unat (rd32 b 344) * 2 ^ 32 else 0))"

definition super_put :: "bool \<Rightarrow> nat \<Rightarrow> bytes \<Rightarrow> bytes" where
  "super_put inode n b =
     (if inode then wr32 b 16 (word_of_nat n)
      else
        let b = wr32 b 12 (word_of_nat n) in
        if rd32 b 96 AND 0x80 \<noteq> 0 then wr32 b 344 (word_of_nat (n div 2 ^ 32)) else b)"

definition super_count :: "'h hw \<Rightarrow> native_volume \<Rightarrow> bool \<Rightarrow> bool \<Rightarrow> ('h txs, unit) io" where
  "super_count h v inode allocate =
     io_bind (ext_tx_super h v) (\<lambda>p. tx_view (\<lambda>tx.
       let n = super_free inode (tx_at tx p) in
       io_guard ((allocate \<and> n = 0) \<or> (\<not> allocate \<and> n = (if inode then nv_inodes v else nv_blocks v))) K_EIO
         (tx_change (tx_edit p (super_put inode (if allocate then n - 1 else n + 1))))))"

definition ext_tx_bit :: "'h hw \<Rightarrow> native_volume \<Rightarrow> nat \<Rightarrow> bool \<Rightarrow> bool \<Rightarrow> ('h txs, unit) io" where
  "ext_tx_bit h v number inode allocate =
     (let first = first_number v inode; per = per_group v inode;
          g = (number - first) div per mod 2 ^ 32; k = (number - first) mod per in
      io_guard (number < first) K_EIO
        (io_bind (ext_tx_bitmap h v g inode) (\<lambda>(d, b). tx_view (\<lambda>tx.
           let free = wide_get v (tx_at tx d) (if inode then 14 else 12) (if inode then 46 else 44) in
           io_guard (bit_get (tx_at tx b) k = allocate) K_EIO
             (io_guard ((allocate \<and> free = 0) \<or> (\<not> allocate \<and> free \<ge> per)) K_EIO
                (io_bind (tx_change (tx_edit b (put_bit allocate k))) (\<lambda>_.
                 io_bind (tx_change (tx_edit d (free_put v inode (if allocate then free - 1 else free + 1)))) (\<lambda>_.
                 io_bind (tx_change (\<lambda>tx. tx_edit d
                   (desc_sums v g inode allocate k (crc32c_step (nv_csum_seed v) (tx_at tx b) (per div 8))) tx)) (\<lambda>_.
                 super_count h v inode allocate)))))))))"

text \<open>First fit over the groups; inode numbers below the first usable one are skipped.\<close>

definition tx_number :: "native_volume \<Rightarrow> bool \<Rightarrow> nat \<Rightarrow> nat \<Rightarrow> nat" where
  "tx_number v inode g k = g * per_group v inode + k + first_number v inode"

definition tx_candidate :: "native_volume \<Rightarrow> bool \<Rightarrow> nat \<Rightarrow> bytes \<Rightarrow> nat option" where
  "tx_candidate v inode g b =
     find (\<lambda>k. \<not> (inode \<and> tx_number v inode g k < unat (rd32 (nv_super v) 84)) \<and> \<not> bit_get b k)
       (takeWhile (\<lambda>k. if inode then tx_number v inode g k \<le> nv_inodes v else tx_number v inode g k < nv_blocks v)
          [0..<per_group v inode])"

fun ext_tx_groups :: "'h hw \<Rightarrow> native_volume \<Rightarrow> bool \<Rightarrow> nat list \<Rightarrow> ('h txs, nat) io" where
  "ext_tx_groups h v inode [] = io_err K_ENOSPC"
| "ext_tx_groups h v inode (g # gs) =
     io_bind (ext_tx_desc h v g) (\<lambda>d. tx_view (\<lambda>tx.
       if rd16 (tx_at tx d) 18 AND uninit_flag inode \<noteq> 0 \<or>
          wide_get v (tx_at tx d) (if inode then 14 else 12) (if inode then 46 else 44) = 0
       then ext_tx_groups h v inode gs
       else io_bind (ext_tx_bitmap h v g inode) (\<lambda>(d, b). tx_view (\<lambda>tx.
         case tx_candidate v inode g (tx_at tx b) of
           None \<Rightarrow> ext_tx_groups h v inode gs
         | Some k \<Rightarrow>
             io_bind (ext_tx_bit h v (tx_number v inode g k) inode True) (\<lambda>_. io_ok (tx_number v inode g k))))))"

definition ext_tx_allocate :: "'h hw \<Rightarrow> native_volume \<Rightarrow> bool \<Rightarrow> ('h txs, nat) io" where
  "ext_tx_allocate h v inode = ext_tx_groups h v inode [0..<nv_groups v]"

section \<open>Inodes\<close>

definition ext_set_size :: "bytes \<Rightarrow> nat \<Rightarrow> bytes" where
  "ext_set_size raw sz = wr32 (wr32 raw 4 (word_of_nat sz)) 108 (word_of_nat (sz div 2 ^ 32))"

definition ext_inode_checksum :: "native_volume \<Rightarrow> nat \<Rightarrow> bytes \<Rightarrow> bytes" where
  "ext_inode_checksum v ino raw =
     (if \<not> nv_csum v then raw
      else
        let z = wr16 raw 124 0; high = inode_high v z; z = (if high then wr16 z 130 0 else z);
            crc = crc32c_step (ext_inode_seed v ino z) z (nv_inode_size v); z = wr16 z 124 (ucast crc) in
        if high then wr16 z 130 (ucast (drop_bit 16 crc)) else z)"

definition ext_tx_inode :: "'h hw \<Rightarrow> native_volume \<Rightarrow> nat \<Rightarrow> bytes \<Rightarrow> ('h txs, unit) io" where
  "ext_tx_inode h v ino raw =
     io_bind (ext_tx_desc h v ((ino - 1) div nv_inodes_per_group v)) (\<lambda>d. tx_view (\<lambda>tx.
       let pos = ext_desc_block v (tx_at tx d) 8 * nv_block v + (ino - 1) mod nv_inodes_per_group v * nv_inode_size v;
           at = pos mod nv_block v in
       io_bind (ext_tx_get h v (pos div nv_block v)) (\<lambda>p.
         io_guard (nv_inode_size v > nv_block v - at) K_EIO
           (tx_change (tx_edit (fst p, at) (\<lambda>b. put_bytes b 0 (ext_inode_checksum v ino raw) 0 (nv_inode_size v)))))))"

definition extent_put :: "nat \<Rightarrow> native_run \<Rightarrow> bytes \<Rightarrow> bytes" where
  "extent_put x r raw =
     wr32 (wr16 (wr16 (wr32 raw x (word_of_nat (nr_logical r))) (x + 4) (word_of_nat (nr_length r)))
             (x + 6) (word_of_nat (nr_physical r div 2 ^ 32))) (x + 8) (word_of_nat (nr_physical r))"

fun extents_put :: "nat \<Rightarrow> native_run list \<Rightarrow> bytes \<Rightarrow> bytes" where
  "extents_put x [] raw = raw"
| "extents_put x (r # rs) raw = extents_put (x + 12) rs (extent_put x r raw)"

definition ext_inline_map :: "bytes \<Rightarrow> native_run list \<Rightarrow> nat \<Rightarrow> bytes" where
  "ext_inline_map raw runs blocksize =
     (let raw = put_bytes raw 40 (\<lambda>_. 0) 0 60;
          raw = wr16 (wr16 (wr16 raw 40 0xf30a) 42 (word_of_nat (length runs))) 44 4;
          raw = extents_put 52 runs raw;
          raw = wr32 raw 32 (rd32 raw 32 OR 0x80000);
          raw = wr32 raw 28 (word_of_nat (sum_list (map nr_length runs) * (blocksize div 512))) in
      wr16 raw 116 0)"

text \<open>At most four runs; a block that follows the last run extends it.\<close>

definition add_block :: "nat \<Rightarrow> nat \<Rightarrow> native_run list \<Rightarrow> int + native_run list" where
  "add_block logical physical runs =
     (if runs \<noteq> [] \<and> nr_physical (last runs) + nr_length (last runs) = physical \<and> nr_length (last runs) < 32768
      then Inr (butlast runs @ [(last runs)\<lparr>nr_length := nr_length (last runs) + 1\<rparr>])
      else if length runs = 4 then Inl K_ENOSPC
      else Inr (runs @ [\<lparr>nr_logical = logical, nr_physical = physical, nr_length = 1, nr_hole = False\<rparr>]))"

definition ext_alloc_runs :: "'h hw \<Rightarrow> native_volume \<Rightarrow> nat \<Rightarrow> ('h txs, native_run list) io" where
  "ext_alloc_runs h v sz =
     io_each (\<lambda>logical runs. io_bind (ext_tx_allocate h v False) (\<lambda>physical. io_sum (add_block logical physical runs)))
       [0..<(sz + nv_block v - 1) div nv_block v] []"

section \<open>Where data may lie\<close>

function strip_factor :: "nat \<Rightarrow> nat \<Rightarrow> nat" where
  "strip_factor b n = (if b > 1 \<and> n > 1 \<and> n mod b = 0 then strip_factor b (n div b) else n)"
  by pat_completeness auto
termination
  by (relation "measure snd") auto

declare strip_factor.simps [simp del]

definition ext_has_super :: "native_volume \<Rightarrow> nat \<Rightarrow> bool" where
  "ext_has_super v g =
     (if g = 0 then True
      else if rd32 (nv_super v) 92 AND 0x200 \<noteq> 0 then g = unat (rd32 (nv_super v) 588) \<or> g = unat (rd32 (nv_super v) 592)
      else if rd32 (nv_super v) 100 AND 1 = 0 \<or> g = 1 then True
      else list_ex (\<lambda>b. strip_factor b g = 1) [3, 5, 7])"

text \<open>The areas of a group that belong to the volume: two bitmaps, the inode table, and the superblock copy with the descriptors.\<close>

definition group_areas :: "native_volume \<Rightarrow> nat \<Rightarrow> bytes \<Rightarrow> (nat \<times> nat) list" where
  "group_areas v g d =
     [(ext_desc_block v d 0, 1), (ext_desc_block v d 4, 1), (ext_desc_block v d 8, inode_blocks v),
      (unat (rd32 (nv_super v) 20) + g * nv_blocks_per_group v,
       if ext_has_super v g
       then 1 + (nv_groups v * nv_desc_size v + nv_block v - 1) div nv_block v + unat (rd16 (nv_super v) 206) else 0)]"

definition area_bad :: "native_volume \<Rightarrow> native_run list \<Rightarrow> nat \<times> nat \<Rightarrow> bool" where
  "area_bad v runs p \<longleftrightarrow> snd p \<noteq> 0 \<and>
     (\<not> span_ok (fst p) (snd p) (nv_blocks v) \<or>
      (\<exists>r\<in>set runs. \<not> nr_hole r \<and> overlap (nr_physical r) (nr_length r) (fst p) (snd p)))"

definition journal_runs :: "'h hw \<Rightarrow> native_volume \<Rightarrow> ('h store, native_run list) io" where
  "journal_runs h v =
     (let ino = unat (rd32 (nv_super v) 224) in io_bind (ext_inode h v ino) (\<lambda>raw. ext_map h v ino raw))"

definition ext_data_boundaries :: "'h hw \<Rightarrow> native_volume \<Rightarrow> native_run list \<Rightarrow> ('h store, unit) io" where
  "ext_data_boundaries h v runs =
     io_bind (io_each (\<lambda>g _. io_bind (ext_group h v g) (\<lambda>d.
       io_guard (list_ex (area_bad v runs) (group_areas v g d)) K_EIO (io_ok ()))) [0..<nv_groups v] ()) (\<lambda>_.
     if rd32 (nv_super v) 92 AND 4 \<noteq> 0
     then io_bind (journal_runs h v) (\<lambda>jr. io_guard (runs_clash runs jr) K_EIO (io_ok ()))
     else io_ok ())"

text \<open>Only a clean volume with known features and an empty journal is changed.\<close>

definition journal_idle :: "'h hw \<Rightarrow> native_volume \<Rightarrow> ('h store, unit) io" where
  "journal_idle h v =
     io_bind (journal_runs h v) (\<lambda>runs.
     io_bind (run_get h v runs 0 32) (\<lambda>j.
       io_guard (j 0 \<noteq> 0xc0 \<or> j 1 \<noteq> 0x3b \<or> j 2 \<noteq> 0x39 \<or> j 3 \<noteq> 0x98 \<or> j 7 \<noteq> 4 \<or> rd32 j 28 \<noteq> 0) K_EROFS (io_ok ())))"

definition io_code :: "('s \<Rightarrow> int \<times> 's) \<Rightarrow> ('s, unit) io" where
  "io_code m s = (case m s of (e, s) \<Rightarrow> (if e \<noteq> 0 then Inl e else Inr (), s))"

definition ext_prepare_metadata :: "'h hw \<Rightarrow> native_fs \<Rightarrow> nat \<Rightarrow> ('h store, unit) io" where
  "ext_prepare_metadata h fs index =
     (let v = na_volumes fs index; b = nv_super v in
      io_bind (io_code (native_clean h fs index)) (\<lambda>_.
        io_guard (rd32 b 92 AND NOT 0x23c \<noteq> 0 \<or> rd32 b 100 AND NOT 0x47b \<noteq> 0 \<or> rd32 b 228 \<noteq> 0 \<or> rd32 b 96 AND 2 = 0) K_ENOTSUP
          (if rd32 b 92 AND 4 \<noteq> 0 then journal_idle h v else io_ok ())))"

section \<open>Committing\<close>

definition super_state :: "native_volume \<Rightarrow> u16 \<Rightarrow> bytes \<Rightarrow> bytes" where
  "super_state v state b =
     (let b = wr16 b 58 state in if nv_csum v then wr32 b 1020 (crc32c_step 0xffffffff b 1020) else b)"

fun commit_data :: "'h hw \<Rightarrow> nat list \<Rightarrow> bytes \<Rightarrow> nat \<Rightarrow> nat \<Rightarrow> 'h nvs \<Rightarrow> int \<times> 'h nvs" where
  "commit_data h [] data sz offset x = (0, x)"
| "commit_data h (p # ps) data sz offset x =
     (let z = nv_block (fst x); n = (if offset < sz then min (sz - offset) z else 0) in
      case native_write_bytes h (p * z) (put_bytes (\<lambda>_. 0) 0 data offset n) z x of
        (e, x) \<Rightarrow> if e \<noteq> 0 then (e, x) else commit_data h ps data sz (offset + n) x)"

fun commit_blocks :: "'h hw \<Rightarrow> nat \<Rightarrow> ext_tx \<Rightarrow> 'h nvs \<Rightarrow> int \<times> 'h nvs" where
  "commit_blocks h z [] x = (0, x)"
| "commit_blocks h z ((n, b) # tx) x =
     (case native_write_bytes h (n * z) b z x of (e, x) \<Rightarrow> if e \<noteq> 0 then (e, x) else commit_blocks h z tx x)"

definition run_blocks :: "native_run list \<Rightarrow> nat list" where
  "run_blocks runs = concat (map (\<lambda>r. [nr_physical r..<nr_physical r + nr_length r]) runs)"

definition set_failed :: "int \<times> 'h nvs \<Rightarrow> int \<times> 'h nvs" where
  "set_failed r = (case r of (e, v, s) \<Rightarrow> (e, if e \<noteq> 0 then v\<lparr>nv_failed := True\<rparr> else v, s))"

text \<open>First the superblock is marked as unclean, then the data goes to fresh blocks.\<close>

definition commit_start :: "'h hw \<Rightarrow> native_run list \<Rightarrow> bytes \<Rightarrow> nat \<Rightarrow> 'h nvs \<Rightarrow> int \<times> 'h nvs" where
  "commit_start h fresh data sz x =
     (case native_write_bytes h 1024 (super_state (fst x) 0 (nv_super (fst x))) 1024 x of
        (e, x) \<Rightarrow> if e \<noteq> 0 then (e, x) else set_failed (commit_data h (run_blocks fresh) data sz 0 x))"

text \<open>Then the staged blocks are written, with the superblock still unclean, and at last the clean superblock.\<close>

definition commit_meta :: "'h hw \<Rightarrow> ext_tx \<Rightarrow> tx_ptr \<Rightarrow> 'h nvs \<Rightarrow> int \<times> 'h nvs" where
  "commit_meta h tx p x =
     (let tx = tx_edit p (super_state (fst x) 0) tx in
      case commit_blocks h (nv_block (fst x)) tx x of
        (e, x) \<Rightarrow>
          if e \<noteq> 0 then set_failed (e, x)
          else
            let b = super_state (fst x) 1 (tx_at tx p) in
            (case native_write_bytes h 1024 b 1024 x of
               (e, v, s) \<Rightarrow> (e, if e = 0 then v\<lparr>nv_super := put_bytes (nv_super v) 0 b 0 1024\<rparr> else v\<lparr>nv_failed := True\<rparr>, s)))"

definition ext_commit :: "'h hw \<Rightarrow> ext_tx \<Rightarrow> native_run list \<Rightarrow> bytes \<Rightarrow> nat \<Rightarrow> 'h nvs \<Rightarrow> int \<times> 'h nvs" where
  "ext_commit h tx fresh data sz x =
     (case ext_tx_super h (fst x) (tx, snd x) of
        (Inl e, _, s) \<Rightarrow> (e, fst x, s)
      | (Inr p, tx, s) \<Rightarrow>
          (case commit_start h fresh data sz (fst x, s) of (e, x) \<Rightarrow> if e \<noteq> 0 then (e, x) else commit_meta h tx p x))"

section \<open>Rewriting a file\<close>

definition ext_replaceable :: "native_volume \<Rightarrow> k_file \<Rightarrow> bytes \<Rightarrow> bool" where
  "ext_replaceable v f raw \<longleftrightarrow>
     \<not> (ext_mode raw \<noteq> 0x8000 \<or> fl_cluster f < unat (rd32 (nv_super v) 84) \<or> rd16 raw 26 \<noteq> 1 \<or>
        unat (rd32 raw 100) \<noteq> fl_directory_offset f \<or> rd32 raw 32 AND NOT 0x80000 \<noteq> 0 \<or> rd32 raw 32 AND 0x80000 = 0 \<or>
        rd16 raw 46 \<noteq> 0 \<or> rd32 raw 104 \<noteq> 0 \<or> rd16 raw 118 \<noteq> 0)"

definition runs_overlap :: "native_run list \<Rightarrow> native_run list \<Rightarrow> bool" where
  "runs_overlap xs ys \<longleftrightarrow> (\<exists>x\<in>set xs. \<exists>y\<in>set ys. overlap (nr_physical x) (nr_length x) (nr_physical y) (nr_length y))"

text \<open>The inode of a file that occupies \<open>runs\<close>.\<close>

definition mapped_inode :: "native_volume \<Rightarrow> native_run list \<Rightarrow> nat \<Rightarrow> bytes \<Rightarrow> bytes" where
  "mapped_inode v runs sz raw = ext_set_size (ext_inline_map raw runs (nv_block v)) sz"

definition stage_replace :: "'h hw \<Rightarrow> native_volume \<Rightarrow> nat \<Rightarrow> bytes \<Rightarrow> native_run list \<Rightarrow> nat \<Rightarrow> ('h txs, native_run list) io" where
  "stage_replace h v ino raw old sz =
     io_bind (ext_alloc_runs h v sz) (\<lambda>fresh.
     io_bind (tx_io (ext_data_boundaries h v fresh)) (\<lambda>_.
       io_guard (runs_overlap old fresh) K_EIO
         (io_bind (io_each (\<lambda>p _. ext_tx_bit h v p False False) (run_blocks old) ()) (\<lambda>_.
          io_bind (ext_tx_inode h v ino (mapped_inode v fresh sz raw)) (\<lambda>_. io_ok fresh)))))"

definition check_replace :: "'h hw \<Rightarrow> native_fs \<Rightarrow> k_file \<Rightarrow> ('h store, bytes \<times> native_run list) io" where
  "check_replace h fs f =
     (let v = na_volumes fs (fl_object f) in
      io_bind (ext_inode h v (fl_cluster f)) (\<lambda>raw.
        io_guard (\<not> ext_replaceable v f raw) K_ENOTSUP
          (io_bind (ext_map h v (fl_cluster f) raw) (\<lambda>old.
           io_bind (ext_data_boundaries h v old) (\<lambda>_.
           io_bind (ext_prepare_metadata h fs (fl_object f)) (\<lambda>_. io_ok (raw, old)))))))"

definition ext_replace :: "'h hw \<Rightarrow> k_file \<Rightarrow> bytes \<Rightarrow> nat \<Rightarrow> native_fs \<times> 'h store \<Rightarrow> (int \<times> k_file) \<times> native_fs \<times> 'h store" where
  "ext_replace h f data sz y =
     (let fs = fst y; v = na_volumes fs (fl_object f) in
      if sz > NATIVE_REPLACE_MAX then ((K_E2BIG, f), y)
      else case check_replace h fs f (snd y) of
        (Inl e, s) \<Rightarrow> ((e, f), fs, s)
      | (Inr (raw, old), s) \<Rightarrow>
          (case stage_replace h v (fl_cluster f) raw old sz ([], s) of
             (Inl e, _, s) \<Rightarrow> ((e, f), fs, s)
           | (Inr fresh, tx, s) \<Rightarrow>
               (case with_native (fl_object f) (ext_commit h tx fresh data sz) (fs, s) of
                  (e, y) \<Rightarrow> ((e, if e = 0 then f\<lparr>fl_size := sz\<rparr> else f), y))))"

section \<open>Creating a file\<close>

definition dirent_bytes :: "nat \<Rightarrow> nat" where
  "dirent_bytes n = (8 + n + 3) div 4 * 4"

text \<open>The first entry of a directory block with room behind it: its offset, what it uses and its length.\<close>

function dirent_slot :: "bytes \<Rightarrow> nat \<Rightarrow> nat \<Rightarrow> nat \<Rightarrow> int + (nat \<times> nat \<times> nat) option" where
  "dirent_slot b limit needed at =
     (if at \<ge> limit then Inr None
      else if limit - at < 8 then Inl K_EIO
      else
        let rec = unat (rd16 b (at + 4)); len = unat (b (at + 6)); used = (if rd32 b at \<noteq> 0 then dirent_bytes len else 0) in
        if rec < 8 \<or> rec mod 4 \<noteq> 0 \<or> rec > limit - at \<or> len > rec - 8 then Inl K_EIO
        else if rec - used \<ge> needed then Inr (Some (at, used, rec))
        else dirent_slot b limit needed (at + rec))"
  by pat_completeness auto
termination
  by (relation "measure (\<lambda>(b, limit, needed, at). limit - at)") (auto simp: Let_def)

declare dirent_slot.simps [simp del]

definition put_dirent :: "nat \<times> nat \<times> nat \<Rightarrow> string \<Rightarrow> nat \<Rightarrow> bool \<Rightarrow> bytes \<Rightarrow> bytes" where
  "put_dirent slot name ino directory b =
     (case slot of (at, used, rec) \<Rightarrow>
        let target = at + used; b = (if used \<noteq> 0 then wr16 b (at + 4) (word_of_nat used) else b);
            b = put_bytes b target (\<lambda>_. 0) 0 (rec - used); b = wr32 b target (word_of_nat ino);
            b = wr16 b (target + 4) (word_of_nat (rec - used));
            b = b(target + 6 := word_of_nat (str_len name), target + 7 := if directory then 2 else 1) in
        put_bytes b (target + 8) (text_bytes name) 0 (str_len name))"

definition dir_limit :: "native_volume \<Rightarrow> nat" where
  "dir_limit v = nv_block v - (if nv_csum v then 12 else 0)"

definition dir_sum_ok :: "native_volume \<Rightarrow> u32 \<Rightarrow> bytes \<Rightarrow> bool" where
  "dir_sum_ok v seed b \<longleftrightarrow>
     (let l = dir_limit v in \<not> (rd32 b l \<noteq> 0 \<or> rd16 b (l + 4) \<noteq> 12 \<or> b (l + 7) \<noteq> 0xde \<or> crc32c_step seed b l \<noteq> rd32 b (l + 8)))"

definition dir_seal :: "native_volume \<Rightarrow> u32 \<Rightarrow> bytes \<Rightarrow> bytes" where
  "dir_seal v seed b = (if nv_csum v then wr32 b (dir_limit v + 8) (crc32c_step seed b (dir_limit v)) else b)"

fun dirent_blocks :: "'h hw \<Rightarrow> native_volume \<Rightarrow> u32 \<Rightarrow> string \<Rightarrow> nat \<Rightarrow> bool \<Rightarrow> (bool \<times> nat) list \<Rightarrow> ('h txs, unit) io" where
  "dirent_blocks h v seed name ino directory [] = io_err K_ENOSPC"
| "dirent_blocks h v seed name ino directory ((hole, n) # ps) =
     io_guard hole K_EIO
       (io_bind (ext_tx_get h v n) (\<lambda>p. tx_view (\<lambda>tx.
          io_guard (nv_csum v \<and> \<not> dir_sum_ok v seed (tx_at tx p)) K_EIO
            (io_bind (io_sum (dirent_slot (tx_at tx p) (dir_limit v) (dirent_bytes (str_len name)) 0)) (\<lambda>slot.
               case slot of
                 None \<Rightarrow> dirent_blocks h v seed name ino directory ps
               | Some q \<Rightarrow> tx_change (tx_edit p (\<lambda>b. dir_seal v seed (put_dirent q name ino directory b))))))))"

definition ext_add_dirent :: "'h hw \<Rightarrow> native_volume \<Rightarrow> nat \<Rightarrow> bytes \<Rightarrow> string \<Rightarrow> nat \<Rightarrow> bool \<Rightarrow> ('h txs, unit) io" where
  "ext_add_dirent h v parent raw name ino directory =
     io_guard (str_len name = 0 \<or> str_len name > 255 \<or> rd32 raw 32 AND NOT 0x80000 \<noteq> 0 \<or> rd32 raw 32 AND 0x80000 = 0 \<or> rd16 raw 46 \<noteq> 0) K_ENOTSUP
       (io_bind (tx_io (ext_map h v parent raw)) (\<lambda>runs.
          io_guard (ext_size raw > NATIVE_SCAN_MAX \<or> ext_size raw mod nv_block v \<noteq> 0) K_ENOTSUP
            (dirent_blocks h v (ext_inode_seed v parent raw) name ino directory
               (concat (map (\<lambda>r. map (Pair (nr_hole r)) [nr_physical r..<nr_physical r + nr_length r]) runs)))))"

text \<open>The directory part of a path and the last name.\<close>

definition parent_and_name :: "string \<Rightarrow> string \<times> string" where
  "parent_and_name path =
     (let p = str_copy [] path K_PATH_BYTES; split = name_split p (str_len p) in
      (take (if split \<noteq> 0 then split - 1 else 0) p, str_copy [] (drop split p) 256))"

definition fresh_inode :: "native_volume \<Rightarrow> u64 \<Rightarrow> nat \<Rightarrow> bool \<Rightarrow> bytes" where
  "fresh_inode v cycles ino directory =
     (let raw = wr16 (\<lambda>_. 0) 0 (if directory then 0x41ed else 0x81a4); raw = wr16 raw 26 (if directory then 2 else 1);
          raw = wr32 raw 100 (ucast (cycles XOR word_of_nat ino)) in
      if nv_inode_size v \<ge> 160 then wr16 raw 128 32 else raw)"

text \<open>The only block of a new directory: the entries \<open>.\<close> and \<open>..\<close>.\<close>

definition dir_contents :: "native_volume \<Rightarrow> nat \<Rightarrow> nat \<Rightarrow> bytes \<Rightarrow> bytes" where
  "dir_contents v ino parent raw =
     (let l = dir_limit v; b = wr32 (\<lambda>_. 0) 0 (word_of_nat ino); b = wr16 b 4 12; b = b(6 := 1, 7 := 2, 8 := 46);
          b = wr32 b 12 (word_of_nat parent); b = wr16 b 16 (word_of_nat (l - 12)); b = b(18 := 2, 19 := 2, 20 := 46, 21 := 46) in
      if nv_csum v then
        let b = (wr16 b (l + 4) 12)(l + 7 := 0xde) in wr32 b (l + 8) (crc32c_step (ext_inode_seed v ino raw) b l)
      else b)"

definition count_directory :: "'h hw \<Rightarrow> native_volume \<Rightarrow> nat \<Rightarrow> ('h txs, unit) io" where
  "count_directory h v ino =
     (let g = (ino - 1) div nv_inodes_per_group v in
      io_bind (ext_tx_desc h v g) (\<lambda>d. tx_view (\<lambda>tx.
        let used = wide_get v (tx_at tx d) 16 48 in
        io_guard (used \<ge> nv_inodes_per_group v) K_EIO
          (tx_change (tx_edit d (\<lambda>b. ext_desc_checksum v g (wide_put v 16 48 (used + 1) b)))))))"

text \<open>The result: the new inode number, its bytes, the runs and the contents to write.\<close>

definition stage_create ::
  "'h hw \<Rightarrow> native_volume \<Rightarrow> u64 \<Rightarrow> nat \<Rightarrow> bytes \<Rightarrow> string \<Rightarrow> bool \<Rightarrow> bytes \<Rightarrow> nat \<Rightarrow> ('h txs, nat \<times> bytes \<times> native_run list \<times> bytes) io" where
  "stage_create h v cycles parent praw name directory data stored =
     io_bind (ext_tx_allocate h v True) (\<lambda>ino.
     io_bind (ext_alloc_runs h v stored) (\<lambda>fresh.
     io_bind (tx_io (ext_data_boundaries h v fresh)) (\<lambda>_.
     io_bind (tx_io (ext_map h v parent praw)) (\<lambda>pruns.
       io_guard (runs_overlap pruns fresh) K_EIO
         (let raw = mapped_inode v fresh stored (fresh_inode v cycles ino directory);
              praw = (if directory then wr16 praw 26 (rd16 praw 26 + 1) else praw) in
          io_bind (if directory then count_directory h v ino else io_ok ()) (\<lambda>_.
          io_bind (ext_add_dirent h v parent praw name ino directory) (\<lambda>_.
          io_bind (ext_tx_inode h v ino raw) (\<lambda>_.
          io_bind (ext_tx_inode h v parent praw) (\<lambda>_.
            io_ok (ino, raw, fresh, if directory then dir_contents v ino parent raw else data))))))))))"

definition check_create :: "'h hw \<Rightarrow> native_fs \<Rightarrow> nat \<Rightarrow> string \<Rightarrow> string \<Rightarrow> ('h store, nat \<times> bytes) io" where
  "check_create h fs index parent name s =
     (let v = na_volumes fs index in
      case native_open h fs index parent zero_file s of
        ((e, p), s) \<Rightarrow>
          if e \<noteq> 0 then (Inl e, s)
          else if fl_attributes p AND 0x10 = 0 then (Inl K_EINVAL, s)
          else (case ext_directory h v index (fl_cluster p) (Some name) zero_file s of
                  ((e, _, _), s) \<Rightarrow>
                    if e = 0 then (Inl K_EEXIST, s)
                    else if e \<noteq> K_ENOENT then (Inl e, s)
                    else io_bind (ext_inode h v (fl_cluster p)) (\<lambda>praw.
                      io_guard (unat (rd16 praw 26) \<ge> 65000) K_E2BIG
                        (io_bind (ext_prepare_metadata h fs index) (\<lambda>_. io_ok (fl_cluster p, praw)))) s))"

definition ext_create ::
  "'h hw \<Rightarrow> u64 \<Rightarrow> nat \<Rightarrow> string \<Rightarrow> bool \<Rightarrow> bytes \<Rightarrow> nat \<Rightarrow> k_file \<Rightarrow> native_fs \<times> 'h store \<Rightarrow> (int \<times> k_file) \<times> native_fs \<times> 'h store" where
  "ext_create h cycles index path directory data sz out y =
     (let fs = fst y; v = na_volumes fs index; pn = parent_and_name path; stored = (if directory then nv_block v else sz) in
      if index \<ge> na_count fs \<or> sz > NATIVE_REPLACE_MAX then ((K_EINVAL, out), y)
      else case check_create h fs index (fst pn) (snd pn) (snd y) of
        (Inl e, s) \<Rightarrow> ((e, out), fs, s)
      | (Inr (parent, praw), s) \<Rightarrow>
          (case stage_create h v cycles parent praw (snd pn) directory data stored ([], s) of
             (Inl e, _, s) \<Rightarrow> ((e, out), fs, s)
           | (Inr (ino, raw, fresh, contents), tx, s) \<Rightarrow>
               (case with_native index (ext_commit h tx fresh contents stored) (fs, s) of
                  (e, y) \<Rightarrow> ((e, if e = 0 then native_file 4 index ino directory stored (unat (rd32 raw 100)) else out), y))))"

end
