(* ===== verification/NtfsWrite.thy ===== *)
theory NtfsWrite
  imports ExtWrite
begin

unbundle bit_operations_syntax

text \<open>
  Rewriting and creating files on NTFS volumes (\<open>fs/fs.c\<close>, \<open>nt_tx_bytes\<close> to \<open>ntfs_create\<close>). Changes are staged
  in copies of whole sectors, which later reads of the same change see; \<open>nt_commit\<close> writes data and
  sectors in order. As for ext4 the table of copies is emptied when a change is prepared.
\<close>

section \<open>The staged sectors\<close>

definition NT_TX_SECTORS :: nat where "NT_TX_SECTORS = 128"

definition tx_put :: "nat \<Rightarrow> bytes \<Rightarrow> ext_tx \<Rightarrow> ext_tx" where
  "tx_put n b tx = map (\<lambda>(k, c). (k, if k = n then b else c)) tx"

text \<open>The part of one sector: a read takes the copy if there is one, a write makes one.\<close>

definition nt_get_part :: "'h hw \<Rightarrow> native_volume \<Rightarrow> nat \<Rightarrow> nat \<Rightarrow> ('h txs, bytes) io" where
  "nt_get_part h v offset n = tx_view (\<lambda>tx.
     let lba = offset div nv_sector v in
     if lba \<in> fst ` set tx then io_ok (sub_bytes (tx_block tx lba) (offset mod nv_sector v))
     else tx_io (native_get h v offset n))"

definition nt_put_part :: "'h hw \<Rightarrow> native_volume \<Rightarrow> nat \<Rightarrow> bytes \<Rightarrow> nat \<Rightarrow> ('h txs, unit) io" where
  "nt_put_part h v offset data n = tx_view (\<lambda>tx.
     let lba = offset div nv_sector v in
     io_bind (if lba \<in> fst ` set tx then io_ok ()
              else io_guard (length tx = NT_TX_SECTORS) K_E2BIG
                (io_bind (tx_io (native_get h v (lba * nv_sector v) (nv_sector v))) (\<lambda>b. tx_change (\<lambda>tx. tx @ [(lba, b)])))) (\<lambda>_.
     tx_change (\<lambda>tx. tx_put lba (put_bytes (tx_block tx lba) (offset mod nv_sector v) data 0 n) tx)))"

function nt_read_loop :: "'h hw \<Rightarrow> native_volume \<Rightarrow> nat \<Rightarrow> bytes \<Rightarrow> nat \<Rightarrow> nat \<Rightarrow> ('h txs, bytes) io" where
  "nt_read_loop h v offset out p n =
     (if n = 0 then io_ok out
      else if nv_sector v = 0 then io_err K_EIO
      else
        let m = min n (nv_sector v - offset mod nv_sector v) in
        io_bind (nt_get_part h v offset m) (\<lambda>b. nt_read_loop h v (offset + m) (put_bytes out p b 0 m) (p + m) (n - m)))"
  by pat_completeness auto
termination
  by (relation "measure (\<lambda>(h, v, offset, out, p, n). n)") (auto simp: Let_def)

declare nt_read_loop.simps [simp del]

function nt_write_loop :: "'h hw \<Rightarrow> native_volume \<Rightarrow> nat \<Rightarrow> bytes \<Rightarrow> nat \<Rightarrow> ('h txs, unit) io" where
  "nt_write_loop h v offset data n =
     (if n = 0 then io_ok ()
      else if nv_sector v = 0 then io_err K_EIO
      else
        let m = min n (nv_sector v - offset mod nv_sector v) in
        io_bind (nt_put_part h v offset data m) (\<lambda>_. nt_write_loop h v (offset + m) (\<lambda>j. data (m + j)) (n - m)))"
  by pat_completeness auto
termination
  by (relation "measure (\<lambda>(h, v, offset, data, n). n)") (auto simp: Let_def)

declare nt_write_loop.simps [simp del]

definition nt_tx_read :: "'h hw \<Rightarrow> native_volume \<Rightarrow> nat \<Rightarrow> bytes \<Rightarrow> nat \<Rightarrow> nat \<Rightarrow> ('h txs, bytes) io" where
  "nt_tx_read h v offset out p n =
     io_guard (\<not> span_ok offset n (nv_length v * nv_sector v)) K_EIO (nt_read_loop h v offset out p n)"

definition nt_tx_write :: "'h hw \<Rightarrow> native_volume \<Rightarrow> nat \<Rightarrow> bytes \<Rightarrow> nat \<Rightarrow> ('h txs, unit) io" where
  "nt_tx_write h v offset data n =
     io_guard (\<not> span_ok offset n (nv_length v * nv_sector v)) K_EIO (nt_write_loop h v offset data n)"

text \<open>The same through a run list.\<close>

function nt_stream_read :: "'h hw \<Rightarrow> native_volume \<Rightarrow> native_run list \<Rightarrow> nat \<Rightarrow> bytes \<Rightarrow> nat \<Rightarrow> nat \<Rightarrow> ('h txs, bytes) io" where
  "nt_stream_read h v runs offset out p n =
     (if n = 0 then io_ok out
      else if nv_block v = 0 then io_err K_EIO
      else
        let l = offset div nv_block v; at = offset mod nv_block v; m = min n (nv_block v - at) in
        case run_find runs l of
          None \<Rightarrow> io_err K_ENOTSUP
        | Some r \<Rightarrow>
            io_guard (nr_hole r) K_ENOTSUP
              (io_bind (nt_tx_read h v ((nr_physical r + l - nr_logical r) * nv_block v + at) out p m) (\<lambda>out.
                 nt_stream_read h v runs (offset + m) out (p + m) (n - m))))"
  by pat_completeness auto
termination
  by (relation "measure (\<lambda>(h, v, runs, offset, out, p, n). n)") (auto simp: Let_def)

declare nt_stream_read.simps [simp del]

function nt_stream_write :: "'h hw \<Rightarrow> native_volume \<Rightarrow> native_run list \<Rightarrow> nat \<Rightarrow> bytes \<Rightarrow> nat \<Rightarrow> ('h txs, unit) io" where
  "nt_stream_write h v runs offset data n =
     (if n = 0 then io_ok ()
      else if nv_block v = 0 then io_err K_EIO
      else
        let l = offset div nv_block v; at = offset mod nv_block v; m = min n (nv_block v - at) in
        case run_find runs l of
          None \<Rightarrow> io_err K_ENOTSUP
        | Some r \<Rightarrow>
            io_guard (nr_hole r) K_ENOTSUP
              (io_bind (nt_tx_write h v ((nr_physical r + l - nr_logical r) * nv_block v + at) data m) (\<lambda>_.
                 nt_stream_write h v runs (offset + m) (\<lambda>j. data (m + j)) (n - m))))"
  by pat_completeness auto
termination
  by (relation "measure (\<lambda>(h, v, runs, offset, data, n). n)") (auto simp: Let_def)

declare nt_stream_write.simps [simp del]

definition nt_stream_get :: "'h hw \<Rightarrow> native_volume \<Rightarrow> native_run list \<Rightarrow> nat \<Rightarrow> nat \<Rightarrow> ('h txs, bytes) io" where
  "nt_stream_get h v runs offset n = nt_stream_read h v runs offset (\<lambda>_. 0) 0 n"

definition nt_tx_record :: "'h hw \<Rightarrow> native_volume \<Rightarrow> nat \<Rightarrow> bytes \<Rightarrow> ('h txs, unit) io" where
  "nt_tx_record h v ino raw =
     (let z = nv_record_size v in
      io_guard (unat (rd16 raw 4) < 48) K_EIO
        (io_bind (io_sum (ntfs_pack z raw)) (\<lambda>b.
         io_bind (nt_stream_write h v (nv_mft v) (ino * z) b z) (\<lambda>_.
           if ino < 4 then nt_tx_write h v (unat (rd64 (nv_super v) 56) * nv_block v + ino * z) b z else io_ok ()))))"

section \<open>Attributes\<close>

text \<open>The attribute at \<open>at\<close> is replaced and the rest of the record moved.\<close>

definition nt_attr_replace :: "native_volume \<Rightarrow> bytes \<Rightarrow> nat \<Rightarrow> nat \<Rightarrow> bytes \<Rightarrow> nat \<Rightarrow> int + bytes" where
  "nt_attr_replace v raw at oldlen replacement newlen =
     (let used = unat (rd32 raw 24) in
      if at < unat (rd16 raw 20) \<or> at > used \<or> oldlen > used - at \<or> newlen mod 8 \<noteq> 0 \<or>
         newlen > nv_record_size v - (used - oldlen) then Inl K_ENOSPC
      else
        let raw = memmove raw (at + newlen) (at + oldlen) (used - at - oldlen); raw = put_bytes raw at replacement 0 newlen in
        Inr (wr32 raw 24 (word_of_nat (used - oldlen + newlen))))"

definition round8 :: "nat \<Rightarrow> nat" where
  "round8 n = (n + 7) div 8 * 8"

definition nt_resident_attr :: "u32 \<Rightarrow> u16 \<Rightarrow> string \<Rightarrow> bytes \<Rightarrow> nat \<Rightarrow> bytes \<times> nat" where
  "nt_resident_attr kind instance name value sz =
     (let chars = str_len name; off = round8 (24 + chars * 2); len = round8 (off + sz);
          b = wr32 (\<lambda>_. 0) 0 kind; b = wr32 b 4 (word_of_nat len); b = b(9 := word_of_nat chars);
          b = wr16 b 10 (if chars \<noteq> 0 then 24 else 0); b = wr16 b 14 instance; b = wr32 b 16 (word_of_nat sz);
          b = wr16 b 20 (word_of_nat off);
          b = fold (\<lambda>i b. wr16 b (24 + i * 2) (of_char (name ! i))) [0..<chars] b in
      (put_bytes b off value 0 sz, len))"

definition nt_record_append :: "native_volume \<Rightarrow> bytes \<Rightarrow> bytes \<times> nat \<Rightarrow> int + bytes" where
  "nt_record_append v raw p =
     (let used = unat (rd32 raw 24); n = snd p in
      if used < 4 \<or> used > nv_record_size v \<or> n > nv_record_size v - used then Inl K_ENOSPC
      else if used < 8 \<or> rd32 raw (used - 8) \<noteq> 0xffffffff then Inl K_EIO
      else
        let raw = put_bytes raw (used - 8) (fst p) 0 n; raw = put_bytes raw (used - 8 + n) (\<lambda>_. 0) 0 8;
            raw = wr32 raw (used - 8 + n) 0xffffffff in
        Inr (wr32 raw 24 (word_of_nat (used + n))))"

section \<open>Bitmaps\<close>

text \<open>
  The bitmap in an attribute of record \<open>ino\<close>, with its runs, or \<open>None\<close> when it is resident. A resident
  bitmap is read again from the staged sectors before it is changed.
\<close>

definition bitmap_place :: "'h hw \<Rightarrow> native_volume \<Rightarrow> nat \<Rightarrow> u32 \<Rightarrow> nat \<Rightarrow> ('h txs, native_run list option) io" where
  "bitmap_place h v ino kind k =
     io_bind (tx_io (ntfs_record h v ino)) (\<lambda>r.
     io_bind (io_sum (ntfs_attr r kind [])) (\<lambda>p. let a = fst p in
       if r (a + 8) \<noteq> 0 then
         io_bind (io_sum (ntfs_runs v (sub_bytes r a) (snd p))) (\<lambda>runs.
           io_guard (k div 8 \<ge> unat (rd64 r (a + 48))) K_EIO (io_ok (Some runs)))
       else
         io_bind (io_sum (ntfs_value (sub_bytes r a) (snd p))) (\<lambda>q. io_guard (k div 8 \<ge> snd q) K_EIO (io_ok None))))"

definition staged_value :: "'h hw \<Rightarrow> native_volume \<Rightarrow> nat \<Rightarrow> u32 \<Rightarrow> ('h txs, bytes \<times> nat) io" where
  "staged_value h v ino kind =
     io_bind (nt_stream_get h v (nv_mft v) (ino * nv_record_size v) (nv_record_size v)) (\<lambda>b.
     io_bind (io_sum (ntfs_fixup b (nv_record_size v) ''FILE'')) (\<lambda>r.
     io_bind (io_sum (record_value r kind [])) (\<lambda>q. io_ok (r, fst q))))"

text \<open>Testing a bit, and changing one that has the other value.\<close>

definition nt_bitmap_test :: "'h hw \<Rightarrow> native_volume \<Rightarrow> nat \<Rightarrow> u32 \<Rightarrow> nat \<Rightarrow> ('h txs, bool) io" where
  "nt_bitmap_test h v ino kind k =
     io_bind (bitmap_place h v ino kind k) (\<lambda>place.
       case place of
         Some runs \<Rightarrow> io_bind (nt_stream_get h v runs (k div 8) 1) (\<lambda>b. io_ok (bit (b 0) (k mod 8)))
       | None \<Rightarrow> io_bind (staged_value h v ino kind) (\<lambda>(r, at). io_ok (bit_get (sub_bytes r at) k)))"

definition nt_bitmap_bit :: "'h hw \<Rightarrow> native_volume \<Rightarrow> nat \<Rightarrow> u32 \<Rightarrow> nat \<Rightarrow> bool \<Rightarrow> ('h txs, unit) io" where
  "nt_bitmap_bit h v ino kind k value =
     io_bind (bitmap_place h v ino kind k) (\<lambda>place.
       case place of
         Some runs \<Rightarrow>
           io_bind (nt_stream_get h v runs (k div 8) 1) (\<lambda>b.
             io_guard (bit (b 0) (k mod 8) = value) K_EIO
               (nt_stream_write h v runs (k div 8) (put_bit value (k mod 8) b) 1))
       | None \<Rightarrow>
           io_bind (staged_value h v ino kind) (\<lambda>(r, at).
             io_guard (bit_get (sub_bytes r at) k = value) K_EIO
               (nt_tx_record h v ino (from_offset at (put_bit value k) r))))"

text \<open>The first run of \<open>want\<close> free clusters; the first and the last cluster of the volume are never used.\<close>

fun free_search :: "native_volume \<Rightarrow> bytes \<Rightarrow> nat \<Rightarrow> nat \<Rightarrow> nat list \<Rightarrow> nat \<times> nat \<Rightarrow> nat + nat \<times> nat" where
  "free_search v b base want [] p = Inr p"
| "free_search v b base want (k # ks) (first, available) =
     (let c = base + k in
      if c = 0 \<or> c \<ge> nv_blocks v - 1 then free_search v b base want ks (first, available)
      else if bit_get b k then free_search v b base want ks (first, 0)
      else
        let first = (if available = 0 then c else first) in
        if available + 1 = want then Inl first else free_search v b base want ks (first, available + 1))"

fun free_pages :: "'h hw \<Rightarrow> native_volume \<Rightarrow> nat \<Rightarrow> nat \<Rightarrow> nat list \<Rightarrow> nat \<times> nat \<Rightarrow> ('h store, nat) io" where
  "free_pages h v bytes_used want [] p = io_err K_ENOSPC"
| "free_pages h v bytes_used want (i # is) p =
     (\<lambda>s. let off = i * 4096; n = min (bytes_used - off) 4096 in
        case ntfs_data_read h v 6 off (\<lambda>_. 0) n s of
          ((e, b, _), s) \<Rightarrow>
            if e \<noteq> 0 then (Inl e, s)
            else (case free_search v b (off * 8) want [0..<n * 8] p of
                    Inl first \<Rightarrow> (Inr first, s)
                  | Inr p \<Rightarrow> free_pages h v bytes_used want is p s))"

definition find_free :: "'h hw \<Rightarrow> native_volume \<Rightarrow> nat \<Rightarrow> ('h store, nat) io" where
  "find_free h v want s =
     (case ntfs_data_read h v 6 0 (\<lambda>_. 0) 0 s of
        ((e, _, bytes_used), s) \<Rightarrow>
          if e \<noteq> 0 then (Inl e, s)
          else if bytes_used > 64 * 1024 * 1024 \<or> bytes_used < (nv_blocks v + 7) div 8 then (Inl K_ENOTSUP, s)
          else free_pages h v bytes_used want [0..<(bytes_used + 4095) div 4096] (0, 0) s)"

text \<open>An empty file has the run of length zero.\<close>

definition no_run :: native_run where
  "no_run = \<lparr>nr_logical = 0, nr_physical = 0, nr_length = 0, nr_hole = False\<rparr>"

definition nt_alloc_data :: "'h hw \<Rightarrow> native_volume \<Rightarrow> nat \<Rightarrow> ('h txs, native_run) io" where
  "nt_alloc_data h v sz =
     (let want = (sz + nv_block v - 1) div nv_block v in
      if want = 0 then io_ok no_run
      else io_bind (tx_io (find_free h v want)) (\<lambda>first.
        io_bind (io_each (\<lambda>c _. nt_bitmap_bit h v 6 0x80 c True) [first..<first + want] ()) (\<lambda>_.
          io_ok \<lparr>nr_logical = 0, nr_physical = first, nr_length = want, nr_hole = False\<rparr>)))"

section \<open>Data attributes\<close>

function width :: "nat \<Rightarrow> nat \<Rightarrow> nat \<Rightarrow> nat" where
  "width skip n b = (if b < 8 \<and> n div 2 ^ (8 * b - skip) \<noteq> 0 then width skip n (b + 1) else b)"
  by pat_completeness auto
termination
  by (relation "measure (\<lambda>(skip, n, b). 8 - b)") auto

declare width.simps [simp del]

definition put_number :: "nat \<Rightarrow> nat \<Rightarrow> nat \<Rightarrow> bytes \<Rightarrow> bytes" where
  "put_number at count n b = fold (\<lambda>i b. b(at + i := word_of_nat (n div 2 ^ (8 * i)))) [0..<count] b"

definition run_bytes :: "native_run \<Rightarrow> nat" where
  "run_bytes r = round8 (64 + 1 + width 0 (nr_length r) 1 + width 1 (nr_physical r) 1 + 1)"

definition nt_data_attribute :: "native_volume \<Rightarrow> u16 \<Rightarrow> native_run \<Rightarrow> nat \<Rightarrow> bytes \<times> nat" where
  "nt_data_attribute v inst r sz =
     (if sz = 0 then nt_resident_attr 0x80 inst [] (\<lambda>_. 0) 0
      else
        let len = nr_length r; lcn = nr_physical r; lb = width 0 len 1; ob = width 1 lcn 1;
            b = wr32 (\<lambda>_. 0) 0 0x80; b = wr32 b 4 (word_of_nat (run_bytes r)); b = b(8 := 1); b = wr16 b 14 inst;
            b = wr64 b 24 (word_of_nat (len - 1)); b = wr16 b 32 64; b = wr64 b 40 (word_of_nat (len * nv_block v));
            b = wr64 b 48 (word_of_nat sz); b = wr64 b 56 (word_of_nat sz); b = b(64 := word_of_nat (lb + ob * 16));
            b = put_number 65 lb len b; b = put_number (65 + lb) ob lcn b in
        (b, run_bytes r))"

section \<open>Directory indexes\<close>

fun nt_name_compare :: "string \<Rightarrow> string \<Rightarrow> int" where
  "nt_name_compare (a # as) (b # bs) =
     (if a = NUL then if b = NUL then 0 else - 1
      else if b = NUL then 1
      else if upcase a = upcase b then nt_name_compare as bs
      else if (of_char (upcase a) :: nat) < of_char (upcase b) then - 1 else 1)"
| "nt_name_compare as bs = (if cur as \<noteq> NUL then 1 else if cur bs \<noteq> NUL then - 1 else 0)"

text \<open>
  The entry of a node where a name belongs: the entry with that name (\<open>True\<close>), or the first one behind
  it, at the latest the end entry (\<open>False\<close>).
\<close>

function index_scan :: "string \<Rightarrow> bytes \<Rightarrow> nat \<Rightarrow> nat \<Rightarrow> int + bool \<times> nat" where
  "index_scan name b used at =
     (if at + 16 > used then Inl K_EIO
      else
        let entry = sub_bytes b at; n = unat (rd16 entry 8); k = unat (rd16 entry 10); flags = rd16 entry 12 in
        if n < 16 + index_tail flags \<or> n mod 8 \<noteq> 0 \<or> n > used - at \<or> k > n - 16 - index_tail flags \<or> flags AND 0xfffc \<noteq> 0 then Inl K_EIO
        else if flags AND 2 \<noteq> 0 then Inr (False, at)
        else case ntfs_name (sub_bytes entry 16) k of
          Inl _ \<Rightarrow> Inl K_ENOTSUP
        | Inr existing \<Rightarrow>
            let c = nt_name_compare name existing in
            if c = 0 then Inr (True, at) else if c < 0 then Inr (False, at) else index_scan name b used (at + n))"
  by pat_completeness auto
termination
  by (relation "measure (\<lambda>(name, b, used, at). used - at)") (auto simp: Let_def intro!: diff_less_mono2)

declare index_scan.simps [simp del]

text \<open>A change of one entry in the index of a directory.\<close>

record index_change =
  ix_parent :: nat
  ix_record :: bytes
  ix_attr :: "nat \<times> nat"
  ix_value :: "nat \<times> nat"
  ix_runs :: "native_run list"
  ix_alloc :: nat
  ix_name :: string
  ix_reference :: u64
  ix_key :: bytes
  ix_keylen :: nat
  ix_create :: bool

definition entry_bytes :: "index_change \<Rightarrow> nat" where
  "entry_bytes c = round8 (16 + ix_keylen c)"

definition insert_entry :: "index_change \<Rightarrow> nat \<Rightarrow> nat \<Rightarrow> bytes \<Rightarrow> bytes" where
  "insert_entry c at used b =
     (let need = entry_bytes c; b = memmove b (at + need) at (used - at); b = put_bytes b at (\<lambda>_. 0) 0 need;
          b = wr64 b at (ix_reference c); b = wr16 b (at + 8) (word_of_nat need); b = wr16 b (at + 10) (word_of_nat (ix_keylen c));
          b = put_bytes b (at + 16) (ix_key c) 0 (ix_keylen c) in
      wr32 b 4 (word_of_nat (used + need)))"

text \<open>The root node lives in the record and grows with it.\<close>

definition grow_root :: "'h hw \<Rightarrow> native_volume \<Rightarrow> index_change \<Rightarrow> nat \<Rightarrow> nat \<Rightarrow> nat \<Rightarrow> ('h txs, unit) io" where
  "grow_root h v c at used allocated =
     (let r = ix_record c; a = fst (ix_attr c); len = snd (ix_attr c); oldvalue = fst (ix_value c) - a; sz = snd (ix_value c);
          need = entry_bytes c; newlen = round8 (oldvalue + sz + need);
          b = put_bytes (\<lambda>_. 0) 0 r a (oldvalue + sz); b = wr32 b 4 (word_of_nat newlen); b = wr32 b 16 (word_of_nat (sz + need));
          b = from_offset (oldvalue + 16) (\<lambda>n. wr32 (insert_entry c at used n) 8 (word_of_nat (allocated + need))) b in
      io_guard (newlen > 4096 \<or> unat (rd32 r 24) - len + newlen > nv_record_size v) K_ENOSPC
        (io_bind (io_sum (nt_attr_replace v r a len b newlen)) (\<lambda>r. nt_tx_record h v (ix_parent c) r)))"

definition store_block :: "'h hw \<Rightarrow> native_volume \<Rightarrow> index_change \<Rightarrow> nat \<Rightarrow> bytes \<Rightarrow> ('h txs, unit) io" where
  "store_block h v c offset b =
     (let usa = unat (rd16 b 4); count = unat (rd16 b 6); sequence = next_sequence (rd16 b usa) in
      io_guard (usa < 40 \<or> usa + count * 2 > nv_index_size v) K_EIO
        (nt_stream_write h v (ix_runs c) offset (fold (pack_unit usa sequence) [1..<count] (wr16 b usa sequence)) (nv_index_size v)))"

definition store_index :: "'h hw \<Rightarrow> native_volume \<Rightarrow> index_change \<Rightarrow> bool \<Rightarrow> nat \<Rightarrow> bytes \<Rightarrow> ('h txs, unit) io" where
  "store_index h v c root offset b = (if root then nt_tx_record h v (ix_parent c) b else store_block h v c offset b)"

text \<open>The bitmap of the index marks the block as used.\<close>

definition index_used :: "'h hw \<Rightarrow> native_volume \<Rightarrow> bytes \<Rightarrow> nat \<Rightarrow> ('h store, bool) io" where
  "index_used h v r k =
     io_bind (io_sum (ntfs_attr r 0xb0 ''$I30'')) (\<lambda>p. let a = fst p in
       if r (a + 8) = 0 then
         io_bind (io_sum (ntfs_value (sub_bytes r a) (snd p))) (\<lambda>q.
           io_guard (k div 8 \<ge> snd q) K_EIO (io_ok (bit_get (sub_bytes r (a + fst q)) k)))
       else
         io_bind (io_sum (ntfs_runs v (sub_bytes r a) (snd p))) (\<lambda>bm.
           io_guard (k div 8 \<ge> unat (rd64 r (a + 48))) K_EIO
             (io_bind (run_get h v bm (k div 8) 1) (\<lambda>b. io_ok (bit (b 0) (k mod 8))))))"

text \<open>The node below an entry: its offset in the index allocation and its bytes.\<close>

definition index_child :: "'h hw \<Rightarrow> native_volume \<Rightarrow> index_change \<Rightarrow> nat \<Rightarrow> ('h store, nat \<times> bytes) io" where
  "index_child h v c vcn =
     (let unit = (if nv_block v \<le> nv_index_size v then nv_block v else 512); offset = vcn * unit; z = nv_index_size v in
      io_guard (ix_runs c = [] \<or> vcn > (2 ^ 64 - 1) div unit) K_EIO
        (io_guard (offset mod z \<noteq> 0 \<or> offset > ix_alloc c \<or> z > ix_alloc c - offset) K_EIO
           (io_bind (index_used h v (ix_record c) (offset div z)) (\<lambda>used.
              io_guard (\<not> used) K_EIO
                (io_bind (run_get h v (ix_runs c) offset z) (\<lambda>b.
                 io_bind (io_sum (ntfs_fixup b z ''INDX'')) (\<lambda>b.
                   io_guard (unat (rd64 b 16) \<noteq> vcn) K_EIO (io_ok (offset, b)))))))))"

text \<open>The walk from the root; the source gives up below sixteen nodes.\<close>

primrec index_walk :: "nat \<Rightarrow> 'h hw \<Rightarrow> native_volume \<Rightarrow> index_change \<Rightarrow> bool \<Rightarrow> nat \<Rightarrow> bytes \<Rightarrow> nat \<Rightarrow> nat \<Rightarrow> ('h txs, unit) io" where
  "index_walk 0 h v c root offset b ho cap = io_err K_E2BIG"
| "index_walk (Suc d) h v c root offset b ho cap =
     (let hdr = sub_bytes b ho; first = unat (rd32 hdr 0); used = unat (rd32 hdr 4); allocated = unat (rd32 hdr 8) in
      io_guard (cap < 16 \<or> first < 16 \<or> used < first \<or> used > allocated \<or> allocated > cap) K_EIO
        (io_bind (io_sum (index_scan (ix_name c) hdr used first)) (\<lambda>(hit, at).
           let entry = sub_bytes hdr at in
           if hit then
             io_guard (ix_create c) K_EEXIST
               (io_guard (rd64 entry 0 \<noteq> ix_reference c \<or> unat (rd16 entry 10) \<noteq> ix_keylen c) K_EIO
                  (store_index h v c root offset (put_bytes b (ho + at + 16) (ix_key c) 0 (ix_keylen c))))
           else if rd16 entry 12 AND 1 \<noteq> 0 then
             io_bind (tx_io (index_child h v c (unat (rd64 entry (unat (rd16 entry 8) - 8))))) (\<lambda>(offset, b).
               index_walk d h v c False offset b 24 (nv_index_size v - 24))
           else
             io_guard (\<not> ix_create c) K_ENOENT
               (io_guard (hdr 12 \<noteq> 0) K_ENOTSUP
                  (if root then grow_root h v c at used allocated
                   else io_guard (entry_bytes c > allocated - used) K_ENOSPC
                     (store_index h v c root offset (from_offset ho (insert_entry c at used) b)))))))"

definition index_base :: "native_volume \<Rightarrow> bytes \<Rightarrow> int + native_run list \<times> nat" where
  "index_base v r =
     (case ntfs_attr r 0xa0 ''$I30'' of
        Inl e \<Rightarrow> if e = K_ENOENT then Inr ([], 0) else Inl e
      | Inr (a, len) \<Rightarrow> (case ntfs_runs v (sub_bytes r a) len of Inl e \<Rightarrow> Inl e | Inr runs \<Rightarrow> Inr (runs, unat (rd64 r (a + 48)))))"

definition nt_index_change :: "'h hw \<Rightarrow> native_volume \<Rightarrow> nat \<Rightarrow> u64 \<Rightarrow> bytes \<Rightarrow> nat \<Rightarrow> bool \<Rightarrow> ('h txs, unit) io" where
  "nt_index_change h v parent reference key keylen create =
     io_bind (io_sum (ntfs_name key keylen)) (\<lambda>name.
     io_bind (tx_io (ntfs_record h v parent)) (\<lambda>r.
       io_guard (rd16 r 22 AND 2 = 0) K_EINVAL
         (io_bind (io_sum (ntfs_attr r 0x90 ''$I30'')) (\<lambda>p.
          io_bind (io_sum (ntfs_value (sub_bytes r (fst p)) (snd p))) (\<lambda>q. let at = fst p + fst q in
            io_guard (snd q < 32 \<or> rd32 r (at + 4) \<noteq> 1) K_ENOTSUP
              (io_bind (io_sum (index_base v r)) (\<lambda>x.
                 index_walk 16 h v
                   \<lparr>ix_parent = parent, ix_record = r, ix_attr = p, ix_value = (at, snd q), ix_runs = fst x, ix_alloc = snd x,
                    ix_name = name, ix_reference = reference, ix_key = key, ix_keylen = keylen, ix_create = create\<rparr>
                   True 0 r (at + 16) (snd q - 16))))))))"

section \<open>Committing\<close>

definition nt_prepare :: "'h hw \<Rightarrow> native_fs \<Rightarrow> nat \<Rightarrow> ('h store, unit) io" where
  "nt_prepare h fs index =
     (let v = na_volumes fs index; mirror = unat (rd64 (nv_super v) 56) in
      io_bind (io_code (native_clean h fs index)) (\<lambda>_.
        io_guard (nv_block v > nv_index_size v \<or> mirror = 0 \<or> mirror \<ge> nv_blocks v) K_ENOTSUP
          (io_bind (ntfs_record h v 1) (\<lambda>r.
           io_bind (io_sum (ntfs_attr r 0x80 [])) (\<lambda>p.
           io_bind (io_sum (ntfs_runs v (sub_bytes r (fst p)) (snd p))) (\<lambda>runs.
             io_guard (length runs \<noteq> 1 \<or> nr_hole (hd runs) \<or> nr_logical (hd runs) \<noteq> 0 \<or> nr_physical (hd runs) \<noteq> mirror \<or>
                 nr_length (hd runs) * nv_block v < nv_record_size v * 4) K_EIO (io_ok ())))))))"

fun nt_commit_data :: "'h hw \<Rightarrow> nat \<Rightarrow> nat \<Rightarrow> bytes \<Rightarrow> nat \<Rightarrow> nat list \<Rightarrow> 'h nvs \<Rightarrow> int \<times> 'h nvs" where
  "nt_commit_data h base allocated data sz [] x = (0, x)"
| "nt_commit_data h base allocated data sz (i # is) x =
     (let off = i * nv_sector (fst x); n = min (allocated - off) (nv_sector (fst x)); used = (if off < sz then min (sz - off) n else 0) in
      case native_write_bytes h (base + off) (put_bytes (\<lambda>_. 0) 0 data off used) n x of
        (e, x) \<Rightarrow> if e \<noteq> 0 then (e, x) else nt_commit_data h base allocated data sz is x)"

definition nt_commit_rest :: "'h hw \<Rightarrow> ext_tx \<Rightarrow> native_run \<Rightarrow> bytes \<Rightarrow> nat \<Rightarrow> 'h nvs \<Rightarrow> int \<times> 'h nvs" where
  "nt_commit_rest h tx fresh data sz x =
     (let v = fst x; allocated = nr_length fresh * nv_block v in
      case nt_commit_data h (nr_physical fresh * nv_block v) allocated data sz
             [0..<(allocated + nv_sector v - 1) div nv_sector v] x of
        (e, x) \<Rightarrow>
          (case (if e \<noteq> 0 then (e, x) else commit_blocks h (nv_sector (fst x)) tx x) of
             (e, x) \<Rightarrow> set_failed (if e \<noteq> 0 then (e, x) else ntfs_dirty h False x)))"

text \<open>The volume record, with its dirty flag set, is staged with the other changes.\<close>

definition stage_dirty :: "'h hw \<Rightarrow> native_volume \<Rightarrow> ('h txs, unit) io" where
  "stage_dirty h v =
     io_bind (tx_io (ntfs_record h v 3)) (\<lambda>r.
     io_bind (io_sum (record_value r 0x70 [])) (\<lambda>q.
       io_guard (snd q < 12 \<or> rd16 r (fst q + 10) \<noteq> 0) K_EROFS (nt_tx_record h v 3 (wr16 r (fst q + 10) 1))))"

definition nt_commit :: "'h hw \<Rightarrow> ext_tx \<Rightarrow> native_run \<Rightarrow> bytes \<Rightarrow> nat \<Rightarrow> 'h nvs \<Rightarrow> int \<times> 'h nvs" where
  "nt_commit h tx fresh data sz x =
     (case stage_dirty h (fst x) (tx, snd x) of
        (Inl e, _, s) \<Rightarrow> (e, fst x, s)
      | (Inr _, tx, s) \<Rightarrow>
          (case ntfs_dirty h True (fst x, s) of
             (e, x) \<Rightarrow> if e \<noteq> 0 then set_failed (e, x) else nt_commit_rest h tx fresh data sz x))"

section \<open>Rewriting a file\<close>

fun release_runs :: "'h hw \<Rightarrow> native_volume \<Rightarrow> native_run \<Rightarrow> native_run list \<Rightarrow> ('h txs, unit) io" where
  "release_runs h v fresh [] = io_ok ()"
| "release_runs h v fresh (r # rs) =
     io_guard (nr_hole r) K_ENOTSUP
       (io_guard (nr_length fresh \<noteq> 0 \<and> overlap (nr_physical r) (nr_length r) (nr_physical fresh) (nr_length fresh)) K_EIO
          (io_bind (io_each (\<lambda>c _. nt_bitmap_bit h v 6 0x80 c False) [nr_physical r..<nr_physical r + nr_length r] ()) (\<lambda>_.
             release_runs h v fresh rs)))"

text \<open>New data must not lie on metadata.\<close>

definition nt_fresh :: "'h hw \<Rightarrow> native_volume \<Rightarrow> nat \<Rightarrow> ('h txs, native_run) io" where
  "nt_fresh h v sz =
     io_bind (nt_alloc_data h v sz) (\<lambda>fresh.
     io_bind (if nr_length fresh = 0 then io_ok ()
              else tx_io (io_code (ntfs_metadata_boundaries h v [fresh] [0..<min 24 (nv_mft_count v)]))) (\<lambda>_. io_ok fresh))"

definition old_runs :: "'h hw \<Rightarrow> native_volume \<Rightarrow> bytes \<Rightarrow> nat \<times> nat \<Rightarrow> ('h store, native_run list) io" where
  "old_runs h v r p =
     (if r (fst p + 8) = 0 then io_ok []
      else io_bind (io_sum (ntfs_runs v (sub_bytes r (fst p)) (snd p))) (\<lambda>runs.
        io_bind (io_code (ntfs_data_boundaries h v runs)) (\<lambda>_. io_ok runs)))"

text \<open>The record, the directory it is in, its data attribute and its runs.\<close>

definition nt_check_replace :: "'h hw \<Rightarrow> native_fs \<Rightarrow> k_file \<Rightarrow> ('h store, bytes \<times> nat \<times> (nat \<times> nat) \<times> native_run list) io" where
  "nt_check_replace h fs f =
     (let v = na_volumes fs (fl_object f) in
      io_bind (nt_prepare h fs (fl_object f)) (\<lambda>_.
      io_bind (ntfs_record h v (fl_cluster f)) (\<lambda>r.
        io_guard (unat (rd16 r 16) \<noteq> fl_directory_offset f) K_ENOENT
          (io_guard (ntfs_regular_writable (fl_cluster f) r \<noteq> 0) (ntfs_regular_writable (fl_cluster f) r)
             (io_bind (io_sum (record_value r 0x30 [])) (\<lambda>q.
              io_bind (io_sum (ntfs_name (sub_bytes r (fst q)) (snd q))) (\<lambda>_.
                let ref = unat (rd64 r (fst q)); parent = ref mod 2 ^ 48 in
                io_guard (parent > 0xffffffff) K_ENOTSUP
                  (io_bind (ntfs_record h v parent) (\<lambda>pr.
                     io_guard (unat (rd16 pr 16) \<noteq> ref div 2 ^ 48) K_EIO
                       (io_bind (io_sum (ntfs_attr r 0x80 [])) (\<lambda>p.
                        io_bind (old_runs h v r p) (\<lambda>old. io_ok (r, parent, p, old)))))))))))))"

definition file_reference :: "nat \<Rightarrow> bytes \<Rightarrow> u64" where
  "file_reference ino r = word_of_nat ino OR push_bit 48 (ucast (rd16 r 16))"

definition nt_stage_replace ::
  "'h hw \<Rightarrow> native_volume \<Rightarrow> nat \<Rightarrow> bytes \<times> nat \<times> (nat \<times> nat) \<times> native_run list \<Rightarrow> nat \<Rightarrow> ('h txs, native_run) io" where
  "nt_stage_replace h v ino chk sz =
     (case chk of (r, parent, (a, len), old) \<Rightarrow>
        io_bind (nt_fresh h v sz) (\<lambda>fresh.
        io_bind (release_runs h v fresh old) (\<lambda>_.
          let p = nt_data_attribute v (rd16 r (a + 14)) fresh sz in
          io_bind (io_sum (nt_attr_replace v r a len (fst p) (snd p))) (\<lambda>r.
          io_bind (io_sum (record_value r 0x30 [])) (\<lambda>q.
            let r = wr64 r (fst q + 40) (word_of_nat (nr_length fresh * nv_block v)); r = wr64 r (fst q + 48) (word_of_nat sz) in
            io_bind (nt_index_change h v parent (file_reference ino r) (sub_bytes r (fst q)) (snd q) False) (\<lambda>_.
            io_bind (nt_tx_record h v ino r) (\<lambda>_. io_ok fresh)))))))"

definition ntfs_replace :: "'h hw \<Rightarrow> k_file \<Rightarrow> bytes \<Rightarrow> nat \<Rightarrow> native_fs \<times> 'h store \<Rightarrow> (int \<times> k_file) \<times> native_fs \<times> 'h store" where
  "ntfs_replace h f data sz y =
     (let fs = fst y; v = na_volumes fs (fl_object f) in
      if sz > NATIVE_REPLACE_MAX then ((K_E2BIG, f), y)
      else case nt_check_replace h fs f (snd y) of
        (Inl e, s) \<Rightarrow> ((e, f), fs, s)
      | (Inr chk, s) \<Rightarrow>
          (case nt_stage_replace h v (fl_cluster f) chk sz ([], s) of
             (Inl e, _, s) \<Rightarrow> ((e, f), fs, s)
           | (Inr fresh, tx, s) \<Rightarrow>
               (case with_native (fl_object f) (nt_commit h tx fresh data sz) (fs, s) of
                  (e, y) \<Rightarrow> ((e, if e = 0 then f\<lparr>fl_size := sz\<rparr> else f), y))))"

section \<open>Creating a file\<close>

text \<open>An unused slot of the master file table is zero, or a record that is no longer in use.\<close>

definition slot_sequence :: "native_volume \<Rightarrow> bytes \<Rightarrow> int + u16" where
  "slot_sequence v b =
     (if memcmp b 0 (text_bytes ''FILE'') 0 4 = 0 then
        (case ntfs_fixup b (nv_record_size v) ''FILE'' of
           Inl e \<Rightarrow> Inl e
         | Inr r \<Rightarrow> if rd16 r 22 AND 1 \<noteq> 0 then Inl K_EIO else Inr (if rd16 r 16 + 1 = 0 then 1 else rd16 r 16 + 1))
      else if list_all (\<lambda>j. b j = 0) [0..<nv_record_size v] then Inr 1 else Inl K_EIO)"

definition fresh_record :: "native_volume \<Rightarrow> nat \<Rightarrow> u16 \<Rightarrow> bytes" where
  "fresh_record v i sequence =
     (let z = nv_record_size v; units = z div 512 + 1; attrs = round8 (48 + 2 * units);
          b = put_bytes (\<lambda>_. 0) 0 (text_bytes ''FILE'') 0 4; b = wr16 b 4 48; b = wr16 b 6 (word_of_nat units);
          b = wr16 b 16 sequence; b = wr16 b 18 1; b = wr16 b 20 (word_of_nat attrs); b = wr16 b 22 1;
          b = wr32 b 24 (word_of_nat (attrs + 8)); b = wr32 b 28 (word_of_nat z); b = wr32 b 44 (word_of_nat i) in
      wr32 b attrs 0xffffffff)"

fun nt_new_record :: "'h hw \<Rightarrow> native_volume \<Rightarrow> nat list \<Rightarrow> ('h txs, nat \<times> bytes) io" where
  "nt_new_record h v [] = io_err K_ENOSPC"
| "nt_new_record h v (i # is) =
     io_bind (nt_bitmap_test h v 0 0xb0 i) (\<lambda>used.
       if used then nt_new_record h v is
       else io_bind (tx_io (raw_record h v i)) (\<lambda>b.
         io_bind (io_sum (slot_sequence v b)) (\<lambda>q.
         io_bind (nt_bitmap_bit h v 0 0xb0 i True) (\<lambda>_. io_ok (i, fresh_record v i q)))))"

definition nt_name_ok :: "string \<Rightarrow> bool" where
  "nt_name_ok name \<longleftrightarrow>
     \<not> (str_len name = 0 \<or> str_len name > 255 \<or> name ! (str_len name - 1) = CHR '' '' \<or> name ! (str_len name - 1) = CHR ''.'') \<and>
     list_all (\<lambda>i. name ! i \<notin> set [CHR 0x5c, CHR '':'', CHR ''*'', CHR ''?'', CHR 0x22, CHR ''<'', CHR ''>'', CHR ''|'']) [0..<str_len name]"

definition standard_info :: "bytes \<Rightarrow> bool \<Rightarrow> bytes" where
  "standard_info si directory =
     wr64 (wr64 (wr32 (wr32 (put_bytes (\<lambda>_. 0) 0 si 0 72) 32 (if directory then 0x10000000 else 0x20)) 48 0) 56 0) 64 0"

definition file_name :: "native_volume \<Rightarrow> u64 \<Rightarrow> bytes \<Rightarrow> native_run \<Rightarrow> nat \<Rightarrow> string \<Rightarrow> bool \<Rightarrow> bytes" where
  "file_name v parentref standard fresh sz name directory =
     (let b = wr64 (\<lambda>_. 0) 0 parentref; b = put_bytes b 8 standard 0 32; b = wr64 b 40 (word_of_nat (nr_length fresh * nv_block v));
          b = wr64 b 48 (word_of_nat sz); b = wr32 b 56 (if directory then 0x10000000 else 0x20);
          b = b(64 := word_of_nat (str_len name), 65 := 1) in
      fold (\<lambda>i b. wr16 b (66 + i * 2) (of_char (name ! i))) [0..<str_len name] b)"

definition empty_root :: "native_volume \<Rightarrow> bytes" where
  "empty_root v =
     (let b = wr32 (\<lambda>_. 0) 0 0x30; b = wr32 b 4 1; b = wr32 b 8 (word_of_nat (nv_index_size v));
          b = b(12 := word_of_nat (if nv_index_size v \<ge> nv_block v then nv_index_size v div nv_block v else nv_index_size v div 512));
          b = wr32 b 16 16; b = wr32 b 20 32; b = wr32 b 24 32; b = wr16 b 40 16 in
      wr16 b 44 2)"

definition nt_check_create :: "'h hw \<Rightarrow> native_fs \<Rightarrow> nat \<Rightarrow> string \<Rightarrow> string \<Rightarrow> ('h store, nat \<times> bytes \<times> nat) io" where
  "nt_check_create h fs index parent name s =
     (let v = na_volumes fs index in
      case native_open h fs index parent zero_file s of
        ((e, p), s) \<Rightarrow>
          if e \<noteq> 0 then (Inl e, s)
          else if fl_attributes p AND 0x10 = 0 then (Inl K_EINVAL, s)
          else (case ntfs_directory h v index (fl_cluster p) (Some name) zero_file s of
                  ((e, _, _), s) \<Rightarrow>
                    if e = 0 then (Inl K_EEXIST, s)
                    else if e \<noteq> K_ENOENT then (Inl e, s)
                    else io_bind (nt_prepare h fs index) (\<lambda>_.
                      io_bind (ntfs_record h v (fl_cluster p)) (\<lambda>pr.
                      io_bind (io_sum (record_value pr 0x10 [])) (\<lambda>q.
                        io_guard (snd q < 72 \<or> rd32 pr (fst q + 52) = 0) K_ENOTSUP (io_ok (fl_cluster p, pr, fst q))))) s))"

definition nt_stage_create ::
  "'h hw \<Rightarrow> native_volume \<Rightarrow> nat \<times> bytes \<times> nat \<Rightarrow> string \<Rightarrow> bool \<Rightarrow> nat \<Rightarrow> ('h txs, nat \<times> bytes \<times> native_run) io" where
  "nt_stage_create h v chk name directory sz =
     (case chk of (parent, pr, si) \<Rightarrow>
        io_bind (nt_new_record h v [24..<min (nv_mft_count v) 1048576]) (\<lambda>(ino, r).
          let r = (if directory then wr16 r 22 3 else r) in
          io_bind (if directory then io_ok no_run else nt_fresh h v sz) (\<lambda>fresh.
            let standard = standard_info (sub_bytes pr si) directory; fnsize = 66 + str_len name * 2;
                key = file_name v (file_reference parent pr) standard fresh sz name directory in
            io_bind (io_sum (nt_record_append v r (nt_resident_attr 0x10 0 [] standard 72))) (\<lambda>r.
            io_bind (io_sum (nt_record_append v r (nt_resident_attr 0x30 1 [] key fnsize))) (\<lambda>r.
            io_bind (io_sum (nt_record_append v r
              (if directory then nt_resident_attr 0x90 2 ''$I30'' (empty_root v) 48 else nt_data_attribute v 2 fresh sz))) (\<lambda>r.
              let r = wr16 r 40 3 in
              io_bind (nt_index_change h v parent (file_reference ino r) key fnsize True) (\<lambda>_.
              io_bind (nt_tx_record h v ino r) (\<lambda>_. io_ok (ino, r, fresh)))))))))"

definition ntfs_create ::
  "'h hw \<Rightarrow> nat \<Rightarrow> string \<Rightarrow> bool \<Rightarrow> bytes \<Rightarrow> nat \<Rightarrow> k_file \<Rightarrow> native_fs \<times> 'h store \<Rightarrow> (int \<times> k_file) \<times> native_fs \<times> 'h store" where
  "ntfs_create h index path directory data sz out y =
     (let fs = fst y; v = na_volumes fs index; pn = parent_and_name path in
      if sz > NATIVE_REPLACE_MAX then ((K_E2BIG, out), y)
      else if \<not> nt_name_ok (snd pn) then ((K_EINVAL, out), y)
      else case nt_check_create h fs index (fst pn) (snd pn) (snd y) of
        (Inl e, s) \<Rightarrow> ((e, out), fs, s)
      | (Inr chk, s) \<Rightarrow>
          (case nt_stage_create h v chk (snd pn) directory sz ([], s) of
             (Inl e, _, s) \<Rightarrow> ((e, out), fs, s)
           | (Inr (ino, r, fresh), tx, s) \<Rightarrow>
               (case with_native index (nt_commit h tx fresh data sz) (fs, s) of
                  (e, y) \<Rightarrow> ((e, if e = 0 then native_file 5 index ino directory sz (unat (rd16 r 16)) else out), y))))"

end
