(* ===== verification/NativeVfs.thy ===== *)
theory NativeVfs
  imports NtfsWrite
begin

unbundle bit_operations_syntax

text \<open>
  Writing, creating and storing files on native volumes (\<open>fs/fs.c\<close>, \<open>native_write\<close>, \<open>native_create\<close>,
  \<open>native_store\<close>), and the operations of all volumes together: the file system calls of \<open>Vfs\<close> and the
  scan of the disks of \<open>FatMount\<close> with no operation of a volume left open. The argument \<open>cycles\<close> is the
  value of the cycle counter, which numbers the generations of new ext4 inodes.
\<close>

definition native_replace :: "'h hw \<Rightarrow> k_file \<Rightarrow> bytes \<Rightarrow> nat \<Rightarrow> native_fs \<times> 'h store \<Rightarrow> (int \<times> k_file) \<times> native_fs \<times> 'h store" where
  "native_replace h f data sz y =
     (if nv_kind (na_volumes (fst y) (fl_object f)) = 4 then ext_replace h f data sz y else ntfs_replace h f data sz y)"

text \<open>
  Small files are read as a whole, changed in memory and replaced; larger ones are written in place
  within their size. The offset \<open>2^64 - 1\<close> appends.
\<close>

definition replace_whole ::
  "'h hw \<Rightarrow> k_file \<Rightarrow> nat \<Rightarrow> bytes \<Rightarrow> nat \<Rightarrow> native_fs \<times> 'h store \<Rightarrow> (int \<times> k_file \<times> nat) \<times> native_fs \<times> 'h store" where
  "replace_whole h f offset data n y =
     (let sz = max (fl_size f) (offset + n); pages = (sz + 4095) div 4096 in
      case alloc_at pages (snd y) of
        (a, s) \<Rightarrow>
          if a = 0 then ((K_ENOMEM, f, 0), fst y, s)
          else (case NativeOps.native_read h (fst y) f 0 (\<lambda>_. 0) (fl_size f) s of
                  ((e, b, got), s) \<Rightarrow>
                    (case (if e \<noteq> 0 then ((e, f), fst y, s)
                           else if got \<noteq> fl_size f then ((K_EIO, f), fst y, s)
                           else native_replace h f (put_bytes b offset data 0 n) sz (fst y, s)) of
                       ((e, f), fs, s) \<Rightarrow> ((e, f, if e = 0 then n else 0), fs, free_at a pages s))))"

definition native_write ::
  "'h hw \<Rightarrow> k_file \<Rightarrow> nat \<Rightarrow> bytes \<Rightarrow> nat \<Rightarrow> native_fs \<times> 'h store \<Rightarrow> (int \<times> k_file \<times> nat) \<times> native_fs \<times> 'h store" where
  "native_write h f offset data n y =
     (let fs = fst y; v = na_volumes fs (fl_object f) in
      if fl_object f \<ge> na_count fs \<or> fl_attributes f AND 0x10 \<noteq> 0 then ((K_EINVAL, f, 0), y)
      else case NativeOps.native_refresh h fs f (snd y) of
        ((e, f), s) \<Rightarrow>
          if e \<noteq> 0 then ((e, f, 0), fs, s)
          else
            let offset = (if offset = 2 ^ 64 - 1 then fl_size f else offset) in
            if (nv_kind v = 4 \<or> nv_kind v = 5) \<and> fl_size f \<le> NATIVE_REPLACE_MAX \<and> offset \<le> NATIVE_REPLACE_MAX \<and>
               n \<le> NATIVE_REPLACE_MAX - offset then
              if n = 0 then ((0, f, 0), fs, s) else replace_whole h f offset data n (fs, s)
            else if offset > fl_size f \<or> n > fl_size f - offset then ((K_ENOTSUP, f, 0), fs, s)
            else if n = 0 then ((0, f, 0), fs, s)
            else case native_clean h fs (fl_object f) s of
              (e, s) \<Rightarrow>
                if e \<noteq> 0 then ((e, f, 0), fs, s)
                else (case with_native (fl_object f) (in_place h f offset data n) (fs, s) of
                        (e, y) \<Rightarrow> ((e, f, if e = 0 then n else 0), y)))"

definition create_file ::
  "'h hw \<Rightarrow> u64 \<Rightarrow> nat \<Rightarrow> string \<Rightarrow> bool \<Rightarrow> bytes \<Rightarrow> nat \<Rightarrow> k_file \<Rightarrow> native_fs \<times> 'h store \<Rightarrow> (int \<times> k_file) \<times> native_fs \<times> 'h store" where
  "create_file h cycles index path directory data sz out y =
     (if nv_kind (na_volumes (fst y) index) = 4 then ext_create h cycles index path directory data sz out y
      else ntfs_create h index path directory data sz out y)"

definition native_create ::
  "'h hw \<Rightarrow> u64 \<Rightarrow> nat \<Rightarrow> string \<Rightarrow> bool \<Rightarrow> k_file \<Rightarrow> native_fs \<times> 'h store \<Rightarrow> (int \<times> k_file) \<times> native_fs \<times> 'h store" where
  "native_create h cycles index path directory out y =
     (if index \<ge> na_count (fst y) then ((K_EINVAL, out), y) else create_file h cycles index path directory (\<lambda>_. 0) 0 out y)"

definition native_store :: "'h hw \<Rightarrow> u64 \<Rightarrow> nat \<Rightarrow> string \<Rightarrow> bytes \<Rightarrow> nat \<Rightarrow> native_fs \<times> 'h store \<Rightarrow> int \<times> native_fs \<times> 'h store" where
  "native_store h cycles index path data sz y =
     (if index \<ge> na_count (fst y) then (K_EINVAL, y)
      else case NativeOps.native_open h (fst y) index path zero_file (snd y) of
        ((e, f), s) \<Rightarrow>
          if e = K_ENOENT then (case create_file h cycles index path False data sz zero_file (fst y, s) of ((e, _), y) \<Rightarrow> (e, y))
          else if e \<noteq> 0 then (e, fst y, s)
          else if fl_attributes f AND 0x10 \<noteq> 0 then (K_EINVAL, fst y, s)
          else (case (if fl_kind f = 4 then ext_replace h f data sz (fst y, s) else ntfs_replace h f data sz (fst y, s)) of
                  ((e, _), y) \<Rightarrow> (e, y)))"

section \<open>All volumes\<close>

definition lift_native :: "(native_fs \<times> 'h store \<Rightarrow> 'r \<times> native_fs \<times> 'h store) \<Rightarrow> ('h, fat_fs \<times> native_fs, 'r) vol_op" where
  "lift_native op y = (case op (snd (fst y), snd y) of (r, fs, s) \<Rightarrow> (r, (fst (fst y), fs), s))"

definition lift_native_read :: "(native_fs \<Rightarrow> 'h store \<Rightarrow> 'r \<times> 'h store) \<Rightarrow> ('h, fat_fs \<times> native_fs, 'r) vol_op" where
  "lift_native_read op y = (case op (snd (fst y)) (snd y) of (r, s) \<Rightarrow> (r, fst y, s))"

definition data_or_zero :: "bytes option \<Rightarrow> bytes" where
  "data_or_zero data = (case data of Some b \<Rightarrow> b | None \<Rightarrow> (\<lambda>_. 0))"

text \<open>The operations behind every mount of the kernel, in the order of the fields of \<open>volume_ops\<close>.\<close>

definition kernel_volumes :: "'h hw \<Rightarrow> u64 \<Rightarrow> ('h, fat_fs \<times> native_fs) volume_ops" where
  "kernel_volumes h cycles = volume_ops.make
     (\<lambda>i path out. lift_native_read (\<lambda>fs. NativeOps.native_open h fs i path out))
     (\<lambda>i path out. lift_read (\<lambda>fs. Fat.fat_open h fs i path out))
     (\<lambda>i path dir out. lift_native (NativeVfs.native_create h cycles i path dir out))
     (\<lambda>i path dir out. lift_fat (FatCreate.fat_create_locked h i path dir out))
     (\<lambda>i path data sz. lift_native (NativeVfs.native_store h cycles i path (data_or_zero data) sz))
     (\<lambda>i path data sz. lift_fat (FatCreate.fat_store_locked h i path (data_or_zero data) sz))
     (\<lambda>f off out n. lift_native_read (\<lambda>fs. NativeOps.native_read h fs f off out n))
     (\<lambda>f off out n. lift_read (\<lambda>fs. Fat.fat_read h fs f off out n))
     (\<lambda>f off data n. lift_native (NativeVfs.native_write h f off (data_or_zero data) n))
     (\<lambda>f data sz. lift_fat (FatWrite.fat_replace_locked h f data sz))
     (\<lambda>f. lift_native_read (\<lambda>fs. NativeOps.native_refresh h fs f))
     (\<lambda>f. lift_read (\<lambda>fs. Fat.fat_refresh h fs f))
     (\<lambda>f. lift_native_read (\<lambda>fs. NativeOps.native_list h fs f))
     (\<lambda>f. lift_read (\<lambda>fs. Fat.fat_list h fs f))"

definition vfs_sync :: "'h hw \<Rightarrow> ('h, native_fs) fvfs \<Rightarrow> int \<times> ('h, native_fs) fvfs" where
  "vfs_sync h = k_vfs_sync h (lift_native (native_sync_all h))"

definition vfs_mount_disks :: "nat \<Rightarrow> 'h hw \<Rightarrow> ('h, native_fs) mounter \<Rightarrow> int \<times> ('h, native_fs) mounter" where
  "vfs_mount_disks cpu h = k_vfs_mount_disks cpu h (\<lambda>i start len number ro s. snd (native_probe cpu h i start len number ro s))"

lemma kernel_volumes_fat: "fat_ops h (kernel_volumes h cycles) = kernel_volumes h cycles"
  by (simp add: fat_ops_def kernel_volumes_def volume_ops.defs data_or_zero_def)

end
