(* ===== verification/NativeInv.thy ===== *)
theory NativeInv
  imports NativeOps FatSafe
begin

unbundle bit_operations_syntax

text \<open>
  Properties of native volumes: the run lists of files are well formed and lie inside the volume, and
  reads return exactly the mapped bytes.
\<close>

section \<open>Run lists\<close>

definition run_before :: "native_run \<Rightarrow> native_run \<Rightarrow> bool" where
  "run_before a b \<longleftrightarrow> nr_logical a + nr_length a \<le> nr_logical b \<and>
     (\<not> nr_hole a \<and> \<not> nr_hole b \<longrightarrow>
        nr_physical a + nr_length a \<le> nr_physical b \<or> nr_physical b + nr_length b \<le> nr_physical a)"

definition run_inside :: "native_volume \<Rightarrow> native_run \<Rightarrow> bool" where
  "run_inside v r \<longleftrightarrow> 0 < nr_length r \<and> nr_logical r + nr_length r < 2 ^ 64 \<and>
     (\<not> nr_hole r \<longrightarrow> nr_physical r + nr_length r \<le> nv_blocks v)"

definition runs_ok :: "native_volume \<Rightarrow> native_run list \<Rightarrow> bool" where
  "runs_ok v runs \<longleftrightarrow> length runs \<le> NATIVE_RUNS \<and> (\<forall>r\<in>set runs. run_inside v r) \<and> sorted_wrt run_before runs"

lemma runs_ok_Nil [simp]: "runs_ok v []"
  by (simp add: runs_ok_def)

lemma overlap_iff: "a + n < 2 ^ 64 \<Longrightarrow> b + m < 2 ^ 64 \<Longrightarrow> overlap a n b m \<longleftrightarrow> n \<noteq> 0 \<and> m \<noteq> 0 \<and> a < b + m \<and> b < a + n"
  by (simp add: overlap_def add64_def)

lemma last_bound:
  assumes "sorted_wrt run_before runs" "r \<in> set runs" "\<forall>r\<in>set runs. 0 < nr_length r"
  shows "nr_logical r + nr_length r \<le> nr_logical (last runs) + nr_length (last runs)"
proof -
  obtain xs where e: "runs = xs @ [last runs]" using assms(2) by (metis append_butlast_last_id empty_iff empty_set)
  then have "r = last runs \<or> r \<in> set xs" using assms(2) by (metis Un_iff empty_iff insert_iff list.set set_append)
  moreover have "r \<in> set xs \<Longrightarrow> run_before r (last runs)" using assms(1) e by (metis (no_types, lifting) list.set_intros(1) sorted_wrt_append)
  ultimately show ?thesis by (auto simp: run_before_def)
qed

lemma run_add_ok:
  assumes "runs_ok v runs" "nv_blocks v < 2 ^ 64" "n < 2 ^ 64" "run_add v l p n hole runs = Inr runs'"
  shows "runs_ok v runs'"
proof -
  let ?r = "\<lparr>nr_logical = l, nr_physical = p, nr_length = n, nr_hole = hole\<rparr>"
  have c: "n \<noteq> 0" "length runs \<noteq> NATIVE_RUNS" "l \<le> 2 ^ 64 - 1 - n" "\<not> hole \<Longrightarrow> p < nv_blocks v \<and> n \<le> nv_blocks v - p"
    "runs \<noteq> [] \<Longrightarrow> nr_logical (last runs) + nr_length (last runs) \<le> l"
    "\<not> hole \<Longrightarrow> \<forall>r\<in>set runs. \<not> nr_hole r \<longrightarrow> \<not> overlap p n (nr_physical r) (nr_length r)" "runs' = runs @ [?r]"
    using assms(4) by (auto simp: run_add_def not_less split: if_splits)
  have inside: "\<forall>r\<in>set runs. run_inside v r" and srt: "sorted_wrt run_before runs" and len: "length runs \<le> NATIVE_RUNS"
    using assms(1) by (simp_all add: runs_ok_def)
  have pn: "p + n \<le> nv_blocks v" if "\<not> hole" using c(4)[OF that] by linarith
  have r: "run_inside v ?r" using c(1,3) assms(3) pn by (auto simp: run_inside_def)
  have "run_before x ?r" if x: "x \<in> set runs" for x
  proof -
    have "nr_logical x + nr_length x \<le> l"
      using last_bound[OF srt x] inside c(5) x by (fastforce simp: run_inside_def)
    moreover have "nr_physical x + nr_length x \<le> p \<or> p + n \<le> nr_physical x" if h: "\<not> nr_hole x" "\<not> hole"
    proof -
      have xb: "nr_physical x + nr_length x \<le> nv_blocks v" "0 < nr_length x" using inside x h(1) by (auto simp: run_inside_def)
      have "\<not> overlap p n (nr_physical x) (nr_length x)" using c(6)[OF h(2)] x h(1) by blast
      then show ?thesis using overlap_iff[of p n "nr_physical x" "nr_length x"] pn[OF h(2)] xb assms(2) c(1) by auto
    qed
    ultimately show ?thesis by (auto simp: run_before_def)
  qed
  then show ?thesis using inside r srt len c(2,7) by (auto simp: runs_ok_def sorted_wrt_append)
qed

section \<open>Mapping a file\<close>

lemma extent_node_ok:
  assumes "\<And>i acc s r s'. runs_ok v (fst acc) \<Longrightarrow> f i acc s = (Inr r, s') \<Longrightarrow> runs_ok v (fst r)"
    and "runs_ok v (fst acc)" "extent_node d b n f acc s = (Inr r, s')"
  shows "runs_ok v (fst r)"
proof -
  have e: "io_each (\<lambda>i acc. io_guard (i \<noteq> 0 \<and> extent_logical b i \<le> extent_logical b (i - 1)) K_EIO (f i acc))
      [0..<unat (rd16 b 2)] (fst acc, snd acc - 1) s = (Inr r, s')"
    using assms(3) by (simp add: extent_node_def Let_def)
  show ?thesis
    by (rule io_each_inv[where P = "\<lambda>a. runs_ok v (fst a)", OF _ _ e]) (use assms(1,2) in \<open>auto\<close>)
qed

lemma extent_leaf_ok:
  assumes "nv_blocks v < 2 ^ 64" "runs_ok v (fst acc)" "extent_leaf v b i acc s = (Inr r, s')"
  shows "runs_ok v (fst r)"
proof -
  let ?len = "unat (rd16 b (12 + i * 12 + 4))"
  obtain q where q: "run_add v (extent_logical b i) (unat (rd32 b (12 + i * 12 + 8)) + unat (rd16 b (12 + i * 12 + 6)) * 2 ^ 32)
      (if ?len > 32768 then ?len - 32768 else ?len) (?len > 32768) (fst acc) = Inr q" "r = (q, snd acc)"
    using assms(3) by (auto simp: extent_leaf_def Let_def split: sum.splits)
      (auto simp: map_sum_def split: sum.splits)
  have "?len < 2 ^ 16" using unsigned_less[of "rd16 b (12 + i * 12 + 4)", where ?'a = nat] by simp
  then have "(if ?len > 32768 then ?len - 32768 else ?len) < 2 ^ 64" by auto
  from run_add_ok[OF assms(2,1) this q(1)] show ?thesis using q(2) by simp
qed

lemma with_page_Inr: "with_page m s = (Inr r, s') \<Longrightarrow> \<exists>t t'. m t = (Inr r, t')"
  by (auto simp: with_page_def split: prod.splits if_splits)

lemma ext_extents_ok:
  assumes "nv_blocks v < 2 ^ 64" "runs_ok v (fst acc)" "ext_extents d h v seed b n acc s = (Inr r, s')"
  shows "runs_ok v (fst r)"
  using assms(2,3)
proof (induction d arbitrary: b n acc s r s')
  case 0
  show ?case by (rule extent_node_ok[OF extent_leaf_ok[OF assms(1)] 0(1) 0(2)[unfolded ext_extents.simps]])
next
  case (Suc d)
  from Suc.prems(2) show ?case unfolding ext_extents.simps
  proof (rule extent_node_ok[rotated 2])
    fix i acc and s :: "'a store" and r s'
    assume a: "runs_ok v (fst acc)" and e: "(let physical = extent_child b i in io_guard (physical = 0 \<or> nv_blocks v \<le> physical) K_EIO
        (with_page (io_bind (native_get h v (physical * nv_block v) (nv_block v))
          (\<lambda>c. io_guard (nv_csum v \<and> \<not> extent_sum_ok v seed c) K_EIO (ext_extents d h v seed c (nv_block v) acc))))) s = (Inr r, s')"
    from e obtain t t' where "io_bind (native_get h v (extent_child b i * nv_block v) (nv_block v))
        (\<lambda>c. io_guard (nv_csum v \<and> \<not> extent_sum_ok v seed c) K_EIO (ext_extents d h v seed c (nv_block v) acc)) t = (Inr r, t')"
      using with_page_Inr by (fastforce simp: Let_def)
    then obtain x u where "ext_extents d h v seed x (nv_block v) acc u = (Inr r, t')" by (auto simp: io_bind_Inr)
    then show "runs_ok v (fst r)" by (rule Suc.IH[OF a])
  qed (rule Suc.prems(1))
qed

lemma add_direct_ok:
  assumes "nv_blocks v < 2 ^ 64" "runs_ok v runs" "add_direct v b at base i runs s = (Inr r, s')"
  shows "runs_ok v r"
  using assms(3) run_add_ok[OF assms(2,1), of 1] assms(2) by (auto simp: add_direct_def Let_def split: if_splits)

lemma ext_map_runs:
  assumes "nv_blocks v < 2 ^ 64" "ext_map h v ino raw s = (Inr runs, s')"
  shows "runs_ok v runs"
proof (cases "rd32 raw 32 AND 0x80000 = 0")
  case True
  have each: "runs_ok v q" if "io_each (add_direct v b at base) ks p t = (Inr q, t')" "runs_ok v p" for b at base ks p t q and t' :: "'a store"
    by (rule io_each_inv[where P = "runs_ok v", OF _ that(2,1)]) (rule add_direct_ok[OF assms(1)])
  from assms(2) True show ?thesis
    by (auto simp: ext_map_def io_bind_Inr Let_def split: if_splits dest: each)
next
  case False
  then show ?thesis using assms(2) ext_extents_ok[OF assms(1), of "([], 1024)"] by (auto simp: ext_map_def io_bind_Inr)
qed

lemma le_num_Suc: "le_num a at (Suc n) = le_num a at n + unat (a (at + n)) * 2 ^ (8 * n)"
  by (simp add: le_num_def)

lemma le_num_bound: "le_num a at n < 2 ^ (8 * n)"
proof (induction n)
  case 0
  then show ?case by (simp add: le_num_def)
next
  case (Suc n)
  have "unat (a (at + n)) < 256" using unsigned_less[of "a (at + n)", where ?'a = nat] by simp
  then have "unat (a (at + n)) * 2 ^ (8 * n) \<le> 255 * 2 ^ (8 * n)" by (intro mult_le_mono1) simp
  moreover have "(2 :: nat) ^ (8 * Suc n) = 256 * 2 ^ (8 * n)" by (simp add: power_add)
  ultimately show ?case using Suc unfolding le_num_Suc by linarith
qed

text \<open>The runs of an NTFS attribute also follow each other without gaps.\<close>

fun runs_from :: "nat \<Rightarrow> native_run list \<Rightarrow> bool" where
  "runs_from l [] \<longleftrightarrow> True"
| "runs_from l (r # rs) \<longleftrightarrow> nr_logical r = l \<and> runs_from (l + nr_length r) rs"

definition runs_total :: "native_run list \<Rightarrow> nat" where
  "runs_total runs = sum_list (map nr_length runs)"

lemma runs_from_snoc: "runs_from l (runs @ [r]) \<longleftrightarrow> runs_from l runs \<and> nr_logical r = l + runs_total runs"
  by (induction runs arbitrary: l) (simp_all add: runs_total_def add.assoc)

lemma run_add_eq:
  assumes "run_add v l p n hole runs = Inr runs'"
  shows "runs' = runs @ [\<lparr>nr_logical = l, nr_physical = p, nr_length = n, nr_hole = hole\<rparr>]"
  using assms by (auto simp: run_add_def not_less split: if_splits)

lemma ntfs_run_loop_ok:
  assumes "nv_blocks v < 2 ^ 64" "runs_ok v runs" "runs_from 0 runs" "runs_total runs = vcn"
    and "ntfs_run_loop v a sz at vcn lcn runs = Inr (at', vcn', runs')"
  shows "runs_ok v runs' \<and> runs_from 0 runs' \<and> runs_total runs' = vcn'"
  using assms
proof (induction v a sz at vcn lcn runs rule: ntfs_run_loop.induct)
  case (1 v a sz at vcn lcn runs)
  let ?ln = "unat (a at) mod 16" and ?on = "unat (a at) div 16"
  note [simp] = ntfs_run_loop.simps[of v a sz at vcn lcn runs]
  show ?case
  proof (cases "at < sz \<and> a at \<noteq> 0")
    case False
    then show ?thesis using 1(3-6) by auto
  next
    case True
    let ?len = "le_num a (Suc at) ?ln"
    obtain l q where c: "\<not> (?ln = 0 \<or> ?ln > 8 \<or> ?on > 8 \<or> ?ln + ?on > sz - Suc at)" "run_lcn ?on (le_num a (Suc at + ?ln) ?on) lcn = Some l"
      "run_add v vcn l ?len (?on = 0) runs = Inr q" "ntfs_run_loop v a sz (Suc at + ?ln + ?on) (vcn + ?len) l q = Inr (at', vcn', runs')"
      using 1(6) True by (auto simp: Let_def split: if_splits option.splits sum.splits)
    have "(2 :: nat) ^ (8 * ?ln) \<le> 2 ^ 64" using c(1) by (intro power_increasing) auto
    then have "?len < 2 ^ 64" using le_num_bound[of a "Suc at" ?ln] by linarith
    then have ok: "runs_ok v q" using run_add_ok[OF 1(3,2) _ c(3)] by simp
    show ?thesis
      using 1(1)[OF _ refl refl c(1) refl c(2) c(3) 1(2) ok _ _ c(4)] True run_add_eq[OF c(3)] 1(4,5)
      by (simp add: runs_from_snoc) (simp add: runs_total_def)
  qed
qed

lemma ntfs_runs_ok:
  assumes "nv_blocks v < 2 ^ 64" "ntfs_runs v a sz = Inr runs"
  shows "runs_ok v runs \<and> runs_from 0 runs \<and> unat (rd64 a 48) \<le> runs_total runs * nv_block v"
proof -
  obtain at vcn where l: "ntfs_run_loop v a sz (unat (rd16 a 32)) 0 0 [] = Inr (at, vcn, runs)" and z: "unat (rd64 a 48) \<le> vcn * nv_block v"
    using assms(2) by (auto simp: ntfs_runs_def Let_def not_less split: if_splits sum.splits)
  from ntfs_run_loop_ok[OF assms(1) _ _ _ l] have "runs_ok v runs \<and> runs_from 0 runs \<and> runs_total runs = vcn"
    by (simp add: runs_total_def)
  then show ?thesis using z by simp
qed

text \<open>
  C22. The blocks of a file are mapped soundly. When \<open>ext_map\<close> succeeds on an inode, with extents or with
  block lists, and when \<open>ntfs_runs\<close> accepts the run list of an attribute, then there are at most 256 runs,
  each is non-empty, the runs cover increasing and disjoint ranges of the file, and those that are not
  holes lie inside the volume and share no block. The runs of an NTFS attribute also follow each
  other without gaps from the start of the file and hold the attribute's size.
\<close>

theorem native_runs_sound:
  assumes "nv_blocks v < 2 ^ 64"
  shows "(ext_map h v ino raw s = (Inr runs, s') \<longrightarrow> runs_ok v runs) \<and>
    (ntfs_runs v a sz = Inr runs \<longrightarrow> runs_ok v runs \<and> runs_from 0 runs \<and> unat (rd64 a 48) \<le> runs_total runs * nv_block v)"
  using ext_map_runs[OF assms, of h ino raw s runs s'] ntfs_runs_ok[OF assms, of a sz runs] by blast

section \<open>Reading on a RAM disk\<close>

definition native_view :: "native_volume \<Rightarrow> 'h store \<Rightarrow> bytes" where
  "native_view v s = (\<lambda>a. ram (s_pmm s) (d_ram (s_disks s (nv_disk v)) + nv_start v * nv_sector v + a))"

definition native_good :: "native_volume \<Rightarrow> 'h store \<Rightarrow> bool" where
  "native_good v s \<longleftrightarrow> ram_good (nv_disk v) s \<and> nv_sector v = d_sector_size (s_disks s (nv_disk v)) \<and>
     nv_start v + nv_length v \<le> d_sectors (s_disks s (nv_disk v)) \<and> 0 < nv_block v \<and> nv_blocks v * nv_block v \<le> nv_length v * nv_sector v"

lemma native_bytes_ram:
  assumes "native_good v s" "offset + n \<le> nv_length v * nv_sector v"
  shows "native_bytes h v offset out n s = ((0, \<lambda>a. if a < n then native_view v s (offset + a) else out a), s)"
proof -
  let ?d = "s_disks s (nv_disk v)"
  have g: "ram_good (nv_disk v) s" "nv_sector v = d_sector_size ?d" "nv_start v + nv_length v \<le> d_sectors ?d"
    using assms(1) by (auto simp: native_good_def)
  have "(nv_start v + nv_length v) * nv_sector v \<le> d_sectors ?d * nv_sector v" using g(3) by (rule mult_le_mono1)
  then have b: "nv_start v * nv_sector v + offset + n \<le> d_sectors ?d * d_sector_size ?d" using assms(2) g(2) by (simp add: add_mult_distrib)
  show ?thesis
    using disk_bytes_ram[OF g(1) b, of h out] assms(2) by (auto simp: native_bytes_def span_ok_add native_view_def add.assoc)
qed

text \<open>Byte \<open>q\<close> of a file: the byte of the volume block its run assigns, zero in holes.\<close>

definition run_byte :: "native_volume \<Rightarrow> bytes \<Rightarrow> native_run list \<Rightarrow> nat \<Rightarrow> u8" where
  "run_byte v b runs q =
     (case run_find runs (q div nv_block v) of
        Some r \<Rightarrow> if nr_hole r then 0 else b ((nr_physical r + q div nv_block v - nr_logical r) * nv_block v + q mod nv_block v)
      | None \<Rightarrow> 0)"

lemma run_find_inside:
  assumes "runs_ok v runs" "run_find runs l = Some r" "\<not> nr_hole r"
  shows "nr_physical r + l - nr_logical r < nv_blocks v" "r \<in> set runs" "run_holds l r"
proof -
  show r: "r \<in> set runs" "run_holds l r" using assms(2) by (auto simp: run_find_def find_Some_iff)
  then have "nr_physical r + nr_length r \<le> nv_blocks v" using assms(1,3) by (auto simp: runs_ok_def run_inside_def)
  then show "nr_physical r + l - nr_logical r < nv_blocks v" using r(2) by (auto simp: run_holds_def)
qed

lemma block_span:
  assumes "k < nb" "at + m \<le> (z :: nat)"
  shows "k * z + at + m \<le> nb * z"
proof -
  have "Suc k * z \<le> nb * z" using assms(1) by (intro mult_le_mono1) simp
  then show ?thesis using assms(2) by simp
qed

text \<open>The bytes of one step of the loop.\<close>

lemma run_byte_step:
  assumes "offset mod nv_block v + m \<le> nv_block v" "j < m"
  shows "run_byte v b runs (offset + j) =
    (case run_find runs (offset div nv_block v) of
       Some r \<Rightarrow> if nr_hole r then 0 else b ((nr_physical r + offset div nv_block v - nr_logical r) * nv_block v + offset mod nv_block v + j)
     | None \<Rightarrow> 0)"
proof -
  let ?z = "nv_block v"
  have l: "offset mod ?z + j < ?z" using assms by simp
  have "offset + j = offset div ?z * ?z + (offset mod ?z + j)" by simp
  then have "(offset + j) div ?z = offset div ?z" "(offset + j) mod ?z = offset mod ?z + j"
    using l by (metis div_mult_self3 div_less add_0_right gr_implies_not0, metis mod_mult_self3 mod_less)
  then show ?thesis by (auto simp: run_byte_def add.assoc split: option.split)
qed

lemma run_read_ram:
  assumes "native_good v s" "runs_ok v runs"
  shows "run_read h v runs offset out p n s =
    ((0, \<lambda>a. if p \<le> a \<and> a < p + n then run_byte v (native_view v s) runs (offset + (a - p)) else out a), s)"
proof (induction n arbitrary: offset out p rule: less_induct)
  case (less n)
  let ?z = "nv_block v" and ?b = "native_view v s"
  have z: "0 < ?z" and sz: "nv_blocks v * ?z \<le> nv_length v * nv_sector v" using assms(1) by (auto simp: native_good_def)
  show ?case
  proof (cases "n = 0")
    case True
    then show ?thesis by (auto simp: run_read.simps fun_eq_iff)
  next
    case False
    define l where "l = offset div ?z"
    define m where "m = min n (?z - offset mod ?z)"
    have lt: "offset mod ?z < ?z" using z by simp
    have m: "0 < m" "m \<le> n" "offset mod ?z + m \<le> ?z" using False lt by (auto simp: m_def)
    define new where "new = put_bytes out p (\<lambda>j. run_byte v ?b runs (offset + j)) 0 m"
    have step: "run_read h v runs offset out p n s = run_read h v runs (offset + m) new (p + m) (n - m) s"
    proof (cases "\<exists>r. run_find runs l = Some r \<and> \<not> nr_hole r")
      case True
      then obtain r where r: "run_find runs l = Some r" "\<not> nr_hole r" by blast
      have i: "(nr_physical r + l - nr_logical r) * ?z + offset mod ?z + m \<le> nv_length v * nv_sector v"
        using block_span[OF run_find_inside(1)[OF assms(2) r] m(3)] sz by linarith
      have "native_bytes h v ((nr_physical r + l - nr_logical r) * ?z + offset mod ?z) (\<lambda>j. out (p + j)) m s =
          ((0, \<lambda>a. if a < m then ?b ((nr_physical r + l - nr_logical r) * ?z + offset mod ?z + a) else out (p + a)), s)"
        by (rule native_bytes_ram[OF assms(1) i])
      moreover have "put_bytes out p (\<lambda>a. if a < m then ?b ((nr_physical r + l - nr_logical r) * ?z + offset mod ?z + a) else out (p + a)) 0 m = new"
        using run_byte_step[OF m(3), of _ ?b runs, folded l_def] r
        by (auto simp: new_def put_bytes_apply fun_eq_iff simp del: add_diff_assoc add_diff_assoc2)
      ultimately show ?thesis using False z r by (simp add: run_read.simps[of h v runs offset] Let_def l_def[symmetric] m_def[symmetric])
    next
      case h: False
      have "put_bytes out p (\<lambda>_. 0) 0 m = new"
        using run_byte_step[OF m(3), of _ ?b runs, folded l_def] h
        by (auto simp: new_def put_bytes_apply fun_eq_iff split: option.splits simp del: add_diff_assoc add_diff_assoc2)
      then show ?thesis using False z h
        by (auto simp: run_read.simps[of h v runs offset] Let_def l_def[symmetric] m_def[symmetric] split: option.splits)
    qed
    have "n - m < n" using m False by simp
    note ih = less.IH[OF this, of "offset + m" new "p + m"]
    have "(\<lambda>a. if p + m \<le> a \<and> a < p + m + (n - m) then run_byte v ?b runs (offset + m + (a - (p + m))) else new a) =
        (\<lambda>a. if p \<le> a \<and> a < p + n then run_byte v ?b runs (offset + (a - p)) else out a)" (is "?l = ?r")
    proof
      fix a
      show "?l a = ?r a" using m(2) by (cases "p + m \<le> a") (auto simp: new_def put_bytes_apply)
    qed
    then show ?thesis unfolding step using ih by simp
  qed
qed

lemma good_get: "io_keeps (native_good v) (native_get h v offset n)"
  unfolding io_keeps_def
proof (intro allI impI)
  fix s :: "'a store"
  assume g: "native_good v s"
  show "native_good v (snd (native_get h v offset n s))"
  proof (cases "offset + n \<le> nv_length v * nv_sector v")
    case True
    then show ?thesis using g by (simp add: native_get_def native_bytes_ram[OF g])
  next
    case False
    then show ?thesis using g by (simp add: native_get_def native_bytes_def span_ok_add)
  qed
qed

lemma good_pmm [simp]: "native_good v (s\<lparr>s_pmm := pm\<rparr>) = native_good v s"
  by (simp add: native_good_def ram_good_def store_inv_def)

lemma good_page: "io_keeps (native_good v) m \<Longrightarrow> io_keeps (native_good v) (with_page m)"
  unfolding io_keeps_def
proof (intro allI impI)
  fix s :: "'a store"
  assume m: "\<forall>s. native_good v s \<longrightarrow> native_good v (snd (m s))" and g: "native_good v s"
  obtain a pm where p: "pmm_alloc_page (s_pmm s) = (a, pm)" by (metis prod.exhaust)
  have "native_good v (snd (m (s\<lparr>s_pmm := pm\<rparr>)))" using m g by simp
  then show "native_good v (snd (with_page m s))" using g by (simp add: with_page_def p case_prod_beta)
qed

lemma good_leaf: "io_keeps (native_good v) (extent_leaf w b i acc)"
  by (simp add: extent_leaf_def Let_def)

lemma good_extents: "io_keeps (native_good v) (ext_extents d h v seed b n acc)"
proof (induction d arbitrary: b n acc)
  case 0
  show ?case unfolding ext_extents.simps extent_node_def Let_def
    by (intro io_keeps_guard io_keeps_each good_leaf)
next
  case (Suc d)
  show ?case unfolding ext_extents.simps extent_node_def Let_def
    by (intro io_keeps_guard io_keeps_each good_page io_keeps_bind good_get Suc.IH)
qed

lemma good_map: "io_keeps (native_good v) (ext_map h v ino raw)"
proof -
  have d: "io_keeps (native_good v) (add_direct v b at base i runs)" for b at base i runs by (simp add: add_direct_def Let_def)
  have i: "io_keeps (native_good v) (if c = 0 then io_ok runs else m)" if "io_keeps (native_good v) m" for c :: nat and runs m using that by simp
  show ?thesis unfolding ext_map_def Let_def
    by (cases "rd32 raw 32 AND 0x80000 = 0"; cases "rd32 raw 92 \<noteq> 0 \<or> rd32 raw 96 \<noteq> 0")
      (auto intro!: io_keeps_bind io_keeps_each io_keeps_guard i d good_extents good_get)
qed

text \<open>
  C23. Reading an ext4 file returns the file. On a RAM disk, let the inode of the file be readable and
  match the handle, and let \<open>runs\<close> be the blocks that the inode maps. Then a read at any offset of any
  length succeeds and delivers exactly the bytes those runs assign, zeroes for holes, cut at the size in
  the inode, and leaves the rest of the buffer alone.
\<close>

theorem ext_read_exact:
  assumes g: "native_good v s" "nv_blocks v < 2 ^ 64" and f: "v = na_volumes fs (fl_object f)" "fl_object f < na_count fs"
      "fl_attributes f AND 0x10 = 0" "nv_kind v = 4"
    and raw: "ext_inode h v (fl_cluster f) s = (Inr raw, s)" "unat (rd32 raw 100) = fl_directory_offset f"
    and runs: "ext_map h v (fl_cluster f) raw s = (Inr runs, s1)"
  shows "\<exists>out' s2. native_read h fs f offset out n s = ((0, out', min n (ext_size raw - offset)), s2) \<and> native_good v s2 \<and>
    (\<forall>a < min n (ext_size raw - offset). out' a = run_byte v (native_view v s1) runs (offset + a)) \<and>
    (\<forall>a \<ge> min n (ext_size raw - offset). out' a = out a)"
proof (cases "offset \<ge> ext_size raw")
  case True
  then show ?thesis using f g raw by (auto simp: native_read_def ext_read_def)
next
  case False
  let ?n = "min n (ext_size raw - offset)"
  have g1: "native_good v s1" using good_map[of v h "fl_cluster f" raw] g(1) runs by (metis io_keeps_def snd_conv)
  have "run_read h v runs offset out 0 ?n s1 =
      ((0, \<lambda>a. if 0 \<le> a \<and> a < 0 + ?n then run_byte v (native_view v s1) runs (offset + (a - 0)) else out a), s1)"
    by (rule run_read_ram[OF g1 ext_map_runs[OF g(2) runs]])
  then have "native_read h fs f offset out n s =
      ((0, \<lambda>a. if a < ?n then run_byte v (native_view v s1) runs (offset + a) else out a, ?n), s1)"
    using False f raw runs by (simp add: native_read_def ext_read_def Let_def cong: if_cong)
  then show ?thesis using g1 by auto
qed

text \<open>
  C24. Reading an NTFS file returns the file and nothing else. On a RAM disk, let the data attribute of the
  record be non-resident with the given runs. A read succeeds, reports the size of the attribute and
  delivers the bytes the runs assign as far as the attribute is initialized; from there to the size of the
  file every byte is zero, whatever the disk holds.
\<close>

theorem ntfs_read_exact:
  assumes g: "native_good v s" "nv_blocks v < 2 ^ 64"
    and r: "ntfs_record h v ino s = (Inr r, s)" "rd16 r 22 AND 2 = 0" "ntfs_attr r 0x80 [] = Inr (a, len)" "r (a + 8) \<noteq> 0"
    and runs: "ntfs_runs v (\<lambda>j. r (a + j)) len = Inr runs"
    and sz: "sz = unat (rd64 r (a + 48))" "init = unat (rd64 r (a + 56))"
  shows "\<exists>out'. ntfs_data_read h v ino offset out n s = ((0, out', sz), s) \<and>
    (\<forall>j < min n (sz - offset). out' j = (if offset + j < init then run_byte v (native_view v s) runs (offset + j) else 0)) \<and>
    (\<forall>j \<ge> min n (sz - offset). out' j = out j)"
proof (cases "offset \<ge> sz")
  case True
  then show ?thesis using r runs sz by (auto simp: ntfs_data_read_def runs_read_def)
next
  case False
  have ok: "runs_ok v runs" using ntfs_runs_ok[OF g(2) runs] by simp
  let ?n = "min n (sz - offset)"
  define k where "k = (if offset < init then min ?n (init - offset) else 0)"
  let ?out = "\<lambda>a. if a < k then run_byte v (native_view v s) runs (offset + a) else out a"
  have "(if k \<noteq> 0 then run_read h v runs offset out 0 k s else ((0, out), s)) = ((0, ?out), s)"
    using run_read_ram[OF g(1) ok, of h offset out 0 k] by (cases "k = 0") (auto simp: fun_eq_iff cong: if_cong)
  then have "runs_read h v runs sz init offset out n s = ((0, if ?n > k then put_bytes ?out k (\<lambda>_. 0) 0 (?n - k) else ?out, sz), s)"
    using False unfolding runs_read_def Let_def k_def[symmetric] by simp
  then have "ntfs_data_read h v ino offset out n s = ((0, if ?n > k then put_bytes ?out k (\<lambda>_. 0) 0 (?n - k) else ?out, sz), s)"
    using r runs unfolding ntfs_data_read_def sz by simp
  moreover have "(if ?n > k then put_bytes ?out k (\<lambda>_. 0) 0 (?n - k) else ?out) j =
      (if j < ?n then if offset + j < init then run_byte v (native_view v s) runs (offset + j) else 0 else out j)" for j
    by (auto simp: put_bytes_apply k_def)
  ultimately show ?thesis by auto
qed

section \<open>Two small volumes\<close>

definition ex_native :: native_volume where
  "ex_native = \<lparr>nv_kind = 4, nv_disk = 0, nv_sector = 512, nv_block = 1024, nv_start = 0, nv_length = 64, nv_blocks = 32,
     nv_read_only = False, nv_failed = False, nv_wrote = False, nv_source = ''/dev/disk0'', nv_super = (\<lambda>_. 0), nv_inode_size = 128,
     nv_inodes = 8, nv_inodes_per_group = 8, nv_blocks_per_group = 32, nv_groups = 1, nv_desc_size = 32, nv_csum_seed = 0,
     nv_csum = False, nv_gdt_csum = False, nv_record_size = 0, nv_index_size = 0, nv_mft_count = 0, nv_mft_size = 0, nv_mft = []\<rparr>"

text \<open>Inode 2 is a file of 1500 bytes: its first block is block 10, its second a hole.\<close>

definition ex_ext_image :: bytes where
  "ex_ext_image = (\<lambda>_. 0)(2048 := 3, 2052 := 4, 2056 := 5, 5252 := 0xdc, 5253 := 5, 5274 := 1, 5288 := 10, 10247 := 65)"

definition ex_image_store :: "bytes \<Rightarrow> unit store" where
  "ex_image_store b = ex_store\<lparr>s_pmm := ex_pmm\<lparr>ram := (\<lambda>a. b (a - 1048576))\<rparr>\<rparr>"

lemma ex_native_good: "native_good ex_native (ex_image_store b)"
  using ex_store_good by (simp add: native_good_def ram_good_def store_inv_def ex_image_store_def) (simp add: ex_native_def ex_store_def)

lemma ex_native_view: "native_view ex_native (ex_image_store b) = b"
  by (simp add: native_view_def ex_native_def) (simp add: ex_image_store_def ex_store_def)

definition ex_ext_raw :: bytes where
  "ex_ext_raw = (\<lambda>a. if a < 128 then ex_ext_image (5248 + a) else 0)"

lemma ex_get: "offset + n \<le> 32768 \<Longrightarrow>
  native_get ex_hw ex_native offset n (ex_image_store b) = (Inr (\<lambda>a. if a < n then b (offset + a) else 0), ex_image_store b)"
  using native_bytes_ram[OF ex_native_good[of b], of offset n ex_hw "\<lambda>_. 0", unfolded ex_native_view]
  by (simp add: native_get_def) (simp add: ex_native_def)

lemma ex_ext_inode: "ext_inode ex_hw ex_native 2 (ex_image_store ex_ext_image) = (Inr ex_ext_raw, ex_image_store ex_ext_image)"
proof -
  have d: "nv_block ex_native = 1024" "nv_groups ex_native = 1" "nv_desc_size ex_native = 32" "nv_inodes ex_native = 8" "nv_inodes_per_group ex_native = 8"
    "nv_inode_size ex_native = 128" "nv_blocks ex_native = 32" "\<not> nv_csum ex_native" "\<not> nv_gdt_csum ex_native"
    by (simp_all add: ex_native_def)
  define g where "g = (\<lambda>a. if a < 32 then ex_ext_image (2048 + a) else 0)"
  have gz: "wr16 (g(30 := 0, 31 := 0)) 30 (rd16 g 30) = g"
    by (auto simp: wr16_def rd16_def g_def ex_ext_image_def fun_eq_iff)
  have gb: "ext_desc_block ex_native (g(30 := 0, 31 := 0)) 0 = 3" "ext_desc_block ex_native (g(30 := 0, 31 := 0)) 4 = 4"
    "ext_desc_block ex_native (g(30 := 0, 31 := 0)) 8 = 5" "ext_desc_block ex_native g 8 = 5"
    by (simp_all add: ext_desc_block_def d rd32_def rd16_def g_def ex_ext_image_def)
  have "group_sum_ok ex_native 0 (g(30 := 0, 31 := 0)) (rd16 g 30)" "group_layout_ok ex_native (g(30 := 0, 31 := 0))"
    by (simp_all add: group_sum_ok_def group_layout_ok_def gb d inode_blocks_def overlap_def add64_def)
  then have grp: "ext_group ex_hw ex_native 0 (ex_image_store ex_ext_image) = (Inr g, ex_image_store ex_ext_image)"
    by (simp add: ext_group_def io_guard_def io_bind_def io_ok_def d ex_get Let_def g_def[symmetric] gz)
  have raw: "rd16 ex_ext_raw 26 = 1" "rd32 ex_ext_raw 20 = 0" "rd32 ex_ext_raw 32 = 0"
    by (simp_all add: rd32_def rd16_def ex_ext_raw_def ex_ext_image_def)
  show ?thesis by (simp add: ext_inode_def io_guard_def io_bind_def io_ok_def d grp gb ex_get Let_def ex_ext_raw_def[symmetric] raw)
qed

lemma ex_ext_map: "ext_map ex_hw ex_native 2 ex_ext_raw s = (Inr [\<lparr>nr_logical = 0, nr_physical = 10, nr_length = 1, nr_hole = False\<rparr>], s)"
proof -
  have raw: "rd32 ex_ext_raw 32 = 0" "rd32 ex_ext_raw 92 = 0" "rd32 ex_ext_raw 96 = 0" "rd32 ex_ext_raw 88 = 0" "rd32 ex_ext_raw 40 = 10"
    by (simp_all add: rd32_def rd16_def ex_ext_raw_def ex_ext_image_def)
  have z: "rd32 ex_ext_raw (40 + 4 * i) = 0" if "i \<in> {1..<12}" for i
    using that by (auto simp: rd32_def rd16_def ex_ext_raw_def ex_ext_image_def)
  have "io_each (add_direct ex_native ex_ext_raw 40 0) ks r s = (Inr r, s)" if "set ks \<subseteq> {1..<12}" for ks r and s :: "unit store"
    using that by (induction ks) (auto simp: io_ok_def io_bind_def add_direct_def z)
  moreover have "[0..<12] = 0 # [1..<12]" by (simp add: upt_rec)
  moreover have "run_add ex_native 0 10 1 False [] = Inr [\<lparr>nr_logical = 0, nr_physical = 10, nr_length = 1, nr_hole = False\<rparr>]"
    by (simp add: run_add_def ex_native_def NATIVE_RUNS_def)
  ultimately show ?thesis by (simp add: ext_map_def raw io_bind_def io_ok_def add_direct_def io_sum_def del: upt_Suc)
qed

theorem ext_read_exact_witness:
  "\<exists>out' s2. native_read ex_hw \<lparr>na_volumes = \<lambda>_. ex_native, na_count = 1\<rparr> (native_file 4 0 2 False 1500 0) 0 (\<lambda>_. 9) 2000
      (ex_image_store ex_ext_image) = ((0, out', 1500), s2) \<and> out' 7 = 65 \<and> out' 1100 = 0 \<and> out' 1500 = 9"
proof -
  let ?fs = "\<lparr>na_volumes = \<lambda>_. ex_native, na_count = 1\<rparr>" and ?f = "native_file 4 0 2 False 1500 0"
  have sz: "ext_size ex_ext_raw = 1500" and gen: "unat (rd32 ex_ext_raw 100) = fl_directory_offset ?f"
    by (simp_all add: ext_size_def rd32_def rd16_def ex_ext_raw_def ex_ext_image_def native_file_def)
  have v: "ex_native = na_volumes ?fs (fl_object ?f)" "fl_object ?f < na_count ?fs" "fl_attributes ?f AND 0x10 = 0" "nv_kind ex_native = 4"
    "nv_blocks ex_native < 2 ^ 64" and c: "fl_cluster ?f = 2"
    by (simp_all add: native_file_def ex_native_def)
  obtain out' s2 where r: "native_read ex_hw ?fs ?f 0 (\<lambda>_. 9) 2000 (ex_image_store ex_ext_image) = ((0, out', 1500), s2)"
    "\<forall>a < 1500. out' a = run_byte ex_native ex_ext_image [\<lparr>nr_logical = 0, nr_physical = 10, nr_length = 1, nr_hole = False\<rparr>] a"
    "\<forall>a \<ge> 1500. out' a = 9"
    using ext_read_exact[OF ex_native_good v(5,1-4), unfolded c, OF ex_ext_inode gen ex_ext_map, of 0 "\<lambda>_. 9" 2000]
    unfolding sz ex_native_view by auto
  have "out' 7 = 65" "out' 1100 = 0"
    using r(2)[rule_format, of 7] r(2)[rule_format, of 1100]
    by (simp_all add: run_byte_def run_find_def run_holds_def ex_native_def ex_ext_image_def)
  then show ?thesis using r(1,3) by auto
qed

text \<open>Record 1 is a file of 400 bytes in cluster 20, of which 100 are initialized.\<close>

definition ex_ntfs :: native_volume where
  "ex_ntfs = ex_native\<lparr>nv_kind := 5, nv_block := 512, nv_blocks := 64, nv_record_size := 1024, nv_mft_count := 1, nv_mft_size := 2048,
     nv_mft := [\<lparr>nr_logical = 0, nr_physical = 4, nr_length = 4, nr_hole = False\<rparr>]\<rparr>"

definition ex_ntfs_record :: bytes where
  "ex_ntfs_record = (\<lambda>_. 0)(0 := 0x46, 1 := 0x49, 2 := 0x4c, 3 := 0x45, 4 := 48, 6 := 3, 20 := 56, 22 := 1, 24 := 136, 29 := 4, 48 := 1,
     56 := 0x80, 60 := 72, 64 := 1, 88 := 64, 104 := 0x90, 105 := 1, 112 := 100, 120 := 0x11, 121 := 1, 122 := 20,
     128 := 0xff, 129 := 0xff, 130 := 0xff, 131 := 0xff)"

definition ex_ntfs_image :: bytes where
  "ex_ntfs_image = (\<lambda>a. if 3072 \<le> a \<and> a < 4096 then (ex_ntfs_record(510 := 1, 1022 := 1)) (a - 3072)
     else ((\<lambda>_. 0)(10247 := 65, 10390 := 77)) a)"

lemma ex_ntfs_good: "native_good ex_ntfs (ex_image_store b)"
  using ex_store_good by (simp add: native_good_def ram_good_def store_inv_def ex_image_store_def) (simp add: ex_ntfs_def ex_native_def ex_store_def)

lemma ex_ntfs_view: "native_view ex_ntfs (ex_image_store b) = b"
  by (simp add: native_view_def ex_ntfs_def ex_native_def) (simp add: ex_image_store_def ex_store_def)

lemma ex_raw_record: "raw_record ex_hw ex_ntfs 1 (ex_image_store ex_ntfs_image) =
  (Inr (ex_ntfs_record(510 := 1, 1022 := 1)), ex_image_store ex_ntfs_image)"
proof -
  have ok: "runs_ok ex_ntfs (nv_mft ex_ntfs)" by (simp add: runs_ok_def run_inside_def ex_ntfs_def NATIVE_RUNS_def)
  have f: "run_find (nv_mft ex_ntfs) l = Some \<lparr>nr_logical = 0, nr_physical = 4, nr_length = 4, nr_hole = False\<rparr>" if "l < 4" for l
    using that by (simp add: run_find_def run_holds_def ex_ntfs_def)
  have b: "run_byte ex_ntfs ex_ntfs_image (nv_mft ex_ntfs) (1024 + a) = ex_ntfs_image (3072 + a)" if "a < 1024" for a
  proof -
    have "(1024 + a) div 512 < 4" "(4 + (1024 + a) div 512) * 512 + (1024 + a) mod 512 = 3072 + a" using that by simp_all
    then show ?thesis using f by (simp add: run_byte_def) (simp add: ex_ntfs_def add.commute)
  qed
  have "(\<lambda>a. if a < 1024 then run_byte ex_ntfs ex_ntfs_image (nv_mft ex_ntfs) (1024 + a) else 0) = ex_ntfs_record(510 := 1, 1022 := 1)"
  proof
    fix a show "(if a < 1024 then run_byte ex_ntfs ex_ntfs_image (nv_mft ex_ntfs) (1024 + a) else 0) = (ex_ntfs_record(510 := 1, 1022 := 1)) a"
      using b[of a] by (cases "a < 1024") (simp_all add: ex_ntfs_image_def ex_ntfs_record_def)
  qed
  moreover have z: "nv_record_size ex_ntfs = 1024" by (simp add: ex_ntfs_def)
  ultimately show ?thesis
    using run_read_ram[OF ex_ntfs_good ok, of ex_hw 1024 "\<lambda>_. 0" 0 1024 ex_ntfs_image]
    unfolding ex_ntfs_view by (simp add: raw_record_def run_get_def z cong: if_cong)
qed

lemma ex_ntfs_record: "ntfs_record ex_hw ex_ntfs 1 (ex_image_store ex_ntfs_image) = (Inr ex_ntfs_record, ex_image_store ex_ntfs_image)"
proof -
  let ?b = "ex_ntfs_record(510 := 1, 1022 := 1)"
  have h: "rd16 ?b 4 = 48" "rd16 ?b 6 = 3" "rd16 ?b 48 = 1" "rd16 ?b 510 = 1" "rd16 ?b 50 = 0"
    by (simp_all add: rd16_def ex_ntfs_record_def)
  have mg: "memcmp ?b 0 (text_bytes ''FILE'') 0 4 = 0"
    by (simp add: ex_ntfs_record_def text_bytes_def memcmp.simps(2)[of _ _ _ _ 3, simplified] numeral_eq_Suc)
  have w: "wr16 ?b 510 0 = ex_ntfs_record(1022 := 1)" "wr16 (ex_ntfs_record(1022 := 1)) 1022 0 = ex_ntfs_record"
    "rd16 (ex_ntfs_record(1022 := 1)) 1022 = 1" "rd16 (ex_ntfs_record(1022 := 1)) 52 = 0"
    by (simp_all add: rd16_def wr16_def fun_eq_iff) (simp_all add: ex_ntfs_record_def)
  have l: "[Suc 0..<3] = [1, 2]" by (simp add: upt_rec)
  have fx: "ntfs_fixup ?b 1024 ''FILE'' = Inr ex_ntfs_record"
    unfolding ntfs_fixup_def Let_def h mg by (simp add: l h w del: upt_Suc)
  have r: "rd16 ex_ntfs_record 22 = 1" "rd32 ex_ntfs_record 24 = 136" "rd32 ex_ntfs_record 28 = 1024" "rd16 ex_ntfs_record 20 = 56" "rd64 ex_ntfs_record 32 = 0"
    by (simp_all add: rd16_def rd32_def rd64_def ex_ntfs_record_def)
  have z: "nv_record_size ex_ntfs = 1024" "nv_mft_size ex_ntfs = 2048" by (simp_all add: ex_ntfs_def)
  have "record_ok ex_ntfs ex_ntfs_record" by (simp add: record_ok_def r z)
  then show ?thesis
    using ex_raw_record fx by (simp add: ntfs_record_def io_guard_def io_bind_def io_sum_def io_ok_def z span_ok_add)
qed

lemma ex_ntfs_attr: "ntfs_attr ex_ntfs_record 0x80 [] = Inr (56, 72)"
proof -
  let ?r = ex_ntfs_record
  have r: "rd32 ?r 24 = 136" "rd16 ?r 20 = 56" "rd32 ?r 56 = 0x80" "rd32 ?r 128 = 0xffffffff"
    by (simp_all add: rd16_def rd32_def ex_ntfs_record_def)
  have a: "rd32 (sub_bytes ?r 56) 4 = 72" "?r 65 = 0" "?r 64 = 1" "rd32 (sub_bytes ?r 56) 0 = 0x80"
    by (simp_all add: rd16_def rd32_def ex_ntfs_record_def)
  have m: "attr_match (sub_bytes ?r 56) 0x80 []" by (simp add: attr_match_def a str_len.simps)
  have e: "ntfs_attr_loop ?r 0x80 [] 136 128 (Some (56, 72)) = Inr (56, 72)" by (simp add: ntfs_attr_loop.simps r)
  show ?thesis by (simp add: ntfs_attr_def r) (simp add: ntfs_attr_loop.simps[of _ _ _ _ 56] r a m e Let_def)
qed

lemma ex_ntfs_runs: "ntfs_runs ex_ntfs (sub_bytes ex_ntfs_record 56) 72 = Inr [\<lparr>nr_logical = 0, nr_physical = 20, nr_length = 1, nr_hole = False\<rparr>]"
proof -
  let ?a = "sub_bytes ex_ntfs_record 56"
  have a: "ex_ntfs_record 64 = 1" "rd64 ?a 16 = 0" "rd16 ?a 12 = 0" "rd16 ?a 34 = 0" "rd16 ?a 32 = 64" "rd64 ?a 24 = 0" "rd64 ?a 56 = 100" "rd64 ?a 48 = 400"
    "ex_ntfs_record 120 = 0x11" "ex_ntfs_record 121 = 1" "ex_ntfs_record 122 = 20" "ex_ntfs_record 123 = 0"
    by (simp_all add: rd16_def rd32_def rd64_def ex_ntfs_record_def)
  have n: "le_num ?a 65 1 = 1" "le_num ?a 66 1 = 20" by (simp_all add: le_num_def a)
  have l: "run_lcn 1 20 0 = Some 20" by (simp add: run_lcn_def run_delta_def)
  have r: "run_add ex_ntfs 0 20 1 False [] = Inr [\<lparr>nr_logical = 0, nr_physical = 20, nr_length = 1, nr_hole = False\<rparr>]"
    by (simp add: run_add_def ex_ntfs_def NATIVE_RUNS_def)
  have e: "ntfs_run_loop ex_ntfs ?a 72 67 1 20 [\<lparr>nr_logical = 0, nr_physical = 20, nr_length = 1, nr_hole = False\<rparr>] =
      Inr (67, 1, [\<lparr>nr_logical = 0, nr_physical = 20, nr_length = 1, nr_hole = False\<rparr>])"
    by (simp add: ntfs_run_loop.simps a)
  have "ntfs_run_loop ex_ntfs ?a 72 64 0 0 [] = Inr (67, 1, [\<lparr>nr_logical = 0, nr_physical = 20, nr_length = 1, nr_hole = False\<rparr>])"
    using n l r e by (simp add: ntfs_run_loop.simps[of _ _ _ 64] a Let_def)
  moreover have "nv_block ex_ntfs = 512" by (simp add: ex_ntfs_def)
  ultimately show ?thesis by (simp add: ntfs_runs_def a Let_def)
qed

theorem ntfs_read_exact_witness:
  "\<exists>out'. ntfs_data_read ex_hw ex_ntfs 1 0 (\<lambda>_. 9) 500 (ex_image_store ex_ntfs_image) = ((0, out', 400), ex_image_store ex_ntfs_image) \<and>
     out' 7 = 65 \<and> out' 150 = 0 \<and> out' 400 = 9"
proof -
  have h: "rd16 ex_ntfs_record 22 AND 2 = 0" "ex_ntfs_record (56 + 8) \<noteq> 0" "nv_blocks ex_ntfs < 2 ^ 64"
    "400 = unat (rd64 ex_ntfs_record (56 + 48))" "100 = unat (rd64 ex_ntfs_record (56 + 56))"
    by (simp_all add: rd16_def rd32_def rd64_def ex_ntfs_record_def) (simp add: ex_ntfs_def)
  obtain out' where r: "ntfs_data_read ex_hw ex_ntfs 1 0 (\<lambda>_. 9) 500 (ex_image_store ex_ntfs_image) = ((0, out', 400), ex_image_store ex_ntfs_image)"
    "\<forall>j < 400. out' j = (if j < 100 then run_byte ex_ntfs ex_ntfs_image [\<lparr>nr_logical = 0, nr_physical = 20, nr_length = 1, nr_hole = False\<rparr>] j else 0)"
    "\<forall>j \<ge> 400. out' j = 9"
    using ntfs_read_exact[OF ex_ntfs_good h(3) ex_ntfs_record h(1) ex_ntfs_attr h(2) ex_ntfs_runs h(4,5), of 0 "\<lambda>_. 9" 500]
    unfolding ex_ntfs_view by auto
  have "out' 7 = 65" "out' 150 = 0"
    using r(2)[rule_format, of 7] r(2)[rule_format, of 150]
    by (simp_all add: run_byte_def run_find_def run_holds_def ex_ntfs_def ex_ntfs_image_def)
  then show ?thesis using r(1,3) by auto
qed

theorem native_runs_sound_witness:
  "runs_ok ex_native [\<lparr>nr_logical = 0, nr_physical = 10, nr_length = 1, nr_hole = False\<rparr>] \<and>
   runs_ok ex_ntfs [\<lparr>nr_logical = 0, nr_physical = 20, nr_length = 1, nr_hole = False\<rparr>] \<and>
   runs_from 0 [\<lparr>nr_logical = 0, nr_physical = 20, nr_length = 1, nr_hole = False\<rparr>]"
proof -
  have b: "nv_blocks ex_native < 2 ^ 64" "nv_blocks ex_ntfs < 2 ^ 64" by (simp_all add: ex_ntfs_def ex_native_def)
  show ?thesis
    using native_runs_sound[OF b(1), of ex_hw 2 ex_ext_raw undefined] native_runs_sound[OF b(2), of undefined undefined undefined undefined] ex_ext_map ex_ntfs_runs
    by fastforce
qed

end
