(* ===== verification/NtfsRound.thy ===== *)
theory NtfsRound
  imports Ntfs
begin

unbundle bit_operations_syntax

text \<open>
  The update sequences of NTFS records: what \<open>ntfs_pack\<close> writes, \<open>ntfs_fixup\<close> accepts and undoes.
\<close>

lemma rd16_other: "p + 2 \<le> q \<or> q + 2 \<le> p \<Longrightarrow> rd16 (wr16 b p v) q = rd16 b q"
  by (auto simp: rd16_def wr16_def)

lemma rd16_cong: "b p = c q \<Longrightarrow> b (p + 1) = c (q + 1) \<Longrightarrow> rd16 b p = rd16 c q"
  by (simp add: rd16_def)

lemma wr16_rd16: "wr16 b p (rd16 r q) a = (if a = p then r q else if a = p + 1 then r (q + 1) else b a)"
proof -
  have d: "(8 + n) div 8 = Suc 0" if "n < 8" for n :: nat using that by simp
  have "(ucast (rd16 r q) :: u8) = r q" "(ucast (drop_bit 8 (rd16 r q)) :: u8) = r (q + 1)"
    by (rule bit_word_eqI; auto simp: bit_simps bit_rd d dest: bit_imp_le_length)+
  then show ?thesis by (auto simp: wr16_def)
qed

text \<open>The last two bytes of unit \<open>i\<close>, counted from one.\<close>

definition unit_end :: "nat \<Rightarrow> nat" where "unit_end i = i * 512 - 2"

lemma unit_end_ge: "1 \<le> i \<Longrightarrow> 510 \<le> unit_end i"
  by (simp add: unit_end_def)

lemma unit_end_less: "1 \<le> i \<Longrightarrow> i < j \<Longrightarrow> unit_end i + 512 \<le> unit_end j"
  by (simp add: unit_end_def)

definition in_tail :: "nat \<Rightarrow> nat \<Rightarrow> nat \<Rightarrow> bool" where
  "in_tail l k a \<longleftrightarrow> (\<exists>i\<in>{l..<k}. a = unit_end i \<or> a = unit_end i + 1)"

lemma in_tail_Suc: "l \<le> k \<Longrightarrow> in_tail l (Suc k) a \<longleftrightarrow> in_tail l k a \<or> a = unit_end k \<or> a = unit_end k + 1"
  by (auto simp: in_tail_def less_Suc_eq)

definition in_array :: "nat \<Rightarrow> nat \<Rightarrow> nat \<Rightarrow> bool" where
  "in_array u count a \<longleftrightarrow> u \<le> a \<and> a < u + 2 * count"

lemma unit_end_outside:
  assumes "u + 2 * count \<le> 510" "1 \<le> k"
  shows "\<not> in_array u count (unit_end k)" "\<not> in_array u count (unit_end k + 1)"
    "\<not> in_tail 1 k (unit_end k)" "\<not> in_tail 1 k (unit_end k + 1)"
proof -
  show "\<not> in_array u count (unit_end k)" "\<not> in_array u count (unit_end k + 1)" using unit_end_ge[OF assms(2)] assms(1) by (simp_all add: in_array_def)
  show "\<not> in_tail 1 k (unit_end k)" "\<not> in_tail 1 k (unit_end k + 1)"
    using unit_end_less[where j = k] by (fastforce simp: in_tail_def)+
qed

text \<open>After \<open>k - 1\<close> units are packed.\<close>

definition packed :: "nat \<Rightarrow> nat \<Rightarrow> u16 \<Rightarrow> bytes \<Rightarrow> nat \<Rightarrow> bytes \<Rightarrow> bool" where
  "packed u count q r k m \<longleftrightarrow> rd16 m u = q \<and>
     (\<forall>i\<in>{1..<k}. rd16 m (unit_end i) = q \<and> rd16 m (u + i * 2) = rd16 r (unit_end i)) \<and>
     (\<forall>a. \<not> in_array u count a \<and> \<not> in_tail 1 k a \<longrightarrow> m a = r a)"

lemma packed_step:
  assumes "u + 2 * count \<le> 510" "1 \<le> k" "k < count" "packed u count q r k m"
  shows "packed u count q r (Suc k) (pack_unit u q k m)"
proof -
  note e = unit_end_ge[OF assms(2)]
  have pu: "pack_unit u q k m = wr16 (wr16 m (u + k * 2) (rd16 m (unit_end k))) (unit_end k) q" by (simp add: pack_unit_def unit_end_def)
  have src: "rd16 m (unit_end k) = rd16 r (unit_end k)"
    by (rule rd16_cong) (use assms(4) unit_end_outside[OF assms(1,2)] in \<open>auto simp: packed_def\<close>)
  have "rd16 (pack_unit u q k m) u = q"
    unfolding pu using assms(1-4) e by (simp add: rd16_other packed_def)
  moreover have "rd16 (pack_unit u q k m) (unit_end i) = q \<and> rd16 (pack_unit u q k m) (u + i * 2) = rd16 r (unit_end i)" if i: "1 \<le> i" "i < Suc k" for i
  proof (cases "i = k")
    case True
    then show ?thesis unfolding pu using assms(1,3) e src by (simp add: rd16_wr16 rd16_other)
  next
    case False
    then have l: "i < k" using i by simp
    show ?thesis
      unfolding pu using assms l i(1) unit_end_less[OF i(1) l] unit_end_ge[OF i(1)] e by (simp add: rd16_other packed_def)
  qed
  moreover have "pack_unit u q k m a = r a" if a: "\<not> in_array u count a" "\<not> in_tail 1 (Suc k) a" for a
  proof -
    have "a \<noteq> unit_end k" "a \<noteq> unit_end k + 1" "\<not> in_tail 1 k a" using a(2) assms(2) by (simp_all add: in_tail_Suc)
    moreover have "a \<noteq> u + k * 2" "a \<noteq> u + k * 2 + 1" using a(1) assms(3) by (auto simp: in_array_def)
    ultimately show ?thesis using assms(4) a(1) by (simp add: pu wr16_def packed_def)
  qed
  ultimately show ?thesis by (auto simp: packed_def)
qed

lemma packed_all:
  assumes "u + 2 * count \<le> 510" "1 \<le> k" "k \<le> count"
  shows "packed u count q r k (fold (pack_unit u q) [1..<k] (wr16 r u q))"
  using assms(2,3)
proof (induction k rule: nat_induct_at_least)
  case base
  then show ?case using assms(1) by (simp add: packed_def rd16_wr16) (auto simp: in_array_def wr16_def)
next
  case (Suc k)
  then show ?case using packed_step[OF assms(1)] by simp
qed

text \<open>Undoing the units from \<open>k\<close> on restores the record.\<close>

lemma fixup_loop_restores:
  assumes "u + 2 * count \<le> 510" "1 \<le> k" "k \<le> count"
    and "\<forall>i\<in>{k..<count}. rd16 m (unit_end i) = q" "\<forall>i\<in>{k..<count}. rd16 m (u + i * 2) = rd16 r (unit_end i)"
    and "\<forall>a. \<not> in_array u count a \<and> \<not> in_tail k count a \<longrightarrow> m a = r a"
  shows "\<exists>r'. fixup_loop u q [k..<count] m = Inr r' \<and> (\<forall>a. \<not> in_array u count a \<longrightarrow> r' a = r a)"
  using assms(2-)
proof (induction "count - k" arbitrary: k m)
  case 0
  then show ?case by (auto simp: in_tail_def)
next
  case (Suc d)
  then have kc: "k < count" by simp
  let ?m = "wr16 m (unit_end k) (rd16 m (u + k * 2))"
  have src: "rd16 m (u + k * 2) = rd16 r (unit_end k)" "rd16 m (unit_end k) = q" using Suc.prems kc by auto
  have step: "fixup_loop u q [k..<count] m = fixup_loop u q [Suc k..<count] ?m"
    using kc src(2) by (simp add: upt_conv_Cons unit_end_def)
  note e = unit_end_ge[OF Suc.prems(1)]
  have 1: "rd16 ?m (unit_end i) = q" "rd16 ?m (u + i * 2) = rd16 r (unit_end i)" if "Suc k \<le> i" "i < count" for i
    using that Suc.prems unit_end_less[OF Suc.prems(1), of i] e assms(1) by (simp_all add: rd16_other)
  have "?m a = r a" if "\<not> in_array u count a" "\<not> in_tail (Suc k) count a" for a
  proof -
    have "in_tail k count a \<Longrightarrow> a = unit_end k \<or> a = unit_end k + 1" using that(2) by (auto simp: in_tail_def Suc_le_eq dest: le_neq_implies_less)
    then show ?thesis using that(1) Suc.prems(5) by (auto simp: src(1) wr16_rd16)
  qed
  then show ?case unfolding step using Suc.hyps(2) kc 1 by (intro Suc.hyps(1)) auto
qed

text \<open>
  C25. What \<open>ntfs_pack\<close> writes to the disk, \<open>ntfs_fixup\<close> reads back. For a record with the right signature
  whose update sequence array lies between the header and the end of the first unit, packing succeeds, the
  sequence number is changed to neither zero nor 0xffff, every 512-byte unit then ends in that number, and the fixup of
  the packed record succeeds and restores every byte outside the array.
\<close>

theorem ntfs_pack_fixup:
  assumes "u = unat (rd16 r 4)" "count = unat (rd16 r 6)" "count = sz div 512 + 1" "sz mod 512 = 0" "512 \<le> sz"
    and "8 \<le> u" "u + 2 * count \<le> 510" "memcmp r 0 (text_bytes magic) 0 4 = 0"
  shows "\<exists>p q r'. ntfs_pack sz r = Inr p \<and> q \<noteq> 0 \<and> q \<noteq> 0xffff \<and> q \<noteq> rd16 r u \<and> (\<forall>i\<in>{1..sz div 512}. rd16 p (i * 512 - 2) = q) \<and>
    ntfs_fixup p sz magic = Inr r' \<and> (\<forall>a. \<not> (u \<le> a \<and> a < u + 2 * count) \<longrightarrow> r' a = r a)"
proof -
  define q where "q = next_sequence (rd16 r u)"
  define p where "p = fold (pack_unit u q) [1..<count] (wr16 r u q)"
  have q: "q \<noteq> 0" "q \<noteq> 0xffff" "q \<noteq> rd16 r u" by (auto simp: q_def next_sequence_def)
  have pack: "ntfs_pack sz r = Inr p" using assms(1-7) by (simp add: ntfs_pack_def Let_def p_def q_def)
  have c: "1 \<le> count" using assms(3) by simp
  have pk: "packed u count q r count p" unfolding p_def by (rule packed_all[OF assms(7) c order_refl])
  have low: "p a = r a" if "a < 8" for a
  proof -
    have "\<not> in_tail 1 count a" using that unit_end_ge by (fastforce simp: in_tail_def)
    then show ?thesis using pk that assms(6) by (auto simp: packed_def in_array_def)
  qed
  have hd: "rd16 p 4 = rd16 r 4" "rd16 p 6 = rd16 r 6" by (simp_all add: rd16_def low)
  have mg: "memcmp p 0 (text_bytes magic) 0 4 = memcmp r 0 (text_bytes magic) 0 4" by (simp add: numeral_eq_Suc low)
  obtain r' where r': "fixup_loop u q [1..<count] p = Inr r'" "\<forall>a. \<not> in_array u count a \<longrightarrow> r' a = r a"
    using fixup_loop_restores[OF assms(7) order_refl c, of p q r] pk by (auto simp: packed_def)
  have "ntfs_fixup p sz magic = Inr r'"
    using assms r'(1) pk by (simp add: ntfs_fixup_def hd mg Let_def packed_def)
  moreover have "\<forall>i\<in>{1..sz div 512}. rd16 p (i * 512 - 2) = q"
    using pk assms(3) by (auto simp: packed_def unit_end_def)
  ultimately show ?thesis using pack q r'(2) by (auto simp: in_array_def)
qed

definition ex_packed_record :: bytes where
  "ex_packed_record = (\<lambda>_. 0)(0 := 0x46, 1 := 0x49, 2 := 0x4c, 3 := 0x45, 4 := 48, 6 := 3, 48 := 1, 100 := 7, 511 := 8)"

theorem ntfs_pack_fixup_witness:
  "\<exists>p r'. ntfs_pack 1024 ex_packed_record = Inr p \<and> ntfs_fixup p 1024 ''FILE'' = Inr r' \<and> r' 100 = 7 \<and> r' 511 = 8"
proof -
  have h: "48 = unat (rd16 ex_packed_record 4)" "3 = unat (rd16 ex_packed_record 6)" by (simp_all add: rd16_def ex_packed_record_def)
  have m: "memcmp ex_packed_record 0 (text_bytes ''FILE'') 0 4 = 0" by (simp add: ex_packed_record_def text_bytes_def numeral_eq_Suc)
  obtain p r' where "ntfs_pack 1024 ex_packed_record = Inr p" "ntfs_fixup p 1024 ''FILE'' = Inr r'"
    "\<forall>a. \<not> (48 \<le> a \<and> a < 48 + 2 * 3) \<longrightarrow> r' a = ex_packed_record a"
    using ntfs_pack_fixup[OF h(1,2), of 1024 "''FILE''"] m by auto
  then show ?thesis by (intro exI[of _ p] exI[of _ r']) (simp add: ex_packed_record_def)
qed

end
