(* ===== verification/NativeRound.thy ===== *)
theory NativeRound
  imports NativeInv NtfsRound NtfsWrite
begin

unbundle bit_operations_syntax

text \<open>
  What the writers of native volumes put on the disk, the readers take from it: the block map and the
  checksum of an ext4 inode, and the run list of an NTFS data attribute.
\<close>

section \<open>Bytes\<close>

lemma rd_congs:
  "(\<And>i. i < 2 \<Longrightarrow> b (p + i) = c (p + i)) \<Longrightarrow> rd16 b p = rd16 c p"
  by (rule bit_word_eqI) (simp add: bit_rd byte_index)

lemma rd16_sub [simp]: "rd16 (sub_bytes b x) p = rd16 b (x + p)"
  by (simp add: rd16_def add.assoc)

lemma rd32_sub [simp]: "rd32 (sub_bytes b x) p = rd32 b (x + p)"
  by (simp add: rd32_def add.assoc)

text \<open>Reading a field past the change of another one.\<close>

lemma rd_far:
  "p + 2 \<le> q \<or> q + 2 \<le> p \<Longrightarrow> rd16 (wr16 b p v2) q = rd16 b q"
  "p + 4 \<le> q \<or> q + 2 \<le> p \<Longrightarrow> rd16 (wr32 b p v4) q = rd16 b q"
  "p + 8 \<le> q \<or> q + 2 \<le> p \<Longrightarrow> rd16 (wr64 b p v8) q = rd16 b q"
  "p + n \<le> q \<or> q + 2 \<le> p \<Longrightarrow> rd16 (put_bytes b p c k n) q = rd16 b q"
  "p \<noteq> q \<and> p \<noteq> q + 1 \<Longrightarrow> rd16 (b(p := x)) q = rd16 b q"
  "p + 2 \<le> q \<or> q + 4 \<le> p \<Longrightarrow> rd32 (wr16 b p v2) q = rd32 b q"
  "p + 4 \<le> q \<or> q + 4 \<le> p \<Longrightarrow> rd32 (wr32 b p v4) q = rd32 b q"
  "p + 8 \<le> q \<or> q + 4 \<le> p \<Longrightarrow> rd32 (wr64 b p v8) q = rd32 b q"
  "p + n \<le> q \<or> q + 4 \<le> p \<Longrightarrow> rd32 (put_bytes b p c k n) q = rd32 b q"
  "p < q \<or> q + 4 \<le> p \<Longrightarrow> rd32 (b(p := x)) q = rd32 b q"
  "p + 2 \<le> q \<or> q + 8 \<le> p \<Longrightarrow> rd64 (wr16 b p v2) q = rd64 b q"
  "p + 4 \<le> q \<or> q + 8 \<le> p \<Longrightarrow> rd64 (wr32 b p v4) q = rd64 b q"
  "p + 8 \<le> q \<or> q + 8 \<le> p \<Longrightarrow> rd64 (wr64 b p v8) q = rd64 b q"
  "p < q \<or> q + 8 \<le> p \<Longrightarrow> rd64 (b(p := x)) q = rd64 b q"
  by (auto intro!: rd_congs rd32_cong rd64_cong simp: wr_apply put_bytes_apply)

lemma unat_word: "n < 2 ^ LENGTH('a :: len) \<Longrightarrow> unat (word_of_nat n :: 'a word) = n"
  by (simp add: unsigned_of_nat take_bit_nat_eq_self)

section \<open>The block map of an ext4 inode\<close>

lemma extent_put_far: "a < x \<or> x + 12 \<le> a \<Longrightarrow> extent_put x r b a = b a"
  by (auto simp: extent_put_def wr_apply)

lemma extents_put_far: "a < x \<or> x + 12 * length rs \<le> a \<Longrightarrow> extents_put x rs b a = b a"
  by (induction rs arbitrary: x b) (auto simp: extent_put_far)

lemma extent_put_fields:
  "rd32 (extent_put x r b) x = word_of_nat (nr_logical r)" "rd16 (extent_put x r b) (x + 4) = word_of_nat (nr_length r)"
  "rd16 (extent_put x r b) (x + 6) = word_of_nat (nr_physical r div 2 ^ 32)" "rd32 (extent_put x r b) (x + 8) = word_of_nat (nr_physical r)"
  by (simp_all add: extent_put_def rd_far rd16_wr16 rd32_wr32)

lemma extents_put_fields:
  assumes "i < length rs"
  shows "rd32 (extents_put x rs b) (x + 12 * i) = word_of_nat (nr_logical (rs ! i))"
    "rd16 (extents_put x rs b) (x + 12 * i + 4) = word_of_nat (nr_length (rs ! i))"
    "rd16 (extents_put x rs b) (x + 12 * i + 6) = word_of_nat (nr_physical (rs ! i) div 2 ^ 32)"
    "rd32 (extents_put x rs b) (x + 12 * i + 8) = word_of_nat (nr_physical (rs ! i))"
proof -
  have "rd32 (extents_put x rs b) (x + 12 * i) = word_of_nat (nr_logical (rs ! i)) \<and>
    rd16 (extents_put x rs b) (x + 12 * i + 4) = word_of_nat (nr_length (rs ! i)) \<and>
    rd16 (extents_put x rs b) (x + 12 * i + 6) = word_of_nat (nr_physical (rs ! i) div 2 ^ 32) \<and>
    rd32 (extents_put x rs b) (x + 12 * i + 8) = word_of_nat (nr_physical (rs ! i))"
    using assms
  proof (induction rs arbitrary: x b i)
    case (Cons r rs)
    show ?case
    proof (cases i)
      case 0
      let ?e = "extent_put x r b"
      have far: "extents_put (x + 12) rs ?e a = ?e a" if "a < x + 12" for a using that by (simp add: extents_put_far)
      have "rd32 (extents_put (x + 12) rs ?e) x = rd32 ?e x" "rd16 (extents_put (x + 12) rs ?e) (x + 4) = rd16 ?e (x + 4)"
        "rd16 (extents_put (x + 12) rs ?e) (x + 6) = rd16 ?e (x + 6)" "rd32 (extents_put (x + 12) rs ?e) (x + 8) = rd32 ?e (x + 8)"
        by (rule rd32_cong rd_congs; simp add: far)+
      then show ?thesis using 0 extent_put_fields[of x r b] by simp
    next
      case (Suc j)
      then show ?thesis using Cons.IH[of j "x + 12" "extent_put x r b"] Cons.prems by (simp add: algebra_simps)
    qed
  qed simp
  then show "rd32 (extents_put x rs b) (x + 12 * i) = word_of_nat (nr_logical (rs ! i))"
    "rd16 (extents_put x rs b) (x + 12 * i + 4) = word_of_nat (nr_length (rs ! i))"
    "rd16 (extents_put x rs b) (x + 12 * i + 6) = word_of_nat (nr_physical (rs ! i) div 2 ^ 32)"
    "rd32 (extents_put x rs b) (x + 12 * i + 8) = word_of_nat (nr_physical (rs ! i))" by auto
qed

text \<open>A run list that is well formed can be built by \<open>run_add\<close>.\<close>

lemma run_add_complete:
  assumes "runs_ok v (xs @ [r])" "nv_blocks v < 2 ^ 64"
  shows "run_add v (nr_logical r) (nr_physical r) (nr_length r) (nr_hole r) xs = Inr (xs @ [r])"
proof -
  have i: "\<forall>q\<in>set xs. run_inside v q" "run_inside v r" and b: "\<forall>q\<in>set xs. run_before q r" and l: "length xs < NATIVE_RUNS"
    using assms(1) by (auto simp: runs_ok_def sorted_wrt_append)
  have r: "0 < nr_length r" "nr_logical r + nr_length r < 2 ^ 64" "\<not> nr_hole r \<Longrightarrow> nr_physical r + nr_length r \<le> nv_blocks v"
    using i(2) by (auto simp: run_inside_def)
  have lst: "nr_logical (last xs) + nr_length (last xs) \<le> nr_logical r" if "xs \<noteq> []" using b that by (auto simp: run_before_def)
  have "\<not> overlap (nr_physical r) (nr_length r) (nr_physical q) (nr_length q)" if "q \<in> set xs" "\<not> nr_hole q" "\<not> nr_hole r" for q
  proof -
    have "nr_physical q + nr_length q \<le> nv_blocks v" using i(1) that by (auto simp: run_inside_def)
    moreover have "nr_physical q + nr_length q \<le> nr_physical r \<or> nr_physical r + nr_length r \<le> nr_physical q"
      using b that by (auto simp: run_before_def)
    ultimately show ?thesis using r(3)[OF that(3)] assms(2) by (subst overlap_iff) auto
  qed
  then show ?thesis using r l lst by (auto simp: run_add_def)
qed

text \<open>What \<open>ext_alloc_runs\<close> makes.\<close>

definition inline_runs :: "native_volume \<Rightarrow> native_run list \<Rightarrow> bool" where
  "inline_runs v runs \<longleftrightarrow> runs_ok v runs \<and> length runs \<le> 4 \<and>
     (\<forall>r\<in>set runs. \<not> nr_hole r \<and> nr_length r \<le> 32768 \<and> nr_logical r < 2 ^ 32)"

lemma rd_extents_low: "q + 2 \<le> x \<Longrightarrow> rd16 (extents_put x rs b) q = rd16 b q" "q + 4 \<le> x \<Longrightarrow> rd32 (extents_put x rs b) q = rd32 b q"
  by (auto intro!: rd_congs rd32_cong simp: extents_put_far)

lemmas inode_defs = mapped_inode_def ext_set_size_def ext_inline_map_def Let_def

lemma mapped_header:
  assumes "length runs \<le> 4"
  shows "rd16 (mapped_inode v runs sz raw) 40 = 0xf30a" "rd16 (mapped_inode v runs sz raw) 42 = word_of_nat (length runs)"
    "rd16 (mapped_inode v runs sz raw) 44 = 4" "rd16 (mapped_inode v runs sz raw) 46 = 0"
    "rd32 (mapped_inode v runs sz raw) 32 AND 0x80000 \<noteq> 0"
proof -
  have z: "rd16 (put_bytes raw 40 (\<lambda>_. 0) 0 60) 46 = 0" by (simp add: rd16_def put_bytes_apply)
  show "rd16 (mapped_inode v runs sz raw) 40 = 0xf30a" "rd16 (mapped_inode v runs sz raw) 42 = word_of_nat (length runs)"
    "rd16 (mapped_inode v runs sz raw) 44 = 4" "rd16 (mapped_inode v runs sz raw) 46 = 0"
    by (simp_all add: inode_defs rd_far rd_extents_low rd16_wr16 z)
  have "bit (rd32 (mapped_inode v runs sz raw) 32 AND 0x80000) 19"
    by (simp add: inode_defs rd_far rd32_wr32 bit_simps)
  then show "rd32 (mapped_inode v runs sz raw) 32 AND 0x80000 \<noteq> 0" by (metis bit_0_eq bot_apply bot_bool_def)
qed

lemma mapped_extent:
  assumes "i < length runs" "length runs \<le> 4"
  shows "rd32 (mapped_inode v runs sz raw) (52 + 12 * i) = word_of_nat (nr_logical (runs ! i))"
    "rd16 (mapped_inode v runs sz raw) (52 + 12 * i + 4) = word_of_nat (nr_length (runs ! i))"
    "rd16 (mapped_inode v runs sz raw) (52 + 12 * i + 6) = word_of_nat (nr_physical (runs ! i) div 2 ^ 32)"
    "rd32 (mapped_inode v runs sz raw) (52 + 12 * i + 8) = word_of_nat (nr_physical (runs ! i))"
proof -
  have l: "i \<le> 3" using assms by simp
  show "rd32 (mapped_inode v runs sz raw) (52 + 12 * i) = word_of_nat (nr_logical (runs ! i))"
    "rd16 (mapped_inode v runs sz raw) (52 + 12 * i + 4) = word_of_nat (nr_length (runs ! i))"
    "rd16 (mapped_inode v runs sz raw) (52 + 12 * i + 6) = word_of_nat (nr_physical (runs ! i) div 2 ^ 32)"
    "rd32 (mapped_inode v runs sz raw) (52 + 12 * i + 8) = word_of_nat (nr_physical (runs ! i))"
    using l extents_put_fields[OF assms(1), of 52] by (simp_all add: inode_defs rd_far)
qed

lemma mapped_size: "sz < 2 ^ 64 \<Longrightarrow> ext_size (mapped_inode v runs sz raw) = sz"
proof -
  assume "sz < 2 ^ 64"
  then have "sz div 2 ^ 32 < 2 ^ 32" by (simp add: div_less_iff_less_mult)
  then show ?thesis by (simp add: ext_size_def mapped_inode_def ext_set_size_def rd_far rd32_wr32 unsigned_of_nat take_bit_nat_eq_self)
    (simp add: take_bit_nat_def)
qed

text \<open>The checksum does not touch the map, and it is the one that \<open>ext_inode\<close> wants.\<close>

lemma checksum_far:
  "q + 2 \<le> 124 \<Longrightarrow> rd16 (ext_inode_checksum v ino m) q = rd16 m q" "q + 4 \<le> 124 \<Longrightarrow> rd32 (ext_inode_checksum v ino m) q = rd32 m q"
  by (simp_all add: ext_inode_checksum_def Let_def rd_far)

lemma checksum_ok:
  assumes "nv_csum v"
  shows "inode_sum_ok v ino (ext_inode_checksum v ino m)"
proof -
  define z where "z = (if inode_high v m then wr16 (wr16 m 124 0) 130 0 else wr16 m 124 0)"
  define crc where "crc = crc32c_step (ext_inode_seed v ino z) z (nv_inode_size v)"
  define c where "c = (if inode_high v m then wr16 (wr16 z 124 (ucast crc)) 130 (ucast (drop_bit 16 crc)) else wr16 z 124 (ucast crc))"
  have h: "inode_high v (wr16 m 124 0) = inode_high v m" by (simp add: inode_high_def rd_far)
  have c: "ext_inode_checksum v ino m = c"
    using assms by (simp add: ext_inode_checksum_def Let_def h z_def crc_def c_def)
  have hc: "inode_high v c = inode_high v m" by (simp add: inode_high_def c_def z_def rd_far)
  have "(if inode_high v m then wr16 (wr16 c 124 0) 130 0 else wr16 c 124 0) = z"
    by (auto simp: c_def z_def wr16_def fun_eq_iff)
  then have "inode_sum v ino c = crc" by (simp add: inode_sum_def Let_def hc crc_def)
  moreover have "crc = ucast (ucast crc :: u16) OR push_bit 16 (ucast (ucast (drop_bit 16 crc) :: u16))"
    by (rule bit_word_eqI) (auto simp: bit_simps)
  ultimately show ?thesis unfolding c by (simp add: inode_sum_ok_def hc) (simp add: c_def rd_far rd16_wr16)
qed

text \<open>The leaf entries of a node rebuild the run list.\<close>

lemma leaf_each:
  assumes "runs_ok v runs" "nv_blocks v < 2 ^ 64" "k \<le> length runs"
    and "\<And>i. i < length runs \<Longrightarrow> i \<noteq> 0 \<Longrightarrow> extent_logical b (i - 1) < extent_logical b i"
    and "\<And>i. i < length runs \<Longrightarrow> extent_logical b i = nr_logical (runs ! i) \<and> unat (rd16 b (12 + i * 12 + 4)) = nr_length (runs ! i) \<and>
      unat (rd32 b (12 + i * 12 + 8)) + unat (rd16 b (12 + i * 12 + 6)) * 2 ^ 32 = nr_physical (runs ! i) \<and>
      \<not> nr_hole (runs ! i) \<and> nr_length (runs ! i) \<le> 32768"
  shows "io_each (\<lambda>i acc. io_guard (i \<noteq> 0 \<and> extent_logical b i \<le> extent_logical b (i - 1)) K_EIO (extent_leaf v b i acc))
    [k..<length runs] (take k runs, m) s = (Inr (runs, m), s)"
  using assms(3)
proof (induction "length runs - k" arbitrary: k)
  case 0
  then show ?case by simp
next
  case (Suc d)
  then have k: "k < length runs" by simp
  let ?r = "runs ! k"
  have ok: "runs_ok v (take k runs @ [?r])"
  proof -
    have e: "runs = take (Suc k) runs @ drop (Suc k) runs" by simp
    have "sorted_wrt run_before (take (Suc k) runs)" using assms(1) unfolding runs_ok_def by (metis e sorted_wrt_append)
    moreover have "set (take (Suc k) runs) \<subseteq> set runs" by (rule set_take_subset)
    ultimately show ?thesis using assms(1) k by (auto simp: runs_ok_def take_Suc_conv_app_nth[symmetric])
  qed
  have "run_add v (nr_logical ?r) (nr_physical ?r) (nr_length ?r) False (take k runs) = Inr (take (Suc k) runs)"
    using run_add_complete[OF ok assms(2)] assms(5)[OF k] by (simp add: take_Suc_conv_app_nth[OF k])
  then have leaf: "extent_leaf v b k (take k runs, m) s = (Inr (take (Suc k) runs, m), s)"
    using assms(5)[OF k] by (simp add: extent_leaf_def Let_def)
  have g: "io_guard (k \<noteq> 0 \<and> extent_logical b k \<le> extent_logical b (k - 1)) K_EIO (extent_leaf v b k (take k runs, m)) s =
      (Inr (take (Suc k) runs, m), s)"
    using leaf assms(4)[OF k] by (auto simp: io_guard_def not_le)
  have "length runs - Suc k = d" using Suc.hyps(2) k by simp
  then show ?case unfolding upt_conv_Cons[OF k] io_each.simps io_bind_def g using Suc.hyps(1)[of "Suc k"] k by simp
qed

text \<open>
  C26. An inode the kernel writes maps back to the blocks it was written for. For at most four runs that are
  well formed, inside the volume and no longer than the format allows, the inode built by \<open>ext_inline_map\<close>,
  \<open>ext_set_size\<close> and \<open>ext_inode_checksum\<close> is mapped by \<open>ext_map\<close> to exactly these runs, has the given size, and passes
  the checksum test of \<open>ext_inode\<close>.
\<close>

theorem ext_inode_roundtrip:
  assumes "inline_runs v runs" "nv_blocks v < 2 ^ 48" "sz < 2 ^ 64"
  shows "ext_map h v ino (ext_inode_checksum v ino (mapped_inode v runs sz raw)) s = (Inr runs, s) \<and>
    ext_size (ext_inode_checksum v ino (mapped_inode v runs sz raw)) = sz \<and>
    (nv_csum v \<longrightarrow> inode_sum_ok v ino (ext_inode_checksum v ino (mapped_inode v runs sz raw)))"
proof -
  let ?m = "mapped_inode v runs sz raw"
  let ?c = "ext_inode_checksum v ino ?m"
  have ok: "runs_ok v runs" "length runs \<le> 4" and each: "\<forall>r\<in>set runs. \<not> nr_hole r \<and> nr_length r \<le> 32768 \<and> nr_logical r < 2 ^ 32"
    using assms(1) by (auto simp: inline_runs_def)
  have f: "extent_logical (sub_bytes ?c 40) i = nr_logical (runs ! i) \<and> unat (rd16 (sub_bytes ?c 40) (12 + i * 12 + 4)) = nr_length (runs ! i) \<and>
      unat (rd32 (sub_bytes ?c 40) (12 + i * 12 + 8)) + unat (rd16 (sub_bytes ?c 40) (12 + i * 12 + 6)) * 2 ^ 32 = nr_physical (runs ! i) \<and>
      \<not> nr_hole (runs ! i) \<and> nr_length (runs ! i) \<le> 32768" if i: "i < length runs" for i
  proof -
    let ?r = "runs ! i"
    have r: "?r \<in> set runs" using i by simp
    have b: "\<not> nr_hole ?r" "nr_length ?r \<le> 32768" "nr_logical ?r < 2 ^ 32" using each r by auto
    have "nr_physical ?r < 2 ^ 48" using ok(1) r b(1) assms(2) by (auto simp: runs_ok_def run_inside_def)
    then have p: "nr_physical ?r div 2 ^ 32 < 2 ^ 16" by (simp add: div_less_iff_less_mult)
    have l: "i \<le> 3" using i ok(2) by simp
    have e: "rd32 ?c (52 + 12 * i) = word_of_nat (nr_logical ?r)" "rd16 ?c (52 + 12 * i + 4) = word_of_nat (nr_length ?r)"
      "rd16 ?c (52 + 12 * i + 6) = word_of_nat (nr_physical ?r div 2 ^ 32)" "rd32 ?c (52 + 12 * i + 8) = word_of_nat (nr_physical ?r)"
      using mapped_extent[OF i ok(2), of v sz raw] l by (simp_all add: checksum_far)
    have pos: "40 + (12 + i * 12) = 52 + 12 * i" "40 + (12 + i * 12 + 4) = 52 + 12 * i + 4" "40 + (12 + i * 12 + 6) = 52 + 12 * i + 6"
      "40 + (12 + i * 12 + 8) = 52 + 12 * i + 8" by simp_all
    have "unat (word_of_nat (nr_physical ?r) :: u32) = nr_physical ?r mod 2 ^ 32" by (simp add: unsigned_of_nat take_bit_nat_def)
    then show ?thesis unfolding extent_logical_def rd16_sub rd32_sub pos e using b p by (simp add: unat_word)
  qed
  have inc: "extent_logical (sub_bytes ?c 40) (i - 1) < extent_logical (sub_bytes ?c 40) i" if i: "i < length runs" "i \<noteq> 0" for i
  proof -
    have "run_before (runs ! (i - 1)) (runs ! i)" using ok(1) i sorted_wrt_nth_less[of run_before runs "i - 1" i] by (simp add: runs_ok_def)
    moreover have "0 < nr_length (runs ! (i - 1))" using ok(1) i by (simp add: runs_ok_def run_inside_def)
    ultimately show ?thesis using f[of i] f[of "i - 1"] i by (auto simp: run_before_def)
  qed
  have h: "rd16 ?c 40 = 0xf30a" "rd16 ?c 42 = word_of_nat (length runs)" "rd16 ?c 44 = 4" "rd16 ?c 46 = 0" "rd32 ?c 32 AND 0x80000 \<noteq> 0"
    using mapped_header[OF ok(2), of v sz raw] by (simp_all add: checksum_far)
  have n: "unat (word_of_nat (length runs) :: u16) = length runs" using ok(2) by (simp add: unat_word)
  have "nv_blocks v < 2 ^ 64" using assms(2) by simp
  from leaf_each[OF ok(1) this _ inc f, of 0 1023 s] have "ext_map h v ino ?c s = (Inr runs, s)"
    using ok(2) by (simp add: ext_map_def h extent_node_def Let_def n io_bind_def)
  moreover have "ext_size ?c = sz" using mapped_size[OF assms(3), of v runs raw] by (simp add: ext_size_def checksum_far)
  ultimately show ?thesis using checksum_ok by blast
qed

section \<open>The run list of an NTFS data attribute\<close>

lemma width_bounds:
  assumes "skip \<le> 1" "1 \<le> b" "b \<le> 8" "n < 2 ^ (64 - skip)"
  shows "b \<le> width skip n b \<and> width skip n b \<le> 8 \<and> n < 2 ^ (8 * width skip n b - skip)"
  using assms(2-)
proof (induction skip n b rule: width.induct)
  case (1 skip n b)
  show ?case
  proof (cases "b < 8 \<and> n div 2 ^ (8 * b - skip) \<noteq> 0")
    case True
    then have "Suc b \<le> width skip n (Suc b) \<and> width skip n (Suc b) \<le> 8 \<and> n < 2 ^ (8 * width skip n (Suc b) - skip)"
      using 1 by simp
    then show ?thesis using True by (simp add: width.simps[of skip n b])
  next
    case False
    then have w: "width skip n b = b" by (subst width.simps) (simp only: if_False)
    show ?thesis
    proof (cases "b = 8")
      case True
      then show ?thesis using 1(4) w by simp
    next
      case b: False
      then have "n div 2 ^ (8 * b - skip) = 0" using False 1(3) by simp
      then show ?thesis using w b 1(3) by (simp add: div_eq_0_iff)
    qed
  qed
qed

lemma put_number_apply: "put_number at c n b a = (if at \<le> a \<and> a < at + c then word_of_nat (n div 2 ^ (8 * (a - at))) else b a)"
  unfolding put_number_def by (induction c) (auto simp: not_less less_Suc_eq)

lemma put_number_far: "q + 2 \<le> at \<Longrightarrow> rd16 (put_number at c n b) q = rd16 b q" "q + 8 \<le> at \<Longrightarrow> rd64 (put_number at c n b) q = rd64 b q"
  by (auto intro!: rd_congs rd64_cong simp: put_number_apply)

lemma le_num_cong: "(\<And>i. i < n \<Longrightarrow> a (p + i) = b (q + i)) \<Longrightarrow> le_num a p n = le_num b q n"
  by (induction n) (simp_all add: le_num_Suc, simp add: le_num_def)

lemma le_num_digits: "le_num (\<lambda>a. word_of_nat (n div 2 ^ (8 * a))) 0 c = n mod 2 ^ (8 * c)"
proof (induction c)
  case 0
  then show ?case by (simp add: le_num_def)
next
  case (Suc c)
  have "unat (word_of_nat (n div 2 ^ (8 * c)) :: u8) = n div 2 ^ (8 * c) mod 2 ^ 8" by (simp add: unsigned_of_nat take_bit_nat_def)
  moreover have "n mod 2 ^ (8 * c + 8) = 2 ^ (8 * c) * (n div 2 ^ (8 * c) mod 2 ^ 8) + n mod 2 ^ (8 * c)"
    by (simp add: power_add mod_mult2_eq)
  ultimately show ?case unfolding le_num_Suc Suc by (simp add: mult.commute add.commute)
qed

lemma le_num_put: "n < 2 ^ (8 * c) \<Longrightarrow> le_num (put_number at c n b) at c = n"
proof -
  assume n: "n < 2 ^ (8 * c)"
  have "le_num (put_number at c n b) at c = le_num (\<lambda>a. word_of_nat (n div 2 ^ (8 * a))) 0 c"
    by (rule le_num_cong) (simp add: put_number_apply)
  then show ?thesis using n by (simp add: le_num_digits)
qed

lemma round8_ge: "n \<le> round8 n" "round8 n < n + 8"
  unfolding round8_def by presburger+

lemma run_lcn_first: "1 \<le> ob \<Longrightarrow> ob \<le> 8 \<Longrightarrow> lcn < 2 ^ (8 * ob - 1) \<Longrightarrow> run_lcn ob lcn 0 = Some lcn"
proof -
  assume o: "1 \<le> ob" "ob \<le> 8" and l: "lcn < 2 ^ (8 * ob - 1)"
  have "(2 :: nat) ^ (8 * ob - 1) \<le> 2 ^ 63" by (rule power_increasing) (use o in auto)
  then show ?thesis using o l by (simp add: run_lcn_def run_delta_def Let_def)
qed

text \<open>The fields of the attribute.\<close>

lemma data_attribute_fields:
  assumes "sz \<noteq> 0" "lb = width 0 (nr_length r) 1" "ob = width 1 (nr_physical r) 1" "d = fst (nt_data_attribute v inst r sz)"
  shows "d 8 = 1" "rd64 d 16 = 0" "rd16 d 12 = 0" "rd16 d 34 = 0" "rd16 d 32 = 64" "rd64 d 24 = word_of_nat (nr_length r - 1)"
    "rd64 d 48 = word_of_nat sz" "rd64 d 56 = word_of_nat sz" "d 64 = word_of_nat (lb + ob * 16)" "snd (nt_data_attribute v inst r sz) = run_bytes r"
    "65 + lb + ob \<le> a \<Longrightarrow> d a = 0"
proof -
  have z: "rd64 (\<lambda>_. 0) q = 0" "rd16 (\<lambda>_. 0) q = 0" for q by (simp_all add: rd64_def rd32_def rd16_def)
  note d = assms(4)[unfolded nt_data_attribute_def Let_def if_not_P[OF assms(1)] fst_conv, folded assms(2,3)]
  show "rd64 d 16 = 0" "rd16 d 12 = 0" "rd16 d 34 = 0" "rd16 d 32 = 64" "rd64 d 24 = word_of_nat (nr_length r - 1)"
    "rd64 d 48 = word_of_nat sz" "rd64 d 56 = word_of_nat sz"
    by (simp_all add: d put_number_far rd_far rd16_wr16 rd64_wr64 z)
  show "d 8 = 1" "d 64 = word_of_nat (lb + ob * 16)" by (simp_all add: d put_number_apply wr_apply)
  show "snd (nt_data_attribute v inst r sz) = run_bytes r" using assms(1) by (simp add: nt_data_attribute_def Let_def)
  show "d a = 0" if "65 + lb + ob \<le> a" using that by (simp add: d put_number_apply wr_apply)
qed

lemma data_attribute_numbers:
  assumes "sz \<noteq> 0" "lb = width 0 (nr_length r) 1" "ob = width 1 (nr_physical r) 1" "d = fst (nt_data_attribute v inst r sz)"
    and "nr_length r < 2 ^ (8 * lb)" "nr_physical r < 2 ^ (8 * ob)"
  shows "le_num d 65 lb = nr_length r" "le_num d (65 + lb) ob = nr_physical r"
proof -
  note d = assms(4)[unfolded nt_data_attribute_def Let_def if_not_P[OF assms(1)] fst_conv, folded assms(2,3)]
  show "le_num d (65 + lb) ob = nr_physical r" unfolding d by (rule le_num_put[OF assms(6)])
  have "le_num d 65 lb = le_num (put_number 65 lb (nr_length r) (\<lambda>_. 0)) 65 lb"
    by (rule le_num_cong) (simp add: d put_number_apply)
  then show "le_num d 65 lb = nr_length r" using le_num_put[OF assms(5)] by simp
qed

text \<open>
  C27. A data attribute the kernel writes decodes to the run it was written for. For a non-empty file in one
  run inside a volume of fewer than \<open>2^63\<close> clusters, \<open>ntfs_runs\<close> accepts what \<open>nt_data_attribute\<close> builds and returns
  exactly that run, however many bytes the two numbers take, and the size fields hold the size of the file.
\<close>

theorem nt_data_roundtrip:
  assumes "sz \<noteq> 0" "sz \<le> nr_length r * nv_block v" "nr_length r * nv_block v < 2 ^ 64" "nv_blocks v < 2 ^ 63"
    and "nr_logical r = 0" "\<not> nr_hole r" "nr_physical r + nr_length r \<le> nv_blocks v"
  shows "case nt_data_attribute v inst r sz of
    (d, n) \<Rightarrow> ntfs_runs v d n = Inr [r] \<and> unat (rd64 d 48) = sz \<and> unat (rd64 d 56) = sz"
proof -
  define lb where "lb = width 0 (nr_length r) 1"
  define ob where "ob = width 1 (nr_physical r) 1"
  define d where "d = fst (nt_data_attribute v inst r sz)"
  define n where "n = snd (nt_data_attribute v inst r sz)"
  have pos: "0 < nr_length r" "0 < nv_block v" using assms(1,2) by (auto intro: gr0I)
  have len: "nr_length r < 2 ^ 63" "nr_physical r < 2 ^ 63" using assms(4,7) by simp_all
  have lbb: "1 \<le> lb \<and> lb \<le> 8 \<and> nr_length r < 2 ^ (8 * lb)" using width_bounds[of 0 1 "nr_length r"] len(1) by (simp add: lb_def)
  have obb: "1 \<le> ob \<and> ob \<le> 8 \<and> nr_physical r < 2 ^ (8 * ob - 1)" using width_bounds[of 1 1 "nr_physical r"] len(2) by (simp add: ob_def)
  have "(2 :: nat) ^ (8 * ob - 1) \<le> 2 ^ (8 * ob)" by (rule power_increasing) auto
  then have phys: "nr_physical r < 2 ^ (8 * ob)" using obb by linarith
  note f = data_attribute_fields[OF assms(1) lb_def ob_def d_def]
  note num = data_attribute_numbers[OF assms(1) lb_def ob_def d_def _ phys, OF conjunct2[OF conjunct2[OF lbb]]]
  have nb: "65 + lb + ob < n" "n mod 8 = 0"
    using round8_ge(1)[of "64 + 1 + lb + ob + 1"] by (simp_all add: n_def f(10) run_bytes_def lb_def ob_def) (simp add: round8_def)
  have "lb + ob * 16 < 256" using lbb obb by simp
  then have hdr: "unat (d 64) = lb + ob * 16" unfolding f(9) by (intro unat_word) simp
  have hd2: "unat (d 64) mod 16 = lb" "unat (d 64) div 16 = ob" "d 64 \<noteq> 0" using lbb hdr by auto
  have "runs_ok v [r]" using pos len assms(5-7) by (simp add: runs_ok_def run_inside_def NATIVE_RUNS_def)
  then have add: "run_add v 0 (nr_physical r) (nr_length r) False [] = Inr [r]"
    using run_add_complete[of v "[]" r] assms(4-6) by simp
  have e: "ntfs_run_loop v d n (65 + lb + ob) (nr_length r) (nr_physical r) [r] = Inr (65 + lb + ob, nr_length r, [r])"
    using f(11)[of "65 + lb + ob"] by (subst ntfs_run_loop.simps) simp
  have "ntfs_run_loop v d n 64 0 0 [] = Inr (65 + lb + ob, nr_length r, [r])"
    using nb lbb obb hd2 num add e run_lcn_first[of ob "nr_physical r"]
    by (subst ntfs_run_loop.simps) (simp add: Let_def)
  moreover have sizes: "unat (rd64 d 48) = sz" "unat (rd64 d 56) = sz" "unat (rd64 d 24) = nr_length r - 1"
    using assms(2,3) len(1) by (simp_all add: f unsigned_of_nat take_bit_nat_eq_self)
  moreover have "nr_length r \<le> (2 ^ 64 - 1) div nv_block v" using assms(3) pos(2) by (simp add: less_eq_div_iff_mult_less_eq)
  ultimately have "ntfs_runs v d n = Inr [r]"
    using nb pos assms(2) by (simp add: ntfs_runs_def f Let_def)
  then show ?thesis using sizes by (simp add: d_def n_def case_prod_beta)
qed

section \<open>Examples\<close>

definition ex_csum_volume :: native_volume where
  "ex_csum_volume = ex_native\<lparr>nv_csum := True, nv_blocks := 100000, nv_inode_size := 256\<rparr>"

definition ex_inline_runs :: "native_run list" where
  "ex_inline_runs = [\<lparr>nr_logical = 0, nr_physical = 500, nr_length = 7, nr_hole = False\<rparr>,
     \<lparr>nr_logical = 7, nr_physical = 600, nr_length = 32768, nr_hole = False\<rparr>]"

theorem ext_inode_roundtrip_witness:
  "ext_map ex_hw ex_csum_volume 12 (ext_inode_checksum ex_csum_volume 12 (mapped_inode ex_csum_volume ex_inline_runs 33000 (\<lambda>_. 0))) ex_store =
     (Inr ex_inline_runs, ex_store) \<and>
   inode_sum_ok ex_csum_volume 12 (ext_inode_checksum ex_csum_volume 12 (mapped_inode ex_csum_volume ex_inline_runs 33000 (\<lambda>_. 0)))"
proof -
  have "inline_runs ex_csum_volume ex_inline_runs" "nv_blocks ex_csum_volume < 2 ^ 48" "(33000 :: nat) < 2 ^ 64" "nv_csum ex_csum_volume"
    by (simp_all add: inline_runs_def runs_ok_def run_inside_def run_before_def ex_csum_volume_def ex_inline_runs_def NATIVE_RUNS_def)
  then show ?thesis using ext_inode_roundtrip by blast
qed

theorem nt_data_roundtrip_witness:
  "case nt_data_attribute ex_ntfs 4 \<lparr>nr_logical = 0, nr_physical = 40, nr_length = 3, nr_hole = False\<rparr> 1200 of
     (d, n) \<Rightarrow> ntfs_runs ex_ntfs d n = Inr [\<lparr>nr_logical = 0, nr_physical = 40, nr_length = 3, nr_hole = False\<rparr>] \<and>
       unat (rd64 d 48) = 1200 \<and> unat (rd64 d 56) = 1200"
proof -
  let ?r = "\<lparr>nr_logical = 0, nr_physical = 40, nr_length = 3, nr_hole = False\<rparr>"
  have "1200 \<le> nr_length ?r * nv_block ex_ntfs" "nr_length ?r * nv_block ex_ntfs < 2 ^ 64" "nv_blocks ex_ntfs < 2 ^ 63"
    "nr_physical ?r + nr_length ?r \<le> nv_blocks ex_ntfs"
    by (simp_all add: ex_ntfs_def)
  from nt_data_roundtrip[OF _ this(1-3) _ _ this(4)] show ?thesis by simp
qed

end
