(* ===== verification/Net.thy ===== *)
theory Net
  imports KLib
begin

unbundle bit_operations_syntax

text \<open>
  The data of the network stack (\<open>drivers/net/networking.c\<close>, \<open>net_internal.h\<close>), its byte order and checksum
  helpers, the generator of protocol identifiers, the text form of addresses, and the transmission
  of frames. Addresses are byte arrays in wire order; times are the 64-bit millisecond counter, read once per
  critical section (\<open>n_now\<close>); what the adapters do with a frame is the argument \<open>nics\<close>.
\<close>

section \<open>Constants\<close>

abbreviation K_ENETDOWN :: int where "K_ENETDOWN \<equiv> - 17"
abbreviation K_ENETUNREACH :: int where "K_ENETUNREACH \<equiv> - 18"
abbreviation K_ECONNREFUSED :: int where "K_ECONNREFUSED \<equiv> - 19"
abbreviation K_ECONNRESET :: int where "K_ECONNRESET \<equiv> - 20"
abbreviation K_EADDRINUSE :: int where "K_EADDRINUSE \<equiv> - 21"
abbreviation K_EMSGSIZE :: int where "K_EMSGSIZE \<equiv> - 22"
abbreviation K_EINPROGRESS :: int where "K_EINPROGRESS \<equiv> - 23"
abbreviation K_ECANCELED :: int where "K_ECANCELED \<equiv> - 24"

definition K_NET_MAX_IF :: nat where "K_NET_MAX_IF = 8"
definition K_NET_MAX_SOCKETS :: nat where "K_NET_MAX_SOCKETS = 64"
definition K_NET_FRAME_MAX :: nat where "K_NET_FRAME_MAX = 1518"
definition NET_RXQ :: nat where "NET_RXQ = 64"
definition NET_NEIGHBORS :: nat where "NET_NEIGHBORS = 64"
definition NET_DGRAMS :: nat where "NET_DGRAMS = 8"
definition NET_MSS :: nat where "NET_MSS = 1440"
definition NET_STREAM :: nat where "NET_STREAM = 16384"
definition NET_FRAG_BYTES :: nat where "NET_FRAG_BYTES = 8192"
definition NET_FRAGS :: nat where "NET_FRAGS = 8"
definition NET_NONE :: nat where "NET_NONE = 2 ^ 32 - 1"

abbreviation (input) K_NET_UP :: u32 where "K_NET_UP \<equiv> 1"
abbreviation (input) K_NET_AUTO6 :: u32 where "K_NET_AUTO6 \<equiv> 2"
abbreviation (input) K_NET_LINK :: u32 where "K_NET_LINK \<equiv> 4"
abbreviation (input) K_NET_READY4 :: u32 where "K_NET_READY4 \<equiv> 8"
abbreviation (input) K_NET_READY6 :: u32 where "K_NET_READY6 \<equiv> 16"
abbreviation (input) K_NET_CONFLICT :: u32 where "K_NET_CONFLICT \<equiv> 32"
abbreviation (input) K_SOCK_UDP :: nat where "K_SOCK_UDP \<equiv> 1"
abbreviation (input) K_SOCK_TCP :: nat where "K_SOCK_TCP \<equiv> 2"

section \<open>State\<close>

datatype nic_kind = NIC_LOOP | NIC_E1000 | NIC_IGC | NIC_RTL8139 | NIC_EXTERNAL

datatype net_state =
  NS_NEW | NS_BOUND | NS_LISTEN | NS_SYN_SENT | NS_SYN_RCVD | NS_ESTABLISHED | NS_FIN_WAIT1 | NS_FIN_WAIT2
| NS_CLOSE_WAIT | NS_CLOSING | NS_LAST_ACK | NS_TIME_WAIT | NS_ERROR

record k_net_address =
  a_family :: nat
  a_interface :: nat
  a_port :: u16
  a_reserved :: u16
  a_bytes :: bytes

record k_net_config =
  cf_interface :: nat
  cf_flags :: u32
  cf_address :: bytes
  cf_mask :: bytes
  cf_gateway :: bytes
  cf_dns :: bytes
  cf_address6 :: bytes
  cf_gateway6 :: bytes
  cf_dns6 :: bytes
  cf_prefix6 :: nat
  cf_lease_seconds :: nat

record k_net_info =
  ni_id :: nat
  ni_flags :: u32
  ni_mtu :: nat
  ni_mac :: bytes
  ni_config :: k_net_config
  ni_link_local6 :: bytes
  ni_rx_packets :: u64
  ni_tx_packets :: u64
  ni_rx_bytes :: u64
  ni_tx_bytes :: u64
  ni_dropped :: u64
  ni_errors :: u64
  ni_tcp_retransmits :: u64
  ni_lease_remaining :: u64
  ni_error :: int

record k_net_frame =
  nf_interface :: nat
  nf_length :: nat
  nf_tick :: u64
  nf_bytes :: bytes

record net_device =
  d_info :: k_net_info
  d_kind :: nic_kind
  d_external_mtu :: nat
  d_tx_used :: nat
  d_dad_at :: u64
  d_config_until :: u64
  d_router_until :: u64
  d_prefix_until :: u64
  d_dns_until :: u64
  d_dad4 :: nat
  d_dad6 :: nat
  d_dadglobal :: nat
  d_auto_rs :: nat
  d_probe_at :: u64
  d_icmp_at :: u64
  d_icmp_budget :: nat
  d_dead :: bool
  d_capture :: "nat \<Rightarrow> k_net_frame"
  d_capture_head :: nat
  d_capture_count :: nat
  d_capture_owner :: nat

record net_neighbor =
  nb_used :: bool
  nb_interface :: nat
  nb_family :: nat
  nb_address :: bytes
  nb_mac :: bytes
  nb_expires :: u64
  nb_requested :: u64
  nb_probes :: nat

record net_datagram =
  dg_from :: k_net_address
  dg_length :: nat
  dg_bytes :: bytes

text \<open>Sequence numbers are 32-bit words; counts of bytes, windows and timers in milliseconds are numbers.\<close>

record net_socket =
  so_used :: bool
  so_detached :: bool
  so_peer_fin :: bool
  so_close_requested :: bool
  so_retransmitted :: bool
  so_id :: nat
  so_owner :: nat
  so_family :: nat
  so_type :: nat
  so_state :: net_state
  so_parent :: nat
  so_backlog :: nat
  so_local :: k_net_address
  so_peer :: k_net_address
  so_snd_una :: u32
  so_snd_nxt :: u32
  so_rcv_nxt :: u32
  so_iss :: u32
  so_fin_seq :: u32
  so_mss :: nat
  so_peer_window :: nat
  so_cwnd :: nat
  so_threshold :: nat
  so_rx_head :: nat
  so_rx_count :: nat
  so_tx_count :: nat
  so_q_head :: nat
  so_q_count :: nat
  so_dupacks :: u32
  so_srtt :: nat
  so_rttvar :: nat
  so_rto :: nat
  so_retry :: nat
  so_deadline :: u64
  so_sent_at :: u64
  so_activity :: u64
  so_persist_at :: u64
  so_error :: int
  so_rx :: bytes
  so_tx :: bytes
  so_datagrams :: "nat \<Rightarrow> net_datagram"

record net_fragment =
  fg_used :: bool
  fg_interface :: nat
  fg_family :: nat
  fg_protocol :: nat
  fg_id :: nat
  fg_final_size :: nat
  fg_src :: bytes
  fg_dst :: bytes
  fg_bytes :: bytes
  fg_seen :: bytes
  fg_expires :: u64

record net_ping =
  pg_used :: bool
  pg_done :: bool
  pg_token :: u32
  pg_owner :: nat
  pg_ms :: u32
  pg_peer :: k_net_address
  pg_sent :: u64

record 'h net =
  n_devices :: "nat \<Rightarrow> net_device"
  n_devices_count :: nat
  n_sockets :: "nat \<Rightarrow> net_socket"
  n_neighbors :: "nat \<Rightarrow> net_neighbor"
  n_fragments :: "nat \<Rightarrow> net_fragment"
  n_queue :: "nat \<Rightarrow> k_net_frame"
  n_head :: nat
  n_queued :: nat
  n_next_socket :: nat
  n_ephemeral :: nat
  n_ip_id :: u16
  n_key0 :: u64
  n_key1 :: u64
  n_counter :: u64
  n_gc_at :: u64
  n_pings :: "nat \<Rightarrow> net_ping"
  n_ready :: bool
  n_now :: u64
  n_ticks :: u64
  n_hw :: 'h

text \<open>What the adapters do: a driver of another module accepts a frame or not; the built-in ones take it from their ring.\<close>

record 'h nics =
  nic_external :: "nat \<Rightarrow> bytes \<Rightarrow> nat \<Rightarrow> 'h \<Rightarrow> int \<times> 'h"
  nic_kick :: "nat \<Rightarrow> bytes \<Rightarrow> nat \<Rightarrow> 'h \<Rightarrow> 'h"

definition dev_upd :: "nat \<Rightarrow> (net_device \<Rightarrow> net_device) \<Rightarrow> 'h net \<Rightarrow> 'h net" where
  "dev_upd i f t = t\<lparr>n_devices := (n_devices t)(i := f (n_devices t i))\<rparr>"

definition info_upd :: "nat \<Rightarrow> (k_net_info \<Rightarrow> k_net_info) \<Rightarrow> 'h net \<Rightarrow> 'h net" where
  "info_upd i f = dev_upd i (\<lambda>d. d\<lparr>d_info := f (d_info d)\<rparr>)"

definition sock_upd :: "nat \<Rightarrow> (net_socket \<Rightarrow> net_socket) \<Rightarrow> 'h net \<Rightarrow> 'h net" where
  "sock_upd i f t = t\<lparr>n_sockets := (n_sockets t)(i := f (n_sockets t i))\<rparr>"

definition neighbor_upd :: "nat \<Rightarrow> (net_neighbor \<Rightarrow> net_neighbor) \<Rightarrow> 'h net \<Rightarrow> 'h net" where
  "neighbor_upd i f t = t\<lparr>n_neighbors := (n_neighbors t)(i := f (n_neighbors t i))\<rparr>"

abbreviation dinfo :: "'h net \<Rightarrow> nat \<Rightarrow> k_net_info" where
  "dinfo t i \<equiv> d_info (n_devices t i)"

abbreviation dconfig :: "'h net \<Rightarrow> nat \<Rightarrow> k_net_config" where
  "dconfig t i \<equiv> ni_config (d_info (n_devices t i))"

definition count_error :: "nat \<Rightarrow> 'h net \<Rightarrow> 'h net" where
  "count_error i = info_upd i (\<lambda>n. n\<lparr>ni_errors := ni_errors n + 1\<rparr>)"

definition count_drop :: "nat \<Rightarrow> 'h net \<Rightarrow> 'h net" where
  "count_drop i = info_upd i (\<lambda>n. n\<lparr>ni_dropped := ni_dropped n + 1\<rparr>)"

definition count_sent :: "nat \<Rightarrow> nat \<Rightarrow> 'h net \<Rightarrow> 'h net" where
  "count_sent i n = info_upd i (\<lambda>x. x\<lparr>ni_tx_packets := ni_tx_packets x + 1, ni_tx_bytes := ni_tx_bytes x + word_of_nat n\<rparr>)"

section \<open>Bytes in wire order\<close>

definition net_be16 :: "bytes \<Rightarrow> nat \<Rightarrow> u16" where
  "net_be16 b p = push_bit 8 (ucast (b p)) OR ucast (b (p + 1))"

definition net_be32 :: "bytes \<Rightarrow> nat \<Rightarrow> u32" where
  "net_be32 b p = push_bit 24 (ucast (b p)) OR push_bit 16 (ucast (b (p + 1))) OR push_bit 8 (ucast (b (p + 2))) OR ucast (b (p + 3))"

definition net_put16 :: "bytes \<Rightarrow> nat \<Rightarrow> u16 \<Rightarrow> bytes" where
  "net_put16 b p x = b(p := ucast (drop_bit 8 x), p + 1 := ucast x)"

definition net_put32 :: "bytes \<Rightarrow> nat \<Rightarrow> u32 \<Rightarrow> bytes" where
  "net_put32 b p x = b(p := ucast (drop_bit 24 x), p + 1 := ucast (drop_bit 16 x), p + 2 := ucast (drop_bit 8 x), p + 3 := ucast x)"

definition net_zero :: "bytes \<Rightarrow> nat \<Rightarrow> bool" where
  "net_zero p n = list_all (\<lambda>i. p i = 0) [0..<n]"

definition net_equal :: "bytes \<Rightarrow> bytes \<Rightarrow> nat \<Rightarrow> bool" where
  "net_equal a b n \<longleftrightarrow> memcmp a 0 b 0 n = 0"

definition net_addr_bytes :: "nat \<Rightarrow> nat" where
  "net_addr_bytes family = (if family = 4 then 4 else 16)"

definition net_multicast :: "nat \<Rightarrow> bytes \<Rightarrow> bool" where
  "net_multicast family a = (if family = 4 then a 0 \<ge> 224 else a 0 = 255)"

definition net_prefix :: "bytes \<Rightarrow> bytes \<Rightarrow> nat \<Rightarrow> bool" where
  "net_prefix a b bits \<longleftrightarrow>
     list_all (\<lambda>i. a i = b i) [0..<bits div 8] \<and>
     (bits mod 8 = 0 \<or> (a (bits div 8) XOR b (bits div 8)) AND push_bit (8 - bits mod 8) 0xff = 0)"

definition sub_array :: "bytes \<Rightarrow> nat \<Rightarrow> bytes" where
  "sub_array b p = (\<lambda>j. b (p + j))"

text \<open>\<open>zero_copy\<close>: a cleared array that holds the first \<open>n\<close> bytes of \<open>a\<close>.\<close>

definition zero_copy :: "bytes \<Rightarrow> nat \<Rightarrow> bytes" where
  "zero_copy a n = put_bytes (\<lambda>_. 0) 0 a 0 n"

section \<open>Checksums\<close>

function net_sum :: "u32 \<Rightarrow> bytes \<Rightarrow> nat \<Rightarrow> nat \<Rightarrow> u32" where
  "net_sum acc b p n =
     (if n > 1 then net_sum (acc + ucast (net_be16 b p)) b (p + 2) (n - 2)
      else if n = 1 then acc + push_bit 8 (ucast (b p)) else acc)"
  by pat_completeness auto
termination
  by (relation "measure (\<lambda>(acc, b, p, n). n)") auto

declare net_sum.simps [simp del]

lemma fold_word_less:
  fixes x :: u32
  assumes "drop_bit 16 x \<noteq> 0"
  shows "unat ((x AND 65535) + drop_bit 16 x) = unat x mod 65536 + unat x div 65536"
    "unat x mod 65536 + unat x div 65536 < unat x"
proof -
  have a: "unat (x AND 65535) = unat x mod 65536"
  proof -
    have "x AND 65535 = take_bit 16 x" by (simp add: take_bit_eq_mask mask_eq_exp_minus_1)
    then have "unat (x AND 65535) = take_bit 16 (unat x)" by (simp only: unsigned_take_bit_eq)
    then show ?thesis by (simp add: take_bit_eq_mod)
  qed
  have x: "unat x < 65536 * 65536" using unsigned_less[of x, where ?'a = nat] by simp
  have b: "unat (drop_bit 16 x) = unat x div 65536"
  proof -
    have "unat (drop_bit 16 x) = drop_bit 16 (take_bit LENGTH(32) (unat x))" by (rule unsigned_drop_bit_eq)
    then show ?thesis using x by (simp add: drop_bit_eq_div take_bit_eq_mod)
  qed
  have nz: "unat x div 65536 \<noteq> 0" using assms b by (metis unat_eq_zero)
  have d: "unat x div 65536 < 65536" using x by (simp add: less_mult_imp_div_less)
  show s: "unat ((x AND 65535) + drop_bit 16 x) = unat x mod 65536 + unat x div 65536"
    unfolding a[symmetric] b[symmetric]
    by (subst unat_word_ariths(1)) (use d in \<open>simp add: a b\<close>)
  have "unat x = unat x div 65536 * 65536 + unat x mod 65536" by simp
  then show "unat x mod 65536 + unat x div 65536 < unat x" using nz by linarith
qed

function net_finish :: "u32 \<Rightarrow> u16" where
  "net_finish x = (if drop_bit 16 x \<noteq> 0 then net_finish ((x AND 65535) + drop_bit 16 x) else NOT (ucast x))"
  by pat_completeness auto
termination
  by (relation "measure unat") (simp_all add: fold_word_less)

declare net_finish.simps [simp del]

definition k_net_checksum :: "bytes \<Rightarrow> nat \<Rightarrow> u16" where
  "k_net_checksum b n = net_finish (net_sum 0 b 0 n)"

definition net_transport_sum :: "nat \<Rightarrow> bytes \<Rightarrow> bytes \<Rightarrow> nat \<Rightarrow> bytes \<Rightarrow> nat \<Rightarrow> u16" where
  "net_transport_sum family src dst proto p n =
     (let acc = net_sum 0 src 0 (net_addr_bytes family); acc = net_sum acc dst 0 (net_addr_bytes family);
          acc = acc + word_of_nat (proto + n mod 65536 + n div 65536) in
      net_finish (net_sum acc p 0 n))"

section \<open>Protocol identifiers\<close>

definition net_rot :: "u64 \<Rightarrow> nat \<Rightarrow> u64" where
  "net_rot n b = push_bit b n OR drop_bit (64 - b) n"

definition net_hash_round :: "u64 \<times> u64 \<times> u64 \<times> u64 \<Rightarrow> u64 \<times> u64 \<times> u64 \<times> u64" where
  "net_hash_round v =
     (case v of (v0, v1, v2, v3) \<Rightarrow>
        let v0 = v0 + v1; v1 = net_rot v1 13 XOR v0; v0 = net_rot v0 32; v2 = v2 + v3; v3 = net_rot v3 16 XOR v2;
            v0 = v0 + v3; v3 = net_rot v3 21 XOR v0; v2 = v2 + v1; v1 = net_rot v1 17 XOR v2; v2 = net_rot v2 32 in
        (v0, v1, v2, v3))"

definition hash_mix :: "nat \<Rightarrow> u64 \<Rightarrow> u64 \<times> u64 \<times> u64 \<times> u64 \<Rightarrow> u64 \<times> u64 \<times> u64 \<times> u64" where
  "hash_mix k m v = (case v of (v0, v1, v2, v3) \<Rightarrow>
     case (net_hash_round ^^ k) (v0, v1, v2, v3 XOR m) of (v0, v1, v2, v3) \<Rightarrow> (v0 XOR m, v1, v2, v3))"

definition net_hash :: "u64 \<Rightarrow> u64 \<Rightarrow> u64 \<Rightarrow> u32" where
  "net_hash k0 k1 m =
     (case hash_mix 2 (push_bit 56 8) (hash_mix 2 m
        (0x736f6d6570736575 XOR k0, 0x646f72616e646f6d XOR k1, 0x6c7967656e657261 XOR k0, 0x7465646279746573 XOR k1)) of
        (v0, v1, v2, v3) \<Rightarrow>
          (case (net_hash_round ^^ 4) (v0, v1, v2 XOR 255, v3) of (v0, v1, v2, v3) \<Rightarrow> ucast (v0 XOR v1 XOR v2 XOR v3)))"

definition net_random :: "'h net \<Rightarrow> u32 \<times> 'h net" where
  "net_random t = (let m = n_counter t + 1 in (net_hash (n_key0 t) (n_key1 t) m, t\<lparr>n_counter := m\<rparr>))"

section \<open>Addresses as text\<close>

definition net_address_ok :: "'h net \<Rightarrow> k_net_address \<Rightarrow> bool" where
  "net_address_ok t a \<longleftrightarrow>
     (a_family a = 4 \<or> a_family a = 6) \<and> a_reserved a = 0 \<and> (a_interface a = NET_NONE \<or> a_interface a < n_devices_count t) \<and>
     (a_family a \<noteq> 4 \<or> net_zero (sub_array (a_bytes a) 4) 12)"

definition digit :: "char \<Rightarrow> bool" where
  "digit c \<longleftrightarrow> (let x = of_char c :: nat in 48 \<le> x \<and> x \<le> 57)"

text \<open>The digits of one part: its value, or \<open>None\<close> for more than three digits or a value above 255.\<close>

fun decimal_part :: "string \<Rightarrow> nat \<Rightarrow> nat \<Rightarrow> (nat \<times> nat \<times> string) option" where
  "decimal_part [] x n = Some (x, n, [])"
| "decimal_part (c # s) x n =
     (if digit c then
        let x = x * 10 + (of_char c - 48) in
        if n + 1 > 3 \<or> x > 255 then None else decimal_part s x (n + 1)
      else Some (x, n, c # s))"

fun parse4_loop :: "nat list \<Rightarrow> string \<Rightarrow> bytes \<Rightarrow> int + bytes" where
  "parse4_loop [] s out = Inr out"
| "parse4_loop (i # is) s out =
     (case decimal_part s 0 0 of
        None \<Rightarrow> Inl K_EINVAL
      | Some (x, n, s) \<Rightarrow>
          if n = 0 then Inl K_EINVAL
          else
            let out = out(i := word_of_nat x) in
            if i < 3 then if cur s \<noteq> CHR ''.'' then Inl K_EINVAL else parse4_loop is (tl s) out
            else if cur s \<noteq> NUL then Inl K_EINVAL else parse4_loop is s out)"

definition net_parse4 :: "string \<Rightarrow> bytes \<Rightarrow> int + bytes" where
  "net_parse4 s out = parse4_loop [0..<4] s out"

definition hex_value :: "char \<Rightarrow> nat" where
  "hex_value c =
     (let x = of_char c :: nat in
      if 48 \<le> x \<and> x \<le> 57 then x - 48 else if 97 \<le> x \<and> x \<le> 102 then x - 97 + 10
      else if 65 \<le> x \<and> x \<le> 70 then x - 65 + 10 else 99)"

fun hex_part :: "string \<Rightarrow> nat \<Rightarrow> nat \<Rightarrow> (nat \<times> nat \<times> string) option" where
  "hex_part [] v n = Some (v, n, [])"
| "hex_part (c # s) v n =
     (if c = NUL \<or> c = CHR '':'' then Some (v, n, c # s)
      else if hex_value c > 15 \<or> n + 1 > 4 then None
      else hex_part s (v * 16 + hex_value c) (n + 1))"

lemma hex_part_length: "hex_part s v n = Some (x, k, r) \<Longrightarrow> length r \<le> length s \<and> (k = n \<or> length r < length s)"
proof (induction s v n rule: hex_part.induct)
  case (2 c s v n)
  then show ?case by (auto split: if_splits)
qed simp

text \<open>The words of an IPv6 address and the place of \<open>::\<close>, if any.\<close>

function parse6_loop :: "string \<Rightarrow> nat list \<Rightarrow> nat option \<Rightarrow> int + nat list \<times> nat option" where
  "parse6_loop s ws gap =
     (if cur s = NUL then Inr (ws, gap)
      else if length ws = 8 then Inl K_EINVAL
      else case hex_part s 0 0 of
        None \<Rightarrow> Inl K_EINVAL
      | Some (v, digits, r) \<Rightarrow>
          if digits = 0 then Inl K_EINVAL
          else
            let ws = ws @ [v] in
            if cur r = NUL then Inr (ws, gap)
            else
              let r = tl r in
              if cur r = CHR '':'' then if gap \<noteq> None then Inl K_EINVAL else parse6_loop (tl r) ws (Some (length ws))
              else if cur r = NUL then Inl K_EINVAL
              else parse6_loop r ws gap)"
  by pat_completeness auto
termination
  by (relation "measure (\<lambda>(s, ws, gap). length s)") (auto dest!: hex_part_length)

declare parse6_loop.simps [simp del]

definition parse6_words :: "nat list \<Rightarrow> nat option \<Rightarrow> int + nat list" where
  "parse6_words ws gap =
     (case gap of
        None \<Rightarrow> if length ws \<noteq> 8 then Inl K_EINVAL else Inr ws
      | Some g \<Rightarrow> if length ws \<ge> 8 then Inl K_EINVAL else Inr (take g ws @ replicate (8 - length ws) 0 @ drop g ws))"

definition put_words :: "nat list \<Rightarrow> bytes" where
  "put_words ws = fold (\<lambda>i b. net_put16 b (2 * i) (word_of_nat (ws ! i))) [0..<8] (\<lambda>_. 0)"

definition net_parse6 :: "string \<Rightarrow> int + bytes" where
  "net_parse6 s =
     (if cur s = CHR '':'' \<and> cur (tl s) \<noteq> CHR '':'' then Inl K_EINVAL
      else case (if cur s = CHR '':'' then parse6_loop (tl (tl s)) [] (Some 0) else parse6_loop s [] None) of
        Inl e \<Rightarrow> Inl e
      | Inr (ws, gap) \<Rightarrow> (case parse6_words ws gap of Inl e \<Rightarrow> Inl e | Inr ws \<Rightarrow> Inr (put_words ws)))"

definition k_net_parse :: "string \<Rightarrow> nat \<Rightarrow> int + k_net_address" where
  "k_net_parse s family =
     (if family \<noteq> 4 \<and> family \<noteq> 6 then Inl K_EINVAL
      else case (if family = 4 then net_parse4 s (\<lambda>_. 0) else net_parse6 s) of
        Inl e \<Rightarrow> Inl e
      | Inr b \<Rightarrow> Inr \<lparr>a_family = family, a_interface = NET_NONE, a_port = 0, a_reserved = 0, a_bytes = b\<rparr>)"

definition decimal_char :: "nat \<Rightarrow> char" where
  "decimal_char n = char_of (48 + n)"

definition format_part :: "nat \<Rightarrow> string" where
  "format_part v =
     (if v \<ge> 100 then [decimal_char (v div 100)] else []) @ (if v \<ge> 10 then [decimal_char (v div 10 mod 10)] else []) @
     [decimal_char (v mod 10)]"

definition hex_char :: "nat \<Rightarrow> char" where
  "hex_char n = ''0123456789abcdef'' ! n"

text \<open>Leading zeros are not shown; the last digit always is.\<close>

definition format_word :: "nat \<Rightarrow> string" where
  "format_word v =
     map (\<lambda>k. hex_char (v div 16 ^ k mod 16)) (filter (\<lambda>k. v div 16 ^ k \<noteq> 0 \<or> k = 0) [3, 2, 1, 0])"

definition join :: "char \<Rightarrow> string list \<Rightarrow> string" where
  "join c xs = (case xs of [] \<Rightarrow> [] | x # xs \<Rightarrow> x @ concat (map (\<lambda>y. c # y) xs))"

definition address_text :: "k_net_address \<Rightarrow> string" where
  "address_text a =
     (if a_family a = 4 then join (CHR ''.'') (map (\<lambda>i. format_part (unat (a_bytes a i))) [0..<4])
      else join (CHR '':'') (map (\<lambda>i. format_word (unat (net_be16 (a_bytes a) (i * 2)))) [0..<8]))"

definition k_net_format :: "k_net_address \<Rightarrow> nat \<Rightarrow> int + string" where
  "k_net_format a capacity =
     (if a_family a \<noteq> 4 \<and> a_family a \<noteq> 6 then Inl K_EINVAL
      else if capacity \<le> length (address_text a) then Inl K_E2BIG else Inr (address_text a))"

section \<open>Frames\<close>

definition net_enqueue :: "nat \<Rightarrow> bytes \<Rightarrow> nat \<Rightarrow> 'h net \<Rightarrow> int \<times> 'h net" where
  "net_enqueue i p n t =
     (if n < 14 \<or> n > K_NET_FRAME_MAX then (K_EMSGSIZE, count_error i t)
      else if n_queued t = NET_RXQ then (K_EAGAIN, count_drop i t)
      else
        let at = (n_head t + n_queued t) mod NET_RXQ;
            f = (n_queue t at)\<lparr>nf_interface := i, nf_length := n, nf_tick := n_ticks t,
                               nf_bytes := put_bytes (nf_bytes (n_queue t at)) 0 p 0 n\<rparr> in
        (0, t\<lparr>n_queue := (n_queue t)(at := f), n_queued := n_queued t + 1\<rparr>))"

definition set_hw :: "'h \<Rightarrow> 'h net \<Rightarrow> 'h net" where
  "set_hw x t = t\<lparr>n_hw := x\<rparr>"

definition nic_transmit :: "'h nics \<Rightarrow> nat \<Rightarrow> bytes \<Rightarrow> nat \<Rightarrow> 'h net \<Rightarrow> int \<times> 'h net" where
  "nic_transmit h i p n t =
     (let d = n_devices t i in
      if d_dead d \<or> ni_flags (d_info d) AND K_NET_UP = 0 \<or> ni_flags (d_info d) AND K_NET_LINK = 0 then (K_ENETDOWN, t)
      else if n < 14 \<or> n > 1514 then (K_EMSGSIZE, t)
      else case (case d_kind d of
                   NIC_LOOP \<Rightarrow> net_enqueue (ni_id (d_info d)) p n t
                 | NIC_EXTERNAL \<Rightarrow> (case nic_external h i p n (n_hw t) of (e, x) \<Rightarrow> (e, set_hw x t))
                 | k \<Rightarrow>
                     if d_tx_used d \<ge> (if k = NIC_RTL8139 then 4 else 63) then (K_EAGAIN, t)
                     else (0, dev_upd i (\<lambda>d. d\<lparr>d_tx_used := d_tx_used d + 1\<rparr>)
                                (set_hw (nic_kick h i (zero_copy p n) (max 60 n) (n_hw t)) t))) of
        (e, t) \<Rightarrow> if e \<noteq> 0 then (e, t) else (0, count_sent i n t))"

definition ether_frame :: "'h net \<Rightarrow> nat \<Rightarrow> bytes \<Rightarrow> u16 \<Rightarrow> bytes \<Rightarrow> nat \<Rightarrow> bytes" where
  "ether_frame t i mac type p n =
     (let f = put_bytes (\<lambda>_. 0) 0 mac 0 6; f = put_bytes f 6 (ni_mac (dinfo t i)) 0 6; f = net_put16 f 12 type in
      put_bytes f 14 p 0 n)"

definition net_ether :: "'h nics \<Rightarrow> nat \<Rightarrow> bytes \<Rightarrow> u16 \<Rightarrow> bytes \<Rightarrow> nat \<Rightarrow> 'h net \<Rightarrow> int \<times> 'h net" where
  "net_ether h i mac type p n t =
     (if n > 1500 then (K_EMSGSIZE, t) else nic_transmit h i (ether_frame t i mac type p n) (n + 14) t)"

end
