(* ===== verification/NetIp.thy ===== *)
theory NetIp
  imports Net
begin

unbundle bit_operations_syntax

text \<open>
  Sockets and their ports, the choice of an interface, the neighbour table and the sending of IP packets
  (\<open>drivers/net/networking.c\<close>). A pointer to a device, a socket or a neighbour is its index.
\<close>

section \<open>Sockets\<close>

definition net_socket_owned :: "nat \<Rightarrow> nat \<Rightarrow> 'h net \<Rightarrow> nat option" where
  "net_socket_owned me handle t =
     find_from 0 K_NET_MAX_SOCKETS (\<lambda>i. let s = n_sockets t i in so_used s \<and> so_id s = handle \<and> \<not> so_detached s \<and> so_owner s = me)"

definition zero_address :: k_net_address where
  "zero_address = \<lparr>a_family = 0, a_interface = 0, a_port = 0, a_reserved = 0, a_bytes = (\<lambda>_. 0)\<rparr>"

definition zero_datagram :: net_datagram where
  "zero_datagram = \<lparr>dg_from = zero_address, dg_length = 0, dg_bytes = (\<lambda>_. 0)\<rparr>"

definition zero_socket :: net_socket where
  "zero_socket =
     \<lparr>so_used = False, so_detached = False, so_peer_fin = False, so_close_requested = False, so_retransmitted = False,
      so_id = 0, so_owner = 0, so_family = 0, so_type = 0, so_state = NS_NEW, so_parent = 0, so_backlog = 0,
      so_local = zero_address, so_peer = zero_address, so_snd_una = 0, so_snd_nxt = 0, so_rcv_nxt = 0, so_iss = 0,
      so_fin_seq = 0, so_mss = 0, so_peer_window = 0, so_cwnd = 0, so_threshold = 0, so_rx_head = 0, so_rx_count = 0,
      so_tx_count = 0, so_q_head = 0, so_q_count = 0, so_dupacks = 0, so_srtt = 0, so_rttvar = 0, so_rto = 0,
      so_retry = 0, so_deadline = 0, so_sent_at = 0, so_activity = 0, so_persist_at = 0, so_error = 0,
      so_rx = (\<lambda>_. 0), so_tx = (\<lambda>_. 0), so_datagrams = (\<lambda>_. zero_datagram)\<rparr>"

definition fresh_socket :: "nat \<Rightarrow> nat \<Rightarrow> nat \<Rightarrow> nat \<Rightarrow> u64 \<Rightarrow> net_socket" where
  "fresh_socket inst family type owner now =
     (let mss = (if family = 6 then 1220 else 536); a = zero_address\<lparr>a_family := family, a_interface := NET_NONE\<rparr> in
      zero_socket\<lparr>so_used := True, so_id := inst, so_owner := owner, so_family := family, so_type := type, so_local := a,
        so_peer := a, so_mss := mss, so_rto := 1000, so_peer_window := 65535, so_cwnd := mss * 2, so_threshold := 65535,
        so_activity := now\<rparr>)"

definition net_socket_new :: "nat \<Rightarrow> nat \<Rightarrow> nat \<Rightarrow> 'h net \<Rightarrow> nat option \<times> 'h net" where
  "net_socket_new family type owner t =
     (if n_next_socket t = 0 then (None, t)
      else case find_from 0 K_NET_MAX_SOCKETS (\<lambda>i. \<not> so_used (n_sockets t i)) of
        None \<Rightarrow> (None, t)
      | Some i \<Rightarrow>
          (Some i, (sock_upd i (\<lambda>_. fresh_socket (n_next_socket t) family type owner (n_now t)) t)
             \<lparr>n_next_socket := add32 (n_next_socket t) 1\<rparr>))"

definition port_conflict :: "net_socket \<Rightarrow> net_socket \<Rightarrow> k_net_address \<Rightarrow> bool" where
  "port_conflict self s a \<longleftrightarrow>
     \<not> (\<not> so_used s \<or> so_parent s \<noteq> 0 \<or> so_family s \<noteq> so_family self \<or> so_type s \<noteq> so_type self \<or> a_port (so_local s) \<noteq> a_port a) \<and>
     \<not> (a_interface (so_local s) \<noteq> NET_NONE \<and> a_interface a \<noteq> NET_NONE \<and> a_interface (so_local s) \<noteq> a_interface a) \<and>
     (let n = net_addr_bytes (a_family a) in
      net_zero (a_bytes a) n \<or> net_zero (a_bytes (so_local s)) n \<or> net_equal (a_bytes a) (a_bytes (so_local s)) n)"

definition net_port_busy :: "nat \<Rightarrow> k_net_address \<Rightarrow> 'h net \<Rightarrow> bool" where
  "net_port_busy self a t =
     list_ex (\<lambda>i. i \<noteq> self \<and> port_conflict (n_sockets t self) (n_sockets t i) a) [0..<K_NET_MAX_SOCKETS]"

definition set_port :: "u16 \<Rightarrow> net_socket \<Rightarrow> net_socket" where
  "set_port p s = s\<lparr>so_local := (so_local s)\<lparr>a_port := p\<rparr>\<rparr>"

definition next_ephemeral :: "nat \<Rightarrow> nat" where
  "next_ephemeral e = (if e + 1 > 65535 then 49152 else e + 1)"

primrec autobind_loop :: "nat \<Rightarrow> nat \<Rightarrow> 'h net \<Rightarrow> int \<times> 'h net" where
  "autobind_loop 0 i t = (K_EADDRINUSE, sock_upd i (set_port 0) t)"
| "autobind_loop (Suc tries) i t =
     (let e = n_ephemeral t; t = (sock_upd i (set_port (word_of_nat e)) t)\<lparr>n_ephemeral := next_ephemeral e\<rparr> in
      if net_port_busy i (so_local (n_sockets t i)) t then autobind_loop tries i t else (0, t))"

definition net_autobind :: "nat \<Rightarrow> 'h net \<Rightarrow> int \<times> 'h net" where
  "net_autobind i t =
     (if a_port (so_local (n_sockets t i)) \<noteq> 0 then (0, t)
      else case net_random t of
        (r, t) \<Rightarrow> autobind_loop 16384 i (t\<lparr>n_ephemeral := 49152 + unat (r AND 16383)\<rparr>))"

section \<open>Routes\<close>

definition net_local :: "'h net \<Rightarrow> nat \<Rightarrow> nat \<Rightarrow> bytes \<Rightarrow> bool" where
  "net_local t i family a =
     (let d = n_devices t i; c = ni_config (d_info d) in
      if family = 4 then ni_flags (d_info d) AND K_NET_READY4 \<noteq> 0 \<and> net_equal a (cf_address c) 4
      else ni_flags (d_info d) AND K_NET_READY6 \<noteq> 0 \<and>
           (net_equal a (ni_link_local6 (d_info d)) 16 \<or>
            (d_dadglobal d = 0 \<and> \<not> net_zero (cf_address6 c) 16 \<and> net_equal a (cf_address6 c) 16)))"

definition net_broadcast4 :: "'h net \<Rightarrow> nat \<Rightarrow> bytes \<Rightarrow> bool" where
  "net_broadcast4 t i a =
     (if net_be32 a 0 = 0xffffffff then True
      else
        let mask = net_be32 (cf_mask (dconfig t i)) 0; ip = net_be32 (cf_address (dconfig t i)) 0 in
        mask \<noteq> 0 \<and> mask \<noteq> 0xffffffff \<and> net_be32 a 0 = (ip OR NOT mask))"

definition link_local :: "bytes \<Rightarrow> bool" where
  "link_local a \<longleftrightarrow> a 0 = 0xfe \<and> a 1 AND 0xc0 = 0x80"

definition one6 :: bytes where
  "one6 = (\<lambda>_. 0)(15 := 1)"

text \<open>One interface: skipped, or whether it matches, with the source address, and whether it has a gateway.\<close>

definition route4 :: "'h net \<Rightarrow> nat \<Rightarrow> bytes \<Rightarrow> (bool \<times> bytes \<times> bool) option" where
  "route4 t i a =
     (let c = dconfig t i; source = cf_address c; ip = net_be32 a 0; local = net_be32 source 0; mask = net_be32 (cf_mask c) 0 in
      if i = 0 then Some (net_equal a source 4, source, False)
      else if drop_bit 24 ip = 127 then None
      else if ni_flags (dinfo t i) AND K_NET_READY4 = 0 \<and> \<not> net_broadcast4 t i a then None
      else Some (net_broadcast4 t i a \<or> (mask \<noteq> 0 \<and> ip AND mask = local AND mask), source, \<not> net_zero (cf_gateway c) 4))"

definition route6 :: "'h net \<Rightarrow> nat \<Rightarrow> bytes \<Rightarrow> (bool \<times> bytes \<times> bool) option" where
  "route6 t i a =
     (let d = n_devices t i; c = dconfig t i; near = link_local a \<or> a 0 = 255;
          source = (if near then ni_link_local6 (d_info d) else cf_address6 c);
          usable = d_dadglobal d = 0 \<and> \<not> net_zero source 16 in
      if i = 0 then Some (net_equal a one6 16, ni_link_local6 (d_info d), False)
      else if ni_flags (d_info d) AND K_NET_READY6 = 0 then None
      else Some (near \<or> (usable \<and> net_prefix a source (cf_prefix6 c)), source, \<not> net_zero (cf_gateway6 c) 16 \<and> usable))"

fun route_loop :: "'h net \<Rightarrow> k_net_address \<Rightarrow> nat \<Rightarrow> nat list \<Rightarrow> nat option \<Rightarrow> (nat \<times> bytes) option \<times> nat option" where
  "route_loop t to preferred [] fallback = (None, fallback)"
| "route_loop t to preferred (i # is) fallback =
     (if (preferred \<noteq> NET_NONE \<and> i \<noteq> preferred) \<or> d_dead (n_devices t i) \<or> ni_flags (dinfo t i) AND K_NET_UP = 0 \<or>
         ni_flags (dinfo t i) AND K_NET_LINK = 0
      then route_loop t to preferred is fallback
      else case (if a_family to = 4 then route4 t i (a_bytes to) else route6 t i (a_bytes to)) of
        None \<Rightarrow> route_loop t to preferred is fallback
      | Some (hit, source, gateway) \<Rightarrow>
          if hit then (Some (i, source), fallback)
          else route_loop t to preferred is (if gateway then Some i else fallback))"

definition net_route :: "'h net \<Rightarrow> k_net_address \<Rightarrow> nat \<Rightarrow> int + nat \<times> bytes" where
  "net_route t to bound =
     (let preferred = (if a_interface to \<noteq> NET_NONE then a_interface to else bound); n = net_addr_bytes (a_family to) in
      if preferred \<noteq> NET_NONE \<and> preferred \<ge> n_devices_count t then Inl K_ENETUNREACH
      else case route_loop t to preferred [0..<n_devices_count t] None of
        (Some (i, source), _) \<Rightarrow> Inr (i, zero_copy source n)
      | (None, Some i) \<Rightarrow> Inr (i, zero_copy (if a_family to = 4 then cf_address (dconfig t i) else cf_address6 (dconfig t i)) n)
      | (None, None) \<Rightarrow> Inl K_ENETUNREACH)"

section \<open>Neighbours\<close>

definition neighbor_match :: "nat \<Rightarrow> nat \<Rightarrow> bytes \<Rightarrow> net_neighbor \<Rightarrow> bool" where
  "neighbor_match inst family a e \<longleftrightarrow>
     nb_used e \<and> nb_interface e = inst \<and> nb_family e = family \<and> net_equal (nb_address e) a (net_addr_bytes family)"

text \<open>The last slot that is free or expired; the scan ends at a match.\<close>

definition neighbor_free :: "'h net \<Rightarrow> nat option" where
  "neighbor_free t =
     find_idx (\<lambda>i. \<not> nb_used (n_neighbors t i) \<or> nb_expires (n_neighbors t i) \<le> n_now t) (rev [0..<NET_NEIGHBORS])"

definition net_neighbor_find :: "nat \<Rightarrow> nat \<Rightarrow> bytes \<Rightarrow> bool \<Rightarrow> 'h net \<Rightarrow> nat option \<times> 'h net" where
  "net_neighbor_find inst family a create t =
     (case find_from 0 NET_NEIGHBORS (\<lambda>i. neighbor_match inst family a (n_neighbors t i)) of
        Some i \<Rightarrow> (Some i, t)
      | None \<Rightarrow>
          if \<not> create then (None, t)
          else case neighbor_free t of
            None \<Rightarrow> (None, t)
          | Some i \<Rightarrow>
              (Some i, neighbor_upd i (\<lambda>_. \<lparr>nb_used = True, nb_interface = inst, nb_family = family,
                 nb_address = zero_copy a (net_addr_bytes family), nb_mac = (\<lambda>_. 0), nb_expires = n_now t + 10000,
                 nb_requested = 0, nb_probes = 0\<rparr>) t))"

definition net_neighbor_learn :: "nat \<Rightarrow> nat \<Rightarrow> bytes \<Rightarrow> bytes \<Rightarrow> bool \<Rightarrow> 'h net \<Rightarrow> 'h net" where
  "net_neighbor_learn inst family a mac solicited t =
     (if mac 0 AND 1 \<noteq> 0 \<or> net_zero mac 6 \<or> net_zero a (net_addr_bytes family) \<or> net_multicast family a then t
      else case net_neighbor_find inst family a True t of
        (None, t) \<Rightarrow> t
      | (Some i, t) \<Rightarrow>
          let e = n_neighbors t i in
          if \<not> solicited \<and> \<not> net_zero (nb_mac e) 6 \<and> \<not> net_equal (nb_mac e) mac 6 then t
          else neighbor_upd i (\<lambda>e. e\<lparr>nb_mac := put_bytes (nb_mac e) 0 mac 0 6,
                 nb_expires := n_now t + (if solicited then 30000 else 5000), nb_probes := 0\<rparr>) t)"

definition arp_packet :: "u16 \<Rightarrow> bytes \<Rightarrow> bytes \<Rightarrow> bytes \<Rightarrow> bytes \<Rightarrow> bytes" where
  "arp_packet op own mac spa tpa =
     (let p = net_put16 (\<lambda>_. 0) 0 1; p = net_put16 p 2 0x0800; p = p(4 := 6, 5 := 4); p = net_put16 p 6 op;
          p = put_bytes p 8 own 0 6; p = put_bytes p 14 spa 0 4; p = (if op = 2 then put_bytes p 18 mac 0 6 else p) in
      put_bytes p 24 tpa 0 4)"

definition net_arp_send :: "'h nics \<Rightarrow> nat \<Rightarrow> u16 \<Rightarrow> bytes \<Rightarrow> bytes \<Rightarrow> bytes \<Rightarrow> 'h net \<Rightarrow> int \<times> 'h net" where
  "net_arp_send h i op mac spa tpa t = net_ether h i mac 0x0806 (arp_packet op (ni_mac (dinfo t i)) mac spa tpa) 28 t"

section \<open>IP packets\<close>

definition ip4_header :: "u16 \<Rightarrow> nat \<Rightarrow> bytes \<Rightarrow> bytes \<Rightarrow> nat \<Rightarrow> nat \<Rightarrow> bytes" where
  "ip4_header inst proto src dst n ttl =
     (let p = (\<lambda>_. 0)(0 := 0x45); p = net_put16 p 2 (word_of_nat (n + 20)); p = net_put16 p 4 inst;
          p = (if proto = 6 then net_put16 p 6 0x4000 else p); p = p(8 := word_of_nat ttl, 9 := word_of_nat proto);
          p = put_bytes p 12 src 0 4; p = put_bytes p 16 dst 0 4 in
      net_put16 p 10 (k_net_checksum p 20))"

definition ip6_header :: "nat \<Rightarrow> bytes \<Rightarrow> bytes \<Rightarrow> nat \<Rightarrow> nat \<Rightarrow> bytes" where
  "ip6_header proto src dst n ttl =
     (let p = (\<lambda>_. 0)(0 := 0x60); p = net_put16 p 4 (word_of_nat n); p = p(6 := word_of_nat proto, 7 := word_of_nat ttl);
          p = put_bytes p 8 src 0 16 in
      put_bytes p 24 dst 0 16)"

definition ip_type :: "nat \<Rightarrow> u16" where
  "ip_type family = (if family = 4 then 0x0800 else 0x86dd)"

text \<open>A packet whose next hop is known: back into the receive queue for an own address, else to the adapter.\<close>

definition ip_emit ::
  "'h nics \<Rightarrow> nat \<Rightarrow> nat \<Rightarrow> bytes \<Rightarrow> bytes \<Rightarrow> nat \<Rightarrow> bytes \<Rightarrow> nat \<Rightarrow> nat \<Rightarrow> bytes \<Rightarrow> 'h net \<Rightarrow> int \<times> 'h net" where
  "ip_emit h i family src dst proto p n ttl mac t =
     (let head = (if family = 4 then 20 else 40);
          t = (if family = 4 then t\<lparr>n_ip_id := n_ip_id t + 1\<rparr> else t);
          packet = (if family = 4 then ip4_header (n_ip_id t) proto src dst n ttl else ip6_header proto src dst n ttl);
          packet = put_bytes packet head p 0 n in
      if d_kind (n_devices t i) \<noteq> NIC_LOOP \<and> net_local t i family dst then
        if n_queued t = NET_RXQ then (K_EAGAIN, t)
        else (0, count_sent i (n + head + 14)
                   (snd (net_enqueue i (ether_frame t i mac (ip_type family) packet (n + head)) (n + head + 14) t)))
      else net_ether h i mac (ip_type family) packet (n + head) t)"

text \<open>Destinations whose hardware address needs no neighbour: own addresses, broadcasts, IPv6 multicasts.\<close>

definition direct_mac :: "'h net \<Rightarrow> nat \<Rightarrow> nat \<Rightarrow> bytes \<Rightarrow> bytes option" where
  "direct_mac t i family dst =
     (if d_kind (n_devices t i) = NIC_LOOP \<or> net_local t i family dst then Some (zero_copy (ni_mac (dinfo t i)) 6)
      else if family = 4 \<and> net_broadcast4 t i dst then Some (\<lambda>_. 255)
      else if family = 6 \<and> dst 0 = 255 then Some (put_bytes ((\<lambda>_. 0)(0 := 0x33, 1 := 0x33)) 2 dst 12 4)
      else None)"

definition ip_too_long :: "'h net \<Rightarrow> nat \<Rightarrow> nat \<Rightarrow> nat \<Rightarrow> bool" where
  "ip_too_long t i family n \<longleftrightarrow> n > sub32 (ni_mtu (dinfo t i)) (if family = 4 then 20 else 40)"

definition solicited_node :: "bytes \<Rightarrow> bytes" where
  "solicited_node target = put_bytes ((\<lambda>_. 0)(0 := 0xff, 1 := 2, 11 := 1, 12 := 0xff)) 13 target 13 3"

text \<open>
  A neighbour solicitation goes to a multicast address, whose hardware address is direct: so the call of
  \<open>net_ip_send\<close> from here does not come back (\<open>nd_solicit_sends\<close> below).
\<close>

definition net_nd_solicit :: "'h nics \<Rightarrow> nat \<Rightarrow> bytes \<Rightarrow> bool \<Rightarrow> 'h net \<Rightarrow> int \<times> 'h net" where
  "net_nd_solicit h i target dad t =
     (let dst = solicited_node target; src = (if dad then (\<lambda>_. 0) else zero_copy (ni_link_local6 (dinfo t i)) 16);
          p = put_bytes ((\<lambda>_. 0)(0 := 135)) 8 target 0 16;
          p = (if dad then p else put_bytes (p(24 := 1, 25 := 1)) 26 (ni_mac (dinfo t i)) 0 6);
          n = (if dad then 24 else 32); p = net_put16 p 2 (net_transport_sum 6 src dst 58 p n); k = ni_id (dinfo t i) in
      if k \<ge> n_devices_count t then (K_ENETUNREACH, t)
      else if ip_too_long t k 6 n then (K_EMSGSIZE, t)
      else case direct_mac t k 6 dst of
        Some mac \<Rightarrow> ip_emit h k 6 src dst 58 p n 255 mac t
      | None \<Rightarrow> (K_ENETUNREACH, t))"

definition next_hop :: "'h net \<Rightarrow> nat \<Rightarrow> nat \<Rightarrow> bytes \<Rightarrow> bytes" where
  "next_hop t i family dst =
     (let c = dconfig t i in
      if family = 4 then
        let mask = net_be32 (cf_mask c) 0 in
        if net_be32 dst 0 AND mask \<noteq> net_be32 (cf_address c) 0 AND mask then cf_gateway c else dst
      else if \<not> link_local dst \<and> \<not> net_prefix dst (cf_address6 c) (cf_prefix6 c) then cf_gateway6 c
      else dst)"

definition neighbor_reset :: "u64 \<Rightarrow> net_neighbor \<Rightarrow> net_neighbor" where
  "neighbor_reset now e =
     (if nb_expires e \<le> now then e\<lparr>nb_mac := (\<lambda>_. 0), nb_probes := 0, nb_requested := 0, nb_expires := now + 10000\<rparr> else e)"

definition probe_neighbor :: "'h nics \<Rightarrow> nat \<Rightarrow> nat \<Rightarrow> bytes \<Rightarrow> 'h net \<Rightarrow> int \<times> 'h net" where
  "probe_neighbor h i family hop t =
     (if family = 4 then net_arp_send h i 1 (\<lambda>_. 255) (cf_address (dconfig t i)) hop t else net_nd_solicit h i hop False t)"

definition nonzero_time :: "u64 \<Rightarrow> u64" where
  "nonzero_time now = (if now \<noteq> 0 then now else 1)"

definition net_resolve_mac :: "'h nics \<Rightarrow> nat \<Rightarrow> nat \<Rightarrow> bytes \<Rightarrow> 'h net \<Rightarrow> (int + bytes) \<times> 'h net" where
  "net_resolve_mac h i family dst t =
     (case direct_mac t i family dst of
        Some mac \<Rightarrow> (Inr mac, t)
      | None \<Rightarrow>
          let hop = next_hop t i family dst in
          if net_zero hop (net_addr_bytes family) then (Inl K_ENETUNREACH, t)
          else case net_neighbor_find (ni_id (dinfo t i)) family hop True t of
            (None, t) \<Rightarrow> (Inl K_ENOSPC, t)
          | (Some k, t) \<Rightarrow>
              let e = n_neighbors t k; now = n_now t in
              if \<not> net_zero (nb_mac e) 6 \<and> nb_expires e > now then (Inr (zero_copy (nb_mac e) 6), t)
              else
                let t = neighbor_upd k (neighbor_reset now) t; e = n_neighbors t k in
                if nb_probes e \<ge> 3 then (Inl K_ENETUNREACH, t)
                else if nb_requested e = 0 \<or> now - nb_requested e \<ge> 1000 then
                  (case probe_neighbor h i family hop t of
                     (r, t) \<Rightarrow>
                       (Inl K_EAGAIN,
                        if r = 0 then neighbor_upd k (\<lambda>e. e\<lparr>nb_requested := nonzero_time now, nb_probes := nb_probes e + 1\<rparr>) t
                        else t))
                else (Inl K_EAGAIN, t))"

definition net_ip_send ::
  "'h nics \<Rightarrow> nat \<Rightarrow> nat \<Rightarrow> bytes \<Rightarrow> bytes \<Rightarrow> nat \<Rightarrow> bytes \<Rightarrow> nat \<Rightarrow> nat \<Rightarrow> 'h net \<Rightarrow> int \<times> 'h net" where
  "net_ip_send h i family src dst proto p n ttl t =
     (if i \<ge> n_devices_count t then (K_ENETUNREACH, t)
      else if ip_too_long t i family n then (K_EMSGSIZE, t)
      else case net_resolve_mac h i family dst t of
        (Inl e, t) \<Rightarrow> (e, t)
      | (Inr mac, t) \<Rightarrow> ip_emit h i family src dst proto p n ttl mac t)"

lemma solicited_node_multicast: "solicited_node target 0 = 255"
  by (simp add: solicited_node_def put_bytes_apply)

lemma nd_solicit_sends:
  "net_nd_solicit h i target dad t =
     (let dst = solicited_node target; src = (if dad then (\<lambda>_. 0) else zero_copy (ni_link_local6 (dinfo t i)) 16);
          p = put_bytes ((\<lambda>_. 0)(0 := 135)) 8 target 0 16;
          p = (if dad then p else put_bytes (p(24 := 1, 25 := 1)) 26 (ni_mac (dinfo t i)) 0 6);
          n = (if dad then 24 else 32); p = net_put16 p 2 (net_transport_sum 6 src dst 58 p n) in
      net_ip_send h (ni_id (dinfo t i)) 6 src dst 58 p n 255 t)"
proof -
  have "\<exists>mac. direct_mac t (ni_id (dinfo t i)) 6 (solicited_node target) = Some mac"
    by (simp add: direct_mac_def solicited_node_multicast)
  then show ?thesis by (auto simp: net_nd_solicit_def net_ip_send_def net_resolve_mac_def Let_def)
qed

end
