(* ===== verification/NetTcp.thy ===== *)
theory NetTcp
  imports NetIp
begin

unbundle bit_operations_syntax

text \<open>
  UDP and TCP of the network stack (\<open>drivers/net/networking.c\<close>). A socket is its index in the table; the
  functions that only look at a socket take its record.
\<close>

abbreviation (input) TCP_FIN :: u8 where "TCP_FIN \<equiv> 1"
abbreviation (input) TCP_SYN :: u8 where "TCP_SYN \<equiv> 2"
abbreviation (input) TCP_RST :: u8 where "TCP_RST \<equiv> 4"
abbreviation (input) TCP_PSH :: u8 where "TCP_PSH \<equiv> 8"
abbreviation (input) TCP_ACK :: u8 where "TCP_ACK \<equiv> 16"

section \<open>UDP\<close>

definition net_icmp_allow :: "nat \<Rightarrow> 'h net \<Rightarrow> bool \<times> 'h net" where
  "net_icmp_allow i t =
     (let now = n_now t;
          t = (if now - d_icmp_at (n_devices t i) \<ge> 1000 then dev_upd i (\<lambda>d. d\<lparr>d_icmp_at := now, d_icmp_budget := 20\<rparr>) t else t) in
      if d_icmp_budget (n_devices t i) = 0 then (False, t)
      else (True, dev_upd i (\<lambda>d. d\<lparr>d_icmp_budget := d_icmp_budget d - 1\<rparr>) t))"

definition quoted_header :: "nat \<Rightarrow> bytes \<Rightarrow> bytes \<Rightarrow> nat \<Rightarrow> bytes" where
  "quoted_header family src dst n =
     (if family = 4 then
        let q = (\<lambda>_. 0)(0 := 0x45); q = net_put16 q 2 (word_of_nat (20 + n)); q = q(8 := 64, 9 := 17);
            q = put_bytes q 12 src 0 4; q = put_bytes q 16 dst 0 4 in
        net_put16 q 10 (k_net_checksum q 20)
      else
        let q = (\<lambda>_. 0)(0 := 0x60); q = net_put16 q 4 (word_of_nat n); q = q(6 := 17, 7 := 64); q = put_bytes q 8 src 0 16 in
        put_bytes q 24 dst 0 16)"

definition net_udp_unreachable :: "'h nics \<Rightarrow> nat \<Rightarrow> nat \<Rightarrow> bytes \<Rightarrow> bytes \<Rightarrow> bytes \<Rightarrow> nat \<Rightarrow> 'h net \<Rightarrow> 'h net" where
  "net_udp_unreachable h i family src dst p n t =
     (if \<not> net_local t i family dst \<or> net_multicast family src \<or> net_zero src (net_addr_bytes family) \<or>
         (family = 4 \<and> net_broadcast4 t i src) then t
      else case net_icmp_allow i t of
        (False, t) \<Rightarrow> t
      | (True, t) \<Rightarrow>
          let head = (if family = 4 then 20 else 40); part = (if family = 4 then 8 else min n 1232); k = 8 + head + part;
              m = (\<lambda>_. 0)(0 := if family = 4 then 3 else 1, 1 := if family = 4 then 3 else 4);
              m = put_bytes m 8 (quoted_header family src dst n) 0 head; m = put_bytes m (8 + head) p 0 part;
              m = net_put16 m 2 (if family = 4 then k_net_checksum m k else net_transport_sum 6 dst src 58 m k) in
          snd (net_ip_send h (ni_id (dinfo t i)) family dst src (if family = 4 then 1 else 58) m k 64 t))"

definition udp_datagram :: "u16 \<Rightarrow> u16 \<Rightarrow> bytes \<Rightarrow> nat \<Rightarrow> bytes" where
  "udp_datagram sport dport data n =
     (let p = net_put16 (\<lambda>_. 0) 0 sport; p = net_put16 p 2 dport; p = net_put16 p 4 (word_of_nat (n + 8)) in
      put_bytes p 8 data 0 n)"

definition net_udp_output :: "'h nics \<Rightarrow> bool \<Rightarrow> net_socket \<Rightarrow> bytes \<Rightarrow> nat \<Rightarrow> k_net_address \<Rightarrow> 'h net \<Rightarrow> int \<times> 'h net" where
  "net_udp_output h privileged s data n to t =
     (case net_route t to (a_interface (so_local s)) of
        Inl e \<Rightarrow> (e, t)
      | Inr (i, src) \<Rightarrow>
          if n > sub32 (ni_mtu (dinfo t i)) (if so_family s = 4 then 28 else 48) \<or> n > 1472 then (K_EMSGSIZE, t)
          else if \<not> net_zero (a_bytes (so_local s)) (net_addr_bytes (so_family s)) \<and>
                  \<not> net_local t i (so_family s) (a_bytes (so_local s)) then (K_ENETUNREACH, t)
          else
            let src = (if net_zero (a_bytes (so_local s)) (net_addr_bytes (so_family s)) then src else a_bytes (so_local s));
                bare = so_family s = 4 \<and> ni_flags (dinfo t i) AND K_NET_READY4 = 0 in
            if bare \<and> \<not> privileged then (K_EPERM, t)
            else
              let src = (if bare then (\<lambda>_. 0) else src); p = udp_datagram (a_port (so_local s)) (a_port to) data n;
                  checksum = net_transport_sum (so_family s) src (a_bytes to) 17 p (n + 8);
                  p = net_put16 p 6 (if checksum \<noteq> 0 then checksum else 0xffff) in
              net_ip_send h i (so_family s) src (a_bytes to) 17 p (n + 8) 64 t)"

definition udp_receiver :: "nat \<Rightarrow> nat \<Rightarrow> bytes \<Rightarrow> bytes \<Rightarrow> bytes \<Rightarrow> net_socket \<Rightarrow> bool" where
  "udp_receiver family inst src dst p s \<longleftrightarrow>
     (let l = net_addr_bytes family in
      \<not> (\<not> so_used s \<or> so_detached s \<or> so_type s \<noteq> K_SOCK_UDP \<or> so_family s \<noteq> family \<or> a_port (so_local s) \<noteq> net_be16 p 2) \<and>
      \<not> (a_interface (so_local s) \<noteq> NET_NONE \<and> a_interface (so_local s) \<noteq> inst) \<and>
      \<not> (\<not> net_zero (a_bytes (so_local s)) l \<and> \<not> net_equal (a_bytes (so_local s)) dst l) \<and>
      \<not> (a_port (so_peer s) \<noteq> 0 \<and> (a_port (so_peer s) \<noteq> net_be16 p 0 \<or> \<not> net_equal (a_bytes (so_peer s)) src l)))"

definition queue_datagram :: "k_net_address \<Rightarrow> bytes \<Rightarrow> nat \<Rightarrow> net_socket \<Rightarrow> net_socket" where
  "queue_datagram from p n s =
     (let at = (so_q_head s + so_q_count s) mod NET_DGRAMS;
          q = (so_datagrams s at)\<lparr>dg_from := from, dg_length := n, dg_bytes := put_bytes (dg_bytes (so_datagrams s at)) 0 p 8 n\<rparr> in
      s\<lparr>so_datagrams := (so_datagrams s)(at := q), so_q_count := so_q_count s + 1\<rparr>)"

definition net_udp_input :: "'h nics \<Rightarrow> nat \<Rightarrow> nat \<Rightarrow> bytes \<Rightarrow> bytes \<Rightarrow> bytes \<Rightarrow> nat \<Rightarrow> 'h net \<Rightarrow> 'h net" where
  "net_udp_input h i family src dst p n t =
     (let len = unat (net_be16 p 4); checksum = net_be16 p 6; inst = ni_id (dinfo t i) in
      if n < 8 \<or> net_be16 p 2 = 0 \<or> len < 8 \<or> len > n then count_error i t
      else if (family = 6 \<and> checksum = 0) \<or> (checksum \<noteq> 0 \<and> net_transport_sum family src dst 17 p len \<noteq> 0) then count_error i t
      else if len - 8 > 1472 then count_drop i t
      else case find_from 0 K_NET_MAX_SOCKETS (\<lambda>k. udp_receiver family inst src dst p (n_sockets t k)) of
        None \<Rightarrow> count_drop i (net_udp_unreachable h i family src dst p len t)
      | Some k \<Rightarrow>
          if so_q_count (n_sockets t k) = NET_DGRAMS then count_drop i t
          else sock_upd k (queue_datagram
                 (zero_address\<lparr>a_family := family, a_interface := inst, a_port := net_be16 p 0, a_bytes := zero_copy src (net_addr_bytes family)\<rparr>)
                 p (len - 8)) t)"

section \<open>TCP segments\<close>

definition net_seq_before :: "u32 \<Rightarrow> u32 \<Rightarrow> bool" where
  "net_seq_before a b \<longleftrightarrow> sint (a - b) < 0"

definition tcp_header_bytes :: "u8 \<Rightarrow> nat" where
  "tcp_header_bytes flags = (if flags AND TCP_SYN \<noteq> 0 then 24 else 20)"

definition tcp_segment :: "net_socket \<Rightarrow> u32 \<Rightarrow> u8 \<Rightarrow> bytes \<Rightarrow> nat \<Rightarrow> bytes" where
  "tcp_segment s seq flags data n =
     (let k = tcp_header_bytes flags; p = net_put16 (\<lambda>_. 0) 0 (a_port (so_local s)); p = net_put16 p 2 (a_port (so_peer s));
          p = net_put32 p 4 seq; p = (if flags AND TCP_ACK \<noteq> 0 then net_put32 p 8 (so_rcv_nxt s) else p);
          p = p(12 := word_of_nat (k div 4 * 16), 13 := flags); p = net_put16 p 14 (word_of_nat (NET_STREAM - so_rx_count s));
          p = (if flags AND TCP_SYN \<noteq> 0 then net_put16 (p(20 := 2, 21 := 4)) 22 (word_of_nat (if so_family s = 6 then 1220 else NET_MSS)) else p);
          p = put_bytes p k data 0 n in
      net_put16 p 16 (net_transport_sum (so_family s) (a_bytes (so_local s)) (a_bytes (so_peer s)) 6 p (k + n)))"

definition net_tcp_packet :: "'h nics \<Rightarrow> net_socket \<Rightarrow> u32 \<Rightarrow> u8 \<Rightarrow> bytes \<Rightarrow> nat \<Rightarrow> 'h net \<Rightarrow> int \<times> 'h net" where
  "net_tcp_packet h s seq flags data n t =
     (let i = a_interface (so_local s); k = tcp_header_bytes flags in
      if i \<ge> n_devices_count t then (K_ENETUNREACH, t)
      else if n > sub32 (sub32 (ni_mtu (dinfo t i)) (if so_family s = 4 then 20 else 40)) k then (K_EMSGSIZE, t)
      else net_ip_send h i (so_family s) (a_bytes (so_local s)) (a_bytes (so_peer s)) 6 (tcp_segment s seq flags data n) (k + n) 64 t)"

definition error_socket :: "u64 \<Rightarrow> int \<Rightarrow> net_socket \<Rightarrow> net_socket" where
  "error_socket now e s =
     s\<lparr>so_state := NS_ERROR, so_error := e, so_deadline := now + 30000, so_used := so_used s \<and> \<not> so_detached s\<rparr>"

definition net_tcp_error :: "nat \<Rightarrow> int \<Rightarrow> 'h net \<Rightarrow> 'h net" where
  "net_tcp_error i e t = sock_upd i (error_socket (n_now t) e) t"

definition net_tcp_ack :: "'h nics \<Rightarrow> nat \<Rightarrow> 'h net \<Rightarrow> 'h net" where
  "net_tcp_ack h i t = snd (net_tcp_packet h (n_sockets t i) (so_snd_nxt (n_sockets t i)) TCP_ACK (\<lambda>_. 0) 0 t)"

function options_loop :: "bytes \<Rightarrow> nat \<Rightarrow> nat \<Rightarrow> nat \<Rightarrow> nat option" where
  "options_loop p k at mss =
     (if at \<ge> k \<or> p at = 0 then Some mss
      else if p at = 1 then options_loop p k (at + 1) mss
      else if k - at < 2 \<or> p (at + 1) < 2 \<or> unat (p (at + 1)) > k - at then None
      else if p at = 2 then
        if p (at + 1) \<noteq> 4 \<or> net_be16 p (at + 2) < 64 then None
        else options_loop p k (at + unat (p (at + 1))) (min mss (unat (net_be16 p (at + 2))))
      else options_loop p k (at + unat (p (at + 1))) mss)"
  by pat_completeness auto
termination
  by (relation "measure (\<lambda>(p, k, at, mss). k - at)") (auto simp: word_le_nat_alt word_less_nat_alt)

declare options_loop.simps [simp del]

definition net_tcp_options :: "bytes \<Rightarrow> nat \<Rightarrow> nat \<Rightarrow> nat option" where
  "net_tcp_options p k mss = options_loop p k 20 mss"

text \<open>The round-trip time of a segment that was sent once (Karn's rule), and the retransmission timeout.\<close>

definition rtt_sample :: "u64 \<Rightarrow> net_socket \<Rightarrow> nat" where
  "rtt_sample now s = max 1 (unat (min (now - so_sent_at s) 60000))"

definition rtt_update :: "nat \<Rightarrow> net_socket \<Rightarrow> net_socket" where
  "rtt_update sample s =
     (let diff = (if so_srtt s > sample then so_srtt s - sample else sample - so_srtt s);
          srtt = (if so_srtt s = 0 then sample else (7 * so_srtt s + sample) div 8);
          rttvar = (if so_srtt s = 0 then sample div 2 else (3 * so_rttvar s + diff) div 4) in
      s\<lparr>so_srtt := srtt, so_rttvar := rttvar, so_rto := max 1000 (min 60000 (srtt + 4 * rttvar))\<rparr>)"

definition net_tcp_rtt :: "u64 \<Rightarrow> net_socket \<Rightarrow> net_socket" where
  "net_tcp_rtt now s =
     (if \<not> so_retransmitted s \<and> so_sent_at s \<noteq> 0 then rtt_update (rtt_sample now s) s else s)
       \<lparr>so_retry := 0, so_retransmitted := False, so_sent_at := nonzero_time now\<rparr>"

section \<open>Sending\<close>

definition active_state :: "net_state \<Rightarrow> bool" where
  "active_state st \<longleftrightarrow>
     st \<in> {NS_SYN_SENT, NS_SYN_RCVD, NS_ESTABLISHED, NS_FIN_WAIT1, NS_FIN_WAIT2, NS_CLOSE_WAIT, NS_CLOSING, NS_LAST_ACK}"

definition syn_state :: "net_state \<Rightarrow> bool" where
  "syn_state st \<longleftrightarrow> st = NS_SYN_SENT \<or> st = NS_SYN_RCVD"

definition fin_state :: "net_state \<Rightarrow> bool" where
  "fin_state st \<longleftrightarrow> st = NS_FIN_WAIT1 \<or> st = NS_CLOSING \<or> st = NS_LAST_ACK"

definition clamp_mss :: "'h net \<Rightarrow> net_socket \<Rightarrow> net_socket" where
  "clamp_mss t s =
     (let i = a_interface (so_local s); limit = sub32 (ni_mtu (dinfo t i)) (if so_family s = 4 then 40 else 60) in
      if i < n_devices_count t \<and> so_mss s > limit then s\<lparr>so_mss := limit\<rparr> else s)"

definition back_off :: "u64 \<Rightarrow> net_socket \<Rightarrow> net_socket" where
  "back_off now s =
     (if so_sent_at s \<noteq> 0
      then s\<lparr>so_retry := so_retry s + 1, so_retransmitted := True, so_threshold := max (2 * so_mss s) (min (so_cwnd s div 2) NET_STREAM),
             so_cwnd := so_mss s, so_rto := min 60000 (so_rto s * 2)\<rparr>
      else s)\<lparr>so_sent_at := nonzero_time now\<rparr>"

definition count_retransmit :: "nat \<Rightarrow> 'h net \<Rightarrow> 'h net" where
  "count_retransmit i = info_upd i (\<lambda>n. n\<lparr>ni_tcp_retransmits := ni_tcp_retransmits n + 1\<rparr>)"

text \<open>The segment that is outstanding: the SYN, the FIN, or the first unacknowledged bytes.\<close>

definition resend :: "'h nics \<Rightarrow> net_socket \<Rightarrow> 'h net \<Rightarrow> int \<times> 'h net" where
  "resend h s t =
     (if syn_state (so_state s) then
        net_tcp_packet h s (so_iss s) (if so_state s = NS_SYN_RCVD then TCP_SYN OR TCP_ACK else TCP_SYN) (\<lambda>_. 0) 0 t
      else if fin_state (so_state s) then net_tcp_packet h s (so_fin_seq s) (TCP_FIN OR TCP_ACK) (\<lambda>_. 0) 0 t
      else net_tcp_packet h s (so_snd_una s) TCP_ACK (so_tx s) (min (so_mss s) (unat (so_snd_nxt s - so_snd_una s))) t)"

definition pump_resend :: "'h nics \<Rightarrow> nat \<Rightarrow> 'h net \<Rightarrow> bool \<times> 'h net" where
  "pump_resend h i t =
     (let s = n_sockets t i; now = n_now t; stop = syn_state (so_state s) \<or> fin_state (so_state s) in
      if stop \<or> (so_snd_nxt s \<noteq> so_snd_una s \<and> so_tx_count s \<noteq> 0) then
        if so_sent_at s = 0 \<or> now - so_sent_at s \<ge> word_of_nat (so_rto s) then
          if so_retry s \<ge> 8 then (True, net_tcp_error i K_ETIMEDOUT t)
          else (case resend h s t of
                  (e, t) \<Rightarrow>
                    if e = 0 then
                      (stop, sock_upd i (back_off now) (if so_sent_at s \<noteq> 0 then count_retransmit (a_interface (so_local s)) t else t))
                    else if e \<noteq> K_EAGAIN then (True, net_tcp_error i e t)
                    else (stop, t))
        else (stop, t)
      else (False, t))"

text \<open>\<open>pump_head\<close>: timeouts and retransmission; \<open>True\<close> when the function returns there.\<close>

definition pump_head :: "'h nics \<Rightarrow> nat \<Rightarrow> 'h net \<Rightarrow> bool \<times> 'h net" where
  "pump_head h i t =
     (let s = n_sockets t i; now = n_now t in
      if \<not> so_used s \<or> so_type s \<noteq> K_SOCK_TCP then (True, t)
      else if so_state s = NS_TIME_WAIT then
        (True, if now \<ge> so_deadline s then sock_upd i (\<lambda>s. s\<lparr>so_used := False\<rparr>) t else t)
      else if so_state s = NS_ERROR then (True, if so_detached s then sock_upd i (\<lambda>s. s\<lparr>so_used := False\<rparr>) t else t)
      else if so_state s = NS_FIN_WAIT2 \<and> now \<ge> so_deadline s then (True, net_tcp_error i K_ETIMEDOUT t)
      else if active_state (so_state s) \<and>
              (a_interface (so_local s) \<ge> n_devices_count t \<or>
               \<not> net_local t (a_interface (so_local s)) (so_family s) (a_bytes (so_local s))) then (True, net_tcp_error i K_ENETDOWN t)
      else pump_resend h i (sock_upd i (clamp_mss t) t))"

definition advance :: "u64 \<Rightarrow> nat \<Rightarrow> nat \<Rightarrow> net_socket \<Rightarrow> net_socket" where
  "advance now inflight n s =
     (if inflight = 0 then s\<lparr>so_sent_at := nonzero_time now, so_retransmitted := False\<rparr> else s)
       \<lparr>so_snd_nxt := so_snd_nxt s + word_of_nat n\<rparr>"

text \<open>
  New data, as far as the window allows. The loop of the source would not end for a socket with a segment size of zero;
  \<open>sock_ok\<close> (in \<open>NetInv\<close>) excludes that.
\<close>

function send_loop :: "'h nics \<Rightarrow> nat \<Rightarrow> nat \<Rightarrow> nat \<Rightarrow> 'h net \<Rightarrow> nat option \<times> 'h net" where
  "send_loop h i window inflight t =
     (let s = n_sockets t i in
      if inflight < so_tx_count s \<and> inflight < window \<and> so_mss s \<noteq> 0 then
        let n = min (so_mss s) (min (so_tx_count s - inflight) (window - inflight)) in
        case net_tcp_packet h s (so_snd_nxt s) (TCP_ACK OR TCP_PSH) (sub_array (so_tx s) inflight) n t of
          (e, t) \<Rightarrow>
            if e \<noteq> 0 then (None, if e \<noteq> K_EAGAIN then net_tcp_error i e t else t)
            else send_loop h i window (inflight + n) (sock_upd i (advance (n_now t) inflight n) t)
      else (Some inflight, t))"
  by pat_completeness auto
termination
  by (relation "measure (\<lambda>(h, i, window, inflight, t). window - inflight)") auto

declare send_loop.simps [simp del]

definition persist :: "'h nics \<Rightarrow> nat \<Rightarrow> nat \<Rightarrow> 'h net \<Rightarrow> 'h net" where
  "persist h i inflight t =
     (let s = n_sockets t i in
      if so_peer_window s = 0 \<and> so_tx_count s \<noteq> 0 \<and> inflight = 0 \<and> n_now t \<ge> so_persist_at s
      then sock_upd i (\<lambda>s. s\<lparr>so_persist_at := n_now t + 1000\<rparr>) (snd (net_tcp_packet h s (so_snd_una s - 1) TCP_ACK (\<lambda>_. 0) 0 t))
      else t)"

definition start_fin :: "net_socket \<Rightarrow> net_socket" where
  "start_fin s =
     s\<lparr>so_fin_seq := so_snd_nxt s, so_snd_nxt := so_snd_nxt s + 1, so_state := if so_peer_fin s then NS_LAST_ACK else NS_FIN_WAIT1,
       so_sent_at := 0, so_retry := 0\<rparr>"

definition pump_tail :: "'h nics \<Rightarrow> nat \<Rightarrow> 'h net \<Rightarrow> 'h net" where
  "pump_tail h i t =
     (let s = n_sockets t i in
      if so_state s \<noteq> NS_ESTABLISHED \<and> so_state s \<noteq> NS_CLOSE_WAIT then t
      else case send_loop h i (min (so_peer_window s) (so_cwnd s)) (unat (so_snd_nxt s - so_snd_una s)) t of
        (None, t) \<Rightarrow> t
      | (Some inflight, t) \<Rightarrow>
          let t = persist h i inflight t; s = n_sockets t i in
          if so_close_requested s \<and> so_tx_count s = 0 then snd (pump_head h i (sock_upd i start_fin t)) else t)"

text \<open>The source calls itself after \<open>start_fin\<close>; in a closing state it returns from \<open>pump_head\<close> (\<open>pump_head_fin\<close>).\<close>

definition net_tcp_pump :: "'h nics \<Rightarrow> nat \<Rightarrow> 'h net \<Rightarrow> 'h net" where
  "net_tcp_pump h i t = (case pump_head h i t of (True, t) \<Rightarrow> t | (False, t) \<Rightarrow> pump_tail h i t)"

section \<open>Receiving\<close>

fun tcp_lookup :: "'h net \<Rightarrow> (net_socket \<Rightarrow> bool) \<Rightarrow> (net_socket \<Rightarrow> bool) \<Rightarrow> nat list \<Rightarrow> nat option \<Rightarrow> nat option \<times> nat option" where
  "tcp_lookup t here there [] listener = (None, listener)"
| "tcp_lookup t here there (k # ks) listener =
     (let x = n_sockets t k in
      if \<not> here x then tcp_lookup t here there ks listener
      else if so_state x = NS_LISTEN \<and> \<not> so_detached x then tcp_lookup t here there ks (Some k)
      else if there x then (Some k, listener)
      else tcp_lookup t here there ks listener)"

definition tcp_here :: "nat \<Rightarrow> nat \<Rightarrow> bytes \<Rightarrow> bytes \<Rightarrow> net_socket \<Rightarrow> bool" where
  "tcp_here family inst dst p x \<longleftrightarrow>
     (let l = net_addr_bytes family in
      \<not> (\<not> so_used x \<or> so_type x \<noteq> K_SOCK_TCP \<or> so_family x \<noteq> family \<or> a_port (so_local x) \<noteq> net_be16 p 2) \<and>
      \<not> (a_interface (so_local x) \<noteq> NET_NONE \<and> a_interface (so_local x) \<noteq> inst) \<and>
      \<not> (\<not> net_zero (a_bytes (so_local x)) l \<and> \<not> net_equal (a_bytes (so_local x)) dst l))"

definition tcp_there :: "nat \<Rightarrow> bytes \<Rightarrow> bytes \<Rightarrow> net_socket \<Rightarrow> bool" where
  "tcp_there family src p x \<longleftrightarrow>
     a_port (so_peer x) = net_be16 p 0 \<and> net_equal (a_bytes (so_peer x)) src (net_addr_bytes family)"

definition tcp_find :: "'h net \<Rightarrow> nat \<Rightarrow> nat \<Rightarrow> bytes \<Rightarrow> bytes \<Rightarrow> bytes \<Rightarrow> nat option \<times> nat option" where
  "tcp_find t family inst src dst p =
     tcp_lookup t (tcp_here family inst dst p) (tcp_there family src p) [0..<K_NET_MAX_SOCKETS] None"

definition default_mss :: "nat \<Rightarrow> nat" where
  "default_mss family = (if family = 6 then 1220 else NET_MSS)"

definition waiting_children :: "'h net \<Rightarrow> nat \<Rightarrow> nat" where
  "waiting_children t inst = length (filter (\<lambda>k. so_used (n_sockets t k) \<and> so_parent (n_sockets t k) = inst) [0..<K_NET_MAX_SOCKETS])"

text \<open>The new half-open connection.\<close>

definition child_socket :: "nat \<Rightarrow> nat \<Rightarrow> nat \<Rightarrow> bytes \<Rightarrow> bytes \<Rightarrow> bytes \<Rightarrow> u32 \<Rightarrow> nat \<Rightarrow> net_socket \<Rightarrow> net_socket" where
  "child_socket family inst parent src dst p iss mss s =
     (let l = net_addr_bytes family in
      s\<lparr>so_parent := parent, so_state := NS_SYN_RCVD,
        so_local := (so_local s)\<lparr>a_interface := inst, a_port := net_be16 p 2, a_bytes := put_bytes (a_bytes (so_local s)) 0 dst 0 l\<rparr>,
        so_peer := (so_peer s)\<lparr>a_interface := inst, a_port := net_be16 p 0, a_bytes := put_bytes (a_bytes (so_peer s)) 0 src 0 l\<rparr>,
        so_iss := iss, so_snd_una := iss, so_snd_nxt := iss + 1, so_rcv_nxt := net_be32 p 4 + 1, so_mss := mss, so_cwnd := mss * 2,
        so_peer_window := unat (net_be16 p 14)\<rparr>)"

definition tcp_open :: "'h nics \<Rightarrow> nat \<Rightarrow> nat \<Rightarrow> bytes \<Rightarrow> bytes \<Rightarrow> bytes \<Rightarrow> nat \<Rightarrow> nat \<Rightarrow> 'h net \<Rightarrow> 'h net" where
  "tcp_open h i family src dst p k listener t =
     (let x = n_sockets t listener in
      if waiting_children t (so_id x) \<ge> so_backlog x then count_drop i t
      else case net_tcp_options p k (default_mss family) of
        None \<Rightarrow> count_error i t
      | Some mss \<Rightarrow>
          (case net_socket_new family K_SOCK_TCP (so_owner x) t of
             (None, t) \<Rightarrow> count_drop i t
           | (Some j, t) \<Rightarrow>
               (case net_random t of
                  (iss, t) \<Rightarrow>
                    net_tcp_pump h j (sock_upd j (child_socket family (ni_id (dinfo t i)) (so_id x) src dst p iss mss) t))))"

definition tcp_refuse :: "'h nics \<Rightarrow> nat \<Rightarrow> nat \<Rightarrow> bytes \<Rightarrow> bytes \<Rightarrow> bytes \<Rightarrow> nat \<Rightarrow> 'h net \<Rightarrow> 'h net" where
  "tcp_refuse h i family src dst p len t =
     (let flags = p 13; l = net_addr_bytes family in
      if flags AND TCP_RST \<noteq> 0 then t
      else case net_icmp_allow i t of
        (False, t) \<Rightarrow> t
      | (True, t) \<Rightarrow>
          let temp = zero_socket\<lparr>so_family := family,
                so_local := zero_address\<lparr>a_interface := ni_id (dinfo t i), a_port := net_be16 p 2, a_bytes := zero_copy dst l\<rparr>,
                so_peer := zero_address\<lparr>a_port := net_be16 p 0, a_bytes := zero_copy src l\<rparr>,
                so_rcv_nxt := net_be32 p 4 + word_of_nat (len + (if flags AND TCP_SYN \<noteq> 0 then 1 else 0) + (if flags AND TCP_FIN \<noteq> 0 then 1 else 0))\<rparr> in
          snd (net_tcp_packet h temp (if flags AND TCP_ACK \<noteq> 0 then net_be32 p 8 else 0)
                 (if flags AND TCP_ACK \<noteq> 0 then TCP_RST else TCP_RST OR TCP_ACK) (\<lambda>_. 0) 0 t))"

text \<open>The answer to an own SYN.\<close>

definition tcp_connect_reply :: "'h nics \<Rightarrow> nat \<Rightarrow> nat \<Rightarrow> bytes \<Rightarrow> nat \<Rightarrow> 'h net \<Rightarrow> 'h net" where
  "tcp_connect_reply h j family p k t =
     (let s = n_sockets t j; flags = p 13; ack = net_be32 p 8 in
      if flags AND TCP_RST \<noteq> 0 then
        if flags AND TCP_ACK \<noteq> 0 \<and> ack = so_snd_nxt s then net_tcp_error j K_ECONNREFUSED t else t
      else if flags AND (TCP_SYN OR TCP_ACK) \<noteq> TCP_SYN OR TCP_ACK \<or> ack \<noteq> so_snd_nxt s then t
      else case net_tcp_options p k (default_mss family) of
        None \<Rightarrow> t
      | Some mss \<Rightarrow>
          net_tcp_ack h j (sock_upd j (\<lambda>s. (net_tcp_rtt (n_now t) (s\<lparr>so_mss := mss, so_cwnd := mss * 2,
            so_peer_window := unat (net_be16 p 14), so_snd_una := ack, so_rcv_nxt := net_be32 p 4 + 1,
            so_state := NS_ESTABLISHED\<rparr>))\<lparr>so_sent_at := 0\<rparr>) t))"

definition acceptable :: "net_socket \<Rightarrow> u32 \<Rightarrow> nat \<Rightarrow> bool" where
  "acceptable s seq seglen =
     (let window = NET_STREAM - so_rx_count s; last = seq + word_of_nat seglen - 1; nxt = so_rcv_nxt s;
          inside = (\<lambda>x. \<not> net_seq_before x nxt \<and> net_seq_before x (nxt + word_of_nat window)) in
      if window \<noteq> 0 then if seglen \<noteq> 0 then inside seq \<or> inside last else inside seq
      else seglen = 0 \<and> seq = nxt)"

definition shift_tx :: "nat \<Rightarrow> net_socket \<Rightarrow> net_socket" where
  "shift_tx n s =
     s\<lparr>so_tx := (\<lambda>i. if i + n < so_tx_count s then so_tx s (i + n) else so_tx s i), so_tx_count := so_tx_count s - n\<rparr>"

definition grow_window :: "nat \<Rightarrow> net_socket \<Rightarrow> net_socket" where
  "grow_window n s =
     s\<lparr>so_cwnd := min NET_STREAM (if so_cwnd s < so_threshold s then so_cwnd s + min n (so_mss s)
                                  else so_cwnd s + max 1 (so_mss s * so_mss s div so_cwnd s))\<rparr>"

definition ack_data :: "u64 \<Rightarrow> u32 \<Rightarrow> net_socket \<Rightarrow> net_socket" where
  "ack_data now ack s =
     (let n = unat (ack - so_snd_una s); s = net_tcp_rtt now ((shift_tx n s)\<lparr>so_snd_una := ack\<rparr>); s = (grow_window n s)\<lparr>so_dupacks := 0\<rparr> in
      if so_snd_nxt s = so_snd_una s then s\<lparr>so_sent_at := 0\<rparr> else s)"

definition ack_fin :: "u64 \<Rightarrow> u32 \<Rightarrow> net_socket \<Rightarrow> net_socket" where
  "ack_fin now ack s =
     (let s = s\<lparr>so_snd_una := ack, so_sent_at := 0\<rparr> in
      if so_state s = NS_LAST_ACK then s\<lparr>so_used := False\<rparr>
      else if so_state s = NS_CLOSING then s\<lparr>so_state := NS_TIME_WAIT, so_deadline := now + 120000\<rparr>
      else s\<lparr>so_state := NS_FIN_WAIT2, so_deadline := now + 60000\<rparr>)"

definition duplicate_ack :: "'h nics \<Rightarrow> nat \<Rightarrow> nat \<Rightarrow> 'h net \<Rightarrow> 'h net" where
  "duplicate_ack h i j t =
     (let t = sock_upd j (\<lambda>s. s\<lparr>so_dupacks := so_dupacks s + 1\<rparr>) t in
      if so_dupacks (n_sockets t j) \<noteq> 3 then t
      else
        let t = sock_upd j (\<lambda>s. s\<lparr>so_threshold := max (2 * so_mss s) (so_cwnd s div 2), so_cwnd := so_mss s,
                  so_retransmitted := True, so_sent_at := n_now t\<rparr>) t;
            s = n_sockets t j in
        count_retransmit i
          (snd (net_tcp_packet h s (so_snd_una s) TCP_ACK (so_tx s) (min (so_mss s) (unat (so_snd_nxt s - so_snd_una s))) t)))"

text \<open>The acknowledgement of a segment; \<open>True\<close> when the segment is dropped or the socket is gone.\<close>

definition tcp_acknowledge :: "'h nics \<Rightarrow> nat \<Rightarrow> nat \<Rightarrow> bytes \<Rightarrow> nat \<Rightarrow> 'h net \<Rightarrow> bool \<times> 'h net" where
  "tcp_acknowledge h i j p len t =
     (let s = n_sockets t j; seq = net_be32 p 4; ack = net_be32 p 8; now = n_now t in
      if so_state s = NS_SYN_RCVD then
        if ack \<noteq> so_snd_nxt s \<or> seq \<noteq> so_rcv_nxt s then (True, t)
        else (False, sock_upd j (\<lambda>s. (net_tcp_rtt now (s\<lparr>so_snd_una := ack, so_state := NS_ESTABLISHED\<rparr>))\<lparr>so_sent_at := 0\<rparr>) t)
      else if net_seq_before (so_snd_una s) ack then
        if fin_state (so_state s) then
          if ack \<noteq> so_fin_seq s + 1 then (True, t)
          else (so_state s = NS_LAST_ACK, sock_upd j (ack_fin now ack) t)
        else if unat (ack - so_snd_una s) > so_tx_count s then (True, t)
        else (False, sock_upd j (ack_data now ack) t)
      else if ack = so_snd_una s \<and> so_tx_count s \<noteq> 0 \<and> so_snd_nxt s \<noteq> so_snd_una s \<and> len = 0 \<and>
              so_peer_window s = unat (net_be16 p 14) then (False, duplicate_ack h i j t)
      else (False, t))"

definition put_ring :: "bytes \<Rightarrow> nat \<Rightarrow> bytes \<Rightarrow> nat \<Rightarrow> nat \<Rightarrow> bytes" where
  "put_ring rx at p off n = fold (\<lambda>i rx. rx((at + i) mod NET_STREAM := p (off + i))) [0..<n] rx"

definition take_data :: "bytes \<Rightarrow> nat \<Rightarrow> nat \<Rightarrow> net_socket \<Rightarrow> net_socket" where
  "take_data p off n s =
     s\<lparr>so_rx := put_ring (so_rx s) (so_rx_head s + so_rx_count s) p off n, so_rx_count := so_rx_count s + n,
       so_rcv_nxt := so_rcv_nxt s + word_of_nat n\<rparr>"

definition take_fin :: "u64 \<Rightarrow> net_socket \<Rightarrow> net_socket" where
  "take_fin now s =
     (let s = s\<lparr>so_peer_fin := True, so_rcv_nxt := so_rcv_nxt s + 1\<rparr> in
      if so_state s = NS_ESTABLISHED then s\<lparr>so_state := NS_CLOSE_WAIT\<rparr>
      else if so_state s = NS_FIN_WAIT1 then s\<lparr>so_state := NS_CLOSING\<rparr>
      else if so_state s = NS_FIN_WAIT2 then s\<lparr>so_state := NS_TIME_WAIT, so_deadline := now + 120000\<rparr>
      else s)"

definition tcp_receive :: "u64 \<Rightarrow> bytes \<Rightarrow> nat \<Rightarrow> nat \<Rightarrow> net_socket \<Rightarrow> net_socket" where
  "tcp_receive now p off len s =
     (let n = min len (NET_STREAM - so_rx_count s); s = take_data p off n s in
      if p 13 AND TCP_FIN \<noteq> 0 \<and> n = len \<and> \<not> so_peer_fin s then take_fin now s else s)"

definition tcp_data :: "'h nics \<Rightarrow> nat \<Rightarrow> bytes \<Rightarrow> nat \<Rightarrow> nat \<Rightarrow> 'h net \<Rightarrow> 'h net" where
  "tcp_data h j p k len t =
     (let t = sock_upd j (\<lambda>s. s\<lparr>so_peer_window := unat (net_be16 p 14)\<rparr>) t; s = n_sockets t j; seq = net_be32 p 4;
          trim = (if net_seq_before seq (so_rcv_nxt s) then min (unat (so_rcv_nxt s - seq)) len else 0) in
      if so_peer_fin s \<and> len \<noteq> 0 then net_tcp_ack h j t
      else if len \<noteq> 0 \<or> p 13 AND TCP_FIN \<noteq> 0 then
        if seq + word_of_nat trim \<noteq> so_rcv_nxt s then net_tcp_ack h j t
        else net_tcp_pump h j (net_tcp_ack h j (sock_upd j (tcp_receive (n_now t) p (k + trim) (len - trim)) t))
      else net_tcp_pump h j t)"

definition ack_if_allowed :: "'h nics \<Rightarrow> nat \<Rightarrow> nat \<Rightarrow> 'h net \<Rightarrow> 'h net" where
  "ack_if_allowed h i j t = (case net_icmp_allow i t of (True, t) \<Rightarrow> net_tcp_ack h j t | (False, t) \<Rightarrow> t)"

text \<open>A segment for a connection that is synchronized.\<close>

definition tcp_synchronized :: "'h nics \<Rightarrow> nat \<Rightarrow> nat \<Rightarrow> bytes \<Rightarrow> nat \<Rightarrow> nat \<Rightarrow> 'h net \<Rightarrow> 'h net" where
  "tcp_synchronized h i j p k len t =
     (let s = n_sockets t j; flags = p 13; seq = net_be32 p 4; ack = net_be32 p 8;
          seglen = len + (if flags AND TCP_FIN \<noteq> 0 then 1 else 0) + (if flags AND TCP_SYN \<noteq> 0 then 1 else 0) in
      if \<not> acceptable s seq seglen then if flags AND TCP_RST = 0 then net_tcp_ack h j t else t
      else if flags AND TCP_RST \<noteq> 0 then if seq = so_rcv_nxt s then net_tcp_error j K_ECONNRESET t else ack_if_allowed h i j t
      else if flags AND TCP_SYN \<noteq> 0 then ack_if_allowed h i j t
      else if flags AND TCP_ACK = 0 then t
      else if net_seq_before (so_snd_nxt s) ack then net_tcp_ack h j t
      else case tcp_acknowledge h i j p len t of (True, t) \<Rightarrow> t | (False, t) \<Rightarrow> tcp_data h j p k len t)"

definition tcp_socket_input :: "'h nics \<Rightarrow> nat \<Rightarrow> nat \<Rightarrow> nat \<Rightarrow> bytes \<Rightarrow> nat \<Rightarrow> nat \<Rightarrow> 'h net \<Rightarrow> 'h net" where
  "tcp_socket_input h i j family p k len t =
     (let t = sock_upd j (\<lambda>s. s\<lparr>so_activity := n_now t\<rparr>) t; s = n_sockets t j; flags = p 13 in
      if so_state s = NS_SYN_SENT then tcp_connect_reply h j family p k t
      else if so_state s = NS_TIME_WAIT then
        if flags AND TCP_FIN \<noteq> 0 then sock_upd j (\<lambda>s. s\<lparr>so_deadline := n_now t + 120000\<rparr>) (net_tcp_ack h j t) else t
      else if so_state s = NS_ERROR then t
      else if so_state s = NS_SYN_RCVD \<and> flags AND TCP_SYN \<noteq> 0 \<and> net_be32 p 4 + 1 = so_rcv_nxt s then
        net_tcp_pump h j (sock_upd j (\<lambda>s. s\<lparr>so_sent_at := 0\<rparr>) t)
      else tcp_synchronized h i j p k len t)"

definition net_tcp_input :: "'h nics \<Rightarrow> nat \<Rightarrow> nat \<Rightarrow> bytes \<Rightarrow> bytes \<Rightarrow> bytes \<Rightarrow> nat \<Rightarrow> 'h net \<Rightarrow> 'h net" where
  "net_tcp_input h i family src dst p n t =
     (let k = unat (drop_bit 4 (p 12)) * 4; flags = p 13 in
      if n < 20 \<or> \<not> net_local t i family dst \<or> net_multicast family src \<or> net_zero src (net_addr_bytes family) \<or>
         net_be16 p 0 = 0 \<or> net_be16 p 2 = 0 \<or> net_transport_sum family src dst 6 p n \<noteq> 0 then count_error i t
      else if k < 20 \<or> k > n \<or> p 12 AND 15 \<noteq> 0 then count_error i t
      else if flags AND 0x20 \<noteq> 0 then count_drop i t
      else case tcp_find t family (ni_id (dinfo t i)) src dst p of
        (Some j, _) \<Rightarrow> tcp_socket_input h i j family p k (n - k) t
      | (None, Some l) \<Rightarrow>
          if flags AND (TCP_SYN OR TCP_ACK OR TCP_RST OR TCP_FIN) = TCP_SYN then tcp_open h i family src dst p k l t
          else tcp_refuse h i family src dst p (n - k) t
      | (None, None) \<Rightarrow> tcp_refuse h i family src dst p (n - k) t)"

end
