(* ===== verification/NetSum.thy ===== *)
theory NetSum
  imports NetTcp
begin

unbundle bit_operations_syntax

text \<open>
  Checksums of the network stack: a header or segment that carries the checksum the sender computed
  passes the test of the receiver. One's complement sums are sums modulo \<open>65535\<close> in which zero appears only for the empty sum.
\<close>

section \<open>Words in wire order\<close>

lemma be16_put16 [simp]: "net_be16 (net_put16 b p x) p = x"
  by (rule bit_word_eqI) (auto simp: net_be16_def net_put16_def bit_simps)

lemma be16_put16_other: "q + 1 < p \<or> p + 1 < q \<Longrightarrow> net_be16 (net_put16 b p x) q = net_be16 b q"
  by (auto simp: net_be16_def net_put16_def)

section \<open>Sums\<close>

text \<open>The sum without a bound on its width.\<close>

function wsum :: "bytes \<Rightarrow> nat \<Rightarrow> nat \<Rightarrow> nat" where
  "wsum b p n =
     (if n > 1 then unat (net_be16 b p) + wsum b (p + 2) (n - 2) else if n = 1 then 256 * unat (b p) else 0)"
  by pat_completeness auto
termination
  by (relation "measure (\<lambda>(b, p, n). n)") auto

declare wsum.simps [simp del]

lemma wsum_bound: "wsum b p n \<le> 65535 * ((n + 1) div 2)"
proof (induction b p n rule: wsum.induct)
  case (1 b p n)
  consider "n > 1" | "n = 1" | "n = 0" by linarith
  then show ?case
  proof cases
    case 1
    then have "(n + 1) div 2 = Suc ((n - 2 + 1) div 2)" by auto
    moreover have "unat (net_be16 b p) \<le> 65535" using unsigned_less[of "net_be16 b p", where ?'a = nat] by simp
    ultimately show ?thesis using 1 "1.IH" by (subst wsum.simps) simp
  next
    case 2
    then show ?thesis using unsigned_less[of "b p", where ?'a = nat] by (subst wsum.simps) simp
  qed (simp add: wsum.simps)
qed

lemma net_sum_wsum: "unat acc + wsum b p n < 2 ^ 32 \<Longrightarrow> unat (net_sum acc b p n) = unat acc + wsum b p n"
proof (induction b p n arbitrary: acc rule: wsum.induct)
  case (1 b p n)
  consider (l) "n > 1" | (o) "n = 1" | (z) "n = 0" by linarith
  then show ?case
  proof cases
    case l
    let ?w = "ucast (net_be16 b p) :: u32"
    have w: "unat ?w = unat (net_be16 b p)"
      using unsigned_less[of "net_be16 b p", where ?'a = nat] by (simp add: unsigned_ucast_eq take_bit_eq_mod)
    have s: "wsum b p n = unat (net_be16 b p) + wsum b (p + 2) (n - 2)" using l by (subst wsum.simps) simp
    have a: "unat (acc + ?w) = unat acc + unat (net_be16 b p)"
      using "1.prems" unfolding s by (subst unat_word_ariths(1)) (simp add: w)
    show ?thesis using "1.IH"[OF l, of "acc + ?w"] "1.prems" l unfolding s by (subst net_sum.simps) (simp add: a)
  next
    case o
    let ?w = "push_bit 8 (ucast (b p)) :: u32"
    have x: "unat (b p) < 256" using unsigned_less[of "b p", where ?'a = nat] by simp
    have u: "unat (ucast (b p) :: u32) = unat (b p)" using x by (simp add: unsigned_ucast_eq take_bit_eq_mod)
    have w: "unat ?w = 256 * unat (b p)"
      by (subst unsigned_push_bit_eq) (use x in \<open>simp add: u take_bit_eq_mod push_bit_eq_mult\<close>)
    have s: "wsum b p n = 256 * unat (b p)" using o by (subst wsum.simps) simp
    have e: "net_sum acc b p n = acc + ?w" using o by (subst net_sum.simps) simp
    show ?thesis using "1.prems" unfolding s e by (subst unat_word_ariths(1)) (simp add: w)
  next
    case z
    then show ?thesis by (simp add: net_sum.simps wsum.simps)
  qed
qed

text \<open>The folded sum: zero only for zero, else the representative in \<open>1 \<dots> 65535\<close>.\<close>

definition folded :: "nat \<Rightarrow> nat" where
  "folded x = (if x = 0 then 0 else (x - 1) mod 65535 + 1)"

lemma folded_bound: "folded x \<le> 65535"
proof -
  have "(x - 1) mod 65535 < 65535" by (rule mod_less_divisor) simp
  then have "(x - 1) mod 65535 + 1 \<le> 65535" by linarith
  then show ?thesis by (simp add: folded_def del: One_nat_def)
qed

lemma folded_mod: "folded x mod 65535 = x mod 65535"
proof (cases "x = 0")
  case False
  then have "(x - 1 + 1) mod 65535 = ((x - 1) mod 65535 + 1) mod 65535" by (metis mod_add_left_eq)
  then show ?thesis using False by (simp add: folded_def)
qed (simp add: folded_def)

lemma folded_small: "x \<le> 65535 \<Longrightarrow> folded x = x"
  by (auto simp: folded_def)

lemma folded_eqI: "x mod 65535 = y mod 65535 \<Longrightarrow> 0 < x \<Longrightarrow> 0 < y \<Longrightarrow> folded x = folded y"
proof -
  assume a: "x mod 65535 = y mod 65535" "0 < x" "0 < y"
  have m: "(z - 1) mod 65535 = (z + 65534) mod 65535" if "0 < z" for z :: nat
  proof -
    have "z + 65534 = z - 1 + 65535" using that by simp
    then show ?thesis by (simp only: mod_add_self2)
  qed
  have "(x + 65534) mod 65535 = (y + 65534) mod 65535" using a(1) by (intro mod_add_cong) simp_all
  then show ?thesis using a by (simp add: folded_def m del: One_nat_def)
qed

lemma folded_step: "65536 \<le> x \<Longrightarrow> folded (x mod 65536 + x div 65536) = folded x"
proof (rule folded_eqI)
  assume x: "65536 \<le> x"
  have "x = 65536 * (x div 65536) + x mod 65536" by simp
  then have "x = 65535 * (x div 65536) + (x mod 65536 + x div 65536)" by linarith
  then have "x mod 65535 = (65535 * (x div 65536) + (x mod 65536 + x div 65536)) mod 65535" by (rule arg_cong)
  then show "(x mod 65536 + x div 65536) mod 65535 = x mod 65535" by (simp only: mod_mult_self4)
  show "0 < x mod 65536 + x div 65536" "0 < x" using x by auto
qed

lemma net_finish_folded: "unat (net_finish x) = 65535 - folded (unat x)"
proof (induction x rule: net_finish.induct)
  case (1 x)
  have d: "drop_bit 16 x = 0 \<longleftrightarrow> unat x < 65536"
  proof -
    have "unat (drop_bit 16 x) = drop_bit 16 (take_bit LENGTH(32) (unat x))" by (rule unsigned_drop_bit_eq)
    then have "unat (drop_bit 16 x) = unat x div 65536"
      using unsigned_less[of x, where ?'a = nat] by (simp add: drop_bit_eq_div take_bit_eq_mod)
    then show ?thesis by (simp add: unat_eq_zero[symmetric] div_eq_0_iff)
  qed
  show ?case
  proof (cases "drop_bit 16 x = 0")
    case True
    have u: "unat (ucast x :: u16) = unat x" using True d by (simp add: unsigned_ucast_eq take_bit_eq_mod)
    have "unat (NOT (ucast x :: u16)) = 65535 - unat (ucast x :: u16)"
    proof -
      have "NOT (ucast x :: u16) = - 1 - ucast x" by (simp add: not_eq_complement)
      then have "unat (NOT (ucast x :: u16)) = unat (- 1 :: u16) - unat (ucast x :: u16)" by (simp add: unat_sub)
      moreover have "unat (- 1 :: u16) = 65535"
        using unsigned_minus_1_eq_mask[where ?'a = nat and ?'b = 16] by (simp add: mask_eq_exp_minus_1)
      ultimately show ?thesis by simp
    qed
    then show ?thesis using True d by (subst net_finish.simps) (simp add: u folded_small)
  next
    case False
    then have "unat ((x AND 65535) + drop_bit 16 x) = unat x mod 65536 + unat x div 65536" by (rule fold_word_less)
    then show ?thesis using False d 1 by (subst net_finish.simps) (simp add: folded_step)
  qed
qed

text \<open>Adding the checksum of a sum to it makes the sum pass.\<close>

lemma checksum_completes:
  assumes "unat y = unat x + unat (net_finish x)"
  shows "net_finish y = 0"
proof -
  let ?f = "folded (unat x)"
  have f: "?f \<le> 65535" by (rule folded_bound)
  have y: "unat y = unat x + (65535 - ?f)" using assms by (simp add: net_finish_folded)
  have "folded (unat y) = folded 65535"
  proof (rule folded_eqI)
    have "(unat x + (65535 - ?f)) mod 65535 = (?f + (65535 - ?f)) mod 65535"
      by (rule mod_add_cong) (simp_all add: folded_mod)
    then show "unat y mod 65535 = 65535 mod 65535" using f y by simp
    show "0 < unat y" using f unfolding y by (cases "unat x = 0") (auto simp: folded_def)
  qed simp
  then have "unat (net_finish y) = 0" by (simp add: net_finish_folded folded_small)
  then show ?thesis by (simp add: unat_eq_zero)
qed

section \<open>A checksum in its place\<close>

lemma wsum_cong: "(\<And>j. p \<le> j \<Longrightarrow> j < p + n \<Longrightarrow> a j = b j) \<Longrightarrow> wsum a p n = wsum b p n"
proof (induction a p n rule: wsum.induct)
  case (1 a p n)
  consider (l) "n > 1" | (o) "n = 1" | (z) "n = 0" by linarith
  then show ?case
  proof cases
    case l
    have "net_be16 a p = net_be16 b p" using l "1.prems" by (simp add: net_be16_def)
    moreover have "wsum a (p + 2) (n - 2) = wsum b (p + 2) (n - 2)" using l "1.prems" by (intro "1.IH") auto
    ultimately show ?thesis using l by (subst (1 2) wsum.simps) simp
  qed (use "1.prems" in \<open>simp_all add: wsum.simps\<close>)
qed

lemma wsum_put16:
  assumes "c mod 2 = p mod 2" "p \<le> c" "c + 1 < p + n" "net_be16 b c = 0"
  shows "wsum (net_put16 b c x) p n = wsum b p n + unat x"
  using assms
proof (induction b p n rule: wsum.induct)
  case (1 b p n)
  have n: "n > 1" using "1.prems" by linarith
  show ?case
  proof (cases "c = p")
    case True
    have "wsum (net_put16 b c x) (p + 2) (n - 2) = wsum b (p + 2) (n - 2)"
      by (rule wsum_cong) (auto simp: net_put16_def True)
    then show ?thesis using n True "1.prems" by (subst (1 2) wsum.simps) simp
  next
    case False
    then have c: "p + 2 \<le> c" using "1.prems"(1,2) by presburger
    have "wsum (net_put16 b c x) (p + 2) (n - 2) = wsum b (p + 2) (n - 2) + unat x"
      using n c "1.prems" by (intro "1.IH") auto
    moreover have "net_be16 (net_put16 b c x) p = net_be16 b p" using c by (simp add: be16_put16_other)
    ultimately show ?thesis using n by (subst (1 2) wsum.simps) simp
  qed
qed

lemma net_finish_zero_carry:
  assumes "unat acc + wsum b 0 n + 65535 < 2 ^ 32" "c mod 2 = 0" "c + 1 < n" "net_be16 b c = 0"
  shows "net_finish (net_sum acc (net_put16 b c (net_finish (net_sum acc b 0 n))) 0 n) = 0"
proof (rule checksum_completes)
  let ?x = "net_finish (net_sum acc b 0 n)"
  have w: "wsum (net_put16 b c ?x) 0 n = wsum b 0 n + unat ?x" using assms by (intro wsum_put16) auto
  have "unat ?x < 65536" using unsigned_less[of ?x, where ?'a = nat] by simp
  then have "unat (net_sum acc (net_put16 b c ?x) 0 n) = unat acc + (wsum b 0 n + unat ?x)"
    using assms(1) by (subst net_sum_wsum) (simp_all add: w)
  moreover have "unat (net_sum acc b 0 n) = unat acc + wsum b 0 n" using assms(1) by (intro net_sum_wsum) simp
  ultimately show "unat (net_sum acc (net_put16 b c ?x) 0 n) = unat (net_sum acc b 0 n) + unat ?x" by simp
qed

lemma checksum_header: "c mod 2 = 0 \<Longrightarrow> c + 1 < n \<Longrightarrow> n \<le> 65536 \<Longrightarrow> net_be16 b c = 0 \<Longrightarrow>
    k_net_checksum (net_put16 b c (k_net_checksum b n)) n = 0"
  unfolding k_net_checksum_def using wsum_bound[of b 0 n] by (intro net_finish_zero_carry) auto

text \<open>The sum over the pseudo header, which does not depend on the segment.\<close>

lemma transport_acc:
  assumes "n \<le> 65536" "proto \<le> 255"
  obtains acc where "unat acc + wsum b 0 n + 65535 < 2 ^ 32"
    "\<And>p. net_transport_sum family src dst proto p n = net_finish (net_sum acc p 0 n)"
proof -
  let ?l = "net_addr_bytes family"
  let ?acc = "net_sum (net_sum 0 src 0 ?l) dst 0 ?l + word_of_nat (proto + n mod 65536 + n div 65536)"
  have l: "?l \<le> 16" by (simp add: net_addr_bytes_def)
  have w: "wsum a 0 ?l \<le> 65535 * 8" for a
  proof -
    have "wsum a 0 ?l \<le> 65535 * ((?l + 1) div 2)" by (rule wsum_bound)
    also have "\<dots> \<le> 65535 * 8" using l by (intro mult_le_mono2) linarith
    finally show ?thesis .
  qed
  have s: "unat (net_sum 0 src 0 ?l) = wsum src 0 ?l" using w[of src] by (subst net_sum_wsum) simp_all
  have d: "unat (net_sum (net_sum 0 src 0 ?l) dst 0 ?l) = wsum src 0 ?l + wsum dst 0 ?l"
    using w[of src] w[of dst] by (subst net_sum_wsum) (simp_all add: s)
  have k: "proto + n mod 65536 + n div 65536 \<le> 65792"
  proof -
    have "n mod 65536 < 65536" "n div 65536 \<le> 1" using assms(1) by simp_all
    then show ?thesis using assms(2) by linarith
  qed
  have u: "unat (word_of_nat (proto + n mod 65536 + n div 65536) :: u32) = proto + n mod 65536 + n div 65536"
    by (subst unsigned_of_nat) (use k in \<open>simp add: take_bit_eq_mod\<close>)
  have "unat ?acc \<le> 65535 * 8 + 65535 * 8 + 65792"
    using w[of src] w[of dst] k by (simp only: unat_word_ariths d u) (rule order_trans[OF mod_less_eq_dividend], linarith)
  moreover have "wsum b 0 n \<le> 65535 * 32768"
  proof -
    have "wsum b 0 n \<le> 65535 * ((n + 1) div 2)" by (rule wsum_bound)
    also have "\<dots> \<le> 65535 * 32768" using assms(1) by (intro mult_le_mono2) linarith
    finally show ?thesis .
  qed
  ultimately have "unat ?acc + wsum b 0 n + 65535 < 2 ^ 32" by simp
  then show thesis by (rule that) (simp only: net_transport_sum_def Let_def)
qed

lemma transport_completes:
  assumes "c mod 2 = 0" "c + 1 < n" "n \<le> 65536" "net_be16 b c = 0" "proto \<le> 255"
  shows "net_transport_sum family src dst proto (net_put16 b c (net_transport_sum family src dst proto b n)) n = 0"
proof -
  obtain acc where a: "unat acc + wsum b 0 n + 65535 < 2 ^ 32"
    "\<And>p. net_transport_sum family src dst proto p n = net_finish (net_sum acc p 0 n)"
    using transport_acc[OF assms(3,5), where b = b and family = family and src = src and dst = dst] by blast
  show ?thesis unfolding a(2) by (rule net_finish_zero_carry[OF a(1) assms(1,2,4)])
qed

text \<open>A checksum of zero means that none was computed, so it is sent as its other representation.\<close>

lemma transport_all_ones:
  assumes "c mod 2 = 0" "c + 1 < n" "n \<le> 65536" "net_be16 b c = 0" "proto \<le> 255"
    and z: "net_transport_sum family src dst proto b n = 0"
  shows "net_transport_sum family src dst proto (net_put16 b c 0xffff) n = 0"
proof -
  obtain acc where a: "unat acc + wsum b 0 n + 65535 < 2 ^ 32"
    "\<And>p. net_transport_sum family src dst proto p n = net_finish (net_sum acc p 0 n)"
    using transport_acc[OF assms(3,5), where b = b and family = family and src = src and dst = dst] by blast
  let ?x = "unat (net_sum acc b 0 n)" and ?y = "unat (net_sum acc (net_put16 b c 0xffff) 0 n)"
  have w: "wsum (net_put16 b c 0xffff) 0 n = wsum b 0 n + 65535" using wsum_put16[where c = c and p = 0 and n = n and b = b and x = "0xffff"] assms by simp
  have x: "?x = unat acc + wsum b 0 n" using a(1) by (intro net_sum_wsum) simp
  have y: "?y = ?x + 65535" unfolding x using a(1) by (subst net_sum_wsum) (simp_all add: w)
  have "unat (net_finish (net_sum acc b 0 n)) = 0" using z a(2) by simp
  then have f: "folded ?x = 65535" using folded_bound[of ?x] by (simp add: net_finish_folded)
  then have "0 < ?x" by (auto simp: folded_def split: if_splits)
  then have "folded ?y = folded ?x" unfolding y by (intro folded_eqI) simp_all
  then have "unat (net_finish (net_sum acc (net_put16 b c 0xffff) 0 n)) = 0" using f by (simp add: net_finish_folded)
  then show ?thesis unfolding a(2) by (simp add: unat_eq_zero)
qed

section \<open>What is sent\<close>

lemma put_bytes_outside: "q + 1 < p \<Longrightarrow> net_be16 (put_bytes b p d off n) q = net_be16 b q"
  by (simp add: net_be16_def put_bytes_apply)

lemma be16_zero: "net_be16 (\<lambda>_. 0) q = 0"
  by (simp add: net_be16_def)

lemma be16_upd_other: "q \<noteq> p \<Longrightarrow> q + 1 \<noteq> p \<Longrightarrow> net_be16 (b(p := x)) q = net_be16 b q"
  by (simp add: net_be16_def)

lemma be16_put32_other: "q + 1 < p \<or> p + 3 < q \<Longrightarrow> net_be16 (net_put32 b p x) q = net_be16 b q"
  by (auto simp: net_be16_def net_put32_def)

lemmas field_simps_wire = put_bytes_outside be16_zero be16_upd_other be16_put32_other be16_put16_other

lemma ip4_header_valid: "k_net_checksum (ip4_header inst proto src dst n ttl) 20 = 0"
  unfolding ip4_header_def Let_def by (rule checksum_header) (simp_all add: field_simps_wire)

lemma tcp_segment_valid:
  assumes "n \<le> 65000"
  shows "net_transport_sum (so_family s) (a_bytes (so_local s)) (a_bytes (so_peer s)) 6 (tcp_segment s seq flags data n) (tcp_header_bytes flags + n) = 0"
  unfolding tcp_segment_def Let_def
  by (rule transport_completes) (use assms in \<open>simp_all add: field_simps_wire tcp_header_bytes_def\<close>)

lemma udp_datagram_valid:
  fixes data src dst :: bytes and sport dport :: u16 and family :: nat
  assumes "n \<le> 65000"
  defines "p \<equiv> udp_datagram sport dport data n"
  defines "x \<equiv> net_transport_sum family src dst 17 p (n + 8)"
  shows "net_transport_sum family src dst 17 (net_put16 p 6 (if x \<noteq> 0 then x else 0xffff)) (n + 8) = 0"
proof -
  have z: "net_be16 p 6 = 0" by (simp add: p_def udp_datagram_def Let_def field_simps_wire)
  show ?thesis
  proof (cases "x = 0")
    case True
    then show ?thesis using transport_all_ones[of 6 "n + 8" p 17 family src dst] z assms(1) by (simp add: x_def)
  next
    case False
    then show ?thesis using transport_completes[of 6 "n + 8" p 17 family src dst] z assms(1) by (simp add: x_def)
  qed
qed


definition ex_net_bytes :: bytes where
  "ex_net_bytes = (\<lambda>j. word_of_nat (200 + j))"


end
