(* ===== verification/NetText.thy ===== *)
theory NetText
  imports Net
begin

unbundle bit_operations_syntax

text \<open>
  The text form of network addresses: what \<open>k_net_format\<close> writes, \<open>k_net_parse\<close> reads back.
\<close>

section \<open>IPv4\<close>

lemma of_decimal_char: "d < 10 \<Longrightarrow> of_char (decimal_char d) = 48 + d"
  by (simp add: decimal_char_def)

lemma decimal_part_char:
  "d < 10 \<Longrightarrow> n < 3 \<Longrightarrow> x * 10 + d \<le> 255 \<Longrightarrow> decimal_part (decimal_char d # s) x n = decimal_part s (x * 10 + d) (n + 1)"
  by (simp add: digit_def of_decimal_char Let_def)

lemma decimal_part_stop: "s = [] \<or> \<not> digit (hd s) \<Longrightarrow> decimal_part s x n = Some (x, n, s)"
  by (cases s) auto

lemma decimal_part_format:
  assumes "v < 256" "s = [] \<or> \<not> digit (hd s)"
  shows "\<exists>n>0. decimal_part (format_part v @ s) 0 0 = Some (v, n, s)"
proof -
  consider (one) "v < 10" | (two) "10 \<le> v" "v < 100" | (three) "100 \<le> v" by linarith
  then show ?thesis
  proof cases
    case one
    then show ?thesis using decimal_part_stop[OF assms(2)] by (simp add: format_part_def decimal_part_char del: decimal_part.simps)
  next
    case two
    have "v = v div 10 * 10 + v mod 10" by simp
    moreover have "v div 10 < 10" using two by linarith
    ultimately show ?thesis using two decimal_part_stop[OF assms(2)]
      by (simp add: format_part_def decimal_part_char del: decimal_part.simps)
  next
    case three
    have d: "v div 100 < 10" "v div 10 mod 10 < 10" "v mod 10 < 10" using assms(1) by auto
    have e: "(v div 100 * 10 + v div 10 mod 10) = v div 10"
      using div_mult_mod_eq[of "v div 10" 10] by (simp add: div_mult2_eq[symmetric])
    have f: "v div 10 * 10 + v mod 10 = v" by simp
    have g: "v div 10 \<le> 255" using assms(1) by linarith
    show ?thesis using three assms(1) d g decimal_part_stop[OF assms(2)]
      by (simp add: format_part_def decimal_part_char e f del: decimal_part.simps)
  qed
qed

lemma dot_not_digit: "\<not> digit (CHR ''.'')"
  by (simp add: digit_def)

lemma net_parse4_format:
  "net_parse4 (join (CHR ''.'') (map (\<lambda>i. format_part (unat (b i))) [0..<4])) (\<lambda>_. 0) = Inr (zero_copy b 4)"
proof -
  have v: "unat (b i) < 256" for i using unsigned_less[of "b i", where ?'a = nat] by simp
  have p: "\<exists>n>0. decimal_part (format_part (unat (b i)) @ CHR ''.'' # s) 0 0 = Some (unat (b i), n, CHR ''.'' # s)" for i s
    by (rule decimal_part_format[OF v]) (simp add: dot_not_digit)
  have q: "\<exists>n>0. decimal_part (format_part (unat (b i))) 0 0 = Some (unat (b i), n, [])" for i
    using decimal_part_format[OF v, of "[]"] by simp
  have l: "[0..<4] = [0, 1, 2, 3 :: nat]" by (simp add: upt_rec)
  let ?s2 = "format_part (unat (b 2)) @ CHR ''.'' # format_part (unat (b 3))"
  let ?s1 = "format_part (unat (b 1)) @ CHR ''.'' # ?s2"
  obtain n0 where "n0 > 0" "decimal_part (format_part (unat (b 0)) @ CHR ''.'' # ?s1) 0 0 = Some (unat (b 0), n0, CHR ''.'' # ?s1)"
    using p by blast
  moreover obtain n1 where "n1 > 0" "decimal_part ?s1 0 0 = Some (unat (b 1), n1, CHR ''.'' # ?s2)" using p by blast
  moreover obtain n2 where "n2 > 0" "decimal_part ?s2 0 0 = Some (unat (b 2), n2, CHR ''.'' # format_part (unat (b 3)))" using p by blast
  moreover obtain n3 where "n3 > 0" "decimal_part (format_part (unat (b 3))) 0 0 = Some (unat (b 3), n3, [])" using q by blast
  ultimately show ?thesis unfolding net_parse4_def join_def l by (simp add: Let_def zero_copy_def put_bytes_def l)
qed

section \<open>IPv6\<close>

lemma hex_chars: "\<forall>d\<in>{..<16}. hex_value (hex_char d) = d \<and> hex_char d \<noteq> NUL \<and> hex_char d \<noteq> CHR '':''"
  by code_simp

lemma hex_part_char: "d < 16 \<Longrightarrow> n < 4 \<Longrightarrow> hex_part (hex_char d # s) v n = hex_part s (v * 16 + d) (n + 1)"
  using hex_chars by simp

lemma hex_part_stop: "s = [] \<or> hd s = CHR '':'' \<Longrightarrow> hex_part s v n = Some (v, n, s)"
  by (cases s) auto

lemma hex_part_format:
  assumes "v < 65536" "s = [] \<or> hd s = CHR '':''"
  shows "\<exists>n>0. hex_part (format_word v @ s) 0 0 = Some (v, n, s)"
proof -
  have e: "v div 4096 * 16 + v div 256 mod 16 = v div 256" "v div 256 * 16 + v div 16 mod 16 = v div 16" "v div 16 * 16 + v mod 16 = v"
    using div_mult_mod_eq[of "v div 256" 16] div_mult_mod_eq[of "v div 16" 16] by (simp_all add: div_mult2_eq[symmetric])
  have t: "v div 4096 < 16" using assms(1) by linarith
  consider (one) "v < 16" | (two) "16 \<le> v" "v < 256" | (three) "256 \<le> v" "v < 4096" | (four) "4096 \<le> v" by linarith
  then show ?thesis
    using t e hex_part_stop[OF assms(2)]
    by cases (simp_all add: format_word_def hex_part_char div_greater_zero_iff del: hex_part.simps)
qed

lemma format_word_head: "\<exists>d s. d < 16 \<and> format_word v = hex_char d # s"
proof -
  have "filter (\<lambda>k. v div 16 ^ k \<noteq> 0 \<or> k = 0) [3, 2, 1, 0] \<noteq> []" by simp
  then obtain k ks where k: "filter (\<lambda>k. v div 16 ^ k \<noteq> 0 \<or> k = 0) [3, 2, 1, 0] = k # ks" by (meson list.exhaust)
  show ?thesis unfolding format_word_def k by (intro exI[of _ "v div 16 ^ k mod 16"]) simp
qed

lemma parse6_format:
  assumes "ws \<noteq> []" "list_all (\<lambda>w. w < 65536) ws" "length acc + length ws \<le> 8"
  shows "parse6_loop (join (CHR '':'') (map format_word ws)) acc None = Inr (acc @ ws, None)"
  using assms
proof (induction ws arbitrary: acc)
  case (Cons w ws)
  obtain d r where d: "d < 16" "format_word w = hex_char d # r" using format_word_head by blast
  have n: "hex_char d \<noteq> NUL" using d hex_chars by auto
  show ?case
  proof (cases "ws = []")
    case True
    obtain n where "0 < n" "hex_part (format_word w) 0 0 = Some (w, n, [])"
      using hex_part_format[of w "[]"] Cons.prems by auto
    then show ?thesis using True d n Cons.prems by (subst parse6_loop.simps) (simp add: join_def Let_def)
  next
    case False
    then obtain x xs where x: "ws = x # xs" by (cases ws) auto
    let ?rest = "join (CHR '':'') (map format_word ws)"
    have j: "join (CHR '':'') (map format_word (w # ws)) = format_word w @ CHR '':'' # ?rest" by (simp add: join_def x)
    obtain n where "0 < n" "hex_part (format_word w @ CHR '':'' # ?rest) 0 0 = Some (w, n, CHR '':'' # ?rest)"
      using hex_part_format[of w "CHR '':'' # ?rest"] Cons.prems by auto
    moreover obtain e y where e: "e < 16" "format_word x = hex_char e # y" using format_word_head by blast
    then have "cur ?rest \<noteq> CHR '':''" "cur ?rest \<noteq> NUL" using hex_chars by (auto simp: join_def x)
    moreover have "parse6_loop ?rest (acc @ [w]) None = Inr ((acc @ [w]) @ ws, None)"
      using False Cons.prems by (intro Cons.IH) auto
    ultimately show ?thesis unfolding j using d n Cons.prems by (subst parse6_loop.simps) (simp add: Let_def)
  qed
qed simp

lemma put16_be16: "net_put16 b p (net_be16 a p) = b(p := a p, p + 1 := a (p + 1))"
proof -
  have "ucast (drop_bit 8 (net_be16 a p)) = a p" "ucast (net_be16 a p) = a (p + 1)"
    by (rule bit_word_eqI; auto simp: net_be16_def bit_simps dest: bit_imp_le_length)+
  then show ?thesis by (simp add: net_put16_def)
qed

lemma put_words_bytes: "put_words (map (\<lambda>i. unat (net_be16 b (i * 2))) [0..<8]) = zero_copy b 16"
proof -
  have "put_words (map (\<lambda>i. unat (net_be16 b (i * 2))) [0..<8]) =
        fold (\<lambda>i m. m(2 * i := b (2 * i), 2 * i + 1 := b (2 * i + 1))) [0..<8] (\<lambda>_. 0)"
    unfolding put_words_def by (rule fold_cong) (simp_all add: mult.commute[of _ 2] put16_be16)
  also have "\<dots> = zero_copy b 16" by (simp add: zero_copy_def put_bytes_def upt_rec eval_nat_numeral)
  finally show ?thesis .
qed

lemma net_parse6_format:
  "net_parse6 (join (CHR '':'') (map (\<lambda>i. format_word (unat (net_be16 b (i * 2)))) [0..<8])) = Inr (zero_copy b 16)"
proof -
  let ?ws = "map (\<lambda>i. unat (net_be16 b (i * 2))) [0..<8]"
  have "list_all (\<lambda>w. w < 65536) ?ws"
    using unsigned_less[where ?'a = nat and ?'b = 16] by (simp add: list_all_iff)
  then have p: "parse6_loop (join (CHR '':'') (map format_word ?ws)) [] None = Inr (?ws, None)"
    using parse6_format[of ?ws "[]"] by simp
  obtain d r where "d < 16" "format_word (unat (net_be16 b 0)) = hex_char d # r" using format_word_head by blast
  then have c: "cur (join (CHR '':'') (map format_word ?ws)) \<noteq> CHR '':''" using hex_chars by (auto simp: join_def upt_rec)
  have m: "map (\<lambda>i. format_word (unat (net_be16 b (i * 2)))) [0..<8] = map format_word ?ws" by simp
  show ?thesis unfolding m net_parse6_def using p c put_words_bytes[of b]
    by (simp add: parse6_words_def del: map_map)
qed

section \<open>Both\<close>

lemma length_format_part: "length (format_part v) \<le> 3"
  by (simp add: format_part_def)

lemma length_format_word: "length (format_word v) \<le> 4"
  by (simp add: format_word_def)

lemma length_join:
  assumes "\<forall>x\<in>set xs. length x \<le> m" "xs \<noteq> []"
  shows "length (join c xs) \<le> length xs * (m + 1) - 1"
proof -
  have *: "\<forall>x\<in>set ys. length x \<le> m \<Longrightarrow> length (concat (map (\<lambda>y. c # y) ys)) \<le> length ys * (m + 1)" for ys :: "string list"
    by (induction ys) auto
  obtain x ys where x: "xs = x # ys" using assms(2) by (cases xs) auto
  show ?thesis using *[of ys] assms(1) by (simp add: x join_def)
qed

lemma length_address_text: "length (address_text a) \<le> 39"
proof (cases "a_family a = 4")
  case True
  have "length (join (CHR ''.'') (map (\<lambda>i. format_part (unat (a_bytes a i))) [0..<4])) \<le>
        length (map (\<lambda>i. format_part (unat (a_bytes a i))) [0..<4]) * (3 + 1) - 1"
    by (rule length_join) (auto simp: length_format_part)
  then show ?thesis using True by (simp add: address_text_def)
next
  case False
  have "length (join (CHR '':'') (map (\<lambda>i. format_word (unat (net_be16 (a_bytes a) (i * 2)))) [0..<8])) \<le>
        length (map (\<lambda>i. format_word (unat (net_be16 (a_bytes a) (i * 2)))) [0..<8]) * (4 + 1) - 1"
    by (rule length_join) (auto simp: length_format_word)
  then show ?thesis using False by (simp add: address_text_def)
qed

text \<open>
  C40. The text of an address reads back. Whenever \<open>k_net_format\<close> succeeds, \<open>k_net_parse\<close> of its result in the same family yields the
  same address bytes (four or sixteen of them, the others zero), with no port and for any interface; the text fits the buffer of the source, which holds
  48 characters, and the capacity of the caller.
\<close>

theorem net_text_roundtrip:
  assumes "k_net_format a capacity = Inr s"
  shows "k_net_parse s (a_family a) =
      Inr \<lparr>a_family = a_family a, a_interface = NET_NONE, a_port = 0, a_reserved = 0,
           a_bytes = zero_copy (a_bytes a) (net_addr_bytes (a_family a))\<rparr> \<and>
    length s < capacity \<and> length s < 48"
proof -
  have s: "s = address_text a" and f: "a_family a = 4 \<or> a_family a = 6" and c: "length s < capacity"
    using assms by (auto simp: k_net_format_def split: if_splits)
  have "length s < 48" unfolding s using length_address_text[of a] by linarith
  moreover have "(if a_family a = 4 then net_parse4 s (\<lambda>_. 0) else net_parse6 s) = Inr (zero_copy (a_bytes a) (net_addr_bytes (a_family a)))"
    unfolding s address_text_def net_addr_bytes_def by (simp add: net_parse4_format net_parse6_format del: upt_rec)
  ultimately show ?thesis using f c by (auto simp: k_net_parse_def split: if_splits)
qed

definition ex_net_address :: k_net_address where
  "ex_net_address = \<lparr>a_family = 4, a_interface = 1, a_port = 80, a_reserved = 0, a_bytes = (\<lambda>_. 0)(0 := 192, 1 := 168, 2 := 0, 3 := 7)\<rparr>"

theorem net_text_roundtrip_witness:
  "k_net_format ex_net_address 48 = Inr ''192.168.0.7'' \<and>
   (case k_net_parse ''192.168.0.7'' 4 of Inl _ \<Rightarrow> False | Inr a \<Rightarrow> a_bytes a 0 = 192 \<and> a_bytes a 3 = 7 \<and> a_port a = 0)"
proof -
  have f: "k_net_format ex_net_address 48 = Inr ''192.168.0.7''" by code_simp
  have b: "zero_copy (a_bytes ex_net_address) (net_addr_bytes (a_family ex_net_address)) 0 = 192"
    "zero_copy (a_bytes ex_net_address) (net_addr_bytes (a_family ex_net_address)) 3 = 7"
    by (simp_all add: ex_net_address_def zero_copy_def net_addr_bytes_def put_bytes_apply)
  show ?thesis using net_text_roundtrip[OF f] f b by (simp add: ex_net_address_def)
qed

end
