(* ===== verification/NetIn.thy ===== *)
theory NetIn
  imports NetTcp Pmm
begin

unbundle bit_operations_syntax

text \<open>
  The receive path of the network stack (\<open>drivers/net/networking.c\<close>): ARP, neighbour discovery, ICMP,
  the reassembly of fragments and the dispatch of frames.
\<close>

definition config_upd :: "nat \<Rightarrow> (k_net_config \<Rightarrow> k_net_config) \<Rightarrow> 'h net \<Rightarrow> 'h net" where
  "config_upd i f = info_upd i (\<lambda>n. n\<lparr>ni_config := f (ni_config n)\<rparr>)"

definition conflict :: "u32 \<Rightarrow> nat \<Rightarrow> 'h net \<Rightarrow> 'h net" where
  "conflict ready i = info_upd i (\<lambda>n. n\<lparr>ni_flags := (ni_flags n OR K_NET_CONFLICT) AND NOT ready\<rparr>)"

section \<open>ARP\<close>

definition arp_malformed :: "bytes \<Rightarrow> nat \<Rightarrow> bytes \<Rightarrow> bool" where
  "arp_malformed p n mac \<longleftrightarrow>
     n < 28 \<or> net_be16 p 0 \<noteq> 1 \<or> net_be16 p 2 \<noteq> 0x0800 \<or> p 4 \<noteq> 6 \<or> p 5 \<noteq> 4 \<or> (net_be16 p 6 \<noteq> 1 \<and> net_be16 p 6 \<noteq> 2) \<or>
     \<not> net_equal mac (sub_array p 8) 6 \<or> mac 0 AND 1 \<noteq> 0"

definition arp_conflict :: "net_device \<Rightarrow> bytes \<Rightarrow> bool" where
  "arp_conflict d p \<longleftrightarrow>
     (let own = cf_address (ni_config (d_info d)) in
      \<not> net_zero own 4 \<and>
      (net_equal (sub_array p 14) own 4 \<or> (d_dad4 d \<noteq> 0 \<and> net_zero (sub_array p 14) 4 \<and> net_equal (sub_array p 24) own 4)))"

definition net_arp_input :: "'h nics \<Rightarrow> nat \<Rightarrow> bytes \<Rightarrow> nat \<Rightarrow> bytes \<Rightarrow> 'h net \<Rightarrow> 'h net" where
  "net_arp_input h i p n mac t =
     (let d = n_devices t i; own = ni_mac (d_info d); inst = ni_id (d_info d) in
      if arp_malformed p n mac then count_error i t
      else if net_equal mac own 6 then t
      else if arp_conflict d p then dev_upd i (\<lambda>d. d\<lparr>d_dad4 := 0\<rparr>) (conflict K_NET_READY4 i t)
      else
        let ours = net_local t i 4 (sub_array p 24); e = fst (net_neighbor_find inst 4 (sub_array p 14) False t);
            probed = (case e of Some k \<Rightarrow> nb_probes (n_neighbors t k) \<noteq> 0 | None \<Rightarrow> False);
            t = (if (ours \<and> net_be16 p 6 = 1) \<or> (ours \<and> net_be16 p 6 = 2 \<and> net_equal (sub_array p 18) own 6 \<and> probed)
                 then net_neighbor_learn inst 4 (sub_array p 14) mac True t else t) in
        if ours \<and> net_be16 p 6 = 1 then snd (net_arp_send h i 2 mac (cf_address (dconfig t i)) (sub_array p 14) t) else t)"

section \<open>Neighbour discovery\<close>

text \<open>The offsets of the options from \<open>at\<close> on, \<open>None\<close> if one is malformed.\<close>

definition option_bytes :: "bytes \<Rightarrow> nat \<Rightarrow> nat" where
  "option_bytes p at = unat (p (at + 1)) * 8"

function nd_options :: "bytes \<Rightarrow> nat \<Rightarrow> nat \<Rightarrow> nat list option" where
  "nd_options p n at =
     (if at \<ge> n then Some []
      else if n - at < 2 \<or> p (at + 1) = 0 \<or> option_bytes p at > n - at then None
      else map_option (Cons at) (nd_options p n (at + option_bytes p at)))"
  by pat_completeness auto
termination
  by (relation "measure (\<lambda>(p, n, at). n - at)") (auto simp: option_bytes_def intro!: diff_less_mono2 unat_gt_0[THEN iffD2])

declare nd_options.simps [simp del]

definition router_option_ok :: "bytes \<Rightarrow> bytes \<Rightarrow> nat \<Rightarrow> bool" where
  "router_option_ok p mac at \<longleftrightarrow>
     (let len = option_bytes p at; type = p at in
      \<not> ((type = 1 \<and> (len \<noteq> 8 \<or> \<not> net_equal (sub_array p (at + 2)) mac 6)) \<or> (type = 3 \<and> len \<noteq> 32) \<or>
         (type = 5 \<and> len \<noteq> 8) \<or> (type = 25 \<and> (len < 24 \<or> (len - 8) mod 16 \<noteq> 0))))"

definition router_lifetime :: "nat \<Rightarrow> bytes \<Rightarrow> u16 \<Rightarrow> 'h net \<Rightarrow> 'h net" where
  "router_lifetime i src lifetime t =
     (if lifetime \<noteq> 0 then
        dev_upd i (\<lambda>d. d\<lparr>d_router_until := n_now t + ucast lifetime * 1000\<rparr>) (config_upd i (\<lambda>c. c\<lparr>cf_gateway6 := zero_copy src 16\<rparr>) t)
      else if net_equal (cf_gateway6 (dconfig t i)) src 16 then
        dev_upd i (\<lambda>d. d\<lparr>d_router_until := 0\<rparr>) (config_upd i (\<lambda>c. c\<lparr>cf_gateway6 := (\<lambda>_. 0)\<rparr>) t)
      else t)"

definition autoconf_address :: "bytes \<Rightarrow> nat \<Rightarrow> bytes \<Rightarrow> bytes" where
  "autoconf_address p at own = put_bytes (put_bytes (\<lambda>_. 0) 0 p (at + 16) 8) 8 own 8 8"

definition prefix_option :: "nat \<Rightarrow> bytes \<Rightarrow> nat \<Rightarrow> 'h net \<Rightarrow> 'h net" where
  "prefix_option i p at t =
     (let valid = net_be32 p (at + 4); preferred = net_be32 p (at + 8); a = autoconf_address p at (ni_link_local6 (dinfo t i)) in
      if preferred \<le> valid \<and> valid \<noteq> 0 then
        let t = (if \<not> net_equal a (cf_address6 (dconfig t i)) 16
                 then dev_upd i (\<lambda>d. d\<lparr>d_dadglobal := 3, d_dad_at := n_now t\<rparr>) (config_upd i (\<lambda>c. c\<lparr>cf_address6 := a\<rparr>) t) else t) in
        dev_upd i (\<lambda>d. d\<lparr>d_prefix_until := n_now t + ucast valid * 1000\<rparr>) (config_upd i (\<lambda>c. c\<lparr>cf_prefix6 := 64\<rparr>) t)
      else t)"

definition dns_option :: "nat \<Rightarrow> bytes \<Rightarrow> nat \<Rightarrow> 'h net \<Rightarrow> 'h net" where
  "dns_option i p at t =
     (let life = net_be32 p (at + 4); a = sub_array p (at + 8) in
      if a 0 \<noteq> 255 \<and> \<not> net_zero a 16 then
        if life \<noteq> 0 then
          dev_upd i (\<lambda>d. d\<lparr>d_dns_until := n_now t + ucast life * 1000\<rparr>) (config_upd i (\<lambda>c. c\<lparr>cf_dns6 := zero_copy a 16\<rparr>) t)
        else if net_equal (cf_dns6 (dconfig t i)) a 16 then
          dev_upd i (\<lambda>d. d\<lparr>d_dns_until := 0\<rparr>) (config_upd i (\<lambda>c. c\<lparr>cf_dns6 := (\<lambda>_. 0)\<rparr>) t)
        else t
      else t)"

definition router_option :: "nat \<Rightarrow> bytes \<Rightarrow> bytes \<Rightarrow> bytes \<Rightarrow> nat \<Rightarrow> 'h net \<Rightarrow> 'h net" where
  "router_option i src p mac at t =
     (let len = option_bytes p at; mtu = net_be32 p (at + 4); d = n_devices t i in
      if p at = 1 \<and> len = 8 \<and> net_equal (sub_array p (at + 2)) mac 6 then net_neighbor_learn (ni_id (d_info d)) 6 src mac False t
      else if p at = 3 \<and> len = 32 \<and> p (at + 2) = 64 \<and> p (at + 3) AND 0xc0 = 0xc0 \<and> p (at + 16) \<noteq> 255 \<and> \<not> link_local (sub_array p (at + 16))
      then prefix_option i p at t
      else if p at = 25 \<and> len \<ge> 24 \<and> (len - 8) mod 16 = 0 then dns_option i p at t
      else if p at = 5 \<and> len = 8 \<and> mtu \<ge> 1280 \<and> unat mtu \<le> (if d_kind d = NIC_EXTERNAL then d_external_mtu d else 1500)
      then info_upd i (\<lambda>n. n\<lparr>ni_mtu := unat mtu\<rparr>) t
      else t)"

definition router_input :: "nat \<Rightarrow> bytes \<Rightarrow> bytes \<Rightarrow> nat \<Rightarrow> bytes \<Rightarrow> 'h net \<Rightarrow> 'h net" where
  "router_input i src p n mac t =
     (if cf_flags (dconfig t i) AND K_NET_AUTO6 = 0 \<or> n < 16 \<or> \<not> link_local src then t
      else case nd_options p n 16 of
        None \<Rightarrow> t
      | Some ats \<Rightarrow>
          if \<not> list_all (router_option_ok p mac) ats then t
          else fold (router_option i src p mac) ats (router_lifetime i src (net_be16 p 6) t))"

definition link_option :: "bytes \<Rightarrow> nat \<Rightarrow> bool" where
  "link_option p at \<longleftrightarrow> (p at = 1 \<or> p at = 2) \<and> option_bytes p at = 8"

definition advertisement :: "bytes \<Rightarrow> bool \<Rightarrow> bytes \<Rightarrow> bytes" where
  "advertisement target unspecified mac =
     put_bytes ((put_bytes ((\<lambda>_. 0)(0 := 136, 4 := if unspecified then 0x20 else 0x60)) 8 target 0 16)(24 := 2, 25 := 1)) 26 mac 0 6"

definition all_nodes :: bytes where
  "all_nodes = (\<lambda>_. 0)(0 := 255, 1 := 2, 15 := 1)"

definition nd_answer :: "'h nics \<Rightarrow> nat \<Rightarrow> bytes \<Rightarrow> bytes \<Rightarrow> bool \<Rightarrow> 'h net \<Rightarrow> 'h net" where
  "nd_answer h i src target unspecified t =
     (let r = advertisement target unspecified (ni_mac (dinfo t i)); dst = (if unspecified then all_nodes else zero_copy src 16);
          r = net_put16 r 2 (net_transport_sum 6 target dst 58 r 32) in
      snd (net_ip_send h (ni_id (dinfo t i)) 6 target dst 58 r 32 255 t))"

definition nd_conflict :: "net_device \<Rightarrow> bytes \<Rightarrow> bytes \<Rightarrow> bool" where
  "nd_conflict d target mac \<longleftrightarrow>
     \<not> net_equal mac (ni_mac (d_info d)) 6 \<and>
     ((d_dad6 d \<noteq> 0 \<and> net_equal target (ni_link_local6 (d_info d)) 16) \<or>
      (d_dadglobal d \<noteq> 0 \<and> net_equal target (cf_address6 (ni_config (d_info d))) 16))"

definition neighbor_input :: "'h nics \<Rightarrow> nat \<Rightarrow> bytes \<Rightarrow> bytes \<Rightarrow> bytes \<Rightarrow> nat \<Rightarrow> bytes \<Rightarrow> 'h net \<Rightarrow> 'h net" where
  "neighbor_input h i src dst p n mac t =
     (let target = sub_array p 8; unspecified = net_zero src 16; d = n_devices t i; inst = ni_id (d_info d) in
      if n < 24 \<or> p 8 = 255 \<or> (p 0 = 136 \<and> unspecified) then t
      else case nd_options p n 24 of
        None \<Rightarrow> t
      | Some ats \<Rightarrow>
          let links = filter (link_option p) ats; have = links \<noteq> []; learned = sub_array p (last links + 2) in
          if \<not> list_all (\<lambda>at. net_equal (sub_array p (at + 2)) mac 6) links then t
          else if unspecified \<and> p 0 = 135 \<and> \<not> net_equal dst (solicited_node target) 16 then t
          else if unspecified \<and> have then t
          else if nd_conflict d target mac then dev_upd i (\<lambda>d. d\<lparr>d_dad6 := 0, d_dadglobal := 0\<rparr>) (conflict K_NET_READY6 i t)
          else if p 0 = 136 then
            if p 4 AND 0x40 \<noteq> 0 \<and> dst 0 = 255 then t
            else if have \<and> fst (net_neighbor_find inst 6 target False t) \<noteq> None
            then net_neighbor_learn inst 6 target learned (p 4 AND 0x40 \<noteq> 0) t else t
          else if \<not> net_local t i 6 target then t
          else nd_answer h i src target unspecified (if have \<and> \<not> unspecified then net_neighbor_learn inst 6 src learned False t else t))"

definition net_nd_input :: "'h nics \<Rightarrow> nat \<Rightarrow> bytes \<Rightarrow> bytes \<Rightarrow> bytes \<Rightarrow> nat \<Rightarrow> nat \<Rightarrow> bytes \<Rightarrow> 'h net \<Rightarrow> 'h net" where
  "net_nd_input h i src dst p n hop mac t =
     (if hop \<noteq> 255 \<or> n < 8 \<or> p 1 \<noteq> 0 \<or> mac 0 AND 1 \<noteq> 0 \<or> net_zero mac 6 then t
      else if p 0 = 134 then router_input i src p n mac t
      else if p 0 = 135 \<or> p 0 = 136 then neighbor_input h i src dst p n mac t
      else t)"

section \<open>ICMP\<close>

definition too_big :: "nat \<Rightarrow> bytes \<Rightarrow> bool" where
  "too_big family p = (if family = 4 then p 0 = 3 \<and> p 1 = 4 else p 0 = 2 \<and> p 1 = 0)"

definition unreachable :: "nat \<Rightarrow> bytes \<Rightarrow> bool" where
  "unreachable family p = (if family = 4 then p 0 = 3 \<and> p 1 \<le> 15 else p 0 = 1 \<and> p 1 \<le> 7)"

definition expired :: "nat \<Rightarrow> bytes \<Rightarrow> bool" where
  "expired family p = (if family = 4 then p 0 = 11 \<and> p 1 \<le> 1 else p 0 = 3 \<and> p 1 \<le> 1)"

text \<open>The quoted packet: header length, source, destination, protocol and length.\<close>

definition quoted :: "nat \<Rightarrow> bytes \<Rightarrow> nat \<Rightarrow> (nat \<times> bytes \<times> bytes \<times> u8 \<times> nat) option" where
  "quoted family q n =
     (if family = 4 then
        let k = unat (q 0 AND 15) * 4; original = unat (net_be16 q 2) in
        if n < 28 \<or> drop_bit 4 (q 0) \<noteq> 4 \<or> k < 20 \<or> k > n - 8 \<or> k_net_checksum q k \<noteq> 0 \<or> net_be16 q 6 AND 8191 \<noteq> 0 \<or> original < k + 8
        then None else Some (k, sub_array q 12, sub_array q 16, q 9, original)
      else
        let original = 40 + unat (net_be16 q 4) in
        if n < 48 \<or> drop_bit 4 (q 0) \<noteq> 6 \<or> original < 48 then None else Some (40, sub_array q 8, sub_array q 24, q 6, original))"

definition reported_mtu :: "nat \<Rightarrow> bytes \<Rightarrow> nat" where
  "reported_mtu family p =
     (let mtu = (if family = 4 then unat (net_be16 p 6) else unat (net_be32 p 4)) in if mtu = 0 \<and> family = 4 then 576 else mtu)"

definition concerns :: "nat \<Rightarrow> nat \<Rightarrow> bytes \<Rightarrow> bytes \<Rightarrow> u16 \<Rightarrow> u16 \<Rightarrow> net_socket \<Rightarrow> bool" where
  "concerns family inst source peer lport pport s \<longleftrightarrow>
     (let l = net_addr_bytes family in
      \<not> (\<not> so_used s \<or> so_family s \<noteq> family \<or> a_port (so_local s) \<noteq> lport \<or> a_port (so_peer s) \<noteq> pport \<or>
         (a_interface (so_local s) \<noteq> NET_NONE \<and> a_interface (so_local s) \<noteq> inst) \<or> \<not> net_equal (a_bytes (so_peer s)) peer l \<or>
         (\<not> net_zero (a_bytes (so_local s)) l \<and> \<not> net_equal (a_bytes (so_local s)) source l)))"

text \<open>Reports on segments that are not in flight, and implausible sizes, are passed over.\<close>

definition plausible :: "nat \<Rightarrow> bytes \<Rightarrow> u8 \<Rightarrow> u32 \<Rightarrow> nat \<Rightarrow> net_socket \<Rightarrow> bool" where
  "plausible family p proto seq original s \<longleftrightarrow>
     \<not> (proto = 6 \<and> so_type s = K_SOCK_TCP \<and>
        (so_snd_nxt s = so_snd_una s \<or> seq - so_snd_una s \<ge> so_snd_nxt s - so_snd_una s \<or>
         (too_big family p \<and>
          (reported_mtu family p < (if family = 4 then 68 else 1280) \<or> reported_mtu family p \<ge> original))))"

definition shrink_mss :: "nat \<Rightarrow> net_socket \<Rightarrow> net_socket" where
  "shrink_mss mss s = (if mss < so_mss s then s\<lparr>so_mss := mss, so_sent_at := 0, so_retransmitted := True\<rparr> else s)"

definition report :: "nat \<Rightarrow> bytes \<Rightarrow> u8 \<Rightarrow> nat \<Rightarrow> 'h net \<Rightarrow> 'h net" where
  "report family p proto j t =
     (let s = n_sockets t j in
      if proto = 6 \<and> so_type s = K_SOCK_TCP then
        if too_big family p then sock_upd j (shrink_mss (reported_mtu family p - (if family = 4 then 40 else 60))) t
        else if so_state s = NS_SYN_SENT then net_tcp_error j (if expired family p then K_ETIMEDOUT else K_ENETUNREACH) t
        else t
      else if proto = 17 \<and> so_type s = K_SOCK_UDP then
        sock_upd j (\<lambda>s. s\<lparr>so_error := if too_big family p then K_EMSGSIZE else if expired family p then K_ETIMEDOUT
                             else if p 1 = (if family = 4 then 3 else 4) then K_ECONNREFUSED else K_ENETUNREACH\<rparr>) t
      else t)"

definition net_icmp_failure :: "nat \<Rightarrow> nat \<Rightarrow> bytes \<Rightarrow> bytes \<Rightarrow> nat \<Rightarrow> 'h net \<Rightarrow> 'h net" where
  "net_icmp_failure i family dst p n t =
     (let q = sub_array p 8 in
      if (\<not> too_big family p \<and> \<not> unreachable family p \<and> \<not> expired family p) \<or> \<not> net_local t i family dst then t
      else case quoted family q (n - 8) of
        None \<Rightarrow> t
      | Some (k, source, peer, proto, original) \<Rightarrow>
          if \<not> net_equal source dst (net_addr_bytes family) \<or> (proto \<noteq> 6 \<and> proto \<noteq> 17) then t
          else case find_from 0 K_NET_MAX_SOCKETS (\<lambda>j. let s = n_sockets t j in
                 concerns family (ni_id (dinfo t i)) source peer (net_be16 q k) (net_be16 q (k + 2)) s \<and>
                 plausible family p proto (net_be32 q (k + 4)) original s) of
            None \<Rightarrow> t
          | Some j \<Rightarrow> report family p proto j t)"

definition echo_reply :: "nat \<Rightarrow> bytes \<Rightarrow> bytes \<Rightarrow> bytes \<Rightarrow> nat \<Rightarrow> bytes" where
  "echo_reply family src dst p n =
     (let b = (zero_copy p n)(0 := if family = 4 then 0 else 129, 2 := 0, 3 := 0) in
      net_put16 b 2 (if family = 4 then k_net_checksum b n else net_transport_sum 6 dst src 58 b n))"

definition ping_done :: "nat \<Rightarrow> nat \<Rightarrow> bytes \<Rightarrow> bytes \<Rightarrow> u64 \<Rightarrow> net_ping \<Rightarrow> net_ping" where
  "ping_done family inst src p now g =
     (let token = net_be32 p 4 in
      if pg_used g \<and> \<not> pg_done g \<and> pg_token g = token \<and> a_family (pg_peer g) = family \<and> a_interface (pg_peer g) = inst \<and>
         net_equal (a_bytes (pg_peer g)) src (net_addr_bytes family) \<and> rd64 p 8 = pg_sent g \<and> net_be32 p 16 = token XOR 0x91c573ab
      then g\<lparr>pg_ms := ucast (now - pg_sent g), pg_done := True\<rparr> else g)"

definition net_icmp_input :: "'h nics \<Rightarrow> nat \<Rightarrow> nat \<Rightarrow> bytes \<Rightarrow> bytes \<Rightarrow> bytes \<Rightarrow> nat \<Rightarrow> nat \<Rightarrow> bytes \<Rightarrow> 'h net \<Rightarrow> 'h net" where
  "net_icmp_input h i family src dst p n hop mac t =
     (if n < 8 \<or> (if family = 4 then k_net_checksum p n else net_transport_sum 6 src dst 58 p n) \<noteq> 0 then count_error i t
      else if family = 6 \<and> p 0 \<ge> 133 \<and> p 0 \<le> 137 then net_nd_input h i src dst p n hop mac t
      else
        let t = net_icmp_failure i family dst p n t; inst = ni_id (dinfo t i) in
        if p 0 = (if family = 4 then 8 else 128) \<and> p 1 = 0 \<and> net_local t i family dst \<and> n \<le> 1440 \<and> \<not> net_multicast family src \<and>
           \<not> net_zero src (net_addr_bytes family) then
          (case net_icmp_allow i t of
             (True, t) \<Rightarrow> snd (net_ip_send h inst family dst src (if family = 4 then 1 else 58) (echo_reply family src dst p n) n 64 t)
           | (False, t) \<Rightarrow> t)
        else if p 0 = (if family = 4 then 0 else 129) \<and> p 1 = 0 \<and> n = 24 then
          t\<lparr>n_pings := (\<lambda>k. if k < 8 then ping_done family inst src p (n_now t) (n_pings t k) else n_pings t k)\<rparr>
        else t)"

section \<open>Fragments\<close>

definition net_ip_deliver ::
  "'h nics \<Rightarrow> nat \<Rightarrow> nat \<Rightarrow> bytes \<Rightarrow> bytes \<Rightarrow> nat \<Rightarrow> bytes \<Rightarrow> nat \<Rightarrow> nat \<Rightarrow> bytes \<Rightarrow> 'h net \<Rightarrow> 'h net" where
  "net_ip_deliver h i family src dst proto p n hop mac t =
     (if proto = (if family = 4 then 1 else 58) then net_icmp_input h i family src dst p n hop mac t
      else if proto = 17 then net_udp_input h i family src dst p n t
      else if proto = 6 then net_tcp_input h i family src dst p n t
      else count_drop i t)"

definition frag_upd :: "nat \<Rightarrow> (net_fragment \<Rightarrow> net_fragment) \<Rightarrow> 'h net \<Rightarrow> 'h net" where
  "frag_upd k f t = t\<lparr>n_fragments := (n_fragments t)(k := f (n_fragments t k))\<rparr>"

definition expire_fragments :: "'h net \<Rightarrow> 'h net" where
  "expire_fragments t =
     t\<lparr>n_fragments := (\<lambda>k. let x = n_fragments t k in if k < NET_FRAGS \<and> fg_used x \<and> fg_expires x \<le> n_now t then x\<lparr>fg_used := False\<rparr> else x)\<rparr>"

definition frag_match :: "nat \<Rightarrow> nat \<Rightarrow> bytes \<Rightarrow> bytes \<Rightarrow> nat \<Rightarrow> nat \<Rightarrow> net_fragment \<Rightarrow> bool" where
  "frag_match inst family src dst proto ident x \<longleftrightarrow>
     fg_used x \<and> fg_interface x = inst \<and> fg_family x = family \<and> fg_id x = ident \<and> fg_protocol x = proto \<and>
     net_equal (fg_src x) src (net_addr_bytes family) \<and> net_equal (fg_dst x) dst (net_addr_bytes family)"

definition fresh_fragment :: "nat \<Rightarrow> nat \<Rightarrow> bytes \<Rightarrow> bytes \<Rightarrow> nat \<Rightarrow> nat \<Rightarrow> u64 \<Rightarrow> net_fragment" where
  "fresh_fragment inst family src dst proto ident now =
     \<lparr>fg_used = True, fg_interface = inst, fg_family = family, fg_protocol = proto, fg_id = ident, fg_final_size = 0,
      fg_src = zero_copy src (net_addr_bytes family), fg_dst = zero_copy dst (net_addr_bytes family), fg_bytes = (\<lambda>_. 0),
      fg_seen = (\<lambda>_. 0), fg_expires = now + 30000\<rparr>"

text \<open>A fragment that contradicts the others: outside the final size, overlapping, or an end before bytes already seen.\<close>

definition frag_bad :: "net_fragment \<Rightarrow> nat \<Rightarrow> nat \<Rightarrow> bool \<Rightarrow> bool" where
  "frag_bad f offset n follow \<longleftrightarrow>
     (fg_final_size f \<noteq> 0 \<and> offset + n > fg_final_size f) \<or> (\<not> follow \<and> fg_final_size f \<noteq> 0 \<and> fg_final_size f \<noteq> offset + n) \<or>
     list_ex (bit_get (fg_seen f)) [offset..<offset + n] \<or> (\<not> follow \<and> list_ex (bit_get (fg_seen f)) [offset + n..<NET_FRAG_BYTES])"

definition frag_add :: "nat \<Rightarrow> nat \<Rightarrow> bool \<Rightarrow> bytes \<Rightarrow> net_fragment \<Rightarrow> net_fragment" where
  "frag_add offset n follow p f =
     f\<lparr>fg_final_size := if follow then fg_final_size f else offset + n, fg_bytes := put_bytes (fg_bytes f) offset p 0 n,
       fg_seen := fold (\<lambda>k b. bit_set b k) [offset..<offset + n] (fg_seen f)\<rparr>"

definition frag_complete :: "net_fragment \<Rightarrow> bool" where
  "frag_complete f \<longleftrightarrow> fg_final_size f \<noteq> 0 \<and> list_all (bit_get (fg_seen f)) [0..<fg_final_size f]"

definition frag_slot :: "'h net \<Rightarrow> nat \<Rightarrow> nat \<Rightarrow> bytes \<Rightarrow> bytes \<Rightarrow> nat \<Rightarrow> nat \<Rightarrow> (nat \<times> 'h net) option" where
  "frag_slot t inst family src dst proto ident =
     (case find_idx (\<lambda>k. frag_match inst family src dst proto ident (n_fragments t k)) (rev [0..<NET_FRAGS]) of
        Some k \<Rightarrow> Some (k, t)
      | None \<Rightarrow>
          (case find_idx (\<lambda>k. \<not> fg_used (n_fragments t k)) (rev [0..<NET_FRAGS]) of
             None \<Rightarrow> None
           | Some k \<Rightarrow> Some (k, frag_upd k (\<lambda>_. fresh_fragment inst family src dst proto ident (n_now t)) t)))"

definition net_reassemble ::
  "'h nics \<Rightarrow> nat \<Rightarrow> nat \<Rightarrow> bytes \<Rightarrow> bytes \<Rightarrow> nat \<Rightarrow> nat \<Rightarrow> nat \<Rightarrow> bool \<Rightarrow> bytes \<Rightarrow> nat \<Rightarrow> nat \<Rightarrow> bytes \<Rightarrow> 'h net \<Rightarrow> 'h net" where
  "net_reassemble h i family src dst proto ident offset follow p n hop mac t =
     (if n = 0 \<or> offset > NET_FRAG_BYTES \<or> n > NET_FRAG_BYTES - offset \<or> (follow \<and> n mod 8 \<noteq> 0) then count_error i t
      else case frag_slot (expire_fragments t) (ni_id (dinfo t i)) family src dst proto ident of
        None \<Rightarrow> count_drop i (expire_fragments t)
      | Some (k, t) \<Rightarrow>
          let release = frag_upd k (\<lambda>f. f\<lparr>fg_used := False\<rparr>) in
          if frag_bad (n_fragments t k) offset n follow then count_error i (release t)
          else
            let t = frag_upd k (frag_add offset n follow p) t; f = n_fragments t k in
            if frag_complete f then release (net_ip_deliver h i family src dst proto (fg_bytes f) (fg_final_size f) hop mac t)
            else t)"

section \<open>Frames\<close>

definition capture_frame :: "k_net_frame \<Rightarrow> nat \<Rightarrow> 'h net \<Rightarrow> 'h net" where
  "capture_frame f i t =
     (let d = n_devices t i in
      if d_capture_owner d = 0 then t
      else if d_capture_count d < 8 then
        dev_upd i (\<lambda>d. d\<lparr>d_capture := (d_capture d)((d_capture_head d + d_capture_count d) mod 8 := f), d_capture_count := d_capture_count d + 1\<rparr>) t
      else count_drop i t)"

function ip4_options_ok :: "bytes \<Rightarrow> nat \<Rightarrow> nat \<Rightarrow> bool" where
  "ip4_options_ok p k at =
     (if at \<ge> k \<or> p at = 0 then True
      else if p at = 1 then ip4_options_ok p k (at + 1)
      else if k - at < 2 \<or> p (at + 1) < 2 \<or> unat (p (at + 1)) > k - at \<or> p at = 131 \<or> p at = 137 then False
      else ip4_options_ok p k (at + unat (p (at + 1))))"
  by pat_completeness auto
termination
  by (relation "measure (\<lambda>(p, k, at). k - at)") (auto simp: word_le_nat_alt word_less_nat_alt)

declare ip4_options_ok.simps [simp del]

definition ip4_input :: "'h nics \<Rightarrow> nat \<Rightarrow> bytes \<Rightarrow> nat \<Rightarrow> bytes \<Rightarrow> 'h net \<Rightarrow> 'h net" where
  "ip4_input h i p n mac t =
     (let k = unat (p 0 AND 15) * 4; whole = unat (net_be16 p 2); fragment = net_be16 p 6; src = sub_array p 12; dst = sub_array p 16 in
      if n < 20 \<or> drop_bit 4 (p 0) \<noteq> 4 \<or> p 0 AND 15 < 5 then count_error i t
      else if k > n \<or> whole < k \<or> whole > n \<or> p 8 = 0 \<or> k_net_checksum p k \<noteq> 0 \<or> fragment AND 0x8000 \<noteq> 0 \<or>
              net_multicast 4 src \<or> p 12 = 255 then count_error i t
      else if ni_id (dinfo t i) \<noteq> 0 \<and> p 12 = 127 then count_drop i t
      else if \<not> net_local t i 4 dst \<and> \<not> net_broadcast4 t i dst then count_drop i t
      else if \<not> ip4_options_ok p k 20 then count_error i t
      else if fragment AND 0x4000 \<noteq> 0 \<and> fragment AND 0x3fff \<noteq> 0 then count_error i t
      else if fragment AND 0x3fff \<noteq> 0 then
        net_reassemble h i 4 src dst (unat (p 9)) (unat (net_be16 p 4)) (unat (fragment AND 8191) * 8) (fragment AND 8192 \<noteq> 0)
          (sub_array p k) (whole - k) (unat (p 8)) mac t
      else net_ip_deliver h i 4 src dst (unat (p 9)) (sub_array p k) (whole - k) (unat (p 8)) mac t)"

function hop_options_ok :: "bytes \<Rightarrow> nat \<Rightarrow> nat \<Rightarrow> nat \<Rightarrow> bool" where
  "hop_options_ok p at len opt =
     (if opt \<ge> len then True
      else if p (at + opt) = 0 then hop_options_ok p at len (opt + 1)
      else if len - opt < 2 \<or> unat (p (at + opt + 1)) > len - opt - 2 \<or> p (at + opt) AND 0xc0 \<noteq> 0 then False
      else hop_options_ok p at len (opt + 2 + unat (p (at + opt + 1))))"
  by pat_completeness auto
termination
  by (relation "measure (\<lambda>(p, at, len, opt). len - opt)") auto

declare hop_options_ok.simps [simp del]

text \<open>At most eight extension headers.\<close>

primrec ip6_loop :: "nat \<Rightarrow> 'h nics \<Rightarrow> nat \<Rightarrow> bytes \<Rightarrow> bytes \<Rightarrow> nat \<Rightarrow> nat \<Rightarrow> nat \<Rightarrow> 'h net \<Rightarrow> 'h net" where
  "ip6_loop 0 h i p mac at remaining proto t = count_drop i t"
| "ip6_loop (Suc left) h i p mac at remaining proto t =
     (let src = sub_array p 8; dst = sub_array p 24; hop = unat (p 7); flags = net_be16 p (at + 2); len = (unat (p (at + 1)) + 1) * 8 in
      if proto = 44 then
        if remaining < 8 \<or> p (at + 1) \<noteq> 0 \<or> flags AND 6 \<noteq> 0 then count_error i t
        else if p at = 44 \<or> p at = 0 \<or> p at = 43 \<or> p at = 60 \<or> p at = 58 then count_drop i t
        else if flags AND 0xfff9 \<noteq> 0 then
          net_reassemble h i 6 src dst (unat (p at)) (unat (net_be32 p (at + 4))) (unat (flags AND 0xfff8)) (flags AND 1 \<noteq> 0)
            (sub_array p (at + 8)) (remaining - 8) hop mac t
        else net_ip_deliver h i 6 src dst (unat (p at)) (sub_array p (at + 8)) (remaining - 8) hop mac t
      else if proto \<noteq> 0 \<and> proto \<noteq> 60 \<and> proto \<noteq> 43 then net_ip_deliver h i 6 src dst proto (sub_array p at) remaining hop mac t
      else if remaining < 8 \<or> (proto = 0 \<and> at \<noteq> 40) then count_error i t
      else if len > remaining then count_error i t
      else if (if proto = 43 then p (at + 3) \<noteq> 0 else \<not> hop_options_ok p at len 2) then count_drop i t
      else ip6_loop left h i p mac (at + len) (remaining - len) (unat (p at)) t)"

definition ip6_input :: "'h nics \<Rightarrow> nat \<Rightarrow> bytes \<Rightarrow> nat \<Rightarrow> bytes \<Rightarrow> 'h net \<Rightarrow> 'h net" where
  "ip6_input h i p n mac t =
     (let d = n_devices t i; dst = sub_array p 24; whole = unat (net_be16 p 4) in
      if n < 40 \<or> drop_bit 4 (p 0) \<noteq> 6 \<or> p 7 = 0 \<or> p 8 = 255 \<or> whole > n - 40 then count_error i t
      else if \<not> net_local t i 6 dst \<and> p 24 \<noteq> 255 \<and> \<not> (d_dad6 d \<noteq> 0 \<and> net_equal dst (ni_link_local6 (d_info d)) 16) \<and>
              \<not> (d_dadglobal d \<noteq> 0 \<and> net_equal dst (cf_address6 (ni_config (d_info d))) 16) then count_drop i t
      else ip6_loop 8 h i p mac 40 whole (unat (p 6)) t)"

definition net_receive_frame :: "'h nics \<Rightarrow> k_net_frame \<Rightarrow> 'h net \<Rightarrow> 'h net" where
  "net_receive_frame h f t =
     (let i = nf_interface f; p = nf_bytes f; n = nf_length f;
          t = info_upd i (\<lambda>x. x\<lparr>ni_rx_packets := ni_rx_packets x + 1, ni_rx_bytes := ni_rx_bytes x + word_of_nat n\<rparr>) t;
          t = capture_frame f i t; mac = sub_array p 6; q = sub_array p 14; ether = net_be16 p 12 in
      if ni_flags (dinfo t i) AND K_NET_UP = 0 \<or> n < 14 \<or> p 6 AND 1 \<noteq> 0 \<or> net_zero mac 6 then count_drop i t
      else if p 0 AND 1 = 0 \<and> \<not> net_equal p (ni_mac (dinfo t i)) 6 then count_drop i t
      else if ether = 0x0806 then net_arp_input h i q (n - 14) mac t
      else if ether = 0x0800 then ip4_input h i q (n - 14) mac t
      else if ether = 0x86dd then ip6_input h i q (n - 14) mac t
      else count_drop i t)"

end
