(* ===== verification/NetCall.thy ===== *)
theory NetCall
  imports NetIn Process
begin

unbundle bit_operations_syntax

text \<open>
  The calls of the network stack (\<open>drivers/net/networking.c\<close>, \<open>ethernet.c\<close>) and its worker. Each call is one critical section
  under \<open>net_lock\<close>; the waiting calls \<open>k_net_connect\<close> and \<open>k_net_ping\<close> are one step per round of their loops. The calling task is that of
  CPU \<open>c\<close> of the kernel state \<open>k\<close>, which the network stack only reads.
\<close>

section \<open>The caller\<close>

definition net_privileged :: "nat \<Rightarrow> kernel \<Rightarrow> bool" where
  "net_privileged c k =
     (case current_task c k of
        None \<Rightarrow> True
      | Some t \<Rightarrow> (case t_process (k_tasks k t) of None \<Rightarrow> True | Some p \<Rightarrow> p_execution_class (k_processes k p) = K_EXEC_RING1))"

definition net_canceled :: "nat \<Rightarrow> kernel \<Rightarrow> bool" where
  "net_canceled c k = (case current_task c k of None \<Rightarrow> False | Some t \<Rightarrow> t_control_request (k_tasks k t) \<noteq> 0)"

definition task_gone :: "kernel \<Rightarrow> nat \<Rightarrow> bool" where
  "task_gone k tid = (case k_task_query tid True k of Inl _ \<Rightarrow> True | Inr x \<Rightarrow> ti_state x = K_TASK_ZOMBIE)"

definition k_net_nonce :: "'h net \<Rightarrow> u32 \<times> 'h net" where
  "k_net_nonce t = (if \<not> n_ready t then (0, t) else net_random t)"

section \<open>Interfaces\<close>

definition k_net_get :: "nat \<Rightarrow> 'h net \<Rightarrow> int + k_net_info" where
  "k_net_get i t =
     (if \<not> n_ready t then Inl K_ENETDOWN
      else if i \<ge> n_devices_count t then Inl K_ENOENT
      else
        let until = d_config_until (n_devices t i); now = n_now t in
        Inr ((dinfo t i)\<lparr>ni_lease_remaining := if until > now then until - now else 0\<rparr>))"

definition config4_ok :: "k_net_config \<Rightarrow> bool" where
  "config4_ok c \<longleftrightarrow>
     (let ip = net_be32 (cf_address c) 0; mask = net_be32 (cf_mask c) 0; gateway = net_be32 (cf_gateway c) 0; inverse = NOT mask in
      if ip \<noteq> 0 then
        \<not> (mask = 0 \<or> inverse AND (inverse + 1) \<noteq> 0 \<or> cf_address c 0 = 0 \<or> cf_address c 0 = 127 \<or> cf_address c 0 \<ge> 224 \<or>
           (inverse > 1 \<and> (ip AND inverse = 0 \<or> ip AND inverse = inverse)) \<or>
           (gateway \<noteq> 0 \<and> (gateway AND mask \<noteq> ip AND mask \<or> cf_gateway c 0 \<ge> 224)))
      else mask = 0 \<and> gateway = 0)"

definition config6_ok :: "k_net_config \<Rightarrow> bool" where
  "config6_ok c \<longleftrightarrow>
     \<not> (cf_address6 c 0 = 255 \<or> cf_gateway6 c 0 = 255 \<or> cf_dns6 c 0 = 255 \<or> (\<not> net_zero (cf_address6 c) 16 \<and> cf_prefix6 c = 0))"

definition config_changed :: "k_net_config \<Rightarrow> k_net_config \<Rightarrow> bool" where
  "config_changed c old \<longleftrightarrow>
     \<not> net_equal (cf_address c) (cf_address old) 4 \<or> \<not> net_equal (cf_address6 c) (cf_address6 old) 16 \<or>
     (cf_flags c XOR cf_flags old) AND K_NET_UP \<noteq> 0"

text \<open>Addresses are probed anew, what was learned of neighbours is forgotten, and connections of the interface end.\<close>

definition restart_interface :: "k_net_config \<Rightarrow> 'h net \<Rightarrow> 'h net" where
  "restart_interface c t =
     (let i = cf_interface c; now = n_now t;
          t = dev_upd i (\<lambda>d. d\<lparr>d_info := (d_info d)\<lparr>ni_flags := ni_flags (d_info d) AND NOT (K_NET_READY4 OR K_NET_READY6 OR K_NET_CONFLICT),
                                  ni_mtu := if d_kind d = NIC_EXTERNAL then d_external_mtu d else 1500\<rparr>,
                d_dad4 := if net_be32 (cf_address c) 0 \<noteq> 0 then 3 else 0, d_dad6 := 3, d_dadglobal := if net_zero (cf_address6 c) 16 then 0 else 3,
                d_dad_at := now, d_probe_at := now, d_auto_rs := 3, d_router_until := 0, d_prefix_until := 0, d_dns_until := 0\<rparr>) t;
          t = t\<lparr>n_neighbors := (\<lambda>k. let e = n_neighbors t k in if k < NET_NEIGHBORS \<and> nb_interface e = i then e\<lparr>nb_used := False\<rparr> else e)\<rparr> in
      fold (\<lambda>j t. let s = n_sockets t j in
              if so_used s \<and> so_type s = K_SOCK_TCP \<and> a_interface (so_local s) = i then net_tcp_error j K_ENETDOWN t else t)
        [0..<K_NET_MAX_SOCKETS] t)"

definition k_net_configure :: "nat \<Rightarrow> kernel \<Rightarrow> k_net_config \<Rightarrow> 'h net \<Rightarrow> int \<times> 'h net" where
  "k_net_configure c k cf t =
     (let i = cf_interface cf; d = n_devices t i; now = n_now t in
      if i = 0 \<or> i \<ge> n_devices_count t \<or> cf_flags cf AND NOT 3 \<noteq> 0 \<or> cf_prefix6 cf > 128 \<or> cf_lease_seconds cf > 604800 then (K_EINVAL, t)
      else if \<not> net_privileged c k then (K_EPERM, t)
      else if \<not> config4_ok cf \<or> \<not> config6_ok cf then (K_EINVAL, t)
      else if \<not> n_ready t then (K_ENETDOWN, t)
      else if d_dead d then (if ni_error (d_info d) \<noteq> 0 then ni_error (d_info d) else K_ENETDOWN, t)
      else
        let changed = config_changed cf (ni_config (d_info d));
            t = dev_upd i (\<lambda>d. d\<lparr>d_info := (d_info d)\<lparr>ni_config := cf, ni_flags := (ni_flags (d_info d) AND NOT (K_NET_UP OR K_NET_AUTO6)) OR cf_flags cf\<rparr>,
                  d_config_until := if cf_lease_seconds cf \<noteq> 0 then now + word_of_nat (cf_lease_seconds cf) * 1000 else 0\<rparr>) t in
        (0, if changed then restart_interface cf t
            else if cf_flags cf AND K_NET_AUTO6 \<noteq> 0 \<and> d_auto_rs (n_devices t i) = 0 then dev_upd i (\<lambda>d. d\<lparr>d_auto_rs := 3\<rparr>) t
            else t))"

section \<open>Sockets\<close>

definition k_net_socket :: "nat \<Rightarrow> kernel \<Rightarrow> nat \<Rightarrow> nat \<Rightarrow> 'h net \<Rightarrow> (int + nat) \<times> 'h net" where
  "k_net_socket c k family type t =
     (if (family \<noteq> 4 \<and> family \<noteq> 6) \<or> (type \<noteq> K_SOCK_UDP \<and> type \<noteq> K_SOCK_TCP) then (Inl K_EINVAL, t)
      else if \<not> n_ready t then (Inl K_ENETDOWN, t)
      else case net_socket_new family type (k_task_id c k) t of
        (None, t) \<Rightarrow> (Inl K_ENOSPC, t)
      | (Some i, t) \<Rightarrow> (Inr (so_id (n_sockets t i)), t))"

text \<open>The frame of every call on a handle: the stack is up and the socket belongs to the caller.\<close>

definition on_socket :: "nat \<Rightarrow> kernel \<Rightarrow> nat \<Rightarrow> (int \<Rightarrow> 'r) \<Rightarrow> (nat \<Rightarrow> 'h net \<Rightarrow> 'r \<times> 'h net) \<Rightarrow> 'h net \<Rightarrow> 'r \<times> 'h net" where
  "on_socket c k handle fail body t =
     (if \<not> n_ready t then (fail K_ENETDOWN, t)
      else case net_socket_owned (k_task_id c k) handle t of None \<Rightarrow> (fail K_EPERM, t) | Some i \<Rightarrow> body i t)"

definition address_known :: "'h net \<Rightarrow> k_net_address \<Rightarrow> bool" where
  "address_known t a =
     list_ex (\<lambda>i. (a_interface a = NET_NONE \<or> a_interface a = i) \<and> net_local t i (a_family a) (a_bytes a)) [0..<n_devices_count t]"

definition bind_socket :: "bool \<Rightarrow> k_net_address \<Rightarrow> nat \<Rightarrow> 'h net \<Rightarrow> int \<times> 'h net" where
  "bind_socket privileged a i t =
     (let s = n_sockets t i in
      if a_family a \<noteq> so_family s \<or> so_state s \<noteq> NS_NEW then (K_EINVAL, t)
      else if a_port a \<noteq> 0 \<and> a_port a < 1024 \<and> \<not> privileged then (K_EPERM, t)
      else if \<not> net_zero (a_bytes a) (net_addr_bytes (a_family a)) \<and> \<not> address_known t a then (K_ENETUNREACH, t)
      else if a_port a \<noteq> 0 \<and> net_port_busy i a t then (K_EADDRINUSE, t)
      else case net_autobind i (sock_upd i (\<lambda>s. s\<lparr>so_local := a\<rparr>) t) of
        (e, t) \<Rightarrow> (e, if e = 0 then sock_upd i (\<lambda>s. s\<lparr>so_state := NS_BOUND\<rparr>) t else t))"

definition k_net_bind :: "nat \<Rightarrow> kernel \<Rightarrow> nat \<Rightarrow> k_net_address \<Rightarrow> 'h net \<Rightarrow> int \<times> 'h net" where
  "k_net_bind c k handle a t =
     (if \<not> net_address_ok t a then (K_EINVAL, t) else on_socket c k handle (\<lambda>e. e) (bind_socket (net_privileged c k) a) t)"

definition connecting :: "u32 \<Rightarrow> net_socket \<Rightarrow> net_socket" where
  "connecting iss s = s\<lparr>so_iss := iss, so_snd_una := iss, so_snd_nxt := iss + 1, so_state := NS_SYN_SENT, so_sent_at := 0\<rparr>"

definition start_connect :: "'h nics \<Rightarrow> k_net_address \<Rightarrow> nat \<Rightarrow> 'h net \<Rightarrow> int \<times> 'h net" where
  "start_connect h peer i t =
     (case net_route t peer (a_interface (so_local (n_sockets t i))) of
        Inl e \<Rightarrow> (e, t)
      | Inr (inst, source) \<Rightarrow>
          (case net_autobind i t of
             (e, t) \<Rightarrow>
               let s = n_sockets t i; l = net_addr_bytes (so_family s) in
               if e \<noteq> 0 then (e, t)
               else if \<not> net_zero (a_bytes (so_local s)) l \<and> \<not> net_equal (a_bytes (so_local s)) source l then (K_ENETUNREACH, t)
               else
                 let t = sock_upd i (\<lambda>s. s\<lparr>so_local := (so_local s)\<lparr>a_interface := inst, a_bytes := put_bytes (a_bytes (so_local s)) 0 source 0 16\<rparr>,
                           so_peer := peer\<lparr>a_interface := inst\<rparr>\<rparr>) t in
                 if so_type s = K_SOCK_UDP then (0, sock_upd i (\<lambda>s. s\<lparr>so_state := NS_ESTABLISHED\<rparr>) t)
                 else case net_random t of (iss, t) \<Rightarrow> (0, net_tcp_pump h i (sock_upd i (connecting iss) t))))"

definition connect_socket :: "'h nics \<Rightarrow> k_net_address \<Rightarrow> nat \<Rightarrow> 'h net \<Rightarrow> int \<times> 'h net" where
  "connect_socket h peer i t =
     (let s = n_sockets t i in
      if so_family s \<noteq> a_family peer then (K_EINVAL, t)
      else case (if so_state s = NS_NEW \<or> so_state s = NS_BOUND then start_connect h peer i t
                 else if a_port (so_peer s) \<noteq> a_port peer \<or> \<not> net_equal (a_bytes (so_peer s)) (a_bytes peer) (net_addr_bytes (a_family peer))
                 then (K_EINVAL, t) else (0, t)) of
        (e, t) \<Rightarrow>
          if e \<noteq> 0 then (e, t)
          else
            let s = n_sockets t i in
            (if so_state s = NS_ESTABLISHED then 0 else if so_state s = NS_ERROR then so_error s else K_EINPROGRESS, t))"

text \<open>One round of the loop of \<open>k_net_connect\<close>; \<open>None\<close> when it waits for the next tick.\<close>

definition connect_step ::
  "'h nics \<Rightarrow> nat \<Rightarrow> kernel \<Rightarrow> nat \<Rightarrow> k_net_address \<Rightarrow> nat \<Rightarrow> u64 \<Rightarrow> 'h net \<Rightarrow> int option \<times> 'h net" where
  "connect_step h c k handle peer timeout start t =
     (case on_socket c k handle (\<lambda>e. e) (connect_socket h peer) t of
        (e, t) \<Rightarrow>
          (if e \<noteq> K_EINPROGRESS \<or> timeout = 0 then Some e
           else if net_canceled c k then Some K_ECANCELED
           else if n_now t - start \<ge> word_of_nat timeout then Some K_ETIMEDOUT
           else None, t))"

definition connect_args_ok :: "'h net \<Rightarrow> k_net_address \<Rightarrow> nat \<Rightarrow> bool" where
  "connect_args_ok t peer timeout \<longleftrightarrow>
     \<not> (\<not> net_address_ok t peer \<or> a_port peer = 0 \<or> net_zero (a_bytes peer) (net_addr_bytes (a_family peer)) \<or>
        net_multicast (a_family peer) (a_bytes peer) \<or> timeout > 30000)"

definition k_net_connect :: "'h nics \<Rightarrow> nat \<Rightarrow> kernel \<Rightarrow> nat \<Rightarrow> k_net_address \<Rightarrow> nat \<Rightarrow> 'h net \<Rightarrow> int option \<times> 'h net" where
  "k_net_connect h c k handle peer timeout t =
     (if \<not> connect_args_ok t peer timeout then (Some K_EINVAL, t) else connect_step h c k handle peer timeout (n_now t) t)"

definition listen_socket :: "nat \<Rightarrow> nat \<Rightarrow> 'h net \<Rightarrow> int \<times> 'h net" where
  "listen_socket backlog i t =
     (let s = n_sockets t i in
      if so_type s \<noteq> K_SOCK_TCP \<or> (so_state s \<noteq> NS_NEW \<and> so_state s \<noteq> NS_BOUND) then (K_EINVAL, t)
      else case net_autobind i t of
        (e, t) \<Rightarrow> (e, if e = 0 then sock_upd i (\<lambda>s. s\<lparr>so_state := NS_LISTEN, so_backlog := backlog\<rparr>) t else t))"

definition k_net_listen :: "nat \<Rightarrow> kernel \<Rightarrow> nat \<Rightarrow> nat \<Rightarrow> 'h net \<Rightarrow> int \<times> 'h net" where
  "k_net_listen c k handle backlog t =
     (if backlog = 0 \<or> backlog > 16 then (K_EINVAL, t) else on_socket c k handle (\<lambda>e. e) (listen_socket backlog) t)"

text \<open>The first established child is handed over; failed children met on the way are dropped.\<close>

fun accept_loop :: "nat \<Rightarrow> nat list \<Rightarrow> 'h net \<Rightarrow> (int + nat \<times> k_net_address) \<times> 'h net" where
  "accept_loop parent [] t = (Inl K_EAGAIN, t)"
| "accept_loop parent (j # js) t =
     (let s = n_sockets t j in
      if \<not> so_used s \<or> so_parent s \<noteq> parent then accept_loop parent js t
      else if so_state s = NS_ERROR then accept_loop parent js (sock_upd j (\<lambda>s. s\<lparr>so_used := False\<rparr>) t)
      else if so_state s \<noteq> NS_ESTABLISHED \<and> so_state s \<noteq> NS_CLOSE_WAIT then accept_loop parent js t
      else (Inr (so_id s, so_peer s), sock_upd j (\<lambda>s. s\<lparr>so_parent := 0\<rparr>) t))"

definition k_net_accept :: "nat \<Rightarrow> kernel \<Rightarrow> nat \<Rightarrow> 'h net \<Rightarrow> (int + nat \<times> k_net_address) \<times> 'h net" where
  "k_net_accept c k handle t =
     on_socket c k handle Inl (\<lambda>i t. if so_state (n_sockets t i) \<noteq> NS_LISTEN then (Inl K_EINVAL, t)
       else accept_loop (so_id (n_sockets t i)) [0..<K_NET_MAX_SOCKETS] t) t"

definition append_tx :: "bytes \<Rightarrow> nat \<Rightarrow> net_socket \<Rightarrow> net_socket" where
  "append_tx data n s = s\<lparr>so_tx := put_bytes (so_tx s) (so_tx_count s) data 0 n, so_tx_count := so_tx_count s + n\<rparr>"

definition send_udp :: "'h nics \<Rightarrow> bool \<Rightarrow> bytes \<Rightarrow> nat \<Rightarrow> k_net_address option \<Rightarrow> nat \<Rightarrow> 'h net \<Rightarrow> int \<times> 'h net" where
  "send_udp h privileged data n to i t =
     (let dest = (case to of Some a \<Rightarrow> a | None \<Rightarrow> so_peer (n_sockets t i)) in
      if a_family dest \<noteq> so_family (n_sockets t i) \<or> a_port dest = 0 then (K_EINVAL, t)
      else case net_autobind i t of
        (e, t) \<Rightarrow>
          if e \<noteq> 0 then (e, t)
          else
            let t = (if so_state (n_sockets t i) = NS_NEW then sock_upd i (\<lambda>s. s\<lparr>so_state := NS_BOUND\<rparr>) t else t) in
            case net_udp_output h privileged (n_sockets t i) data n dest t of
              (e, t) \<Rightarrow> (if e = 0 then int n else e, t))"

definition send_tcp :: "'h nics \<Rightarrow> bytes \<Rightarrow> nat \<Rightarrow> k_net_address option \<Rightarrow> nat \<Rightarrow> 'h net \<Rightarrow> int \<times> 'h net" where
  "send_tcp h data n to i t =
     (let s = n_sockets t i; m = min n (NET_STREAM - so_tx_count s) in
      if to \<noteq> None \<or> (so_state s \<noteq> NS_ESTABLISHED \<and> so_state s \<noteq> NS_CLOSE_WAIT) \<or> so_close_requested s then (K_EINVAL, t)
      else if m = 0 \<and> n \<noteq> 0 then (K_EAGAIN, t)
      else (int m, net_tcp_pump h i (sock_upd i (append_tx data m) t)))"

definition send_socket :: "'h nics \<Rightarrow> bool \<Rightarrow> bytes \<Rightarrow> nat \<Rightarrow> k_net_address option \<Rightarrow> nat \<Rightarrow> 'h net \<Rightarrow> int \<times> 'h net" where
  "send_socket h privileged data n to i t =
     (let s = n_sockets t i in
      if so_state s = NS_ERROR then (so_error s, t)
      else if so_type s = K_SOCK_UDP then send_udp h privileged data n to i t
      else send_tcp h data n to i t)"

definition k_net_send :: "'h nics \<Rightarrow> nat \<Rightarrow> kernel \<Rightarrow> nat \<Rightarrow> bytes \<Rightarrow> nat \<Rightarrow> k_net_address option \<Rightarrow> 'h net \<Rightarrow> int \<times> 'h net" where
  "k_net_send h c k handle data n to t =
     (if n > 4096 \<or> (case to of Some a \<Rightarrow> \<not> net_address_ok t a | None \<Rightarrow> False) then (K_EINVAL, t)
      else on_socket c k handle (\<lambda>e. e) (send_socket h (net_privileged c k) data n to) t)"

definition ring_bytes :: "bytes \<Rightarrow> nat \<Rightarrow> nat \<Rightarrow> u8 list" where
  "ring_bytes rx head n = map (\<lambda>i. rx ((head + i) mod NET_STREAM)) [0..<n]"

definition drop_rx :: "nat \<Rightarrow> net_socket \<Rightarrow> net_socket" where
  "drop_rx n s = s\<lparr>so_rx_head := (so_rx_head s + n) mod NET_STREAM, so_rx_count := so_rx_count s - n\<rparr>"

definition drop_datagram :: "net_socket \<Rightarrow> net_socket" where
  "drop_datagram s = s\<lparr>so_q_head := (so_q_head s + 1) mod NET_DGRAMS, so_q_count := so_q_count s - 1\<rparr>"

text \<open>The result is an error, or the bytes received and their sender.\<close>

definition receive_udp :: "nat \<Rightarrow> nat \<Rightarrow> 'h net \<Rightarrow> (int + u8 list \<times> k_net_address option) \<times> 'h net" where
  "receive_udp n i t =
     (let s = n_sockets t i; q = so_datagrams s (so_q_head s) in
      if so_q_count s = 0 then (Inl (if so_error s \<noteq> 0 then so_error s else K_EAGAIN), sock_upd i (\<lambda>s. s\<lparr>so_error := 0\<rparr>) t)
      else if n < dg_length q then (Inl K_EMSGSIZE, t)
      else (Inr (map (dg_bytes q) [0..<dg_length q], Some (dg_from q)), sock_upd i drop_datagram t))"

definition receive_tcp :: "'h nics \<Rightarrow> nat \<Rightarrow> nat \<Rightarrow> 'h net \<Rightarrow> (int + u8 list \<times> k_net_address option) \<times> 'h net" where
  "receive_tcp h n i t =
     (let s = n_sockets t i; m = min n (so_rx_count s) in
      if n = 0 then (Inr ([], None), t)
      else if so_rx_count s \<noteq> 0 then
        (Inr (ring_bytes (so_rx s) (so_rx_head s) m, Some (so_peer s)), net_tcp_ack h i (sock_upd i (drop_rx m) t))
      else if so_peer_fin s then (Inr ([], None), t)
      else (Inl (if so_state s = NS_ERROR then so_error s else K_EAGAIN), t))"

definition k_net_receive ::
  "'h nics \<Rightarrow> nat \<Rightarrow> kernel \<Rightarrow> nat \<Rightarrow> nat \<Rightarrow> 'h net \<Rightarrow> (int + u8 list \<times> k_net_address option) \<times> 'h net" where
  "k_net_receive h c k handle n t =
     (if n > 65536 then (Inl K_EINVAL, t)
      else on_socket c k handle Inl (\<lambda>i t. if so_type (n_sockets t i) = K_SOCK_UDP then receive_udp n i t else receive_tcp h n i t) t)"

definition reset_packet :: "'h nics \<Rightarrow> net_socket \<Rightarrow> 'h net \<Rightarrow> 'h net" where
  "reset_packet h s t = snd (net_tcp_packet h s (so_snd_nxt s) (TCP_RST OR TCP_ACK) (\<lambda>_. 0) 0 t)"

definition unuse :: "nat \<Rightarrow> 'h net \<Rightarrow> 'h net" where
  "unuse i = sock_upd i (\<lambda>s. s\<lparr>so_used := False\<rparr>)"

definition net_close_internal :: "'h nics \<Rightarrow> nat \<Rightarrow> 'h net \<Rightarrow> 'h net" where
  "net_close_internal h i t =
     (let s = n_sockets t i in
      if so_type s = K_SOCK_UDP \<or> so_state s = NS_NEW \<or> so_state s = NS_BOUND \<or> so_state s = NS_ERROR then unuse i t
      else if so_state s = NS_LISTEN then
        unuse i (fold (\<lambda>j t. let x = n_sockets t j in
                         if so_used x \<and> so_parent x = so_id s then unuse j (reset_packet h x t) else t) [0..<K_NET_MAX_SOCKETS] t)
      else if so_state s = NS_SYN_SENT \<or> so_state s = NS_SYN_RCVD then unuse i (reset_packet h s t)
      else net_tcp_pump h i (sock_upd i (\<lambda>s. s\<lparr>so_detached := True, so_close_requested := True\<rparr>) t))"

definition k_net_close :: "'h nics \<Rightarrow> nat \<Rightarrow> kernel \<Rightarrow> nat \<Rightarrow> 'h net \<Rightarrow> int \<times> 'h net" where
  "k_net_close h c k handle t = on_socket c k handle (\<lambda>e. e) (\<lambda>i t. (0, net_close_internal h i t)) t"

record k_socket_info =
  si_handle :: nat
  si_type :: nat
  si_state :: net_state
  si_owner_task :: nat
  si_local :: k_net_address
  si_peer :: k_net_address
  si_queued_rx :: nat
  si_queued_tx :: nat
  si_error :: int

definition k_net_socket_get :: "nat \<Rightarrow> kernel \<Rightarrow> nat \<Rightarrow> 'h net \<Rightarrow> int + k_socket_info" where
  "k_net_socket_get c k handle t =
     fst (on_socket c k handle Inl (\<lambda>i t. let s = n_sockets t i in
       (Inr \<lparr>si_handle = so_id s, si_type = so_type s, si_state = so_state s, si_owner_task = so_owner s, si_local = so_local s, si_peer = so_peer s,
             si_queued_rx = if so_type s = K_SOCK_UDP then so_q_count s else so_rx_count s, si_queued_tx = so_tx_count s, si_error = so_error s\<rparr>, t)) t)"

section \<open>Frames, pings and adapters\<close>

definition k_net_raw_send :: "'h nics \<Rightarrow> nat \<Rightarrow> kernel \<Rightarrow> nat \<Rightarrow> bytes \<Rightarrow> nat \<Rightarrow> 'h net \<Rightarrow> int \<times> 'h net" where
  "k_net_raw_send h c k i p n t =
     (if \<not> net_privileged c k then (K_EPERM, t)
      else if n < 14 \<or> n > 1514 then (K_EINVAL, t)
      else if \<not> n_ready t then (K_ENETDOWN, t)
      else if i \<ge> n_devices_count t then (K_ENOENT, t)
      else if \<not> net_equal (sub_array p 6) (ni_mac (dinfo t i)) 6 then (K_EINVAL, t)
      else nic_transmit h i p n t)"

definition k_net_raw_receive :: "nat \<Rightarrow> kernel \<Rightarrow> nat \<Rightarrow> bool \<Rightarrow> 'h net \<Rightarrow> (int + k_net_frame option) \<times> 'h net" where
  "k_net_raw_receive c k i out t =
     (let d = n_devices t i in
      if \<not> net_privileged c k then (Inl K_EPERM, t)
      else if \<not> n_ready t then (Inl K_ENETDOWN, t)
      else if i \<ge> n_devices_count t then (Inl K_ENOENT, t)
      else if d_capture_owner d \<noteq> 0 \<and> d_capture_owner d \<noteq> k_task_id c k then (Inl K_EBUSY, t)
      else if \<not> out then (Inr None, dev_upd i (\<lambda>d. d\<lparr>d_capture_owner := 0, d_capture_count := 0\<rparr>) t)
      else
        let t = dev_upd i (\<lambda>d. d\<lparr>d_capture_owner := k_task_id c k\<rparr>) t in
        if d_capture_count d = 0 then (Inl K_EAGAIN, t)
        else (Inr (Some (d_capture d (d_capture_head d))),
              dev_upd i (\<lambda>d. d\<lparr>d_capture_head := (d_capture_head d + 1) mod 8, d_capture_count := d_capture_count d - 1\<rparr>) t))"

definition ping_upd :: "nat \<Rightarrow> (net_ping \<Rightarrow> net_ping) \<Rightarrow> 'h net \<Rightarrow> 'h net" where
  "ping_upd s f t = t\<lparr>n_pings := (n_pings t)(s := f (n_pings t s))\<rparr>"

text \<open>\<open>k_net_ping\<close> up to its loop: the slot, the interface and the source address.\<close>

definition ping_start :: "nat \<Rightarrow> kernel \<Rightarrow> k_net_address \<Rightarrow> nat \<Rightarrow> 'h net \<Rightarrow> (int + nat \<times> nat \<times> bytes) \<times> 'h net" where
  "ping_start c k to timeout t =
     (if \<not> net_address_ok t to \<or> timeout = 0 \<or> timeout > 10000 \<or> net_multicast (a_family to) (a_bytes to) then (Inl K_EINVAL, t)
      else if \<not> n_ready t then (Inl K_ENETDOWN, t)
      else case find_from 0 8 (\<lambda>i. \<not> pg_used (n_pings t i)) of
        None \<Rightarrow> (Inl K_ENOSPC, t)
      | Some slot \<Rightarrow>
          (case net_route t to NET_NONE of
             Inl e \<Rightarrow> (Inl e, t)
           | Inr (i, src) \<Rightarrow>
               (case net_random t of
                  (token, t) \<Rightarrow>
                    (Inr (slot, i, src),
                     ping_upd slot (\<lambda>g. g\<lparr>pg_used := True, pg_done := False, pg_token := token, pg_owner := k_task_id c k,
                       pg_sent := n_now t, pg_peer := to\<lparr>a_interface := i\<rparr>\<rparr>) t))))"

definition ping_packet :: "nat \<Rightarrow> bytes \<Rightarrow> bytes \<Rightarrow> u32 \<Rightarrow> u64 \<Rightarrow> bytes" where
  "ping_packet family src dst token start =
     (let p = net_put32 ((\<lambda>_. 0)(0 := if family = 4 then 8 else 128)) 4 token; p = wr64 p 8 start; p = net_put32 p 16 (token XOR 0x91c573ab) in
      net_put16 p 2 (if family = 4 then k_net_checksum p 24 else net_transport_sum 6 src dst 58 p 24))"

text \<open>One round of its loop: whether the request is out, and the result once there is one.\<close>

definition ping_step ::
  "'h nics \<Rightarrow> nat \<Rightarrow> kernel \<Rightarrow> k_net_address \<Rightarrow> nat \<Rightarrow> u64 \<Rightarrow> nat \<Rightarrow> nat \<Rightarrow> bytes \<Rightarrow> bool \<Rightarrow> 'h net \<Rightarrow> ((int + u32) option \<times> bool) \<times> 'h net" where
  "ping_step h c k to timeout start slot i src sent t =
     (if \<not> n_ready t then ((Some (Inl K_ENETDOWN), sent), t)
      else
        let family = a_family to in
        case (if sent then (0, t)
              else net_ip_send h i family src (a_bytes to) (if family = 4 then 1 else 58)
                     (ping_packet family src (a_bytes to) (pg_token (n_pings t slot)) start) 24 64 t) of
          (e, t) \<Rightarrow>
            let sent = (sent \<or> e = 0); g = n_pings t slot;
                e = (if e = 0 \<or> e = K_EAGAIN then if pg_done g then 0 else K_EAGAIN else e);
                e = (if e = K_EAGAIN \<and> net_canceled c k then K_ECANCELED else e);
                e = (if e = K_EAGAIN \<and> n_now t - start \<ge> word_of_nat timeout then K_ETIMEDOUT else e) in
            if e = K_EAGAIN then ((None, sent), t)
            else ((Some (if e = 0 then Inr (pg_ms g) else Inl e), sent), ping_upd slot (\<lambda>g. g\<lparr>pg_used := False\<rparr>) t))"

definition zero_info :: k_net_info where
  "zero_info =
     \<lparr>ni_id = 0, ni_flags = 0, ni_mtu = 0, ni_mac = (\<lambda>_. 0),
      ni_config = \<lparr>cf_interface = 0, cf_flags = 0, cf_address = (\<lambda>_. 0), cf_mask = (\<lambda>_. 0), cf_gateway = (\<lambda>_. 0), cf_dns = (\<lambda>_. 0),
        cf_address6 = (\<lambda>_. 0), cf_gateway6 = (\<lambda>_. 0), cf_dns6 = (\<lambda>_. 0), cf_prefix6 = 0, cf_lease_seconds = 0\<rparr>,
      ni_link_local6 = (\<lambda>_. 0), ni_rx_packets = 0, ni_tx_packets = 0, ni_rx_bytes = 0, ni_tx_bytes = 0, ni_dropped = 0, ni_errors = 0,
      ni_tcp_retransmits = 0, ni_lease_remaining = 0, ni_error = 0\<rparr>"

definition zero_device :: net_device where
  "zero_device =
     \<lparr>d_info = zero_info, d_kind = NIC_LOOP, d_external_mtu = 0, d_tx_used = 0, d_dad_at = 0, d_config_until = 0, d_router_until = 0,
      d_prefix_until = 0, d_dns_until = 0, d_dad4 = 0, d_dad6 = 0, d_dadglobal = 0, d_auto_rs = 0, d_probe_at = 0, d_icmp_at = 0,
      d_icmp_budget = 0, d_dead = False,
      d_capture = (\<lambda>_. \<lparr>nf_interface = 0, nf_length = 0, nf_tick = 0, nf_bytes = (\<lambda>_. 0)\<rparr>), d_capture_head = 0, d_capture_count = 0,
      d_capture_owner = 0\<rparr>"

definition link_local_address :: "bytes \<Rightarrow> bytes" where
  "link_local_address mac =
     put_bytes ((\<lambda>_. 0)(0 := 0xfe, 1 := 0x80, 8 := mac 0 XOR 2, 9 := mac 1, 10 := mac 2, 11 := 255, 12 := 254)) 13 mac 3 3"

text \<open>An adapter of another module: its MTU and address. Its callbacks are in \<open>nics\<close>, names are left out.\<close>

definition external_device :: "nat \<Rightarrow> nat \<Rightarrow> bytes \<Rightarrow> net_device" where
  "external_device n mtu mac =
     zero_device\<lparr>d_kind := NIC_EXTERNAL, d_external_mtu := mtu,
       d_info := zero_info\<lparr>ni_id := n, ni_mtu := mtu, ni_mac := zero_copy mac 6, ni_config := (ni_config zero_info)\<lparr>cf_interface := n\<rparr>,
         ni_link_local6 := link_local_address mac\<rparr>\<rparr>"

definition k_net_attach :: "nat \<Rightarrow> kernel \<Rightarrow> nat \<Rightarrow> bytes \<Rightarrow> 'h net \<Rightarrow> (int + nat) \<times> 'h net" where
  "k_net_attach c k mtu mac t =
     (let n = n_devices_count t in
      if (case current_task c k of None \<Rightarrow> False | Some x \<Rightarrow> t_process (k_tasks k x) \<noteq> None) \<or> c \<noteq> 0 then (Inl K_EPERM, t)
      else if mtu < 1280 \<or> mtu > 1500 \<or> mac 0 AND 1 \<noteq> 0 \<or> net_zero mac 6 \<or> vm_smp_started (k_vm k) then (Inl K_EINVAL, t)
      else if \<not> n_ready t then (Inl K_ENETDOWN, t)
      else if n = K_NET_MAX_IF then (Inl K_ENOSPC, t)
      else (Inr n, t\<lparr>n_devices := (n_devices t)(n := external_device n mtu mac), n_devices_count := n + 1\<rparr>))"

section \<open>Timers\<close>

definition expire_config :: "u64 \<Rightarrow> net_device \<Rightarrow> net_device" where
  "expire_config now d =
     (let over = (\<lambda>x. x \<noteq> 0 \<and> now \<ge> x); cf = ni_config (d_info d);
          cf1 = (if over (d_config_until d) then cf\<lparr>cf_address := (\<lambda>_. 0), cf_mask := (\<lambda>_. 0), cf_gateway := (\<lambda>_. 0), cf_dns := (\<lambda>_. 0)\<rparr> else cf);
          cf2 = (if over (d_router_until d) then cf1\<lparr>cf_gateway6 := (\<lambda>_. 0)\<rparr> else cf1);
          cf3 = (if over (d_dns_until d) then cf2\<lparr>cf_dns6 := (\<lambda>_. 0)\<rparr> else cf2);
          cf4 = (if over (d_prefix_until d) then cf3\<lparr>cf_address6 := (\<lambda>_. 0)\<rparr> else cf3);
          flags = (if over (d_config_until d) then ni_flags (d_info d) AND NOT K_NET_READY4 else ni_flags (d_info d)) in
      d\<lparr>d_info := (d_info d)\<lparr>ni_config := cf4, ni_flags := flags\<rparr>,
        d_dad4 := if over (d_config_until d) then 0 else d_dad4 d, d_dadglobal := if over (d_prefix_until d) then 0 else d_dadglobal d,
        d_config_until := if over (d_config_until d) then 0 else d_config_until d,
        d_router_until := if over (d_router_until d) then 0 else d_router_until d,
        d_dns_until := if over (d_dns_until d) then 0 else d_dns_until d,
        d_prefix_until := if over (d_prefix_until d) then 0 else d_prefix_until d\<rparr>)"

text \<open>Duplicate address detection: the last but one probe succeeds, then the address is in use.\<close>

definition probe4 :: "'h nics \<Rightarrow> nat \<Rightarrow> 'h net \<Rightarrow> 'h net" where
  "probe4 h i t =
     (let n = d_dad4 (n_devices t i); own = cf_address (dconfig t i) in
      if n = 0 then t
      else if n > 1 then
        (case net_arp_send h i 1 (\<lambda>_. 255) (\<lambda>_. 0) own t of
           (e, t) \<Rightarrow> if e = 0 then dev_upd i (\<lambda>d. d\<lparr>d_dad4 := d_dad4 d - 1\<rparr>) t else t)
      else
        let t = dev_upd i (\<lambda>d. d\<lparr>d_dad4 := 0, d_info := (d_info d)\<lparr>ni_flags := ni_flags (d_info d) OR K_NET_READY4\<rparr>\<rparr>) t in
        snd (net_arp_send h i 1 (\<lambda>_. 255) own own t))"

definition probe6 :: "'h nics \<Rightarrow> nat \<Rightarrow> 'h net \<Rightarrow> 'h net" where
  "probe6 h i t =
     (let n = d_dad6 (n_devices t i) in
      if n = 0 then t
      else if n > 1 then
        (case net_nd_solicit h i (ni_link_local6 (dinfo t i)) True t of
           (e, t) \<Rightarrow> if e = 0 then dev_upd i (\<lambda>d. d\<lparr>d_dad6 := d_dad6 d - 1\<rparr>) t else t)
      else dev_upd i (\<lambda>d. d\<lparr>d_dad6 := 0, d_info := (d_info d)\<lparr>ni_flags := ni_flags (d_info d) OR K_NET_READY6\<rparr>\<rparr>) t)"

definition probe_global :: "'h nics \<Rightarrow> nat \<Rightarrow> 'h net \<Rightarrow> 'h net" where
  "probe_global h i t =
     (let n = d_dadglobal (n_devices t i) in
      if n = 0 then t
      else if n > 1 then
        (case net_nd_solicit h i (cf_address6 (dconfig t i)) True t of
           (e, t) \<Rightarrow> if e = 0 then dev_upd i (\<lambda>d. d\<lparr>d_dadglobal := d_dadglobal d - 1\<rparr>) t else t)
      else dev_upd i (\<lambda>d. d\<lparr>d_dadglobal := 0\<rparr>) t)"

definition all_routers :: bytes where
  "all_routers = (\<lambda>_. 0)(0 := 255, 1 := 2, 15 := 2)"

definition router_solicit :: "'h nics \<Rightarrow> nat \<Rightarrow> 'h net \<Rightarrow> 'h net" where
  "router_solicit h i t =
     (let d = n_devices t i; own = ni_link_local6 (d_info d); now = n_now t;
          p = put_bytes ((\<lambda>_. 0)(0 := 133, 8 := 1, 9 := 1)) 10 (ni_mac (d_info d)) 0 6;
          p = net_put16 p 2 (net_transport_sum 6 own all_routers 58 p 16) in
      if d_auto_rs d \<noteq> 0 \<and> cf_flags (ni_config (d_info d)) AND K_NET_AUTO6 \<noteq> 0 \<and> ni_flags (d_info d) AND K_NET_READY6 \<noteq> 0 \<and> now \<ge> d_probe_at d then
        (case net_ip_send h i 6 own all_routers 58 p 16 255 t of
           (e, t) \<Rightarrow> dev_upd i (\<lambda>d. d\<lparr>d_auto_rs := if e = 0 then d_auto_rs d - 1 else d_auto_rs d, d_probe_at := now + 4000\<rparr>) t)
      else t)"

definition poll_device :: "'h nics \<Rightarrow> nat \<Rightarrow> 'h net \<Rightarrow> 'h net" where
  "poll_device h i t =
     (let now = n_now t; t = dev_upd i (expire_config now) t; d = n_devices t i; flags = ni_flags (d_info d) in
      if d_dead d \<or> flags AND (K_NET_UP OR K_NET_LINK) \<noteq> K_NET_UP OR K_NET_LINK then t
      else
        router_solicit h i
          (if flags AND K_NET_CONFLICT = 0 \<and> now \<ge> d_dad_at d
           then probe_global h i (probe6 h i (probe4 h i (dev_upd i (\<lambda>d. d\<lparr>d_dad_at := now + 1000\<rparr>) t))) else t))"

definition poll_socket :: "'h nics \<Rightarrow> kernel \<Rightarrow> bool \<Rightarrow> nat \<Rightarrow> 'h net \<Rightarrow> 'h net" where
  "poll_socket h k gc i t =
     (let s = n_sockets t i in
      if \<not> so_used s then t
      else if gc \<and> \<not> so_detached s \<and> task_gone k (so_owner s) then net_close_internal h i t
      else if so_parent s \<noteq> 0 \<and> so_state s = NS_ERROR then unuse i t
      else net_tcp_pump h i t)"

definition poll_capture :: "kernel \<Rightarrow> nat \<Rightarrow> 'h net \<Rightarrow> 'h net" where
  "poll_capture k i t =
     (let owner = d_capture_owner (n_devices t i) in
      if owner \<noteq> 0 \<and> task_gone k owner then dev_upd i (\<lambda>d. d\<lparr>d_capture_owner := 0, d_capture_count := 0\<rparr>) t else t)"

definition net_poll_protocols :: "'h nics \<Rightarrow> kernel \<Rightarrow> 'h net \<Rightarrow> 'h net" where
  "net_poll_protocols h k t =
     (let t = fold (poll_device h) [1..<n_devices_count t] t; now = n_now t; gc = now \<ge> n_gc_at t;
          t = (if gc then t\<lparr>n_gc_at := now + 1000\<rparr> else t); t = fold (poll_socket h k gc) [0..<K_NET_MAX_SOCKETS] t in
      if gc then fold (poll_capture k) [0..<n_devices_count t] t else t)"

text \<open>The worker takes at most 64 frames per round. What the adapters received is in the queue already (\<open>net_enqueue\<close>).\<close>

primrec drain_queue :: "nat \<Rightarrow> 'h nics \<Rightarrow> 'h net \<Rightarrow> 'h net" where
  "drain_queue 0 h t = t"
| "drain_queue (Suc budget) h t =
     (if n_queued t = 0 then t
      else
        let f = n_queue t (n_head t) in
        drain_queue budget h (net_receive_frame h f (t\<lparr>n_head := (n_head t + 1) mod NET_RXQ, n_queued := n_queued t - 1\<rparr>)))"

definition worker_round :: "'h nics \<Rightarrow> kernel \<Rightarrow> 'h net \<Rightarrow> 'h net" where
  "worker_round h k t = net_poll_protocols h k (drain_queue 64 h t)"

end
