(* ===== verification/NetInv.thy ===== *)
theory NetInv
  imports NetCall
begin

unbundle bit_operations_syntax

text \<open>
  Invariants of the network stack. Sending changes no socket (\<open>net_core\<close>); every operation keeps the buffers and the sequence numbers of the
  sockets in their bounds (\<open>net_ok\<close>).
\<close>

section \<open>What sending leaves alone\<close>

definition dev_core :: "net_device \<Rightarrow> nat \<times> nat \<times> nic_kind \<times> nat" where
  "dev_core d = (ni_id (d_info d), ni_mtu (d_info d), d_kind d, d_external_mtu d)"

definition net_core :: "'h net \<Rightarrow> (nat \<Rightarrow> net_socket) \<times> u64 \<times> nat \<times> nat \<times> (nat \<Rightarrow> nat \<times> nat \<times> nic_kind \<times> nat) \<times> nat \<times> bool" where
  "net_core t = (n_sockets t, n_now t, n_next_socket t, n_devices_count t, (\<lambda>i. dev_core (n_devices t i)), n_head t, n_queued t \<le> NET_RXQ)"

lemma core_dev: "(\<And>d. dev_core (f d) = dev_core d) \<Longrightarrow> net_core (dev_upd i f t) = net_core t"
  by (auto simp: net_core_def dev_upd_def fun_eq_iff)

lemma core_info [simp]: "(\<And>n. ni_id (f n) = ni_id n) \<Longrightarrow> (\<And>n. ni_mtu (f n) = ni_mtu n) \<Longrightarrow> net_core (info_upd i f t) = net_core t"
  unfolding info_upd_def by (rule core_dev) (simp add: dev_core_def)

lemma core_counts [simp]:
  "net_core (count_error i t) = net_core t" "net_core (count_drop i t) = net_core t" "net_core (count_sent i n t) = net_core t"
  "net_core (count_retransmit i t) = net_core t" "net_core (neighbor_upd k f t) = net_core t" "net_core (set_hw x t) = net_core t"
  "net_core (t\<lparr>n_ip_id := x'\<rparr>) = net_core t"
  by (simp_all add: count_error_def count_drop_def count_sent_def count_retransmit_def)
    (simp_all add: net_core_def neighbor_upd_def set_hw_def)

lemma core_enqueue [simp]: "net_core (snd (net_enqueue i p n t)) = net_core t"
  unfolding net_enqueue_def by (auto simp: Let_def) (auto simp: net_core_def)

lemma core_transmit [simp]: "net_core (snd (nic_transmit h i p n t)) = net_core t"
proof -
  have k: "net_core (dev_upd i (\<lambda>d. d\<lparr>d_tx_used := Suc (d_tx_used d)\<rparr>) t) = net_core t" for i and t :: "'b net"
    by (rule core_dev) (simp add: dev_core_def)
  show ?thesis
    unfolding nic_transmit_def Let_def
    by (auto simp: case_prod_beta k split: nic_kind.split)
qed

lemma core_ether [simp]: "net_core (snd (net_ether h i mac type p n t)) = net_core t"
  by (simp add: net_ether_def)

lemma core_arp [simp]: "net_core (snd (net_arp_send h i op mac spa tpa t)) = net_core t"
  by (simp add: net_arp_send_def)

lemma core_emit [simp]: "net_core (snd (ip_emit h i family src dst proto p n ttl mac t)) = net_core t"
  unfolding ip_emit_def Let_def by (auto simp: net_core_def[of "t\<lparr>n_ip_id := x\<rparr>" for x])

lemma core_find [simp]: "net_core (snd (net_neighbor_find inst family a create t)) = net_core t"
  unfolding net_neighbor_find_def by (auto split: option.split)

lemma core_learn [simp]: "net_core (net_neighbor_learn inst family a mac solicited t) = net_core t"
  unfolding net_neighbor_learn_def by (auto simp: Let_def case_prod_beta split: option.split)

lemma core_solicit [simp]: "net_core (snd (net_nd_solicit h i target dad t)) = net_core t"
  unfolding net_nd_solicit_def Let_def by (auto split: option.split)

lemma core_probe [simp]: "net_core (snd (probe_neighbor h i family hop t)) = net_core t"
  by (simp add: probe_neighbor_def)

lemma core_resolve [simp]: "net_core (snd (net_resolve_mac h i family dst t)) = net_core t"
  unfolding net_resolve_mac_def Let_def by (auto simp: case_prod_beta split: option.split)

lemma core_ip_send [simp]: "net_core (snd (net_ip_send h i family src dst proto p n ttl t)) = net_core t"
  unfolding net_ip_send_def by (auto simp: case_prod_beta split: sum.split)

lemma core_tcp_packet [simp]: "net_core (snd (net_tcp_packet h s seq flags data n t)) = net_core t"
  by (simp add: net_tcp_packet_def Let_def)

lemma core_allow [simp]: "net_core (snd (net_icmp_allow i t)) = net_core t"
proof -
  have "net_core (dev_upd i (\<lambda>d. d\<lparr>d_icmp_at := x, d_icmp_budget := y\<rparr>) u) = net_core u"
    "net_core (dev_upd i (\<lambda>d. d\<lparr>d_icmp_budget := d_icmp_budget d - 1\<rparr>) u) = net_core u" for x y and u :: "'a net"
    by (rule core_dev; simp add: dev_core_def)+
  then show ?thesis by (simp add: net_icmp_allow_def Let_def)
qed

lemma core_ack [simp]: "net_core (net_tcp_ack h i t) = net_core t"
  by (simp add: net_tcp_ack_def)

text \<open>The parts of the core.\<close>

lemma core_parts:
  assumes "net_core t' = net_core t"
  shows "n_sockets t' = n_sockets t" "n_now t' = n_now t" "n_devices_count t' = n_devices_count t" "n_next_socket t' = n_next_socket t"
    "ni_id (dinfo t' i) = ni_id (dinfo t i)" "ni_mtu (dinfo t' i) = ni_mtu (dinfo t i)"
  using assms by (auto simp: net_core_def dev_core_def fun_eq_iff)

lemmas packet_parts [simp] = core_tcp_packet[THEN core_parts(1)] core_tcp_packet[THEN core_parts(2)] core_tcp_packet[THEN core_parts(3)]
  core_tcp_packet[THEN core_parts(5)] core_tcp_packet[THEN core_parts(6)]

lemmas ack_parts [simp] = core_ack[THEN core_parts(1)] core_ack[THEN core_parts(2)]

lemmas allow_parts [simp] = core_allow[THEN core_parts(1)] core_allow[THEN core_parts(2)]

section \<open>Sequence numbers\<close>

lemma sint_negative: "sint (x :: u32) < 0 \<longleftrightarrow> 2 ^ 31 \<le> unat x"
proof -
  have "sint x < 0 \<longleftrightarrow> bit x 31" using bit_last_iff[of x] by simp
  also have "\<dots> \<longleftrightarrow> bit (unat x) 31" by (simp add: bit_unsigned_iff)
  also have "\<dots> \<longleftrightarrow> odd (unat x div 2 ^ 31)" by (rule bit_iff_odd)
  also have "\<dots> \<longleftrightarrow> 2 ^ 31 \<le> unat x"
  proof -
    have "unat x < 2 ^ 32" using unsigned_less[of x, where ?'a = nat] by simp
    then have "unat x div 2 ^ 31 < 2" by (simp add: less_mult_imp_div_less)
    then have "odd (unat x div 2 ^ 31) \<longleftrightarrow> unat x div 2 ^ 31 \<noteq> 0" by (cases "unat x div 2 ^ 31") auto
    then show ?thesis by (simp add: div_eq_0_iff not_less)
  qed
  finally show ?thesis .
qed

lemma unat_diff: "unat (x - y :: u32) = (if unat y \<le> unat x then unat x - unat y else unat x + 2 ^ 32 - unat y)"
  by (simp add: unat_sub_if')

text \<open>An acknowledgement between the oldest outstanding and the next sequence number.\<close>

lemma ack_between:
  assumes "\<not> net_seq_before nxt ack" "net_seq_before una ack" "unat (nxt - una) < 2 ^ 31"
  shows "unat (ack - una) \<le> unat (nxt - una)" "unat (nxt - ack) = unat (nxt - una) - unat (ack - una)"
proof -
  define a where "a = ack - una"
  define n where "n = nxt - una"
  have e: "nxt - ack = n - a" "una - ack = 0 - a" by (simp_all add: a_def n_def)
  have n: "unat n < 2 ^ 31" using assms(3) by (simp add: n_def)
  have x: "unat (n - a) < 2 ^ 31" using assms(1) unfolding net_seq_before_def e sint_negative by simp
  have y: "2 ^ 31 \<le> unat (0 - a)" using assms(2) unfolding net_seq_before_def e sint_negative by simp
  have al: "unat a < 2 ^ 32" using unsigned_less[of a, where ?'a = nat] by simp
  have "unat a \<le> unat n"
  proof (rule ccontr)
    assume "\<not> unat a \<le> unat n"
    then have "unat (n - a) = unat n + 2 ^ 32 - unat a" "unat (0 - a) = 2 ^ 32 - unat a"
      using unat_diff[of n a] unat_diff[of 0 a] by simp_all
    then show False using x y al by linarith
  qed
  then show "unat (ack - una) \<le> unat (nxt - una)" "unat (nxt - ack) = unat (nxt - una) - unat (ack - una)"
    unfolding e using unat_diff[of n a] by (simp_all add: a_def n_def)
qed

section \<open>The invariant\<close>

text \<open>Differences of sequence numbers stay as they are.\<close>

declare unat_sub_if' [simp del]

text \<open>
  The buffers of a socket are within their arrays; a segment size or a congestion window is never zero; the bytes in flight are among
  those kept for retransmission, and a FIN is in flight only after all data has been acknowledged.
\<close>

definition sock_ok :: "net_socket \<Rightarrow> bool" where
  "sock_ok s \<longleftrightarrow>
     so_rx_count s \<le> NET_STREAM \<and> so_rx_head s < NET_STREAM \<and> so_tx_count s \<le> NET_STREAM \<and> 0 < so_mss s \<and> 0 < so_cwnd s \<and>
     so_q_count s \<le> NET_DGRAMS \<and> so_q_head s < NET_DGRAMS \<and>
     (so_state s = NS_NEW \<or> so_state s = NS_BOUND \<longrightarrow> so_snd_nxt s = so_snd_una s) \<and>
     (so_state s = NS_ESTABLISHED \<or> so_state s = NS_CLOSE_WAIT \<longrightarrow> unat (so_snd_nxt s - so_snd_una s) \<le> so_tx_count s) \<and>
     (fin_state (so_state s) \<or> so_state s = NS_FIN_WAIT2 \<or> so_state s = NS_TIME_WAIT \<longrightarrow> so_tx_count s = 0)"

definition mtu_ok :: "nat \<times> nat \<times> nic_kind \<times> nat \<Rightarrow> bool" where
  "mtu_ok d \<longleftrightarrow> (case d of (i, mtu, k, ext) \<Rightarrow> 1280 \<le> mtu \<and> mtu \<le> 1500 \<and> (k = NIC_EXTERNAL \<longrightarrow> 1280 \<le> ext \<and> ext \<le> 1500))"

text \<open>Handles: no two sockets in use have the same, and new ones are larger than all before until the counter wraps to zero, which ends the supply.\<close>

definition handles_ok :: "(nat \<Rightarrow> net_socket) \<Rightarrow> nat \<Rightarrow> bool" where
  "handles_ok f next \<longleftrightarrow>
     inj_on (\<lambda>j. so_id (f j)) {j. so_used (f j)} \<and> (\<forall>j. so_used (f j) \<longrightarrow> 0 < so_id (f j) \<and> (next = 0 \<or> so_id (f j) < next)) \<and> next < 2 ^ 32"

definition net_ok :: "'h net \<Rightarrow> bool" where
  "net_ok t \<longleftrightarrow>
     (\<forall>j. so_used (n_sockets t j) \<longrightarrow> sock_ok (n_sockets t j)) \<and> (\<forall>i<n_devices_count t. mtu_ok (dev_core (n_devices t i))) \<and>
     handles_ok (n_sockets t) (n_next_socket t) \<and> n_queued t \<le> NET_RXQ"

lemma ok_core:
  assumes "net_core t' = net_core t"
  shows "net_ok t' \<longleftrightarrow> net_ok t"
proof -
  have "dev_core (n_devices t' i) = dev_core (n_devices t i)" for i using assms by (simp add: net_core_def fun_eq_iff)
  then show ?thesis using assms by (simp add: net_ok_def net_core_def)
qed

lemma ok_upd:
  assumes "net_ok t" "so_id (f (n_sockets t j)) = so_id (n_sockets t j)" "so_used (f (n_sockets t j)) \<Longrightarrow> so_used (n_sockets t j)"
    and "so_used (n_sockets t j) \<Longrightarrow> sock_ok (n_sockets t j) \<Longrightarrow> so_used (f (n_sockets t j)) \<Longrightarrow> sock_ok (f (n_sockets t j))"
  shows "net_ok (sock_upd j f t)"
proof -
  let ?g = "(n_sockets t)(j := f (n_sockets t j))"
  have "{i. so_used (?g i)} \<subseteq> {i. so_used (n_sockets t i)}" using assms(3) by auto
  moreover have "so_id (?g i) = so_id (n_sockets t i)" for i using assms(2) by simp
  ultimately have "inj_on (\<lambda>i. so_id (?g i)) {i. so_used (?g i)}"
    using assms(1) unfolding net_ok_def handles_ok_def by (simp only:) (blast intro: inj_on_subset)
  then have "handles_ok ?g (n_next_socket t)" using assms unfolding net_ok_def handles_ok_def by auto
  then show ?thesis using assms by (auto simp: net_ok_def sock_upd_def)
qed

lemma ok_socket: "net_ok t \<Longrightarrow> so_used (n_sockets t j) \<Longrightarrow> sock_ok (n_sockets t j)"
  by (simp add: net_ok_def)

lemmas ok_sent [simp] = core_tcp_packet[THEN ok_core] core_ack[THEN ok_core] core_ip_send[THEN ok_core] core_allow[THEN ok_core]
  core_learn[THEN ok_core] core_arp[THEN ok_core] core_solicit[THEN ok_core] core_counts(1)[THEN ok_core] core_counts(2)[THEN ok_core]
  core_counts(4)[THEN ok_core] core_transmit[THEN ok_core]

section \<open>TCP\<close>

lemma ok_error: "net_ok t \<Longrightarrow> net_ok (net_tcp_error i e t)"
  unfolding net_tcp_error_def by (rule ok_upd) (auto simp: error_socket_def sock_ok_def fin_state_def)

lemma ok_unuse: "net_ok t \<Longrightarrow> net_ok (sock_upd i (\<lambda>s. s\<lparr>so_used := False\<rparr>) t)"
  by (rule ok_upd) auto

lemma sub32_small: "b \<le> a \<Longrightarrow> a < 2 ^ 32 \<Longrightarrow> sub32 a b = a - b"
proof -
  assume "b \<le> a" "a < 2 ^ 32"
  then have "a + (2 ^ 32 - b) = (a - b) + 2 ^ 32" "a - b < 2 ^ 32" by simp_all
  then show ?thesis by (simp only: sub32_def mod_add_self2 mod_less)
qed

lemma ok_clamp:
  assumes "net_ok t"
  shows "net_ok (sock_upd i (clamp_mss t) t)"
proof (rule ok_upd[OF assms])
  let ?s = "n_sockets t i"
  let ?k = "a_interface (so_local ?s)"
  assume s: "sock_ok ?s"
  have "0 < sub32 (ni_mtu (dinfo t ?k)) (if so_family ?s = 4 then 40 else 60)" if "?k < n_devices_count t"
  proof -
    have "mtu_ok (dev_core (n_devices t ?k))" using assms that by (simp add: net_ok_def)
    then have "1280 \<le> ni_mtu (dinfo t ?k)" "ni_mtu (dinfo t ?k) \<le> 1500" by (simp_all add: mtu_ok_def dev_core_def)
    then show ?thesis by (simp add: sub32_small)
  qed
  then show "sock_ok (clamp_mss t ?s)" using s by (auto simp: clamp_mss_def sock_ok_def Let_def)
qed (auto simp: clamp_mss_def Let_def split: if_splits)

lemma ok_back_off: "net_ok t \<Longrightarrow> net_ok (sock_upd i (back_off now) t)"
  by (rule ok_upd) (auto simp: back_off_def sock_ok_def split: if_splits)

lemma core_resend [simp]: "net_core (snd (resend h s t)) = net_core t"
  by (simp add: resend_def)

lemma ok_pump_resend: "net_ok t \<Longrightarrow> net_ok (snd (pump_resend h i t))"
  unfolding pump_resend_def Let_def
  by (auto simp: case_prod_beta core_resend[THEN ok_core] intro!: ok_back_off ok_error)

lemma ok_pump_head: "net_ok t \<Longrightarrow> net_ok (snd (pump_head h i t))"
  unfolding pump_head_def Let_def by (auto intro!: ok_error ok_unuse ok_pump_resend ok_clamp)

text \<open>The source's recursive call ends in \<open>pump_head\<close>.\<close>

lemma pump_head_fin: "fin_state (so_state (n_sockets t i)) \<Longrightarrow> fst (pump_head h i t)"
proof -
  assume f: "fin_state (so_state (n_sockets t i))"
  have "so_state (clamp_mss t s) = so_state s" for s by (simp add: clamp_mss_def Let_def)
  then have "fst (pump_resend h i (sock_upd i (clamp_mss t) t))"
    using f by (simp add: pump_resend_def sock_upd_def Let_def case_prod_beta)
  then show ?thesis by (simp add: pump_head_def Let_def)
qed

definition data_state :: "net_socket \<Rightarrow> bool" where
  "data_state s \<longleftrightarrow> so_state s = NS_ESTABLISHED \<or> so_state s = NS_CLOSE_WAIT"

lemma ok_advance:
  assumes "net_ok t" "data_state (n_sockets t i)" "inflight = unat (so_snd_nxt (n_sockets t i) - so_snd_una (n_sockets t i))"
    and "inflight + n \<le> so_tx_count (n_sockets t i)" "so_used (n_sockets t i)"
  shows "net_ok (sock_upd i (advance now inflight n) t)"
    "unat (so_snd_nxt (n_sockets t i) + word_of_nat n - so_snd_una (n_sockets t i)) = inflight + n"
proof -
  let ?s = "n_sockets t i"
  have l: "so_tx_count ?s \<le> NET_STREAM" using ok_socket[OF assms(1,5)] by (simp add: sock_ok_def)
  have n: "unat (word_of_nat n :: u32) = n" using assms(4) l by (simp add: unsigned_of_nat take_bit_eq_mod NET_STREAM_def)
  have "so_snd_nxt ?s + word_of_nat n - so_snd_una ?s = (so_snd_nxt ?s - so_snd_una ?s) + word_of_nat n" by simp
  then show u: "unat (so_snd_nxt ?s + word_of_nat n - so_snd_una ?s) = inflight + n"
    using assms(3,4) l by (simp only: unat_word_ariths n) (simp add: NET_STREAM_def)
  have k: "sock_ok (advance now inflight n ?s)"
    using ok_socket[OF assms(1,5)] assms(2,4) u unfolding sock_ok_def advance_def data_state_def fin_state_def
    by (cases "inflight = 0") auto
  have "so_id (advance now inflight n ?s) = so_id ?s" "so_used (advance now inflight n ?s) = so_used ?s" by (simp_all add: advance_def)
  then show "net_ok (sock_upd i (advance now inflight n) t)" by (intro ok_upd[OF assms(1)] k) simp_all
qed

lemma advance_seq:
  "so_snd_nxt (advance now inflight n s) = so_snd_nxt s + word_of_nat n" "so_snd_una (advance now inflight n s) = so_snd_una s"
  by (simp_all add: advance_def)

lemma upd_same: "n_sockets (sock_upd i f t) i = f (n_sockets t i)"
  by (simp add: sock_upd_def)

lemma send_loop_done:
  "\<not> (inflight < so_tx_count (n_sockets t i) \<and> inflight < window \<and> so_mss (n_sockets t i) \<noteq> 0) \<Longrightarrow>
   send_loop h i window inflight t = (Some inflight, t)"
  by (subst send_loop.simps) (auto simp: Let_def)

lemma ok_send_loop:
  assumes "net_ok t" "so_used (n_sockets t i)" "data_state (n_sockets t i)"
    and "inflight = unat (so_snd_nxt (n_sockets t i) - so_snd_una (n_sockets t i))"
  shows "net_ok (snd (send_loop h i window inflight t))"
  using assms
proof (induction h i window inflight t rule: send_loop.induct)
  case (1 h i window inflight t)
  let ?s = "n_sockets t i"
  let ?n = "min (so_mss ?s) (min (so_tx_count ?s - inflight) (window - inflight))"
  let ?p = "net_tcp_packet h ?s (so_snd_nxt ?s) (TCP_ACK OR TCP_PSH) (sub_array (so_tx ?s) inflight) ?n t"
  let ?t = "snd ?p"
  show ?case
  proof (cases "inflight < so_tx_count ?s \<and> inflight < window \<and> so_mss ?s \<noteq> 0")
    case False
    from send_loop_done[OF this] show ?thesis using "1.prems"(1) by simp
  next
    case True
    show ?thesis
    proof (cases "fst ?p = 0")
      case False
      then show ?thesis using True "1.prems" by (subst send_loop.simps) (auto simp: Let_def case_prod_beta intro: ok_error)
    next
      case p: True
      have "a < c \<Longrightarrow> a + min x (min (c - a) y) \<le> c" for a c x y :: nat by linarith
      then have l: "inflight + ?n \<le> so_tx_count (n_sockets ?t i)" using True by (simp only: packet_parts)
      have k: "net_ok ?t" "so_used (n_sockets ?t i)" "data_state (n_sockets ?t i)"
        "inflight = unat (so_snd_nxt (n_sockets ?t i) - so_snd_una (n_sockets ?t i))"
        using "1.prems" by simp_all
      note a = ok_advance[OF k(1,3,4) l k(2)]
      have "net_ok (snd (send_loop h i window (inflight + ?n) (sock_upd i (advance (n_now ?t) inflight ?n) ?t)))"
      proof (rule "1.IH"[OF refl True refl, of "fst ?p" ?t])
        let ?v = "sock_upd i (advance (n_now ?t) inflight ?n) ?t"
        show "(fst ?p, ?t) = ?p" by (rule prod.collapse)
        from p show "\<not> fst ?p \<noteq> 0" by blast
        show "net_ok ?v" by (rule a(1))
        show "so_used (n_sockets ?v i)" "data_state (n_sockets ?v i)" using k(2,3) by (simp_all add: sock_upd_def advance_def data_state_def)
        show "inflight + ?n = unat (so_snd_nxt (n_sockets ?v i) - so_snd_una (n_sockets ?v i))"
          unfolding upd_same advance_seq a(2) ..
      qed
      then show ?thesis using True p by (subst send_loop.simps) (simp add: Let_def case_prod_beta)
    qed
  qed
qed

lemma ok_persist: "net_ok t \<Longrightarrow> net_ok (persist h i inflight t)"
  unfolding persist_def Let_def by (auto simp: sock_ok_def intro!: ok_upd)

lemma ok_start_fin: "net_ok t \<Longrightarrow> so_tx_count (n_sockets t i) = 0 \<Longrightarrow> net_ok (sock_upd i start_fin t)"
  by (rule ok_upd) (auto simp: start_fin_def sock_ok_def fin_state_def)

lemma ok_pump_tail: "net_ok t \<Longrightarrow> so_used (n_sockets t i) \<Longrightarrow> net_ok (pump_tail h i t)"
  unfolding pump_tail_def Let_def
  using ok_send_loop[of t i "unat (so_snd_nxt (n_sockets t i) - so_snd_una (n_sockets t i))" h "min (so_peer_window (n_sockets t i)) (so_cwnd (n_sockets t i))"]
  by (auto simp: data_state_def case_prod_beta split: option.split intro!: ok_pump_head ok_start_fin ok_persist)

lemma head_continues: "fst (pump_head h i t) = False \<Longrightarrow> so_used (n_sockets (snd (pump_head h i t)) i)"
proof -
  have c: "so_used (clamp_mss t s) = so_used s" for s by (simp add: clamp_mss_def Let_def)
  assume "fst (pump_head h i t) = False"
  then have u: "so_used (n_sockets t i)" and e: "pump_head h i t = pump_resend h i (sock_upd i (clamp_mss t) t)"
    by (auto simp: pump_head_def Let_def split: if_splits)
  have r: "fst (pump_resend h i v) = False \<Longrightarrow> so_used (n_sockets v i) \<Longrightarrow> so_used (n_sockets (snd (pump_resend h i v)) i)" for v
    by (auto simp: pump_resend_def Let_def case_prod_beta sock_upd_def back_off_def core_resend[THEN core_parts(1)]
        count_retransmit_def info_upd_def dev_upd_def split: if_splits)
  show ?thesis using \<open>fst (pump_head h i t) = False\<close> u unfolding e by (intro r) (simp_all add: sock_upd_def c)
qed

lemma ok_pump [inv_intros]: "net_ok t \<Longrightarrow> net_ok (net_tcp_pump h i t)"
  unfolding net_tcp_pump_def using ok_pump_head[of t h i] head_continues[of h i t]
  by (auto split: prod.split bool.split intro!: ok_pump_tail)

section \<open>Receiving\<close>

lemma options_positive: "options_loop p k at m = Some mss \<Longrightarrow> 0 < m \<Longrightarrow> 0 < mss"
proof (induction p k at m rule: options_loop.induct)
  case (1 p k at m)
  have "0 < unat (net_be16 p (at + 2))" if "\<not> net_be16 p (at + 2) < 64"
    using that by (simp add: word_less_nat_alt)
  then show ?case using 1 by (subst (asm) (4) options_loop.simps) (auto split: if_splits)
qed

lemma ok_new:
  assumes "net_ok t" "net_socket_new family type owner t = (Some j, t')"
  shows "net_ok t'" "n_sockets t' j = fresh_socket (n_next_socket t) family type owner (n_now t)" "n_now t' = n_now t"
proof -
  from assms(2) have n: "n_next_socket t \<noteq> 0" and u: "\<not> so_used (n_sockets t j)"
    and t: "t' = (sock_upd j (\<lambda>_. fresh_socket (n_next_socket t) family type owner (n_now t)) t)\<lparr>n_next_socket := add32 (n_next_socket t) 1\<rparr>"
    by (auto simp: net_socket_new_def split: if_splits option.splits dest: find_from_Some)
  let ?f = "fresh_socket (n_next_socket t) family type owner (n_now t)"
  let ?g = "(n_sockets t)(j := ?f)"
  have f: "so_id ?f = n_next_socket t" "sock_ok ?f"
    by (auto simp: fresh_socket_def zero_socket_def sock_ok_def NET_STREAM_def NET_DGRAMS_def fin_state_def Let_def)
  have h: "handles_ok (n_sockets t) (n_next_socket t)" using assms(1) by (simp add: net_ok_def)
  have b: "so_id (n_sockets t i) < n_next_socket t" if "so_used (n_sockets t i)" for i using h n that by (auto simp: handles_ok_def)
  have s: "add32 (n_next_socket t) 1 = 0 \<or> add32 (n_next_socket t) 1 = n_next_socket t + 1" "add32 (n_next_socket t) 1 < 2 ^ 32"
  proof -
    have "n_next_socket t < 2 ^ 32" using h by (simp add: handles_ok_def)
    then show "add32 (n_next_socket t) 1 = 0 \<or> add32 (n_next_socket t) 1 = n_next_socket t + 1" "add32 (n_next_socket t) 1 < 2 ^ 32"
      by (cases "n_next_socket t + 1 = 2 ^ 32"; simp add: add32_def)+
  qed
  have "inj_on (\<lambda>i. so_id (?g i)) {i. so_used (?g i)}"
  proof (rule inj_onI)
    fix x y
    assume a: "x \<in> {i. so_used (?g i)}" "y \<in> {i. so_used (?g i)}" "so_id (?g x) = so_id (?g y)"
    show "x = y"
    proof (cases "x = j \<or> y = j")
      case True
      then show ?thesis using a b[of x] b[of y] f by (auto split: if_splits)
    next
      case False
      then show ?thesis using a h unfolding handles_ok_def by (auto dest: inj_onD)
    qed
  qed
  then have "handles_ok ?g (add32 (n_next_socket t) 1)"
    using h b s n f(1) unfolding handles_ok_def by (auto simp: less_Suc_eq)
  then show "net_ok t'" using assms(1) f(2) by (auto simp: t net_ok_def sock_upd_def)
  show "n_sockets t' j = ?f" "n_now t' = n_now t" by (simp_all add: t sock_upd_def)
qed

lemma core_random [simp]: "net_core (snd (net_random t)) = net_core t"
  by (simp add: net_random_def net_core_def Let_def)

lemma ok_open: "net_ok t \<Longrightarrow> net_ok (tcp_open h i family src dst p k l t)"
proof -
  assume ok: "net_ok t"
  have m: "0 < default_mss family" by (simp add: default_mss_def NET_MSS_def)
  have n: "net_ok (net_tcp_pump h j (sock_upd j (child_socket family inst parent src dst p iss mss) (snd (net_random t'))))"
    if "net_socket_new family 2 owner t = (Some j, t')" "0 < mss" for j t' inst parent iss mss owner
    using ok_new[OF ok that(1)] that(2)
    by (intro ok_pump ok_upd)
      (auto simp: core_random[THEN ok_core] core_random[THEN core_parts(1)] child_socket_def sock_ok_def fresh_socket_def zero_socket_def fin_state_def Let_def)
  have z: "net_ok t'" if "net_socket_new family 2 owner t = (None, t')" for t' owner
    using that ok by (auto simp: net_socket_new_def split: if_splits option.splits)
  show ?thesis unfolding tcp_open_def Let_def net_tcp_options_def
    using ok n z options_positive[OF _ m] by (auto split: option.split prod.split) (metis snd_conv)
qed

lemma ok_refuse: "net_ok t \<Longrightarrow> net_ok (tcp_refuse h i family src dst p len t)"
  unfolding tcp_refuse_def Let_def by (auto simp: case_prod_beta split: bool.split)

text \<open>A measurement changes the round trip estimates and the timer only.\<close>

lemma rtt_only:
  obtains srtt rttvar rto where
    "net_tcp_rtt now s = s\<lparr>so_srtt := srtt, so_rttvar := rttvar, so_rto := rto, so_retry := 0, so_retransmitted := False, so_sent_at := nonzero_time now\<rparr>"
proof -
  obtain a b c where "rtt_update (rtt_sample now s) s = s\<lparr>so_srtt := a, so_rttvar := b, so_rto := c\<rparr>"
    unfolding rtt_update_def Let_def by blast
  then have u: "so_sent_at s \<noteq> 0 \<Longrightarrow> \<not> so_retransmitted s \<Longrightarrow> ?thesis" using that[where srtt = a and rttvar = b and rto = c] by (simp add: net_tcp_rtt_def)
  have "so_sent_at s = 0 \<or> so_retransmitted s \<Longrightarrow> ?thesis"
    using that[where srtt = "so_srtt s" and rttvar = "so_rttvar s" and rto = "so_rto s"] by (auto simp: net_tcp_rtt_def)
  then show ?thesis using u by blast
qed

lemma rtt_fields [simp]:
  "so_used (net_tcp_rtt now s) = so_used s" "so_id (net_tcp_rtt now s) = so_id s" "so_state (net_tcp_rtt now s) = so_state s"
  "so_rx_count (net_tcp_rtt now s) = so_rx_count s" "so_rx_head (net_tcp_rtt now s) = so_rx_head s" "so_tx_count (net_tcp_rtt now s) = so_tx_count s"
  "so_mss (net_tcp_rtt now s) = so_mss s" "so_cwnd (net_tcp_rtt now s) = so_cwnd s" "so_q_count (net_tcp_rtt now s) = so_q_count s"
  "so_q_head (net_tcp_rtt now s) = so_q_head s" "so_snd_nxt (net_tcp_rtt now s) = so_snd_nxt s" "so_snd_una (net_tcp_rtt now s) = so_snd_una s"
  "so_rcv_nxt (net_tcp_rtt now s) = so_rcv_nxt s" "so_rx (net_tcp_rtt now s) = so_rx s" "so_threshold (net_tcp_rtt now s) = so_threshold s"
  "so_peer_fin (net_tcp_rtt now s) = so_peer_fin s"
  by (rule rtt_only[of now s]; simp)+

definition connected_socket :: "u64 \<Rightarrow> nat \<Rightarrow> nat \<Rightarrow> u32 \<Rightarrow> u32 \<Rightarrow> net_socket \<Rightarrow> net_socket" where
  "connected_socket now mss w una r s =
     (net_tcp_rtt now (s\<lparr>so_mss := mss, so_cwnd := mss * 2, so_peer_window := w, so_snd_una := una, so_rcv_nxt := r, so_state := NS_ESTABLISHED\<rparr>))\<lparr>so_sent_at := 0\<rparr>"

lemma connected_fields [simp]:
  "so_used (connected_socket now mss w una r s) = so_used s" "so_id (connected_socket now mss w una r s) = so_id s"
  "so_state (connected_socket now mss w una r s) = NS_ESTABLISHED" "so_rx_count (connected_socket now mss w una r s) = so_rx_count s"
  "so_rx_head (connected_socket now mss w una r s) = so_rx_head s" "so_tx_count (connected_socket now mss w una r s) = so_tx_count s"
  "so_mss (connected_socket now mss w una r s) = mss" "so_cwnd (connected_socket now mss w una r s) = mss * 2"
  "so_q_count (connected_socket now mss w una r s) = so_q_count s" "so_q_head (connected_socket now mss w una r s) = so_q_head s"
  "so_snd_nxt (connected_socket now mss w una r s) = so_snd_nxt s" "so_snd_una (connected_socket now mss w una r s) = una"
  by (simp_all add: connected_socket_def)

lemma ok_connected: "sock_ok s \<Longrightarrow> 0 < mss \<Longrightarrow> sock_ok (connected_socket now mss w (so_snd_nxt s) r s)"
  by (simp add: sock_ok_def fin_state_def)

lemma ok_connect_reply: "net_ok t \<Longrightarrow> net_ok (tcp_connect_reply h j family p k t)"
proof -
  assume ok: "net_ok t"
  have m: "0 < default_mss family" by (simp add: default_mss_def NET_MSS_def)
  have "net_ok (sock_upd j (\<lambda>s. connected_socket (n_now t) mss w (so_snd_nxt (n_sockets t j)) r s) t)" if "0 < mss" for mss w r
    by (rule ok_upd[OF ok]) (use that in \<open>simp_all add: ok_connected\<close>)
  then show ?thesis unfolding tcp_connect_reply_def Let_def net_tcp_options_def connected_socket_def
    using ok options_positive[OF _ m] by (auto split: option.split intro: ok_error)
qed

lemma ack_fields [simp]:
  "so_used (ack_data now ack s) = so_used s" "so_id (ack_data now ack s) = so_id s" "so_state (ack_data now ack s) = so_state s"
  "so_rx_count (ack_data now ack s) = so_rx_count s" "so_rx_head (ack_data now ack s) = so_rx_head s" "so_mss (ack_data now ack s) = so_mss s"
  "so_q_count (ack_data now ack s) = so_q_count s" "so_q_head (ack_data now ack s) = so_q_head s" "so_snd_nxt (ack_data now ack s) = so_snd_nxt s"
  "so_snd_una (ack_data now ack s) = ack" "so_tx_count (ack_data now ack s) = so_tx_count s - unat (ack - so_snd_una s)"
  by (simp_all add: ack_data_def grow_window_def shift_tx_def Let_def)

lemma ack_window: "0 < so_cwnd s \<Longrightarrow> 0 < so_cwnd (ack_data now ack s)"
  by (simp add: ack_data_def grow_window_def shift_tx_def NET_STREAM_def Let_def)

lemma ok_socket_ack:
  assumes "sock_ok s" "\<not> net_seq_before (so_snd_nxt s) ack" "net_seq_before (so_snd_una s) ack"
  shows "sock_ok (ack_data now ack s)"
proof -
  have "unat (so_snd_nxt s - ack) \<le> so_tx_count s - unat (ack - so_snd_una s)"
    if d: "unat (so_snd_nxt s - so_snd_una s) \<le> so_tx_count s"
  proof -
    have "so_tx_count s \<le> NET_STREAM" using assms(1) by (simp add: sock_ok_def)
    then have "unat (so_snd_nxt s - so_snd_una s) < 2 ^ 31" using d by (simp add: NET_STREAM_def)
    then show ?thesis using ack_between[OF assms(2,3)] d by simp
  qed
  moreover have "so_snd_nxt s = so_snd_una s \<Longrightarrow> so_snd_nxt s = ack"
  proof -
    assume e: "so_snd_nxt s = so_snd_una s"
    have "unat (so_snd_nxt s - so_snd_una s) < 2 ^ 31" using e by simp
    from ack_between(1)[OF assms(2,3) this] e show ?thesis by (simp add: unat_eq_zero)
  qed
  moreover have "so_tx_count s \<le> NET_STREAM \<Longrightarrow> so_tx_count s - n \<le> NET_STREAM" for n by simp
  ultimately show ?thesis using assms(1) ack_window[of s now ack] unfolding sock_ok_def ack_fields by simp
qed

lemma ok_ack_data:
  assumes "net_ok t" "\<not> net_seq_before (so_snd_nxt (n_sockets t j)) ack" "net_seq_before (so_snd_una (n_sockets t j)) ack"
  shows "net_ok (sock_upd j (ack_data now ack) t)"
  by (rule ok_upd[OF assms(1)]) (simp_all add: ok_socket_ack assms)

lemma ok_ack_fin: "net_ok t \<Longrightarrow> fin_state (so_state (n_sockets t j)) \<Longrightarrow> net_ok (sock_upd j (ack_fin now ack) t)"
  by (rule ok_upd) (auto simp: ack_fin_def sock_ok_def fin_state_def Let_def split: if_splits)

lemma ok_duplicate: "net_ok t \<Longrightarrow> net_ok (duplicate_ack h i j t)"
proof -
  assume ok: "net_ok t"
  let ?t = "sock_upd j (\<lambda>s. s\<lparr>so_dupacks := so_dupacks s + 1\<rparr>) t"
  have 1: "net_ok ?t" by (rule ok_upd[OF ok]) (auto simp: sock_ok_def)
  have 2: "net_ok (sock_upd j (\<lambda>s. s\<lparr>so_threshold := max (2 * so_mss s) (so_cwnd s div 2), so_cwnd := so_mss s,
      so_retransmitted := True, so_sent_at := now\<rparr>) ?t)" for now
    by (rule ok_upd[OF 1]) (auto simp: sock_ok_def)
  show ?thesis unfolding duplicate_ack_def Let_def using 1 2 by auto
qed

lemma ok_acknowledge:
  assumes "net_ok t" "\<not> net_seq_before (so_snd_nxt (n_sockets t j)) (net_be32 p 8)"
  shows "net_ok (snd (tcp_acknowledge h i j p len t))"
proof -
  have "net_ok (sock_upd j (\<lambda>s. (net_tcp_rtt now (s\<lparr>so_snd_una := so_snd_nxt (n_sockets t j), so_state := NS_ESTABLISHED\<rparr>))\<lparr>so_sent_at := 0\<rparr>) t)" for now
    by (rule ok_upd[OF assms(1)]) (auto simp: sock_ok_def fin_state_def)
  then show ?thesis unfolding tcp_acknowledge_def Let_def
    using assms by (auto intro: ok_ack_fin ok_ack_data ok_duplicate)
qed

lemma ok_take_fin: "sock_ok s \<Longrightarrow> sock_ok (take_fin now s)"
  by (auto simp: take_fin_def sock_ok_def fin_state_def Let_def)

lemma ok_take_data: "sock_ok s \<Longrightarrow> n \<le> NET_STREAM - so_rx_count s \<Longrightarrow> sock_ok (take_data p off n s)"
  by (auto simp: take_data_def sock_ok_def)

lemma receive_fields [simp]:
  "so_id (tcp_receive now p off len s) = so_id s" "so_used (tcp_receive now p off len s) = so_used s"
  by (simp_all add: tcp_receive_def take_data_def take_fin_def Let_def)

lemma ok_socket_receive: "sock_ok s \<Longrightarrow> sock_ok (tcp_receive now p off len s)"
  unfolding tcp_receive_def Let_def by (auto intro!: ok_take_fin ok_take_data)

lemma ok_receive: "net_ok t \<Longrightarrow> net_ok (sock_upd j (tcp_receive now p off len) t)"
  by (rule ok_upd) (auto intro: ok_socket_receive)

lemma ok_window: "net_ok t \<Longrightarrow> net_ok (sock_upd j (\<lambda>s. s\<lparr>so_peer_window := w\<rparr>) t)"
  by (rule ok_upd) (auto simp: sock_ok_def)

lemma ok_data: "net_ok t \<Longrightarrow> net_ok (tcp_data h j p k len t)"
  unfolding tcp_data_def Let_def by (auto intro!: ok_pump ok_receive ok_window)

lemma ok_ack_if_allowed: "net_ok t \<Longrightarrow> net_ok (ack_if_allowed h i j t)"
  by (simp add: ack_if_allowed_def case_prod_beta split: bool.split)

lemma ok_synchronized: "net_ok t \<Longrightarrow> net_ok (tcp_synchronized h i j p k len t)"
  unfolding tcp_synchronized_def Let_def using ok_acknowledge[of t j p h i len]
  by (auto simp: case_prod_beta split: bool.split intro: ok_error ok_ack_if_allowed ok_data)

lemma ok_socket_input: "net_ok t \<Longrightarrow> net_ok (tcp_socket_input h i j family p k len t)"
proof -
  assume ok: "net_ok t"
  let ?t = "sock_upd j (\<lambda>s. s\<lparr>so_activity := n_now t\<rparr>) t"
  have 1: "net_ok ?t" by (rule ok_upd[OF ok]) (auto simp: sock_ok_def)
  have 2: "net_ok (sock_upd j (\<lambda>s. s\<lparr>so_deadline := x\<rparr>) (net_tcp_ack h j ?t))" "net_ok (sock_upd j (\<lambda>s. s\<lparr>so_sent_at := 0\<rparr>) ?t)" for x
    by (rule ok_upd; use 1 in \<open>auto simp: sock_ok_def\<close>)+
  show ?thesis unfolding tcp_socket_input_def Let_def using 1 2
    by (auto intro: ok_connect_reply ok_synchronized ok_pump)
qed

lemma ok_tcp_input [inv_intros]: "net_ok t \<Longrightarrow> net_ok (net_tcp_input h i family src dst p n t)"
  unfolding net_tcp_input_def Let_def
  by (auto split: option.split prod.split intro: ok_socket_input ok_open ok_refuse)

end
