(* ===== verification/NetRun.thy ===== *)
theory NetRun
  imports NetInv
begin

unbundle bit_operations_syntax

text \<open>
  The invariant \<open>net_ok\<close> of the network stack in every run: the receive path, the calls and the worker keep it. A run is a sequence
  of calls of any task, frames that arrive, rounds of the worker and the passing of time (\<open>net_step\<close>).
\<close>

section \<open>Devices and tables\<close>

lemma ok_dev [simp]: "(\<And>d. dev_core (f d) = dev_core d) \<Longrightarrow> net_ok (dev_upd i f t) \<longleftrightarrow> net_ok t"
  by (rule ok_core[OF core_dev])

lemma ok_info [simp]: "(\<And>n. ni_id (f n) = ni_id n) \<Longrightarrow> (\<And>n. ni_mtu (f n) = ni_mtu n) \<Longrightarrow> net_ok (info_upd i f t) \<longleftrightarrow> net_ok t"
  by (rule ok_core[OF core_info])

lemma ok_tables [simp]:
  "net_ok (frag_upd k g t) \<longleftrightarrow> net_ok t" "net_ok (expire_fragments t) \<longleftrightarrow> net_ok t" "net_ok (ping_upd k g' t) \<longleftrightarrow> net_ok t"
  "net_ok (t\<lparr>n_pings := x1\<rparr>) \<longleftrightarrow> net_ok t" "net_ok (t\<lparr>n_neighbors := x2\<rparr>) \<longleftrightarrow> net_ok t" "net_ok (t\<lparr>n_gc_at := x3\<rparr>) \<longleftrightarrow> net_ok t"
  "net_ok (t\<lparr>n_ephemeral := x4\<rparr>) \<longleftrightarrow> net_ok t" "net_ok (t\<lparr>n_now := x5, n_ticks := x6\<rparr>) \<longleftrightarrow> net_ok t" "net_ok (t\<lparr>n_head := x7\<rparr>) \<longleftrightarrow> net_ok t"
  by (simp_all add: net_ok_def frag_upd_def expire_fragments_def ping_upd_def)

lemma ok_dequeue: "net_ok t \<Longrightarrow> net_ok (t\<lparr>n_head := x, n_queued := n_queued t - 1\<rparr>)"
  by (auto simp: net_ok_def)

lemmas ok_random [simp] = core_random[THEN ok_core]

lemma ok_fold: "net_ok t \<Longrightarrow> (\<And>x t. net_ok t \<Longrightarrow> net_ok (f x t)) \<Longrightarrow> net_ok (fold f xs t)"
  by (induction xs arbitrary: t) auto

lemma ok_if: "net_ok a \<Longrightarrow> net_ok b \<Longrightarrow> net_ok (if c then a else b)"
  by simp

text \<open>A new MTU is within the bounds of its adapter.\<close>

lemma ok_mtu:
  assumes "net_ok t" "1280 \<le> f (n_devices t i)" "i < n_devices_count t \<Longrightarrow> f (n_devices t i) \<le> 1500"
    and "\<And>d. ni_id (d_info (g d)) = ni_id (d_info d)" "\<And>d. ni_mtu (d_info (g d)) = f d" "\<And>d. d_kind (g d) = d_kind d"
    and "\<And>d. d_external_mtu (g d) = d_external_mtu d"
  shows "net_ok (dev_upd i g t)"
  using assms unfolding net_ok_def by (auto simp: dev_upd_def dev_core_def mtu_ok_def)

lemma external_mtu:
  "net_ok t \<Longrightarrow> i < n_devices_count t \<Longrightarrow> d_kind (n_devices t i) = NIC_EXTERNAL \<Longrightarrow>
   1280 \<le> d_external_mtu (n_devices t i) \<and> d_external_mtu (n_devices t i) \<le> 1500"
  by (auto simp: net_ok_def dev_core_def mtu_ok_def)

section \<open>Receiving\<close>

lemma ok_arp_input: "net_ok t \<Longrightarrow> net_ok (net_arp_input h i p n mac t)"
  unfolding net_arp_input_def Let_def by (auto simp: conflict_def dev_core_def)

lemma ok_router_lifetime: "net_ok t \<Longrightarrow> net_ok (router_lifetime i src life t)"
  by (simp add: router_lifetime_def config_upd_def dev_core_def)

lemma ok_prefix_option: "net_ok t \<Longrightarrow> net_ok (prefix_option i p at t)"
  by (simp add: prefix_option_def config_upd_def dev_core_def Let_def)

lemma ok_dns_option: "net_ok t \<Longrightarrow> net_ok (dns_option i p at t)"
  by (simp add: dns_option_def config_upd_def dev_core_def Let_def)

lemma ok_router_option:
  assumes "net_ok t"
  shows "net_ok (router_option i src p mac at t)"
proof -
  have "net_ok (info_upd i (\<lambda>n. n\<lparr>ni_mtu := unat mtu\<rparr>) t)"
    if "1280 \<le> (mtu :: u32)" "unat mtu \<le> (if d_kind (n_devices t i) = NIC_EXTERNAL then d_external_mtu (n_devices t i) else 1500)" for mtu
    unfolding info_upd_def
  proof (rule ok_mtu[OF assms, where f = "\<lambda>_. unat mtu"])
    show "1280 \<le> unat mtu" using that(1) by (simp add: word_le_nat_alt)
    show "unat mtu \<le> 1500" if "i < n_devices_count t"
      using \<open>unat mtu \<le> _\<close> external_mtu[OF assms that] by (cases "d_kind (n_devices t i) = NIC_EXTERNAL") auto
  qed simp_all
  then show ?thesis unfolding router_option_def Let_def
    using assms by (simp add: ok_prefix_option ok_dns_option)
qed

lemma ok_router_input: "net_ok t \<Longrightarrow> net_ok (router_input i src p n mac t)"
  unfolding router_input_def by (auto split: option.split intro!: ok_fold ok_router_option ok_router_lifetime)

lemma ok_neighbor_input: "net_ok t \<Longrightarrow> net_ok (neighbor_input h i src dst p n mac t)"
  unfolding neighbor_input_def nd_answer_def Let_def by (auto simp: conflict_def dev_core_def split: option.split)

lemma ok_nd_input: "net_ok t \<Longrightarrow> net_ok (net_nd_input h i src dst p n hop mac t)"
  by (simp add: net_nd_input_def ok_router_input ok_neighbor_input)

lemma ok_report:
  assumes "net_ok t" "plausible family p proto seq original (n_sockets t j)"
  shows "net_ok (report family p proto j t)"
proof -
  have z: "0 < reported_mtu family p - (if family = 4 then 40 else 60)"
    if "proto = 6" "so_type (n_sockets t j) = 2" "too_big family p"
    using assms(2) that by (auto simp: plausible_def)
  have "net_ok (sock_upd j (shrink_mss (reported_mtu family p - (if family = 4 then 40 else 60))) t)"
    if "proto = 6" "so_type (n_sockets t j) = 2" "too_big family p"
    by (rule ok_upd[OF assms(1)]) (use z[OF that] in \<open>auto simp: shrink_mss_def sock_ok_def split: if_splits\<close>)
  moreover have "net_ok (sock_upd j (\<lambda>s. s\<lparr>so_error := e\<rparr>) t)" for e
    by (rule ok_upd[OF assms(1)]) (simp_all add: sock_ok_def)
  ultimately show ?thesis unfolding report_def Let_def using assms(1) by (simp add: ok_error)
qed

lemma ok_icmp_failure: "net_ok t \<Longrightarrow> net_ok (net_icmp_failure i family dst p n t)"
  unfolding net_icmp_failure_def Let_def by (auto split: option.split intro: ok_report dest!: find_from_Some)

lemma ok_icmp_input: "net_ok t \<Longrightarrow> net_ok (net_icmp_input h i family src dst p n hop mac t)"
  unfolding net_icmp_input_def Let_def
  by (simp add: ok_icmp_failure ok_nd_input case_prod_beta split: bool.split)

lemma core_unreachable [simp]: "net_core (net_udp_unreachable h i family src dst p n t) = net_core t"
  unfolding net_udp_unreachable_def Let_def by (simp add: case_prod_beta split: bool.split)

lemma ok_udp_input: "net_ok t \<Longrightarrow> net_ok (net_udp_input h i family src dst p n t)"
proof -
  assume ok: "net_ok t"
  have "net_ok (sock_upd j (queue_datagram a p m) t)" if "so_q_count (n_sockets t j) \<noteq> NET_DGRAMS" for j a m
    by (rule ok_upd[OF ok]) (use that in \<open>auto simp: queue_datagram_def sock_ok_def Let_def\<close>)
  then show ?thesis unfolding net_udp_input_def Let_def
    using ok by (auto simp: core_unreachable[THEN ok_core] split: option.split)
qed

lemma ok_deliver: "net_ok t \<Longrightarrow> net_ok (net_ip_deliver h i family src dst proto p n hop mac t)"
  by (simp add: net_ip_deliver_def ok_icmp_input ok_udp_input ok_tcp_input)

lemma ok_frag_slot: "net_ok t \<Longrightarrow> frag_slot t inst family src dst proto ident = Some (k, t') \<Longrightarrow> net_ok t'"
  by (auto simp: frag_slot_def split: option.splits)

lemma ok_reassemble: "net_ok t \<Longrightarrow> net_ok (net_reassemble h i family src dst proto ident offset follow p n hop mac t)"
  unfolding net_reassemble_def Let_def
  by (auto split: option.split dest!: ok_frag_slot[rotated] intro!: ok_deliver)

lemma ok_ip4_input: "net_ok t \<Longrightarrow> net_ok (ip4_input h i p n mac t)"
  by (simp add: ip4_input_def Let_def ok_reassemble ok_deliver)

lemma ok_ip6_loop: "net_ok t \<Longrightarrow> net_ok (ip6_loop left h i p mac at remaining proto t)"
proof (induction left arbitrary: at remaining proto)
  case (Suc left)
  show ?case unfolding ip6_loop.simps Let_def
    by (intro ok_if ok_reassemble ok_deliver Suc.IH) (simp_all add: Suc.prems)
qed simp

lemma ok_ip6_input: "net_ok t \<Longrightarrow> net_ok (ip6_input h i p n mac t)"
  by (simp add: ip6_input_def Let_def ok_ip6_loop)

lemma ok_capture: "net_ok t \<Longrightarrow> net_ok (capture_frame f i t)"
  by (simp add: capture_frame_def Let_def dev_core_def)

lemma ok_receive_frame: "net_ok t \<Longrightarrow> net_ok (net_receive_frame h f t)"
  unfolding net_receive_frame_def Let_def by (simp add: ok_capture ok_arp_input ok_ip4_input ok_ip6_input)

section \<open>Calls\<close>

text \<open>Updates of a socket that touch none of its counts or sequence numbers.\<close>

definition same_core :: "(net_socket \<Rightarrow> net_socket) \<Rightarrow> bool" where
  "same_core f \<longleftrightarrow> (\<forall>s. so_id (f s) = so_id s \<and> (so_used (f s) \<longrightarrow> so_used s) \<and> (sock_ok s \<longrightarrow> sock_ok (f s)))"

lemma ok_same: "net_ok t \<Longrightarrow> same_core f \<Longrightarrow> net_ok (sock_upd i f t)"
  by (rule ok_upd) (auto simp: same_core_def)

lemma same_cores [simp]:
  "same_core (\<lambda>s. s\<lparr>so_local := a s\<rparr>)" "same_core (\<lambda>s. s\<lparr>so_parent := x\<rparr>)" "same_core (\<lambda>s. s\<lparr>so_error := e\<rparr>)"
  "same_core (\<lambda>s. s\<lparr>so_detached := b, so_close_requested := b'\<rparr>)" "same_core (\<lambda>s. s\<lparr>so_local := a s, so_peer := a' s\<rparr>)"
  "same_core (\<lambda>s. s\<lparr>so_used := False\<rparr>)" "same_core (\<lambda>s. s\<lparr>so_state := NS_LISTEN, so_backlog := y\<rparr>)"
  by (simp_all add: same_core_def sock_ok_def fin_state_def)

lemma ok_unuse' [simp]: "net_ok t \<Longrightarrow> net_ok (unuse i t)"
  unfolding unuse_def by (rule ok_same) simp_all

lemma same_port [simp]: "same_core (set_port x)"
  by (simp add: same_core_def set_port_def sock_ok_def)

text \<open>Choosing a port changes the port of that socket only.\<close>

definition only_port :: "nat \<Rightarrow> 'h net \<Rightarrow> 'h net \<Rightarrow> bool" where
  "only_port i t t' \<longleftrightarrow> (\<exists>x. n_sockets t' = (n_sockets t)(i := set_port x (n_sockets t i)))"

lemma only_port_step: "only_port i (sock_upd i (set_port x) t) t' \<Longrightarrow> only_port i t t'"
  by (auto simp: only_port_def sock_upd_def set_port_def)

lemma only_port_more: "only_port i (t\<lparr>n_ephemeral := e\<rparr>) t' \<longleftrightarrow> only_port i t t'"
  by (simp add: only_port_def)

lemma autobind_loop_ok: "net_ok t \<Longrightarrow> net_ok (snd (autobind_loop k i t)) \<and> only_port i t (snd (autobind_loop k i t))"
proof (induction k arbitrary: t)
  case 0
  then show ?case by (auto simp: only_port_def sock_upd_def[abs_def] intro!: ok_same[unfolded sock_upd_def])
next
  case (Suc k)
  let ?t = "(sock_upd i (set_port (word_of_nat (n_ephemeral t))) t)\<lparr>n_ephemeral := next_ephemeral (n_ephemeral t)\<rparr>"
  have "net_ok ?t" using Suc.prems by (simp add: ok_same)
  moreover have "only_port i t ?t" by (auto simp: only_port_def sock_upd_def)
  moreover have "only_port i t t'" if "only_port i ?t t'" for t'
    using that only_port_step unfolding only_port_more by blast
  ultimately show ?case using Suc.IH[of ?t] by (simp add: Let_def)
qed

lemma autobind_ok: "net_ok t \<Longrightarrow> net_ok (snd (net_autobind i t)) \<and> only_port i t (snd (net_autobind i t))"
proof -
  assume ok: "net_ok t"
  have "only_port i t t'" if "only_port i (snd (net_random t)) t'" for t'
    using that core_random[THEN core_parts(1), of t] by (simp add: only_port_def)
  moreover have "only_port i t t" by (auto simp: only_port_def set_port_def intro!: exI[of _ "a_port (so_local (n_sockets t i))"])
  ultimately show ?thesis
    using ok autobind_loop_ok[of "(snd (net_random t))\<lparr>n_ephemeral := e\<rparr>" 16384 i for e]
    unfolding net_autobind_def by (auto simp: case_prod_beta only_port_more)
qed

lemma only_port_fields:
  "only_port i t t' \<Longrightarrow> so_snd_nxt (n_sockets t' i) = so_snd_nxt (n_sockets t i) \<and> so_snd_una (n_sockets t' i) = so_snd_una (n_sockets t i) \<and>
     so_state (n_sockets t' i) = so_state (n_sockets t i) \<and> so_used (n_sockets t' i) = so_used (n_sockets t i)"
  by (auto simp: only_port_def set_port_def)

text \<open>An unconnected socket may change its state: nothing is in flight.\<close>

lemma ok_state:
  assumes "net_ok t" "so_used (n_sockets t i) \<Longrightarrow> so_snd_nxt (n_sockets t i) = so_snd_una (n_sockets t i)" 
    and "\<not> fin_state x" "x \<noteq> NS_FIN_WAIT2" "x \<noteq> NS_TIME_WAIT"
  shows "net_ok (sock_upd i (\<lambda>s. s\<lparr>so_state := x\<rparr>) t)"
  by (rule ok_upd[OF assms(1)]) (use assms(2-5) in \<open>auto simp: sock_ok_def\<close>)

lemma unconnected:
  "net_ok t \<Longrightarrow> so_used (n_sockets t i) \<Longrightarrow> so_state (n_sockets t i) = NS_NEW \<or> so_state (n_sockets t i) = NS_BOUND \<Longrightarrow>
   so_snd_nxt (n_sockets t i) = so_snd_una (n_sockets t i)"
  by (auto dest!: ok_socket simp: sock_ok_def)

lemma on_socket_ok:
  assumes "net_ok t" "\<And>i. so_used (n_sockets t i) \<Longrightarrow> net_ok (snd (body i t))"
  shows "net_ok (snd (on_socket c k handle fail body t))"
  using assms by (auto simp: on_socket_def net_socket_owned_def Let_def split: option.split dest!: find_from_Some)

lemma ok_socket_call: "net_ok t \<Longrightarrow> net_ok (snd (k_net_socket c k family type t))"
proof -
  assume ok: "net_ok t"
  have "net_ok t'" if "net_socket_new family type owner t = (x, t')" for x t' owner
    using that ok ok_new(1)[OF ok] by (cases x) (auto simp: net_socket_new_def split: if_splits option.splits)
  then show ?thesis using ok unfolding k_net_socket_def by (auto split: prod.split option.split)
qed

lemma ok_bind: "net_ok t \<Longrightarrow> net_ok (snd (bind_socket privileged a i t))"
proof -
  assume ok: "net_ok t"
  let ?t = "sock_upd i (\<lambda>s. s\<lparr>so_local := a\<rparr>) t"
  have l: "net_ok ?t" by (rule ok_same[OF ok]) simp
  note a = autobind_ok[OF l, of i]
  have "net_ok (sock_upd i (\<lambda>s. s\<lparr>so_state := NS_BOUND\<rparr>) (snd (net_autobind i ?t)))" if "so_state (n_sockets t i) = NS_NEW"
    using a only_port_fields[of i ?t] unconnected[OF ok, of i] that
    by (intro ok_state) (auto simp: fin_state_def upd_same)
  then show ?thesis using ok a unfolding bind_socket_def Let_def by (auto simp: case_prod_beta)
qed

lemma ok_listen: "net_ok t \<Longrightarrow> net_ok (snd (listen_socket backlog i t))"
  using autobind_ok[of t i] unfolding listen_socket_def Let_def by (auto simp: case_prod_beta intro!: ok_same)

lemma ok_start_connect:
  assumes ok: "net_ok t" and "so_used (n_sockets t i)" "so_state (n_sockets t i) = NS_NEW \<or> so_state (n_sockets t i) = NS_BOUND"
  shows "net_ok (snd (start_connect h peer i t))"
proof -
  let ?a = "snd (net_autobind i t)"
  let ?f = "\<lambda>x y s. s\<lparr>so_local := (so_local s)\<lparr>a_interface := x, a_bytes := put_bytes (a_bytes (so_local s)) 0 y 0 16\<rparr>, so_peer := peer\<lparr>a_interface := x\<rparr>\<rparr>"
  note a = autobind_ok[OF ok, of i]
  have b: "net_ok (sock_upd i (?f x y) ?a)" for x y using a by (auto intro!: ok_same)
  have u: "net_ok (sock_upd i (\<lambda>s. s\<lparr>so_state := NS_ESTABLISHED\<rparr>) (sock_upd i (?f x y) ?a))" for x y
    using a only_port_fields[of i t ?a] unconnected[OF assms] by (intro ok_state b) (auto simp: fin_state_def upd_same)
  have "same_core (connecting iss)" for iss by (auto simp: same_core_def connecting_def sock_ok_def fin_state_def)
  then have "net_ok (net_tcp_pump h i (sock_upd i (connecting iss) (snd (net_random (sock_upd i (?f x y) ?a)))))" for x y iss
    using b by (intro ok_pump ok_same) simp_all
  then show ?thesis unfolding start_connect_def Let_def using ok a b u
    by (auto simp: case_prod_beta split: sum.split prod.split)
qed

lemma ok_connect: "net_ok t \<Longrightarrow> so_used (n_sockets t i) \<Longrightarrow> net_ok (snd (connect_socket h peer i t))"
  using ok_start_connect[of t i h peer] unfolding connect_socket_def Let_def by (auto simp: case_prod_beta)

lemma ok_accept_loop: "net_ok t \<Longrightarrow> net_ok (snd (accept_loop parent js t))"
  by (induction parent js t rule: accept_loop.induct) (auto simp: Let_def ok_same)

lemma core_udp_output [simp]: "net_core (snd (net_udp_output h privileged s data n to t)) = net_core t"
  unfolding net_udp_output_def Let_def by (auto split: sum.split)

lemma ok_send_udp: "net_ok t \<Longrightarrow> net_ok (snd (send_udp h privileged data n to i t))"
proof -
  assume ok: "net_ok t"
  let ?a = "snd (net_autobind i t)"
  note a = autobind_ok[OF ok, of i]
  have "net_ok (sock_upd i (\<lambda>s. s\<lparr>so_state := NS_BOUND\<rparr>) ?a)" if "so_state (n_sockets ?a i) = NS_NEW"
    using a that unconnected[of ?a i] by (intro ok_state) (auto simp: fin_state_def)
  then show ?thesis unfolding send_udp_def Let_def
    using ok a by (auto simp: case_prod_beta core_udp_output[THEN ok_core])
qed

lemma ok_append: "sock_ok s \<Longrightarrow> data_state s \<Longrightarrow> so_tx_count s + n \<le> NET_STREAM \<Longrightarrow> sock_ok (append_tx data n s)"
  unfolding data_state_def by (elim disjE) (simp_all add: append_tx_def sock_ok_def fin_state_def)

lemma ok_send_tcp: "net_ok t \<Longrightarrow> net_ok (snd (send_tcp h data n to i t))"
proof -
  assume ok: "net_ok t"
  let ?m = "min n (NET_STREAM - so_tx_count (n_sockets t i))"
  have "net_ok (sock_upd i (append_tx data ?m) t)" if d: "data_state (n_sockets t i)"
  proof (rule ok_upd[OF ok])
    assume s: "sock_ok (n_sockets t i)"
    then have "so_tx_count (n_sockets t i) \<le> NET_STREAM" by (simp add: sock_ok_def)
    then show "sock_ok (append_tx data ?m (n_sockets t i))" by (intro ok_append s d) linarith
  qed (simp_all add: append_tx_def)
  then show ?thesis unfolding send_tcp_def Let_def data_state_def using ok by (auto intro!: ok_pump)
qed

lemma ok_receive_call: "net_ok t \<Longrightarrow> net_ok (snd (receive_udp n i t))" "net_ok t \<Longrightarrow> net_ok (snd (receive_tcp h n i t))"
proof -
  assume ok: "net_ok t"
  have "same_core drop_datagram" "same_core (drop_rx m)" for m
    by (auto simp: same_core_def drop_datagram_def drop_rx_def sock_ok_def NET_DGRAMS_def NET_STREAM_def)
  then show "net_ok (snd (receive_udp n i t))" "net_ok (snd (receive_tcp h n i t))"
    unfolding receive_udp_def receive_tcp_def Let_def using ok by (auto intro!: ok_same)
qed

lemma ok_close_internal: "net_ok t \<Longrightarrow> net_ok (net_close_internal h i t)"
  unfolding net_close_internal_def reset_packet_def Let_def
  by (auto intro!: ok_unuse' ok_fold ok_pump ok_same)

lemma ok_restart:
  assumes "net_ok t" "cf_interface c < n_devices_count t"
  shows "net_ok (restart_interface c t)"
proof -
  define g :: "net_device \<Rightarrow> net_device" where "g = (\<lambda>d. d\<lparr>d_info := (d_info d)\<lparr>ni_flags := ni_flags (d_info d) AND NOT (K_NET_READY4 OR K_NET_READY6 OR K_NET_CONFLICT),
                                  ni_mtu := if d_kind d = NIC_EXTERNAL then d_external_mtu d else 1500\<rparr>,
                d_dad4 := if net_be32 (cf_address c) 0 \<noteq> 0 then 3 else 0, d_dad6 := 3, d_dadglobal := if net_zero (cf_address6 c) 16 then 0 else 3,
                d_dad_at := n_now t, d_probe_at := n_now t, d_auto_rs := 3, d_router_until := 0, d_prefix_until := 0, d_dns_until := 0\<rparr>)"
  have "net_ok (dev_upd (cf_interface c) g t)"
    by (rule ok_mtu[OF assms(1), where f = "\<lambda>d. if d_kind d = NIC_EXTERNAL then d_external_mtu d else 1500"])
      (use external_mtu[OF assms] in \<open>simp_all add: g_def\<close>)
  then show ?thesis unfolding restart_interface_def Let_def g_def[symmetric]
    by (intro ok_fold) (simp_all add: ok_error)
qed

lemma ok_configure: "net_ok t \<Longrightarrow> net_ok (snd (k_net_configure c k cf t))"
proof -
  assume ok: "net_ok t"
  have d: "n_devices_count (dev_upd i f t) = n_devices_count t" for i f by (simp add: dev_upd_def)
  show ?thesis unfolding k_net_configure_def Let_def
    using ok by (auto simp: dev_core_def d intro!: ok_restart)
qed

lemma ok_calls:
  assumes "net_ok t"
  shows "net_ok (snd (k_net_bind c k handle a t))" "net_ok (snd (connect_step h c k handle a timeout start t))"
    "net_ok (snd (k_net_connect h c k handle a timeout t))" "net_ok (snd (k_net_listen c k handle backlog t))"
    "net_ok (snd (k_net_accept c k handle t))" "net_ok (snd (k_net_send h c k handle data n to t))"
    "net_ok (snd (k_net_receive h c k handle n t))" "net_ok (snd (k_net_close h c k handle t))"
proof -
  show s: "net_ok (snd (connect_step h c k handle a timeout start t))" for timeout start
    unfolding connect_step_def using assms by (auto simp: case_prod_beta intro!: on_socket_ok ok_connect)
  show "net_ok (snd (k_net_connect h c k handle a timeout t))" using assms s by (simp add: k_net_connect_def)
  show "net_ok (snd (k_net_bind c k handle a t))" using assms by (auto simp: k_net_bind_def intro!: on_socket_ok ok_bind)
  show "net_ok (snd (k_net_listen c k handle backlog t))" using assms by (auto simp: k_net_listen_def intro!: on_socket_ok ok_listen)
  show "net_ok (snd (k_net_accept c k handle t))" using assms by (auto simp: k_net_accept_def intro!: on_socket_ok ok_accept_loop)
  show "net_ok (snd (k_net_send h c k handle data n to t))"
    using assms by (auto simp: k_net_send_def send_socket_def Let_def split: option.split intro!: on_socket_ok ok_send_udp ok_send_tcp)
  show "net_ok (snd (k_net_receive h c k handle n t))"
    using assms by (auto simp: k_net_receive_def intro!: on_socket_ok ok_receive_call)
  show "net_ok (snd (k_net_close h c k handle t))" using assms by (auto simp: k_net_close_def intro!: on_socket_ok ok_close_internal)
qed

lemma ok_raw:
  assumes "net_ok t"
  shows "net_ok (snd (k_net_raw_send h c k i p n t))" "net_ok (snd (k_net_raw_receive c k i out t))"
    "net_ok (snd (ping_start c k to timeout t))" "net_ok (snd (ping_step h c k to timeout start slot i src sent t))" "net_ok (snd (k_net_nonce t))"
proof -
  show "net_ok (snd (k_net_raw_send h c k i p n t))" using assms by (simp add: k_net_raw_send_def)
  show "net_ok (snd (k_net_raw_receive c k i out t))" using assms by (simp add: k_net_raw_receive_def Let_def dev_core_def)
  show "net_ok (snd (ping_start c k to timeout t))" using assms by (simp add: ping_start_def case_prod_beta split: option.split sum.split)
  show "net_ok (snd (ping_step h c k to timeout start slot i src sent t))" using assms by (simp add: ping_step_def case_prod_beta Let_def)
  show "net_ok (snd (k_net_nonce t))" using assms by (simp add: k_net_nonce_def)
qed

lemma ok_attach: "net_ok t \<Longrightarrow> net_ok (snd (k_net_attach c k mtu mac t))"
  by (auto simp: k_net_attach_def net_ok_def Let_def less_Suc_eq external_device_def dev_core_def mtu_ok_def)

section \<open>The worker\<close>

lemma core_expire: "dev_core (expire_config now d) = dev_core d"
  by (simp add: expire_config_def dev_core_def Let_def)

lemma ok_probes: "net_ok t \<Longrightarrow> net_ok (probe4 h i t)" "net_ok t \<Longrightarrow> net_ok (probe6 h i t)" "net_ok t \<Longrightarrow> net_ok (probe_global h i t)"
  "net_ok t \<Longrightarrow> net_ok (router_solicit h i t)"
  by (simp_all add: probe4_def probe6_def probe_global_def router_solicit_def Let_def case_prod_beta dev_core_def)

lemma ok_poll_device: "net_ok t \<Longrightarrow> net_ok (poll_device h i t)"
proof -
  assume "net_ok t"
  then have "net_ok (dev_upd i (expire_config (n_now t)) t)" by (simp add: core_expire)
  then show ?thesis unfolding poll_device_def Let_def by (simp add: ok_probes dev_core_def)
qed

lemma ok_poll_socket: "net_ok t \<Longrightarrow> net_ok (poll_socket h k gc i t)"
  by (simp add: poll_socket_def Let_def ok_close_internal ok_pump)

lemma ok_poll_capture: "net_ok t \<Longrightarrow> net_ok (poll_capture k i t)"
  by (simp add: poll_capture_def Let_def dev_core_def)

lemma ok_poll: "net_ok t \<Longrightarrow> net_ok (net_poll_protocols h k t)"
  unfolding net_poll_protocols_def Let_def by (simp add: ok_fold ok_poll_device ok_poll_socket ok_poll_capture)

lemma ok_drain: "net_ok t \<Longrightarrow> net_ok (drain_queue budget h t)"
  by (induction budget arbitrary: t) (auto simp: Let_def intro!: ok_receive_frame ok_dequeue[simplified])

lemma ok_worker: "net_ok t \<Longrightarrow> net_ok (worker_round h k t)"
  by (simp add: worker_round_def ok_poll ok_drain)

section \<open>Runs\<close>

inductive net_step :: "'h nics \<Rightarrow> 'h net \<Rightarrow> 'h net \<Rightarrow> bool" for h where
  socket: "net_step h t (snd (k_net_socket c k family type t))"
| bind: "net_step h t (snd (k_net_bind c k handle a t))"
| connect: "net_step h t (snd (k_net_connect h c k handle a timeout t))"
| connect_wait: "net_step h t (snd (connect_step h c k handle a timeout start t))"
| listen: "net_step h t (snd (k_net_listen c k handle backlog t))"
| accept: "net_step h t (snd (k_net_accept c k handle t))"
| send: "net_step h t (snd (k_net_send h c k handle data n to t))"
| receive: "net_step h t (snd (k_net_receive h c k handle n t))"
| close: "net_step h t (snd (k_net_close h c k handle t))"
| configure: "net_step h t (snd (k_net_configure c k cf t))"
| raw_send: "net_step h t (snd (k_net_raw_send h c k i data n t))"
| raw_receive: "net_step h t (snd (k_net_raw_receive c k i out t))"
| ping: "net_step h t (snd (ping_start c k a timeout t))"
| ping_wait: "net_step h t (snd (ping_step h c k a timeout start slot i src sent t))"
| nonce: "net_step h t (snd (k_net_nonce t))"
| attach: "net_step h t (snd (k_net_attach c k mtu mac t))"
| arrive: "net_step h t (snd (net_enqueue i data n t))"
| work: "net_step h t (worker_round h k t)"
| time: "net_step h t (t\<lparr>n_now := now, n_ticks := ticks\<rparr>)"

text \<open>What \<open>k_net_init\<close> leaves behind.\<close>

definition net_boot :: "'h net \<Rightarrow> bool" where
  "net_boot t \<longleftrightarrow>
     (\<forall>j. \<not> so_used (n_sockets t j)) \<and> n_next_socket t = 1 \<and> n_queued t = 0 \<and>
     (\<forall>i<n_devices_count t. ni_mtu (dinfo t i) = 1500 \<and> d_kind (n_devices t i) \<noteq> NIC_EXTERNAL)"

lemma ok_boot: "net_boot t \<Longrightarrow> net_ok t"
  by (auto simp: net_boot_def net_ok_def mtu_ok_def dev_core_def handles_ok_def)

lemma ok_step: "net_step h t t' \<Longrightarrow> net_ok t \<Longrightarrow> net_ok t'"
  by (induction rule: net_step.induct)
    (simp_all add: ok_socket_call ok_calls ok_configure ok_attach ok_raw ok_worker core_enqueue[THEN ok_core])

text \<open>
  C11. In every run of the network stack (calls of any tasks, frames of any contents, worker rounds and time) from its start: the
  receive and send rings and the datagram queue of every socket stay within their arrays, segment size and congestion window are
  positive, so the send loop ends; the bytes in flight of a connection are among those kept for retransmission, and once a FIN has been
  sent none are left; no two sockets have the same handle; the receive queue holds at most 64 frames.
\<close>

theorem net_invariant:
  assumes "(net_step h)\<^sup>*\<^sup>* t0 t" "net_boot t0"
  shows "(\<forall>j. so_used (n_sockets t j) \<longrightarrow>
      so_rx_count (n_sockets t j) \<le> NET_STREAM \<and> so_rx_head (n_sockets t j) < NET_STREAM \<and> so_tx_count (n_sockets t j) \<le> NET_STREAM \<and>
      so_q_count (n_sockets t j) \<le> NET_DGRAMS \<and> so_q_head (n_sockets t j) < NET_DGRAMS \<and>
      0 < so_mss (n_sockets t j) \<and> 0 < so_cwnd (n_sockets t j) \<and>
      (so_state (n_sockets t j) \<in> {NS_ESTABLISHED, NS_CLOSE_WAIT} \<longrightarrow>
        unat (so_snd_nxt (n_sockets t j) - so_snd_una (n_sockets t j)) \<le> so_tx_count (n_sockets t j)) \<and>
      (so_state (n_sockets t j) \<in> {NS_FIN_WAIT1, NS_FIN_WAIT2, NS_CLOSING, NS_LAST_ACK, NS_TIME_WAIT} \<longrightarrow> so_tx_count (n_sockets t j) = 0)) \<and>
    (\<forall>j k. so_used (n_sockets t j) \<and> so_used (n_sockets t k) \<and> so_id (n_sockets t j) = so_id (n_sockets t k) \<longrightarrow> j = k) \<and>
    n_queued t \<le> NET_RXQ"
proof (intro conjI allI impI)
  have ok: "net_ok t" using assms(1) by (induction rule: rtranclp_induct) (auto intro: ok_boot[OF assms(2)] ok_step)
  then show "n_queued t \<le> NET_RXQ" by (simp add: net_ok_def)
  show "j = k" if "so_used (n_sockets t j) \<and> so_used (n_sockets t k) \<and> so_id (n_sockets t j) = so_id (n_sockets t k)" for j k
    using ok that unfolding net_ok_def handles_ok_def by (auto dest: inj_onD)
  fix j
  assume "so_used (n_sockets t j)"
  from ok_socket[OF ok this] show "so_rx_count (n_sockets t j) \<le> NET_STREAM" "so_rx_head (n_sockets t j) < NET_STREAM"
    "so_tx_count (n_sockets t j) \<le> NET_STREAM" "so_q_count (n_sockets t j) \<le> NET_DGRAMS" "so_q_head (n_sockets t j) < NET_DGRAMS"
    "0 < so_mss (n_sockets t j)" "0 < so_cwnd (n_sockets t j)"
    "so_state (n_sockets t j) \<in> {NS_ESTABLISHED, NS_CLOSE_WAIT} \<Longrightarrow>
       unat (so_snd_nxt (n_sockets t j) - so_snd_una (n_sockets t j)) \<le> so_tx_count (n_sockets t j)"
    "so_state (n_sockets t j) \<in> {NS_FIN_WAIT1, NS_FIN_WAIT2, NS_CLOSING, NS_LAST_ACK, NS_TIME_WAIT} \<Longrightarrow> so_tx_count (n_sockets t j) = 0"
    unfolding sock_ok_def fin_state_def by auto
qed

definition ex_net :: "unit net" where
  "ex_net =
     \<lparr>n_devices = (\<lambda>_. zero_device\<lparr>d_info := zero_info\<lparr>ni_mtu := 1500\<rparr>\<rparr>), n_devices_count = 1, n_sockets = (\<lambda>_. zero_socket),
      n_neighbors = (\<lambda>_. \<lparr>nb_used = False, nb_interface = 0, nb_family = 0, nb_address = (\<lambda>_. 0), nb_mac = (\<lambda>_. 0), nb_expires = 0, nb_requested = 0, nb_probes = 0\<rparr>),
      n_fragments = (\<lambda>_. (fresh_fragment 0 0 (\<lambda>_. 0) (\<lambda>_. 0) 0 0 0)\<lparr>fg_used := False\<rparr>),
      n_queue = (\<lambda>_. \<lparr>nf_interface = 0, nf_length = 0, nf_tick = 0, nf_bytes = (\<lambda>_. 0)\<rparr>), n_head = 0, n_queued = 0, n_next_socket = 1,
      n_ephemeral = 49152, n_ip_id = 0, n_key0 = 1, n_key1 = 2, n_counter = 0, n_gc_at = 0,
      n_pings = (\<lambda>_. \<lparr>pg_used = False, pg_done = False, pg_token = 0, pg_owner = 0, pg_ms = 0, pg_peer = zero_address, pg_sent = 0\<rparr>),
      n_ready = True, n_now = 5, n_ticks = 5, n_hw = ()\<rparr>"

text \<open>The invariant in a state with two open sockets.\<close>

theorem net_invariant_witness:
  "\<forall>k. let t = snd (k_net_socket 0 k 4 2 (snd (k_net_socket 0 k 4 2 ex_net))) in
     net_boot ex_net \<and> so_used (n_sockets t 0) \<and> so_used (n_sockets t 1) \<and> so_id (n_sockets t 0) \<noteq> so_id (n_sockets t 1) \<and>
     0 < so_mss (n_sockets t 1) \<and> n_queued t \<le> NET_RXQ"
proof
  fix k
  let ?u = "snd (k_net_socket 0 k 4 2 ex_net)"
  let ?t = "snd (k_net_socket 0 k 4 2 ?u)"
  have n: "net_socket_new 4 2 x ex_net = (Some 0, (sock_upd 0 (\<lambda>_. fresh_socket 1 4 2 x 5) ex_net)\<lparr>n_next_socket := 2\<rparr>)" for x
    by (simp add: net_socket_new_def ex_net_def find_from_def zero_socket_def K_NET_MAX_SOCKETS_def upt_rec add32_def)
  have u: "?u = (sock_upd 0 (\<lambda>_. fresh_socket 1 4 2 (k_task_id 0 k) 5) ex_net)\<lparr>n_next_socket := 2\<rparr>"
    unfolding k_net_socket_def n by (simp add: ex_net_def)
  have n': "net_socket_new 4 2 x ?u = (Some 1, (sock_upd 1 (\<lambda>_. fresh_socket 2 4 2 x 5) ?u)\<lparr>n_next_socket := 3\<rparr>)" for x
    unfolding u by (simp add: net_socket_new_def sock_upd_def ex_net_def fresh_socket_def find_from_def zero_socket_def K_NET_MAX_SOCKETS_def upt_rec add32_def Let_def)
  have t: "?t = (sock_upd 1 (\<lambda>_. fresh_socket 2 4 2 (k_task_id 0 k) 5) ?u)\<lparr>n_next_socket := 3\<rparr>"
    unfolding k_net_socket_def[of 0 k 4 2 ?u] n' unfolding u by (simp add: sock_upd_def ex_net_def)
  have b: "net_boot ex_net" by (simp add: net_boot_def ex_net_def zero_socket_def zero_device_def zero_info_def)
  have r: "(net_step h)\<^sup>*\<^sup>* ex_net ?t" for h by (meson net_step.socket rtranclp.rtrancl_refl rtranclp.rtrancl_into_rtrancl)
  have "so_used (n_sockets ?u 0)" unfolding u by (simp add: sock_upd_def fresh_socket_def zero_socket_def Let_def)
  then have f: "so_used (n_sockets ?t 0)" "so_used (n_sockets ?t 1)"
    by (subst t; simp add: sock_upd_def fresh_socket_def zero_socket_def Let_def)+
  show "let t = ?t in net_boot ex_net \<and> so_used (n_sockets t 0) \<and> so_used (n_sockets t 1) \<and> so_id (n_sockets t 0) \<noteq> so_id (n_sockets t 1) \<and>
     0 < so_mss (n_sockets t 1) \<and> n_queued t \<le> NET_RXQ"
    using net_invariant[OF r b] f b unfolding Let_def by (metis zero_neq_one)
qed

end
