(* ===== verification/NetStream.thy ===== *)
theory NetStream
  imports NetRun Queue
begin

unbundle bit_operations_syntax

text \<open>
  The receive side of a connection as a queue of bytes: \<open>stream\<close> is what the ring buffer holds. Segments append to it what the
  sender sent next, \<open>k_net_receive\<close> takes bytes from its front, and nothing else changes it.
\<close>

section \<open>Rings\<close>

definition stream :: "net_socket \<Rightarrow> u8 list" where
  "stream s = ring_bytes (so_rx s) (so_rx_head s) (so_rx_count s)"

lemma mod_apart: "x < y \<Longrightarrow> y < x + N \<Longrightarrow> x mod N \<noteq> y mod (N :: nat)"
proof
  assume a: "x < y" "y < x + N" "x mod N = y mod N"
  then have "N dvd y - x" by (metis less_imp_le mod_eq_dvd_iff_nat)
  then show False using a(1,2) by (auto dest: dvd_imp_le)
qed

lemma put_ring_Suc: "put_ring rx at p off (Suc n) = (put_ring rx at p off n)((at + n) mod NET_STREAM := p (off + n))"
  by (simp add: put_ring_def)

lemma ring_Suc: "ring_bytes rx head (Suc n) = ring_bytes rx head n @ [rx ((head + n) mod NET_STREAM)]"
  by (simp add: ring_bytes_def)

lemma ring_other: "n < NET_STREAM \<Longrightarrow> ring_bytes (rx((head + n) mod NET_STREAM := x)) head n = ring_bytes rx head n"
  unfolding ring_bytes_def by (rule map_cong) (use mod_apart[of "head + _" "head + n" NET_STREAM] in auto)

lemma ring_append:
  "count + n \<le> NET_STREAM \<Longrightarrow>
   ring_bytes (put_ring rx (head + count) p off n) head (count + n) = ring_bytes rx head count @ map (\<lambda>x. p (off + x)) [0..<n]"
proof (induction n)
  case 0
  then show ?case by (simp add: put_ring_def)
next
  case (Suc n)
  let ?r = "put_ring rx (head + count) p off n"
  have "ring_bytes (?r((head + count + n) mod NET_STREAM := p (off + n))) head (count + n) = ring_bytes ?r head (count + n)"
    using ring_other[of "count + n" ?r head] Suc.prems by (simp add: add.assoc)
  then show ?case using Suc.IH Suc.prems unfolding put_ring_Suc add_Suc_right ring_Suc by (simp add: add.assoc)
qed

lemma ring_split: "m \<le> n \<Longrightarrow> ring_bytes rx head n = ring_bytes rx head m @ ring_bytes rx ((head + m) mod NET_STREAM) (n - m)"
proof -
  assume "m \<le> n"
  then have "[0..<n] = [0..<m] @ map (\<lambda>i. m + i) [0..<n - m]"
    using upt_add_eq_append[of 0 m "n - m"] map_add_upt[of m "n - m"] by (simp add: add.commute)
  then show ?thesis by (simp add: ring_bytes_def mod_add_left_eq add.assoc)
qed

section \<open>What leaves the streams alone\<close>

definition rx_part :: "net_socket \<Rightarrow> bytes \<times> nat \<times> nat \<times> u32" where
  "rx_part s = (so_rx s, so_rx_head s, so_rx_count s, so_rcv_nxt s)"

definition rx_of :: "'h net \<Rightarrow> nat \<Rightarrow> bytes \<times> nat \<times> nat \<times> u32" where
  "rx_of t j = rx_part (n_sockets t j)"

lemma rx_core: "net_core t' = net_core t \<Longrightarrow> rx_of t' = rx_of t"
  by (rule ext) (simp add: rx_of_def core_parts(1)[of t' t])

lemma rx_upd: "rx_part (f (n_sockets t i)) = rx_part (n_sockets t i) \<Longrightarrow> rx_of (sock_upd i f t) = rx_of t"
  by (auto simp: rx_of_def sock_upd_def fun_eq_iff)

lemma stream_rx: "rx_part s' = rx_part s \<Longrightarrow> stream s' = stream s \<and> so_rcv_nxt s' = so_rcv_nxt s"
  by (simp add: rx_part_def stream_def)

lemmas rx_sent [simp] = core_tcp_packet[THEN rx_core] core_ack[THEN rx_core] core_allow[THEN rx_core] core_counts(1)[THEN rx_core]
  core_counts(2)[THEN rx_core] core_counts(4)[THEN rx_core] core_resend[THEN rx_core] core_random[THEN rx_core]

lemma rx_error [simp]: "rx_of (net_tcp_error i e t) = rx_of t"
  unfolding net_tcp_error_def by (rule rx_upd) (simp add: rx_part_def error_socket_def)

lemma rx_unuse [simp]: "rx_of (sock_upd i (so_used_update (\<lambda>_. False)) t) = rx_of t"
  by (rule rx_upd) (simp add: rx_part_def)

lemma rx_clamp [simp]: "rx_of (sock_upd i (clamp_mss u) t) = rx_of t"
  by (rule rx_upd) (simp add: rx_part_def clamp_mss_def Let_def)

lemma rx_back_off [simp]: "rx_of (sock_upd i (back_off now) t) = rx_of t"
  by (rule rx_upd) (simp add: rx_part_def back_off_def)

lemma rx_pump_resend [simp]: "rx_of (snd (pump_resend h i t)) = rx_of t"
  by (simp add: pump_resend_def Let_def case_prod_beta)

lemma rx_pump_head [simp]: "rx_of (snd (pump_head h i t)) = rx_of t"
  by (simp add: pump_head_def Let_def)

lemma rx_advance [simp]: "rx_of (sock_upd i (advance now inflight n) t) = rx_of t"
  by (rule rx_upd) (simp add: rx_part_def advance_def)

lemma rx_send_loop [simp]: "rx_of (snd (send_loop h i window inflight t)) = rx_of t"
proof (induction h i window inflight t rule: send_loop.induct)
  case (1 h i window inflight t)
  have "net_tcp_packet h s q fl d n t = (e, t') \<Longrightarrow> rx_of t' = rx_of t" for s q fl d n e t' by (metis rx_sent(1) snd_conv)
  then show ?case using 1 by (subst send_loop.simps) (auto simp: Let_def split: prod.split)
qed

lemma rx_persist [simp]: "rx_of (persist h i inflight t) = rx_of t"
proof -
  have "rx_of (sock_upd i (so_persist_at_update (\<lambda>_. x)) u) = rx_of u" for x and u :: "'a net" by (rule rx_upd) (simp add: rx_part_def)
  then show ?thesis by (simp add: persist_def Let_def)
qed

lemma rx_start_fin [simp]: "rx_of (sock_upd i start_fin t) = rx_of t"
  by (rule rx_upd) (simp add: rx_part_def start_fin_def)

lemma rx_pump [simp]: "rx_of (net_tcp_pump h i t) = rx_of t"
proof -
  have "rx_of (pump_tail h i t) = rx_of t" for t :: "'a net"
    unfolding pump_tail_def Let_def by (simp add: case_prod_beta split: option.split)
  then show ?thesis by (simp add: net_tcp_pump_def case_prod_beta split: bool.split)
qed

lemma rx_ack_data [simp]: "rx_of (sock_upd i (ack_data now ack) t) = rx_of t"
  by (rule rx_upd) (simp add: rx_part_def ack_data_def grow_window_def shift_tx_def Let_def)

lemma rx_ack_fin [simp]: "rx_of (sock_upd i (ack_fin now ack) t) = rx_of t"
  by (rule rx_upd) (simp add: rx_part_def ack_fin_def Let_def)

lemma rx_duplicate [simp]: "rx_of (duplicate_ack h i j t) = rx_of t"
proof -
  have "rx_of (sock_upd j (\<lambda>s. s\<lparr>so_dupacks := so_dupacks s + 1\<rparr>) u) = rx_of u"
    "rx_of (sock_upd j (\<lambda>s. s\<lparr>so_threshold := max (2 * so_mss s) (so_cwnd s div 2), so_cwnd := so_mss s,
      so_retransmitted := True, so_sent_at := now\<rparr>) u) = rx_of u" for now and u :: "'a net"
    by (rule rx_upd; simp add: rx_part_def)+
  then show ?thesis by (simp add: duplicate_ack_def Let_def)
qed

lemma rx_acknowledge [simp]: "rx_of (snd (tcp_acknowledge h i j p len t)) = rx_of t"
proof -
  have "rx_of (sock_upd j (\<lambda>s. (net_tcp_rtt now (s\<lparr>so_snd_una := a, so_state := NS_ESTABLISHED\<rparr>))\<lparr>so_sent_at := 0\<rparr>) u) = rx_of u" for now a and u :: "'a net"
    by (rule rx_upd) (simp add: rx_part_def)
  then show ?thesis by (simp add: tcp_acknowledge_def Let_def)
qed

lemma rx_allowed [simp]: "rx_of (ack_if_allowed h i j t) = rx_of t"
  by (simp add: ack_if_allowed_def case_prod_beta split: bool.split)

lemma rx_refuse [simp]: "rx_of (tcp_refuse h i family src dst p len t) = rx_of t"
  unfolding tcp_refuse_def Let_def by (simp add: case_prod_beta split: bool.split)

lemma rx_new: "net_socket_new family type owner t = (Some k, t') \<Longrightarrow> so_used (n_sockets t j) \<Longrightarrow> j \<noteq> k \<and> rx_of t' j = rx_of t j"
  by (auto simp: net_socket_new_def rx_of_def sock_upd_def split: if_splits option.splits dest!: find_from_Some)

lemma rx_open: "so_used (n_sockets t j) \<Longrightarrow> rx_of (tcp_open h i family src dst p k l t) j = rx_of t j"
proof -
  assume u: "so_used (n_sockets t j)"
  have n: "rx_of (net_tcp_pump h k (sock_upd k f (snd (net_random t')))) j = rx_of t j"
    if "net_socket_new family 2 owner t = (Some k, t')" for k t' f owner
    using rx_new[OF that u] by (simp add: rx_of_def sock_upd_def core_random[THEN core_parts(1)])
  have z: "t' = t" if "net_socket_new family 2 owner t = (None, t')" for t' owner
    using that by (auto simp: net_socket_new_def split: if_splits option.splits)
  show ?thesis unfolding tcp_open_def Let_def using n
    by (auto split: option.split prod.split dest!: z) (metis snd_conv)
qed

section \<open>Segments\<close>

text \<open>What a segment adds to the stream of socket \<open>s\<close>: the bytes from \<open>off\<close> on, which continue at the next number expected.\<close>

definition appended :: "bytes \<Rightarrow> nat \<Rightarrow> nat \<Rightarrow> net_socket \<Rightarrow> net_socket \<Rightarrow> bool" where
  "appended p k len s s' \<longleftrightarrow>
     stream s' = stream s \<or>
     (\<exists>off m. 0 < m \<and> off + m \<le> len \<and> net_be32 p 4 + word_of_nat off = so_rcv_nxt s \<and>
        stream s' = stream s @ map (\<lambda>x. p (k + off + x)) [0..<m] \<and>
        (so_rcv_nxt s' = so_rcv_nxt s + word_of_nat m \<or> so_rcv_nxt s' = so_rcv_nxt s + word_of_nat m + 1))"

lemma appended_rx: "rx_of t' j = rx_of t j \<Longrightarrow> appended p k len (n_sockets t j) (n_sockets t' j)"
  by (auto simp: appended_def rx_of_def dest: stream_rx)

lemma appended_cong:
  assumes "rx_part s1 = rx_part s" "rx_part s2 = rx_part s'"
  shows "appended p k len s1 s2 \<longleftrightarrow> appended p k len s s'"
  by (simp only: appended_def stream_rx[OF assms(1)] stream_rx[OF assms(2)])

lemma appended_receive:
  assumes "so_rx_count s \<le> NET_STREAM" "net_be32 p 4 + word_of_nat trim = so_rcv_nxt s" "trim \<le> len"
  shows "appended p k len s (tcp_receive now p (k + trim) (len - trim) s)"
proof -
  let ?m = "min (len - trim) (NET_STREAM - so_rx_count s)"
  let ?r = "tcp_receive now p (k + trim) (len - trim) s"
  have "so_rx_count s + ?m \<le> NET_STREAM" using assms(1) by linarith
  then have "stream (take_data p (k + trim) ?m s) = stream s @ map (\<lambda>x. p (k + trim + x)) [0..<?m]"
    using ring_append[of "so_rx_count s" ?m "so_rx s" "so_rx_head s" p "k + trim"] by (simp add: stream_def take_data_def)
  moreover have "stream (take_fin now u) = stream u" "so_rcv_nxt (take_fin now u) = so_rcv_nxt u + 1" for u
    by (simp_all add: stream_def take_fin_def Let_def)
  ultimately have "stream ?r = stream s @ map (\<lambda>x. p (k + trim + x)) [0..<?m]"
    "so_rcv_nxt ?r = so_rcv_nxt s + word_of_nat ?m \<or> so_rcv_nxt ?r = so_rcv_nxt s + word_of_nat ?m + 1"
    by (simp_all only: tcp_receive_def Let_def split: if_split) (simp_all add: take_data_def)
  moreover have "trim + ?m \<le> len" using assms(3) by linarith
  ultimately show ?thesis unfolding appended_def using assms(2) by (cases "?m = 0") (auto simp del: min_less_iff_conj)
qed

lemma appended_data:
  assumes "net_ok t" "so_used (n_sockets t j)"
  shows "appended p k len (n_sockets t j) (n_sockets (tcp_data h j p k len t) j) \<and> (i \<noteq> j \<longrightarrow> rx_of (tcp_data h j p k len t) i = rx_of t i)"
proof -
  let ?w = "\<lambda>s. s\<lparr>so_peer_window := unat (net_be16 p 14)\<rparr>"
  let ?t = "sock_upd j ?w t"
  let ?s = "n_sockets ?t j"
  define trim where "trim = (if net_seq_before (net_be32 p 4) (so_rcv_nxt ?s) then min (unat (so_rcv_nxt ?s - net_be32 p 4)) len else 0)"
  have w: "rx_of ?t = rx_of t" by (rule rx_upd) (simp add: rx_part_def)
  let ?v = "sock_upd j (tcp_receive (n_now ?t) p (k + trim) (len - trim)) ?t"
  let ?y = "net_tcp_pump h j (net_tcp_ack h j ?v)"
  have v: "appended p k len (n_sockets t j) (n_sockets ?y j) \<and> (i \<noteq> j \<longrightarrow> rx_of ?y i = rx_of t i)" if q: "net_be32 p 4 + word_of_nat trim = so_rcv_nxt ?s"
  proof -
    have "so_rx_count ?s \<le> NET_STREAM" using ok_socket[OF assms] by (simp add: sock_ok_def upd_same)
    then have "appended p k len ?s (n_sockets ?v j)" using appended_receive[OF _ q] by (simp add: upd_same trim_def)
    moreover have "rx_of ?y = rx_of ?v" by simp
    then have "rx_part (n_sockets ?y j) = rx_part (n_sockets ?v j)" by (metis rx_of_def)
    moreover have "rx_part (n_sockets t j) = rx_part ?s" using w by (metis rx_of_def)
    ultimately have "appended p k len (n_sockets t j) (n_sockets ?y j)" using appended_cong by blast
    moreover have "rx_of ?v i = rx_of t i" if "i \<noteq> j" using that by (simp add: rx_of_def sock_upd_def)
    ultimately show ?thesis by simp
  qed
  have n: "appended p k len (n_sockets t j) (n_sockets u j) \<and> (i \<noteq> j \<longrightarrow> rx_of u i = rx_of t i)" if "rx_of u = rx_of t" for u :: "'a net"
    using that appended_rx[of u j t] by simp
  define P where "P u \<longleftrightarrow> appended p k len (n_sockets t j) (n_sockets u j) \<and> (i \<noteq> j \<longrightarrow> rx_of u i = rx_of t i)" for u :: "'a net"
  have "P (net_tcp_ack h j ?t)" "P (net_tcp_pump h j ?t)" "net_be32 p 4 + word_of_nat trim = so_rcv_nxt ?s \<Longrightarrow> P ?y"
    using v n[of "net_tcp_ack h j ?t"] n[of "net_tcp_pump h j ?t"] w by (simp_all add: P_def)
  then show ?thesis unfolding tcp_data_def Let_def trim_def[symmetric] P_def[symmetric] by (simp split: if_split)
qed

lemma appended_synchronized:
  assumes "net_ok t" "so_used (n_sockets t j)"
  shows "appended p k len (n_sockets t j) (n_sockets (tcp_synchronized h i j p k len t) j) \<and>
    (m \<noteq> j \<longrightarrow> rx_of (tcp_synchronized h i j p k len t) m = rx_of t m)"
proof -
  define P where "P u \<longleftrightarrow> appended p k len (n_sockets t j) (n_sockets u j) \<and> (m \<noteq> j \<longrightarrow> rx_of u m = rx_of t m)" for u :: "'a net"
  have n: "P u" if "rx_of u = rx_of t" for u using that appended_rx[of u j t] by (simp add: P_def)
  let ?a = "tcp_acknowledge h i j p len t"
  have u: "so_used (n_sockets (snd ?a) j)" if "\<not> fst ?a"
    using that assms(2) unfolding tcp_acknowledge_def
    by (auto simp: Let_def sock_upd_def ack_fin_def duplicate_ack_def count_retransmit_def info_upd_def dev_upd_def split: if_splits)
  have "P (tcp_data h j p k len (snd ?a))" if "\<not> fst ?a" "\<not> net_seq_before (so_snd_nxt (n_sockets t j)) (net_be32 p 8)"
  proof -
    have a: "rx_of (snd ?a) = rx_of t" by simp
    have "appended p k len (n_sockets t j) x \<longleftrightarrow> appended p k len (n_sockets (snd ?a) j) x" for x
      by (intro appended_cong refl) (metis a rx_of_def)
    then show ?thesis using appended_data[OF ok_acknowledge[OF assms(1) that(2)] u[OF that(1)], of p k len h m] unfolding P_def a by blast
  qed
  moreover have "P (snd ?a)" by (rule n) simp
  ultimately have "P (case ?a of (True, t) \<Rightarrow> t | (False, t) \<Rightarrow> tcp_data h j p k len t)"
    if "\<not> net_seq_before (so_snd_nxt (n_sockets t j)) (net_be32 p 8)" using that by (simp add: case_prod_beta split: bool.split)
  then show ?thesis unfolding tcp_synchronized_def Let_def P_def[symmetric] by (simp add: n)
qed

lemma rx_reply: "rx_of (tcp_connect_reply h j family p k t) m = rx_of t m \<or> m = j"
proof -
  have "rx_of (net_tcp_ack h j (sock_upd j f t)) m = rx_of t m \<or> m = j" for f by (auto simp: rx_of_def sock_upd_def)
  then show ?thesis unfolding tcp_connect_reply_def Let_def by (auto split: option.split)
qed

lemma stream_reply: "stream (n_sockets (tcp_connect_reply h j family p k t) j) = stream (n_sockets t j)"
proof -
  have "stream (n_sockets (net_tcp_error j e t) j) = stream (n_sockets t j)" for e by (metis rx_error rx_of_def stream_rx)
  then show ?thesis unfolding tcp_connect_reply_def Let_def
    by (auto simp: upd_same stream_def split: option.split)
qed

lemma appended_input:
  assumes "net_ok t" "so_used (n_sockets t j)"
  shows "appended p k len (n_sockets t j) (n_sockets (tcp_socket_input h i j family p k len t) j) \<and>
    (m \<noteq> j \<longrightarrow> rx_of (tcp_socket_input h i j family p k len t) m = rx_of t m)"
proof -
  let ?t = "sock_upd j (\<lambda>s. s\<lparr>so_activity := n_now t\<rparr>) t"
  define P where "P u \<longleftrightarrow> appended p k len (n_sockets t j) (n_sockets u j) \<and> (m \<noteq> j \<longrightarrow> rx_of u m = rx_of t m)" for u :: "'a net"
  have w: "rx_of ?t = rx_of t" by (rule rx_upd) (simp add: rx_part_def)
  have n: "P u" if "rx_of u = rx_of t" for u using that appended_rx[of u j t] by (simp add: P_def)
  have x: "P (sock_upd j (\<lambda>s. s\<lparr>so_deadline := d\<rparr>) (net_tcp_ack h j ?t))" "P (net_tcp_pump h j (sock_upd j (\<lambda>s. s\<lparr>so_sent_at := 0\<rparr>) ?t))" for d
  proof -
    have "rx_of (sock_upd j (\<lambda>s. s\<lparr>so_deadline := d\<rparr>) u) = rx_of u" "rx_of (sock_upd j (\<lambda>s. s\<lparr>so_sent_at := 0\<rparr>) u) = rx_of u" for u :: "'a net"
      by (rule rx_upd; simp add: rx_part_def)+
    then show "P (sock_upd j (\<lambda>s. s\<lparr>so_deadline := d\<rparr>) (net_tcp_ack h j ?t))" "P (net_tcp_pump h j (sock_upd j (\<lambda>s. s\<lparr>so_sent_at := 0\<rparr>) ?t))"
      using w by (intro n; simp)+
  qed
  have r: "P (tcp_connect_reply h j family p k ?t)"
    using rx_reply[of h j family p k ?t m] stream_reply[of h j family p k ?t] w
    by (auto simp: P_def appended_def upd_same stream_def)
  have ok: "net_ok ?t" by (rule ok_upd[OF assms(1)]) (auto simp: sock_ok_def)
  have "so_used (n_sockets ?t j)" using assms(2) by (simp add: upd_same)
  moreover have "appended p k len (n_sockets t j) y \<longleftrightarrow> appended p k len (n_sockets ?t j) y" for y
    by (intro appended_cong refl) (simp add: upd_same rx_part_def)
  ultimately have s: "P (tcp_synchronized h i j p k len ?t)"
    using appended_synchronized[OF ok, of j p k len h i m] unfolding P_def w by blast
  show ?thesis unfolding tcp_socket_input_def Let_def P_def[symmetric] using r s x n[OF w] by simp
qed

lemma lookup_there: "tcp_lookup t here there ks l = (Some j, l') \<Longrightarrow> here (n_sockets t j) \<and> there (n_sockets t j)"
  by (induction t here there ks l rule: tcp_lookup.induct) (auto simp: Let_def split: if_splits)

text \<open>
  C12. The receive side of a connection is a queue of bytes. A segment leaves the stream of every socket as it is, or it appends to the
  stream of the one connection it belongs to exactly the bytes that follow the last one received: those at the offset where the
  segment reaches the next sequence number expected, which then advances by their number (one more for a FIN); the checksum was right
  and the addresses and ports are those of the connection. A receive call takes bytes from the front and leaves the rest.
\<close>

theorem tcp_stream_queue:
  assumes "net_ok t" "so_used (n_sockets t j)" "so_type (n_sockets t j) = 2"
  shows "(let s = n_sockets t j; s' = n_sockets (net_tcp_input h i family src dst p n t) j; k = unat (drop_bit 4 (p 12)) * 4 in
      stream s' = stream s \<or>
      (\<exists>off m. 0 < m \<and> off + m \<le> n - k \<and> net_be32 p 4 + word_of_nat off = so_rcv_nxt s \<and>
         stream s' = stream s @ map (\<lambda>x. p (k + off + x)) [0..<m] \<and>
         (so_rcv_nxt s' = so_rcv_nxt s + word_of_nat m \<or> so_rcv_nxt s' = so_rcv_nxt s + word_of_nat m + 1) \<and>
         net_transport_sum family src dst 6 p n = 0 \<and> tcp_here family (ni_id (dinfo t i)) dst p s \<and> tcp_there family src p s)) \<and>
    (net_socket_owned (k_task_id c kn) handle t = Some j \<longrightarrow>
      (case k_net_receive h c kn handle l t of
         (Inl e, t') \<Rightarrow> stream (n_sockets t' j) = stream (n_sockets t j)
       | (Inr (bs, a), t') \<Rightarrow>
           stream (n_sockets t j) = bs @ stream (n_sockets t' j) \<and> length bs = min l (length (stream (n_sockets t j)))))"
  unfolding Let_def
proof (intro conjI impI)
  let ?s = "n_sockets t j"
  let ?k = "unat (drop_bit 4 (p 12)) * 4"
  let ?Q = "\<lambda>s'. stream s' = stream ?s \<or>
      (\<exists>off m. 0 < m \<and> off + m \<le> n - ?k \<and> net_be32 p 4 + word_of_nat off = so_rcv_nxt ?s \<and>
         stream s' = stream ?s @ map (\<lambda>x. p (?k + off + x)) [0..<m] \<and>
         (so_rcv_nxt s' = so_rcv_nxt ?s + word_of_nat m \<or> so_rcv_nxt s' = so_rcv_nxt ?s + word_of_nat m + 1) \<and>
         net_transport_sum family src dst 6 p n = 0 \<and> tcp_here family (ni_id (dinfo t i)) dst p ?s \<and> tcp_there family src p ?s)"
  define R where "R u \<longleftrightarrow> ?Q (n_sockets u j)" for u :: "'a net"
  have z: "R u" if "rx_of u j = rx_of t j" for u using that unfolding R_def rx_of_def by (auto dest: stream_rx)
  have f: "R (tcp_socket_input h i x family p ?k (n - ?k) t)"
    if "tcp_find t family (ni_id (dinfo t i)) src dst p = (Some x, y)" "net_transport_sum family src dst 6 p n = 0" for x y
  proof -
    have th: "tcp_here family (ni_id (dinfo t i)) dst p (n_sockets t x)" "tcp_there family src p (n_sockets t x)"
      using lookup_there[OF that(1)[unfolded tcp_find_def]] by simp_all
    then have "so_used (n_sockets t x)" by (simp add: tcp_here_def Let_def)
    note a = appended_input[OF assms(1) this, of p ?k "n - ?k" h i family j]
    show ?thesis
    proof (cases "x = j")
      case True
      then show ?thesis using a th that(2) unfolding R_def appended_def by blast
    qed (use a in \<open>auto intro: z\<close>)
  qed
  have "R (net_tcp_input h i family src dst p n t)"
    unfolding net_tcp_input_def Let_def using f z[of "tcp_open h i family src dst p ?k y t" for y] rx_open[OF assms(2)]
    by (auto simp: z split: prod.split option.split)
  then show "?Q (n_sockets (net_tcp_input h i family src dst p n t) j)" unfolding R_def .
next
  let ?s = "n_sockets t j"
  assume o: "net_socket_owned (k_task_id c kn) handle t = Some j"
  have l: "length (stream u) = so_rx_count u" for u by (simp add: stream_def ring_bytes_def)
  have "stream ?s = ring_bytes (so_rx ?s) (so_rx_head ?s) m @ stream (drop_rx m ?s)" if "m \<le> so_rx_count ?s" for m
    using ring_split[OF that, of "so_rx ?s" "so_rx_head ?s"] by (simp add: stream_def drop_rx_def)
  then show "case k_net_receive h c kn handle l t of (Inl e, t') \<Rightarrow> stream (n_sockets t' j) = stream ?s
       | (Inr (bs, a), t') \<Rightarrow> stream ?s = bs @ stream (n_sockets t' j) \<and> length bs = min l (length (stream ?s))"
    using o assms(3) unfolding k_net_receive_def on_socket_def receive_tcp_def Let_def l
    by (auto simp: upd_same ring_bytes_def split: option.split)
qed

definition ex_conn :: "nat \<Rightarrow> unit net" where
  "ex_conn owner =
     ex_net\<lparr>n_sockets := (\<lambda>_. zero_socket)(0 := (fresh_socket 1 4 2 owner 5)\<lparr>so_state := NS_ESTABLISHED, so_rx := (\<lambda>_. 0)(16383 := 65, 0 := 66),
        so_rx_head := 16383, so_rx_count := 2\<rparr>), n_next_socket := 2\<rparr>"

text \<open>Two bytes around the end of the ring, and a call that takes the first.\<close>

theorem tcp_stream_queue_witness:
  "\<forall>h k. let t = ex_conn (k_task_id 0 k) in
     net_ok t \<and> so_used (n_sockets t 0) \<and> so_type (n_sockets t 0) = 2 \<and> stream (n_sockets t 0) = [65, 66] \<and>
     (case k_net_receive h 0 k 1 1 t of
        (Inl e, t') \<Rightarrow> stream (n_sockets t' 0) = [65, 66]
      | (Inr (bs, a), t') \<Rightarrow> [65, 66] = bs @ stream (n_sockets t' 0) \<and> length bs = 1)"
proof (intro allI)
  fix h :: "unit nics" and k
  let ?t = "ex_conn (k_task_id 0 k)"
  have s: "n_sockets ?t 0 = (fresh_socket 1 4 2 (k_task_id 0 k) 5)\<lparr>so_state := NS_ESTABLISHED, so_rx := (\<lambda>_. 0)(16383 := 65, 0 := 66),
        so_rx_head := 16383, so_rx_count := 2\<rparr>" by (simp add: ex_conn_def)
  have u: "so_used (n_sockets ?t 0)" "so_type (n_sockets ?t 0) = 2" unfolding s by (simp_all add: fresh_socket_def zero_socket_def Let_def)
  have o: "so_used (n_sockets ?t j) \<longleftrightarrow> j = 0" for j using u(1) by (cases "j = 0") (simp_all add: ex_conn_def zero_socket_def)
  have k: "sock_ok (n_sockets ?t 0)" unfolding s by (simp add: sock_ok_def fresh_socket_def zero_socket_def fin_state_def NET_STREAM_def NET_DGRAMS_def Let_def)
  have i: "so_id (n_sockets ?t 0) = 1" unfolding s by (simp add: fresh_socket_def Let_def)
  have ok: "net_ok ?t"
    unfolding net_ok_def handles_ok_def o using k i
    by (simp add: ex_conn_def ex_net_def mtu_ok_def dev_core_def zero_device_def zero_info_def)
  have st: "stream (n_sockets ?t 0) = [65, 66]" unfolding s by (simp add: stream_def ring_bytes_def NET_STREAM_def upt_rec)
  have m: "min 1 (length [65, 66 :: u8]) = 1" by simp
  have w: "net_socket_owned (k_task_id 0 k) 1 ?t = Some 0"
    unfolding net_socket_owned_def Let_def find_from_def using u(1) i
    by (simp add: K_NET_MAX_SOCKETS_def upt_rec s fresh_socket_def zero_socket_def Let_def)
  show "let t = ?t in
     net_ok t \<and> so_used (n_sockets t 0) \<and> so_type (n_sockets t 0) = 2 \<and> stream (n_sockets t 0) = [65, 66] \<and>
     (case k_net_receive h 0 k 1 1 t of
        (Inl e, t') \<Rightarrow> stream (n_sockets t' 0) = [65, 66]
      | (Inr (bs, a), t') \<Rightarrow> [65, 66] = bs @ stream (n_sockets t' 0) \<and> length bs = 1)"
    using mp[OF conjunct2[OF tcp_stream_queue[OF ok u, of h 0 4 "\<lambda>_. 0" "\<lambda>_. 0" "\<lambda>_. 0" 0 0 k 1 1]] w, unfolded st m] ok u st
    unfolding Let_def by blast
qed

section \<open>Datagrams\<close>

text \<open>The datagrams of a UDP socket are a bounded queue as well: sender and contents, put by \<open>net_udp_input\<close> and taken by \<open>k_net_receive\<close>.\<close>

definition dg_message :: "net_datagram \<Rightarrow> k_net_address \<times> u8 list" where
  "dg_message q = (dg_from q, map (dg_bytes q) [0..<dg_length q])"

definition udp_messages :: "net_socket \<Rightarrow> (k_net_address \<times> u8 list) list" where
  "udp_messages s = map (\<lambda>i. dg_message (so_datagrams s ((so_q_head s + i) mod NET_DGRAMS))) [0..<so_q_count s]"

definition udp_put :: "k_net_address \<times> u8 list \<Rightarrow> net_socket \<Rightarrow> net_socket option" where
  "udp_put m s =
     (if so_q_count s = NET_DGRAMS then None
      else Some (queue_datagram (fst m) (\<lambda>i. if i < 8 + length (snd m) then snd m ! (i - 8) else 0) (length (snd m)) s))"

definition udp_get :: "net_socket \<Rightarrow> ((k_net_address \<times> u8 list) \<times> net_socket) option" where
  "udp_get s = (if so_q_count s = 0 then None else Some (dg_message (so_datagrams s (so_q_head s)), drop_datagram s))"

definition udp_ok :: "net_socket \<Rightarrow> bool" where
  "udp_ok s \<longleftrightarrow> so_q_count s \<le> NET_DGRAMS \<and> so_q_head s < NET_DGRAMS"

lemma udp_put_messages:
  assumes "udp_ok s" "udp_put m s = Some s'"
  shows "udp_messages s' = udp_messages s @ [m]" "udp_ok s'"
proof -
  let ?p = "\<lambda>i. if i < 8 + length (snd m) then snd m ! (i - 8) else 0"
  have c: "so_q_count s < NET_DGRAMS" and s': "s' = queue_datagram (fst m) ?p (length (snd m)) s"
    using assms by (auto simp: udp_put_def udp_ok_def split: if_splits)
  have e: "map (put_bytes b 0 ?p 8 (length (snd m))) [0..<length (snd m)] = snd m" for b
    by (rule nth_equalityI) (simp_all add: put_bytes_apply)
  have "(so_q_head s + i) mod NET_DGRAMS \<noteq> (so_q_head s + so_q_count s) mod NET_DGRAMS" if "i < so_q_count s" for i
    by (rule mod_apart) (use that c in auto)
  then show "udp_messages s' = udp_messages s @ [m]"
    unfolding s' udp_messages_def queue_datagram_def Let_def by (simp add: dg_message_def e)
  show "udp_ok s'" using assms(1) c by (simp add: s' queue_datagram_def udp_ok_def Let_def)
qed

lemma udp_get_messages:
  assumes "udp_ok s" "udp_get s = Some (m, s')"
  shows "udp_messages s = m # udp_messages s'" "udp_ok s'"
proof -
  from assms obtain c where c: "so_q_count s = Suc c" "m = dg_message (so_datagrams s (so_q_head s))" "s' = drop_datagram s"
    by (cases "so_q_count s") (auto simp: udp_get_def split: if_splits)
  have h: "so_q_head s mod NET_DGRAMS = so_q_head s" using assms(1) by (simp add: udp_ok_def)
  have "(so_q_head s + 1) mod NET_DGRAMS < NET_DGRAMS" by (simp add: NET_DGRAMS_def)
  then show "udp_ok s'" using assms(1) c by (simp add: udp_ok_def drop_datagram_def)
  have "((so_q_head s + 1) mod NET_DGRAMS + i) mod NET_DGRAMS = (so_q_head s + Suc i) mod NET_DGRAMS" for i by (simp add: mod_add_left_eq)
  then show "udp_messages s = m # udp_messages s'"
    unfolding udp_messages_def c(1,2) by (simp add: c drop_datagram_def upt_conv_Cons map_Suc_upt[symmetric] h del: upt_Suc)
qed

interpretation dgrams: bounded_queue udp_put udp_get udp_messages udp_ok NET_DGRAMS
proof
  fix s :: net_socket and m s'
  assume "udp_ok s"
  then show "udp_put m s = None \<longleftrightarrow> length (udp_messages s) = NET_DGRAMS" "udp_get s = None \<longleftrightarrow> udp_messages s = []"
    "length (udp_messages s) \<le> NET_DGRAMS"
    by (simp_all add: udp_put_def udp_get_def udp_messages_def udp_ok_def)
  show "udp_messages s' = udp_messages s @ [m] \<and> udp_ok s'" if "udp_put m s = Some s'" using udp_put_messages[OF \<open>udp_ok s\<close> that] by simp
  show "udp_messages s = m # udp_messages s' \<and> udp_ok s'" if "udp_get s = Some (m, s')" using udp_get_messages[OF \<open>udp_ok s\<close> that] by simp
qed

text \<open>Datagrams are received in the order they arrived, whole, none invented and none reordered.\<close>

lemma udp_fifo: "udp_ok s \<Longrightarrow> queue_run udp_put udp_get ops s = (a, r, s') \<Longrightarrow> udp_messages s @ a = r @ udp_messages s'"
  by (rule dgrams.run_fifo)

end
