(* ===== verification/Spec2Isabelle.thy ===== *)
theory Spec2Isabelle
  imports HeapCorrect MmuInv SchedInv Sync Ipc RiefInv CallProps VfsInv FatMount FatMountInv FatRound NativeVfs NativeRound
    NetSum NetText NetStream
begin

text \<open>
  A verification of the efishell kernel (\<open>src/kernel-src\<close>), a single-image x86-64 kernel: it manages
  pages and page tables, schedules tasks, loads RIEF executables, dispatches the system calls of user
  processes, serves files from a RAM name space and from FAT, ext4 and NTFS volumes, and has a network
  stack of its own. The development is a shallow embedding: every C function is a HOL function on an explicit state record,
  errors are the negative codes of the source, and fixed-width arithmetic is kept where it can wrap.

  \<^bold>\<open>How the parts fit together.\<close> The page allocator is the base of everything that needs memory: the
  heap, the page tables, RAM disks and the caches of volumes. The memory manager builds address spaces
  from its pages. Scheduler, synchronisation and messages work on the tables of tasks and CPUs; the
  process manager owns tasks, an address space, services, grants and leases, and the system call
  dispatcher is the only way for a user program to reach any of this. Below the files are the disk
  table, the partition tables and the three kinds of volumes; above them the mount table and the path
  resolution. The network stack has its own state and lock; it reads the calling task and hands frames to
  the adapters, and its worker task takes received frames from one queue.

  \<^bold>\<open>Theories and sources.\<close>
  \<^item> \<open>Prelude\<close>, \<open>KLib\<close>: machine words, rule collections, the string, memory and little-endian helpers of
    \<open>kernel/kernel.c\<close>. A byte array is a function from offsets; C strings are lists with their
    terminator at \<open>NUL\<close> or at the end.
  \<^item> \<open>Pmm\<close>: \<open>kernel/mm/physical.c\<close>, record \<open>pmm\<close> with the two bitmaps, and the contents of memory in \<open>ram\<close>.
  \<^item> \<open>Heap\<close>, \<open>HeapInv\<close>, \<open>HeapCorrect\<close>: \<open>kernel/mm/heap.c\<close>, record \<open>heap\<close> with arenas and large blocks.
  \<^item> \<open>Mmu\<close>, \<open>MmuInv\<close>: \<open>arch/x86_64/mmu.c\<close>, \<open>vm_features.c\<close>; page tables are words in \<open>ram\<close>.
  \<^item> \<open>Kern\<close>: the record \<open>kernel\<close> of tasks, CPUs, processes and services (\<open>include/kernel_internal.h\<close>).
  \<^item> \<open>Sched\<close>, \<open>SchedInv\<close>, \<open>Sync\<close>, \<open>Queue\<close>, \<open>Ipc\<close>: tasks, mutexes, semaphores and messages of \<open>kernel/kernel.c\<close>.
  \<^item> \<open>Rief\<close>, \<open>RiefInv\<close>, \<open>Process\<close>, \<open>Service\<close>, \<open>Syscall\<close>, \<open>Dispatch\<close>: loader, processes, services and system calls
    of \<open>kernel/process.c\<close>; \<open>Authority\<close>, \<open>Privilege\<close>, \<open>ProcessInv\<close>, \<open>CallProps\<close>: their properties.
  \<^item> \<open>Path\<close>, \<open>Vfs\<close>, \<open>VfsInv\<close>: paths, named roots, RAM files and the file calls of \<open>fs/fs.c\<close>.
  \<^item> \<open>Storage\<close>, \<open>Partition\<close>: the disk table of \<open>drivers/storage/storage.c\<close>; byte reads, GPT and MBR of \<open>fs/fs.c\<close>.
  \<^item> \<open>Fat\<close>, \<open>FatWrite\<close>, \<open>FatCreate\<close>, \<open>FatMount\<close>: FAT volumes of \<open>fs/fs.c\<close>; \<open>DiskFrame\<close>, \<open>FatRead\<close>, \<open>FatFrame\<close>,
    \<open>FatSafe\<close>, \<open>FatMountInv\<close>, \<open>FatRound\<close>: their properties.
  \<^item> \<open>Io\<close>: computations on a state that may fail, used for \<open>fs/fs.c\<close> where it threads an error code
    through many calls.
  \<^item> \<open>Native\<close>, \<open>Ntfs\<close>, \<open>NativeOps\<close>: reading of ext4 and NTFS volumes and writing in place (\<open>fs/fs.c\<close>); \<open>ExtWrite\<close>,
    \<open>NtfsWrite\<close>: the staged rewrites and creations, whose staged blocks or sectors are an association
    list; \<open>NativeVfs\<close>: the entry points, and the file calls with all volumes filled in; \<open>NativeInv\<close>,
    \<open>NtfsRound\<close>, \<open>NativeRound\<close>: their properties.
  \<^item> \<open>Net\<close>, \<open>NetIp\<close>, \<open>NetTcp\<close>, \<open>NetIn\<close>, \<open>NetCall\<close>: \<open>drivers/net/networking.c\<close> in the order of the file: addresses and checksums;
    sockets, routes, neighbours and IP output; UDP and TCP; the receive path; the calls, the timers and
    the worker. \<open>nic_transmit\<close> is from \<open>drivers/net/ethernet.c\<close>. \<open>NetText\<close>, \<open>NetSum\<close>, \<open>NetInv\<close>, \<open>NetRun\<close>, \<open>NetStream\<close>: their
    properties. The time is read once per critical section (\<open>n_now\<close>).

  \<^bold>\<open>Interfaces.\<close> The locale \<open>page_allocator\<close> (in \<open>Pmm\<close>) is what clients rely on from the allocator,
  \<open>bounded_queue\<close> (in \<open>Queue\<close>) what a ring buffer promises (mailboxes, UDP datagrams), \<open>sector_reader\<close> (in \<open>Partition\<close>) what byte reads need
  of sector reads, and \<open>disk_frame\<close> (in \<open>DiskFrame\<close>) with its extension \<open>volume_frame\<close> (in \<open>FatFrame\<close>) says what every
  disk access of a volume operation keeps. Each is interpreted on the operations of the model.

  \<^bold>\<open>What the theorems show.\<close>
  \<^item> Memory: allocations are fresh, aligned, zeroed and disjoint, frees are exact, user ranges that pass
    the check are mapped with the rights required, and mapping is all or nothing.
  \<^item> Execution: one running task per CPU on its own tables, fair choice, no lost wake-up, mailboxes
    refine bounded queues.
  \<^item> Authority: no system call lets a Ring 3 process gain what only Ring 1 has; identifiers are never
    reused, kills are final, partitions are written under a lease only; a RIEF image is validated
    completely before it runs, and a failed load changes nothing.
  \<^item> Names: path resolution equals a reference on component lists and cannot leave a named root; the
    mount chosen is the deepest one.
  \<^item> Volumes: partitions are disjoint and inside the disk; a store to a RAM file or a FAT file reads back,
    FAT writes stay in the volume, leave live data alone until the directory entry is written, and stop
    after a failure; the block runs of ext4 and NTFS files are disjoint and inside the volume, reads
    deliver exactly those blocks and never bytes past the initialized part, NTFS
    records survive packing and fixup, and the ext4 inodes and NTFS data attributes the kernel writes
    decode to the blocks they were written for.
  \<^item> Network: in every run the buffers and sequence numbers of all sockets stay in their bounds and handles
    are distinct; a connection is a queue of bytes that segments extend exactly in order; every segment and
    datagram sent passes the checks of the receive path; the text of an address parses to that address.

  \<^bold>\<open>Bounds and termination.\<close> Loops are structural recursions over index lists or \<open>function\<close>s with a
  measure, so no fuel is needed; loops over on-disk chains carry the counters of the source, which bound
  them. \<open>disk_write_fs\<close> and \<open>disk_bytes\<close> are partial functions because the source divides by the sector size of the
  disk; \<open>disk_write_terminates\<close> shows that they return for every registered disk. The send loop of TCP
  stops at a segment size of zero, where the loop of the source would not end; \<open>net_invariant\<close> shows that no socket has one. Block numbers and offsets of volumes are
  natural numbers where the guards of the source exclude wrapping; where the guards are on wrapped
  values (\<open>overlap\<close>, \<open>add64\<close>) the model wraps.

  \<^bold>\<open>Concurrency.\<close> Every operation is one critical section, as the source takes the kernel lock or a mutex around it; blocking
  operations are one step per attempt, and \<open>sync_step\<close>, \<open>kernel_step\<close>, \<open>net_step\<close> interleave them.

  \<^bold>\<open>Not modelled.\<close> The command sequences of the disk, network, USB, audio and video drivers and the
  CPU, ACPI and timer code are port and memory-mapped I/O; disk commands are the record \<open>hw\<close>, whose contract
  (the device keeps sectors it was not told to write) is an explicit hypothesis where it is used. Calls of the
  dispatcher into the console, input and network code are the record \<open>env\<close>. The value of the cycle counter is an argument of \<open>ext_create\<close>.
  The network adapters are the record \<open>nics\<close> (what becomes of a frame handed to one), received frames arrive by
  \<open>net_enqueue\<close>; the search for adapters in \<open>k_net_init\<close> (its result is \<open>net_boot\<close>), the wireless table and the copying of
  arguments in \<open>net_syscall\<close> are left out. The shell (\<open>os/os.c\<close>) and the host tool \<open>tools/rief.c\<close> are outside the development.
\<close>

end
